(* ===== verification/Prelude.thy ===== *)
theory Prelude
  imports Complex_Main "HOL-Library.Char_ord" "HOL-Library.List_Lexorder"
    "HOL-Library.Product_Lexorder" "HOL-Library.Multiset" "HOL-Library.AList"
begin

text \<open>
  What the components share: the types of the values they exchange, the parts of Python's
  built-ins the sources use (\<open>max\<close> with a key, ordered dictionaries, \<open>str.split\<close>, \<open>str.isalpha\<close>,
  \<open>str.lower\<close>, slices), and the generic lemmas on them. A Python \<open>float\<close> is modelled as a
  \<open>real\<close>: comparisons, \<open>max\<close>, \<open>min\<close> and the arithmetic are the code's, rounding and the two
  infinities are not modelled. A Python \<open>int\<close> is an \<open>int\<close>, or a \<open>nat\<close> where it is a count.
  A \<open>str\<close> is a \<open>string\<close>, so its characters are the ASCII ones. A \<open>datetime\<close> is a real number of
  seconds on the UTC time line.
\<close>

named_theorems range_intros \<open>introduction rules for the value range of a feature map\<close>
named_theorems store_laws \<open>read-after-write laws of the stores\<close>

type_synonym seconds = real

section \<open>Python's max with a key\<close>

text \<open>\<open>max(xs, key=f)\<close> keeps the first element whose key is maximal.\<close>

fun max_from :: "('a \<Rightarrow> 'b::linorder) \<Rightarrow> 'a \<Rightarrow> 'a list \<Rightarrow> 'a" where
  "max_from f b [] = b"
| "max_from f b (x # xs) = max_from f (if f b < f x then x else b) xs"

definition py_max :: "('a \<Rightarrow> 'b::linorder) \<Rightarrow> 'a list \<Rightarrow> 'a option" where
  "py_max f xs = (case xs of [] \<Rightarrow> None | x # xs' \<Rightarrow> Some (max_from f x xs'))"

lemma max_from_in: "max_from f b xs \<in> insert b (set xs)"
  by (induction xs arbitrary: b) force+

lemma max_from_ge: "x \<in> insert b (set xs) \<Longrightarrow> f x \<le> f (max_from f b xs)"
proof (induction xs arbitrary: b x)
  case Nil
  then show ?case by simp
next
  case (Cons y ys)
  let ?c = "if f b < f y then y else b"
  have step: "f z \<le> f (max_from f ?c ys)" if "z \<in> insert ?c (set ys)" for z
    using Cons.IH [OF that] .
  have c: "f ?c \<le> f (max_from f ?c ys)" by (rule step) simp
  have eq: "max_from f b (y # ys) = max_from f ?c ys" by simp
  show ?case
  proof (cases "x \<in> set ys")
    case True
    then show ?thesis unfolding eq by (intro step) simp
  next
    case False
    with Cons.prems have "x = b \<or> x = y" by auto
    then have "f x \<le> f ?c" by (auto simp: not_less)
    then show ?thesis unfolding eq using c by (rule order_trans)
  qed
qed

lemma py_max_None_iff [simp]: "py_max f xs = None \<longleftrightarrow> xs = []"
  by (cases xs) (simp_all add: py_max_def)

lemma py_max_Nil [simp]: "py_max f [] = None"
  by simp

lemma py_max_in:
  assumes "py_max f xs = Some m"
  shows "m \<in> set xs"
proof (cases xs)
  case Nil
  with assms show ?thesis by simp
next
  case (Cons y ys)
  with assms have "m = max_from f y ys" by (simp add: py_max_def)
  with Cons show ?thesis using max_from_in [of f y ys] by simp
qed

lemma py_max_ge:
  assumes "py_max f xs = Some m" and "x \<in> set xs"
  shows "f x \<le> f m"
proof (cases xs)
  case Nil
  with assms(2) show ?thesis by simp
next
  case (Cons y ys)
  with assms(1) have "m = max_from f y ys" by (simp add: py_max_def)
  with Cons assms(2) show ?thesis using max_from_ge [of x y ys f] by simp
qed

lemma py_max_singleton [simp]: "py_max f [x] = Some x"
  by (simp add: py_max_def)

lemma max_from_unique_key:
  assumes "inj_on f (insert b (set xs))" and "m \<in> insert b (set xs)"
    and "\<And>x. x \<in> insert b (set xs) \<Longrightarrow> f x \<le> f m"
  shows "max_from f b xs = m"
proof -
  have "f m \<le> f (max_from f b xs)" by (rule max_from_ge [OF assms(2)])
  moreover have "f (max_from f b xs) \<le> f m" by (rule assms(3) [OF max_from_in])
  ultimately have "f (max_from f b xs) = f m" by (rule antisym [rotated])
  then show ?thesis by (rule inj_onD [OF assms(1) _ max_from_in assms(2)])
qed

lemma py_max_unique_key:
  assumes "inj_on f (set xs)" and "m \<in> set xs" and "\<And>x. x \<in> set xs \<Longrightarrow> f x \<le> f m"
  shows "py_max f xs = Some m"
proof (cases xs)
  case Nil
  with assms(2) show ?thesis by simp
next
  case (Cons y ys)
  have "max_from f y ys = m"
    using assms unfolding Cons by (intro max_from_unique_key) simp_all
  with Cons show ?thesis by (simp add: py_max_def)
qed

text \<open>With pairwise different keys the order of the list does not matter.\<close>

lemma py_max_set_eq:
  assumes "set xs = set ys" and "inj_on f (set xs)"
  shows "py_max f xs = py_max f ys"
proof (cases "py_max f xs")
  case None
  with assms(1) show ?thesis by simp
next
  case (Some m)
  have "py_max f ys = Some m"
    using assms py_max_in [OF Some] py_max_ge [OF Some] by (intro py_max_unique_key) auto
  with Some show ?thesis by simp
qed

section \<open>Strings\<close>

definition is_lower :: "char \<Rightarrow> bool" where
  "is_lower c \<longleftrightarrow> 97 \<le> (of_char c :: nat) \<and> (of_char c :: nat) \<le> 122"

definition is_upper :: "char \<Rightarrow> bool" where
  "is_upper c \<longleftrightarrow> 65 \<le> (of_char c :: nat) \<and> (of_char c :: nat) \<le> 90"

definition is_alpha :: "char \<Rightarrow> bool" where
  "is_alpha c \<longleftrightarrow> is_lower c \<or> is_upper c"

definition is_digit :: "char \<Rightarrow> bool" where
  "is_digit c \<longleftrightarrow> 48 \<le> (of_char c :: nat) \<and> (of_char c :: nat) \<le> 57"

definition is_space :: "char \<Rightarrow> bool" where
  "is_space c \<longleftrightarrow> (let n = (of_char c :: nat) in n = 32 \<or> (9 \<le> n \<and> n \<le> 13) \<or> (28 \<le> n \<and> n \<le> 31))"

definition lower_char :: "char \<Rightarrow> char" where
  "lower_char c = (if is_upper c then char_of ((of_char c :: nat) + 32) else c)"

definition upper_char :: "char \<Rightarrow> char" where
  "upper_char c = (if is_lower c then char_of ((of_char c :: nat) - 32) else c)"

definition lower_str :: "string \<Rightarrow> string" where
  "lower_str = map lower_char"

definition upper_str :: "string \<Rightarrow> string" where
  "upper_str = map upper_char"

definition lstrip_by :: "(char \<Rightarrow> bool) \<Rightarrow> string \<Rightarrow> string" where
  "lstrip_by p s = dropWhile p s"

definition rstrip_by :: "(char \<Rightarrow> bool) \<Rightarrow> string \<Rightarrow> string" where
  "rstrip_by p s = rev (dropWhile p (rev s))"

definition strip :: "string \<Rightarrow> string" where
  "strip s = rstrip_by is_space (lstrip_by is_space s)"

fun split_ws_from :: "string \<Rightarrow> string \<Rightarrow> string list" where
  "split_ws_from cur [] = (if cur = [] then [] else [rev cur])"
| "split_ws_from cur (c # cs) =
     (if is_space c then (if cur = [] then split_ws_from [] cs else rev cur # split_ws_from [] cs)
      else split_ws_from (c # cur) cs)"

text \<open>\<open>s.split()\<close>: the runs of non-blank characters.\<close>

definition split_ws :: "string \<Rightarrow> string list" where
  "split_ws s = split_ws_from [] s"

fun split_on :: "char \<Rightarrow> string \<Rightarrow> string list" where
  "split_on d [] = [[]]"
| "split_on d (c # cs) =
     (if c = d then [] # split_on d cs
      else (case split_on d cs of [] \<Rightarrow> [[c]] | w # ws \<Rightarrow> (c # w) # ws))"

fun join_with :: "string \<Rightarrow> string list \<Rightarrow> string" where
  "join_with sep [] = []"
| "join_with sep [w] = w"
| "join_with sep (w # v # ws) = w @ sep @ join_with sep (v # ws)"

definition starts_with :: "string \<Rightarrow> string \<Rightarrow> bool" where
  "starts_with p s \<longleftrightarrow> take (length p) s = p"

fun contains :: "string \<Rightarrow> string \<Rightarrow> bool" where
  "contains p [] = (p = [])"
| "contains p (c # cs) = (starts_with p (c # cs) \<or> contains p cs)"

lemma split_on_not_Nil [simp]: "split_on d s \<noteq> []"
  by (cases s) (auto split: list.splits)

lemma join_with_cons_char: "join_with sep ((c # w) # ws) = c # join_with sep (w # ws)"
  by (cases ws) simp_all

lemma join_with_Nil_head: "ws \<noteq> [] \<Longrightarrow> join_with sep ([] # ws) = sep @ join_with sep ws"
  by (cases ws) simp_all

lemma join_split_on: "join_with [d] (split_on d s) = s"
proof (induction s)
  case Nil
  show ?case by simp
next
  case IH: (Cons c s)
  obtain w ws where w: "split_on d s = w # ws"
    using split_on_not_Nil [of d s] by (cases "split_on d s") blast+
  show ?case
  proof (cases "c = d")
    case True
    then show ?thesis using IH by (simp add: join_with_Nil_head)
  next
    case False
    then show ?thesis using IH w by (simp add: join_with_cons_char)
  qed
qed

lemma split_ws_from_nonempty: "w \<in> set (split_ws_from cur s) \<Longrightarrow> w \<noteq> []"
proof (induction cur s rule: split_ws_from.induct)
  case (1 cur)
  then show ?case by (cases "cur = []") simp_all
next
  case (2 cur c cs)
  then show ?case by (cases "is_space c"; cases "cur = []") auto
qed

lemma split_ws_nonempty: "w \<in> set (split_ws s) \<Longrightarrow> w \<noteq> []"
  by (simp add: split_ws_def split_ws_from_nonempty)

section \<open>Ordered de-duplication\<close>

text \<open>The loop that keeps the first occurrence of every key.\<close>

fun dedup_from :: "('a \<Rightarrow> 'k) \<Rightarrow> 'k set \<Rightarrow> 'a list \<Rightarrow> 'a list" where
  "dedup_from f seen [] = []"
| "dedup_from f seen (x # xs) =
     (if f x \<in> seen then dedup_from f seen xs else x # dedup_from f (insert (f x) seen) xs)"

lemma dedup_from_subset: "set (dedup_from f seen xs) \<subseteq> set xs"
  by (induction f seen xs rule: dedup_from.induct) auto

lemma dedup_from_keys: "f ` set (dedup_from f seen xs) = f ` set xs - seen"
  by (induction f seen xs rule: dedup_from.induct) auto

lemma dedup_from_distinct: "distinct (map f (dedup_from f seen xs))"
  by (induction f seen xs rule: dedup_from.induct) (auto simp: dedup_from_keys)

lemma dedup_from_first:
  "x \<in> set (dedup_from f seen xs) \<Longrightarrow>
     \<exists>us vs. xs = us @ x # vs \<and> f x \<notin> f ` set us"
proof (induction f seen xs rule: dedup_from.induct)
  case (1 f seen)
  then show ?case by simp
next
  case (2 f seen y xs)
  show ?case
  proof (cases "f y \<in> seen")
    case True
    with 2 obtain us vs where "xs = us @ x # vs" "f x \<notin> f ` set us" by auto
    moreover have "f x \<notin> seen"
      using True 2(3) dedup_from_keys [of f seen xs] by auto
    then have "f x \<noteq> f y" using True by metis
    ultimately have "y # xs = (y # us) @ x # vs \<and> f x \<notin> f ` set (y # us)" by simp
    then show ?thesis by blast
  next
    case False
    show ?thesis
    proof (cases "x = y")
      case True
      then have "y # xs = [] @ x # xs \<and> f x \<notin> f ` set []" by simp
      then show ?thesis by blast
    next
      case neq: False
      with False 2(3) have in': "x \<in> set (dedup_from f (insert (f y) seen) xs)" by simp
      with False 2(2) obtain us vs where "xs = us @ x # vs" "f x \<notin> f ` set us" by auto
      moreover have "f x \<noteq> f y"
        using in' dedup_from_keys [of f "insert (f y) seen" xs] by auto
      ultimately have "y # xs = (y # us) @ x # vs \<and> f x \<notin> f ` set (y # us)" by simp
      then show ?thesis by blast
    qed
  qed
qed

section \<open>Numbers\<close>

definition clamp01 :: "real \<Rightarrow> real" where
  "clamp01 v = max 0 (min 1 v)"

lemma clamp01_nonneg [simp]: "0 \<le> clamp01 v"
  by (simp add: clamp01_def)

lemma clamp01_le_one [simp]: "clamp01 v \<le> 1"
  by (simp add: clamp01_def)

lemma clamp01_id: "0 \<le> v \<Longrightarrow> v \<le> 1 \<Longrightarrow> clamp01 v = v"
  by (simp add: clamp01_def)

lemma clamp01_mono: "v \<le> w \<Longrightarrow> clamp01 v \<le> clamp01 w"
  by (auto simp: clamp01_def)

lemma sum_list_map_mono:
  fixes f g :: "'a \<Rightarrow> real"
  shows "(\<And>x. x \<in> set xs \<Longrightarrow> f x \<le> g x) \<Longrightarrow> sum_list (map f xs) \<le> sum_list (map g xs)"
  by (induction xs) (auto intro: add_mono)

lemma sum_list_map_nonneg:
  fixes f :: "'a \<Rightarrow> real"
  shows "(\<And>x. x \<in> set xs \<Longrightarrow> 0 \<le> f x) \<Longrightarrow> 0 \<le> sum_list (map f xs)"
  by (induction xs) auto

lemma ratio_le_one: "0 \<le> a \<Longrightarrow> a \<le> b \<Longrightarrow> a / b \<le> (1::real)"
  by (cases "b = 0") (auto simp: divide_le_eq)

lemma count_ratio_range:
  fixes k n :: nat
  assumes "k \<le> n"
  shows "0 \<le> real k / real n \<and> real k / real n \<le> 1"
  using assms by (auto simp: divide_le_eq)

end
