(* ===== verification/Breaker.thy ===== *)
theory Breaker
  imports Prelude
begin

text \<open>
  The circuit breaker around every Ollama call (\<open>llm/breaker.py\<close>). The object's fields are the
  record \<open>breaker\<close>; the constructor's parameters are \<open>breaker_cfg\<close>; the clock is read by the
  caller and passed in; the state-change callback is the list \<open>br_log\<close> of the transitions it was
  called with, oldest last. Every method holds the object's lock, so a run of the breaker is a
  sequence of whole method calls.
\<close>

section \<open>State and operations\<close>

datatype breaker_state = CLOSED | OPEN | HALF_OPEN

record breaker_cfg =
  fail_threshold :: int
  base_cooldown :: seconds
  max_cooldown :: seconds

record breaker =
  br_state :: breaker_state
  consecutive_failures :: int
  cooldown :: seconds
  opened_at :: seconds
  br_log :: "(breaker_state \<times> breaker_state) list"

definition default_breaker_cfg :: breaker_cfg where
  "default_breaker_cfg = \<lparr>fail_threshold = 3, base_cooldown = 60, max_cooldown = 900\<rparr>"

definition breaker_init :: "breaker_cfg \<Rightarrow> breaker" where
  "breaker_init cfg =
     \<lparr>br_state = CLOSED, consecutive_failures = 0, cooldown = base_cooldown cfg, opened_at = 0,
      br_log = []\<rparr>"

definition transition :: "breaker_state \<Rightarrow> breaker \<Rightarrow> breaker" where
  "transition new b =
     (if br_state b = new then b
      else b\<lparr>br_state := new, br_log := (br_state b, new) # br_log b\<rparr>)"

definition allow :: "seconds \<Rightarrow> breaker \<Rightarrow> bool \<times> breaker" where
  "allow clock b =
     (if br_state b = OPEN then
        (if clock - opened_at b \<ge> cooldown b then (True, transition HALF_OPEN b) else (False, b))
      else (True, b))"

definition record_success :: "breaker_cfg \<Rightarrow> breaker \<Rightarrow> breaker" where
  "record_success cfg b =
     transition CLOSED (b\<lparr>consecutive_failures := 0, cooldown := base_cooldown cfg\<rparr>)"

definition record_response :: "breaker_cfg \<Rightarrow> breaker \<Rightarrow> breaker" where
  "record_response cfg b = record_success cfg b"

definition record_failure :: "breaker_cfg \<Rightarrow> seconds \<Rightarrow> breaker \<Rightarrow> breaker" where
  "record_failure cfg clock b =
     (if br_state b = HALF_OPEN then
        transition OPEN (b\<lparr>cooldown := min (cooldown b * 2) (max_cooldown cfg), opened_at := clock\<rparr>)
      else
        (let b' = b\<lparr>consecutive_failures := consecutive_failures b + 1\<rparr> in
         if br_state b' = CLOSED \<and> consecutive_failures b' \<ge> fail_threshold cfg then
           transition OPEN (b'\<lparr>cooldown := base_cooldown cfg, opened_at := clock\<rparr>)
         else b'))"

section \<open>Runs\<close>

text \<open>A call to one of the methods, with the clock it reads.\<close>

datatype breaker_event = Ask seconds | Succeed | Fail seconds

fun breaker_apply :: "breaker_cfg \<Rightarrow> breaker_event \<Rightarrow> breaker \<Rightarrow> breaker" where
  "breaker_apply cfg (Ask t) b = snd (allow t b)"
| "breaker_apply cfg Succeed b = record_response cfg b"
| "breaker_apply cfg (Fail t) b = record_failure cfg t b"

inductive breaker_run :: "breaker_cfg \<Rightarrow> breaker_event list \<Rightarrow> breaker \<Rightarrow> bool" for cfg where
  start: "breaker_run cfg [] (breaker_init cfg)"
| call: "breaker_run cfg es b \<Longrightarrow> breaker_run cfg (es @ [e]) (breaker_apply cfg e b)"

inductive_cases breaker_run_nilE: "breaker_run cfg [] b"
inductive_simps breaker_run_snoc: "breaker_run cfg (es @ [e]) b"

text \<open>The streak of failures at the end of a run; questions to the breaker do not break it.\<close>

fun streak :: "breaker_event list \<Rightarrow> int \<Rightarrow> int" where
  "streak [] n = n"
| "streak (Ask t # es) n = streak es n"
| "streak (Succeed # es) n = streak es 0"
| "streak (Fail t # es) n = streak es (n + 1)"

lemma streak_snoc: "streak (es @ [e]) n =
    (case e of Ask t \<Rightarrow> streak es n | Succeed \<Rightarrow> 0 | Fail t \<Rightarrow> streak es n + 1)"
  by (induction es n rule: streak.induct) (auto split: breaker_event.split)

lemma streak_nonneg: "0 \<le> n \<Longrightarrow> 0 \<le> streak es n"
  by (induction es n rule: streak.induct) auto

lemmas breaker_defs =
  transition_def allow_def record_success_def record_response_def record_failure_def
  breaker_init_def Let_def

section \<open>When the breaker is open\<close>

lemma breaker_run_streak:
  assumes "breaker_run cfg es b" and "1 \<le> fail_threshold cfg"
  shows "(br_state b = CLOSED \<longleftrightarrow> streak es 0 < fail_threshold cfg)
    \<and> (br_state b = CLOSED \<longrightarrow> consecutive_failures b = streak es 0)"
  using assms(1)
proof (induction rule: breaker_run.induct)
  case start
  then show ?case using assms(2) by (simp add: breaker_init_def)
next
  case (call es b e)
  then show ?case
    using assms(2)
    by (cases e; cases "br_state b") (auto simp: breaker_defs streak_snoc)
qed

text \<open>
  Over every run of calls the breaker is out of the closed state exactly when the last
  recorded outcomes are a streak of at least \<open>fail_threshold\<close> failures: any recorded response
  closes it at once, no shorter streak opens it, and a streak once reached keeps it open or
  half-open until a response arrives. In the closed state the counter is the streak itself.
\<close>

theorem breaker_closed_iff_streak:
  assumes "breaker_run cfg es b" and "1 \<le> fail_threshold cfg"
  shows "(br_state b \<noteq> CLOSED \<longleftrightarrow> fail_threshold cfg \<le> streak es 0)
    \<and> (br_state b = CLOSED \<longrightarrow> consecutive_failures b = streak es 0)"
  using breaker_run_streak [OF assms] by auto

lemma breaker_run_Cons:
  "breaker_run cfg es b \<Longrightarrow> foldl (\<lambda>b e. breaker_apply cfg e b) (breaker_init cfg) es = b"
  by (induction rule: breaker_run.induct) auto

lemma breaker_run_fold: "breaker_run cfg es (foldl (\<lambda>b e. breaker_apply cfg e b) (breaker_init cfg) es)"
proof (induction es rule: rev_induct)
  case Nil
  show ?case by (simp add: breaker_run.start)
next
  case (snoc e es)
  then show ?case using breaker_run.call by fastforce
qed

theorem breaker_closed_iff_streak_witness:
  "br_state (foldl (\<lambda>b e. breaker_apply default_breaker_cfg e b) (breaker_init default_breaker_cfg)
     [Fail 1, Succeed, Fail 2, Fail 3, Ask 4, Fail 5]) \<noteq> CLOSED"
proof -
  have "1 \<le> fail_threshold default_breaker_cfg" by (simp add: default_breaker_cfg_def)
  moreover have "fail_threshold default_breaker_cfg
      \<le> streak [Fail 1, Succeed, Fail 2, Fail 3, Ask 4, Fail 5] 0"
    by (simp add: default_breaker_cfg_def)
  ultimately show ?thesis using breaker_closed_iff_streak [OF breaker_run_fold] by blast
qed

section \<open>The open window\<close>

text \<open>The cool-down after \<open>k\<close> failed probes.\<close>

definition backoff :: "breaker_cfg \<Rightarrow> nat \<Rightarrow> seconds" where
  "backoff cfg k = min (base_cooldown cfg * 2 ^ k) (max_cooldown cfg)"

definition breaker_ok :: "breaker_cfg \<Rightarrow> breaker \<Rightarrow> bool" where
  "breaker_ok cfg b \<longleftrightarrow> (\<exists>k. cooldown b = backoff cfg k)
     \<and> set (br_log b) \<subseteq> {(CLOSED, OPEN), (OPEN, HALF_OPEN), (HALF_OPEN, OPEN), (HALF_OPEN, CLOSED),
                         (OPEN, CLOSED)}"

lemma backoff_0: "base_cooldown cfg \<le> max_cooldown cfg \<Longrightarrow> backoff cfg 0 = base_cooldown cfg"
  by (simp add: backoff_def)

lemma backoff_Suc: "0 \<le> max_cooldown cfg \<Longrightarrow> min (backoff cfg k * 2) (max_cooldown cfg) = backoff cfg (Suc k)"
  by (auto simp: backoff_def min_def)

lemma breaker_ok_init: "base_cooldown cfg \<le> max_cooldown cfg \<Longrightarrow> breaker_ok cfg (breaker_init cfg)"
  by (auto simp: breaker_ok_def breaker_init_def backoff_0 intro!: exI [of _ 0])

lemma breaker_ok_apply:
  assumes "0 \<le> base_cooldown cfg" and "base_cooldown cfg \<le> max_cooldown cfg" and "breaker_ok cfg b"
  shows "breaker_ok cfg (breaker_apply cfg e b)"
proof -
  obtain k where k: "cooldown b = backoff cfg k" using assms(3) by (auto simp: breaker_ok_def)
  have l: "set (br_log b) \<subseteq> {(CLOSED, OPEN), (OPEN, HALF_OPEN), (HALF_OPEN, OPEN),
      (HALF_OPEN, CLOSED), (OPEN, CLOSED)}"
    using assms(3) by (simp add: breaker_ok_def)
  have z: "\<exists>j. base_cooldown cfg = backoff cfg j" using backoff_0 assms(2) by metis
  have s: "\<exists>j. min (backoff cfg k * 2) (max_cooldown cfg) = backoff cfg j"
    using backoff_Suc assms(1,2) by (meson order_trans)
  show ?thesis
    using k l z s
    by (cases e; cases "br_state b") (auto simp: breaker_ok_def breaker_defs)
qed

lemma breaker_run_ok:
  assumes "breaker_run cfg es b" and "0 \<le> base_cooldown cfg" "base_cooldown cfg \<le> max_cooldown cfg"
  shows "breaker_ok cfg b"
  using assms(1)
  by (induction rule: breaker_run.induct) (use assms(2,3) in \<open>auto intro: breaker_ok_init breaker_ok_apply\<close>)

text \<open>
  In every run the current cool-down is the base doubled some number of times and capped, so
  it never leaves [base, cap]; while open, a call is refused until exactly that long after the
  breaker opened and granted from then on; a failed probe re-opens it with the doubled, capped
  cool-down; and the state changes reported to the callback are only the five legal edges.
\<close>

theorem breaker_open_window:
  assumes "breaker_run cfg es b" and "0 \<le> base_cooldown cfg" "base_cooldown cfg \<le> max_cooldown cfg"
  shows "(\<exists>k. cooldown b = backoff cfg k)
    \<and> base_cooldown cfg \<le> cooldown b \<and> cooldown b \<le> max_cooldown cfg
    \<and> (br_state b = OPEN \<longrightarrow> (\<forall>t. fst (allow t b) \<longleftrightarrow> opened_at b + cooldown b \<le> t))
    \<and> (br_state b \<noteq> OPEN \<longrightarrow> (\<forall>t. allow t b = (True, b)))
    \<and> (\<forall>t t'. br_state b = OPEN \<and> fst (allow t b) \<longrightarrow>
         (let b' = record_failure cfg t' (snd (allow t b)) in
          br_state b' = OPEN \<and> opened_at b' = t'
          \<and> cooldown b' = min (cooldown b * 2) (max_cooldown cfg)))
    \<and> set (br_log b) \<subseteq> {(CLOSED, OPEN), (OPEN, HALF_OPEN), (HALF_OPEN, OPEN), (HALF_OPEN, CLOSED),
                        (OPEN, CLOSED)}"
proof -
  have ok: "breaker_ok cfg b" by (rule breaker_run_ok [OF assms])
  then obtain k where k: "cooldown b = backoff cfg k" by (auto simp: breaker_ok_def)
  have "base_cooldown cfg * 1 \<le> base_cooldown cfg * 2 ^ k"
    using assms(2) by (intro mult_left_mono) auto
  then have lo: "base_cooldown cfg \<le> cooldown b" using assms(3) by (simp add: k backoff_def)
  have hi: "cooldown b \<le> max_cooldown cfg" by (simp add: k backoff_def)
  have win: "fst (allow t b) \<longleftrightarrow> opened_at b + cooldown b \<le> t" if "br_state b = OPEN" for t
    using that by (auto simp: allow_def)
  have re: "let b' = record_failure cfg t' (snd (allow t b)) in
          br_state b' = OPEN \<and> opened_at b' = t'
          \<and> cooldown b' = min (cooldown b * 2) (max_cooldown cfg)"
    if "br_state b = OPEN \<and> fst (allow t b)" for t t'
    using that by (auto simp: breaker_defs split: if_splits)
  have "allow t b = (True, b)" if "br_state b \<noteq> OPEN" for t
    using that by (simp add: allow_def)
  with ok k lo hi win re show ?thesis by (auto simp: breaker_ok_def)
qed

theorem breaker_open_window_witness:
  "let b = foldl (\<lambda>b e. breaker_apply default_breaker_cfg e b) (breaker_init default_breaker_cfg)
         [Fail 1, Fail 2, Fail 5, Ask 65, Fail 66]
   in \<not> fst (allow 185 b) \<and> fst (allow 186 b)"
proof -
  let ?b = "foldl (\<lambda>b e. breaker_apply default_breaker_cfg e b) (breaker_init default_breaker_cfg)
         [Fail 1, Fail 2, Fail 5, Ask 65, Fail 66]"
  have b: "br_state ?b = OPEN" "opened_at ?b = 66" "cooldown ?b = 120"
    by (simp_all add: breaker_defs default_breaker_cfg_def)
  have "0 \<le> base_cooldown default_breaker_cfg"
    "base_cooldown default_breaker_cfg \<le> max_cooldown default_breaker_cfg"
    by (simp_all add: default_breaker_cfg_def)
  from breaker_open_window [OF breaker_run_fold this]
  have "br_state ?b = OPEN \<longrightarrow> (\<forall>t. fst (allow t ?b) \<longleftrightarrow> opened_at ?b + cooldown ?b \<le> t)"
    by blast
  then show ?thesis unfolding Let_def b by simp
qed

section \<open>The breaker as an interface\<close>

text \<open>
  What a caller of the breaker relies on: a refused call leaves it as it was; after a recorded
  response the next call is granted; and asking twice gives the same answer.
\<close>

locale breaker_contract =
  fixes ask :: "seconds \<Rightarrow> 'b \<Rightarrow> bool \<times> 'b"
    and healthy :: "'b \<Rightarrow> 'b"
    and failed :: "seconds \<Rightarrow> 'b \<Rightarrow> 'b"
  assumes refused: "\<not> fst (ask t b) \<Longrightarrow> snd (ask t b) = b"
    and healed: "fst (ask t (healthy b))"
    and granted_again: "fst (ask t b) \<Longrightarrow> fst (ask t (snd (ask t b)))"
begin

lemma ask_stable: "fst (ask t (snd (ask t b))) = fst (ask t b)"
  using refused granted_again by (cases "fst (ask t b)") auto

end

interpretation brk: breaker_contract allow "record_response cfg" "record_failure cfg" for cfg
  by unfold_locales (auto simp: breaker_defs split: if_splits)

end
