(* ===== verification/Json.thy ===== *)
theory Json
  imports Prelude
begin

text \<open>
  Text as Python has it, a list of code points, with the string methods the LLM code uses; parsed
  JSON values; and the JSON-Schema validator of \<open>llm/schema.py\<close>. A dictionary is the association
  list of its items in insertion order, with distinct keys. \<open>ustr\<close> turns an ASCII literal into utext.
\<close>

section \<open>Text\<close>

type_synonym utext = "nat list"

definition ustr :: "string \<Rightarrow> utext" where
  "ustr s = map of_char s"

lemma ustr_inject [simp]: "ustr s = ustr t \<longleftrightarrow> s = t"
proof -
  have "inj (of_char :: char \<Rightarrow> nat)" by (rule injI) simp
  then show ?thesis by (simp add: ustr_def inj_map_eq_map)
qed

lemma ustr_append: "ustr (s @ t) = ustr s @ ustr t"
  by (simp add: ustr_def)

text \<open>The code points \<open>str.isspace\<close> and \<open>str.rstrip\<close> treat as white space.\<close>

definition is_uspace :: "nat \<Rightarrow> bool" where
  "is_uspace c \<longleftrightarrow>
     c \<in> {9, 10, 11, 12, 13, 28, 29, 30, 31, 32, 133, 160, 5760, 8232, 8233, 8239, 8287, 12288}
     \<or> 8192 \<le> c \<and> c \<le> 8202"

text \<open>\<open>str.rstrip(chars)\<close> for the characters satisfying \<open>p\<close>, and \<open>str.rfind\<close> of one character.\<close>

definition rstrip_if :: "(nat \<Rightarrow> bool) \<Rightarrow> utext \<Rightarrow> utext" where
  "rstrip_if p t = rev (dropWhile p (rev t))"

definition lstrip_if :: "(nat \<Rightarrow> bool) \<Rightarrow> utext \<Rightarrow> utext" where
  "lstrip_if p t = dropWhile p t"

definition text_rstrip :: "utext \<Rightarrow> utext" where
  "text_rstrip t = rstrip_if is_uspace t"

definition text_strip :: "utext \<Rightarrow> utext" where
  "text_strip t = lstrip_if is_uspace (text_rstrip t)"

fun rfind_from :: "nat \<Rightarrow> utext \<Rightarrow> nat \<Rightarrow> int \<Rightarrow> int" where
  "rfind_from c [] i best = best"
| "rfind_from c (x # xs) i best = rfind_from c xs (i + 1) (if x = c then int i else best)"

definition rfind :: "utext \<Rightarrow> nat \<Rightarrow> int" where
  "rfind t c = rfind_from c t 0 (- 1)"

lemma rfind_from_bound: "best < int i + int (length t) \<Longrightarrow> rfind_from c t i best < int i + int (length t)"
  by (induction c t i best rule: rfind_from.induct) auto

lemma rfind_less: "t \<noteq> [] \<Longrightarrow> rfind t c < int (length t)"
  using rfind_from_bound [of "- 1" 0 t c] by (cases t) (auto simp: rfind_def)

lemma rstrip_if_prefix: "\<exists>r. t = rstrip_if p t @ r \<and> (\<forall>c \<in> set r. p c)"
proof -
  have "rev (rev t) = rev (dropWhile p (rev t)) @ rev (takeWhile p (rev t))"
    by (metis rev_append takeWhile_dropWhile_id)
  then have "t = rstrip_if p t @ rev (takeWhile p (rev t))" by (simp add: rstrip_if_def)
  moreover have "\<forall>c \<in> set (rev (takeWhile p (rev t))). p c" by (auto dest: set_takeWhileD)
  ultimately show ?thesis by blast
qed

lemma rstrip_if_last: "rstrip_if p t \<noteq> [] \<Longrightarrow> \<not> p (last (rstrip_if p t))"
  by (simp add: rstrip_if_def last_rev hd_dropWhile)

text \<open>\<open>needle in hay\<close>.\<close>

definition text_in :: "utext \<Rightarrow> utext \<Rightarrow> bool" where
  "text_in needle hay \<longleftrightarrow> (\<exists>i \<le> length hay. take (length needle) (drop i hay) = needle)"

section \<open>JSON values\<close>

datatype json =
    JNull
  | JBool bool
  | JInt int
  | JFloat real
  | JStr utext
  | JArr "json list"
  | JObj "(utext \<times> json) list"

type_synonym jobj = "(utext \<times> json) list"

text \<open>\<open>d.get(key)\<close> and \<open>d[key] = v\<close>.\<close>

definition jget :: "jobj \<Rightarrow> utext \<Rightarrow> json option" where
  "jget d k = map_of d k"

definition jset :: "utext \<Rightarrow> json \<Rightarrow> jobj \<Rightarrow> jobj" where
  "jset k v d = AList.update k v d"

lemma jget_jset [simp]: "jget (jset k v d) k' = (if k = k' then Some v else jget d k')"
  by (simp add: jget_def jset_def update_conv')

section \<open>The schema validator\<close>

text \<open>
  A schema of the subset the roles use. A missing \<open>enum\<close>, \<open>type\<close>, \<open>maxLength\<close>, \<open>maxItems\<close> or
  \<open>items\<close> is \<open>None\<close>; a missing \<open>properties\<close> or \<open>required\<close> is the empty list the code defaults to.
\<close>

datatype schema =
  Schema (s_enum: "json list option") (s_type: "string list option")
    (s_max_length: "nat option") (s_max_items: "nat option") (s_items: "schema option")
    (s_properties: "(utext \<times> schema) list") (s_required: "utext list") (s_additional: bool)

datatype schema_error =
    NotInEnum
  | WrongType
  | StringTooLong
  | TooManyItems
  | MissingRequired utext
  | AdditionalProperties

fun is_instance :: "json \<Rightarrow> string \<Rightarrow> bool" where
  "is_instance (JObj d) t \<longleftrightarrow> t = ''object''"
| "is_instance (JArr xs) t \<longleftrightarrow> t = ''array''"
| "is_instance (JStr s) t \<longleftrightarrow> t = ''string''"
| "is_instance (JInt i) t \<longleftrightarrow> t = ''integer'' \<or> t = ''number''"
| "is_instance (JFloat r) t \<longleftrightarrow> t = ''number''"
| "is_instance (JBool b) t \<longleftrightarrow> t = ''boolean''"
| "is_instance JNull t \<longleftrightarrow> t = ''null''"

definition check_type :: "json \<Rightarrow> string list \<Rightarrow> schema_error option" where
  "check_type v types = (if \<exists>t \<in> set types. is_instance v t then None else Some WrongType)"

text \<open>The first error of a sequence of checks; each later check runs only if the earlier pass.\<close>

fun first_error :: "'e option list \<Rightarrow> 'e option" where
  "first_error [] = None"
| "first_error (None # es) = first_error es"
| "first_error (Some e # es) = Some e"

lemma first_error_None [simp]: "first_error es = None \<longleftrightarrow> (\<forall>e \<in> set es. e = None)"
  by (induction es rule: first_error.induct) auto

definition missing_required :: "jobj \<Rightarrow> utext list \<Rightarrow> schema_error option" where
  "missing_required d req =
     map_option MissingRequired (List.find (\<lambda>k. k \<notin> fst ` set d) req)"

function (sequential) validate :: "json \<Rightarrow> schema \<Rightarrow> schema_error option" where
  "validate v (Schema (Some members) ty ml mi it ps req add) =
     (if v \<in> set members then None else Some NotInEnum)"
| "validate v (Schema None ty ml mi it ps req add) =
     first_error
       [case ty of None \<Rightarrow> None | Some types \<Rightarrow> check_type v types,
        case (v, ml) of (JStr s, Some n) \<Rightarrow> (if length s > n then Some StringTooLong else None)
          | _ \<Rightarrow> None,
        case v of
          JArr xs \<Rightarrow>
            first_error
              [case mi of Some n \<Rightarrow> (if length xs > n then Some TooManyItems else None) | None \<Rightarrow> None,
               case it of None \<Rightarrow> None | Some s \<Rightarrow> first_error (map (\<lambda>x. validate x s) xs)]
        | JObj d \<Rightarrow>
            first_error
              [missing_required d req,
               if \<not> add \<and> \<not> fst ` set d \<subseteq> fst ` set ps then Some AdditionalProperties else None,
               first_error (map (\<lambda>(k, s). case jget d k of None \<Rightarrow> None | Some x \<Rightarrow> validate x s) ps)]
        | _ \<Rightarrow> None]"
  by pat_completeness auto

termination
proof (relation "measure (\<lambda>(v, s). size s)", goal_cases)
  case 1
  show ?case by simp
next
  case (2 v ty ml mi it ps req add xs s x)
  then show ?case by simp
next
  case (3 v ty ml mi it ps req add d ks k s x)
  then have "(k, s) \<in> set ps" by simp
  then have "size_prod (\<lambda>_. 0) size (k, s) \<le> size_list (size_prod (\<lambda>_. 0) size) ps"
    by (intro size_list_estimation') auto
  then show ?case by simp
qed

definition is_valid :: "json \<Rightarrow> schema \<Rightarrow> bool" where
  "is_valid v s \<longleftrightarrow> validate v s = None"

text \<open>What validity means for an object and for an enumeration.\<close>

lemma is_valid_enum: "is_valid v (Schema (Some ms) ty ml mi it ps req add) \<longleftrightarrow> v \<in> set ms"
  by (simp add: is_valid_def)

lemma missing_required_None: "missing_required d req = None \<longleftrightarrow> set req \<subseteq> fst ` set d"
  by (auto simp: missing_required_def find_None_iff)

lemma is_valid_object:
  "is_valid (JObj d) (Schema None (Some [''object'']) ml mi it ps req add) \<longleftrightarrow>
     set req \<subseteq> fst ` set d \<and> (add \<or> fst ` set d \<subseteq> fst ` set ps)
     \<and> (\<forall>(k, s) \<in> set ps. \<forall>x. jget d k = Some x \<longrightarrow> is_valid x s)"
  by (auto simp: is_valid_def check_type_def missing_required_None split: option.splits)

text \<open>The common shapes of a property schema.\<close>

definition enum_schema :: "json list \<Rightarrow> schema" where
  "enum_schema ms = Schema (Some ms) None None None None [] [] True"

definition string_schema :: "nat \<Rightarrow> schema" where
  "string_schema n = Schema None (Some [''string'']) (Some n) None None [] [] True"

definition object_schema :: "(utext \<times> schema) list \<Rightarrow> utext list \<Rightarrow> schema" where
  "object_schema ps req = Schema None (Some [''object'']) None None None ps req False"

lemma is_valid_string: "is_valid v (string_schema n) \<longleftrightarrow> (\<exists>s. v = JStr s \<and> length s \<le> n)"
  by (cases v) (auto simp: is_valid_def string_schema_def check_type_def)

lemma object_only:
  assumes "is_valid v (object_schema ps req)"
  obtains d where "v = JObj d" "set req \<subseteq> fst ` set d" "fst ` set d \<subseteq> fst ` set ps"
    "\<forall>(k, s) \<in> set ps. \<forall>x. jget d k = Some x \<longrightarrow> is_valid x s"
proof -
  from assms obtain d where "v = JObj d"
    by (cases v) (auto simp: is_valid_def object_schema_def check_type_def)
  with assms that show thesis by (simp add: object_schema_def is_valid_object)
qed

lemma required_present:
  assumes "set req \<subseteq> fst ` set d" and "k \<in> set req"
  obtains x where "jget d k = Some x"
  using assms by (metis jget_def map_of_eq_None_iff not_None_eq subsetD)

end
