(* ===== verification/LlmCache.thy ===== *)
theory LlmCache
  imports Json
begin

text \<open>
  The per-project cache of LLM outputs (\<open>db/repositories/llm_cache.py\<close>): the table
  \<open>analyzer.llm_cache\<close> as the list of its rows, keyed by project and cache key, and the store's
  statements. Every statement reads \<open>now()\<close>, which is the argument \<open>now\<close>. The contract a client
  of the cache relies on is the locale \<open>llm_cache_contract\<close>, interpreted on these statements.
\<close>

section \<open>The table\<close>

record cache_row =
  lc_role :: string
  lc_template_hash :: "int option"
  lc_output :: jobj
  lc_model :: string
  lc_created_at :: seconds
  lc_last_hit_at :: seconds
  lc_hits :: int

type_synonym llm_cache = "((int \<times> string) \<times> cache_row) list"

definition SECONDS_PER_DAY :: real where "SECONDS_PER_DAY = 86400"

definition is_fresh :: "seconds \<Rightarrow> int \<Rightarrow> cache_row \<Rightarrow> bool" where
  "is_fresh now ttl_days r \<longleftrightarrow> lc_created_at r \<ge> now - of_int ttl_days * SECONDS_PER_DAY"

text \<open>\<open>SET hits = hits + 1, last_hit_at = now()\<close> on the row of a key.\<close>

definition bump :: "seconds \<Rightarrow> cache_row \<Rightarrow> cache_row" where
  "bump now r = r\<lparr>lc_hits := lc_hits r + 1, lc_last_hit_at := now\<rparr>"

definition cache_get :: "seconds \<Rightarrow> int \<Rightarrow> string \<Rightarrow> llm_cache \<Rightarrow> jobj option \<times> llm_cache" where
  "cache_get now pid key c =
     (case map_of c (pid, key) of
        None \<Rightarrow> (None, c)
      | Some r \<Rightarrow> (Some (lc_output r), AList.update (pid, key) (bump now r) c))"

definition get_fresh ::
  "seconds \<Rightarrow> int \<Rightarrow> string \<Rightarrow> int \<Rightarrow> llm_cache \<Rightarrow> jobj option \<times> llm_cache" where
  "get_fresh now pid key ttl_days c =
     (case map_of c (pid, key) of
        None \<Rightarrow> (None, c)
      | Some r \<Rightarrow>
          if is_fresh now ttl_days r
          then (Some (lc_output r), AList.update (pid, key) (bump now r) c)
          else (None, c))"

definition get_extractor_by_template ::
  "seconds \<Rightarrow> int \<Rightarrow> int \<Rightarrow> int \<Rightarrow> llm_cache \<Rightarrow> jobj option" where
  "get_extractor_by_template now pid template_hash ttl_days c =
     map_option lc_output
       (py_max lc_created_at
         (map snd (filter (\<lambda>(k, r). fst k = pid \<and> lc_role r = ''extractor''
            \<and> lc_template_hash r = Some template_hash \<and> is_fresh now ttl_days r) c)))"

definition cache_put ::
  "seconds \<Rightarrow> int \<Rightarrow> string \<Rightarrow> string \<Rightarrow> string \<Rightarrow> jobj \<Rightarrow> int option \<Rightarrow> llm_cache \<Rightarrow> llm_cache" where
  "cache_put now pid key role model output template_hash c =
     AList.update (pid, key)
       \<lparr>lc_role = role, lc_template_hash = template_hash, lc_output = output, lc_model = model,
        lc_created_at = now, lc_last_hit_at = now,
        lc_hits = (case map_of c (pid, key) of None \<Rightarrow> 0 | Some r \<Rightarrow> lc_hits r)\<rparr> c"

section \<open>The contract\<close>

text \<open>
  \<open>get\<close> answers with the new store because a hit writes to the row. After a put the key answers
  the stored output exactly while the row is younger than the asked TTL, whatever it held before;
  no other key changes, in particular none of another project; and a get does not change answers.
\<close>

locale llm_cache_contract =
  fixes get :: "seconds \<Rightarrow> int \<Rightarrow> string \<Rightarrow> int \<Rightarrow> 'c \<Rightarrow> jobj option \<times> 'c"
    and put :: "seconds \<Rightarrow> int \<Rightarrow> string \<Rightarrow> string \<Rightarrow> string \<Rightarrow> jobj \<Rightarrow> int option \<Rightarrow> 'c \<Rightarrow> 'c"
  assumes get_put: "fst (get t pid key ttl (put t0 pid key role model out th c)) =
      (if t - of_int ttl * SECONDS_PER_DAY \<le> t0 then Some out else None)"
    and get_put_other: "(pid', key') \<noteq> (pid, key) \<Longrightarrow>
      fst (get t pid' key' ttl (put t0 pid key role model out th c)) = fst (get t pid' key' ttl c)"
    and get_get: "fst (get t' pid' key' ttl' (snd (get t pid key ttl c))) = fst (get t' pid' key' ttl' c)"
begin

text \<open>Rewriting a row restarts its clock: what an earlier put left under the key is gone.\<close>

lemma put_restarts_clock:
  assumes "t - of_int ttl * SECONDS_PER_DAY \<le> t1"
  shows "fst (get t pid key ttl (put t1 pid key role' model' out' th'
           (put t0 pid key role model out th c))) = Some out'"
  using assms by (simp add: get_put)

lemma get_longer_ttl:
  assumes "fst (get t pid key ttl (put t0 pid key role model out th c)) = Some out" and "ttl \<le> ttl'"
  shows "fst (get t pid key ttl' (put t0 pid key role model out th c)) = Some out"
proof -
  have "real_of_int ttl * SECONDS_PER_DAY \<le> real_of_int ttl' * SECONDS_PER_DAY"
    using assms(2) by (simp add: SECONDS_PER_DAY_def)
  with assms(1) show ?thesis by (auto simp: get_put split: if_splits)
qed

end

lemma map_of_alist_update: "map_of (AList.update k v c) k' = (if k' = k then Some v else map_of c k')"
  by (simp add: update_conv')

interpretation cache: llm_cache_contract get_fresh cache_put
proof (unfold_locales, goal_cases)
  case (1 t pid key ttl t0 role model out th c)
  show ?case by (simp add: get_fresh_def cache_put_def map_of_alist_update is_fresh_def)
next
  case (2 pid' key' pid key t ttl t0 role model out th c)
  then have "(pid', key') \<noteq> (pid, key)" by simp
  then have "map_of (cache_put t0 pid key role model out th c) (pid', key') = map_of c (pid', key')"
    by (simp only: cache_put_def map_of_alist_update if_False)
  then show ?case by (simp add: get_fresh_def split: option.split)
next
  case (3 t' pid' key' ttl' t pid key ttl c)
  define c' where "c' = snd (get_fresh t pid key ttl c)"
  have same: "map_of c' k =
      (if k = (pid, key) \<and> (\<exists>r. map_of c k = Some r \<and> is_fresh t ttl r)
       then map_option (bump t) (map_of c k) else map_of c k)" for k
    by (auto simp: c'_def get_fresh_def map_of_alist_update split: option.splits)
  have "is_fresh t' ttl' (bump t r) = is_fresh t' ttl' r" "lc_output (bump t r) = lc_output r" for r
    by (simp_all add: is_fresh_def bump_def)
  then have "fst (get_fresh t' pid' key' ttl' c') = fst (get_fresh t' pid' key' ttl' c)"
    by (auto simp: get_fresh_def same split: option.splits)
  then show ?case by (simp only: c'_def)
qed

section \<open>Feature-time lookup\<close>

text \<open>The keys of the table are a primary key, and the statements keep them so.\<close>

definition cache_ok :: "llm_cache \<Rightarrow> bool" where
  "cache_ok c \<longleftrightarrow> distinct (map fst c)"

lemma cache_ok_put [store_laws]: "cache_ok c \<Longrightarrow> cache_ok (cache_put t p k ro m out th c)"
  by (simp add: cache_ok_def cache_put_def distinct_update)

lemma cache_ok_get [store_laws]: "cache_ok c \<Longrightarrow> cache_ok (snd (get_fresh t p k ttl c))"
  by (auto simp: cache_ok_def get_fresh_def distinct_update split: option.split)

text \<open>The rows that a lookup by template set can return.\<close>

definition template_outputs :: "llm_cache \<Rightarrow> jobj set" where
  "template_outputs c = {lc_output r | k r. map_of c k = Some r \<and> lc_template_hash r \<noteq> None}"

lemma template_outputs_put:
  "template_outputs (cache_put t p k ro m out th c) \<subseteq>
     template_outputs c \<union> (if th = None then {} else {out})"
  by (auto simp: template_outputs_def cache_put_def map_of_alist_update split: if_splits)

lemma template_outputs_get: "template_outputs (snd (get_fresh t p k ttl c)) \<subseteq> template_outputs c"
proof (cases "map_of c (p, k)")
  case (Some r)
  have "map_of (snd (get_fresh t p k ttl c)) k' = Some r' \<Longrightarrow>
      \<exists>r. map_of c k' = Some r \<and> lc_output r' = lc_output r \<and> lc_template_hash r' = lc_template_hash r"
    for k' r'
    using Some by (auto simp: get_fresh_def map_of_alist_update bump_def split: if_splits)
  then show ?thesis unfolding template_outputs_def by fastforce
qed (simp add: get_fresh_def)

lemma get_extractor_sound:
  assumes "cache_ok c" and "get_extractor_by_template now pid th ttl c = Some out"
  shows "out \<in> template_outputs c
    \<and> (\<exists>key r. map_of c (pid, key) = Some r \<and> lc_output r = out \<and> lc_role r = ''extractor''
         \<and> lc_template_hash r = Some th \<and> is_fresh now ttl r)"
proof -
  from assms(2) obtain r where r: "lc_output r = out"
    "py_max lc_created_at (map snd (filter (\<lambda>(k, r). fst k = pid \<and> lc_role r = ''extractor''
       \<and> lc_template_hash r = Some th \<and> is_fresh now ttl r) c)) = Some r"
    by (auto simp: get_extractor_by_template_def)
  from py_max_in [OF r(2)] obtain k where k: "(k, r) \<in> set c" "fst k = pid"
    "lc_role r = ''extractor''" "lc_template_hash r = Some th" "is_fresh now ttl r" by auto
  have m: "map_of c k = Some r" using assms(1) k(1) by (simp add: cache_ok_def)
  have "\<exists>key r. map_of c (pid, key) = Some r \<and> lc_output r = out \<and> lc_role r = ''extractor''
         \<and> lc_template_hash r = Some th \<and> is_fresh now ttl r"
    using m k r(1) by (metis prod.collapse)
  then show ?thesis by (auto simp: template_outputs_def)
qed

end
