(* ===== verification/LlmEngine.thy ===== *)
theory LlmEngine
  imports Breaker LlmCache
begin

text \<open>
  The execution of one LLM role (\<open>llm/engine.py\<close>): cache lookup, breaker, constrained call, schema
  and role validation, one retry, the masked-truncation screen, the cache write and the event. A
  role is the record \<open>role\<close> of what \<open>Role\<close> declares; the cache is any store with the operations of
  the \<open>_CacheStore\<close> protocol; the chat client, the nonce and the clocks live in an opaque world
  \<open>'w\<close> that every call moves on. \<open>json.loads\<close> and SHA-256 are arguments.
\<close>

section \<open>Roles, the environment and the state\<close>

record chat_request =
  cq_system :: utext
  cq_user :: utext
  cq_schema :: schema
  cq_num_predict :: int
  cq_seed :: int

record chat_response =
  ch_content :: utext
  ch_tool_calls :: bool
  ch_latency_ms :: int
  ch_finish_reason :: "string option"

text \<open>
  \<open>build_prompt\<close> answers the input too, because the extractor stores its corpus in it, and
  \<open>post_validate\<close> the output, because the extractor drops misshapen components in place.
\<close>

record 'i role =
  ro_name :: string
  ro_ttl_days :: int
  ro_num_predict :: int
  ro_negative_ttl_days :: "int option"
  ro_free_text_fields :: "utext list"
  ro_schema_for :: "'i \<Rightarrow> schema"
  ro_content_key :: "'i \<Rightarrow> utext"
  ro_build_prompt :: "'i \<Rightarrow> utext \<Rightarrow> utext \<times> utext \<times> 'i"
  ro_post_validate :: "jobj \<Rightarrow> 'i \<Rightarrow> bool \<times> jobj"
  ro_template_hash :: "'i \<Rightarrow> int option"

record ('c, 'w) engine_env =
  en_model :: string
  en_breaker_cfg :: breaker_cfg
  en_get_fresh :: "seconds \<Rightarrow> int \<Rightarrow> string \<Rightarrow> int \<Rightarrow> 'c \<Rightarrow> jobj option \<times> 'c"
  en_put :: "seconds \<Rightarrow> int \<Rightarrow> string \<Rightarrow> string \<Rightarrow> string \<Rightarrow> jobj \<Rightarrow> int option \<Rightarrow> 'c \<Rightarrow> 'c"
  en_chat :: "chat_request \<Rightarrow> 'w \<Rightarrow> chat_response option \<times> 'w"
  en_nonce :: "'w \<Rightarrow> utext \<times> 'w"
  en_db_now :: "'w \<Rightarrow> seconds"
  en_monotonic :: "'w \<Rightarrow> seconds"
  en_loads :: "utext \<Rightarrow> json option"
  en_sha256 :: "utext \<Rightarrow> string"

datatype outcome = Ok | SchemaFail | ValidationFail | Timeout | BreakerOpen

record llm_event =
  ev_project_id :: int
  ev_item_id :: int
  ev_role :: string
  ev_model :: string
  ev_prompt_hash :: string
  ev_cache_hit :: bool
  ev_outcome :: outcome
  ev_output :: "jobj option"
  ev_latency_ms :: "int option"

text \<open>
  What a run changes: the breaker, the cache, the event log and the world; \<open>es_requests\<close> records
  the chat requests sent, newest first.
\<close>

record ('c, 'w) engine_state =
  es_breaker :: breaker
  es_cache :: 'c
  es_events :: "llm_event list"
  es_requests :: "chat_request list"
  es_world :: 'w

record role_result =
  rr_outcome :: outcome
  rr_output :: "jobj option"
  rr_cache_hit :: bool
  rr_prompt_hash :: string

section \<open>The negative cache\<close>

definition NEGATIVE_MARKER :: utext where "NEGATIVE_MARKER = ustr ''negative''"

definition outcome_text :: "outcome \<Rightarrow> string" where
  "outcome_text oc = (case oc of Ok \<Rightarrow> ''ok'' | SchemaFail \<Rightarrow> ''schema_fail''
     | ValidationFail \<Rightarrow> ''validation_fail'' | Timeout \<Rightarrow> ''timeout'' | BreakerOpen \<Rightarrow> ''breaker_open'')"

definition CACHEABLE_FAILURES :: "outcome list" where "CACHEABLE_FAILURES = [ValidationFail]"

definition negative_payload :: "outcome \<Rightarrow> jobj" where
  "negative_payload oc =
     [(NEGATIVE_MARKER, JBool True), (ustr ''outcome'', JStr (ustr (outcome_text oc)))]"

definition is_negative :: "jobj option \<Rightarrow> bool" where
  "is_negative output =
     (case output of
        Some d \<Rightarrow> jget d NEGATIVE_MARKER = Some (JBool True)
      | None \<Rightarrow> False)"

section \<open>The masked-truncation screen\<close>

definition TERMINAL_CHARS :: "nat list" where
  "TERMINAL_CHARS = [46, 33, 63, 8230, 12290, 65281, 65311]"

definition TRAILING_CLOSERS :: "nat list" where
  "TRAILING_CLOSERS = [34, 39, 8221, 8217, 12301, 12303, 65289, 41, 93, 125]"

definition HARD_INCOMPLETE :: "nat list" where
  "HARD_INCOMPLETE = [123, 91, 40, 60, 58, 44, 59, 61, 47, 92, 45, 8211, 8212]"

definition TRUNCATION_MARKER :: utext where "TRUNCATION_MARKER = [32, 8230]"

definition rstrip_closers :: "utext \<Rightarrow> utext" where
  "rstrip_closers t = rstrip_if (\<lambda>c. c \<in> set TRAILING_CLOSERS) t"

definition ends_complete :: "utext \<Rightarrow> bool" where
  "ends_complete t =
     (let stripped = text_rstrip t in
      if stripped = [] then True
      else (let core = rstrip_closers stripped in
            if core = [] then True else last core \<in> set TERMINAL_CHARS))"

definition ends_hard_incomplete :: "utext \<Rightarrow> bool" where
  "ends_hard_incomplete t =
     (let core = rstrip_closers (text_rstrip t) in core \<noteq> [] \<and> last core \<in> set HARD_INCOMPLETE)"

definition looks_truncated :: "utext \<Rightarrow> string option \<Rightarrow> bool" where
  "looks_truncated t finish_reason =
     (if ends_hard_incomplete t then True
      else if finish_reason \<noteq> Some ''length'' then False
      else \<not> ends_complete t)"

definition clip_to_clean_end :: "utext \<Rightarrow> utext" where
  "clip_to_clean_end t =
     (let stripped = text_rstrip t;
          idx = foldl max (- 1) (map (rfind stripped) TERMINAL_CHARS)
      in if idx \<ge> 0 then take (nat idx + 1) stripped
         else (let trimmed = rstrip_if (\<lambda>c. c \<in> set HARD_INCOMPLETE \<or> c = 32 \<or> c = 9) stripped;
                   cut = rfind trimmed 32
               in text_rstrip (if cut > 0 then take (nat cut) trimmed else trimmed)))"

definition truncated_fields :: "'i role \<Rightarrow> jobj \<Rightarrow> string option \<Rightarrow> utext list" where
  "truncated_fields role output finish_reason =
     filter (\<lambda>name. case jget output name of
                      Some (JStr v) \<Rightarrow> looks_truncated v finish_reason
                    | _ \<Rightarrow> False)
       (ro_free_text_fields role)"

definition marked_value :: "utext \<Rightarrow> utext" where
  "marked_value v =
     (let base = (if ends_hard_incomplete v then
                    (let clipped = clip_to_clean_end v in
                     if clipped \<noteq> [] then clipped else text_rstrip v)
                  else text_rstrip v)
      in base @ TRUNCATION_MARKER)"

definition mark_field :: "jobj \<Rightarrow> utext \<Rightarrow> jobj" where
  "mark_field d name =
     (case jget d name of Some (JStr v) \<Rightarrow> jset name (JStr (marked_value v)) d | _ \<Rightarrow> d)"

definition mark_truncated :: "jobj \<Rightarrow> utext list \<Rightarrow> jobj" where
  "mark_truncated output names =
     jset (ustr ''truncated'') (JBool True) (foldl mark_field output names)"

section \<open>The run of a role\<close>

type_synonym attempt_result = "outcome \<times> jobj option \<times> int option \<times> string option"

definition record_event ::
  "llm_event \<Rightarrow> ('c, 'w) engine_state \<Rightarrow> ('c, 'w) engine_state" where
  "record_event ev s = s\<lparr>es_events := ev # es_events s\<rparr>"

definition finish ::
  "('c, 'w) engine_env \<Rightarrow> 'i role \<Rightarrow> int \<Rightarrow> int \<Rightarrow> string \<Rightarrow> outcome \<Rightarrow> jobj option \<Rightarrow> bool
     \<Rightarrow> int option \<Rightarrow> ('c, 'w) engine_state \<Rightarrow> role_result \<times> ('c, 'w) engine_state" where
  "finish env role pid item prompt_hash oc output cache_hit latency s =
     (\<lparr>rr_outcome = oc, rr_output = output, rr_cache_hit = cache_hit,
       rr_prompt_hash = prompt_hash\<rparr>,
      record_event
        \<lparr>ev_project_id = pid, ev_item_id = item, ev_role = ro_name role, ev_model = en_model env,
         ev_prompt_hash = prompt_hash, ev_cache_hit = cache_hit, ev_outcome = oc,
         ev_output = (if oc = Ok then output else None), ev_latency_ms = latency\<rparr> s)"

definition judge_body ::
  "('c, 'w) engine_env \<Rightarrow> 'i role \<Rightarrow> 'i \<Rightarrow> schema \<Rightarrow> chat_response \<Rightarrow> attempt_result" where
  "judge_body env role inp schema resp =
     (let lat = Some (ch_latency_ms resp); fin = ch_finish_reason resp in
      if ch_tool_calls resp then (SchemaFail, None, lat, fin)
      else (case en_loads env (ch_content resp) of
              None \<Rightarrow> (SchemaFail, None, lat, fin)
            | Some parsed \<Rightarrow>
                if \<not> is_valid parsed schema then (SchemaFail, None, lat, fin)
                else (case parsed of
                        JObj d \<Rightarrow>
                          (case ro_post_validate role d inp of
                             (True, d') \<Rightarrow> (Ok, Some d', lat, fin)
                           | (False, d') \<Rightarrow> (ValidationFail, None, lat, fin))
                      | _ \<Rightarrow> (SchemaFail, None, lat, fin))))"

definition attempt ::
  "('c, 'w) engine_env \<Rightarrow> 'i role \<Rightarrow> 'i \<Rightarrow> schema \<Rightarrow> int \<Rightarrow> int option \<Rightarrow> ('c, 'w) engine_state
     \<Rightarrow> attempt_result \<times> 'i \<times> ('c, 'w) engine_state" where
  "attempt env role inp schema seed num_predict s =
     (let (nonce, w) = en_nonce env (es_world s);
          (system, user, inp') = ro_build_prompt role inp nonce;
          req = \<lparr>cq_system = system, cq_user = user, cq_schema = schema,
                 cq_num_predict = (case num_predict of None \<Rightarrow> ro_num_predict role | Some n \<Rightarrow> n),
                 cq_seed = seed\<rparr>;
          (reply, w') = en_chat env req w;
          s' = s\<lparr>es_world := w', es_requests := req # es_requests s\<rparr>
      in case reply of
           None \<Rightarrow> ((Timeout, None, None, None), inp',
                   s'\<lparr>es_breaker :=
                        record_failure (en_breaker_cfg env) (en_monotonic env w') (es_breaker s')\<rparr>)
         | Some resp \<Rightarrow>
             (judge_body env role inp' schema resp, inp',
              s'\<lparr>es_breaker := record_response (en_breaker_cfg env) (es_breaker s')\<rparr>))"

definition resolve_truncation ::
  "('c, 'w) engine_env \<Rightarrow> 'i role \<Rightarrow> 'i \<Rightarrow> schema \<Rightarrow> jobj \<Rightarrow> string option \<Rightarrow> ('c, 'w) engine_state
     \<Rightarrow> jobj \<times> 'i \<times> ('c, 'w) engine_state" where
  "resolve_truncation env role inp schema output finish_reason s =
     (let cutf = truncated_fields role output finish_reason in
      if cutf = [] then (output, inp, s)
      else (case attempt env role inp schema 7 (Some (ro_num_predict role * 2)) s of
              ((r_outcome, r_output, r_latency, r_finish), inp', s') \<Rightarrow>
                (case (r_outcome, r_output) of
                   (Ok, Some r_out) \<Rightarrow>
                     (let r_fields = truncated_fields role r_out r_finish in
                      if r_fields = [] then (r_out, inp', s')
                      else (mark_truncated r_out r_fields, inp', s'))
                 | _ \<Rightarrow> (mark_truncated output cutf, inp', s'))))"

definition fresh_negative_outcome ::
  "('c, 'w) engine_env \<Rightarrow> 'i role \<Rightarrow> int \<Rightarrow> string \<Rightarrow> ('c, 'w) engine_state
     \<Rightarrow> outcome option \<times> ('c, 'w) engine_state" where
  "fresh_negative_outcome env role pid cache_key s =
     (case ro_negative_ttl_days role of
        None \<Rightarrow> (None, s)
      | Some ttl \<Rightarrow>
          (case en_get_fresh env (en_db_now env (es_world s)) pid cache_key ttl (es_cache s) of
             (row, c) \<Rightarrow>
               (let s' = s\<lparr>es_cache := c\<rparr> in
                case row of
                  None \<Rightarrow> (None, s')
                | Some d \<Rightarrow>
                    if \<not> is_negative (Some d) then (None, s')
                    else (Some (case List.find
                                  (\<lambda>oc. jget d (ustr ''outcome'') = Some (JStr (ustr (outcome_text oc))))
                                  CACHEABLE_FAILURES of
                                  Some oc \<Rightarrow> oc | None \<Rightarrow> ValidationFail), s'))))"

definition cache_key_of :: "('c, 'w) engine_env \<Rightarrow> 'i role \<Rightarrow> string \<Rightarrow> string" where
  "cache_key_of env role prompt_hash =
     en_sha256 env (ustr (en_model env @ ''|'' @ ro_name role @ ''|'' @ prompt_hash))"

text \<open>The part of \<open>run\<close> after a cache miss.\<close>

definition run_miss ::
  "('c, 'w) engine_env \<Rightarrow> 'i role \<Rightarrow> int \<Rightarrow> int \<Rightarrow> 'i \<Rightarrow> string \<Rightarrow> string \<Rightarrow> ('c, 'w) engine_state
     \<Rightarrow> role_result \<times> ('c, 'w) engine_state" where
  "run_miss env role pid item inp prompt_hash cache_key s =
     (case allow (en_monotonic env (es_world s)) (es_breaker s) of
        (granted, b) \<Rightarrow>
          (let s0 = s\<lparr>es_breaker := b\<rparr> in
           if \<not> granted then finish env role pid item prompt_hash BreakerOpen None False None s0
           else
             (let schema = ro_schema_for role inp;
                  first = attempt env role inp schema 7 None s0;
                  ((oc, output, latency, fin), inp', s1) =
                    (case first of ((oc1, r1), i1, t1) \<Rightarrow>
                       if oc1 = SchemaFail \<or> oc1 = ValidationFail
                       then attempt env role i1 schema 8 None t1 else first)
              in case (oc, output) of
                   (Ok, Some out) \<Rightarrow>
                     (case resolve_truncation env role inp' schema out fin s1 of
                        (out', inp'', s2) \<Rightarrow>
                          finish env role pid item prompt_hash Ok (Some out') False latency
                            (s2\<lparr>es_cache := en_put env (en_db_now env (es_world s2)) pid cache_key
                                  (ro_name role) (en_model env) out'
                                  (ro_template_hash role inp'') (es_cache s2)\<rparr>))
                 | _ \<Rightarrow>
                     (let s2 = (if oc \<in> set CACHEABLE_FAILURES \<and> ro_negative_ttl_days role \<noteq> None
                                then s1\<lparr>es_cache := en_put env (en_db_now env (es_world s1)) pid
                                       cache_key (ro_name role) (en_model env)
                                       (negative_payload oc) None (es_cache s1)\<rparr>
                                else s1)
                      in finish env role pid item prompt_hash oc output False latency s2))))"

definition run ::
  "('c, 'w) engine_env \<Rightarrow> 'i role \<Rightarrow> int \<Rightarrow> int \<Rightarrow> 'i \<Rightarrow> ('c, 'w) engine_state
     \<Rightarrow> role_result \<times> ('c, 'w) engine_state" where
  "run env role pid item inp s =
     (let prompt_hash = en_sha256 env (ro_content_key role inp);
          cache_key = cache_key_of env role prompt_hash
      in case en_get_fresh env (en_db_now env (es_world s)) pid cache_key (ro_ttl_days role)
                (es_cache s) of
           (cached, c) \<Rightarrow>
             (let s0 = s\<lparr>es_cache := c\<rparr> in
              if is_negative cached then
                (case fresh_negative_outcome env role pid cache_key s0 of
                   (Some oc, s1) \<Rightarrow> finish env role pid item prompt_hash oc None True (Some 0) s1
                 | (None, s1) \<Rightarrow> run_miss env role pid item inp prompt_hash cache_key s1)
              else (case cached of
                      Some d \<Rightarrow>
                        finish env role pid item prompt_hash Ok (Some d) True (Some 0) s0
                    | None \<Rightarrow> run_miss env role pid item inp prompt_hash cache_key s0)))"

section \<open>What each step does\<close>

lemma finish_simps [simp]:
  "fst (finish env role pid item ph oc out hit lat s) =
     \<lparr>rr_outcome = oc, rr_output = out, rr_cache_hit = hit, rr_prompt_hash = ph\<rparr>"
  "es_breaker (snd (finish env role pid item ph oc out hit lat s)) = es_breaker s"
  "es_cache (snd (finish env role pid item ph oc out hit lat s)) = es_cache s"
  "es_requests (snd (finish env role pid item ph oc out hit lat s)) = es_requests s"
  "es_world (snd (finish env role pid item ph oc out hit lat s)) = es_world s"
  "es_events (snd (finish env role pid item ph oc out hit lat s)) =
     \<lparr>ev_project_id = pid, ev_item_id = item, ev_role = ro_name role, ev_model = en_model env,
      ev_prompt_hash = ph, ev_cache_hit = hit, ev_outcome = oc,
      ev_output = (if oc = Ok then out else None), ev_latency_ms = lat\<rparr> # es_events s"
  by (simp_all add: finish_def record_event_def)

lemma judge_body_cases:
  assumes "judge_body env role inp schema resp = (oc, out, lat, fin)"
  shows "(out \<noteq> None \<longleftrightarrow> oc = Ok) \<and> oc \<in> {Ok, SchemaFail, ValidationFail}
    \<and> (\<forall>d. out = Some d \<longrightarrow> (\<exists>d0. en_loads env (ch_content resp) = Some (JObj d0)
          \<and> is_valid (JObj d0) schema \<and> ro_post_validate role d0 inp = (True, d)
          \<and> \<not> ch_tool_calls resp))"
  using assms
  by (auto simp: judge_body_def Let_def split: if_splits option.splits json.splits prod.splits bool.splits)

lemma attempt_cases:
  assumes "attempt env role inp schema seed np s = ((oc, out, lat, fin), inp', s')"
  obtains (lost) req where "oc = Timeout" "out = None" "es_requests s' = req # es_requests s"
      "cq_seed req = seed" "es_events s' = es_events s" "es_cache s' = es_cache s"
      "es_breaker s' = record_failure (en_breaker_cfg env) (en_monotonic env (es_world s')) (es_breaker s)"
    | (answered) req resp where "oc \<in> {Ok, SchemaFail, ValidationFail}"
      "judge_body env role inp' schema resp = (oc, out, lat, fin)"
      "es_requests s' = req # es_requests s" "cq_seed req = seed"
      "cq_num_predict req = (case np of None \<Rightarrow> ro_num_predict role | Some n \<Rightarrow> n)"
      "es_events s' = es_events s" "es_cache s' = es_cache s"
      "es_breaker s' = record_response (en_breaker_cfg env) (es_breaker s)"
proof -
  obtain nonce w where n: "en_nonce env (es_world s) = (nonce, w)"
    by (cases "en_nonce env (es_world s)")
  obtain sys usr i where b: "ro_build_prompt role inp nonce = (sys, usr, i)"
    by (cases "ro_build_prompt role inp nonce")
  let ?req = "\<lparr>cq_system = sys, cq_user = usr, cq_schema = schema,
     cq_num_predict = (case np of None \<Rightarrow> ro_num_predict role | Some n \<Rightarrow> n), cq_seed = seed\<rparr>"
  obtain reply w' where c: "en_chat env ?req w = (reply, w')" by (cases "en_chat env ?req w")
  note e = assms [unfolded attempt_def n b Let_def prod.case c]
  show thesis
  proof (cases reply)
    case None
    show thesis using e unfolding None option.case by (intro lost [of ?req]) auto
  next
    case (Some resp)
    have j: "judge_body env role inp' schema resp = (oc, out, lat, fin)"
      using e unfolding Some option.case by auto
    show thesis
      using e judge_body_cases [OF j] j unfolding Some option.case
      by (intro answered [of resp ?req]) auto
  qed
qed

lemma attempt_facts:
  assumes "attempt env role inp schema seed np s = ((oc, out, lat, fin), inp', s')"
  shows "(out \<noteq> None \<longleftrightarrow> oc = Ok) \<and> oc \<noteq> BreakerOpen
    \<and> (\<exists>req. es_requests s' = req # es_requests s \<and> cq_seed req = seed)
    \<and> es_events s' = es_events s \<and> es_cache s' = es_cache s"
  using assms
proof (cases rule: attempt_cases)
  case (answered req resp)
  then show ?thesis using judge_body_cases [OF answered(2)] by auto
qed auto

lemma jget_mark_field_other: "k \<noteq> name \<Longrightarrow> jget (mark_field d name) k = jget d k"
  by (auto simp: mark_field_def split: option.split json.split)

lemma resolve_facts:
  assumes "resolve_truncation env role inp schema output fin s = (out, inp', s')"
  shows "es_events s' = es_events s \<and> es_cache s' = es_cache s
    \<and> (\<exists>reqs. es_requests s' = reqs @ es_requests s \<and> map cq_seed reqs \<in> {[], [7]})
    \<and> ((\<exists>fin'. truncated_fields role out fin' = []) \<or> jget out (ustr ''truncated'') = Some (JBool True))"
proof (cases "truncated_fields role output fin = []")
  case True
  then show ?thesis using assms by (auto simp: resolve_truncation_def)
next
  case False
  obtain oc r lat fin' i t where a: "attempt env role inp schema 7 (Some (ro_num_predict role * 2)) s
      = ((oc, r, lat, fin'), i, t)" by (metis prod_cases3 surj_pair)
  have marked: "jget (mark_truncated d ns) (ustr ''truncated'') = Some (JBool True)" for d ns
    by (simp add: mark_truncated_def)
  note e = assms [unfolded resolve_truncation_def Let_def if_not_P [OF False] a prod.case]
  have "s' = t \<and> ((\<exists>fin'. truncated_fields role out fin' = [])
      \<or> jget out (ustr ''truncated'') = Some (JBool True))"
    using e marked by (auto split: outcome.splits option.splits if_splits)
  then show ?thesis using attempt_facts [OF a] by auto
qed

section \<open>The paths of a run\<close>

text \<open>Two attempts at most: the second, with the other seed, only after a bad body.\<close>

definition two_attempts ::
  "('c, 'w) engine_env \<Rightarrow> 'i role \<Rightarrow> 'i \<Rightarrow> schema \<Rightarrow> ('c, 'w) engine_state
     \<Rightarrow> attempt_result \<times> 'i \<times> ('c, 'w) engine_state" where
  "two_attempts env role inp schema s =
     (case attempt env role inp schema 7 None s of
        ((oc, rest), i, t) \<Rightarrow>
          if oc = SchemaFail \<or> oc = ValidationFail then attempt env role i schema 8 None t
          else ((oc, rest), i, t))"

lemma two_attempts_facts:
  assumes "two_attempts env role inp schema s = ((oc, out, lat, fin), inp', s')"
  shows "(out \<noteq> None \<longleftrightarrow> oc = Ok) \<and> oc \<noteq> BreakerOpen
    \<and> (\<exists>reqs. es_requests s' = reqs @ es_requests s \<and> map cq_seed reqs \<in> {[7], [8, 7]})
    \<and> es_events s' = es_events s \<and> es_cache s' = es_cache s"
proof -
  obtain oc1 out1 lat1 fin1 i t where
    a: "attempt env role inp schema 7 None s = ((oc1, out1, lat1, fin1), i, t)"
    by (metis prod_cases3 surj_pair)
  show ?thesis
  proof (cases "oc1 = SchemaFail \<or> oc1 = ValidationFail")
    case True
    then have b: "attempt env role i schema 8 None t = ((oc, out, lat, fin), inp', s')"
      using assms a by (auto simp: two_attempts_def)
    note fa = attempt_facts [OF a] and fb = attempt_facts [OF b]
    from fa have "\<exists>req. es_requests t = req # es_requests s \<and> cq_seed req = 7" by (elim conjE)
    then obtain p where p: "es_requests t = p # es_requests s" "cq_seed p = 7" by (elim exE conjE)
    from fb have "\<exists>req. es_requests s' = req # es_requests t \<and> cq_seed req = 8" by (elim conjE)
    then obtain q where q: "es_requests s' = q # es_requests t" "cq_seed q = 8" by (elim exE conjE)
    from p q have "es_requests s' = [q, p] @ es_requests s" "map cq_seed [q, p] = [8, 7]" by simp_all
    then have "\<exists>reqs. es_requests s' = reqs @ es_requests s \<and> map cq_seed reqs \<in> {[7], [8, 7]}"
      by (intro exI [of _ "[q, p]"] conjI) simp_all
    with fa fb show ?thesis by simp
  next
    case False
    then have "attempt env role inp schema 7 None s = ((oc, out, lat, fin), inp', s')"
      using assms a by (auto simp: two_attempts_def)
    note fa = attempt_facts [OF this]
    then have "\<exists>req. es_requests s' = req # es_requests s \<and> cq_seed req = 7" by (elim conjE)
    then obtain p where "es_requests s' = p # es_requests s" "cq_seed p = 7" by (elim exE conjE)
    then have "es_requests s' = [p] @ es_requests s" "map cq_seed [p] = [7]" by simp_all
    then have "\<exists>reqs. es_requests s' = reqs @ es_requests s \<and> map cq_seed reqs \<in> {[7], [8, 7]}"
      by (intro exI [of _ "[p]"] conjI) simp_all
    with fa show ?thesis by simp
  qed
qed

lemma run_miss_paths:
  assumes "run_miss env role pid item inp ph key s = (r, s')"
  obtains (refused) b where "allow (en_monotonic env (es_world s)) (es_breaker s) = (False, b)"
      "r = \<lparr>rr_outcome = BreakerOpen, rr_output = None, rr_cache_hit = False, rr_prompt_hash = ph\<rparr>"
      "s' = snd (finish env role pid item ph BreakerOpen None False None (s\<lparr>es_breaker := b\<rparr>))"
    | (good) b out0 lat fin i s1 out i' s2 where
      "allow (en_monotonic env (es_world s)) (es_breaker s) = (True, b)"
      "two_attempts env role inp (ro_schema_for role inp) (s\<lparr>es_breaker := b\<rparr>) =
         ((Ok, Some out0, lat, fin), i, s1)"
      "resolve_truncation env role i (ro_schema_for role inp) out0 fin s1 = (out, i', s2)"
      "r = \<lparr>rr_outcome = Ok, rr_output = Some out, rr_cache_hit = False, rr_prompt_hash = ph\<rparr>"
      "s' = snd (finish env role pid item ph Ok (Some out) False lat
               (s2\<lparr>es_cache := en_put env (en_db_now env (es_world s2)) pid key (ro_name role)
                     (en_model env) out (ro_template_hash role i') (es_cache s2)\<rparr>))"
    | (bad) b oc lat fin i s1 where
      "allow (en_monotonic env (es_world s)) (es_breaker s) = (True, b)"
      "two_attempts env role inp (ro_schema_for role inp) (s\<lparr>es_breaker := b\<rparr>) =
         ((oc, None, lat, fin), i, s1)" "oc \<noteq> Ok" "oc \<noteq> BreakerOpen"
      "r = \<lparr>rr_outcome = oc, rr_output = None, rr_cache_hit = False, rr_prompt_hash = ph\<rparr>"
      "s' = snd (finish env role pid item ph oc None False lat
               (if oc \<in> set CACHEABLE_FAILURES \<and> ro_negative_ttl_days role \<noteq> None
                then s1\<lparr>es_cache := en_put env (en_db_now env (es_world s1)) pid key (ro_name role)
                       (en_model env) (negative_payload oc) None (es_cache s1)\<rparr>
                else s1))"
proof -
  obtain g b where al: "allow (en_monotonic env (es_world s)) (es_breaker s) = (g, b)"
    by (cases "allow (en_monotonic env (es_world s)) (es_breaker s)")
  show thesis
  proof (cases g)
    case False
    have "(r, s') = finish env role pid item ph BreakerOpen None False None (s\<lparr>es_breaker := b\<rparr>)"
      using assms al False by (simp add: run_miss_def)
    then have "r = fst (finish env role pid item ph BreakerOpen None False None (s\<lparr>es_breaker := b\<rparr>))"
      "s' = snd (finish env role pid item ph BreakerOpen None False None (s\<lparr>es_breaker := b\<rparr>))"
      by (metis fst_conv, metis snd_conv)
    then show thesis using al False by (intro refused) simp_all
  next
    case True
    obtain oc out lat fin i s1 where
      ta: "two_attempts env role inp (ro_schema_for role inp) (s\<lparr>es_breaker := b\<rparr>) = ((oc, out, lat, fin), i, s1)"
      by (metis prod_cases3 surj_pair)
    have ta': "(case attempt env role inp (ro_schema_for role inp) 7 None (s\<lparr>es_breaker := b\<rparr>) of
          ((oc1, r1), i1, t1) \<Rightarrow>
            if oc1 = SchemaFail \<or> oc1 = ValidationFail
            then attempt env role i1 (ro_schema_for role inp) 8 None t1
            else attempt env role inp (ro_schema_for role inp) 7 None (s\<lparr>es_breaker := b\<rparr>))
        = ((oc, out, lat, fin), i, s1)"
      using ta by (auto simp: two_attempts_def split: prod.splits if_splits)
    note fa = two_attempts_facts [OF ta]
    note e = assms [unfolded run_miss_def al prod.case Let_def ta']
    show thesis
    proof (cases "oc = Ok")
      case ok: True
      then obtain out0 where out: "out = Some out0" using fa by auto
      obtain out' i' s2 where
        rt: "resolve_truncation env role i (ro_schema_for role inp) out0 fin s1 = (out', i', s2)"
        by (metis prod_cases3)
      let ?f = "finish env role pid item ph Ok (Some out') False lat
               (s2\<lparr>es_cache := en_put env (en_db_now env (es_world s2)) pid key (ro_name role)
                     (en_model env) out' (ro_template_hash role i') (es_cache s2)\<rparr>)"
      have "(r, s') = ?f" using e True by (simp add: ok out rt)
      then have "r = fst ?f" "s' = snd ?f" by (metis fst_conv, metis snd_conv)
      then show thesis using al True ta rt by (intro good) (simp_all add: ok out)
    next
      case nok: False
      then have out: "out = None" using fa by auto
      let ?f = "finish env role pid item ph oc None False lat
               (if oc \<in> set CACHEABLE_FAILURES \<and> ro_negative_ttl_days role \<noteq> None
                then s1\<lparr>es_cache := en_put env (en_db_now env (es_world s1)) pid key (ro_name role)
                       (en_model env) (negative_payload oc) None (es_cache s1)\<rparr>
                else s1)"
      have "(r, s') = ?f" using e True nok by (cases oc) (auto simp: out)
      then have "r = fst ?f" "s' = snd ?f" by (metis fst_conv, metis snd_conv)
      then show thesis using al True ta fa nok by (intro bad) (simp_all add: out)
    qed
  qed
qed

text \<open>The stores that lookups can lead to.\<close>

inductive reads :: "(seconds \<Rightarrow> int \<Rightarrow> string \<Rightarrow> int \<Rightarrow> 'c \<Rightarrow> jobj option \<times> 'c) \<Rightarrow> 'c \<Rightarrow> 'c \<Rightarrow> bool"
  for get c where
  none: "reads get c c"
| one: "reads get c c' \<Longrightarrow> reads get c (snd (get t pid key ttl c'))"

lemma fresh_negative_facts:
  assumes "fresh_negative_outcome env role pid key s = (oc, s')"
  shows "(\<exists>c. s' = s\<lparr>es_cache := c\<rparr> \<and> (reads (en_get_fresh env) c0 (es_cache s) \<longrightarrow> reads (en_get_fresh env) c0 c))
    \<and> (oc = None \<or> oc = Some ValidationFail)"
proof (cases "ro_negative_ttl_days role")
  case None
  then show ?thesis using assms
    by (intro conjI exI [of _ "es_cache s"]) (auto simp: fresh_negative_outcome_def)
next
  case (Some ttl)
  let ?g = "en_get_fresh env (en_db_now env (es_world s)) pid key ttl (es_cache s)"
  have "s' = s\<lparr>es_cache := snd ?g\<rparr> \<and> (oc = None \<or> oc = Some ValidationFail)"
    using assms Some
    by (auto simp: fresh_negative_outcome_def Let_def CACHEABLE_FAILURES_def
        split: option.splits prod.splits if_splits)
  then show ?thesis by (auto intro: reads.one)
qed

lemma run_paths:
  assumes "run env role pid item inp s = (r, s')"
  defines "ph \<equiv> en_sha256 env (ro_content_key role inp)"
  defines "key \<equiv> cache_key_of env role ph"
  obtains (hit) d c where
      "en_get_fresh env (en_db_now env (es_world s)) pid key (ro_ttl_days role) (es_cache s) = (Some d, c)"
      "\<not> is_negative (Some d)"
      "r = \<lparr>rr_outcome = Ok, rr_output = Some d, rr_cache_hit = True, rr_prompt_hash = ph\<rparr>"
      "s' = snd (finish env role pid item ph Ok (Some d) True (Some 0) (s\<lparr>es_cache := c\<rparr>))"
      "reads (en_get_fresh env) (es_cache s) c"
    | (negative) row c0 c where
      "en_get_fresh env (en_db_now env (es_world s)) pid key (ro_ttl_days role) (es_cache s) = (row, c0)"
      "fresh_negative_outcome env role pid key (s\<lparr>es_cache := c0\<rparr>) = (Some ValidationFail, s\<lparr>es_cache := c\<rparr>)"
      "r = \<lparr>rr_outcome = ValidationFail, rr_output = None, rr_cache_hit = True, rr_prompt_hash = ph\<rparr>"
      "s' = snd (finish env role pid item ph ValidationFail None True (Some 0) (s\<lparr>es_cache := c\<rparr>))"
      "ro_negative_ttl_days role \<noteq> None" "reads (en_get_fresh env) (es_cache s) c"
    | (miss) c where "reads (en_get_fresh env) (es_cache s) c" "run_miss env role pid item inp ph key (s\<lparr>es_cache := c\<rparr>) = (r, s')"
proof -
  obtain cached c where g: "en_get_fresh env (en_db_now env (es_world s)) pid key (ro_ttl_days role)
      (es_cache s) = (cached, c)"
    by (cases "en_get_fresh env (en_db_now env (es_world s)) pid key (ro_ttl_days role) (es_cache s)")
  have rd: "reads (en_get_fresh env) (es_cache s) c"
    using reads.one [OF reads.none, where get = "en_get_fresh env" and t = "en_db_now env (es_world s)"
        and pid = pid and key = key and ttl = "ro_ttl_days role" and c = "es_cache s"] by (simp add: g)
  note e = assms(1) [unfolded run_def Let_def ph_def [symmetric] key_def [symmetric] g prod.case]
  show thesis
  proof (cases "is_negative cached")
    case True
    obtain oc s1 where n: "fresh_negative_outcome env role pid key (s\<lparr>es_cache := c\<rparr>) = (oc, s1)"
      by (cases "fresh_negative_outcome env role pid key (s\<lparr>es_cache := c\<rparr>)")
    obtain c' where c': "s1 = s\<lparr>es_cache := c'\<rparr>" and oc: "oc = None \<or> oc = Some ValidationFail"
      and rd': "reads (en_get_fresh env) (es_cache s) c'"
      using fresh_negative_facts [OF n, of "es_cache s"] rd by auto
    show thesis
    proof (cases oc)
      case None
      then show thesis using e True n c' by (intro miss [OF rd']) simp
    next
      case (Some oc')
      then have "finish env role pid item ph ValidationFail None True (Some 0) (s\<lparr>es_cache := c'\<rparr>) = (r, s')"
        using e True n c' oc by simp
      then have f: "fst (finish env role pid item ph ValidationFail None True (Some 0) (s\<lparr>es_cache := c'\<rparr>)) = r"
        "snd (finish env role pid item ph ValidationFail None True (Some 0) (s\<lparr>es_cache := c'\<rparr>)) = s'"
        by (metis fst_conv, metis snd_conv)
      have "ro_negative_ttl_days role \<noteq> None" using n Some
        by (cases "ro_negative_ttl_days role") (auto simp: fresh_negative_outcome_def)
      then show thesis using f n oc Some c' rd' by (intro negative [OF g, of c']) auto
    qed
  next
    case False
    show thesis
    proof (cases cached)
      case None
      then show thesis using e False by (intro miss [OF rd]) simp
    next
      case (Some d)
      then have "finish env role pid item ph Ok (Some d) True (Some 0) (s\<lparr>es_cache := c\<rparr>) = (r, s')"
        using e False by simp
      then have f: "fst (finish env role pid item ph Ok (Some d) True (Some 0) (s\<lparr>es_cache := c\<rparr>)) = r"
        "snd (finish env role pid item ph Ok (Some d) True (Some 0) (s\<lparr>es_cache := c\<rparr>)) = s'"
        by (metis fst_conv, metis snd_conv)
      show thesis using f g False rd unfolding Some by (intro hit) auto
    qed
  qed
qed

section \<open>The contract of a run\<close>

text \<open>What a run leaves behind, in terms of its result.\<close>

definition run_contract ::
  "('c, 'w) engine_env \<Rightarrow> int \<Rightarrow> ('c, 'w) engine_state \<Rightarrow> role_result \<Rightarrow> ('c, 'w) engine_state \<Rightarrow> bool" where
  "run_contract env pid s r s' \<longleftrightarrow>
     (rr_output r \<noteq> None \<longleftrightarrow> rr_outcome r = Ok)
     \<and> (\<exists>ev. es_events s' = ev # es_events s \<and> ev_outcome ev = rr_outcome r \<and> ev_project_id ev = pid
            \<and> ev_output ev = rr_output r \<and> ev_cache_hit ev = rr_cache_hit r)
     \<and> (\<exists>reqs. es_requests s' = reqs @ es_requests s
            \<and> (if rr_cache_hit r \<or> rr_outcome r = BreakerOpen then reqs = []
               else rev (map cq_seed reqs) \<in> {[7], [7, 8], [7, 7], [7, 8, 7]}))
     \<and> (rr_outcome r = BreakerOpen \<longrightarrow>
          br_state (es_breaker s) = OPEN
          \<and> en_monotonic env (es_world s) < opened_at (es_breaker s) + cooldown (es_breaker s))"

lemma run_miss_contract:
  assumes "run_miss env role pid item inp ph key s = (r, s')"
  shows "run_contract env pid s r s'"
  using assms
proof (cases rule: run_miss_paths)
  case (refused b)
  then show ?thesis by (auto simp: run_contract_def allow_def split: if_splits)
next
  case (good b out0 lat fin i s1 out i' s2)
  obtain ra where ra: "es_requests s1 = ra @ es_requests s" "map cq_seed ra \<in> {[7], [8, 7]}"
      "es_events s1 = es_events s"
    using two_attempts_facts [OF good(2)] by (elim conjE exE) simp
  obtain rb where rb: "es_requests s2 = rb @ es_requests s1" "map cq_seed rb \<in> {[], [7]}"
      "es_events s2 = es_events s1"
    using resolve_facts [OF good(3)] by (elim conjE exE) simp
  have "rev (map cq_seed (rb @ ra)) \<in> {[7], [7, 8], [7, 7], [7, 8, 7]}" using ra(2) rb(2) by auto
  moreover have "es_requests s' = (rb @ ra) @ es_requests s" using ra rb good(5) by simp
  ultimately have "\<exists>reqs. es_requests s' = reqs @ es_requests s
      \<and> rev (map cq_seed reqs) \<in> {[7], [7, 8], [7, 7], [7, 8, 7]}" by (intro exI conjI)
  moreover have "es_events s' = \<lparr>ev_project_id = pid, ev_item_id = item, ev_role = ro_name role,
      ev_model = en_model env, ev_prompt_hash = ph, ev_cache_hit = False, ev_outcome = Ok,
      ev_output = Some out, ev_latency_ms = lat\<rparr> # es_events s"
    using good(5) ra(3) rb(3) by simp
  ultimately show ?thesis by (simp add: run_contract_def good(4))
next
  case (bad b oc lat fin i s1)
  have facts: "es_events s1 = es_events s" "\<exists>reqs. es_requests s1 = reqs @ es_requests s
      \<and> map cq_seed reqs \<in> {[7], [8, 7]}"
    using two_attempts_facts [OF bad(2)] by simp_all
  then obtain ra where ra: "es_requests s1 = ra @ es_requests s" "map cq_seed ra \<in> {[7], [8, 7]}"
    by (elim exE conjE)
  have "es_requests s' = ra @ es_requests s" using bad(6) ra by (auto split: if_splits)
  moreover have "rev (map cq_seed ra) \<in> {[7], [7, 8], [7, 7], [7, 8, 7]}" using ra(2) by auto
  ultimately have "\<exists>reqs. es_requests s' = reqs @ es_requests s
      \<and> rev (map cq_seed reqs) \<in> {[7], [7, 8], [7, 7], [7, 8, 7]}" by (intro exI conjI)
  moreover have "es_events s' = \<lparr>ev_project_id = pid, ev_item_id = item, ev_role = ro_name role,
      ev_model = en_model env, ev_prompt_hash = ph, ev_cache_hit = False, ev_outcome = oc,
      ev_output = None, ev_latency_ms = lat\<rparr> # es_events s"
    using bad(3,6) facts(1) by simp
  ultimately show ?thesis using bad(3,4) by (simp add: run_contract_def bad(5))
qed


section \<open>Caching, for any store that keeps the contract\<close>

lemma run_hit_eq:
  assumes "en_get_fresh env (en_db_now env (es_world s)) pid
      (cache_key_of env role (en_sha256 env (ro_content_key role inp))) (ro_ttl_days role) (es_cache s)
      = (Some d, c)" and "\<not> is_negative (Some d)"
  shows "run env role pid item inp s =
     finish env role pid item (en_sha256 env (ro_content_key role inp)) Ok (Some d) True (Some 0)
       (s\<lparr>es_cache := c\<rparr>)"
  using assms by (simp add: run_def Let_def)

lemma is_negative_payload: "is_negative (Some (negative_payload oc))"
  by (simp add: is_negative_def negative_payload_def jget_def)

lemma negative_payload_outcome:
  "jget (negative_payload oc) (ustr ''outcome'') = Some (JStr (ustr (outcome_text oc)))"
  by (simp add: negative_payload_def jget_def NEGATIVE_MARKER_def)

lemma run_miss_Ok:
  assumes "run_miss env role pid item inp ph key s = (r, s')" and "rr_outcome r = Ok"
  shows "\<exists>out th c. r = \<lparr>rr_outcome = Ok, rr_output = Some out, rr_cache_hit = False, rr_prompt_hash = ph\<rparr>
    \<and> es_cache s' = en_put env (en_db_now env (es_world s')) pid key (ro_name role) (en_model env) out th c"
  using assms(1) by (cases rule: run_miss_paths) (use assms(2) in auto)

lemma run_miss_ValidationFail:
  assumes "run_miss env role pid item inp ph key s = (r, s')" and "rr_outcome r = ValidationFail"
    and "ro_negative_ttl_days role \<noteq> None"
  shows "\<exists>c. r = \<lparr>rr_outcome = ValidationFail, rr_output = None, rr_cache_hit = False, rr_prompt_hash = ph\<rparr>
    \<and> es_cache s' = en_put env (en_db_now env (es_world s')) pid key (ro_name role) (en_model env)
        (negative_payload ValidationFail) None c"
  using assms(1) by (cases rule: run_miss_paths) (use assms(2,3) in \<open>auto simp: CACHEABLE_FAILURES_def\<close>)

context llm_cache_contract
begin

lemma run_ok_cached:
  assumes "en_get_fresh env = get" and "en_put env = put"
    and "run env role pid item inp s = (r, s')" and "rr_outcome r = Ok" and "\<not> rr_cache_hit r"
    and "\<not> is_negative (rr_output r)"
    and "es_cache t = es_cache s'"
    and "en_db_now env (es_world t) - of_int (ro_ttl_days role) * SECONDS_PER_DAY
           \<le> en_db_now env (es_world s')"
  shows "fst (run env role pid item' inp t) = r\<lparr>rr_cache_hit := True\<rparr>
    \<and> es_requests (snd (run env role pid item' inp t)) = es_requests t
    \<and> es_breaker (snd (run env role pid item' inp t)) = es_breaker t"
proof -
  let ?ph = "en_sha256 env (ro_content_key role inp)"
  from assms(3) obtain c where m: "run_miss env role pid item inp ?ph (cache_key_of env role ?ph)
      (s\<lparr>es_cache := c\<rparr>) = (r, s')"
    by (cases rule: run_paths) (use assms(5) in auto)
  from run_miss_Ok [OF m assms(4)] obtain out th c0 where
    r: "r = \<lparr>rr_outcome = Ok, rr_output = Some out, rr_cache_hit = False, rr_prompt_hash = ?ph\<rparr>" and
    c: "es_cache s' = put (en_db_now env (es_world s')) pid (cache_key_of env role ?ph) (ro_name role)
          (en_model env) out th c0" unfolding assms(2) by (elim exE conjE)
  have g: "fst (en_get_fresh env (en_db_now env (es_world t)) pid (cache_key_of env role ?ph)
      (ro_ttl_days role) (es_cache t)) = Some out"
    using assms(8) unfolding assms(1,7) c get_put by simp
  obtain c' where g': "en_get_fresh env (en_db_now env (es_world t)) pid (cache_key_of env role ?ph)
      (ro_ttl_days role) (es_cache t) = (Some out, c')"
    using g by (metis prod.collapse)
  have "\<not> is_negative (Some out)" using assms(6) r by simp
  from run_hit_eq [OF g' this] show ?thesis by (simp add: r)
qed

lemma run_negative_cached:
  assumes "en_get_fresh env = get" and "en_put env = put"
    and "run env role pid item inp s = (r, s')" and "rr_outcome r = ValidationFail" and "\<not> rr_cache_hit r"
    and "ro_negative_ttl_days role = Some ttl"
    and "es_cache t = es_cache s'"
    and "en_db_now env (es_world t) - of_int ttl * SECONDS_PER_DAY \<le> en_db_now env (es_world s')"
    and "ttl \<le> ro_ttl_days role"
  shows "fst (run env role pid item' inp t) = r\<lparr>rr_cache_hit := True\<rparr>
    \<and> es_requests (snd (run env role pid item' inp t)) = es_requests t
    \<and> es_breaker (snd (run env role pid item' inp t)) = es_breaker t"
proof -
  let ?ph = "en_sha256 env (ro_content_key role inp)"
  let ?key = "cache_key_of env role ?ph" and ?now = "en_db_now env (es_world t)"
  let ?neg = "negative_payload ValidationFail"
  from assms(3) obtain c where m: "run_miss env role pid item inp ?ph ?key (s\<lparr>es_cache := c\<rparr>) = (r, s')"
    by (cases rule: run_paths) (use assms(5) in auto)
  have n: "ro_negative_ttl_days role \<noteq> None" using assms(6) by simp
  from run_miss_ValidationFail [OF m assms(4) n] obtain c0 where
    r: "r = \<lparr>rr_outcome = ValidationFail, rr_output = None, rr_cache_hit = False, rr_prompt_hash = ?ph\<rparr>" and
    c: "es_cache s' = put (en_db_now env (es_world s')) pid ?key (ro_name role) (en_model env) ?neg None
          c0" unfolding assms(2) by (elim exE conjE)
  have short: "fst (get ?now pid ?key ttl (es_cache t)) = Some ?neg"
    using assms(8) unfolding assms(7) c get_put by simp
  have "fst (get ?now pid ?key (ro_ttl_days role) (es_cache t)) = Some ?neg"
    using get_longer_ttl [OF short [unfolded assms(7) c] assms(9)] by (simp add: assms(7) c)
  then obtain c1 where g1: "get ?now pid ?key (ro_ttl_days role) (es_cache t) = (Some ?neg, c1)"
    by (metis prod.collapse)
  have "fst (get ?now pid ?key ttl c1) = Some ?neg"
    using get_get [of ?now pid ?key ttl ?now pid ?key "ro_ttl_days role" "es_cache t"] short g1 by simp
  then obtain c2 where g2: "get ?now pid ?key ttl c1 = (Some ?neg, c2)" by (metis prod.collapse)
  have "fresh_negative_outcome env role pid ?key (t\<lparr>es_cache := c1\<rparr>)
      = (Some ValidationFail, t\<lparr>es_cache := c2\<rparr>)"
    by (simp add: fresh_negative_outcome_def assms(1,6) g2 is_negative_payload CACHEABLE_FAILURES_def
        negative_payload_outcome)
  then have "run env role pid item' inp t =
      finish env role pid item' ?ph ValidationFail None True (Some 0) (t\<lparr>es_cache := c2\<rparr>)"
    by (simp add: run_def Let_def assms(1) g1 is_negative_payload)
  then show ?thesis by (simp add: r)
qed

lemma run_negative_expires:
  assumes "en_get_fresh env = get" and "en_put env = put"
    and "run env role pid item inp s = (r, s')" and "rr_outcome r = ValidationFail" and "\<not> rr_cache_hit r"
    and "ro_negative_ttl_days role = Some ttl"
    and "es_cache t = es_cache s'"
    and "en_db_now env (es_world s') < en_db_now env (es_world t) - of_int ttl * SECONDS_PER_DAY"
  shows "\<not> rr_cache_hit (fst (run env role pid item' inp t))"
proof -
  let ?ph = "en_sha256 env (ro_content_key role inp)"
  let ?key = "cache_key_of env role ?ph" and ?now = "en_db_now env (es_world t)"
  let ?neg = "negative_payload ValidationFail"
  from assms(3) obtain c where m: "run_miss env role pid item inp ?ph ?key (s\<lparr>es_cache := c\<rparr>) = (r, s')"
    by (cases rule: run_paths) (use assms(5) in auto)
  have n: "ro_negative_ttl_days role \<noteq> None" using assms(6) by simp
  from run_miss_ValidationFail [OF m assms(4) n] obtain c0 where
    c: "es_cache s' = put (en_db_now env (es_world s')) pid ?key (ro_name role) (en_model env) ?neg None
          c0" unfolding assms(2) by (elim exE conjE)
  have short: "fst (get ?now pid ?key ttl (es_cache t)) = None"
    using assms(8) unfolding assms(7) c get_put by simp
  obtain r2 t' where run: "run env role pid item' inp t = (r2, t')"
    by (cases "run env role pid item' inp t")
  from run have "\<not> rr_cache_hit r2"
  proof (cases rule: run_paths)
    case (hit d c')
    have "d = ?neg"
      using hit(1) get_put [of ?now pid ?key "ro_ttl_days role" "en_db_now env (es_world s')"]
      by (metis (no_types, lifting) assms(1,7) c fst_conv option.distinct(1) option.inject)
    with hit(2) show ?thesis by (simp add: is_negative_payload)
  next
    case (negative row c0 c')
    have "fst (get ?now pid ?key ttl c0) = None"
      using get_get [of ?now pid ?key ttl ?now pid ?key "ro_ttl_days role" "es_cache t"] short
        negative(1) assms(1) by simp
    then obtain c2 where "get ?now pid ?key ttl c0 = (None, c2)" by (metis prod.collapse)
    then have "fresh_negative_outcome env role pid ?key (t\<lparr>es_cache := c0\<rparr>) = (None, t\<lparr>es_cache := c2\<rparr>)"
      by (simp add: fresh_negative_outcome_def assms(1,6))
    with negative(2) show ?thesis by simp
  next
    case (miss c')
    from this(2) show ?thesis by (cases rule: run_miss_paths) auto
  qed
  then show ?thesis by (simp add: run)
qed

end

section \<open>The run over the store of the repository\<close>

definition pg_env :: "(llm_cache, 'w) engine_env \<Rightarrow> bool" where
  "pg_env env \<longleftrightarrow> en_get_fresh env = get_fresh \<and> en_put env = cache_put"

text \<open>
  Answers round-trip through the cache. After a live run that ended ok, running the role on the
  same input for the same project against the same cache, while the row is younger than the role's
  TTL, returns the same output as a cache hit: it sends no request, does not touch the breaker and
  does not depend on the item or on anything else in the world.
\<close>

theorem engine_ok_cached:
  assumes "pg_env env"
    and "run env role pid item inp s = (r, s')" "rr_outcome r = Ok" "\<not> rr_cache_hit r"
    and "\<not> is_negative (rr_output r)"
    and "es_cache t = es_cache s'"
    and "en_db_now env (es_world t) - of_int (ro_ttl_days role) * SECONDS_PER_DAY
           \<le> en_db_now env (es_world s')"
  shows "fst (run env role pid item' inp t) = r\<lparr>rr_cache_hit := True\<rparr>
    \<and> es_requests (snd (run env role pid item' inp t)) = es_requests t
    \<and> es_breaker (snd (run env role pid item' inp t)) = es_breaker t"
  using assms(1) by (intro cache.run_ok_cached [OF _ _ assms(2-7)]) (simp_all add: pg_env_def)

text \<open>
  A deterministic failure is remembered, but only for the short window. After a live run ended
  in \<open>validation_fail\<close> for a role with a negative TTL, a run on the same input within that window
  answers \<open>validation_fail\<close> from the cache without a request; once the window has passed, the
  marker no longer answers and the run is live again.
\<close>

theorem engine_negative_window:
  assumes "pg_env env"
    and "run env role pid item inp s = (r, s')" "rr_outcome r = ValidationFail" "\<not> rr_cache_hit r"
    and "ro_negative_ttl_days role = Some ttl" and "ttl \<le> ro_ttl_days role"
    and "es_cache t = es_cache s'"
  shows "if en_db_now env (es_world t) - of_int ttl * SECONDS_PER_DAY \<le> en_db_now env (es_world s')
    then fst (run env role pid item' inp t) = r\<lparr>rr_cache_hit := True\<rparr>
         \<and> es_requests (snd (run env role pid item' inp t)) = es_requests t
    else \<not> rr_cache_hit (fst (run env role pid item' inp t))"
proof -
  have g: "en_get_fresh env = get_fresh" "en_put env = cache_put"
    using assms(1) by (simp_all add: pg_env_def)
  show ?thesis
    using cache.run_negative_cached [OF g assms(2-5,7) _ assms(6), of item']
      cache.run_negative_expires [OF g assms(2-5,7), of item'] by simp
qed

text \<open>
  A negative marker is never served as an extraction. If no row that a lookup by template set
  can see is a marker and the role's own outputs are not markers, the same holds after any run, so
  \<open>get_extractor_by_template\<close> returns only real outputs.
\<close>

theorem engine_template_rows_positive:
  assumes "pg_env env" and "cache_ok (es_cache s)"
    and "\<forall>d \<in> template_outputs (es_cache s). \<not> is_negative (Some d)"
    and "run env role pid item inp s = (r, s')" and "rr_outcome r = Ok \<longrightarrow> \<not> is_negative (rr_output r)"
  shows "(\<forall>d \<in> template_outputs (es_cache s'). \<not> is_negative (Some d))
    \<and> (\<forall>now th ttl out. get_extractor_by_template now pid th ttl (es_cache s') = Some out
         \<longrightarrow> \<not> is_negative (Some out))"
proof -
  have g: "en_get_fresh env = get_fresh" "en_put env = cache_put"
    using assms(1) by (simp_all add: pg_env_def)
  define P where "P c \<longleftrightarrow> cache_ok c \<and> (\<forall>d \<in> template_outputs c. \<not> is_negative (Some d))" for c
  have P0: "P (es_cache s)" using assms(2,3) by (simp add: P_def)
  have get: "P c \<Longrightarrow> P (snd (get_fresh t p k ttl c))" for t p k ttl c
    using template_outputs_get cache_ok_get unfolding P_def by blast
  have put: "P c \<Longrightarrow> th = None \<or> \<not> is_negative (Some out) \<Longrightarrow> P (cache_put t p k ro m out th c)"
    for t p k ro m out th c
  proof -
    assume "P c" "th = None \<or> \<not> is_negative (Some out)"
    then show ?thesis
      using template_outputs_put [of t p k ro m out th c] cache_ok_put
      unfolding P_def by (auto split: if_splits)
  qed
  have rd: "P c'" if "reads get_fresh (es_cache s) c'" for c'
    using that by (induction rule: reads.induct) (use P0 get in auto)
  from assms(4) have "P (es_cache s')"
  proof (cases rule: run_paths)
    case (miss c)
    have c: "P c" using rd miss(1) g(1) by simp
    from miss(2) show ?thesis
    proof (cases rule: run_miss_paths)
      case (refused b)
      then show ?thesis using c by simp
    next
      case (good b out0 lat fin i s1 out i' s2)
      have "es_cache s2 = c" using two_attempts_facts [OF good(2)] resolve_facts [OF good(3)] by simp
      moreover have "\<not> is_negative (Some out)" using assms(5) good(4) by simp
      ultimately show ?thesis using c put good(5) by (simp add: g)
    next
      case (bad b oc lat fin i s1)
      have "es_cache s1 = c" using two_attempts_facts [OF bad(2)] by simp
      then show ?thesis using c put bad(6) by (simp add: g)
    qed
  qed (use rd g(1) in simp_all)
  then show ?thesis using get_extractor_sound unfolding P_def by blast
qed

section \<open>No silent cut\<close>

lemma rstrip_is_prefix: "\<exists>r. t = text_rstrip t @ r"
  using rstrip_if_prefix by (metis text_rstrip_def)

lemma prefix_trans': "\<exists>r. b = a @ r \<Longrightarrow> \<exists>r. c = b @ r \<Longrightarrow> \<exists>r. c = a @ r"
  by auto

lemma clip_is_prefix: "\<exists>r. t = clip_to_clean_end t @ r"
proof -
  let ?s = "text_rstrip t"
  let ?tr = "rstrip_if (\<lambda>c. c \<in> set HARD_INCOMPLETE \<or> c = 32 \<or> c = 9) ?s"
  have s: "\<exists>r. t = ?s @ r" by (rule rstrip_is_prefix)
  have tk: "\<exists>r. x = take n x @ r" for n and x :: utext by (metis append_take_drop_id)
  have tr: "\<exists>r. ?s = ?tr @ r" using rstrip_if_prefix by metis
  have "\<exists>r. ?s = clip_to_clean_end t @ r"
  proof (cases "0 \<le> foldl max (- 1) (map (rfind ?s) TERMINAL_CHARS)")
    case True
    show ?thesis unfolding clip_to_clean_end_def Let_def if_P [OF True] by (rule tk)
  next
    case False
    have "\<exists>r. ?tr = text_rstrip (if rfind ?tr 32 > 0 then take (nat (rfind ?tr 32)) ?tr else ?tr) @ r"
    proof (cases "rfind ?tr 32 > 0")
      case True
      from prefix_trans' [OF rstrip_is_prefix tk [of ?tr "nat (rfind ?tr 32)"]]
      show ?thesis unfolding if_P [OF True] .
    next
      case no: False
      show ?thesis unfolding if_not_P [OF no] by (rule rstrip_is_prefix)
    qed
    from prefix_trans' [OF this tr] show ?thesis
      unfolding clip_to_clean_end_def Let_def if_not_P [OF False] .
  qed
  with s show ?thesis using prefix_trans' by blast
qed

text \<open>The marked text is the beginning of the original text and the marker.\<close>

lemma marked_value_prefix: "\<exists>p r. v = p @ r \<and> marked_value v = p @ TRUNCATION_MARKER"
  unfolding marked_value_def Let_def
  using clip_is_prefix [of v] rstrip_is_prefix [of v] by (auto; metis)

lemma resolve_cases:
  assumes "resolve_truncation env role inp schema output fin s = (out, inp', s')"
  shows "(out = output \<and> truncated_fields role output fin = [])
    \<or> (\<exists>lat fin' i t. attempt env role inp schema 7 (Some (ro_num_predict role * 2)) s
          = ((Ok, Some out, lat, fin'), i, t) \<and> truncated_fields role out fin' = [])
    \<or> (\<exists>d fin'. out = mark_truncated d (truncated_fields role d fin')
          \<and> truncated_fields role d fin' \<noteq> [])"
proof (cases "truncated_fields role output fin = []")
  case True
  then show ?thesis using assms by (simp add: resolve_truncation_def)
next
  case False
  obtain oc r lat fin' i t where a: "attempt env role inp schema 7 (Some (ro_num_predict role * 2)) s
      = ((oc, r, lat, fin'), i, t)" by (metis prod_cases3 surj_pair)
  note e = assms [unfolded resolve_truncation_def Let_def if_not_P [OF False] a prod.case]
  show ?thesis
  proof (cases "\<exists>d. oc = Ok \<and> r = Some d")
    case True
    then obtain d where d: "oc = Ok" "r = Some d" by blast
    show ?thesis
    proof (cases "truncated_fields role d fin' = []")
      case True
      then show ?thesis using a e d by simp
    next
      case False
      then have "out = mark_truncated d (truncated_fields role d fin')" using e d by simp
      then show ?thesis using False by blast
    qed
  next
    case no: False
    then have "out = mark_truncated output (truncated_fields role output fin)"
      using e by (auto split: outcome.splits option.splits)
    then show ?thesis using False by blast
  qed
qed

lemma jget_mark_all_other: "k \<notin> set ns \<Longrightarrow> jget (foldl mark_field d ns) k = jget d k"
proof (induction ns arbitrary: d)
  case (Cons n ns)
  then have "jget (foldl mark_field (mark_field d n) ns) k = jget (mark_field d n) k" by simp
  also have "\<dots> = jget d k" using Cons.prems by (intro jget_mark_field_other) simp
  finally show ?case by simp
qed simp

lemma jget_mark_all:
  assumes "distinct ns" and "n \<in> set ns" and "jget d n = Some (JStr v)"
  shows "jget (foldl mark_field d ns) n = Some (JStr (marked_value v))"
  using assms
proof (induction ns arbitrary: d)
  case (Cons m ns)
  show ?case
  proof (cases "m = n")
    case True
    then have "jget (foldl mark_field (mark_field d m) ns) n = jget (mark_field d m) n"
      using Cons.prems(1) by (intro jget_mark_all_other) simp
    moreover have "jget (mark_field d m) n = Some (JStr (marked_value v))"
      using True Cons.prems(3) by (simp add: mark_field_def)
    ultimately show ?thesis by simp
  next
    case False
    then have "jget (mark_field d m) n = Some (JStr v)"
      using Cons.prems(3) jget_mark_field_other by metis
    then show ?thesis using Cons False by simp
  qed
qed simp

text \<open>
  A masked cut is never stored silently. The body that leaves the truncation screen is either a
  body without any cut free-text field under the finish reason it came with - the first answer or
  the retry with twice the budget - or it carries \<open>truncated: true\<close>, and then every field that was
  still cut holds the beginning of the model's text followed by the marker.
\<close>

theorem no_silent_truncation:
  assumes "resolve_truncation env role inp schema output fin s = (out, inp', s')"
    and "distinct (ro_free_text_fields role)" and "ustr ''truncated'' \<notin> set (ro_free_text_fields role)"
  shows "(out = output \<and> truncated_fields role output fin = [])
    \<or> (\<exists>lat fin' i t. attempt env role inp schema 7 (Some (ro_num_predict role * 2)) s
          = ((Ok, Some out, lat, fin'), i, t) \<and> truncated_fields role out fin' = [])
    \<or> (jget out (ustr ''truncated'') = Some (JBool True)
       \<and> (\<exists>d fin'. truncated_fields role d fin' \<noteq> []
          \<and> (\<forall>n \<in> set (truncated_fields role d fin'). \<exists>p rest.
               jget d n = Some (JStr (p @ rest)) \<and> jget out n = Some (JStr (p @ TRUNCATION_MARKER)))))"
proof -
  have marked: "jget (mark_truncated d (truncated_fields role d fin')) (ustr ''truncated'') = Some (JBool True)
      \<and> (\<forall>n \<in> set (truncated_fields role d fin'). \<exists>p rest. jget d n = Some (JStr (p @ rest))
         \<and> jget (mark_truncated d (truncated_fields role d fin')) n = Some (JStr (p @ TRUNCATION_MARKER)))"
    for d fin'
  proof (intro conjI ballI)
    show "jget (mark_truncated d (truncated_fields role d fin')) (ustr ''truncated'') = Some (JBool True)"
      by (simp add: mark_truncated_def)
  next
    fix n
    assume n: "n \<in> set (truncated_fields role d fin')"
    then obtain v where v: "jget d n = Some (JStr v)" "n \<in> set (ro_free_text_fields role)"
      by (auto simp: truncated_fields_def split: option.splits json.splits)
    have ds: "distinct (truncated_fields role d fin')" using assms(2) by (simp add: truncated_fields_def)
    have "jget (mark_truncated d (truncated_fields role d fin')) n = Some (JStr (marked_value v))"
      using jget_mark_all [OF ds n v(1)] v(2) assms(3) by (auto simp: mark_truncated_def)
    then show "\<exists>p rest. jget d n = Some (JStr (p @ rest))
        \<and> jget (mark_truncated d (truncated_fields role d fin')) n = Some (JStr (p @ TRUNCATION_MARKER))"
      using v(1) marked_value_prefix [of v] by auto
  qed
  show ?thesis using resolve_cases [OF assms(1)] marked by blast
qed

section \<open>A concrete engine\<close>

text \<open>A world that is a clock; the server answers at once with a fixed body.\<close>

definition demo_env :: "jobj \<Rightarrow> (llm_cache, real) engine_env" where
  "demo_env body =
     \<lparr>en_model = ''m'', en_breaker_cfg = default_breaker_cfg, en_get_fresh = get_fresh,
      en_put = cache_put,
      en_chat = (\<lambda>req w. (Some \<lparr>ch_content = [], ch_tool_calls = False, ch_latency_ms = 5,
                               ch_finish_reason = Some ''stop''\<rparr>, w + 1)),
      en_nonce = (\<lambda>w. ([], w)), en_db_now = (\<lambda>w. w), en_monotonic = (\<lambda>w. w),
      en_loads = (\<lambda>_. Some (JObj body)), en_sha256 = (\<lambda>t. map char_of t)\<rparr>"

definition demo_role :: "bool \<Rightarrow> utext role" where
  "demo_role accept =
     \<lparr>ro_name = ''extractor'', ro_ttl_days = 90, ro_num_predict = 300, ro_negative_ttl_days = Some 7,
      ro_free_text_fields = [ustr ''reason''],
      ro_schema_for = (\<lambda>_. object_schema [(ustr ''reason'', string_schema 300)] []),
      ro_content_key = (\<lambda>i. i), ro_build_prompt = (\<lambda>i nonce. ([], i, i)),
      ro_post_validate = (\<lambda>d i. (accept, d)), ro_template_hash = (\<lambda>_. Some 4)\<rparr>"

definition demo_state :: "(llm_cache, real) engine_state" where
  "demo_state = \<lparr>es_breaker = breaker_init default_breaker_cfg, es_cache = [], es_events = [],
                 es_requests = [], es_world = 1000\<rparr>"

definition demo_run :: "bool \<Rightarrow> role_result \<times> (llm_cache, real) engine_state" where
  "demo_run accept = run (demo_env [(ustr ''reason'', JStr (ustr ''Fine.''))]) (demo_role accept) 1 2 [] demo_state"

lemmas demo_engine_defs = demo_env_def demo_role_def demo_state_def default_breaker_cfg_def

lemma pg_demo_env: "pg_env (demo_env b)"
  by (simp add: pg_env_def demo_env_def)

definition demo_body :: jobj where
  "demo_body = [(ustr ''reason'', JStr (ustr ''Fine.''))]"

lemma demo_schema: "is_valid (JObj demo_body) (ro_schema_for (demo_role accept) i)"
proof -
  have r: "ro_schema_for (demo_role accept) i = object_schema [(ustr ''reason'', string_schema 300)] []"
    by (simp add: demo_role_def)
  have "is_valid (JStr (ustr ''Fine.'')) (string_schema 300)"
    unfolding is_valid_string by (simp add: ustr_def)
  then show ?thesis unfolding r object_schema_def is_valid_object
    by (simp add: demo_body_def jget_def)
qed

lemma demo_parts:
  "en_chat (demo_env b) req w = (Some \<lparr>ch_content = [], ch_tool_calls = False, ch_latency_ms = 5,
      ch_finish_reason = Some ''stop''\<rparr>, w + 1)"
  "en_nonce (demo_env b) w = ([], w)" "en_loads (demo_env b) c = Some (JObj b)"
  "ro_build_prompt (demo_role accept) i nonce = ([], i, i)"
  "ro_post_validate (demo_role accept) d i = (accept, d)"
  by (simp_all add: demo_env_def demo_role_def)

lemma demo_attempt:
  "\<exists>s'. attempt (demo_env demo_body) (demo_role accept) i (ro_schema_for (demo_role accept) j) seed np s
     = ((if accept then (Ok, Some demo_body, Some 5, Some ''stop'')
         else (ValidationFail, None, Some 5, Some ''stop'')), i, s')"
proof -
  have "judge_body (demo_env demo_body) (demo_role accept) i (ro_schema_for (demo_role accept) j)
      \<lparr>ch_content = [], ch_tool_calls = False, ch_latency_ms = 5, ch_finish_reason = Some ''stop''\<rparr>
      = (if accept then (Ok, Some demo_body, Some 5, Some ''stop'')
         else (ValidationFail, None, Some 5, Some ''stop''))"
    using demo_schema by (simp add: judge_body_def demo_parts)
  then show ?thesis by (simp add: attempt_def Let_def demo_parts)
qed

lemma demo_two_attempts:
  "\<exists>s'. two_attempts (demo_env demo_body) (demo_role accept) i (ro_schema_for (demo_role accept) j) s
     = ((if accept then (Ok, Some demo_body, Some 5, Some ''stop'')
         else (ValidationFail, None, Some 5, Some ''stop'')), i, s')"
proof -
  obtain s1 where a: "attempt (demo_env demo_body) (demo_role accept) i (ro_schema_for (demo_role accept) j)
      7 None s = ((if accept then (Ok, Some demo_body, Some 5, Some ''stop'')
         else (ValidationFail, None, Some 5, Some ''stop'')), i, s1)" using demo_attempt by blast
  obtain s2 where b: "attempt (demo_env demo_body) (demo_role accept) i (ro_schema_for (demo_role accept) j)
      8 None s1 = ((if accept then (Ok, Some demo_body, Some 5, Some ''stop'')
         else (ValidationFail, None, Some 5, Some ''stop'')), i, s2)" using demo_attempt by blast
  show ?thesis unfolding two_attempts_def a using b by (cases accept) auto
qed

lemma demo_resolve:
  "resolve_truncation env (demo_role accept) i sch demo_body (Some ''stop'') s = (demo_body, i, s)"
proof -
  have "\<not> looks_truncated (ustr ''Fine.'') (Some ''stop'')"
    by (simp add: looks_truncated_def ends_hard_incomplete_def text_rstrip_def rstrip_closers_def
        rstrip_if_def ustr_def is_uspace_def TRAILING_CLOSERS_def HARD_INCOMPLETE_def)
  then have "truncated_fields (demo_role accept) demo_body (Some ''stop'') = []"
    by (simp add: truncated_fields_def demo_role_def jget_def demo_body_def)
  then show ?thesis by (simp add: resolve_truncation_def)
qed

lemma demo_run_result:
  "fst (demo_run accept) = \<lparr>rr_outcome = (if accept then Ok else ValidationFail),
     rr_output = (if accept then Some demo_body else None), rr_cache_hit = False,
     rr_prompt_hash = en_sha256 (demo_env demo_body) []\<rparr>"
proof -
  obtain r s' where e: "run (demo_env demo_body) (demo_role accept) 1 2 [] demo_state = (r, s')"
    by (cases "run (demo_env demo_body) (demo_role accept) 1 2 [] demo_state")
  let ?ph = "en_sha256 (demo_env demo_body) (ro_content_key (demo_role accept) [])"
  have g: "en_get_fresh (demo_env demo_body) t p k ttl (es_cache demo_state) = (None, [])" for t p k ttl
    by (simp add: demo_env_def demo_state_def get_fresh_def)
  have b: "fst (allow t (es_breaker (demo_state\<lparr>es_cache := c\<rparr>)))" for t c
    by (simp add: demo_state_def breaker_init_def allow_def)
  from e have "r = \<lparr>rr_outcome = (if accept then Ok else ValidationFail),
     rr_output = (if accept then Some demo_body else None), rr_cache_hit = False, rr_prompt_hash = ?ph\<rparr>"
  proof (cases rule: run_paths)
    case (hit d c)
    then show ?thesis by (simp add: g)
  next
    case (negative row c0 c)
    then have m: "run_miss (demo_env demo_body) (demo_role accept) 1 2 [] ?ph
        (cache_key_of (demo_env demo_body) (demo_role accept) ?ph) (demo_state\<lparr>es_cache := []\<rparr>) = (r, s')"
      using e by (simp add: run_def Let_def g is_negative_def)
    from m show ?thesis by (cases rule: run_miss_paths) (use negative(3) in simp_all)
  next
    case (miss c)
    from miss(2) show ?thesis
    proof (cases rule: run_miss_paths)
      case (refused b')
      then show ?thesis using b [of "en_monotonic (demo_env demo_body) (es_world (demo_state\<lparr>es_cache := c\<rparr>))" c]
        by simp
    next
      case (good b' out0 lat fin i s1 out i' s2)
      obtain s3 where "two_attempts (demo_env demo_body) (demo_role accept) []
          (ro_schema_for (demo_role accept) []) (demo_state\<lparr>es_cache := c, es_breaker := b'\<rparr>)
          = ((if accept then (Ok, Some demo_body, Some 5, Some ''stop'')
             else (ValidationFail, None, Some 5, Some ''stop'')), [], s3)"
        using demo_two_attempts by blast
      with good(2) have "accept" "out0 = demo_body" "fin = Some ''stop''" by (auto split: if_splits)
      with good(3,4) show ?thesis by (simp add: demo_resolve)
    next
      case (bad b' oc lat fin i s1)
      obtain s3 where "two_attempts (demo_env demo_body) (demo_role accept) []
          (ro_schema_for (demo_role accept) []) (demo_state\<lparr>es_cache := c, es_breaker := b'\<rparr>)
          = ((if accept then (Ok, Some demo_body, Some 5, Some ''stop'')
             else (ValidationFail, None, Some 5, Some ''stop'')), [], s3)"
        using demo_two_attempts by blast
      with bad(2) have "\<not> accept" "oc = ValidationFail" by (auto split: if_splits)
      with bad(5) show ?thesis by simp
    qed
  qed
  then show ?thesis using e by (simp add: demo_run_def demo_body_def demo_role_def)
qed

lemma demo_run_eq: "run (demo_env demo_body) (demo_role accept) 1 2 [] demo_state =
    (fst (demo_run accept), snd (demo_run accept))"
  by (simp add: demo_run_def demo_body_def)

lemma demo_body_real: "\<not> is_negative (Some demo_body)"
  by (simp add: is_negative_def jget_def NEGATIVE_MARKER_def demo_body_def)


definition demo_later :: "bool \<Rightarrow> real \<Rightarrow> (llm_cache, real) engine_state" where
  "demo_later accept days = (snd (demo_run accept))
     \<lparr>es_world := es_world (snd (demo_run accept)) + days * SECONDS_PER_DAY\<rparr>"

theorem engine_ok_cached_witness:
  "es_requests (snd (run (demo_env demo_body) (demo_role True) 1 3 [] (demo_later True 89)))
   = es_requests (demo_later True 89)"
proof -
  have c: "es_cache (demo_later True 89) = es_cache (snd (demo_run True))" by (simp add: demo_later_def)
  have t: "en_db_now (demo_env demo_body) (es_world (demo_later True 89))
      - of_int (ro_ttl_days (demo_role True)) * SECONDS_PER_DAY
      \<le> en_db_now (demo_env demo_body) (es_world (snd (demo_run True)))"
    by (simp add: demo_later_def demo_env_def demo_role_def SECONDS_PER_DAY_def)
  have "rr_outcome (fst (demo_run True)) = Ok" "\<not> rr_cache_hit (fst (demo_run True))"
    "\<not> is_negative (rr_output (fst (demo_run True)))"
    by (simp_all add: demo_run_result demo_body_real)
  from engine_ok_cached [OF pg_demo_env demo_run_eq this c t] show ?thesis by simp
qed

theorem engine_negative_window_witness:
  "rr_cache_hit (fst (run (demo_env demo_body) (demo_role False) 1 3 [] (demo_later False 6)))
   \<and> \<not> rr_cache_hit (fst (run (demo_env demo_body) (demo_role False) 1 3 [] (demo_later False 8)))"
proof -
  have c: "es_cache (demo_later False d) = es_cache (snd (demo_run False))" for d
    by (simp add: demo_later_def)
  have r: "rr_outcome (fst (demo_run False)) = ValidationFail" "\<not> rr_cache_hit (fst (demo_run False))"
    by (simp_all add: demo_run_result)
  have n: "ro_negative_ttl_days (demo_role False) = Some 7" "7 \<le> ro_ttl_days (demo_role False)"
    by (simp_all add: demo_role_def)
  have w: "en_db_now (demo_env demo_body) (es_world (demo_later False d)) - of_int 7 * SECONDS_PER_DAY
      \<le> en_db_now (demo_env demo_body) (es_world (snd (demo_run False))) \<longleftrightarrow> d \<le> 7" for d
    by (simp add: demo_later_def demo_env_def SECONDS_PER_DAY_def)
  note win = engine_negative_window [OF pg_demo_env demo_run_eq r n c, unfolded w]
  show ?thesis using win [of 6 3] win [of 8 3] by simp
qed

theorem engine_template_rows_positive_witness:
  "\<forall>now th ttl. case get_extractor_by_template now 1 th ttl (es_cache (snd (demo_run False))) of
     None \<Rightarrow> True | Some out \<Rightarrow> \<not> is_negative (Some out)"
proof -
  have "cache_ok (es_cache demo_state)" by (simp add: cache_ok_def demo_state_def)
  moreover have "\<forall>d \<in> template_outputs (es_cache demo_state). \<not> is_negative (Some d)"
    by (simp add: template_outputs_def demo_state_def)
  moreover have "rr_outcome (fst (demo_run False)) = Ok \<longrightarrow> \<not> is_negative (rr_output (fst (demo_run False)))"
    by (simp add: demo_run_result)
  ultimately have "get_extractor_by_template now 1 th ttl (es_cache (snd (demo_run False))) = Some out
      \<Longrightarrow> \<not> is_negative (Some out)" for now th ttl out
    using engine_template_rows_positive [OF pg_demo_env _ _ demo_run_eq] by blast
  then show ?thesis by (simp split: option.split)
qed

theorem no_silent_truncation_witness:
  "truncated_fields (demo_role True) demo_body (Some ''stop'') = []
   \<or> (\<exists>lat fin' i t. attempt (demo_env demo_body) (demo_role True) []
          (ro_schema_for (demo_role True) []) 7 (Some (ro_num_predict (demo_role True) * 2)) demo_state
          = ((Ok, Some demo_body, lat, fin'), i, t) \<and> truncated_fields (demo_role True) demo_body fin' = [])"
proof -
  have "distinct (ro_free_text_fields (demo_role True))"
    "ustr ''truncated'' \<notin> set (ro_free_text_fields (demo_role True))"
    by (simp_all add: demo_role_def)
  moreover have "jget demo_body (ustr ''truncated'') \<noteq> Some (JBool True)"
    by (simp add: demo_body_def jget_def)
  ultimately show ?thesis using no_silent_truncation [OF demo_resolve] by blast
qed

end
