(* ===== verification/Tables.thy ===== *)
theory Tables
  imports Prelude "HOL-Library.Option_ord"
begin

text \<open>
  Database tables as lists of rows with a key. \<open>upsert\<close> is \<open>INSERT ... ON CONFLICT (key) DO
  UPDATE\<close>, a \<open>DELETE\<close> is a \<open>filter\<close>, an \<open>UPDATE\<close> maps over the rows it selects, and an \<open>ORDER BY
  ... DESC\<close> is \<open>order_desc\<close>. The locale \<open>keyed_table\<close> holds the laws every such table obeys; it is
  interpreted for each table of the store.
\<close>

section \<open>Ordering\<close>

text \<open>\<open>sorted(xs, key=f, reverse=True)\<close>: descending and stable.\<close>

definition order_desc :: "('a \<Rightarrow> 'k::linorder) \<Rightarrow> 'a list \<Rightarrow> 'a list" where
  "order_desc f xs = rev (sort_key f (rev xs))"

lemma set_order_desc [simp]: "set (order_desc f xs) = set xs"
  by (simp add: order_desc_def)

lemma mset_order_desc [simp]: "mset (order_desc f xs) = mset xs"
  by (simp add: order_desc_def)

lemma length_order_desc [simp]: "length (order_desc f xs) = length xs"
  by (simp add: order_desc_def)

lemma order_desc_Nil [simp]: "order_desc f [] = []"
  by (simp add: order_desc_def)

lemma order_desc_eq_Nil [simp]: "order_desc f xs = [] \<longleftrightarrow> xs = []"
  using set_order_desc [of f xs] by (metis set_empty)

lemma sorted_order_desc: "sorted_wrt (\<lambda>x y. f y \<le> f x) (order_desc f xs)"
proof -
  have "sorted (map f (sort_key f (rev xs)))" by simp
  then have "sorted_wrt (\<lambda>x y. f x \<le> f y) (sort_key f (rev xs))"
    by (simp add: sorted_wrt_map)
  then show ?thesis by (simp add: order_desc_def sorted_wrt_rev)
qed

lemma order_desc_hd:
  assumes "x \<in> set xs"
  shows "f x \<le> f (hd (order_desc f xs))"
proof (cases "order_desc f xs")
  case Nil
  with assms show ?thesis by simp
next
  case (Cons y ys)
  have "x \<in> set (y # ys)" using assms by (metis Cons set_order_desc)
  moreover have "\<forall>z \<in> set ys. f z \<le> f y" using sorted_order_desc [of f xs] Cons by simp
  ultimately show ?thesis using Cons by auto
qed

lemma sorted_wrt_take: "sorted_wrt P xs \<Longrightarrow> sorted_wrt P (take n xs)"
  by (metis append_take_drop_id sorted_wrt_append)

section \<open>Rows and keys\<close>

definition lookup_row :: "('r \<Rightarrow> 'k) \<Rightarrow> 'k \<Rightarrow> 'r list \<Rightarrow> 'r option" where
  "lookup_row key k rows = find (\<lambda>r. key r = k) rows"

definition upsert :: "('r \<Rightarrow> 'k) \<Rightarrow> ('r \<Rightarrow> 'r \<Rightarrow> 'r) \<Rightarrow> 'r \<Rightarrow> 'r list \<Rightarrow> 'r list" where
  "upsert key merge new rows =
     (if key new \<in> key ` set rows
      then map (\<lambda>r. if key r = key new then merge r new else r) rows
      else rows @ [new])"

definition unique_by :: "('r \<Rightarrow> 'k) \<Rightarrow> 'r list \<Rightarrow> bool" where
  "unique_by key rows \<longleftrightarrow> distinct (map key rows)"

lemma unique_by_Nil [simp]: "unique_by key []"
  by (simp add: unique_by_def)

lemma unique_by_snoc [simp]:
  "unique_by key (rows @ [r]) \<longleftrightarrow> unique_by key rows \<and> key r \<notin> key ` set rows"
  by (auto simp: unique_by_def)

lemma unique_by_filter: "unique_by key rows \<Longrightarrow> unique_by key (filter P rows)"
  by (simp add: unique_by_def distinct_map_filter)

lemma unique_by_map:
  assumes "\<And>r. r \<in> set rows \<Longrightarrow> key (f r) = key r"
  shows "unique_by key (map f rows) \<longleftrightarrow> unique_by key rows"
proof -
  have "map key (map f rows) = map key rows" using assms by simp
  then show ?thesis by (simp only: unique_by_def)
qed

lemma unique_byD: "unique_by key rows \<Longrightarrow> r \<in> set rows \<Longrightarrow> s \<in> set rows \<Longrightarrow> key r = key s \<Longrightarrow> r = s"
  unfolding unique_by_def by (meson distinct_map inj_onD)

lemma lookup_row_Nil [simp]: "lookup_row key k [] = None"
  by (simp add: lookup_row_def)

lemma lookup_row_Cons [simp]:
  "lookup_row key k (r # rows) = (if key r = k then Some r else lookup_row key k rows)"
  by (simp add: lookup_row_def)

lemma lookup_row_None_iff: "lookup_row key k rows = None \<longleftrightarrow> k \<notin> key ` set rows"
  by (auto simp: lookup_row_def find_None_iff)

lemma lookup_row_SomeD:
  assumes "lookup_row key k rows = Some r"
  shows "r \<in> set rows" and "key r = k"
  using assms by (auto simp: lookup_row_def find_Some_iff in_set_conv_nth)

lemma lookup_row_unique:
  assumes "unique_by key rows" and "r \<in> set rows"
  shows "lookup_row key (key r) rows = Some r"
proof (cases "lookup_row key (key r) rows")
  case None
  with assms(2) show ?thesis by (simp add: lookup_row_None_iff)
next
  case (Some s)
  then show ?thesis using unique_byD [OF assms(1) lookup_row_SomeD(1) [OF Some] assms(2)]
    lookup_row_SomeD(2) [OF Some] by simp
qed

lemma lookup_row_append:
  "lookup_row key k (rows @ [r]) =
     (case lookup_row key k rows of Some s \<Rightarrow> Some s | None \<Rightarrow> if key r = k then Some r else None)"
  by (induction rows) (auto simp: lookup_row_def)

lemma lookup_row_map:
  assumes "\<And>r. r \<in> set rows \<Longrightarrow> key (f r) = key r"
  shows "lookup_row key k (map f rows) = map_option f (lookup_row key k rows)"
  using assms by (induction rows) (auto simp: lookup_row_def)

section \<open>The laws of an upsert\<close>

locale keyed_table =
  fixes key :: "'r \<Rightarrow> 'k" and merge :: "'r \<Rightarrow> 'r \<Rightarrow> 'r"
  assumes merge_key: "key old = key new \<Longrightarrow> key (merge old new) = key new"
begin

lemma key_update: "key (if key r = key new then merge r new else r) = key r"
  by (simp add: merge_key)

lemma upsert_keys: "key ` set (upsert key merge new rows) = insert (key new) (key ` set rows)"
proof (cases "key new \<in> key ` set rows")
  case True
  have "key ` set (map (\<lambda>r. if key r = key new then merge r new else r) rows) = key ` set rows"
    unfolding set_map image_image by (rule image_cong [OF refl]) (rule key_update)
  with True show ?thesis by (simp add: upsert_def insert_absorb)
next
  case False
  then show ?thesis by (simp add: upsert_def)
qed

lemma upsert_unique:
  assumes "unique_by key rows"
  shows "unique_by key (upsert key merge new rows)"
proof (cases "key new \<in> key ` set rows")
  case True
  then show ?thesis using assms by (simp add: upsert_def unique_by_map key_update)
next
  case False
  then show ?thesis using assms by (simp add: upsert_def)
qed

lemma lookup_upsert:
  "lookup_row key k (upsert key merge new rows) =
     (if k = key new
      then Some (case lookup_row key k rows of None \<Rightarrow> new | Some old \<Rightarrow> merge old new)
      else lookup_row key k rows)"
proof (cases "key new \<in> key ` set rows")
  case True
  have "lookup_row key k (upsert key merge new rows) =
      map_option (\<lambda>r. if key r = key new then merge r new else r) (lookup_row key k rows)"
    using True by (simp add: upsert_def lookup_row_map key_update)
  moreover have "lookup_row key (key new) rows \<noteq> None"
    using True lookup_row_None_iff by metis
  ultimately show ?thesis
    by (cases "lookup_row key k rows") (auto dest: lookup_row_SomeD(2))
next
  case False
  then have "lookup_row key (key new) rows = None" by (simp add: lookup_row_None_iff)
  with False show ?thesis
    by (auto simp: upsert_def lookup_row_append split: option.splits)
qed

lemma lookup_upsert_fold_other:
  assumes "k \<notin> key ` set news"
  shows "lookup_row key k (fold (upsert key merge) news rows) = lookup_row key k rows"
  using assms by (induction news arbitrary: rows) (auto simp: lookup_upsert)

lemma fold_upsert_unique:
  "unique_by key rows \<Longrightarrow> unique_by key (fold (upsert key merge) news rows)"
  by (induction news arbitrary: rows) (auto intro: upsert_unique)

lemma fold_upsert_keys:
  "key ` set (fold (upsert key merge) news rows) = key ` set rows \<union> key ` set news"
  by (induction news arbitrary: rows) (auto simp: upsert_keys)

lemma lookup_fold_upsert:
  assumes "distinct (map key news)"
  shows "lookup_row key k (fold (upsert key merge) news rows) =
    (case lookup_row key k news of
       None \<Rightarrow> lookup_row key k rows
     | Some s \<Rightarrow> Some (case lookup_row key k rows of None \<Rightarrow> s | Some old \<Rightarrow> merge old s))"
  using assms
proof (induction news arbitrary: rows)
  case Nil
  then show ?case by simp
next
  case (Cons x xs)
  show ?case
  proof (cases "k = key x")
    case True
    have "k \<notin> key ` set xs" using Cons.prems True by simp
    then show ?thesis
      unfolding True by (simp add: lookup_upsert_fold_other lookup_upsert)
  next
    case False
    then have l: "lookup_row key k (upsert key merge x rows) = lookup_row key k rows"
      by (simp add: lookup_upsert)
    have "distinct (map key xs)" using Cons.prems by simp
    from Cons.IH [OF this, of "upsert key merge x rows"] False show ?thesis
      unfolding l by simp
  qed
qed

lemma upsert_member:
  assumes "r \<in> set (upsert key merge new rows)"
  shows "r = new \<or> r \<in> set rows \<or> (\<exists>old \<in> set rows. key old = key new \<and> r = merge old new)"
  using assms by (auto simp: upsert_def split: if_splits)

end

end
