(* ===== verification/Features.thy ===== *)
theory Features
  imports Prelude
begin

text \<open>
  The feature extractor of the decision layer (\<open>core/features.py\<close>): the registry \<open>FEATURES\<close> of
  names and defaults, the identifier-token Jaccard shared with the Stage-A gate, the mapping from
  defect locators to base groups, the recency decay, and \<open>extract_features\<close>, which turns a
  \<open>FeatureContext\<close> into a name to value snapshot. \<open>Candidate\<close> is the retrieval DTO of
  \<open>db/repositories/models.py\<close>. A token set (\<open>frozenset[str]\<close>) is a \<open>string set\<close>, a snapshot
  (\<open>dict[str, float]\<close>) is a map. The NaN and infinity guard of \<open>_clamp01\<close> has no counterpart on
  real numbers. The lemmas show the range and the exact domain of every snapshot, that the four
  history shares are a sub-distribution, that each one-hot block has one hot column, and that
  the default recency decay is the general power law.
\<close>

section \<open>Registry\<close>

definition FEATURE_SCHEMA_VER :: int where "FEATURE_SCHEMA_VER = 6"

definition LLM_UNKNOWN :: string where "LLM_UNKNOWN = ''unknown''"

definition FAILING_LAYER_LEVELS :: "string list" where
  "FAILING_LAYER_LEVELS =
     [LLM_UNKNOWN, ''test_code'', ''app_code'', ''infrastructure'', ''environment'']"

definition ERROR_CLASS_LEVELS :: "string list" where
  "ERROR_CLASS_LEVELS =
     [LLM_UNKNOWN, ''assertion'', ''timeout'', ''connection'', ''http_4xx'', ''http_5xx'',
      ''null_reference'', ''not_found'', ''permission'', ''data_format'', ''resource_exhausted'',
      ''config'', ''concurrency'', ''other'']"

datatype feature_def = FeatureDef (fd_name: string) (fd_default: real)

type_synonym feats = "string \<rightharpoonup> real"

definition onehot_col :: "string \<Rightarrow> string \<Rightarrow> string" where
  "onehot_col prefix lvl = prefix @ ''_'' @ lvl"

definition onehot_defs :: "string \<Rightarrow> string list \<Rightarrow> feature_def list" where
  "onehot_defs prefix levels =
     map (\<lambda>lvl. FeatureDef (onehot_col prefix lvl) (if lvl = LLM_UNKNOWN then 1 else 0)) levels"

definition set_onehot :: "feats \<Rightarrow> string \<Rightarrow> string list \<Rightarrow> string \<Rightarrow> feats" where
  "set_onehot values prefix levels v =
     (let active = (if v \<in> set levels then v else LLM_UNKNOWN)
      in foldl (\<lambda>m lvl. m(onehot_col prefix lvl \<mapsto> (if lvl = active then 1 else 0))) values levels)"

definition BASE_LABELS :: "string list" where
  "BASE_LABELS = [''pb'', ''ab'', ''si'', ''nd'']"

definition LN2 :: real where "LN2 = ln 2"
definition LN4 :: real where "LN4 = ln 4"

definition TIME_DECAY_PER_DAY :: real where
  "TIME_DECAY_PER_DAY = 2 powr (- 1 / 90)"

definition SI_PRIOR_MAX :: real where "SI_PRIOR_MAX = 9 / 10"

definition FEATURES :: "feature_def list" where
  "FEATURES =
    [FeatureDef ''top1_cosine'' 0, FeatureDef ''top1_rrf'' 0, FeatureDef ''top1_jaccard'' 0,
     FeatureDef ''margin_cos'' 0, FeatureDef ''mean_top5_cosine'' 0, FeatureDef ''n_candidates'' 0,
     FeatureDef ''label_hist_entropy'' 1, FeatureDef ''top1_label_frac'' 0,
     FeatureDef ''same_test_case_top1'' 0, FeatureDef ''same_error_hash_top1'' 0,
     FeatureDef ''same_exception_fp_top1'' 0, FeatureDef ''recency_top1'' 0,
     FeatureDef ''src_weight_top1'' 0, FeatureDef ''hist_pb'' 0, FeatureDef ''hist_ab'' 0,
     FeatureDef ''hist_si'' 0, FeatureDef ''hist_nd'' 0, FeatureDef ''kb_top1_score'' 0,
     FeatureDef ''kb_purity'' 0, FeatureDef ''kb_support'' 0, FeatureDef ''kb_same_fp'' 0,
     FeatureDef ''kb_prior_conf'' 0, FeatureDef ''seed_pb'' 0, FeatureDef ''seed_ab'' 0,
     FeatureDef ''seed_si'' 0, FeatureDef ''seed_nd'' 0, FeatureDef ''flakiness_score'' (1 / 2),
     FeatureDef ''test_fail_rate_30d'' (1 / 2), FeatureDef ''flips_30d'' 0,
     FeatureDef ''co_failure_group_size'' 0, FeatureDef ''group_dominance'' 0,
     FeatureDef ''launch_fail_fraction'' 0, FeatureDef ''si_prior'' 0,
     FeatureDef ''test_age_days'' 0, FeatureDef ''item_log_count'' 0,
     FeatureDef ''has_stacktrace'' 0, FeatureDef ''is_assertion'' 0,
     FeatureDef ''is_merged_small_logs'' 0, FeatureDef ''exception_count'' 0,
     FeatureDef ''status_codes_present'' 0, FeatureDef ''status_codes_match_top1'' 0,
     FeatureDef ''identifier_jaccard_top1'' 0, FeatureDef ''hash_gate_blocked'' 0,
     FeatureDef ''identifiers_present'' 0, FeatureDef ''ident_jaccard_source'' 0]
    @ onehot_defs ''llm_failing_layer'' FAILING_LAYER_LEVELS
    @ onehot_defs ''llm_error_class'' ERROR_CLASS_LEVELS"

definition feature_names :: "string list" where
  "feature_names = map fd_name FEATURES"

definition FEATURE_DEFAULTS :: feats where
  "FEATURE_DEFAULTS = map_of (map (\<lambda>f. (fd_name f, fd_default f)) FEATURES)"

section \<open>Token similarity\<close>

definition jaccard :: "string set \<Rightarrow> string set \<Rightarrow> real" where
  "jaccard a b =
     (if a = {} \<and> b = {} then 1
      else if a \<union> b = {} then 1
      else real (card (a \<inter> b)) / real (card (a \<union> b)))"

text \<open>The search for \<open>\.|::|[a-z][A-Z]\<close> at every position of a token.\<close>

fun ident_search :: "string \<Rightarrow> bool" where
  "ident_search [] = False"
| "ident_search (c # cs) =
     (c = CHR ''.''
      \<or> (case cs of [] \<Rightarrow> False
         | d # _ \<Rightarrow> (c = CHR '':'' \<and> d = CHR '':'') \<or> (is_lower c \<and> is_upper d))
      \<or> ident_search cs)"

definition identifier_tokens :: "string set \<Rightarrow> string set" where
  "identifier_tokens tokens = {t \<in> tokens. ident_search t}"

definition identifier_jaccard :: "string set \<Rightarrow> string set \<Rightarrow> real" where
  "identifier_jaccard query match =
     (let qi = identifier_tokens query; mi = identifier_tokens match
      in if qi \<noteq> {} \<or> mi \<noteq> {} then jaccard qi mi else jaccard query match)"

section \<open>Label weights, decay and base groups\<close>

definition src_weight :: "string option \<Rightarrow> real" where
  "src_weight src =
     (case src of
        None \<Rightarrow> 3 / 10
      | Some s \<Rightarrow>
          if s = ''rp'' then 1 else if s = ''human'' then 9 / 10
          else if s = ''ai_suggested'' then 3 / 10 else if s = ''seed'' then 6 / 10
          else 3 / 10)"

definition decay :: "real \<Rightarrow> real \<Rightarrow> real" where
  "decay per_day days =
     (if days \<le> 0 then 1
      else if per_day = TIME_DECAY_PER_DAY then exp (- LN2 * days / 90)
      else per_day powr days)"

definition base_group :: "string option \<Rightarrow> string option" where
  "base_group issue_type =
     (case issue_type of
        None \<Rightarrow> None
      | Some s \<Rightarrow>
          if s = [] then None
          else (let prefix = lower_str (filter is_alpha (take 2 s))
                in if prefix \<in> set BASE_LABELS then Some prefix else None))"

section \<open>Inputs\<close>

record kb_match =
  kb_mode_id :: int
  kb_score_mode :: real
  kb_purity :: real
  kb_support :: int
  kb_same_exception_fp :: bool
  kb_status :: string

record seed_signal =
  seed_label :: string
  seed_confidence :: real

text \<open>\<open>Candidate\<close>, one retrieval candidate: a KB mode or a labelled item.\<close>

record candidate =
  c_item_id :: "int option"
  c_mode_id :: "int option"
  c_dense_rank :: "int option"
  c_sparse_rank :: "int option"
  c_rrf_score :: real
  c_cosine :: "real option"
  c_lex_score :: "real option"
  c_jaccard_templates :: real
  c_issue_type :: "string option"
  c_label_source :: "string option"
  c_label_ts :: "seconds option"
  c_same_test_case :: bool
  c_same_error_hash :: bool
  c_same_exception_fp :: bool
  c_msg_text :: string
  c_exc_text :: string
  c_launch_distance :: "int option"
  c_launch_id :: "int option"
  c_launch_name :: "string option"
  c_mode_status :: "string option"
  c_mode_purity :: "real option"
  c_mode_support :: "int option"
  c_matched_by :: "string option"
  c_relevant_log_id :: "int option"

definition candidate_default :: "int option \<Rightarrow> int option \<Rightarrow> candidate" where
  "candidate_default iid mid =
     \<lparr>c_item_id = iid, c_mode_id = mid, c_dense_rank = None, c_sparse_rank = None,
      c_rrf_score = 0, c_cosine = None, c_lex_score = None, c_jaccard_templates = 0,
      c_issue_type = None, c_label_source = None, c_label_ts = None, c_same_test_case = False,
      c_same_error_hash = False, c_same_exception_fp = False, c_msg_text = [], c_exc_text = [],
      c_launch_distance = None, c_launch_id = None, c_launch_name = None, c_mode_status = None,
      c_mode_purity = None, c_mode_support = None, c_matched_by = None,
      c_relevant_log_id = None\<rparr>"

record feature_context =
  fc_candidates :: "candidate list"
  fc_candidate_ages_days :: "real list"
  fc_kb_best :: "kb_match option"
  fc_seed :: "seed_signal option"
  fc_flakiness_score :: "real option"
  fc_window_runs :: int
  fc_window_failures :: int
  fc_window_flips :: int
  fc_test_age_days :: "real option"
  fc_group_size :: int
  fc_launch_failures :: int
  fc_launch_items :: int
  fc_si_prior :: real
  fc_item_log_count :: int
  fc_has_stacktrace :: bool
  fc_is_assertion :: bool
  fc_is_merged_small_logs :: bool
  fc_exception_count :: int
  fc_llm_failing_layer :: string
  fc_llm_error_class :: string
  fc_query_status_codes :: "string list"
  fc_query_msg_tokens :: "string set"
  fc_top1_status_codes :: "string list"
  fc_top1_msg_tokens :: "string set"
  fc_has_hash_top1 :: bool
  fc_hash_gate_blocked :: bool
  fc_time_decay_per_day :: real

definition default_context :: feature_context where
  "default_context =
     \<lparr>fc_candidates = [], fc_candidate_ages_days = [], fc_kb_best = None, fc_seed = None,
      fc_flakiness_score = None, fc_window_runs = 0, fc_window_failures = 0, fc_window_flips = 0,
      fc_test_age_days = None, fc_group_size = 1, fc_launch_failures = 0, fc_launch_items = 0,
      fc_si_prior = 0, fc_item_log_count = 0, fc_has_stacktrace = False, fc_is_assertion = False,
      fc_is_merged_small_logs = False, fc_exception_count = 0, fc_llm_failing_layer = LLM_UNKNOWN,
      fc_llm_error_class = LLM_UNKNOWN, fc_query_status_codes = [], fc_query_msg_tokens = {},
      fc_top1_status_codes = [], fc_top1_msg_tokens = {}, fc_has_hash_top1 = False,
      fc_hash_gate_blocked = False, fc_time_decay_per_day = TIME_DECAY_PER_DAY\<rparr>"

section \<open>Extraction\<close>

definition cos_of :: "candidate \<Rightarrow> real" where
  "cos_of c = (case c_cosine c of None \<Rightarrow> 0 | Some v \<Rightarrow> v)"

definition flag :: "bool \<Rightarrow> real" where
  "flag b = (if b then 1 else 0)"

definition log1p :: "real \<Rightarrow> real" where
  "log1p x = ln (1 + x)"

definition values0 :: feats where
  "values0 = FEATURE_DEFAULTS"

text \<open>The label histogram over base groups, a dictionary in insertion order.\<close>

fun label_hist :: "candidate list \<Rightarrow> (string \<times> nat) list \<Rightarrow> (string \<times> nat) list" where
  "label_hist [] hist = hist"
| "label_hist (c # cs) hist =
     (case base_group (c_issue_type c) of
        None \<Rightarrow> label_hist cs hist
      | Some b \<Rightarrow>
          label_hist cs
            (AList.update b (case map_of hist b of None \<Rightarrow> 1 | Some n \<Rightarrow> n + 1) hist))"

definition hist_total :: "(string \<times> nat) list \<Rightarrow> nat" where
  "hist_total hist = sum_list (map snd hist)"

definition hist_entropy :: "(string \<times> nat) list \<Rightarrow> real" where
  "hist_entropy hist =
     (let labeled = real (hist_total hist);
          probs = map (\<lambda>(b, n). real n / labeled) hist
      in - sum_list (map (\<lambda>p. p * ln p) (filter (\<lambda>p. 0 < p) probs)))"

definition cand_retrieval_feats :: "feature_context \<Rightarrow> candidate \<Rightarrow> feats \<Rightarrow> feats" where
  "cand_retrieval_feats ctx top1 values =
     (let cands = fc_candidates ctx;
          top2_cos = (if length cands > 1 then cos_of (cands ! 1) else 0);
          top5 = take 5 cands
      in values
         (''top1_cosine'' \<mapsto> clamp01 (cos_of top1),
          ''top1_rrf'' \<mapsto> max 0 (c_rrf_score top1),
          ''top1_jaccard'' \<mapsto> clamp01 (c_jaccard_templates top1),
          ''margin_cos'' \<mapsto> clamp01 (cos_of top1 - top2_cos),
          ''mean_top5_cosine'' \<mapsto>
             clamp01 (sum_list (map cos_of top5) / real (length top5)),
          ''n_candidates'' \<mapsto> clamp01 (real (length cands) / 20)))"

definition cand_label_feats :: "feature_context \<Rightarrow> candidate \<Rightarrow> feats \<Rightarrow> feats" where
  "cand_label_feats ctx top1 values =
     (let hist = label_hist (fc_candidates ctx) [];
          labeled = hist_total hist;
          values = (if labeled \<noteq> 0
                    then values(''label_hist_entropy'' \<mapsto> clamp01 (hist_entropy hist / LN4))
                    else values(''label_hist_entropy'' \<mapsto> 1))
      in (case base_group (c_issue_type top1) of
            None \<Rightarrow> values
          | Some b \<Rightarrow>
              if labeled \<noteq> 0 then
                values(''top1_label_frac'' \<mapsto>
                  clamp01 (real (case map_of hist b of None \<Rightarrow> 0 | Some n \<Rightarrow> n) / real labeled))
              else values))"

definition top1_age :: "feature_context \<Rightarrow> real" where
  "top1_age ctx = (case fc_candidate_ages_days ctx of [] \<Rightarrow> 0 | a # _ \<Rightarrow> a)"

definition cand_top1_feats :: "feature_context \<Rightarrow> candidate \<Rightarrow> feats \<Rightarrow> feats" where
  "cand_top1_feats ctx top1 values =
     values
       (''same_test_case_top1'' \<mapsto> flag (c_same_test_case top1),
        ''same_error_hash_top1'' \<mapsto> flag (c_same_error_hash top1),
        ''same_exception_fp_top1'' \<mapsto> flag (c_same_exception_fp top1),
        ''recency_top1'' \<mapsto> clamp01 (decay (fc_time_decay_per_day ctx) (top1_age ctx)),
        ''src_weight_top1'' \<mapsto> src_weight (c_label_source top1))"

definition cand_weight :: "real \<Rightarrow> candidate \<Rightarrow> real \<Rightarrow> real" where
  "cand_weight per_day c age =
     max 0 (cos_of c) * decay per_day age * src_weight (c_label_source c)"

fun mass_loop ::
  "real \<Rightarrow> candidate list \<Rightarrow> real list \<Rightarrow> (string \<Rightarrow> real) \<times> real \<Rightarrow> (string \<Rightarrow> real) \<times> real" where
  "mass_loop per_day [] ages acc = acc"
| "mass_loop per_day (c # cs) ages (mass, tot) =
     (let age = (case ages of [] \<Rightarrow> 0 | a # _ \<Rightarrow> a);
          w = cand_weight per_day c age
      in mass_loop per_day cs (tl ages)
           (case base_group (c_issue_type c) of
              None \<Rightarrow> mass
            | Some b \<Rightarrow> mass(b := mass b + w),
            tot + w))"

definition hist_col :: "string \<Rightarrow> string" where
  "hist_col b = ''hist_'' @ b"

definition cand_mass_feats :: "feature_context \<Rightarrow> feats \<Rightarrow> feats" where
  "cand_mass_feats ctx values =
     (let (mass, tot) = mass_loop (fc_time_decay_per_day ctx) (fc_candidates ctx)
                            (fc_candidate_ages_days ctx) (\<lambda>_. 0, 0)
      in if 0 < tot
         then foldl (\<lambda>m b. m(hist_col b \<mapsto> clamp01 (mass b / tot))) values BASE_LABELS
         else values)"

definition candidate_feats :: "feature_context \<Rightarrow> feats \<Rightarrow> feats" where
  "candidate_feats ctx values =
     (case fc_candidates ctx of
        [] \<Rightarrow> values
      | top1 # _ \<Rightarrow>
          cand_mass_feats ctx
            (cand_top1_feats ctx top1
              (cand_label_feats ctx top1
                (cand_retrieval_feats ctx top1 values))))"

definition kb_feats :: "feature_context \<Rightarrow> feats \<Rightarrow> feats" where
  "kb_feats ctx values =
     (case fc_kb_best ctx of
        None \<Rightarrow> values
      | Some kb \<Rightarrow>
          values
            (''kb_top1_score'' \<mapsto> clamp01 (kb_score_mode kb),
             ''kb_purity'' \<mapsto> clamp01 (kb_purity kb),
             ''kb_support'' \<mapsto>
                clamp01 (log1p (of_int (max 0 (kb_support kb))) / log1p 1000),
             ''kb_same_fp'' \<mapsto> flag (kb_same_exception_fp kb)))"

definition seed_col :: "string \<Rightarrow> string" where
  "seed_col b = ''seed_'' @ b"

definition seed_feats :: "feature_context \<Rightarrow> feats \<Rightarrow> feats" where
  "seed_feats ctx values =
     (case fc_seed ctx of
        None \<Rightarrow> values
      | Some seed \<Rightarrow>
          (let values = values(''kb_prior_conf'' \<mapsto> clamp01 (seed_confidence seed))
           in case base_group (Some (seed_label seed)) of
                None \<Rightarrow> values
              | Some b \<Rightarrow> values(seed_col b \<mapsto> 1)))"

definition history_feats :: "feature_context \<Rightarrow> feats \<Rightarrow> feats" where
  "history_feats ctx values =
     (let values = (case fc_flakiness_score ctx of
                      None \<Rightarrow> values
                    | Some s \<Rightarrow> values(''flakiness_score'' \<mapsto> clamp01 s));
          values = (if fc_window_runs ctx > 0
                    then values(''test_fail_rate_30d'' \<mapsto>
                      clamp01 (of_int (fc_window_failures ctx) / of_int (fc_window_runs ctx)))
                    else values)
      in values(''flips_30d'' \<mapsto>
           clamp01 (log1p (of_int (max 0 (fc_window_flips ctx))) / log1p 20)))"

definition launch_feats :: "feature_context \<Rightarrow> feats \<Rightarrow> feats" where
  "launch_feats ctx values =
     (let values = values(''co_failure_group_size'' \<mapsto>
            clamp01 (log1p (of_int (max 0 (fc_group_size ctx))) / log1p 200));
          values = (if fc_launch_failures ctx > 0
                    then values(''group_dominance'' \<mapsto>
                      clamp01 (of_int (fc_group_size ctx) / of_int (fc_launch_failures ctx)))
                    else values);
          values = (if fc_launch_items ctx > 0
                    then values(''launch_fail_fraction'' \<mapsto>
                      clamp01 (of_int (fc_launch_failures ctx) / of_int (fc_launch_items ctx)))
                    else values)
      in values(''si_prior'' \<mapsto> max 0 (min SI_PRIOR_MAX (fc_si_prior ctx))))"

definition item_feats :: "feature_context \<Rightarrow> feats \<Rightarrow> feats" where
  "item_feats ctx values =
     (let values = (case fc_test_age_days ctx of
                      None \<Rightarrow> values
                    | Some d \<Rightarrow>
                        values(''test_age_days'' \<mapsto>
                          clamp01 (log1p (min (max 0 d) 365) / log1p 365)))
      in values
         (''item_log_count'' \<mapsto> clamp01 (of_int (fc_item_log_count ctx) / 20),
          ''has_stacktrace'' \<mapsto> flag (fc_has_stacktrace ctx),
          ''is_assertion'' \<mapsto> flag (fc_is_assertion ctx),
          ''is_merged_small_logs'' \<mapsto> flag (fc_is_merged_small_logs ctx),
          ''exception_count'' \<mapsto> clamp01 (of_int (min (fc_exception_count ctx) 5) / 5)))"

definition llm_feats :: "feature_context \<Rightarrow> feats \<Rightarrow> feats" where
  "llm_feats ctx values =
     set_onehot
       (set_onehot values ''llm_failing_layer'' FAILING_LAYER_LEVELS (fc_llm_failing_layer ctx))
       ''llm_error_class'' ERROR_CLASS_LEVELS (fc_llm_error_class ctx)"

text \<open>The best available neighbour: the exact-hash top-1, else the Stage-C top-1.\<close>

definition neighbour_tokens :: "feature_context \<Rightarrow> (string set \<times> real) option" where
  "neighbour_tokens ctx =
     (if fc_has_hash_top1 ctx then Some (fc_top1_msg_tokens ctx, 1)
      else (case fc_candidates ctx of
              [] \<Rightarrow> None
            | c # _ \<Rightarrow> Some (set (split_ws (c_msg_text c)), 1 / 2)))"

definition status_code_feats :: "feature_context \<Rightarrow> feats \<Rightarrow> feats" where
  "status_code_feats ctx values =
     (let qcodes = fc_query_status_codes ctx;
          values = values(''status_codes_present'' \<mapsto> flag (qcodes \<noteq> []))
      in if fc_has_hash_top1 ctx
         then values(''status_codes_match_top1'' \<mapsto>
                flag (qcodes \<noteq> [] \<and> set qcodes = set (fc_top1_status_codes ctx)))
         else values)"

definition identifier_feats :: "feature_context \<Rightarrow> feats \<Rightarrow> feats" where
  "identifier_feats ctx values =
     (let query_ids = identifier_tokens (fc_query_msg_tokens ctx);
          values = values(''identifiers_present'' \<mapsto> flag (query_ids \<noteq> {}))
      in case neighbour_tokens ctx of
           None \<Rightarrow> values
         | Some (toks, src) \<Rightarrow>
             (let neighbour_ids = identifier_tokens toks
              in values
                 (''ident_jaccard_source'' \<mapsto> src,
                  ''identifier_jaccard_top1'' \<mapsto>
                    (if query_ids \<noteq> {} \<or> neighbour_ids \<noteq> {}
                     then clamp01 (jaccard query_ids neighbour_ids) else 0))))"

definition discriminant_feats :: "feature_context \<Rightarrow> feats \<Rightarrow> feats" where
  "discriminant_feats ctx values =
     (identifier_feats ctx (status_code_feats ctx values))
       (''hash_gate_blocked'' \<mapsto> flag (fc_hash_gate_blocked ctx))"

definition extract_features :: "feature_context \<Rightarrow> feats" where
  "extract_features ctx =
     discriminant_feats ctx
       (llm_feats ctx
         (item_feats ctx
           (launch_feats ctx
             (history_feats ctx
               (seed_feats ctx
                 (kb_feats ctx
                   (candidate_feats ctx values0)))))))"

section \<open>Vectors\<close>

definition to_vector :: "feats \<Rightarrow> real list" where
  "to_vector values =
     map (\<lambda>f. case values (fd_name f) of None \<Rightarrow> fd_default f | Some v \<Rightarrow> v) FEATURES"

definition to_vector_for :: "feats \<Rightarrow> string list \<Rightarrow> real list" where
  "to_vector_for values names =
     map (\<lambda>n. case values n of
                Some v \<Rightarrow> v
              | None \<Rightarrow> (case FEATURE_DEFAULTS n of None \<Rightarrow> 0 | Some d \<Rightarrow> d)) names"

section \<open>The registry\<close>

lemma feature_names_eq:
  "feature_names =
    [''top1_cosine'', ''top1_rrf'', ''top1_jaccard'', ''margin_cos'', ''mean_top5_cosine'',
     ''n_candidates'', ''label_hist_entropy'', ''top1_label_frac'', ''same_test_case_top1'',
     ''same_error_hash_top1'', ''same_exception_fp_top1'', ''recency_top1'', ''src_weight_top1'',
     ''hist_pb'', ''hist_ab'', ''hist_si'', ''hist_nd'', ''kb_top1_score'', ''kb_purity'',
     ''kb_support'', ''kb_same_fp'', ''kb_prior_conf'', ''seed_pb'', ''seed_ab'', ''seed_si'',
     ''seed_nd'', ''flakiness_score'', ''test_fail_rate_30d'', ''flips_30d'',
     ''co_failure_group_size'', ''group_dominance'', ''launch_fail_fraction'', ''si_prior'',
     ''test_age_days'', ''item_log_count'', ''has_stacktrace'', ''is_assertion'',
     ''is_merged_small_logs'', ''exception_count'', ''status_codes_present'',
     ''status_codes_match_top1'', ''identifier_jaccard_top1'', ''hash_gate_blocked'',
     ''identifiers_present'', ''ident_jaccard_source'']
    @ map (onehot_col ''llm_failing_layer'') FAILING_LAYER_LEVELS
    @ map (onehot_col ''llm_error_class'') ERROR_CLASS_LEVELS"
  by (simp add: feature_names_def FEATURES_def onehot_defs_def)

lemma length_FEATURES: "length FEATURES = 64"
  by (simp add: FEATURES_def onehot_defs_def FAILING_LAYER_LEVELS_def ERROR_CLASS_LEVELS_def)

lemma distinct_feature_names: "distinct feature_names"
  by code_simp

lemma onehot_col_inj: "inj (onehot_col prefix)"
  by (auto simp: inj_def onehot_col_def)

lemma map_of_feature_defaults:
  "f \<in> set FEATURES \<Longrightarrow> FEATURE_DEFAULTS (fd_name f) = Some (fd_default f)"
proof -
  assume f: "f \<in> set FEATURES"
  have "distinct (map fst (map (\<lambda>f. (fd_name f, fd_default f)) FEATURES))"
    using distinct_feature_names by (simp add: feature_names_def o_def)
  with f show ?thesis
    unfolding FEATURE_DEFAULTS_def by (auto intro: map_of_is_SomeI)
qed

lemma dom_values0: "dom values0 = set feature_names"
  by (simp add: values0_def FEATURE_DEFAULTS_def dom_map_of_conv_image_fst feature_names_def
      image_image)

section \<open>Domain and range of a snapshot\<close>

definition feats_ok :: "feats \<Rightarrow> bool" where
  "feats_ok m \<longleftrightarrow> dom m = set feature_names
     \<and> (\<forall>n v. m n = Some v \<longrightarrow> 0 \<le> v \<and> (n \<noteq> ''top1_rrf'' \<longrightarrow> v \<le> 1))"

lemma feats_ok_upd [range_intros]:
  "feats_ok m \<Longrightarrow> n \<in> set feature_names \<Longrightarrow> 0 \<le> v \<Longrightarrow> (n \<noteq> ''top1_rrf'' \<Longrightarrow> v \<le> 1) \<Longrightarrow>
     feats_ok (m(n \<mapsto> v))"
  by (auto simp: feats_ok_def)

lemma feats_ok_foldl [range_intros]:
  "feats_ok m \<Longrightarrow> (\<And>x. x \<in> set xs \<Longrightarrow> k x \<in> set feature_names \<and> 0 \<le> f x \<and> f x \<le> 1) \<Longrightarrow>
     feats_ok (foldl (\<lambda>m x. m(k x \<mapsto> f x)) m xs)"
  by (induction xs arbitrary: m) (auto intro: feats_ok_upd)

lemma flag_range [simp]: "0 \<le> flag b" "flag b \<le> 1"
  by (simp_all add: flag_def)

lemma src_weight_range [simp]: "0 \<le> src_weight s" "src_weight s \<le> 1"
  by (auto simp: src_weight_def split: option.splits)

lemma decay_nonneg [simp]: "0 \<le> decay p d"
  by (simp add: decay_def)

lemma feats_ok_values0: "feats_ok values0"
proof -
  have "0 \<le> fd_default f \<and> fd_default f \<le> 1" if "f \<in> set FEATURES" for f
    using that by (auto simp: FEATURES_def onehot_defs_def)
  moreover have "\<exists>f \<in> set FEATURES. fd_default f = v" if "values0 n = Some v" for n v
    using that map_of_SomeD by (fastforce simp: values0_def FEATURE_DEFAULTS_def)
  ultimately show ?thesis by (auto simp: feats_ok_def dom_values0)
qed

lemma hist_col_name: "b \<in> set BASE_LABELS \<Longrightarrow> hist_col b \<in> set feature_names"
  by (auto simp: BASE_LABELS_def hist_col_def feature_names_eq)

lemma seed_col_name: "b \<in> set BASE_LABELS \<Longrightarrow> seed_col b \<in> set feature_names"
  by (auto simp: BASE_LABELS_def seed_col_def feature_names_eq)

lemma base_group_Some: "base_group t = Some b \<Longrightarrow> b \<in> set BASE_LABELS"
  by (auto simp: base_group_def Let_def split: option.splits if_splits)

lemma candidate_feats_ok: "feats_ok m \<Longrightarrow> feats_ok (candidate_feats ctx m)"
proof (cases "fc_candidates ctx")
  case Nil
  then show "feats_ok m \<Longrightarrow> ?thesis" by (simp add: candidate_feats_def)
next
  case (Cons c cs)
  have 1: "feats_ok m \<Longrightarrow> feats_ok (cand_retrieval_feats ctx c m)" for m
    unfolding cand_retrieval_feats_def Let_def
    by (intro feats_ok_upd) (simp_all add: feature_names_eq)
  have 2: "feats_ok m \<Longrightarrow> feats_ok (cand_label_feats ctx c m)" for m
    unfolding cand_label_feats_def Let_def
    by (auto split: option.splits intro!: feats_ok_upd simp: feature_names_eq)
  have 3: "feats_ok m \<Longrightarrow> feats_ok (cand_top1_feats ctx c m)" for m
    unfolding cand_top1_feats_def
    by (intro feats_ok_upd) (simp_all add: feature_names_eq)
  have 4: "feats_ok m \<Longrightarrow> feats_ok (cand_mass_feats ctx m)" for m
    unfolding cand_mass_feats_def Let_def
    by (auto split: prod.splits intro!: feats_ok_foldl simp: hist_col_name)
  show "feats_ok m \<Longrightarrow> ?thesis" using Cons 1 2 3 4 by (simp add: candidate_feats_def)
qed

lemma kb_feats_ok: "feats_ok m \<Longrightarrow> feats_ok (kb_feats ctx m)"
  unfolding kb_feats_def
  by (auto split: option.splits intro!: feats_ok_upd simp: feature_names_eq)

lemma seed_feats_ok: "feats_ok m \<Longrightarrow> feats_ok (seed_feats ctx m)"
  unfolding seed_feats_def Let_def
  by (auto split: option.splits intro!: feats_ok_upd seed_col_name dest: base_group_Some
      simp: feature_names_eq)

lemma history_feats_ok: "feats_ok m \<Longrightarrow> feats_ok (history_feats ctx m)"
  unfolding history_feats_def Let_def
  by (auto split: option.splits intro!: feats_ok_upd simp: feature_names_eq)

lemma launch_feats_ok: "feats_ok m \<Longrightarrow> feats_ok (launch_feats ctx m)"
  unfolding launch_feats_def Let_def
  by (auto intro!: feats_ok_upd simp: feature_names_eq SI_PRIOR_MAX_def)

lemma item_feats_ok: "feats_ok m \<Longrightarrow> feats_ok (item_feats ctx m)"
  unfolding item_feats_def Let_def
  by (auto split: option.splits intro!: feats_ok_upd simp: feature_names_eq)

lemma llm_feats_ok: "feats_ok m \<Longrightarrow> feats_ok (llm_feats ctx m)"
  unfolding llm_feats_def set_onehot_def Let_def
  by (intro feats_ok_foldl) (auto simp: feature_names_eq)

lemma status_code_feats_ok: "feats_ok m \<Longrightarrow> feats_ok (status_code_feats ctx m)"
  unfolding status_code_feats_def Let_def
  by (auto intro!: feats_ok_upd simp: feature_names_eq)

lemma neighbour_source_range: "neighbour_tokens ctx = Some (t, s) \<Longrightarrow> 0 \<le> s \<and> s \<le> 1"
  by (auto simp: neighbour_tokens_def split: if_splits list.splits)

lemma identifier_feats_ok:
  assumes "feats_ok m"
  shows "feats_ok (identifier_feats ctx m)"
proof -
  define m1 where "m1 = m(''identifiers_present'' \<mapsto>
    flag (identifier_tokens (fc_query_msg_tokens ctx) \<noteq> {}))"
  have m1: "feats_ok m1"
    unfolding m1_def by (rule feats_ok_upd [OF assms]) (simp_all add: feature_names_eq)
  show ?thesis
  proof (cases "neighbour_tokens ctx")
    case None
    with m1 show ?thesis by (simp add: identifier_feats_def m1_def)
  next
    case (Some p)
    obtain t s where p: "p = (t, s)" by (cases p)
    have s: "0 \<le> s" "s \<le> 1" using neighbour_source_range Some p by auto
    let ?j = "if identifier_tokens (fc_query_msg_tokens ctx) \<noteq> {} \<or> identifier_tokens t \<noteq> {}
              then clamp01 (jaccard (identifier_tokens (fc_query_msg_tokens ctx))
                                    (identifier_tokens t)) else 0"
    have "identifier_feats ctx m =
        m1(''ident_jaccard_source'' \<mapsto> s, ''identifier_jaccard_top1'' \<mapsto> ?j)"
      by (simp add: identifier_feats_def m1_def Some p Let_def)
    moreover have "feats_ok (m1(''ident_jaccard_source'' \<mapsto> s, ''identifier_jaccard_top1'' \<mapsto> ?j))"
      using m1 s by (intro feats_ok_upd) (simp_all add: feature_names_eq)
    ultimately show ?thesis by simp
  qed
qed

lemma discriminant_feats_ok: "feats_ok m \<Longrightarrow> feats_ok (discriminant_feats ctx m)"
  unfolding discriminant_feats_def
  by (intro feats_ok_upd identifier_feats_ok status_code_feats_ok) (simp_all add: feature_names_eq)

text \<open>
  Every snapshot of \<open>extract_features\<close> has exactly the 64 registered names as keys, and every
  value lies in [0, 1], except the unbounded fused score \<open>top1_rrf\<close>, which is only non-negative.
\<close>

theorem extract_features_range:
  "dom (extract_features ctx) = set feature_names
   \<and> length feature_names = 64 \<and> distinct feature_names
   \<and> (\<forall>n v. extract_features ctx n = Some v \<longrightarrow> 0 \<le> v \<and> (n = ''top1_rrf'' \<or> v \<le> 1))"
proof -
  have "feats_ok (extract_features ctx)"
    unfolding extract_features_def
    by (intro discriminant_feats_ok llm_feats_ok item_feats_ok launch_feats_ok history_feats_ok
        seed_feats_ok kb_feats_ok candidate_feats_ok feats_ok_values0)
  then show ?thesis
    using distinct_feature_names length_FEATURES by (auto simp: feats_ok_def feature_names_def)
qed

theorem extract_features_range_witness:
  "\<exists>v. extract_features default_context ''co_failure_group_size'' = Some v \<and> 0 \<le> v \<and> v \<le> 1"
proof -
  have "''co_failure_group_size'' \<in> set feature_names" by code_simp
  then obtain v where "extract_features default_context ''co_failure_group_size'' = Some v"
    using extract_features_range [of default_context] by blast
  then show ?thesis using extract_features_range [of default_context] by force
qed

section \<open>History shares\<close>

lemma mass_loop_inv:
  assumes "\<forall>b. 0 \<le> mass b" and "sum_list (map mass BASE_LABELS) \<le> tot"
    and "mass_loop p cs ages (mass, tot) = (mass', tot')"
  shows "(\<forall>b. 0 \<le> mass' b) \<and> sum_list (map mass' BASE_LABELS) \<le> tot'"
  using assms
proof (induction cs arbitrary: ages mass tot)
  case Nil
  then show ?case by simp
next
  case (Cons c cs)
  define w where "w = cand_weight p c (case ages of [] \<Rightarrow> 0 | a # _ \<Rightarrow> a)"
  define m2 where "m2 = (case base_group (c_issue_type c) of None \<Rightarrow> mass
                         | Some b \<Rightarrow> mass(b := mass b + w))"
  have w: "0 \<le> w" by (simp add: w_def cand_weight_def)
  have "(\<forall>b. 0 \<le> m2 b) \<and> sum_list (map m2 BASE_LABELS) \<le> tot + w"
  proof (cases "base_group (c_issue_type c)")
    case None
    with w Cons.prems show ?thesis by (simp add: m2_def)
  next
    case (Some b)
    from base_group_Some [OF Some] w Cons.prems Some show ?thesis
      by (auto simp: m2_def BASE_LABELS_def)
  qed
  moreover have "mass_loop p cs (tl ages) (m2, tot + w) = (mass', tot')"
    using Cons.prems(3) unfolding w_def m2_def by (simp add: Let_def)
  ultimately show ?case using Cons.IH by blast
qed

lemma later_steps_keep_hist:
  assumes "b \<in> set BASE_LABELS"
  shows "extract_features ctx (hist_col b) = candidate_feats ctx values0 (hist_col b)"
proof -
  have disc: "discriminant_feats ctx m (hist_col b) = m (hist_col b)" for m
    using assms by (auto simp: discriminant_feats_def identifier_feats_def status_code_feats_def
        Let_def BASE_LABELS_def hist_col_def split: option.splits)
  have llm: "llm_feats ctx m (hist_col b) = m (hist_col b)" for m
    using assms
    by (auto simp: llm_feats_def set_onehot_def Let_def BASE_LABELS_def hist_col_def
        onehot_col_def FAILING_LAYER_LEVELS_def ERROR_CLASS_LEVELS_def)
  have item: "item_feats ctx m (hist_col b) = m (hist_col b)" for m
    using assms by (auto simp: item_feats_def Let_def BASE_LABELS_def hist_col_def
        split: option.splits)
  have launch: "launch_feats ctx m (hist_col b) = m (hist_col b)" for m
    using assms by (auto simp: launch_feats_def Let_def BASE_LABELS_def hist_col_def)
  have history: "history_feats ctx m (hist_col b) = m (hist_col b)" for m
    using assms by (auto simp: history_feats_def Let_def BASE_LABELS_def hist_col_def
        split: option.splits)
  have seed: "seed_feats ctx m (hist_col b) = m (hist_col b)" for m
    using assms by (auto simp: seed_feats_def Let_def BASE_LABELS_def hist_col_def seed_col_def
        split: option.splits)
  have kb: "kb_feats ctx m (hist_col b) = m (hist_col b)" for m
    using assms by (auto simp: kb_feats_def BASE_LABELS_def hist_col_def split: option.splits)
  show ?thesis
    by (simp add: extract_features_def disc llm item launch history seed kb)
qed

lemma foldl_map_upd_in:
  "inj k \<Longrightarrow> foldl (\<lambda>m x. m(k x \<mapsto> f x)) m xs (k y) = (if y \<in> set xs then Some (f y) else m (k y))"
  by (induction xs arbitrary: m) (auto simp: inj_eq)

lemma inj_hist_col: "inj hist_col"
  by (auto simp: inj_def hist_col_def)

definition history_mass :: "feature_context \<Rightarrow> (string \<Rightarrow> real) \<times> real" where
  "history_mass ctx =
     mass_loop (fc_time_decay_per_day ctx) (fc_candidates ctx) (fc_candidate_ages_days ctx)
       (\<lambda>_. 0, 0)"

lemma history_mass_inv:
  "history_mass ctx = (mass, tot) \<Longrightarrow>
     (\<forall>b. 0 \<le> mass b) \<and> sum_list (map mass BASE_LABELS) \<le> tot"
  unfolding history_mass_def by (rule mass_loop_inv [rotated 2]) (auto simp: BASE_LABELS_def)

lemma history_mass_le:
  assumes "history_mass ctx = (mass, tot)" and "b \<in> set BASE_LABELS"
  shows "mass b \<le> tot"
proof -
  have "mass b \<le> sum_list (map mass BASE_LABELS)"
    using history_mass_inv [OF assms(1)] assms(2) by (auto simp: BASE_LABELS_def)
  with history_mass_inv [OF assms(1)] show ?thesis by simp
qed

lemma values0_hist: "b \<in> set BASE_LABELS \<Longrightarrow> values0 (hist_col b) = Some 0"
  by (auto simp: values0_def FEATURE_DEFAULTS_def FEATURES_def BASE_LABELS_def hist_col_def)

lemma candidate_feats_hist:
  assumes h: "history_mass ctx = (mass, tot)" and b: "b \<in> set BASE_LABELS"
  shows "candidate_feats ctx values0 (hist_col b) =
    Some (if 0 < tot then mass b / tot else 0)"
proof (cases "fc_candidates ctx")
  case Nil
  with h have "tot = 0" by (simp add: history_mass_def)
  with Nil b show ?thesis by (simp add: candidate_feats_def values0_hist)
next
  case (Cons c cs)
  define m where "m = cand_top1_feats ctx c (cand_label_feats ctx c (cand_retrieval_feats ctx c values0))"
  have "m (hist_col b) = values0 (hist_col b)"
    using b by (auto simp: m_def cand_top1_feats_def cand_label_feats_def cand_retrieval_feats_def
        Let_def BASE_LABELS_def hist_col_def split: option.splits)
  then have keep: "m (hist_col b) = Some 0" using b by (simp add: values0_hist)
  have eq: "candidate_feats ctx values0 = cand_mass_feats ctx m"
    by (simp add: candidate_feats_def Cons m_def)
  show ?thesis
  proof (cases "0 < tot")
    case False
    with keep h show ?thesis
      unfolding eq by (simp add: cand_mass_feats_def history_mass_def)
  next
    case True
    have "0 \<le> mass b / tot" "mass b / tot \<le> 1"
      using True history_mass_inv [OF h] history_mass_le [OF h b] by (simp_all add: divide_le_eq)
    then have "clamp01 (mass b / tot) = mass b / tot" by (rule clamp01_id)
    moreover have "cand_mass_feats ctx m = foldl (\<lambda>m b. m(hist_col b \<mapsto> clamp01 (mass b / tot))) m BASE_LABELS"
      using True h by (simp add: cand_mass_feats_def history_mass_def)
    ultimately show ?thesis
      unfolding eq using True b by (simp add: foldl_map_upd_in [OF inj_hist_col])
  qed
qed

text \<open>
  The four history features \<open>hist_pb\<close>, \<open>hist_ab\<close>, \<open>hist_si\<close>, \<open>hist_nd\<close> are the exact shares of
  the similarity-, recency- and source-weighted mass that fall on each base group (never clipped
  by the clamp), they are non-negative and sum to at most one, and all are 0 when no candidate
  carries weight.
\<close>

theorem history_shares:
  "history_mass ctx = (mass, tot) \<Longrightarrow>
     (\<forall>b \<in> set BASE_LABELS.
        extract_features ctx (hist_col b) = Some (if 0 < tot then mass b / tot else 0)
        \<and> 0 \<le> mass b)
     \<and> sum_list (map (\<lambda>b. the (extract_features ctx (hist_col b))) BASE_LABELS) \<le> 1"
proof -
  assume h: "history_mass ctx = (mass, tot)"
  have val: "extract_features ctx (hist_col b) = Some (if 0 < tot then mass b / tot else 0)"
    if "b \<in> set BASE_LABELS" for b
    using that by (simp add: later_steps_keep_hist candidate_feats_hist [OF h])
  have "sum_list (map (\<lambda>b. the (extract_features ctx (hist_col b))) BASE_LABELS)
      = sum_list (map (\<lambda>b. if 0 < tot then mass b / tot else 0) BASE_LABELS)"
    using val by (intro arg_cong [where f = sum_list] map_cong) simp_all
  also have "\<dots> \<le> 1"
  proof (cases "0 < tot")
    case True
    have "sum_list (map (\<lambda>b. mass b / tot) BASE_LABELS) = sum_list (map mass BASE_LABELS) / tot"
      by (simp add: BASE_LABELS_def add_divide_distrib)
    with True history_mass_inv [OF h] show ?thesis by (simp add: divide_le_eq)
  next
    case False
    then show ?thesis by (simp add: BASE_LABELS_def)
  qed
  finally show ?thesis using val history_mass_inv [OF h] by simp
qed

definition demo_cands :: "candidate list" where
  "demo_cands =
     [(candidate_default (Some 1) None)\<lparr>c_cosine := Some (9 / 10), c_issue_type := Some ''pb001'',
         c_label_source := Some ''rp''\<rparr>,
      (candidate_default (Some 2) None)\<lparr>c_cosine := Some (3 / 10), c_issue_type := Some ''SI_net'',
         c_label_source := Some ''rp''\<rparr>]"

theorem history_shares_witness:
  "extract_features (default_context\<lparr>fc_candidates := demo_cands\<rparr>) (hist_col ''pb'') = Some (3 / 4)
   \<and> extract_features (default_context\<lparr>fc_candidates := demo_cands\<rparr>) (hist_col ''si'') = Some (1 / 4)"
proof -
  let ?ctx = "default_context\<lparr>fc_candidates := demo_cands\<rparr>"
  have g: "base_group (Some ''pb001'') = Some ''pb''" "base_group (Some ''SI_net'') = Some ''si''"
    by code_simp+
  have h: "history_mass ?ctx =
      ((\<lambda>_. 0)(''pb'' := 9 / 10, ''si'' := 3 / 10), 12 / 10)"
    by (simp add: history_mass_def default_context_def demo_cands_def candidate_default_def
        cand_weight_def cos_of_def decay_def src_weight_def g)
  show ?thesis using history_shares [OF h] by (simp add: BASE_LABELS_def)
qed

section \<open>One-hot blocks\<close>

text \<open>
  The LLM extractor's two categories are encoded as one-hot blocks: in every snapshot exactly
  the column of the context's category is 1, a category outside the known levels lands on the
  explicit \<open>unknown\<close> column, and every other column of the block is 0.
\<close>

theorem llm_onehot:
  "(\<forall>lvl \<in> set FAILING_LAYER_LEVELS.
      extract_features ctx (onehot_col ''llm_failing_layer'' lvl) =
        Some (if lvl = (if fc_llm_failing_layer ctx \<in> set FAILING_LAYER_LEVELS
                        then fc_llm_failing_layer ctx else LLM_UNKNOWN) then 1 else 0))
   \<and> (\<forall>lvl \<in> set ERROR_CLASS_LEVELS.
      extract_features ctx (onehot_col ''llm_error_class'' lvl) =
        Some (if lvl = (if fc_llm_error_class ctx \<in> set ERROR_CLASS_LEVELS
                        then fc_llm_error_class ctx else LLM_UNKNOWN) then 1 else 0))"
proof -
  have disc: "discriminant_feats ctx m (onehot_col (''llm'' @ p) lvl) = m (onehot_col (''llm'' @ p) lvl)"
    for m p lvl
    by (auto simp: discriminant_feats_def identifier_feats_def status_code_feats_def Let_def
        onehot_col_def split: option.splits)
  have disc1: "discriminant_feats ctx m (onehot_col ''llm_failing_layer'' lvl) =
      m (onehot_col ''llm_failing_layer'' lvl)" for m lvl
    using disc [of m "''_failing_layer''" lvl] by simp
  have disc2: "discriminant_feats ctx m (onehot_col ''llm_error_class'' lvl) =
      m (onehot_col ''llm_error_class'' lvl)" for m lvl
    using disc [of m "''_error_class''" lvl] by simp
  have keep: "foldl (\<lambda>m x. m(onehot_col ''llm_error_class'' x \<mapsto> f x)) m xs
        (onehot_col ''llm_failing_layer'' lvl) = m (onehot_col ''llm_failing_layer'' lvl)"
    for f m xs lvl
    by (induction xs arbitrary: m) (simp_all add: onehot_col_def)
  show ?thesis
    by (simp add: extract_features_def disc1 disc2 llm_feats_def set_onehot_def Let_def keep
        foldl_map_upd_in [OF onehot_col_inj])
qed

theorem llm_onehot_witness:
  "extract_features (default_context\<lparr>fc_llm_error_class := ''timeout''\<rparr>)
     (onehot_col ''llm_error_class'' ''timeout'') = Some 1"
proof -
  have "''timeout'' \<in> set ERROR_CLASS_LEVELS" by (simp add: ERROR_CLASS_LEVELS_def)
  then show ?thesis
    using llm_onehot [of "default_context\<lparr>fc_llm_error_class := ''timeout''\<rparr>"] by simp
qed

section \<open>Recency decay\<close>

lemma time_decay_powr: "0 < days \<Longrightarrow> TIME_DECAY_PER_DAY powr days = exp (- LN2 * days / 90)"
  by (simp add: TIME_DECAY_PER_DAY_def LN2_def powr_powr powr_def)

text \<open>
  The recency decay takes a special branch for the default factor; it computes the general
  power law there too, a 90-day half-life, and for a factor between 0 and 1 the weight stays in
  [0, 1] and never grows with age.
\<close>

theorem decay_power_law:
  "(0 < days \<longrightarrow> decay per_day days = per_day powr days)
   \<and> (0 \<le> days \<longrightarrow> decay TIME_DECAY_PER_DAY (days + 90) = decay TIME_DECAY_PER_DAY days / 2)
   \<and> (0 < per_day \<and> per_day \<le> 1 \<and> days \<le> days' \<longrightarrow>
        decay per_day days' \<le> decay per_day days \<and> decay per_day days \<le> 1)"
proof (intro conjI impI)
  assume "0 < days"
  then show "decay per_day days = per_day powr days"
    by (simp add: decay_def time_decay_powr)
next
  assume d: "0 \<le> days"
  have eq: "decay TIME_DECAY_PER_DAY x = exp (- LN2 * x / 90)" if "0 \<le> x" for x
    using that by (cases "x = 0") (simp_all add: decay_def)
  have "exp (- LN2 * (days + 90) / 90) = exp (- LN2 * days / 90) * exp (- LN2)"
    by (simp add: mult_exp_exp field_simps)
  also have "exp (- LN2) = 1 / 2" by (simp add: LN2_def exp_minus inverse_eq_divide)
  finally show "decay TIME_DECAY_PER_DAY (days + 90) = decay TIME_DECAY_PER_DAY days / 2"
    using d by (simp add: eq)
next
  assume "0 < per_day \<and> per_day \<le> 1 \<and> days \<le> days'"
  then have p: "0 < per_day" "per_day \<le> 1" and dd: "days \<le> days'" by auto
  have eq: "decay per_day x = per_day powr (max 0 x)" for x
    using p by (cases "0 < x") (simp_all add: decay_def time_decay_powr)
  show "decay per_day days' \<le> decay per_day days"
    unfolding eq using p dd by (intro powr_mono') auto
  show "decay per_day days \<le> 1"
    unfolding eq using p by (simp add: powr_le1)
qed

theorem decay_power_law_witness:
  "decay (1 / 2) 3 = 1 / 8 \<and> decay (1 / 2) 3 \<le> decay (1 / 2) 2"
proof -
  have "decay (1 / 2) 3 = (1 / 2) powr 3" using decay_power_law [of 3 "1 / 2"] by simp
  also have "\<dots> = (1 / 2) ^ 3" using powr_realpow [of "1 / 2" 3] by simp
  finally have "decay (1 / 2) 3 = 1 / 8" by (simp add: power3_eq_cube)
  moreover have "decay (1 / 2) 3 \<le> decay (1 / 2) 2"
    using decay_power_law [of 2 "1 / 2" 3] by simp
  ultimately show ?thesis by simp
qed

section \<open>Vectors and token similarity\<close>

lemma jaccard_range: "0 \<le> jaccard a b" "jaccard a b \<le> 1"
proof -
  have "card (a \<inter> b) \<le> card (a \<union> b) \<or> infinite (a \<union> b)"
    by (meson Int_lower1 card_mono sup_ge1 order_trans)
  then show "jaccard a b \<le> 1"
    by (auto simp: jaccard_def divide_le_eq)
qed (simp add: jaccard_def)

lemma jaccard_sym: "jaccard a b = jaccard b a"
  by (simp add: jaccard_def Int_commute Un_commute conj_commute)

lemma identifier_jaccard_sym: "identifier_jaccard a b = identifier_jaccard b a"
  by (auto simp: identifier_jaccard_def Let_def jaccard_sym)

lemma identifier_jaccard_range: "0 \<le> identifier_jaccard a b" "identifier_jaccard a b \<le> 1"
  by (simp_all add: identifier_jaccard_def Let_def jaccard_range)

text \<open>
  Boilerplate cannot raise the message similarity: when either message carries an identifier
  token, adding tokens without an identifier to both messages leaves the similarity unchanged,
  and messages whose identifier sets are disjoint have similarity 0.
\<close>

theorem identifier_jaccard_ignores_boilerplate:
  assumes "identifier_tokens q \<union> identifier_tokens m \<noteq> {}"
    and "\<forall>t \<in> noise. \<not> ident_search t"
  shows "identifier_jaccard (q \<union> noise) (m \<union> noise) = identifier_jaccard q m
    \<and> (identifier_tokens q \<inter> identifier_tokens m = {} \<longrightarrow> identifier_jaccard q m = 0)"
proof -
  have eq: "identifier_tokens (s \<union> noise) = identifier_tokens s" for s
    using assms(2) by (auto simp: identifier_tokens_def)
  show ?thesis using assms(1) by (auto simp: identifier_jaccard_def eq Let_def jaccard_def)
qed

theorem identifier_jaccard_ignores_boilerplate_witness:
  "identifier_jaccard ({''Session.userId''} \<union> {''cannot'', ''invoke''})
     ({''Region.rate''} \<union> {''cannot'', ''invoke''}) = 0"
proof -
  have t: "identifier_tokens {''Session.userId''} = {''Session.userId''}"
    "identifier_tokens {''Region.rate''} = {''Region.rate''}"
    by (auto simp: identifier_tokens_def)
  have n: "\<forall>t \<in> {''cannot'', ''invoke''}. \<not> ident_search t"
    by (simp add: is_lower_def is_upper_def)
  show ?thesis
    using identifier_jaccard_ignores_boilerplate
      [of "{''Session.userId''}" "{''Region.rate''}" "{''cannot'', ''invoke''}"] t n by simp
qed

lemma to_vector_for_own_names: "to_vector_for values feature_names = to_vector values"
  by (auto simp: to_vector_for_def to_vector_def feature_names_def map_of_feature_defaults
      split: option.splits)

lemma length_to_vector: "length (to_vector values) = 64"
  by (simp add: to_vector_def length_FEATURES)

end
