(* ===== verification/Grouping.thy ===== *)
theory Grouping
  imports Prelude "HOL-Library.Multiset" "HOL-Library.Product_Lexorder"
begin

text \<open>
  Grouping the failures of one launch (\<open>core/grouping.py\<close>): exact fingerprint buckets, greedy
  cosine attachment of the rest, one merge pass, then a representative and the burst prior of each
  group. Vectors are lists of reals of one dimension (numpy raises on others, and rounds to 32
  bits); template identifiers are a set.
\<close>

section \<open>Items and groups\<close>

type_synonym vec = "real list"

record group_item =
  gi_item_id :: int
  gi_exception_fp :: int
  gi_error_hash :: int
  gi_emb :: "vec option"
  gi_has_stacktrace :: bool
  gi_log_count :: int
  gi_template_ids :: "int list"

record launch_group =
  lg_members :: "group_item list"
  lg_centroid :: "vec option"
  lg_template_ids :: "int set"
  lg_representative :: "group_item option"
  lg_si_prior :: real

definition THETA_GROUP :: real where "THETA_GROUP = 83 / 100"
definition BURST_X :: real where "BURST_X = 40 / 100"
definition BURST_N :: nat where "BURST_N = 5"
definition JACCARD_MIN :: real where "JACCARD_MIN = 5 / 10"
definition SI_PRIOR_CAP :: real where "SI_PRIOR_CAP = 9 / 10"
definition SI_PRIOR_BASE :: real where "SI_PRIOR_BASE = 5 / 10"

definition fingerprint :: "launch_group \<Rightarrow> int" where
  "fingerprint g = (case lg_representative g of None \<Rightarrow> 0 | Some r \<Rightarrow> gi_error_hash r)"

section \<open>Vectors\<close>

definition dot :: "vec \<Rightarrow> vec \<Rightarrow> real" where
  "dot a b = sum_list (map2 (*) a b)"

definition normalize_vec :: "vec \<Rightarrow> vec" where
  "normalize_vec v =
     (let n = sqrt (dot v v) in if n < 1 / 10 ^ 12 then v else map (\<lambda>x. x / n) v)"

definition mean_vec :: "vec list \<Rightarrow> vec" where
  "mean_vec vs =
     (case vs of [] \<Rightarrow> [] | v # ws \<Rightarrow> map (\<lambda>x. x / real (length vs)) (foldl (map2 (+)) v ws))"

definition cosine :: "vec option \<Rightarrow> vec option \<Rightarrow> real" where
  "cosine a b = (case (a, b) of (Some x, Some y) \<Rightarrow> dot x y | _ \<Rightarrow> - 1)"

definition group_jaccard :: "int set \<Rightarrow> int set \<Rightarrow> real" where
  "group_jaccard a b = (if a = {} \<and> b = {} then 0 else real (card (a \<inter> b)) / real (card (a \<union> b)))"

section \<open>Building groups\<close>

definition embs_of :: "group_item list \<Rightarrow> vec list" where
  "embs_of members = concat (map (\<lambda>m. case gi_emb m of None \<Rightarrow> [] | Some v \<Rightarrow> [v]) members)"

definition new_group :: "group_item list \<Rightarrow> launch_group" where
  "new_group members =
     (let vecs = embs_of members in
      \<lparr>lg_members = members,
       lg_centroid = (if vecs \<noteq> [] then Some (normalize_vec (mean_vec vecs)) else None),
       lg_template_ids = \<Union> (set ` gi_template_ids ` set members),
       lg_representative = None, lg_si_prior = 0\<rparr>)"

definition add_member :: "launch_group \<Rightarrow> group_item \<Rightarrow> launch_group" where
  "add_member g item =
     (let centroid =
            (case gi_emb item of
               None \<Rightarrow> lg_centroid g
             | Some v \<Rightarrow>
                 (let n = length (embs_of (lg_members g)) in
                  case lg_centroid g of
                    None \<Rightarrow> Some (normalize_vec v)
                  | Some c \<Rightarrow>
                      if n = 0 then Some (normalize_vec v)
                      else (let running = map2 (\<lambda>c x. c * real n + x) c v in
                            Some (normalize_vec (map (\<lambda>x. x / real (n + 1)) running)))))
      in g\<lparr>lg_centroid := centroid, lg_members := lg_members g @ [item],
           lg_template_ids := lg_template_ids g \<union> set (gi_template_ids item)\<rparr>)"

text \<open>Pass 1: the buckets of the non-zero fingerprints, in fingerprint order.\<close>

definition fp_groups :: "group_item list \<Rightarrow> launch_group list" where
  "fp_groups items =
     map (\<lambda>fp. new_group (sort_key gi_item_id (filter (\<lambda>i. gi_exception_fp i = fp) items)))
       (sort (remdups (filter (\<lambda>fp. fp \<noteq> 0) (map gi_exception_fp items))))"

text \<open>Pass 2: the last group of the highest similarity, if any reaches the threshold.\<close>

fun best_group :: "vec \<Rightarrow> launch_group list \<Rightarrow> nat \<Rightarrow> nat option \<Rightarrow> real \<Rightarrow> nat option" where
  "best_group v [] i best sim = best"
| "best_group v (g # gs) i best sim =
     (let s = cosine (Some v) (lg_centroid g) in
      if s \<ge> sim then best_group v gs (i + 1) (Some i) s else best_group v gs (i + 1) best sim)"

definition attach_leftover :: "real \<Rightarrow> launch_group list \<Rightarrow> group_item \<Rightarrow> launch_group list" where
  "attach_leftover theta groups item =
     (case (case gi_emb item of None \<Rightarrow> None | Some v \<Rightarrow> best_group v groups 0 None theta) of
        Some i \<Rightarrow> groups[i := add_member (groups ! i) item]
      | None \<Rightarrow> groups @ [new_group [item]])"

text \<open>Pass 3: into the first earlier group that is close and shares templates.\<close>

definition close_groups :: "real \<Rightarrow> real \<Rightarrow> launch_group \<Rightarrow> launch_group \<Rightarrow> bool" where
  "close_groups theta jaccard_min a b \<longleftrightarrow>
     cosine (lg_centroid a) (lg_centroid b) \<ge> theta
     \<and> group_jaccard (lg_template_ids a) (lg_template_ids b) \<ge> jaccard_min"

definition merge_one :: "real \<Rightarrow> real \<Rightarrow> launch_group list \<Rightarrow> launch_group \<Rightarrow> launch_group list" where
  "merge_one theta jaccard_min merged g =
     (case List.find (\<lambda>i. close_groups theta jaccard_min (merged ! i) g) [0..<length merged] of
        None \<Rightarrow> merged @ [g]
      | Some i \<Rightarrow> merged[i := foldl add_member (merged ! i) (lg_members g)])"

definition merge_close :: "real \<Rightarrow> real \<Rightarrow> launch_group list \<Rightarrow> launch_group list" where
  "merge_close theta jaccard_min groups = foldl (merge_one theta jaccard_min) [] groups"

definition rep_key :: "group_item \<Rightarrow> bool \<times> int \<times> int" where
  "rep_key i = (gi_has_stacktrace i, gi_log_count i, - gi_item_id i)"

definition representative :: "group_item list \<Rightarrow> group_item option" where
  "representative members = py_max rep_key members"

definition si_prior :: "real \<Rightarrow> nat \<Rightarrow> (int \<Rightarrow> bool) \<Rightarrow> nat \<Rightarrow> group_item \<Rightarrow> nat \<Rightarrow> real" where
  "si_prior burst_x burst_n is_new tot rep n =
     (if tot > 0 \<and> is_new (gi_error_hash rep) \<and> n \<ge> burst_n \<and> real n / real tot > burst_x
      then min SI_PRIOR_CAP (SI_PRIOR_BASE + real n / real tot) else 0)"

text \<open>No group is empty (theorem \<open>group_launch_partition\<close>), so a representative always exists.\<close>

definition finish_group :: "real \<Rightarrow> nat \<Rightarrow> (int \<Rightarrow> bool) \<Rightarrow> nat \<Rightarrow> launch_group \<Rightarrow> launch_group" where
  "finish_group burst_x burst_n is_new tot g =
     (case representative (lg_members g) of
        None \<Rightarrow> g
      | Some rep \<Rightarrow>
          g\<lparr>lg_representative := Some rep,
            lg_si_prior := si_prior burst_x burst_n is_new tot rep (length (lg_members g))\<rparr>)"

definition group_launch ::
  "real \<Rightarrow> real \<Rightarrow> nat \<Rightarrow> (int \<Rightarrow> bool) \<Rightarrow> group_item list \<Rightarrow> launch_group list" where
  "group_launch theta burst_x burst_n is_new items =
     (let leftovers = sort_key gi_item_id (filter (\<lambda>i. gi_exception_fp i = 0) items);
          groups = foldl (attach_leftover theta) (fp_groups items) leftovers
      in map (finish_group burst_x burst_n is_new (length items)) (merge_close theta JACCARD_MIN groups))"

section \<open>The passes keep every member once\<close>

lemma new_group_members [simp]: "lg_members (new_group ms) = ms"
  by (simp add: new_group_def Let_def)

lemma add_member_members [simp]: "lg_members (add_member g i) = lg_members g @ [i]"
  by (simp add: add_member_def Let_def)

lemma add_members_members [simp]: "lg_members (foldl add_member g is) = lg_members g @ is"
  by (induction "is" arbitrary: g) simp_all

definition all_members :: "launch_group list \<Rightarrow> group_item multiset" where
  "all_members gs = mset (concat (map lg_members gs))"

text \<open>In how many groups a non-zero fingerprint occurs.\<close>

definition holders :: "int \<Rightarrow> launch_group list \<Rightarrow> nat" where
  "holders fp gs = length (filter (\<lambda>g. fp \<in> gi_exception_fp ` set (lg_members g)) gs)"

definition inhabited :: "launch_group list \<Rightarrow> bool" where
  "inhabited gs \<longleftrightarrow> [] \<notin> lg_members ` set gs"

lemma inhabited_simps [simp]:
  "inhabited []"
  "inhabited (g # gs) \<longleftrightarrow> lg_members g \<noteq> [] \<and> inhabited gs"
  "inhabited (gs @ hs) \<longleftrightarrow> inhabited gs \<and> inhabited hs"
  by (auto simp: inhabited_def)

lemma count_distinct: "distinct xs \<Longrightarrow> count_list xs x = (if x \<in> set xs then 1 else 0)"
  by (induction xs) auto

lemma all_members_simps [simp]:
  "all_members [] = {#}"
  "all_members (g # gs) = mset (lg_members g) + all_members gs"
  "all_members (gs @ hs) = all_members gs + all_members hs"
  by (simp_all add: all_members_def)

lemma holders_simps [simp]:
  "holders fp [] = 0"
  "holders fp (g # gs) = (if fp \<in> gi_exception_fp ` set (lg_members g) then 1 else 0) + holders fp gs"
  "holders fp (gs @ hs) = holders fp gs + holders fp hs"
  by (simp_all add: holders_def)

lemma update_split:
  assumes "i < length gs"
  obtains us vs where "gs = us @ gs ! i # vs" "\<forall>h. gs[i := h] = us @ h # vs"
  using assms by (metis id_take_nth_drop upd_conv_take_nth_drop)

lemma best_group_index:
  "best_group v gs i best sim = Some j \<Longrightarrow> best = Some j \<or> (i \<le> j \<and> j < i + length gs)"
proof (induction v gs i best sim rule: best_group.induct)
  case (2 v g gs i best sim)
  let ?s = "cosine (Some v) (lg_centroid g)"
  show ?case
  proof (cases "sim \<le> ?s")
    case True
    then show ?thesis using 2(1) [OF refl True] 2(3) by (auto simp: Let_def)
  next
    case False
    then show ?thesis using 2(2) [OF refl False] 2(3) by (auto simp: Let_def)
  qed
qed simp

lemma attach_leftover_facts:
  "all_members (attach_leftover theta gs x) = add_mset x (all_members gs)"
  "fp \<noteq> gi_exception_fp x \<Longrightarrow> holders fp (attach_leftover theta gs x) = holders fp gs"
  "inhabited gs \<Longrightarrow> inhabited (attach_leftover theta gs x)"
proof -
  consider (new) "attach_leftover theta gs x = gs @ [new_group [x]]"
    | (old) i where "i < length gs" "attach_leftover theta gs x = gs[i := add_member (gs ! i) x]"
    unfolding attach_leftover_def using best_group_index [of _ gs 0 None theta]
    by (cases "case gi_emb x of None \<Rightarrow> None | Some v \<Rightarrow> best_group v gs 0 None theta")
      (fastforce split: option.splits)+
  then have "all_members (attach_leftover theta gs x) = add_mset x (all_members gs)
    \<and> (fp \<noteq> gi_exception_fp x \<longrightarrow> holders fp (attach_leftover theta gs x) = holders fp gs)
    \<and> ((inhabited gs) \<longrightarrow> (inhabited (attach_leftover theta gs x)))"
  proof cases
    case new
    show ?thesis unfolding new by simp
  next
    case old
    obtain us vs where s: "gs = us @ gs ! i # vs" "\<forall>h. gs[i := h] = us @ h # vs"
      using update_split [OF old(1)] by blast
    define g where "g = gs ! i"
    have eqs: "gs = us @ g # vs" "attach_leftover theta gs x = us @ add_member g x # vs"
      using s old(2) by (simp_all add: g_def)
    show ?thesis unfolding eqs(2) unfolding eqs(1) by auto
  qed
  then show "all_members (attach_leftover theta gs x) = add_mset x (all_members gs)"
    "fp \<noteq> gi_exception_fp x \<Longrightarrow> holders fp (attach_leftover theta gs x) = holders fp gs"
    "inhabited gs \<Longrightarrow> inhabited (attach_leftover theta gs x)"
    by blast+
qed

lemma merge_one_facts:
  "all_members (merge_one theta jm gs g) = all_members gs + mset (lg_members g)"
  "holders fp (merge_one theta jm gs g) \<le> holders fp gs + holders fp [g]"
  "inhabited (g # gs) \<Longrightarrow> inhabited (merge_one theta jm gs g)"
proof -
  consider (new) "merge_one theta jm gs g = gs @ [g]"
    | (old) i where "i < length gs" "merge_one theta jm gs g = gs[i := foldl add_member (gs ! i) (lg_members g)]"
  proof (cases "List.find (\<lambda>i. close_groups theta jm (gs ! i) g) [0..<length gs]")
    case None
    then show ?thesis by (intro new) (simp add: merge_one_def)
  next
    case (Some i)
    then have "i < length gs" by (auto simp: find_Some_iff)
    then show ?thesis by (rule old) (simp add: merge_one_def Some)
  qed
  then have "all_members (merge_one theta jm gs g) = all_members gs + mset (lg_members g)
    \<and> holders fp (merge_one theta jm gs g) \<le> holders fp gs + holders fp [g]
    \<and> ((inhabited (g # gs)) \<longrightarrow> (inhabited (merge_one theta jm gs g)))"
  proof cases
    case new
    show ?thesis unfolding new by simp
  next
    case old
    obtain us vs where s: "gs = us @ gs ! i # vs" "\<forall>h. gs[i := h] = us @ h # vs"
      using update_split [OF old(1)] by blast
    define k where "k = gs ! i"
    have eqs: "gs = us @ k # vs" "merge_one theta jm gs g = us @ foldl add_member k (lg_members g) # vs"
      using s old(2) by (simp_all add: k_def)
    show ?thesis unfolding eqs(2) unfolding eqs(1) by auto
  qed
  then show "all_members (merge_one theta jm gs g) = all_members gs + mset (lg_members g)"
    "holders fp (merge_one theta jm gs g) \<le> holders fp gs + holders fp [g]"
    "inhabited (g # gs) \<Longrightarrow> inhabited (merge_one theta jm gs g)"
    by blast+
qed

lemma attach_all_facts:
  "all_members (foldl (attach_leftover theta) gs xs) = all_members gs + mset xs"
  "\<forall>x \<in> set xs. gi_exception_fp x \<noteq> fp \<Longrightarrow> holders fp (foldl (attach_leftover theta) gs xs) = holders fp gs"
  "inhabited gs \<Longrightarrow> inhabited (foldl (attach_leftover theta) gs xs)"
proof (induction xs arbitrary: gs)
  case (Cons x xs)
  { case 1 show ?case by (simp add: Cons.IH(1) attach_leftover_facts(1)) }
  { case 2 then show ?case by (simp add: Cons.IH(2) attach_leftover_facts(2)) }
  { case 3 then show ?case using Cons.IH(3) attach_leftover_facts(3) by simp }
qed simp_all

lemma merge_all_facts:
  "all_members (foldl (merge_one theta jm) hs gs) = all_members hs + all_members gs"
  "holders fp (foldl (merge_one theta jm) hs gs) \<le> holders fp hs + holders fp gs"
  "inhabited (hs @ gs) \<Longrightarrow> inhabited (foldl (merge_one theta jm) hs gs)"
proof (induction gs arbitrary: hs)
  case (Cons g gs)
  { case 1 show ?case by (simp add: Cons.IH(1) merge_one_facts(1)) }
  { case 2
    have "holders fp (foldl (merge_one theta jm) (merge_one theta jm hs g) gs)
        \<le> holders fp (merge_one theta jm hs g) + holders fp gs"
      by (rule Cons.IH(2))
    also have "\<dots> \<le> holders fp hs + holders fp [g] + holders fp gs"
      using merge_one_facts(2) by (rule add_right_mono)
    finally show ?case by simp }
  { case 3 then show ?case using Cons.IH(3) [of "merge_one theta jm hs g"] merge_one_facts(3) [of g hs] by auto }
qed simp_all

lemma mset_filter_keys:
  assumes "distinct ks" and "\<forall>x \<in> set xs. P x \<longrightarrow> f x \<in> set ks" and "\<forall>x \<in> set xs. f x \<in> set ks \<longrightarrow> P x"
  shows "mset (concat (map (\<lambda>k. filter (\<lambda>x. f x = k) xs) ks)) = mset (filter P xs)"
  using assms
proof (induction xs)
  case Nil
  then show ?case by (simp add: concat_eq_Nil_conv [THEN iffD2])
next
  case (Cons x xs)
  have c: "mset (concat (map (\<lambda>k. filter (\<lambda>y. f y = k) (x # xs)) qs))
      = replicate_mset (count_list qs (f x)) x + mset (concat (map (\<lambda>k. filter (\<lambda>y. f y = k) xs) qs))" for qs
    by (induction qs) auto
  have "count_list ks (f x) = (if P x then 1 else 0)"
    using Cons.prems by (auto simp: count_distinct count_list_0_iff)
  moreover have "mset (concat (map (\<lambda>k. filter (\<lambda>y. f y = k) xs) ks)) = mset (filter P xs)"
    using Cons.prems by (intro Cons.IH) auto
  ultimately show ?case unfolding c by (cases "P x") simp_all
qed

lemma sort_key_Nil: "[] = sort_key f xs \<longleftrightarrow> xs = []"
  by (metis length_0_conv length_sort)

lemma fp_groups_facts:
  "all_members (fp_groups items) = mset (filter (\<lambda>i. gi_exception_fp i \<noteq> 0) items)"
  "fp \<noteq> 0 \<Longrightarrow> holders fp (fp_groups items) \<le> 1"
  "inhabited (fp_groups items)"
proof -
  let ?fps = "sort (remdups (filter (\<lambda>fp. fp \<noteq> 0) (map gi_exception_fp items)))"
  let ?b = "\<lambda>fp. filter (\<lambda>i. gi_exception_fp i = fp) items"
  have "all_members (fp_groups items) = mset (concat (map ?b ?fps))"
    by (simp add: all_members_def fp_groups_def comp_def mset_concat)
  also have "\<dots> = mset (filter (\<lambda>i. gi_exception_fp i \<noteq> 0) items)"
    by (rule mset_filter_keys) auto
  finally show "all_members (fp_groups items) = mset (filter (\<lambda>i. gi_exception_fp i \<noteq> 0) items)" .
  have h: "holders fp (map (\<lambda>fp. new_group (sort_key gi_item_id (?b fp))) ks) \<le> count_list ks fp" for ks
    by (induction ks) auto
  have "count_list ?fps fp \<le> 1" by (simp add: count_distinct)
  with h [of ?fps] show "holders fp (fp_groups items) \<le> 1" unfolding fp_groups_def by simp
  show "inhabited (fp_groups items)"
    by (auto simp: inhabited_def fp_groups_def filter_empty_conv image_iff sort_key_Nil)
qed

section \<open>What grouping promises\<close>

lemma finish_members [simp]: "lg_members (finish_group bx bn is_new tot g) = lg_members g"
  by (simp add: finish_group_def split: option.split)

lemma group_launch_facts:
  fixes theta bx bn is_new items
  defines "gs \<equiv> group_launch theta bx bn is_new items"
  shows "all_members gs = mset items" "inhabited gs" "fp \<noteq> 0 \<Longrightarrow> holders fp gs \<le> 1"
proof -
  let ?l = "sort_key gi_item_id (filter (\<lambda>i. gi_exception_fp i = 0) items)"
  let ?m = "merge_close theta JACCARD_MIN (foldl (attach_leftover theta) (fp_groups items) ?l)"
  have eq: "map lg_members gs = map lg_members ?m" by (simp add: gs_def group_launch_def Let_def)
  have "all_members gs = all_members ?m" unfolding all_members_def eq ..
  also have "\<dots> = mset (filter (\<lambda>i. gi_exception_fp i \<noteq> 0) items) + mset (filter (\<lambda>i. gi_exception_fp i = 0) items)"
    by (simp add: merge_close_def merge_all_facts(1) attach_all_facts(1) fp_groups_facts(1))
  also have "\<dots> = mset items"
    using multiset_partition [of "mset items" "\<lambda>i. gi_exception_fp i \<noteq> 0"] by simp
  finally show "all_members gs = mset items" .
  have "inhabited ?m"
    unfolding merge_close_def
    by (intro merge_all_facts(3)) (simp add: attach_all_facts(3) fp_groups_facts(3))
  then show "inhabited gs" unfolding inhabited_def by (metis eq set_map)
  have hm: "holders fp hs = length (filter (\<lambda>ms. fp \<in> gi_exception_fp ` set ms) (map lg_members hs))" for hs
    by (simp add: holders_def filter_map comp_def)
  assume "fp \<noteq> 0"
  have "holders fp ?m \<le> holders fp (foldl (attach_leftover theta) (fp_groups items) ?l)"
    using merge_all_facts(2) [of fp theta JACCARD_MIN "[]"] by (simp add: merge_close_def)
  also have "\<dots> = holders fp (fp_groups items)"
    using \<open>fp \<noteq> 0\<close> by (intro attach_all_facts(2)) auto
  also have "\<dots> \<le> 1" by (rule fp_groups_facts(2)) (rule \<open>fp \<noteq> 0\<close>)
  finally show "holders fp gs \<le> 1" unfolding hm eq .
qed

lemma filter_le_one_index:
  assumes "length (filter P xs) \<le> 1" "i < length xs" "j < length xs" "P (xs ! i)" "P (xs ! j)"
  shows "i = j"
proof -
  have "card {i. i < length xs \<and> P (xs ! i)} \<le> Suc 0" using assms(1) by (simp add: length_filter_conv_card)
  then show ?thesis using assms(2-5) by (subst (asm) card_le_Suc0_iff_eq) auto
qed

lemma group_launch_rep:
  assumes "g \<in> set (group_launch theta bx bn is_new items)"
  shows "\<exists>r \<in> set (lg_members g). lg_representative g = Some r \<and> fingerprint g = gi_error_hash r
      \<and> (\<forall>m \<in> set (lg_members g). rep_key m \<le> rep_key r)"
proof -
  obtain h where h: "g = finish_group bx bn is_new (length items) h"
    using assms by (auto simp: group_launch_def Let_def)
  have "lg_members g \<noteq> []"
    using group_launch_facts(2) assms unfolding inhabited_def by (metis imageI)
  then obtain r where r: "representative (lg_members h) = Some r"
    unfolding h finish_members representative_def using py_max_None_iff by blast
  then have "r \<in> set (lg_members h)" "\<forall>m \<in> set (lg_members h). rep_key m \<le> rep_key r"
    unfolding representative_def by (auto dest: py_max_in py_max_ge)
  then show ?thesis using r by (simp add: h finish_group_def fingerprint_def)
qed

text \<open>
  C37. Grouping is a partition that respects fingerprints. Every analysed item is in exactly one
  group, no group is empty, two items with the same non-zero exception fingerprint never end up in
  different groups, and the representative of a group is a member of it that no other member beats
  on having a stack trace, then on log count, then on the smaller item id.
\<close>

theorem group_launch_partition:
  "let gs = group_launch theta bx bn is_new items in
     mset (concat (map lg_members gs)) = mset items
     \<and> (\<forall>i < length gs. \<forall>j < length gs. \<forall>a \<in> set (lg_members (gs ! i)). \<forall>b \<in> set (lg_members (gs ! j)).
          gi_exception_fp a = gi_exception_fp b \<and> gi_exception_fp a \<noteq> 0 \<longrightarrow> i = j)
     \<and> (\<forall>g \<in> set gs. lg_members g \<noteq> []
          \<and> (\<exists>r \<in> set (lg_members g). lg_representative g = Some r \<and> fingerprint g = gi_error_hash r
               \<and> (\<forall>m \<in> set (lg_members g). rep_key m \<le> rep_key r)))"
proof -
  define gs where "gs = group_launch theta bx bn is_new items"
  note f = group_launch_facts [where theta = theta and bx = bx and bn = bn and is_new = is_new and items = items,
      folded gs_def]
  have fp: "i = j"
    if "i < length gs" "j < length gs" "a \<in> set (lg_members (gs ! i))" "b \<in> set (lg_members (gs ! j))"
      "gi_exception_fp a = gi_exception_fp b" "gi_exception_fp a \<noteq> 0" for i j a b
    using f(3) [of "gi_exception_fp a"] that
    by (intro filter_le_one_index [of "\<lambda>g. gi_exception_fp a \<in> gi_exception_fp ` set (lg_members g)" gs])
      (auto simp: holders_def intro: rev_image_eqI)
  have rep: "\<exists>r \<in> set (lg_members g). lg_representative g = Some r \<and> fingerprint g = gi_error_hash r
      \<and> (\<forall>m \<in> set (lg_members g). rep_key m \<le> rep_key r)" if "g \<in> set gs" for g
    using group_launch_rep that unfolding gs_def .
  have "mset (concat (map lg_members gs)) = mset items" using f(1) by (simp add: all_members_def)
  moreover have "\<forall>g \<in> set gs. lg_members g \<noteq> []" using f(2) unfolding inhabited_def by (metis imageI)
  ultimately show ?thesis unfolding gs_def [symmetric] Let_def using fp rep by blast
qed

lemma sort_key_perm:
  assumes "mset xs = mset ys" and "distinct (map f xs)"
  shows "sort_key f xs = sort_key f ys"
proof -
  have d: "distinct (map f ys)" using assms by (metis mset_eq_imp_distinct_iff mset_map)
  have s: "set xs = set ys" using assms(1) by (rule mset_eq_setD)
  have dd: "distinct (map f (sort_key f zs)) \<longleftrightarrow> distinct (map f zs)" for zs
    by (intro mset_eq_imp_distinct_iff) simp
  show ?thesis
    by (rule map_sorted_distinct_set_unique [of f])
      (use assms(2) d s in \<open>auto simp: dd distinct_map\<close>)
qed

text \<open>
  The order in which the items arrive does not matter: any permutation of items with distinct
  ids gives the same groups in the same order, with the same centroids, representatives and priors.
\<close>

theorem group_launch_order_independent:
  assumes "mset items = mset items'" and "distinct (map gi_item_id items)"
  shows "group_launch theta bx bn is_new items = group_launch theta bx bn is_new items'"
proof -
  have srt: "sort_key gi_item_id (filter P items) = sort_key gi_item_id (filter P items')" for P
    using assms by (intro sort_key_perm) (simp_all add: distinct_map_filter)
  have "set items = set items'" using assms(1) by (rule mset_eq_setD)
  then have "set (remdups (filter (\<lambda>fp. fp \<noteq> 0) (map gi_exception_fp items)))
      = set (remdups (filter (\<lambda>fp. fp \<noteq> 0) (map gi_exception_fp items')))" by simp
  then have "sort (remdups (filter (\<lambda>fp. fp \<noteq> 0) (map gi_exception_fp items)))
      = sort (remdups (filter (\<lambda>fp. fp \<noteq> 0) (map gi_exception_fp items')))"
    by (simp add: sorted_list_of_set_sort_remdups [symmetric])
  then have "fp_groups items = fp_groups items'" unfolding fp_groups_def srt by simp
  moreover have "length items = length items'" using assms(1) by (rule mset_eq_length)
  ultimately show ?thesis unfolding group_launch_def srt Let_def by simp
qed

text \<open>
  The burst prior is all or nothing. With the shipped threshold, and any threshold of 0.4 or
  more, the prior of a group is 0.9 exactly when its representative's failure is new, it has enough
  members and more than that share of the launch, and 0 otherwise: the graded formula below its cap
  is never reached.
\<close>

theorem si_prior_two_valued:
  assumes "SI_PRIOR_CAP - SI_PRIOR_BASE \<le> bx" and "g \<in> set (group_launch theta bx bn is_new items)"
  shows "lg_si_prior g =
    (if is_new (fingerprint g) \<and> bn \<le> length (lg_members g)
        \<and> bx < real (length (lg_members g)) / real (length items)
     then SI_PRIOR_CAP else 0)"
proof -
  obtain h where h: "g = finish_group bx bn is_new (length items) h"
    using assms(2) by (auto simp: group_launch_def Let_def)
  note f = group_launch_facts [where theta = theta and bx = bx and bn = bn and is_new = is_new and items = items]
  have ne: "lg_members g \<noteq> []" using f(2) assms(2) unfolding inhabited_def by (metis imageI)
  then obtain r where r: "representative (lg_members h) = Some r"
    unfolding h finish_members representative_def using py_max_None_iff by blast
  have "length items > 0"
  proof -
    from ne assms(2) have "concat (map lg_members (group_launch theta bx bn is_new items)) \<noteq> []" by auto
    then have "mset items \<noteq> {#}"
      unfolding f(1) [symmetric] all_members_def by (metis mset_zero_iff)
    then show ?thesis by simp
  qed
  then show ?thesis
    using assms(1) by (auto simp: h r finish_group_def fingerprint_def si_prior_def min_def)
qed

definition demo_item_of :: "int \<Rightarrow> int \<Rightarrow> group_item" where
  "demo_item_of i fp = \<lparr>gi_item_id = i, gi_exception_fp = fp, gi_error_hash = 7, gi_emb = None,
     gi_has_stacktrace = False, gi_log_count = 1, gi_template_ids = []\<rparr>"

theorem group_launch_partition_witness:
  "mset (concat (map lg_members (group_launch THETA_GROUP BURST_X BURST_N (\<lambda>_. True)
      [demo_item_of 1 3, demo_item_of 2 0, demo_item_of 3 3])))
   = mset [demo_item_of 1 3, demo_item_of 2 0, demo_item_of 3 3]"
  using group_launch_partition [of THETA_GROUP BURST_X BURST_N "\<lambda>_. True"
      "[demo_item_of 1 3, demo_item_of 2 0, demo_item_of 3 3]"]
  unfolding Let_def by (rule conjunct1)

theorem group_launch_order_independent_witness:
  "group_launch THETA_GROUP BURST_X BURST_N (\<lambda>_. True) [demo_item_of 1 3, demo_item_of 2 0]
     = group_launch THETA_GROUP BURST_X BURST_N (\<lambda>_. True) [demo_item_of 2 0, demo_item_of 1 3]"
  by (rule group_launch_order_independent) (simp_all add: demo_item_of_def)

theorem si_prior_two_valued_witness:
  "map lg_si_prior (group_launch THETA_GROUP BURST_X BURST_N (\<lambda>_. True) (map (\<lambda>i. demo_item_of i 3) [1, 2, 3, 4, 5]))
     = [SI_PRIOR_CAP]"
proof -
  let ?items = "map (\<lambda>i. demo_item_of i 3) [1, 2, 3, 4, 5]"
  let ?gs = "group_launch THETA_GROUP BURST_X BURST_N (\<lambda>_. True) ?items"
  have m: "map lg_members ?gs = [?items]"
    by (simp add: group_launch_def Let_def fp_groups_def demo_item_of_def merge_close_def merge_one_def)
  then obtain g where g: "?gs = [g]" "lg_members g = ?items" by auto
  have "SI_PRIOR_CAP - SI_PRIOR_BASE \<le> BURST_X" by (simp add: SI_PRIOR_CAP_def SI_PRIOR_BASE_def BURST_X_def)
  then have "lg_si_prior g = SI_PRIOR_CAP"
    using si_prior_two_valued [of BURST_X g THETA_GROUP BURST_N "\<lambda>_. True" ?items] g
    by (simp add: BURST_N_def BURST_X_def)
  then show ?thesis using g(1) by simp
qed

end
