(* ===== verification/Store.thy ===== *)
theory Store
  imports Tables Features Grouping
begin

text \<open>
  The tables of the service (\<open>db/migrations\<close>) and the statements of \<open>db/repositories/retrieval.py\<close>,
  \<open>labels.py\<close> and \<open>stats.py\<close> on them. A table is the list of its rows in insertion order, the
  database is a record of tables, a statement is a function of the database, and \<open>now()\<close> is an
  argument. Text search and vector search (\<open>websearch_to_tsquery\<close>, \<open>ts_rank_cd\<close>, \<open>similarity\<close>,
  \<open><=>\<close>) are PostgreSQL's: the rows those two queries return are an argument of the functions that
  use them. Where an \<open>ORDER BY\<close> leaves ties the stored order decides.
\<close>

section \<open>Rows\<close>

record item_row =
  ti_project_id :: int
  ti_item_id :: int
  ti_launch_id :: int
  ti_launch_name :: string
  ti_launch_number :: "int option"
  ti_test_case_hash :: "int option"
  ti_unique_id :: "string option"
  ti_item_name :: string
  ti_start_time :: "seconds option"
  ti_is_auto_analyzed :: bool
  ti_issue_type :: "string option"
  ti_log_count :: int
  ti_log_time_max :: "seconds option"
  ti_indexed_at :: seconds

record sig_row =
  fs_project_id :: int
  fs_item_id :: int
  fs_exception_fp :: int
  fs_error_hash :: int
  fs_top_frames :: "string list"
  fs_template_ids :: "int list"
  fs_exc_text :: string
  fs_msg_text :: string
  fs_frames_text :: string
  fs_tmpl_text :: string
  fs_only_numbers :: string
  fs_status_codes :: "string list"
  fs_urls :: "string list"
  fs_paths :: "string list"
  fs_emb :: "vec option"
  fs_emb_model_ver :: int
  fs_error_log_id :: "int option"

text \<open>The \<open>features\<close> column of a suggestion holds the numeric snapshot, the key \<open>judge\<close> after a
  judge verdict (only its \<open>chosen_item_id\<close> is read back), and the key \<open>coldstart\<close> (the rule) of a row
  the cold-start role wrote.\<close>

record suggestion_in =
  su_project_id :: int
  su_item_id :: int
  su_launch_id :: int
  su_group_id :: "int option"
  su_predicted_label :: string
  su_confidence :: real
  su_matched_mode_id :: "int option"
  su_matched_item_id :: "int option"
  su_features :: feats
  su_model_ver :: string
  su_llm_used :: bool
  su_method :: "string option"
  su_abstain_reason :: "string option"
  su_explanation :: "string option"
  su_source :: "string option"

record suggestion_row = suggestion_in +
  su_suggestion_id :: int
  su_judge :: "int option option"
  su_coldstart :: "string option"
  su_outcome :: string
  su_outcome_ts :: "seconds option"
  su_created_at :: seconds

record label_event_in =
  le_project_id :: int
  le_item_id :: int
  le_old_label :: "string option"
  le_new_label :: string
  le_source :: string
  le_suggestion_id :: "int option"

record label_event = label_event_in +
  le_event_id :: int
  le_ts :: seconds

record orphan_row =
  lo_project_id :: int
  lo_item_id :: int
  lo_first_orphaned_at :: seconds

record group_row =
  lg_project_id :: int
  lg_group_id :: int
  lg_launch_id :: int
  lg_fingerprint :: int
  lg_member_count :: int
  lg_group_si_prior :: real
  lg_dominant :: bool

record mode_in =
  fm_status :: string
  fm_label :: "string option"
  fm_label_source :: "string option"
  fm_title :: "string option"
  fm_summary :: "string option"
  fm_centroid :: "vec option"
  fm_emb_model_ver :: "int option"
  fm_representative_template_ids :: "int list"
  fm_exception_fps :: "int list"

record mode_row = mode_in +
  fm_project_id :: int
  fm_mode_id :: int
  fm_seed_key :: "string option"
  fm_purity :: real
  fm_support :: int
  fm_ewma_alpha :: real

record member_row =
  mm_project_id :: int
  mm_mode_id :: int
  mm_item_id :: int
  mm_match_score :: real
  mm_matched_by :: string

record history_row =
  th_project_id :: int
  th_test_case_hash :: int
  th_window_runs :: int
  th_window_failures :: int
  th_window_flips :: int
  th_last_status :: "string option"
  th_last_failure_ts :: "seconds option"
  th_flakiness_score :: real

record db =
  db_projects :: "int set"
  db_items :: "item_row list"
  db_sigs :: "sig_row list"
  db_suggestions :: "suggestion_row list"
  db_events :: "label_event list"
  db_orphans :: "orphan_row list"
  db_groups :: "group_row list"
  db_modes :: "mode_row list"
  db_members :: "member_row list"
  db_history :: "history_row list"
  db_next_suggestion :: int
  db_next_event :: int
  db_next_group :: int
  db_next_mode :: int

definition empty_db :: db where
  "empty_db = \<lparr>db_projects = {}, db_items = [], db_sigs = [], db_suggestions = [], db_events = [],
     db_orphans = [], db_groups = [], db_modes = [], db_members = [], db_history = [],
     db_next_suggestion = 1, db_next_event = 1, db_next_group = 1, db_next_mode = 1\<rparr>"

definition item_key :: "item_row \<Rightarrow> int \<times> int" where
  "item_key r = (ti_project_id r, ti_item_id r)"

definition sig_key :: "sig_row \<Rightarrow> int \<times> int" where
  "sig_key r = (fs_project_id r, fs_item_id r)"

definition member_key :: "member_row \<Rightarrow> int \<times> int \<times> int" where
  "member_key r = (mm_project_id r, mm_mode_id r, mm_item_id r)"

definition group_key :: "group_row \<Rightarrow> int \<times> int \<times> int" where
  "group_key r = (lg_project_id r, lg_launch_id r, lg_fingerprint r)"

definition mode_key :: "mode_row \<Rightarrow> int \<times> int" where
  "mode_key r = (fm_project_id r, fm_mode_id r)"

definition history_key :: "history_row \<Rightarrow> int \<times> int" where
  "history_key r = (th_project_id r, th_test_case_hash r)"

definition orphan_key :: "orphan_row \<Rightarrow> int \<times> int" where
  "orphan_key r = (lo_project_id r, lo_item_id r)"

definition suggestion_of :: "suggestion_row \<Rightarrow> int \<times> int" where
  "suggestion_of r = (su_project_id r, su_item_id r)"

definition event_of :: "label_event \<Rightarrow> int \<times> int" where
  "event_of r = (le_project_id r, le_item_id r)"

definition member_of :: "member_row \<Rightarrow> int \<times> int" where
  "member_of r = (mm_project_id r, mm_item_id r)"

lemmas row_key_defs = item_key_def sig_key_def member_key_def group_key_def mode_key_def
  history_key_def orphan_key_def suggestion_of_def event_of_def member_of_def

text \<open>The generated column \<open>issue_type_group\<close>: \<open>substring(issue_type from '^[a-z]+')\<close>.\<close>

definition label_group :: "string option \<Rightarrow> string option" where
  "label_group l =
     (case l of None \<Rightarrow> None
      | Some t \<Rightarrow> (let g = takeWhile is_lower t in if g = [] then None else Some g))"

text \<open>\<open>issue_type IS NOT NULL AND issue_type_group <> 'ti'\<close>, with SQL's NULL.\<close>

definition labelled :: "item_row \<Rightarrow> bool" where
  "labelled r \<longleftrightarrow>
     (case label_group (ti_issue_type r) of None \<Rightarrow> False | Some g \<Rightarrow> g \<noteq> ''ti'')"

definition find_item :: "db \<Rightarrow> int \<Rightarrow> int \<Rightarrow> item_row option" where
  "find_item db p i = lookup_row item_key (p, i) (db_items db)"

definition find_sig :: "db \<Rightarrow> int \<Rightarrow> int \<Rightarrow> sig_row option" where
  "find_sig db p i = lookup_row sig_key (p, i) (db_sigs db)"

definition item_exists :: "db \<Rightarrow> int \<times> int \<Rightarrow> bool" where
  "item_exists db k \<longleftrightarrow> k \<in> item_key ` set (db_items db)"

section \<open>Writes\<close>

text \<open>The upsert keeps nothing of the old row but its key; the new row's \<open>indexed_at\<close> is \<open>now()\<close>.\<close>

definition replace_row :: "'r \<Rightarrow> 'r \<Rightarrow> 'r" where
  "replace_row old new = new"

definition upsert_items :: "seconds \<Rightarrow> item_row list \<Rightarrow> db \<Rightarrow> db \<times> int" where
  "upsert_items now items db =
     (let stamped = map (\<lambda>r. r\<lparr>ti_indexed_at := now\<rparr>) items
      in (db\<lparr>db_projects := db_projects db \<union> ti_project_id ` set items,
             db_items := fold (upsert item_key replace_row) stamped (db_items db)\<rparr>,
          int (length items)))"

definition merge_sig :: "sig_row \<Rightarrow> sig_row \<Rightarrow> sig_row" where
  "merge_sig old new =
     new\<lparr>fs_error_log_id :=
           (case fs_error_log_id new of Some l \<Rightarrow> Some l | None \<Rightarrow> fs_error_log_id old)\<rparr>"

definition upsert_signatures :: "sig_row list \<Rightarrow> db \<Rightarrow> db \<times> int" where
  "upsert_signatures sigs db =
     (db\<lparr>db_sigs := fold (upsert sig_key merge_sig) sigs (db_sigs db)\<rparr>, int (length sigs))"

definition update_issue_type :: "int \<Rightarrow> int \<Rightarrow> string option \<Rightarrow> bool \<Rightarrow> db \<Rightarrow> db \<times> bool" where
  "update_issue_type p i t is_auto db =
     (db\<lparr>db_items := map (\<lambda>r. if item_key r = (p, i)
                              then r\<lparr>ti_issue_type := t, ti_is_auto_analyzed := is_auto\<rparr> else r)
                         (db_items db)\<rparr>,
      item_exists db (p, i))"

definition write_suggestion :: "seconds \<Rightarrow> suggestion_in \<Rightarrow> db \<Rightarrow> db \<times> int" where
  "write_suggestion now s db =
     (let sid = db_next_suggestion db;
          row = suggestion_in.extend s
            \<lparr>su_suggestion_id = sid, su_judge = None, su_coldstart = None,
             su_outcome = ''pending'', su_outcome_ts = None, su_created_at = now\<rparr>
      in (db\<lparr>db_suggestions := db_suggestions db @ [row], db_next_suggestion := sid + 1\<rparr>, sid))"

definition merge_group :: "group_row \<Rightarrow> group_row \<Rightarrow> group_row" where
  "merge_group old new =
     old\<lparr>lg_member_count := lg_member_count new, lg_group_si_prior := lg_group_si_prior new,
         lg_dominant := lg_dominant new, lg_project_id := lg_project_id new,
         lg_launch_id := lg_launch_id new, lg_fingerprint := lg_fingerprint new\<rparr>"

definition upsert_launch_group ::
  "int \<Rightarrow> int \<Rightarrow> int \<Rightarrow> int \<Rightarrow> real \<Rightarrow> bool \<Rightarrow> db \<Rightarrow> db \<times> int" where
  "upsert_launch_group p l fp n prior dominant db =
     (let gid = db_next_group db;
          new = \<lparr>lg_project_id = p, lg_group_id = gid, lg_launch_id = l, lg_fingerprint = fp,
                 lg_member_count = n, lg_group_si_prior = prior, lg_dominant = dominant\<rparr>;
          rows = upsert group_key merge_group new (db_groups db)
      in (db\<lparr>db_groups := rows, db_next_group := gid + 1\<rparr>,
          case lookup_row group_key (p, l, fp) rows of Some r \<Rightarrow> lg_group_id r | None \<Rightarrow> gid))"

definition append_event :: "seconds \<Rightarrow> label_event_in \<Rightarrow> db \<Rightarrow> db \<times> int" where
  "append_event now ev db =
     (let eid = db_next_event db
      in (db\<lparr>db_events := db_events db @ [label_event_in.extend ev \<lparr>le_event_id = eid, le_ts = now\<rparr>],
             db_next_event := eid + 1\<rparr>, eid))"

definition record_feedback_outcome :: "seconds \<Rightarrow> int \<Rightarrow> int \<Rightarrow> string \<Rightarrow> db \<Rightarrow> db \<times> int" where
  "record_feedback_outcome now p i new_label db =
     (let hit = (\<lambda>r. suggestion_of r = (p, i) \<and> su_outcome r = ''pending'');
          outcome = (\<lambda>r. if label_group (Some (su_predicted_label r)) \<noteq> None
                            \<and> label_group (Some (su_predicted_label r)) = label_group (Some new_label)
                         then ''accepted'' else ''corrected'')
      in (db\<lparr>db_suggestions := map (\<lambda>r. if hit r
                then r\<lparr>su_outcome := outcome r, su_outcome_ts := Some now\<rparr> else r)
                (db_suggestions db)\<rparr>,
          int (length (filter hit (db_suggestions db)))))"

section \<open>Deletes\<close>

definition purge_items :: "int \<Rightarrow> (int \<Rightarrow> bool) \<Rightarrow> db \<Rightarrow> db" where
  "purge_items p sel db =
     db\<lparr>db_members := filter (\<lambda>r. \<not> (mm_project_id r = p \<and> sel (mm_item_id r))) (db_members db),
        db_sigs := filter (\<lambda>r. \<not> (fs_project_id r = p \<and> sel (fs_item_id r))) (db_sigs db),
        db_suggestions :=
          filter (\<lambda>r. \<not> (su_project_id r = p \<and> sel (su_item_id r))) (db_suggestions db)\<rparr>"

definition delete_where :: "int \<Rightarrow> (item_row \<Rightarrow> bool) \<Rightarrow> db \<Rightarrow> db \<times> int" where
  "delete_where p sel db =
     (let hit = (\<lambda>r. ti_project_id r = p \<and> sel r);
          ids = ti_item_id ` set (filter hit (db_items db));
          db' = purge_items p (\<lambda>i. i \<in> ids) db
      in (db'\<lparr>db_items := filter (\<lambda>r. \<not> hit r) (db_items db')\<rparr>,
          int (length (filter hit (db_items db)))))"

definition delete_items :: "int \<Rightarrow> int list \<Rightarrow> db \<Rightarrow> db \<times> int" where
  "delete_items p ids db =
     (if ids = [] then (db, 0)
      else
        (let db' = purge_items p (\<lambda>i. i \<in> set ids) db;
             hit = (\<lambda>r. ti_project_id r = p \<and> ti_item_id r \<in> set ids)
         in (db'\<lparr>db_items := filter (\<lambda>r. \<not> hit r) (db_items db')\<rparr>,
             int (length (filter hit (db_items db))))))"

definition delete_launches :: "int \<Rightarrow> int list \<Rightarrow> db \<Rightarrow> db \<times> int" where
  "delete_launches p ids db =
     (if ids = [] then (db, 0)
      else
        (let (db', n) = delete_where p (\<lambda>r. ti_launch_id r \<in> set ids) db
         in (db'\<lparr>db_suggestions :=
                   filter (\<lambda>r. \<not> (su_project_id r = p \<and> su_launch_id r \<in> set ids))
                     (db_suggestions db')\<rparr>, n)))"

datatype time_field = START_TIME | LOG_TIME

definition field_of :: "time_field \<Rightarrow> item_row \<Rightarrow> seconds option" where
  "field_of f r = (case f of START_TIME \<Rightarrow> ti_start_time r | LOG_TIME \<Rightarrow> ti_log_time_max r)"

definition in_window :: "time_field \<Rightarrow> seconds \<Rightarrow> seconds option \<Rightarrow> item_row \<Rightarrow> bool" where
  "in_window f before after r \<longleftrightarrow>
     (case field_of f r of None \<Rightarrow> False
      | Some t \<Rightarrow> t < before \<and> (case after of None \<Rightarrow> True | Some a \<Rightarrow> a \<le> t))"

definition delete_by_time_range ::
  "int \<Rightarrow> time_field \<Rightarrow> seconds \<Rightarrow> seconds option \<Rightarrow> db \<Rightarrow> db \<times> int" where
  "delete_by_time_range p f before after = delete_where p (in_window f before after)"

definition delete_project :: "int \<Rightarrow> db \<Rightarrow> db \<times> int" where
  "delete_project p db =
     (db\<lparr>db_members := filter (\<lambda>r. mm_project_id r \<noteq> p) (db_members db),
         db_modes := filter (\<lambda>r. fm_project_id r \<noteq> p) (db_modes db),
         db_sigs := filter (\<lambda>r. fs_project_id r \<noteq> p) (db_sigs db),
         db_items := filter (\<lambda>r. ti_project_id r \<noteq> p) (db_items db),
         db_suggestions := filter (\<lambda>r. su_project_id r \<noteq> p) (db_suggestions db),
         db_groups := filter (\<lambda>r. lg_project_id r \<noteq> p) (db_groups db),
         db_history := filter (\<lambda>r. th_project_id r \<noteq> p) (db_history db),
         db_projects := db_projects db - {p}\<rparr>,
      int (length (filter (\<lambda>r. ti_project_id r = p) (db_items db))))"

text \<open>The nightly reaper: mark the newly orphaned items, unmark the ones that came back, and
  sweep the events of the items orphaned for longer than the grace. A day is 86400 seconds.\<close>

definition mark_orphans :: "seconds \<Rightarrow> db \<Rightarrow> db" where
  "mark_orphans now db =
     db\<lparr>db_orphans := fold
          (\<lambda>e rows. if item_exists db (event_of e) then rows
             else upsert orphan_key (\<lambda>old new. old)
                    \<lparr>lo_project_id = le_project_id e, lo_item_id = le_item_id e,
                     lo_first_orphaned_at = now\<rparr> rows)
          (db_events db) (db_orphans db)\<rparr>"

definition unmark_orphans :: "db \<Rightarrow> db" where
  "unmark_orphans db =
     db\<lparr>db_orphans := filter (\<lambda>o'. \<not> item_exists db (orphan_key o')) (db_orphans db)\<rparr>"

definition expired :: "seconds \<Rightarrow> int \<Rightarrow> db \<Rightarrow> orphan_row \<Rightarrow> bool" where
  "expired now grace_days db o' \<longleftrightarrow>
     lo_first_orphaned_at o' < now - 86400 * real_of_int grace_days
     \<and> \<not> item_exists db (orphan_key o')"

definition reap_orphan_label_events :: "seconds \<Rightarrow> int \<Rightarrow> db \<Rightarrow> db \<times> int" where
  "reap_orphan_label_events now grace_days db =
     (let db1 = unmark_orphans (mark_orphans now db)
      in if grace_days \<le> 0 then (db1, 0)
         else
           (let doomed = (\<lambda>e. event_of e \<in>
                    orphan_key ` {o' \<in> set (db_orphans db1). expired now grace_days db1 o'})
            in (db1\<lparr>db_events := filter (\<lambda>e. \<not> doomed e) (db_events db1),
                    db_orphans :=
                      filter (\<lambda>o'. \<not> expired now grace_days db1 o') (db_orphans db1)\<rparr>,
                int (length (filter doomed (db_events db1))))))"

section \<open>Row updates of the LLM worker (suggestion_ops.py)\<close>

definition set_explanation :: "int \<Rightarrow> int \<Rightarrow> string \<Rightarrow> db \<Rightarrow> db" where
  "set_explanation p sid e db =
     db\<lparr>db_suggestions := map (\<lambda>r. if su_project_id r = p \<and> su_suggestion_id r = sid
          then r\<lparr>su_explanation := Some e, su_llm_used := True\<rparr> else r) (db_suggestions db)\<rparr>"

text \<open>\<open>ORDER BY created_at DESC, suggestion_id DESC LIMIT 1\<close>.\<close>

definition newest :: "(suggestion_row \<Rightarrow> bool) \<Rightarrow> db \<Rightarrow> suggestion_row option" where
  "newest P db =
     py_max (\<lambda>r. (su_created_at r, su_suggestion_id r)) (filter P (db_suggestions db))"

definition annotate_judge :: "int \<Rightarrow> int \<Rightarrow> int option \<Rightarrow> db \<Rightarrow> db" where
  "annotate_judge p i chosen db =
     (case newest (\<lambda>r. suggestion_of r = (p, i)) db of
        None \<Rightarrow> db
      | Some s \<Rightarrow>
          db\<lparr>db_suggestions := map (\<lambda>r. if su_project_id r = p
                 \<and> su_suggestion_id r = su_suggestion_id s
               then r\<lparr>su_judge := Some chosen, su_llm_used := True\<rparr> else r) (db_suggestions db)\<rparr>)"

definition insert_coldstart ::
  "seconds \<Rightarrow> int \<Rightarrow> int \<Rightarrow> int \<Rightarrow> string \<Rightarrow> real \<Rightarrow> string \<Rightarrow> string \<Rightarrow> db \<Rightarrow> db \<times> int" where
  "insert_coldstart now p i l label confidence model_ver rule db =
     (let sid = db_next_suggestion db;
          row = \<lparr>su_project_id = p, su_item_id = i, su_launch_id = l, su_group_id = None,
                 su_predicted_label = label, su_confidence = confidence,
                 su_matched_mode_id = None, su_matched_item_id = None, su_features = Map.empty,
                 su_model_ver = model_ver, su_llm_used = True, su_method = Some ''coldstart'',
                 su_abstain_reason = None, su_explanation = None, su_source = None,
                 su_suggestion_id = sid, su_judge = None, su_coldstart = Some rule,
                 su_outcome = ''pending'', su_outcome_ts = None, su_created_at = now\<rparr>
      in (db\<lparr>db_suggestions := db_suggestions db @ [row], db_next_suggestion := sid + 1\<rparr>, sid))"

section \<open>Test history (stats.py)\<close>

definition bump_new :: "int \<Rightarrow> int \<Rightarrow> bool \<Rightarrow> seconds \<Rightarrow> history_row" where
  "bump_new p tch failed ts =
     \<lparr>th_project_id = p, th_test_case_hash = tch, th_window_runs = 1,
      th_window_failures = (if failed then 1 else 0), th_window_flips = 0,
      th_last_status = Some (if failed then ''failed'' else ''passed''),
      th_last_failure_ts = (if failed then Some ts else None), th_flakiness_score = 0\<rparr>"

text \<open>The \<open>DO UPDATE\<close> branch reads the old row and the parameters of the statement, which are
  those of the proposed row.\<close>

definition merge_history :: "bool \<Rightarrow> seconds \<Rightarrow> history_row \<Rightarrow> history_row \<Rightarrow> history_row" where
  "merge_history failed ts s new =
     (let opposite = (if failed then ''passed'' else ''failed'');
          flip = (if th_last_status s = Some opposite then 1 else 0)
      in new\<lparr>th_window_runs := th_window_runs s + 1,
             th_window_failures := th_window_failures s + (if failed then 1 else 0),
             th_window_flips := th_window_flips s + flip,
             th_flakiness_score := th_flakiness_score s * 9 / 10 + real_of_int flip / 10,
             th_last_failure_ts := (if failed then Some ts else th_last_failure_ts s)\<rparr>)"

definition bump_test_history :: "int \<Rightarrow> int \<Rightarrow> bool \<Rightarrow> seconds \<Rightarrow> db \<Rightarrow> db" where
  "bump_test_history p tch failed ts db =
     db\<lparr>db_history := upsert history_key (merge_history failed ts) (bump_new p tch failed ts)
          (db_history db)\<rparr>"

definition get_test_history :: "db \<Rightarrow> int \<Rightarrow> int \<Rightarrow> history_row option" where
  "get_test_history db p tch = lookup_row history_key (p, tch) (db_history db)"

section \<open>Reads\<close>

definition LABEL_SOURCE_MAP :: "string \<rightharpoonup> string" where
  "LABEL_SOURCE_MAP = map_of [(''rp_defect_update'', ''rp''), (''human_ui'', ''human''),
     (''analyzer_suggestion_accepted'', ''ai_suggested'')]"

text \<open>\<open>ORDER BY le.ts DESC LIMIT 1\<close>.\<close>

definition latest_event :: "db \<Rightarrow> int \<Rightarrow> int \<Rightarrow> label_event option" where
  "latest_event db p i = py_max le_ts (filter (\<lambda>e. event_of e = (p, i)) (db_events db))"

definition get_items_labels :: "db \<Rightarrow> int \<Rightarrow> int list \<Rightarrow> int \<rightharpoonup> string option" where
  "get_items_labels db p ids =
     (\<lambda>i. if i \<in> set ids then map_option ti_issue_type (find_item db p i) else None)"

record hash_row =
  hr_item_id :: int
  hr_issue_type :: string
  hr_issue_type_group :: "string option"
  hr_is_auto_analyzed :: bool
  hr_launch_id :: int
  hr_launch_name :: string
  hr_exception_fp :: int
  hr_status_codes :: "string list"
  hr_msg_text :: string
  hr_label_source :: "string option"
  hr_label_ts :: "seconds option"

text \<open>The join of \<open>failure_signature\<close> and \<open>test_item\<close> on the rows with one hash.\<close>

definition hash_join :: "db \<Rightarrow> int \<Rightarrow> int \<Rightarrow> (sig_row \<times> item_row) list" where
  "hash_join db p h =
     concat (map (\<lambda>s. map (\<lambda>t. (s, t))
                  (filter (\<lambda>t. item_key t = sig_key s \<and> labelled t) (db_items db)))
       (filter (\<lambda>s. fs_project_id s = p \<and> fs_error_hash s = h) (db_sigs db)))"

definition hash_order :: "db \<Rightarrow> sig_row \<times> item_row \<Rightarrow> seconds option \<times> seconds \<times> int" where
  "hash_order db = (\<lambda>(s, t).
     (map_option le_ts (latest_event db (ti_project_id t) (ti_item_id t)),
      ti_indexed_at t, ti_item_id t))"

definition hash_row_of :: "db \<Rightarrow> sig_row \<times> item_row \<Rightarrow> hash_row" where
  "hash_row_of db = (\<lambda>(s, t).
     (let le = latest_event db (ti_project_id t) (ti_item_id t)
      in \<lparr>hr_item_id = ti_item_id t,
          hr_issue_type = (case ti_issue_type t of None \<Rightarrow> [] | Some l \<Rightarrow> l),
          hr_issue_type_group = label_group (ti_issue_type t),
          hr_is_auto_analyzed = ti_is_auto_analyzed t,
          hr_launch_id = ti_launch_id t, hr_launch_name = ti_launch_name t,
          hr_exception_fp = fs_exception_fp s, hr_status_codes = fs_status_codes s,
          hr_msg_text = fs_msg_text s,
          hr_label_source = Option.bind le (\<lambda>e. LABEL_SOURCE_MAP (le_source e)),
          hr_label_ts = map_option le_ts le\<rparr>))"

definition find_hash_matches :: "db \<Rightarrow> int \<Rightarrow> int \<Rightarrow> hash_row list" where
  "find_hash_matches db p h =
     map (hash_row_of db) (take 10 (order_desc (hash_order db) (hash_join db p h)))"

definition find_by_error_hash :: "db \<Rightarrow> int \<Rightarrow> int \<Rightarrow> nat \<Rightarrow> candidate list" where
  "find_by_error_hash db p h limit =
     map (\<lambda>(s, t). (candidate_default (Some (ti_item_id t)) None)
            \<lparr>c_issue_type := ti_issue_type t, c_same_error_hash := True,
             c_matched_by := Some ''hash''\<rparr>)
       (take limit (order_desc (\<lambda>(s, t). (ti_indexed_at t, fs_item_id s)) (hash_join db p h)))"

definition get_signatures :: "db \<Rightarrow> int \<Rightarrow> int list \<Rightarrow> int \<rightharpoonup> sig_row" where
  "get_signatures db p ids = (\<lambda>i. if i \<in> set ids then find_sig db p i else None)"

definition test_case_first_seen :: "db \<Rightarrow> int \<Rightarrow> int \<Rightarrow> seconds option" where
  "test_case_first_seen db p tch =
     (let seen = map (\<lambda>r. case ti_start_time r of Some t \<Rightarrow> t | None \<Rightarrow> ti_indexed_at r)
                   (filter (\<lambda>r. ti_project_id r = p \<and> ti_test_case_hash r = Some tch) (db_items db))
      in if seen = [] then None else Some (Min (set seen)))"

definition item_launch_names :: "db \<Rightarrow> int \<Rightarrow> int list \<Rightarrow> int \<rightharpoonup> string" where
  "item_launch_names db p ids =
     (\<lambda>i. if i \<in> set ids then map_option ti_launch_name (find_item db p i) else None)"

definition error_hash_seen :: "db \<Rightarrow> int \<Rightarrow> int \<Rightarrow> int \<Rightarrow> bool" where
  "error_hash_seen db p h exclude_launch =
     list_ex (\<lambda>s. fs_project_id s = p \<and> fs_error_hash s = h
        \<and> list_ex (\<lambda>t. item_key t = sig_key s \<and> ti_launch_id t \<noteq> exclude_launch) (db_items db))
       (db_sigs db)"

definition is_rubric_ver :: "string \<Rightarrow> bool" where
  "is_rubric_ver v \<longleftrightarrow> starts_with ''rubric+'' v"

definition latest_rubric_provisional :: "db \<Rightarrow> int \<Rightarrow> int \<Rightarrow> suggestion_row option" where
  "latest_rubric_provisional db p i =
     (case newest (\<lambda>r. suggestion_of r = (p, i)
                     \<and> \<not> (su_predicted_label r = ''ti'' \<and> \<not> is_rubric_ver (su_model_ver r))) db of
        None \<Rightarrow> None
      | Some r \<Rightarrow>
          if \<not> is_rubric_ver (su_model_ver r)
             \<or> strip (case su_explanation r of None \<Rightarrow> [] | Some e \<Rightarrow> e) = [] then None
          else Some r)"

definition latest_judge :: "seconds \<Rightarrow> db \<Rightarrow> int \<Rightarrow> int \<Rightarrow> int option option" where
  "latest_judge now db p i =
     Option.bind (newest (\<lambda>r. suggestion_of r = (p, i) \<and> su_judge r \<noteq> None
                            \<and> su_created_at r \<ge> now - 14 * 86400) db) su_judge"

definition latest_suggestions :: "db \<Rightarrow> int \<Rightarrow> int list \<Rightarrow> int \<rightharpoonup> suggestion_row" where
  "latest_suggestions db p ids =
     (\<lambda>i. if i \<in> set ids
          then py_max su_created_at (filter (\<lambda>r. suggestion_of r = (p, i)) (db_suggestions db))
          else None)"

section \<open>Hybrid retrieval\<close>

text \<open>One row of the stage B query, as PostgreSQL returns it, with the columns the code uses.\<close>

record stage_b_row =
  sb_item_id :: int
  sb_sparse_rank :: "int option"
  sb_dense_rank :: "int option"
  sb_lex_score :: "real option"
  sb_cosine :: "real option"
  sb_rrf_score :: real
  sb_jaccard :: real
  sb_error_hash :: int
  sb_exception_fp :: int
  sb_issue_type :: "string option"
  sb_test_case_hash :: "int option"
  sb_launch_id :: "int option"
  sb_launch_number :: "int option"
  sb_label_source :: "string option"
  sb_label_ts :: "seconds option"
  sb_mode_id :: "int option"
  sb_msg_text :: "string option"
  sb_exc_text :: "string option"
  sb_error_log_id :: "int option"

record query_signature =
  q_exception_fp :: int
  q_error_hash :: int
  q_top_frames :: "string list"
  q_template_ids :: "int list"
  q_salient_terms :: "string list"
  q_exception_names :: "string list"
  q_emb :: "vec option"
  q_emb_model_ver :: int
  q_test_case_hash :: "int option"
  q_launch_id :: "int option"
  q_launch_number :: "int option"

record candidate_filters =
  cf_exclude_item_ids :: "int list"
  cf_exclude_launch_ids :: "int list"
  cf_min_label_ts :: "seconds option"
  cf_issue_type_groups :: "string list option"

definition no_filters :: candidate_filters where
  "no_filters = \<lparr>cf_exclude_item_ids = [], cf_exclude_launch_ids = [], cf_min_label_ts = None,
     cf_issue_type_groups = None\<rparr>"

definition launch_distance :: "int option \<Rightarrow> int option \<Rightarrow> int option" where
  "launch_distance a b =
     (case a of None \<Rightarrow> None | Some x \<Rightarrow> (case b of None \<Rightarrow> None | Some y \<Rightarrow> Some \<bar>x - y\<bar>))"

definition row_to_candidate :: "query_signature \<Rightarrow> stage_b_row \<Rightarrow> candidate" where
  "row_to_candidate q r =
     (candidate_default (Some (sb_item_id r)) (sb_mode_id r))
       \<lparr>c_dense_rank := sb_dense_rank r, c_sparse_rank := sb_sparse_rank r,
        c_rrf_score := sb_rrf_score r, c_cosine := sb_cosine r, c_lex_score := sb_lex_score r,
        c_jaccard_templates := sb_jaccard r, c_issue_type := sb_issue_type r,
        c_label_source := Option.bind (sb_label_source r) LABEL_SOURCE_MAP,
        c_label_ts := sb_label_ts r,
        c_same_test_case :=
          (q_test_case_hash q \<noteq> None \<and> q_test_case_hash q = sb_test_case_hash r),
        c_same_error_hash := (sb_error_hash r = q_error_hash q),
        c_same_exception_fp := (sb_exception_fp r = q_exception_fp q),
        c_launch_distance := launch_distance (q_launch_number q) (sb_launch_number r),
        c_launch_id := sb_launch_id r,
        c_msg_text := (case sb_msg_text r of None \<Rightarrow> [] | Some t \<Rightarrow> t),
        c_exc_text := (case sb_exc_text r of None \<Rightarrow> [] | Some t \<Rightarrow> t)\<rparr>"

definition passes_filters :: "candidate_filters \<Rightarrow> stage_b_row \<Rightarrow> bool" where
  "passes_filters f r \<longleftrightarrow>
     \<not> (sb_item_id r \<in> set (cf_exclude_item_ids f)
        \<or> (case sb_launch_id r of None \<Rightarrow> False | Some l \<Rightarrow> l \<in> set (cf_exclude_launch_ids f)))
     \<and> (case cf_min_label_ts f of None \<Rightarrow> True
        | Some m \<Rightarrow> (case sb_label_ts r of None \<Rightarrow> False | Some t \<Rightarrow> m \<le> t))
     \<and> (case cf_issue_type_groups f of None \<Rightarrow> True
        | Some gs \<Rightarrow> gs = [] \<or>
            take 2 (case sb_issue_type r of None \<Rightarrow> [] | Some t \<Rightarrow> t) \<in> set gs)"

text \<open>\<open>rows\<close> is what the hybrid query returns for this query and \<open>LIMIT k\<close>.\<close>

definition stage_b :: "stage_b_row list \<Rightarrow> query_signature \<Rightarrow> candidate_filters \<Rightarrow> candidate list" where
  "stage_b rows q f = map (row_to_candidate q) (filter (passes_filters f) rows)"

definition find_candidates ::
  "candidate list \<Rightarrow> stage_b_row list \<Rightarrow> query_signature \<Rightarrow> nat \<Rightarrow> candidate_filters \<Rightarrow> candidate list"
  where
  "find_candidates modes rows q k f = take (k + 10) (modes @ stage_b rows q f)"

definition search_ti_candidates :: "stage_b_row list \<Rightarrow> query_signature \<Rightarrow> candidate list" where
  "search_ti_candidates rows q =
     map (\<lambda>r. (candidate_default (Some (sb_item_id r)) None)
            \<lparr>c_dense_rank := sb_dense_rank r, c_sparse_rank := sb_sparse_rank r,
             c_rrf_score := sb_rrf_score r, c_cosine := sb_cosine r, c_lex_score := sb_lex_score r,
             c_launch_distance := launch_distance (q_launch_number q) (sb_launch_number r),
             c_launch_id := sb_launch_id r, c_relevant_log_id := sb_error_log_id r\<rparr>) rows"

section \<open>The training frame (labels.py)\<close>

record frame_row =
  fr_event_id :: int
  fr_project_id :: int
  fr_item_id :: int
  fr_old_label :: "string option"
  fr_new_label :: string
  fr_source :: string
  fr_ts :: seconds
  fr_test_case_hash :: "int option"
  fr_launch_id :: "int option"
  fr_issue_type_group :: "string option"
  fr_suggestion :: "suggestion_row option"
  fr_window_runs :: "int option"
  fr_window_failures :: "int option"
  fr_flakiness_score :: "real option"
  fr_mode_purity :: "real option"
  fr_mode_support :: "int option"

text \<open>The snapshot of an event: the newest suggestion written before it and not by the early
  route.\<close>

definition snapshot_of :: "db \<Rightarrow> label_event \<Rightarrow> suggestion_row option" where
  "snapshot_of db e =
     newest (\<lambda>r. suggestion_of r = event_of e \<and> su_created_at r \<le> le_ts e
               \<and> su_source r \<noteq> Some ''early'') db"

definition best_membership :: "db \<Rightarrow> int \<Rightarrow> int \<Rightarrow> mode_row option" where
  "best_membership db p i =
     Option.bind
       (py_max (\<lambda>m. (mm_match_score m, mm_mode_id m))
         (filter (\<lambda>m. member_of m = (p, i)
              \<and> (p, mm_mode_id m) \<in> mode_key ` set (db_modes db)) (db_members db)))
       (\<lambda>m. lookup_row mode_key (p, mm_mode_id m) (db_modes db))"

definition frame_row_of :: "db \<Rightarrow> label_event \<Rightarrow> frame_row" where
  "frame_row_of db e =
     (let p = le_project_id e; i = le_item_id e;
          ti = find_item db p i;
          th = Option.bind (Option.bind ti ti_test_case_hash) (get_test_history db p);
          fm = best_membership db p i
      in \<lparr>fr_event_id = le_event_id e, fr_project_id = p, fr_item_id = i,
          fr_old_label = le_old_label e, fr_new_label = le_new_label e, fr_source = le_source e,
          fr_ts = le_ts e, fr_test_case_hash = Option.bind ti ti_test_case_hash,
          fr_launch_id = map_option ti_launch_id ti,
          fr_issue_type_group = Option.bind ti (label_group \<circ> ti_issue_type),
          fr_suggestion = snapshot_of db e,
          fr_window_runs = map_option th_window_runs th,
          fr_window_failures = map_option th_window_failures th,
          fr_flakiness_score = map_option th_flakiness_score th,
          fr_mode_purity = map_option fm_purity fm,
          fr_mode_support = map_option fm_support fm\<rparr>)"

definition fetch_training_frame ::
  "db \<Rightarrow> int option \<Rightarrow> seconds option \<Rightarrow> nat \<Rightarrow> frame_row list" where
  "fetch_training_frame db p since limit =
     map (frame_row_of db)
       (take limit (order_desc (\<lambda>e. (le_ts e, le_event_id e))
          (filter (\<lambda>e. (case p of None \<Rightarrow> True | Some p' \<Rightarrow> le_project_id e = p')
                     \<and> (case since of None \<Rightarrow> True | Some s \<Rightarrow> s \<le> le_ts e)) (db_events db))))"

definition count_events_since :: "db \<Rightarrow> seconds option \<Rightarrow> int option \<Rightarrow> int" where
  "count_events_since db since p =
     int (length (filter (\<lambda>e. (case since of None \<Rightarrow> True | Some s \<Rightarrow> s < le_ts e)
                            \<and> (case p of None \<Rightarrow> True | Some p' \<Rightarrow> le_project_id e = p'))
       (db_events db)))"

end
