(* ===== verification/Decision.thy ===== *)
theory Decision
  imports Features
begin

text \<open>
  The decision function of the analyzer (\<open>core/decision.py\<close>): the Stage-A inherit of an exact
  error-hash match behind the discriminant gate, the knowledge-base scoring and its short circuit,
  the banding of a GBM prediction with its two guards, the cold fallback, and \<open>decide\<close>, which
  tries them in this order. The GBM is the parameter \<open>di_gbm_predict\<close>, as it is in the code; the
  current time is an argument. A label or locator is a \<open>string\<close>; \<open>''ti''\<close> is the abstain label.
\<close>

section \<open>Constants\<close>

definition TAU_AUTO :: real where "TAU_AUTO = 75 / 100"
definition TAU_SUGGEST :: real where "TAU_SUGGEST = 45 / 100"
definition STAGE_A_CONFIDENCE :: real where "STAGE_A_CONFIDENCE = 95 / 100"
definition STAGE_A_MAX_AGE_DAYS :: real where "STAGE_A_MAX_AGE_DAYS = 180"
definition STAGE_A_MSG_JACCARD :: real where "STAGE_A_MSG_JACCARD = 5 / 10"
definition KB_STRONG_PURITY :: real where "KB_STRONG_PURITY = 95 / 100"
definition KB_STRONG_SUPPORT :: int where "KB_STRONG_SUPPORT = 10"
definition KB_STRONG_SCORE :: real where "KB_STRONG_SCORE = 85 / 100"
definition KB_CONFIDENCE_CAP :: real where "KB_CONFIDENCE_CAP = 93 / 100"
definition KB_CANDIDATE_SCORE :: real where "KB_CANDIDATE_SCORE = 70 / 100"
definition SEED_PRIOR_MIN_CONF :: real where "SEED_PRIOR_MIN_CONF = 7 / 10"
definition KB_W_COS :: real where "KB_W_COS = 6 / 10"
definition KB_W_JACCARD :: real where "KB_W_JACCARD = 25 / 100"
definition KB_W_FP :: real where "KB_W_FP = 15 / 100"
definition STAGE_A_HUMAN_MIN_CONF :: real where "STAGE_A_HUMAN_MIN_CONF = 9 / 10"

lemmas decision_consts =
  TAU_AUTO_def TAU_SUGGEST_def STAGE_A_CONFIDENCE_def STAGE_A_MAX_AGE_DAYS_def
  STAGE_A_MSG_JACCARD_def KB_STRONG_PURITY_def KB_STRONG_SUPPORT_def KB_STRONG_SCORE_def
  KB_CONFIDENCE_CAP_def KB_CANDIDATE_SCORE_def SEED_PRIOR_MIN_CONF_def KB_W_COS_def
  KB_W_JACCARD_def KB_W_FP_def STAGE_A_HUMAN_MIN_CONF_def

datatype decision_method = METHOD_HASH | METHOD_KB | METHOD_GBM | METHOD_RULE_COLD

datatype decision_action = ACTION_AUTO | ACTION_SUGGEST | ACTION_ABSTAIN

definition DEFAULT_LOCATOR :: "string \<rightharpoonup> string" where
  "DEFAULT_LOCATOR = [''pb'' \<mapsto> ''pb001'', ''ab'' \<mapsto> ''ab001'', ''si'' \<mapsto> ''si001'',
                      ''nd'' \<mapsto> ''nd001'', ''ti'' \<mapsto> ''ti001'']"

definition default_locator :: "string \<Rightarrow> string" where
  "default_locator b = (case DEFAULT_LOCATOR b of None \<Rightarrow> b | Some l \<Rightarrow> l)"

text \<open>\<open>datetime.min\<close> in UTC, in seconds.\<close>

definition DATETIME_MIN :: seconds where "DATETIME_MIN = - 62135596800"

section \<open>Data\<close>

record hash_match =
  hm_item_id :: int
  hm_issue_type :: string
  hm_issue_type_group :: string
  hm_label_source :: "string option"
  hm_label_ts :: "seconds option"
  hm_confidence :: real
  hm_is_auto_analyzed :: bool
  hm_exception_fp :: int
  hm_status_codes :: "string list"
  hm_msg_tokens :: "string set"

record decision_result =
  dr_label :: string
  dr_issue_type :: string
  dr_confidence :: real
  dr_method :: decision_method
  dr_action :: decision_action
  dr_abstain_reason :: "string option"
  dr_relevant_item_id :: "int option"
  dr_matched_mode_id :: "int option"
  dr_features :: feats
  dr_feature_schema_ver :: int
  dr_probs :: "(string \<times> real) list"
  dr_model_version :: "string option"
  dr_stage_c :: "candidate list"
  dr_relevant_label_source :: "string option"
  dr_relevant_is_auto_analyzed :: bool
  dr_calibrated_max_prob :: "real option"

record gbm_decision =
  gd_label :: string
  gd_max_prob :: real
  gd_probs :: "string \<rightharpoonup> real"
  gd_model_version :: string

record decision_inputs =
  di_exception_fp :: int
  di_hash_matches :: "hash_match list"
  di_query_status_codes :: "string list"
  di_query_msg_tokens :: "string set"
  di_kb_candidates :: "candidate list"
  di_seed :: "seed_signal option"
  di_stage_c :: "candidate list"
  di_stage_c_ages_days :: "real list"
  di_feature_ctx :: "feature_context option"
  di_gbm_predict :: "(feats \<Rightarrow> gbm_decision option) option"

definition base_or_empty :: "string option \<Rightarrow> string" where
  "base_or_empty issue_type = (case base_group issue_type of None \<Rightarrow> [] | Some b \<Rightarrow> b)"

definition age_days :: "seconds option \<Rightarrow> seconds \<Rightarrow> real" where
  "age_days ts now = (case ts of None \<Rightarrow> 0 | Some t \<Rightarrow> max 0 ((now - t) / 86400))"

section \<open>Calibrated probability of one group\<close>

text \<open>\<open>probs\<close> is a dictionary in insertion order, so the argmax is the first maximal key.\<close>

definition calibrated_label_prob :: "decision_result \<Rightarrow> string \<Rightarrow> real option" where
  "calibrated_label_prob d grp =
     (case dr_calibrated_max_prob d of
        None \<Rightarrow> None
      | Some cal \<Rightarrow>
          (case (py_max snd (dr_probs d), map_of (dr_probs d) grp) of
             (Some (argmax, raw_max), Some p) \<Rightarrow>
               if raw_max \<le> 0 then None
               else (let p_star = clamp01 cal in
                 if grp = argmax then Some p_star
                 else (let raw_rest = 1 - raw_max in
                   if raw_rest \<le> 0 then Some 0
                   else Some (clamp01 (p * (1 - p_star) / raw_rest))))
           | _ \<Rightarrow> None))"

section \<open>Stage A\<close>

definition discriminant_ok :: "string list \<Rightarrow> string set \<Rightarrow> hash_match \<Rightarrow> bool" where
  "discriminant_ok qcodes qtokens m \<longleftrightarrow>
     set (hm_status_codes m) = set qcodes
     \<and> identifier_jaccard qtokens (hm_msg_tokens m) \<ge> STAGE_A_MSG_JACCARD"

definition discriminant_filter ::
  "hash_match list \<Rightarrow> string list \<Rightarrow> string set \<Rightarrow> hash_match list" where
  "discriminant_filter matches qcodes qtokens = filter (discriminant_ok qcodes qtokens) matches"

definition discriminant_gate_blocked ::
  "int \<Rightarrow> hash_match list \<Rightarrow> string list \<Rightarrow> string set \<Rightarrow> bool" where
  "discriminant_gate_blocked exception_fp matches qcodes qtokens =
     (if exception_fp = 0 \<or> matches = [] then False
      else discriminant_filter matches qcodes qtokens = [])"

definition label_ts_key :: "hash_match \<Rightarrow> seconds" where
  "label_ts_key m = (case hm_label_ts m of None \<Rightarrow> DATETIME_MIN | Some t \<Rightarrow> t)"

definition stage_a_inherit ::
  "int \<Rightarrow> hash_match list \<Rightarrow> string list \<Rightarrow> string set \<Rightarrow> seconds \<Rightarrow> hash_match option" where
  "stage_a_inherit exception_fp matches0 qcodes qtokens now =
     (if exception_fp = 0 \<or> matches0 = [] then None
      else (let matches = discriminant_filter matches0 qcodes qtokens in
        case py_max label_ts_key matches of
          None \<Rightarrow> None
        | Some newest \<Rightarrow>
            if age_days (hm_label_ts newest) now > STAGE_A_MAX_AGE_DAYS then None
            else (let unanimous = (card (set (map hm_issue_type matches)) = 1);
                      human = (hm_label_source newest \<in> {Some ''rp'', Some ''human''});
                      single_human = (length matches = 1 \<and> human
                                      \<and> hm_confidence newest \<ge> STAGE_A_HUMAN_MIN_CONF)
                  in if \<not> ((length matches \<ge> 2 \<and> unanimous) \<or> single_human) then None
                     else (let b = base_or_empty (Some (hm_issue_type newest))
                           in if b = [] then None
                              else if b = ''nd'' \<and> hm_label_source newest = Some ''ai_suggested''
                              then None
                              else Some newest))))"

section \<open>Stage B\<close>

definition score_kb_candidate :: "candidate \<Rightarrow> kb_match" where
  "score_kb_candidate c =
     (let cos = cos_of c;
          fp_overlap = flag (c_same_exception_fp c);
          score = KB_W_COS * cos + KB_W_JACCARD * c_jaccard_templates c + KB_W_FP * fp_overlap
      in \<lparr>kb_mode_id = (case c_mode_id c of None \<Rightarrow> 0 | Some i \<Rightarrow> i),
          kb_score_mode = score,
          kb_purity = (case c_mode_purity c of None \<Rightarrow> 0 | Some p \<Rightarrow> p),
          kb_support = (case c_mode_support c of None \<Rightarrow> 0 | Some s \<Rightarrow> s),
          kb_same_exception_fp = c_same_exception_fp c,
          kb_status = (case c_mode_status c of None \<Rightarrow> ''candidate''
                       | Some s \<Rightarrow> if s = [] then ''candidate'' else s)\<rparr>)"

definition kb_key :: "kb_match \<times> candidate \<Rightarrow> real \<times> int" where
  "kb_key p = (kb_score_mode (fst p), - kb_mode_id (fst p))"

definition best_kb_match :: "candidate list \<Rightarrow> (kb_match \<times> candidate) option" where
  "best_kb_match candidates =
     py_max kb_key
       (map (\<lambda>c. (score_kb_candidate c, c)) (filter (\<lambda>c. c_mode_id c \<noteq> None) candidates))"

definition kb_short_circuit :: "kb_match \<Rightarrow> bool" where
  "kb_short_circuit kb \<longleftrightarrow>
     kb_status kb = ''confirmed'' \<and> kb_purity kb \<ge> KB_STRONG_PURITY
     \<and> kb_support kb \<ge> KB_STRONG_SUPPORT \<and> kb_score_mode kb \<ge> KB_STRONG_SCORE"

section \<open>Bands and the result constructor\<close>

definition band_action :: "real \<Rightarrow> bool \<Rightarrow> real \<Rightarrow> decision_action" where
  "band_action confidence short_circuit tau_auto =
     (if short_circuit \<or> confidence \<ge> tau_auto then ACTION_AUTO
      else if confidence \<ge> TAU_SUGGEST then ACTION_SUGGEST
      else ACTION_ABSTAIN)"

text \<open>The keyword arguments of the closure \<open>result\<close> inside \<open>decide\<close>, with their defaults.\<close>

record result_args =
  ra_label :: string
  ra_issue_type :: string
  ra_confidence :: real
  ra_method :: decision_method
  ra_short_circuit :: bool
  ra_relevant_item_id :: "int option"
  ra_matched_mode_id :: "int option"
  ra_abstain_reason :: "string option"
  ra_probs :: "(string \<times> real) list option"
  ra_model_version :: "string option"
  ra_relevant_label_source :: "string option"
  ra_relevant_is_auto_analyzed :: bool
  ra_calibrated_max_prob :: "real option"

definition result_args :: "string \<Rightarrow> string \<Rightarrow> real \<Rightarrow> decision_method \<Rightarrow> result_args" where
  "result_args label issue_type confidence meth =
     \<lparr>ra_label = label, ra_issue_type = issue_type, ra_confidence = confidence, ra_method = meth,
      ra_short_circuit = False, ra_relevant_item_id = None, ra_matched_mode_id = None,
      ra_abstain_reason = None, ra_probs = None, ra_model_version = None,
      ra_relevant_label_source = None, ra_relevant_is_auto_analyzed = False,
      ra_calibrated_max_prob = None\<rparr>"

definition mk_result ::
  "feats \<Rightarrow> candidate list \<Rightarrow> real \<Rightarrow> result_args \<Rightarrow> decision_result" where
  "mk_result features stage_c tau_auto a =
     (let action = (if ra_label a = ''ti'' then ACTION_ABSTAIN
                    else band_action (ra_confidence a) (ra_short_circuit a) tau_auto);
          default_probs = (if ra_label a \<noteq> ''ti'' then [(ra_label a, ra_confidence a)] else [])
      in \<lparr>dr_label = ra_label a, dr_issue_type = ra_issue_type a,
          dr_confidence = ra_confidence a, dr_method = ra_method a, dr_action = action,
          dr_abstain_reason = (if action = ACTION_ABSTAIN then ra_abstain_reason a else None),
          dr_relevant_item_id = ra_relevant_item_id a,
          dr_matched_mode_id = ra_matched_mode_id a, dr_features = features,
          dr_feature_schema_ver = FEATURE_SCHEMA_VER,
          dr_probs = (case ra_probs a of Some p \<Rightarrow> p | None \<Rightarrow> default_probs),
          dr_model_version = ra_model_version a, dr_stage_c = stage_c,
          dr_relevant_label_source = ra_relevant_label_source a,
          dr_relevant_is_auto_analyzed = ra_relevant_is_auto_analyzed a,
          dr_calibrated_max_prob = ra_calibrated_max_prob a\<rparr>)"

section \<open>The GBM path\<close>

definition pick_relevant :: "candidate list \<Rightarrow> string \<Rightarrow> candidate option" where
  "pick_relevant stage_c b =
     List.find (\<lambda>c. c_item_id c \<noteq> None \<and> base_or_empty (c_issue_type c) = b) stage_c"

definition feat :: "feats \<Rightarrow> string \<Rightarrow> real" where
  "feat features n = (case features n of None \<Rightarrow> 0 | Some v \<Rightarrow> v)"

definition human_confirmed_hash_floor ::
  "candidate list \<Rightarrow> feats \<Rightarrow> string set \<Rightarrow> candidate option" where
  "human_confirmed_hash_floor stage_c features qtokens =
     (case stage_c of
        [] \<Rightarrow> None
      | top1 # _ \<Rightarrow>
          if \<not> c_same_error_hash top1 \<or> c_label_source top1 \<notin> {Some ''rp'', Some ''human''}
          then None
          else if feat features ''hash_gate_blocked'' \<noteq> 0 then None
          else if feat features ''status_codes_present'' = 1
                  \<and> feat features ''status_codes_match_top1'' \<noteq> 1 then None
          else if identifier_jaccard qtokens (set (split_ws (c_msg_text top1)))
                    < STAGE_A_MSG_JACCARD then None
          else if base_or_empty (c_issue_type top1) \<notin> set BASE_LABELS then None
          else Some top1)"

definition boilerplate_only_top1 :: "candidate \<Rightarrow> string set \<Rightarrow> bool" where
  "boilerplate_only_top1 top1 qtokens =
     (if c_same_exception_fp top1 \<or> c_same_error_hash top1 \<or> c_jaccard_templates top1 > 0
      then False
      else identifier_jaccard qtokens (set (split_ws (c_msg_text top1))) < STAGE_A_MSG_JACCARD)"

definition nonempty_str :: "string option \<Rightarrow> string option" where
  "nonempty_str s = (case s of None \<Rightarrow> None | Some t \<Rightarrow> if t = [] then None else Some t)"

definition gbm_probs :: "gbm_decision \<Rightarrow> (string \<times> real) list" where
  "gbm_probs gbm = map (\<lambda>b. (b, case gd_probs gbm b of None \<Rightarrow> 0 | Some p \<Rightarrow> p)) BASE_LABELS"

definition gbm_result ::
  "gbm_decision \<Rightarrow> candidate list \<Rightarrow> (result_args \<Rightarrow> decision_result) \<Rightarrow> feats \<Rightarrow> string set \<Rightarrow> real
     \<Rightarrow> decision_result" where
  "gbm_result gbm stage_c result_fn features qtokens tau_auto =
     (let p = clamp01 (gd_max_prob gbm);
          label = (if gd_label gbm \<in> set BASE_LABELS then gd_label gbm else ''ti'');
          probs = gbm_probs gbm;
          version = (if gd_model_version gbm = [] then None else Some (gd_model_version gbm));
          stamp = (\<lambda>a. a\<lparr>ra_probs := Some probs, ra_model_version := version,
                         ra_calibrated_max_prob := Some p\<rparr>)
      in if label = ''ti'' \<or> p < TAU_SUGGEST then
           (case human_confirmed_hash_floor stage_c features qtokens of
              Some fl \<Rightarrow>
                (let flabel = base_or_empty (c_issue_type fl);
                     locator = (case nonempty_str (c_issue_type fl) of
                                  Some l \<Rightarrow> l | None \<Rightarrow> default_locator flabel)
                 in result_fn (stamp ((result_args flabel locator TAU_SUGGEST METHOD_GBM)
                      \<lparr>ra_relevant_item_id := c_item_id fl,
                       ra_relevant_label_source := c_label_source fl\<rparr>)))
            | None \<Rightarrow>
                result_fn (stamp ((result_args ''ti'' ''ti'' p METHOD_GBM)
                  \<lparr>ra_abstain_reason := Some ''gbm_below_suggest''\<rparr>)))
         else if p < tau_auto \<and> stage_c \<noteq> [] \<and> boilerplate_only_top1 (hd stage_c) qtokens then
           result_fn (stamp ((result_args ''ti'' ''ti'' p METHOD_GBM)
             \<lparr>ra_abstain_reason := Some ''gbm_boilerplate_only_neighbor''\<rparr>))
         else
           (let cand = pick_relevant stage_c label;
                locator = (case Option.bind cand (\<lambda>c. nonempty_str (c_issue_type c)) of
                             Some l \<Rightarrow> l | None \<Rightarrow> default_locator label)
            in result_fn (stamp ((result_args label locator p METHOD_GBM)
                 \<lparr>ra_relevant_item_id := Option.bind cand c_item_id,
                  ra_relevant_label_source := Option.bind cand c_label_source\<rparr>))))"

section \<open>The decision\<close>

definition with_candidates ::
  "feature_context \<Rightarrow> decision_inputs \<Rightarrow> kb_match option \<Rightarrow> feature_context" where
  "with_candidates ctx inputs kb_best =
     (let hm = di_hash_matches inputs
      in ctx
        \<lparr>fc_candidates := di_stage_c inputs,
         fc_candidate_ages_days := di_stage_c_ages_days inputs,
         fc_kb_best := kb_best,
         fc_seed := di_seed inputs,
         fc_query_status_codes := di_query_status_codes inputs,
         fc_query_msg_tokens := di_query_msg_tokens inputs,
         fc_top1_status_codes := (case hm of [] \<Rightarrow> [] | t # _ \<Rightarrow> hm_status_codes t),
         fc_top1_msg_tokens := (case hm of [] \<Rightarrow> {} | t # _ \<Rightarrow> hm_msg_tokens t),
         fc_has_hash_top1 := (hm \<noteq> []),
         fc_hash_gate_blocked :=
           discriminant_gate_blocked (di_exception_fp inputs) hm (di_query_status_codes inputs)
             (di_query_msg_tokens inputs)\<rparr>)"

definition decision_features :: "decision_inputs \<Rightarrow> feats" where
  "decision_features inputs =
     (let kb_best = map_option fst (best_kb_match (di_kb_candidates inputs));
          ctx = (case di_feature_ctx inputs of None \<Rightarrow> default_context | Some c \<Rightarrow> c)
      in extract_features (with_candidates ctx inputs kb_best))"

definition cold_result ::
  "decision_inputs \<Rightarrow> (result_args \<Rightarrow> decision_result) \<Rightarrow> decision_result" where
  "cold_result inputs result =
     (case di_seed inputs of
        Some seed \<Rightarrow>
          if seed_confidence seed \<ge> SEED_PRIOR_MIN_CONF then
            (let b = base_or_empty (Some (seed_label seed))
             in result (result_args b (default_locator b) (seed_confidence seed) METHOD_RULE_COLD))
          else result ((result_args ''ti'' ''ti'' 0 METHOD_RULE_COLD)
                 \<lparr>ra_abstain_reason := Some ''no_confident_rule''\<rparr>)
      | None \<Rightarrow> result ((result_args ''ti'' ''ti'' 0 METHOD_RULE_COLD)
                 \<lparr>ra_abstain_reason := Some ''no_confident_rule''\<rparr>))"

definition decide :: "decision_inputs \<Rightarrow> seconds \<Rightarrow> real \<Rightarrow> decision_result" where
  "decide inputs now tau_auto =
     (let kb_pair = best_kb_match (di_kb_candidates inputs);
          features = decision_features inputs;
          result = mk_result features (di_stage_c inputs) tau_auto
      in case stage_a_inherit (di_exception_fp inputs) (di_hash_matches inputs)
                (di_query_status_codes inputs) (di_query_msg_tokens inputs) now of
           Some inherit \<Rightarrow>
             result ((result_args (base_or_empty (Some (hm_issue_type inherit)))
                        (hm_issue_type inherit) STAGE_A_CONFIDENCE METHOD_HASH)
               \<lparr>ra_short_circuit := True,
                ra_relevant_item_id := Some (hm_item_id inherit),
                ra_relevant_label_source := hm_label_source inherit,
                ra_relevant_is_auto_analyzed := hm_is_auto_analyzed inherit\<rparr>)
         | None \<Rightarrow>
             (case (if map_option (kb_short_circuit \<circ> fst) kb_pair = Some True
                    then kb_pair else None) of
                Some (kb, cand) \<Rightarrow>
                  result ((result_args (base_or_empty (c_issue_type cand))
                             (case nonempty_str (c_issue_type cand) of
                                Some l \<Rightarrow> l | None \<Rightarrow> base_or_empty (c_issue_type cand))
                             (min KB_CONFIDENCE_CAP (kb_purity kb * kb_score_mode kb)) METHOD_KB)
                    \<lparr>ra_short_circuit := True,
                     ra_matched_mode_id := Some (kb_mode_id kb)\<rparr>)
              | None \<Rightarrow>
                  (case Option.bind (di_gbm_predict inputs) (\<lambda>f. f features) of
                     Some gbm \<Rightarrow>
                       gbm_result gbm (di_stage_c inputs) result features
                         (di_query_msg_tokens inputs) tau_auto
                   | None \<Rightarrow> cold_result inputs result)))"

section \<open>Stage A: soundness\<close>

lemma discriminant_filter_set:
  "set (discriminant_filter ms qc qt) = {m \<in> set ms. discriminant_ok qc qt m}"
  by (auto simp: discriminant_filter_def)

lemma base_or_empty_Some: "base_or_empty t \<noteq> [] \<Longrightarrow> base_or_empty t \<in> set BASE_LABELS"
  by (auto simp: base_or_empty_def dest: base_group_Some split: option.splits)

lemma base_labels_not_ti: "b \<in> set BASE_LABELS \<Longrightarrow> b \<noteq> ''ti'' \<and> b \<noteq> []"
  by (auto simp: BASE_LABELS_def)

lemma stage_a_inherit_SomeD:
  assumes "stage_a_inherit fp ms qc qt now = Some m"
  shows "fp \<noteq> 0" and "py_max label_ts_key (discriminant_filter ms qc qt) = Some m"
    and "age_days (hm_label_ts m) now \<le> STAGE_A_MAX_AGE_DAYS"
    and "(2 \<le> length (discriminant_filter ms qc qt)
           \<and> card (set (map hm_issue_type (discriminant_filter ms qc qt))) = 1)
         \<or> (length (discriminant_filter ms qc qt) = 1
            \<and> hm_label_source m \<in> {Some ''rp'', Some ''human''}
            \<and> STAGE_A_HUMAN_MIN_CONF \<le> hm_confidence m)"
    and "base_or_empty (Some (hm_issue_type m)) \<in> set BASE_LABELS"
    and "\<not> (base_or_empty (Some (hm_issue_type m)) = ''nd''
            \<and> hm_label_source m = Some ''ai_suggested'')"
  using assms
  by (auto simp: stage_a_inherit_def Let_def not_less
      split: if_splits option.splits intro!: base_or_empty_Some)

text \<open>
  C9. Stage A inherits only on real evidence: the query has a fingerprint, the inherited match is
  one of the exact-hash matches and agrees with the query on the un-masked status codes and on
  the message identifiers, its label is at most 180 days old and maps to one of the four GBM
  groups (never ti, never an auto-suggested nd), every match that passed the gate carries the
  same label, and the label is backed by two matches or by one human label of confidence 0.9.
\<close>

theorem stage_a_inherit_sound:
  assumes "stage_a_inherit fp ms qc qt now = Some m"
  shows "fp \<noteq> 0 \<and> m \<in> set ms
    \<and> set (hm_status_codes m) = set qc
    \<and> STAGE_A_MSG_JACCARD \<le> identifier_jaccard qt (hm_msg_tokens m)
    \<and> age_days (hm_label_ts m) now \<le> STAGE_A_MAX_AGE_DAYS
    \<and> base_or_empty (Some (hm_issue_type m)) \<in> set BASE_LABELS
    \<and> (hm_label_source m = Some ''ai_suggested'' \<longrightarrow> base_or_empty (Some (hm_issue_type m)) \<noteq> ''nd'')
    \<and> (\<forall>m' \<in> set (discriminant_filter ms qc qt). hm_issue_type m' = hm_issue_type m)
    \<and> (2 \<le> length (discriminant_filter ms qc qt)
       \<or> (hm_label_source m \<in> {Some ''rp'', Some ''human''}
          \<and> STAGE_A_HUMAN_MIN_CONF \<le> hm_confidence m))"
proof -
  note D = stage_a_inherit_SomeD [OF assms]
  let ?F = "discriminant_filter ms qc qt"
  have mF: "m \<in> set ?F" by (rule py_max_in [OF D(2)])
  have same: "hm_issue_type m' = hm_issue_type m" if m': "m' \<in> set ?F" for m'
    using D(4)
  proof
    assume "2 \<le> length ?F \<and> card (set (map hm_issue_type ?F)) = 1"
    then obtain t where t: "hm_issue_type ` set ?F = {t}" by (auto simp: card_1_singleton_iff)
    have "hm_issue_type m' \<in> hm_issue_type ` set ?F" using m' by (rule imageI)
    moreover have "hm_issue_type m \<in> hm_issue_type ` set ?F" using mF by (rule imageI)
    ultimately show ?thesis unfolding t by simp
  next
    assume "length ?F = 1 \<and> hm_label_source m \<in> {Some ''rp'', Some ''human''}
            \<and> STAGE_A_HUMAN_MIN_CONF \<le> hm_confidence m"
    then obtain x where "?F = [x]" by (auto simp: length_Suc_conv)
    with m' mF show ?thesis by simp
  qed
  have mem: "m \<in> set ms" and ok: "discriminant_ok qc qt m"
    using mF by (simp_all add: discriminant_filter_set)
  have nd: "hm_label_source m = Some ''ai_suggested'' \<longrightarrow>
      base_or_empty (Some (hm_issue_type m)) \<noteq> ''nd''" using D(6) by blast
  have backed: "2 \<le> length ?F \<or> (hm_label_source m \<in> {Some ''rp'', Some ''human''}
      \<and> STAGE_A_HUMAN_MIN_CONF \<le> hm_confidence m)" using D(4) by blast
  show ?thesis
    by (intro conjI ballI nd backed D(1,3,5) mem same ok [unfolded discriminant_ok_def, THEN conjunct1]
        ok [unfolded discriminant_ok_def, THEN conjunct2])
qed

definition demo_match :: hash_match where
  "demo_match =
     \<lparr>hm_item_id = 7, hm_issue_type = ''PB_Regression'', hm_issue_type_group = ''pb'',
      hm_label_source = Some ''rp'', hm_label_ts = Some 0, hm_confidence = 1,
      hm_is_auto_analyzed = False, hm_exception_fp = 11, hm_status_codes = [''500''],
      hm_msg_tokens = {''Cart.total''}\<rparr>"

lemma demo_match_inherits:
  "stage_a_inherit 11 [demo_match] [''500''] {''Cart.total''} 86400 = Some demo_match"
proof -
  have b: "base_group (Some ''PB_Regression'') = Some ''pb''" by code_simp
  have "identifier_jaccard {''Cart.total''} {''Cart.total''} = 1"
    by (simp add: identifier_jaccard_def jaccard_def identifier_tokens_def Let_def)
  then have "discriminant_filter [demo_match] [''500''] {''Cart.total''} = [demo_match]"
    by (simp add: discriminant_filter_def discriminant_ok_def demo_match_def decision_consts)
  then show ?thesis
    by (simp add: stage_a_inherit_def Let_def age_days_def demo_match_def decision_consts
        base_or_empty_def b)
qed

theorem stage_a_inherit_sound_witness:
  "demo_match \<in> set [demo_match]
   \<and> base_or_empty (Some (hm_issue_type demo_match)) \<in> set BASE_LABELS"
  using stage_a_inherit_sound [OF demo_match_inherits] by simp

text \<open>
  Stage A does not depend on the order in which the store returns the matches: when no two
  matches carry the same label time, every permutation gives the same answer. And whenever the
  \<open>hash_gate_blocked\<close> feature is raised, Stage A inherits nothing.
\<close>

theorem stage_a_order_independent:
  assumes "inj_on label_ts_key (set ms)" and "mset ms = mset ms'"
  shows "stage_a_inherit fp ms qc qt now = stage_a_inherit fp ms' qc qt now
    \<and> (discriminant_gate_blocked fp ms qc qt \<longrightarrow> stage_a_inherit fp ms qc qt now = None)"
proof -
  let ?F = "discriminant_filter ms qc qt" and ?F' = "discriminant_filter ms' qc qt"
  have ms: "mset ?F = mset ?F'"
    using assms(2) by (simp add: discriminant_filter_def)
  have s: "set ?F = set ?F'" by (rule mset_eq_setD [OF ms])
  have l: "length ?F = length ?F'" by (rule mset_eq_length [OF ms])
  have inj: "inj_on label_ts_key (set ?F)"
    using assms(1) by (rule inj_on_subset) (auto simp: discriminant_filter_set)
  have nil: "ms = [] \<longleftrightarrow> ms' = []" using assms(2) by (metis mset_zero_iff)
  have eq: "py_max label_ts_key ?F = py_max label_ts_key ?F'" by (rule py_max_set_eq [OF s inj])
  have "stage_a_inherit fp ms qc qt now = stage_a_inherit fp ms' qc qt now"
    unfolding stage_a_inherit_def Let_def set_map s l nil eq ..
  moreover have "discriminant_gate_blocked fp ms qc qt \<Longrightarrow> stage_a_inherit fp ms qc qt now = None"
    by (simp add: discriminant_gate_blocked_def stage_a_inherit_def split: if_splits)
  ultimately show ?thesis by blast
qed

theorem stage_a_order_independent_witness:
  "stage_a_inherit 11 [demo_match, demo_match\<lparr>hm_label_ts := Some 5\<rparr>] [''500''] {''Cart.total''} 9 =
   stage_a_inherit 11 [demo_match\<lparr>hm_label_ts := Some 5\<rparr>, demo_match] [''500''] {''Cart.total''} 9"
proof -
  have "inj_on label_ts_key (set [demo_match, demo_match\<lparr>hm_label_ts := Some 5\<rparr>])"
    by (simp add: label_ts_key_def demo_match_def)
  moreover have "mset [demo_match, demo_match\<lparr>hm_label_ts := Some 5\<rparr>] =
      mset [demo_match\<lparr>hm_label_ts := Some 5\<rparr>, demo_match]" by simp
  ultimately show ?thesis using stage_a_order_independent by blast
qed

section \<open>The calibrated distribution\<close>

lemma py_max_snd_map_of:
  assumes "distinct (map fst ps)" and "py_max snd ps = Some (a, m)"
  shows "map_of ps a = Some m"
  using assms py_max_in by (metis map_of_eq_Some_iff)

lemma sum_list_scaled_except:
  fixes k :: real
  assumes "distinct (map fst ps)" and "(a, m) \<in> set ps"
  shows "sum_list (map (\<lambda>(g, p). if g = a then c else p * k) ps)
    = c + k * (sum_list (map snd ps) - m)"
  using assms
proof (induction ps)
  case Nil
  then show ?case by simp
next
  case (Cons q ps)
  obtain g p where q: "q = (g, p)" by (cases q)
  show ?case
  proof (cases "g = a")
    case True
    have "p = m"
    proof (rule ccontr)
      assume "p \<noteq> m"
      with Cons.prems(2) q True have "(a, m) \<in> set ps" by simp
      then have "a \<in> fst ` set ps" by force
      with Cons.prems(1) q True show False by simp
    qed
    have "a \<notin> set (map fst ps)" using Cons.prems(1) q True by simp
    then have eq: "map (\<lambda>(g, p). if g = a then c else p * k) ps = map (\<lambda>(g, p). p * k) ps"
      by (intro map_cong refl) (auto simp: image_iff)
    have scale: "sum_list (map (\<lambda>(g, p). p * k) ps) = k * sum_list (map snd ps)"
      by (induction ps) (auto simp: algebra_simps)
    show ?thesis
      unfolding q list.map sum_list.Cons eq scale using True \<open>p = m\<close> by simp
  next
    case False
    with Cons.prems q have "(a, m) \<in> set ps" "distinct (map fst ps)" by auto
    with Cons.IH q False show ?thesis by (simp add: algebra_simps)
  qed
qed

lemma member_sum_le:
  fixes ps :: "(string \<times> real) list"
  assumes "distinct (map fst ps)" and "\<forall>(g, p) \<in> set ps. 0 \<le> p"
    and "(a, m) \<in> set ps" and "(b, p) \<in> set ps" and "a \<noteq> b"
  shows "m + p \<le> sum_list (map snd ps)"
  using assms
proof (induction ps)
  case Nil
  then show ?case by simp
next
  case (Cons q ps)
  have nn: "0 \<le> sum_list (map snd ps)" using Cons.prems(2)
    by (intro sum_list_nonneg) auto
  have mem: "x \<le> sum_list (map snd ps)" if "(c, x) \<in> set ps" for c x
    using that Cons.prems(2) member_le_sum_list [of x "map snd ps"] by force
  consider "q = (a, m)" | "q = (b, p)" | "(a, m) \<in> set ps" "(b, p) \<in> set ps"
    using Cons.prems(3,4) by auto
  then show ?case
  proof cases
    case 1
    with Cons.prems(4,5) mem show ?thesis by auto
  next
    case 2
    with Cons.prems(3,5) mem [of a m] show ?thesis by auto
  next
    case 3
    with Cons.IH Cons.prems have "m + p \<le> sum_list (map snd ps)" by auto
    moreover have "0 \<le> snd q" using Cons.prems(2) by auto
    ultimately show ?thesis by simp
  qed
qed

lemma calibrated_label_prob_val:
  assumes cal: "dr_calibrated_max_prob d = Some c" "0 \<le> c" "c \<le> 1"
    and dist: "distinct (map fst (dr_probs d))" and nn: "\<forall>(g, p) \<in> set (dr_probs d). 0 \<le> p"
    and total: "sum_list (map snd (dr_probs d)) = 1"
    and top: "py_max snd (dr_probs d) = Some (a, m)" and mem: "(g, p) \<in> set (dr_probs d)"
  shows "calibrated_label_prob d g =
    Some (if g = a then c else p * (if m < 1 then (1 - c) / (1 - m) else 0))"
    and "0 < m" and "m \<le> 1"
proof -
  have am: "(a, m) \<in> set (dr_probs d)" using top by (rule py_max_in)
  have le1: "x \<le> 1" if "(h, x) \<in> set (dr_probs d)" for h x
    using that nn total member_le_sum_list [of x "map snd (dr_probs d)"] by force
  show m1: "m \<le> 1" using am by (rule le1)
  show m0: "0 < m"
  proof (rule ccontr)
    assume "\<not> 0 < m"
    then have "\<forall>q \<in> set (dr_probs d). snd q \<le> 0" using py_max_ge [OF top] by force
    then have "sum_list (map snd (dr_probs d)) \<le> 0" by (intro sum_list_nonpos) auto
    with total show False by simp
  qed
  have lk: "map_of (dr_probs d) g = Some p" using dist mem by simp
  have rest: "clamp01 (p * (1 - c) / (1 - m)) = p * ((1 - c) / (1 - m))" if "g \<noteq> a" "m < 1"
  proof -
    have "m + p \<le> 1" using member_sum_le [OF dist nn am mem] that(1) total by auto
    moreover have p0: "0 \<le> p" using nn mem by auto
    ultimately have "p * (1 - c) \<le> (1 - m) * 1"
      using cal(2,3) by (intro mult_mono) auto
    with that(2) have "p * (1 - c) / (1 - m) \<le> 1" by (simp add: divide_le_eq)
    moreover have "0 \<le> p * (1 - c) / (1 - m)" using p0 cal(3) that(2) by simp
    ultimately show ?thesis using clamp01_id by simp
  qed
  show "calibrated_label_prob d g =
      Some (if g = a then c else p * (if m < 1 then (1 - c) / (1 - m) else 0))"
    using cal m0 m1 lk top rest by (simp add: calibrated_label_prob_def Let_def clamp01_id)
qed

text \<open>
  The calibrated per-group probabilities form a distribution that agrees with the decision:
  for a raw distribution over the groups, the argmax group gets exactly the calibrated value the
  decision reports, every group gets a value in [0, 1], and the values sum to 1 - unless the raw
  argmax already had probability 1, where the leftover mass has no group to go to and the values
  sum to the calibrated value alone.
\<close>

theorem calibrated_label_prob_distribution:
  assumes "dr_calibrated_max_prob d = Some c" "0 \<le> c" "c \<le> 1"
    and "distinct (map fst (dr_probs d))" and "\<forall>(g, p) \<in> set (dr_probs d). 0 \<le> p"
    and "sum_list (map snd (dr_probs d)) = 1"
    and "py_max snd (dr_probs d) = Some (a, m)"
  shows "calibrated_label_prob d a = Some c
    \<and> (\<forall>g \<in> fst ` set (dr_probs d). \<exists>v. calibrated_label_prob d g = Some v \<and> 0 \<le> v \<and> v \<le> 1)
    \<and> sum_list (map (\<lambda>g. the (calibrated_label_prob d g)) (map fst (dr_probs d)))
        = (if m < 1 then 1 else c)"
proof -
  note val = calibrated_label_prob_val [OF assms]
  have am: "(a, m) \<in> set (dr_probs d)" using assms(7) by (rule py_max_in)
  let ?k = "if m < 1 then (1 - c) / (1 - m) else 0"
  have eq: "map (\<lambda>g. the (calibrated_label_prob d g)) (map fst (dr_probs d))
      = map (\<lambda>(g, p). if g = a then c else p * ?k) (dr_probs d)"
    using val(1) by (auto simp: comp_def)
  have "sum_list (map (\<lambda>g. the (calibrated_label_prob d g)) (map fst (dr_probs d)))
      = c + ?k * (1 - m)"
    unfolding eq by (simp only: sum_list_scaled_except [OF assms(4) am] assms(6))
  also have "\<dots> = (if m < 1 then 1 else c)" by simp
  finally have total: "sum_list (map (\<lambda>g. the (calibrated_label_prob d g)) (map fst (dr_probs d)))
      = (if m < 1 then 1 else c)" .
  have range: "\<exists>v. calibrated_label_prob d g = Some v \<and> 0 \<le> v \<and> v \<le> 1"
    if "g \<in> fst ` set (dr_probs d)" for g
  proof -
    from that obtain p where "(g, p) \<in> set (dr_probs d)" by force
    then have "calibrated_label_prob d g \<noteq> None" using val(1) by simp
    then show ?thesis
      using assms(1-3) by (auto simp: calibrated_label_prob_def Let_def
          split: option.splits if_splits prod.splits)
  qed
  show ?thesis using total range val(1) [OF am] by simp
qed

definition demo_result :: decision_result where
  "demo_result =
     (mk_result (\<lambda>_. None) [] TAU_AUTO (result_args ''pb'' ''pb001'' (8 / 10) METHOD_GBM))
       \<lparr>dr_probs := [(''pb'', 6 / 10), (''ab'', 3 / 10), (''si'', 1 / 10), (''nd'', 0)],
        dr_calibrated_max_prob := Some (8 / 10)\<rparr>"

theorem calibrated_label_prob_distribution_witness:
  "calibrated_label_prob demo_result ''pb'' = Some (8 / 10)
   \<and> sum_list (map (\<lambda>g. the (calibrated_label_prob demo_result g)) [''pb'', ''ab'', ''si'', ''nd'']) = 1"
proof -
  have probs: "dr_probs demo_result = [(''pb'', 6 / 10), (''ab'', 3 / 10), (''si'', 1 / 10), (''nd'', 0)]"
    by (simp add: demo_result_def)
  have cal: "dr_calibrated_max_prob demo_result = Some (8 / 10)" by (simp add: demo_result_def)
  have top: "py_max snd (dr_probs demo_result) = Some (''pb'', 6 / 10)"
    by (simp add: probs py_max_def)
  have h: "distinct (map fst (dr_probs demo_result))"
    "\<forall>(g, p) \<in> set (dr_probs demo_result). 0 \<le> p" "sum_list (map snd (dr_probs demo_result)) = 1"
    by (simp_all add: probs)
  have keys: "[''pb'', ''ab'', ''si'', ''nd''] = map fst (dr_probs demo_result)" by (simp add: probs)
  note r = calibrated_label_prob_distribution [OF cal _ _ h top]
  have "calibrated_label_prob demo_result ''pb'' = Some (8 / 10)"
    by (rule r [THEN conjunct1]) simp_all
  moreover have "sum_list (map (\<lambda>g. the (calibrated_label_prob demo_result g))
      (map fst (dr_probs demo_result))) = (if 6 / 10 < (1::real) then 1 else 8 / 10)"
    by (rule r [THEN conjunct2, THEN conjunct2]) simp_all
  ultimately show ?thesis unfolding keys by simp
qed

section \<open>Knowledge-base matching\<close>

lemma score_kb_mode_id: "c_mode_id c = Some i \<Longrightarrow> kb_mode_id (score_kb_candidate c) = i"
  by (simp add: score_kb_candidate_def Let_def)

text \<open>
  The best knowledge-base match is the highest-scoring mode, ties going to the smallest mode
  id; when the store returns each mode once, the answer does not depend on the order of its rows.
\<close>

theorem best_kb_match_deterministic:
  assumes "inj_on c_mode_id (set cs)" and "set cs = set cs'"
  shows "best_kb_match cs = best_kb_match cs'
    \<and> (\<forall>kb c. best_kb_match cs = Some (kb, c) \<longrightarrow>
         c \<in> set cs \<and> c_mode_id c = Some (kb_mode_id kb) \<and> kb = score_kb_candidate c
         \<and> (\<forall>c' \<in> set cs. c_mode_id c' \<noteq> None \<longrightarrow>
              kb_score_mode (score_kb_candidate c') < kb_score_mode kb
              \<or> kb_score_mode (score_kb_candidate c') = kb_score_mode kb
                \<and> kb_mode_id kb \<le> kb_mode_id (score_kb_candidate c')))"
proof -
  let ?f = "\<lambda>c. (score_kb_candidate c, c)"
  let ?L = "\<lambda>cs. map ?f (filter (\<lambda>c. c_mode_id c \<noteq> None) cs)"
  have inj: "inj_on kb_key (set (?L cs))"
  proof (rule inj_onI)
    fix x y
    assume xy: "x \<in> set (?L cs)" "y \<in> set (?L cs)" "kb_key x = kb_key y"
    then obtain c d where cd: "x = ?f c" "y = ?f d" "c \<in> set cs" "d \<in> set cs"
      "c_mode_id c \<noteq> None" "c_mode_id d \<noteq> None" by auto
    then have "c_mode_id c = c_mode_id d"
      using xy(3) by (auto simp: kb_key_def score_kb_mode_id)
    with assms(1) cd have "c = d" by (meson inj_onD)
    with cd show "x = y" by simp
  qed
  have "set (?L cs) = set (?L cs')" using assms(2) by simp
  then have eq: "best_kb_match cs = best_kb_match cs'"
    unfolding best_kb_match_def by (rule py_max_set_eq [OF _ inj])
  have best: "c \<in> set cs \<and> c_mode_id c = Some (kb_mode_id kb) \<and> kb = score_kb_candidate c
         \<and> (\<forall>c' \<in> set cs. c_mode_id c' \<noteq> None \<longrightarrow>
              kb_score_mode (score_kb_candidate c') < kb_score_mode kb
              \<or> kb_score_mode (score_kb_candidate c') = kb_score_mode kb
                \<and> kb_mode_id kb \<le> kb_mode_id (score_kb_candidate c'))"
    if h: "best_kb_match cs = Some (kb, c)" for kb c
  proof -
    have "(kb, c) \<in> set (?L cs)"
      using h unfolding best_kb_match_def by (rule py_max_in)
    then have c: "c \<in> set cs" "c_mode_id c \<noteq> None" "kb = score_kb_candidate c" by auto
    have "kb_key (?f c') \<le> kb_key (kb, c)" if "c' \<in> set cs" "c_mode_id c' \<noteq> None" for c'
      using h that unfolding best_kb_match_def by (intro py_max_ge) auto
    with c show ?thesis by (fastforce simp: kb_key_def less_eq_prod_def score_kb_mode_id)
  qed
  show ?thesis using eq best by blast
qed

definition demo_mode :: "int \<Rightarrow> real \<Rightarrow> candidate" where
  "demo_mode i sim =
     (candidate_default None (Some i))\<lparr>c_cosine := Some sim, c_issue_type := Some ''pb001'',
        c_mode_status := Some ''confirmed'', c_mode_purity := Some 1, c_mode_support := Some 20,
        c_same_exception_fp := True, c_jaccard_templates := 1\<rparr>"

theorem best_kb_match_deterministic_witness:
  "best_kb_match [demo_mode 2 1, demo_mode 1 1] = best_kb_match [demo_mode 1 1, demo_mode 2 1]"
proof -
  have "inj_on c_mode_id (set [demo_mode 2 1, demo_mode 1 1])"
    by (simp add: demo_mode_def candidate_default_def)
  moreover have "set [demo_mode 2 1, demo_mode 1 1] = set [demo_mode 1 1, demo_mode 2 1]" by auto
  ultimately show ?thesis using best_kb_match_deterministic by blast
qed

section \<open>The decision: what each action rests on\<close>

lemma decide_paths:
  assumes "decide inputs now tau = r"
  obtains (hash) m where
      "stage_a_inherit (di_exception_fp inputs) (di_hash_matches inputs)
         (di_query_status_codes inputs) (di_query_msg_tokens inputs) now = Some m"
      "r = mk_result (decision_features inputs) (di_stage_c inputs) tau
             ((result_args (base_or_empty (Some (hm_issue_type m))) (hm_issue_type m)
                 STAGE_A_CONFIDENCE METHOD_HASH)
               \<lparr>ra_short_circuit := True, ra_relevant_item_id := Some (hm_item_id m),
                ra_relevant_label_source := hm_label_source m,
                ra_relevant_is_auto_analyzed := hm_is_auto_analyzed m\<rparr>)"
    | (kb) kb c where
      "best_kb_match (di_kb_candidates inputs) = Some (kb, c)" "kb_short_circuit kb"
      "r = mk_result (decision_features inputs) (di_stage_c inputs) tau
             ((result_args (base_or_empty (c_issue_type c))
                 (case nonempty_str (c_issue_type c) of
                    Some l \<Rightarrow> l | None \<Rightarrow> base_or_empty (c_issue_type c))
                 (min KB_CONFIDENCE_CAP (kb_purity kb * kb_score_mode kb)) METHOD_KB)
               \<lparr>ra_short_circuit := True, ra_matched_mode_id := Some (kb_mode_id kb)\<rparr>)"
    | (gbm) f g where
      "di_gbm_predict inputs = Some f" "f (decision_features inputs) = Some g"
      "r = gbm_result g (di_stage_c inputs)
             (mk_result (decision_features inputs) (di_stage_c inputs) tau)
             (decision_features inputs) (di_query_msg_tokens inputs) tau"
    | (cold) "r = cold_result inputs (mk_result (decision_features inputs) (di_stage_c inputs) tau)"
proof -
  note r = assms [unfolded decide_def Let_def, symmetric]
  let ?sa = "stage_a_inherit (di_exception_fp inputs) (di_hash_matches inputs)
         (di_query_status_codes inputs) (di_query_msg_tokens inputs) now"
  let ?kb = "if map_option (kb_short_circuit \<circ> fst) (best_kb_match (di_kb_candidates inputs)) = Some True
             then best_kb_match (di_kb_candidates inputs) else None"
  let ?g = "Option.bind (di_gbm_predict inputs) (\<lambda>f. f (decision_features inputs))"
  show thesis
  proof (cases ?sa)
    case (Some m)
    show thesis using r unfolding Some option.case by (rule hash [OF Some])
  next
    case sa: None
    show thesis
    proof (cases ?kb)
      case (Some p)
      obtain kb c where p: "p = (kb, c)" by (cases p)
      have k: "best_kb_match (di_kb_candidates inputs) = Some (kb, c)" "kb_short_circuit kb"
        using Some p by (auto split: if_splits)
      show thesis using r unfolding sa Some p option.case prod.case by (rule that(2) [OF k])
    next
      case kb: None
      show thesis
      proof (cases ?g)
        case (Some g)
        then obtain f where "di_gbm_predict inputs = Some f" "f (decision_features inputs) = Some g"
          by (auto simp: bind_eq_Some_conv)
        then show thesis using r unfolding sa kb Some option.case by (rule that(3))
      next
        case None
        show thesis using r unfolding sa kb None option.case by (rule that(4))
      qed
    qed
  qed
qed

lemma mk_result_simps [simp]:
  "dr_label (mk_result f s t a) = ra_label a"
  "dr_issue_type (mk_result f s t a) = ra_issue_type a"
  "dr_confidence (mk_result f s t a) = ra_confidence a"
  "dr_method (mk_result f s t a) = ra_method a"
  "dr_action (mk_result f s t a) = (if ra_label a = ''ti'' then ACTION_ABSTAIN
     else band_action (ra_confidence a) (ra_short_circuit a) t)"
  "dr_features (mk_result f s t a) = f"
  "dr_feature_schema_ver (mk_result f s t a) = FEATURE_SCHEMA_VER"
  "dr_stage_c (mk_result f s t a) = s"
  "dr_relevant_item_id (mk_result f s t a) = ra_relevant_item_id a"
  "dr_matched_mode_id (mk_result f s t a) = ra_matched_mode_id a"
  "dr_model_version (mk_result f s t a) = ra_model_version a"
  "dr_calibrated_max_prob (mk_result f s t a) = ra_calibrated_max_prob a"
  "dr_relevant_label_source (mk_result f s t a) = ra_relevant_label_source a"
  by (simp_all add: mk_result_def Let_def)

lemma mk_result_abstain_reason:
  "dr_abstain_reason (mk_result f s t a) =
     (if dr_action (mk_result f s t a) = ACTION_ABSTAIN then ra_abstain_reason a else None)"
  by (simp add: mk_result_def Let_def)

lemma mk_result_probs:
  "dr_probs (mk_result f s t a) = (case ra_probs a of Some p \<Rightarrow> p
     | None \<Rightarrow> if ra_label a \<noteq> ''ti'' then [(ra_label a, ra_confidence a)] else [])"
  by (simp add: mk_result_def Let_def split: option.split)

lemma result_args_simps [simp]:
  "ra_label (result_args l i c m) = l" "ra_issue_type (result_args l i c m) = i"
  "ra_confidence (result_args l i c m) = c" "ra_method (result_args l i c m) = m"
  "ra_short_circuit (result_args l i c m) = False"
  "ra_abstain_reason (result_args l i c m) = None" "ra_probs (result_args l i c m) = None"
  by (simp_all add: result_args_def)

lemma band_action_short [simp]: "band_action c True t = ACTION_AUTO"
  by (simp add: band_action_def)

text \<open>The outcome of the GBM path, one line per exit of \<open>_gbm_result\<close>.\<close>

lemma gbm_result_paths:
  assumes "gbm_result g stage_c (mk_result feats sc tau) features qtokens tau = r"
  obtains (floor_hit) fl where
      "human_confirmed_hash_floor stage_c features qtokens = Some fl"
      "gd_label g \<notin> set BASE_LABELS \<or> clamp01 (gd_max_prob g) < TAU_SUGGEST"
      "dr_label r = base_or_empty (c_issue_type fl)" "dr_confidence r = TAU_SUGGEST"
      "dr_action r = (if dr_label r = ''ti'' then ACTION_ABSTAIN else band_action TAU_SUGGEST False tau)"
      "dr_relevant_item_id r = c_item_id fl"
    | (below) "dr_label r = ''ti''" "dr_action r = ACTION_ABSTAIN"
      "human_confirmed_hash_floor stage_c features qtokens = None"
      "gd_label g \<notin> set BASE_LABELS \<or> clamp01 (gd_max_prob g) < TAU_SUGGEST"
      "dr_confidence r = clamp01 (gd_max_prob g)"
      "dr_abstain_reason r = Some ''gbm_below_suggest''"
    | (boilerplate) "dr_label r = ''ti''" "dr_action r = ACTION_ABSTAIN"
      "gd_label g \<in> set BASE_LABELS"
      "TAU_SUGGEST \<le> clamp01 (gd_max_prob g)" "clamp01 (gd_max_prob g) < tau"
      "stage_c \<noteq> []" "boilerplate_only_top1 (hd stage_c) qtokens"
      "dr_confidence r = clamp01 (gd_max_prob g)"
      "dr_abstain_reason r = Some ''gbm_boilerplate_only_neighbor''"
    | (decided) "gd_label g \<in> set BASE_LABELS" "dr_label r = gd_label g"
      "TAU_SUGGEST \<le> clamp01 (gd_max_prob g)" "dr_confidence r = clamp01 (gd_max_prob g)"
      "dr_action r = (if tau \<le> clamp01 (gd_max_prob g) then ACTION_AUTO else ACTION_SUGGEST)"
      "dr_abstain_reason r = None"
      "tau \<le> clamp01 (gd_max_prob g) \<or> stage_c = [] \<or> \<not> boilerplate_only_top1 (hd stage_c) qtokens"
      "dr_relevant_item_id r = Option.bind (pick_relevant stage_c (gd_label g)) c_item_id"
proof -
  note r = assms [unfolded gbm_result_def Let_def, symmetric]
  let ?p = "clamp01 (gd_max_prob g)"
  have ti: "''ti'' \<notin> set BASE_LABELS" by (simp add: BASE_LABELS_def)
  consider (low) "gd_label g \<notin> set BASE_LABELS \<or> ?p < TAU_SUGGEST"
    | (mid) "gd_label g \<in> set BASE_LABELS" "\<not> ?p < TAU_SUGGEST"
        "?p < tau \<and> stage_c \<noteq> [] \<and> boilerplate_only_top1 (hd stage_c) qtokens"
    | (top) "gd_label g \<in> set BASE_LABELS" "\<not> ?p < TAU_SUGGEST"
        "\<not> (?p < tau \<and> stage_c \<noteq> [] \<and> boilerplate_only_top1 (hd stage_c) qtokens)"
    by blast
  then show thesis
  proof cases
    case low
    then have c: "(if gd_label g \<in> set BASE_LABELS then gd_label g else ''ti'') = ''ti''
        \<or> ?p < TAU_SUGGEST" by simp
    show thesis
    proof (cases "human_confirmed_hash_floor stage_c features qtokens")
      case (Some fl)
      show thesis
        by (rule that(1) [OF Some low]) (unfold r if_P [OF c] Some option.case, simp_all)
    next
      case None
      show thesis
        by (rule that(2) [OF _ _ None low])
          (unfold r if_P [OF c] None option.case, simp_all add: mk_result_abstain_reason)
    qed
  next
    case mid
    have c: "\<not> ((if gd_label g \<in> set BASE_LABELS then gd_label g else ''ti'') = ''ti''
        \<or> ?p < TAU_SUGGEST)" using mid(1,2) ti by auto
    show thesis
      by (rule that(3)) (unfold r if_not_P [OF c] if_P [OF mid(3)],
          insert mid, simp_all add: mk_result_abstain_reason)
  next
    case top
    have c: "\<not> ((if gd_label g \<in> set BASE_LABELS then gd_label g else ''ti'') = ''ti''
        \<or> ?p < TAU_SUGGEST)" using top(1,2) ti by auto
    have nti: "gd_label g \<noteq> ''ti''" using top(1) ti by metis
    show thesis
      by (rule that(4)) (unfold r if_not_P [OF c] if_not_P [OF top(3)],
          insert top nti, auto simp: mk_result_abstain_reason band_action_def)
  qed
qed

lemma floor_label_base:
  "human_confirmed_hash_floor sc fs qt = Some fl \<Longrightarrow> base_or_empty (c_issue_type fl) \<in> set BASE_LABELS"
  by (auto simp: human_confirmed_hash_floor_def split: list.splits if_splits)

text \<open>
  C1. Nothing is applied automatically without its evidence. When \<open>decide\<close> answers AUTO (with an
  auto threshold above the suggest band), the label is not ti, no abstain reason is attached, and
  the decision rests on exactly one of: an inherited exact-hash match with a GBM-class label; a
  confirmed, pure, supported and high-scoring knowledge-base mode; a GBM prediction of a GBM class
  whose probability reaches the threshold; or a seed rule whose confidence reaches it.
\<close>

theorem decide_auto_evidence:
  assumes "dr_action (decide inputs now tau) = ACTION_AUTO" and "TAU_SUGGEST < tau"
  shows "let r = decide inputs now tau in
    dr_label r \<noteq> ''ti'' \<and> dr_abstain_reason r = None \<and>
    (case dr_method r of
       METHOD_HASH \<Rightarrow> \<exists>m \<in> set (di_hash_matches inputs).
         dr_label r = base_or_empty (Some (hm_issue_type m)) \<and> dr_label r \<in> set BASE_LABELS
         \<and> dr_relevant_item_id r = Some (hm_item_id m)
     | METHOD_KB \<Rightarrow> \<exists>c \<in> set (di_kb_candidates inputs).
         kb_short_circuit (score_kb_candidate c) \<and> dr_label r = base_or_empty (c_issue_type c)
     | METHOD_GBM \<Rightarrow> dr_label r \<in> set BASE_LABELS \<and> tau \<le> dr_confidence r
     | METHOD_RULE_COLD \<Rightarrow> (\<exists>s. di_seed inputs = Some s \<and> tau \<le> seed_confidence s
         \<and> dr_confidence r = seed_confidence s))"
proof -
  define r where "r = decide inputs now tau"
  have auto: "dr_action r = ACTION_AUTO" using assms(1) by (simp add: r_def)
  have "dr_label r \<noteq> ''ti'' \<and> dr_abstain_reason r = None \<and>
    (case dr_method r of
       METHOD_HASH \<Rightarrow> \<exists>m \<in> set (di_hash_matches inputs).
         dr_label r = base_or_empty (Some (hm_issue_type m)) \<and> dr_label r \<in> set BASE_LABELS
         \<and> dr_relevant_item_id r = Some (hm_item_id m)
     | METHOD_KB \<Rightarrow> \<exists>c \<in> set (di_kb_candidates inputs).
         kb_short_circuit (score_kb_candidate c) \<and> dr_label r = base_or_empty (c_issue_type c)
     | METHOD_GBM \<Rightarrow> dr_label r \<in> set BASE_LABELS \<and> tau \<le> dr_confidence r
     | METHOD_RULE_COLD \<Rightarrow> (\<exists>s. di_seed inputs = Some s \<and> tau \<le> seed_confidence s
         \<and> dr_confidence r = seed_confidence s))"
    using r_def [symmetric]
  proof (cases rule: decide_paths)
    case (hash m)
    have "m \<in> set (di_hash_matches inputs)"
      using py_max_in [OF stage_a_inherit_SomeD(2) [OF hash(1)]] by (simp add: discriminant_filter_set)
    moreover note base = stage_a_inherit_SomeD(5) [OF hash(1)]
    ultimately show ?thesis using base_labels_not_ti [OF base] auto
      unfolding hash(2) by (auto simp: mk_result_abstain_reason)
  next
    case (kb kb c)
    have "(kb, c) \<in> set (map (\<lambda>c. (score_kb_candidate c, c))
        (filter (\<lambda>c. c_mode_id c \<noteq> None) (di_kb_candidates inputs)))"
      using kb(1) unfolding best_kb_match_def by (rule py_max_in)
    then have "c \<in> set (di_kb_candidates inputs)" "kb = score_kb_candidate c" by auto
    then show ?thesis using kb(2) auto unfolding kb(3)
      by (auto simp: mk_result_abstain_reason split: if_splits)
  next
    case (gbm f g)
    have m: "dr_method r = METHOD_GBM"
      unfolding gbm(3) gbm_result_def Let_def by (simp split: option.splits if_splits)
    from gbm(3) [symmetric] show ?thesis
    proof (cases rule: gbm_result_paths)
      case (floor_hit fl)
      then show ?thesis using auto assms(2) by (auto simp: band_action_def split: if_splits)
    next
      case decided
      then show ?thesis using auto m base_labels_not_ti by (auto split: if_splits)
    qed (use auto in simp_all)
  next
    case cold
    show ?thesis
    proof (cases "di_seed inputs")
      case None
      then show ?thesis using auto unfolding cold cold_result_def by simp
    next
      case (Some s)
      then show ?thesis using auto assms(2) unfolding cold cold_result_def
        by (auto simp: mk_result_abstain_reason band_action_def Let_def split: if_splits)
    qed
  qed
  then show ?thesis unfolding Let_def r_def .
qed

definition demo_inputs :: decision_inputs where
  "demo_inputs =
     \<lparr>di_exception_fp = 11, di_hash_matches = [], di_query_status_codes = [''500''],
      di_query_msg_tokens = {''Cart.total''}, di_kb_candidates = [], di_seed = None,
      di_stage_c = [], di_stage_c_ages_days = [], di_feature_ctx = None, di_gbm_predict = None\<rparr>"

definition demo_gbm :: "real \<Rightarrow> gbm_decision" where
  "demo_gbm p = \<lparr>gd_label = ''ab'', gd_max_prob = p, gd_probs = [''ab'' \<mapsto> p], gd_model_version = ''v3''\<rparr>"

definition demo_hash_inputs :: decision_inputs where
  "demo_hash_inputs = demo_inputs\<lparr>di_hash_matches := [demo_match]\<rparr>"

definition demo_gbm_inputs :: "real \<Rightarrow> decision_inputs" where
  "demo_gbm_inputs p = demo_inputs\<lparr>di_gbm_predict := Some (\<lambda>_. Some (demo_gbm p))\<rparr>"

lemma demo_gbm_decide:
  "decide (demo_gbm_inputs p) now tau =
     gbm_result (demo_gbm p) [] (mk_result (decision_features (demo_gbm_inputs p)) [] tau)
       (decision_features (demo_gbm_inputs p)) {''Cart.total''} tau"
  by (simp add: decide_def demo_gbm_inputs_def demo_inputs_def stage_a_inherit_def
      best_kb_match_def py_max_def Let_def)

lemma demo_gbm_auto: "dr_action (decide (demo_gbm_inputs (9 / 10)) now (3 / 4)) = ACTION_AUTO"
proof -
  define r where "r = decide (demo_gbm_inputs (9 / 10)) now (3 / 4)"
  have p: "clamp01 (gd_max_prob (demo_gbm (9 / 10))) = 9 / 10"
    by (simp add: demo_gbm_def clamp01_def)
  have l: "gd_label (demo_gbm (9 / 10)) \<in> set BASE_LABELS"
    by (simp add: demo_gbm_def BASE_LABELS_def)
  from demo_gbm_decide [symmetric, where p = "9 / 10" and now = now and tau = "3 / 4"] have "dr_action r = ACTION_AUTO"
    unfolding r_def
    by (cases rule: gbm_result_paths) (use l in \<open>simp_all add: p TAU_SUGGEST_def\<close>)
  then show ?thesis by (simp add: r_def)
qed

theorem decide_auto_evidence_witness:
  "dr_label (decide (demo_gbm_inputs (9 / 10)) 0 (3 / 4)) \<noteq> ''ti''
   \<and> dr_abstain_reason (decide (demo_gbm_inputs (9 / 10)) 0 (3 / 4)) = None"
proof -
  have "TAU_SUGGEST < 3 / 4" by (simp add: TAU_SUGGEST_def)
  from decide_auto_evidence [OF demo_gbm_auto this] show ?thesis by (simp add: Let_def)
qed

text \<open>
  The GBM bands. A GBM decision is AUTO exactly when its label is a GBM class and its clamped
  probability reaches the threshold; in the suggest band it is SUGGEST unless the top neighbour is
  boilerplate only; below the band it abstains unless the human-confirmed hash floor promotes it,
  and then it is SUGGEST at exactly the floor of the band, never AUTO. The reported distribution
  is the GBM's own, over the four classes, and the calibrated maximum is the clamped probability,
  also where the label was demoted.
\<close>

theorem gbm_result_bands:
  assumes "TAU_SUGGEST < tau"
    and "r = gbm_result g stage_c (mk_result feats sc tau) features qtokens tau"
  shows "(dr_action r = ACTION_AUTO \<longleftrightarrow>
            gd_label g \<in> set BASE_LABELS \<and> tau \<le> clamp01 (gd_max_prob g))
    \<and> (dr_action r = ACTION_SUGGEST \<longleftrightarrow>
         (gd_label g \<in> set BASE_LABELS \<and> TAU_SUGGEST \<le> clamp01 (gd_max_prob g)
          \<and> clamp01 (gd_max_prob g) < tau
          \<and> (stage_c = [] \<or> \<not> boilerplate_only_top1 (hd stage_c) qtokens))
         \<or> ((gd_label g \<notin> set BASE_LABELS \<or> clamp01 (gd_max_prob g) < TAU_SUGGEST)
            \<and> human_confirmed_hash_floor stage_c features qtokens \<noteq> None))
    \<and> (human_confirmed_hash_floor stage_c features qtokens \<noteq> None \<longrightarrow>
         gd_label g \<notin> set BASE_LABELS \<or> clamp01 (gd_max_prob g) < TAU_SUGGEST \<longrightarrow>
         dr_confidence r = TAU_SUGGEST \<and> dr_label r \<in> set BASE_LABELS)
    \<and> dr_probs r = gbm_probs g \<and> dr_calibrated_max_prob r = Some (clamp01 (gd_max_prob g))"
proof -
  have probs: "dr_probs r = gbm_probs g \<and> dr_calibrated_max_prob r = Some (clamp01 (gd_max_prob g))"
    unfolding assms(2) gbm_result_def Let_def
    by (simp add: mk_result_probs split: option.split)
  from assms(2) [symmetric] show ?thesis
  proof (cases rule: gbm_result_paths)
    case (floor_hit fl)
    have b: "dr_label r \<in> set BASE_LABELS" using floor_label_base floor_hit(1,3) by simp
    then have "dr_action r = ACTION_SUGGEST"
      using floor_hit(5) assms(1) base_labels_not_ti by (auto simp: band_action_def)
    then show ?thesis using floor_hit probs b assms(1) by auto
  qed (use probs assms(1) in auto)
qed

theorem gbm_result_bands_witness:
  "dr_action (decide (demo_gbm_inputs (9 / 10)) 0 (3 / 4)) = ACTION_AUTO
   \<and> dr_probs (decide (demo_gbm_inputs (9 / 10)) 0 (3 / 4)) = gbm_probs (demo_gbm (9 / 10))"
proof -
  have "TAU_SUGGEST < 3 / 4" by (simp add: TAU_SUGGEST_def)
  from gbm_result_bands [OF this demo_gbm_decide] demo_gbm_auto show ?thesis by blast
qed

text \<open>
  The stages are tried in the documented order and every decision carries the same snapshot:
  a Stage-A hit decides with 0.95 whatever the knowledge base and the model say; a strong
  knowledge-base mode decides before the model, at a confidence of at most 0.93; a model decides
  only when neither fired; and on every path the result carries the features extracted from the
  inputs, which is what training reads.
\<close>

theorem decide_precedence:
  "let r = decide inputs now tau;
       sa = stage_a_inherit (di_exception_fp inputs) (di_hash_matches inputs)
              (di_query_status_codes inputs) (di_query_msg_tokens inputs) now;
       kb = map_option fst (best_kb_match (di_kb_candidates inputs));
       strong = (kb \<noteq> None \<and> kb_short_circuit (the kb));
       gbm = Option.bind (di_gbm_predict inputs) (\<lambda>f. f (decision_features inputs))
   in dr_features r = decision_features inputs \<and> dr_feature_schema_ver r = FEATURE_SCHEMA_VER
      \<and> dr_stage_c r = di_stage_c inputs
      \<and> dr_method r = (if sa \<noteq> None then METHOD_HASH else if strong then METHOD_KB
                       else if gbm \<noteq> None then METHOD_GBM else METHOD_RULE_COLD)
      \<and> (sa \<noteq> None \<longrightarrow> dr_confidence r = 95 / 100 \<and> dr_action r = ACTION_AUTO)
      \<and> (sa = None \<and> strong \<longrightarrow> dr_confidence r \<le> 93 / 100
           \<and> dr_matched_mode_id r = map_option kb_mode_id kb)"
proof -
  have g: "dr_features (gbm_result x c (mk_result f s t) fs q t) = f
      \<and> dr_feature_schema_ver (gbm_result x c (mk_result f s t) fs q t) = FEATURE_SCHEMA_VER
      \<and> dr_stage_c (gbm_result x c (mk_result f s t) fs q t) = s
      \<and> dr_method (gbm_result x c (mk_result f s t) fs q t) = METHOD_GBM" for x c f s t fs q
    unfolding gbm_result_def Let_def by (simp split: option.split)
  have k: "dr_features (cold_result i (mk_result f s t)) = f
      \<and> dr_feature_schema_ver (cold_result i (mk_result f s t)) = FEATURE_SCHEMA_VER
      \<and> dr_stage_c (cold_result i (mk_result f s t)) = s
      \<and> dr_method (cold_result i (mk_result f s t)) = METHOD_RULE_COLD" for i f s t
    unfolding cold_result_def by (simp add: Let_def split: option.split)
  have sa_label: "base_or_empty (Some (hm_issue_type m)) \<noteq> ''ti''"
    if "stage_a_inherit (di_exception_fp inputs) (di_hash_matches inputs)
          (di_query_status_codes inputs) (di_query_msg_tokens inputs) now = Some m" for m
    using stage_a_inherit_SomeD(5) [OF that] base_labels_not_ti by blast
  show ?thesis
    unfolding Let_def decide_def
    by (auto simp: g k sa_label STAGE_A_CONFIDENCE_def KB_CONFIDENCE_CAP_def
        split: option.split)
qed

lemma demo_hash_stage_a:
  "stage_a_inherit (di_exception_fp demo_hash_inputs) (di_hash_matches demo_hash_inputs)
     (di_query_status_codes demo_hash_inputs) (di_query_msg_tokens demo_hash_inputs) 86400
   = Some demo_match"
proof -
  have f: "di_exception_fp demo_hash_inputs = 11" "di_hash_matches demo_hash_inputs = [demo_match]"
    "di_query_status_codes demo_hash_inputs = [''500'']"
    "di_query_msg_tokens demo_hash_inputs = {''Cart.total''}"
    by (simp_all add: demo_hash_inputs_def demo_inputs_def)
  show ?thesis unfolding f by (rule demo_match_inherits)
qed

theorem decide_precedence_witness:
  "dr_method (decide demo_hash_inputs 86400 (3 / 4)) = METHOD_HASH
   \<and> dr_confidence (decide demo_hash_inputs 86400 (3 / 4)) = 95 / 100"
proof -
  note p = decide_precedence [of demo_hash_inputs 86400 "3 / 4", unfolded Let_def demo_hash_stage_a]
  show ?thesis using p by simp
qed

section \<open>The knowledge-base path has no guard on the label\<close>

text \<open>
  Stage A and the GBM path refuse a label that is not a GBM class, the knowledge-base short
  circuit does not: whatever the label of the best mode (none, or one that maps to no group such
  as ti001), a strong mode is answered AUTO with the empty label.
\<close>

theorem kb_short_circuit_unlabelled_auto:
  assumes "stage_a_inherit (di_exception_fp inputs) (di_hash_matches inputs)
             (di_query_status_codes inputs) (di_query_msg_tokens inputs) now = None"
    and "best_kb_match (di_kb_candidates inputs) = Some (kb, c)" and "kb_short_circuit kb"
    and "base_group (c_issue_type c) = None"
  shows "dr_action (decide inputs now tau) = ACTION_AUTO \<and> dr_label (decide inputs now tau) = []
    \<and> dr_issue_type (decide inputs now tau) =
        (case c_issue_type c of None \<Rightarrow> [] | Some l \<Rightarrow> l)"
proof -
  have e: "base_or_empty (c_issue_type c) = []" using assms(4) by (simp add: base_or_empty_def)
  have l: "(case nonempty_str (c_issue_type c) of Some l \<Rightarrow> l | None \<Rightarrow> []) =
      (case c_issue_type c of None \<Rightarrow> [] | Some l \<Rightarrow> l)"
    by (simp add: nonempty_str_def split: option.split)
  show ?thesis
    unfolding decide_def Let_def assms(1,2)
    using assms(3) by (simp add: e l cong: option.case_cong)
qed

definition demo_ti_mode :: candidate where
  "demo_ti_mode = (demo_mode 4 1)\<lparr>c_issue_type := Some ''ti001''\<rparr>"

definition demo_kb_inputs :: decision_inputs where
  "demo_kb_inputs = demo_inputs\<lparr>di_kb_candidates := [demo_ti_mode]\<rparr>"

theorem kb_short_circuit_unlabelled_auto_witness:
  "dr_action (decide demo_kb_inputs 0 (3 / 4)) = ACTION_AUTO
   \<and> dr_issue_type (decide demo_kb_inputs 0 (3 / 4)) = ''ti001''"
proof -
  have t: "c_issue_type demo_ti_mode = Some ''ti001''" by (simp add: demo_ti_mode_def)
  have a: "stage_a_inherit (di_exception_fp demo_kb_inputs) (di_hash_matches demo_kb_inputs)
      (di_query_status_codes demo_kb_inputs) (di_query_msg_tokens demo_kb_inputs) 0 = None"
    by (simp add: stage_a_inherit_def demo_kb_inputs_def demo_inputs_def)
  have b: "best_kb_match (di_kb_candidates demo_kb_inputs)
      = Some (score_kb_candidate demo_ti_mode, demo_ti_mode)"
    by (simp add: best_kb_match_def demo_kb_inputs_def py_max_def demo_ti_mode_def demo_mode_def
        candidate_default_def)
  have c: "kb_short_circuit (score_kb_candidate demo_ti_mode)"
    by (simp add: kb_short_circuit_def score_kb_candidate_def demo_ti_mode_def demo_mode_def
        candidate_default_def Let_def cos_of_def flag_def decision_consts)
  have d: "base_group (c_issue_type demo_ti_mode) = None" unfolding t by code_simp
  from kb_short_circuit_unlabelled_auto [OF a b c d] show ?thesis by (simp add: t)
qed

end
