(* ===== verification/Signature.thy ===== *)
theory Signature
  imports Prelude "HOL-Library.Word"
begin

text \<open>
  From the logs of one item to its failure signature: the 64-bit hashes and their storage form
  (\<open>ml/hashing.py\<close>, the hash part of \<open>ml/drain.py\<close>), the log filter and the near-error context
  (\<open>preprocessing/pipeline.py\<close>) and the signature with its two identity hashes
  (\<open>ml/signature.py\<close>). The regular expressions of \<open>text_processing.py\<close>, the TF-IDF de-duplication,
  XXH3 and the Drain3 miner are arguments, collected in \<open>text_env\<close>.
\<close>

section \<open>Hashes in a signed column\<close>

definition UINT64_SPAN :: int where "UINT64_SPAN = 2 ^ 64"
definition INT64_MAX :: int where "INT64_MAX = 2 ^ 63 - 1"

definition to_signed64 :: "int \<Rightarrow> int" where
  "to_signed64 value =
     (let v = value mod UINT64_SPAN in if v > INT64_MAX then v - UINT64_SPAN else v)"

lemma fold_mod:
  fixes v h :: int
  assumes "0 < h"
  shows "(v + h) mod (2 * h) - h = (if v mod (2 * h) \<ge> h then v mod (2 * h) - 2 * h else v mod (2 * h))"
proof -
  let ?m = "v mod (2 * h)"
  have m: "0 \<le> ?m" "?m < 2 * h" using assms by simp_all
  have e: "(v + h) mod (2 * h) = (?m + h) mod (2 * h)" by (simp add: mod_simps)
  show ?thesis
  proof (cases "?m \<ge> h")
    case True
    have "(?m + h) mod (2 * h) = (?m + h - 2 * h) mod (2 * h)"
      using mod_add_self2 [of "?m + h - 2 * h" "2 * h"] by (simp add: add.commute)
    also have "\<dots> = ?m + h - 2 * h" using True m by (intro mod_pos_pos_trivial) simp_all
    finally show ?thesis unfolding e using True by simp
  next
    case False
    then have "(?m + h) mod (2 * h) = ?m + h" using m assms by (intro mod_pos_pos_trivial) simp_all
    then show ?thesis unfolding e using False by simp
  qed
qed

lemma to_signed64_sint: "to_signed64 v = sint (word_of_int v :: 64 word)"
proof -
  have "sint (word_of_int v :: 64 word) = signed_take_bit 63 v"
    by transfer (simp add: signed_take_bit_take_bit)
  moreover have "signed_take_bit 63 v = (v + 2 ^ 63) mod 2 ^ 64 - 2 ^ 63"
    by (simp add: signed_take_bit_eq_take_bit_shift take_bit_eq_mod)
  moreover have "(v + 2 ^ 63) mod 2 ^ 64 - 2 ^ 63 = to_signed64 v"
    using fold_mod [of "2 ^ 63" v] by (simp add: to_signed64_def UINT64_SPAN_def INT64_MAX_def Let_def)
  ultimately show ?thesis by simp
qed

text \<open>\<open>format(n, '016x')\<close> and \<open>int(s, 16)\<close> on such a string.\<close>

definition hex_digit :: "nat \<Rightarrow> char" where
  "hex_digit d = (if d < 10 then char_of (48 + d) else char_of (87 + d))"

fun hex_digits :: "nat \<Rightarrow> nat \<Rightarrow> string" where
  "hex_digits 0 n = []"
| "hex_digits (Suc k) n = hex_digits k (n div 16) @ [hex_digit (n mod 16)]"

definition hex16 :: "nat \<Rightarrow> string" where
  "hex16 n = hex_digits 16 n"

definition hex_value :: "char \<Rightarrow> nat" where
  "hex_value c = (let v = (of_char c :: nat) in if is_digit c then v - 48 else v - 87)"

definition parse_hex :: "string \<Rightarrow> nat" where
  "parse_hex s = foldl (\<lambda>acc c. acc * 16 + hex_value c) 0 s"

definition template_id :: "string \<Rightarrow> int" where
  "template_id hash_hex = to_signed64 (int (parse_hex hash_hex))"

text \<open>\<open>xxh\<close> is XXH3-64 of the UTF-8 bytes of a text.\<close>

definition xxh3_64_signed :: "(string \<Rightarrow> 64 word) \<Rightarrow> string \<Rightarrow> int" where
  "xxh3_64_signed xxh s = to_signed64 (uint (xxh s))"

definition template_hash_hex :: "(string \<Rightarrow> 64 word) \<Rightarrow> string \<Rightarrow> string" where
  "template_hash_hex xxh template = hex16 (unat (xxh template))"

lemma hex_value_digit: "d < 16 \<Longrightarrow> hex_value (hex_digit d) = d"
  by (auto simp: hex_value_def hex_digit_def is_digit_def Let_def of_char_of)

lemma parse_hex_digits:
  "foldl (\<lambda>acc c. acc * 16 + hex_value c) a (hex_digits k n) = a * 16 ^ k + n mod 16 ^ k"
proof (induction k arbitrary: n)
  case 0
  then show ?case by simp
next
  case (Suc k)
  have "n mod 16 ^ Suc k = n mod 16 + 16 * (n div 16 mod 16 ^ k)"
    by (simp add: mod_mult2_eq)
  then show ?case
    unfolding hex_digits.simps foldl_append Suc.IH by (simp add: hex_value_digit algebra_simps)
qed

lemma parse_hex16: "n < 2 ^ 64 \<Longrightarrow> parse_hex (hex16 n) = n"
  using parse_hex_digits [of 0 16 n] by (simp add: parse_hex_def hex16_def)

text \<open>
  Identities survive storage: folding an unsigned 64-bit hash into the signed column is the
  two's complement reading of the word, stays within the column's range and loses nothing; and the
  template id parsed from the hexadecimal hash of a signature is the signed hash under which the
  miner's mirror stores the same template.
\<close>

theorem hash_round_trip:
  "to_signed64 (uint (w :: 64 word)) = sint w
   \<and> - (2 ^ 63) \<le> to_signed64 v \<and> to_signed64 v \<le> INT64_MAX
   \<and> to_signed64 v mod UINT64_SPAN = v mod UINT64_SPAN
   \<and> template_id (template_hash_hex xxh template) = xxh3_64_signed xxh template"
proof (intro conjI)
  show "to_signed64 (uint w) = sint w" by (simp add: to_signed64_sint)
  have m: "0 \<le> v mod UINT64_SPAN" "v mod UINT64_SPAN < UINT64_SPAN"
    by (simp_all add: UINT64_SPAN_def)
  then show "- (2 ^ 63) \<le> to_signed64 v" "to_signed64 v \<le> INT64_MAX"
    by (auto simp: to_signed64_def Let_def UINT64_SPAN_def INT64_MAX_def)
  show "to_signed64 v mod UINT64_SPAN = v mod UINT64_SPAN"
    by (simp add: to_signed64_def Let_def)
  have "unat (xxh template) < 2 ^ 64" using unsigned_less [of "xxh template", where 'a = nat] by simp
  then show "template_id (template_hash_hex xxh template) = xxh3_64_signed xxh template"
    by (simp add: template_id_def template_hash_hex_def xxh3_64_signed_def parse_hex16)
qed

section \<open>Which logs count (preprocessing/pipeline.py)\<close>

definition ERROR_LOGGING_LEVEL :: int where "ERROR_LOGGING_LEVEL = 40000"
definition WARN_LOGGING_LEVEL :: int where "WARN_LOGGING_LEVEL = 30000"
definition CONTEXT_LOOKBACK_LINES :: nat where "CONTEXT_LOOKBACK_LINES = 5"
definition SIMILARITY_THRESHOLD_TO_DROP :: real where "SIMILARITY_THRESHOLD_TO_DROP = 95 / 100"
definition NUMBER_OF_LOGS_TO_INDEX :: int where "NUMBER_OF_LOGS_TO_INDEX = 20"
definition SMALL_LOG_MAX_CHARS :: nat where "SMALL_LOG_MAX_CHARS = 100"

record log_input =
  li_message :: string
  li_log_level :: int

record cleaned_log =
  cl_unified :: string
  cl_msg :: string
  cl_stack_raw :: string
  cl_stack :: string
  cl_exceptions :: "string list"
  cl_status_codes :: "string list"
  cl_urls :: "string list"
  cl_paths :: "string list"
  cl_has_stacktrace :: bool

record processed_log =
  pl_msg :: string
  pl_stack_raw :: string
  pl_exceptions :: "string list"
  pl_status_codes :: "string list"
  pl_template_hashes :: "string list"
  pl_has_stacktrace :: bool

record signature_result =
  sr_signature_text :: string
  sr_exception_fp :: int
  sr_error_hash :: int
  sr_exc_classes :: "string list"
  sr_frames :: "string list"
  sr_template_hashes :: "string list"
  sr_status_codes :: "string list"
  sr_msg_text :: string
  sr_is_assertion :: bool
  sr_has_stacktrace :: bool
  sr_is_merged_small_logs :: bool

text \<open>The functions on text that are regular expressions or libraries. \<open>te_unique\<close> is
  \<open>find_last_unique_texts\<close> (\<open>None\<close> when it raises), \<open>te_mine\<close> one \<open>TemplateMiner.add_log_message\<close>.\<close>

record 'm text_env =
  te_unique :: "real \<Rightarrow> string list \<Rightarrow> nat list option"
  te_clean :: "string \<Rightarrow> cleaned_log"
  te_is_frame_line :: "string \<Rightarrow> bool"
  te_parse_frame :: "string \<Rightarrow> string option"
  te_normalize_class :: "string \<Rightarrow> string"
  te_has_chain_marker :: "string \<Rightarrow> bool"
  te_is_assertion :: "string \<Rightarrow> bool"
  te_mask_assertion :: "string \<Rightarrow> string"
  te_mask :: "string \<Rightarrow> string"
  te_item_name :: "string \<Rightarrow> string"
  te_status_codes :: "string \<Rightarrow> string list"
  te_xxh :: "string \<Rightarrow> 64 word"
  te_mine :: "'m \<Rightarrow> string \<Rightarrow> 'm \<times> string"

text \<open>\<open>xs[-n:]\<close>, which keeps the whole list when \<open>n\<close> is 0 and drops a prefix when it is negative.\<close>

definition last_n :: "int \<Rightarrow> 'a list \<Rightarrow> 'a list" where
  "last_n n xs =
     (if n \<le> 0 then drop (nat (- n)) xs else drop (length xs - nat n) xs)"

definition newline :: char where "newline = char_of (10 :: nat)"

definition has_text :: "string \<Rightarrow> bool" where
  "has_text s \<longleftrightarrow> strip s \<noteq> []"

definition is_error_log :: "log_input \<Rightarrow> bool" where
  "is_error_log l \<longleftrightarrow> li_log_level l \<ge> ERROR_LOGGING_LEVEL \<and> has_text (li_message l)"

definition filter_item_logs :: "'m text_env \<Rightarrow> int \<Rightarrow> log_input list \<Rightarrow> string list" where
  "filter_item_logs env max_logs logs =
     (let messages = map li_message (filter is_error_log logs);
          keep = (if length messages > 1
                  then (case te_unique env SIMILARITY_THRESHOLD_TO_DROP messages of
                          Some ks \<Rightarrow> map ((!) messages) ks
                        | None \<Rightarrow> messages)
                  else messages)
      in if messages = [] then [] else last_n max_logs keep)"

definition extract_context_lines :: "log_input list \<Rightarrow> string list" where
  "extract_context_lines logs =
     (if list_ex is_error_log logs
      then last_n (int CONTEXT_LOOKBACK_LINES)
             (map li_message (filter (\<lambda>l. WARN_LOGGING_LEVEL \<le> li_log_level l
                   \<and> li_log_level l < ERROR_LOGGING_LEVEL \<and> has_text (li_message l))
                (takeWhile (\<lambda>l. \<not> is_error_log l) logs)))
      else [])"

text \<open>\<open>DrainManager.add_message\<close>: the non-blank lines that are no stack frames, at most
  \<open>max_lines\<close> lines, are mined one by one.\<close>

definition minable_lines :: "'m text_env \<Rightarrow> nat \<Rightarrow> string \<Rightarrow> string list" where
  "minable_lines env max_lines message =
     filter (\<lambda>l. has_text l \<and> \<not> te_is_frame_line env l) (take max_lines (split_on newline message))"

fun mine_lines :: "'m text_env \<Rightarrow> 'm \<Rightarrow> string list \<Rightarrow> 'm \<times> string list" where
  "mine_lines env m [] = (m, [])"
| "mine_lines env m (l # ls) =
     (let (m1, template) = te_mine env m l;
          (m2, hashes) = mine_lines env m1 ls
      in (m2, template_hash_hex (te_xxh env) template # hashes))"

definition add_message :: "'m text_env \<Rightarrow> nat \<Rightarrow> 'm \<Rightarrow> string \<Rightarrow> 'm \<times> string list" where
  "add_message env max_lines m message = mine_lines env m (minable_lines env max_lines message)"

definition process_log :: "'m text_env \<Rightarrow> nat \<Rightarrow> 'm \<Rightarrow> string \<Rightarrow> 'm \<times> processed_log" where
  "process_log env max_lines m raw =
     (let c = te_clean env raw;
          (m', hashes) = add_message env max_lines m (cl_unified c)
      in (m', \<lparr>pl_msg = cl_msg c, pl_stack_raw = cl_stack_raw c, pl_exceptions = cl_exceptions c,
               pl_status_codes = cl_status_codes c, pl_template_hashes = hashes,
               pl_has_stacktrace = cl_has_stacktrace c\<rparr>))"

fun process_logs :: "'m text_env \<Rightarrow> nat \<Rightarrow> 'm \<Rightarrow> string list \<Rightarrow> 'm \<times> processed_log list" where
  "process_logs env n m [] = (m, [])"
| "process_logs env n m (r # rs) =
     (let (m1, p) = process_log env n m r; (m2, ps) = process_logs env n m1 rs in (m2, p # ps))"

definition maybe_merge_small_logs :: "'m text_env \<Rightarrow> string list \<Rightarrow> string list \<times> bool" where
  "maybe_merge_small_logs env ms =
     (if length ms < 2 then (ms, False)
      else if list_all (\<lambda>m. length m < SMALL_LOG_MAX_CHARS
                 \<and> \<not> list_ex (te_is_frame_line env) (split_on newline m)) ms
      then ([join_with [newline] ms], True)
      else (ms, False))"

section \<open>The signature (ml/signature.py)\<close>

definition MSG_FALLBACK :: string where "MSG_FALLBACK = ''<no message>''"
definition SIGNATURE_MAX_CHARS :: nat where "SIGNATURE_MAX_CHARS = 2000"
definition MSG_MAX_LINES :: nat where "MSG_MAX_LINES = 8"
definition MAX_TEMPLATES :: nat where "MAX_TEMPLATES = 30"
definition MAX_EXCEPTION_CLASSES :: nat where "MAX_EXCEPTION_CLASSES = 4"
definition TOP_FRAMES :: nat where "TOP_FRAMES = 3"
definition CONTEXT_MSG_MAX_LINES :: nat where "CONTEXT_MSG_MAX_LINES = 5"
definition CONTEXT_MARKER :: string where "CONTEXT_MARKER = ''ctx''"

definition FRAMEWORK_DENYLIST :: "string list" where
  "FRAMEWORK_DENYLIST = [''java.'', ''javax.'', ''jdk.'', ''org.springframework.'',
     ''org.apache.'', ''com.google.'', ''io.netty.'', ''okhttp3.'', ''requests.'', ''urllib3.'',
     ''selenium.'', ''org.openqa.'', ''node_modules'']"

definition FRAME_DROP_PREFIXES :: "string list" where
  "FRAME_DROP_PREFIXES = [''jdk.internal.'', ''sun.reflect.'', ''java.lang.reflect.'',
     ''org.junit.'', ''org.testng.'', ''pytest'', ''unittest'', ''reflect.'']"

text \<open>\<open>str(n)\<close> of an integer.\<close>

fun show_nat :: "nat \<Rightarrow> string" where
  "show_nat n = (if n < 10 then [char_of (48 + n)]
                 else show_nat (n div 10) @ [char_of (48 + n mod 10)])"

declare show_nat.simps [simp del]

definition show_int :: "int \<Rightarrow> string" where
  "show_int i = (if i < 0 then CHR ''-'' # show_nat (nat (- i)) else show_nat (nat i))"

definition dedupe :: "string list \<Rightarrow> string list" where
  "dedupe xs = dedup_from id {} (filter (\<lambda>x. x \<noteq> []) xs)"

definition extract_exception_chain ::
  "'m text_env \<Rightarrow> string list \<Rightarrow> string \<Rightarrow> string list" where
  "extract_exception_chain env exceptions chain_text =
     (let classes = (if exceptions \<noteq> [] \<and> te_has_chain_marker env chain_text
                     then last exceptions # butlast exceptions else exceptions)
      in take MAX_EXCEPTION_CLASSES (dedupe (map (te_normalize_class env) classes)))"

definition denylisted :: "string \<Rightarrow> bool" where
  "denylisted frame \<longleftrightarrow> list_ex (\<lambda>p. starts_with p frame) FRAMEWORK_DENYLIST"

definition is_dropped :: "string \<Rightarrow> bool" where
  "is_dropped frame \<longleftrightarrow> list_ex (\<lambda>p. starts_with p frame) FRAME_DROP_PREFIXES"

definition is_in_app :: "string \<Rightarrow> string set option \<Rightarrow> bool" where
  "is_in_app frame prefixes =
     (if denylisted frame then False
      else (case prefixes of
              None \<Rightarrow> True
            | Some ps \<Rightarrow> join_with ''.'' (take 2 (split_on (CHR ''.'') frame)) \<in> ps
                \<or> join_with ''.'' (take 3 (split_on (CHR ''.'') frame)) \<in> ps))"

definition parsed_frames :: "'m text_env \<Rightarrow> string \<Rightarrow> string list" where
  "parsed_frames env stack_raw =
     dedupe (List.map_filter
       (\<lambda>line. if te_is_frame_line env line
               then (case te_parse_frame env line of
                       None \<Rightarrow> None
                     | Some f \<Rightarrow> (let f' = te_normalize_class env f
                                 in if is_dropped f' then None else Some f'))
               else None)
       (split_on newline stack_raw))"

definition select_frames :: "'m text_env \<Rightarrow> string \<Rightarrow> string set option \<Rightarrow> string list" where
  "select_frames env stack_raw prefixes =
     (let parsed = parsed_frames env stack_raw;
          in_app = filter (\<lambda>f. is_in_app f prefixes) parsed;
          padding = filter (\<lambda>f. f \<notin> set in_app \<and> \<not> denylisted f) parsed
      in if length in_app \<ge> TOP_FRAMES then take TOP_FRAMES in_app
         else take TOP_FRAMES (in_app @ padding))"

definition exception_fingerprint ::
  "(string \<Rightarrow> 64 word) \<Rightarrow> string list \<Rightarrow> string list \<Rightarrow> int" where
  "exception_fingerprint xxh exc_classes frames =
     (if exc_classes = [] \<and> frames = [] then 0
      else xxh3_64_signed xxh (join_with ''|'' exc_classes @ ''#'' @ join_with ''|'' frames))"

definition error_hash :: "(string \<Rightarrow> 64 word) \<Rightarrow> int \<Rightarrow> string list \<Rightarrow> int" where
  "error_hash xxh fp template_hashes =
     xxh3_64_signed xxh (show_int fp @ ''#'' @ join_with ''|'' template_hashes)"

definition first_lines :: "string \<Rightarrow> nat \<Rightarrow> string" where
  "first_lines s n = join_with [newline] (take n (split_on newline s))"

definition one_line :: "string \<Rightarrow> string" where
  "one_line s = join_with '' '' (split_on newline s)"

definition mask_msg :: "'m text_env \<Rightarrow> string \<Rightarrow> bool \<Rightarrow> string" where
  "mask_msg env msg is_assertion =
     (let t0 = first_lines msg MSG_MAX_LINES;
          t1 = (if is_assertion then te_mask_assertion env t0 else t0)
      in strip (one_line (te_mask env t1)))"

definition mask_context_lines :: "'m text_env \<Rightarrow> string list \<Rightarrow> string" where
  "mask_context_lines env context_msgs =
     (let out = filter (\<lambda>m. m \<noteq> [])
            (map (\<lambda>raw. strip (join_with '' '' (split_ws (te_mask env (first_lines raw 1)))))
               (last_n (int CONTEXT_MSG_MAX_LINES) context_msgs))
      in if out = [] then []
         else CONTEXT_MARKER @ '' '' @ join_with ('' '' @ CONTEXT_MARKER @ '' '') out)"

type_synonym sections = "string \<rightharpoonup> string"

definition SECTION_ORDER :: "string list" where
  "SECTION_ORDER = [''TEST'', ''EXC'', ''MSG'', ''FRAMES'', ''TEMPLATES'', ''CODES'']"

definition section_lines :: "string list \<Rightarrow> sections \<Rightarrow> string list" where
  "section_lines order secs =
     List.map_filter (\<lambda>k. map_option (\<lambda>v. k @ '': '' @ v) (secs k)) order"

definition render :: "sections \<Rightarrow> string" where
  "render secs = join_with [newline] (section_lines SECTION_ORDER secs)"

definition rstrip :: "string \<Rightarrow> string" where
  "rstrip s = rstrip_by is_space s"

lemma length_rstrip: "length (rstrip s) \<le> length s"
  using length_dropWhile_le [of is_space "rev s"] by (simp add: rstrip_def rstrip_by_def)

text \<open>The inner loop: cut the tail of one section until the document fits or the section is gone.\<close>

function trim_section :: "string \<Rightarrow> sections \<Rightarrow> sections" where
  "trim_section key secs =
     (case secs key of
        None \<Rightarrow> secs
      | Some v \<Rightarrow>
          if length (render secs) \<le> SIGNATURE_MAX_CHARS \<or> v = [] then secs
          else
            (let overflow = length (render secs) - SIGNATURE_MAX_CHARS;
                 trimmed = rstrip (take (length v - max overflow 1) v)
             in trim_section key (if trimmed = [] then secs(key := None) else secs(key \<mapsto> trimmed))))"
  by pat_completeness auto

termination
proof (relation "measure (\<lambda>(key, secs). case secs key of None \<Rightarrow> 0 | Some v \<Rightarrow> Suc (length v))")
  fix key :: string and secs :: sections and v overflow trimmed
  assume v: "secs key = Some v"
    and nd: "\<not> (length (render secs) \<le> SIGNATURE_MAX_CHARS \<or> v = [])"
    and t: "trimmed = rstrip (take (length v - max overflow 1) v)"
  have "length trimmed \<le> length (take (length v - max overflow 1) v)"
    unfolding t by (rule length_rstrip)
  also have "\<dots> \<le> length v - max overflow 1" by simp
  also have "\<dots> < length v" using nd by (simp add: max_def)
  finally show "((key, if trimmed = [] then secs(key := None) else secs(key \<mapsto> trimmed)), key, secs)
      \<in> measure (\<lambda>(key, secs). case secs key of None \<Rightarrow> 0 | Some v \<Rightarrow> Suc (length v))"
    using v by simp
qed simp

declare trim_section.simps [simp del]

definition truncate_signature :: "sections \<Rightarrow> string" where
  "truncate_signature secs =
     (if length (render secs) \<le> SIGNATURE_MAX_CHARS then render secs
      else take SIGNATURE_MAX_CHARS
             (render (fold trim_section [''MSG'', ''TEMPLATES'', ''FRAMES''] secs)))"

definition document_sections ::
  "'m text_env \<Rightarrow> string \<Rightarrow> string list \<Rightarrow> string \<Rightarrow> string list \<Rightarrow> string list \<Rightarrow> string list \<Rightarrow> sections"
  where
  "document_sections env name exc_classes msg_text frames hashes codes =
     (let test = (if name = [] then [] else te_item_name env name)
      in (\<lambda>k. if k = ''TEST'' \<and> test \<noteq> [] then Some test
            else if k = ''EXC'' \<and> exc_classes \<noteq> [] then Some (join_with '' '' exc_classes)
            else if k = ''MSG'' then Some (if msg_text = [] then MSG_FALLBACK else msg_text)
            else if k = ''FRAMES'' \<and> frames \<noteq> [] then Some (join_with '' '' frames)
            else if k = ''TEMPLATES'' \<and> hashes \<noteq> []
              then Some (join_with '' '' (take MAX_TEMPLATES hashes))
            else if k = ''CODES'' \<and> codes \<noteq> []
              then Some (join_with '' '' (map (\<lambda>c. ''HTTP_'' @ c) codes))
            else None))"

definition build_signature_document ::
  "'m text_env \<Rightarrow> string \<Rightarrow> string list \<Rightarrow> string \<Rightarrow> string list \<Rightarrow> string list \<Rightarrow> string list \<Rightarrow> string"
  where
  "build_signature_document env name exc_classes msg_text frames hashes codes =
     truncate_signature (document_sections env name exc_classes msg_text frames hashes codes)"

definition select_primary :: "processed_log list \<Rightarrow> processed_log option" where
  "select_primary logs =
     (case find pl_has_stacktrace (rev logs) of
        Some l \<Rightarrow> Some l
      | None \<Rightarrow> if logs = [] then None else Some (last logs))"

definition empty_signature :: signature_result where
  "empty_signature = \<lparr>sr_signature_text = [], sr_exception_fp = 0, sr_error_hash = 0,
     sr_exc_classes = [], sr_frames = [], sr_template_hashes = [], sr_status_codes = [],
     sr_msg_text = [], sr_is_assertion = False, sr_has_stacktrace = False,
     sr_is_merged_small_logs = False\<rparr>"

definition signature_of_logs ::
  "'m text_env \<Rightarrow> string \<Rightarrow> processed_log list \<Rightarrow> string set option \<Rightarrow> string list \<Rightarrow> signature_result"
  where
  "signature_of_logs env name logs prefixes context_msgs =
     (case select_primary logs of
        None \<Rightarrow> empty_signature
      | Some primary \<Rightarrow>
          (let chain_text = join_with [newline] (map (\<lambda>l. pl_msg l @ [newline] @ pl_stack_raw l) logs);
               exc_classes = extract_exception_chain env (concat (map pl_exceptions logs)) chain_text;
               frames = (if pl_has_stacktrace primary
                         then select_frames env (pl_stack_raw primary) prefixes else []);
               hashes = take MAX_TEMPLATES (dedupe (concat (map pl_template_hashes logs)));
               is_assertion = te_is_assertion env (pl_msg primary);
               msg0 = mask_msg env (pl_msg primary) is_assertion;
               codes = te_status_codes env (pl_msg primary);
               fp = exception_fingerprint (te_xxh env) exc_classes frames;
               context_text = mask_context_lines env context_msgs;
               msg_text = (if context_text = [] then msg0
                           else if msg0 = [] then context_text
                           else strip (msg0 @ '' '' @ context_text))
           in \<lparr>sr_signature_text = build_signature_document env name exc_classes msg_text frames
                                     hashes codes,
               sr_exception_fp = fp, sr_error_hash = error_hash (te_xxh env) fp hashes,
               sr_exc_classes = exc_classes, sr_frames = frames, sr_template_hashes = hashes,
               sr_status_codes = codes, sr_msg_text = msg_text, sr_is_assertion = is_assertion,
               sr_has_stacktrace = pl_has_stacktrace primary, sr_is_merged_small_logs = False\<rparr>))"

text \<open>The item-level flow: filter, context, merge, clean and mine, build. The filter here uses its
  default cap.\<close>

definition build_item_signature ::
  "'m text_env \<Rightarrow> nat \<Rightarrow> string \<Rightarrow> log_input list \<Rightarrow> 'm \<Rightarrow> 'm \<times> signature_result" where
  "build_item_signature env max_lines name logs m =
     (let kept0 = filter_item_logs env NUMBER_OF_LOGS_TO_INDEX logs
      in if kept0 = [] then (m, empty_signature)
         else
           (let (kept, merged) = maybe_merge_small_logs env kept0;
                (m', processed) = process_logs env max_lines m kept;
                r = signature_of_logs env name processed None (extract_context_lines logs)
            in (m', if merged then r\<lparr>sr_is_merged_small_logs := True\<rparr> else r)))"

section \<open>The document fits\<close>

lemma render_cong: "(\<And>k. k \<in> set SECTION_ORDER \<Longrightarrow> s k = t k) \<Longrightarrow> render s = render t"
proof -
  have "(\<And>k. k \<in> set ks \<Longrightarrow> s k = t k) \<Longrightarrow> section_lines ks s = section_lines ks t" for ks
    unfolding section_lines_def List.map_filter_def by (intro map_cong filter_cong) auto
  then show "(\<And>k. k \<in> set SECTION_ORDER \<Longrightarrow> s k = t k) \<Longrightarrow> render s = render t"
    by (simp add: render_def)
qed

lemma trim_section_done:
  "length (render secs) \<le> SIGNATURE_MAX_CHARS \<Longrightarrow> trim_section key secs = secs"
  by (subst trim_section.simps) (simp split: option.splits)

lemma rstrip_take: "\<exists>n. rstrip (take m v) = take n v"
proof -
  have "\<exists>n. dropWhile P xs = drop n xs" for P and xs :: "char list"
    by (metis dropWhile_eq_drop)
  then obtain n where "dropWhile is_space (rev (take m v)) = drop n (rev (take m v))" by blast
  then have "rstrip (take m v) = take (length (take m v) - n) (take m v)"
    by (simp add: rstrip_def rstrip_by_def rev_drop)
  then show ?thesis by (metis take_take)
qed

text \<open>What is left of a section: all of it, nothing, or a prefix.\<close>

definition cut_of :: "string option \<Rightarrow> string option \<Rightarrow> bool" where
  "cut_of old new \<longleftrightarrow> new = old \<or> new = None \<or> (\<exists>v n. old = Some v \<and> new = Some (take n v))"

lemma cut_of_refl [simp]: "cut_of x x"
  by (simp add: cut_of_def)

lemma cut_of_take: "cut_of (Some (take m v)) new \<Longrightarrow> cut_of (Some v) new"
  by (auto simp: cut_of_def)

lemma trim_section_spec:
  "secs key \<noteq> Some [] \<Longrightarrow>
   (\<forall>k. k \<noteq> key \<longrightarrow> trim_section key secs k = secs k)
   \<and> cut_of (secs key) (trim_section key secs key)
   \<and> trim_section key secs key \<noteq> Some []
   \<and> (length (render (trim_section key secs)) \<le> SIGNATURE_MAX_CHARS
      \<or> trim_section key secs key = None)"
proof (induction key secs rule: trim_section.induct)
  case (1 key secs)
  show ?case
  proof (cases "secs key")
    case None
    then show ?thesis by (subst (1 2 3 4 5) trim_section.simps) simp
  next
    case (Some v)
    show ?thesis
    proof (cases "length (render secs) \<le> SIGNATURE_MAX_CHARS \<or> v = []")
      case True
      then show ?thesis using 1(2) Some
        by (auto simp: trim_section_done)
    next
      case False
      define t where "t = rstrip (take (length v - max (length (render secs) - SIGNATURE_MAX_CHARS) 1) v)"
      define secs' where "secs' = (if t = [] then secs(key := None) else secs(key \<mapsto> t))"
      have step: "trim_section key secs = trim_section key secs'"
        by (subst trim_section.simps) (simp add: Some False Let_def t_def secs'_def del: not_le)
      obtain n where n: "t = take n v" unfolding t_def using rstrip_take by blast
      have ne: "secs' key \<noteq> Some []" by (simp add: secs'_def)
      have IH: "(\<forall>k. k \<noteq> key \<longrightarrow> trim_section key secs' k = secs' k)
          \<and> cut_of (secs' key) (trim_section key secs' key)
          \<and> trim_section key secs' key \<noteq> Some []
          \<and> (length (render (trim_section key secs')) \<le> SIGNATURE_MAX_CHARS
             \<or> trim_section key secs' key = None)"
        unfolding secs'_def t_def
        by (rule 1(1) [OF Some False refl refl]) (use ne in \<open>simp add: secs'_def t_def\<close>)
      have "cut_of (secs key) (trim_section key secs' key)"
      proof (cases "t = []")
        case True
        then show ?thesis using IH by (simp add: secs'_def cut_of_def)
      next
        case False
        then have "cut_of (Some (take n v)) (trim_section key secs' key)"
          using IH by (simp add: secs'_def n)
        then show ?thesis unfolding Some by (rule cut_of_take)
      qed
      moreover have "secs' k = secs k" if "k \<noteq> key" for k using that by (simp add: secs'_def)
      ultimately show ?thesis using IH by (simp add: step)
    qed
  qed
qed

definition KEPT_SECTIONS :: "string set" where
  "KEPT_SECTIONS = {''TEST'', ''EXC'', ''CODES''}"

text \<open>
  C33. The signature document always fits its 2000 characters. It is the full rendering whenever
  that fits; otherwise only the message, the templates and the frames are cut, each to a prefix of
  itself or to nothing, and the test name, the exception chain and the status codes are kept whole
  as long as these three alone fit.
\<close>

theorem signature_document_fits:
  assumes "\<forall>k. secs k \<noteq> Some []"
  shows "length (truncate_signature secs) \<le> SIGNATURE_MAX_CHARS
    \<and> (length (render secs) \<le> SIGNATURE_MAX_CHARS \<longrightarrow> truncate_signature secs = render secs)
    \<and> (length (render (secs |` KEPT_SECTIONS)) \<le> SIGNATURE_MAX_CHARS \<longrightarrow>
        (\<exists>secs'. truncate_signature secs = render secs'
           \<and> (\<forall>k \<in> KEPT_SECTIONS. secs' k = secs k) \<and> (\<forall>k. cut_of (secs k) (secs' k))))"
proof (intro conjI impI)
  define s1 where "s1 = trim_section ''MSG'' secs"
  define s2 where "s2 = trim_section ''TEMPLATES'' s1"
  define s3 where "s3 = trim_section ''FRAMES'' s2"
  note T1 = trim_section_spec [of secs "''MSG''", folded s1_def]
  have e1: "secs ''MSG'' \<noteq> Some []" and e2: "s1 ''TEMPLATES'' \<noteq> Some []"
    using assms T1 by auto
  note T2 = trim_section_spec [of s1 "''TEMPLATES''", OF e2, folded s2_def]
  have e3: "s2 ''FRAMES'' \<noteq> Some []" using assms T1 T2 by auto
  note T3 = trim_section_spec [of s2 "''FRAMES''", OF e3, folded s3_def]
  have o1: "s1 k = secs k" if "k \<noteq> ''MSG''" for k using T1 [OF e1] that by blast
  have o2: "s2 k = s1 k" if "k \<noteq> ''TEMPLATES''" for k using T2 that by blast
  have o3: "s3 k = s2 k" if "k \<noteq> ''FRAMES''" for k using T3 that by blast
  have trunc: "truncate_signature secs = (if length (render secs) \<le> SIGNATURE_MAX_CHARS
      then render secs else take SIGNATURE_MAX_CHARS (render s3))"
    by (simp add: truncate_signature_def s1_def s2_def s3_def)
  show "length (truncate_signature secs) \<le> SIGNATURE_MAX_CHARS" by (simp add: trunc)
  show "truncate_signature secs = render secs" if "length (render secs) \<le> SIGNATURE_MAX_CHARS"
    using that by (simp add: trunc)
  have fits3: "length (render s3) \<le> SIGNATURE_MAX_CHARS"
    if K: "length (render (secs |` KEPT_SECTIONS)) \<le> SIGNATURE_MAX_CHARS"
  proof (rule ccontr)
    assume big: "\<not> length (render s3) \<le> SIGNATURE_MAX_CHARS"
    have b2: "\<not> length (render s2) \<le> SIGNATURE_MAX_CHARS"
      using big trim_section_done [of s2 "''FRAMES''"] by (auto simp: s3_def)
    have b1: "\<not> length (render s1) \<le> SIGNATURE_MAX_CHARS"
      using b2 trim_section_done [of s1 "''TEMPLATES''"] by (auto simp: s2_def)
    have "s1 ''MSG'' = None" "s2 ''TEMPLATES'' = None" "s3 ''FRAMES'' = None"
      using T1 [OF e1] T2 T3 b1 b2 big by blast+
    note none = this
    have "s3 k = (secs |` KEPT_SECTIONS) k" if "k \<in> set SECTION_ORDER" for k
    proof -
      from that have "k = ''TEST'' \<or> k = ''EXC'' \<or> k = ''MSG'' \<or> k = ''FRAMES''
          \<or> k = ''TEMPLATES'' \<or> k = ''CODES''" by (simp add: SECTION_ORDER_def)
      then show ?thesis
        by (elim disjE) (simp_all add: o1 o2 o3 none KEPT_SECTIONS_def restrict_map_def)
    qed
    then have "render s3 = render (secs |` KEPT_SECTIONS)" by (rule render_cong)
    with K big show False by simp
  qed
  show "\<exists>secs'. truncate_signature secs = render secs'
      \<and> (\<forall>k \<in> KEPT_SECTIONS. secs' k = secs k) \<and> (\<forall>k. cut_of (secs k) (secs' k))"
    if K: "length (render (secs |` KEPT_SECTIONS)) \<le> SIGNATURE_MAX_CHARS"
  proof (cases "length (render secs) \<le> SIGNATURE_MAX_CHARS")
    case True
    then show ?thesis by (intro exI [of _ secs]) (simp add: trunc)
  next
    case False
    have c1: "cut_of (secs ''MSG'') (s1 ''MSG'')" using T1 [OF e1] by blast
    have c2: "cut_of (s1 ''TEMPLATES'') (s2 ''TEMPLATES'')" using T2 by blast
    have c3: "cut_of (s2 ''FRAMES'') (s3 ''FRAMES'')" using T3 by blast
    have "cut_of (secs k) (s3 k)" for k
    proof -
      consider "k = ''MSG''" | "k = ''TEMPLATES''" | "k = ''FRAMES''"
        | "k \<noteq> ''MSG''" "k \<noteq> ''TEMPLATES''" "k \<noteq> ''FRAMES''" by blast
      then show ?thesis
        by cases (use c1 c2 c3 in \<open>simp_all add: o1 o2 o3\<close>)
    qed
    moreover have "\<forall>k \<in> KEPT_SECTIONS. s3 k = secs k"
      unfolding KEPT_SECTIONS_def by (simp add: o1 o2 o3)
    ultimately show ?thesis
      using False fits3 [OF K] by (intro exI [of _ s3]) (simp add: trunc)
  qed
qed

theorem signature_document_fits_witness:
  "truncate_signature [''TEST'' \<mapsto> ''login''] = ''TEST: login''"
proof -
  have r: "render [''TEST'' \<mapsto> ''login''] = ''TEST: login''"
    by (simp add: render_def section_lines_def SECTION_ORDER_def map_filter_simps)
  have "\<forall>k. [''TEST'' \<mapsto> ''login''] k \<noteq> Some []" by simp
  from signature_document_fits [OF this]
  have "length (render [''TEST'' \<mapsto> ''login'']) \<le> SIGNATURE_MAX_CHARS \<longrightarrow>
      truncate_signature [''TEST'' \<mapsto> ''login''] = render [''TEST'' \<mapsto> ''login'']" by blast
  then show ?thesis unfolding r by (simp add: SIGNATURE_MAX_CHARS_def)
qed

section \<open>Identity\<close>

lemma dedupe_distinct: "distinct (dedupe xs)"
  using dedup_from_distinct [of id "{}"] by (simp add: dedupe_def)

lemma dedupe_nonempty: "x \<in> set (dedupe xs) \<Longrightarrow> x \<noteq> []"
  using dedup_from_subset [of id "{}"] by (fastforce simp: dedupe_def)

lemma distinct_frames: "distinct (select_frames env stack prefixes)"
proof -
  have d: "distinct (parsed_frames env stack)" by (simp add: parsed_frames_def dedupe_distinct)
  then have "distinct (filter (\<lambda>f. is_in_app f prefixes) (parsed_frames env stack)
      @ filter (\<lambda>f. f \<notin> set (filter (\<lambda>f. is_in_app f prefixes) (parsed_frames env stack))
          \<and> \<not> denylisted f) (parsed_frames env stack))" by auto
  then have "distinct (take TOP_FRAMES (filter (\<lambda>f. is_in_app f prefixes) (parsed_frames env stack)
      @ filter (\<lambda>f. f \<notin> set (filter (\<lambda>f. is_in_app f prefixes) (parsed_frames env stack))
          \<and> \<not> denylisted f) (parsed_frames env stack)))" by (rule distinct_take)
  with d show ?thesis unfolding select_frames_def Let_def
    by (cases "TOP_FRAMES \<le> length (filter (\<lambda>f. is_in_app f prefixes) (parsed_frames env stack))")
      (simp_all add: distinct_take)
qed

lemma frames_not_denylisted: "f \<in> set (select_frames env stack prefixes) \<Longrightarrow> \<not> denylisted f"
  by (auto simp: select_frames_def Let_def is_in_app_def split: if_splits dest!: in_set_takeD)

text \<open>
  The near-error context is signal, not identity: whatever warnings precede the first error, the
  fingerprint, the error hash, the exception chain, the frames and the templates of a signature are
  the same. The chain has at most 4 different classes, there are at most 3 different frames, none of
  them of a framework, and at most 30 different template hashes; without class and frame the
  fingerprint is 0, which switches exact matching off.
\<close>

theorem signature_identity_context_free:
  "case (signature_of_logs env name logs ps c, signature_of_logs env name logs ps c') of (s, s') \<Rightarrow>
     sr_exception_fp s = sr_exception_fp s' \<and> sr_error_hash s = sr_error_hash s'
     \<and> sr_exc_classes s = sr_exc_classes s' \<and> sr_frames s = sr_frames s'
     \<and> sr_template_hashes s = sr_template_hashes s' \<and> sr_status_codes s = sr_status_codes s'
     \<and> length (sr_exc_classes s) \<le> MAX_EXCEPTION_CLASSES \<and> distinct (sr_exc_classes s)
     \<and> length (sr_frames s) \<le> TOP_FRAMES \<and> distinct (sr_frames s)
     \<and> list_all (\<lambda>f. \<not> denylisted f) (sr_frames s)
     \<and> length (sr_template_hashes s) \<le> MAX_TEMPLATES \<and> distinct (sr_template_hashes s)
     \<and> (if sr_exc_classes s = [] \<and> sr_frames s = [] then sr_exception_fp s = 0
        else sr_exception_fp s = xxh3_64_signed (te_xxh env)
               (join_with ''|'' (sr_exc_classes s) @ ''#'' @ join_with ''|'' (sr_frames s)))"
proof (cases "select_primary logs")
  case None
  then show ?thesis by (simp add: signature_of_logs_def empty_signature_def)
next
  case (Some primary)
  have f: "length (select_frames env st ps) \<le> TOP_FRAMES" for st
    by (auto simp: select_frames_def Let_def min_def)
  have nd: "list_all (\<lambda>f. \<not> denylisted f) (select_frames env st ps)" for st
    using frames_not_denylisted by (auto simp: list_all_iff)
  show ?thesis using Some
    by (simp add: signature_of_logs_def Let_def extract_exception_chain_def distinct_take
        dedupe_distinct distinct_frames f nd exception_fingerprint_def)
qed

end
