(* ===== verification/LlmApply.thy ===== *)
theory LlmApply
  imports Store Decision Signature
begin

text \<open>
  What a validated LLM answer may do to the stores: the cold-start rubric (\<open>llm/rubric.py\<close>), the
  client-side checks of the judge and cold-start roles (\<open>llm/roles/judge.py\<close>, \<open>coldstart.py\<close>), the
  row updates of \<open>llm/apply.py\<close> and their dispatch (\<open>PgLlmApplier\<close> in \<open>llm/wiring.py\<close>). Rewriting the
  rubric sentence (\<open>strip_rule_ids\<close>, regular expressions) is an argument.
\<close>

section \<open>The rubric\<close>

text \<open>Rule, label, confidence bucket.\<close>

definition RUBRIC :: "(string \<times> string \<times> string) list" where
  "RUBRIC =
     [(''R1'', ''pb'', ''high''), (''R2'', ''ab'', ''med''), (''R3'', ''ab'', ''high''),
      (''R4'', ''ab'', ''high''), (''R5'', ''ab'', ''med''), (''R6'', ''si'', ''high''),
      (''R7'', ''si'', ''high''), (''R8'', ''si'', ''med''), (''R9'', ''pb'', ''med''),
      (''R10'', ''pb'', ''high''), (''R11'', ''pb'', ''low''), (''R12'', ''nd'', ''high''),
      (''R13'', ''si'', ''med''), (''R14'', ''ab'', ''low'')]"

definition RUBRIC_LABEL :: "string \<rightharpoonup> string" where
  "RUBRIC_LABEL = map_of (map (\<lambda>(r, l, c). (r, l)) RUBRIC)"

definition rubric_confidence :: "string \<rightharpoonup> string" where
  "rubric_confidence = map_of (map (\<lambda>(r, l, c). (r, c)) RUBRIC)"

definition CONFIDENCE_SCORE :: "string \<rightharpoonup> real" where
  "CONFIDENCE_SCORE = map_of [(''low'', 46 / 100), (''med'', 55 / 100), (''high'', 65 / 100)]"

section \<open>Answers\<close>

record coldstart_output =
  co_label :: string
  co_confidence :: string
  co_rule :: string
  co_reason :: string

text \<open>What the role's JSON schema admits (the engine validates it before anything else).\<close>

definition coldstart_schema :: "coldstart_output \<Rightarrow> bool" where
  "coldstart_schema o' \<longleftrightarrow>
     co_label o' \<in> {''pb'', ''ab'', ''si'', ''nd''} \<and> co_confidence o' \<in> {''low'', ''med'', ''high''}
     \<and> co_rule o' \<in> set (map fst RUBRIC) \<union> {''none''}"

definition coldstart_post_validate :: "coldstart_output \<Rightarrow> bool" where
  "coldstart_post_validate o' \<longleftrightarrow>
     co_rule o' = [] \<or> co_rule o' = ''none'' \<or> RUBRIC_LABEL (co_rule o') = Some (co_label o')"

text \<open>Python's \<open>int\<close> of a decimal text: surrounding blanks, one sign, single underscores between
  digits.\<close>

definition digits_value :: "string \<Rightarrow> int" where
  "digits_value s = foldl (\<lambda>n c. n * 10 + int (of_char c - 48)) 0 s"

definition py_int :: "string \<Rightarrow> int option" where
  "py_int t =
     (let s = strip t;
          (sgn, body) = (case s of c # cs \<Rightarrow> if c = CHR ''-'' then (-1, cs)
                           else if c = CHR ''+'' then (1, cs) else (1 :: int, s) | [] \<Rightarrow> (1, []));
          parts = split_on (CHR ''_'') body
      in if list_all (\<lambda>p. p \<noteq> [] \<and> list_all is_digit p) parts
         then Some (sgn * digits_value (concat parts)) else None)"

text \<open>\<open>choice.split("_", 1)[1]\<close>, for a text that starts with \<open>candidate_\<close>.\<close>

definition choice_index :: "string \<Rightarrow> int option" where
  "choice_index c = py_int (drop 1 (dropWhile (\<lambda>x. x \<noteq> CHR ''_'') c))"

definition judge_post_validate :: "string \<Rightarrow> nat \<Rightarrow> bool" where
  "judge_post_validate choice k \<longleftrightarrow>
     (if choice \<in> {''none'', ''abstain''} then True
      else if starts_with ''candidate_'' choice
      then (case choice_index choice of None \<Rightarrow> False | Some i \<Rightarrow> 1 \<le> i \<and> i \<le> int k)
      else False)"

section \<open>Row updates\<close>

text \<open>A Python list index, negative indices included; \<open>None\<close> is the \<open>IndexError\<close>.\<close>

definition py_nth :: "'a list \<Rightarrow> int \<Rightarrow> 'a option" where
  "py_nth xs i =
     (if 0 \<le> i \<and> i < int (length xs) then Some (xs ! nat i)
      else if - int (length xs) \<le> i \<and> i < 0 then Some (xs ! nat (int (length xs) + i)) else None)"

text \<open>The ids of the candidates; \<open>None\<close> is an exception, which the worker swallows.\<close>

definition apply_judge :: "int \<Rightarrow> int \<Rightarrow> int list \<Rightarrow> string \<Rightarrow> db \<Rightarrow> db option" where
  "apply_judge p i cands choice db =
     (if choice = ''abstain'' then Some db
      else if choice = ''none'' then Some (annotate_judge p i None db)
      else (case Option.bind (choice_index choice) (\<lambda>n. py_nth cands (n - 1)) of
              None \<Rightarrow> None
            | Some chosen \<Rightarrow> Some (annotate_judge p i (Some chosen) db)))"

definition coldstart_bucket :: "coldstart_output \<Rightarrow> string" where
  "coldstart_bucket o' =
     (case rubric_confidence (co_rule o') of Some b \<Rightarrow> b | None \<Rightarrow> co_confidence o')"

definition apply_coldstart ::
  "(string \<Rightarrow> string) \<Rightarrow> seconds \<Rightarrow> int \<Rightarrow> int \<Rightarrow> int \<Rightarrow> coldstart_output \<Rightarrow> string \<Rightarrow> string \<Rightarrow> db
     \<Rightarrow> (db \<times> int) option" where
  "apply_coldstart strip_ids now p i launch_id o' group_locator model_tag db =
     (case CONFIDENCE_SCORE (coldstart_bucket o') of
        None \<Rightarrow> None
      | Some confidence \<Rightarrow>
          (let (db1, sid) = insert_coldstart now p i launch_id group_locator confidence
                 (''rubric+'' @ model_tag) (co_rule o') db;
               reason = strip_ids (co_reason o')
           in Some (if reason = [] then db1 else set_explanation p sid reason db1, sid)))"

datatype role_output =
    ExplainerOutput string
  | JudgeOutput string
  | ColdStartOutput coldstart_output
  | ExtractorOutput

record role_input =
  rin_suggestion_id :: "int option"
  rin_candidates :: "int list"
  rin_launch_id :: "int option"

definition apply_role ::
  "(string \<Rightarrow> string) \<Rightarrow> string \<Rightarrow> seconds \<Rightarrow> int \<Rightarrow> int \<Rightarrow> role_input \<Rightarrow> role_output \<Rightarrow> db \<Rightarrow> db option"
  where
  "apply_role strip_ids model_tag now p i inp r db =
     (case r of
        ExplainerOutput e \<Rightarrow>
          Some (case rin_suggestion_id inp of None \<Rightarrow> db | Some sid \<Rightarrow> set_explanation p sid e db)
      | JudgeOutput choice \<Rightarrow> apply_judge p i (rin_candidates inp) choice db
      | ColdStartOutput o' \<Rightarrow>
          map_option fst (apply_coldstart strip_ids now p i
            (case rin_launch_id inp of None \<Rightarrow> 0 | Some l \<Rightarrow> l) o' (default_locator (co_label o'))
            model_tag db)
      | ExtractorOutput \<Rightarrow> Some db)"

section \<open>What an answer may change\<close>

text \<open>What the learning loop and the bands read of a suggestion row.\<close>

definition verdict_of ::
  "suggestion_row \<Rightarrow> (int \<times> int \<times> int) \<times> string \<times> real \<times> feats \<times> string option \<times> string" where
  "verdict_of r = ((su_project_id r, su_item_id r, su_suggestion_id r), su_predicted_label r,
     su_confidence r, su_features r, su_method r, su_outcome r)"

lemma annotate_judge_verdicts:
  "map verdict_of (db_suggestions (annotate_judge p i c db)) = map verdict_of (db_suggestions db)"
  by (simp add: annotate_judge_def verdict_of_def split: option.split)

lemma set_explanation_verdicts:
  "map verdict_of (db_suggestions (set_explanation p s e db)) = map verdict_of (db_suggestions db)"
  by (simp add: set_explanation_def verdict_of_def)

lemma annotate_judge_items [simp]:
  "db_items (annotate_judge p i c db) = db_items db"
  "db_events (annotate_judge p i c db) = db_events db"
  by (simp_all add: annotate_judge_def split: option.split)

lemma set_explanation_items [simp]:
  "db_items (set_explanation p s e db) = db_items db"
  "db_events (set_explanation p s e db) = db_events db"
  by (simp_all add: set_explanation_def)

lemma insert_coldstart_items [simp]:
  "db_items (fst (insert_coldstart now p i l lab c v r db)) = db_items db"
  "db_events (fst (insert_coldstart now p i l lab c v r db)) = db_events db"
  by (simp_all add: insert_coldstart_def Let_def)

lemma rubric_buckets: "rubric_confidence r = Some b \<Longrightarrow> b \<in> {''low'', ''med'', ''high''}"
proof -
  assume "rubric_confidence r = Some b"
  then have "(r, b) \<in> set (map (\<lambda>(r, l, c). (r, c)) RUBRIC)"
    unfolding rubric_confidence_def by (rule map_of_SomeD)
  then show ?thesis by (auto simp: RUBRIC_def)
qed

lemma bucket_score:
  assumes "b \<in> {''low'', ''med'', ''high''}"
  shows "\<exists>c. CONFIDENCE_SCORE b = Some c \<and> 46 / 100 \<le> c \<and> c \<le> 65 / 100"
proof -
  have "CONFIDENCE_SCORE ''low'' = Some (46 / 100)" "CONFIDENCE_SCORE ''med'' = Some (55 / 100)"
    "CONFIDENCE_SCORE ''high'' = Some (65 / 100)" by (simp_all add: CONFIDENCE_SCORE_def)
  moreover have "b = ''low'' \<or> b = ''med'' \<or> b = ''high''" using assms by blast
  ultimately have "CONFIDENCE_SCORE b \<noteq> None \<and> 46 / 100 \<le> the (CONFIDENCE_SCORE b)
      \<and> the (CONFIDENCE_SCORE b) \<le> 65 / 100" by (elim disjE) simp_all
  then show ?thesis by (intro exI [of _ "the (CONFIDENCE_SCORE b)"]) simp
qed

text \<open>
  A rubric hypothesis stays in the suggest band. A cold-start answer that passed the schema and
  the rule check inserts exactly one row, labels nothing and appends no label event; the row's label
  group is the answer's label - for a claimed rule the label the rubric prescribes -, and its
  confidence is the rule's bucket, not the model's: at least the suggest threshold and below the
  default automatic one.
\<close>

theorem coldstart_in_suggest_band:
  assumes "coldstart_schema o'" and "coldstart_post_validate o'"
  shows "case apply_role strip_ids model_tag now p i inp (ColdStartOutput o') db of
      None \<Rightarrow> False
    | Some db' \<Rightarrow>
        db_items db' = db_items db \<and> db_events db' = db_events db
        \<and> (\<exists>r. map verdict_of (db_suggestions db') = map verdict_of (db_suggestions db) @ [verdict_of r]
             \<and> su_item_id r = i \<and> TAU_SUGGEST \<le> su_confidence r \<and> su_confidence r < TAU_AUTO
             \<and> su_predicted_label r = default_locator (co_label o')
             \<and> su_method r = Some ''coldstart''
             \<and> (case RUBRIC_LABEL (co_rule o') of
                  None \<Rightarrow> co_rule o' = ''none''
                | Some l \<Rightarrow> l = co_label o' \<and> CONFIDENCE_SCORE (the (rubric_confidence (co_rule o')))
                             = Some (su_confidence r)))"
proof -
  let ?b = "coldstart_bucket o'"
  have "?b \<in> {''low'', ''med'', ''high''}"
    using assms(1) rubric_buckets by (auto simp: coldstart_bucket_def coldstart_schema_def split: option.splits)
  then obtain c where c: "CONFIDENCE_SCORE ?b = Some c" "46 / 100 \<le> c" "c \<le> 65 / 100"
    using bucket_score by blast
  let ?l = "case rin_launch_id inp of None \<Rightarrow> 0 | Some l \<Rightarrow> l"
  obtain db1 sid where ins: "insert_coldstart now p i ?l (default_locator (co_label o')) c
      (''rubric+'' @ model_tag) (co_rule o') db = (db1, sid)" by fastforce
  obtain r where r: "db_suggestions db1 = db_suggestions db @ [r]" "su_item_id r = i"
      "su_confidence r = c" "su_predicted_label r = default_locator (co_label o')"
      "su_method r = Some ''coldstart''" "db_items db1 = db_items db" "db_events db1 = db_events db"
    using ins by (auto simp: insert_coldstart_def Let_def)
  define db' where "db' = (if strip_ids (co_reason o') = [] then db1
      else set_explanation p sid (strip_ids (co_reason o')) db1)"
  have ap: "apply_role strip_ids model_tag now p i inp (ColdStartOutput o') db = Some db'"
    unfolding apply_role_def role_output.case apply_coldstart_def c(1) option.case(2) ins Let_def
      prod.case db'_def by simp
  have v: "map verdict_of (db_suggestions db') = map verdict_of (db_suggestions db) @ [verdict_of r]"
    using r(1) by (simp add: db'_def set_explanation_verdicts)
  have keep: "db_items db' = db_items db" "db_events db' = db_events db"
    using r by (simp_all add: db'_def)
  have rule: "case RUBRIC_LABEL (co_rule o') of
      None \<Rightarrow> co_rule o' = ''none''
    | Some l \<Rightarrow> l = co_label o' \<and> CONFIDENCE_SCORE (the (rubric_confidence (co_rule o'))) = Some c"
  proof (cases "co_rule o' = ''none''")
    case True
    then show ?thesis by (simp add: RUBRIC_LABEL_def RUBRIC_def)
  next
    case False
    then have mem: "co_rule o' \<in> set (map fst RUBRIC)" using assms(1) by (auto simp: coldstart_schema_def)
    then have "co_rule o' \<noteq> []" by (auto simp: RUBRIC_def)
    then have "RUBRIC_LABEL (co_rule o') = Some (co_label o')"
      using assms(2) False by (simp add: coldstart_post_validate_def)
    moreover have "rubric_confidence (co_rule o') \<noteq> None"
      using mem by (auto simp: rubric_confidence_def map_of_eq_None_iff RUBRIC_def)
    ultimately show ?thesis using c(1) by (auto simp: coldstart_bucket_def)
  qed
  show ?thesis unfolding ap option.case
    using v keep r(2-5) c(2,3) rule [folded r(3)] by (intro conjI exI [of _ r]) (simp_all add: TAU_SUGGEST_def TAU_AUTO_def)
qed

definition demo_coldstart :: coldstart_output where
  "demo_coldstart = \<lparr>co_label = ''ab'', co_confidence = ''high'', co_rule = ''R2'', co_reason = []\<rparr>"

theorem coldstart_in_suggest_band_witness:
  "case apply_role id ''m'' 0 1 7 \<lparr>rin_suggestion_id = None, rin_candidates = [], rin_launch_id = None\<rparr>
       (ColdStartOutput demo_coldstart) empty_db of
     None \<Rightarrow> False
   | Some db' \<Rightarrow> (\<exists>r. map verdict_of (db_suggestions db') = [verdict_of r] \<and> su_confidence r = 55 / 100)"
proof -
  have s: "coldstart_schema demo_coldstart" "coldstart_post_validate demo_coldstart"
    by (simp_all add: coldstart_schema_def coldstart_post_validate_def demo_coldstart_def RUBRIC_def
        RUBRIC_LABEL_def)
  have l: "RUBRIC_LABEL (co_rule demo_coldstart) = Some ''ab''"
    "CONFIDENCE_SCORE (the (rubric_confidence (co_rule demo_coldstart))) = Some (55 / 100)"
    by (simp_all add: demo_coldstart_def RUBRIC_def RUBRIC_LABEL_def rubric_confidence_def
        CONFIDENCE_SCORE_def)
  show ?thesis
    using coldstart_in_suggest_band [OF s, where strip_ids = id and model_tag = "''m''" and now = 0 and p = 1
        and i = 7 and inp = "\<lparr>rin_suggestion_id = None, rin_candidates = [], rin_launch_id = None\<rparr>"
        and db = empty_db] l
    by (auto simp: empty_db_def split: option.splits)
qed

text \<open>
  The judge annotates and nothing else. A choice that passed the check never raises, picks one of
  the candidates it was shown (or nobody), and whatever it picks, no label, confidence, feature
  snapshot, method or outcome of any suggestion row changes, and no item and no label event.
\<close>

theorem judge_annotates_only:
  assumes "judge_post_validate choice (length cands)"
  shows "case apply_judge p i cands choice db of
      None \<Rightarrow> False
    | Some db' \<Rightarrow>
        map verdict_of (db_suggestions db') = map verdict_of (db_suggestions db)
        \<and> db_items db' = db_items db \<and> db_events db' = db_events db
        \<and> (db' = db \<or> (\<exists>chosen. db' = annotate_judge p i chosen db
             \<and> (case chosen of None \<Rightarrow> choice = ''none'' | Some c \<Rightarrow> c \<in> set cands)))"
proof (cases "choice \<in> {''none'', ''abstain''}")
  case True
  then show ?thesis by (auto simp: apply_judge_def annotate_judge_verdicts)
next
  case False
  then obtain n where n: "choice_index choice = Some n" "1 \<le> n" "n \<le> int (length cands)"
    using assms by (auto simp: judge_post_validate_def split: if_splits option.splits)
  then have nth: "py_nth cands (n - 1) = Some (cands ! nat (n - 1))" "cands ! nat (n - 1) \<in> set cands"
    by (simp_all add: py_nth_def)
  then show ?thesis using False n by (auto simp: apply_judge_def annotate_judge_verdicts)
qed

theorem judge_annotates_only_witness:
  "case apply_judge 1 7 [40, 41] ''candidate_2'' empty_db of
     None \<Rightarrow> False | Some db' \<Rightarrow> db_items db' = [] \<and> map verdict_of (db_suggestions db') = []"
proof -
  have "judge_post_validate ''candidate_2'' (length [40 :: int, 41])"
    by (simp add: judge_post_validate_def starts_with_def choice_index_def py_int_def strip_def
        lstrip_by_def rstrip_by_def is_space_def is_digit_def digits_value_def)
  from judge_annotates_only [OF this, where p = 1 and i = 7 and db = empty_db]
  show ?thesis by (auto simp: empty_db_def split: option.splits)
qed

end
