(* ===== verification/LlmEval.thy ===== *)
theory LlmEval
  imports Store
begin

text \<open>
  The nightly evaluation of the LLM roles (\<open>llm/eval.py\<close>), its source of comparisons
  (\<open>db/repositories/llm_eval.py\<close>) and the per-project switch it throws (\<open>PgLlmRoleStateStore\<close>): Wilson
  intervals, the lower bound of a difference, the criteria for switching a role off, and the job.
\<close>

section \<open>Intervals\<close>

definition WILSON_Z :: real where "WILSON_Z = 196 / 100"

text \<open>\<open>s / n\<close> with 0 for an empty arm.\<close>

definition precision_of :: "nat \<Rightarrow> nat \<Rightarrow> real" where
  "precision_of s n = (if n > 0 then real s / real n else 0)"

definition wilson_center :: "real \<Rightarrow> real \<Rightarrow> real \<Rightarrow> real" where
  "wilson_center p n z = (p + z * z / (2 * n)) / (1 + z * z / n)"

definition wilson_margin :: "real \<Rightarrow> real \<Rightarrow> real \<Rightarrow> real" where
  "wilson_margin p n z = z * sqrt ((p * (1 - p) + z * z / (4 * n)) / n) / (1 + z * z / n)"

definition wilson_interval :: "nat \<Rightarrow> nat \<Rightarrow> real \<Rightarrow> real \<times> real" where
  "wilson_interval s n z =
     (if n = 0 then (0, 0)
      else let p = real s / real n; c = wilson_center p (real n) z; m = wilson_margin p (real n) z
           in (max 0 (c - m), min 1 (c + m)))"

definition mover_difference_lower :: "nat \<Rightarrow> nat \<Rightarrow> nat \<Rightarrow> nat \<Rightarrow> real \<Rightarrow> real" where
  "mover_difference_lower s_llm n_llm s_classical n_classical z =
     (let p1 = precision_of s_llm n_llm; p2 = precision_of s_classical n_classical;
          l1 = fst (wilson_interval s_llm n_llm z); u2 = snd (wilson_interval s_classical n_classical z)
      in p1 - p2 - sqrt ((p1 - l1)\<^sup>2 + (u2 - p2)\<^sup>2))"

section \<open>One project and role\<close>

record role_comparison =
  rc_n :: nat
  rc_s_llm :: nat
  rc_n_llm :: nat
  rc_s_classical :: nat
  rc_n_classical :: nat

record role_eval =
  ev_project :: int
  ev_role_name :: string
  ev_n :: nat
  ev_precision_llm :: real
  ev_precision_classical :: real
  ev_diff_lower :: real
  ev_disabled :: bool
  ev_reason :: string

definition AUTO_DISABLE_MIN_N :: nat where "AUTO_DISABLE_MIN_N = 50"
definition AUTO_DISABLE_GAP :: real where "AUTO_DISABLE_GAP = 2 / 100"
definition AUTO_DISABLE_MIN_CLASSICAL_N :: nat where "AUTO_DISABLE_MIN_CLASSICAL_N = 50"
definition AUTO_DISABLE_PRECISION_FLOOR :: real where "AUTO_DISABLE_PRECISION_FLOOR = 95 / 100"
definition AUTO_DISABLE_MIN_LLM_N :: nat where "AUTO_DISABLE_MIN_LLM_N = 50"
definition AUTO_DISABLE_ABSOLUTE_FLOOR :: real where "AUTO_DISABLE_ABSOLUTE_FLOOR = 80 / 100"
definition EVAL_WINDOW :: seconds where "EVAL_WINDOW = 30 * 86400"
definition AUTO_DISABLE_REASON :: string where "AUTO_DISABLE_REASON = ''auto_disabled_precision''"
definition ABSOLUTE_DISABLE_REASON :: string where "ABSOLUTE_DISABLE_REASON = ''llm_below_absolute_floor''"

definition ALL_ROLES :: "string list" where
  "ALL_ROLES = [''explainer'', ''extractor'', ''judge'', ''coldstart'']"

text \<open>The verdict and its reason, in the order the criteria are asked.\<close>

definition disable_verdict :: "role_comparison \<Rightarrow> bool \<times> string" where
  "disable_verdict c =
     (let p_llm = precision_of (rc_s_llm c) (rc_n_llm c);
          p_classical = precision_of (rc_s_classical c) (rc_n_classical c);
          diff_lower = mover_difference_lower (rc_s_llm c) (rc_n_llm c) (rc_s_classical c) (rc_n_classical c) WILSON_Z;
          llm_upper = snd (wilson_interval (rc_s_llm c) (rc_n_llm c) WILSON_Z)
      in if rc_n_llm c \<ge> AUTO_DISABLE_MIN_LLM_N \<and> llm_upper < AUTO_DISABLE_ABSOLUTE_FLOOR
         then (True, ABSOLUTE_DISABLE_REASON)
         else if rc_n c < AUTO_DISABLE_MIN_N then (False, ''n_below_min'')
         else if rc_n_classical c < AUTO_DISABLE_MIN_CLASSICAL_N then (False, ''classical_arm_below_min'')
         else if p_llm \<ge> AUTO_DISABLE_PRECISION_FLOOR then (False, ''llm_above_precision_floor'')
         else if \<not> p_llm < p_classical - AUTO_DISABLE_GAP then (False, ''gap_within_tolerance'')
         else if \<not> diff_lower < 0 then (False, ''wilson_bound_nonnegative'')
         else (True, AUTO_DISABLE_REASON))"

definition evaluate_role :: "int \<Rightarrow> string \<Rightarrow> role_comparison \<Rightarrow> role_eval" where
  "evaluate_role p r c =
     \<lparr>ev_project = p, ev_role_name = r, ev_n = rc_n c,
      ev_precision_llm = precision_of (rc_s_llm c) (rc_n_llm c),
      ev_precision_classical = precision_of (rc_s_classical c) (rc_n_classical c),
      ev_diff_lower = mover_difference_lower (rc_s_llm c) (rc_n_llm c) (rc_s_classical c) (rc_n_classical c) WILSON_Z,
      ev_disabled = fst (disable_verdict c), ev_reason = snd (disable_verdict c)\<rparr>"

section \<open>The switch and the job\<close>

record role_state_row =
  rs_enabled :: bool
  rs_reason :: "string option"
  rs_decided_at :: seconds

type_synonym role_states = "int \<times> string \<rightharpoonup> role_state_row"

definition role_is_enabled :: "role_states \<Rightarrow> int \<Rightarrow> string \<Rightarrow> bool" where
  "role_is_enabled st p r = (case st (p, r) of None \<Rightarrow> True | Some row \<Rightarrow> rs_enabled row)"

definition set_role_state :: "seconds \<Rightarrow> int \<Rightarrow> string \<Rightarrow> bool \<Rightarrow> string option \<Rightarrow> role_states \<Rightarrow> role_states" where
  "set_role_state now p r on reason st =
     st((p, r) \<mapsto> \<lparr>rs_enabled = on, rs_reason = reason, rs_decided_at = now\<rparr>)"

text \<open>\<open>LIKE 'rubric+%'\<close> and \<open>LIKE 'rule_cold%'\<close>, whose underscore stands for any character.\<close>

definition is_rubric_ver :: "string \<Rightarrow> bool" where
  "is_rubric_ver v = starts_with ''rubric+'' v"

definition is_rule_cold_ver :: "string \<Rightarrow> bool" where
  "is_rule_cold_ver v \<longleftrightarrow> starts_with ''rule'' v \<and> starts_with ''cold'' (drop 5 v)"

definition count_if :: "('a \<Rightarrow> bool) \<Rightarrow> 'a list \<Rightarrow> nat" where
  "count_if p xs = length (filter p xs)"

definition coldstart_comparison :: "suggestion_row list \<Rightarrow> role_comparison" where
  "coldstart_comparison rs =
     (let resolved = (\<lambda>r. su_outcome r \<in> {''accepted'', ''corrected''});
          ok = (\<lambda>r. su_outcome r = ''accepted'');
          n = count_if (\<lambda>r. is_rubric_ver (su_model_ver r) \<and> resolved r) rs
      in \<lparr>rc_n = n,
          rc_s_llm = count_if (\<lambda>r. is_rubric_ver (su_model_ver r) \<and> ok r) rs,
          rc_n_llm = n,
          rc_s_classical = count_if (\<lambda>r. is_rule_cold_ver (su_model_ver r) \<and> ok r) rs,
          rc_n_classical = count_if (\<lambda>r. is_rule_cold_ver (su_model_ver r) \<and> resolved r) rs\<rparr>)"

type_synonym comparisons = "((int \<times> string) \<times> role_comparison) list"

definition role_comparisons :: "seconds \<Rightarrow> db \<Rightarrow> comparisons" where
  "role_comparisons since db =
     (let rows = filter (\<lambda>r. since \<le> su_created_at r) (db_suggestions db)
      in filter (\<lambda>kc. rc_n_llm (snd kc) \<noteq> 0)
           (map (\<lambda>p. ((p, ''coldstart''), coldstart_comparison (filter (\<lambda>r. su_project_id r = p) rows)))
             (remdups (map su_project_id rows))))"

definition eval_step :: "seconds \<Rightarrow> (int \<times> string) \<times> role_comparison \<Rightarrow> role_states \<Rightarrow> role_states" where
  "eval_step now kc st =
     (case kc of ((p, r), c) \<Rightarrow>
        let ev = evaluate_role p r c
        in if ev_disabled ev \<and> role_is_enabled st p r
           then set_role_state now p r False (Some (ev_reason ev)) st else st)"

text \<open>The evaluations, the switches after the run, and the gauge of switched-off projects by role.\<close>

definition eval_run ::
  "seconds \<Rightarrow> comparisons \<Rightarrow> role_states \<Rightarrow> role_eval list \<times> role_states \<times> (string \<times> nat) list" where
  "eval_run now comps st =
     (let sorted_comps = sort_key fst comps;
          results = map (\<lambda>((p, r), c). evaluate_role p r c) sorted_comps
      in (results, fold (eval_step now) sorted_comps st,
          map (\<lambda>r. (r, count_if (\<lambda>e. ev_disabled e \<and> ev_role_name e = r) results)) ALL_ROLES))"

definition nightly_eval :: "seconds \<Rightarrow> db \<Rightarrow> role_states \<Rightarrow> role_eval list \<times> role_states \<times> (string \<times> nat) list" where
  "nightly_eval now db st = eval_run now (role_comparisons (now - EVAL_WINDOW) db) st"

section \<open>The interval contains the proportion\<close>

lemma wilson_spread:
  assumes "0 \<le> p" and "p \<le> 1" and "0 < n" and "0 \<le> z"
  shows "\<bar>p - wilson_center p n z\<bar> \<le> wilson_margin p n z"
proof -
  let ?D = "1 + z * z / n"
  let ?X = "p * (1 - p) + z * z / (4 * n)"
  have D: "?D > 0" using assms by (simp add: add_pos_nonneg)
  have "p * ?D - (p + z * z / (2 * n)) = z * z / n * (p - 1 / 2)"
    using assms(3) by (simp add: field_simps)
  moreover have "p = p * ?D / ?D" using D by simp
  ultimately have diff: "p - wilson_center p n z = z * z / n * (p - 1 / 2) / ?D"
    unfolding wilson_center_def by (metis diff_divide_distrib)
  have X: "?X \<ge> 0" using assms by (intro add_nonneg_nonneg mult_nonneg_nonneg) simp_all
  have "(z * z / n * (p - 1 / 2))\<^sup>2 = z * z / n * (z * z / (4 * n) - z * z / n * (p * (1 - p)))"
    using assms(3) by (simp add: power2_eq_square field_simps)
  also have "\<dots> \<le> z * z / n * ?X"
  proof (rule mult_left_mono)
    have "0 \<le> p * (1 - p)" using assms by simp
    moreover have "0 \<le> z * z / n * (p * (1 - p))" using assms by simp
    ultimately show "z * z / (4 * n) - z * z / n * (p * (1 - p)) \<le> ?X" by linarith
    show "0 \<le> z * z / n" using assms by simp
  qed
  also have "\<dots> = (z * sqrt (?X / n))\<^sup>2"
  proof -
    have "0 \<le> ?X / n" using X assms(3) by simp
    then have "(sqrt (?X / n))\<^sup>2 = ?X / n" by (rule real_sqrt_pow2)
    then show ?thesis unfolding power_mult_distrib by (simp add: power2_eq_square)
  qed
  finally have "\<bar>z * z / n * (p - 1 / 2)\<bar> \<le> z * sqrt (?X / n)"
  proof -
    assume "(z * z / n * (p - 1 / 2))\<^sup>2 \<le> (z * sqrt (?X / n))\<^sup>2"
    then have "\<bar>z * z / n * (p - 1 / 2)\<bar> \<le> \<bar>z * sqrt (?X / n)\<bar>" by (simp only: abs_le_square_iff)
    moreover have "0 \<le> z * sqrt (?X / n)" using assms(3,4) X by simp
    ultimately show ?thesis by simp
  qed
  then have "\<bar>z * z / n * (p - 1 / 2)\<bar> / ?D \<le> z * sqrt (?X / n) / ?D"
    using D by (intro divide_right_mono) simp_all
  moreover have "\<bar>z * z / n * (p - 1 / 2) / ?D\<bar> = \<bar>z * z / n * (p - 1 / 2)\<bar> / ?D"
    using D by (subst abs_divide) (simp only: abs_of_pos)
  ultimately show ?thesis unfolding diff wilson_margin_def by (simp only:)
qed

lemma precision_range: "s \<le> n \<Longrightarrow> 0 \<le> precision_of s n \<and> precision_of s n \<le> 1"
  using count_ratio_range [of s n] by (simp add: precision_of_def)

lemma wilson_contains:
  assumes "s \<le> n" and "0 \<le> z"
  shows "0 \<le> fst (wilson_interval s n z)" "fst (wilson_interval s n z) \<le> precision_of s n"
    "precision_of s n \<le> snd (wilson_interval s n z)" "snd (wilson_interval s n z) \<le> 1"
proof -
  have "0 \<le> fst (wilson_interval s n z) \<and> fst (wilson_interval s n z) \<le> precision_of s n
      \<and> precision_of s n \<le> snd (wilson_interval s n z) \<and> snd (wilson_interval s n z) \<le> 1"
  proof (cases "n = 0")
    case False
    let ?p = "real s / real n"
    have p: "0 \<le> ?p" "?p \<le> 1" using precision_range [OF assms(1)] False by (simp_all add: precision_of_def)
    have "\<bar>?p - wilson_center ?p (real n) z\<bar> \<le> wilson_margin ?p (real n) z"
      using p False assms(2) by (intro wilson_spread) simp_all
    then show ?thesis using p False by (auto simp: wilson_interval_def precision_of_def Let_def abs_le_iff)
  qed (simp add: wilson_interval_def precision_of_def)
  then show "0 \<le> fst (wilson_interval s n z)" "fst (wilson_interval s n z) \<le> precision_of s n"
    "precision_of s n \<le> snd (wilson_interval s n z)" "snd (wilson_interval s n z) \<le> 1" by simp_all
qed

lemma mover_below_difference:
  "mover_difference_lower s1 n1 s2 n2 z \<le> precision_of s1 n1 - precision_of s2 n2"
  by (simp add: mover_difference_lower_def Let_def)

section \<open>What switches a role off\<close>

text \<open>The relative comparison without the bound.\<close>

definition worse_by_gap :: "role_comparison \<Rightarrow> bool" where
  "worse_by_gap c \<longleftrightarrow> AUTO_DISABLE_MIN_N \<le> rc_n c \<and> AUTO_DISABLE_MIN_CLASSICAL_N \<le> rc_n_classical c
     \<and> precision_of (rc_s_llm c) (rc_n_llm c) < AUTO_DISABLE_PRECISION_FLOOR
     \<and> precision_of (rc_s_llm c) (rc_n_llm c)
         < precision_of (rc_s_classical c) (rc_n_classical c) - AUTO_DISABLE_GAP"

definition bad_on_its_own :: "role_comparison \<Rightarrow> bool" where
  "bad_on_its_own c \<longleftrightarrow> AUTO_DISABLE_MIN_LLM_N \<le> rc_n_llm c
     \<and> snd (wilson_interval (rc_s_llm c) (rc_n_llm c) WILSON_Z) < AUTO_DISABLE_ABSOLUTE_FLOOR"

lemma gap_makes_bound_negative:
  assumes "precision_of s1 n1 < precision_of s2 n2 - AUTO_DISABLE_GAP"
  shows "mover_difference_lower s1 n1 s2 n2 z < 0"
  using mover_below_difference [of s1 n1 s2 n2 z] assms by (simp add: AUTO_DISABLE_GAP_def)

lemma disable_verdict_iff: "fst (disable_verdict c) \<longleftrightarrow> bad_on_its_own c \<or> worse_by_gap c"
  using gap_makes_bound_negative [of "rc_s_llm c" "rc_n_llm c" "rc_s_classical c" "rc_n_classical c" WILSON_Z]
  by (auto simp: disable_verdict_def bad_on_its_own_def worse_by_gap_def Let_def not_less not_le)


text \<open>
  A good role is never switched off. When the counts are those of an arm (no more successes than
  cases), a role that is switched off has at least one arm of 50 cases behind it and a precision below
  0.95: either below 0.80 with its whole confidence interval, or below the classical one.
\<close>

theorem disabled_role_is_bad:
  assumes "rc_s_llm c \<le> rc_n_llm c" and "ev_disabled (evaluate_role p r c)"
  shows "ev_precision_llm (evaluate_role p r c) < AUTO_DISABLE_PRECISION_FLOOR
     \<and> (50 \<le> rc_n_llm c \<and> ev_precision_llm (evaluate_role p r c) < AUTO_DISABLE_ABSOLUTE_FLOOR
        \<or> 50 \<le> rc_n_classical c
          \<and> ev_precision_llm (evaluate_role p r c) < ev_precision_classical (evaluate_role p r c))"
proof -
  have "precision_of (rc_s_llm c) (rc_n_llm c) \<le> snd (wilson_interval (rc_s_llm c) (rc_n_llm c) WILSON_Z)"
    using assms(1) by (intro wilson_contains) (simp_all add: WILSON_Z_def)
  with assms(2) show ?thesis
    by (auto simp: evaluate_role_def disable_verdict_iff bad_on_its_own_def worse_by_gap_def
        AUTO_DISABLE_PRECISION_FLOOR_def AUTO_DISABLE_ABSOLUTE_FLOOR_def AUTO_DISABLE_GAP_def
        AUTO_DISABLE_MIN_LLM_N_def AUTO_DISABLE_MIN_CLASSICAL_N_def)
qed

definition demo_comparison :: role_comparison where
  "demo_comparison = \<lparr>rc_n = 60, rc_s_llm = 50, rc_n_llm = 60, rc_s_classical = 60, rc_n_classical = 60\<rparr>"

lemma demo_disabled: "ev_disabled (evaluate_role 1 ''coldstart'' demo_comparison)"
  by (simp add: evaluate_role_def disable_verdict_iff worse_by_gap_def demo_comparison_def precision_of_def
      AUTO_DISABLE_MIN_N_def AUTO_DISABLE_MIN_CLASSICAL_N_def AUTO_DISABLE_PRECISION_FLOOR_def
      AUTO_DISABLE_GAP_def)

theorem disabled_role_is_bad_witness:
  "ev_precision_llm (evaluate_role 1 ''coldstart'' demo_comparison) < 95 / 100"
  using disabled_role_is_bad [OF _ demo_disabled]
  by (simp add: demo_comparison_def AUTO_DISABLE_PRECISION_FLOOR_def)

section \<open>What a run may change\<close>

lemma eval_step_keeps_off: "\<not> role_is_enabled st p r \<Longrightarrow> \<not> role_is_enabled (eval_step now kc st) p r"
  by (auto simp: eval_step_def role_is_enabled_def set_role_state_def Let_def split: prod.splits option.splits)

lemma eval_step_changes:
  "eval_step now ((q, s), c) st (p, r) = (if (q, s) = (p, r) \<and> fst (disable_verdict c) \<and> role_is_enabled st p r
     then Some \<lparr>rs_enabled = False, rs_reason = Some (snd (disable_verdict c)), rs_decided_at = now\<rparr>
     else st (p, r))"
  by (auto simp: eval_step_def set_role_state_def evaluate_role_def Let_def)

lemma eval_steps_keep_off: "\<not> role_is_enabled st p r \<Longrightarrow> fold (eval_step now) comps st (p, r) = st (p, r)"
proof (induction comps arbitrary: st)
  case (Cons kc comps)
  obtain q s c where kc: "kc = ((q, s), c)" by (cases kc) auto
  have "eval_step now kc st (p, r) = st (p, r)" using Cons.prems by (simp add: kc eval_step_changes)
  then show ?case using Cons.IH [OF eval_step_keeps_off [OF Cons.prems]] by simp
qed simp

lemma eval_steps_changes:
  "fold (eval_step now) comps st (p, r) = st (p, r)
   \<or> (role_is_enabled st p r \<and> \<not> role_is_enabled (fold (eval_step now) comps st) p r
      \<and> (\<exists>c. ((p, r), c) \<in> set comps \<and> fst (disable_verdict c)))"
proof (induction comps arbitrary: st)
  case (Cons kc comps)
  obtain q s c where kc: "kc = ((q, s), c)" by (cases kc) auto
  let ?st = "eval_step now kc st"
  show ?case
  proof (cases "?st (p, r) = st (p, r)")
    case True
    then have "role_is_enabled ?st p r = role_is_enabled st p r" by (simp add: role_is_enabled_def)
    with True Cons.IH [of ?st] show ?thesis by auto
  next
    case False
    then have h: "(q, s) = (p, r)" "fst (disable_verdict c)" "role_is_enabled st p r"
        "?st (p, r) = Some \<lparr>rs_enabled = False, rs_reason = Some (snd (disable_verdict c)), rs_decided_at = now\<rparr>"
      by (auto simp: kc eval_step_changes split: if_splits)
    then have off: "\<not> role_is_enabled ?st p r" by (simp add: role_is_enabled_def)
    then have "\<not> role_is_enabled (fold (eval_step now) comps ?st) p r"
      using eval_steps_keep_off [OF off, of now comps] by (simp add: role_is_enabled_def)
    with h kc show ?thesis by auto
  qed
qed simp

lemma eval_run_state: "fst (snd (eval_run now comps st)) = fold (eval_step now) (sort_key fst comps) st"
  by (simp add: eval_run_def Let_def)

text \<open>
  The nightly job only switches off, only the cold-start role, and only on evidence. After a run a
  switch is as it was, or it was on, is off, belongs to the cold-start role and the project's resolved
  suggestions of the window condemn it; a role that is off is never touched, so nothing is ever switched
  back on.
\<close>

theorem nightly_eval_only_disables:
  "fst (snd (nightly_eval now db st)) (p, r) = st (p, r)
   \<or> (role_is_enabled st p r \<and> \<not> role_is_enabled (fst (snd (nightly_eval now db st))) p r
      \<and> r = ''coldstart''
      \<and> (let c = coldstart_comparison (filter (\<lambda>s. su_project_id s = p)
               (filter (\<lambda>s. now - EVAL_WINDOW \<le> su_created_at s) (db_suggestions db)))
         in bad_on_its_own c \<or> worse_by_gap c))"
proof -
  let ?comps = "role_comparisons (now - EVAL_WINDOW) db"
  have "c = coldstart_comparison (filter (\<lambda>s. su_project_id s = p)
        (filter (\<lambda>s. now - EVAL_WINDOW \<le> su_created_at s) (db_suggestions db))) \<and> r = ''coldstart''"
    if "((p, r), c) \<in> set ?comps" for c
    using that by (auto simp: role_comparisons_def Let_def)
  then show ?thesis
    using eval_steps_changes [of now "sort_key fst ?comps" st p r]
    by (auto simp: nightly_eval_def eval_run_state disable_verdict_iff Let_def)
qed

lemma eval_steps_switch_off:
  "((p, r), c) \<in> set comps \<Longrightarrow> fst (disable_verdict c) \<Longrightarrow> \<not> role_is_enabled (fold (eval_step now) comps st) p r"
proof (induction comps arbitrary: st)
  case (Cons kc comps)
  show ?case
  proof (cases "kc = ((p, r), c)")
    case True
    have "\<not> role_is_enabled (eval_step now kc st) p r"
      using Cons.prems(2) eval_step_changes [of now p r c st p r]
      by (cases "role_is_enabled st p r") (simp_all add: True role_is_enabled_def)
    from eval_steps_keep_off [OF this, of now comps] this show ?thesis by (simp add: role_is_enabled_def)
  next
    case False
    then show ?thesis using Cons by simp
  qed
qed simp

lemma eval_steps_done:
  "\<forall>((p, r), c) \<in> set comps. fst (disable_verdict c) \<longrightarrow> \<not> role_is_enabled st p r \<Longrightarrow> fold (eval_step now) comps st = st"
  by (induction comps) (auto simp: eval_step_def evaluate_role_def Let_def)

text \<open>
  The job is idempotent: run again on the same comparisons it changes no switch, not even the time of
  the decision.
\<close>

theorem eval_run_idempotent:
  "fst (snd (eval_run now' comps (fst (snd (eval_run now comps st))))) = fst (snd (eval_run now comps st))"
  unfolding eval_run_state
proof (rule eval_steps_done, clarify)
  fix p r c
  assume "((p, r), c) \<in> set (sort_key fst comps)" and "fst (disable_verdict c)"
    and "role_is_enabled (fold (eval_step now) (sort_key fst comps) st) p r"
  then show False using eval_steps_switch_off by blast
qed

end
