(* ===== verification/LlmClient.thy ===== *)
theory LlmClient
  imports LlmEngine
begin

text \<open>
  The HTTP client of the sidecar (\<open>llm/client.py\<close>): what it makes of a reply of the chat endpoint or
  of the probe endpoints, in both dialects. A reply is its status and its parsed body; connecting,
  timeouts and JSON parsing are \<open>httpx\<close>'s and decide which of the two a call gets. A Python exception
  the client does not turn into \<open>LlmTransportError\<close> is a value of \<open>py_exn\<close>.
\<close>

section \<open>Python values\<close>

datatype py_exn = AttributeError | TypeError | KeyErr | IndexError | LlmTransportError

type_synonym 'a py = "py_exn + 'a"

definition bind_py :: "'a py \<Rightarrow> ('a \<Rightarrow> 'b py) \<Rightarrow> 'b py" where
  "bind_py m f = (case m of Inl e \<Rightarrow> Inl e | Inr x \<Rightarrow> f x)"

text \<open>\<open>v.get(k)\<close>, \<open>v[k]\<close> for a text key, \<open>v[0]\<close>, and what a \<open>for\<close> loop runs over.\<close>

definition get_attr :: "json \<Rightarrow> utext \<Rightarrow> json option py" where
  "get_attr v k = (case v of JObj d \<Rightarrow> Inr (jget d k) | _ \<Rightarrow> Inl AttributeError)"

definition get_key :: "json \<Rightarrow> utext \<Rightarrow> json py" where
  "get_key v k = (case v of
       JObj d \<Rightarrow> (case jget d k of Some x \<Rightarrow> Inr x | None \<Rightarrow> Inl KeyErr)
     | _ \<Rightarrow> Inl TypeError)"

definition get_first :: "json \<Rightarrow> json py" where
  "get_first v = (case v of
       JArr xs \<Rightarrow> (case xs of x # _ \<Rightarrow> Inr x | [] \<Rightarrow> Inl IndexError)
     | JStr s \<Rightarrow> (case s of c # _ \<Rightarrow> Inr (JStr [c]) | [] \<Rightarrow> Inl IndexError)
     | JObj d \<Rightarrow> Inl KeyErr
     | _ \<Rightarrow> Inl TypeError)"

definition iterate :: "json \<Rightarrow> json list py" where
  "iterate v = (case v of
       JArr xs \<Rightarrow> Inr xs
     | JStr s \<Rightarrow> Inr (map (\<lambda>c. JStr [c]) s)
     | JObj d \<Rightarrow> Inr (map (\<lambda>kv. JStr (fst kv)) d)
     | _ \<Rightarrow> Inl TypeError)"

fun collect :: "('a \<Rightarrow> 'b py) \<Rightarrow> 'a list \<Rightarrow> 'b list py" where
  "collect f [] = Inr []"
| "collect f (x # xs) = bind_py (f x) (\<lambda>y. bind_py (collect f xs) (\<lambda>ys. Inr (y # ys)))"

definition truthy :: "json \<Rightarrow> bool" where
  "truthy v = (case v of
       JNull \<Rightarrow> False | JBool b \<Rightarrow> b | JInt i \<Rightarrow> i \<noteq> 0 | JFloat r \<Rightarrow> r \<noteq> 0
     | JStr s \<Rightarrow> s \<noteq> [] | JArr xs \<Rightarrow> xs \<noteq> [] | JObj d \<Rightarrow> d \<noteq> [])"

text \<open>\<open>str(v)\<close>; \<open>repr\<close> of numbers, lists and dictionaries is an argument.\<close>

definition py_str :: "(json \<Rightarrow> utext) \<Rightarrow> json \<Rightarrow> utext" where
  "py_str repr v = (case v of
       JStr s \<Rightarrow> s | JNull \<Rightarrow> ustr ''None'' | JBool b \<Rightarrow> ustr (if b then ''True'' else ''False'') | _ \<Rightarrow> repr v)"

section \<open>Text\<close>

definition THINK_OPEN :: utext where "THINK_OPEN = ustr ''<think>''"
definition THINK_CLOSE :: utext where "THINK_CLOSE = ustr ''</think>''"

text \<open>What follows the first occurrence.\<close>

fun after_first :: "utext \<Rightarrow> utext \<Rightarrow> utext option" where
  "after_first n [] = (if n = [] then Some [] else None)"
| "after_first n (c # cs) =
     (if take (length n) (c # cs) = n then Some (drop (length n) (c # cs)) else after_first n cs)"

text \<open>\<open>^\s*<think>.*?</think>\s*\<close> removed once. A blank is no \<open><\<close>, so there is one way to match.\<close>

definition strip_think :: "utext \<Rightarrow> utext" where
  "strip_think t =
     (let s = dropWhile is_uspace t
      in if take (length THINK_OPEN) s = THINK_OPEN
         then (case after_first THINK_CLOSE (drop (length THINK_OPEN) s) of
                 Some r \<Rightarrow> dropWhile is_uspace r
               | None \<Rightarrow> t)
         else t)"

definition lower :: "char \<Rightarrow> char" where
  "lower c = (let n = of_char c :: nat in if 65 \<le> n \<and> n \<le> 90 then char_of (n + 32) else c)"

definition is_qwen3 :: "string \<Rightarrow> bool" where
  "is_qwen3 model = starts_with ''qwen3'' (map lower model)"

section \<open>Replies\<close>

text \<open>\<open>NoReply\<close>: any \<open>httpx.HTTPError\<close>. \<open>Reply s None\<close>: a body that is no JSON (a \<open>ValueError\<close>).\<close>

datatype http_reply = NoReply | Reply nat "json option"

text \<open>\<open>raise_for_status\<close> and \<open>json\<close>: both failures are caught by the same clause.\<close>

definition ok_body :: "http_reply \<Rightarrow> json py" where
  "ok_body r = (case r of
       Reply s (Some v) \<Rightarrow> if 200 \<le> s \<and> s < 300 then Inr v else Inl LlmTransportError
     | _ \<Rightarrow> Inl LlmTransportError)"

text \<open>The stop cause as text; a value that is no text equals no text the engine compares it with.\<close>

definition reason_of :: "json option \<Rightarrow> string option" where
  "reason_of v = (case v of Some (JStr s) \<Rightarrow> Some (map char_of s) | _ \<Rightarrow> None)"

definition flag_of :: "json option \<Rightarrow> bool" where
  "flag_of v = (case v of None \<Rightarrow> False | Some x \<Rightarrow> truthy x)"

definition native_response :: "(json \<Rightarrow> utext) \<Rightarrow> int \<Rightarrow> http_reply \<Rightarrow> chat_response py" where
  "native_response repr latency reply =
     bind_py (ok_body reply) (\<lambda>payload.
     bind_py (get_attr payload (ustr ''message'')) (\<lambda>m.
       case m of
         Some (JObj d) \<Rightarrow>
           (case jget d (ustr ''content'') of
              None \<Rightarrow> Inl LlmTransportError
            | Some c \<Rightarrow>
                bind_py (get_attr payload (ustr ''done_reason'')) (\<lambda>r.
                  Inr \<lparr>ch_content = strip_think (py_str repr c),
                       ch_tool_calls = flag_of (jget d (ustr ''tool_calls'')),
                       ch_latency_ms = latency, ch_finish_reason = reason_of r\<rparr>))
       | _ \<Rightarrow> Inl LlmTransportError))"

text \<open>\<open>except (httpx.HTTPError, ValueError, KeyError, IndexError)\<close>.\<close>

definition as_transport :: "'a py \<Rightarrow> 'a py" where
  "as_transport m = (case m of
       Inl e \<Rightarrow> Inl (if e \<in> {KeyErr, IndexError} then LlmTransportError else e) | Inr x \<Rightarrow> Inr x)"

definition openai_response :: "(json \<Rightarrow> utext) \<Rightarrow> int \<Rightarrow> http_reply \<Rightarrow> chat_response py" where
  "openai_response repr latency reply =
     bind_py
       (as_transport
         (bind_py (ok_body reply) (\<lambda>payload.
          bind_py (get_key payload (ustr ''choices'')) (\<lambda>cs.
          bind_py (get_first cs) (\<lambda>obj.
          bind_py (get_key obj (ustr ''message'')) (\<lambda>choice. Inr (obj, choice)))))))
       (\<lambda>(obj, choice).
          bind_py (get_attr choice (ustr ''content'')) (\<lambda>c.
          bind_py (get_attr obj (ustr ''finish_reason'')) (\<lambda>r.
          bind_py (get_attr choice (ustr ''tool_calls'')) (\<lambda>t.
            Inr \<lparr>ch_content = strip_think (case c of Some v \<Rightarrow> if truthy v then py_str repr v else [] | None \<Rightarrow> []),
                 ch_tool_calls = flag_of t, ch_latency_ms = latency,
                 ch_finish_reason = reason_of r\<rparr>))))"

datatype api_dialect = Ollama | OpenAI

record client_cfg =
  cl_model :: string
  cl_api :: api_dialect
  cl_num_ctx :: int

record chat_body =
  cb_endpoint :: string
  cb_system :: utext
  cb_user :: utext
  cb_schema :: schema
  cb_num_predict :: int
  cb_seed :: int

text \<open>The request of a chat turn; the fixed fields (\<open>think\<close>, \<open>stream\<close>, the zero temperature) are left out.\<close>

definition chat_body_of :: "client_cfg \<Rightarrow> chat_request \<Rightarrow> chat_body" where
  "chat_body_of cfg q =
     \<lparr>cb_endpoint = (case cl_api cfg of OpenAI \<Rightarrow> ''/v1/chat/completions'' | Ollama \<Rightarrow> ''/api/chat''),
      cb_system = (if is_qwen3 (cl_model cfg) then cq_system q @ [10] @ ustr ''/no_think'' else cq_system q),
      cb_user = cq_user q, cb_schema = cq_schema q, cb_num_predict = cq_num_predict q,
      cb_seed = cq_seed q\<rparr>"

definition response_of :: "api_dialect \<Rightarrow> (json \<Rightarrow> utext) \<Rightarrow> int \<Rightarrow> http_reply \<Rightarrow> chat_response py" where
  "response_of api = (case api of OpenAI \<Rightarrow> openai_response | Ollama \<Rightarrow> native_response)"

definition chat ::
  "(chat_body \<Rightarrow> 'w \<Rightarrow> http_reply \<times> int \<times> 'w) \<Rightarrow> (json \<Rightarrow> utext) \<Rightarrow> client_cfg \<Rightarrow> chat_request \<Rightarrow> 'w
     \<Rightarrow> chat_response py \<times> 'w" where
  "chat post repr cfg q w =
     (case post (chat_body_of cfg q) w of
        (reply, latency, w') \<Rightarrow> (response_of (cl_api cfg) repr latency reply, w'))"

section \<open>The probe\<close>

record probe_result =
  pr_reachable :: bool
  pr_model_present :: bool
  pr_version :: "json option"

definition unreachable :: probe_result where
  "unreachable = \<lparr>pr_reachable = False, pr_model_present = False, pr_version = None\<rparr>"

definition present_in :: "string \<Rightarrow> json list \<Rightarrow> bool" where
  "present_in model names \<longleftrightarrow>
     JStr (ustr model) \<in> set names \<or> JStr (ustr (model @ '':latest'')) \<in> set names"

text \<open>Lists and dictionaries cannot be members of a set.\<close>

definition hashable :: "json \<Rightarrow> json py" where
  "hashable v = (case v of JArr xs \<Rightarrow> Inl TypeError | JObj d \<Rightarrow> Inl TypeError | _ \<Rightarrow> Inr v)"

definition listed :: "json \<Rightarrow> utext \<Rightarrow> json list py" where
  "listed payload k =
     bind_py (get_attr payload k) (\<lambda>v. iterate (case v of Some x \<Rightarrow> x | None \<Rightarrow> JArr []))"

text \<open>\<open>except (httpx.HTTPError, ValueError)\<close>: the server counts as unreachable.\<close>

definition or_unreachable :: "probe_result py \<Rightarrow> probe_result py" where
  "or_unreachable m = (case m of Inl LlmTransportError \<Rightarrow> Inr unreachable | _ \<Rightarrow> m)"

definition openai_probe :: "(json \<Rightarrow> utext) \<Rightarrow> client_cfg \<Rightarrow> http_reply \<Rightarrow> probe_result py" where
  "openai_probe repr cfg models =
     or_unreachable
       (bind_py (ok_body models) (\<lambda>payload.
        bind_py (listed payload (ustr ''data'')) (\<lambda>ms.
        bind_py (collect (\<lambda>m. bind_py (get_attr m (ustr ''id'')) (\<lambda>v.
            Inr (JStr (py_str repr (case v of Some x \<Rightarrow> x | None \<Rightarrow> JStr []))))) ms) (\<lambda>names.
          Inr \<lparr>pr_reachable = True, pr_model_present = present_in (cl_model cfg) names,
               pr_version = None\<rparr>))))"

definition native_probe :: "client_cfg \<Rightarrow> http_reply \<Rightarrow> http_reply \<Rightarrow> probe_result py" where
  "native_probe cfg ver tags =
     or_unreachable
       (bind_py (ok_body ver) (\<lambda>v.
        bind_py (get_attr v (ustr ''version'')) (\<lambda>version.
        bind_py (ok_body tags) (\<lambda>payload.
        bind_py (listed payload (ustr ''models'')) (\<lambda>ms.
        bind_py (collect (\<lambda>m. bind_py (get_attr m (ustr ''name'')) (\<lambda>n.
            hashable (case n of Some x \<Rightarrow> x | None \<Rightarrow> JNull))) ms) (\<lambda>names.
          Inr \<lparr>pr_reachable = True, pr_model_present = present_in (cl_model cfg) names,
               pr_version = version\<rparr>))))))"

section \<open>Answers without the block of thoughts\<close>

section \<open>Answers without the block of thoughts\<close>

lemma THINK_CLOSE_text: "THINK_CLOSE = [60, 47, 116, 104, 105, 110, 107, 62]"
  by (simp add: THINK_CLOSE_def ustr_def)

lemma THINK_OPEN_text: "THINK_OPEN = [60, 116, 104, 105, 110, 107, 62]"
  by (simp add: THINK_OPEN_def ustr_def)

text \<open>The closing tag has its first character nowhere else, so it cannot overlap itself.\<close>

lemma close_no_border:
  assumes "0 < i" "i < length THINK_CLOSE"
  shows "THINK_CLOSE ! i \<noteq> hd THINK_CLOSE"
proof -
  have "list_all (\<lambda>j. THINK_CLOSE ! j \<noteq> hd THINK_CLOSE) [1, 2, 3, 4, 5, 6, 7]"
    by (simp add: THINK_CLOSE_text)
  moreover have "i \<in> set [1, 2, 3, 4, 5, 6, 7]" using assms by (auto simp: THINK_CLOSE_text)
  ultimately show ?thesis unfolding list_all_iff by blast
qed

lemma text_in_Cons: "text_in n xs \<Longrightarrow> text_in n (x # xs)"
  unfolding text_in_def by (metis Suc_le_mono drop_Suc_Cons length_Cons)

lemma not_in_Cons: "\<not> text_in n (x # xs) \<Longrightarrow> \<not> text_in n xs"
  using text_in_Cons by blast

lemma close_not_here:
  assumes "\<not> text_in THINK_CLOSE (c # cs)"
  shows "take (length THINK_CLOSE) ((c # cs) @ THINK_CLOSE @ rest) \<noteq> THINK_CLOSE"
proof
  assume eq: "take (length THINK_CLOSE) ((c # cs) @ THINK_CLOSE @ rest) = THINK_CLOSE"
  show False
  proof (cases "length THINK_CLOSE \<le> length (c # cs)")
    case True
    then have "take (length THINK_CLOSE) (drop 0 (c # cs)) = THINK_CLOSE"
      using eq by (simp only: take_append drop_0) simp
    then show False using assms unfolding text_in_def by blast
  next
    case False
    let ?k = "length (c # cs)"
    have "THINK_CLOSE ! ?k = take (length THINK_CLOSE) ((c # cs) @ THINK_CLOSE @ rest) ! ?k"
      by (simp only: eq)
    also have "\<dots> = (THINK_CLOSE @ rest) ! 0"
      using False by (simp only: nth_take not_le) (simp add: nth_append)
    also have "\<dots> = hd THINK_CLOSE" by (simp add: THINK_CLOSE_text)
    finally show False using close_no_border [of ?k] False by simp
  qed
qed

lemma after_first_close:
  "\<not> text_in THINK_CLOSE body \<Longrightarrow> after_first THINK_CLOSE (body @ THINK_CLOSE @ rest) = Some rest"
proof (induction body)
  case Nil
  show ?case by (simp add: THINK_CLOSE_text)
next
  case (Cons c cs)
  then show ?case
    using close_not_here [OF Cons.prems, of rest] not_in_Cons [OF Cons.prems] by simp
qed

lemma after_first_suffix: "after_first n t = Some r \<Longrightarrow> \<exists>a. t = a @ r"
proof (induction n t rule: after_first.induct)
  case (1 n)
  then show ?case by (simp split: if_splits)
next
  case (2 n c cs)
  show ?case
  proof (cases "take (length n) (c # cs) = n")
    case True
    then have "c # cs = n @ r" using 2(2) by (metis after_first.simps(2) append_take_drop_id option.inject)
    then show ?thesis by blast
  next
    case False
    then obtain a where "cs = a @ r" using 2 by auto
    then show ?thesis by (intro exI [of _ "c # a"]) simp
  qed
qed

lemma dropWhile_suffix: "\<exists>a. t = a @ dropWhile p t"
  by (metis takeWhile_dropWhile_id)

lemma strip_think_suffix: "\<exists>a. t = a @ strip_think t"
proof (cases "strip_think t = t")
  case False
  let ?s = "dropWhile is_uspace t"
  obtain r where r: "after_first THINK_CLOSE (drop (length THINK_OPEN) ?s) = Some r"
      "strip_think t = dropWhile is_uspace r"
    using False by (auto simp: strip_think_def Let_def split: if_splits option.splits)
  obtain a b where "t = a @ ?s" "drop (length THINK_OPEN) ?s = b @ r"
    using dropWhile_suffix after_first_suffix [OF r(1)] by metis
  then have "t = (a @ take (length THINK_OPEN) ?s @ b) @ r"
    by (metis append.assoc append_take_drop_id)
  then show ?thesis using dropWhile_suffix [of r is_uspace] r(2) by (metis append.assoc)
qed simp

text \<open>
  The block of thoughts is dropped and nothing of the answer is. A reply that begins, after blanks,
  with a block of thoughts yields exactly the answer behind the block and its blanks, whatever the
  block holds, up to the first closing tag.
\<close>

theorem strip_think_answer:
  assumes "list_all is_uspace before" "list_all is_uspace after"
    and "\<not> text_in THINK_CLOSE thoughts" and "answer = [] \<or> \<not> is_uspace (hd answer)"
  shows "strip_think (before @ THINK_OPEN @ thoughts @ THINK_CLOSE @ after @ answer) = answer"
proof -
  have blanks: "dropWhile is_uspace (xs @ ys) = dropWhile is_uspace ys" if "list_all is_uspace xs" for xs ys
    using that by (induction xs) auto
  have o: "dropWhile is_uspace (THINK_OPEN @ zs) = THINK_OPEN @ zs" for zs
    by (simp add: THINK_OPEN_text is_uspace_def)
  have a: "dropWhile is_uspace answer = answer"
    using assms(4) by (cases answer) auto
  show ?thesis
    unfolding strip_think_def Let_def blanks [OF assms(1)] o
    by (simp add: after_first_close [OF assms(3)] blanks [OF assms(2)] a)
qed

theorem strip_think_answer_witness:
  "strip_think (ustr ''<think>no</think> {}'') = ustr ''{}''"
proof -
  have n: "\<not> text_in THINK_CLOSE (ustr ''no'')"
  proof
    assume "text_in THINK_CLOSE (ustr ''no'')"
    then obtain i where "take (length THINK_CLOSE) (drop i (ustr ''no'')) = THINK_CLOSE"
      unfolding text_in_def by blast
    then have "length (take (length THINK_CLOSE) (drop i (ustr ''no''))) = length THINK_CLOSE" by simp
    then show False by (simp add: THINK_CLOSE_text ustr_def)
  qed
  have b: "list_all is_uspace (ustr '' '')" by (simp add: ustr_def is_uspace_def)
  have e: "ustr ''<think>no</think> {}'' = [] @ THINK_OPEN @ ustr ''no'' @ THINK_CLOSE @ ustr '' '' @ ustr ''{}''"
    by (simp add: THINK_OPEN_def THINK_CLOSE_def ustr_def)
  show ?thesis unfolding e
    by (rule strip_think_answer) (use n b in \<open>simp_all add: ustr_def is_uspace_def\<close>)
qed

section \<open>Which failures the breaker hears of\<close>

text \<open>A body of a good reply that is JSON and no object.\<close>

definition odd_body :: "http_reply \<Rightarrow> bool" where
  "odd_body reply = (case reply of
       Reply s (Some v) \<Rightarrow> 200 \<le> s \<and> s < 300 \<and> (case v of JObj d \<Rightarrow> False | _ \<Rightarrow> True)
     | _ \<Rightarrow> False)"

lemmas reply_defs = bind_py_def ok_body_def get_attr_def get_key_def get_first_def as_transport_def

lemma ok_body_cases:
  "ok_body reply = Inl LlmTransportError \<or> (\<exists>s v. reply = Reply s (Some v) \<and> 200 \<le> s \<and> s < 300 \<and> ok_body reply = Inr v)"
  by (auto simp: ok_body_def split: http_reply.splits option.splits)

lemma native_odd: "odd_body reply \<Longrightarrow> native_response repr l reply = Inl AttributeError"
  by (auto simp: odd_body_def native_response_def reply_defs split: http_reply.splits option.splits json.splits)

lemma native_even: "\<not> odd_body reply \<Longrightarrow> native_response repr l reply = Inl e \<Longrightarrow> e = LlmTransportError"
  by (auto simp: odd_body_def native_response_def reply_defs
      split: http_reply.splits option.splits json.splits if_splits)

lemma openai_odd: "odd_body reply \<Longrightarrow> openai_response repr l reply = Inl TypeError"
  by (auto simp: odd_body_def openai_response_def reply_defs split: http_reply.splits option.splits json.splits)

text \<open>
  Every failure of the native endpoint counts towards the breaker, with one exception. A reply that
  is missing, has an error status, is no JSON or lacks the message is the transport error the breaker
  counts; only a good reply whose body is JSON but no object is not, and then the exception is another
  one, in both dialects: the run is aborted without an event, a retry or a failure on the breaker,
  although the client promises the transport error for a malformed body.
\<close>

theorem client_failure_classes:
  "(case native_response repr l reply of
      Inr resp \<Rightarrow> \<not> odd_body reply
    | Inl e \<Rightarrow> e = (if odd_body reply then AttributeError else LlmTransportError))
   \<and> (odd_body reply \<longrightarrow> openai_response repr l reply = Inl TypeError)"
proof (cases "odd_body reply")
  case True
  then show ?thesis by (simp add: native_odd openai_odd)
next
  case False
  then show ?thesis using native_even [OF False, of repr l] by (simp split: sum.split)
qed

theorem client_failure_classes_witness:
  "native_response (\<lambda>_. []) 5 (Reply 200 (Some (JArr []))) = Inl AttributeError
   \<and> openai_response (\<lambda>_. []) 5 (Reply 200 (Some (JArr []))) = Inl TypeError"
proof -
  have "odd_body (Reply 200 (Some (JArr [])))" by (simp add: odd_body_def)
  then show ?thesis using client_failure_classes [where reply = "Reply 200 (Some (JArr []))" and repr = "\<lambda>_. []" and l = 5]
    by (simp split: sum.splits)
qed

text \<open>A null content is the text \<open>None\<close> natively and empty in the other dialect.\<close>

lemma null_content:
  "native_response repr l (Reply 200 (Some (JObj [(ustr ''message'', JObj [(ustr ''content'', JNull)])])))
     = Inr \<lparr>ch_content = ustr ''None'', ch_tool_calls = False, ch_latency_ms = l, ch_finish_reason = None\<rparr>"
proof -
  have "strip_think (ustr ''None'') = ustr ''None''"
    by (simp add: strip_think_def ustr_def is_uspace_def THINK_OPEN_text)
  then show ?thesis
    by (simp add: native_response_def reply_defs jget_def py_str_def flag_of_def reason_of_def)
qed

end
