(* ===== verification/LlmQueue.thy ===== *)
theory LlmQueue
  imports Prelude
begin

text \<open>
  The bounded LLM job queue and its single worker (\<open>llm/queue.py\<close>). The heap holds triples of
  priority, insertion sequence and job; \<open>heapq\<close> is modelled by the sorted list of its entries,
  which is a heap and whose order no code path observes otherwise: push is sorted insertion, pop
  takes the head, heapify sorts. \<open>jq_drops\<close> lists the reasons given to the \<open>on_drop\<close> callback,
  \<open>jq_done\<close> the jobs handed to \<open>process\<close>, newest first. Every method holds the lock, so an
  interleaving of producers and the worker is a sequence of whole operations.
\<close>

section \<open>Jobs\<close>

record 'p llm_job =
  job_role :: string
  job_project_id :: int
  job_item_id :: int
  job_payload :: 'p

definition ROLE_PRIORITY :: "string \<rightharpoonup> int" where
  "ROLE_PRIORITY = [''judge'' \<mapsto> 0, ''extractor'' \<mapsto> 1, ''coldstart'' \<mapsto> 1, ''explainer'' \<mapsto> 2,
                    ''abstain_explainer'' \<mapsto> 2]"

text \<open>\<open>ROLE_PRIORITY[self.role]\<close> raises \<open>KeyError\<close> for any other role.\<close>

definition priority :: "'p llm_job \<Rightarrow> int option" where
  "priority j = ROLE_PRIORITY (job_role j)"

section \<open>The heap\<close>

type_synonym 'p entry = "int \<times> int \<times> 'p llm_job"

definition entry_key :: "'p entry \<Rightarrow> int \<times> int" where
  "entry_key e = (fst e, fst (snd e))"

definition entry_job :: "'p entry \<Rightarrow> 'p llm_job" where
  "entry_job e = snd (snd e)"

definition heappush :: "'p entry \<Rightarrow> 'p entry list \<Rightarrow> 'p entry list" where
  "heappush e h = insort_key entry_key e h"

definition heapify :: "'p entry list \<Rightarrow> 'p entry list" where
  "heapify h = sort_key entry_key h"

section \<open>The queue\<close>

datatype queue_error = KeyError | ValueError

record 'p llm_queue =
  jq_heap :: "'p entry list"
  jq_seq :: int
  jq_stopping :: bool
  jq_started :: bool
  jq_drops :: "string list"
  jq_done :: "'p llm_job list"

definition queue_init :: "'p llm_queue" where
  "queue_init = \<lparr>jq_heap = [], jq_seq = 0, jq_stopping = False, jq_started = False,
                 jq_drops = [], jq_done = []\<rparr>"

definition qsize :: "'p llm_queue \<Rightarrow> nat" where
  "qsize q = length (jq_heap q)"

text \<open>The oldest entry of the least urgent band: the first index with the smallest sequence.\<close>

definition evict_index :: "'p entry list \<Rightarrow> int \<Rightarrow> nat option" where
  "evict_index h worst =
     py_max (\<lambda>i. - fst (snd (h ! i))) (filter (\<lambda>i. fst (h ! i) = worst) [0..<length h])"

text \<open>
  \<open>_reject_or_evict_locked\<close>: the error a call raises, or whether it rejected the newcomer. The
  drop is reported before the newcomer's priority is read.
\<close>

definition reject_or_evict ::
  "'p llm_job \<Rightarrow> 'p llm_queue \<Rightarrow> (queue_error + bool) \<times> 'p llm_queue" where
  "reject_or_evict incoming q =
     (let h = jq_heap q in
      case py_max (\<lambda>p. p) (map fst h) of
        None \<Rightarrow> (Inl ValueError, q)
      | Some worst \<Rightarrow>
          (case evict_index h worst of
             None \<Rightarrow> (Inl ValueError, q)
           | Some i \<Rightarrow>
               (let q' = q\<lparr>jq_drops := ''queue_full'' # jq_drops q\<rparr> in
                case priority incoming of
                  None \<Rightarrow> (Inl KeyError, q')
                | Some p \<Rightarrow>
                    if p > worst then (Inr True, q')
                    else (Inr False, q'\<lparr>jq_heap := heapify (butlast (h[i := last h]))\<rparr>))))"

definition push_job :: "'p llm_job \<Rightarrow> 'p llm_queue \<Rightarrow> queue_error option \<times> 'p llm_queue" where
  "push_job job q =
     (case priority job of
        None \<Rightarrow> (Some KeyError, q)
      | Some p \<Rightarrow> (None, q\<lparr>jq_heap := heappush (p, jq_seq q, job) (jq_heap q),
                          jq_seq := jq_seq q + 1\<rparr>))"

definition enqueue ::
  "nat \<Rightarrow> 'p llm_job \<Rightarrow> 'p llm_queue \<Rightarrow> queue_error option \<times> 'p llm_queue" where
  "enqueue maxsize job q =
     (if length (jq_heap q) \<ge> maxsize then
        (case reject_or_evict job q of
           (Inl e, q') \<Rightarrow> (Some e, q')
         | (Inr True, q') \<Rightarrow> (None, q')
         | (Inr False, q') \<Rightarrow> push_job job q')
      else push_job job q)"

text \<open>
  \<open>_pop_blocking\<close> once its wait is over (the queue is stopping or holds a job); a call that would
  go on waiting is the outcome \<open>None\<close>.
\<close>

definition pop_blocking :: "'p llm_queue \<Rightarrow> ('p llm_job option \<times> 'p llm_queue) option" where
  "pop_blocking q =
     (if jq_heap q = [] \<and> \<not> jq_stopping q then None
      else if jq_stopping q \<or> jq_heap q = [] then Some (None, q)
      else Some (Some (entry_job (hd (jq_heap q))), q\<lparr>jq_heap := tl (jq_heap q)\<rparr>))"

text \<open>\<open>_safe_process\<close> swallows whatever the role raises, so processing always completes.\<close>

definition safe_process :: "'p llm_job \<Rightarrow> 'p llm_queue \<Rightarrow> 'p llm_queue" where
  "safe_process job q = q\<lparr>jq_done := job # jq_done q\<rparr>"

definition drain_once :: "'p llm_queue \<Rightarrow> bool \<times> 'p llm_queue" where
  "drain_once q =
     (if jq_heap q = [] then (False, q)
      else (True, safe_process (entry_job (hd (jq_heap q))) (q\<lparr>jq_heap := tl (jq_heap q)\<rparr>)))"

definition start :: "'p llm_queue \<Rightarrow> 'p llm_queue" where
  "start q = (if jq_started q then q else q\<lparr>jq_started := True\<rparr>)"

definition stop :: "'p llm_queue \<Rightarrow> 'p llm_queue" where
  "stop q = q\<lparr>jq_stopping := True, jq_started := False\<rparr>"

text \<open>One turn of the worker loop \<open>_run\<close>: it waits, ends, or processes one job.\<close>

datatype worker = Waiting | Working | Ended

definition worker_turn :: "'p llm_queue \<Rightarrow> worker \<times> 'p llm_queue" where
  "worker_turn q =
     (case pop_blocking q of
        None \<Rightarrow> (Waiting, q)
      | Some (None, q') \<Rightarrow> (Ended, q')
      | Some (Some job, q') \<Rightarrow> (Working, safe_process job q'))"

section \<open>Invariant\<close>

definition queue_ok :: "nat \<Rightarrow> 'p llm_queue \<Rightarrow> bool" where
  "queue_ok maxsize q \<longleftrightarrow>
     sorted (map entry_key (jq_heap q)) \<and> distinct (map (fst \<circ> snd) (jq_heap q))
     \<and> (\<forall>e \<in> set (jq_heap q). fst (snd e) < jq_seq q \<and> priority (entry_job e) = Some (fst e))
     \<and> length (jq_heap q) \<le> maxsize"

lemmas queue_defs =
  enqueue_def push_job_def reject_or_evict_def drain_once_def safe_process_def heappush_def
  heapify_def start_def stop_def

lemma sorted_butlast_map: "sorted (map f xs) \<Longrightarrow> sorted (map f (tl xs))"
  by (cases xs) auto

lemma py_max_id_list:
  "h \<noteq> [] \<Longrightarrow> \<exists>w. py_max (\<lambda>p. p) (map fst h) = Some w \<and> w \<in> fst ` set h \<and> (\<forall>e \<in> set h. fst e \<le> w)"
proof -
  assume "h \<noteq> []"
  then obtain w where w: "py_max (\<lambda>p. p) (map fst h) = Some w"
    using py_max_None_iff [of "\<lambda>p. p" "map fst h"] by (cases "py_max (\<lambda>p. p) (map fst h)") auto
  have "w \<in> fst ` set h" using py_max_in [OF w] by simp
  moreover have "\<forall>e \<in> set h. fst e \<le> w" using py_max_ge [OF w] by auto
  ultimately show ?thesis using w by blast
qed

lemma evict_index_Some:
  assumes "w \<in> fst ` set h"
  obtains i where "evict_index h w = Some i" "i < length h" "fst (h ! i) = w"
    "\<forall>e \<in> set h. fst e = w \<longrightarrow> fst (snd (h ! i)) \<le> fst (snd e)"
proof -
  let ?is = "filter (\<lambda>i. fst (h ! i) = w) [0..<length h]"
  from assms obtain j where j: "j < length h" "fst (h ! j) = w"
    by (auto simp: in_set_conv_nth)
  then have "?is \<noteq> []" by (auto simp: filter_empty_conv)
  then obtain i where i: "evict_index h w = Some i"
    unfolding evict_index_def using py_max_None_iff by blast
  have mem: "i \<in> set ?is" using i unfolding evict_index_def by (rule py_max_in)
  have "fst (snd (h ! i)) \<le> fst (snd e)" if "e \<in> set h" "fst e = w" for e
  proof -
    from that obtain k where k: "k < length h" "h ! k = e" by (auto simp: in_set_conv_nth)
    with that have "k \<in> set ?is" by auto
    from py_max_ge [OF i [unfolded evict_index_def] this] show ?thesis using k by simp
  qed
  with i mem show thesis by (intro that) auto
qed

text \<open>Overwriting entry \<open>i\<close> by the last one and dropping the last removes entry \<open>i\<close>.\<close>

lemma mset_swap_pop:
  assumes "i < length h"
  shows "mset (butlast (h[i := last h])) = mset h - {#h ! i#}"
proof -
  have ne: "h \<noteq> []" using assms by auto
  have ab: "h = butlast h @ [last h]" using ne by simp
  show ?thesis
  proof (cases "i = length h - 1")
    case True
    then have "h[i := last h] = h" using ne by (metis last_conv_nth list_update_id)
    moreover have "mset h = mset (butlast h) + {#last h#}" by (subst ab) simp
    ultimately show ?thesis using True ne by (simp add: last_conv_nth)
  next
    case False
    then have i: "i < length (butlast h)" using assms by simp
    have "h[i := last h] = (butlast h)[i := last h] @ [last h]"
      using i by (subst ab) (simp add: list_update_append)
    then have "mset (butlast (h[i := last h])) = mset (butlast h) - {#butlast h ! i#} + {#last h#}"
      using i by (simp add: mset_update)
    moreover have "butlast h ! i = h ! i" using i by (simp add: nth_butlast)
    moreover have "mset h = add_mset (last h) (mset (butlast h))"
      by (subst ab) simp
    moreover have "butlast h ! i \<in># mset (butlast h)" using i by simp
    ultimately show ?thesis by (simp add: add_mset_commute)
  qed
qed

section \<open>What one enqueue does\<close>

lemma queue_ok_parts:
  "queue_ok m q \<Longrightarrow> sorted (map entry_key (jq_heap q))"
  "queue_ok m q \<Longrightarrow> distinct (map (fst \<circ> snd) (jq_heap q))"
  "queue_ok m q \<Longrightarrow> e \<in> set (jq_heap q) \<Longrightarrow> fst (snd e) < jq_seq q"
  "queue_ok m q \<Longrightarrow> e \<in> set (jq_heap q) \<Longrightarrow> priority (entry_job e) = Some (fst e)"
  "queue_ok m q \<Longrightarrow> length (jq_heap q) \<le> m"
  by (simp_all add: queue_ok_def)

lemma queue_ok_intro:
  assumes "queue_ok m q" and "priority j = Some p"
    and "mset h = add_mset (p, jq_seq q, j) (mset (jq_heap q) - A)"
    and "sorted (map entry_key h)" and "size h \<le> m"
    and "jq_heap q' = h" "jq_seq q' = jq_seq q + 1"
  shows "queue_ok m q'"
proof -
  have sub: "mset (jq_heap q) - A \<subseteq># mset (jq_heap q)" by simp
  obtain r where r: "mset r = mset (jq_heap q) - A" by (metis ex_mset)
  obtain s where s: "mset s = mset (jq_heap q) - mset r" by (metis ex_mset)
  have "mset (r @ s) = mset (jq_heap q)" using sub by (simp add: s r)
  then have "mset (map (fst \<circ> snd) (r @ s)) = mset (map (fst \<circ> snd) (jq_heap q))"
    by (metis mset_map)
  then have d: "distinct (map (fst \<circ> snd) r)"
    using queue_ok_parts(2) [OF assms(1)] mset_eq_imp_distinct_iff by fastforce
  have rs: "set r \<subseteq> set (jq_heap q)" using sub by (metis r set_mset_mono set_mset_mset)
  have eq: "mset h = mset ((p, jq_seq q, j) # r)" using assms(3) r by simp
  have "jq_seq q \<notin> (fst \<circ> snd) ` set r" using rs queue_ok_parts(3) [OF assms(1)] by fastforce
  then have "distinct (map (fst \<circ> snd) ((p, jq_seq q, j) # r))" using d by simp
  moreover have "mset (map (fst \<circ> snd) h) = mset (map (fst \<circ> snd) ((p, jq_seq q, j) # r))"
    using eq by (metis mset_map)
  ultimately have dh: "distinct (map (fst \<circ> snd) h)" using mset_eq_imp_distinct_iff by blast
  have sh: "set h = insert (p, jq_seq q, j) (set r)" using mset_eq_setD [OF eq] by simp
  have "\<forall>e \<in> set h. fst (snd e) < jq_seq q + 1 \<and> priority (entry_job e) = Some (fst e)"
    using rs assms(2) queue_ok_parts(3,4) [OF assms(1)] unfolding sh by (force simp: entry_job_def)
  with dh assms(4-7) show ?thesis by (simp add: queue_ok_def)
qed

lemma enqueue_cases:
  assumes "queue_ok m q" and "1 \<le> m" and "priority j = Some p" and "enqueue m j q = (r, q')"
  obtains (room) "r = None" "qsize q < m" "jq_drops q' = jq_drops q"
      "mset (jq_heap q') = add_mset (p, jq_seq q, j) (mset (jq_heap q))"
      "jq_seq q' = jq_seq q + 1" "sorted (map entry_key (jq_heap q'))"
    | (rejected) "r = None" "qsize q = m" "\<forall>e \<in> set (jq_heap q). fst e < p"
      "q' = q\<lparr>jq_drops := ''queue_full'' # jq_drops q\<rparr>"
    | (evicted) e where "r = None" "qsize q = m" "e \<in> set (jq_heap q)"
      "\<forall>e' \<in> set (jq_heap q). fst e' \<le> fst e \<and> (fst e' = fst e \<longrightarrow> fst (snd e) \<le> fst (snd e'))"
      "p \<le> fst e" "jq_drops q' = ''queue_full'' # jq_drops q"
      "mset (jq_heap q') = add_mset (p, jq_seq q, j) (mset (jq_heap q) - {#e#})"
      "jq_seq q' = jq_seq q + 1" "sorted (map entry_key (jq_heap q'))"
proof (cases "m \<le> length (jq_heap q)")
  case False
  then have "q' = q\<lparr>jq_heap := heappush (p, jq_seq q, j) (jq_heap q), jq_seq := jq_seq q + 1\<rparr>"
    "r = None" using assms(3,4) by (simp_all add: enqueue_def push_job_def)
  then show thesis
    using False queue_ok_parts(1) [OF assms(1)]
    by (intro room) (simp_all add: qsize_def heappush_def sorted_insort_key)
next
  case True
  then have full: "length (jq_heap q) = m" using queue_ok_parts(5) [OF assms(1)] by simp
  then have "jq_heap q \<noteq> []" using assms(2) by auto
  from py_max_id_list [OF this] obtain w where
    w: "py_max (\<lambda>p. p) (map fst (jq_heap q)) = Some w" "w \<in> fst ` set (jq_heap q)"
      "\<forall>e \<in> set (jq_heap q). fst e \<le> w" by blast
  obtain i where i: "evict_index (jq_heap q) w = Some i" "i < length (jq_heap q)"
      "fst (jq_heap q ! i) = w"
      "\<forall>e \<in> set (jq_heap q). fst e = w \<longrightarrow> fst (snd (jq_heap q ! i)) \<le> fst (snd e)"
    using evict_index_Some [OF w(2)] by metis
  let ?q = "q\<lparr>jq_drops := ''queue_full'' # jq_drops q\<rparr>"
  show thesis
  proof (cases "w < p")
    case True
    have "reject_or_evict j q = (Inr True, ?q)"
      using True by (simp add: reject_or_evict_def w(1) i(1) assms(3))
    then have "r = None" "q' = ?q" using full assms(4) by (simp_all add: enqueue_def)
    then show thesis using full w(3) True by (intro rejected) (auto simp: qsize_def)
  next
    case False
    let ?h = "heapify (butlast ((jq_heap q)[i := last (jq_heap q)]))"
    have "reject_or_evict j q = (Inr False, ?q\<lparr>jq_heap := ?h\<rparr>)"
      using False by (simp add: reject_or_evict_def Let_def w(1) i(1) assms(3))
    then have q': "r = None"
      "q' = ?q\<lparr>jq_heap := heappush (p, jq_seq q, j) ?h, jq_seq := jq_seq q + 1\<rparr>"
      using full assms(3,4) by (simp_all add: enqueue_def push_job_def)
    have m: "mset ?h = mset (jq_heap q) - {#jq_heap q ! i#}"
      by (simp add: heapify_def mset_swap_pop [OF i(2)])
    have s: "sorted (map entry_key ?h)" by (simp add: heapify_def)
    have mem: "jq_heap q ! i \<in> set (jq_heap q)" using i(2) by simp
    show thesis
      by (rule evicted [OF q'(1) _ mem])
        (use full w(3) i(3,4) False m s in \<open>auto simp: q' qsize_def heappush_def sorted_insort_key\<close>)
  qed
qed

lemma enqueue_ok:
  assumes "queue_ok m q" and "1 \<le> m" and "priority j = Some p"
  shows "queue_ok m (snd (enqueue m j q))" and "fst (enqueue m j q) = None"
proof -
  obtain r q' where e: "enqueue m j q = (r, q')" by (cases "enqueue m j q")
  have "queue_ok m q' \<and> r = None"
    using assms e
  proof (cases rule: enqueue_cases)
    case room
    have "size (jq_heap q') \<le> m" using room(2) arg_cong [OF room(4), of size] by (simp add: qsize_def)
    then show ?thesis
      using queue_ok_intro [OF assms(1,3), of "jq_heap q'" "{#}" q'] room by simp
  next
    case rejected
    then show ?thesis using assms(1) by (simp add: queue_ok_def)
  next
    case (evicted e)
    have "size (jq_heap q') \<le> m"
      using evicted(2,3) arg_cong [OF evicted(7), of size] assms(2)
      by (simp add: qsize_def size_Diff_singleton)
    then show ?thesis
      using queue_ok_intro [OF assms(1,3) evicted(7) evicted(9)] evicted(1,8) by simp
  qed
  then show "queue_ok m (snd (enqueue m j q))" "fst (enqueue m j q) = None" by (simp_all add: e)
qed

text \<open>
  Overflow keeps the urgent work. Enqueueing into a full queue of capacity at least one counts
  exactly one drop and leaves the size unchanged; the newcomer is rejected exactly when it is less
  urgent than everything queued, and otherwise the one job that goes is the oldest of the least
  urgent band - also when the newcomer is only equally urgent. Below capacity nothing is dropped.
\<close>

theorem enqueue_overflow:
  assumes "queue_ok m q" and "1 \<le> m" and "priority j = Some p"
    and "enqueue m j q = (r, q')"
  shows "r = None \<and> queue_ok m q'
    \<and> (qsize q < m \<longrightarrow> qsize q' = qsize q + 1 \<and> jq_drops q' = jq_drops q)
    \<and> (qsize q = m \<longrightarrow> qsize q' = m \<and> jq_drops q' = ''queue_full'' # jq_drops q
        \<and> (if \<forall>e \<in> set (jq_heap q). fst e < p then jq_heap q' = jq_heap q
           else \<exists>e \<in> set (jq_heap q).
                  mset (jq_heap q') = add_mset (p, jq_seq q, j) (mset (jq_heap q) - {#e#})
                  \<and> (\<forall>e' \<in> set (jq_heap q). fst e' < fst e
                       \<or> fst e' = fst e \<and> fst (snd e) \<le> fst (snd e'))))"
proof -
  have ok: "r = None" "queue_ok m q'" using enqueue_ok [OF assms(1-3)] assms(4) by simp_all
  show ?thesis
    using assms
  proof (cases rule: enqueue_cases)
    case room
    have "length (jq_heap q') = length (jq_heap q) + 1"
      using arg_cong [OF room(4), of size] by simp
    then show ?thesis using ok room(2,3) by (simp add: qsize_def)
  next
    case rejected
    then show ?thesis using ok by (auto simp: qsize_def)
  next
    case (evicted e)
    have n: "\<not> (\<forall>e \<in> set (jq_heap q). fst e < p)" using evicted(3,5) by force
    have "qsize q' = m"
      using evicted(2,3) arg_cong [OF evicted(7), of size] assms(2)
      by (simp add: qsize_def size_Diff_singleton)
    moreover have "\<forall>e' \<in> set (jq_heap q). fst e' < fst e
        \<or> fst e' = fst e \<and> fst (snd e) \<le> fst (snd e')" using evicted(4) by fastforce
    ultimately show ?thesis using ok n evicted(2,3,6,7) by auto
  qed
qed

definition demo_job :: "string \<Rightarrow> int \<Rightarrow> unit llm_job" where
  "demo_job role i = \<lparr>job_role = role, job_project_id = 1, job_item_id = i, job_payload = ()\<rparr>"

lemma queue_ok_init: "queue_ok m queue_init"
  by (simp add: queue_ok_def queue_init_def)

theorem enqueue_overflow_witness:
  "qsize (snd (enqueue 1 (demo_job ''judge'' 2) (snd (enqueue 1 (demo_job ''explainer'' 1) queue_init)))) = 1"
proof -
  let ?q = "snd (enqueue 1 (demo_job ''explainer'' 1) queue_init)"
  have p: "priority (demo_job ''explainer'' 1) = Some 2" "priority (demo_job ''judge'' 2) = Some 0"
    by (simp_all add: priority_def demo_job_def ROLE_PRIORITY_def)
  have one: "(1::nat) \<le> 1" by simp
  have ok: "queue_ok 1 ?q" by (rule enqueue_ok(1) [OF queue_ok_init one p(1)])
  have "qsize ?q = 1"
    by (simp add: enqueue_def push_job_def p queue_init_def qsize_def heappush_def)
  then show ?thesis
    using enqueue_overflow [OF ok one p(2) prod.collapse [symmetric]] by simp
qed

section \<open>Order of processing\<close>

text \<open>Enqueueing a list of jobs, and draining \<open>n\<close> jobs.\<close>

definition enqueue_all :: "nat \<Rightarrow> 'p llm_job list \<Rightarrow> 'p llm_queue \<Rightarrow> 'p llm_queue" where
  "enqueue_all m js q = foldl (\<lambda>q j. snd (enqueue m j q)) q js"

fun drain :: "nat \<Rightarrow> 'p llm_queue \<Rightarrow> 'p llm_queue" where
  "drain 0 q = q"
| "drain (Suc n) q = drain n (snd (drain_once q))"

definition known_roles :: "'p llm_job list \<Rightarrow> bool" where
  "known_roles js \<longleftrightarrow> (\<forall>j \<in> set js. priority j \<noteq> None)"

definition job_rank :: "'p llm_job \<Rightarrow> int" where
  "job_rank j = the (priority j)"

lemma drain_done:
  "n = length (jq_heap q) \<Longrightarrow> jq_done (drain n q) = rev (map entry_job (jq_heap q)) @ jq_done q
     \<and> jq_heap (drain n q) = []"
proof (induction n arbitrary: q)
  case 0
  then show ?case by simp
next
  case (Suc n)
  then obtain e h where h: "jq_heap q = e # h" by (cases "jq_heap q") auto
  have "snd (drain_once q) = q\<lparr>jq_heap := h, jq_done := entry_job e # jq_done q\<rparr>"
    by (simp add: drain_once_def safe_process_def h)
  then show ?case
    using Suc.IH [of "q\<lparr>jq_heap := h, jq_done := entry_job e # jq_done q\<rparr>"] Suc.prems h by simp
qed

text \<open>The entries of jobs pushed in turn, from sequence number \<open>s\<close> on.\<close>

fun entries :: "int \<Rightarrow> 'p llm_job list \<Rightarrow> 'p entry list" where
  "entries s [] = []"
| "entries s (j # js) = (job_rank j, s, j) # entries (s + 1) js"

lemma entries_seq_ge: "e \<in> set (entries s js) \<Longrightarrow> s \<le> fst (snd e)"
  by (induction js arbitrary: s) force+

lemma entries_sorted: "sorted (map (fst \<circ> snd) (entries s js)) \<and> distinct (map (fst \<circ> snd) (entries s js))"
proof (induction js arbitrary: s)
  case Nil
  then show ?case by simp
next
  case (Cons j js)
  have "\<forall>x \<in> set (entries (s + 1) js). s + 1 \<le> fst (snd x)" using entries_seq_ge by blast
  then show ?case using Cons [of "s + 1"] by force
qed

lemma entries_jobs [simp]: "map entry_job (entries s js) = js"
  by (induction js arbitrary: s) (simp_all add: entry_job_def)

lemma entries_rank: "e \<in> set (entries s js) \<Longrightarrow> fst e = job_rank (entry_job e)"
  by (induction js arbitrary: s) (auto simp: entry_job_def)

lemma enqueue_all_room:
  assumes "queue_ok m q" "1 \<le> m" "known_roles js" "length (jq_heap q) + length js \<le> m"
  shows "queue_ok m (enqueue_all m js q)
    \<and> mset (jq_heap (enqueue_all m js q)) = mset (jq_heap q) + mset (entries (jq_seq q) js)
    \<and> jq_done (enqueue_all m js q) = jq_done q \<and> jq_drops (enqueue_all m js q) = jq_drops q"
  using assms
proof (induction js arbitrary: q)
  case Nil
  then show ?case by (simp add: enqueue_all_def)
next
  case (Cons j js)
  obtain p where p: "priority j = Some p" using Cons.prems(3) by (auto simp: known_roles_def)
  define q' where "q' = snd (enqueue m j q)"
  have q': "q' = q\<lparr>jq_heap := heappush (p, jq_seq q, j) (jq_heap q), jq_seq := jq_seq q + 1\<rparr>"
    using Cons.prems(4) p by (simp add: q'_def enqueue_def push_job_def)
  have "queue_ok m q'" unfolding q'_def by (rule enqueue_ok [OF Cons.prems(1,2) p])
  then have "queue_ok m (enqueue_all m js q')
    \<and> mset (jq_heap (enqueue_all m js q')) = mset (jq_heap q') + mset (entries (jq_seq q') js)
    \<and> jq_done (enqueue_all m js q') = jq_done q' \<and> jq_drops (enqueue_all m js q') = jq_drops q'"
    using Cons.prems by (intro Cons.IH) (simp_all add: known_roles_def q' heappush_def)
  moreover have "enqueue_all m (j # js) q = enqueue_all m js q'"
    by (simp add: enqueue_all_def q'_def)
  moreover have "job_rank j = p" by (simp add: job_rank_def p)
  ultimately show ?case by (simp add: q' heappush_def)
qed

lemma insort_key_map: "map g (insort_key (f \<circ> g) x xs) = insort_key f (g x) (map g xs)"
  by (induction xs) auto

lemma sort_key_map: "map g (sort_key (f \<circ> g) xs) = sort_key f (map g xs)"
  by (induction xs) (simp_all add: insort_key_map [unfolded comp_def])

lemma sorted_entry_key_stable:
  assumes "sorted (map entry_key h)" "mset h = mset es"
    and "sorted (map (fst \<circ> snd) es)" "distinct (map (fst \<circ> snd) es)"
  shows "h = sort_key fst es"
proof -
  have seq: "filter (\<lambda>x. k = fst x) h = filter (\<lambda>x. k = fst x) es" for k
  proof -
    let ?h = "filter (\<lambda>x. k = fst x) h" and ?e = "filter (\<lambda>x. k = fst x) es"
    have m: "mset ?h = mset ?e" using assms(2) by simp
    have de: "distinct (map (fst \<circ> snd) ?e)" using assms(4) by (rule distinct_map_filter)
    have "mset (map (fst \<circ> snd) ?h) = mset (map (fst \<circ> snd) ?e)" by (simp only: mset_map m)
    then have dh: "distinct (map (fst \<circ> snd) ?h)" using de mset_eq_imp_distinct_iff by blast
    have se: "sorted (map (fst \<circ> snd) ?e)" using assms(3) by (rule sorted_filter)
    have "sorted (map entry_key ?h)" using assms(1) by (rule sorted_filter)
    then have "sorted_wrt (\<lambda>x y. entry_key x \<le> entry_key y) ?h" by (simp add: sorted_map)
    then have "sorted_wrt (\<lambda>x y. (fst \<circ> snd) x \<le> (fst \<circ> snd) y) ?h"
      by (rule sorted_wrt_mono_rel [rotated]) (auto simp: entry_key_def less_eq_prod_def)
    then have sh: "sorted (map (fst \<circ> snd) ?h)" by (simp add: sorted_map)
    have s: "set ?h = set ?e" using m by (rule mset_eq_setD)
    have "inj_on (fst \<circ> snd) (set ?h \<union> set ?e)" using de s by (simp add: distinct_map)
    from map_sorted_distinct_set_unique [OF this sh dh se de s] show ?thesis .
  qed
  have "sorted_wrt (\<lambda>x y. entry_key x \<le> entry_key y) h" using assms(1) by (simp add: sorted_map)
  then have "sorted_wrt (\<lambda>x y. fst x \<le> fst y) h"
    by (rule sorted_wrt_mono_rel [rotated]) (auto simp: entry_key_def less_eq_prod_def)
  then have "sorted (map fst h)" by (simp add: sorted_map)
  then have "sort_key fst es = h" by (intro properties_for_sort_key assms(2) seq)
  then show ?thesis ..
qed

lemma sort_key_cong: "(\<forall>x \<in> set xs. f x = g x) \<Longrightarrow> sort_key f xs = sort_key g xs"
proof (induction xs)
  case (Cons x xs)
  have "insort_key f x ys = insort_key g x ys" if "\<forall>y \<in> set ys. f y = g y" for ys
    using that Cons.prems by (induction ys) auto
  then show ?case using Cons by simp
qed simp

text \<open>
  The worker processes jobs by priority and first-in first-out within a priority: enqueueing
  any jobs that fit into an empty queue and draining it processes exactly those jobs, in the
  order of a stable sort by role priority, and leaves the queue empty.
\<close>

theorem drain_is_stable_sort:
  assumes "known_roles js" and "length js \<le> m"
  shows "rev (jq_done (drain (length js) (enqueue_all m js queue_init))) = sort_key job_rank js
    \<and> jq_heap (drain (length js) (enqueue_all m js queue_init)) = []
    \<and> jq_drops (enqueue_all m js queue_init) = []"
proof (cases "js = []")
  case True
  then show ?thesis by (simp add: enqueue_all_def queue_init_def)
next
  case False
  then have one: "1 \<le> m" using assms(2) by (cases js) auto
  let ?q = "enqueue_all m js queue_init"
  have h: "queue_ok m ?q" "mset (jq_heap ?q) = mset (entries 0 js)" "jq_done ?q = []"
    "jq_drops ?q = []"
    using enqueue_all_room [OF queue_ok_init one assms(1)] assms(2) by (simp_all add: queue_init_def)
  have "jq_heap ?q = sort_key fst (entries 0 js)"
    using sorted_entry_key_stable [OF queue_ok_parts(1) [OF h(1)] h(2)] entries_sorted by blast
  also have "\<dots> = sort_key (job_rank \<circ> entry_job) (entries 0 js)"
    by (rule sort_key_cong) (simp add: entries_rank)
  finally have o: "map entry_job (jq_heap ?q) = sort_key job_rank js"
    by (simp add: sort_key_map)
  have "length (jq_heap ?q) = length js"
    using arg_cong [OF o, of length] by simp
  then show ?thesis using drain_done [of "length js" ?q] h(3,4) o by simp
qed

theorem drain_is_stable_sort_witness:
  "map job_item_id (rev (jq_done (drain 3 (enqueue_all 500
     [demo_job ''explainer'' 1, demo_job ''coldstart'' 2, demo_job ''judge'' 3] queue_init))))
   = [3, 2, 1]"
proof -
  let ?js = "[demo_job ''explainer'' 1, demo_job ''coldstart'' 2, demo_job ''judge'' 3]"
  have r: "job_rank (demo_job ''explainer'' i) = 2" "job_rank (demo_job ''coldstart'' i) = 1"
    "job_rank (demo_job ''judge'' i) = 0" for i
    by (simp_all add: job_rank_def priority_def demo_job_def ROLE_PRIORITY_def)
  have k: "known_roles ?js"
    by (simp add: known_roles_def priority_def demo_job_def ROLE_PRIORITY_def)
  have s: "sort_key job_rank ?js = [demo_job ''judge'' 3, demo_job ''coldstart'' 2, demo_job ''explainer'' 1]"
    by (simp add: r)
  have l: "3 = length ?js" by simp
  have d: "rev (jq_done (drain (length ?js) (enqueue_all 500 ?js queue_init))) = sort_key job_rank ?js"
    by (rule drain_is_stable_sort [OF k, THEN conjunct1]) simp
  show ?thesis unfolding l d s by (simp add: demo_job_def)
qed

section \<open>The queue as an interface\<close>

text \<open>
  A schedule of producer calls, worker turns and a stop request, played on any queue: \<open>tk\<close>
  answers \<open>None\<close> to wait, \<open>Some (None, q)\<close> when the worker ends, and a job otherwise.
\<close>

datatype 'j sched = Put 'j | Turn | Halt

fun play ::
  "('j \<Rightarrow> 'q \<Rightarrow> 'q) \<Rightarrow> ('q \<Rightarrow> ('j option \<times> 'q) option) \<Rightarrow> ('q \<Rightarrow> 'q)
     \<Rightarrow> 'j sched list \<Rightarrow> 'q \<times> 'j list \<Rightarrow> 'q \<times> 'j list" where
  "play put tk halt [] s = s"
| "play put tk halt (Put j # es) (q, out) = play put tk halt es (put j q, out)"
| "play put tk halt (Turn # es) (q, out) =
     (case tk q of
        Some (Some j, q') \<Rightarrow> play put tk halt es (q', out @ [j])
      | _ \<Rightarrow> play put tk halt es (q, out))"
| "play put tk halt (Halt # es) (q, out) = play put tk halt es (halt q, out)"

fun puts :: "'j sched list \<Rightarrow> 'j list" where
  "puts [] = []"
| "puts (Put j # es) = j # puts es"
| "puts (Turn # es) = puts es"
| "puts (Halt # es) = puts es"

locale bounded_queue =
  fixes put :: "'j \<Rightarrow> 'q \<Rightarrow> 'q"
    and take_job :: "'q \<Rightarrow> ('j option \<times> 'q) option"
    and halt :: "'q \<Rightarrow> 'q"
    and held :: "'q \<Rightarrow> 'j multiset"
    and dropped :: "'q \<Rightarrow> nat"
    and ok :: "'q \<Rightarrow> bool"
    and known :: "'j \<Rightarrow> bool"
    and stopped :: "'q \<Rightarrow> bool"
  assumes put_law: "ok q \<Longrightarrow> known j \<Longrightarrow> ok (put j q) \<and> held (put j q) \<subseteq># add_mset j (held q)
      \<and> size (held (put j q)) + dropped (put j q) = size (held q) + dropped q + 1
      \<and> stopped (put j q) = stopped q"
    and take_law: "ok q \<Longrightarrow> take_job q = Some (Some j, q') \<Longrightarrow>
      ok q' \<and> held q = add_mset j (held q') \<and> dropped q' = dropped q \<and> stopped q' = stopped q"
    and halt_law: "ok q \<Longrightarrow> ok (halt q) \<and> held (halt q) = held q \<and> dropped (halt q) = dropped q
      \<and> stopped (halt q)"
    and stop_law: "stopped q \<Longrightarrow> take_job q = Some (Some j, q') \<Longrightarrow> False"
begin

lemma play_conserves:
  assumes "ok q" and "\<forall>j \<in> set (puts es). known j" and "play put take_job halt es (q, out) = (q', out')"
  shows "ok q' \<and> mset out' + held q' \<subseteq># mset out + held q + mset (puts es)
    \<and> length out' + size (held q') + dropped q' =
        length out + size (held q) + dropped q + length (puts es)"
  using assms
proof (induction es arbitrary: q out)
  case Nil
  then show ?case by simp
next
  case (Cons e es)
  show ?case
  proof (cases e)
    case (Put j)
    have pl: "ok (put j q) \<and> held (put j q) \<subseteq># add_mset j (held q)
      \<and> size (held (put j q)) + dropped (put j q) = size (held q) + dropped q + 1"
      using put_law Cons.prems(1,2) Put by simp
    have ih: "ok q' \<and> mset out' + held q' \<subseteq># mset out + held (put j q) + mset (puts es)
      \<and> length out' + size (held q') + dropped q' =
        length out + size (held (put j q)) + dropped (put j q) + length (puts es)"
      using Cons.prems Put pl by (intro Cons.IH) auto
    have "mset out + held (put j q) + mset (puts es)
        \<subseteq># mset out + add_mset j (held q) + mset (puts es)"
      using pl by (simp add: subset_mset.add_mono)
    with ih pl Put show ?thesis by (auto intro: subset_mset.order_trans)
  next
    case Turn
    show ?thesis
    proof (cases "\<exists>j p. take_job q = Some (Some j, p)")
      case True
      then obtain j p where t: "take_job q = Some (Some j, p)" by blast
      from take_law [OF Cons.prems(1) t]
      have tl: "ok p" "held q = add_mset j (held p)" "dropped p = dropped q" by simp_all
      have "play put take_job halt es (p, out @ [j]) = (q', out')"
        using Cons.prems(3) Turn t by simp
      from Cons.IH [OF tl(1) _ this] Cons.prems(2) Turn tl show ?thesis by simp
    next
      case False
      then have "play put take_job halt es (q, out) = (q', out')"
        using Cons.prems(3) Turn by (auto split: option.splits)
      from Cons.IH [OF Cons.prems(1) _ this] Cons.prems(2) Turn show ?thesis by simp
    qed
  next
    case Halt
    then show ?thesis using Cons.IH [of "halt q" out] Cons.prems halt_law by simp
  qed
qed

lemma play_stopped:
  assumes "ok q" "stopped q" and "\<forall>j \<in> set (puts es). known j"
  shows "snd (play put take_job halt es (q, out)) = out"
  using assms
proof (induction es arbitrary: q)
  case Nil
  then show ?case by simp
next
  case (Cons e es)
  show ?case
  proof (cases e)
    case Turn
    have "play put take_job halt (Turn # es) (q, out) = play put take_job halt es (q, out)"
      using stop_law [OF Cons.prems(2)] by (auto split: option.splits)
    then show ?thesis using Cons Turn by simp
  qed (use Cons put_law halt_law in simp_all)
qed

end

definition put_of :: "nat \<Rightarrow> 'p llm_job \<Rightarrow> 'p llm_queue \<Rightarrow> 'p llm_queue" where
  "put_of m j q = snd (enqueue m j q)"

definition held_jobs :: "'p llm_queue \<Rightarrow> 'p llm_job multiset" where
  "held_jobs q = mset (map entry_job (jq_heap q))"

definition n_drops :: "'p llm_queue \<Rightarrow> nat" where
  "n_drops q = length (jq_drops q)"

definition queue_okay :: "nat \<Rightarrow> 'p llm_queue \<Rightarrow> bool" where
  "queue_okay m q \<longleftrightarrow> queue_ok m q \<and> 1 \<le> m"

lemma put_of_law:
  assumes "queue_okay m q" and "priority j \<noteq> None"
  shows "queue_okay m (put_of m j q) \<and> held_jobs (put_of m j q) \<subseteq># add_mset j (held_jobs q)
      \<and> size (held_jobs (put_of m j q)) + n_drops (put_of m j q) = size (held_jobs q) + n_drops q + 1
      \<and> jq_stopping (put_of m j q) = jq_stopping q"
proof -
  obtain p where p: "priority j = Some p" using assms(2) by auto
  have ok: "queue_ok m q" "1 \<le> m" using assms(1) by (simp_all add: queue_okay_def)
  obtain r q' where e: "enqueue m j q = (r, q')" by (cases "enqueue m j q")
  have st: "jq_stopping q' = jq_stopping q"
    using e by (auto simp: enqueue_def push_job_def reject_or_evict_def Let_def
        split: option.splits if_splits sum.splits bool.splits prod.splits)
  have ok': "queue_okay m q'" using enqueue_ok [OF ok p] e ok by (simp add: queue_okay_def)
  have "held_jobs q' \<subseteq># add_mset j (held_jobs q)
      \<and> size (held_jobs q') + n_drops q' = size (held_jobs q) + n_drops q + 1"
    using ok p e
  proof (cases rule: enqueue_cases)
    case room
    have "held_jobs q' = image_mset entry_job (mset (jq_heap q'))" by (simp add: held_jobs_def)
    also have "\<dots> = add_mset j (held_jobs q)"
      unfolding room(4) by (simp add: held_jobs_def entry_job_def)
    finally show ?thesis using room(3) by (simp add: n_drops_def)
  next
    case rejected
    then show ?thesis by (simp add: held_jobs_def n_drops_def)
  next
    case (evicted e)
    have "held_jobs q' = image_mset entry_job (mset (jq_heap q'))" by (simp add: held_jobs_def)
    also have "\<dots> = add_mset j (held_jobs q - {#entry_job e#})"
      unfolding evicted(7) using evicted(3)
      by (simp add: held_jobs_def entry_job_def image_mset_Diff)
    finally have h: "held_jobs q' = add_mset j (held_jobs q - {#entry_job e#})" .
    have "entry_job e \<in># held_jobs q" using evicted(3) by (auto simp: held_jobs_def)
    then have "size (held_jobs q - {#entry_job e#}) + 1 = size (held_jobs q)"
      by (metis Suc_eq_plus1 insert_DiffM size_add_mset)
    then show ?thesis using evicted(6) unfolding h by (simp add: n_drops_def)
  qed
  then show ?thesis using e ok' st by (simp add: put_of_def)
qed

lemma pop_law:
  assumes "queue_okay m q" and "pop_blocking q = Some (Some j, q')"
  shows "queue_okay m q' \<and> held_jobs q = add_mset j (held_jobs q') \<and> n_drops q' = n_drops q
    \<and> jq_stopping q' = jq_stopping q"
proof -
  obtain e h where h: "jq_heap q = e # h" and j: "j = entry_job e" "q' = q\<lparr>jq_heap := h\<rparr>"
    using assms(2) by (cases "jq_heap q") (auto simp: pop_blocking_def split: if_splits)
  then show ?thesis using assms(1)
    by (auto simp: queue_okay_def queue_ok_def held_jobs_def n_drops_def)
qed

interpretation lq: bounded_queue "put_of m" pop_blocking stop held_jobs n_drops "queue_okay m"
  "\<lambda>j. priority j \<noteq> None" jq_stopping for m
proof (unfold_locales, goal_cases)
  case (1 q j)
  then show ?case by (rule put_of_law)
next
  case (2 q j q')
  then show ?case by (rule pop_law)
next
  case (3 q)
  then show ?case
    by (simp add: stop_def queue_okay_def queue_ok_def held_jobs_def n_drops_def)
next
  case (4 q j q')
  then show ?case by (simp add: pop_blocking_def)
qed

text \<open>
  C20. Under every interleaving of producers, worker turns and stop requests no job is invented,
  duplicated or lost silently: what was processed and what is still queued are jobs that were
  enqueued, each at most as often, every enqueued job is processed, queued or counted as one drop,
  and the queue never exceeds its bound. Once stop is requested nothing more is processed.
\<close>

theorem queue_conservation:
  assumes "1 \<le> m" and "known_roles (puts es)"
    and "play (put_of m) pop_blocking stop es (queue_init, []) = (q, out)"
  shows "mset out + held_jobs q \<subseteq># mset (puts es)
    \<and> length out + qsize q + length (jq_drops q) = length (puts es)
    \<and> qsize q \<le> m
    \<and> (jq_stopping q \<longrightarrow> known_roles (puts es') \<longrightarrow>
         snd (play (put_of m) pop_blocking stop es' (q, out)) = out)"
proof -
  have i: "queue_okay m queue_init" using assms(1) queue_ok_init by (simp add: queue_okay_def)
  have k: "\<forall>j \<in> set (puts es). priority j \<noteq> None" using assms(2) by (simp add: known_roles_def)
  note c = lq.play_conserves [OF i k assms(3)]
  have h0: "held_jobs queue_init = {#}" "n_drops queue_init = 0"
    by (simp_all add: held_jobs_def queue_init_def n_drops_def)
  have s: "size (held_jobs q) = qsize q" by (simp add: held_jobs_def qsize_def)
  have "snd (play (put_of m) pop_blocking stop es' (q, out)) = out"
    if "jq_stopping q" "known_roles (puts es')"
    using lq.play_stopped c that by (auto simp: known_roles_def)
  then show ?thesis using c unfolding h0 s
    by (auto simp: n_drops_def queue_okay_def queue_ok_def qsize_def)
qed

theorem queue_conservation_witness:
  "\<exists>q out. play (put_of 1) pop_blocking stop
       [Put (demo_job ''judge'' 1), Put (demo_job ''extractor'' 2), Turn, Halt] (queue_init, []) = (q, out)
     \<and> length out + qsize q + length (jq_drops q) = 2"
proof -
  let ?es = "[Put (demo_job ''judge'' 1), Put (demo_job ''extractor'' 2), Turn, Halt]"
  obtain q out where r: "play (put_of 1) pop_blocking stop ?es (queue_init, []) = (q, out)"
    by (cases "play (put_of 1) pop_blocking stop ?es (queue_init, [])")
  have k: "known_roles (puts ?es)"
    by (simp add: known_roles_def priority_def demo_job_def ROLE_PRIORITY_def)
  have one: "(1::nat) \<le> 1" by simp
  have "length out + qsize q + length (jq_drops q) = length (puts ?es)"
    using queue_conservation [OF one k r] by blast
  then have "length out + qsize q + length (jq_drops q) = 2" by simp
  with r show ?thesis by blast
qed

end
