(* ===== verification/Scope.thy ===== *)
theory Scope
  imports Prelude
begin

text \<open>
  \<open>core/scope.py\<close>: which labelled items count as evidence under the project's \<open>analyzerMode\<close>, and
  how same-name and same-launch candidates are re-weighted. The mode strings are the legacy ones;
  an unknown or missing mode is the default.
\<close>

definition LAUNCH_BOOST :: real where "LAUNCH_BOOST = 11 / 10"

definition LAUNCH_NAME :: string where "LAUNCH_NAME = ''LAUNCH_NAME''"
definition CURRENT_AND_THE_SAME_NAME :: string where
  "CURRENT_AND_THE_SAME_NAME = ''CURRENT_AND_THE_SAME_NAME''"
definition CURRENT_LAUNCH :: string where "CURRENT_LAUNCH = ''CURRENT_LAUNCH''"
definition PREVIOUS_LAUNCH :: string where "PREVIOUS_LAUNCH = ''PREVIOUS_LAUNCH''"
definition ALL_LAUNCHES :: string where "ALL_LAUNCHES = ''ALL''"

definition KNOWN_MODES :: "string list" where
  "KNOWN_MODES = [LAUNCH_NAME, CURRENT_AND_THE_SAME_NAME, CURRENT_LAUNCH, PREVIOUS_LAUNCH,
     ALL_LAUNCHES]"

lemmas mode_defs = LAUNCH_NAME_def CURRENT_AND_THE_SAME_NAME_def CURRENT_LAUNCH_def
  PREVIOUS_LAUNCH_def ALL_LAUNCHES_def

record scope_query =
  sq_project_id :: int
  sq_launch_id :: int
  sq_launch_name :: string
  sq_previous_launch_id :: int

record scope_candidate =
  sc_launch_id :: int
  sc_launch_name :: string
  sc_issue_type_group :: "string option"
  sc_is_labeled :: bool

definition mode :: "string option \<Rightarrow> string option" where
  "mode analyzer_mode =
     (case analyzer_mode of
        None \<Rightarrow> None
      | Some m \<Rightarrow> (let token = upper_str (strip m)
                  in if token \<in> set KNOWN_MODES then Some token else None))"

definition passes_base :: "scope_candidate \<Rightarrow> bool" where
  "passes_base c \<longleftrightarrow> sc_is_labeled c \<and> sc_issue_type_group c \<notin> {None, Some ''ti''}"

definition in_analyze_scope :: "string option \<Rightarrow> scope_query \<Rightarrow> scope_candidate \<Rightarrow> bool" where
  "in_analyze_scope analyzer_mode q c =
     (if \<not> passes_base c then False
      else
        (let m = mode analyzer_mode
         in if m = Some LAUNCH_NAME then
              sc_launch_name c = sq_launch_name q \<and> sc_launch_id c \<noteq> sq_launch_id q
            else if m = Some CURRENT_AND_THE_SAME_NAME then sc_launch_name c = sq_launch_name q
            else if m = Some CURRENT_LAUNCH then sc_launch_id c = sq_launch_id q
            else if m = Some PREVIOUS_LAUNCH then sc_launch_id c = sq_previous_launch_id q
            else if m = Some ALL_LAUNCHES then sc_launch_id c \<noteq> sq_launch_id q
            else True))"

definition same_name :: "scope_query \<Rightarrow> scope_candidate \<Rightarrow> bool" where
  "same_name q c \<longleftrightarrow> sq_launch_name q \<noteq> [] \<and> sc_launch_name c = sq_launch_name q"

definition same_launch :: "scope_query \<Rightarrow> scope_candidate \<Rightarrow> bool" where
  "same_launch q c \<longleftrightarrow> sc_launch_id c = sq_launch_id q"

definition analyze_boost :: "string option \<Rightarrow> scope_query \<Rightarrow> scope_candidate \<Rightarrow> real" where
  "analyze_boost analyzer_mode q c =
     (let m = mode analyzer_mode
      in if m = Some CURRENT_AND_THE_SAME_NAME then (if same_launch q c then LAUNCH_BOOST else 1)
         else if m = None then
           (if same_name q c then LAUNCH_BOOST else 1) * (if same_launch q c then LAUNCH_BOOST else 1)
         else 1)"

definition suggest_boost :: "string option \<Rightarrow> scope_query \<Rightarrow> scope_candidate \<Rightarrow> real" where
  "suggest_boost analyzer_mode q c =
     (let m = mode analyzer_mode
      in if m \<in> {Some LAUNCH_NAME, Some ALL_LAUNCHES} then
           (if same_name q c then LAUNCH_BOOST else 1) / (if same_launch q c then LAUNCH_BOOST else 1)
         else if m = Some PREVIOUS_LAUNCH then
           (if sq_previous_launch_id q \<noteq> 0 \<and> sc_launch_id c = sq_previous_launch_id q
            then LAUNCH_BOOST else 1)
         else (if same_name q c then LAUNCH_BOOST else 1)
              * (if same_launch q c then LAUNCH_BOOST else 1))"

lemma in_analyze_scope_base: "in_analyze_scope m q c \<Longrightarrow> passes_base c"
  by (simp add: in_analyze_scope_def split: if_splits)

lemma boost_range:
  "1 / LAUNCH_BOOST \<le> suggest_boost m q c \<and> suggest_boost m q c \<le> LAUNCH_BOOST\<^sup>2
   \<and> 1 \<le> analyze_boost m q c \<and> analyze_boost m q c \<le> LAUNCH_BOOST\<^sup>2"
  by (auto simp: suggest_boost_def analyze_boost_def Let_def LAUNCH_BOOST_def power2_eq_square)

text \<open>
  The scope table: a candidate that is unlabelled or still ti is never evidence, whatever the
  mode; LAUNCH_NAME and ALL never admit the current launch and CURRENT_LAUNCH admits nothing else;
  PREVIOUS_LAUNCH admits only the previous launch; an unknown mode restricts nothing further. The
  soft factors stay between 1/1.1 and 1.21, and only the suggest route may lower a score.
\<close>

theorem scope_table:
  "(\<not> passes_base c \<longrightarrow> \<not> in_analyze_scope m q c)
   \<and> (passes_base c \<longrightarrow> in_analyze_scope m q c =
        (case mode m of
           None \<Rightarrow> True
         | Some t \<Rightarrow>
             (t = LAUNCH_NAME \<longrightarrow> sc_launch_name c = sq_launch_name q \<and> \<not> same_launch q c)
             \<and> (t = CURRENT_AND_THE_SAME_NAME \<longrightarrow> sc_launch_name c = sq_launch_name q)
             \<and> (t = CURRENT_LAUNCH \<longrightarrow> same_launch q c)
             \<and> (t = PREVIOUS_LAUNCH \<longrightarrow> sc_launch_id c = sq_previous_launch_id q)
             \<and> (t = ALL_LAUNCHES \<longrightarrow> \<not> same_launch q c)))
   \<and> 1 / LAUNCH_BOOST \<le> suggest_boost m q c \<and> suggest_boost m q c \<le> LAUNCH_BOOST\<^sup>2
   \<and> 1 \<le> analyze_boost m q c \<and> analyze_boost m q c \<le> LAUNCH_BOOST\<^sup>2"
proof (intro conjI impI)
  show "\<not> in_analyze_scope m q c" if "\<not> passes_base c" using that in_analyze_scope_base by blast
  show "in_analyze_scope m q c =
        (case mode m of
           None \<Rightarrow> True
         | Some t \<Rightarrow>
             (t = LAUNCH_NAME \<longrightarrow> sc_launch_name c = sq_launch_name q \<and> \<not> same_launch q c)
             \<and> (t = CURRENT_AND_THE_SAME_NAME \<longrightarrow> sc_launch_name c = sq_launch_name q)
             \<and> (t = CURRENT_LAUNCH \<longrightarrow> same_launch q c)
             \<and> (t = PREVIOUS_LAUNCH \<longrightarrow> sc_launch_id c = sq_previous_launch_id q)
             \<and> (t = ALL_LAUNCHES \<longrightarrow> \<not> same_launch q c))" if "passes_base c"
  proof (cases "mode m")
    case None
    with that show ?thesis by (simp add: in_analyze_scope_def)
  next
    case (Some t)
    then have "t \<in> set KNOWN_MODES" by (simp add: mode_def Let_def split: option.splits if_splits)
    with Some that show ?thesis
      by (auto simp: in_analyze_scope_def same_launch_def KNOWN_MODES_def mode_defs)
  qed
qed (use boost_range in blast)+

definition demo_scope_query :: scope_query where
  "demo_scope_query = \<lparr>sq_project_id = 1, sq_launch_id = 7, sq_launch_name = ''nightly'',
     sq_previous_launch_id = 6\<rparr>"

definition demo_scope_candidate :: scope_candidate where
  "demo_scope_candidate = \<lparr>sc_launch_id = 6, sc_launch_name = ''nightly'',
     sc_issue_type_group = Some ''pb'', sc_is_labeled = True\<rparr>"

theorem scope_table_witness:
  "\<not> in_analyze_scope (Some ''ALL'') demo_scope_query
       (demo_scope_candidate\<lparr>sc_issue_type_group := Some ''ti''\<rparr>)"
  using scope_table [of "demo_scope_candidate\<lparr>sc_issue_type_group := Some ''ti''\<rparr>" "Some ''ALL''"
      demo_scope_query]
  by (simp add: passes_base_def)

end
