(* ===== verification/Kb.thy ===== *)
theory Kb
  imports Store
begin

text \<open>
  The knowledge base of failure modes (\<open>db/repositories/kb.py\<close>) on the tables of \<open>Store\<close>: matching
  a query to the modes, spawning, seeding, membership, purity and centroid, merge, split and
  retirement. A statement whose \<open>require_row\<close> finds no row, or that violates the foreign key of
  \<open>mode_membership\<close>, raises and rolls its transaction back: the result is \<open>None\<close>. The cosine
  distance of pgvector is an argument.
\<close>

section \<open>Reading\<close>

definition python_jaccard :: "int list \<Rightarrow> int list \<Rightarrow> real" where
  "python_jaccard a b =
     (if set a = {} \<and> set b = {} then 0
      else real (card (set a \<inter> set b)) / real (card (set a \<union> set b)))"

definition MODE_LABEL_SOURCES :: "string list" where
  "MODE_LABEL_SOURCES = [''seed'', ''human'', ''ai_suggested'', ''rp'']"

definition fp_hit :: "query_signature \<Rightarrow> mode_row \<Rightarrow> bool" where
  "fp_hit q m \<longleftrightarrow> q_exception_fp q \<in> set (fm_exception_fps m)"

definition mode_distance ::
  "(vec \<Rightarrow> vec \<Rightarrow> real) \<Rightarrow> query_signature \<Rightarrow> mode_row \<Rightarrow> real option" where
  "mode_distance vdist q m =
     map_option (\<lambda>c. vdist c (case q_emb q of Some v \<Rightarrow> v | None \<Rightarrow> replicate 384 0)) (fm_centroid m)"

definition matchable :: "int \<Rightarrow> query_signature \<Rightarrow> mode_row \<Rightarrow> bool" where
  "matchable p q m \<longleftrightarrow>
     fm_project_id m = p \<and> fm_status m \<in> {''seed'', ''candidate'', ''confirmed''}
     \<and> ((fm_centroid m \<noteq> None \<and> fm_emb_model_ver m = Some (q_emb_model_ver q)) \<or> fp_hit q m)"

definition mode_candidate ::
  "(vec \<Rightarrow> vec \<Rightarrow> real) \<Rightarrow> query_signature \<Rightarrow> mode_row \<Rightarrow> candidate" where
  "mode_candidate vdist q m =
     (candidate_default None (Some (fm_mode_id m)))
       \<lparr>c_cosine := map_option (\<lambda>d. 1 - d) (mode_distance vdist q m),
        c_jaccard_templates := python_jaccard (fm_representative_template_ids m) (q_template_ids q),
        c_issue_type := fm_label m,
        c_label_source := (case fm_label_source m of None \<Rightarrow> None
          | Some s \<Rightarrow> if s \<in> set MODE_LABEL_SOURCES then Some s else None),
        c_same_exception_fp := fp_hit q m, c_mode_status := Some (fm_status m),
        c_mode_purity := Some (fm_purity m), c_mode_support := Some (fm_support m),
        c_matched_by := Some (if fp_hit q m then ''hash'' else ''vector'')\<rparr>"

definition match_modes ::
  "(vec \<Rightarrow> vec \<Rightarrow> real) \<Rightarrow> db \<Rightarrow> int \<Rightarrow> query_signature \<Rightarrow> nat \<Rightarrow> candidate list" where
  "match_modes vdist db p q k =
     map (mode_candidate vdist q)
       (take k (take 10
          (order_desc (\<lambda>m. (fp_hit q m, map_option uminus (mode_distance vdist q m), fm_mode_id m))
             (filter (matchable p q) (db_modes db)))))"

definition member_mode_id :: "db \<Rightarrow> int \<Rightarrow> int \<Rightarrow> int option" where
  "member_mode_id db p i =
     map_option mm_mode_id (py_max mm_match_score (filter (\<lambda>m. member_of m = (p, i)) (db_members db)))"

definition find_mode :: "db \<Rightarrow> int \<Rightarrow> int \<Rightarrow> mode_row option" where
  "find_mode db p m = lookup_row mode_key (p, m) (db_modes db)"

definition list_modes :: "db \<Rightarrow> int \<Rightarrow> string list \<Rightarrow> mode_row list" where
  "list_modes db p statuses =
     sort_key fm_mode_id (filter (\<lambda>m. fm_project_id m = p
        \<and> (statuses = [] \<or> fm_status m \<in> set statuses)) (db_modes db))"

section \<open>Writing\<close>

definition set_mode :: "int \<Rightarrow> int \<Rightarrow> (mode_row \<Rightarrow> mode_row) \<Rightarrow> db \<Rightarrow> db" where
  "set_mode p m f db = db\<lparr>db_modes := map (\<lambda>r. if mode_key r = (p, m) then f r else r) (db_modes db)\<rparr>"

definition new_mode :: "int \<Rightarrow> int \<Rightarrow> string option \<Rightarrow> mode_in \<Rightarrow> mode_row" where
  "new_mode p mid seed_key m =
     mode_in.extend m \<lparr>fm_project_id = p, fm_mode_id = mid, fm_seed_key = seed_key,
       fm_purity = 0, fm_support = 0, fm_ewma_alpha = 1 / 10\<rparr>"

definition insert_mode :: "int \<Rightarrow> string option \<Rightarrow> mode_in \<Rightarrow> db \<Rightarrow> db \<times> int" where
  "insert_mode p seed_key m db =
     (let mid = db_next_mode db
      in (db\<lparr>db_modes := db_modes db @ [new_mode p mid seed_key m], db_next_mode := mid + 1,
             db_projects := insert p (db_projects db)\<rparr>, mid))"

text \<open>The two conflict clauses of \<open>mode_membership\<close>: take the new score, or do nothing.\<close>

definition take_score :: "member_row \<Rightarrow> member_row \<Rightarrow> member_row" where
  "take_score old new = new"

definition keep_member :: "member_row \<Rightarrow> member_row \<Rightarrow> member_row" where
  "keep_member old new = old"

definition member :: "int \<Rightarrow> int \<Rightarrow> int \<times> real \<times> string \<Rightarrow> member_row" where
  "member p m = (\<lambda>(i, score, by). \<lparr>mm_project_id = p, mm_mode_id = m, mm_item_id = i,
     mm_match_score = score, mm_matched_by = by\<rparr>)"

definition put_members ::
  "(member_row \<Rightarrow> member_row \<Rightarrow> member_row) \<Rightarrow> member_row list \<Rightarrow> db \<Rightarrow> db" where
  "put_members merge ms db = db\<lparr>db_members := fold (upsert member_key merge) ms (db_members db)\<rparr>"

definition spawn_candidate_mode :: "int \<Rightarrow> mode_in \<Rightarrow> int list \<Rightarrow> db \<Rightarrow> db \<times> int" where
  "spawn_candidate_mode p m ids db =
     (let (db1, mid) = insert_mode p None m db
      in (put_members keep_member (map (\<lambda>i. member p mid (i, 1, ''human'')) ids) db1, mid))"

definition ensure_seed_mode :: "int \<Rightarrow> string \<Rightarrow> mode_in \<Rightarrow> db \<Rightarrow> db \<times> int" where
  "ensure_seed_mode p seed_key m db =
     (case find (\<lambda>r. fm_project_id r = p \<and> fm_seed_key r = Some seed_key) (db_modes db) of
        Some r \<Rightarrow> (db\<lparr>db_next_mode := db_next_mode db + 1,
                     db_projects := insert p (db_projects db)\<rparr>, fm_mode_id r)
      | None \<Rightarrow> insert_mode p (Some seed_key) m db)"

definition add_members ::
  "int \<Rightarrow> int \<Rightarrow> (int \<times> real \<times> string) list \<Rightarrow> int option \<Rightarrow> db \<Rightarrow> (db \<times> int) option" where
  "add_members p m members emb_ver db =
     (if members = [] then Some (db, 0)
      else if find_mode db p m = None then None
      else
        (let db1 = put_members take_score (map (member p m) members) db;
             stamp = (\<lambda>r. r\<lparr>fm_emb_model_ver := (case fm_emb_model_ver r of
                                Some v \<Rightarrow> Some v | None \<Rightarrow> emb_ver)\<rparr>)
         in Some (if emb_ver = None then db1 else set_mode p m stamp db1, int (length members))))"

text \<open>The labels of the members, one per membership row whose item has a label.\<close>

definition member_labels :: "db \<Rightarrow> int \<Rightarrow> int \<Rightarrow> string list" where
  "member_labels db p m =
     List.map_filter (\<lambda>r. if mm_project_id r = p \<and> mm_mode_id r = m
                          then Option.bind (find_item db p (mm_item_id r)) ti_issue_type else None)
       (db_members db)"

definition purity_of :: "string list \<Rightarrow> real" where
  "purity_of ls =
     (if ls = [] then 0
      else real (Max ((\<lambda>l. count_list ls l) ` set ls)) / real (length ls))"

definition member_vecs :: "db \<Rightarrow> int \<Rightarrow> int \<Rightarrow> int \<Rightarrow> vec list" where
  "member_vecs db p m ver =
     List.map_filter (\<lambda>r. if mm_project_id r = p \<and> mm_mode_id r = m
        then Option.bind (find_sig db p (mm_item_id r))
               (\<lambda>s. if fs_emb_model_ver s = ver then fs_emb s else None)
        else None) (db_members db)"

definition ewma_centroid :: "db \<Rightarrow> int \<Rightarrow> mode_row \<Rightarrow> vec option" where
  "ewma_centroid db p r =
     (case fm_emb_model_ver r of
        None \<Rightarrow> fm_centroid r
      | Some ver \<Rightarrow>
          (let vs = member_vecs db p (fm_mode_id r) ver
           in if vs = [] then fm_centroid r
              else (case fm_centroid r of
                      None \<Rightarrow> Some (mean_vec vs)
                    | Some old \<Rightarrow> Some (map2 (\<lambda>o' m. (1 - fm_ewma_alpha r) * o' + fm_ewma_alpha r * m)
                                        old (mean_vec vs)))))"

definition update_purity :: "int \<Rightarrow> int \<Rightarrow> db \<Rightarrow> (db \<times> real) option" where
  "update_purity p m db =
     (case find_mode db p m of
        None \<Rightarrow> None
      | Some r \<Rightarrow>
          (let ls = member_labels db p m
           in Some (set_mode p m (\<lambda>r'. r'\<lparr>fm_purity := purity_of ls, fm_support := int (length ls),
                      fm_centroid := ewma_centroid db p r\<rparr>) db, purity_of ls)))"

definition merged_centroid ::
  "vec option \<Rightarrow> int \<Rightarrow> int option \<Rightarrow> vec option \<Rightarrow> int \<Rightarrow> int option \<Rightarrow> vec option \<times> int option" where
  "merged_centroid dst dst_support dst_ver src src_support src_ver =
     (case dst of
        None \<Rightarrow> (case src of None \<Rightarrow> (None, dst_ver) | Some s \<Rightarrow> (Some s, src_ver))
      | Some d \<Rightarrow>
          (case src of
             None \<Rightarrow> (Some d, dst_ver)
           | Some s \<Rightarrow>
               if dst_ver \<noteq> src_ver then (Some d, dst_ver)
               else
                 (let wd0 = max dst_support 0; ws0 = max src_support 0;
                      wd = (if wd0 + ws0 = 0 then 1 else wd0);
                      ws = (if wd0 + ws0 = 0 then 1 else ws0)
                  in (Some (map2 (\<lambda>x y. (x * real_of_int wd + y * real_of_int ws)
                                          / real_of_int (wd + ws)) d s), dst_ver))))"

definition retire :: "int \<Rightarrow> int \<Rightarrow> db \<Rightarrow> db" where
  "retire p m = set_mode p m (\<lambda>r. r\<lparr>fm_status := ''retired''\<rparr>)"

definition greatest_score :: "member_row \<Rightarrow> member_row \<Rightarrow> member_row" where
  "greatest_score old new = old\<lparr>mm_match_score := max (mm_match_score old) (mm_match_score new)\<rparr>"

definition merge_modes :: "int \<Rightarrow> int \<Rightarrow> int \<Rightarrow> db \<Rightarrow> db option" where
  "merge_modes p src dst db =
     (case find_mode db p dst of None \<Rightarrow> None | Some d \<Rightarrow>
      (case find_mode db p src of None \<Rightarrow> None | Some s \<Rightarrow>
        (let (centroid, ver) = merged_centroid (fm_centroid d) (fm_support d) (fm_emb_model_ver d)
                                 (fm_centroid s) (fm_support s) (fm_emb_model_ver s);
             of_src = (\<lambda>r. mm_project_id r = p \<and> mm_mode_id r = src);
             db1 = put_members greatest_score
                     (map (\<lambda>r. r\<lparr>mm_mode_id := dst\<rparr>) (filter of_src (db_members db))) db;
             db2 = db1\<lparr>db_members := filter (\<lambda>r. \<not> of_src r) (db_members db1)\<rparr>;
             upd = (\<lambda>r. r\<lparr>fm_exception_fps := remdups (fm_exception_fps r @ fm_exception_fps s),
                          fm_representative_template_ids :=
                            remdups (fm_representative_template_ids r
                                     @ fm_representative_template_ids s),
                          fm_support := fm_support r + fm_support s,
                          fm_centroid := centroid, fm_emb_model_ver := ver\<rparr>)
         in Some (retire p src (set_mode p dst upd db2)))))"

text \<open>\<open>parts\<close> are the values of the partition in the order of their sorted keys.\<close>

fun split_parts :: "int \<Rightarrow> mode_in \<Rightarrow> int list list \<Rightarrow> db \<Rightarrow> db \<times> int list" where
  "split_parts p m [] db = (db, [])"
| "split_parts p m (ids # parts) db =
     (let (db1, mid) = spawn_candidate_mode p m ids db;
          (db2, mids) = split_parts p m parts db1
      in (db2, mid # mids))"

definition split_mode :: "int \<Rightarrow> int \<Rightarrow> int list list \<Rightarrow> db \<Rightarrow> (db \<times> int list) option" where
  "split_mode p m parts db =
     (case find_mode db p m of
        None \<Rightarrow> None
      | Some r \<Rightarrow>
          (let copy = \<lparr>fm_status = ''candidate'', fm_label = fm_label r,
                       fm_label_source = fm_label_source r, fm_title = None, fm_summary = None,
                       fm_centroid = fm_centroid r, fm_emb_model_ver = fm_emb_model_ver r,
                       fm_representative_template_ids = fm_representative_template_ids r,
                       fm_exception_fps = fm_exception_fps r\<rparr>;
               (db1, mids) = split_parts p copy parts db
           in Some (retire p m db1, mids)))"

definition set_status ::
  "int \<Rightarrow> int \<Rightarrow> string \<Rightarrow> string option \<Rightarrow> string option \<Rightarrow> db \<Rightarrow> db" where
  "set_status p m status label source =
     set_mode p m (\<lambda>r. r\<lparr>fm_status := status,
       fm_label := (case label of Some l \<Rightarrow> Some l | None \<Rightarrow> fm_label r),
       fm_label_source := (case source of Some s \<Rightarrow> Some s | None \<Rightarrow> fm_label_source r)\<rparr>)"

text \<open>The per-project copy of a catalogue mode (\<open>seeds/loader.py\<close>).\<close>

definition seed_mode_in :: "string \<Rightarrow> string \<Rightarrow> mode_in" where
  "seed_mode_in prior_label title =
     \<lparr>fm_status = ''candidate'', fm_label = Some prior_label, fm_label_source = Some ''seed'',
      fm_title = Some title, fm_summary = None, fm_centroid = None, fm_emb_model_ver = None,
      fm_representative_template_ids = [], fm_exception_fps = []\<rparr>"

end
