(* ===== verification/Ingest.thy ===== *)
theory Ingest
  imports Store Signature
begin

text \<open>
  \<open>core/ingest.py\<close>: the wire messages the service receives (\<open>amqp/models.py\<close>), the read-path
  analysis of a batch of items, and the \<open>index\<close> route - mining under the optimistic
  compare-and-swap of the Drain3 state (\<open>ml/drain.py\<close>, \<open>db/repositories/drain3_state.py\<close>), then one
  transaction for items, signatures and history. The miner's serialized state is a value of type
  \<open>'m\<close>; what other workers do to the stored state between a load and a save is an argument. Sleeping
  between two attempts, the advisory lock and the cancellation check are not modelled.
\<close>

section \<open>Wire messages\<close>

record wire_log =
  wl_log_id :: int
  wl_log_level :: int
  wl_log_time :: "int list"
  wl_message :: string

record wire_item =
  wi_test_item_id :: int
  wi_is_auto_analyzed :: bool
  wi_unique_id :: string
  wi_issue_type :: string
  wi_start_time :: "int list"
  wi_test_case_hash :: int
  wi_test_item_name :: string
  wi_logs :: "wire_log list"

record analyzer_conf =
  ac_analyzer_mode :: string
  ac_min_should_match :: int
  ac_number_of_log_lines :: int

record launch =
  la_launch_id :: int
  la_project :: int
  la_launch_name :: string
  la_launch_number :: int
  la_previous_launch_id :: int
  la_analyzer_config :: analyzer_conf
  la_test_items :: "wire_item list"
  la_launch_items_count :: int

section \<open>Times\<close>

definition is_leap :: "int \<Rightarrow> bool" where
  "is_leap y \<longleftrightarrow> (y mod 4 = 0 \<and> y mod 100 \<noteq> 0) \<or> y mod 400 = 0"

definition days_in_month :: "int \<Rightarrow> int \<Rightarrow> int" where
  "days_in_month y m =
     (if m = 2 then (if is_leap y then 29 else 28) else if m \<in> {4, 6, 9, 11} then 30 else 31)"

definition days_before_year :: "int \<Rightarrow> int" where
  "days_before_year y =
     (let z = y - 1 in z * 365 + z div 4 - z div 100 + z div 400)"

definition days_before_month :: "int \<Rightarrow> int \<Rightarrow> int" where
  "days_before_month y m = sum_list (map (\<lambda>k. days_in_month y (int k)) [1..<nat m])"

text \<open>\<open>datetime(y, mo, d, h, mi, s, tzinfo=UTC)\<close>; 719162 days separate year 1 from 1970.\<close>

definition datetime_utc :: "int \<Rightarrow> int \<Rightarrow> int \<Rightarrow> int \<Rightarrow> int \<Rightarrow> int \<Rightarrow> seconds option" where
  "datetime_utc y mo d h mi s =
     (if 1 \<le> y \<and> y \<le> 9999 \<and> 1 \<le> mo \<and> mo \<le> 12 \<and> 1 \<le> d \<and> d \<le> days_in_month y mo
         \<and> 0 \<le> h \<and> h \<le> 23 \<and> 0 \<le> mi \<and> mi \<le> 59 \<and> 0 \<le> s \<and> s \<le> 59
      then Some (real_of_int (((days_before_year y + days_before_month y mo + d - 1 - 719162) * 24
                 + h) * 3600 + mi * 60 + s))
      else None)"

definition ts7_to_datetime :: "int list \<Rightarrow> seconds option" where
  "ts7_to_datetime ts =
     (case take 6 ts of [y, mo, d, h, mi, s] \<Rightarrow> datetime_utc y mo d h mi s | _ \<Rightarrow> None)"

definition time_ordered_logs :: "wire_log list \<Rightarrow> wire_log list" where
  "time_ordered_logs logs = sort_key wl_log_time logs"

section \<open>The pipeline\<close>

record 'm pipeline =
  pi_text :: "'m text_env"
  pi_embed :: "(string \<Rightarrow> vec) option"
  pi_emb_model_ver :: int
  pi_max_logs :: int
  pi_drain_max_lines :: nat
  pi_cas_retries :: nat
  pi_rebuild :: "int \<Rightarrow> 'm"
  pi_patterns :: "'m \<Rightarrow> int \<rightharpoonup> string"

definition DRAIN_CAS_RETRIES :: nat where "DRAIN_CAS_RETRIES = 5"

record item_analysis =
  an_launch :: launch
  an_item :: wire_item
  an_signature :: signature_result
  an_emb :: "vec option"
  an_emb_model_ver :: int
  an_log_count :: int
  an_start_time :: "seconds option"
  an_clean_msg :: string

definition log_inputs :: "wire_log list \<Rightarrow> log_input list" where
  "log_inputs logs = map (\<lambda>l. \<lparr>li_message = wl_message l, li_log_level = wl_log_level l\<rparr>) logs"

definition embedding :: "'m pipeline \<Rightarrow> signature_result \<Rightarrow> vec option \<times> int" where
  "embedding pl r =
     (case pi_embed pl of
        None \<Rightarrow> (None, 0)
      | Some e \<Rightarrow> if sr_signature_text r = [] then (None, 0)
                 else (Some (e (sr_signature_text r)), pi_emb_model_ver pl))"

definition build_one :: "'m pipeline \<Rightarrow> 'm \<Rightarrow> launch \<Rightarrow> wire_item \<Rightarrow> 'm \<times> item_analysis" where
  "build_one pl m la item =
     (let logs = log_inputs (time_ordered_logs (wi_logs item));
          kept = filter_item_logs (pi_text pl) (pi_max_logs pl) logs;
          (m', r) = build_item_signature (pi_text pl) (pi_drain_max_lines pl)
                      (wi_test_item_name item) logs m;
          (emb, ver) = embedding pl r
      in (m', \<lparr>an_launch = la, an_item = item, an_signature = r, an_emb = emb,
               an_emb_model_ver = ver, an_log_count = int (length kept),
               an_start_time = ts7_to_datetime (wi_start_time item),
               an_clean_msg = join_with [newline]
                 (map (\<lambda>t. cl_msg (te_clean (pi_text pl) t)) (filter has_text kept))\<rparr>))"

fun build_all :: "'m pipeline \<Rightarrow> 'm \<Rightarrow> (launch \<times> wire_item) list \<Rightarrow> item_analysis list" where
  "build_all pl m [] = []"
| "build_all pl m ((la, item) # entries) =
     (let (m', a) = build_one pl m la item in a # build_all pl m' entries)"

text \<open>The stored miner state of each project: the deserialized state (\<open>None\<close> when the blob does
  not deserialize) and its version.\<close>

type_synonym 'm drain_store = "int \<rightharpoonup> 'm option \<times> int"

definition load_manager :: "'m pipeline \<Rightarrow> 'm drain_store \<Rightarrow> int \<Rightarrow> 'm \<times> int" where
  "load_manager pl st p =
     (case st p of
        Some (Some m, v) \<Rightarrow> (m, v)
      | Some (None, v) \<Rightarrow> (pi_rebuild pl p, v)
      | None \<Rightarrow> (pi_rebuild pl p, 0))"

definition save_manager :: "'m drain_store \<Rightarrow> int \<Rightarrow> 'm \<Rightarrow> int \<Rightarrow> 'm drain_store \<times> bool" where
  "save_manager st p m expected =
     (case st p of
        None \<Rightarrow> (st(p \<mapsto> (Some m, 1)), True)
      | Some (_, v) \<Rightarrow> if v = expected then (st(p \<mapsto> (Some m, v + 1)), True) else (st, False))"

definition build_item_analyses ::
  "'m pipeline \<Rightarrow> 'm drain_store \<Rightarrow> int \<Rightarrow> (launch \<times> wire_item) list \<Rightarrow> item_analysis list" where
  "build_item_analyses pl st p entries = build_all pl (fst (load_manager pl st p)) entries"

section \<open>The index route\<close>

definition nonempty :: "string \<Rightarrow> string option" where
  "nonempty s = (if s = [] then None else Some s)"

definition nonzero :: "int \<Rightarrow> int option" where
  "nonzero n = (if n = 0 then None else Some n)"

definition max_time :: "seconds list \<Rightarrow> seconds option" where
  "max_time ts = (if ts = [] then None else Some (Max (set ts)))"

definition is_error_wire :: "wire_log \<Rightarrow> bool" where
  "is_error_wire l \<longleftrightarrow> wl_log_level l \<ge> ERROR_LOGGING_LEVEL \<and> has_text (wl_message l)"

definition process_item ::
  "'m pipeline \<Rightarrow> seconds \<Rightarrow> 'm \<Rightarrow> launch \<Rightarrow> wire_item \<Rightarrow> 'm \<times> item_row \<times> sig_row \<times> seconds" where
  "process_item pl now m la item =
     (let ordered = time_ordered_logs (wi_logs item);
          logs = log_inputs ordered;
          kept = filter_item_logs (pi_text pl) (pi_max_logs pl) logs;
          (m', r) = build_item_signature (pi_text pl) (pi_drain_max_lines pl)
                      (wi_test_item_name item) logs m;
          start_time = ts7_to_datetime (wi_start_time item);
          log_time_max = max_time (List.map_filter (ts7_to_datetime \<circ> wl_log_time) (wi_logs item));
          (emb, ver) = embedding pl r
      in (m',
          \<lparr>ti_project_id = la_project la, ti_item_id = wi_test_item_id item,
           ti_launch_id = la_launch_id la, ti_launch_name = la_launch_name la,
           ti_launch_number = Some (la_launch_number la),
           ti_test_case_hash = nonzero (wi_test_case_hash item),
           ti_unique_id = nonempty (wi_unique_id item), ti_item_name = wi_test_item_name item,
           ti_start_time = start_time, ti_is_auto_analyzed = wi_is_auto_analyzed item,
           ti_issue_type = nonempty (lower_str (strip (wi_issue_type item))),
           ti_log_count = int (length kept), ti_log_time_max = log_time_max, ti_indexed_at = now\<rparr>,
          \<lparr>fs_project_id = la_project la, fs_item_id = wi_test_item_id item,
           fs_exception_fp = sr_exception_fp r, fs_error_hash = sr_error_hash r,
           fs_top_frames = sr_frames r, fs_template_ids = map template_id (sr_template_hashes r),
           fs_exc_text = join_with '' '' (sr_exc_classes r), fs_msg_text = sr_msg_text r,
           fs_frames_text = join_with '' '' (sr_frames r), fs_tmpl_text = [], fs_only_numbers = [],
           fs_status_codes = sr_status_codes r, fs_urls = [], fs_paths = [], fs_emb = emb,
           fs_emb_model_ver = ver,
           fs_error_log_id = map_option wl_log_id (find is_error_wire ordered)\<rparr>,
          case log_time_max of Some t \<Rightarrow> t
          | None \<Rightarrow> (case start_time of Some t \<Rightarrow> t | None \<Rightarrow> now)))"

fun process_items ::
  "'m pipeline \<Rightarrow> seconds \<Rightarrow> 'm \<Rightarrow> (launch \<times> wire_item) list \<Rightarrow> 'm \<times> (item_row \<times> sig_row \<times> seconds) list"
  where
  "process_items pl now m [] = (m, [])"
| "process_items pl now m ((la, item) # entries) =
     (let (m1, x) = process_item pl now m la item;
          (m2, xs) = process_items pl now m1 entries
      in (m2, x # xs))"

definition with_tmpl_text :: "(int \<rightharpoonup> string) \<Rightarrow> sig_row \<Rightarrow> sig_row" where
  "with_tmpl_text patterns s =
     s\<lparr>fs_tmpl_text := join_with '' '' (filter (\<lambda>p. p \<noteq> [])
         (map (\<lambda>t. case patterns t of None \<Rightarrow> [] | Some p \<Rightarrow> p) (fs_template_ids s)))\<rparr>"

text \<open>One batch of an index request: the rows to write and the test cases to bump.\<close>

record index_batch =
  ib_items :: "item_row list"
  ib_sigs :: "sig_row list"
  ib_bumps :: "(int \<times> seconds) list"

definition batch_of ::
  "'m pipeline \<Rightarrow> seconds \<Rightarrow> 'm \<Rightarrow> (launch \<times> wire_item) list \<Rightarrow> 'm \<times> index_batch" where
  "batch_of pl now m entries =
     (let (m', xs) = process_items pl now m entries
      in (m', \<lparr>ib_items = map fst xs,
               ib_sigs = map (\<lambda>x. with_tmpl_text (pi_patterns pl m') (fst (snd x))) xs,
               ib_bumps = List.map_filter (\<lambda>(i, _, ts).
                  map_option (\<lambda>h. (h, ts)) (ti_test_case_hash i)) xs\<rparr>))"

text \<open>\<open>others n\<close> is what other workers do to the stored state between the load and the save of
  attempt \<open>n\<close>. The result is the batch of the attempt that saved, or \<open>None\<close> (the \<open>RuntimeError\<close>).\<close>

fun mine_attempts ::
  "'m pipeline \<Rightarrow> seconds \<Rightarrow> (nat \<Rightarrow> 'm drain_store \<Rightarrow> 'm drain_store) \<Rightarrow> int
     \<Rightarrow> (launch \<times> wire_item) list \<Rightarrow> nat \<Rightarrow> nat \<Rightarrow> 'm drain_store \<Rightarrow> 'm drain_store \<times> index_batch option"
  where
  "mine_attempts pl now others p entries 0 n st = (st, None)"
| "mine_attempts pl now others p entries (Suc left) n st =
     (let (m, version) = load_manager pl st p;
          (m', batch) = batch_of pl now m entries;
          (st', saved) = save_manager (others n st) p m' version
      in if saved then (st', Some batch)
         else mine_attempts pl now others p entries left (Suc n) st')"

definition mine_and_build ::
  "'m pipeline \<Rightarrow> seconds \<Rightarrow> (nat \<Rightarrow> 'm drain_store \<Rightarrow> 'm drain_store) \<Rightarrow> int
     \<Rightarrow> (launch \<times> wire_item) list \<Rightarrow> 'm drain_store \<Rightarrow> 'm drain_store \<times> index_batch option" where
  "mine_and_build pl now others p entries st =
     mine_attempts pl now others p entries (pi_cas_retries pl) 0 st"

text \<open>One transaction: items, signatures and a failure observation per test case.\<close>

definition commit_batch :: "seconds \<Rightarrow> int \<Rightarrow> index_batch \<Rightarrow> db \<Rightarrow> db" where
  "commit_batch now p b db =
     fold (\<lambda>(tch, ts). bump_test_history p tch True ts) (ib_bumps b)
       (fst (upsert_signatures (ib_sigs b) (fst (upsert_items now (ib_items b) db))))"

definition found_exceptions :: "'m pipeline \<Rightarrow> (launch \<times> wire_item) list \<Rightarrow> (int \<times> string list) list"
  where
  "found_exceptions pl entries =
     concat (map (\<lambda>(_, item). List.map_filter
        (\<lambda>l. if is_error_wire l
             then Some (wl_log_id l, cl_exceptions (te_clean (pi_text pl) (wl_message l))) else None)
        (wi_logs item)) entries)"

record bulk_response =
  br_errors :: bool
  br_log_results :: "(int \<times> string list) list"

record 'm index_state =
  ix_db :: db
  ix_drain :: "'m drain_store"
  ix_reply :: bulk_response

definition index_project ::
  "'m pipeline \<Rightarrow> seconds \<Rightarrow> (nat \<Rightarrow> 'm drain_store \<Rightarrow> 'm drain_store)
     \<Rightarrow> int \<times> (launch \<times> wire_item) list \<Rightarrow> 'm index_state \<Rightarrow> 'm index_state" where
  "index_project pl now others = (\<lambda>(p, entries) s.
     (case mine_and_build pl now others p entries (ix_drain s) of
        (st, None) \<Rightarrow> s\<lparr>ix_drain := st, ix_reply := (ix_reply s)\<lparr>br_errors := True\<rparr>\<rparr>
      | (st, Some b) \<Rightarrow>
          s\<lparr>ix_drain := st, ix_db := commit_batch now p b (ix_db s),
            ix_reply := (ix_reply s)\<lparr>br_log_results :=
                br_log_results (ix_reply s) @ found_exceptions pl entries\<rparr>\<rparr>))"

definition by_project :: "launch list \<Rightarrow> (int \<times> (launch \<times> wire_item) list) list" where
  "by_project launches =
     (let entries = concat (map (\<lambda>la. map (\<lambda>i. (la, i)) (la_test_items la)) launches);
          ps = dedup_from id {} (map (\<lambda>(la, _). la_project la) entries)
      in map (\<lambda>p. (p, filter (\<lambda>(la, _). la_project la = p) entries)) ps)"

definition index_launches ::
  "'m pipeline \<Rightarrow> seconds \<Rightarrow> (nat \<Rightarrow> 'm drain_store \<Rightarrow> 'm drain_store) \<Rightarrow> launch list
     \<Rightarrow> db \<Rightarrow> 'm drain_store \<Rightarrow> 'm index_state" where
  "index_launches pl now others launches db st =
     fold (index_project pl now others) (by_project launches)
       \<lparr>ix_db = db, ix_drain = st, ix_reply = \<lparr>br_errors = False, br_log_results = []\<rparr>\<rparr>"

section \<open>The compare-and-swap\<close>

text \<open>What another worker may do to the state of a project: leave it, or replace it under a higher
  version.\<close>

definition moves_on :: "int \<Rightarrow> 'm drain_store \<Rightarrow> 'm drain_store \<Rightarrow> bool" where
  "moves_on p st st' \<longleftrightarrow> st' p = st p \<or>
     (case st' p of None \<Rightarrow> False
      | Some (_, v') \<Rightarrow> (case st p of None \<Rightarrow> 1 \<le> v' | Some (_, v) \<Rightarrow> v < v'))"

definition versions_ok :: "'m drain_store \<Rightarrow> bool" where
  "versions_ok st \<longleftrightarrow> (\<forall>p. case st p of None \<Rightarrow> True | Some (_, v) \<Rightarrow> 1 \<le> v)"

lemma save_manager_ok:
  assumes "moves_on p st st'" and "save_manager st' p m (snd (load_manager pl st p)) = (st2, True)"
    and "versions_ok st"
  shows "st' p = st p \<and> st2 = st'(p \<mapsto> (Some m, snd (load_manager pl st p) + 1))"
proof (cases "st' p")
  case None
  then have "st p = None" using assms(1) by (simp add: moves_on_def)
  with None assms(2) show ?thesis by (simp add: save_manager_def load_manager_def)
next
  case (Some x)
  obtain o' v' where x: "x = (o', v')" by (cases x)
  have v: "v' = snd (load_manager pl st p)" and st2: "st2 = st'(p \<mapsto> (Some m, v' + 1))"
    using assms(2) Some x by (auto simp: save_manager_def split: if_splits)
  have "st' p = st p"
  proof (rule ccontr)
    assume ne: "st' p \<noteq> st p"
    show False
    proof (cases "st p")
      case None
      then show ?thesis using assms(1) ne Some x v by (simp add: moves_on_def load_manager_def)
    next
      case (Some y)
      obtain o2 v2 where y: "y = (o2, v2)" by (cases y)
      then have "snd (load_manager pl st p) = v2" using Some
        by (cases o2) (simp_all add: load_manager_def)
      then show ?thesis using assms(1) ne Some x y v \<open>st' p = Some x\<close> by (simp add: moves_on_def)
    qed
  qed
  with v st2 show ?thesis by simp
qed

lemma mine_attempts_sound:
  assumes "mine_attempts pl now others p entries left n st = (st', Some b)"
    and "\<And>k s. moves_on p s (others k s) \<and> (versions_ok s \<longrightarrow> versions_ok (others k s))"
    and "versions_ok st"
  shows "\<exists>k s. n \<le> k \<and> k < n + left \<and> others k s p = s p
    \<and> b = snd (batch_of pl now (fst (load_manager pl s p)) entries)
    \<and> st' = (others k s)(p \<mapsto> (Some (fst (batch_of pl now (fst (load_manager pl s p)) entries)),
                snd (load_manager pl s p) + 1))"
  using assms(1,3)
proof (induction left arbitrary: n st)
  case 0
  then show ?case by simp
next
  case (Suc left)
  obtain m v where lm: "load_manager pl st p = (m, v)" by fastforce
  obtain m' b' where bo: "batch_of pl now m entries = (m', b')" by fastforce
  obtain st1 ok where sv: "save_manager (others n st) p m' v = (st1, ok)" by fastforce
  show ?case
  proof (cases ok)
    case True
    then have eq: "b = b'" "st' = st1" using Suc.prems(1) by (simp_all add: lm bo sv)
    have "others n st p = st p \<and> st1 = (others n st)(p \<mapsto> (Some m', v + 1))"
      using save_manager_ok [of p st "others n st" m' pl st1] assms(2) [where k = n and s = st]
        Suc.prems(2) sv True by (simp add: lm)
    then show ?thesis by (intro exI [of _ n] exI [of _ st]) (simp add: lm bo eq)
  next
    case False
    have "st1 = others n st"
      using sv False by (auto simp: save_manager_def split: option.splits if_splits)
    then have vo: "versions_ok st1" using assms(2) Suc.prems(2) by blast
    have "mine_attempts pl now others p entries left (Suc n) st1 = (st', Some b)"
      using Suc.prems(1) by (simp add: lm bo sv False)
    from Suc.IH [OF this vo] obtain k s where ks: "Suc n \<le> k" "k < Suc n + left"
        "others k s p = s p
          \<and> b = snd (batch_of pl now (fst (load_manager pl s p)) entries)
          \<and> st' = (others k s)(p \<mapsto> (Some (fst (batch_of pl now (fst (load_manager pl s p)) entries)),
                snd (load_manager pl s p) + 1))" by blast
    then have "n \<le> k" "k < n + Suc left" by simp_all
    with ks(3) show ?thesis by blast
  qed
qed

lemma mine_attempts_undisturbed:
  assumes "others n st p = st p" and "0 < left"
  shows "snd (mine_attempts pl now others p entries left n st) \<noteq> None"
proof -
  obtain l where l: "left = Suc l" using assms(2) by (cases left) simp_all
  obtain m v where lm: "load_manager pl st p = (m, v)" by fastforce
  obtain m' b' where bo: "batch_of pl now m entries = (m', b')" by fastforce
  have "snd (save_manager (others n st) p m' v)"
    using lm assms(1) by (auto simp: save_manager_def load_manager_def split: option.splits)
  then obtain st1 where "save_manager (others n st) p m' v = (st1, True)" by (metis prod.collapse)
  then show ?thesis by (simp add: l lm bo)
qed


definition demo_text_env :: "nat text_env" where
  "demo_text_env = \<lparr>te_unique = (\<lambda>_ ms. Some [0..<length ms]),
     te_clean = (\<lambda>m. \<lparr>cl_unified = m, cl_msg = m, cl_stack_raw = [], cl_stack = [], cl_exceptions = [''E''],
        cl_status_codes = [], cl_urls = [], cl_paths = [], cl_has_stacktrace = False\<rparr>),
     te_is_frame_line = (\<lambda>_. False), te_parse_frame = (\<lambda>_. None), te_normalize_class = id,
     te_has_chain_marker = (\<lambda>_. False), te_is_assertion = (\<lambda>_. False), te_mask_assertion = id,
     te_mask = id, te_item_name = id, te_status_codes = (\<lambda>_. []), te_xxh = (\<lambda>_. 1),
     te_mine = (\<lambda>n l. (n + 1, l))\<rparr>"

definition demo_pipeline :: "nat pipeline" where
  "demo_pipeline = \<lparr>pi_text = demo_text_env, pi_embed = None, pi_emb_model_ver = 0, pi_max_logs = 20,
     pi_drain_max_lines = 40, pi_cas_retries = DRAIN_CAS_RETRIES, pi_rebuild = (\<lambda>_. 0),
     pi_patterns = (\<lambda>_ _. None)\<rparr>"


end
