(* ===== verification/Matching.thy ===== *)
theory Matching
  imports Decision Grouping Scope Kb Ingest LlmQueue
begin

text \<open>
  \<open>core/analysis.py\<close>, the matching half: the canonical identity of the item under analysis, its
  stage A, B and C evidence under the project's scope, the decision, the failure mode it joins, and
  the writes each decision makes - the suggestion row, the memberships and the enrichment jobs. The
  rows the hybrid SQL query returns, the distance of two embeddings and the seed catalog's matcher
  are fields of the engine.
\<close>

section \<open>The engine\<close>

definition TOP_K :: nat where "TOP_K = 20"
definition STAGE_C_RETRIEVE_K :: nat where "STAGE_C_RETRIEVE_K = 60"
definition ANALYZE_SCOPED_ROUTES :: "string list" where
  "ANALYZE_SCOPED_ROUTES = [''analyze'', ''analyze_item_early'']"
definition MSG_SALIENT_TERMS :: nat where "MSG_SALIENT_TERMS = 24"

record seed_mode =
  sm_mode_key :: string
  sm_title :: string
  sm_prior_label :: string
  sm_prior_confidence :: real

record neighbour_ref =
  nr_id :: "int option"
  nr_label :: string
  nr_similarity :: real

datatype llm_payload =
    NoPayload
  | ColdStartPayload int
  | AbstainPayload int "string option" real "neighbour_ref list"
  | JudgePayload "neighbour_ref list"

text \<open>\<open>ae_llm_enabled\<close> is whether a sidecar is wired and switched on, \<open>ae_seed_persists\<close> whether the
  seed knowledge base can write its project copy, \<open>ae_hybrid db p q k\<close> and \<open>ae_search_ti\<close> the rows of
  the two hybrid queries.\<close>

record 'm engine =
  ae_pipeline :: "'m pipeline"
  ae_vdist :: "vec \<Rightarrow> vec \<Rightarrow> real"
  ae_hybrid :: "db \<Rightarrow> int \<Rightarrow> query_signature \<Rightarrow> nat \<Rightarrow> stage_b_row list"
  ae_search_ti :: "db \<Rightarrow> int \<Rightarrow> query_signature \<Rightarrow> nat \<Rightarrow> int list \<Rightarrow> int \<Rightarrow> stage_b_row list"
  ae_seed :: "(string list \<Rightarrow> string \<Rightarrow> seed_mode option) option"
  ae_seed_persists :: bool
  ae_emb_model_tag :: string
  ae_predictor :: "(feats \<Rightarrow> int \<Rightarrow> gbm_decision option) option"
  ae_llm_enabled :: bool
  ae_role_enabled :: "string \<Rightarrow> bool"
  ae_extractor_features :: "(int \<Rightarrow> int \<Rightarrow> int list \<Rightarrow> (string \<times> string) option) option"
  ae_judge_tau :: real
  ae_auto_min_prob :: real
  ae_suggest_max :: nat
  ae_burst_si_share :: real
  ae_time_decay :: real
  ae_suggest_below_enabled :: bool
  ae_early_item_analysis :: bool
  ae_early_label_policy :: string
  ae_early_gbm_pb_min :: real
  ae_suggest_below_max :: int

record an_state =
  as_db :: db
  as_jobs :: "llm_payload llm_job list"

record mode_match =
  mt_mode_id :: int
  mt_score :: real
  mt_matched_by :: string

section \<open>Identity\<close>

record query_identity =
  qi_exception_fp :: int
  qi_error_hash :: int
  qi_template_ids :: "int list"
  qi_top_frames :: "string list"
  qi_status_codes :: "string list"
  qi_msg_text :: string
  qi_exception_names :: "string list"

definition item_id_of :: "item_analysis \<Rightarrow> int" where
  "item_id_of a = wi_test_item_id (an_item a)"

definition persist_recomputed_signature :: "int \<Rightarrow> item_analysis \<Rightarrow> db \<Rightarrow> db" where
  "persist_recomputed_signature p rep db =
     (let sig = an_signature rep
      in if sr_signature_text sig = [] then db
         else fst (upsert_signatures
           [\<lparr>fs_project_id = p, fs_item_id = item_id_of rep,
             fs_exception_fp = sr_exception_fp sig, fs_error_hash = sr_error_hash sig,
             fs_top_frames = sr_frames sig,
             fs_template_ids = map template_id (sr_template_hashes sig),
             fs_exc_text = join_with '' '' (sr_exc_classes sig), fs_msg_text = sr_msg_text sig,
             fs_frames_text = join_with '' '' (sr_frames sig), fs_tmpl_text = [],
             fs_only_numbers = [], fs_status_codes = sr_status_codes sig, fs_urls = [],
             fs_paths = [], fs_emb = an_emb rep, fs_emb_model_ver = an_emb_model_ver rep,
             fs_error_log_id = None\<rparr>] db))"

definition resolve_identity :: "int \<Rightarrow> item_analysis \<Rightarrow> db \<Rightarrow> db \<times> query_identity" where
  "resolve_identity p rep db =
     (case get_signatures db p [item_id_of rep] (item_id_of rep) of
        Some s \<Rightarrow>
          (db, \<lparr>qi_exception_fp = fs_exception_fp s, qi_error_hash = fs_error_hash s,
                qi_template_ids = fs_template_ids s, qi_top_frames = fs_top_frames s,
                qi_status_codes = fs_status_codes s, qi_msg_text = fs_msg_text s,
                qi_exception_names = split_ws (fs_exc_text s)\<rparr>)
      | None \<Rightarrow>
          (let sig = an_signature rep
           in (persist_recomputed_signature p rep db,
               \<lparr>qi_exception_fp = sr_exception_fp sig, qi_error_hash = sr_error_hash sig,
                qi_template_ids = map template_id (sr_template_hashes sig),
                qi_top_frames = sr_frames sig, qi_status_codes = sr_status_codes sig,
                qi_msg_text = sr_msg_text sig, qi_exception_names = sr_exc_classes sig\<rparr>)))"

definition salient :: "string list \<Rightarrow> string \<Rightarrow> string list \<Rightarrow> string list" where
  "salient names msg codes =
     names @ take MSG_SALIENT_TERMS (split_ws msg) @ map (\<lambda>c. ''HTTP_'' @ c) codes"

definition query_from_identity ::
  "query_identity \<Rightarrow> item_analysis \<Rightarrow> int \<Rightarrow> int \<Rightarrow> query_signature" where
  "query_from_identity i rep launch_id launch_number =
     \<lparr>q_exception_fp = qi_exception_fp i, q_error_hash = qi_error_hash i,
      q_top_frames = qi_top_frames i, q_template_ids = qi_template_ids i,
      q_salient_terms = salient (qi_exception_names i) (qi_msg_text i) (qi_status_codes i),
      q_exception_names = qi_exception_names i, q_emb = an_emb rep,
      q_emb_model_ver = an_emb_model_ver rep,
      q_test_case_hash = nonzero (wi_test_case_hash (an_item rep)),
      q_launch_id = Some launch_id, q_launch_number = Some launch_number\<rparr>"

definition query_signature :: "item_analysis \<Rightarrow> int \<Rightarrow> int \<Rightarrow> query_signature" where
  "query_signature rep launch_id launch_number =
     (let sig = an_signature rep
      in \<lparr>q_exception_fp = sr_exception_fp sig, q_error_hash = sr_error_hash sig,
          q_top_frames = sr_frames sig,
          q_template_ids = map template_id (sr_template_hashes sig),
          q_salient_terms = salient (sr_exc_classes sig) (sr_msg_text sig) (sr_status_codes sig),
          q_exception_names = sr_exc_classes sig, q_emb = an_emb rep,
          q_emb_model_ver = an_emb_model_ver rep,
          q_test_case_hash = nonzero (wi_test_case_hash (an_item rep)),
          q_launch_id = Some launch_id, q_launch_number = Some launch_number\<rparr>)"

definition scope_query_of :: "launch \<Rightarrow> scope_query" where
  "scope_query_of la = \<lparr>sq_project_id = la_project la, sq_launch_id = la_launch_id la,
     sq_launch_name = la_launch_name la, sq_previous_launch_id = la_previous_launch_id la\<rparr>"

text \<open>The full discriminant of an item: hash, status codes, masked message tokens.\<close>

type_synonym discriminant = "int \<times> string set \<times> string set"

definition discriminant_of :: "db \<Rightarrow> int \<Rightarrow> item_analysis \<Rightarrow> discriminant" where
  "discriminant_of db p a =
     (case find_sig db p (item_id_of a) of
        Some s \<Rightarrow> (fs_error_hash s, set (fs_status_codes s), set (split_ws (fs_msg_text s)))
      | None \<Rightarrow> (let sig = an_signature a
                in (sr_error_hash sig, set (sr_status_codes sig), set (split_ws (sr_msg_text sig)))))"

definition canonical_discriminants ::
  "db \<Rightarrow> int \<Rightarrow> item_analysis list \<Rightarrow> int \<rightharpoonup> discriminant" where
  "canonical_discriminants db p analyses =
     map_of (rev (map (\<lambda>a. (item_id_of a, discriminant_of db p a)) analyses))"

section \<open>Stage A\<close>

definition age_days_unknown :: "seconds option \<Rightarrow> seconds \<Rightarrow> real" where
  "age_days_unknown ts now = (case ts of None \<Rightarrow> 3650 | Some t \<Rightarrow> max 0 ((now - t) / 86400))"

definition in_route_scope ::
  "string \<Rightarrow> string \<Rightarrow> scope_query \<Rightarrow> scope_candidate \<Rightarrow> bool" where
  "in_route_scope route analyzer_mode sq c \<longleftrightarrow>
     (if route \<in> set ANALYZE_SCOPED_ROUTES then in_analyze_scope (Some analyzer_mode) sq c
      else passes_base c)"

definition hash_scope :: "hash_row \<Rightarrow> scope_candidate" where
  "hash_scope r =
     \<lparr>sc_launch_id = hr_launch_id r, sc_launch_name = hr_launch_name r,
      sc_issue_type_group = Some (case hr_issue_type_group r of None \<Rightarrow> [] | Some g \<Rightarrow> g),
      sc_is_labeled = True\<rparr>"

definition hash_match_of :: "hash_row \<Rightarrow> hash_match" where
  "hash_match_of r =
     \<lparr>hm_item_id = hr_item_id r, hm_issue_type = hr_issue_type r,
      hm_issue_type_group = (case hr_issue_type_group r of None \<Rightarrow> [] | Some g \<Rightarrow> g),
      hm_label_source = hr_label_source r, hm_label_ts = hr_label_ts r,
      hm_confidence = src_weight (hr_label_source r),
      hm_is_auto_analyzed = hr_is_auto_analyzed r, hm_exception_fp = hr_exception_fp r,
      hm_status_codes = hr_status_codes r, hm_msg_tokens = set (split_ws (hr_msg_text r))\<rparr>"

definition stage_a ::
  "string \<Rightarrow> string \<Rightarrow> scope_query \<Rightarrow> int \<Rightarrow> query_identity \<Rightarrow> int \<Rightarrow> db \<Rightarrow> hash_match list" where
  "stage_a route analyzer_mode sq p ident self db =
     (if qi_exception_fp ident = 0 then []
      else map hash_match_of
        (filter (\<lambda>r. hr_item_id r \<noteq> self \<and> in_route_scope route analyzer_mode sq (hash_scope r))
          (find_hash_matches db p (qi_error_hash ident))))"

section \<open>Stage B: the seed prior\<close>

text \<open>A seed hit writes the project's copy of the mode; when that write fails, only the signal is left.\<close>

definition seed_signal_of ::
  "'m engine \<Rightarrow> int \<Rightarrow> signature_result \<Rightarrow> db \<Rightarrow> db \<times> seed_signal option \<times> int option" where
  "seed_signal_of eng p sig db =
     (case Option.bind (ae_seed eng) (\<lambda>f. f (sr_exc_classes sig) (sr_msg_text sig)) of
        None \<Rightarrow> (db, None, None)
      | Some m \<Rightarrow>
          (let signal = Some \<lparr>seed_label = sm_prior_label m, seed_confidence = sm_prior_confidence m\<rparr>
           in if ae_seed_persists eng
              then (let (db', mid) = ensure_seed_mode p (sm_mode_key m)
                                       (seed_mode_in (sm_prior_label m) (sm_title m)) db
                    in (db', signal, Some mid))
              else (db, signal, None)))"

section \<open>Stage C\<close>

definition candidate_scope :: "(int \<rightharpoonup> string) \<Rightarrow> candidate \<Rightarrow> scope_candidate" where
  "candidate_scope names c =
     \<lparr>sc_launch_id = (case c_launch_id c of None \<Rightarrow> 0 | Some l \<Rightarrow> l),
      sc_launch_name = (case names (case c_item_id c of None \<Rightarrow> 0 | Some i \<Rightarrow> i) of
                          None \<Rightarrow> [] | Some n \<Rightarrow> n),
      sc_issue_type_group = Some (filter is_alpha
        (take 2 (case c_issue_type c of None \<Rightarrow> [] | Some t \<Rightarrow> t))),
      sc_is_labeled = (c_issue_type c \<noteq> None)\<rparr>"

definition route_boost :: "string \<Rightarrow> string \<Rightarrow> scope_query \<Rightarrow> scope_candidate \<Rightarrow> real" where
  "route_boost route analyzer_mode sq c =
     (if route \<in> set ANALYZE_SCOPED_ROUTES then analyze_boost (Some analyzer_mode) sq c
      else suggest_boost (Some analyzer_mode) sq c)"

definition stage_c_key ::
  "string \<Rightarrow> string \<Rightarrow> scope_query \<Rightarrow> (int \<rightharpoonup> string) \<Rightarrow> candidate \<Rightarrow> real \<times> int" where
  "stage_c_key route analyzer_mode sq names c =
     (c_rrf_score c * route_boost route analyzer_mode sq (candidate_scope names c),
      case c_item_id c of None \<Rightarrow> 0 | Some i \<Rightarrow> i)"

definition stage_c ::
  "'m engine \<Rightarrow> seconds \<Rightarrow> string \<Rightarrow> string \<Rightarrow> scope_query \<Rightarrow> int \<Rightarrow> query_signature \<Rightarrow> int \<Rightarrow> db
     \<Rightarrow> candidate list \<times> real list" where
  "stage_c eng now route analyzer_mode sq p q self db =
     (let cands = find_candidates (match_modes (ae_vdist eng) db p q 10)
                    (ae_hybrid eng db p q STAGE_C_RETRIEVE_K) q STAGE_C_RETRIEVE_K
                    (no_filters\<lparr>cf_exclude_item_ids := [self]\<rparr>);
          items = filter (\<lambda>c. c_item_id c \<noteq> None) cands;
          names = item_launch_names db p (List.map_filter c_item_id items);
          scoped = filter (\<lambda>c. in_route_scope route analyzer_mode sq (candidate_scope names c)) items;
          ordered = take TOP_K (order_desc (stage_c_key route analyzer_mode sq names) scoped)
      in (ordered, map (\<lambda>c. age_days_unknown (c_label_ts c) now) ordered))"

section \<open>The decision\<close>

definition feature_ctx ::
  "'m engine \<Rightarrow> seconds \<Rightarrow> item_analysis \<Rightarrow> launch_group \<Rightarrow> nat \<Rightarrow> db \<Rightarrow> feature_context" where
  "feature_ctx eng now rep g total_failures db =
     (let sig = an_signature rep;
          p = la_project (an_launch rep);
          tch = nonzero (wi_test_case_hash (an_item rep));
          llm = (case Option.bind (ae_extractor_features eng) (\<lambda>f. f p (sr_exception_fp sig)
                        (map template_id (sr_template_hashes sig))) of
                   None \<Rightarrow> (LLM_UNKNOWN, LLM_UNKNOWN) | Some h \<Rightarrow> h);
          row = Option.bind tch (get_test_history db p);
          seen = Option.bind tch (test_case_first_seen db p)
      in default_context
        \<lparr>fc_flakiness_score := map_option th_flakiness_score row,
         fc_window_runs := (case row of None \<Rightarrow> 0 | Some r \<Rightarrow> th_window_runs r),
         fc_window_failures := (case row of None \<Rightarrow> 0 | Some r \<Rightarrow> th_window_failures r),
         fc_window_flips := (case row of None \<Rightarrow> 0 | Some r \<Rightarrow> th_window_flips r),
         fc_group_size := int (length (lg_members g)),
         fc_launch_failures := int total_failures,
         fc_launch_items := la_launch_items_count (an_launch rep),
         fc_si_prior := lg_si_prior g,
         fc_test_age_days := map_option (\<lambda>t. age_days_unknown (Some t) now) seen,
         fc_item_log_count := an_log_count rep,
         fc_has_stacktrace := sr_has_stacktrace sig,
         fc_is_assertion := sr_is_assertion sig,
         fc_is_merged_small_logs := sr_is_merged_small_logs sig,
         fc_exception_count := int (length (sr_exc_classes sig)),
         fc_llm_failing_layer := fst llm,
         fc_llm_error_class := snd llm,
         fc_time_decay_per_day := ae_time_decay eng\<rparr>)"

definition matched_by_or_vector :: "candidate \<Rightarrow> string" where
  "matched_by_or_vector c = (case nonempty_str (c_matched_by c) of Some m \<Rightarrow> m | None \<Rightarrow> ''vector'')"

text \<open>The failure mode an item joins; it is stamped on the decision.\<close>

definition resolve_mode_match ::
  "candidate list \<Rightarrow> int option \<Rightarrow> seed_signal option \<Rightarrow> decision_result
     \<Rightarrow> decision_result \<times> mode_match option" where
  "resolve_mode_match kb_candidates seed_mode_id seed d =
     (case dr_matched_mode_id d of
        Some m \<Rightarrow>
          (d, Some (case List.find (\<lambda>c. c_mode_id c = Some m) kb_candidates of
             Some c \<Rightarrow> \<lparr>mt_mode_id = m, mt_score = kb_score_mode (score_kb_candidate c),
                       mt_matched_by = matched_by_or_vector c\<rparr>
           | None \<Rightarrow> \<lparr>mt_mode_id = m, mt_score = 1, mt_matched_by = ''vector''\<rparr>))
      | None \<Rightarrow>
          (case seed_mode_id of
             Some m \<Rightarrow>
               (d\<lparr>dr_matched_mode_id := Some m\<rparr>,
                Some \<lparr>mt_mode_id = m,
                      mt_score = (case seed of Some s \<Rightarrow> seed_confidence s | None \<Rightarrow> 1),
                      mt_matched_by = ''lexical''\<rparr>)
           | None \<Rightarrow>
               (case best_kb_match kb_candidates of
                  None \<Rightarrow> (d, None)
                | Some (kbm, cand) \<Rightarrow>
                    (case c_mode_id cand of
                       None \<Rightarrow> (d, None)
                     | Some m \<Rightarrow>
                         if kb_score_mode kbm \<ge> KB_CANDIDATE_SCORE
                         then (d\<lparr>dr_matched_mode_id := Some m\<rparr>,
                               Some \<lparr>mt_mode_id = m, mt_score = kb_score_mode kbm,
                                     mt_matched_by = matched_by_or_vector cand\<rparr>)
                         else (d, None)))))"

record decide_args =
  da_project :: int
  da_scope :: scope_query
  da_mode :: string
  da_total :: nat
  da_route :: string

definition item_inputs ::
  "'m engine \<Rightarrow> seconds \<Rightarrow> decide_args \<Rightarrow> item_analysis \<Rightarrow> launch_group \<Rightarrow> query_identity
     \<Rightarrow> query_signature \<Rightarrow> hash_match list \<Rightarrow> candidate list \<Rightarrow> seed_signal option \<Rightarrow> db
     \<Rightarrow> decision_inputs" where
  "item_inputs eng now a rep g ident q hms kb seed db =
     (let (cs, ages) = stage_c eng now (da_route a) (da_mode a) (da_scope a) (da_project a) q
                         (item_id_of rep) db
      in \<lparr>di_exception_fp = qi_exception_fp ident,
          di_hash_matches = hms,
          di_query_status_codes = qi_status_codes ident,
          di_query_msg_tokens = set (split_ws (qi_msg_text ident)),
          di_kb_candidates = kb, di_seed = seed, di_stage_c = cs, di_stage_c_ages_days = ages,
          di_feature_ctx = Some (feature_ctx eng now rep g (da_total a) db),
          di_gbm_predict = map_option (\<lambda>f fs. f fs (da_project a)) (ae_predictor eng)\<rparr>)"

definition decide_item ::
  "'m engine \<Rightarrow> seconds \<Rightarrow> decide_args \<Rightarrow> item_analysis \<Rightarrow> launch_group \<Rightarrow> db
     \<Rightarrow> db \<times> decision_result \<times> mode_match option" where
  "decide_item eng now a rep g db =
     (let p = da_project a;
          (db1, ident) = resolve_identity p rep db;
          q = query_from_identity ident rep (la_launch_id (an_launch rep))
                (la_launch_number (an_launch rep));
          hms = stage_a (da_route a) (da_mode a) (da_scope a) p ident (item_id_of rep) db1;
          kb = match_modes (ae_vdist eng) db1 p q 10;
          (db2, seed, seed_mode_id) = seed_signal_of eng p (an_signature rep) db1;
          d = decide (item_inputs eng now a rep g ident q hms kb seed db2) now (ae_auto_min_prob eng);
          (d', m) = resolve_mode_match kb seed_mode_id seed d
      in (db2, d', m))"

section \<open>What a decision writes\<close>

definition FEATURE_VER_TEXT :: string where "FEATURE_VER_TEXT = '';fs='' @ show_int FEATURE_SCHEMA_VER"

definition model_ver :: "'m engine \<Rightarrow> decision_result \<Rightarrow> string" where
  "model_ver eng d =
     (if dr_method d = METHOD_GBM
      then (case nonempty_str (dr_model_version d) of Some v \<Rightarrow> v | None \<Rightarrow> ''gbm'')
             @ FEATURE_VER_TEXT @ '';emb='' @ ae_emb_model_tag eng
      else ''rule_cold'' @ FEATURE_VER_TEXT @ '';emb='' @ ae_emb_model_tag eng)"

definition stage_a_explanation :: "decision_result \<Rightarrow> string option" where
  "stage_a_explanation d =
     (if dr_method d \<noteq> METHOD_HASH then None
      else map_option (\<lambda>i. ''Inherited from item '' @ show_int i @ '' (''
             @ (if dr_relevant_label_source d \<in> {Some ''human'', Some ''rp''}
                then ''human-labeled '' else [])
             @ dr_issue_type d @ '', same error_hash, discriminant gate passed).'')
           (dr_relevant_item_id d))"

definition method_text :: "decision_method \<Rightarrow> string" where
  "method_text m = (case m of METHOD_HASH \<Rightarrow> ''hash'' | METHOD_KB \<Rightarrow> ''kb'' | METHOD_GBM \<Rightarrow> ''gbm''
                    | METHOD_RULE_COLD \<Rightarrow> ''rule_cold'')"

definition suggestion_of_decision ::
  "'m engine \<Rightarrow> int \<Rightarrow> int \<Rightarrow> int \<Rightarrow> int option \<Rightarrow> string option \<Rightarrow> decision_result \<Rightarrow> suggestion_in" where
  "suggestion_of_decision eng p i launch_id gid source d =
     \<lparr>su_project_id = p, su_item_id = i, su_launch_id = launch_id, su_group_id = gid,
      su_predicted_label = dr_issue_type d, su_confidence = dr_confidence d,
      su_matched_mode_id = dr_matched_mode_id d, su_matched_item_id = dr_relevant_item_id d,
      su_features = dr_features d, su_model_ver = model_ver eng d, su_llm_used = False,
      su_method = Some (method_text (dr_method d)), su_abstain_reason = dr_abstain_reason d,
      su_explanation = stage_a_explanation d, su_source = source\<rparr>"

text \<open>A membership write that fails is swallowed.\<close>

definition record_membership ::
  "int \<Rightarrow> int list \<Rightarrow> mode_match option \<Rightarrow> item_analysis \<Rightarrow> db \<Rightarrow> db" where
  "record_membership p ids m rep db =
     (case m of
        None \<Rightarrow> db
      | Some mt \<Rightarrow>
          if ids = [] then db
          else (case add_members p (mt_mode_id mt)
                       (map (\<lambda>i. (i, mt_score mt, mt_matched_by mt)) ids)
                       (if an_emb rep \<noteq> None then Some (an_emb_model_ver rep) else None) db of
                  None \<Rightarrow> db
                | Some (db', _) \<Rightarrow> db'))"

section \<open>Enrichment jobs\<close>

text \<open>\<open>LlmSidecar.enqueue\<close> hands the job to the queue when its role is on.\<close>

definition sidecar_enqueue ::
  "'m engine \<Rightarrow> string \<Rightarrow> int \<Rightarrow> int \<Rightarrow> llm_payload \<Rightarrow> an_state \<Rightarrow> an_state" where
  "sidecar_enqueue eng role p i payload st =
     (if ae_llm_enabled eng \<and> ae_role_enabled eng role
      then st\<lparr>as_jobs := as_jobs st @ [\<lparr>job_role = role, job_project_id = p, job_item_id = i,
                                         job_payload = payload\<rparr>]\<rparr>
      else st)"

text \<open>\<open>round(x, n)\<close> and the format \<open>.nf\<close>, both half-to-even.\<close>

definition round_half_even :: "real \<Rightarrow> int" where
  "round_half_even x =
     (let f = floor x; r = x - of_int f
      in if r < 1 / 2 then f else if r > 1 / 2 then f + 1 else if even f then f else f + 1)"

definition py_round :: "nat \<Rightarrow> real \<Rightarrow> real" where
  "py_round n x = of_int (round_half_even (x * 10 ^ n)) / 10 ^ n"

definition capped_cosine :: "candidate \<Rightarrow> real" where
  "capped_cosine c = min 1 (cos_of c)"

definition neighbour_refs :: "(candidate \<Rightarrow> bool) \<Rightarrow> decision_result \<Rightarrow> neighbour_ref list" where
  "neighbour_refs ok d =
     List.map_filter (\<lambda>c. case c_issue_type c of
          None \<Rightarrow> None
        | Some l \<Rightarrow> if ok c then Some \<lparr>nr_id = c_item_id c, nr_label = l,
                                        nr_similarity = py_round 3 (capped_cosine c)\<rparr>
                   else None)
       (take 3 (dr_stage_c d))"

definition abstain_candidates :: "decision_result \<Rightarrow> neighbour_ref list" where
  "abstain_candidates d = neighbour_refs (\<lambda>_. True) d"

definition judge_candidates :: "decision_result \<Rightarrow> neighbour_ref list" where
  "judge_candidates d = neighbour_refs (\<lambda>c. c_item_id c \<noteq> None) d"

definition enqueue_llm ::
  "'m engine \<Rightarrow> int \<Rightarrow> int \<Rightarrow> int \<Rightarrow> decision_result \<Rightarrow> neighbour_ref list option \<Rightarrow> int \<Rightarrow> an_state
     \<Rightarrow> an_state" where
  "enqueue_llm eng p i launch_id d cands sid st =
     (let st1 = sidecar_enqueue eng ''extractor'' p i NoPayload st
      in if dr_label d = ''ti'' then
           sidecar_enqueue eng ''coldstart'' p i (ColdStartPayload launch_id)
             (sidecar_enqueue eng ''abstain_explainer'' p i
               (AbstainPayload sid (dr_abstain_reason d) (dr_confidence d) (abstain_candidates d)) st1)
         else if dr_method d = METHOD_HASH then st1
         else if dr_confidence d \<ge> TAU_SUGGEST then
           (let st2 = sidecar_enqueue eng ''explainer'' p i NoPayload st1
            in case cands of
                 Some cs \<Rightarrow>
                   if TAU_SUGGEST \<le> dr_confidence d \<and> dr_confidence d < ae_judge_tau eng
                      \<and> length cs \<ge> 2
                   then sidecar_enqueue eng ''judge'' p i (JudgePayload cs) st2 else st2
               | None \<Rightarrow> st2)
         else st1)"

text \<open>The row, then the jobs: the two calls every route makes for every decision.\<close>

definition write_and_enqueue ::
  "'m engine \<Rightarrow> seconds \<Rightarrow> int \<Rightarrow> int \<Rightarrow> int \<Rightarrow> int option \<Rightarrow> string option \<Rightarrow> decision_result
     \<Rightarrow> an_state \<Rightarrow> an_state" where
  "write_and_enqueue eng now p i launch_id gid source d st =
     (let (db', sid) = write_suggestion now
            (suggestion_of_decision eng p i launch_id gid source d) (as_db st)
      in enqueue_llm eng p i launch_id d None sid (st\<lparr>as_db := db'\<rparr>))"

section \<open>What a decision leaves alone\<close>

text \<open>The tables the answers and the labels live in: no step before the suggestion row touches them.\<close>

definition learned ::
  "db \<Rightarrow> (item_row list \<times> suggestion_row list \<times> int) \<times> label_event list \<times> orphan_row list
     \<times> history_row list" where
  "learned db = ((db_items db, db_suggestions db, db_next_suggestion db), db_events db,
     db_orphans db, db_history db)"

lemma persist_learned [simp]: "learned (persist_recomputed_signature p rep db) = learned db"
  by (simp add: learned_def persist_recomputed_signature_def upsert_signatures_def Let_def)

lemma resolve_identity_learned: "learned (fst (resolve_identity p rep db)) = learned db"
  by (simp add: resolve_identity_def Let_def split: option.split)

lemma insert_mode_learned: "learned (fst (insert_mode p k m db)) = learned db"
  by (simp add: learned_def insert_mode_def Let_def)

lemma ensure_seed_mode_learned: "learned (fst (ensure_seed_mode p k m db)) = learned db"
  by (simp add: ensure_seed_mode_def insert_mode_learned split: option.split)
    (simp add: learned_def)

lemma seed_signal_learned: "learned (fst (seed_signal_of eng p sig db)) = learned db"
  by (simp add: seed_signal_of_def Let_def split_beta ensure_seed_mode_learned split: option.split)

lemma decide_item_learned [simp]: "learned (fst (decide_item eng now a rep g db)) = learned db"
  by (simp add: decide_item_def Let_def split_beta seed_signal_learned resolve_identity_learned)

lemma put_members_learned [simp]: "learned (put_members f ms db) = learned db"
  by (simp add: learned_def put_members_def)

lemma set_mode_learned [simp]: "learned (set_mode p m f db) = learned db"
  by (simp add: learned_def set_mode_def)

lemma record_membership_learned [simp]: "learned (record_membership p ids m rep db) = learned db"
  by (simp add: record_membership_def add_members_def Let_def split: option.split)

lemma launch_group_learned [simp]:
  "learned (fst (upsert_launch_group p l fp n prior dominant db)) = learned db"
  by (simp add: learned_def upsert_launch_group_def Let_def)

lemma learned_fields:
  assumes "learned db = learned db'"
  shows "db_items db = db_items db'" "db_suggestions db = db_suggestions db'"
    "db_events db = db_events db'" "db_history db = db_history db'"
  using assms by (simp_all add: learned_def)

section \<open>The enrichment sidecar\<close>

text \<open>The parts of an engine that belong to the sidecar; a decision reads none of them.\<close>

definition with_llm :: "bool \<Rightarrow> (string \<Rightarrow> bool) \<Rightarrow> real \<Rightarrow> 'm engine \<Rightarrow> 'm engine" where
  "with_llm on roles tau eng =
     eng\<lparr>ae_llm_enabled := on, ae_role_enabled := roles, ae_judge_tau := tau\<rparr>"

lemma with_llm_simps [simp]:
  "ae_pipeline (with_llm on roles tau eng) = ae_pipeline eng"
  "ae_early_item_analysis (with_llm on roles tau eng) = ae_early_item_analysis eng"
  "ae_early_label_policy (with_llm on roles tau eng) = ae_early_label_policy eng"
  "ae_early_gbm_pb_min (with_llm on roles tau eng) = ae_early_gbm_pb_min eng"
  "ae_burst_si_share (with_llm on roles tau eng) = ae_burst_si_share eng"
  "ae_llm_enabled (with_llm on roles tau eng) = on"
  by (simp_all add: with_llm_def)

lemma with_llm_fields [simp]:
  "ae_vdist (with_llm on roles tau eng) = ae_vdist eng"
  "ae_hybrid (with_llm on roles tau eng) = ae_hybrid eng"
  "ae_seed (with_llm on roles tau eng) = ae_seed eng"
  "ae_seed_persists (with_llm on roles tau eng) = ae_seed_persists eng"
  "ae_predictor (with_llm on roles tau eng) = ae_predictor eng"
  "ae_extractor_features (with_llm on roles tau eng) = ae_extractor_features eng"
  "ae_time_decay (with_llm on roles tau eng) = ae_time_decay eng"
  "ae_auto_min_prob (with_llm on roles tau eng) = ae_auto_min_prob eng"
  by (simp_all add: with_llm_def)

lemma decide_item_with_llm [simp]:
  "decide_item (with_llm on roles tau eng) = decide_item eng"
  unfolding decide_item_def seed_signal_of_def item_inputs_def stage_c_def feature_ctx_def
    with_llm_fields ..

lemma suggestion_of_decision_with_llm [simp]:
  "suggestion_of_decision (with_llm on roles tau eng) = suggestion_of_decision eng"
  by (intro ext) (simp add: suggestion_of_decision_def with_llm_def model_ver_def)

lemma sidecar_enqueue_db [simp]: "as_db (sidecar_enqueue eng role p i payload st) = as_db st"
  by (simp add: sidecar_enqueue_def)

lemma enqueue_llm_db [simp]: "as_db (enqueue_llm eng p i l d cands sid st) = as_db st"
  by (simp add: enqueue_llm_def Let_def split: option.split)

lemma sidecar_off [simp]: "\<not> ae_llm_enabled eng \<Longrightarrow> sidecar_enqueue eng role p i payload st = st"
  by (simp add: sidecar_enqueue_def)

lemma enqueue_llm_off [simp]: "\<not> ae_llm_enabled eng \<Longrightarrow> enqueue_llm eng p i l d cands sid st = st"
  by (simp add: enqueue_llm_def split: option.split)

lemma write_and_enqueue_db:
  "as_db (write_and_enqueue eng now p i l gid source d st)
     = fst (write_suggestion now (suggestion_of_decision eng p i l gid source d) (as_db st))"
  by (simp add: write_and_enqueue_def split_beta)

lemma write_and_enqueue_off:
  "\<not> ae_llm_enabled eng \<Longrightarrow> as_jobs (write_and_enqueue eng now p i l gid source d st) = as_jobs st"
  by (simp add: write_and_enqueue_def split_beta)

end
