(* ===== verification/Analysis.thy ===== *)
theory Analysis
  imports Matching
begin

text \<open>
  \<open>core/analysis.py\<close>, the \<open>analyze\<close>, \<open>analyze_item_early\<close>, \<open>cluster\<close> and \<open>search\<close> routes: grouping
  the failures of a launch, deciding each representative and each member that differs from it, what
  is written and what is answered. The theorems say that a launch gets one suggestion row per item
  and answers only what it labelled, what the early pass may label at most, and that the enrichment
  sidecar never changes a decision.
\<close>

section \<open>Grouping\<close>

definition group_items :: "db \<Rightarrow> int \<Rightarrow> item_analysis list \<Rightarrow> group_item list" where
  "group_items db p analyses =
     map (\<lambda>a. let sig = an_signature a
        in \<lparr>gi_item_id = item_id_of a, gi_exception_fp = sr_exception_fp sig,
            gi_error_hash = (case get_signatures db p (map item_id_of analyses) (item_id_of a) of
               Some s \<Rightarrow> fs_error_hash s | None \<Rightarrow> sr_error_hash sig),
            gi_emb = an_emb a, gi_has_stacktrace = sr_has_stacktrace sig,
            gi_log_count = an_log_count a,
            gi_template_ids = map template_id (sr_template_hashes sig)\<rparr>) analyses"

definition group_analyses ::
  "'m engine \<Rightarrow> int \<Rightarrow> int \<Rightarrow> item_analysis list \<Rightarrow> db \<Rightarrow> launch_group list" where
  "group_analyses eng p launch_id analyses db =
     group_launch THETA_GROUP (ae_burst_si_share eng) BURST_N
       (\<lambda>h. \<not> error_hash_seen db p h launch_id) (group_items db p analyses)"

definition singleton_group :: "item_analysis \<Rightarrow> launch_group" where
  "singleton_group rep =
     (let sig = an_signature rep;
          gi = \<lparr>gi_item_id = item_id_of rep, gi_exception_fp = sr_exception_fp sig,
                gi_error_hash = sr_error_hash sig, gi_emb = an_emb rep,
                gi_has_stacktrace = sr_has_stacktrace sig, gi_log_count = an_log_count rep,
                gi_template_ids = []\<rparr>
      in \<lparr>lg_members = [gi], lg_centroid = None, lg_template_ids = {},
          lg_representative = Some gi, lg_si_prior = 0\<rparr>)"

text \<open>The last analysis of an item wins, as in the dictionary the code builds.\<close>

definition by_id :: "item_analysis list \<Rightarrow> int \<rightharpoonup> item_analysis" where
  "by_id analyses = map_of (rev (map (\<lambda>a. (item_id_of a, a)) analyses))"

section \<open>analyze\<close>

record analysis_result =
  ar_test_item :: int
  ar_issue_type :: string
  ar_relevant_item :: int

definition result_of :: "int \<Rightarrow> decision_result \<Rightarrow> analysis_result" where
  "result_of i d = \<lparr>ar_test_item = i, ar_issue_type = dr_issue_type d,
     ar_relevant_item = (case dr_relevant_item_id d of None \<Rightarrow> 0 | Some r \<Rightarrow> r)\<rparr>"

record launch_ctx =
  lc_launch :: launch
  lc_by_id :: "int \<rightharpoonup> item_analysis"
  lc_disc :: "int \<rightharpoonup> discriminant"
  lc_total :: nat
  lc_launch_db :: db

definition launch_args :: "launch \<Rightarrow> nat \<Rightarrow> string \<Rightarrow> decide_args" where
  "launch_args la tot route =
     \<lparr>da_project = la_project la, da_scope = scope_query_of la,
      da_mode = ac_analyzer_mode (la_analyzer_config la), da_total = tot, da_route = route\<rparr>"

text \<open>One member: its own decision when its discriminant differs from the representative's. The
  result keeps the ids that inherit the group's decision.\<close>

record member_state =
  ms_state :: an_state
  ms_out :: "analysis_result list"
  ms_inherit :: "int list"

definition label_item :: "int \<Rightarrow> int \<Rightarrow> decision_result \<Rightarrow> an_state \<Rightarrow> an_state" where
  "label_item p i d st =
     st\<lparr>as_db := fst (update_issue_type p i (Some (dr_issue_type d)) True (as_db st))\<rparr>"

definition applied :: "decision_result \<Rightarrow> bool" where
  "applied d \<longleftrightarrow> dr_action d = ACTION_AUTO \<and> dr_label d \<noteq> ''ti''"

definition finish_member ::
  "'m engine \<Rightarrow> seconds \<Rightarrow> launch \<Rightarrow> int \<Rightarrow> int \<Rightarrow> decision_result \<Rightarrow> member_state \<Rightarrow> member_state" where
  "finish_member eng now la gid i d s =
     (let st1 = write_and_enqueue eng now (la_project la) i (la_launch_id la) (Some gid) None d
                  (ms_state s)
      in if applied d
         then s\<lparr>ms_state := label_item (la_project la) i d st1, ms_out := ms_out s @ [result_of i d]\<rparr>
         else s\<lparr>ms_state := st1\<rparr>)"

definition member_decision ::
  "'m engine \<Rightarrow> seconds \<Rightarrow> launch_ctx \<Rightarrow> launch_group \<Rightarrow> decision_result \<Rightarrow> item_analysis \<Rightarrow> int
     \<Rightarrow> an_state \<Rightarrow> (decision_result \<times> an_state) \<times> bool" where
  "member_decision eng now c g d rep i st =
     (if lc_disc c i = lc_disc c (item_id_of rep) then ((d, st), True)
      else (case lc_by_id c i of
          None \<Rightarrow> ((d, st), True)
        | Some a \<Rightarrow>
            (let (db1, d', m) = decide_item eng now
                   (launch_args (lc_launch c) (lc_total c) ''analyze'') a g (as_db st)
             in ((d', st\<lparr>as_db := record_membership (la_project (lc_launch c)) [i] m a db1\<rparr>), False))))"

definition analyze_member ::
  "'m engine \<Rightarrow> seconds \<Rightarrow> launch_ctx \<Rightarrow> launch_group \<Rightarrow> decision_result \<Rightarrow> item_analysis \<Rightarrow> int
     \<Rightarrow> group_item \<Rightarrow> member_state \<Rightarrow> member_state" where
  "analyze_member eng now c g d rep gid gi s =
     (let i = gi_item_id gi;
          ((d', st1), inherits) = member_decision eng now c g d rep i (ms_state s)
      in finish_member eng now (lc_launch c) gid i d'
           (s\<lparr>ms_state := st1,
              ms_inherit := (if inherits then ms_inherit s @ [i] else ms_inherit s)\<rparr>))"

text \<open>A group always has a representative, and its analysis exists.\<close>

definition analyze_group ::
  "'m engine \<Rightarrow> seconds \<Rightarrow> launch_ctx \<Rightarrow> launch_group \<Rightarrow> an_state \<times> analysis_result list
     \<Rightarrow> an_state \<times> analysis_result list" where
  "analyze_group eng now c g = (\<lambda>(st, out).
     (case Option.bind (lg_representative g) (\<lambda>r. lc_by_id c (gi_item_id r)) of
        None \<Rightarrow> (st, out)
      | Some rep \<Rightarrow>
          (let p = la_project (lc_launch c);
               (db1, d, m) = decide_item eng now
                 (launch_args (lc_launch c) (lc_total c) ''analyze'') rep g (as_db st);
               (db2, gid) = upsert_launch_group p (la_launch_id (lc_launch c)) (fingerprint g)
                 (int (length (lg_members g))) (lg_si_prior g) (lg_si_prior g > 0) db1;
               s = fold (analyze_member eng now c g d rep gid) (lg_members g)
                     \<lparr>ms_state = st\<lparr>as_db := db2\<rparr>, ms_out = out, ms_inherit = []\<rparr>
           in ((ms_state s)\<lparr>as_db := record_membership p (ms_inherit s) m rep (as_db (ms_state s))\<rparr>,
               ms_out s))))"

definition launch_ctx_of ::
  "'m engine \<Rightarrow> 'm drain_store \<Rightarrow> launch \<Rightarrow> db \<Rightarrow> launch_ctx \<times> launch_group list" where
  "launch_ctx_of eng mst la db =
     (let p = la_project la;
          analyses = build_item_analyses (ae_pipeline eng) mst p
                       (map (\<lambda>i. (la, i)) (la_test_items la))
      in (\<lparr>lc_launch = la, lc_by_id = by_id analyses,
           lc_disc = canonical_discriminants db p analyses, lc_total = length analyses,
           lc_launch_db = db\<rparr>,
          group_analyses eng p (la_launch_id la) analyses db))"

definition analyze_launch ::
  "'m engine \<Rightarrow> 'm drain_store \<Rightarrow> seconds \<Rightarrow> launch \<Rightarrow> an_state \<Rightarrow> an_state \<times> analysis_result list" where
  "analyze_launch eng mst now la st =
     (let (c, groups) = launch_ctx_of eng mst la (as_db st)
      in fold (analyze_group eng now c) groups (st, []))"

definition analyze ::
  "'m engine \<Rightarrow> 'm drain_store \<Rightarrow> seconds \<Rightarrow> launch list \<Rightarrow> an_state \<Rightarrow> an_state \<times> analysis_result list"
  where
  "analyze eng mst now launches st =
     fold (\<lambda>la (st, out). let (st', more) = analyze_launch eng mst now la st in (st', out @ more))
       launches (st, [])"

section \<open>The early per-item pass\<close>

definition early_applies :: "'m engine \<Rightarrow> decision_result \<Rightarrow> bool" where
  "early_applies eng d \<longleftrightarrow>
     (let policy = ae_early_label_policy eng;
          allows_deterministic = (policy \<in> {''kb_inherit_only'', ''kb_inherit_and_pb''});
          pb_gbm_applies = (policy = ''kb_inherit_and_pb'' \<and> dr_method d = METHOD_GBM
            \<and> dr_label d = ''pb'' \<and> dr_confidence d \<ge> ae_early_gbm_pb_min eng)
      in dr_action d = ACTION_AUTO \<and> dr_label d \<notin> {''ti'', ''si''}
         \<and> ((dr_method d \<in> {METHOD_HASH, METHOD_KB} \<and> allows_deterministic) \<or> pb_gbm_applies))"

definition early_item ::
  "'m engine \<Rightarrow> seconds \<Rightarrow> launch \<Rightarrow> item_analysis \<Rightarrow> an_state \<times> analysis_result list
     \<Rightarrow> an_state \<times> analysis_result list" where
  "early_item eng now la rep = (\<lambda>(st, out).
     (if sr_signature_text (an_signature rep) = [] then (st, out)
      else
        (let p = la_project la;
             i = item_id_of rep;
             (db1, d, m) = decide_item eng now (launch_args la 1 ''analyze_item_early'') rep
                             (singleton_group rep) (as_db st);
             st1 = write_and_enqueue eng now p i (la_launch_id la) None (Some ''early'') d
                     (st\<lparr>as_db := record_membership p [i] m rep db1\<rparr>)
         in if early_applies eng d then (label_item p i d st1, out @ [result_of i d])
            else (st1, out))))"

definition analyze_item_early ::
  "'m engine \<Rightarrow> 'm drain_store \<Rightarrow> seconds \<Rightarrow> launch list \<Rightarrow> an_state \<Rightarrow> an_state \<times> analysis_result list"
  where
  "analyze_item_early eng mst now launches st =
     (if \<not> ae_early_item_analysis eng then (st, [])
      else fold (\<lambda>la s. fold (early_item eng now la)
               (build_item_analyses (ae_pipeline eng) mst (la_project la)
                 (map (\<lambda>i. (la, i)) (la_test_items la))) s)
             launches (st, []))"

section \<open>cluster\<close>

definition INT53_MASK :: int where "INT53_MASK = 2 ^ 53 - 1"
definition CLUSTER_MSG_LINES :: nat where "CLUSTER_MSG_LINES = 5"

unbundle bit_operations_syntax

definition cluster_key :: "int \<Rightarrow> int \<Rightarrow> int \<Rightarrow> bool \<Rightarrow> string" where
  "cluster_key p launch_id h for_update =
     (if for_update then show_int p @ '':'' @ show_int launch_id @ '':'' @ show_int h
      else show_int p @ '':'' @ show_int h)"

definition cluster_id :: "(string \<Rightarrow> 64 word) \<Rightarrow> int \<Rightarrow> int \<Rightarrow> int \<Rightarrow> bool \<Rightarrow> int" where
  "cluster_id xxh p launch_id h for_update =
     uint (xxh (cluster_key p launch_id h for_update)) AND INT53_MASK"

definition cluster_message :: "item_analysis \<Rightarrow> string" where
  "cluster_message rep =
     join_with [newline]
       (take CLUSTER_MSG_LINES (filter has_text (split_on newline (an_clean_msg rep))))"

record cluster_info =
  ci_cluster_id :: int
  ci_cluster_message :: string
  ci_log_ids :: "int list"
  ci_item_ids :: "int list"

definition cluster_of ::
  "'m engine \<Rightarrow> int \<Rightarrow> launch \<Rightarrow> bool \<Rightarrow> (int \<rightharpoonup> item_analysis) \<Rightarrow> launch_group \<Rightarrow> cluster_info option" where
  "cluster_of eng p la for_update ids g =
     Option.bind (lg_representative g) (\<lambda>r. map_option (\<lambda>rep.
       \<lparr>ci_cluster_id = cluster_id (te_xxh (pi_text (ae_pipeline eng))) p (la_launch_id la)
                          (gi_error_hash r) for_update,
        ci_cluster_message = cluster_message rep,
        ci_log_ids = concat (map (\<lambda>m. case ids (gi_item_id m) of None \<Rightarrow> []
                       | Some a \<Rightarrow> map wl_log_id (wi_logs (an_item a))) (lg_members g)),
        ci_item_ids = map gi_item_id (lg_members g)\<rparr>) (ids (gi_item_id r)))"

definition cluster ::
  "'m engine \<Rightarrow> 'm drain_store \<Rightarrow> int \<Rightarrow> launch \<Rightarrow> bool \<Rightarrow> db \<Rightarrow> cluster_info list" where
  "cluster eng mst p la for_update db =
     (let analyses = build_item_analyses (ae_pipeline eng) mst p
                       (map (\<lambda>i. (la, i)) (la_test_items la))
      in List.map_filter (cluster_of eng p la for_update (by_id analyses))
           (group_analyses eng p (la_launch_id la) analyses db))"

section \<open>search\<close>

definition SEARCH_COS_THRESHOLD :: real where "SEARCH_COS_THRESHOLD = 75 / 100"

record search_logs =
  sl_launch_id :: int
  sl_launch_name :: string
  sl_item_id :: int
  sl_project_id :: int
  sl_filtered_launch_ids :: "int list"
  sl_log_messages :: "string list"

record search_info =
  si_log_id :: int
  si_test_item_id :: int
  si_match_score :: real

definition default_conf :: analyzer_conf where
  "default_conf = \<lparr>ac_analyzer_mode = ''ALL'', ac_min_should_match = 80,
     ac_number_of_log_lines = -1\<rparr>"

definition search_launch :: "search_logs \<Rightarrow> launch" where
  "search_launch r =
     (let logs = List.map_filter (\<lambda>(i, m). if has_text m
                then Some \<lparr>wl_log_id = int i, wl_log_level = ERROR_LOGGING_LEVEL, wl_log_time = [],
                           wl_message = m\<rparr> else None) (enumerate 0 (sl_log_messages r));
          item = \<lparr>wi_test_item_id = sl_item_id r, wi_is_auto_analyzed = False, wi_unique_id = [],
                  wi_issue_type = [], wi_start_time = [], wi_test_case_hash = 0,
                  wi_test_item_name = [], wi_logs = logs\<rparr>
      in \<lparr>la_launch_id = sl_launch_id r, la_project = sl_project_id r,
          la_launch_name = sl_launch_name r, la_launch_number = 0, la_previous_launch_id = 0,
          la_analyzer_config = default_conf, la_test_items = [item], la_launch_items_count = 0\<rparr>)"

definition search_hit :: "candidate \<Rightarrow> search_info option" where
  "search_hit c =
     (case c_item_id c of
        None \<Rightarrow> None
      | Some i \<Rightarrow>
          (let fts_hit = (case c_lex_score c of None \<Rightarrow> False | Some l \<Rightarrow> l > 0)
           in if cos_of c \<ge> SEARCH_COS_THRESHOLD \<or> fts_hit
              then Some \<lparr>si_log_id = (case c_relevant_log_id c of None \<Rightarrow> 0 | Some l \<Rightarrow> l),
                         si_test_item_id = i, si_match_score = py_round 2 (capped_cosine c * 100)\<rparr>
              else None))"

definition search :: "'m engine \<Rightarrow> 'm drain_store \<Rightarrow> search_logs \<Rightarrow> db \<Rightarrow> search_info list" where
  "search eng mst r db =
     (let la = search_launch r
      in case build_item_analyses (ae_pipeline eng) mst (sl_project_id r)
                (map (\<lambda>i. (la, i)) (filter (\<lambda>i. wi_logs i \<noteq> []) (la_test_items la))) of
           [] \<Rightarrow> []
         | rep # _ \<Rightarrow>
             if sr_signature_text (an_signature rep) = [] then []
             else List.map_filter search_hit
               (search_ti_candidates (ae_search_ti eng db (sl_project_id r)
                  (query_signature rep (sl_launch_id r) 0) TOP_K (sl_filtered_launch_ids r)
                  (sl_item_id r)) (query_signature rep (sl_launch_id r) 0)))"

section \<open>What a route does to the stores\<close>

text \<open>
  A route's effect is a log: one entry per suggestion row it writes, with the reply row when the
  decision is applied. The suggestion table grows by the rows, the reply is the applied entries, and
  the only item rows that change are those of the applied entries.
\<close>

type_synonym outcome = "suggestion_row \<times> analysis_result option"

definition relabel :: "int \<Rightarrow> analysis_result \<Rightarrow> item_row list \<Rightarrow> item_row list" where
  "relabel p a rows = map (\<lambda>r. if item_key r = (p, ar_test_item a)
     then r\<lparr>ti_issue_type := Some (ar_issue_type a), ti_is_auto_analyzed := True\<rparr> else r) rows"

definition answer :: "outcome \<Rightarrow> item_row list \<Rightarrow> item_row list" where
  "answer e rows =
     (case snd e of None \<Rightarrow> rows | Some a \<Rightarrow> relabel (su_project_id (fst e)) a rows)"

definition effect ::
  "outcome list \<Rightarrow> an_state \<times> analysis_result list \<Rightarrow> an_state \<times> analysis_result list \<Rightarrow> bool"
  where
  "effect lg s s' \<longleftrightarrow>
     db_suggestions (as_db (fst s')) = db_suggestions (as_db (fst s)) @ map fst lg
     \<and> snd s' = snd s @ List.map_filter snd lg
     \<and> db_items (as_db (fst s')) = fold answer lg (db_items (as_db (fst s)))
     \<and> db_events (as_db (fst s')) = db_events (as_db (fst s))
     \<and> db_history (as_db (fst s')) = db_history (as_db (fst s))"

lemma effect_refl: "effect [] s s"
  by (simp add: effect_def List.map_filter_def)

lemma effect_learned:
  "learned (as_db st') = learned (as_db st) \<Longrightarrow> effect [] (st, out) (st', out)"
  by (simp add: effect_def learned_def List.map_filter_def)

lemma effect_trans:
  "effect xs s1 s2 \<Longrightarrow> effect ys s2 s3 \<Longrightarrow> effect (xs @ ys) s1 s3"
  by (simp add: effect_def List.map_filter_def)

lemmas effect_then = effect_trans [where xs = "[]", simplified]

definition quiet :: "db \<Rightarrow> db \<Rightarrow> bool" where
  "quiet db db' \<longleftrightarrow> db_events db' = db_events db \<and> db_history db' = db_history db"

lemma quiet_refl [simp]: "quiet db db"
  by (simp add: quiet_def)

lemma quiet_trans: "quiet a b \<Longrightarrow> quiet b c \<Longrightarrow> quiet a c"
  by (simp add: quiet_def)

lemma quiet_learned: "learned db' = learned db \<Longrightarrow> quiet db db'"
  by (simp add: quiet_def learned_def)

lemma quiet_effect: "effect lg s s' \<Longrightarrow> quiet (as_db (fst s)) (as_db (fst s'))"
  by (simp add: quiet_def effect_def)

lemma effect_fold:
  assumes "\<And>x s. x \<in> set xs \<Longrightarrow> quiet db (as_db (fst (proj s)))
      \<Longrightarrow> \<exists>lg. effect lg (proj s) (proj (f x s)) \<and> R x lg"
    and "quiet db (as_db (fst (proj s)))"
  shows "\<exists>lgs. effect (concat lgs) (proj s) (proj (fold f xs s)) \<and> list_all2 R xs lgs"
  using assms
proof (induction xs arbitrary: s)
  case Nil
  then show ?case by (intro exI [of _ "[]"]) (simp add: effect_refl)
next
  case (Cons x xs)
  obtain lg where 1: "effect lg (proj s) (proj (f x s))" "R x lg"
    using Cons.prems(1) [of x s] Cons.prems(2) by auto
  have q: "quiet db (as_db (fst (proj (f x s))))"
    using quiet_trans [OF Cons.prems(2) quiet_effect [OF 1(1)]] .
  obtain lgs where 2: "effect (concat lgs) (proj (f x s)) (proj (fold f xs (f x s)))"
      "list_all2 R xs lgs"
    using Cons.IH [OF _ q] Cons.prems(1) by auto
  show ?case using effect_trans [OF 1(1) 2(1)] 1(2) 2(2)
    by (intro exI [of _ "lg # lgs"]) simp
qed

text \<open>The row a decision is stored as.\<close>

definition row_of :: "int \<Rightarrow> int \<Rightarrow> string option \<Rightarrow> int \<Rightarrow> decision_result \<Rightarrow> suggestion_row \<Rightarrow> bool" where
  "row_of p l source i d r \<longleftrightarrow>
     su_project_id r = p \<and> su_item_id r = i \<and> su_launch_id r = l \<and> su_source r = source
     \<and> su_predicted_label r = dr_issue_type d \<and> su_confidence r = dr_confidence d
     \<and> su_method r = Some (method_text (dr_method d)) \<and> su_matched_item_id r = dr_relevant_item_id d
     \<and> su_features r = dr_features d"

lemma write_suggestion_row:
  "\<exists>r. row_of p l source i d r
     \<and> db_suggestions (fst (write_suggestion now (suggestion_of_decision eng p i l gid source d) db))
         = db_suggestions db @ [r]"
  by (simp add: write_suggestion_def Let_def row_of_def suggestion_of_decision_def
      suggestion_in.defs)

lemma write_suggestion_items [simp]:
  "db_items (fst (write_suggestion now s db)) = db_items db"
  "db_events (fst (write_suggestion now s db)) = db_events db"
  "db_history (fst (write_suggestion now s db)) = db_history db"
  by (simp_all add: write_suggestion_def Let_def)

lemma effect_write:
  "\<exists>r. row_of p l source i d r
     \<and> effect [(r, None)] (st, out) (write_and_enqueue eng now p i l gid source d st, out)"
proof -
  obtain r where r: "row_of p l source i d r"
    "db_suggestions (fst (write_suggestion now (suggestion_of_decision eng p i l gid source d)
        (as_db st))) = db_suggestions (as_db st) @ [r]"
    using write_suggestion_row by blast
  then show ?thesis
    by (intro exI [of _ r]) (simp add: effect_def write_and_enqueue_db List.map_filter_def answer_def)
qed

lemma effect_write_label:
  "\<exists>r. row_of p l source i d r
     \<and> effect [(r, Some (result_of i d))] (st, out)
         (label_item p i d (write_and_enqueue eng now p i l gid source d st), out @ [result_of i d])"
proof -
  obtain r where r: "row_of p l source i d r"
    "db_suggestions (fst (write_suggestion now (suggestion_of_decision eng p i l gid source d)
        (as_db st))) = db_suggestions (as_db st) @ [r]"
    using write_suggestion_row by blast
  then show ?thesis
    by (intro exI [of _ r])
      (simp add: effect_def write_and_enqueue_db List.map_filter_def label_item_def
        update_issue_type_def relabel_def result_of_def answer_def row_of_def)
qed

definition outcome_of :: "bool \<Rightarrow> int \<Rightarrow> decision_result \<Rightarrow> analysis_result option" where
  "outcome_of ok i d = (if ok then Some (result_of i d) else None)"

section \<open>analyze: one row per item\<close>

text \<open>A decision taken on an item of the launch, while the launch is being analysed.\<close>

definition decided ::
  "'m engine \<Rightarrow> seconds \<Rightarrow> launch \<Rightarrow> nat \<Rightarrow> string \<Rightarrow> db \<Rightarrow> item_analysis \<Rightarrow> launch_group
     \<Rightarrow> decision_result \<Rightarrow> bool" where
  "decided eng now la tot route db x g d \<longleftrightarrow>
     (\<exists>db0. db_events db0 = db_events db \<and> db_history db0 = db_history db
        \<and> d = fst (snd (decide_item eng now (launch_args la tot route) x g db0)))"

definition member_entry ::
  "'m engine \<Rightarrow> seconds \<Rightarrow> launch_ctx \<Rightarrow> db \<Rightarrow> launch_group \<Rightarrow> item_analysis \<Rightarrow> decision_result \<Rightarrow> int
     \<Rightarrow> outcome \<Rightarrow> bool" where
  "member_entry eng now c db g rep d i e \<longleftrightarrow>
     (\<exists>d'. row_of (la_project (lc_launch c)) (la_launch_id (lc_launch c)) None i d' (fst e)
        \<and> snd e = outcome_of (applied d') i d'
        \<and> (if lc_disc c i = lc_disc c (item_id_of rep) then d' = d
           else \<exists>a. lc_by_id c i = Some a
              \<and> decided eng now (lc_launch c) (lc_total c) ''analyze'' db a g d'))"

definition ms_pair :: "member_state \<Rightarrow> an_state \<times> analysis_result list" where
  "ms_pair s = (ms_state s, ms_out s)"

lemma finish_member_effect:
  "\<exists>r. row_of (la_project la) (la_launch_id la) None i d r
     \<and> effect [(r, outcome_of (applied d) i d)] (ms_pair s)
         (ms_pair (finish_member eng now la gid i d s))"
proof (cases "applied d")
  case True
  then show ?thesis
    using effect_write_label [of "la_project la" "la_launch_id la" None i d "ms_state s" "ms_out s"
        eng now "Some gid"]
    by (simp add: finish_member_def outcome_of_def ms_pair_def Let_def)
next
  case False
  then show ?thesis
    using effect_write [of "la_project la" "la_launch_id la" None i d "ms_state s" "ms_out s"
        eng now "Some gid"]
    by (simp add: finish_member_def outcome_of_def ms_pair_def Let_def)
qed

lemma decidedI:
  "quiet db db0 \<Longrightarrow> decided eng now la tot route db x g
     (fst (snd (decide_item eng now (launch_args la tot route) x g db0)))"
  by (auto simp: decided_def quiet_def)

lemma member_decision_entry:
  assumes "member_decision eng now c g d rep i st = ((d', st'), inh)"
    and "quiet db (as_db st)" and "lc_by_id c i \<noteq> None"
  shows "learned (as_db st') = learned (as_db st)
    \<and> (if lc_disc c i = lc_disc c (item_id_of rep) then d' = d
       else \<exists>a. lc_by_id c i = Some a
          \<and> decided eng now (lc_launch c) (lc_total c) ''analyze'' db a g d')"
proof (cases "lc_disc c i = lc_disc c (item_id_of rep)")
  case True
  then show ?thesis using assms(1) by (simp add: member_decision_def)
next
  case False
  obtain a where a: "lc_by_id c i = Some a" using assms(3) by blast
  let ?x = "decide_item eng now (launch_args (lc_launch c) (lc_total c) ''analyze'') a g (as_db st)"
  have st': "st' = st\<lparr>as_db := record_membership (la_project (lc_launch c)) [i] (snd (snd ?x)) a (fst ?x)\<rparr>"
    and d': "d' = fst (snd ?x)"
    using assms(1) False a by (simp_all add: member_decision_def split_beta)
  have "learned (as_db st') = learned (as_db st)" by (simp add: st')
  moreover have "decided eng now (lc_launch c) (lc_total c) ''analyze'' db a g d'"
    unfolding d' by (rule decidedI [OF assms(2)])
  ultimately show ?thesis using False a by simp
qed

lemma analyze_member_effect:
  assumes "quiet db (as_db (ms_state s))" and "lc_by_id c (gi_item_id gi) \<noteq> None"
  shows "\<exists>e. effect [e] (ms_pair s)
      (ms_pair (analyze_member eng now c g d rep gid gi s))
    \<and> member_entry eng now c db g rep d (gi_item_id gi) e"
proof -
  let ?i = "gi_item_id gi"
  obtain d' st1 inh where md: "member_decision eng now c g d rep ?i (ms_state s) = ((d', st1), inh)"
    by (metis prod.collapse)
  note m = member_decision_entry [OF md assms]
  define s1 where "s1 = s\<lparr>ms_state := st1,
      ms_inherit := (if inh then ms_inherit s @ [?i] else ms_inherit s)\<rparr>"
  have "effect [] (ms_pair s) (ms_pair s1)"
    using m by (simp add: ms_pair_def s1_def effect_learned)
  moreover obtain r where r: "row_of (la_project (lc_launch c)) (la_launch_id (lc_launch c)) None ?i d' r"
      "effect [(r, outcome_of (applied d') ?i d')] (ms_pair s1)
         (ms_pair (finish_member eng now (lc_launch c) gid ?i d' s1))"
    using finish_member_effect by blast
  ultimately have "effect [(r, outcome_of (applied d') ?i d')] (ms_pair s)
      (ms_pair (analyze_member eng now c g d rep gid gi s))"
    by (simp add: analyze_member_def md Let_def s1_def [symmetric] effect_then)
  moreover have "member_entry eng now c db g rep d ?i (r, outcome_of (applied d') ?i d')"
    using r(1) m unfolding member_entry_def by (intro exI [of _ d']) simp
  ultimately show ?thesis by blast
qed

lemma analyze_members_effect:
  assumes "quiet db (as_db (ms_state s))" and "\<forall>gi \<in> set gis. lc_by_id c (gi_item_id gi) \<noteq> None"
  shows "\<exists>lg. effect lg (ms_pair s)
      (ms_pair (fold (analyze_member eng now c g d rep gid) gis s))
    \<and> list_all2 (member_entry eng now c db g rep d) (map gi_item_id gis) lg"
proof -
  have step: "\<And>gi s. gi \<in> set gis \<Longrightarrow> quiet db (as_db (fst (ms_pair s))) \<Longrightarrow>
    \<exists>lg. effect lg (ms_pair s)
      (ms_pair (analyze_member eng now c g d rep gid gi s))
    \<and> (\<exists>e. lg = [e] \<and> member_entry eng now c db g rep d (gi_item_id gi) e)"
    subgoal for gi s
      using analyze_member_effect [where db = db and s = s and c = c and gi = gi and g = g and d = d
          and rep = rep and gid = gid and eng = eng and now = now] assms(2)
      by (simp add: ms_pair_def) blast
    done
  have q: "quiet db (as_db (fst (ms_pair s)))" using assms(1) by (simp add: ms_pair_def)
  obtain lgs where lgs: "effect (concat lgs) (ms_pair s)
        (ms_pair (fold (analyze_member eng now c g d rep gid) gis s))"
      "list_all2 (\<lambda>gi lg. \<exists>e. lg = [e] \<and> member_entry eng now c db g rep d (gi_item_id gi) e) gis lgs"
    using effect_fold [where proj = ms_pair and xs = gis and db = db and s = s
        and f = "analyze_member eng now c g d rep gid"
        and R = "\<lambda>gi lg. \<exists>e. lg = [e] \<and> member_entry eng now c db g rep d (gi_item_id gi) e",
        OF step q] by blast
  from lgs(2) have "list_all2 (member_entry eng now c db g rep d) (map gi_item_id gis) (concat lgs)"
    by (induction rule: list_all2_induct) auto
  with lgs(1) show ?thesis by blast
qed

definition group_entry ::
  "'m engine \<Rightarrow> seconds \<Rightarrow> launch_ctx \<Rightarrow> db \<Rightarrow> launch_group \<Rightarrow> outcome list \<Rightarrow> bool" where
  "group_entry eng now c db g lg \<longleftrightarrow>
     (\<exists>r rep d. lg_representative g = Some r \<and> r \<in> set (lg_members g)
        \<and> lc_by_id c (gi_item_id r) = Some rep
        \<and> decided eng now (lc_launch c) (lc_total c) ''analyze'' db rep g d
        \<and> list_all2 (member_entry eng now c db g rep d) (map gi_item_id (lg_members g)) lg)"

lemma analyze_group_effect:
  assumes "quiet db (as_db (fst s))" and "lg_representative g = Some r" and "r \<in> set (lg_members g)"
    and "\<forall>gi \<in> set (lg_members g). lc_by_id c (gi_item_id gi) \<noteq> None"
  shows "\<exists>lg. effect lg s (analyze_group eng now c g s)
    \<and> group_entry eng now c db g lg"
proof -
  obtain st out where s: "s = (st, out)" by (cases s)
  obtain rep where rep: "lc_by_id c (gi_item_id r) = Some rep" using assms(3,4) by blast
  let ?p = "la_project (lc_launch c)"
  obtain db1 d m where di: "decide_item eng now
      (launch_args (lc_launch c) (lc_total c) ''analyze'') rep g (as_db st) = (db1, d, m)"
    using prod_cases3 by blast
  obtain db2 gid where ug: "upsert_launch_group ?p (la_launch_id (lc_launch c)) (fingerprint g)
      (int (length (lg_members g))) (lg_si_prior g) (lg_si_prior g > 0) db1 = (db2, gid)" by fastforce
  have q: "quiet db (as_db st)" using assms(1) s by simp
  have l1: "learned db1 = learned (as_db st)"
    using decide_item_learned [of eng now "launch_args (lc_launch c) (lc_total c) ''analyze''" rep g
        "as_db st"] di by simp
  have l2: "learned db2 = learned db1"
    using launch_group_learned [of ?p "la_launch_id (lc_launch c)" "fingerprint g"
        "int (length (lg_members g))" "lg_si_prior g" "lg_si_prior g > 0" db1] ug by simp
  define s0 where "s0 = \<lparr>ms_state = st\<lparr>as_db := db2\<rparr>, ms_out = out, ms_inherit = []\<rparr>"
  have e0: "effect [] s (ms_pair s0)"
    using l1 l2 by (simp add: s s0_def ms_pair_def effect_learned)
  have q0: "quiet db (as_db (ms_state s0))"
    using quiet_trans [OF q quiet_learned] l1 l2 by (simp add: s0_def)
  define s1 where "s1 = fold (analyze_member eng now c g d rep gid) (lg_members g) s0"
  obtain lg where lg: "effect lg (ms_pair s0) (ms_pair s1)"
      "list_all2 (member_entry eng now c db g rep d) (map gi_item_id (lg_members g)) lg"
    using analyze_members_effect [OF q0 assms(4)] unfolding s1_def by blast
  have ag: "analyze_group eng now c g s = ((ms_state s1)\<lparr>as_db :=
      record_membership ?p (ms_inherit s1) m rep (as_db (ms_state s1))\<rparr>, ms_out s1)"
    by (simp add: analyze_group_def s assms(2) rep di ug Let_def s0_def [symmetric] s1_def [symmetric])
  have "effect [] (ms_pair s1) (analyze_group eng now c g s)"
    by (simp add: ag ms_pair_def effect_learned)
  from effect_trans [OF effect_then [OF e0 lg(1)] this]
  have "effect lg s (analyze_group eng now c g s)" by simp
  moreover have "decided eng now (lc_launch c) (lc_total c) ''analyze'' db rep g d"
    using decidedI [OF q, of eng now "lc_launch c" "lc_total c" "''analyze''" rep g] di by simp
  ultimately show ?thesis using assms(2,3) rep lg(2) unfolding group_entry_def by blast
qed

lemma build_all_items: "map an_item (build_all pl m es) = map snd es"
  by (induction pl m es rule: build_all.induct)
    (auto simp: build_one_def Let_def split: prod.splits)

lemma by_id_Some: "a \<in> set analyses \<Longrightarrow> by_id analyses (item_id_of a) \<noteq> None"
  by (simp add: by_id_def map_of_eq_None_iff image_image)

lemma by_id_item: "by_id analyses i = Some a \<Longrightarrow> item_id_of a = i"
  by (auto simp: by_id_def dest!: map_of_SomeD)

lemma group_items_ids: "map gi_item_id (group_items db p as) = map item_id_of as"
  by (simp add: group_items_def Let_def comp_def)

lemma group_analyses_facts:
  assumes "g \<in> set (group_analyses eng p l as db)"
  shows "\<exists>r \<in> set (lg_members g). lg_representative g = Some r"
    and "\<forall>gi \<in> set (lg_members g). by_id as (gi_item_id gi) \<noteq> None"
proof -
  show "\<exists>r \<in> set (lg_members g). lg_representative g = Some r"
    using group_launch_rep assms unfolding group_analyses_def by blast
  have "mset (concat (map lg_members (group_analyses eng p l as db))) = mset (group_items db p as)"
    unfolding group_analyses_def using group_launch_facts(1) by (simp add: all_members_def)
  from arg_cong [OF this, of set_mset]
  have "set (lg_members g) \<subseteq> set (group_items db p as)" using assms by auto
  then show "\<forall>gi \<in> set (lg_members g). by_id as (gi_item_id gi) \<noteq> None"
    using by_id_Some by (fastforce simp: group_items_def Let_def)
qed

lemma group_analyses_ids:
  "mset (map gi_item_id (concat (map lg_members (group_analyses eng p l as db))))
     = mset (map item_id_of as)"
proof -
  have "mset (concat (map lg_members (group_analyses eng p l as db))) = mset (group_items db p as)"
    unfolding group_analyses_def using group_launch_facts(1) by (simp add: all_members_def)
  then show ?thesis by (metis group_items_ids mset_map)
qed

lemma launch_items: "map item_id_of (build_item_analyses pl mst p (map (\<lambda>i. (la, i)) items))
    = map wi_test_item_id items"
proof -
  have "map an_item (build_item_analyses pl mst p (map (\<lambda>i. (la, i)) items)) = items"
    by (simp add: build_item_analyses_def build_all_items comp_def)
  then have "map wi_test_item_id (map an_item (build_item_analyses pl mst p (map (\<lambda>i. (la, i)) items)))
      = map wi_test_item_id items" by simp
  then show ?thesis by (simp add: item_id_of_def [abs_def] comp_def)
qed

lemma analyze_launch_effect:
  fixes eng :: "'m engine"
  assumes "launch_ctx_of eng mst la (as_db st) = (c, groups)"
  shows "\<exists>lgs. effect (concat lgs) (st, []) (analyze_launch eng mst now la st)
    \<and> list_all2 (group_entry eng now c (as_db st)) groups lgs"
proof -
  have c: "lc_launch c = la" and groups: "\<exists>as. lc_by_id c = by_id as
      \<and> groups = group_analyses eng (la_project la) (la_launch_id la) as (as_db st)"
    using assms by (auto simp: launch_ctx_of_def Let_def)
  then obtain as where "as": "lc_by_id c = by_id as"
    "groups = group_analyses eng (la_project la) (la_launch_id la) as (as_db st)" by blast
  have step: "\<exists>lg. effect lg (id s) (id (analyze_group eng now c g s))
      \<and> group_entry eng now c (as_db st) g lg"
    if g: "g \<in> set groups" and q: "quiet (as_db st) (as_db (fst (id s)))" for g s
  proof -
    note f = group_analyses_facts [OF g [unfolded "as"(2)]]
    obtain r where r: "r \<in> set (lg_members g)" "lg_representative g = Some r" using f(1) by blast
    have "\<forall>gi \<in> set (lg_members g). lc_by_id c (gi_item_id gi) \<noteq> None" using f(2) by (simp add: "as"(1))
    from analyze_group_effect [OF q [unfolded id_apply] r(2) r(1) this, of eng now]
    show ?thesis by (simp add: c)
  qed
  from effect_fold [where proj = id and xs = groups and db = "as_db st" and s = "(st, [])", OF step]
  show ?thesis by (simp add: analyze_launch_def assms)
qed

definition answer_of_row :: "outcome \<Rightarrow> bool" where
  "answer_of_row e \<longleftrightarrow>
     (case snd e of None \<Rightarrow> True
      | Some a \<Rightarrow> ar_test_item a = su_item_id (fst e) \<and> ar_issue_type a = su_predicted_label (fst e)
          \<and> ar_relevant_item a = (case su_matched_item_id (fst e) of None \<Rightarrow> 0 | Some r \<Rightarrow> r))"

lemma member_entry_row:
  "member_entry eng now c db g rep d i e \<Longrightarrow>
     su_item_id (fst e) = i \<and> su_project_id (fst e) = la_project (lc_launch c)
     \<and> su_launch_id (fst e) = la_launch_id (lc_launch c) \<and> answer_of_row e"
  by (auto simp: member_entry_def row_of_def answer_of_row_def outcome_of_def result_of_def
      split: option.splits if_splits)

lemma group_entry_rows:
  assumes "group_entry eng now c db g lg"
  shows "map (su_item_id \<circ> fst) lg = map gi_item_id (lg_members g)"
    and "\<forall>e \<in> set lg. su_project_id (fst e) = la_project (lc_launch c)
           \<and> su_launch_id (fst e) = la_launch_id (lc_launch c) \<and> answer_of_row e"
proof -
  obtain rep d where "list_all2 (member_entry eng now c db g rep d) (map gi_item_id (lg_members g)) lg"
    using assms by (auto simp: group_entry_def)
  then have "map (su_item_id \<circ> fst) lg = map gi_item_id (lg_members g)
      \<and> (\<forall>e \<in> set lg. su_project_id (fst e) = la_project (lc_launch c)
           \<and> su_launch_id (fst e) = la_launch_id (lc_launch c) \<and> answer_of_row e)"
    by (induction rule: list_all2_induct) (auto dest: member_entry_row)
  then show "map (su_item_id \<circ> fst) lg = map gi_item_id (lg_members g)"
    "\<forall>e \<in> set lg. su_project_id (fst e) = la_project (lc_launch c)
           \<and> su_launch_id (fst e) = la_launch_id (lc_launch c) \<and> answer_of_row e" by blast+
qed

lemma group_entries_rows:
  "list_all2 (group_entry eng now c db) groups lgs \<Longrightarrow>
     map (su_item_id \<circ> fst) (concat lgs) = map gi_item_id (concat (map lg_members groups))
     \<and> (\<forall>e \<in> set (concat lgs). su_project_id (fst e) = la_project (lc_launch c)
           \<and> su_launch_id (fst e) = la_launch_id (lc_launch c) \<and> answer_of_row e)"
proof (induction rule: list_all2_induct)
  case Nil
  then show ?case by simp
next
  case (Cons g groups lg lgs)
  with group_entry_rows [OF Cons(1)] show ?case by (auto simp: comp_def)
qed

lemma group_entries_ids:
  assumes "launch_ctx_of eng mst la db = (c, groups)"
    and "list_all2 (group_entry eng now c db) groups lgs"
  shows "mset (map (su_item_id \<circ> fst) (concat lgs)) = mset (map wi_test_item_id (la_test_items la))"
proof -
  have "mset (map (su_item_id \<circ> fst) (concat lgs))
      = mset (map gi_item_id (concat (map lg_members groups)))"
    using group_entries_rows [OF assms(2)] by metis
  also have "\<dots> = mset (map wi_test_item_id (la_test_items la))"
    using assms(1) group_analyses_ids launch_items unfolding launch_ctx_of_def Let_def prod.inject
    by metis
  finally show ?thesis .
qed

text \<open>
  C3. One row per item, and only labelled items are answered. Analysing a launch appends to the
  suggestion table exactly one row for each of its items - abstentions included - under the project
  and the launch; every answer repeats the item, the label and the neighbour of one of these rows;
  and the item table changes only where an answer was given, by that answer's label.
\<close>

theorem analyze_one_row_per_item:
  "\<exists>lg. effect lg (st, []) (analyze_launch eng mst now la st)
     \<and> mset (map (su_item_id \<circ> fst) lg) = mset (map wi_test_item_id (la_test_items la))
     \<and> (\<forall>e \<in> set lg. su_project_id (fst e) = la_project la \<and> su_launch_id (fst e) = la_launch_id la
          \<and> answer_of_row e)"
proof -
  obtain c groups where cg: "launch_ctx_of eng mst la (as_db st) = (c, groups)" by fastforce
  have c: "lc_launch c = la" using cg by (auto simp: launch_ctx_of_def Let_def)
  obtain lgs where lgs: "effect (concat lgs) (st, []) (analyze_launch eng mst now la st)"
      "list_all2 (group_entry eng now c (as_db st)) groups lgs"
    using analyze_launch_effect [OF cg] by blast
  show ?thesis
    by (intro exI [of _ "concat lgs"] conjI lgs(1) group_entries_ids [OF cg lgs(2)])
      (use group_entries_rows [OF lgs(2)] c in simp)
qed

definition decided_on ::
  "'m engine \<Rightarrow> seconds \<Rightarrow> launch_ctx \<Rightarrow> db \<Rightarrow> launch_group \<Rightarrow> outcome \<Rightarrow> bool" where
  "decided_on eng now c db g e \<longleftrightarrow>
     (\<exists>x d. su_item_id (fst e) \<in> gi_item_id ` set (lg_members g)
        \<and> lc_by_id c (item_id_of x) = Some x
        \<and> lc_disc c (su_item_id (fst e)) = lc_disc c (item_id_of x)
        \<and> (item_id_of x = su_item_id (fst e)
           \<or> map_option gi_item_id (lg_representative g) = Some (item_id_of x))
        \<and> decided eng now (lc_launch c) (lc_total c) ''analyze'' db x g d
        \<and> row_of (la_project (lc_launch c)) (la_launch_id (lc_launch c)) None (su_item_id (fst e)) d
            (fst e)
        \<and> snd e = outcome_of (applied d) (su_item_id (fst e)) d)"

lemma group_entry_decided:
  assumes "group_entry eng now c db g lg" and "e \<in> set lg" and "lc_by_id c = by_id as"
  shows "decided_on eng now c db g e"
proof -
  obtain r rep d where g: "lg_representative g = Some r" "r \<in> set (lg_members g)"
      "lc_by_id c (gi_item_id r) = Some rep"
      "decided eng now (lc_launch c) (lc_total c) ''analyze'' db rep g d"
      "list_all2 (member_entry eng now c db g rep d) (map gi_item_id (lg_members g)) lg"
    using assms(1) by (auto simp: group_entry_def)
  obtain k where k: "k < length lg" "e = lg ! k" using assms(2) by (auto simp: in_set_conv_nth)
  have len: "length (lg_members g) = length lg" using g(5) list_all2_lengthD by force
  define i where "i = gi_item_id (lg_members g ! k)"
  have me: "member_entry eng now c db g rep d i e"
    using g(5) k len by (simp add: list_all2_conv_all_nth i_def)
  have i: "i \<in> gi_item_id ` set (lg_members g)" using k len by (simp add: i_def)
  have id: "item_id_of rep = gi_item_id r" using g(3) assms(3) by_id_item by metis
  obtain d' where d': "row_of (la_project (lc_launch c)) (la_launch_id (lc_launch c)) None i d' (fst e)"
      "snd e = outcome_of (applied d') i d'"
      "if lc_disc c i = lc_disc c (item_id_of rep) then d' = d
       else \<exists>a. lc_by_id c i = Some a \<and> decided eng now (lc_launch c) (lc_total c) ''analyze'' db a g d'"
    using me by (auto simp: member_entry_def)
  have si: "su_item_id (fst e) = i" using d'(1) by (simp add: row_of_def)
  show ?thesis
  proof (cases "lc_disc c i = lc_disc c (item_id_of rep)")
    case True
    then show ?thesis using g d' i id si unfolding decided_on_def
      by (intro exI [of _ rep] exI [of _ d]) simp
  next
    case False
    then obtain a where a: "lc_by_id c i = Some a"
      "decided eng now (lc_launch c) (lc_total c) ''analyze'' db a g d'" using d'(3) by auto
    then have "item_id_of a = i" using assms(3) by_id_item by metis
    then show ?thesis using a d'(1,2) i si unfolding decided_on_def
      by (intro exI [of _ a] exI [of _ d']) simp
  qed
qed

text \<open>
  C2. The fan-out never crosses a discriminant. Every suggestion row of a launch was decided on an
  item of the row's own group with the identical discriminant - error hash, status codes and masked
  message tokens - either the item itself or the representative of the group; nothing is inherited
  by a member that differs from the representative in any of the three.
\<close>

theorem analyze_fanout_identity:
  assumes "launch_ctx_of eng mst la (as_db st) = (c, groups)"
  shows "\<exists>lg. effect lg (st, []) (analyze_launch eng mst now la st)
     \<and> mset (map (su_item_id \<circ> fst) lg) = mset (map wi_test_item_id (la_test_items la))
     \<and> (\<forall>e \<in> set lg. \<exists>g \<in> set groups. decided_on eng now c (as_db st) g e)"
proof -
  obtain lgs where lgs: "effect (concat lgs) (st, []) (analyze_launch eng mst now la st)"
      "list_all2 (group_entry eng now c (as_db st)) groups lgs"
    using analyze_launch_effect [OF assms] by blast
  obtain as where "as": "lc_by_id c = by_id as" using assms by (auto simp: launch_ctx_of_def Let_def)
  have "\<exists>g \<in> set groups. decided_on eng now c (as_db st) g e" if e: "e \<in> set (concat lgs)" for e
  proof -
    obtain lg where lg: "lg \<in> set lgs" "e \<in> set lg" using e by auto
    then obtain k where k: "k < length lgs" "e \<in> set (lgs ! k)" by (metis in_set_conv_nth)
    then have "group_entry eng now c (as_db st) (groups ! k) (lgs ! k)" "k < length groups"
      using lgs(2) by (auto simp: list_all2_conv_all_nth)
    then show ?thesis using group_entry_decided k(2) "as" nth_mem by metis
  qed
  with lgs(1) group_entries_ids [OF assms lgs(2)] show ?thesis by blast
qed

end
