(* ===== verification/Suggest.thy ===== *)
theory Suggest
  imports Analysis
begin

text \<open>
  \<open>core/analysis.py\<close>, the \<open>suggest\<close> route: the candidates of a reply, the bands and the declined
  rows that ride behind the real ones, the judge's promotion, the rendering of each row and the
  rubric hypothesis that is appended when no row is vouched for. Numbers are printed as the code's
  format strings print them.
\<close>

section \<open>Formatting\<close>

fun pad_digits :: "nat \<Rightarrow> nat \<Rightarrow> string" where
  "pad_digits 0 m = []"
| "pad_digits (Suc n) m = pad_digits n (m div 10) @ [char_of (48 + m mod 10)]"

definition fixed_point :: "nat \<Rightarrow> real \<Rightarrow> string" where
  "fixed_point n x =
     (let k = round_half_even (\<bar>x\<bar> * 10 ^ n)
      in (if x < 0 then ''-'' else []) @ show_int (k div 10 ^ n) @ ''.''
         @ pad_digits n (nat (k mod 10 ^ n)))"

section \<open>Wire messages\<close>

record item_info =
  ii_test_item_id :: int
  ii_unique_id :: string
  ii_test_case_hash :: int
  ii_cluster_id :: int
  ii_launch_id :: int
  ii_launch_name :: string
  ii_launch_number :: int
  ii_previous_launch_id :: int
  ii_test_item_name :: string
  ii_project :: int
  ii_analyzer_config :: analyzer_conf
  ii_logs :: "wire_log list"

record suggest_result =
  sg_project :: int
  sg_test_item :: int
  sg_test_item_log_id :: int
  sg_launch_id :: int
  sg_launch_name :: string
  sg_launch_number :: int
  sg_issue_type :: string
  sg_relevant_item :: int
  sg_relevant_log_id :: int
  sg_is_merged_log :: bool
  sg_match_score :: real
  sg_result_position :: int
  sg_es_score :: real
  sg_es_position :: int
  sg_model_feature_names :: "string option"
  sg_model_feature_values :: "string option"
  sg_model_info :: string
  sg_used_log_lines :: int
  sg_min_should_match :: int
  sg_processed_time :: real
  sg_method_name :: string
  sg_cluster_id :: int

definition pseudo_launch :: "item_info \<Rightarrow> launch" where
  "pseudo_launch info =
     \<lparr>la_launch_id = ii_launch_id info, la_project = ii_project info,
      la_launch_name = ii_launch_name info, la_launch_number = ii_launch_number info,
      la_previous_launch_id = ii_previous_launch_id info,
      la_analyzer_config = ii_analyzer_config info,
      la_test_items = [\<lparr>wi_test_item_id = ii_test_item_id info, wi_is_auto_analyzed = False,
        wi_unique_id = ii_unique_id info, wi_issue_type = [], wi_start_time = [],
        wi_test_case_hash = ii_test_case_hash info, wi_test_item_name = ii_test_item_name info,
        wi_logs = ii_logs info\<rparr>],
      la_launch_items_count = 0\<rparr>"

section \<open>Candidates\<close>

definition SUGGEST_BELOW_FLOOR :: real where "SUGGEST_BELOW_FLOOR = 30 / 100"
definition SUGGEST_BELOW_MAX_CAP :: int where "SUGGEST_BELOW_MAX_CAP = 3"

definition provenance :: "string option \<Rightarrow> bool \<Rightarrow> string" where
  "provenance source is_auto =
     (if is_auto \<or> source = Some ''ai_suggested'' then ''auto-analyzed''
      else if source \<in> {Some ''rp'', Some ''human''} then ''human-confirmed''
      else if source = Some ''seed'' then ''seed''
      else ''unlabeled'')"

record sugg_cand =
  sd_label :: string
  sd_item :: int
  sd_score :: real
  sd_es :: real
  sd_prov :: string

definition own_answer :: "decision_result \<Rightarrow> sugg_cand list" where
  "own_answer d =
     (if dr_label d = ''ti'' then []
      else (case dr_relevant_item_id d of
              None \<Rightarrow> []
            | Some r \<Rightarrow>
                [\<lparr>sd_label = dr_issue_type d, sd_item = r, sd_score = dr_confidence d, sd_es = 0,
                  sd_prov = (if dr_method d = METHOD_KB then ''kb-mode''
                             else provenance (dr_relevant_label_source d)
                                    (dr_relevant_is_auto_analyzed d))\<rparr>]))"

definition add_neighbour :: "candidate \<Rightarrow> sugg_cand list \<Rightarrow> sugg_cand list" where
  "add_neighbour c res =
     (case (c_item_id c, c_issue_type c) of
        (Some i, Some t) \<Rightarrow>
          if i \<in> sd_item ` set res then res
          else res @ [\<lparr>sd_label = t, sd_item = i, sd_score = capped_cosine c,
                       sd_es = c_rrf_score c, sd_prov = provenance (c_label_source c) False\<rparr>]
      | _ \<Rightarrow> res)"

definition suggestion_candidates :: "decision_result \<Rightarrow> candidate list \<Rightarrow> sugg_cand list" where
  "suggestion_candidates d cs = fold add_neighbour cs (own_answer d)"

text \<open>The verdict is \<open>None\<close> when no row carries one, \<open>Some None\<close> when the judge chose nobody.\<close>

fun index_of :: "int \<Rightarrow> sugg_cand list \<Rightarrow> nat option" where
  "index_of i [] = None"
| "index_of i (c # cs) = (if sd_item c = i then Some 0 else map_option Suc (index_of i cs))"

definition reorder_for_judge ::
  "sugg_cand list \<Rightarrow> int option option \<Rightarrow> bool \<Rightarrow> sugg_cand list" where
  "reorder_for_judge cs verdict is_auto =
     (if is_auto then cs
      else (case verdict of
              Some (Some chosen) \<Rightarrow>
                (case index_of chosen cs of
                   Some (Suc k) \<Rightarrow> cs ! Suc k # take (Suc k) cs @ drop (Suc (Suc k)) cs
                 | _ \<Rightarrow> cs)
            | _ \<Rightarrow> cs))"

datatype band = BAND_AUTO | BAND_SUGGEST | BAND_BELOW_SUGGEST

definition row_band :: "decision_result \<Rightarrow> int \<Rightarrow> real \<Rightarrow> band" where
  "row_band d rel_item score =
     (if score < TAU_SUGGEST then BAND_BELOW_SUGGEST
      else if dr_action d = ACTION_AUTO \<and> Some rel_item = dr_relevant_item_id d then BAND_AUTO
      else BAND_SUGGEST)"

definition band_text :: "band \<Rightarrow> string" where
  "band_text b = (case b of BAND_AUTO \<Rightarrow> ''auto'' | BAND_SUGGEST \<Rightarrow> ''suggest''
                  | BAND_BELOW_SUGGEST \<Rightarrow> ''below_suggest'')"

section \<open>Selecting the rows\<close>

definition floor_score :: "'m engine \<Rightarrow> real" where
  "floor_score eng = (if ae_suggest_below_enabled eng then SUGGEST_BELOW_FLOOR else TAU_SUGGEST)"

definition score1 :: "sugg_cand \<Rightarrow> real" where
  "score1 c = min 1 (sd_score c)"

definition proxy_score :: "decision_result \<Rightarrow> real" where
  "proxy_score d =
     (if dr_confidence d = 0 \<and> dr_stage_c d \<noteq> [] then capped_cosine (hd (dr_stage_c d))
      else dr_confidence d)"

text \<open>The declined hypothesis of a \<open>gbm_below_suggest\<close> abstain: one row of the argmax group.\<close>

definition declined_row :: "decision_result \<Rightarrow> sugg_cand list \<Rightarrow> sugg_cand list" where
  "declined_row d shown =
     (if dr_abstain_reason d = Some ''gbm_below_suggest''
         \<and> SUGGEST_BELOW_FLOOR \<le> dr_confidence d \<and> dr_confidence d < TAU_SUGGEST
      then (case py_max snd (dr_probs d) of
              None \<Rightarrow> []
            | Some (grp, _) \<Rightarrow>
                (case List.find (\<lambda>c. case (c_item_id c, nonempty_str (c_issue_type c)) of
                        (Some i, Some t) \<Rightarrow> i \<notin> sd_item ` set shown \<and> base_group (Some t) = Some grp
                      | _ \<Rightarrow> False) (dr_stage_c d) of
                   None \<Rightarrow> []
                 | Some c \<Rightarrow>
                     [\<lparr>sd_label = the (c_issue_type c), sd_item = the (c_item_id c),
                       sd_score = dr_confidence d, sd_es = c_rrf_score c,
                       sd_prov = provenance (c_label_source c) False\<rparr>]))
      else [])"

definition below_cap :: "'m engine \<Rightarrow> nat" where
  "below_cap eng = nat (max 0 (min (ae_suggest_below_max eng) SUGGEST_BELOW_MAX_CAP))"

definition select_rows ::
  "'m engine \<Rightarrow> decision_result \<Rightarrow> int option option \<Rightarrow> sugg_cand list \<times> sugg_cand list" where
  "select_rows eng d verdict =
     (let fl = floor_score eng;
          cands = filter (\<lambda>c. score1 c \<ge> fl) (suggestion_candidates d (dr_stage_c d))
      in if proxy_score d < fl \<or> cands = [] then ([], [])
         else
           (let cs = reorder_for_judge cands verdict (dr_action d = ACTION_AUTO);
                real_all = filter (\<lambda>c. score1 c \<ge> TAU_SUGGEST) cs;
                real1 = take (ae_suggest_max eng) real_all;
                below0 = (if ae_suggest_below_enabled eng
                          then filter (\<lambda>c. score1 c < TAU_SUGGEST) cs else []);
                below1 = below0 @ (if ae_suggest_below_enabled eng
                                   then declined_row d (real1 @ below0) else []);
                below = take (below_cap eng) below1;
                real2 = (if below \<noteq> [] \<and> dr_label d = ''ti''
                         then take (ae_suggest_max eng - length below) real_all else real1)
            in (real2, below)))"

section \<open>Rendering\<close>

definition model_info :: "'m engine \<Rightarrow> decision_result \<Rightarrow> string" where
  "model_info eng d =
     ''analyzer-ng;gbm='' @ (case (if dr_method d = METHOD_GBM then nonempty_str (dr_model_version d)
                                   else None) of Some v \<Rightarrow> v | None \<Rightarrow> ''none'')
     @ '';emb='' @ ae_emb_model_tag eng
     @ '';kb_mode='' @ (case dr_matched_mode_id d of None \<Rightarrow> ''none'' | Some m \<Rightarrow> show_int m)"

definition DECLINE_NARRATION :: "string \<rightharpoonup> string" where
  "DECLINE_NARRATION = map_of
     [(''gbm_below_suggest'', ''model probability stayed below the suggest threshold''),
      (''gbm_boilerplate_only_neighbor'',
       ''the nearest neighbour shared no structural evidence (boilerplate guard)''),
      (''no_confident_rule'', ''no rule or model matched with enough confidence'')]"

definition row_extra :: "decision_result \<Rightarrow> nat \<Rightarrow> nat \<Rightarrow> sugg_cand \<Rightarrow> string" where
  "row_extra d n_real rank c =
     (let b = row_band d (sd_item c) (score1 c);
          conf = (if dr_label d \<noteq> ''ti'' \<and> Some (sd_item c) = dr_relevant_item_id d
                     \<and> dr_confidence d > 0
                  then '';conf='' @ fixed_point 4 (dr_confidence d) else []);
          plabel = (case Option.bind (base_group (Some (sd_label c))) (calibrated_label_prob d) of
                      Some p \<Rightarrow> '';plabel='' @ fixed_point 4 p | None \<Rightarrow> []);
          decline = (if b = BAND_BELOW_SUGGEST \<and> rank = n_real
                     then (case Option.bind (dr_abstain_reason d) DECLINE_NARRATION of
                             Some w \<Rightarrow> '';ek=decline;why='' @ w | None \<Rightarrow> [])
                     else [])
      in conf @ plabel @ decline)"

definition log_id_of :: "item_info \<Rightarrow> int" where
  "log_id_of info = (case ii_logs info of [] \<Rightarrow> 0 | l # _ \<Rightarrow> wl_log_id l)"

definition render_row ::
  "'m engine \<Rightarrow> item_info \<Rightarrow> item_analysis \<Rightarrow> decision_result \<Rightarrow> real \<Rightarrow> nat \<Rightarrow> nat \<times> sugg_cand
     \<Rightarrow> suggest_result" where
  "render_row eng info rep d elapsed n_real = (\<lambda>(rank, c).
     \<lparr>sg_project = ii_project info, sg_test_item = ii_test_item_id info,
      sg_test_item_log_id = log_id_of info, sg_launch_id = ii_launch_id info,
      sg_launch_name = ii_launch_name info, sg_launch_number = ii_launch_number info,
      sg_issue_type = sd_label c, sg_relevant_item = sd_item c, sg_relevant_log_id = 0,
      sg_is_merged_log = sr_is_merged_small_logs (an_signature rep),
      sg_match_score = py_round 2 (score1 c * 100), sg_result_position = int rank,
      sg_es_score = py_round 6 (sd_es c), sg_es_position = int rank,
      sg_model_feature_names = Some (join_with '';'' feature_names),
      sg_model_feature_values = Some (join_with '';'' (map (fixed_point 6) (to_vector (dr_features d)))),
      sg_model_info = model_info eng d @ '';ng=1;band='' @ band_text (row_band d (sd_item c) (score1 c))
        @ '';src='' @ sd_prov c @ row_extra d n_real rank c,
      sg_used_log_lines = ac_number_of_log_lines (ii_analyzer_config info),
      sg_min_should_match = ac_min_should_match (ii_analyzer_config info),
      sg_processed_time = py_round 4 elapsed,
      sg_method_name = (if dr_action d = ACTION_AUTO then ''auto_analysis'' else ''suggestion''),
      sg_cluster_id = ii_cluster_id info\<rparr>)"

definition render_suggestions ::
  "'m engine \<Rightarrow> item_info \<Rightarrow> item_analysis \<Rightarrow> decision_result \<Rightarrow> real \<Rightarrow> int option option
     \<Rightarrow> suggest_result list" where
  "render_suggestions eng info rep d elapsed verdict =
     (let (real_rows, below) = select_rows eng d verdict
      in map (render_row eng info rep d elapsed (length real_rows))
           (enumerate 0 (real_rows @ below)))"

section \<open>The rubric fallback\<close>

definition src_at :: "string \<Rightarrow> string option" where
  "src_at s =
     (if starts_with ''src='' s
      then (let v = takeWhile (\<lambda>c. c \<noteq> CHR '';'') (drop 4 s) in if v = [] then None else Some v)
      else None)"

fun src_after :: "string \<Rightarrow> string option" where
  "src_after [] = None"
| "src_after (c # s) =
     (if c = CHR '';'' then (case src_at s of Some v \<Rightarrow> Some v | None \<Rightarrow> src_after s)
      else src_after s)"

text \<open>\<open>(?:^|;)src=([^;]+)\<close> in a row's model info.\<close>

definition row_provenance :: "suggest_result \<Rightarrow> string" where
  "row_provenance r =
     (case src_at (sg_model_info r) of
        Some v \<Rightarrow> v
      | None \<Rightarrow> (case src_after (sg_model_info r) of Some v \<Rightarrow> v | None \<Rightarrow> ''unlabeled''))"

definition vouched :: "suggest_result \<Rightarrow> bool" where
  "vouched r \<longleftrightarrow> sg_match_score r \<ge> TAU_SUGGEST * 100 \<and> row_provenance r \<noteq> ''unlabeled''"

definition coldstart_on :: "'m engine \<Rightarrow> bool" where
  "coldstart_on eng \<longleftrightarrow> ae_llm_enabled eng \<and> ae_role_enabled eng ''coldstart''"

definition rubric_row ::
  "item_info \<Rightarrow> item_analysis \<Rightarrow> real \<Rightarrow> suggestion_row \<Rightarrow> suggest_result" where
  "rubric_row info rep elapsed r =
     \<lparr>sg_project = ii_project info, sg_test_item = ii_test_item_id info,
      sg_test_item_log_id = log_id_of info, sg_launch_id = ii_launch_id info,
      sg_launch_name = ii_launch_name info, sg_launch_number = ii_launch_number info,
      sg_issue_type = (if su_predicted_label r = [] then ''ti'' else su_predicted_label r),
      sg_relevant_item = ii_test_item_id info, sg_relevant_log_id = log_id_of info,
      sg_is_merged_log = sr_is_merged_small_logs (an_signature rep),
      sg_match_score = py_round 2 (min 1 (su_confidence r) * 100), sg_result_position = 0,
      sg_es_score = 0, sg_es_position = 0, sg_model_feature_names = None,
      sg_model_feature_values = None,
      sg_model_info = ''coldstart_rubric;'' @ su_model_ver r @ '';why=''
        @ strip (case su_explanation r of None \<Rightarrow> [] | Some e \<Rightarrow> e),
      sg_used_log_lines = ac_number_of_log_lines (ii_analyzer_config info),
      sg_min_should_match = ac_min_should_match (ii_analyzer_config info),
      sg_processed_time = py_round 4 elapsed, sg_method_name = ''coldstart_rubric'',
      sg_cluster_id = ii_cluster_id info\<rparr>"

definition rubric_provisional_suggestions ::
  "'m engine \<Rightarrow> item_info \<Rightarrow> item_analysis \<Rightarrow> real \<Rightarrow> db \<Rightarrow> suggest_result list" where
  "rubric_provisional_suggestions eng info rep elapsed db =
     (if \<not> coldstart_on eng then []
      else (case latest_rubric_provisional db (ii_project info) (ii_test_item_id info) of
              None \<Rightarrow> [] | Some r \<Rightarrow> [rubric_row info rep elapsed r]))"

definition rubric_fallback ::
  "'m engine \<Rightarrow> suggest_result list \<Rightarrow> item_info \<Rightarrow> item_analysis \<Rightarrow> real \<Rightarrow> db \<Rightarrow> suggest_result list"
  where
  "rubric_fallback eng out info rep elapsed db =
     (if list_ex vouched out then out
      else out @ rubric_provisional_suggestions eng info rep elapsed db)"

section \<open>suggest\<close>

definition suggest ::
  "'m engine \<Rightarrow> 'm drain_store \<Rightarrow> seconds \<Rightarrow> real \<Rightarrow> item_info \<Rightarrow> an_state
     \<Rightarrow> an_state \<times> suggest_result list" where
  "suggest eng mst now elapsed info st =
     (let p = ii_project info; i = ii_test_item_id info; la = pseudo_launch info
      in case build_item_analyses (ae_pipeline eng) mst p (map (\<lambda>t. (la, t)) (la_test_items la)) of
           [] \<Rightarrow> (st, [])
         | rep # _ \<Rightarrow>
             if sr_signature_text (an_signature rep) = [] then (st, [])
             else
               (let (db1, d, m) = decide_item eng now (launch_args la 1 ''suggest'') rep
                                    (singleton_group rep) (as_db st);
                    db2 = record_membership p [i] m rep db1;
                    (db3, sid) = write_suggestion now
                      (suggestion_of_decision eng p i (ii_launch_id info) None None d) db2;
                    verdict = (if ae_llm_enabled eng then latest_judge now db3 p i else None);
                    out = rubric_fallback eng (render_suggestions eng info rep d elapsed verdict)
                            info rep elapsed db3
                in (enqueue_llm eng p i (ii_launch_id info) d (Some (judge_candidates d)) sid
                      (st\<lparr>as_db := db3\<rparr>), out)))"

end
