(* ===== verification/AnalysisSpec.thy ===== *)
theory AnalysisSpec
  imports Analysis
begin

text \<open>
  More about the routes of \<open>core/analysis.py\<close>: what the early pass may label at most, that the
  enrichment sidecar is inert, and the clusters.
\<close>

section \<open>The label of a decision\<close>

lemma base_default: "b \<in> set BASE_LABELS \<Longrightarrow> base_or_empty (Some (default_locator b)) = b"
  by (auto simp: BASE_LABELS_def default_locator_def DEFAULT_LOCATOR_def base_or_empty_def
      base_group_def is_alpha_def is_lower_def is_upper_def lower_str_def lower_char_def)

lemma base_of_empty: "base_or_empty (Some []) = []" "base_or_empty None = []"
  by (simp_all add: base_or_empty_def base_group_def)

lemma base_nonempty:
  "nonempty_str t = Some l \<Longrightarrow> base_or_empty (Some l) = base_or_empty t"
  "nonempty_str t = None \<Longrightarrow> base_or_empty t = []"
  by (auto simp: nonempty_str_def base_of_empty split: option.splits if_splits)

lemma base_default_empty: "base_or_empty (Some (default_locator [])) = []"
  by (simp add: default_locator_def DEFAULT_LOCATOR_def base_of_empty)

lemma base_default_of: "base_or_empty (Some (default_locator (base_or_empty t))) = base_or_empty t"
  using base_default base_default_empty base_or_empty_Some by metis

lemma base_locator:
  "base_or_empty (Some (case nonempty_str t of Some l \<Rightarrow> l | None \<Rightarrow> default_locator (base_or_empty t)))
     = base_or_empty t"
  by (cases "nonempty_str t") (simp_all add: base_nonempty base_default_empty)

lemma mk_result_fields:
  "dr_label (mk_result fs cs tau a) = ra_label a"
  "dr_issue_type (mk_result fs cs tau a) = ra_issue_type a"
  by (simp_all add: mk_result_def Let_def)

text \<open>The issue type of an answer always belongs to the answer's group.\<close>

lemma gbm_issue_label:
  assumes "r = gbm_result g sc (mk_result fs cs tau) features qtokens tau'" and "dr_label r \<noteq> ''ti''"
  shows "base_or_empty (Some (dr_issue_type r)) = dr_label r"
proof -
  let ?p = "clamp01 (gd_max_prob g)"
  note u = gbm_result_def Let_def mk_result_fields
  consider (low) "gd_label g \<notin> set BASE_LABELS \<or> ?p < TAU_SUGGEST"
    | (mid) "gd_label g \<in> set BASE_LABELS" "\<not> ?p < TAU_SUGGEST"
        "?p < tau' \<and> sc \<noteq> [] \<and> boilerplate_only_top1 (hd sc) qtokens"
    | (top) "gd_label g \<in> set BASE_LABELS" "\<not> ?p < TAU_SUGGEST"
        "\<not> (?p < tau' \<and> sc \<noteq> [] \<and> boilerplate_only_top1 (hd sc) qtokens)"
    by blast
  then show ?thesis
  proof cases
    case low
    then have c: "(if gd_label g \<in> set BASE_LABELS then gd_label g else ''ti'') = ''ti''
        \<or> ?p < TAU_SUGGEST" by simp
    show ?thesis
    proof (cases "human_confirmed_hash_floor sc features qtokens")
      case None
      then have "dr_label r = ''ti''" using c by (simp add: assms(1) u)
      with assms(2) show ?thesis by simp
    next
      case (Some fl)
      then show ?thesis using c base_locator [of "c_issue_type fl"] by (simp add: assms(1) u)
    qed
  next
    case mid
    then have "gd_label g \<noteq> ''ti''" by (simp add: base_labels_not_ti)
    with mid have "dr_label r = ''ti''" by (simp add: assms(1) u)
    with assms(2) show ?thesis by simp
  next
    case top
    then have ti: "gd_label g \<noteq> ''ti''" by (simp add: base_labels_not_ti)
    let ?o = "Option.bind (pick_relevant sc (gd_label g)) (\<lambda>c. nonempty_str (c_issue_type c))"
    have r: "dr_label r = gd_label g"
      "dr_issue_type r = (case ?o of Some l \<Rightarrow> l | None \<Rightarrow> default_locator (gd_label g))"
      using top ti by (auto simp: assms(1) u)
    show ?thesis
    proof (cases ?o)
      case None
      then show ?thesis using top by (simp add: r base_default)
    next
      case (Some l)
      then obtain c where c: "pick_relevant sc (gd_label g) = Some c"
          "nonempty_str (c_issue_type c) = Some l"
        by (auto simp: bind_eq_Some_conv)
      have "base_or_empty (c_issue_type c) = gd_label g"
        using c(1) by (auto simp: pick_relevant_def find_Some_iff)
      then show ?thesis using base_nonempty(1) [OF c(2)] by (simp add: r Some)
    qed
  qed
qed

lemma decide_issue_label:
  assumes "r = decide inputs now tau" and "dr_label r \<noteq> ''ti''"
  shows "base_or_empty (Some (dr_issue_type r)) = dr_label r"
proof -
  have kb: "base_or_empty (Some (case nonempty_str t of Some l \<Rightarrow> l | None \<Rightarrow> base_or_empty t))
      = base_or_empty t" for t
    by (cases "nonempty_str t") (simp_all add: base_nonempty base_of_empty)
  have cold: "dr_label (cold_result inputs (mk_result fs cs tau)) \<noteq> ''ti'' \<Longrightarrow>
      base_or_empty (Some (dr_issue_type (cold_result inputs (mk_result fs cs tau))))
        = dr_label (cold_result inputs (mk_result fs cs tau))" for fs cs
    by (auto simp: cold_result_def mk_result_fields Let_def base_default_of split: option.splits)
  show ?thesis using assms gbm_issue_label cold
    by (auto simp: decide_def Let_def mk_result_fields kb split: option.splits)
qed

lemma resolve_mode_match_keeps:
  "resolve_mode_match kb sid seed d = (d', m) \<Longrightarrow>
     dr_label d' = dr_label d \<and> dr_issue_type d' = dr_issue_type d \<and> dr_action d' = dr_action d
     \<and> dr_method d' = dr_method d \<and> dr_confidence d' = dr_confidence d
     \<and> dr_relevant_item_id d' = dr_relevant_item_id d"
  by (auto simp: resolve_mode_match_def split: option.splits if_splits)

lemma decide_item_issue_label:
  assumes "decide_item eng now a rep g db = (db', d, m)" and "dr_label d \<noteq> ''ti''"
  shows "base_or_empty (Some (dr_issue_type d)) = dr_label d"
proof -
  obtain inputs kb sid seed where
    "resolve_mode_match kb sid seed (decide inputs now (ae_auto_min_prob eng)) = (d, m)"
    using assms(1) by (auto simp: decide_item_def Let_def split: prod.splits)
  from resolve_mode_match_keeps [OF this] show ?thesis
    using decide_issue_label [OF refl, of inputs now "ae_auto_min_prob eng"] assms(2) by simp
qed

section \<open>The early pass\<close>

definition early_entry :: "'m engine \<Rightarrow> outcome \<Rightarrow> bool" where
  "early_entry eng e \<longleftrightarrow>
     su_source (fst e) = Some ''early''
     \<and> (case snd e of
          None \<Rightarrow> True
        | Some a \<Rightarrow>
            answer_of_row e \<and> base_or_empty (Some (ar_issue_type a)) \<notin> {''ti'', ''si''}
            \<and> ((su_method (fst e) \<in> {Some ''hash'', Some ''kb''}
                \<and> ae_early_label_policy eng \<in> {''kb_inherit_only'', ''kb_inherit_and_pb''})
               \<or> (su_method (fst e) = Some ''gbm'' \<and> base_or_empty (Some (ar_issue_type a)) = ''pb''
                  \<and> su_confidence (fst e) \<ge> ae_early_gbm_pb_min eng
                  \<and> ae_early_label_policy eng = ''kb_inherit_and_pb'')))"

lemma early_entryI:
  assumes "row_of p l (Some ''early'') i d r" and "dr_label d \<noteq> ''ti'' \<Longrightarrow> base_or_empty (Some (dr_issue_type d)) = dr_label d"
  shows "early_entry eng (r, outcome_of (early_applies eng d) i d)"
proof (cases "early_applies eng d")
  case False
  then show ?thesis using assms(1) by (simp add: early_entry_def outcome_of_def row_of_def)
next
  case True
  then have e: "dr_label d \<notin> {''ti'', ''si''}"
    "(dr_method d \<in> {METHOD_HASH, METHOD_KB}
        \<and> ae_early_label_policy eng \<in> {''kb_inherit_only'', ''kb_inherit_and_pb''})
     \<or> (ae_early_label_policy eng = ''kb_inherit_and_pb'' \<and> dr_method d = METHOD_GBM
        \<and> dr_label d = ''pb'' \<and> dr_confidence d \<ge> ae_early_gbm_pb_min eng)"
    by (auto simp: early_applies_def Let_def)
  then have b: "base_or_empty (Some (dr_issue_type d)) = dr_label d" using assms(2) by simp
  show ?thesis using True assms(1) e b
    by (auto simp: early_entry_def outcome_of_def row_of_def result_of_def answer_of_row_def
        method_text_def)
qed

lemma early_item_effect:
  "\<exists>lg. effect lg s (early_item eng now la rep s) \<and> (\<forall>e \<in> set lg. early_entry eng e)"
proof -
  obtain st out where s: "s = (st, out)" by (cases s)
  show ?thesis
  proof (cases "sr_signature_text (an_signature rep) = []")
    case True
    then show ?thesis by (intro exI [of _ "[]"]) (simp add: s early_item_def effect_refl)
  next
    case False
    let ?p = "la_project la" and ?i = "item_id_of rep"
    obtain db1 d m where di: "decide_item eng now (launch_args la 1 ''analyze_item_early'') rep
        (singleton_group rep) (as_db st) = (db1, d, m)" using prod_cases3 by blast
    have l1: "learned db1 = learned (as_db st)"
      using decide_item_learned [of eng now "launch_args la 1 ''analyze_item_early''" rep
          "singleton_group rep" "as_db st"] unfolding di by simp
    define st0 where "st0 = st\<lparr>as_db := record_membership ?p [?i] m rep db1\<rparr>"
    have e0: "effect [] s (st0, out)" using l1 by (simp add: s st0_def effect_learned)
    have lab: "dr_label d \<noteq> ''ti'' \<Longrightarrow> base_or_empty (Some (dr_issue_type d)) = dr_label d"
      using decide_item_issue_label [OF di] .
    define st1 where "st1 = write_and_enqueue eng now ?p ?i (la_launch_id la) None (Some ''early'') d st0"
    have ei: "early_item eng now la rep s = (if early_applies eng d
        then (label_item ?p ?i d st1, out @ [result_of ?i d]) else (st1, out))"
      using False by (simp add: early_item_def s di [unfolded One_nat_def] Let_def st0_def st1_def)
    have "\<exists>r. row_of ?p (la_launch_id la) (Some ''early'') ?i d r
        \<and> effect [(r, outcome_of (early_applies eng d) ?i d)] (st0, out) (early_item eng now la rep s)"
    proof (cases "early_applies eng d")
      case True
      then show ?thesis
        using effect_write_label [of ?p "la_launch_id la" "Some ''early''" ?i d st0 out eng now None]
        unfolding ei st1_def outcome_of_def by simp
    next
      case False
      then show ?thesis
        using effect_write [of ?p "la_launch_id la" "Some ''early''" ?i d st0 out eng now None]
        unfolding ei st1_def outcome_of_def by simp
    qed
    then obtain r where r: "row_of ?p (la_launch_id la) (Some ''early'') ?i d r"
        "effect [(r, outcome_of (early_applies eng d) ?i d)] (st0, out) (early_item eng now la rep s)"
      by blast
    have "early_entry eng (r, outcome_of (early_applies eng d) ?i d)" by (rule early_entryI [OF r(1) lab])
    then show ?thesis using effect_then [OF e0 r(2)] by (metis empty_iff empty_set set_ConsD)
  qed
qed

lemma entries_fold:
  assumes "\<And>x s. \<exists>lg. effect lg s (f x s) \<and> (\<forall>e \<in> set lg. P e)"
  shows "\<exists>lg. effect lg s (fold f xs s) \<and> (\<forall>e \<in> set lg. P e)"
proof (induction xs arbitrary: s)
  case Nil
  then show ?case by (intro exI [of _ "[]"]) (simp add: effect_refl)
next
  case (Cons x xs)
  obtain l1 where 1: "effect l1 s (f x s)" "\<forall>e \<in> set l1. P e" using assms by blast
  obtain l2 where 2: "effect l2 (f x s) (fold f xs (f x s))" "\<forall>e \<in> set l2. P e" using Cons.IH by blast
  show ?case using effect_trans [OF 1(1) 2(1)] 1(2) 2(2) by (intro exI [of _ "l1 @ l2"]) auto
qed


section \<open>The sidecar is inert\<close>

text \<open>Two runs agree on the stores and the answers; the second, when its sidecar is off, has queued
  nothing beyond the jobs \<open>jobs\<close>.\<close>

definition agree ::
  "bool \<Rightarrow> llm_payload llm_job list \<Rightarrow> an_state \<times> 'a \<Rightarrow> an_state \<times> 'a \<Rightarrow> bool" where
  "agree on jobs s s' \<longleftrightarrow> as_db (fst s) = as_db (fst s') \<and> snd s = snd s'
     \<and> (on \<or> as_jobs (fst s') = jobs)"

lemma fold_agree:
  assumes "\<And>x s s'. agree on jobs (proj s) (proj s') \<Longrightarrow> agree on jobs (proj (f x s)) (proj (f' x s'))"
    and "agree on jobs (proj s) (proj s')"
  shows "agree on jobs (proj (fold f xs s)) (proj (fold f' xs s'))"
  using assms(2) by (induction xs arbitrary: s s') (simp_all add: assms(1))

lemma write_and_enqueue_agree:
  assumes "as_db st = as_db st'" and "on \<or> as_jobs st' = jobs"
  shows "as_db (write_and_enqueue eng now p i l gid source d st)
      = as_db (write_and_enqueue (with_llm on roles tau eng) now p i l gid source d st')"
    and "on \<or> as_jobs (write_and_enqueue (with_llm on roles tau eng) now p i l gid source d st') = jobs"
proof -
  have "\<not> on \<Longrightarrow> as_jobs (write_and_enqueue (with_llm on roles tau eng) now p i l gid source d st')
      = as_jobs st'" by (rule write_and_enqueue_off) simp
  then show "on \<or> as_jobs (write_and_enqueue (with_llm on roles tau eng) now p i l gid source d st') = jobs"
    using assms(2) by blast
  show "as_db (write_and_enqueue eng now p i l gid source d st)
      = as_db (write_and_enqueue (with_llm on roles tau eng) now p i l gid source d st')"
    by (simp add: write_and_enqueue_db assms(1))
qed

definition ms_view :: "member_state \<Rightarrow> an_state \<times> analysis_result list \<times> int list" where
  "ms_view s = (ms_state s, ms_out s, ms_inherit s)"

lemma finish_member_agree:
  assumes "agree on jobs (ms_view s) (ms_view s')"
  shows "agree on jobs (ms_view (finish_member eng now la gid i d s))
    (ms_view (finish_member (with_llm on roles tau eng) now la gid i d s'))"
proof -
  note w = write_and_enqueue_agree [where st = "ms_state s" and st' = "ms_state s'" and on = on
      and jobs = jobs and eng = eng and now = now and p = "la_project la" and i = i
      and l = "la_launch_id la" and gid = "Some gid" and source = None and d = d and roles = roles
      and tau = tau]
  show ?thesis using assms w
    by (cases "applied d") (simp_all add: agree_def ms_view_def finish_member_def Let_def label_item_def)
qed

lemma member_decision_agree:
  assumes "as_db st = as_db st'"
    and "member_decision eng now c g d rep i st = ((d1, st1), b1)"
    and "member_decision (with_llm on roles tau eng) now c g d rep i st' = ((d2, st2), b2)"
  shows "d1 = d2 \<and> b1 = b2 \<and> as_db st1 = as_db st2 \<and> as_jobs st2 = as_jobs st'"
  using assms by (auto simp: member_decision_def split: if_splits option.splits prod.splits)

lemma analyze_member_agree:
  assumes "agree on jobs (ms_view s) (ms_view s')"
  shows "agree on jobs (ms_view (analyze_member eng now c g d rep gid gi s))
    (ms_view (analyze_member (with_llm on roles tau eng) now c g d rep gid gi s'))"
proof -
  let ?i = "gi_item_id gi"
  obtain d1 st1 b1 where 1: "member_decision eng now c g d rep ?i (ms_state s) = ((d1, st1), b1)"
    by (metis prod.collapse)
  obtain d2 st2 b2 where 2: "member_decision (with_llm on roles tau eng) now c g d rep ?i (ms_state s')
      = ((d2, st2), b2)" by (metis prod.collapse)
  have db: "as_db (ms_state s) = as_db (ms_state s')" and i: "ms_inherit s = ms_inherit s'"
    using assms by (simp_all add: agree_def ms_view_def)
  note m = member_decision_agree [OF db 1 2]
  have "agree on jobs
      (ms_view (s\<lparr>ms_state := st1, ms_inherit := (if b1 then ms_inherit s @ [?i] else ms_inherit s)\<rparr>))
      (ms_view (s'\<lparr>ms_state := st2, ms_inherit := (if b2 then ms_inherit s' @ [?i] else ms_inherit s')\<rparr>))"
    using assms m by (auto simp: agree_def ms_view_def)
  moreover have d: "d2 = d1" using m by simp
  ultimately show ?thesis
    unfolding analyze_member_def Let_def 1 2 prod.case d by (intro finish_member_agree)
qed

lemma analyze_group_agree:
  assumes "agree on jobs s s'"
  shows "agree on jobs (analyze_group eng now c g s) (analyze_group (with_llm on roles tau eng) now c g s')"
proof -
  obtain st out where s: "s = (st, out)" by (cases s)
  obtain st' out' where s': "s' = (st', out')" by (cases s')
  have db: "as_db st' = as_db st" and out: "out' = out" using assms by (simp_all add: agree_def s s')
  show ?thesis
  proof (cases "Option.bind (lg_representative g) (\<lambda>r. lc_by_id c (gi_item_id r))")
    case None
    then show ?thesis using assms by (simp add: analyze_group_def s s')
  next
    case (Some rep)
    let ?p = "la_project (lc_launch c)"
    obtain db1 d m where di: "decide_item eng now
        (launch_args (lc_launch c) (lc_total c) ''analyze'') rep g (as_db st) = (db1, d, m)"
      using prod_cases3 by blast
    obtain db2 gid where ug: "upsert_launch_group ?p (la_launch_id (lc_launch c)) (fingerprint g)
        (int (length (lg_members g))) (lg_si_prior g) (lg_si_prior g > 0) db1 = (db2, gid)" by fastforce
    let ?f = "\<lambda>eng st. fold (analyze_member eng now c g d rep gid) (lg_members g)
        \<lparr>ms_state = st\<lparr>as_db := db2\<rparr>, ms_out = out, ms_inherit = []\<rparr>"
    have "agree on jobs (ms_view \<lparr>ms_state = st\<lparr>as_db := db2\<rparr>, ms_out = out, ms_inherit = []\<rparr>)
        (ms_view \<lparr>ms_state = st'\<lparr>as_db := db2\<rparr>, ms_out = out, ms_inherit = []\<rparr>)"
      using assms by (simp add: agree_def ms_view_def s s')
    then have "agree on jobs (ms_view (?f eng st)) (ms_view (?f (with_llm on roles tau eng) st'))"
      by (rule fold_agree [rotated]) (rule analyze_member_agree)
    then show ?thesis
      by (auto simp: analyze_group_def s s' Some di ug Let_def db out agree_def ms_view_def)
  qed
qed

lemma analyze_launch_agree:
  assumes "as_db st = as_db st'" and "on \<or> as_jobs st' = jobs"
  shows "agree on jobs (analyze_launch eng mst now la st)
    (analyze_launch (with_llm on roles tau eng) mst now la st')"
proof -
  have c: "launch_ctx_of (with_llm on roles tau eng) mst la (as_db st') = launch_ctx_of eng mst la (as_db st)"
    by (simp add: launch_ctx_of_def group_analyses_def assms(1))
  obtain c groups where cg: "launch_ctx_of eng mst la (as_db st) = (c, groups)" by fastforce
  have start: "agree on jobs (st, [] :: analysis_result list) (st', [])" using assms by (simp add: agree_def)
  show ?thesis
    unfolding analyze_launch_def c cg Let_def prod.case
    by (rule fold_agree [where proj = id, unfolded id_apply]) (erule analyze_group_agree, fact start)
qed

lemma early_item_agree:
  assumes "agree on jobs s s'"
  shows "agree on jobs (early_item eng now la rep s) (early_item (with_llm on roles tau eng) now la rep s')"
proof -
  obtain st out where s: "s = (st, out)" by (cases s)
  obtain st' out' where s': "s' = (st', out')" by (cases s')
  have a: "as_db st' = as_db st" "out' = out" "on \<or> as_jobs st' = jobs"
    using assms by (simp_all add: agree_def s s')
  let ?x = "decide_item eng now (launch_args la 1 ''analyze_item_early'') rep (singleton_group rep) (as_db st)"
  have ap: "early_applies (with_llm on roles tau eng) d = early_applies eng d" for d
    by (simp add: early_applies_def)
  note w = write_and_enqueue_agree [where st = "st\<lparr>as_db := record_membership (la_project la) [item_id_of rep]
      (snd (snd ?x)) rep (fst ?x)\<rparr>" and st' = "st'\<lparr>as_db := record_membership (la_project la) [item_id_of rep]
      (snd (snd ?x)) rep (fst ?x)\<rparr>" and on = on and jobs = jobs and eng = eng and now = now
      and p = "la_project la" and i = "item_id_of rep" and l = "la_launch_id la" and gid = None
      and source = "Some ''early''" and d = "fst (snd ?x)" and roles = roles and tau = tau]
  show ?thesis using assms a w
    by (auto simp: s s' early_item_def Let_def split_beta ap agree_def label_item_def)
qed


section \<open>Clusters\<close>

lemma and_mask53: "0 \<le> x AND INT53_MASK" "x AND INT53_MASK < 2 ^ 53"
proof -
  have "x AND INT53_MASK = x mod 2 ^ 53"
    using take_bit_eq_mask [of 53 x] by (simp add: INT53_MASK_def mask_eq_exp_minus_1 take_bit_eq_mod)
  then show "0 \<le> x AND INT53_MASK" "x AND INT53_MASK < 2 ^ 53" by simp_all
qed

lemma map_filter_all:
  assumes "\<forall>x \<in> set xs. f x \<noteq> None"
  shows "List.map_filter f xs = map (the \<circ> f) xs"
  using assms by (induction xs) (auto simp: List.map_filter_def)

text \<open>
  Clusters cover the launch. The \<open>cluster\<close> reply puts every item of the launch into exactly one
  cluster, every cluster carries the logs of its items, every cluster id is a non-negative integer
  below 2^53, so it survives a Java long and a JavaScript number, and without \<open>forUpdate\<close> it is a
  function of the project and the error hash alone.
\<close>

theorem clusters_cover_launch:
  "let cs = cluster eng mst p la for_update db in
     mset (concat (map ci_item_ids cs)) = mset (map wi_test_item_id (la_test_items la))
     \<and> list_all (\<lambda>c. ci_item_ids c \<noteq> [] \<and> 0 \<le> ci_cluster_id c \<and> ci_cluster_id c < 2 ^ 53) cs
     \<and> cluster_id xxh p l h False = cluster_id xxh p l' h False"
proof -
  define as where "as = build_item_analyses (ae_pipeline eng) mst p (map (\<lambda>i. (la, i)) (la_test_items la))"
  define gs where "gs = group_analyses eng p (la_launch_id la) as db"
  have ids: "map item_id_of as = map wi_test_item_id (la_test_items la)"
    unfolding as_def by (rule launch_items)
  let ?f = "cluster_of eng p la for_update (by_id as)"
  have f: "\<exists>c. ?f g = Some c \<and> ci_item_ids c = map gi_item_id (lg_members g) \<and> ci_item_ids c \<noteq> []
      \<and> 0 \<le> ci_cluster_id c \<and> ci_cluster_id c < 2 ^ 53" if g: "g \<in> set gs" for g
  proof -
    note n = group_analyses_facts [OF g [unfolded gs_def]]
    obtain r where r: "r \<in> set (lg_members g)" "lg_representative g = Some r" using n(1) by blast
    then obtain a where "by_id as (gi_item_id r) = Some a" using n(2) by blast
    then show ?thesis using r and_mask53 by (auto simp: cluster_of_def cluster_id_def)
  qed
  have cs: "cluster eng mst p la for_update db = map (the \<circ> ?f) gs"
    unfolding cluster_def Let_def as_def [symmetric] gs_def [symmetric]
    by (rule map_filter_all) (use f in fastforce)
  have "map ci_item_ids (map (the \<circ> ?f) gs) = map (\<lambda>g. map gi_item_id (lg_members g)) gs"
    using f by fastforce
  from arg_cong [OF this, of concat]
  have "concat (map ci_item_ids (map (the \<circ> ?f) gs)) = map gi_item_id (concat (map lg_members gs))"
    unfolding map_concat by (simp only: map_map comp_def)
  then have "mset (concat (map ci_item_ids (map (the \<circ> ?f) gs))) = mset (map wi_test_item_id (la_test_items la))"
    using group_analyses_ids [of eng p "la_launch_id la" as db] ids unfolding gs_def by metis
  moreover have "list_all (\<lambda>c. ci_item_ids c \<noteq> [] \<and> 0 \<le> ci_cluster_id c \<and> ci_cluster_id c < 2 ^ 53)
      (map (the \<circ> ?f) gs)"
    unfolding list_all_iff using f by fastforce
  moreover have "cluster_id xxh p l h False = cluster_id xxh p l' h False"
    by (simp add: cluster_id_def cluster_key_def)
  ultimately show ?thesis unfolding Let_def cs by blast
qed

section \<open>A concrete engine\<close>

definition demo_engine :: "nat engine" where
  "demo_engine = \<lparr>ae_pipeline = demo_pipeline, ae_vdist = (\<lambda>_ _. 1), ae_hybrid = (\<lambda>_ _ _ _. []),
     ae_search_ti = (\<lambda>_ _ _ _ _ _. []), ae_seed = None, ae_seed_persists = True,
     ae_emb_model_tag = ''none'',
     ae_predictor = Some (\<lambda>_ _. Some \<lparr>gd_label = ''pb'', gd_max_prob = 9 / 10,
        gd_probs = [''pb'' \<mapsto> 9 / 10], gd_model_version = ''v3''\<rparr>),
     ae_llm_enabled = False, ae_role_enabled = (\<lambda>_. True), ae_extractor_features = None,
     ae_judge_tau = TAU_AUTO, ae_auto_min_prob = TAU_AUTO, ae_suggest_max = 3,
     ae_burst_si_share = BURST_X, ae_time_decay = TIME_DECAY_PER_DAY,
     ae_suggest_below_enabled = False, ae_early_item_analysis = True,
     ae_early_label_policy = ''kb_inherit_and_pb'', ae_early_gbm_pb_min = 85 / 100,
     ae_suggest_below_max = 2\<rparr>"

definition demo_launch :: "int list \<Rightarrow> launch" where
  "demo_launch ids = \<lparr>la_launch_id = 5, la_project = 1, la_launch_name = ''nightly'',
     la_launch_number = 3, la_previous_launch_id = 0, la_analyzer_config = default_conf,
     la_test_items = map (\<lambda>i. \<lparr>wi_test_item_id = i, wi_is_auto_analyzed = False, wi_unique_id = [],
        wi_issue_type = ''ti001'', wi_start_time = [], wi_test_case_hash = 0,
        wi_test_item_name = ''login'',
        wi_logs = [\<lparr>wl_log_id = 70 + i, wl_log_level = 40000, wl_log_time = [],
                    wl_message = ''boom''\<rparr>]\<rparr>) ids,
     la_launch_items_count = 2\<rparr>"

definition demo_state :: an_state where
  "demo_state = \<lparr>as_db = empty_db, as_jobs = []\<rparr>"

lemma demo_log_single:
  assumes "mset (map (su_item_id \<circ> fst) lg) = mset (map wi_test_item_id (la_test_items (demo_launch [7])))"
  shows "\<exists>e. lg = [e] \<and> su_item_id (fst e) = 7"
proof -
  from assms have "mset (map (su_item_id \<circ> fst) lg) = {#7#}" by (simp add: demo_launch_def)
  then have "map (su_item_id \<circ> fst) lg = [7]" by (simp del: mset_map add: mset_single_iff)
  then show ?thesis by (cases lg) auto
qed

theorem analyze_one_row_per_item_witness:
  "\<exists>r. db_suggestions (as_db (fst (analyze_launch demo_engine Map.empty 0 (demo_launch [7]) demo_state)))
         = [r]
     \<and> su_item_id r = 7 \<and> su_project_id r = 1 \<and> su_launch_id r = 5"
proof -
  obtain lg where lg: "effect lg (demo_state, [])
        (analyze_launch demo_engine Map.empty 0 (demo_launch [7]) demo_state)"
      "mset (map (su_item_id \<circ> fst) lg) = mset (map wi_test_item_id (la_test_items (demo_launch [7])))"
      "\<forall>e \<in> set lg. su_project_id (fst e) = la_project (demo_launch [7])
          \<and> su_launch_id (fst e) = la_launch_id (demo_launch [7]) \<and> answer_of_row e"
    using analyze_one_row_per_item by blast
  obtain e where e: "lg = [e]" "su_item_id (fst e) = 7" using demo_log_single [OF lg(2)] by blast
  then show ?thesis using lg(1,3)
    by (simp add: effect_def demo_state_def empty_db_def demo_launch_def)
qed

theorem analyze_fanout_identity_witness:
  "\<exists>c e g. c = fst (launch_ctx_of demo_engine Map.empty (demo_launch [7]) (as_db demo_state))
     \<and> effect [e] (demo_state, []) (analyze_launch demo_engine Map.empty 0 (demo_launch [7]) demo_state)
     \<and> su_item_id (fst e) = 7 \<and> decided_on demo_engine 0 c (as_db demo_state) g e"
proof -
  obtain c groups where cg: "launch_ctx_of demo_engine Map.empty (demo_launch [7]) (as_db demo_state)
      = (c, groups)" by fastforce
  obtain lg where lg: "effect lg (demo_state, [])
        (analyze_launch demo_engine Map.empty 0 (demo_launch [7]) demo_state)"
      "mset (map (su_item_id \<circ> fst) lg) = mset (map wi_test_item_id (la_test_items (demo_launch [7])))"
      "\<forall>e \<in> set lg. \<exists>g \<in> set groups. decided_on demo_engine 0 c (as_db demo_state) g e"
    using analyze_fanout_identity [OF cg] by blast
  obtain e where e: "lg = [e]" "su_item_id (fst e) = 7" using demo_log_single [OF lg(2)] by blast
  then obtain g where "decided_on demo_engine 0 c (as_db demo_state) g e" using lg(3) by auto
  then show ?thesis using lg(1) cg e by (intro exI [of _ c] exI [of _ e] exI [of _ g]) simp
qed


end
