(* ===== verification/SuggestSpec.thy ===== *)
theory SuggestSpec
  imports Suggest AnalysisSpec
begin

text \<open>
  The \<open>suggest\<close> reply: the evidence it is built from, the rows it may hold, the judge's promotion
  and the rubric hypothesis; and that the route labels nothing.
\<close>

section \<open>Stage C\<close>

lemma in_take: "x \<in> set (take n xs) \<Longrightarrow> x \<in> set xs"
  by (rule in_set_takeD)

lemma find_candidates_not_excluded:
  assumes "c \<in> set (find_candidates modes rows q k f)" and "c_item_id c = Some i"
    and "\<forall>m \<in> set modes. c_item_id m = None"
  shows "i \<notin> set (cf_exclude_item_ids f)"
proof -
  have "c \<in> set modes \<union> set (stage_b rows q f)" using assms(1) by (auto simp: find_candidates_def dest: in_take)
  then have "c \<in> set (stage_b rows q f)" using assms(2,3) by auto
  then show ?thesis using assms(2)
    by (auto simp: stage_b_def passes_filters_def row_to_candidate_def candidate_default_def)
qed

lemma match_modes_no_item: "m \<in> set (match_modes vdist db p q k) \<Longrightarrow> c_item_id m = None"
  by (auto simp: match_modes_def mode_candidate_def candidate_default_def)

text \<open>
  Stage C evidence is bounded, ranked and in scope. At most 20 candidates reach a decision, in
  descending order of boosted score and then item id; each is a labelled, non-ti history item other
  than the item itself; and on the two routes that may label, each passed the project's hard
  scope filter. Every candidate comes with an age, never negative.
\<close>

theorem stage_c_scoped:
  assumes "stage_c eng now route analyzer_mode sq p q self db = (cs, ages)"
  shows "length cs \<le> TOP_K \<and> length ages = length cs \<and> (\<forall>a \<in> set ages. 0 \<le> a)
    \<and> (\<exists>names. sorted_wrt (\<lambda>x y. stage_c_key route analyzer_mode sq names y
                                   \<le> stage_c_key route analyzer_mode sq names x) cs
       \<and> (\<forall>c \<in> set cs. c_item_id c \<notin> {None, Some self} \<and> passes_base (candidate_scope names c)
            \<and> (route \<in> {''analyze'', ''analyze_item_early''}
                 \<longrightarrow> in_analyze_scope (Some analyzer_mode) sq (candidate_scope names c))))"
proof -
  define cands where "cands = find_candidates (match_modes (ae_vdist eng) db p q 10)
      (ae_hybrid eng db p q STAGE_C_RETRIEVE_K) q STAGE_C_RETRIEVE_K
      (no_filters\<lparr>cf_exclude_item_ids := [self]\<rparr>)"
  define names where "names = item_launch_names db p
      (List.map_filter c_item_id (filter (\<lambda>c. c_item_id c \<noteq> None) cands))"
  define scoped where "scoped = filter (\<lambda>c. in_route_scope route analyzer_mode sq (candidate_scope names c))
      (filter (\<lambda>c. c_item_id c \<noteq> None) cands)"
  have cs: "cs = take TOP_K (order_desc (stage_c_key route analyzer_mode sq names) scoped)"
    and ages: "ages = map (\<lambda>c. age_days_unknown (c_label_ts c) now) cs"
    using assms by (auto simp: stage_c_def Let_def cands_def names_def scoped_def)
  have base: "in_analyze_scope m sq s \<Longrightarrow> passes_base s" for m s
    by (auto simp: in_analyze_scope_def split: if_splits)
  have c: "c_item_id c \<notin> {None, Some self} \<and> passes_base (candidate_scope names c)
      \<and> (route \<in> {''analyze'', ''analyze_item_early''}
           \<longrightarrow> in_analyze_scope (Some analyzer_mode) sq (candidate_scope names c))" if "c \<in> set cs" for c
  proof -
    have s: "c \<in> set scoped" using that by (auto simp: cs dest: in_take)
    then have "c_item_id c \<noteq> None" "c \<in> set cands" by (auto simp: scoped_def)
    moreover have "c_item_id c \<noteq> Some self"
    proof
      assume "c_item_id c = Some self"
      from find_candidates_not_excluded [OF \<open>c \<in> set cands\<close> [unfolded cands_def] this]
        match_modes_no_item show False by (force simp: no_filters_def)
    qed
    moreover have r: "in_route_scope route analyzer_mode sq (candidate_scope names c)"
      using s by (simp add: scoped_def)
    ultimately show ?thesis using base
      by (auto simp: in_route_scope_def ANALYZE_SCOPED_ROUTES_def split: if_splits)
  qed
  have "sorted_wrt (\<lambda>x y. stage_c_key route analyzer_mode sq names y
      \<le> stage_c_key route analyzer_mode sq names x) cs"
    unfolding cs by (rule sorted_wrt_take) (rule sorted_order_desc)
  moreover have "length cs \<le> TOP_K" "length ages = length cs" "\<forall>a \<in> set ages. 0 \<le> a"
    by (auto simp: cs ages age_days_unknown_def split: option.splits)
  ultimately show ?thesis using c by blast
qed

section \<open>The candidates of a reply\<close>

lemma add_neighbour_distinct:
  "distinct (map sd_item res) \<Longrightarrow> distinct (map sd_item (add_neighbour c res))"
  by (auto simp: add_neighbour_def split: option.splits)

lemma fold_neighbours_distinct:
  "distinct (map sd_item res) \<Longrightarrow> distinct (map sd_item (fold add_neighbour cs res))"
  by (induction cs arbitrary: res) (simp_all add: add_neighbour_distinct)

lemma candidates_distinct: "distinct (map sd_item (suggestion_candidates d cs))"
  unfolding suggestion_candidates_def
  by (rule fold_neighbours_distinct) (simp add: own_answer_def split: option.split)

lemma index_of_Some:
  "index_of i cs = Some k \<Longrightarrow> k < length cs \<and> sd_item (cs ! k) = i \<and> (\<forall>j < k. sd_item (cs ! j) \<noteq> i)"
proof (induction cs arbitrary: k)
  case Nil
  then show ?case by simp
next
  case (Cons c cs)
  show ?case
  proof (cases "sd_item c = i")
    case True
    then show ?thesis using Cons.prems by simp
  next
    case False
    then obtain k' where k': "index_of i cs = Some k'" "k = Suc k'" using Cons.prems by auto
    show ?thesis using Cons.IH [OF k'(1)] k'(2) False by (auto simp: less_Suc_eq_0_disj nth_Cons')
  qed
qed

lemma index_of_None: "index_of i cs = None \<longleftrightarrow> i \<notin> sd_item ` set cs"
  by (induction cs) auto

lemma mset_promote:
  assumes "k < length cs"
  shows "mset (cs ! k # take k cs @ drop (Suc k) cs) = mset cs"
  using id_take_nth_drop [OF assms] by (metis add_mset_add_single mset.simps(2) mset_append union_mset_add_mset_right)

lemma reorder_mset: "mset (reorder_for_judge cs verdict is_auto) = mset cs"
proof -
  have "mset (cs ! Suc k # take (Suc k) cs @ drop (Suc (Suc k)) cs) = mset cs"
    if "index_of c cs = Some (Suc k)" for c k
    using index_of_Some [OF that] by (intro mset_promote) simp
  then show ?thesis
    by (auto simp: reorder_for_judge_def split: option.splits nat.splits)
qed


section \<open>Rounding\<close>

lemma round_half_even_mono: "x \<le> y \<Longrightarrow> round_half_even x \<le> round_half_even y"
proof -
  assume le: "x \<le> y"
  have f: "floor x \<le> floor y" using le by (rule floor_mono)
  have fx: "of_int (floor x) \<le> x" "x < of_int (floor x) + 1" by linarith+
  have fy: "of_int (floor y) \<le> y" "y < of_int (floor y) + 1" by linarith+
  show ?thesis
  proof (cases "floor x = floor y")
    case True
    then show ?thesis using le by (auto simp: round_half_even_def Let_def)
  next
    case False
    then have "floor x + 1 \<le> floor y" using f by simp
    moreover have "round_half_even x \<le> floor x + 1" "floor y \<le> round_half_even y"
      by (auto simp: round_half_even_def Let_def)
    ultimately show ?thesis by simp
  qed
qed

lemma round_half_even_int [simp]: "round_half_even (of_int k) = k"
  by (simp add: round_half_even_def)

lemma py_round_mono: "x \<le> y \<Longrightarrow> py_round n x \<le> py_round n y"
  by (simp add: py_round_def divide_right_mono round_half_even_mono)

lemma py_round_exact: "x * 10 ^ n = of_int k \<Longrightarrow> py_round n x = x"
  by (simp add: py_round_def field_simps)

section \<open>The rows of a reply\<close>

definition row_ok :: "'m engine \<Rightarrow> suggest_result \<Rightarrow> bool" where
  "row_ok eng r \<longleftrightarrow> floor_score eng * 100 \<le> sg_match_score r \<and> sg_match_score r \<le> 100"

lemma floor_score_cases: "floor_score eng = 45 / 100 \<or> floor_score eng = 30 / 100"
  by (simp add: floor_score_def TAU_SUGGEST_def SUGGEST_BELOW_FLOOR_def)

lemma score_row_ok:
  assumes "floor_score eng \<le> score1 c"
  shows "floor_score eng * 100 \<le> py_round 2 (score1 c * 100) \<and> py_round 2 (score1 c * 100) \<le> 100"
proof -
  have "py_round 2 (floor_score eng * 100) = floor_score eng * 100"
    using floor_score_cases [of eng]
    by (auto intro: py_round_exact [where k = 4500] py_round_exact [where k = 3000])
  moreover have "py_round 2 100 = 100" by (rule py_round_exact [where k = 10000]) simp
  moreover have "score1 c \<le> 1" by (simp add: score1_def)
  ultimately show ?thesis
    using py_round_mono [of "floor_score eng * 100" "score1 c * 100" 2]
      py_round_mono [of "score1 c * 100" 100 2] assms by simp
qed

lemma declined_row_cases:
  obtains "declined_row d shown = []"
    | c :: candidate and i t where "SUGGEST_BELOW_FLOOR \<le> dr_confidence d" "dr_confidence d < TAU_SUGGEST"
        "c_item_id c = Some i" "i \<notin> sd_item ` set shown"
        "declined_row d shown = [\<lparr>sd_label = t, sd_item = i, sd_score = dr_confidence d,
           sd_es = c_rrf_score c, sd_prov = provenance (c_label_source c) False\<rparr>]"
proof (cases "declined_row d shown")
  case Nil
  then show ?thesis by (rule that(1))
next
  case (Cons x xs)
  define P where "P = (\<lambda>(grp :: string) (c :: candidate). case (c_item_id c, nonempty_str (c_issue_type c)) of
      (Some i, Some t) \<Rightarrow> i \<notin> sd_item ` set shown \<and> base_group (Some t) = Some grp
    | _ \<Rightarrow> False)"
  have on: "dr_abstain_reason d = Some ''gbm_below_suggest''" "SUGGEST_BELOW_FLOOR \<le> dr_confidence d"
    "dr_confidence d < TAU_SUGGEST"
    using Cons by (auto simp: declined_row_def split: if_splits)
  obtain grp pr where pm: "py_max snd (dr_probs d) = Some (grp, pr)"
    using Cons on by (cases "py_max snd (dr_probs d)") (auto simp: declined_row_def)
  obtain c where c: "List.find (P grp) (dr_stage_c d) = Some c"
    using Cons on pm by (cases "List.find (P grp) (dr_stage_c d)")
      (simp_all add: declined_row_def P_def [abs_def])
  then have "P grp c" by (auto simp: find_Some_iff)
  then obtain i t where it: "c_item_id c = Some i" "i \<notin> sd_item ` set shown"
    by (auto simp: P_def split: option.splits)
  have "declined_row d shown = [\<lparr>sd_label = the (c_issue_type c), sd_item = i,
      sd_score = dr_confidence d, sd_es = c_rrf_score c, sd_prov = provenance (c_label_source c) False\<rparr>]"
    using on pm c it by (simp add: declined_row_def P_def [abs_def])
  then show ?thesis using on it by (intro that(2) [where c = c and i = i])
qed

lemma declined_row_facts:
  assumes "c \<in> set (declined_row d shown)"
  shows "sd_item c \<notin> sd_item ` set shown \<and> sd_score c = dr_confidence d
     \<and> SUGGEST_BELOW_FLOOR \<le> dr_confidence d \<and> dr_confidence d < TAU_SUGGEST"
proof (cases rule: declined_row_cases [of d shown])
  case 1
  with assms show ?thesis by simp
next
  case (2 x i t)
  show ?thesis using assms 2(1,2,4) unfolding 2(5) by simp
qed

lemma declined_row_length: "length (declined_row d shown) \<le> 1"
proof (cases rule: declined_row_cases [of d shown])
  case 1
  then show ?thesis by simp
next
  case (2 x i t)
  show ?thesis unfolding 2(5) by simp
qed

lemma distinct_take_map: "distinct (map f xs) \<Longrightarrow> distinct (map f (take n xs))"
  using distinct_take [of "map f xs" n] by (simp add: take_map)

lemma select_rows_facts:
  assumes "select_rows eng d verdict = (rs, bs)"
  shows "distinct (map sd_item (rs @ bs))" and "\<forall>c \<in> set (rs @ bs). floor_score eng \<le> score1 c"
    and "\<forall>c \<in> set rs. TAU_SUGGEST \<le> score1 c" and "\<forall>c \<in> set bs. score1 c < TAU_SUGGEST"
    and "length rs \<le> ae_suggest_max eng" and "length bs \<le> below_cap eng"
    and "dr_label d = ''ti'' \<Longrightarrow> bs \<noteq> [] \<Longrightarrow> length rs \<le> ae_suggest_max eng - length bs"
    and "\<not> ae_suggest_below_enabled eng \<Longrightarrow> bs = []"
proof -
  define fl where "fl = floor_score eng"
  define cands where "cands = filter (\<lambda>c. score1 c \<ge> fl) (suggestion_candidates d (dr_stage_c d))"
  define cs where "cs = reorder_for_judge cands verdict (dr_action d = ACTION_AUTO)"
  define ra where "ra = filter (\<lambda>c. score1 c \<ge> TAU_SUGGEST) cs"
  define r1 where "r1 = take (ae_suggest_max eng) ra"
  define b0 where "b0 = (if ae_suggest_below_enabled eng then filter (\<lambda>c. score1 c < TAU_SUGGEST) cs else [])"
  define b1 where "b1 = b0 @ (if ae_suggest_below_enabled eng then declined_row d (r1 @ b0) else [])"
  define b2 where "b2 = take (below_cap eng) b1"
  define r2 where "r2 = (if b2 \<noteq> [] \<and> dr_label d = ''ti'' then take (ae_suggest_max eng - length b2) ra else r1)"
  have sel: "(rs, bs) = (if proxy_score d < fl \<or> cands = [] then ([], []) else (r2, b2))"
    unfolding assms [symmetric] select_rows_def Let_def r2_def b2_def b1_def b0_def r1_def ra_def
      cs_def cands_def fl_def ..
  have perm: "mset cs = mset cands" by (simp add: cs_def reorder_mset)
  then have setcs: "set cs = set cands" by (metis set_mset_mset)
  have dcs: "distinct (map sd_item cs)"
  proof -
    have "distinct (map sd_item cands)"
      unfolding cands_def using candidates_distinct by (rule distinct_map_filter)
    moreover have "mset (map sd_item cs) = mset (map sd_item cands)" using perm by simp
    ultimately show ?thesis by (metis mset_eq_imp_distinct_iff)
  qed
  have inj: "x = y" if "x \<in> set cs" "y \<in> set cs" "sd_item x = sd_item y" for x y
    using dcs that by (simp add: distinct_map inj_on_def)
  have r2sub: "set r2 \<subseteq> set r1"
    using set_take_subset_set_take [of "ae_suggest_max eng - length b2" "ae_suggest_max eng" ra]
    by (auto simp: r2_def r1_def)
  have r1ra: "set r1 \<subseteq> set ra" unfolding r1_def by (rule set_take_subset)
  have dr2: "distinct (map sd_item r2)"
    unfolding r2_def r1_def ra_def using distinct_map_filter [OF dcs] by (auto intro: distinct_take_map)
  have db0: "distinct (map sd_item b0)" unfolding b0_def using distinct_map_filter [OF dcs] by simp
  have db1: "distinct (map sd_item b1)"
  proof -
    have one: "distinct (map sd_item (declined_row d (r1 @ b0)))"
      using declined_row_length [of d "r1 @ b0"] by (cases "declined_row d (r1 @ b0)") auto
    have "sd_item y \<notin> sd_item ` set b0" if "y \<in> set (declined_row d (r1 @ b0))" for y
      using declined_row_facts [OF that] by auto
    then have "sd_item ` set b0 \<inter> sd_item ` set (declined_row d (r1 @ b0)) = {}"
      unfolding disjoint_iff by (metis imageE)
    then show ?thesis unfolding b1_def map_append using one db0
      by (cases "ae_suggest_below_enabled eng") simp_all
  qed
  have disj: "sd_item x \<noteq> sd_item y" if x: "x \<in> set r1" and y: "y \<in> set b1" for x y
  proof (cases "y \<in> set b0")
    case True
    then have "x \<in> set cs" "y \<in> set cs" "score1 x \<ge> TAU_SUGGEST" "score1 y < TAU_SUGGEST"
      using x r1ra by (auto simp: ra_def b0_def split: if_splits)
    then show ?thesis using inj by force
  next
    case False
    then have "y \<in> set (declined_row d (r1 @ b0))" using y by (auto simp: b1_def split: if_splits)
    then have "sd_item y \<notin> sd_item ` set (r1 @ b0)" using declined_row_facts by blast
    then show ?thesis using x by (metis Un_iff image_eqI set_append)
  qed
  have b2b1: "set b2 \<subseteq> set b1" unfolding b2_def by (rule set_take_subset)
  have "distinct (map sd_item (r2 @ b2))"
    using dr2 distinct_take_map [OF db1, of "below_cap eng"] disj r2sub b2b1 by (fastforce simp: b2_def)
  then have dist: "distinct (map sd_item (r2 @ b2))" .
  have fl_tau: "fl \<le> TAU_SUGGEST"
    by (simp add: fl_def floor_score_def TAU_SUGGEST_def SUGGEST_BELOW_FLOOR_def)
  have decl: "SUGGEST_BELOW_FLOOR \<le> score1 y \<and> score1 y < TAU_SUGGEST"
    if "y \<in> set (declined_row d (r1 @ b0))" for y
    using declined_row_facts [OF that] by (simp add: score1_def TAU_SUGGEST_def SUGGEST_BELOW_FLOOR_def)
  have low: "fl \<le> score1 y \<and> score1 y < TAU_SUGGEST" if y: "y \<in> set b1" for y
  proof (cases "y \<in> set b0")
    case True
    then have "y \<in> set cs" "score1 y < TAU_SUGGEST" by (simp_all add: b0_def split: if_splits)
    then show ?thesis using setcs by (simp add: cands_def)
  next
    case False
    then have "ae_suggest_below_enabled eng" "y \<in> set (declined_row d (r1 @ b0))"
      using y by (simp_all add: b1_def split: if_splits)
    then show ?thesis using decl by (simp add: fl_def floor_score_def)
  qed
  have low2: "fl \<le> score1 y \<and> score1 y < TAU_SUGGEST" if "y \<in> set b2" for y
    using low b2b1 that by blast
  have high: "TAU_SUGGEST \<le> score1 y" if "y \<in> set r2" for y
  proof -
    have "y \<in> set ra" using that r2sub r1ra by blast
    then show ?thesis by (simp add: ra_def)
  qed
  have high2: "fl \<le> score1 y" if "y \<in> set r2" for y using high [OF that] fl_tau by simp
  have lr: "length r2 \<le> ae_suggest_max eng" by (auto simp: r2_def r1_def)
  have lb: "length b2 \<le> below_cap eng" by (simp add: b2_def)
  have ti: "length r2 \<le> ae_suggest_max eng - length b2" if "dr_label d = ''ti''" "b2 \<noteq> []"
    using that by (simp add: r2_def)
  have off: "b2 = []" if "\<not> ae_suggest_below_enabled eng"
    using that by (simp add: b2_def b1_def b0_def)
  consider (none) "rs = []" "bs = []" | (some) "rs = r2" "bs = b2" using sel by (auto split: if_splits)
  then have "distinct (map sd_item (rs @ bs)) \<and> (\<forall>y \<in> set (rs @ bs). floor_score eng \<le> score1 y)
      \<and> (\<forall>y \<in> set rs. TAU_SUGGEST \<le> score1 y) \<and> (\<forall>y \<in> set bs. score1 y < TAU_SUGGEST)
      \<and> length rs \<le> ae_suggest_max eng \<and> length bs \<le> below_cap eng
      \<and> (dr_label d = ''ti'' \<longrightarrow> bs \<noteq> [] \<longrightarrow> length rs \<le> ae_suggest_max eng - length bs)
      \<and> (\<not> ae_suggest_below_enabled eng \<longrightarrow> bs = [])"
  proof cases
    case none
    then show ?thesis by simp
  next
    case some
    have "\<forall>y \<in> set (r2 @ b2). floor_score eng \<le> score1 y"
      using low2 high2 unfolding fl_def [symmetric] set_append by blast
    then show ?thesis unfolding some using dist low2 high lr lb ti off by blast
  qed
  then show "distinct (map sd_item (rs @ bs))" and "\<forall>c \<in> set (rs @ bs). floor_score eng \<le> score1 c"
    and "\<forall>c \<in> set rs. TAU_SUGGEST \<le> score1 c" and "\<forall>c \<in> set bs. score1 c < TAU_SUGGEST"
    and "length rs \<le> ae_suggest_max eng" and "length bs \<le> below_cap eng"
    and "dr_label d = ''ti'' \<Longrightarrow> bs \<noteq> [] \<Longrightarrow> length rs \<le> ae_suggest_max eng - length bs"
    and "\<not> ae_suggest_below_enabled eng \<Longrightarrow> bs = []"
    by blast+
qed

lemma below_cap_le: "below_cap eng \<le> 3"
  by (simp add: below_cap_def SUGGEST_BELOW_MAX_CAP_def)


definition demo_row :: "int \<Rightarrow> string \<Rightarrow> stage_b_row" where
  "demo_row i t = \<lparr>sb_item_id = i, sb_sparse_rank = Some 1, sb_dense_rank = None, sb_lex_score = None,
     sb_cosine = Some (9 / 10), sb_rrf_score = 1 / 60, sb_jaccard = 0, sb_error_hash = 4,
     sb_exception_fp = 0, sb_issue_type = Some t, sb_test_case_hash = None, sb_launch_id = Some 4,
     sb_launch_number = Some 2, sb_label_source = None, sb_label_ts = None, sb_mode_id = None,
     sb_msg_text = None, sb_exc_text = None, sb_error_log_id = None\<rparr>"

definition demo_query :: query_signature where
  "demo_query = \<lparr>q_exception_fp = 0, q_error_hash = 4, q_top_frames = [], q_template_ids = [],
     q_salient_terms = [], q_exception_names = [], q_emb = None, q_emb_model_ver = 0,
     q_test_case_hash = None, q_launch_id = Some 5, q_launch_number = Some 3\<rparr>"

definition demo_hybrid_engine :: "nat engine" where
  "demo_hybrid_engine = demo_engine
     \<lparr>ae_hybrid := (\<lambda>_ _ _ _. [demo_row 7 ''pb001'', demo_row 3 ''ti001'', demo_row 2 ''pb001''])\<rparr>"

lemma demo_cands:
  "find_candidates [] [demo_row 7 ''pb001'', demo_row 3 ''ti001'', demo_row 2 ''pb001''] q 60
     (no_filters\<lparr>cf_exclude_item_ids := [7]\<rparr>)
   = [row_to_candidate q (demo_row 3 ''ti001''), row_to_candidate q (demo_row 2 ''pb001'')]"
  by (simp add: find_candidates_def stage_b_def passes_filters_def no_filters_def demo_row_def)

lemma demo_row_candidate:
  "c_item_id (row_to_candidate q (demo_row i t)) = Some i"
  "c_issue_type (row_to_candidate q (demo_row i t)) = Some t"
  by (simp_all add: row_to_candidate_def demo_row_def candidate_default_def)

lemma demo_base:
  "passes_base (candidate_scope names (row_to_candidate q (demo_row i ''pb001'')))"
  "\<not> passes_base (candidate_scope names (row_to_candidate q (demo_row i ''ti001'')))"
  by (simp_all add: passes_base_def candidate_scope_def demo_row_candidate is_alpha_def is_lower_def
      is_upper_def)

lemma demo_stage_c:
  "fst (stage_c demo_hybrid_engine 0 ''suggest'' ''ALL'' demo_scope_query 1 demo_query 7 empty_db)
     = [row_to_candidate demo_query (demo_row 2 ''pb001'')]"
proof -
  have modes: "match_modes v empty_db 1 q 10 = []" for v q by (simp add: match_modes_def empty_db_def)
  have hyb: "ae_hybrid demo_hybrid_engine db p q k
      = [demo_row 7 ''pb001'', demo_row 3 ''ti001'', demo_row 2 ''pb001'']" for db p q k
    by (simp add: demo_hybrid_engine_def)
  show ?thesis
    unfolding stage_c_def Let_def fst_conv modes hyb STAGE_C_RETRIEVE_K_def demo_cands
    by (simp add: demo_row_candidate in_route_scope_def ANALYZE_SCOPED_ROUTES_def demo_base
        order_desc_def TOP_K_def)
qed

theorem stage_c_scoped_witness:
  "\<exists>c. fst (stage_c demo_hybrid_engine 0 ''suggest'' ''ALL'' demo_scope_query 1 demo_query 7 empty_db)
     = [c] \<and> c_item_id c = Some 2 \<and> (\<exists>names. passes_base (candidate_scope names c))"
proof -
  let ?x = "stage_c demo_hybrid_engine 0 ''suggest'' ''ALL'' demo_scope_query 1 demo_query 7 empty_db"
  let ?c = "row_to_candidate demo_query (demo_row 2 ''pb001'')"
  have "\<exists>names. \<forall>c \<in> set (fst ?x). passes_base (candidate_scope names c)"
    using stage_c_scoped [of demo_hybrid_engine 0 "''suggest''" "''ALL''" demo_scope_query 1 demo_query
        7 empty_db "fst ?x" "snd ?x"] unfolding prod.collapse by blast
  then have "\<exists>names. passes_base (candidate_scope names ?c)" unfolding demo_stage_c by simp
  then show ?thesis unfolding demo_stage_c by (intro exI [of _ ?c]) (simp add: demo_row_candidate)
qed

section \<open>The rubric hypothesis\<close>

text \<open>
  The rubric row repeats position 0 and overruns the budget. When the classical reply has rows
  but none is vouched for, a persisted rubric hypothesis is appended behind them: the reply then has
  one row more than the classical one - one more than \<open>ANALYZER_SUGGEST_MAX\<close> when the classical rows
  fill it - and two rows claim result position 0.
\<close>

theorem rubric_row_repeats_position:
  assumes "rows = render_suggestions eng info rep d elapsed verdict" and "rows \<noteq> []"
    and "\<not> list_ex vouched rows" and "coldstart_on eng"
    and "latest_rubric_provisional db (ii_project info) (ii_test_item_id info) = Some r"
  shows "rubric_fallback eng rows info rep elapsed db = rows @ [rubric_row info rep elapsed r]
    \<and> sg_result_position (hd rows) = 0
    \<and> sg_result_position (last (rubric_fallback eng rows info rep elapsed db)) = 0
    \<and> \<not> distinct (map sg_result_position (rubric_fallback eng rows info rep elapsed db))"
proof -
  obtain rs bs where "select_rows eng d verdict = (rs, bs)" by fastforce
  then have rows: "rows = map (render_row eng info rep d elapsed (length rs)) (enumerate 0 (rs @ bs))"
    by (simp add: assms(1) render_suggestions_def)
  then obtain c cs where "rs @ bs = c # cs" using assms(2) by (cases "rs @ bs") auto
  then obtain tl where tl: "rows = render_row eng info rep d elapsed (length rs) (0, c) # tl"
    by (simp add: rows)
  then have hd: "sg_result_position (hd rows) = 0" by (simp add: render_row_def)
  have fb: "rubric_fallback eng rows info rep elapsed db = rows @ [rubric_row info rep elapsed r]"
    using assms(3-5) by (simp add: rubric_fallback_def rubric_provisional_suggestions_def)
  have "sg_result_position (rubric_row info rep elapsed r) = 0" by (simp add: rubric_row_def)
  then show ?thesis unfolding fb using hd tl by (simp add: render_row_def)
qed

section \<open>The route\<close>

text \<open>
  Suggesting only remembers. A \<open>suggest\<close> request changes no label and no label event; unless the
  item has no error log it appends exactly one suggestion row, for the item, whatever it answers -
  so a later human label always finds the features the decision saw.
\<close>

theorem suggest_only_remembers:
  "let (st', rows) = suggest eng mst now elapsed info st in
     db_items (as_db st') = db_items (as_db st) \<and> db_events (as_db st') = db_events (as_db st)
     \<and> ((st' = st \<and> rows = [])
        \<or> (\<exists>r. db_suggestions (as_db st') = db_suggestions (as_db st) @ [r]
             \<and> suggestion_of r = (ii_project info, ii_test_item_id info)
             \<and> su_launch_id r = ii_launch_id info \<and> su_source r = None))"
proof -
  let ?p = "ii_project info" and ?i = "ii_test_item_id info" and ?la = "pseudo_launch info"
  define as where "as = build_item_analyses (ae_pipeline eng) mst ?p
      (map (\<lambda>t. (?la, t)) (la_test_items ?la))"
  show ?thesis
  proof (cases "as")
    case Nil
    then show ?thesis by (simp add: suggest_def Let_def as_def [symmetric])
  next
    case (Cons rep rest)
    show ?thesis
    proof (cases "sr_signature_text (an_signature rep) = []")
      case True
      then show ?thesis by (simp add: suggest_def Let_def as_def [symmetric] Cons)
    next
      case False
      obtain db1 d m where di: "decide_item eng now (launch_args ?la 1 ''suggest'') rep
          (singleton_group rep) (as_db st) = (db1, d, m)" using prod_cases3 by blast
      have l1: "learned db1 = learned (as_db st)"
        using decide_item_learned [of eng now "launch_args ?la 1 ''suggest''" rep
            "singleton_group rep" "as_db st"] unfolding di by simp
      define db2 where "db2 = record_membership ?p [?i] m rep db1"
      have l2: "learned db2 = learned (as_db st)" by (simp add: db2_def l1)
      define sug where "sug = suggestion_of_decision eng ?p ?i (ii_launch_id info) None None d"
      obtain db3 sid where ws: "write_suggestion now sug db2 = (db3, sid)" by fastforce
      obtain r where r: "row_of ?p (ii_launch_id info) None ?i d r"
          "db_suggestions db3 = db_suggestions db2 @ [r]"
        using write_suggestion_row [of ?p "ii_launch_id info" None ?i d now eng None db2] ws
        by (auto simp: sug_def)
      have keep: "db_items db3 = db_items db2" "db_events db3 = db_events db2"
        using write_suggestion_items [of now sug db2] ws by simp_all
      have db': "as_db (fst (suggest eng mst now elapsed info st)) = db3"
        using False di [unfolded One_nat_def] ws
        by (simp add: suggest_def Let_def as_def [symmetric] Cons db2_def sug_def split_beta)
      show ?thesis
        using db' r keep learned_fields [OF l2]
        by (auto simp: split_beta row_of_def suggestion_of_def)
    qed
  qed
qed

section \<open>A reply with a rubric row\<close>

definition demo_twin :: candidate where
  "demo_twin = (candidate_default (Some 2) None)
     \<lparr>c_cosine := Some (9 / 10), c_issue_type := Some ''pb001''\<rparr>"

definition demo_abstain :: decision_result where
  "demo_abstain = \<lparr>dr_label = ''ti'', dr_issue_type = ''ti'', dr_confidence = 0,
     dr_method = METHOD_RULE_COLD, dr_action = ACTION_ABSTAIN,
     dr_abstain_reason = Some ''no_confident_rule'', dr_relevant_item_id = None,
     dr_matched_mode_id = None, dr_features = Map.empty, dr_feature_schema_ver = 6, dr_probs = [],
     dr_model_version = None, dr_stage_c = [demo_twin], dr_relevant_label_source = None,
     dr_relevant_is_auto_analyzed = False, dr_calibrated_max_prob = None\<rparr>"

definition demo_info :: item_info where
  "demo_info = \<lparr>ii_test_item_id = 7, ii_unique_id = [], ii_test_case_hash = 0, ii_cluster_id = 0,
     ii_launch_id = 5, ii_launch_name = ''nightly'', ii_launch_number = 3, ii_previous_launch_id = 0,
     ii_test_item_name = ''login'', ii_project = 1, ii_analyzer_config = default_conf, ii_logs = []\<rparr>"

definition demo_rubric_db :: db where
  "demo_rubric_db = set_explanation 1 1 ''ui timeout''
     (fst (insert_coldstart 0 1 7 5 ''si001'' (65 / 100) ''rubric+m'' ''ui'' empty_db))"

definition demo_llm_engine :: "nat engine" where
  "demo_llm_engine = demo_engine\<lparr>ae_llm_enabled := True\<rparr>"

definition demo_analysis :: item_analysis where
  "demo_analysis = \<lparr>an_launch = demo_launch [], an_item = hd (la_test_items (demo_launch [7])),
     an_signature = empty_signature, an_emb = None, an_emb_model_ver = 0, an_log_count = 1,
     an_start_time = None, an_clean_msg = ''boom''\<rparr>"

definition demo_cand :: sugg_cand where
  "demo_cand = \<lparr>sd_label = ''pb001'', sd_item = 2, sd_score = 9 / 10, sd_es = 0,
     sd_prov = ''unlabeled''\<rparr>"

lemma demo_select: "select_rows demo_llm_engine demo_abstain None = ([demo_cand], [])"
  by (simp add: select_rows_def Let_def suggestion_candidates_def own_answer_def demo_abstain_def
      demo_twin_def candidate_default_def add_neighbour_def demo_cand_def capped_cosine_def cos_of_def
      provenance_def floor_score_def demo_llm_engine_def demo_engine_def score1_def proxy_score_def
      TAU_SUGGEST_def SUGGEST_BELOW_FLOOR_def reorder_for_judge_def)

lemma demo_unvouched:
  "\<not> vouched (render_row demo_llm_engine demo_info rep demo_abstain 0 1 (0, demo_cand))"
proof -
  have "row_provenance (render_row demo_llm_engine demo_info rep demo_abstain 0 1 (0, demo_cand))
      = ''unlabeled''"
    by (simp add: row_provenance_def render_row_def model_info_def demo_abstain_def
        demo_llm_engine_def demo_engine_def src_at_def starts_with_def band_text_def row_band_def
        demo_cand_def score1_def TAU_SUGGEST_def row_extra_def Let_def base_group_def
        calibrated_label_prob_def is_alpha_def is_lower_def is_upper_def lower_str_def
        lower_char_def BASE_LABELS_def)
  then show ?thesis by (simp add: vouched_def)
qed

theorem rubric_row_repeats_position_witness:
  "\<exists>rows. rows = render_suggestions demo_llm_engine demo_info demo_analysis demo_abstain 0 None \<and> length rows = 1
     \<and> length (rubric_fallback demo_llm_engine rows demo_info demo_analysis 0 demo_rubric_db) = 2
     \<and> \<not> distinct (map sg_result_position
           (rubric_fallback demo_llm_engine rows demo_info demo_analysis 0 demo_rubric_db))"
proof -
  define rows where "rows = render_suggestions demo_llm_engine demo_info demo_analysis demo_abstain 0 None"
  have rows: "rows = [render_row demo_llm_engine demo_info demo_analysis demo_abstain 0 1 (0, demo_cand)]"
    by (simp add: rows_def render_suggestions_def demo_select)
  have on: "coldstart_on demo_llm_engine"
    by (simp add: coldstart_on_def demo_llm_engine_def demo_engine_def)
  obtain r where r: "latest_rubric_provisional demo_rubric_db (ii_project demo_info)
      (ii_test_item_id demo_info) = Some r"
    by (simp add: latest_rubric_provisional_def newest_def demo_rubric_db_def set_explanation_def
        insert_coldstart_def empty_db_def demo_info_def Let_def suggestion_of_def is_rubric_ver_def
        starts_with_def py_max_def strip_def lstrip_by_def rstrip_by_def is_space_def)
  have "rows \<noteq> []" "\<not> list_ex vouched rows" using demo_unvouched by (simp_all add: rows)
  from rubric_row_repeats_position [OF rows_def this on r]
  show ?thesis using rows unfolding rows_def [symmetric] by (intro exI [of _ rows]) (simp add: rubric_row_def)
qed

end
