(* ===== verification/StoreSpec.thy ===== *)
theory StoreSpec
  imports Kb
begin

text \<open>
  What the store promises: the invariant of the tables under every statement (unique keys, fresh
  identities, the foreign key of the memberships, the bounds of the history counters and of the
  purity), what the deletes and the orphan reaper keep, what the Stage A query and the training
  frame return, and what the history counters can contain.
\<close>

section \<open>The tables have keys\<close>

interpretation items: keyed_table item_key replace_row
  by unfold_locales (simp add: replace_row_def)

interpretation sigs: keyed_table sig_key merge_sig
  by unfold_locales (simp add: merge_sig_def sig_key_def)

interpretation groups: keyed_table group_key merge_group
  by unfold_locales (simp add: merge_group_def group_key_def)

interpretation taken: keyed_table member_key take_score
  by unfold_locales (simp add: take_score_def)

interpretation kept: keyed_table member_key keep_member
  by unfold_locales (simp add: keep_member_def)

interpretation greatest: keyed_table member_key greatest_score
  by unfold_locales (simp add: greatest_score_def member_key_def)

interpretation orphans: keyed_table orphan_key "\<lambda>old new. old"
  by unfold_locales

lemma bump_keyed: "keyed_table history_key (merge_history failed ts)"
  by unfold_locales (simp add: merge_history_def history_key_def Let_def)

section \<open>The invariant\<close>

definition keys_ok :: "db \<Rightarrow> bool" where
  "keys_ok db \<longleftrightarrow> unique_by item_key (db_items db) \<and> unique_by sig_key (db_sigs db)
     \<and> unique_by member_key (db_members db) \<and> unique_by group_key (db_groups db)
     \<and> unique_by history_key (db_history db) \<and> unique_by orphan_key (db_orphans db)"

definition ids_ok :: "db \<Rightarrow> bool" where
  "ids_ok db \<longleftrightarrow>
     unique_by su_suggestion_id (db_suggestions db)
     \<and> (\<forall>r \<in> set (db_suggestions db). su_suggestion_id r < db_next_suggestion db)
     \<and> unique_by le_event_id (db_events db)
     \<and> (\<forall>e \<in> set (db_events db). le_event_id e < db_next_event db)
     \<and> unique_by fm_mode_id (db_modes db)
     \<and> (\<forall>m \<in> set (db_modes db). fm_mode_id m < db_next_mode db)"

definition members_ok :: "db \<Rightarrow> bool" where
  "members_ok db \<longleftrightarrow>
     (\<forall>m \<in> set (db_members db). (mm_project_id m, mm_mode_id m) \<in> mode_key ` set (db_modes db))"

definition history_ok :: "history_row \<Rightarrow> bool" where
  "history_ok h \<longleftrightarrow> 0 \<le> th_window_failures h \<and> th_window_failures h \<le> th_window_runs h
     \<and> 0 \<le> th_window_flips h \<and> th_window_flips h < th_window_runs h
     \<and> 0 \<le> th_flakiness_score h \<and> th_flakiness_score h \<le> 1"

definition purity_ok :: "mode_row \<Rightarrow> bool" where
  "purity_ok m \<longleftrightarrow> 0 \<le> fm_purity m \<and> fm_purity m \<le> 1"

definition all_pure :: "db \<Rightarrow> bool" where
  "all_pure db \<longleftrightarrow> (\<forall>m \<in> set (db_modes db). purity_ok m)"

definition db_ok :: "db \<Rightarrow> bool" where
  "db_ok db \<longleftrightarrow> keys_ok db \<and> ids_ok db \<and> members_ok db
     \<and> (\<forall>h \<in> set (db_history db). history_ok h) \<and> (\<forall>m \<in> set (db_modes db). purity_ok m)"

text \<open>One statement of a store, as the service or an operator may issue it.\<close>

inductive store_step :: "db \<Rightarrow> db \<Rightarrow> bool" where
  items: "store_step db (fst (upsert_items now rows db))"
| signatures: "store_step db (fst (upsert_signatures sigs db))"
| issue_type: "store_step db (fst (update_issue_type p i t auto db))"
| suggestion: "store_step db (fst (write_suggestion now s db))"
| explanation: "store_step db (set_explanation p sid e db)"
| judge: "store_step db (annotate_judge p i chosen db)"
| coldstart: "store_step db (fst (insert_coldstart now p i l label conf ver rule db))"
| group: "store_step db (fst (upsert_launch_group p l fp n prior main db))"
| event: "store_step db (fst (append_event now ev db))"
| feedback: "store_step db (fst (record_feedback_outcome now p i t db))"
| del_items: "store_step db (fst (delete_items p ids db))"
| del_launches: "store_step db (fst (delete_launches p ids db))"
| del_range: "store_step db (fst (delete_by_time_range p f before after db))"
| del_project: "store_step db (fst (delete_project p db))"
| reap: "store_step db (fst (reap_orphan_label_events now days db))"
| bump: "store_step db (bump_test_history p tch failed ts db)"
| spawn: "store_step db (fst (spawn_candidate_mode p m ids db))"
| seed: "store_step db (fst (ensure_seed_mode p k m db))"
| members: "add_members p m ms v db = Some (db', n) \<Longrightarrow> store_step db db'"
| purity: "update_purity p m db = Some (db', x) \<Longrightarrow> store_step db db'"
| merge: "merge_modes p src dst db = Some db' \<Longrightarrow> store_step db db'"
| split: "split_mode p m parts db = Some (db', ids) \<Longrightarrow> store_step db db'"
| status: "store_step db (set_status p m st l src db)"

subsection \<open>Unique keys\<close>

lemma keys_ok_purge: "keys_ok db \<Longrightarrow> keys_ok (purge_items p sel db)"
  by (simp add: keys_ok_def purge_items_def unique_by_filter)

lemma keys_ok_delete_where: "keys_ok db \<Longrightarrow> keys_ok (fst (delete_where p sel db))"
  by (simp add: keys_ok_def delete_where_def Let_def purge_items_def unique_by_filter)

lemma mark_orphans_unique:
  "unique_by orphan_key rows \<Longrightarrow>
   unique_by orphan_key (fold (\<lambda>e rows. if item_exists db (event_of e) then rows
       else upsert orphan_key (\<lambda>old new. old) (new e) rows) es rows)"
  by (induction es arbitrary: rows) (auto intro: orphans.upsert_unique)

lemma keys_ok_reap: "keys_ok db \<Longrightarrow> keys_ok (fst (reap_orphan_label_events now days db))"
  by (simp add: reap_orphan_label_events_def Let_def keys_ok_def mark_orphans_def
      unmark_orphans_def unique_by_filter mark_orphans_unique)

lemma keys_ok_put_members:
  assumes "keys_ok db" and "keyed_table member_key merge"
  shows "keys_ok (put_members merge ms db)"
  using assms(1) keyed_table.fold_upsert_unique [OF assms(2)]
  by (simp add: keys_ok_def put_members_def)

lemmas member_tables = taken.keyed_table_axioms kept.keyed_table_axioms greatest.keyed_table_axioms

lemma keys_ok_set_mode [simp]: "keys_ok (set_mode p m f db) = keys_ok db"
  by (simp add: keys_ok_def set_mode_def)

lemma keys_ok_insert_mode: "keys_ok (fst (insert_mode p k m db)) = keys_ok db"
  by (simp add: keys_ok_def insert_mode_def Let_def)

lemma keys_ok_spawn: "keys_ok db \<Longrightarrow> keys_ok (fst (spawn_candidate_mode p m ids db))"
  by (simp add: spawn_candidate_mode_def split: prod.splits)
    (metis fst_conv keys_ok_insert_mode keys_ok_put_members kept.keyed_table_axioms)

lemma split_parts_inv:
  assumes "\<And>ids db. P db \<Longrightarrow> P (fst (spawn_candidate_mode p m ids db))" and "P db"
  shows "P (fst (split_parts p m parts db))"
  using assms(2)
proof (induction parts arbitrary: db)
  case Nil
  then show ?case by simp
next
  case (Cons ids parts)
  obtain db1 mid where s: "spawn_candidate_mode p m ids db = (db1, mid)" by fastforce
  have "P db1" using assms(1) [OF Cons.prems, of ids] s by simp
  from Cons.IH [OF this] show ?case by (simp add: s split: prod.splits) auto
qed

lemma keys_ok_split_parts: "keys_ok db \<Longrightarrow> keys_ok (fst (split_parts p m parts db))"
  by (rule split_parts_inv) (rule keys_ok_spawn)

lemma keys_ok_merge:
  assumes "keys_ok db" and "merge_modes p src dst db = Some db'"
  shows "keys_ok db'"
proof -
  have "keys_ok (put_members greatest_score ms db)" for ms
    by (rule keys_ok_put_members [OF assms(1) greatest.keyed_table_axioms])
  then have "keys_ok (put_members greatest_score ms db
      \<lparr>db_members := filter P (db_members (put_members greatest_score ms db))\<rparr>)" for ms P
    by (simp add: keys_ok_def unique_by_filter)
  then show ?thesis
    using assms(2) by (auto simp: merge_modes_def Let_def retire_def split: option.splits prod.splits)
qed

lemma keys_ok_step:
  assumes "store_step db db'" and "keys_ok db"
  shows "keys_ok db'"
  using assms(1)
proof cases
  case (items now rows)
  then show ?thesis using assms(2)
    by (simp add: keys_ok_def upsert_items_def Let_def items.fold_upsert_unique)
next
  case (signatures sigs)
  then show ?thesis using assms(2)
    by (simp add: keys_ok_def upsert_signatures_def sigs.fold_upsert_unique)
next
  case (issue_type p i t auto)
  then show ?thesis using assms(2)
    by (auto simp: keys_ok_def update_issue_type_def item_key_def unique_by_map)
next
  case (group p l fp n prior main)
  then show ?thesis using assms(2)
    by (simp add: keys_ok_def upsert_launch_group_def Let_def groups.upsert_unique)
next
  case (del_items p ids)
  then show ?thesis using assms(2)
    by (simp add: delete_items_def keys_ok_def purge_items_def Let_def unique_by_filter)
next
  case (del_launches p ids)
  then show ?thesis using keys_ok_delete_where [OF assms(2)] assms(2)
    by (simp add: delete_launches_def keys_ok_def split: prod.splits) (metis fst_conv)
next
  case (del_range p f before after)
  then show ?thesis using keys_ok_delete_where [OF assms(2)]
    by (simp add: delete_by_time_range_def)
next
  case (bump p tch failed ts)
  then show ?thesis using assms(2) keyed_table.upsert_unique [OF bump_keyed]
    by (simp add: keys_ok_def bump_test_history_def)
next
  case (members p m ms v n)
  then show ?thesis using keys_ok_put_members [OF assms(2) taken.keyed_table_axioms] assms(2)
    by (auto simp: add_members_def Let_def split: if_splits)
next
  case (purity p m x)
  then show ?thesis using assms(2)
    by (auto simp: update_purity_def Let_def split: option.splits)
next
  case (merge p src dst)
  then show ?thesis using keys_ok_merge [OF assms(2)] by blast
next
  case (split p m parts ids)
  then show ?thesis using keys_ok_split_parts [OF assms(2)]
    by (auto simp: split_mode_def Let_def retire_def split: option.splits prod.splits) (metis fst_conv)
next
  case (seed p k m)
  then show ?thesis using assms(2) keys_ok_insert_mode [of p "Some k" m db]
    by (simp add: ensure_seed_mode_def split: option.splits) (simp add: keys_ok_def)
next
  case (reap now days)
  then show ?thesis using keys_ok_reap [OF assms(2)] by simp
next
  case (spawn p m ids)
  then show ?thesis using keys_ok_spawn [OF assms(2)] by simp
next
  case (status p m st l src)
  then show ?thesis using assms(2) by (simp add: set_status_def)
next
  case (judge p i chosen)
  then show ?thesis using assms(2)
    by (simp add: annotate_judge_def keys_ok_def split: option.splits)
qed (use assms(2) in \<open>simp_all add: write_suggestion_def append_event_def set_explanation_def
    insert_coldstart_def record_feedback_outcome_def delete_project_def Let_def keys_ok_def
    unique_by_filter\<close>)

subsection \<open>Fresh identities\<close>

definition modes_fresh :: "db \<Rightarrow> bool" where
  "modes_fresh db \<longleftrightarrow> unique_by fm_mode_id (db_modes db)
     \<and> (\<forall>m \<in> set (db_modes db). fm_mode_id m < db_next_mode db)"

definition rows_fresh :: "db \<Rightarrow> bool" where
  "rows_fresh db \<longleftrightarrow> unique_by su_suggestion_id (db_suggestions db)
     \<and> (\<forall>r \<in> set (db_suggestions db). su_suggestion_id r < db_next_suggestion db)
     \<and> unique_by le_event_id (db_events db)
     \<and> (\<forall>e \<in> set (db_events db). le_event_id e < db_next_event db)"

lemma ids_ok_split: "ids_ok db \<longleftrightarrow> rows_fresh db \<and> modes_fresh db"
  by (auto simp: ids_ok_def rows_fresh_def modes_fresh_def)

lemma modes_fresh_set_mode:
  assumes "modes_fresh db" and "\<And>r. fm_mode_id (f r) = fm_mode_id r"
  shows "modes_fresh (set_mode p m f db)"
  using assms by (auto simp: modes_fresh_def set_mode_def unique_by_map)

lemma new_mode_ids [simp]:
  "fm_mode_id (new_mode p mid k m) = mid" "fm_project_id (new_mode p mid k m) = p"
  "fm_seed_key (new_mode p mid k m) = k" "fm_status (new_mode p mid k m) = fm_status m"
  "fm_purity (new_mode p mid k m) = 0" "fm_label (new_mode p mid k m) = fm_label m"
  by (simp_all add: new_mode_def mode_in.defs)

lemma modes_fresh_insert: "modes_fresh db \<Longrightarrow> modes_fresh (fst (insert_mode p k m db))"
  by (auto simp: modes_fresh_def insert_mode_def Let_def)

lemma put_members_other [simp]:
  "db_modes (put_members merge ms db) = db_modes db"
  "db_next_mode (put_members merge ms db) = db_next_mode db"
  "db_suggestions (put_members merge ms db) = db_suggestions db"
  "db_next_suggestion (put_members merge ms db) = db_next_suggestion db"
  "db_events (put_members merge ms db) = db_events db"
  "db_next_event (put_members merge ms db) = db_next_event db"
  "db_history (put_members merge ms db) = db_history db"
  by (simp_all add: put_members_def)

lemma set_mode_other [simp]:
  "db_next_mode (set_mode p m f db) = db_next_mode db"
  "db_suggestions (set_mode p m f db) = db_suggestions db"
  "db_next_suggestion (set_mode p m f db) = db_next_suggestion db"
  "db_events (set_mode p m f db) = db_events db"
  "db_next_event (set_mode p m f db) = db_next_event db"
  "db_history (set_mode p m f db) = db_history db"
  "db_members (set_mode p m f db) = db_members db"
  by (simp_all add: set_mode_def)

lemma insert_mode_other [simp]:
  "db_suggestions (fst (insert_mode p k m db)) = db_suggestions db"
  "db_next_suggestion (fst (insert_mode p k m db)) = db_next_suggestion db"
  "db_events (fst (insert_mode p k m db)) = db_events db"
  "db_next_event (fst (insert_mode p k m db)) = db_next_event db"
  "db_history (fst (insert_mode p k m db)) = db_history db"
  "db_members (fst (insert_mode p k m db)) = db_members db"
  by (simp_all add: insert_mode_def Let_def)

lemma spawn_eq:
  "spawn_candidate_mode p m ids db =
     (put_members keep_member (map (\<lambda>i. member p (db_next_mode db) (i, 1, ''human'')) ids)
        (fst (insert_mode p None m db)), db_next_mode db)"
  by (simp add: spawn_candidate_mode_def insert_mode_def Let_def)

lemma modes_fresh_spawn: "modes_fresh db \<Longrightarrow> modes_fresh (fst (spawn_candidate_mode p m ids db))"
  using modes_fresh_insert [of db p None m] by (simp add: spawn_eq modes_fresh_def)

lemma rows_fresh_cong:
  "db_suggestions db' = db_suggestions db \<Longrightarrow> db_next_suggestion db' = db_next_suggestion db \<Longrightarrow>
   db_events db' = db_events db \<Longrightarrow> db_next_event db' = db_next_event db \<Longrightarrow>
   rows_fresh db' = rows_fresh db"
  by (simp add: rows_fresh_def)

lemma rows_fresh_split_parts: "rows_fresh db \<Longrightarrow> rows_fresh (fst (split_parts p m parts db))"
  by (rule split_parts_inv) (simp_all add: spawn_eq rows_fresh_def)

lemma modes_fresh_split_parts: "modes_fresh db \<Longrightarrow> modes_fresh (fst (split_parts p m parts db))"
  by (rule split_parts_inv) (rule modes_fresh_spawn)

lemma rows_fresh_sub:
  assumes "rows_fresh db" and "db_suggestions db' = filter P (db_suggestions db)"
    and "db_events db' = filter Q (db_events db)"
    and "db_next_suggestion db' = db_next_suggestion db" and "db_next_event db' = db_next_event db"
  shows "rows_fresh db'"
  using assms by (auto simp: rows_fresh_def unique_by_filter)

lemma modes_fresh_sub:
  assumes "modes_fresh db" and "db_modes db' = filter P (db_modes db)"
    and "db_next_mode db' = db_next_mode db"
  shows "modes_fresh db'"
  using assms by (auto simp: modes_fresh_def unique_by_filter)

lemma rows_fresh_step:
  assumes "store_step db db'" and "rows_fresh db"
  shows "rows_fresh db'"
  using assms(1)
proof cases
  case (explanation p sid e)
  then show ?thesis using assms(2)
    by (auto simp: set_explanation_def rows_fresh_def unique_by_map)
next
  case (judge p i chosen)
  then show ?thesis using assms(2)
    by (auto simp: annotate_judge_def rows_fresh_def unique_by_map split: option.splits)
next
  case (coldstart now p i l label conf ver rule)
  then show ?thesis using assms(2)
    by (auto simp: insert_coldstart_def Let_def rows_fresh_def)
next
  case (suggestion now s)
  then show ?thesis using assms(2)
    by (auto simp: write_suggestion_def Let_def rows_fresh_def suggestion_in.defs)
next
  case (event now ev)
  then show ?thesis using assms(2)
    by (auto simp: append_event_def Let_def rows_fresh_def label_event_in.defs)
next
  case (feedback now p i t)
  then show ?thesis using assms(2)
    by (auto simp: record_feedback_outcome_def Let_def rows_fresh_def unique_by_map)
next
  case (del_items p ids)
  then show ?thesis using assms(2)
    by (auto simp: delete_items_def purge_items_def Let_def rows_fresh_def unique_by_filter)
next
  case (del_launches p ids)
  then show ?thesis using assms(2)
    by (auto simp: delete_launches_def delete_where_def purge_items_def Let_def rows_fresh_def
        unique_by_filter)
next
  case (del_range p f before after)
  then show ?thesis using assms(2)
    by (auto simp: delete_by_time_range_def delete_where_def purge_items_def Let_def rows_fresh_def
        unique_by_filter)
next
  case (del_project p)
  then show ?thesis using assms(2)
    by (auto simp: delete_project_def rows_fresh_def unique_by_filter)
next
  case (reap now days)
  then show ?thesis using assms(2)
    by (auto simp: reap_orphan_label_events_def mark_orphans_def unmark_orphans_def Let_def
        rows_fresh_def unique_by_filter)
next
  case (seed p k m)
  then show ?thesis using assms(2)
    by (auto simp: ensure_seed_mode_def rows_fresh_def split: option.splits)
next
  case (members p m ms v n)
  then show ?thesis using assms(2)
    by (auto simp: add_members_def Let_def rows_fresh_def split: if_splits)
next
  case (purity p m x)
  then show ?thesis using assms(2)
    by (auto simp: update_purity_def Let_def rows_fresh_def split: option.splits)
next
  case (merge p src dst)
  then show ?thesis using assms(2)
    by (auto simp: merge_modes_def Let_def retire_def rows_fresh_def
        split: option.splits prod.splits)
next
  case (split p m parts ids)
  then show ?thesis using rows_fresh_split_parts [OF assms(2)]
    by (auto simp: split_mode_def Let_def retire_def rows_fresh_def
        split: option.splits prod.splits) (metis fst_conv)+
qed (use assms(2) in \<open>simp_all add: upsert_items_def upsert_signatures_def update_issue_type_def
    upsert_launch_group_def bump_test_history_def spawn_eq set_status_def Let_def rows_fresh_def\<close>)

lemma modes_fresh_step:
  assumes "store_step db db'" and "modes_fresh db"
  shows "modes_fresh db'"
  using assms(1)
proof cases
  case (del_launches p ids)
  then show ?thesis using assms(2)
    by (auto simp: delete_launches_def delete_where_def purge_items_def Let_def modes_fresh_def)
next
  case (del_project p)
  then show ?thesis using assms(2)
    by (auto simp: delete_project_def modes_fresh_def unique_by_filter)
next
  case (seed p k m)
  then show ?thesis using assms(2) modes_fresh_insert [OF assms(2), of p "Some k" m]
    by (auto simp: ensure_seed_mode_def modes_fresh_def split: option.splits)
next
  case (members p m ms v n)
  have a: "modes_fresh (put_members take_score ms' db)" for ms'
    using assms(2) by (simp add: modes_fresh_def)
  show ?thesis using members assms(2)
    by (auto simp: add_members_def Let_def split: if_splits intro!: a modes_fresh_set_mode)
next
  case (purity p m x)
  then show ?thesis using assms(2)
    by (auto simp: update_purity_def Let_def split: option.splits intro!: modes_fresh_set_mode)
next
  case (merge p src dst)
  have a: "modes_fresh (put_members greatest_score ms db
      \<lparr>db_members := filter P (db_members (put_members greatest_score ms db))\<rparr>)" for ms P
    using assms(2) by (simp add: modes_fresh_def)
  show ?thesis using merge
    by (auto simp: merge_modes_def Let_def retire_def split: option.splits prod.splits
        intro!: a modes_fresh_set_mode)
next
  case (split p m parts ids)
  then show ?thesis using modes_fresh_split_parts [OF assms(2)]
    by (auto simp: split_mode_def Let_def retire_def split: option.splits prod.splits
        intro!: modes_fresh_set_mode) (metis fst_conv)
next
  case (status p m st l src)
  then show ?thesis using assms(2) by (simp add: set_status_def modes_fresh_set_mode)
next
  case (spawn p m ids)
  then show ?thesis using modes_fresh_spawn [OF assms(2)] by simp
next
  case (judge p i chosen)
  then show ?thesis using assms(2)
    by (simp add: annotate_judge_def modes_fresh_def members_ok_def all_pure_def
        split: option.splits)
qed (use assms(2) in \<open>simp_all add: upsert_items_def upsert_signatures_def update_issue_type_def
    upsert_launch_group_def bump_test_history_def write_suggestion_def append_event_def
    set_explanation_def insert_coldstart_def
    record_feedback_outcome_def delete_items_def delete_by_time_range_def delete_where_def
    purge_items_def reap_orphan_label_events_def mark_orphans_def unmark_orphans_def Let_def
    modes_fresh_def\<close>)

subsection \<open>The foreign key of the memberships\<close>

lemma member_keys_put:
  assumes "keyed_table member_key merge"
  shows "member_key ` set (db_members (put_members merge ms db))
    = member_key ` set (db_members db) \<union> member_key ` set ms"
  using keyed_table.fold_upsert_keys [OF assms] by (simp add: put_members_def)

definition mode_of :: "int \<times> int \<times> int \<Rightarrow> int \<times> int" where
  "mode_of = (\<lambda>(p, m, i). (p, m))"

lemma members_ok_keys:
  "members_ok db \<longleftrightarrow> mode_of ` member_key ` set (db_members db) \<subseteq> mode_key ` set (db_modes db)"
  by (simp add: members_ok_def mode_of_def member_key_def image_image image_subset_iff)

lemma mode_keys_set_mode:
  assumes "\<And>r. mode_key (f r) = mode_key r"
  shows "mode_key ` set (db_modes (set_mode p m f db)) = mode_key ` set (db_modes db)"
proof -
  have "mode_key (if mode_key r = (p, m) then f r else r) = mode_key r" for r
    using assms by simp
  then have "mode_key ` set (map (\<lambda>r. if mode_key r = (p, m) then f r else r) (db_modes db))
      = mode_key ` set (db_modes db)"
    unfolding set_map image_image by (rule image_cong [OF refl])
  then show ?thesis by (simp add: set_mode_def)
qed

lemma members_ok_set_mode:
  assumes "\<And>r. mode_key (f r) = mode_key r"
  shows "members_ok (set_mode p m f db) \<longleftrightarrow> members_ok db"
  by (simp add: members_ok_keys mode_keys_set_mode [OF assms])

lemma members_ok_put:
  assumes "keyed_table member_key merge" and "members_ok db"
    and "mode_of ` member_key ` set ms \<subseteq> mode_key ` set (db_modes db)"
  shows "members_ok (put_members merge ms db)"
  using assms(2,3) by (simp add: members_ok_keys member_keys_put [OF assms(1)] image_Un)

lemma members_ok_sub:
  assumes "members_ok db" and "db_members db' = filter P (db_members db)"
    and "db_modes db' = db_modes db"
  shows "members_ok db'"
  using assms by (auto simp: members_ok_def)

lemma mode_keys_insert:
  "mode_key ` set (db_modes (fst (insert_mode p k m db))) =
     insert (p, db_next_mode db) (mode_key ` set (db_modes db))"
  by (auto simp: insert_mode_def Let_def mode_key_def)

lemma members_ok_insert: "members_ok db \<Longrightarrow> members_ok (fst (insert_mode p k m db))"
  by (auto simp: members_ok_keys mode_keys_insert)

lemma mode_of_member [simp]: "mode_of (member_key (member p m x)) = (p, m)"
  by (cases x) (simp add: mode_of_def member_key_def member_def)

lemma members_ok_spawn: "members_ok db \<Longrightarrow> members_ok (fst (spawn_candidate_mode p m ids db))"
  unfolding spawn_eq fst_conv
  by (rule members_ok_put [OF kept.keyed_table_axioms members_ok_insert])
    (auto simp: mode_keys_insert)

lemma members_ok_split_parts: "members_ok db \<Longrightarrow> members_ok (fst (split_parts p m parts db))"
  by (rule split_parts_inv) (rule members_ok_spawn)

lemma find_mode_key: "find_mode db p m \<noteq> None \<Longrightarrow> (p, m) \<in> mode_key ` set (db_modes db)"
  by (metis find_mode_def lookup_row_None_iff)

lemma merge_modes_SomeD:
  assumes "merge_modes p src dst db = Some db'"
  obtains d s centroid ver where
    "find_mode db p dst = Some d" "find_mode db p src = Some s"
    "(centroid, ver) = merged_centroid (fm_centroid d) (fm_support d) (fm_emb_model_ver d)
        (fm_centroid s) (fm_support s) (fm_emb_model_ver s)"
    "db' = retire p src (set_mode p dst
        (\<lambda>r. r\<lparr>fm_exception_fps := remdups (fm_exception_fps r @ fm_exception_fps s),
               fm_representative_template_ids := remdups (fm_representative_template_ids r
                 @ fm_representative_template_ids s),
               fm_support := fm_support r + fm_support s,
               fm_centroid := centroid, fm_emb_model_ver := ver\<rparr>)
        (put_members greatest_score
           (map (\<lambda>r. r\<lparr>mm_mode_id := dst\<rparr>)
             (filter (\<lambda>r. mm_project_id r = p \<and> mm_mode_id r = src) (db_members db))) db
         \<lparr>db_members := filter (\<lambda>r. \<not> (mm_project_id r = p \<and> mm_mode_id r = src))
            (db_members (put_members greatest_score
               (map (\<lambda>r. r\<lparr>mm_mode_id := dst\<rparr>)
                 (filter (\<lambda>r. mm_project_id r = p \<and> mm_mode_id r = src) (db_members db))) db))\<rparr>))"
proof -
  obtain d s where ds: "find_mode db p dst = Some d" "find_mode db p src = Some s"
    using assms by (auto simp: merge_modes_def split: option.splits)
  obtain centroid ver where mc: "merged_centroid (fm_centroid d) (fm_support d)
      (fm_emb_model_ver d) (fm_centroid s) (fm_support s) (fm_emb_model_ver s) = (centroid, ver)"
    by fastforce
  show ?thesis
    by (rule that [OF ds mc [symmetric]]) (use assms in \<open>simp add: merge_modes_def ds mc Let_def\<close>)
qed

lemma members_ok_merge:
  assumes "members_ok db" and "merge_modes p src dst db = Some db'"
  shows "members_ok db'"
proof (rule merge_modes_SomeD [OF assms(2)])
  fix d s centroid ver
  let ?ms = "map (\<lambda>r. r\<lparr>mm_mode_id := dst\<rparr>)
      (filter (\<lambda>r. mm_project_id r = p \<and> mm_mode_id r = src) (db_members db))"
  let ?upd = "\<lambda>r. r\<lparr>fm_exception_fps := remdups (fm_exception_fps r @ fm_exception_fps s),
               fm_representative_template_ids := remdups (fm_representative_template_ids r
                 @ fm_representative_template_ids s),
               fm_support := fm_support r + fm_support s,
               fm_centroid := centroid, fm_emb_model_ver := ver\<rparr>"
  let ?db2 = "put_members greatest_score ?ms db
      \<lparr>db_members := filter (\<lambda>r. \<not> (mm_project_id r = p \<and> mm_mode_id r = src))
         (db_members (put_members greatest_score ?ms db))\<rparr>"
  assume D: "find_mode db p dst = Some d" and db': "db' = retire p src (set_mode p dst ?upd ?db2)"
  have k: "(p, dst) \<in> mode_key ` set (db_modes db)" by (rule find_mode_key) (simp add: D)
  have "mode_of ` member_key ` set ?ms \<subseteq> mode_key ` set (db_modes db)"
    using k by (auto simp: mode_of_def member_key_def)
  then have put: "members_ok (put_members greatest_score ?ms db)"
    by (rule members_ok_put [OF greatest.keyed_table_axioms assms(1)])
  have "members_ok ?db2" by (rule members_ok_sub [OF put]) simp_all
  then have "members_ok (set_mode p dst ?upd ?db2)"
    by (subst members_ok_set_mode) (simp_all add: mode_key_def)
  then show ?thesis unfolding db' retire_def
    by (subst members_ok_set_mode) (simp_all add: mode_key_def)
qed

lemma members_ok_delete_where: "members_ok db \<Longrightarrow> members_ok (fst (delete_where p sel db))"
  by (auto simp: delete_where_def purge_items_def Let_def members_ok_def)

lemma members_ok_step:
  assumes "store_step db db'" and "members_ok db"
  shows "members_ok db'"
  using assms(1)
proof cases
  case (del_launches p ids)
  then show ?thesis using assms(2) members_ok_delete_where [OF assms(2)]
    by (auto simp: delete_launches_def delete_where_def purge_items_def Let_def members_ok_def)
next
  case (del_range p f before after)
  then show ?thesis using members_ok_delete_where [OF assms(2)]
    by (simp add: delete_by_time_range_def)
next
  case (del_items p ids)
  then show ?thesis using assms(2)
    by (auto simp: delete_items_def purge_items_def Let_def members_ok_def)
next
  case (del_project p)
  then show ?thesis using assms(2)
    by (auto simp: delete_project_def members_ok_def mode_key_def)
next
  case (seed p k m)
  then show ?thesis using assms(2) members_ok_insert [OF assms(2), of p "Some k" m]
    by (auto simp: ensure_seed_mode_def members_ok_def split: option.splits)
next
  case (members p m ms v n)
  then have k: "ms \<noteq> [] \<Longrightarrow> (p, m) \<in> mode_key ` set (db_modes db)"
    by (auto simp: add_members_def split: if_splits intro: find_mode_key)
  have a: "ms \<noteq> [] \<Longrightarrow> members_ok (put_members take_score (map (member p m) ms) db)"
    by (rule members_ok_put [OF taken.keyed_table_axioms assms(2)]) (use k in auto)
  have st: "members_ok (set_mode p m (\<lambda>r. r\<lparr>fm_emb_model_ver := (case fm_emb_model_ver r of
        Some v \<Rightarrow> Some v | None \<Rightarrow> e)\<rparr>) db2) \<longleftrightarrow> members_ok db2" for db2 e
    by (rule members_ok_set_mode) (simp add: mode_key_def)
  show ?thesis using members a assms(2)
    by (auto simp: add_members_def Let_def st split: if_splits)
next
  case (purity p m x)
  have st: "members_ok (set_mode p m (\<lambda>r. r\<lparr>fm_purity := a, fm_support := b, fm_centroid := c\<rparr>) db2)
      \<longleftrightarrow> members_ok db2" for db2 a b c
    by (rule members_ok_set_mode) (simp add: mode_key_def)
  show ?thesis using purity assms(2)
    by (auto simp: update_purity_def Let_def st split: option.splits)
next
  case (merge p src dst)
  then show ?thesis using members_ok_merge [OF assms(2)] by blast
next
  case (split p m parts ids)
  have st: "members_ok (retire p m db2) \<longleftrightarrow> members_ok db2" for db2
    unfolding retire_def by (rule members_ok_set_mode) (simp add: mode_key_def)
  show ?thesis using split members_ok_split_parts [OF assms(2)]
    by (auto simp: split_mode_def Let_def st split: option.splits prod.splits) (metis fst_conv)
next
  case (status p m st l src)
  have "members_ok (set_status p m st l src db) \<longleftrightarrow> members_ok db"
    unfolding set_status_def by (rule members_ok_set_mode) (simp add: mode_key_def)
  then show ?thesis using status assms(2) by simp
next
  case (spawn p m ids)
  then show ?thesis using members_ok_spawn [OF assms(2)] by simp
next
  case (judge p i chosen)
  then show ?thesis using assms(2)
    by (simp add: annotate_judge_def modes_fresh_def members_ok_def all_pure_def
        split: option.splits)
qed (use assms(2) in \<open>simp_all add: upsert_items_def upsert_signatures_def update_issue_type_def
    upsert_launch_group_def bump_test_history_def write_suggestion_def append_event_def
    set_explanation_def insert_coldstart_def
    record_feedback_outcome_def
    reap_orphan_label_events_def mark_orphans_def unmark_orphans_def Let_def members_ok_def\<close>)

subsection \<open>Counters and purity\<close>

lemma history_ok_new: "history_ok (bump_new p tch failed ts)"
  by (simp add: bump_new_def history_ok_def)

lemma history_ok_merge: "history_ok old \<Longrightarrow> history_ok (merge_history failed ts old new)"
  by (auto simp: history_ok_def merge_history_def Let_def)

lemma bump_history_member:
  assumes "h \<in> set (db_history (bump_test_history p tch failed ts db))"
  shows "h = bump_new p tch failed ts \<or> h \<in> set (db_history db)
    \<or> (\<exists>old \<in> set (db_history db). h = merge_history failed ts old (bump_new p tch failed ts))"
  using assms keyed_table.upsert_member [OF bump_keyed]
  by (simp add: bump_test_history_def) blast

lemma purity_of_range: "0 \<le> purity_of ls \<and> purity_of ls \<le> 1"
proof (cases "ls = []")
  case True
  then show ?thesis by (simp add: purity_of_def)
next
  case False
  have "Max ((\<lambda>l. count_list ls l) ` set ls) \<in> (\<lambda>l. count_list ls l) ` set ls"
    using False by (intro Max_in) simp_all
  then have "Max ((\<lambda>l. count_list ls l) ` set ls) \<le> length ls"
    by (auto simp: count_le_length)
  with False count_ratio_range show ?thesis by (simp add: purity_of_def)
qed

lemma all_pure_set_mode:
  assumes "all_pure db" and "\<And>r. purity_ok r \<Longrightarrow> purity_ok (f r)"
  shows "all_pure (set_mode p m f db)"
  using assms by (auto simp: all_pure_def set_mode_def)

lemma all_pure_cong: "db_modes db' = db_modes db \<Longrightarrow> all_pure db' = all_pure db"
  by (simp add: all_pure_def)

lemma all_pure_insert: "all_pure db \<Longrightarrow> all_pure (fst (insert_mode p k m db))"
  by (auto simp: all_pure_def insert_mode_def Let_def purity_ok_def)

lemma all_pure_spawn: "all_pure db \<Longrightarrow> all_pure (fst (spawn_candidate_mode p m ids db))"
  using all_pure_insert [of db p None m] by (simp add: spawn_eq all_pure_def)

lemma all_pure_split_parts: "all_pure db \<Longrightarrow> all_pure (fst (split_parts p m parts db))"
  by (rule split_parts_inv) (rule all_pure_spawn)

lemma all_pure_step:
  assumes "store_step db db'" and "all_pure db"
  shows "all_pure db'"
  using assms(1)
proof cases
  case (del_launches p ids)
  then show ?thesis using assms(2)
    by (auto simp: delete_launches_def delete_where_def purge_items_def Let_def all_pure_def)
next
  case (del_project p)
  then show ?thesis using assms(2) by (auto simp: delete_project_def all_pure_def)
next
  case (seed p k m)
  then show ?thesis using assms(2) all_pure_insert [OF assms(2), of p "Some k" m]
    by (auto simp: ensure_seed_mode_def all_pure_def split: option.splits)
next
  case (members p m ms v n)
  have a: "all_pure (put_members take_score ms' db)" for ms'
    using assms(2) by (simp add: all_pure_def)
  show ?thesis using members assms(2)
    by (auto simp: add_members_def Let_def purity_ok_def split: if_splits
        intro!: a all_pure_set_mode)
next
  case (purity p m x)
  then show ?thesis using assms(2) purity_of_range
    by (auto simp: update_purity_def Let_def purity_ok_def split: option.splits
        intro!: all_pure_set_mode)
next
  case (merge p src dst)
  have a: "all_pure (put_members greatest_score ms db
      \<lparr>db_members := filter P (db_members (put_members greatest_score ms db))\<rparr>)" for ms P
    using assms(2) by (simp add: all_pure_def)
  show ?thesis using merge
    by (auto simp: merge_modes_def Let_def retire_def purity_ok_def split: option.splits prod.splits
        intro!: a all_pure_set_mode)
next
  case (split p m parts ids)
  then show ?thesis using all_pure_split_parts [OF assms(2)]
    by (auto simp: split_mode_def Let_def retire_def purity_ok_def split: option.splits prod.splits
        intro!: all_pure_set_mode) (metis fst_conv)
next
  case (status p m st l src)
  then show ?thesis using assms(2) by (auto simp: set_status_def purity_ok_def intro!: all_pure_set_mode)
next
  case (spawn p m ids)
  then show ?thesis using all_pure_spawn [OF assms(2)] by simp
next
  case (judge p i chosen)
  then show ?thesis using assms(2)
    by (simp add: annotate_judge_def modes_fresh_def members_ok_def all_pure_def
        split: option.splits)
qed (use assms(2) in \<open>simp_all add: upsert_items_def upsert_signatures_def update_issue_type_def
    upsert_launch_group_def bump_test_history_def write_suggestion_def append_event_def
    set_explanation_def insert_coldstart_def
    record_feedback_outcome_def delete_items_def delete_by_time_range_def delete_where_def
    purge_items_def reap_orphan_label_events_def mark_orphans_def unmark_orphans_def Let_def
    all_pure_def\<close>)

text \<open>Only a bump and a project delete touch the history.\<close>

lemma history_step:
  assumes "store_step db db'"
  shows "set (db_history db') \<subseteq> set (db_history db)
    \<or> (\<exists>p tch failed ts. db' = bump_test_history p tch failed ts db)"
  using assms
proof cases
  case (split p m parts ids)
  have "db_history (fst (split_parts p c parts db)) = db_history db" for c
    by (rule split_parts_inv [where P = "\<lambda>x. db_history x = db_history db"])
      (simp_all add: spawn_eq)
  with split show ?thesis
    by (auto simp: split_mode_def Let_def retire_def split: option.splits prod.splits)
      (metis fst_conv)+
qed (auto simp: upsert_items_def upsert_signatures_def update_issue_type_def
    upsert_launch_group_def write_suggestion_def append_event_def spawn_eq set_status_def
    set_explanation_def annotate_judge_def insert_coldstart_def
    record_feedback_outcome_def delete_items_def delete_by_time_range_def delete_where_def
    purge_items_def reap_orphan_label_events_def mark_orphans_def unmark_orphans_def Let_def
    delete_launches_def delete_project_def ensure_seed_mode_def add_members_def update_purity_def
    merge_modes_def retire_def split: option.splits prod.splits if_splits)

lemma history_ok_step:
  assumes "store_step db db'" and "\<forall>h \<in> set (db_history db). history_ok h"
  shows "\<forall>h \<in> set (db_history db'). history_ok h"
  using history_step [OF assms(1)]
proof (elim disjE exE)
  assume "set (db_history db') \<subseteq> set (db_history db)"
  with assms(2) show ?thesis by blast
next
  fix p tch failed ts assume db': "db' = bump_test_history p tch failed ts db"
  show ?thesis
  proof
    fix h assume "h \<in> set (db_history db')"
    from bump_history_member [OF this [unfolded db']] assms(2) show "history_ok h"
      by (elim disjE bexE) (simp_all add: history_ok_new history_ok_merge)
  qed
qed

section \<open>Every reachable database\<close>

lemma db_ok_empty: "db_ok empty_db"
  by (simp add: db_ok_def empty_db_def keys_ok_def ids_ok_def members_ok_def)

lemma db_ok_step: "store_step db db' \<Longrightarrow> db_ok db \<Longrightarrow> db_ok db'"
  using keys_ok_step rows_fresh_step modes_fresh_step members_ok_step history_ok_step all_pure_step
  by (simp add: db_ok_def ids_ok_split flip: all_pure_def)

text \<open>
  In every database that the statements of the stores can reach from the empty schema, in any
  order and interleaving: items, signatures, memberships, launch groups, history rows and
  tombstones are unique under their keys, suggestion, event and mode identities are unique and
  below their sequence, every membership refers to an existing mode, a history row has
  0 <= failures <= runs, 0 <= flips < runs and a flakiness in [0, 1], and a purity is in [0, 1].
\<close>

theorem store_invariant:
  assumes "store_step\<^sup>*\<^sup>* empty_db db"
  shows "db_ok db"
  using assms by (induction rule: rtranclp_induct) (use db_ok_empty db_ok_step in blast)+

lemma store_reachable_demo:
  "store_step\<^sup>*\<^sup>* empty_db (bump_test_history 1 5 True 10 (fst (delete_project 2 empty_db)))"
  by (rule rtranclp.rtrancl_into_rtrancl [OF r_into_rtranclp [of store_step]])
    (rule store_step.del_project, rule store_step.bump)

theorem store_invariant_witness:
  "db_ok (bump_test_history 1 5 True 10 (fst (delete_project 2 empty_db)))"
  by (rule store_invariant [OF store_reachable_demo])

section \<open>Deletes keep the learning log\<close>

definition gone :: "db \<Rightarrow> int \<times> int \<Rightarrow> bool" where
  "gone db k \<longleftrightarrow> k \<notin> sig_key ` set (db_sigs db) \<and> k \<notin> member_of ` set (db_members db)
     \<and> k \<notin> suggestion_of ` set (db_suggestions db)"

definition clean_delete :: "int \<Rightarrow> db \<Rightarrow> db \<times> int \<Rightarrow> bool" where
  "clean_delete p db = (\<lambda>(db', n).
     db_events db' = db_events db \<and> db_orphans db' = db_orphans db
     \<and> (\<exists>sel. db_items db' = filter (\<lambda>r. \<not> sel r) (db_items db)
           \<and> (\<forall>r. sel r \<longrightarrow> ti_project_id r = p)
           \<and> n = int (length (filter sel (db_items db)))
           \<and> (\<forall>r \<in> set (db_items db). sel r \<longrightarrow> gone db' (item_key r))))"

lemma purge_gone: "sel i \<Longrightarrow> gone (purge_items p sel db) (p, i)"
  by (auto simp: gone_def purge_items_def row_key_defs)

lemma clean_delete_where: "clean_delete p db (delete_where p sel db)"
proof -
  have "gone (fst (delete_where p sel db)) (item_key r)"
    if r: "r \<in> set (db_items db)" "ti_project_id r = p" "sel r" for r
  proof -
    let ?ids = "ti_item_id ` set (filter (\<lambda>r. ti_project_id r = p \<and> sel r) (db_items db))"
    have "ti_item_id r \<in> ?ids" using r by (intro imageI) simp
    then have "gone (purge_items p (\<lambda>i. i \<in> ?ids) db) (p, ti_item_id r)" by (rule purge_gone)
    then show ?thesis
      using r(2) by (simp add: delete_where_def Let_def gone_def item_key_def)
  qed
  then show ?thesis
    unfolding clean_delete_def
    by (auto simp: delete_where_def purge_items_def Let_def intro!: exI [of _ "\<lambda>r. ti_project_id r = p \<and> sel r"])
qed

lemma gone_sub:
  assumes "gone db k" and "db_sigs db' = db_sigs db" and "db_members db' = db_members db"
    and "set (db_suggestions db') \<subseteq> set (db_suggestions db)"
  shows "gone db' k"
  using assms by (auto simp: gone_def)



section \<open>The orphan reaper\<close>

lemma mark_orphans_old:
  "o' \<in> set (fold (\<lambda>e rows. if item_exists db (event_of e) then rows
       else upsert orphan_key (\<lambda>old new. old)
              \<lparr>lo_project_id = le_project_id e, lo_item_id = le_item_id e,
               lo_first_orphaned_at = now\<rparr> rows) es rows) \<Longrightarrow>
   o' \<in> set rows \<or> lo_first_orphaned_at o' = now"
proof (induction es arbitrary: rows)
  case Nil
  then show ?case by simp
next
  case (Cons e es)
  let ?new = "\<lparr>lo_project_id = le_project_id e, lo_item_id = le_item_id e,
      lo_first_orphaned_at = now\<rparr>"
  let ?rows = "if item_exists db (event_of e) then rows
      else upsert orphan_key (\<lambda>old new. old) ?new rows"
  have "o' \<in> set ?rows \<or> lo_first_orphaned_at o' = now"
    by (rule Cons.IH) (use Cons.prems in simp)
  then show ?case
    using orphans.upsert_member [of o' ?new rows] by (cases "item_exists db (event_of e)") auto
qed

lemma mark_orphans_member:
  "o' \<in> set (db_orphans (mark_orphans now db)) \<Longrightarrow>
     o' \<in> set (db_orphans db) \<or> lo_first_orphaned_at o' = now"
  unfolding mark_orphans_def using mark_orphans_old by simp

text \<open>
  C18. The nightly reaper cannot destroy the history of a live item: an event whose item exists is
  kept, an event is deleted only when its item is missing and a tombstone older than the grace
  was already there before this run, a tombstone of an item that exists again is dropped (so its
  grace starts anew), and with a grace of zero or less nothing is deleted. Items are not touched.
\<close>

theorem reaper_spares_live_items:
  "case reap_orphan_label_events now days db of (db', n) \<Rightarrow>
    set (db_events db') \<subseteq> set (db_events db) \<and> db_items db' = db_items db
    \<and> n = int (length (db_events db)) - int (length (db_events db'))
    \<and> (days \<le> 0 \<longrightarrow> db_events db' = db_events db)
    \<and> (\<forall>e \<in> set (db_events db). e \<notin> set (db_events db') \<longrightarrow>
         \<not> item_exists db (event_of e)
         \<and> (\<exists>t \<in> set (db_orphans db). orphan_key t = event_of e
              \<and> lo_first_orphaned_at t < now - 86400 * real_of_int days))
    \<and> (\<forall>t \<in> set (db_orphans db'). \<not> item_exists db (orphan_key t))"
proof -
  define db1 where "db1 = unmark_orphans (mark_orphans now db)"
  have items: "db_items db1 = db_items db" and events: "db_events db1 = db_events db"
    by (simp_all add: db1_def unmark_orphans_def mark_orphans_def)
  have ex: "item_exists db1 k = item_exists db k" for k by (simp add: item_exists_def items)
  have orph: "\<not> item_exists db (orphan_key t)" "t \<in> set (db_orphans db) \<or> lo_first_orphaned_at t = now"
    if "t \<in> set (db_orphans db1)" for t
    using that mark_orphans_member [of t now db]
    by (auto simp: db1_def unmark_orphans_def mark_orphans_def item_exists_def)
  let ?D = "\<lambda>e. event_of e \<in> orphan_key ` {t \<in> set (db_orphans db1). expired now days db1 t}"
  have doomed: "\<not> item_exists db (event_of e)
      \<and> (\<exists>t \<in> set (db_orphans db). orphan_key t = event_of e
           \<and> lo_first_orphaned_at t < now - 86400 * real_of_int days)"
    if "?D e" "0 < days" for e
  proof -
    from that(1) obtain t where t: "t \<in> set (db_orphans db1)" "expired now days db1 t"
        "event_of e = orphan_key t" by auto
    have age: "lo_first_orphaned_at t < now - 86400 * real_of_int days"
      using t(2) by (simp add: expired_def)
    have "real_of_int days > 0" using that(2) by simp
    then have "lo_first_orphaned_at t \<noteq> now" using age by simp
    with orph [OF t(1)] age t(3) show ?thesis by auto
  qed
  have len: "length (db_events db) = length (filter ?D (db_events db))
      + length (filter (\<lambda>e. \<not> ?D e) (db_events db))"
    by (rule sum_length_filter_compl [symmetric])
  show ?thesis
  proof (cases "days \<le> 0")
    case True
    then show ?thesis using orph(1)
      by (simp add: reap_orphan_label_events_def flip: db1_def) (simp add: items events)
  next
    case False
    then have pos: "0 < days" by simp
    have r: "reap_orphan_label_events now days db =
        (db1\<lparr>db_events := filter (\<lambda>e. \<not> ?D e) (db_events db),
             db_orphans := filter (\<lambda>t. \<not> expired now days db1 t) (db_orphans db1)\<rparr>,
         int (length (filter ?D (db_events db))))"
      using False by (simp add: reap_orphan_label_events_def Let_def events flip: db1_def)
    show ?thesis unfolding r prod.case
    proof (intro conjI ballI impI)
      fix e
      assume "e \<in> set (db_events db)" "e \<notin> set (db_events (db1\<lparr>db_events := filter (\<lambda>e. \<not> ?D e) (db_events db),
             db_orphans := filter (\<lambda>t. \<not> expired now days db1 t) (db_orphans db1)\<rparr>))"
      then have "?D e" by simp
      note d = doomed [OF this pos]
      show "\<not> item_exists db (event_of e)" using d by blast
      show "\<exists>t \<in> set (db_orphans db). orphan_key t = event_of e
              \<and> lo_first_orphaned_at t < now - 86400 * real_of_int days" using d by blast
    qed (use False orph(1) len in \<open>simp_all add: items\<close>)
  qed
qed

theorem reaper_spares_live_items_witness:
  "db_items (fst (reap_orphan_label_events 0 30 empty_db)) = []"
  using reaper_spares_live_items [where now = 0 and days = 30 and db = empty_db]
  by (auto simp: empty_db_def split: prod.splits)

section \<open>What the Stage A query returns\<close>

lemma hash_join_member:
  "(s, t) \<in> set (hash_join db p h) \<longleftrightarrow>
     s \<in> set (db_sigs db) \<and> t \<in> set (db_items db) \<and> fs_project_id s = p \<and> fs_error_hash s = h
     \<and> item_key t = sig_key s \<and> labelled t"
  by (auto simp: hash_join_def)

lemma hash_row_simps [simp]:
  "hr_item_id (hash_row_of db (s, t)) = ti_item_id t"
  "hr_issue_type_group (hash_row_of db (s, t)) = label_group (ti_issue_type t)"
  "hr_label_ts (hash_row_of db (s, t)) = map_option le_ts (latest_event db (ti_project_id t) (ti_item_id t))"
  "hr_launch_id (hash_row_of db (s, t)) = ti_launch_id t"
  "hr_exception_fp (hash_row_of db (s, t)) = fs_exception_fp s"
  by (simp_all add: hash_row_of_def Let_def)

lemma find_hash_matches_member:
  assumes "r \<in> set (find_hash_matches db p h)"
  obtains s t where "(s, t) \<in> set (hash_join db p h)" and "r = hash_row_of db (s, t)"
proof -
  from assms obtain x where "x \<in> set (take 10 (order_desc (hash_order db) (hash_join db p h)))"
    and "r = hash_row_of db x" by (auto simp: find_hash_matches_def)
  then have "x \<in> set (hash_join db p h)" by (metis in_set_takeD set_order_desc)
  with \<open>r = hash_row_of db x\<close> that show ?thesis by (cases x) blast
qed

text \<open>
  Stage A sees only evidence of the project: every row the exact-hash query returns is an
  indexed item of the project whose stored hash is the query's and whose label is a real one (never
  empty, never ti), carrying the time of its newest label event; at most ten rows are returned, the
  newest label first, and all of them when there are at most ten.
\<close>

theorem hash_matches_are_labelled:
  "length (find_hash_matches db p h) = min 10 (length (hash_join db p h))
   \<and> sorted_wrt (\<lambda>a b. hr_label_ts b \<le> hr_label_ts a) (find_hash_matches db p h)
   \<and> (\<forall>r \<in> set (find_hash_matches db p h). \<exists>t \<in> set (db_items db). \<exists>s \<in> set (db_sigs db).
        item_key t = (p, hr_item_id r) \<and> sig_key s = (p, hr_item_id r) \<and> fs_error_hash s = h
        \<and> hr_issue_type_group r = label_group (ti_issue_type t)
        \<and> hr_issue_type_group r \<notin> {None, Some ''ti''}
        \<and> hr_label_ts r = map_option le_ts (latest_event db p (hr_item_id r)))"
proof (intro conjI ballI)
  show "length (find_hash_matches db p h) = min 10 (length (hash_join db p h))"
    by (simp add: find_hash_matches_def)
  have "sorted_wrt (\<lambda>x y. hash_order db y \<le> hash_order db x)
      (take 10 (order_desc (hash_order db) (hash_join db p h)))"
    by (rule sorted_wrt_take [OF sorted_order_desc])
  moreover have "hr_label_ts (hash_row_of db y) \<le> hr_label_ts (hash_row_of db x)"
    if "hash_order db y \<le> hash_order db x" for x y
    using that by (cases x; cases y) (auto simp: hash_order_def less_eq_prod_def less_imp_le)
  ultimately show "sorted_wrt (\<lambda>a b. hr_label_ts b \<le> hr_label_ts a) (find_hash_matches db p h)"
    unfolding find_hash_matches_def sorted_wrt_map
    by (rule sorted_wrt_mono_rel [rotated])
next
  fix r assume "r \<in> set (find_hash_matches db p h)"
  then obtain s t where st: "(s, t) \<in> set (hash_join db p h)" and r: "r = hash_row_of db (s, t)"
    by (rule find_hash_matches_member)
  have "item_key t = (p, hr_item_id r)" "sig_key s = (p, hr_item_id r)" "ti_project_id t = p"
    using st by (auto simp: hash_join_member r item_key_def sig_key_def)
  moreover have "hr_issue_type_group r \<notin> {None, Some ''ti''}"
    using st by (auto simp: hash_join_member r labelled_def split: option.splits)
  ultimately show "\<exists>t \<in> set (db_items db). \<exists>s \<in> set (db_sigs db).
        item_key t = (p, hr_item_id r) \<and> sig_key s = (p, hr_item_id r) \<and> fs_error_hash s = h
        \<and> hr_issue_type_group r = label_group (ti_issue_type t)
        \<and> hr_issue_type_group r \<notin> {None, Some ''ti''}
        \<and> hr_label_ts r = map_option le_ts (latest_event db p (hr_item_id r))"
    using st r by (auto simp: hash_join_member intro!: bexI [of _ t] bexI [of _ s])
qed

section \<open>Stored identities\<close>

text \<open>
  The canonical identity is read back as it was written: after an upsert of signatures with
  different keys, reading one of its items gives exactly the written row - all of its hashes,
  frames, templates, codes and texts - except that an already stored log id survives a write
  without one; and the signatures of every other item are unchanged.
\<close>

theorem signatures_round_trip:
  assumes "distinct (map sig_key sigs)"
  shows "\<forall>p i. find_sig (fst (upsert_signatures sigs db)) p i =
    (case lookup_row sig_key (p, i) sigs of
       None \<Rightarrow> find_sig db p i
     | Some s \<Rightarrow> Some (case find_sig db p i of None \<Rightarrow> s | Some old \<Rightarrow> merge_sig old s))"
  unfolding find_sig_def upsert_signatures_def
  by (simp add: sigs.lookup_fold_upsert [OF assms])

theorem signatures_round_trip_witness:
  "find_sig (fst (upsert_signatures [] empty_db)) 1 2 = None"
  using signatures_round_trip [of "[]" empty_db] by (simp add: find_sig_def empty_db_def lookup_row_def)

section \<open>The training frame\<close>

lemma newest_SomeD:
  assumes "newest P db = Some r"
  shows "r \<in> set (db_suggestions db)" and "P r"
    and "\<And>r'. r' \<in> set (db_suggestions db) \<Longrightarrow> P r' \<Longrightarrow>
      (su_created_at r', su_suggestion_id r') \<le> (su_created_at r, su_suggestion_id r)"
  using py_max_in [OF assms [unfolded newest_def]] py_max_ge [OF assms [unfolded newest_def]]
  by auto

text \<open>
  C19. The training frame cannot leak: every row is a label event in the requested scope, and the
  feature snapshot it trains on is a suggestion of the same item written no later than the label
  and never by the early per-item route; it is the newest such suggestion. The frame is ordered
  from the newest event and has at most the requested number of rows.
\<close>

theorem training_frame_no_leak:
  "length (fetch_training_frame db p since limit) \<le> limit
   \<and> sorted_wrt (\<lambda>a b. fr_ts b \<le> fr_ts a) (fetch_training_frame db p since limit)
   \<and> (\<forall>row \<in> set (fetch_training_frame db p since limit).
        (\<exists>e \<in> set (db_events db). le_event_id e = fr_event_id row \<and> le_new_label e = fr_new_label row
           \<and> le_ts e = fr_ts row \<and> event_of e = (fr_project_id row, fr_item_id row))
        \<and> (case p of None \<Rightarrow> True | Some p' \<Rightarrow> fr_project_id row = p')
        \<and> (case fr_suggestion row of None \<Rightarrow> True
           | Some s \<Rightarrow> su_source s \<noteq> Some ''early'' \<and> su_created_at s \<le> fr_ts row
               \<and> suggestion_of s = (fr_project_id row, fr_item_id row)
               \<and> (\<forall>s' \<in> set (db_suggestions db). suggestion_of s' = suggestion_of s
                    \<and> su_created_at s' \<le> fr_ts row \<and> su_source s' \<noteq> Some ''early''
                    \<longrightarrow> su_created_at s' \<le> su_created_at s)))"
proof (intro conjI ballI)
  let ?P = "\<lambda>e. (case p of None \<Rightarrow> True | Some p' \<Rightarrow> le_project_id e = p')
                     \<and> (case since of None \<Rightarrow> True | Some s \<Rightarrow> s \<le> le_ts e)"
  let ?E = "order_desc (\<lambda>e. (le_ts e, le_event_id e)) (filter ?P (db_events db))"
  have frame: "fetch_training_frame db p since limit = map (frame_row_of db) (take limit ?E)"
    by (simp only: fetch_training_frame_def)
  show "length (fetch_training_frame db p since limit) \<le> limit" by (simp add: frame)
  have "sorted_wrt (\<lambda>x y. (le_ts y, le_event_id y) \<le> (le_ts x, le_event_id x)) (take limit ?E)"
    by (rule sorted_wrt_take [OF sorted_order_desc])
  then show "sorted_wrt (\<lambda>a b. fr_ts b \<le> fr_ts a) (fetch_training_frame db p since limit)"
    unfolding frame sorted_wrt_map
    by (rule sorted_wrt_mono_rel [rotated]) (auto simp: frame_row_of_def Let_def)
  fix row assume "row \<in> set (fetch_training_frame db p since limit)"
  then obtain e where e: "e \<in> set (take limit ?E)" and row: "row = frame_row_of db e"
    by (auto simp: frame)
  have e': "e \<in> set (db_events db)" "?P e"
    using in_set_takeD [OF e] by auto
  have ev: "fr_event_id row = le_event_id e" "fr_new_label row = le_new_label e"
    "fr_ts row = le_ts e" "fr_project_id row = le_project_id e" "fr_item_id row = le_item_id e"
    "fr_suggestion row = snapshot_of db e"
    by (simp_all add: row frame_row_of_def Let_def)
  show "\<exists>e \<in> set (db_events db). le_event_id e = fr_event_id row \<and> le_new_label e = fr_new_label row
           \<and> le_ts e = fr_ts row \<and> event_of e = (fr_project_id row, fr_item_id row)"
    using e'(1) ev by (auto simp: event_of_def)
  show "case p of None \<Rightarrow> True | Some p' \<Rightarrow> fr_project_id row = p'"
    using e'(2) by (auto simp: ev split: option.splits)
  show "case fr_suggestion row of None \<Rightarrow> True
           | Some s \<Rightarrow> su_source s \<noteq> Some ''early'' \<and> su_created_at s \<le> fr_ts row
               \<and> suggestion_of s = (fr_project_id row, fr_item_id row)
               \<and> (\<forall>s' \<in> set (db_suggestions db). suggestion_of s' = suggestion_of s
                    \<and> su_created_at s' \<le> fr_ts row \<and> su_source s' \<noteq> Some ''early''
                    \<longrightarrow> su_created_at s' \<le> su_created_at s)"
  proof (cases "snapshot_of db e")
    case None
    then show ?thesis by (simp add: ev)
  next
    case (Some s)
    note N = newest_SomeD [OF Some [unfolded snapshot_of_def]]
    have "su_created_at s' \<le> su_created_at s"
      if "s' \<in> set (db_suggestions db)" "suggestion_of s' = suggestion_of s"
        "su_created_at s' \<le> le_ts e" "su_source s' \<noteq> Some ''early''" for s'
      using N(3) [OF that(1)] that N(2) by (auto simp: less_eq_prod_def)
    with N(2) Some show ?thesis by (simp add: ev event_of_def)
  qed
qed

definition demo_labelled_db :: db where
  "demo_labelled_db = fst (append_event 9 \<lparr>le_project_id = 1, le_item_id = 7, le_old_label = None,
     le_new_label = ''pb001'', le_source = ''rp_defect_update'', le_suggestion_id = None\<rparr> empty_db)"

theorem training_frame_no_leak_witness:
  "\<exists>row. fetch_training_frame demo_labelled_db (Some 1) None 5 = [row]
     \<and> fr_project_id row = 1 \<and> fr_suggestion row = None
     \<and> (\<exists>e \<in> set (db_events demo_labelled_db). le_event_id e = fr_event_id row)"
proof -
  obtain e where e: "db_events demo_labelled_db = [e]" "le_project_id e = 1"
    by (simp add: demo_labelled_db_def append_event_def empty_db_def Let_def label_event_in.defs)
  have s: "db_suggestions demo_labelled_db = []"
    by (simp add: demo_labelled_db_def append_event_def empty_db_def Let_def)
  have f: "fetch_training_frame demo_labelled_db (Some 1) None 5 = [frame_row_of demo_labelled_db e]"
    by (simp add: fetch_training_frame_def e order_desc_def)
  have "fr_suggestion (frame_row_of demo_labelled_db e) = None"
    by (simp add: frame_row_of_def Let_def snapshot_of_def newest_def s py_max_def)
  with f training_frame_no_leak [of demo_labelled_db "Some 1" None 5] show ?thesis by auto
qed

section \<open>Seed copies and merges\<close>

lemma set_mode_member:
  "r \<in> set (db_modes (set_mode p m f db)) \<Longrightarrow>
   \<exists>r0. r0 \<in> set (db_modes db) \<and> r = (if mode_key r0 = (p, m) then f r0 else r0)"
  by (auto simp: set_mode_def)

lemma find_snoc: "find P xs = None \<Longrightarrow> P y \<Longrightarrow> find P (xs @ [y]) = Some y"
  by (induction xs) (auto split: if_splits)

text \<open>
  The per-project copy of a seed mode is created once: after \<open>ensure_seed_mode\<close> the mode with
  that key is there, a second call - whatever it carries - returns the same identity and leaves
  every table as it is, and the modes of all other keys are untouched.
\<close>

theorem ensure_seed_mode_idempotent:
  "case ensure_seed_mode p k m db of (db1, i) \<Rightarrow>
     (\<exists>r \<in> set (db_modes db1). fm_project_id r = p \<and> fm_seed_key r = Some k \<and> fm_mode_id r = i)
     \<and> (\<exists>new. db_modes db1 = db_modes db @ new \<and> length new \<le> 1)
     \<and> (case ensure_seed_mode p k m' db1 of (db2, j) \<Rightarrow>
          j = i \<and> db_modes db2 = db_modes db1 \<and> db_members db2 = db_members db1
          \<and> db_projects db2 = db_projects db1)"
proof (cases "find (\<lambda>r. fm_project_id r = p \<and> fm_seed_key r = Some k) (db_modes db)")
  case None
  then have f: "find (\<lambda>r. fm_project_id r = p \<and> fm_seed_key r = Some k)
      (db_modes db @ [new_mode p (db_next_mode db) (Some k) m])
      = Some (new_mode p (db_next_mode db) (Some k) m)"
    by (rule find_snoc) simp
  with None show ?thesis by (simp add: ensure_seed_mode_def insert_mode_def Let_def)
next
  case (Some r)
  then have r: "r \<in> set (db_modes db)" "fm_project_id r = p" "fm_seed_key r = Some k"
    by (auto simp: find_Some_iff in_set_conv_nth)
  with Some show ?thesis by (simp add: ensure_seed_mode_def) blast
qed

lemma lookup_row_filter:
  assumes "\<And>r. r \<in> set rows \<Longrightarrow> key r = k \<Longrightarrow> P r"
  shows "lookup_row key k (filter P rows) = lookup_row key k rows"
  using assms by (induction rows) (auto simp: lookup_row_def)

lemma lookup_row_filter_out:
  assumes "\<And>r. r \<in> set rows \<Longrightarrow> key r = k \<Longrightarrow> \<not> P r"
  shows "lookup_row key k (filter P rows) = None"
  using assms by (auto simp: lookup_row_None_iff)

definition find_member :: "db \<Rightarrow> int \<Rightarrow> int \<Rightarrow> int \<Rightarrow> member_row option" where
  "find_member db p m i = lookup_row member_key (p, m, i) (db_members db)"

lemma lookup_moved:
  assumes "unique_by member_key rows"
  shows "lookup_row member_key (p, dst, i)
      (map (\<lambda>r. r\<lparr>mm_mode_id := dst\<rparr>) (filter (\<lambda>r. mm_project_id r = p \<and> mm_mode_id r = src) rows))
    = map_option (\<lambda>r. r\<lparr>mm_mode_id := dst\<rparr>) (lookup_row member_key (p, src, i) rows)"
proof -
  have "lookup_row member_key (p, dst, i)
      (map (\<lambda>r. r\<lparr>mm_mode_id := dst\<rparr>) (filter (\<lambda>r. mm_project_id r = p \<and> mm_mode_id r = src) rs))
    = map_option (\<lambda>r. r\<lparr>mm_mode_id := dst\<rparr>) (lookup_row member_key (p, src, i) rs)" for rs
    by (induction rs) (auto simp: lookup_row_def member_key_def)
  then show ?thesis .
qed

lemma moved_distinct:
  assumes "unique_by member_key rows"
  shows "distinct (map member_key
    (map (\<lambda>r. r\<lparr>mm_mode_id := dst\<rparr>) (filter (\<lambda>r. mm_project_id r = p \<and> mm_mode_id r = src) rows)))"
  using assms by (induction rows) (auto simp: unique_by_def member_key_def image_iff)

text \<open>
  Merging a mode into another one moves its members and loses none: every item of either mode
  is afterwards a member of the destination with the better of its two scores, the source has no
  members left and is retired, and the memberships of all other modes are unchanged.
\<close>

theorem merge_modes_moves_members:
  assumes "unique_by member_key (db_members db)" and "src \<noteq> dst"
    and "merge_modes p src dst db = Some db'"
  shows "(\<forall>i. find_member db' p dst i =
      (case find_member db p src i of
         None \<Rightarrow> find_member db p dst i
       | Some s \<Rightarrow> Some (case find_member db p dst i of
            None \<Rightarrow> s\<lparr>mm_mode_id := dst\<rparr>
          | Some d \<Rightarrow> d\<lparr>mm_match_score := max (mm_match_score d) (mm_match_score s)\<rparr>)))
    \<and> (\<forall>i. find_member db' p src i = None)
    \<and> (\<forall>q m i. (q, m) \<noteq> (p, src) \<and> (q, m) \<noteq> (p, dst) \<longrightarrow> find_member db' q m i = find_member db q m i)
    \<and> (\<forall>r \<in> set (db_modes db'). mode_key r = (p, src) \<longrightarrow> fm_status r = ''retired'')"
proof (rule merge_modes_SomeD [OF assms(3)])
  fix d s centroid ver
  let ?src = "\<lambda>r. mm_project_id r = p \<and> mm_mode_id r = src"
  let ?ms = "map (\<lambda>r. r\<lparr>mm_mode_id := dst\<rparr>) (filter ?src (db_members db))"
  let ?upd = "\<lambda>r. r\<lparr>fm_exception_fps := remdups (fm_exception_fps r @ fm_exception_fps s),
               fm_representative_template_ids := remdups (fm_representative_template_ids r
                 @ fm_representative_template_ids s),
               fm_support := fm_support r + fm_support s,
               fm_centroid := centroid, fm_emb_model_ver := ver\<rparr>"
  let ?rows = "fold (upsert member_key greatest_score) ?ms (db_members db)"
  let ?db2 = "put_members greatest_score ?ms db
      \<lparr>db_members := filter (\<lambda>r. \<not> ?src r) (db_members (put_members greatest_score ?ms db))\<rparr>"
  assume "db' = retire p src (set_mode p dst ?upd ?db2)"
  then have mem: "db_members db' = filter (\<lambda>r. \<not> ?src r) ?rows"
    and modes: "db_modes db' = db_modes (set_mode p src (\<lambda>r. r\<lparr>fm_status := ''retired''\<rparr>)
        (set_mode p dst ?upd ?db2))"
    by (simp_all add: retire_def put_members_def)
  have look: "lookup_row member_key k ?rows =
      (case lookup_row member_key k ?ms of None \<Rightarrow> lookup_row member_key k (db_members db)
       | Some s \<Rightarrow> Some (case lookup_row member_key k (db_members db) of None \<Rightarrow> s
                        | Some old \<Rightarrow> greatest_score old s))" for k
    by (rule greatest.lookup_fold_upsert [OF moved_distinct [OF assms(1)]])
  have none: "lookup_row member_key (q, m, i) ?ms = None" if "(q, m) \<noteq> (p, dst)" for q m i
    using that by (auto simp: lookup_row_None_iff member_key_def)
  have keep: "find_member db' q m i = lookup_row member_key (q, m, i) ?rows"
    if "(q, m) \<noteq> (p, src)" for q m i
    unfolding find_member_def mem by (rule lookup_row_filter) (use that in \<open>auto simp: member_key_def\<close>)
  have 1: "find_member db' p dst i =
      (case find_member db p src i of
         None \<Rightarrow> find_member db p dst i
       | Some s \<Rightarrow> Some (case find_member db p dst i of
            None \<Rightarrow> s\<lparr>mm_mode_id := dst\<rparr>
          | Some d \<Rightarrow> d\<lparr>mm_match_score := max (mm_match_score d) (mm_match_score s)\<rparr>))" for i
  proof -
    have k: "find_member db' p dst i = lookup_row member_key (p, dst, i) ?rows"
      by (rule keep) (use assms(2) in simp)
    show ?thesis
      unfolding k unfolding look lookup_moved [OF assms(1)] find_member_def greatest_score_def
      by (cases "lookup_row member_key (p, src, i) (db_members db)";
          cases "lookup_row member_key (p, dst, i) (db_members db)") simp_all
  qed
  have 2: "find_member db' p src i = None" for i
    unfolding find_member_def mem by (rule lookup_row_filter_out) (auto simp: member_key_def)
  have 3: "find_member db' q m i = find_member db q m i"
    if "(q, m) \<noteq> (p, src) \<and> (q, m) \<noteq> (p, dst)" for q m i
  proof -
    have k: "find_member db' q m i = lookup_row member_key (q, m, i) ?rows"
      by (rule keep) (use that in simp)
    have "lookup_row member_key (q, m, i) ?ms = None" by (rule none) (use that in simp)
    then show ?thesis unfolding k unfolding look find_member_def by simp
  qed
  have 4: "fm_status r = ''retired''"
    if r: "r \<in> set (db_modes db')" and rk: "mode_key r = (p, src)" for r
  proof -
    obtain r0 where "r = (if mode_key r0 = (p, src) then r0\<lparr>fm_status := ''retired''\<rparr> else r0)"
      using set_mode_member [OF r [unfolded modes]] by blast
    then show ?thesis using rk by (cases "mode_key r0 = (p, src)") simp_all
  qed
  have a: "\<forall>i. find_member db' p dst i =
      (case find_member db p src i of
         None \<Rightarrow> find_member db p dst i
       | Some s \<Rightarrow> Some (case find_member db p dst i of
            None \<Rightarrow> s\<lparr>mm_mode_id := dst\<rparr>
          | Some d \<Rightarrow> d\<lparr>mm_match_score := max (mm_match_score d) (mm_match_score s)\<rparr>))"
    by (rule allI) (rule 1)
  have b: "\<forall>i. find_member db' p src i = None" by (rule allI) (rule 2)
  have c: "\<forall>q m i. (q, m) \<noteq> (p, src) \<and> (q, m) \<noteq> (p, dst) \<longrightarrow> find_member db' q m i = find_member db q m i"
    by (intro allI impI) (rule 3)
  have e: "\<forall>r \<in> set (db_modes db'). mode_key r = (p, src) \<longrightarrow> fm_status r = ''retired''"
    by (intro ballI impI) (rule 4)
  show ?thesis by (rule conjI [OF a conjI [OF b conjI [OF c e]]])
qed

definition demo_modes_db :: db where
  "demo_modes_db = empty_db
     \<lparr>db_modes := [new_mode 1 1 None (seed_mode_in ''pb'' ''a''), new_mode 1 2 None (seed_mode_in ''pb'' ''b'')],
      db_members := [member 1 1 (9, 1 / 2, ''vector'')], db_next_mode := 3\<rparr>"

lemma demo_merge: "merge_modes 1 1 2 demo_modes_db \<noteq> None"
  by (simp add: merge_modes_def demo_modes_db_def find_mode_def lookup_row_def mode_key_def
      seed_mode_in_def merged_centroid_def Let_def new_mode_def mode_in.defs)

theorem merge_modes_moves_members_witness:
  "\<exists>db'. merge_modes 1 1 2 demo_modes_db = Some db' \<and> find_member db' 1 1 9 = None"
proof -
  obtain db' where m: "merge_modes 1 1 2 demo_modes_db = Some db'" using demo_merge by blast
  have "unique_by member_key (db_members demo_modes_db)"
    by (simp add: demo_modes_db_def unique_by_def)
  from merge_modes_moves_members [OF this _ m] m show ?thesis by simp
qed

section \<open>Purity counts what nobody investigated\<close>

text \<open>
  The purity statement counts the labels of the to-investigate group like any other: a mode all
  of whose labelled members are still ti gets purity 1 and a support equal to their number, the
  values of a perfectly confirmed mode.
\<close>

theorem purity_counts_uninvestigated:
  assumes "update_purity p m db = Some (db', x)"
    and "member_labels db p m \<noteq> []" and "set (member_labels db p m) \<subseteq> {''ti001''}"
  shows "x = 1 \<and> (\<forall>r \<in> set (db_modes db'). mode_key r = (p, m) \<longrightarrow>
      fm_purity r = 1 \<and> fm_support r = int (length (member_labels db p m)))"
proof -
  have one: "set (member_labels db p m) = {''ti001''}" using assms(2,3) by (cases "member_labels db p m") auto
  have "count_list ls t = length ls" if "set ls \<subseteq> {t}" for ls :: "string list" and t
    using that by (induction ls) auto
  then have "purity_of (member_labels db p m) = 1"
    using assms(2,3) by (simp add: purity_of_def one)
  with assms(1) obtain c where x: "x = 1"
    and db': "db' = set_mode p m (\<lambda>r'. r'\<lparr>fm_purity := 1,
        fm_support := int (length (member_labels db p m)), fm_centroid := c\<rparr>) db"
    by (auto simp: update_purity_def Let_def split: option.splits)
  show ?thesis unfolding x
  proof (intro conjI refl ballI impI)
    fix r assume r: "r \<in> set (db_modes db')" and k: "mode_key r = (p, m)"
    then obtain r0 where r0: "r = (if mode_key r0 = (p, m) then r0\<lparr>fm_purity := 1,
        fm_support := int (length (member_labels db p m)), fm_centroid := c\<rparr> else r0)"
      unfolding db' using set_mode_member by blast
    then have "mode_key r0 = (p, m)" using k by (simp add: mode_key_def split: if_splits)
    with r0 show "fm_purity r = 1" "fm_support r = int (length (member_labels db p m))" by simp_all
  qed
qed

definition demo_item_row :: "int \<Rightarrow> string option \<Rightarrow> item_row" where
  "demo_item_row i t = \<lparr>ti_project_id = 1, ti_item_id = i, ti_launch_id = 3, ti_launch_name = ''nightly'',
     ti_launch_number = None, ti_test_case_hash = Some 5, ti_unique_id = None, ti_item_name = ''t'',
     ti_start_time = None, ti_is_auto_analyzed = False, ti_issue_type = t, ti_log_count = 1,
     ti_log_time_max = None, ti_indexed_at = 0\<rparr>"

lemma demo_ti_labels:
  "member_labels (demo_modes_db\<lparr>db_items := [demo_item_row 9 (Some ''ti001'')]\<rparr>) 1 1 = [''ti001'']"
  by (simp add: member_labels_def demo_modes_db_def member_def map_filter_def find_item_def
      lookup_row_def item_key_def demo_item_row_def)

theorem purity_counts_uninvestigated_witness:
  "map_option snd (update_purity 1 1 (demo_modes_db\<lparr>db_items := [demo_item_row 9 (Some ''ti001'')]\<rparr>))
     = Some 1"
proof -
  have "update_purity 1 1 (demo_modes_db\<lparr>db_items := [demo_item_row 9 (Some ''ti001'')]\<rparr>) \<noteq> None"
    by (simp add: update_purity_def find_mode_def demo_modes_db_def lookup_row_def mode_key_def Let_def)
  then obtain db' x where
    u: "update_purity 1 1 (demo_modes_db\<lparr>db_items := [demo_item_row 9 (Some ''ti001'')]\<rparr>) = Some (db', x)"
    by force
  have "x = 1" using purity_counts_uninvestigated [OF u] by (simp add: demo_ti_labels)
  with u show ?thesis by simp
qed

section \<open>The cold-start row in the training frame\<close>

text \<open>
  A cold-start hypothesis replaces the feature snapshot of its item: when the cold-start role
  has inserted its row for an item (after the decision row, at t2) and a human then labels the item
  (at t3), the training frame pairs the new label with the cold-start row, whose vector is the
  default of every feature, and not with the snapshot of the decision.
\<close>

theorem coldstart_replaces_snapshot:
  assumes "ids_ok db" and "\<forall>s \<in> set (db_suggestions db). su_created_at s \<le> t2" and "t2 \<le> t3"
    and "insert_coldstart t2 p i l label conf ver rule db = (db1, sid)"
    and "append_event t3 \<lparr>le_project_id = p, le_item_id = i, le_old_label = old,
           le_new_label = new, le_source = src, le_suggestion_id = None\<rparr> db1 = (db2, eid)"
  shows "\<exists>row \<in> set (fetch_training_frame db2 None None (length (db_events db2))). \<exists>s.
    fr_event_id row = eid \<and> fr_new_label row = new \<and> fr_suggestion row = Some s
    \<and> su_suggestion_id s = sid \<and> to_vector (su_features s) = map fd_default FEATURES"
proof -
  define c where "c = \<lparr>su_project_id = p, su_item_id = i, su_launch_id = l, su_group_id = None,
      su_predicted_label = label, su_confidence = conf, su_matched_mode_id = None,
      su_matched_item_id = None, su_features = Map.empty, su_model_ver = ver, su_llm_used = True,
      su_method = Some ''coldstart'', su_abstain_reason = None, su_explanation = None,
      su_source = None, su_suggestion_id = sid, su_judge = None, su_coldstart = Some rule,
      su_outcome = ''pending'', su_outcome_ts = None, su_created_at = t2\<rparr>"
  have sid: "sid = db_next_suggestion db"
    using assms(4) by (simp add: insert_coldstart_def Let_def)
  have db1: "db1 = db\<lparr>db_suggestions := db_suggestions db @ [c], db_next_suggestion := sid + 1\<rparr>"
    using assms(4) by (simp add: insert_coldstart_def Let_def c_def sid)
  have c: "su_suggestion_id c = sid" "su_created_at c = t2" "suggestion_of c = (p, i)"
      "su_source c = None" "su_features c = Map.empty"
    by (simp_all add: c_def suggestion_of_def)
  have eid: "eid = db_next_event db1"
    using assms(5) by (simp add: append_event_def Let_def)
  define e where "e = \<lparr>le_project_id = p, le_item_id = i, le_old_label = old, le_new_label = new,
      le_source = src, le_suggestion_id = None, le_event_id = eid, le_ts = t3\<rparr>"
  have db2: "db2 = db1\<lparr>db_events := db_events db1 @ [e], db_next_event := eid + 1\<rparr>"
    using assms(5) by (simp add: append_event_def Let_def e_def label_event_in.defs eid)
  have e: "le_event_id e = eid" "le_ts e = t3" "event_of e = (p, i)" "le_new_label e = new"
    by (simp_all add: e_def event_of_def)
  let ?P = "\<lambda>r. suggestion_of r = event_of e \<and> su_created_at r \<le> le_ts e
      \<and> su_source r \<noteq> Some ''early''"
  have sugg: "db_suggestions db2 = db_suggestions db @ [c]" by (simp add: db2 db1)
  have Pc: "?P c" using c e assms(3) by simp
  have "newest ?P db2 \<noteq> None" unfolding newest_def py_max_None_iff sugg using Pc by simp
  then obtain m where m: "newest ?P db2 = Some m" by blast
  note N = newest_SomeD [OF m]
  have "m = c"
  proof (rule ccontr)
    assume "m \<noteq> c"
    with N(1) have "m \<in> set (db_suggestions db)" by (simp add: sugg)
    then have "su_created_at m \<le> t2" "su_suggestion_id m < sid"
      using assms(1,2) by (auto simp: ids_ok_def sid)
    moreover have "(su_created_at c, su_suggestion_id c) \<le> (su_created_at m, su_suggestion_id m)"
      by (rule N(3)) (use Pc in \<open>simp_all add: sugg\<close>)
    ultimately show False using c by (auto simp: less_eq_prod_def)
  qed
  with m have snap: "snapshot_of db2 e = Some c" by (simp add: snapshot_of_def)
  have "e \<in> set (db_events db2)" by (simp add: db2)
  then have "frame_row_of db2 e \<in> set (fetch_training_frame db2 None None (length (db_events db2)))"
    by (simp add: fetch_training_frame_def)
  moreover have "to_vector (su_features c) = map fd_default FEATURES"
    by (simp add: to_vector_def c)
  ultimately show ?thesis
    using snap e c by (intro bexI [of _ "frame_row_of db2 e"] exI [of _ c])
      (auto simp: frame_row_of_def Let_def)
qed

theorem coldstart_replaces_snapshot_witness:
  "\<exists>db2 eid. append_event 9 \<lparr>le_project_id = 1, le_item_id = 2, le_old_label = None,
       le_new_label = ''pb001'', le_source = ''rp_defect_update'', le_suggestion_id = None\<rparr>
       (fst (insert_coldstart 5 1 2 3 ''si001'' (55 / 100) ''rubric+m'' ''R6'' empty_db)) = (db2, eid)
     \<and> (\<exists>row \<in> set (fetch_training_frame db2 None None (length (db_events db2))). \<exists>s.
          fr_event_id row = eid \<and> fr_suggestion row = Some s
          \<and> to_vector (su_features s) = map fd_default FEATURES)"
proof -
  obtain db1 sid where c: "insert_coldstart 5 1 2 3 ''si001'' (55 / 100) ''rubric+m'' ''R6'' empty_db
      = (db1, sid)" by fastforce
  obtain db2 eid where a: "append_event 9 \<lparr>le_project_id = 1, le_item_id = 2, le_old_label = None,
       le_new_label = ''pb001'', le_source = ''rp_defect_update'', le_suggestion_id = None\<rparr> db1
      = (db2, eid)" by fastforce
  have "ids_ok empty_db" and "\<forall>s \<in> set (db_suggestions empty_db). su_created_at s \<le> 5"
    by (simp_all add: empty_db_def ids_ok_def)
  from coldstart_replaces_snapshot [OF this _ c a] a c show ?thesis by auto
qed

end
