(* ===== verification/Handlers.thy ===== *)
theory Handlers
  imports SuggestSpec StoreSpec LlmApply
begin

text \<open>
  \<open>core/handlers.py\<close>: what each routing key does once the stores are bound - and the stub replies
  when they are not -, and the service as a step relation: one step per message, per nightly reaping
  and per LLM answer, in any order. Every step is a sequence of the store statements the service
  issues, so what those statements keep, every reachable state has. The ISO dates of the two
  remove-by-date messages are arguments, already parsed.
\<close>

section \<open>Handlers\<close>

definition REASON_EVENTS :: string where "REASON_EVENTS = ''events''"
definition REASON_ROUTE :: string where "REASON_ROUTE = ''route''"

definition h_delete :: "bool \<Rightarrow> int \<Rightarrow> db \<Rightarrow> db \<times> int" where
  "h_delete bound p db = (if bound then delete_project p db else (db, 0))"

definition h_clean :: "bool \<Rightarrow> int \<Rightarrow> int list \<Rightarrow> db \<Rightarrow> db \<times> int" where
  "h_clean bound p ids db = (db, 0)"

definition h_item_remove :: "bool \<Rightarrow> int \<Rightarrow> int list \<Rightarrow> db \<Rightarrow> db \<times> int" where
  "h_item_remove bound p ids db = (if bound then delete_items p ids db else (db, 0))"

definition h_launch_remove :: "bool \<Rightarrow> int \<Rightarrow> int list \<Rightarrow> db \<Rightarrow> db \<times> int" where
  "h_launch_remove bound p ids db = (if bound then delete_launches p ids db else (db, 0))"

definition h_remove_by_dates ::
  "bool \<Rightarrow> int \<Rightarrow> time_field \<Rightarrow> seconds \<Rightarrow> seconds \<Rightarrow> db \<Rightarrow> db \<times> int" where
  "h_remove_by_dates bound p f from_ts to_ts db =
     (if bound then delete_by_time_range p f to_ts (Some from_ts) db else (db, 0))"

text \<open>The retrain request, when the scheduler exists.\<close>

definition h_train_models :: "bool \<Rightarrow> string list" where
  "h_train_models bound = (if bound then [REASON_ROUTE] else [])"

text \<open>One entry of a \<open>defect_update\<close>; \<open>None\<close> is an exception (a membership without its mode).\<close>

definition defect_item ::
  "seconds \<Rightarrow> int \<Rightarrow> (int \<rightharpoonup> string option) \<Rightarrow> int \<times> string \<Rightarrow> db \<Rightarrow> db option" where
  "defect_item now p existing = (\<lambda>(i, t) db.
     (case existing i of
        None \<Rightarrow> Some db
      | Some old \<Rightarrow>
          (let db1 = fst (update_issue_type p i (Some t) False db);
               db2 = fst (append_event now \<lparr>le_project_id = p, le_item_id = i, le_old_label = old,
                       le_new_label = t, le_source = ''rp_defect_update'', le_suggestion_id = None\<rparr> db1);
               db3 = (case member_mode_id db2 p i of
                        None \<Rightarrow> Some db2
                      | Some m \<Rightarrow> map_option fst (update_purity p m db2))
           in map_option (\<lambda>db. fst (record_feedback_outcome now p i t db)) db3)))"

fun defect_items ::
  "seconds \<Rightarrow> int \<Rightarrow> (int \<rightharpoonup> string option) \<Rightarrow> (int \<times> string) list \<Rightarrow> db \<Rightarrow> db option" where
  "defect_items now p existing [] db = Some db"
| "defect_items now p existing (u # us) db =
     Option.bind (defect_item now p existing u db) (defect_items now p existing us)"

definition normalize_updates :: "(int \<times> string) list \<Rightarrow> (int \<times> string) list" where
  "normalize_updates us = map (\<lambda>(i, t). (i, lower_str (strip t))) us"

text \<open>The reply is the ids not found; the third component is the retrain request.\<close>

definition h_defect_update ::
  "bool \<Rightarrow> seconds \<Rightarrow> int \<Rightarrow> (int \<times> string) list \<Rightarrow> db \<Rightarrow> (db \<times> int list \<times> string list) option" where
  "h_defect_update bound now p raw db =
     (if \<not> bound then Some (db, map fst raw, [])
      else
        (let us = normalize_updates raw;
             existing = get_items_labels db p (map fst us)
         in map_option (\<lambda>db'. (db', filter (\<lambda>i. existing i = None) (map fst us), [REASON_EVENTS]))
              (defect_items now p existing us db)))"

section \<open>Statements and steps\<close>

text \<open>The statements the service itself issues. Of the knowledge base's writes, the code calls only
  the seed copy, the memberships and the purity update; the history is only bumped by \<open>index\<close>, with
  a failure.\<close>

inductive service_stmt :: "db \<Rightarrow> db \<Rightarrow> bool" where
  items: "service_stmt db (fst (upsert_items now rows db))"
| signatures: "service_stmt db (fst (upsert_signatures sigs db))"
| issue_type: "service_stmt db (fst (update_issue_type p i t auto db))"
| suggestion: "service_stmt db (fst (write_suggestion now s db))"
| explanation: "service_stmt db (set_explanation p sid e db)"
| judge: "service_stmt db (annotate_judge p i chosen db)"
| coldstart: "service_stmt db (fst (insert_coldstart now p i l label conf ver rule db))"
| group: "service_stmt db (fst (upsert_launch_group p l fp n prior main db))"
| event: "service_stmt db (fst (append_event now ev db))"
| feedback: "service_stmt db (fst (record_feedback_outcome now p i t db))"
| del_items: "service_stmt db (fst (delete_items p ids db))"
| del_launches: "service_stmt db (fst (delete_launches p ids db))"
| del_range: "service_stmt db (fst (delete_by_time_range p f before after db))"
| del_project: "service_stmt db (fst (delete_project p db))"
| reap: "service_stmt db (fst (reap_orphan_label_events now days db))"
| bump: "service_stmt db (bump_test_history p tch True ts db)"
| seed: "service_stmt db (fst (ensure_seed_mode p k (seed_mode_in l title) db))"
| members: "add_members p m ms v db = Some (db', n) \<Longrightarrow> service_stmt db db'"
| purity: "update_purity p m db = Some (db', x) \<Longrightarrow> service_stmt db db'"

abbreviation stmts :: "db \<Rightarrow> db \<Rightarrow> bool" where
  "stmts \<equiv> rtranclp service_stmt"

inductive service_step ::
  "an_state \<times> 'm drain_store \<Rightarrow> an_state \<times> 'm drain_store \<Rightarrow> bool" where
  index: "r = index_launches pl now others launches (as_db st) mst
     \<Longrightarrow> service_step (st, mst) (st\<lparr>as_db := ix_db r\<rparr>, ix_drain r)"
| analyze: "service_step (st, mst) (fst (analyze eng mst now launches st), mst)"
| early: "service_step (st, mst) (fst (analyze_item_early eng mst now launches st), mst)"
| suggest: "service_step (st, mst) (fst (suggest eng mst now elapsed info st), mst)"
| defect: "h_defect_update True now p raw (as_db st) = Some (db', missing, reqs)
     \<Longrightarrow> service_step (st, mst) (st\<lparr>as_db := db'\<rparr>, mst)"
| delete: "service_step (st, mst) (st\<lparr>as_db := fst (h_delete True p (as_db st))\<rparr>, mst)"
| item_remove: "service_step (st, mst) (st\<lparr>as_db := fst (h_item_remove True p ids (as_db st))\<rparr>, mst)"
| launch_remove:
    "service_step (st, mst) (st\<lparr>as_db := fst (h_launch_remove True p ids (as_db st))\<rparr>, mst)"
| by_dates:
    "service_step (st, mst) (st\<lparr>as_db := fst (h_remove_by_dates True p f a b (as_db st))\<rparr>, mst)"
| nightly: "service_step (st, mst) (st\<lparr>as_db := fst (reap_orphan_label_events now days (as_db st))\<rparr>, mst)"
| llm: "apply_role strip_ids tag now p i inp out (as_db st) = Some db'
     \<Longrightarrow> service_step (st, mst) (st\<lparr>as_db := db'\<rparr>, mst)"
| dequeue: "service_step (st, mst) (st\<lparr>as_jobs := jobs\<rparr>, mst)"

inductive_cases service_stepE: "service_step s s'"

section \<open>Every step is a sequence of statements\<close>

lemma stmts_refl [simp]: "stmts db db"
  by simp

lemma stmt1: "service_stmt db db' \<Longrightarrow> stmts db db'"
  by (rule r_into_rtranclp)

lemma stmts_trans [trans]: "stmts a b \<Longrightarrow> stmts b c \<Longrightarrow> stmts a c"
  by (rule rtranclp_trans)

lemma stmts_fold:
  assumes "\<And>x s. stmts (v s) (v (f x s))"
  shows "stmts (v s) (v (fold f xs s))"
  by (induction xs arbitrary: s) (auto intro: stmts_trans assms)

lemma persist_stmts: "stmts db (persist_recomputed_signature p rep db)"
  by (auto simp: persist_recomputed_signature_def Let_def intro: stmt1 signatures)

lemma resolve_stmts: "stmts db (fst (resolve_identity p rep db))"
  by (simp add: resolve_identity_def Let_def persist_stmts split: option.split)

lemma seed_stmts: "stmts db (fst (seed_signal_of eng p sig db))"
  by (auto simp: seed_signal_of_def Let_def split_beta intro: stmt1 seed split: option.split)

lemma decide_stmts: "stmts db (fst (decide_item eng now a rep g db))"
  using stmts_trans [OF resolve_stmts seed_stmts]
  by (simp add: decide_item_def Let_def split_beta)

lemma membership_stmts: "stmts db (record_membership p ids m rep db)"
  by (auto simp: record_membership_def intro: stmt1 members split: option.split)

lemma write_stmts: "stmts (as_db st) (as_db (write_and_enqueue eng now p i l gid source d st))"
  unfolding write_and_enqueue_db by (rule stmt1) (rule suggestion)

lemma label_stmts: "stmts (as_db st) (as_db (label_item p i d st))"
  by (simp add: label_item_def) (rule stmt1, rule issue_type)

lemma write_label_stmts:
  "stmts (as_db st) (as_db (label_item p' i' d' (write_and_enqueue eng now p i l gid source d st)))"
  by (rule stmts_trans [OF write_stmts label_stmts])

lemma finish_stmts: "stmts (as_db (ms_state s)) (as_db (ms_state (finish_member eng now la gid i d s)))"
  by (simp add: finish_member_def Let_def write_label_stmts write_stmts)

lemma member_stmts:
  "stmts (as_db (ms_state s)) (as_db (ms_state (analyze_member eng now c g d rep gid gi s)))"
proof -
  let ?i = "gi_item_id gi"
  obtain d' st1 b where md: "member_decision eng now c g d rep ?i (ms_state s) = ((d', st1), b)"
    by (metis prod.collapse)
  have 1: "stmts (as_db (ms_state s)) (as_db st1)"
    using md stmts_trans [OF decide_stmts membership_stmts]
    by (auto simp: member_decision_def split_beta split: if_splits option.splits)
  show ?thesis
    unfolding analyze_member_def Let_def md prod.case
    by (rule stmts_trans [OF 1]) (rule stmts_trans [OF _ finish_stmts], simp)
qed

lemma group_stmts: "stmts (as_db (fst s)) (as_db (fst (analyze_group eng now c g s)))"
proof -
  obtain st out where s: "s = (st, out)" by (cases s)
  show ?thesis
  proof (cases "Option.bind (lg_representative g) (\<lambda>r. lc_by_id c (gi_item_id r))")
    case None
    then show ?thesis by (simp add: analyze_group_def s)
  next
    case (Some rep)
    let ?p = "la_project (lc_launch c)"
    obtain db1 d m where di: "decide_item eng now
        (launch_args (lc_launch c) (lc_total c) ''analyze'') rep g (as_db st) = (db1, d, m)"
      using prod_cases3 by blast
    obtain db2 gid where ug: "upsert_launch_group ?p (la_launch_id (lc_launch c)) (fingerprint g)
        (int (length (lg_members g))) (lg_si_prior g) (lg_si_prior g > 0) db1 = (db2, gid)" by fastforce
    have "stmts (as_db st) db1"
      using decide_stmts [of "as_db st" eng now "launch_args (lc_launch c) (lc_total c) ''analyze''" rep g]
      unfolding di by simp
    also have "stmts db1 db2"
      using stmt1 [OF group [of db1 ?p "la_launch_id (lc_launch c)" "fingerprint g"
          "int (length (lg_members g))" "lg_si_prior g" "lg_si_prior g > 0"]] unfolding ug by simp
    also have "stmts db2 (as_db (ms_state (fold (analyze_member eng now c g d rep gid) (lg_members g)
        \<lparr>ms_state = st\<lparr>as_db := db2\<rparr>, ms_out = out, ms_inherit = []\<rparr>)))"
      using stmts_fold [where v = "\<lambda>s. as_db (ms_state s)" and f = "analyze_member eng now c g d rep gid"
        and s = "\<lparr>ms_state = st\<lparr>as_db := db2\<rparr>, ms_out = out, ms_inherit = []\<rparr>" and xs = "lg_members g",
        OF member_stmts] by simp
    finally have "stmts (as_db st) (as_db (ms_state (fold (analyze_member eng now c g d rep gid)
        (lg_members g) \<lparr>ms_state = st\<lparr>as_db := db2\<rparr>, ms_out = out, ms_inherit = []\<rparr>)))" .
    from stmts_trans [OF this membership_stmts] show ?thesis
      by (simp add: analyze_group_def s Some di ug Let_def)
  qed
qed

lemma analyze_stmts: "stmts (as_db st) (as_db (fst (analyze eng mst now launches st)))"
proof -
  have l: "stmts (as_db st) (as_db (fst (analyze_launch eng mst now la st)))" for la st
  proof -
    obtain c gs where cg: "launch_ctx_of eng mst la (as_db st) = (c, gs)" by fastforce
    show ?thesis
      using stmts_fold [where v = "\<lambda>s. as_db (fst s)" and f = "analyze_group eng now c"
        and s = "(st, [])" and xs = gs, OF group_stmts] by (simp add: analyze_launch_def cg)
  qed
  show ?thesis unfolding analyze_def
    using stmts_fold [where v = "\<lambda>s. as_db (fst s)" and s = "(st, [])" and xs = launches and
      f = "\<lambda>la (st, out). let (st', more) = analyze_launch eng mst now la st in (st', out @ more)"] l
    by (simp add: split_beta)
qed

lemma early_stmts: "stmts (as_db st) (as_db (fst (analyze_item_early eng mst now launches st)))"
proof -
  have item: "stmts (as_db (fst s)) (as_db (fst (early_item eng now la rep s)))" for la rep s
  proof -
    obtain st out where s: "s = (st, out)" by (cases s)
    obtain db1 d m where di: "decide_item eng now (launch_args la 1 ''analyze_item_early'') rep
        (singleton_group rep) (as_db st) = (db1, d, m)" using prod_cases3 by blast
    have "stmts (as_db st) db1"
      using decide_stmts [of "as_db st" eng now "launch_args la 1 ''analyze_item_early''" rep
          "singleton_group rep"] unfolding di by simp
    from stmts_trans [OF this membership_stmts]
    have 1: "stmts (as_db st) (as_db (st\<lparr>as_db := record_membership (la_project la) [item_id_of rep] m rep db1\<rparr>))"
      by simp
    show ?thesis
      unfolding early_item_def s prod.case Let_def di
      by (simp add: stmts_trans [OF 1 write_stmts] stmts_trans [OF 1 write_label_stmts])
  qed
  show ?thesis
    unfolding analyze_item_early_def
    by (simp add: stmts_fold [where v = "\<lambda>s. as_db (fst s)" and s = "(st, [])", simplified]
        stmts_fold [where v = "\<lambda>s. as_db (fst s)", OF item])
qed

lemma suggest_stmts: "stmts (as_db st) (as_db (fst (suggest eng mst now elapsed info st)))"
proof -
  let ?la = "pseudo_launch info" and ?p = "ii_project info" and ?i = "ii_test_item_id info"
  show ?thesis
  proof (cases "build_item_analyses (ae_pipeline eng) mst ?p (map (\<lambda>t. (?la, t)) (la_test_items ?la))")
    case Nil
    then show ?thesis by (simp add: suggest_def Let_def)
  next
    case (Cons rep reps)
    obtain db1 d m where di: "decide_item eng now (launch_args ?la 1 ''suggest'') rep
        (singleton_group rep) (as_db st) = (db1, d, m)" using prod_cases3 by blast
    have "stmts (as_db st) db1"
      using decide_stmts [of "as_db st" eng now "launch_args ?la 1 ''suggest''" rep
          "singleton_group rep"] unfolding di by simp
    also have "stmts db1 (record_membership ?p [?i] m rep db1)" by (rule membership_stmts)
    also have "stmts (record_membership ?p [?i] m rep db1) (fst (write_suggestion now
        (suggestion_of_decision eng ?p ?i (ii_launch_id info) None None d)
        (record_membership ?p [?i] m rep db1)))" by (rule stmt1) (rule suggestion)
    finally show ?thesis
      unfolding suggest_def Let_def Cons list.case di prod.case split_beta by simp
  qed
qed

lemma commit_stmts: "stmts db (commit_batch now p b db)"
proof -
  have "stmts db (fst (upsert_items now (ib_items b) db))" by (rule stmt1) (rule items)
  also have "stmts \<dots> (fst (upsert_signatures (ib_sigs b) (fst (upsert_items now (ib_items b) db))))"
    by (rule stmt1) (rule signatures)
  also have "stmts \<dots> (commit_batch now p b db)"
    unfolding commit_batch_def
    by (rule stmts_fold [where v = id, unfolded id_apply]) (auto intro: stmt1 bump)
  finally show ?thesis .
qed

lemma index_stmts: "stmts db (ix_db (index_launches pl now others launches db mst))"
proof -
  have "stmts (ix_db s) (ix_db (index_project pl now others pe s))" for pe s
    by (auto simp: index_project_def commit_stmts split: prod.splits option.splits)
  from stmts_fold [where v = ix_db, OF this, where s = "\<lparr>ix_db = db, ix_drain = mst,
      ix_reply = \<lparr>br_errors = False, br_log_results = []\<rparr>\<rparr>"]
  show ?thesis unfolding index_launches_def by simp
qed

lemma defect_item_stmts:
  assumes "defect_item now p ex u db = Some db'"
  shows "stmts db db'"
proof -
  obtain i t where u: "u = (i, t)" by (cases u)
  show ?thesis
  proof (cases "ex i")
    case None
    then show ?thesis using assms by (simp add: defect_item_def u)
  next
    case (Some old)
    define db1 where "db1 = fst (update_issue_type p i (Some t) False db)"
    define db2 where "db2 = fst (append_event now \<lparr>le_project_id = p, le_item_id = i, le_old_label = old,
                       le_new_label = t, le_source = ''rp_defect_update'', le_suggestion_id = None\<rparr> db1)"
    have "map_option (\<lambda>db. fst (record_feedback_outcome now p i t db))
        (case member_mode_id db2 p i of None \<Rightarrow> Some db2
         | Some m \<Rightarrow> map_option fst (update_purity p m db2)) = Some db'"
      using assms unfolding defect_item_def u prod.case Some option.case Let_def db1_def db2_def .
    then obtain db3 where db3: "(case member_mode_id db2 p i of None \<Rightarrow> Some db2
        | Some m \<Rightarrow> map_option fst (update_purity p m db2)) = Some db3"
        and db': "db' = fst (record_feedback_outcome now p i t db3)" by blast
    have "stmts db db1" unfolding db1_def by (rule stmt1) (rule issue_type)
    also have "stmts db1 db2" unfolding db2_def by (rule stmt1) (rule event)
    also have "stmts db2 db3" using db3 by (auto split: option.splits intro: stmt1 purity)
    also have "stmts db3 db'" unfolding db' by (rule stmt1) (rule feedback)
    finally show ?thesis .
  qed
qed

lemma defect_items_stmts: "defect_items now p ex us db = Some db' \<Longrightarrow> stmts db db'"
proof (induction us arbitrary: db)
  case Nil
  then show ?case by simp
next
  case (Cons u us)
  then obtain db1 where "defect_item now p ex u db = Some db1" "defect_items now p ex us db1 = Some db'"
    by (auto simp: bind_eq_Some_conv)
  then show ?case using Cons.IH defect_item_stmts stmts_trans by blast
qed

lemma coldstart_stmts:
  assumes "apply_coldstart strip_ids now p i l o' g tag db = Some (db', sid)"
  shows "stmts db db'"
proof -
  obtain c where c: "CONFIDENCE_SCORE (coldstart_bucket o') = Some c"
    using assms by (auto simp: apply_coldstart_def split: option.splits)
  obtain db1 n where ins: "insert_coldstart now p i l g c (''rubric+'' @ tag) (co_rule o') db = (db1, n)"
    by fastforce
  have 1: "stmts db db1" using stmt1 [OF coldstart [of db now p i l g c _ "co_rule o'"]] ins by (metis fst_conv)
  have "stmts db1 (set_explanation p n e db1)" for e by (rule stmt1) (rule explanation)
  then have "stmts db (if strip_ids (co_reason o') = [] then db1
      else set_explanation p n (strip_ids (co_reason o')) db1)" using 1 stmts_trans by auto
  then show ?thesis
    using assms unfolding apply_coldstart_def c option.case ins Let_def prod.case by simp
qed

lemma judge_stmts: "apply_judge p i cands choice db = Some db' \<Longrightarrow> stmts db db'"
  by (auto simp: apply_judge_def split: if_splits option.splits intro: stmt1 judge)

lemma role_stmts: "apply_role strip_ids tag now p i inp r db = Some db' \<Longrightarrow> stmts db db'"
  by (cases r) (auto simp: apply_role_def split: option.splits
      intro: stmt1 explanation judge_stmts coldstart_stmts)

text \<open>The steps, one by one, refine into the statements.\<close>

lemma step_stmts: "service_step s s' \<Longrightarrow> stmts (as_db (fst s)) (as_db (fst s'))"
proof (induction rule: service_step.induct)
  case (index r pl now others launches st mst)
  then show ?case by (simp add: index_stmts)
next
  case (defect now p raw st db' missing reqs mst)
  then show ?case by (auto simp: h_defect_update_def Let_def intro: defect_items_stmts)
next
  case (nightly st mst now days)
  then show ?case by (simp add: stmt1 reap)
qed (auto simp: h_delete_def h_item_remove_def h_launch_remove_def h_remove_by_dates_def
    intro: analyze_stmts early_stmts suggest_stmts role_stmts
      stmt1 del_project del_items del_launches del_range)

lemma reachable_stmts: "service_step\<^sup>*\<^sup>* s s' \<Longrightarrow> stmts (as_db (fst s)) (as_db (fst s'))"
  by (induction rule: rtranclp_induct) (auto intro: stmts_trans step_stmts)

lemma stmt_store_step: "service_stmt db db' \<Longrightarrow> store_step db db'"
  by (induction rule: service_stmt.induct) (auto intro: store_step.intros)

lemma stmts_store_steps: "stmts db db' \<Longrightarrow> store_step\<^sup>*\<^sup>* db db'"
  by (induction rule: rtranclp_induct) (auto intro: stmt_store_step rtranclp.rtrancl_into_rtrancl)

section \<open>What every reachable state has\<close>

definition unconfirmed :: "db \<Rightarrow> bool" where
  "unconfirmed db \<longleftrightarrow> (\<forall>m \<in> set (db_modes db). fm_status m = ''candidate'')"

definition only_failed :: "history_row \<Rightarrow> bool" where
  "only_failed h \<longleftrightarrow> th_window_flips h = 0 \<and> th_flakiness_score h = 0
     \<and> th_window_failures h = th_window_runs h \<and> th_last_status h = Some ''failed''"

definition only_failures :: "db \<Rightarrow> bool" where
  "only_failures db \<longleftrightarrow> (\<forall>h \<in> set (db_history db). only_failed h)"

definition service_ok :: "db \<Rightarrow> bool" where
  "service_ok db \<longleftrightarrow> db_ok db \<and> unconfirmed db \<and> only_failures db"

lemma unconfirmed_modes: "db_modes db' = db_modes db \<Longrightarrow> unconfirmed db \<Longrightarrow> unconfirmed db'"
  by (simp add: unconfirmed_def)

lemma unconfirmed_set_mode:
  assumes "unconfirmed db" and "\<And>r. fm_status (f r) = fm_status r"
  shows "unconfirmed (set_mode p m f db)"
  using assms by (auto simp: unconfirmed_def set_mode_def)

lemma unconfirmed_put: "unconfirmed (put_members f ms db) \<longleftrightarrow> unconfirmed db"
  by (simp add: unconfirmed_def put_members_def)

lemma stmt_unconfirmed:
  assumes "service_stmt db db'" and "unconfirmed db"
  shows "unconfirmed db'"
  using assms
proof (induction rule: service_stmt.induct)
  case (seed db p k l title)
  then show ?case
    by (auto simp: ensure_seed_mode_def insert_mode_def new_mode_def seed_mode_in_def unconfirmed_def
        Let_def mode_in.defs split: option.split)
next
  case (members p m ms v db db' n)
  then show ?case
    by (auto simp: add_members_def Let_def unconfirmed_put split: if_splits
        intro!: unconfirmed_set_mode)
next
  case (purity p m db db' x)
  then show ?case
    by (auto simp: update_purity_def Let_def split: option.splits intro!: unconfirmed_set_mode)
next
  case (del_project db p)
  then show ?case by (auto simp: delete_project_def unconfirmed_def)
qed (auto intro: unconfirmed_modes simp: upsert_items_def upsert_signatures_def update_issue_type_def
    write_suggestion_def set_explanation_def annotate_judge_def insert_coldstart_def Let_def
    upsert_launch_group_def append_event_def record_feedback_outcome_def delete_items_def
    delete_launches_def delete_by_time_range_def delete_where_def purge_items_def
    reap_orphan_label_events_def mark_orphans_def unmark_orphans_def bump_test_history_def
    split: option.split prod.split)

lemma stmt_history:
  assumes "service_stmt db db'"
  shows "set (db_history db') \<subseteq> set (db_history db)
    \<or> (\<exists>p tch ts. db' = bump_test_history p tch True ts db)"
  using assms
  by (cases rule: service_stmt.cases)
    (auto simp: upsert_items_def upsert_signatures_def update_issue_type_def
      write_suggestion_def set_explanation_def annotate_judge_def insert_coldstart_def Let_def
      upsert_launch_group_def append_event_def record_feedback_outcome_def delete_items_def
      delete_launches_def delete_by_time_range_def delete_where_def purge_items_def
      delete_project_def reap_orphan_label_events_def mark_orphans_def unmark_orphans_def
      ensure_seed_mode_def insert_mode_def add_members_def put_members_def set_mode_def update_purity_def
      split: option.splits prod.splits if_splits)

lemma only_failed_new: "only_failed (bump_new p tch True ts)"
  by (simp add: only_failed_def bump_new_def)

lemma only_failed_merge:
  "only_failed h \<Longrightarrow> only_failed (merge_history True ts h (bump_new p tch True ts))"
  by (simp add: only_failed_def merge_history_def bump_new_def)

lemma stmt_only_failures:
  assumes "service_stmt db db'" and "only_failures db"
  shows "only_failures db'"
  using stmt_history [OF assms(1)]
proof (elim disjE exE)
  assume "set (db_history db') \<subseteq> set (db_history db)"
  then show ?thesis using assms(2) by (auto simp: only_failures_def)
next
  fix p tch ts assume db': "db' = bump_test_history p tch True ts db"
  show ?thesis
    unfolding only_failures_def
  proof
    fix h assume "h \<in> set (db_history db')"
    from bump_history_member [OF this [unfolded db']] assms(2) show "only_failed h"
      by (elim disjE bexE) (simp_all add: only_failed_new only_failed_merge only_failures_def)
  qed
qed

lemma db_ok_stmts: "stmts db db' \<Longrightarrow> db_ok db \<Longrightarrow> db_ok db'"
  by (induction rule: rtranclp_induct) (auto intro: db_ok_step stmt_store_step)

lemma service_ok_empty: "service_ok empty_db"
  using db_ok_empty by (simp add: service_ok_def unconfirmed_def only_failures_def empty_db_def)

lemma service_ok_stmt: "service_stmt db db' \<Longrightarrow> service_ok db \<Longrightarrow> service_ok db'"
  unfolding service_ok_def
  using db_ok_step stmt_store_step stmt_unconfirmed stmt_only_failures by blast

lemma service_ok_stmts: "stmts db db' \<Longrightarrow> service_ok db \<Longrightarrow> service_ok db'"
  by (induction rule: rtranclp_induct) (auto intro: service_ok_stmt)

lemma service_ok_reachable:
  "service_step\<^sup>*\<^sup>* s s' \<Longrightarrow> as_db (fst s) = empty_db \<Longrightarrow> service_ok (as_db (fst s'))"
  using service_ok_stmts [OF reachable_stmts] service_ok_empty by metis

section \<open>The knowledge base never answers alone\<close>

lemma match_modes_status:
  assumes "unconfirmed db" and "c \<in> set (match_modes vdist db p q k)"
  shows "kb_status (score_kb_candidate c) = ''candidate''"
proof -
  obtain m where m: "m \<in> set (db_modes db)" "c = mode_candidate vdist q m"
    using assms(2) unfolding match_modes_def order_desc_def by (auto dest!: in_set_takeD)
  then have "fm_status m = ''candidate''" using assms(1) by (simp add: unconfirmed_def)
  then show ?thesis by (simp add: m(2) mode_candidate_def score_kb_candidate_def Let_def)
qed

lemma best_kb_match_in:
  "best_kb_match cs = Some (kb, c) \<Longrightarrow> c \<in> set cs \<and> kb = score_kb_candidate c"
proof -
  assume "best_kb_match cs = Some (kb, c)"
  then have "(kb, c) \<in> set (map (\<lambda>c. (score_kb_candidate c, c)) (filter (\<lambda>c. c_mode_id c \<noteq> None) cs))"
    unfolding best_kb_match_def by (rule py_max_in)
  then show ?thesis by auto
qed

lemma decide_method_kb:
  assumes "dr_method (decide inputs now tau) = METHOD_KB"
  shows "\<exists>c \<in> set (di_kb_candidates inputs). kb_short_circuit (score_kb_candidate c)"
proof -
  define r where "r = decide inputs now tau"
  have m: "dr_method r = METHOD_KB" using assms by (simp add: r_def)
  from r_def [symmetric] show ?thesis
  proof (cases rule: decide_paths)
    case (hash h)
    then show ?thesis using m by simp
  next
    case (kb k c)
    then show ?thesis using best_kb_match_in [OF kb(1)] by blast
  next
    case (gbm f g)
    then show ?thesis using m unfolding gbm(3) gbm_result_def Let_def
      by (simp split: option.splits if_splits)
  next
    case cold
    then show ?thesis using m unfolding cold_result_def
      by (auto simp: Let_def split: option.splits if_splits)
  qed
qed

lemma resolve_mode_method [simp]: "dr_method (fst (resolve_mode_match kb sm seed d)) = dr_method d"
  by (simp add: resolve_mode_match_def Let_def split: option.split)

lemma decide_item_method:
  assumes "service_ok db"
  shows "dr_method (fst (snd (decide_item eng now a rep g db))) \<noteq> METHOD_KB"
proof
  assume h: "dr_method (fst (snd (decide_item eng now a rep g db))) = METHOD_KB"
  let ?p = "da_project a"
  obtain db1 ident where ri: "resolve_identity ?p rep db = (db1, ident)" by fastforce
  define q where "q = query_from_identity ident rep (la_launch_id (an_launch rep))
    (la_launch_number (an_launch rep))"
  obtain db2 seed sm where ss: "seed_signal_of eng ?p (an_signature rep) db1 = (db2, seed, sm)"
    using prod_cases3 by blast
  have "stmts db db1" using resolve_stmts [of db ?p rep] by (simp add: ri)
  then have ok: "unconfirmed db1" using service_ok_stmts assms by (auto simp: service_ok_def)
  have "dr_method (decide (item_inputs eng now a rep g ident q
      (stage_a (da_route a) (da_mode a) (da_scope a) ?p ident (item_id_of rep) db1)
      (match_modes (ae_vdist eng) db1 ?p q 10) seed db2) now (ae_auto_min_prob eng)) = METHOD_KB"
    using h by (simp add: decide_item_def ri ss Let_def split_beta flip: q_def)
  from decide_method_kb [OF this] obtain c where c: "c \<in> set (match_modes (ae_vdist eng) db1 ?p q 10)"
      "kb_short_circuit (score_kb_candidate c)"
    by (auto simp: item_inputs_def split_beta)
  from match_modes_status [OF ok c(1)] c(2) show False by (simp add: kb_short_circuit_def)
qed

text \<open>
  C6. The service refines its store. Whatever the message - an index, an analysis, a suggestion, a
  feedback, a deletion -, the nightly reaping or an LLM answer, one step of the service is a sequence
  of the stores' statements, and what holds in every database it can reach is kept by it: the keys
  and the id counters, every membership's mode, history and purity in their ranges, every mode still
  a candidate and every test history made of failures only.
\<close>

theorem service_refines_store:
  assumes "service_step (st, mst) (st', mst')" and "service_ok (as_db st)"
  shows "store_step\<^sup>*\<^sup>* (as_db st) (as_db st') \<and> service_ok (as_db st')"
  using step_stmts [OF assms(1)] assms(2) stmts_store_steps service_ok_stmts by auto

theorem service_refines_store_witness:
  "service_ok (as_db \<lparr>as_db = fst (h_item_remove True 1 [4] empty_db), as_jobs = []\<rparr>)"
proof -
  have "service_step (\<lparr>as_db = empty_db, as_jobs = []\<rparr>, Map.empty :: nat drain_store)
      (\<lparr>as_db = fst (h_item_remove True 1 [4] empty_db), as_jobs = []\<rparr>, Map.empty)"
    using item_remove [of "\<lparr>as_db = empty_db, as_jobs = []\<rparr>" Map.empty 1 "[4]"] by simp
  from service_refines_store [OF this] show ?thesis using service_ok_empty by simp
qed

text \<open>
  C32. The knowledge base never decides alone. In every state the service reaches from an empty
  database, no decision of any route is made by the strong-mode short circuit of the decision layer:
  its modes are the per-project copies of the seed catalogue, these are created as candidates, and no
  message, nightly job or LLM answer ever confirms one.
\<close>

theorem kb_never_short_circuits:
  assumes "service_step\<^sup>*\<^sup>* (st0, mst0) (st, mst)" and "as_db st0 = empty_db"
  shows "dr_method (fst (snd (decide_item eng now a rep g (as_db st)))) \<noteq> METHOD_KB"
  using decide_item_method service_ok_reachable [OF assms(1)] assms(2) by simp

theorem kb_never_short_circuits_witness:
  "\<exists>rep g. dr_method (fst (snd (decide_item demo_engine 0
     (launch_args (demo_launch [7]) 1 ''analyze'') rep g
     (as_db (fst (analyze demo_engine Map.empty 0 [demo_launch [7]] demo_state)))))) \<noteq> METHOD_KB"
proof -
  have s: "service_step (demo_state, Map.empty :: nat drain_store)
      (fst (analyze demo_engine Map.empty 0 [demo_launch [7]] demo_state), Map.empty)"
    by (rule service_step.analyze)
  have "as_db demo_state = empty_db" by (simp add: demo_state_def)
  from kb_never_short_circuits [OF r_into_rtranclp [where r = service_step, OF s] this]
  show ?thesis by blast
qed

text \<open>
  No test ever flips. In every state the service reaches from an empty database the flakiness
  features are dead: \<open>index\<close> is the only writer of the test history and reports only failures, so the
  window of a test case holds as many failures as runs, no flip, and a flakiness score of zero -
  which are what the feature context of every decision reads.
\<close>

theorem history_never_flips:
  assumes "service_step\<^sup>*\<^sup>* (st0, mst0) (st, mst)" and "as_db st0 = empty_db"
  shows "let ctx = feature_ctx eng now rep g n (as_db st)
     in fc_window_flips ctx = 0 \<and> fc_window_failures ctx = fc_window_runs ctx
        \<and> fc_flakiness_score ctx \<in> {None, Some 0}"
proof -
  have "only_failures (as_db st)"
    using service_ok_reachable [OF assms(1)] assms(2) by (simp add: service_ok_def)
  then have h: "only_failed h" if "get_test_history (as_db st) p t = Some h" for p t h
    using that by (auto simp: get_test_history_def only_failures_def dest: lookup_row_SomeD)
  show ?thesis
    unfolding feature_ctx_def Let_def
    by (auto simp: only_failed_def split: option.split bind_splits dest!: h split: option.splits)
qed

theorem history_never_flips_witness:
  "\<exists>rep g. fc_window_flips (feature_ctx demo_engine 0 rep g 1
     (as_db (fst (analyze demo_engine Map.empty 0 [demo_launch [7]] demo_state)))) = 0"
proof -
  have s: "service_step (demo_state, Map.empty :: nat drain_store)
      (fst (analyze demo_engine Map.empty 0 [demo_launch [7]] demo_state), Map.empty)"
    by (rule service_step.analyze)
  have "as_db demo_state = empty_db" by (simp add: demo_state_def)
  from history_never_flips [OF r_into_rtranclp [where r = service_step, OF s] this]
  show ?thesis unfolding Let_def by blast
qed

section \<open>Feedback\<close>

definition relabelled :: "int \<Rightarrow> (int \<rightharpoonup> string) \<Rightarrow> item_row \<Rightarrow> item_row" where
  "relabelled p us r =
     (case (if ti_project_id r = p then us (ti_item_id r) else None) of
        Some t \<Rightarrow> r\<lparr>ti_issue_type := Some t, ti_is_auto_analyzed := False\<rparr>
      | None \<Rightarrow> r)"

definition feedback_event ::
  "seconds \<Rightarrow> int \<Rightarrow> (int \<rightharpoonup> string option) \<Rightarrow> int \<times> string \<Rightarrow> label_event \<Rightarrow> bool" where
  "feedback_event now p old = (\<lambda>(i, t) e.
     event_of e = (p, i) \<and> Some (le_old_label e) = old i \<and> le_new_label e = t
     \<and> le_source e = ''rp_defect_update'' \<and> le_suggestion_id e = None \<and> le_ts e = now)"

lemma update_purity_items:
  "update_purity p m db = Some (db', x) \<Longrightarrow> db_items db' = db_items db \<and> db_events db' = db_events db"
  by (auto simp: update_purity_def Let_def set_mode_def split: option.splits)

lemma update_purity_total:
  assumes "db_ok db" and "member_mode_id db p i = Some m"
  shows "update_purity p m db \<noteq> None"
proof -
  obtain r where "r \<in> set (db_members db)" "mm_project_id r = p" "mm_mode_id r = m"
    using assms(2) by (auto simp: member_mode_id_def member_of_def dest!: py_max_in)
  then have "(p, m) \<in> mode_key ` set (db_modes db)"
    using assms(1) by (auto simp: db_ok_def members_ok_def)
  then show ?thesis by (auto simp: update_purity_def find_mode_def lookup_row_None_iff Let_def
        split: option.split)
qed

lemma defect_item_effect:
  assumes "db_ok db" and "ex i = Some old"
  shows "\<exists>db' e. defect_item now p ex (i, t) db = Some db'
    \<and> db_items db' = map (relabelled p [i \<mapsto> t]) (db_items db)
    \<and> db_events db' = db_events db @ [e] \<and> feedback_event now p ex (i, t) e"
proof -
  let ?db1 = "fst (update_issue_type p i (Some t) False db)"
  let ?db2 = "fst (append_event now \<lparr>le_project_id = p, le_item_id = i, le_old_label = old,
                       le_new_label = t, le_source = ''rp_defect_update'', le_suggestion_id = None\<rparr> ?db1)"
  have "stmts db ?db2" by (rule stmts_trans [OF stmt1 [OF issue_type] stmt1 [OF event]])
  then have ok: "db_ok ?db2"
    using assms(1) by (rule db_ok_stmts)
  obtain db3 where db3: "(case member_mode_id ?db2 p i of None \<Rightarrow> Some ?db2
        | Some m \<Rightarrow> map_option fst (update_purity p m ?db2)) = Some db3"
      "db_items db3 = db_items ?db2" "db_events db3 = db_events ?db2"
    using update_purity_total [OF ok] update_purity_items
    by (cases "member_mode_id ?db2 p i") fastforce+
  let ?e = "label_event_in.extend \<lparr>le_project_id = p, le_item_id = i, le_old_label = old,
      le_new_label = t, le_source = ''rp_defect_update'', le_suggestion_id = None\<rparr>
      \<lparr>le_event_id = db_next_event ?db1, le_ts = now\<rparr>"
  have "defect_item now p ex (i, t) db = Some (fst (record_feedback_outcome now p i t db3))"
    unfolding defect_item_def prod.case assms(2) option.case Let_def db3(1) by simp
  moreover have "db_items ?db2 = map (relabelled p [i \<mapsto> t]) (db_items db)"
    by (auto simp: append_event_def update_issue_type_def Let_def relabelled_def item_key_def)
  moreover have "db_events ?db2 = db_events db @ [?e]"
    by (simp add: append_event_def update_issue_type_def Let_def)
  moreover have "feedback_event now p ex (i, t) ?e"
    by (simp add: feedback_event_def event_of_def assms(2) label_event_in.defs)
  ultimately show ?thesis
    using db3(2,3) by (auto simp: record_feedback_outcome_def Let_def)
qed

lemma relabelled_key [simp]:
  "ti_project_id (relabelled p us r) = ti_project_id r" "ti_item_id (relabelled p us r) = ti_item_id r"
  by (simp_all add: relabelled_def split: option.split)

lemma relabelled_Cons:
  "map_of us i = None \<Longrightarrow>
     relabelled p (map_of us) (relabelled p [i \<mapsto> t] r) = relabelled p (map_of ((i, t) # us)) r"
  by (cases "ti_project_id r = p \<and> ti_item_id r = i")
    (auto simp: relabelled_def split: option.split dest: map_of_SomeD intro: rev_image_eqI)

lemma defect_items_effect:
  assumes "db_ok db" and "distinct (map fst us)"
    and "\<And>r. r \<in> set (db_items db) \<Longrightarrow> ti_project_id r = p \<Longrightarrow> ti_item_id r \<in> fst ` set us
           \<Longrightarrow> ex (ti_item_id r) \<noteq> None"
  shows "\<exists>db' es. defect_items now p ex us db = Some db'
    \<and> db_items db' = map (relabelled p (map_of us)) (db_items db)
    \<and> db_events db' = db_events db @ es
    \<and> list_all2 (feedback_event now p ex) (filter (\<lambda>u. ex (fst u) \<noteq> None) us) es"
  using assms
proof (induction us arbitrary: db)
  case Nil
  then show ?case by (auto simp: relabelled_def map_idI)
next
  case (Cons u us)
  obtain i t where u: "u = (i, t)" by (cases u)
  have fresh: "map_of us i = None" using Cons.prems(2) by (simp add: u map_of_eq_None_iff)
  show ?case
  proof (cases "ex i")
    case None
    have "relabelled p (map_of us) r = relabelled p (map_of (u # us)) r" if "r \<in> set (db_items db)" for r
      using Cons.prems(3) [OF that] None u by (auto simp: relabelled_def)
    moreover have "ex (ti_item_id r) \<noteq> None"
      if "r \<in> set (db_items db)" "ti_project_id r = p" "ti_item_id r \<in> fst ` set us" for r
      using Cons.prems(3) that by simp
    ultimately show ?thesis
      using Cons.IH [OF Cons.prems(1)] Cons.prems(2) None
      by (simp add: u defect_item_def fun_upd_def cong: map_cong)
  next
    case (Some old)
    from defect_item_effect [where ex = ex and p = p and now = now and t = t, OF Cons.prems(1) Some]
    obtain db1 e where d: "defect_item now p ex (i, t) db = Some db1"
      "db_items db1 = map (relabelled p [i \<mapsto> t]) (db_items db)"
      "db_events db1 = db_events db @ [e]" "feedback_event now p ex (i, t) e" by blast
    have "db_ok db1"
      using defect_item_stmts [OF d(1)] Cons.prems(1) by (rule db_ok_stmts)
    moreover have "ex (ti_item_id r) \<noteq> None"
      if h: "r \<in> set (db_items db1)" "ti_project_id r = p" "ti_item_id r \<in> fst ` set us" for r
    proof -
      obtain r0 where "r0 \<in> set (db_items db)" "r = relabelled p [i \<mapsto> t] r0" using h(1) d(2) by auto
      then show ?thesis using Cons.prems(3) [of r0] h(2,3) by simp
    qed
    ultimately obtain db' es where "defect_items now p ex us db1 = Some db'"
      "db_items db' = map (relabelled p (map_of us)) (db_items db1)" "db_events db' = db_events db1 @ es"
      "list_all2 (feedback_event now p ex) (filter (\<lambda>u. ex (fst u) \<noteq> None) us) es"
      using Cons.IH [of db1] Cons.prems(2) by auto
    then show ?thesis using d Some fresh by (simp add: u relabelled_Cons comp_def del: map_of.simps)
  qed
qed

lemma defect_update_effect:
  assumes "db_ok db" and "distinct (map fst raw)"
  shows "\<exists>db' es. h_defect_update True now p raw db
        = Some (db', filter (\<lambda>i. find_item db p i = None) (map fst raw), [REASON_EVENTS])
      \<and> db_items db' = map (relabelled p (map_of (normalize_updates raw))) (db_items db)
      \<and> db_events db' = db_events db @ es
      \<and> list_all2 (feedback_event now p (\<lambda>i. map_option ti_issue_type (find_item db p i)))
          (filter (\<lambda>u. find_item db p (fst u) \<noteq> None) (normalize_updates raw)) es"
proof -
  let ?us = "normalize_updates raw"
  let ?ex = "get_items_labels db p (map fst ?us)"
  have fst: "map fst ?us = map fst raw" by (simp add: normalize_updates_def comp_def split_beta)
  have ex: "?ex i = map_option ti_issue_type (find_item db p i)" if "i \<in> set (map fst ?us)" for i
    using that unfolding get_items_labels_def by simp
  have known: "?ex (ti_item_id r) \<noteq> None"
    if h: "r \<in> set (db_items db)" "ti_project_id r = p" "ti_item_id r \<in> fst ` set ?us" for r
  proof -
    have "find_item db p (ti_item_id r) \<noteq> None"
      using h(1,2) by (auto simp: find_item_def lookup_row_None_iff item_key_def)
    then show ?thesis using ex [of "ti_item_id r"] h(3) by simp
  qed
  have "distinct (map fst ?us)" using assms(2) fst by metis
  from defect_items_effect [where ex = ?ex and now = now, OF assms(1) this known] obtain db' es where d: "defect_items now p ?ex ?us db = Some db'"
    "db_items db' = map (relabelled p (map_of ?us)) (db_items db)" "db_events db' = db_events db @ es"
    "list_all2 (feedback_event now p ?ex) (filter (\<lambda>u. ?ex (fst u) \<noteq> None) ?us) es" by blast
  have miss: "filter (\<lambda>i. ?ex i = None) (map fst ?us) = filter (\<lambda>i. find_item db p i = None) (map fst raw)"
    unfolding fst [symmetric] by (rule filter_cong) (simp_all only: ex option.map_disc_iff)
  have stored: "filter (\<lambda>u. ?ex (fst u) \<noteq> None) ?us = filter (\<lambda>u. find_item db p (fst u) \<noteq> None) ?us"
    by (rule filter_cong [OF refl]) (simp only: ex image_set [symmetric] set_map image_eqI option.map_disc_iff imageI)
  have "list_all2 (feedback_event now p (\<lambda>i. map_option ti_issue_type (find_item db p i)))
      (filter (\<lambda>u. find_item db p (fst u) \<noteq> None) ?us) es"
    using d(4) unfolding stored
  proof (rule list.rel_mono_strong)
    fix u e assume "u \<in> set (filter (\<lambda>u. find_item db p (fst u) \<noteq> None) ?us)" "feedback_event now p ?ex u e"
    moreover from this(1) have "?ex (fst u) = map_option ti_issue_type (find_item db p (fst u))"
      by (intro ex) auto
    ultimately show "feedback_event now p (\<lambda>i. map_option ti_issue_type (find_item db p i)) u e"
      by (simp add: feedback_event_def split_beta)
  qed
  with d(1-3) miss show ?thesis unfolding h_defect_update_def Let_def by auto
qed

text \<open>
  C8. What a feedback message does. With one entry per item, \<open>defect_update\<close> never raises on a
  consistent database; the reply is exactly the ids that are not stored, in the order of the message;
  every stored one, and nothing else, gets the normalised label as a human label; one
  \<open>rp_defect_update\<close> event is appended for each of them, in order, with the label it had before; and
  one retrain is requested.
\<close>

theorem defect_update_contract:
  assumes "db_ok db" and "distinct (map fst raw)"
  shows "case h_defect_update True now p raw db of
      None \<Rightarrow> False
    | Some (db', missing, requests) \<Rightarrow>
        missing = filter (\<lambda>i. find_item db p i = None) (map fst raw)
        \<and> requests = [REASON_EVENTS]
        \<and> db_items db' = map (relabelled p (map_of (normalize_updates raw))) (db_items db)
        \<and> (\<exists>es. db_events db' = db_events db @ es
             \<and> list_all2 (feedback_event now p (\<lambda>i. map_option ti_issue_type (find_item db p i)))
                 (filter (\<lambda>u. find_item db p (fst u) \<noteq> None) (normalize_updates raw)) es)"
  using defect_update_effect [OF assms, where now = now and p = p] by auto

definition demo_feedback_db :: db where
  "demo_feedback_db = fst (upsert_items 0 [demo_item_row 7 (Some ''ti001'')] empty_db)"

lemma demo_feedback_db_ok: "db_ok demo_feedback_db"
  unfolding demo_feedback_db_def by (rule db_ok_step [OF store_step.items db_ok_empty])

lemma demo_feedback_db_items: "db_items demo_feedback_db = [demo_item_row 7 (Some ''ti001'')]"
  by (simp add: demo_feedback_db_def upsert_items_def empty_db_def upsert_def demo_item_row_def)

theorem defect_update_contract_witness:
  "case h_defect_update True 9 1 [(7, ''PB001 ''), (8, ''ab001'')] demo_feedback_db of
     None \<Rightarrow> False
   | Some (db', missing, requests) \<Rightarrow>
       missing = [8] \<and> map ti_issue_type (db_items db') = [Some ''pb001'']
       \<and> map le_new_label (db_events db') = [''pb001'']"
proof -
  have n: "normalize_updates [(7, ''PB001 ''), (8, ''ab001'')] = [(7, ''pb001''), (8, ''ab001'')]"
    by code_simp
  have f: "find_item demo_feedback_db 1 i = (if i = 7 then Some (demo_item_row 7 (Some ''ti001'')) else None)"
    for i by (simp add: find_item_def demo_feedback_db_items item_key_def demo_item_row_def)
  have ev: "db_events demo_feedback_db = []"
    by (simp add: demo_feedback_db_def upsert_items_def empty_db_def)
  from defect_update_contract [OF demo_feedback_db_ok, where raw = "[(7, ''PB001 ''), (8, ''ab001'')]" and now = 9 and p = 1]
  show ?thesis
    unfolding n
    by (auto simp: f ev demo_feedback_db_items relabelled_def demo_item_row_def feedback_event_def
        list_all2_Cons1 split: option.splits)
qed

text \<open>
  Feedback is always accepted. In every state the service reaches from an empty database, a
  feedback message with one entry per item is processed - no exception, so no retry and no dead
  letter -, and processing it is a step of the service.
\<close>

theorem defect_update_always_answers:
  assumes "service_step\<^sup>*\<^sup>* (st0, mst0) (st, mst)" and "as_db st0 = empty_db"
    and "distinct (map fst raw)"
  shows "\<exists>db' missing. h_defect_update True now p raw (as_db st) = Some (db', missing, [REASON_EVENTS])
     \<and> service_step (st, mst) (st\<lparr>as_db := db'\<rparr>, mst)"
proof -
  have ok: "db_ok (as_db st)"
    using service_ok_reachable [OF assms(1)] assms(2) by (simp add: service_ok_def)
  obtain db' missing where "h_defect_update True now p raw (as_db st) = Some (db', missing, [REASON_EVENTS])"
    using defect_update_effect [OF ok assms(3)] by blast
  then show ?thesis using defect by blast
qed

theorem defect_update_always_answers_witness:
  "\<exists>db' missing. h_defect_update True 9 1 [(7, ''pb001'')]
     (as_db (fst (analyze demo_engine Map.empty 0 [demo_launch [7]] demo_state)))
     = Some (db', missing, [REASON_EVENTS])"
proof -
  have s: "service_step (demo_state, Map.empty :: nat drain_store)
      (fst (analyze demo_engine Map.empty 0 [demo_launch [7]] demo_state), Map.empty)"
    by (rule service_step.analyze)
  have "as_db demo_state = empty_db" by (simp add: demo_state_def)
  from defect_update_always_answers [OF r_into_rtranclp [where r = service_step, OF s] this,
      where raw = "[(7, ''pb001'')]" and now = 9 and p = 1]
  show ?thesis by auto
qed

end
