(* ===== verification/LlmWiring.thy ===== *)
theory LlmWiring
  imports LlmRoles LlmEval LlmClient LlmQueue Handlers
begin

text \<open>
  The sidecar as a whole (\<open>llm/manager.py\<close>, \<open>llm/wiring.py\<close>, the reads of \<open>suggestion_ops.py\<close>): the facts
  a role is given, read afresh from the tables; the dispatch of its answer to the row updates of
  \<open>LlmApply\<close>; the switches, the probe, and one job of the worker from the queue to the tables.
\<close>

section \<open>Facts (PgLlmFacts)\<close>

text \<open>\<open>failure_signature JOIN test_item USING (project_id, item_id)\<close>: the signature and the launch.\<close>

definition load_signature :: "db \<Rightarrow> int \<Rightarrow> int \<Rightarrow> (sig_row \<times> int) option" where
  "load_signature db p i =
     (case (find_sig db p i, find_item db p i) of
        (Some s, Some t) \<Rightarrow> Some (s, ti_launch_id t)
      | _ \<Rightarrow> None)"

text \<open>The locators of the pool: \<open>issue_type\<close>, never empty of the rows selected.\<close>

definition hash_pool :: "db \<Rightarrow> int \<Rightarrow> int \<Rightarrow> int \<Rightarrow> string list" where
  "hash_pool db p h exclude =
     map (\<lambda>(s, t). case ti_issue_type t of Some l \<Rightarrow> l | None \<Rightarrow> [])
       (take 10 (order_desc (\<lambda>(s, t). (map_option le_ts (latest_event db p (ti_item_id t)), ti_item_id t))
         (filter (\<lambda>(s, t). ti_item_id t \<noteq> exclude) (hash_join db p h))))"

definition latest_suggestion :: "db \<Rightarrow> int \<Rightarrow> int \<Rightarrow> suggestion_row option" where
  "latest_suggestion db p i = newest (\<lambda>r. suggestion_of r = (p, i)) db"

section \<open>The inputs of the roles (PgLlmFactLoader)\<close>

definition ABSTAIN_GATE :: "string \<rightharpoonup> string" where
  "ABSTAIN_GATE = map_of
     [(''gbm_below_suggest'', ''model probability stayed below the suggest threshold''),
      (''gbm_boilerplate_only_neighbor'',
         ''the nearest neighbour shared no structural evidence (boilerplate guard)''),
      (''no_confident_rule'', ''no rule or model matched with enough confidence'')]"

definition abstain_gate_sentence :: "string option \<Rightarrow> string" where
  "abstain_gate_sentence reason =
     (case ABSTAIN_GATE (case reason of None \<Rightarrow> [] | Some r \<Rightarrow> r) of
        Some t \<Rightarrow> t | None \<Rightarrow> ''no candidate cleared the decision gates'')"

definition jtexts :: "string list \<Rightarrow> json" where
  "jtexts ws = JArr (map (\<lambda>w. JStr (ustr w)) ws)"

definition fact_block :: "sig_row \<Rightarrow> jobj" where
  "fact_block s =
     [(ustr ''exception'', JStr (ustr (fs_exc_text s))),
      (ustr ''top_frames'', jtexts (take 8 (fs_top_frames s))),
      (ustr ''status_codes'', jtexts (take 8 (fs_status_codes s)))]"

definition log_excerpt :: "sig_row \<Rightarrow> utext" where
  "log_excerpt s = ulines (map ustr (filter (\<lambda>t. t \<noteq> []) [fs_msg_text s, fs_frames_text s]))"

datatype llm_input =
    ExplainerIn explainer_input
  | AbstainIn explainer_input
  | ExtractorIn extractor_input
  | JudgeIn judge_input
  | ColdStartIn coldstart_input

definition or_zero :: "int option \<Rightarrow> int" where
  "or_zero x = (case x of None \<Rightarrow> 0 | Some v \<Rightarrow> v)"

text \<open>The snapshot holds no text, so \<open>match_signals\<close> is the default; the label is used twice.\<close>

definition explainer_facts :: "db \<Rightarrow> int \<Rightarrow> int \<Rightarrow> sig_row \<Rightarrow> explainer_input option" where
  "explainer_facts db p i s =
     (case latest_suggestion db p i of
        None \<Rightarrow> None
      | Some r \<Rightarrow>
          if su_predicted_label r = ''ti'' then None
          else Some \<lparr>xi_mode_title = ustr (su_predicted_label r), xi_mode_label = ustr (su_predicted_label r),
                  xi_mode_support = 0, xi_mode_purity = 0, xi_match_signals = ustr ''matched'',
                  xi_mode_id = or_zero (su_matched_mode_id r), xi_error_hash = fs_error_hash s,
                  xi_reason_code = [], xi_candidate_key = [], xi_fact_block = fact_block s,
                  xi_log_excerpt = log_excerpt s, xi_suggestion_id = Some (su_suggestion_id r),
                  xi_grounding = None\<rparr>)"

text \<open>Counts in order of first occurrence, like a Python dictionary.\<close>

definition first_seen :: "string list \<Rightarrow> string list" where
  "first_seen ls = dedup_from id {} ls"

definition counted :: "string list \<Rightarrow> (string \<times> nat) list" where
  "counted ls = map (\<lambda>l. (l, length (filter (\<lambda>m. m = l) ls))) (first_seen ls)"

definition payload_refs :: "llm_payload \<Rightarrow> neighbour_ref list" where
  "payload_refs pl = (case pl of JudgePayload cs \<Rightarrow> cs | AbstainPayload _ _ _ cs \<Rightarrow> cs | _ \<Rightarrow> [])"

definition candidate_line :: "role_env \<Rightarrow> neighbour_ref \<Rightarrow> utext" where
  "candidate_line env c =
     ustr ''cosine '' @ re_float env (nr_similarity c) @ ustr '' label '' @ ustr (nr_label c)"

definition pool_line :: "string \<times> nat \<Rightarrow> string" where
  "pool_line e = show_nat (snd e) @ ''x '' @ fst e"

definition abstain_facts ::
  "role_env \<Rightarrow> db \<Rightarrow> int \<Rightarrow> int \<Rightarrow> sig_row \<Rightarrow> llm_payload \<Rightarrow> explainer_input option" where
  "abstain_facts env db p i s pl =
     (case pl of
        AbstainPayload sid reason confidence refs \<Rightarrow>
          (let cands = filter (\<lambda>c. nr_label c \<noteq> []) refs;
               cand_lines = map (candidate_line env) cands;
               pool = (if fs_error_hash s \<noteq> 0
                       then counted (filter (\<lambda>l. l \<noteq> []) (hash_pool db p (fs_error_hash s) i)) else []);
               pool_lines = map pool_line pool;
               labels = first_seen (map nr_label cands @ map fst pool);
               code = (case reason of None \<Rightarrow> ''no_confident_rule''
                       | Some r \<Rightarrow> if r = [] then ''no_confident_rule'' else r);
               conflict = (if length labels > 1
                           then ''evidence splits across labels: '' @ join_with '', '' labels
                           else ''only weak same-label evidence: '' @ hd labels)
           in if cand_lines = [] \<and> pool_lines = [] then None
              else Some \<lparr>xi_mode_title = [], xi_mode_label = [], xi_mode_support = 0, xi_mode_purity = 0,
                  xi_match_signals = [], xi_mode_id = 0, xi_error_hash = fs_error_hash s,
                  xi_reason_code = ustr code,
                  xi_candidate_key = ujoin (ustr ''|'') cand_lines @ ustr ''#''
                    @ ujoin (ustr ''|'') (map ustr (sort pool_lines)),
                  xi_fact_block =
                    [(ustr ''decision'', JStr (ustr ''abstain: analyzer declined to choose a defect type'')),
                     (ustr ''reason_code'', JStr (ustr code)),
                     (ustr ''blocking_gate'', JStr (ustr (abstain_gate_sentence reason))),
                     (ustr ''confidence'', JStr (ustr (fixed_point 3 confidence))),
                     (ustr ''suggest_threshold'', JStr (ustr (fixed_point 2 TAU_SUGGEST))),
                     (ustr ''top_candidates'', JArr (map JStr cand_lines)),
                     (ustr ''exact_hash_pool'', jtexts pool_lines),
                     (ustr ''label_conflict'', JStr (ustr conflict))],
                  xi_log_excerpt = log_excerpt s, xi_suggestion_id = Some sid, xi_grounding = None\<rparr>)
      | _ \<Rightarrow> None)"

text \<open>\<open>int(ref["id"])\<close> of a missing id raises: the outer \<open>None\<close>.\<close>

definition judge_candidate_of :: "db \<Rightarrow> int \<Rightarrow> neighbour_ref \<Rightarrow> judge_candidate option option" where
  "judge_candidate_of db p ref =
     (case nr_id ref of
        None \<Rightarrow> None
      | Some j \<Rightarrow>
          Some (case load_signature db p j of
             None \<Rightarrow> None
           | Some (s, _) \<Rightarrow>
               Some \<lparr>jc_id = j, jc_label = ustr (nr_label ref), jc_similarity = nr_similarity ref,
                  jc_exc_chain = ustr (fs_exc_text s),
                  jc_templates = ujoin (ustr '', '') (map uint_text (take 5 (fs_template_ids s))),
                  jc_frames = ujoin (ustr '', '') (map ustr (take 5 (fs_top_frames s)))\<rparr>))"

fun judge_candidates_of :: "db \<Rightarrow> int \<Rightarrow> neighbour_ref list \<Rightarrow> judge_candidate list option" where
  "judge_candidates_of db p [] = Some []"
| "judge_candidates_of db p (r # rs) =
     (case judge_candidate_of db p r of
        None \<Rightarrow> None
      | Some c \<Rightarrow> map_option (\<lambda>cs. (case c of None \<Rightarrow> cs | Some x \<Rightarrow> x # cs)) (judge_candidates_of db p rs))"

text \<open>What the loader answers: an input, \<open>None\<close> to skip the job, or an exception.\<close>

datatype 'a loaded = Skip | Raises | Loaded 'a

definition judge_facts :: "db \<Rightarrow> int \<Rightarrow> sig_row \<Rightarrow> llm_payload \<Rightarrow> judge_input loaded" where
  "judge_facts db p s pl =
     (case judge_candidates_of db p (payload_refs pl) of
        None \<Rightarrow> Raises
      | Some cs \<Rightarrow>
          if length cs < 2 then Skip
          else Loaded \<lparr>ji_query_error_hash = fs_error_hash s, ji_fact_block = fact_block s,
                       ji_query_excerpt = log_excerpt s, ji_candidates = cs\<rparr>)"

definition payload_launch :: "llm_payload \<Rightarrow> int" where
  "payload_launch pl = (case pl of ColdStartPayload l \<Rightarrow> l | _ \<Rightarrow> 0)"

definition or_skip :: "('a \<Rightarrow> llm_input) \<Rightarrow> 'a option \<Rightarrow> llm_input loaded" where
  "or_skip f x = (case x of None \<Rightarrow> Skip | Some v \<Rightarrow> Loaded (f v))"

definition load_facts ::
  "role_env \<Rightarrow> (int \<Rightarrow> bool) option \<Rightarrow> db \<Rightarrow> string \<Rightarrow> int \<Rightarrow> int \<Rightarrow> llm_payload \<Rightarrow> llm_input loaded" where
  "load_facts env is_cold db role p i pl =
     (case load_signature db p i of
        None \<Rightarrow> Skip
      | Some (s, launch) \<Rightarrow>
          if role = ''explainer'' then or_skip ExplainerIn (explainer_facts db p i s)
          else if role = ''abstain_explainer'' then or_skip AbstainIn (abstain_facts env db p i s pl)
          else if role = ''extractor'' then
            Loaded (ExtractorIn \<lparr>ei_fact_block = fact_block s, ei_log_excerpt = log_excerpt s,
              ei_exception_fp = fs_exception_fp s, ei_template_ids = fs_template_ids s, ei_corpus = []\<rparr>)
          else if role = ''coldstart'' then
            (if (case is_cold of None \<Rightarrow> False | Some f \<Rightarrow> \<not> f p) then Skip
             else Loaded (ColdStartIn \<lparr>ci_error_hash = fs_error_hash s, ci_fact_block = fact_block s,
               ci_log_excerpt = log_excerpt s,
               ci_launch_id = (if payload_launch pl \<noteq> 0 then payload_launch pl else launch),
               ci_group_locator = ustr ''ti001''\<rparr>))
          else if role = ''judge'' then
            (case judge_facts db p s pl of Skip \<Rightarrow> Skip | Raises \<Rightarrow> Raises | Loaded j \<Rightarrow> Loaded (JudgeIn j))
          else Skip)"

section \<open>The answer (PgLlmApplier)\<close>

text \<open>The part of the input the applier reads.\<close>

definition role_input_of :: "llm_input \<Rightarrow> role_input" where
  "role_input_of inp =
     \<lparr>rin_suggestion_id = (case inp of ExplainerIn x \<Rightarrow> xi_suggestion_id x | AbstainIn x \<Rightarrow> xi_suggestion_id x
        | _ \<Rightarrow> None),
      rin_candidates = (case inp of JudgeIn j \<Rightarrow> map jc_id (ji_candidates j) | _ \<Rightarrow> []),
      rin_launch_id = (case inp of ColdStartIn c \<Rightarrow> Some (ci_launch_id c) | _ \<Rightarrow> None)\<rparr>"

definition role_output_of :: "llm_input \<Rightarrow> jobj \<Rightarrow> role_output" where
  "role_output_of inp out =
     (case inp of
        ExplainerIn _ \<Rightarrow> ExplainerOutput (to_str (text_at K_EXPLANATION out))
      | AbstainIn _ \<Rightarrow> ExplainerOutput (to_str (text_at K_EXPLANATION out))
      | ExtractorIn _ \<Rightarrow> ExtractorOutput
      | JudgeIn _ \<Rightarrow> JudgeOutput (to_str (text_at (ustr ''choice'') out))
      | ColdStartIn _ \<Rightarrow> ColdStartOutput (coldstart_output_of out))"

definition apply_answer ::
  "(string \<Rightarrow> string) \<Rightarrow> string \<Rightarrow> seconds \<Rightarrow> int \<Rightarrow> int \<Rightarrow> llm_input \<Rightarrow> role_result \<Rightarrow> db \<Rightarrow> db option" where
  "apply_answer strip_ids model_tag now p i inp r db =
     (case (rr_outcome r, rr_output r) of
        (Ok, Some out) \<Rightarrow>
          apply_role strip_ids model_tag now p i (role_input_of inp) (role_output_of inp out) db
      | _ \<Rightarrow> Some db)"

section \<open>Extractor features\<close>

definition EXTRACTOR_TTL_DAYS :: int where "EXTRACTOR_TTL_DAYS = 90"

text \<open>\<open>out.get(k) or "unknown"\<close>, for texts.\<close>

definition text_or_unknown :: "utext \<Rightarrow> jobj \<Rightarrow> string" where
  "text_or_unknown k out = (let t = to_str (text_at k out) in if t = [] then LLM_UNKNOWN else t)"

definition extractor_feature_lookup ::
  "(string \<Rightarrow> 64 word) \<Rightarrow> seconds \<Rightarrow> llm_cache \<Rightarrow> int \<Rightarrow> int \<Rightarrow> int list \<Rightarrow> (string \<times> string) option" where
  "extractor_feature_lookup xxh now c p fp ids =
     (case get_extractor_by_template now p (extractor_template_hash xxh fp ids) EXTRACTOR_TTL_DAYS c of
        None \<Rightarrow> None
      | Some out \<Rightarrow>
          if out = [] \<or> is_negative (Some out) then None
          else Some (text_or_unknown (ustr ''failing_layer'') out,
                     text_or_unknown (ustr ''error_class'') out))"

section \<open>The sidecar (manager.py)\<close>

record llm_config =
  lf_enabled :: bool
  lf_explainer :: bool
  lf_extractor :: bool
  lf_judge :: bool
  lf_coldstart :: bool
  lf_queue_max :: nat

text \<open>The abstain explainer shares the explainer's flag.\<close>

definition role_flag :: "llm_config \<Rightarrow> string \<Rightarrow> bool" where
  "role_flag cfg role =
     (case map_of [(''explainer'', lf_explainer cfg), (''abstain_explainer'', lf_explainer cfg),
                   (''extractor'', lf_extractor cfg), (''judge'', lf_judge cfg),
                   (''coldstart'', lf_coldstart cfg)] role of
        None \<Rightarrow> False | Some b \<Rightarrow> b)"

definition role_enabled :: "llm_config \<Rightarrow> string \<Rightarrow> bool" where
  "role_enabled cfg role \<longleftrightarrow> lf_enabled cfg \<and> role_flag cfg role"

text \<open>With the master switch off there is neither a queue nor an engine.\<close>

record ('c, 'w) sidecar =
  sd_available :: bool
  sd_reason :: "string option"
  sd_queue :: "llm_payload llm_queue option"
  sd_engine :: "('c, 'w) engine_state option"

definition sidecar_init :: "llm_config \<Rightarrow> ('c, 'w) engine_state \<Rightarrow> ('c, 'w) sidecar" where
  "sidecar_init cfg st =
     (if lf_enabled cfg
      then \<lparr>sd_available = False, sd_reason = Some ''starting'', sd_queue = Some queue_init, sd_engine = Some st\<rparr>
      else \<lparr>sd_available = False, sd_reason = Some ''disabled'', sd_queue = None, sd_engine = None\<rparr>)"

text \<open>The error of a queue that cannot place the job reaches the caller.\<close>

definition manager_enqueue ::
  "llm_config \<Rightarrow> string \<Rightarrow> int \<Rightarrow> int \<Rightarrow> llm_payload \<Rightarrow> ('c, 'w) sidecar \<Rightarrow> queue_error option \<times> ('c, 'w) sidecar"
  where
  "manager_enqueue cfg role p i pl sd =
     (case sd_queue sd of
        None \<Rightarrow> (None, sd)
      | Some q \<Rightarrow>
          if \<not> lf_enabled cfg \<or> \<not> role_flag cfg role then (None, sd)
          else (case enqueue (lf_queue_max cfg)
                       \<lparr>job_role = role, job_project_id = p, job_item_id = i, job_payload = pl\<rparr> q of
                  (e, q') \<Rightarrow> (e, sd\<lparr>sd_queue := Some q'\<rparr>)))"

text \<open>\<open>_probe_once\<close>: up to three tries, the next one only after an exception.\<close>

fun probe_tries :: "nat \<Rightarrow> ('w \<Rightarrow> probe_result py \<times> 'w) \<Rightarrow> 'w \<Rightarrow> probe_result option \<times> 'w" where
  "probe_tries 0 ask w = (None, w)"
| "probe_tries (Suc n) ask w =
     (case ask w of
        (Inr r, w') \<Rightarrow> (Some r, w')
      | (Inl e, w') \<Rightarrow> probe_tries n ask w')"

definition probe ::
  "llm_config \<Rightarrow> ('w \<Rightarrow> probe_result py \<times> 'w) \<Rightarrow> ('w \<Rightarrow> 'w) \<Rightarrow> ('c, 'w) sidecar \<Rightarrow> bool \<times> ('c, 'w) sidecar" where
  "probe cfg ask warm sd =
     (case sd_engine sd of
        None \<Rightarrow> (False, sd\<lparr>sd_available := False\<rparr>)
      | Some st \<Rightarrow>
          if \<not> lf_enabled cfg then (False, sd\<lparr>sd_available := False\<rparr>)
          else (case probe_tries 3 ask (es_world st) of
             (result, w) \<Rightarrow>
               (let sd1 = sd\<lparr>sd_engine := Some (st\<lparr>es_world := w\<rparr>)\<rparr> in
                case result of
                  None \<Rightarrow> (False, sd1\<lparr>sd_available := False, sd_reason := Some ''unreachable''\<rparr>)
                | Some r \<Rightarrow>
                    if \<not> pr_reachable r
                    then (False, sd1\<lparr>sd_available := False, sd_reason := Some ''unreachable''\<rparr>)
                    else if \<not> pr_model_present r
                    then (False, sd1\<lparr>sd_available := False, sd_reason := Some ''model_missing''\<rparr>)
                    else (True, sd1\<lparr>sd_available := True, sd_reason := None,
                                    sd_engine := Some (st\<lparr>es_world := warm w\<rparr>)\<rparr>))))"

record health =
  he_enabled :: bool
  he_available :: bool
  he_reason :: "string option"
  he_breaker_state :: "breaker_state option"

definition health_of :: "llm_config \<Rightarrow> ('c, 'w) sidecar \<Rightarrow> health" where
  "health_of cfg sd =
     \<lparr>he_enabled = lf_enabled cfg, he_available = sd_available sd, he_reason = sd_reason sd,
      he_breaker_state = map_option (\<lambda>st. br_state (es_breaker st)) (sd_engine sd)\<rparr>"

record ('c, 'w) wiring_env =
  we_engine :: "('c, 'w) engine_env"
  we_roles :: role_env
  we_is_cold :: "(int \<Rightarrow> bool) option"
  we_strip_ids :: "string \<Rightarrow> string"

definition run_role ::
  "('c, 'w) wiring_env \<Rightarrow> int \<Rightarrow> int \<Rightarrow> llm_input \<Rightarrow> ('c, 'w) engine_state \<Rightarrow> role_result \<times> ('c, 'w) engine_state"
  where
  "run_role env p i inp st =
     (let eng = we_engine env; re = we_roles env
      in case inp of
           ExplainerIn x \<Rightarrow> run eng (explainer_role re) p i x st
         | AbstainIn x \<Rightarrow> run eng (abstain_role re) p i x st
         | ExtractorIn x \<Rightarrow> run eng (extractor_role re) p i x st
         | JudgeIn x \<Rightarrow> run eng (judge_role re) p i x st
         | ColdStartIn x \<Rightarrow> run eng (coldstart_role re) p i x st)"

text \<open>
  \<open>_process\<close> of one job. The facts are read from \<open>db0\<close>; other threads may have made \<open>db\<close> of it by the
  time the answer is written. An exception is swallowed by the worker, which leaves the tables alone.
\<close>

definition process_job ::
  "('c, 'w) wiring_env \<Rightarrow> role_states \<Rightarrow> llm_payload llm_job \<Rightarrow> db \<Rightarrow> db \<Rightarrow> ('c, 'w) sidecar
     \<Rightarrow> db \<times> ('c, 'w) sidecar" where
  "process_job env states job db0 db sd =
     (let role = job_role job; p = job_project_id job; i = job_item_id job
      in case sd_engine sd of
           None \<Rightarrow> (db, sd)
         | Some st \<Rightarrow>
             if \<not> sd_available sd \<or> \<not> role_is_enabled states p role then (db, sd)
             else (case load_facts (we_roles env) (we_is_cold env) db0 role p i (job_payload job) of
                     Loaded inp \<Rightarrow>
                       (case run_role env p i inp st of
                          (r, st') \<Rightarrow>
                            ((case apply_answer (we_strip_ids env) (en_model (we_engine env))
                                     (en_db_now (we_engine env) (es_world st')) p i inp r db of
                                None \<Rightarrow> db | Some db' \<Rightarrow> db'),
                             sd\<lparr>sd_engine := Some st'\<rparr>))
                   | _ \<Rightarrow> (db, sd)))"

text \<open>One turn of the worker on a queue that holds a job.\<close>

definition worker_job ::
  "('c, 'w) wiring_env \<Rightarrow> role_states \<Rightarrow> db \<Rightarrow> db \<Rightarrow> ('c, 'w) sidecar \<Rightarrow> (db \<times> ('c, 'w) sidecar) option" where
  "worker_job env states db0 db sd =
     (case Option.bind (sd_queue sd) pop_blocking of
        Some (Some job, q') \<Rightarrow> Some (process_job env states job db0 db (sd\<lparr>sd_queue := Some q'\<rparr>))
      | _ \<Rightarrow> None)"

section \<open>What an answer may write\<close>

lemma apply_role_keeps:
  assumes "apply_role strip_ids tag now p i inp out db = Some db'"
  shows "db_items db' = db_items db \<and> db_events db' = db_events db"
  using assms by (auto simp: apply_role_def apply_judge_def apply_coldstart_def Let_def split_beta
      split: role_output.splits option.splits if_splits)

text \<open>Rows of other projects stay as they are, to the last column.\<close>

definition foreign_rows :: "int \<Rightarrow> db \<Rightarrow> suggestion_row list" where
  "foreign_rows p db = filter (\<lambda>r. su_project_id r \<noteq> p) (db_suggestions db)"

lemma foreign_set_explanation [simp]: "foreign_rows p (set_explanation p sid e db) = foreign_rows p db"
proof -
  have "filter (\<lambda>r. su_project_id r \<noteq> p)
      (map (\<lambda>r. if su_project_id r = p \<and> su_suggestion_id r = sid then r\<lparr>su_explanation := Some e, su_llm_used := True\<rparr> else r) rs)
    = filter (\<lambda>r. su_project_id r \<noteq> p) rs" for rs :: "suggestion_row list"
    by (induction rs) auto
  then show ?thesis by (simp add: foreign_rows_def set_explanation_def)
qed

lemma foreign_annotate_judge [simp]: "foreign_rows p (annotate_judge p i c db) = foreign_rows p db"
proof -
  have "filter (\<lambda>r. su_project_id r \<noteq> p)
      (map (\<lambda>r. if su_project_id r = p \<and> su_suggestion_id r = sid then r\<lparr>su_judge := Some c, su_llm_used := True\<rparr> else r) rs)
    = filter (\<lambda>r. su_project_id r \<noteq> p) rs" for sid and rs :: "suggestion_row list"
    by (induction rs) auto
  then show ?thesis by (simp add: foreign_rows_def annotate_judge_def split: option.split)
qed

lemma foreign_insert_coldstart [simp]:
  "foreign_rows p (fst (insert_coldstart now p i l lab c v r db)) = foreign_rows p db"
  by (simp add: foreign_rows_def insert_coldstart_def Let_def)

lemma apply_role_foreign:
  assumes "apply_role strip_ids tag now p i inp out db = Some db'"
  shows "foreign_rows p db' = foreign_rows p db"
  using assms by (auto simp: apply_role_def apply_judge_def apply_coldstart_def Let_def split_beta
      split: role_output.splits option.splits if_splits)

text \<open>The row a cold-start answer may add, whatever the answer is.\<close>

definition hypothesis_row :: "int \<Rightarrow> int \<Rightarrow> suggestion_row \<Rightarrow> bool" where
  "hypothesis_row p i r \<longleftrightarrow>
     suggestion_of r = (p, i) \<and> su_method r = Some ''coldstart'' \<and> su_outcome r = ''pending''
     \<and> TAU_SUGGEST \<le> su_confidence r \<and> su_confidence r < TAU_AUTO"

lemma CONFIDENCE_SCORE_range: "CONFIDENCE_SCORE b = Some c \<Longrightarrow> 46 / 100 \<le> c \<and> c \<le> 65 / 100"
  by (auto simp: CONFIDENCE_SCORE_def split: if_splits)

lemma apply_coldstart_adds:
  assumes "apply_coldstart strip_ids now p i l o' lab tag db = Some (db', sid)"
  shows "\<exists>r. map verdict_of (db_suggestions db') = map verdict_of (db_suggestions db) @ [verdict_of r]
    \<and> hypothesis_row p i r"
proof -
  obtain c where c: "CONFIDENCE_SCORE (coldstart_bucket o') = Some c"
    using assms by (auto simp: apply_coldstart_def split: option.splits)
  let ?ins = "insert_coldstart now p i l lab c (''rubric+'' @ tag) (co_rule o') db"
  obtain r where r: "db_suggestions (fst ?ins) = db_suggestions db @ [r]" "suggestion_of r = (p, i)"
      "su_method r = Some ''coldstart''" "su_outcome r = ''pending''" "su_confidence r = c"
    by (auto simp: insert_coldstart_def Let_def suggestion_of_def)
  have "map verdict_of (db_suggestions db') = map verdict_of (db_suggestions (fst ?ins))"
    using assms by (auto simp: apply_coldstart_def c Let_def split_beta set_explanation_verdicts split: if_splits)
  then show ?thesis using r CONFIDENCE_SCORE_range [OF c]
    by (intro exI [of _ r]) (simp add: hypothesis_row_def TAU_SUGGEST_def TAU_AUTO_def)
qed

lemma apply_role_adds:
  assumes "apply_role strip_ids tag now p i inp out db = Some db'"
  shows "\<exists>new. map verdict_of (db_suggestions db') = map verdict_of (db_suggestions db) @ map verdict_of new
    \<and> length new \<le> 1 \<and> (\<forall>r \<in> set new. hypothesis_row p i r)
    \<and> (new = [] \<or> (\<exists>o'. out = ColdStartOutput o'))"
proof (cases out)
  case (ExplainerOutput e)
  then show ?thesis using assms
    by (intro exI [of _ "[]"]) (auto simp: apply_role_def set_explanation_verdicts split: option.splits)
next
  case (JudgeOutput choice)
  then show ?thesis using assms
    by (intro exI [of _ "[]"])
      (auto simp: apply_role_def apply_judge_def annotate_judge_verdicts split: option.splits if_splits)
next
  case (ColdStartOutput o')
  then obtain sid l where "apply_coldstart strip_ids now p i l o' (default_locator (co_label o')) tag db = Some (db', sid)"
    using assms by (auto simp: apply_role_def)
  from apply_coldstart_adds [OF this] obtain r where
    "map verdict_of (db_suggestions db') = map verdict_of (db_suggestions db) @ [verdict_of r]"
    "hypothesis_row p i r" by blast
  then show ?thesis using ColdStartOutput by (intro exI [of _ "[r]"]) simp
next
  case ExtractorOutput
  then show ?thesis using assms by (intro exI [of _ "[]"]) (simp add: apply_role_def)
qed

lemma apply_answer_cases:
  "apply_answer strip_ids tag now p i inp r db = Some db
   \<or> (\<exists>out. apply_answer strip_ids tag now p i inp r db
        = apply_role strip_ids tag now p i (role_input_of inp) (role_output_of inp out) db)"
  by (auto simp: apply_answer_def split: outcome.split option.split)

lemma load_facts_coldstart:
  "load_facts re cold db role p i pl = Loaded inp \<Longrightarrow> role_output_of inp out = ColdStartOutput o'
   \<Longrightarrow> role = ''coldstart''"
  by (auto simp: load_facts_def or_skip_def role_output_of_def split: option.splits if_splits loaded.splits)

text \<open>The tables a job leaves: unchanged, or those of one row update.\<close>

lemma process_job_cases:
  obtains (same) "fst (process_job env states job db0 db sd) = db"
    | (written) inp out now where
        "load_facts (we_roles env) (we_is_cold env) db0 (job_role job) (job_project_id job)
           (job_item_id job) (job_payload job) = Loaded inp"
        "apply_role (we_strip_ids env) (en_model (we_engine env)) now (job_project_id job) (job_item_id job)
           (role_input_of inp) (role_output_of inp out) db
         = Some (fst (process_job env states job db0 db sd))"
        "sd_engine sd \<noteq> None" "sd_available sd" "role_is_enabled states (job_project_id job) (job_role job)"
proof (cases "fst (process_job env states job db0 db sd) = db")
  case True
  then show thesis by (rule same)
next
  case False
  let ?p = "job_project_id job" and ?i = "job_item_id job"
  obtain st where st: "sd_engine sd = Some st"
    using False by (cases "sd_engine sd") (auto simp: process_job_def)
  have on: "sd_available sd" "role_is_enabled states ?p (job_role job)"
    using False by (auto simp: process_job_def Let_def st split: if_splits)
  obtain inp where inp: "load_facts (we_roles env) (we_is_cold env) db0 (job_role job) ?p ?i (job_payload job) = Loaded inp"
    using False by (auto simp: process_job_def Let_def st on split: loaded.splits)
  obtain r st' where r: "run_role env ?p ?i inp st = (r, st')" by fastforce
  let ?now = "en_db_now (we_engine env) (es_world st')"
  let ?ap = "apply_answer (we_strip_ids env) (en_model (we_engine env)) ?now ?p ?i inp r db"
  have f: "fst (process_job env states job db0 db sd) = (case ?ap of None \<Rightarrow> db | Some db' \<Rightarrow> db')"
    by (simp add: process_job_def Let_def st on inp r)
  then have some: "?ap = Some (fst (process_job env states job db0 db sd))"
    using False by (cases ?ap) auto
  then have "?ap \<noteq> Some db" using False by auto
  then obtain out where "?ap = apply_role (we_strip_ids env) (en_model (we_engine env)) ?now ?p ?i
      (role_input_of inp) (role_output_of inp out) db"
    using apply_answer_cases by blast
  then show thesis using written [OF inp, of ?now out] some st on by simp
qed

lemma process_job_contained:
  assumes "p = job_project_id job" and "db' = fst (process_job env states job db0 db sd)"
  shows "db_items db' = db_items db \<and> db_events db' = db_events db
    \<and> foreign_rows p db' = foreign_rows p db
    \<and> (\<exists>new. map verdict_of (db_suggestions db') = map verdict_of (db_suggestions db) @ map verdict_of new
         \<and> length new \<le> 1
         \<and> list_all (\<lambda>r. hypothesis_row p (job_item_id job) r \<and> job_role job = ''coldstart'') new)"
proof (cases rule: process_job_cases [where env = env and states = states and job = job and ?db0.0 = db0
        and db = db and sd = sd])
  case same
  then show ?thesis unfolding assms by (intro conjI exI [of _ "[]"]) simp_all
next
  case (written inp out now)
  note ap = written(2) [folded assms]
  obtain new where new: "map verdict_of (db_suggestions db') = map verdict_of (db_suggestions db) @ map verdict_of new"
      "length new \<le> 1" "\<forall>r \<in> set new. hypothesis_row p (job_item_id job) r"
      "new = [] \<or> (\<exists>o'. role_output_of inp out = ColdStartOutput o')"
    using apply_role_adds [OF ap] by blast
  have "new = [] \<or> job_role job = ''coldstart''"
    using new(4) load_facts_coldstart [OF written(1)] by blast
  then have "list_all (\<lambda>r. hypothesis_row p (job_item_id job) r \<and> job_role job = ''coldstart'') new"
    using new(3) by (auto simp: list_all_iff)
  then show ?thesis using apply_role_keeps [OF ap] apply_role_foreign [OF ap] new(1,2) by blast
qed

text \<open>
  C13. One job of the sidecar's worker is contained. Whatever the chat server, the cache and the tables
  hold, and whatever other threads did since the facts were read: processing a job labels no item,
  appends no label event, changes no row of another project at all, and of no row of its own a label,
  confidence, feature, method or outcome. It adds at most one row, only for a cold-start job, about the
  job's item, pending, and at least the suggest threshold but below the automatic one.
\<close>

theorem worker_job_contained:
  "let p = job_project_id job; db' = fst (process_job env states job db0 db sd)
   in db_items db' = db_items db \<and> db_events db' = db_events db
    \<and> foreign_rows p db' = foreign_rows p db
    \<and> (\<exists>new. map verdict_of (db_suggestions db') = map verdict_of (db_suggestions db) @ map verdict_of new
         \<and> length new \<le> 1
         \<and> list_all (\<lambda>r. hypothesis_row p (job_item_id job) r \<and> job_role job = ''coldstart'') new)"
  unfolding Let_def by (rule process_job_contained) (rule refl)+


text \<open>
  A switch stops its role in its project and nothing else. With the role switched off a job of that
  role and project leaves the tables, the engine, the breaker and the cache alone; any other job is
  processed as before. Among the others are the jobs of the abstain explainer, which the explainer's
  configuration flag covers and its switch does not.
\<close>

theorem switch_stops_its_role:
  "process_job env (set_role_state now p r False reason states) job db0 db sd =
     (if job_project_id job = p \<and> job_role job = r then (db, sd)
      else process_job env states job db0 db sd)"
proof -
  have e: "role_is_enabled (set_role_state now p r False reason states) p' r' =
      (if p' = p \<and> r' = r then False else role_is_enabled states p' r')" for p' r'
    by (auto simp: role_is_enabled_def set_role_state_def)
  show ?thesis by (simp add: process_job_def Let_def e split: option.split)
qed

lemma judge_candidate_of_id:
  "judge_candidate_of db p r = Some (Some x) \<Longrightarrow> load_signature db p (jc_id x) \<noteq> None \<and> nr_id r = Some (jc_id x)"
  by (auto simp: judge_candidate_of_def split: option.splits)

lemma judge_candidates_of_ids:
  "judge_candidates_of db p refs = Some cs \<Longrightarrow> c \<in> set cs \<Longrightarrow>
     load_signature db p (jc_id c) \<noteq> None \<and> Some (jc_id c) \<in> set (map nr_id refs)"
proof (induction db p refs arbitrary: cs rule: judge_candidates_of.induct)
  case (2 db p r rs)
  obtain x ds where x: "judge_candidate_of db p r = Some x" "judge_candidates_of db p rs = Some ds"
      "cs = (case x of None \<Rightarrow> ds | Some y \<Rightarrow> y # ds)"
    using 2(2) by (auto split: option.splits)
  then consider "c \<in> set ds" | "x = Some c" using 2(3) by (auto split: option.splits)
  then show ?case
  proof cases
    case 1
    then show ?thesis using 2(1) [OF x(1,2)] by simp
  next
    case 2
    then have "judge_candidate_of db p r = Some (Some c)" using x(1) by simp
    from judge_candidate_of_id [OF this] show ?thesis by simp
  qed
qed simp

lemma py_nth_in: "py_nth xs k = Some x \<Longrightarrow> x \<in> set xs"
  by (auto simp: py_nth_def split: if_splits intro!: nth_mem)

text \<open>
  The judge's verdict is about what the judge was shown. Whatever the answer, a judge job leaves the
  tables alone or annotates the item's newest row, with nobody or with a candidate of the job's payload
  whose signature still exists in the project when the facts are read.
\<close>

theorem judge_verdict_shown:
  assumes "job_role job = ''judge''"
  shows "fst (process_job env states job db0 db sd) \<in>
    {db, annotate_judge (job_project_id job) (job_item_id job) None db}
    \<union> {annotate_judge (job_project_id job) (job_item_id job) (Some c) db | c.
         Some c \<in> set (map nr_id (payload_refs (job_payload job)))
         \<and> load_signature db0 (job_project_id job) c \<noteq> None}"
proof (cases rule: process_job_cases [where env = env and states = states and job = job and ?db0.0 = db0
        and db = db and sd = sd])
  case same
  then show ?thesis by simp
next
  case (written inp out now)
  obtain s l j where j: "load_signature db0 (job_project_id job) (job_item_id job) = Some (s, l)"
      "inp = JudgeIn j" "judge_facts db0 (job_project_id job) s (job_payload job) = Loaded j"
    using written(1) assms by (auto simp: load_facts_def split: option.splits loaded.splits)
  then obtain cs where cs: "judge_candidates_of db0 (job_project_id job) (payload_refs (job_payload job)) = Some cs"
      "ji_candidates j = cs"
    by (auto simp: judge_facts_def split: option.splits if_splits)
  have "apply_judge (job_project_id job) (job_item_id job) (map jc_id cs) (to_str (text_at (ustr ''choice'') out)) db
      = Some (fst (process_job env states job db0 db sd))"
    using written(2) by (simp add: j(2) role_output_of_def role_input_of_def apply_role_def cs(2))
  then consider "fst (process_job env states job db0 db sd) = db"
    | "fst (process_job env states job db0 db sd) = annotate_judge (job_project_id job) (job_item_id job) None db"
    | n c where "py_nth (map jc_id cs) (n - 1) = Some c"
        "fst (process_job env states job db0 db sd) = annotate_judge (job_project_id job) (job_item_id job) (Some c) db"
    by (auto simp: apply_judge_def Option.bind_eq_Some_conv split: if_splits option.splits)
  then show ?thesis
  proof cases
    case 3
    then obtain x where "x \<in> set cs" "c = jc_id x" using py_nth_in by fastforce
    then show ?thesis using judge_candidates_of_ids [OF cs(1), of x] 3(2) by blast
  qed simp_all
qed

theorem judge_verdict_shown_witness:
  "\<forall>env :: (unit, unit) wiring_env. fst (process_job env Map.empty
      \<lparr>job_role = ''judge'', job_project_id = 1, job_item_id = 7, job_payload = JudgePayload []\<rparr>
      empty_db empty_db \<lparr>sd_available = True, sd_reason = None, sd_queue = None, sd_engine = None\<rparr>)
   \<in> {empty_db, annotate_judge 1 7 None empty_db}"
proof -
  let ?job = "\<lparr>job_role = ''judge'', job_project_id = 1, job_item_id = 7, job_payload = JudgePayload []\<rparr>"
  have "job_role ?job = ''judge''" by simp
  then have "fst (process_job env states ?job empty_db empty_db sd) \<in> {empty_db, annotate_judge 1 7 None empty_db}"
    for env :: "(unit, unit) wiring_env" and states sd
    using judge_verdict_shown [where job = ?job and env = env and states = states and sd = sd
        and ?db0.0 = empty_db and db = empty_db] by (simp add: payload_refs_def)
  then show ?thesis by (intro allI)
qed

section \<open>Facts come from the project alone\<close>

text \<open>What a project can see of the tables the facts are read from.\<close>

definition project_facts ::
  "int \<Rightarrow> db \<Rightarrow> item_row list \<times> sig_row list \<times> suggestion_row list \<times> label_event list" where
  "project_facts p db =
     (filter (\<lambda>r. ti_project_id r = p) (db_items db), filter (\<lambda>r. fs_project_id r = p) (db_sigs db),
      filter (\<lambda>r. su_project_id r = p) (db_suggestions db), filter (\<lambda>e. le_project_id e = p) (db_events db))"

lemma find_filter: "(\<And>x. P x \<Longrightarrow> Q x) \<Longrightarrow> List.find P (filter Q xs) = List.find P xs"
  by (induction xs) auto

lemma filter_within: "(\<And>x. P x \<Longrightarrow> Q x) \<Longrightarrow> filter P (filter Q xs) = filter P xs"
  by (induction xs) auto

lemma find_item_project:
  "find_item db p i = List.find (\<lambda>r. item_key r = (p, i)) (fst (project_facts p db))"
  unfolding find_item_def lookup_row_def project_facts_def fst_conv
  by (rule find_filter [symmetric]) (simp add: item_key_def)

lemma find_sig_project:
  "find_sig db p i = List.find (\<lambda>r. sig_key r = (p, i)) (fst (snd (project_facts p db)))"
  unfolding find_sig_def lookup_row_def project_facts_def fst_conv snd_conv
  by (rule find_filter [symmetric]) (simp add: sig_key_def)

lemma newest_project:
  "latest_suggestion db p i =
     py_max (\<lambda>r. (su_created_at r, su_suggestion_id r))
       (filter (\<lambda>r. suggestion_of r = (p, i)) (fst (snd (snd (project_facts p db)))))"
  by (simp add: latest_suggestion_def newest_def project_facts_def filter_within suggestion_of_def)

lemma latest_event_project:
  "latest_event db p i = py_max le_ts (filter (\<lambda>e. event_of e = (p, i)) (snd (snd (snd (project_facts p db)))))"
  by (simp add: latest_event_def project_facts_def filter_within event_of_def)

lemma hash_join_project:
  "hash_join db p h =
     concat (map (\<lambda>s. map (\<lambda>t. (s, t))
                  (filter (\<lambda>t. item_key t = sig_key s \<and> labelled t) (fst (project_facts p db))))
       (filter (\<lambda>s. fs_error_hash s = h) (fst (snd (project_facts p db)))))"
proof -
  have "filter (\<lambda>t. item_key t = sig_key s \<and> labelled t) (db_items db) =
      filter (\<lambda>t. item_key t = sig_key s \<and> labelled t) (filter (\<lambda>r. ti_project_id r = p) (db_items db))"
    if "fs_project_id s = p" for s
    using that by (intro filter_within [symmetric]) (auto simp: item_key_def sig_key_def)
  then have "concat (map (\<lambda>s. map (\<lambda>t. (s, t)) (filter (\<lambda>t. item_key t = sig_key s \<and> labelled t) (db_items db)))
        (filter (\<lambda>s. fs_project_id s = p \<and> fs_error_hash s = h) ss)) =
      concat (map (\<lambda>s. map (\<lambda>t. (s, t)) (filter (\<lambda>t. item_key t = sig_key s \<and> labelled t)
                    (filter (\<lambda>r. ti_project_id r = p) (db_items db))))
        (filter (\<lambda>s. fs_error_hash s = h) (filter (\<lambda>r. fs_project_id r = p) ss)))" for ss
    by (induction ss) auto
  then show ?thesis by (simp add: hash_join_def project_facts_def)
qed

lemma hash_pool_project: "project_facts p db = project_facts p db' \<Longrightarrow> hash_pool db p = hash_pool db' p"
  by (intro ext) (simp add: hash_pool_def hash_join_project latest_event_project)

lemma load_signature_project:
  "project_facts p db = project_facts p db' \<Longrightarrow> load_signature db p = load_signature db' p"
  by (intro ext) (simp add: load_signature_def find_item_project find_sig_project)

lemma explainer_facts_project:
  "project_facts p db = project_facts p db' \<Longrightarrow> explainer_facts db p = explainer_facts db' p"
  by (intro ext) (simp add: explainer_facts_def newest_project)

lemma abstain_facts_project:
  assumes "project_facts p db = project_facts p db'"
  shows "abstain_facts env db p = abstain_facts env db' p"
  unfolding abstain_facts_def [abs_def] hash_pool_project [OF assms] by (rule refl)

lemma judge_facts_project:
  assumes "project_facts p db = project_facts p db'"
  shows "judge_facts db p = judge_facts db' p"
proof -
  have c: "judge_candidate_of db p r = judge_candidate_of db' p r" for r
    unfolding judge_candidate_of_def load_signature_project [OF assms] by (rule refl)
  have "judge_candidates_of db p refs = judge_candidates_of db' p refs" for refs
  proof (induction refs)
    case (Cons r rs)
    show ?case unfolding judge_candidates_of.simps c Cons.IH by (rule refl)
  qed simp
  then show ?thesis unfolding judge_facts_def [abs_def] by simp
qed

lemma load_facts_project:
  assumes "project_facts p db = project_facts p db'"
  shows "load_facts env cold db role p = load_facts env cold db' role p"
  unfolding load_facts_def [abs_def] load_signature_project [OF assms] explainer_facts_project [OF assms]
    abstain_facts_project [OF assms] judge_facts_project [OF assms] by (rule refl)

text \<open>
  C23. No prompt holds another project's evidence. A job's input, its prompt, its cache key and so the whole
  run of its role depend on the tables only through the rows of the job's own project: tables that agree
  on those give the same engine state, down to the requests sent and the events recorded, and the same
  row updates.
\<close>

theorem facts_stay_in_project:
  assumes "project_facts (job_project_id job) db0 = project_facts (job_project_id job) db1"
  shows "process_job env states job db0 db sd = process_job env states job db1 db sd"
  unfolding process_job_def Let_def load_facts_project [OF assms] by (rule refl)

theorem facts_stay_in_project_witness:
  "\<forall>env :: (unit, unit) wiring_env. \<forall>states sd.
     process_job env states \<lparr>job_role = ''judge'', job_project_id = 1, job_item_id = 7, job_payload = NoPayload\<rparr>
       (fst (append_event 0 \<lparr>le_project_id = 2, le_item_id = 7, le_old_label = None, le_new_label = ''pb001'',
          le_source = ''rp_user'', le_suggestion_id = None\<rparr> empty_db)) empty_db sd
     = process_job env states \<lparr>job_role = ''judge'', job_project_id = 1, job_item_id = 7, job_payload = NoPayload\<rparr>
         empty_db empty_db sd"
  by (intro allI facts_stay_in_project)
    (simp add: project_facts_def append_event_def Let_def empty_db_def label_event_in.defs)

section \<open>Switched off\<close>

text \<open>
  A sidecar that is switched off does nothing: it never becomes available, takes no job, has none to
  work on, and processing one leaves the tables as they are.
\<close>

theorem disabled_sidecar_inert:
  assumes "\<not> lf_enabled cfg"
  shows "manager_enqueue cfg role p i pl (sidecar_init cfg st) = (None, sidecar_init cfg st)
    \<and> probe cfg ask warm (sidecar_init cfg st) = (False, sidecar_init cfg st)
    \<and> worker_job env states db0 db (sidecar_init cfg st) = None
    \<and> process_job env states job db0 db (sidecar_init cfg st) = (db, sidecar_init cfg st)"
  using assms by (simp add: sidecar_init_def manager_enqueue_def probe_def worker_job_def process_job_def Let_def)

definition demo_config :: llm_config where
  "demo_config = \<lparr>lf_enabled = False, lf_explainer = True, lf_extractor = True, lf_judge = True,
     lf_coldstart = True, lf_queue_max = 10\<rparr>"

theorem disabled_sidecar_inert_witness:
  "\<forall>st :: (unit, unit) engine_state.
     manager_enqueue demo_config ''judge'' 1 7 NoPayload (sidecar_init demo_config st)
       = (None, sidecar_init demo_config st)"
proof
  fix st :: "(unit, unit) engine_state"
  have "\<not> lf_enabled demo_config" by (simp add: demo_config_def)
  from disabled_sidecar_inert [OF this, where st = st]
  show "manager_enqueue demo_config ''judge'' 1 7 NoPayload (sidecar_init demo_config st)
       = (None, sidecar_init demo_config st)" by blast
qed

section \<open>The probe\<close>

lemma probe_tries_moves:
  "probe_tries n ask w = (res, w') \<Longrightarrow> \<exists>k \<le> n. w' = ((\<lambda>v. snd (ask v)) ^^ k) w"
proof (induction n arbitrary: w)
  case 0
  then show ?case by (intro exI [of _ 0]) auto
next
  case (Suc n)
  obtain a v where a: "ask w = (a, v)" by fastforce
  show ?case
  proof (cases a)
    case (Inl e)
    then have "probe_tries n ask v = (res, w')" using Suc.prems a by simp
    from Suc.IH [OF this] obtain k where k: "k \<le> n" "w' = ((\<lambda>v. snd (ask v)) ^^ k) v" by blast
    then have "w' = ((\<lambda>v. snd (ask v)) ^^ Suc k) w" unfolding funpow_Suc_right by (simp add: a)
    then show ?thesis using k(1) by (intro exI [of _ "Suc k"]) auto
  next
    case (Inr r)
    then show ?thesis using Suc.prems a by (intro exI [of _ 1]) auto
  qed
qed

text \<open>
  The sidecar is available exactly when a probe said so. \<open>probe\<close> answers whether the sidecar is now
  available; it is if one of at most three questions was answered, by a reachable server that has the
  model, and then no reason is reported. The probe changes neither the queue nor the breaker, the cache
  or the event log.
\<close>

theorem probe_decides_availability:
  "case probe cfg ask warm sd of (ok, sd') \<Rightarrow>
     sd_available sd' = ok \<and> sd_queue sd' = sd_queue sd
     \<and> map_option (\<lambda>st. (es_breaker st, es_cache st, es_events st, es_requests st)) (sd_engine sd')
       = map_option (\<lambda>st. (es_breaker st, es_cache st, es_events st, es_requests st)) (sd_engine sd)
     \<and> (if ok then sd_reason sd' = None
          \<and> (\<exists>st r w. sd_engine sd = Some st \<and> probe_tries 3 ask (es_world st) = (Some r, w)
               \<and> pr_reachable r \<and> pr_model_present r)
        else sd_reason sd' \<in> {sd_reason sd, Some ''unreachable'', Some ''model_missing''})"
proof (cases "sd_engine sd")
  case None
  then show ?thesis by (simp add: probe_def)
next
  case (Some st)
  obtain res w where r: "probe_tries 3 ask (es_world st) = (res, w)" by fastforce
  show ?thesis
    by (cases res) (simp_all add: probe_def Let_def Some r)
qed

section \<open>The explainer's guard\<close>

text \<open>
  A row holds a locator, so the loader's test for the bare group \<open>ti\<close> never holds of a row the analyzer
  wrote: an abstention that has become the item's newest row is explained like a verdict.
\<close>

lemma abstention_passes_guard:
  assumes "latest_suggestion db p i = Some r" "su_predicted_label r = default_locator ''ti''"
  shows "explainer_facts db p i s \<noteq> None"
proof -
  have "default_locator ''ti'' \<noteq> ''ti''" by (simp add: default_locator_def DEFAULT_LOCATOR_def)
  then show ?thesis using assms by (simp add: explainer_facts_def)
qed

end
