(* ===== verification/Regex.thy ===== *)
theory Regex
  imports Prelude
begin

text \<open>
  Python's \<open>re\<close>, as far as the sources use it: a backtracking matcher that lists every way to match at
  a position in the order the engine tries them, so that the first one is the match. Supported are
  character classes, sequences, alternatives, greedy and lazy repetition, groups, the anchors \<open>^\<close> and
  \<open>$\<close>, the word boundary, look-ahead and look-behind of fixed length. A repetition does not repeat an
  empty match. On top of it \<open>search\<close>, \<open>match\<close>, \<open>sub\<close>, \<open>findall\<close> and \<open>split\<close>.
\<close>

section \<open>Expressions\<close>

datatype regex =
    Eps
  | Chr "char \<Rightarrow> bool"
  | Seq regex regex
  | Alt regex regex
  | Star bool regex
  | Grp nat regex
  | Bol
  | Eol
  | Bnd
  | Look bool regex
  | Behind bool "(char \<Rightarrow> bool) list"

definition is_word :: "char \<Rightarrow> bool" where
  "is_word c \<longleftrightarrow> is_alpha c \<or> is_digit c \<or> c = CHR ''_''"

definition cls :: "string \<Rightarrow> char \<Rightarrow> bool" where
  "cls cs c \<longleftrightarrow> c \<in> set cs"

definition between :: "char \<Rightarrow> char \<Rightarrow> char \<Rightarrow> bool" where
  "between a b c \<longleftrightarrow> (of_char a :: nat) \<le> of_char c \<and> (of_char c :: nat) \<le> of_char b"

text \<open>The usual shorthands; \<open>lit_ci\<close> is a literal under \<open>re.IGNORECASE\<close>.\<close>

definition lit :: "string \<Rightarrow> regex" where
  "lit s = foldr (\<lambda>c r. Seq (Chr (\<lambda>x. x = c)) r) s Eps"

definition lit_ci :: "string \<Rightarrow> regex" where
  "lit_ci s = foldr (\<lambda>c r. Seq (Chr (\<lambda>x. lower_char x = lower_char c)) r) s Eps"

definition seqs :: "regex list \<Rightarrow> regex" where
  "seqs rs = foldr Seq rs Eps"

fun alts :: "regex list \<Rightarrow> regex" where
  "alts [] = Look False Eps"
| "alts [r] = r"
| "alts (r # rs) = Alt r (alts rs)"

definition star :: "regex \<Rightarrow> regex" where "star r = Star True r"
definition starl :: "regex \<Rightarrow> regex" where "starl r = Star False r"
definition plus1 :: "regex \<Rightarrow> regex" where "plus1 r = Seq r (Star True r)"
definition opt :: "regex \<Rightarrow> regex" where "opt r = Alt r Eps"

fun times_re :: "nat \<Rightarrow> regex \<Rightarrow> regex" where
  "times_re 0 r = Eps"
| "times_re (Suc n) r = Seq r (times_re n r)"

fun upto_re :: "nat \<Rightarrow> regex \<Rightarrow> regex" where
  "upto_re 0 r = Eps"
| "upto_re (Suc n) r = Alt (Seq r (upto_re n r)) Eps"

text \<open>\<open>r{lo,hi}\<close> and \<open>r{lo,}\<close>.\<close>

definition rng :: "nat \<Rightarrow> nat \<Rightarrow> regex \<Rightarrow> regex" where
  "rng lo hi r = Seq (times_re lo r) (upto_re (hi - lo) r)"

definition atleast :: "nat \<Rightarrow> regex \<Rightarrow> regex" where
  "atleast lo r = Seq (times_re lo r) (Star True r)"

definition sp :: regex where "sp = Chr is_space"
definition nsp :: regex where "nsp = Chr (\<lambda>c. \<not> is_space c)"
definition dig :: regex where "dig = Chr is_digit"
definition wrd :: regex where "wrd = Chr is_word"
definition dot :: regex where "dot = Chr (\<lambda>c. c \<noteq> CHR 0x0A)"
definition oneof :: "string \<Rightarrow> regex" where "oneof cs = Chr (cls cs)"
definition noneof :: "string \<Rightarrow> regex" where "noneof cs = Chr (\<lambda>c. \<not> cls cs c)"

lemmas re_abbrevs = lit_def lit_ci_def seqs_def star_def starl_def plus1_def opt_def rng_def
  atleast_def sp_def nsp_def dig_def wrd_def dot_def oneof_def noneof_def

section \<open>Matching at a position\<close>

text \<open>A cursor is the text before it, reversed, the text after it, and the groups matched so far.\<close>

type_synonym groups = "nat \<rightharpoonup> string"
type_synonym cursor = "string \<times> string \<times> groups"

definition before :: "cursor \<Rightarrow> string" where "before s = fst s"
definition after :: "cursor \<Rightarrow> string" where "after s = fst (snd s)"
definition caps :: "cursor \<Rightarrow> groups" where "caps s = snd (snd s)"

definition advances :: "cursor \<Rightarrow> cursor \<Rightarrow> bool" where
  "advances s t \<longleftrightarrow> length (after t) < length (after s)"

definition consumed :: "cursor \<Rightarrow> cursor \<Rightarrow> string" where
  "consumed s t = take (length (after s) - length (after t)) (after s)"

fun rep :: "bool \<Rightarrow> (cursor \<Rightarrow> cursor list) \<Rightarrow> nat \<Rightarrow> cursor \<Rightarrow> cursor list" where
  "rep greedy f 0 s = [s]"
| "rep greedy f (Suc n) s =
     (let more = concat (map (rep greedy f n) (filter (advances s) (f s)))
      in if greedy then more @ [s] else s # more)"

definition at_boundary :: "cursor \<Rightarrow> bool" where
  "at_boundary s \<longleftrightarrow>
     (case before s of [] \<Rightarrow> False | c # _ \<Rightarrow> is_word c) \<noteq> (case after s of [] \<Rightarrow> False | c # _ \<Rightarrow> is_word c)"

definition behind :: "(char \<Rightarrow> bool) list \<Rightarrow> cursor \<Rightarrow> bool" where
  "behind ps s \<longleftrightarrow> length ps \<le> length (before s) \<and> list_all2 (\<lambda>p c. p c) (rev ps) (take (length ps) (before s))"

fun results :: "regex \<Rightarrow> cursor \<Rightarrow> cursor list" where
  "results Eps s = [s]"
| "results (Chr p) s =
     (case after s of [] \<Rightarrow> [] | c # cs \<Rightarrow> if p c then [(c # before s, cs, caps s)] else [])"
| "results (Seq a b) s = concat (map (results b) (results a s))"
| "results (Alt a b) s = results a s @ results b s"
| "results (Star greedy a) s = rep greedy (results a) (length (after s)) s"
| "results (Grp i a) s =
     map (\<lambda>t. (before t, after t, (caps t)(i \<mapsto> consumed s t))) (results a s)"
| "results Bol s = (if before s = [] then [s] else [])"
| "results Eol s = (if after s = [] \<or> after s = [CHR 0x0A] then [s] else [])"
| "results Bnd s = (if at_boundary s then [s] else [])"
| "results (Look pos a) s = (if (results a s \<noteq> []) = pos then [s] else [])"
| "results (Behind pos ps) s = (if behind ps s = pos then [s] else [])"

section \<open>Scanning a text\<close>

record rmatch =
  rm_text :: string
  rm_groups :: groups
  rm_before :: string
  rm_after :: string

definition rmatch_of :: "cursor \<Rightarrow> cursor \<Rightarrow> rmatch" where
  "rmatch_of s t = \<lparr>rm_text = consumed s t, rm_groups = caps t, rm_before = rev (before s),
     rm_after = after t\<rparr>"

definition at_pos :: "string \<Rightarrow> string \<Rightarrow> cursor" where
  "at_pos pre suf = (pre, suf, Map.empty)"

text \<open>\<open>pattern.match\<close>: at the start of the text only.\<close>

definition re_match :: "regex \<Rightarrow> string \<Rightarrow> rmatch option" where
  "re_match r s =
     (case results r (at_pos [] s) of [] \<Rightarrow> None | t # _ \<Rightarrow> Some (rmatch_of (at_pos [] s) t))"

fun search_from :: "regex \<Rightarrow> string \<Rightarrow> string \<Rightarrow> rmatch option" where
  "search_from r pre suf =
     (case results r (at_pos pre suf) of
        t # _ \<Rightarrow> Some (rmatch_of (at_pos pre suf) t)
      | [] \<Rightarrow> (case suf of [] \<Rightarrow> None | c # cs \<Rightarrow> search_from r (c # pre) cs))"

declare search_from.simps [simp del]

definition re_search :: "regex \<Rightarrow> string \<Rightarrow> rmatch option" where
  "re_search r s = search_from r [] s"

text \<open>The pieces of a text: its characters outside matches, and the matches. After an empty match the
  next one at the same place must not be empty.\<close>

datatype piece = Keep char | Hit rmatch

fun scan :: "regex \<Rightarrow> nat \<Rightarrow> string \<Rightarrow> string \<Rightarrow> piece list" where
  "scan r k pre [] =
     (if k > 0 then []
      else (case results r (at_pos pre []) of [] \<Rightarrow> [] | t # _ \<Rightarrow> [Hit (rmatch_of (at_pos pre []) t)]))"
| "scan r (Suc k) pre (c # cs) = scan r k (c # pre) cs"
| "scan r 0 pre (c # cs) =
     (let s = at_pos pre (c # cs); ts = results r s
      in case ts of
           [] \<Rightarrow> Keep c # scan r 0 (c # pre) cs
         | t # _ \<Rightarrow>
             if advances s t then Hit (rmatch_of s t) # scan r (length (consumed s t) - 1) (c # pre) cs
             else Hit (rmatch_of s t) #
               (case find (advances s) ts of
                  None \<Rightarrow> Keep c # scan r 0 (c # pre) cs
                | Some u \<Rightarrow> Hit (rmatch_of s u) # scan r (length (consumed s u) - 1) (c # pre) cs))"

definition pieces :: "regex \<Rightarrow> string \<Rightarrow> piece list" where
  "pieces r s = scan r 0 [] s"

fun piece_text :: "(rmatch \<Rightarrow> string) \<Rightarrow> piece \<Rightarrow> string" where
  "piece_text f (Keep c) = [c]"
| "piece_text f (Hit m) = f m"

definition re_sub_with :: "regex \<Rightarrow> (rmatch \<Rightarrow> string) \<Rightarrow> string \<Rightarrow> string" where
  "re_sub_with r f s = concat (map (piece_text f) (pieces r s))"

definition re_sub :: "regex \<Rightarrow> string \<Rightarrow> string \<Rightarrow> string" where
  "re_sub r w s = re_sub_with r (\<lambda>_. w) s"

text \<open>A group in a template; one that did not take part is the empty text.\<close>

definition grp :: "nat \<Rightarrow> rmatch \<Rightarrow> string" where
  "grp i m = (case rm_groups m i of None \<Rightarrow> [] | Some t \<Rightarrow> t)"

definition re_findall :: "regex \<Rightarrow> string \<Rightarrow> rmatch list" where
  "re_findall r s = List.map_filter (\<lambda>p. case p of Hit m \<Rightarrow> Some m | Keep c \<Rightarrow> None) (pieces r s)"

text \<open>\<open>re.split\<close> by a pattern with one group, number 1, that always takes part.\<close>

fun split_pieces :: "string \<Rightarrow> piece list \<Rightarrow> string list" where
  "split_pieces cur [] = [rev cur]"
| "split_pieces cur (Keep c # ps) = split_pieces (c # cur) ps"
| "split_pieces cur (Hit m # ps) = rev cur # grp 1 m # split_pieces [] ps"

definition re_split :: "regex \<Rightarrow> string \<Rightarrow> string list" where
  "re_split r s = split_pieces [] (pieces r s)"

section \<open>What a match is\<close>

text \<open>
  The same expressions read declaratively: a relation between the cursor where a match starts and the
  cursor where it ends, with repetition as the reflexive transitive closure of one advancing round.
  The backtracking matcher lists exactly these cursors; it only adds the order in which they are tried.
\<close>

primrec matches :: "regex \<Rightarrow> cursor \<Rightarrow> cursor \<Rightarrow> bool" where
  "matches Eps = (\<lambda>s t. t = s)"
| "matches (Chr p) = (\<lambda>s t. \<exists>c cs. after s = c # cs \<and> p c \<and> t = (c # before s, cs, caps s))"
| "matches (Seq a b) = matches a OO matches b"
| "matches (Alt a b) = (\<lambda>s t. matches a s t \<or> matches b s t)"
| "matches (Star greedy a) = (\<lambda>s t. matches a s t \<and> advances s t)\<^sup>*\<^sup>*"
| "matches (Grp i a) = (\<lambda>s t. \<exists>u. matches a s u \<and> t = (before u, after u, (caps u)(i \<mapsto> consumed s u)))"
| "matches Bol = (\<lambda>s t. t = s \<and> before s = [])"
| "matches Eol = (\<lambda>s t. t = s \<and> (after s = [] \<or> after s = [CHR 0x0A]))"
| "matches Bnd = (\<lambda>s t. t = s \<and> at_boundary s)"
| "matches (Look pos a) = (\<lambda>s t. t = s \<and> (\<exists>u. matches a s u) = pos)"
| "matches (Behind pos ps) = (\<lambda>s t. t = s \<and> behind ps s = pos)"

lemma set_rep_Suc: "set (rep greedy f (Suc n) s) =
    insert s (\<Union>u \<in> {u \<in> set (f s). advances s u}. set (rep greedy f n u))"
  by (auto simp: Let_def simp del: split_paired_All split_paired_Ex)

lemma rep_sound:
  assumes "t \<in> set (rep greedy f n s)"
  shows "(\<lambda>s t. t \<in> set (f s) \<and> advances s t)\<^sup>*\<^sup>* s t"
  using assms
proof (induction n arbitrary: s)
  case (Suc n)
  show ?case
  proof (cases "t = s")
    case False
    with Suc.prems obtain u where "u \<in> set (f s)" "advances s u" "t \<in> set (rep greedy f n u)"
      unfolding set_rep_Suc by blast
    with Suc.IH show ?thesis by (metis (mono_tags, lifting) converse_rtranclp_into_rtranclp)
  qed simp
qed simp

lemma rep_refl: "s \<in> set (rep greedy f n s)"
  by (cases n) (auto simp: Let_def)

lemma rep_complete:
  assumes "(\<lambda>s t. t \<in> set (f s) \<and> advances s t)\<^sup>*\<^sup>* s t" and "length (after s) \<le> n"
  shows "t \<in> set (rep greedy f n s)"
  using assms
proof (induction arbitrary: n rule: converse_rtranclp_induct)
  case base
  show ?case by (rule rep_refl)
next
  case (step s u)
  then obtain m where m: "n = Suc m" "length (after u) \<le> m"
    by (cases n) (auto simp: advances_def)
  have "t \<in> set (rep greedy f m u)" by (rule step.IH [OF m(2)])
  with step.hyps(1) show ?case unfolding m(1) set_rep_Suc by blast
qed

lemma set_rep: "length (after s) \<le> n \<Longrightarrow>
   set (rep greedy f n s) = {t. (\<lambda>s t. t \<in> set (f s) \<and> advances s t)\<^sup>*\<^sup>* s t}"
  using rep_sound [of _ greedy f n s] rep_complete [of f s _ n greedy] by blast

theorem set_results: "set (results r s) = {t. matches r s t}"
proof (induction r arbitrary: s)
  case (Star greedy a)
  then show ?case by (simp add: set_rep)
next
  case (Look pos a)
  have "results a s \<noteq> [] \<longleftrightarrow> (\<exists>u. matches a s u)"
    using Look [of s] by (metis (no_types, lifting) empty_iff mem_Collect_eq set_empty ex_in_conv)
  then show ?case by simp
qed (auto simp: relcompp_apply split: list.splits)

lemma results_Nil_iff: "results r s = [] \<longleftrightarrow> (\<forall>t. \<not> matches r s t)"
  using set_results [of r s] by (metis empty_Collect_eq set_empty)

section \<open>Invariants of a match\<close>

text \<open>A match only moves forward over the text.\<close>

definition splits_same :: "cursor \<Rightarrow> cursor \<Rightarrow> bool" where
  "splits_same s t \<longleftrightarrow> (\<exists>us. after s = us @ after t \<and> before t = rev us @ before s)"

lemma splits_same_refl [simp]: "splits_same s s"
  by (simp add: splits_same_def)

lemma splits_same_trans: "splits_same s t \<Longrightarrow> splits_same t u \<Longrightarrow> splits_same s u"
  by (auto simp: splits_same_def)

lemma cursor_sel [simp]: "before (p, q, g) = p" "after (p, q, g) = q" "caps (p, q, g) = g"
  by (simp_all add: before_def after_def caps_def)

lemma at_pos_sel [simp]: "before (at_pos p q) = p" "after (at_pos p q) = q"
    "caps (at_pos p q) = Map.empty"
  by (simp_all add: at_pos_def)

lemma matches_splits: "matches r s t \<Longrightarrow> splits_same s t"
proof (induction r arbitrary: s t)
  case (Chr p)
  then show ?case by (auto simp: splits_same_def)
next
  case (Seq a b)
  then show ?case by (metis matches.simps(3) relcomppE splits_same_trans)
next
  case (Star greedy a)
  from Star.prems have "(\<lambda>s t. matches a s t \<and> advances s t)\<^sup>*\<^sup>* s t" by simp
  then show ?case
    by induction (auto intro: splits_same_trans Star.IH)
next
  case (Grp i a)
  from Grp.prems obtain u where u: "matches a s u" "t = (before u, after u, (caps u)(i \<mapsto> consumed s u))"
    by auto
  show ?case using Grp.IH [OF u(1)] u(2) by (simp add: splits_same_def)
qed auto

lemma consumed_splits: "splits_same s t \<Longrightarrow> after s = consumed s t @ after t"
  by (auto simp: splits_same_def consumed_def)

text \<open>The groups an expression can fill all satisfy \<open>P\<close>.\<close>

primrec grps_ok :: "(string \<Rightarrow> bool) \<Rightarrow> regex \<Rightarrow> bool" where
  "grps_ok P Eps = True"
| "grps_ok P (Chr p) = True"
| "grps_ok P (Seq a b) = (grps_ok P a \<and> grps_ok P b)"
| "grps_ok P (Alt a b) = (grps_ok P a \<and> grps_ok P b)"
| "grps_ok P (Star g a) = grps_ok P a"
| "grps_ok P (Grp i a) = (grps_ok P a \<and> (\<forall>s t. matches a s t \<longrightarrow> P (consumed s t)))"
| "grps_ok P Bol = True"
| "grps_ok P Eol = True"
| "grps_ok P Bnd = True"
| "grps_ok P (Look b a) = True"
| "grps_ok P (Behind b ps) = True"

lemma matches_caps:
  "matches r s t \<Longrightarrow> grps_ok P r \<Longrightarrow> \<forall>v \<in> ran (caps s). P v \<Longrightarrow> \<forall>v \<in> ran (caps t). P v"
proof (induction r arbitrary: s t)
  case (Seq a b)
  from Seq.prems(1) obtain u where u: "matches a s u" "matches b u t" by auto
  show ?case
    using Seq.IH(2) [OF u(2) _ Seq.IH(1) [OF u(1) _ Seq.prems(3)]] Seq.prems(2) by simp
next
  case (Star greedy a)
  from Star.prems(1) have "(\<lambda>s t. matches a s t \<and> advances s t)\<^sup>*\<^sup>* s t" by simp
  then show ?case
  proof induction
    case base
    show ?case by (rule Star.prems(3))
  next
    case (step y z)
    show ?case by (rule Star.IH [OF conjunct1 [OF step.hyps(2)] _ step.IH]) (use Star.prems(2) in simp)
  qed
next
  case (Grp i a)
  then obtain u where u: "matches a s u" "t = (before u, after u, (caps u)(i \<mapsto> consumed s u))"
    by auto
  have "\<forall>v \<in> ran (caps u). P v" using Grp.IH [OF u(1)] Grp.prems by simp
  moreover have "P (consumed s u)" using Grp.prems(2) u(1) unfolding grps_ok.simps by blast
  ultimately show ?case using u(2) by (auto simp: ran_def split: if_splits)
qed auto

lemma search_from_caps:
  assumes "search_from r pre suf = Some m" and "grps_ok P r"
  shows "\<forall>v \<in> ran (rm_groups m). P v"
  using assms
proof (induction r pre suf rule: search_from.induct)
  case (1 r pre suf)
  show ?case
  proof (cases "results r (at_pos pre suf)")
    case Nil
    with 1 show ?thesis by (auto simp: search_from.simps [of r pre suf] split: list.splits)
  next
    case (Cons t ts)
    then have t: "matches r (at_pos pre suf) t" using set_results [of r "at_pos pre suf"] by auto
    have "m = rmatch_of (at_pos pre suf) t"
      using "1.prems"(1) Cons by (simp add: search_from.simps [of r pre suf])
    then show ?thesis
      using matches_caps [OF t "1.prems"(2)] by (simp add: rmatch_of_def)
  qed
qed

lemma re_search_caps:
  "re_search r s = Some m \<Longrightarrow> grps_ok P r \<Longrightarrow> rm_groups m i = Some v \<Longrightarrow> P v"
  using search_from_caps [of r "[]" s m P] by (auto simp: re_search_def ran_def)

text \<open>A match consumes at least this many characters.\<close>

primrec re_min :: "regex \<Rightarrow> nat" where
  "re_min Eps = 0"
| "re_min (Chr p) = 1"
| "re_min (Seq a b) = re_min a + re_min b"
| "re_min (Alt a b) = min (re_min a) (re_min b)"
| "re_min (Star g a) = 0"
| "re_min (Grp i a) = re_min a"
| "re_min Bol = 0"
| "re_min Eol = 0"
| "re_min Bnd = 0"
| "re_min (Look b a) = 0"
| "re_min (Behind b ps) = 0"

lemma matches_re_min: "matches r s t \<Longrightarrow> length (after t) + re_min r \<le> length (after s)"
proof (induction r arbitrary: s t)
  case (Seq a b)
  from Seq.prems obtain u where u: "matches a s u" "matches b u t" by auto
  show ?case using Seq.IH(1) [OF u(1)] Seq.IH(2) [OF u(2)] by simp
next
  case (Alt a b)
  then show ?case by (metis matches.simps(4) min.cobounded1 min.cobounded2 re_min.simps(4)
    add_le_cancel_left le_trans)
next
  case (Star g a)
  then obtain us where "after s = us @ after t"
    using matches_splits [of "Star g a" s t] by (auto simp: splits_same_def)
  then show ?case by simp
next
  case (Grp i a)
  from Grp.prems obtain u where u: "matches a s u" "t = (before u, after u, (caps u)(i \<mapsto> consumed s u))"
    by auto
  show ?case using Grp.IH [OF u(1)] u(2) by simp
qed auto

lemma search_from_after:
  "search_from r pre suf = Some m \<Longrightarrow> length (rm_after m) + re_min r \<le> length suf"
proof (induction r pre suf rule: search_from.induct)
  case (1 r pre suf)
  show ?case
  proof (cases "results r (at_pos pre suf)")
    case Nil
    with 1 show ?thesis
      by (fastforce simp: search_from.simps [of r pre suf] split: list.splits)
  next
    case (Cons t ts)
    then have t: "matches r (at_pos pre suf) t" using set_results [of r "at_pos pre suf"] by auto
    have "m = rmatch_of (at_pos pre suf) t"
      using "1.prems" Cons by (simp add: search_from.simps [of r pre suf])
    then show ?thesis using matches_re_min [OF t] by (simp add: rmatch_of_def)
  qed
qed

lemma re_search_after: "re_search r s = Some m \<Longrightarrow> length (rm_after m) + re_min r \<le> length s"
  by (auto simp: re_search_def search_from_after)

section \<open>Deleting a class of characters\<close>

lemma rep_class:
  "length (after s) \<le> n \<Longrightarrow> \<exists>ts. rep True (results (Chr p)) n s =
     (rev (takeWhile p (after s)) @ before s, dropWhile p (after s), caps s) # ts"
proof (induction n arbitrary: s)
  case 0
  then show ?case by (cases s) simp
next
  case (Suc n)
  show ?case
  proof (cases "\<exists>c cs. after s = c # cs \<and> p c")
    case True
    then obtain c cs where c: "after s = c # cs" "p c" by blast
    let ?u = "(c # before s, cs, caps s)"
    have "length (after ?u) \<le> n" using Suc.prems c(1) by simp
    from Suc.IH [OF this] obtain ts where ts: "rep True (results (Chr p)) n ?u =
        (rev (takeWhile p cs) @ c # before s, dropWhile p cs, caps s) # ts"
      by (auto simp del: results.simps)
    have "filter (advances s) (results (Chr p) s) = [?u]" using c by (simp add: advances_def)
    with c ts show ?thesis by (simp del: results.simps)
  next
    case False
    then show ?thesis by (cases s) (auto split: list.splits)
  qed
qed

lemma results_plus1_class:
  "\<not> p c \<Longrightarrow> results (plus1 (Chr p)) (at_pos pre (c # cs)) = []"
  "results (plus1 (Chr p)) (at_pos pre []) = []"
  "p c \<Longrightarrow> \<exists>ts. results (plus1 (Chr p)) (at_pos pre (c # cs)) =
     (rev (takeWhile p cs) @ c # pre, dropWhile p cs, Map.empty) # ts"
  using rep_class [of "(c # pre, cs, Map.empty)" "length cs" p]
  by (auto simp: plus1_def at_pos_def)

lemma scan_delete_class:
  "k \<le> length s \<Longrightarrow>
     concat (map (piece_text (\<lambda>_. [])) (scan (plus1 (Chr p)) k pre s)) = filter (\<lambda>c. \<not> p c) (drop k s)"
proof (induction "plus1 (Chr p)" k pre s rule: scan.induct)
  case (3 pre c cs)
  show ?case
  proof (cases "p c")
    case True
    obtain ts where r: "results (plus1 (Chr p)) (at_pos pre (c # cs)) =
        (rev (takeWhile p cs) @ c # pre, dropWhile p cs, Map.empty) # ts"
      using results_plus1_class(3) [where p = p and c = c, OF True] by blast
    let ?t = "(rev (takeWhile p cs) @ c # pre, dropWhile p cs, Map.empty :: groups)"
    have le: "length (dropWhile p cs) \<le> length cs" by (rule length_dropWhile_le)
    have len: "length cs - length (dropWhile p cs) = length (takeWhile p cs)"
      by (metis add_diff_cancel_right' length_append takeWhile_dropWhile_id)
    have adv: "advances (at_pos pre (c # cs)) ?t" using le by (simp add: advances_def)
    have con: "length (consumed (at_pos pre (c # cs)) ?t) - 1 = length (takeWhile p cs)"
      using le len by (simp add: consumed_def Suc_diff_le)
    have "length (takeWhile p cs) \<le> length cs" by (rule length_takeWhile_le)
    from "3.hyps"(2) [OF refl refl r adv] this con
    have "concat (map (piece_text (\<lambda>_. [])) (scan (plus1 (Chr p)) (length (takeWhile p cs)) (c # pre) cs))
        = filter (\<lambda>c. \<not> p c) (drop (length (takeWhile p cs)) cs)" by simp
    also have "\<dots> = filter (\<lambda>c. \<not> p c) cs"
      by (induction cs) simp_all
    finally show ?thesis using True r adv con by simp
  next
    case False
    then have "results (plus1 (Chr p)) (at_pos pre (c # cs)) = []" by (rule results_plus1_class(1) [where p = p and c = c])
    with "3.hyps"(1) False show ?thesis by simp
  qed
qed (simp_all add: results_plus1_class)

lemma re_sub_delete_class: "re_sub (plus1 (Chr p)) [] s = filter (\<lambda>c. \<not> p c) s"
  by (simp add: re_sub_def re_sub_with_def pieces_def scan_delete_class)

section \<open>A scan loses nothing\<close>

lemma consumed_stuck: "splits_same s t \<Longrightarrow> \<not> advances s t \<Longrightarrow> consumed s t = []"
  by (auto simp: splits_same_def advances_def consumed_def)

lemma consumed_advances: "advances s t \<Longrightarrow> 0 < length (consumed s t)"
  by (auto simp: advances_def consumed_def)

lemma hit_then_rest:
  assumes "t \<in> set (results r (at_pos pre (c # cs)))" "advances (at_pos pre (c # cs)) t"
  shows "consumed (at_pos pre (c # cs)) t @ drop (length (consumed (at_pos pre (c # cs)) t) - 1) cs = c # cs"
    "length (consumed (at_pos pre (c # cs)) t) - 1 \<le> length cs"
proof -
  let ?w = "consumed (at_pos pre (c # cs)) t"
  have "splits_same (at_pos pre (c # cs)) t" using assms(1) by (simp add: set_results matches_splits)
  then have e: "c # cs = ?w @ after t" using consumed_splits by fastforce
  then have "drop (length ?w) (c # cs) = after t" by (metis append_eq_conv_conj)
  then have "drop (length ?w - 1) cs = after t"
    using consumed_advances [OF assms(2)] by (cases "length ?w") simp_all
  then show "?w @ drop (length ?w - 1) cs = c # cs" using e by simp
  have "length (c # cs) = length ?w + length (after t)" using e by (metis length_append)
  then show "length ?w - 1 \<le> length cs" by simp
qed

lemma scan_text: "k \<le> length s \<Longrightarrow> concat (map (piece_text rm_text) (scan r k pre s)) = drop k s"
proof (induction r k pre s rule: scan.induct)
  case (1 r k pre)
  have "consumed (at_pos pre []) t = []" for t by (simp add: consumed_def)
  then show ?case by (cases "results r (at_pos pre [])") (simp_all add: rmatch_of_def)
next
  case (3 r pre c cs)
  let ?s = "at_pos pre (c # cs)"
  show ?case
  proof (cases "results r ?s")
    case Nil
    then show ?thesis using 3(1) [OF refl refl] by (simp add: Let_def)
  next
    case (Cons t ts)
    then have t: "t \<in> set (results r ?s)" by simp
    show ?thesis
    proof (cases "advances ?s t")
      case True
      then show ?thesis
        using 3(2) [OF refl refl Cons True] hit_then_rest [OF t True] Cons
        by (simp add: Let_def rmatch_of_def)
    next
      case stuck: False
      have e: "consumed ?s t = []" using t stuck by (simp add: set_results matches_splits consumed_stuck)
      show ?thesis
      proof (cases "List.find (advances ?s) (results r ?s)")
        case None
        then show ?thesis using 3(3) [OF refl refl Cons stuck] Cons stuck e
          by (simp add: Let_def rmatch_of_def)
      next
        case (Some u)
        then have u: "u \<in> set (results r ?s)" "advances ?s u" by (auto simp: find_Some_iff)
        show ?thesis using 3(4) [OF refl refl Cons stuck Some] hit_then_rest [OF u] Cons stuck e Some
          by (simp add: Let_def rmatch_of_def)
      qed
    qed
  qed
qed simp

text \<open>The pieces of a text, put together again, are the text.\<close>

theorem pieces_text: "concat (map (piece_text rm_text) (pieces r s)) = s"
  using scan_text [of 0 s r "[]"] by (simp add: pieces_def)

text \<open>Whatever an expression matches is made of characters it can match.\<close>

primrec chars_ok :: "(char \<Rightarrow> bool) \<Rightarrow> regex \<Rightarrow> bool" where
  "chars_ok P Eps = True"
| "chars_ok P (Chr p) = (\<forall>c. p c \<longrightarrow> P c)"
| "chars_ok P (Seq a b) = (chars_ok P a \<and> chars_ok P b)"
| "chars_ok P (Alt a b) = (chars_ok P a \<and> chars_ok P b)"
| "chars_ok P (Star g a) = chars_ok P a"
| "chars_ok P (Grp i a) = chars_ok P a"
| "chars_ok P Bol = True"
| "chars_ok P Eol = True"
| "chars_ok P Bnd = True"
| "chars_ok P (Look b a) = True"
| "chars_ok P (Behind b ps) = True"

lemma matches_chars:
  "matches r s t \<Longrightarrow> chars_ok P r \<Longrightarrow> \<exists>w. after s = w @ after t \<and> list_all P w"
proof (induction r arbitrary: s t)
  case (Seq a b)
  then obtain u where u: "matches a s u" "matches b u t" by auto
  obtain v w where "after s = v @ after u" "list_all P v" "after u = w @ after t" "list_all P w"
    using Seq.IH(1) [OF u(1)] Seq.IH(2) [OF u(2)] Seq.prems(2) by auto
  then show ?case by (intro exI [of _ "v @ w"]) simp
next
  case (Star g a)
  have "(\<lambda>s t. matches a s t \<and> advances s t)\<^sup>*\<^sup>* s t" using Star.prems(1) by simp
  then show ?case
  proof (induction rule: converse_rtranclp_induct)
    case base
    show ?case by (intro exI [of _ "[]"]) simp
  next
    case (step s u)
    obtain v w where "after s = v @ after u" "list_all P v" "after u = w @ after t" "list_all P w"
      using Star.IH [of s u] step Star.prems(2) by auto
    then show ?case by (intro exI [of _ "v @ w"]) simp
  qed
next
  case (Grp i a)
  then obtain u where "matches a s u" "after t = after u" by auto
  then show ?case using Grp.IH Grp.prems(2) by simp
qed fastforce+

definition is_hit :: "regex \<Rightarrow> rmatch \<Rightarrow> bool" where
  "is_hit r m \<longleftrightarrow> (\<exists>p q t. matches r (at_pos p q) t \<and> rm_text m = consumed (at_pos p q) t)"

lemma result_hit: "t \<in> set (results r (at_pos p q)) \<Longrightarrow> is_hit r (rmatch_of (at_pos p q) t)"
  unfolding is_hit_def
  by (intro exI [of _ p] exI [of _ q] exI [of _ t]) (simp add: set_results rmatch_of_def)

lemma scan_hits:
  "Hit m \<in> set (scan r k pre s) \<Longrightarrow> is_hit r m"
proof (induction r k pre s rule: scan.induct)
  case (1 r k pre)
  then obtain t ts where "results r (at_pos pre []) = t # ts" "m = rmatch_of (at_pos pre []) t"
    by (cases "results r (at_pos pre [])") (simp_all split: if_splits)
  then show ?case using result_hit [of t r pre "[]"] by simp
next
  case (3 r pre c cs)
  let ?s = "at_pos pre (c # cs)"
  note hit = result_hit [of _ r pre "c # cs"]
  show ?case
  proof (cases "results r ?s")
    case Nil
    then show ?thesis using 3(1) [OF refl refl] 3(5) by (simp add: Let_def)
  next
    case (Cons t ts)
    then have t: "t \<in> set (results r ?s)" by simp
    show ?thesis
    proof (cases "advances ?s t")
      case True
      then show ?thesis using 3(2) [OF refl refl Cons True] 3(5) hit [OF t] Cons by (auto simp: Let_def)
    next
      case stuck: False
      show ?thesis
      proof (cases "List.find (advances ?s) (results r ?s)")
        case None
        then show ?thesis using 3(3) [OF refl refl Cons stuck] 3(5) hit [OF t] Cons stuck
          by (auto simp: Let_def)
      next
        case (Some u)
        then have "u \<in> set (results r ?s)" by (auto simp: find_Some_iff)
        then show ?thesis using 3(4) [OF refl refl Cons stuck Some] 3(5) hit [OF t] hit [of u] Cons stuck Some
          by (auto simp: Let_def)
      qed
    qed
  qed
qed simp

lemma pieces_chars:
  assumes "Hit m \<in> set (pieces r s)" and "chars_ok P r"
  shows "list_all P (rm_text m)"
proof -
  obtain p q t where m: "matches r (at_pos p q) t" "rm_text m = consumed (at_pos p q) t"
    using scan_hits [OF assms(1) [unfolded pieces_def]] unfolding is_hit_def by blast
  obtain w where "after (at_pos p q) = w @ after t" "list_all P w"
    using matches_chars [OF m(1) assms(2)] by blast
  then show ?thesis using m(2) by (simp add: consumed_def)
qed

section \<open>Plain replacement\<close>

text \<open>\<open>s.replace(old, new)\<close>: every occurrence, from the left; an empty \<open>old\<close> occurs between all
  characters.\<close>

fun replace_from :: "string \<Rightarrow> string \<Rightarrow> nat \<Rightarrow> string \<Rightarrow> string" where
  "replace_from old new k [] = []"
| "replace_from old new (Suc k) (c # cs) = replace_from old new k cs"
| "replace_from old new 0 (c # cs) =
     (if starts_with old (c # cs) then new @ replace_from old new (length old - 1) cs
      else c # replace_from old new 0 cs)"

definition py_replace :: "string \<Rightarrow> string \<Rightarrow> string \<Rightarrow> string" where
  "py_replace old new s =
     (if old = [] then new @ concat (map (\<lambda>c. c # new) s) else replace_from old new 0 s)"

end
