(* ===== verification/Rubric.thy ===== *)
theory Rubric
  imports Regex LlmApply
begin

text \<open>
  The sentence of a cold-start answer as a reader sees it: \<open>strip_rule_ids\<close> of \<open>llm/rubric.py\<close>, which
  removes references to rubric rules together with the connective they hung off.
\<close>

section \<open>Expressions\<close>

text \<open>\<open>\(?\bR(?:[1-9]|1[0-4])\b\)?\<close>, ignoring case.\<close>

definition RULE_ID_RE :: regex where
  "RULE_ID_RE = seqs [opt (lit ''(''), Bnd, lit_ci ''R'',
     alts [Chr (between CHR ''1'' CHR ''9''), Seq (lit ''1'') (Chr (between CHR ''0'' CHR ''4''))],
     Bnd, opt (lit '')'')]"

definition spaced :: "string \<Rightarrow> string \<Rightarrow> regex" where
  "spaced a b = seqs [lit_ci a, plus1 sp, lit_ci b]"

definition CONNECTIVE :: regex where
  "CONNECTIVE = alts
     [seqs [lit_ci ''in'', plus1 sp, lit_ci ''line'', plus1 sp, lit_ci ''with''],
      spaced ''consistent'' ''with'',
      seqs [lit_ci ''align'', opt (alts [lit_ci ''ing'', lit_ci ''ed'', lit_ci ''s'']), plus1 sp, lit_ci ''with''],
      spaced ''according'' ''to'', spaced ''as'' ''per'', lit_ci ''per'', lit_ci ''matching'',
      lit_ci ''matches'', lit_ci ''matched'', lit_ci ''match'', lit_ci ''rule'']"

definition DANGLING_RE :: regex where
  "DANGLING_RE = seqs [opt (oneof '',;(''), star sp, Bnd, CONNECTIVE, Bnd, star sp, opt (oneof '',;)''),
     star sp, Eol]"

definition LEADING_RE :: regex where
  "LEADING_RE = seqs [Bol, star sp, opt (Seq (lit_ci ''this'') (plus1 sp)), CONNECTIVE, Bnd, star sp,
     opt (oneof '',;:''), star sp]"

text \<open>\<open>(?<=[.!?])\s+\<close>.\<close>

definition SENTENCE_GAP :: regex where
  "SENTENCE_GAP = Seq (Behind True [cls ''.!?'']) (plus1 sp)"

section \<open>The sentences\<close>

text \<open>\<open>re.split\<close> by an expression without groups.\<close>

fun split_plain :: "string \<Rightarrow> piece list \<Rightarrow> string list" where
  "split_plain cur [] = [rev cur]"
| "split_plain cur (Keep c # ps) = split_plain (c # cur) ps"
| "split_plain cur (Hit m # ps) = rev cur # split_plain [] ps"

definition sentences :: "string \<Rightarrow> string list" where
  "sentences t = split_plain [] (pieces SENTENCE_GAP t)"

text \<open>\<open>str.split()\<close> without an argument.\<close>

definition blank_words :: "string \<Rightarrow> string list" where
  "blank_words t = filter (\<lambda>w. w \<noteq> []) (split_plain [] (pieces sp t))"

definition strip_by :: "(char \<Rightarrow> bool) \<Rightarrow> string \<Rightarrow> string" where
  "strip_by p t = rstrip_by p (lstrip_by p t)"

definition MIN_WORDS :: nat where "MIN_WORDS = 3"

definition without_rule :: "string \<Rightarrow> string" where
  "without_rule body =
     (let b1 = re_sub RULE_ID_RE [] body;
          b2 = re_sub DANGLING_RE [] b1;
          b3 = re_sub LEADING_RE [] b2;
          b4 = re_sub_with (seqs [plus1 sp, Grp 1 (oneof ''.,;'')]) (grp 1) b3;
          b5 = re_sub_with (seqs [Grp 1 (oneof '',;''), star sp, oneof '',;'']) (grp 1) b4
      in strip_by (cls '' ,;()'') (re_sub (atleast 2 sp) '' '' b5))"

text \<open>One sentence: kept, rewritten, or dropped.\<close>

definition clean_sentence :: "string \<Rightarrow> string option" where
  "clean_sentence raw =
     (if re_search RULE_ID_RE raw = None then Some (strip raw)
      else (let tail = (if raw \<noteq> [] \<and> last raw \<in> set ''.!?'' then [last raw] else []);
                body = without_rule (if tail \<noteq> [] then butlast raw else raw)
            in if length (blank_words body) < MIN_WORDS then None
               else (case body of [] \<Rightarrow> None | c # cs \<Rightarrow> Some (upper_char c # cs @ tail))))"

definition strip_rule_ids :: "string \<Rightarrow> string" where
  "strip_rule_ids reason =
     (if reason = [] then []
      else strip (join_with '' '' (filter (\<lambda>k. k \<noteq> []) (List.map_filter clean_sentence (sentences (strip reason))))))"

section \<open>Sentences without a reference\<close>

text \<open>The characters of a text that are no blanks.\<close>

definition ink :: "string \<Rightarrow> string" where
  "ink t = filter (\<lambda>c. \<not> is_space c) t"

lemma ink_append [simp]: "ink (s @ t) = ink s @ ink t"
  by (simp add: ink_def)

lemma ink_dropWhile: "ink (dropWhile is_space t) = ink t"
  unfolding ink_def by (induction t) auto

lemma ink_rev: "ink (rev t) = rev (ink t)"
  by (simp add: ink_def rev_filter)

lemma ink_strip [simp]: "ink (strip t) = ink t"
  by (simp add: strip_def lstrip_by_def rstrip_by_def ink_rev ink_dropWhile)

lemma ink_blank: "list_all is_space t \<Longrightarrow> ink t = []"
  by (simp add: ink_def list_all_iff filter_empty_conv)

lemma ink_join: "ink (join_with '' '' ts) = concat (map ink ts)"
proof (induction "'' ''" ts rule: join_with.induct)
  case (3 t u ts)
  then show ?case by (simp add: ink_def is_space_def)
qed (simp_all add: ink_def)

lemma ink_split_plain:
  assumes "\<And>m. Hit m \<in> set ps \<Longrightarrow> list_all is_space (rm_text m)"
  shows "concat (map ink (split_plain cur ps)) = ink (rev cur) @ ink (concat (map (piece_text rm_text) ps))"
  using assms
proof (induction cur ps rule: split_plain.induct)
  case (3 cur m ps)
  then have "ink (rm_text m) = []" by (simp add: ink_blank)
  then show ?case using 3 by (simp add: ink_def)
qed (simp_all add: ink_def)

lemma ink_sentences: "concat (map ink (sentences t)) = ink t"
proof -
  have "chars_ok is_space SENTENCE_GAP" by (simp add: SENTENCE_GAP_def plus1_def sp_def)
  then have "list_all is_space (rm_text m)" if "Hit m \<in> set (pieces SENTENCE_GAP t)" for m
    using pieces_chars [OF that] by blast
  then show ?thesis
    unfolding sentences_def using ink_split_plain [of "pieces SENTENCE_GAP t" "[]"]
    by (simp add: pieces_text ink_def)
qed

lemma ink_nonempty: "concat (map ink (filter (\<lambda>k. k \<noteq> []) ts)) = concat (map ink ts)"
  by (induction ts) (auto simp: ink_def)

lemma unreferenced_sentences:
  "list_all (\<lambda>s. re_search RULE_ID_RE s = None) ss \<Longrightarrow> List.map_filter clean_sentence ss = map strip ss"
  by (induction ss) (simp_all add: clean_sentence_def List.map_filter_def)

text \<open>
  A sentence that cites no rule keeps its wording. When no sentence of a reason refers to a rule,
  stripping the references changes nothing but blanks: every other character is kept, in its order.
\<close>

theorem unreferenced_reason_kept:
  assumes "list_all (\<lambda>s. re_search RULE_ID_RE s = None) (sentences (strip reason))"
  shows "ink (strip_rule_ids reason) = ink reason"
proof (cases "reason = []")
  case True
  then show ?thesis by (simp add: strip_rule_ids_def)
next
  case False
  have "ink (strip_rule_ids reason) = concat (map ink (map strip (sentences (strip reason))))"
    using False by (simp add: strip_rule_ids_def unreferenced_sentences [OF assms] ink_join ink_nonempty)
  also have "\<dots> = concat (map ink (sentences (strip reason)))" by (simp add: comp_def)
  finally show ?thesis by (simp add: ink_sentences)
qed

theorem unreferenced_reason_kept_witness:
  "ink (strip_rule_ids ''No R2D2. It fell.'') = ''NoR2D2.Itfell.''"
proof -
  have "list_all (\<lambda>s. re_search RULE_ID_RE s = None) (sentences (strip ''No R2D2. It fell.''))" by code_simp
  from unreferenced_reason_kept [OF this] show ?thesis by (simp add: ink_def is_space_def)
qed

text \<open>A word that only looks like a rule is taken for a reference, and a reference can close up to another.\<close>

lemma rule_lookalike_lost:
  "re_sub RULE_ID_RE [] ''an R2 bucket'' = ''an  bucket'' \<and> re_sub RULE_ID_RE [] ''xR(R1)1'' = ''xR1''"
  by code_simp

end
