(* ===== verification/Migrate.thy ===== *)
theory Migrate
  imports Regex
begin

text \<open>
  The migration runner (\<open>db/migrate.py\<close>): discovering the SQL files, splitting a script into statements,
  and applying what the ledger does not hold yet, in a transaction or statement by statement. The
  database a statement acts on is an opaque state; executing a statement and SHA-256 are arguments, and a
  transaction that fails leaves the state as it was. The advisory lock makes a run one step.
\<close>

section \<open>Files\<close>

text \<open>\<open>data.replace(b"\r\n", b"\n")\<close>.\<close>

fun normalize_bytes :: "string \<Rightarrow> string" where
  "normalize_bytes (a # b # cs) =
     (if a = CHR 0x0D \<and> b = CHR 0x0A then CHR 0x0A # normalize_bytes cs else a # normalize_bytes (b # cs))"
| "normalize_bytes cs = cs"

definition compute_checksum :: "(string \<Rightarrow> string) \<Rightarrow> string \<Rightarrow> string" where
  "compute_checksum sha data = sha (normalize_bytes data)"

text \<open>\<open>^(\d+)_.+\.sql$\<close>.\<close>

definition FILENAME_RE :: regex where
  "FILENAME_RE = seqs [Bol, Grp 1 (plus1 dig), lit ''_'', plus1 dot, lit ''.sql'', Eol]"

definition decimal :: "string \<Rightarrow> nat" where
  "decimal ds = foldl (\<lambda>n c. n * 10 + (of_char c - 48)) 0 ds"

text \<open>\<open>str.splitlines\<close>; the flag says that a line feed would belong to the carriage return before it.\<close>

definition is_linebreak :: "char \<Rightarrow> bool" where
  "is_linebreak c \<longleftrightarrow> (of_char c :: nat) \<in> {10, 11, 12, 13, 28, 29, 30}"

fun lines_from :: "bool \<Rightarrow> string \<Rightarrow> string \<Rightarrow> string list" where
  "lines_from cr cur [] = (if cur = [] then [] else [rev cur])"
| "lines_from cr cur (c # cs) =
     (if cr \<and> c = CHR 0x0A then lines_from False cur cs
      else if is_linebreak c then rev cur # lines_from (c = CHR 0x0D) [] cs
      else lines_from False (c # cur) cs)"

definition NO_TRANSACTION_MARKER :: string where
  "NO_TRANSACTION_MARKER = ''-- analyzer:no-transaction''"

fun marker_in :: "string list \<Rightarrow> bool" where
  "marker_in [] = False"
| "marker_in (l # ls) =
     (if strip l = NO_TRANSACTION_MARKER then True
      else if strip l \<noteq> [] \<and> \<not> starts_with ''--'' (strip l) then False
      else marker_in ls)"

definition has_no_transaction_marker :: "string \<Rightarrow> bool" where
  "has_no_transaction_marker t = marker_in (lines_from False [] t)"

record migration =
  mg_version :: nat
  mg_filename :: string
  mg_checksum :: string
  mg_sql :: string
  mg_no_transaction :: bool

datatype migration_error =
    BadFilename string
  | DuplicateVersion nat
  | MissingFile nat
  | ChangedFile string
  | ApplyFailed string

definition read_migration :: "(string \<Rightarrow> string) \<Rightarrow> string \<times> string \<Rightarrow> migration_error + migration" where
  "read_migration sha file =
     (case file of (name, data) \<Rightarrow>
        (case re_match FILENAME_RE name of
           None \<Rightarrow> Inl (BadFilename name)
         | Some m \<Rightarrow>
             (let text = normalize_bytes data
              in Inr \<lparr>mg_version = decimal (grp 1 m), mg_filename = name,
                      mg_checksum = compute_checksum sha data, mg_sql = text,
                      mg_no_transaction = has_no_transaction_marker text\<rparr>)))"

fun read_all :: "(string \<Rightarrow> string) \<Rightarrow> (string \<times> string) list \<Rightarrow> migration_error + migration list" where
  "read_all sha [] = Inr []"
| "read_all sha (f # fs) =
     (case read_migration sha f of
        Inl e \<Rightarrow> Inl e
      | Inr m \<Rightarrow> (case read_all sha fs of Inl e \<Rightarrow> Inl e | Inr ms \<Rightarrow> Inr (m # ms)))"

text \<open>Neighbours of the sorted list with one version; a gap is only logged.\<close>

fun first_duplicate :: "migration list \<Rightarrow> nat option" where
  "first_duplicate (a # b # ms) =
     (if mg_version b = mg_version a then Some (mg_version b) else first_duplicate (b # ms))"
| "first_duplicate ms = None"

text \<open>The files \<open>*.sql\<close> of the directory, in any order.\<close>

definition discover_migrations ::
  "(string \<Rightarrow> string) \<Rightarrow> (string \<times> string) list \<Rightarrow> migration_error + migration list" where
  "discover_migrations sha files =
     (case read_all sha (sort_key fst files) of
        Inl e \<Rightarrow> Inl e
      | Inr ms \<Rightarrow>
          (let sorted_ms = sort_key mg_version ms
           in case first_duplicate sorted_ms of
                Some v \<Rightarrow> Inl (DuplicateVersion v) | None \<Rightarrow> Inr sorted_ms))"

section \<open>Statements\<close>

datatype sql_mode = Plain | Quoted | Dollar string

definition tag_char :: "char \<Rightarrow> bool" where
  "tag_char c \<longleftrightarrow> is_alpha c \<or> is_digit c \<or> c = CHR ''_''"

text \<open>\<open>\$[A-Za-z_0-9]*\$\<close> at the start of a text: the tag and what follows it.\<close>

definition dollar_tag :: "string \<Rightarrow> (string \<times> string) option" where
  "dollar_tag s =
     (case s of
        c # r \<Rightarrow>
          if c = CHR ''$'' then
            (case dropWhile tag_char r of
               d # q \<Rightarrow> if d = CHR ''$'' then Some (c # takeWhile tag_char r @ [d], q) else None
             | [] \<Rightarrow> None)
          else None
      | [] \<Rightarrow> None)"

lemma dollar_tag_shorter: "dollar_tag s = Some (t, q) \<Longrightarrow> length q < length s"
proof -
  assume a: "dollar_tag s = Some (t, q)"
  then obtain c r d where r: "s = c # r" "dropWhile tag_char r = d # q"
    by (auto simp: dollar_tag_def split: list.splits if_splits)
  have "length (dropWhile tag_char r) \<le> length r" by (rule length_dropWhile_le)
  then show ?thesis using r by simp
qed

definition emit :: "string \<Rightarrow> string list" where
  "emit buf = (if strip (rev buf) = [] then [] else [strip (rev buf)])"

text \<open>The scanner: its mode, the statement read so far reversed, the rest of the script.\<close>

function split_from :: "sql_mode \<Rightarrow> string \<Rightarrow> string \<Rightarrow> string list" where
  "split_from mode buf [] = emit buf"
| "split_from (Dollar tag) buf (c # cs) =
     (if tag \<noteq> [] \<and> take (length tag) (c # cs) = tag
      then split_from Plain (rev tag @ buf) (drop (length tag) (c # cs))
      else split_from (Dollar tag) (c # buf) cs)"
| "split_from Quoted buf (c # cs) =
     (if c = CHR 0x27 then
        (case cs of
           d # ds \<Rightarrow> if d = CHR 0x27 then split_from Quoted (d # c # buf) ds else split_from Plain (c # buf) cs
         | [] \<Rightarrow> split_from Plain (c # buf) [])
      else split_from Quoted (c # buf) cs)"
| "split_from Plain buf (c # cs) =
     (if c = CHR ''-'' \<and> take 1 cs = ''-'' then split_from Plain buf (dropWhile (\<lambda>x. x \<noteq> CHR 0x0A) cs)
      else if c = CHR 0x27 then split_from Quoted (c # buf) cs
      else case dollar_tag (c # cs) of
        Some (tag, q) \<Rightarrow> split_from (Dollar tag) (rev tag @ buf) q
      | None \<Rightarrow>
          if c = CHR '';'' then emit buf @ split_from Plain [] cs
          else split_from Plain (c # buf) cs)"
  by pat_completeness auto
termination
  by (relation "measure (\<lambda>(m, b, s). length s)")
    (auto dest: dollar_tag_shorter simp: le_imp_less_Suc length_dropWhile_le)

declare split_from.simps [simp del]

definition split_statements :: "string \<Rightarrow> string list" where
  "split_statements script = split_from Plain [] script"

section \<open>The ledger and the run\<close>

text \<open>\<open>mb_ledger\<close>: the rows version, file name, checksum of \<open>schema_migrations\<close>.\<close>

record 's mdb =
  mb_state :: 's
  mb_ledger :: "(nat \<times> string \<times> string) list"

definition load_applied :: "'s mdb \<Rightarrow> (nat \<times> string \<times> string) list" where
  "load_applied db = sort_key fst (mb_ledger db)"

definition by_version :: "migration list \<Rightarrow> nat \<Rightarrow> migration option" where
  "by_version ms v = List.find (\<lambda>m. mg_version m = v) (rev ms)"

fun verify_applied :: "(nat \<times> string \<times> string) list \<Rightarrow> migration list \<Rightarrow> migration_error option" where
  "verify_applied [] ms = None"
| "verify_applied ((v, f, c) # rows) ms =
     (case by_version ms v of
        None \<Rightarrow> Some (MissingFile v)
      | Some m \<Rightarrow> if mg_checksum m \<noteq> c then Some (ChangedFile (mg_filename m)) else verify_applied rows ms)"

definition select_pending :: "nat set \<Rightarrow> migration list \<Rightarrow> migration list" where
  "select_pending applied ms = sort_key mg_version (filter (\<lambda>m. mg_version m \<notin> applied) ms)"

definition ledger_gaps :: "nat set \<Rightarrow> migration list \<Rightarrow> nat list" where
  "ledger_gaps applied ms =
     (let universe = applied \<union> mg_version ` set ms
      in if universe = {} then [] else filter (\<lambda>v. v \<notin> universe) [1..<Suc (Max universe)])"

text \<open>One statement after the other until one fails; the flag tells that none did.\<close>

fun exec_all :: "(string \<Rightarrow> 's \<Rightarrow> 's option) \<Rightarrow> string list \<Rightarrow> 's \<Rightarrow> 's \<times> bool" where
  "exec_all exec [] s = (s, True)"
| "exec_all exec (st # sts) s =
     (case exec st s of None \<Rightarrow> (s, False) | Some s' \<Rightarrow> exec_all exec sts s')"

text \<open>The version is the key of the ledger: a second row is an error of the database.\<close>

definition record_version :: "migration \<Rightarrow> 's mdb \<Rightarrow> 's mdb option" where
  "record_version m db =
     (if mg_version m \<in> fst ` set (mb_ledger db) then None
      else Some (db\<lparr>mb_ledger := mb_ledger db @ [(mg_version m, mg_filename m, mg_checksum m)]\<rparr>))"

definition apply_one :: "(string \<Rightarrow> 's \<Rightarrow> 's option) \<Rightarrow> migration \<Rightarrow> 's mdb \<Rightarrow> bool \<times> 's mdb" where
  "apply_one exec m db =
     (case exec_all exec (split_statements (mg_sql m)) (mb_state db) of
        (s, ok) \<Rightarrow>
          (let db1 = db\<lparr>mb_state := s\<rparr>;
               failed = (if mg_no_transaction m then db1 else db)
           in if \<not> ok then (False, failed)
              else (case record_version m db1 of None \<Rightarrow> (False, failed) | Some db2 \<Rightarrow> (True, db2))))"

fun apply_pending ::
  "(string \<Rightarrow> 's \<Rightarrow> 's option) \<Rightarrow> migration list \<Rightarrow> 's mdb \<Rightarrow> (migration_error + nat list) \<times> 's mdb" where
  "apply_pending exec [] db = (Inr [], db)"
| "apply_pending exec (m # ms) db =
     (case apply_one exec m db of
        (False, db') \<Rightarrow> (Inl (ApplyFailed (mg_filename m)), db')
      | (True, db') \<Rightarrow>
          (case apply_pending exec ms db' of
             (Inl e, db'') \<Rightarrow> (Inl e, db'')
           | (Inr vs, db'') \<Rightarrow> (Inr (mg_version m # vs), db'')))"

definition apply_migrations ::
  "(string \<Rightarrow> string) \<Rightarrow> (string \<Rightarrow> 's \<Rightarrow> 's option) \<Rightarrow> (string \<times> string) list \<Rightarrow> 's mdb
     \<Rightarrow> (migration_error + nat list) \<times> 's mdb" where
  "apply_migrations sha exec files db =
     (case discover_migrations sha files of
        Inl e \<Rightarrow> (Inl e, db)
      | Inr ms \<Rightarrow>
          (case verify_applied (load_applied db) ms of
             Some e \<Rightarrow> (Inl e, db)
           | None \<Rightarrow> apply_pending exec (select_pending (fst ` set (mb_ledger db)) ms) db))"

section \<open>Discovery\<close>

lemma first_duplicate_None:
  "sorted (map mg_version ms) \<Longrightarrow> first_duplicate ms = None \<longleftrightarrow> distinct (map mg_version ms)"
proof (induction ms rule: first_duplicate.induct)
  case (1 a b ms)
  have le: "mg_version a \<le> mg_version b" "\<forall>m \<in> set ms. mg_version b \<le> mg_version m"
    using 1(2) by auto
  show ?case
  proof (cases "mg_version b = mg_version a")
    case True
    then show ?thesis by simp
  next
    case False
    then have "mg_version a \<notin> mg_version ` set (b # ms)" using le by force
    then show ?thesis using False 1 by simp
  qed
qed simp_all

lemma discovered:
  assumes "discover_migrations sha files = Inr ms"
  shows "sorted (map mg_version ms) \<and> distinct (map mg_version ms)"
proof -
  obtain ms0 where "read_all sha (sort_key fst files) = Inr ms0" "first_duplicate (sort_key mg_version ms0) = None"
      "ms = sort_key mg_version ms0"
    using assms by (auto simp: discover_migrations_def Let_def split: sum.splits option.splits)
  then show ?thesis using first_duplicate_None [of ms] by simp
qed

lemma by_version_Some:
  assumes "distinct (map mg_version ms)"
  shows "by_version ms v = Some m \<longleftrightarrow> m \<in> set ms \<and> mg_version m = v"
proof
  assume "by_version ms v = Some m"
  then have "m \<in> set (rev ms) \<and> mg_version m = v" unfolding by_version_def find_Some_iff by (metis nth_mem)
  then show "m \<in> set ms \<and> mg_version m = v" by simp
next
  assume m: "m \<in> set ms \<and> mg_version m = v"
  then obtain m' where m': "by_version ms v = Some m'"
    by (cases "by_version ms v") (auto simp: by_version_def find_None_iff)
  then have "m' \<in> set (rev ms)" "mg_version m' = v" unfolding by_version_def find_Some_iff by (metis nth_mem)+
  then have "m' \<in> set ms" "mg_version m' = v" by simp_all
  then show "by_version ms v = Some m" using assms m m' by (auto simp: distinct_map inj_on_def)
qed

lemma verify_applied_None:
  assumes "distinct (map mg_version ms)"
  shows "verify_applied rows ms = None \<longleftrightarrow>
    (\<forall>r \<in> set rows. \<exists>m \<in> set ms. mg_version m = fst r \<and> mg_checksum m = snd (snd r))"
  using assms
proof (induction rows ms rule: verify_applied.induct)
  case (2 v f c rows ms)
  show ?case
  proof (cases "by_version ms v")
    case None
    then have "\<forall>m \<in> set ms. mg_version m \<noteq> v" using by_version_Some [OF 2(2)] by (metis option.distinct(1))
    then show ?thesis using None by auto
  next
    case (Some m)
    then have m: "m \<in> set ms" "mg_version m = v" using by_version_Some [OF 2(2)] by auto
    have u: "n = m" if "n \<in> set ms" "mg_version n = v" for n
      using that m 2(2) by (auto simp: distinct_map inj_on_def)
    show ?thesis
    proof (cases "mg_checksum m = c")
      case True
      then show ?thesis using Some m 2 by auto
    next
      case False
      then have "\<not> (\<exists>m' \<in> set ms. mg_version m' = v \<and> mg_checksum m' = c)" using u by blast
      then show ?thesis using Some False by auto
    qed
  qed
qed simp

section \<open>Applying\<close>

definition ledger_row :: "migration \<Rightarrow> nat \<times> string \<times> string" where
  "ledger_row m = (mg_version m, mg_filename m, mg_checksum m)"

definition statements_of :: "migration list \<Rightarrow> string list" where
  "statements_of ms = concat (map (\<lambda>m. split_statements (mg_sql m)) ms)"

lemma exec_all_append:
  "exec_all exec (a @ b) s = (let (s', ok) = exec_all exec a s in if ok then exec_all exec b s' else (s', False))"
  by (induction a arbitrary: s) (auto split: option.splits)

lemma exec_all_agree:
  assumes "\<And>st s s'. exec1 st s = Some s' \<Longrightarrow> exec2 st s = Some s'"
  shows "exec_all exec1 sts s = (s', True) \<Longrightarrow> exec_all exec2 sts s = (s', True)"
proof (induction sts arbitrary: s)
  case (Cons st sts)
  then obtain t where t: "exec1 st s = Some t" "exec_all exec1 sts t = (s', True)"
    by (auto split: option.splits)
  then show ?case using Cons.IH assms by simp
qed simp

lemma apply_one_True:
  "apply_one exec m db = (True, db') \<longleftrightarrow>
     mg_version m \<notin> fst ` set (mb_ledger db)
     \<and> exec_all exec (split_statements (mg_sql m)) (mb_state db) = (mb_state db', True)
     \<and> db' = db\<lparr>mb_state := mb_state db', mb_ledger := mb_ledger db @ [ledger_row m]\<rparr>"
  by (cases db; cases db'; cases "exec_all exec (split_statements (mg_sql m)) (mb_state db)")
    (auto simp: apply_one_def record_version_def ledger_row_def Let_def)

lemma apply_one_False:
  "apply_one exec m db = (False, db') \<Longrightarrow> \<not> mg_no_transaction m \<Longrightarrow> db' = db"
  by (auto simp: apply_one_def Let_def split: prod.splits if_splits option.splits)

lemma apply_pending_Inr:
  "apply_pending exec ms db = (Inr vs, db') \<Longrightarrow>
     vs = map mg_version ms \<and> mb_ledger db' = mb_ledger db @ map ledger_row ms
     \<and> exec_all exec (statements_of ms) (mb_state db) = (mb_state db', True)"
proof (induction ms arbitrary: db vs)
  case Nil
  then show ?case by (simp add: statements_of_def)
next
  case (Cons m ms)
  obtain ok db1 where o: "apply_one exec m db = (ok, db1)" by fastforce
  with Cons.prems have "ok" by (cases ok) auto
  with o have one: "apply_one exec m db = (True, db1)" by simp
  then obtain ws where ws: "apply_pending exec ms db1 = (Inr ws, db')" "vs = mg_version m # ws"
    using Cons.prems by (auto split: sum.splits prod.splits)
  note t = one [unfolded apply_one_True]
  have "exec_all exec (statements_of (m # ms)) (mb_state db) = exec_all exec (statements_of ms) (mb_state db1)"
    using t by (simp add: statements_of_def exec_all_append)
  moreover have "mb_ledger db1 = mb_ledger db @ [ledger_row m]"
    using t by (metis mdb.select_convs(2) mdb.surjective mdb.update_convs(1,2))
  ultimately show ?case using Cons.IH [OF ws(1)] ws(2) by simp
qed

lemma apply_pending_append:
  "apply_pending exec (ms @ ns) db =
     (case apply_pending exec ms db of
        (Inl e, db') \<Rightarrow> (Inl e, db')
      | (Inr vs, db') \<Rightarrow> (case apply_pending exec ns db' of
           (Inl e, db'') \<Rightarrow> (Inl e, db'') | (Inr ws, db'') \<Rightarrow> (Inr (vs @ ws), db'')))"
proof (induction ms arbitrary: db)
  case Nil
  show ?case by (auto split: prod.splits sum.splits)
next
  case (Cons m ms)
  obtain ok db1 where "apply_one exec m db = (ok, db1)" by fastforce
  then show ?case by (cases ok) (auto simp: Cons.IH split: prod.splits sum.splits)
qed

lemma apply_pending_Inl:
  "apply_pending exec ms db = (Inl e, db') \<Longrightarrow> list_all (\<lambda>m. \<not> mg_no_transaction m) ms \<Longrightarrow>
     \<exists>k < length ms. apply_pending exec (take k ms) db = (Inr (map mg_version (take k ms)), db')
       \<and> e = ApplyFailed (mg_filename (ms ! k))"
proof (induction ms arbitrary: db)
  case (Cons m ms)
  obtain ok db1 where o: "apply_one exec m db = (ok, db1)" by fastforce
  show ?case
  proof (cases ok)
    case False
    then have "db1 = db" using apply_one_False o Cons.prems(2) by fastforce
    then show ?thesis using Cons.prems o False by (intro exI [of _ 0]) simp
  next
    case True
    then have "apply_pending exec ms db1 = (Inl e, db')"
      using Cons.prems(1) o by (auto split: prod.splits sum.splits)
    from Cons.IH [OF this] obtain k where k: "k < length ms"
        "apply_pending exec (take k ms) db1 = (Inr (map mg_version (take k ms)), db')"
        "e = ApplyFailed (mg_filename (ms ! k))"
      using Cons.prems(2) by auto
    then show ?thesis using o True by (intro exI [of _ "Suc k"]) simp
  qed
qed simp

lemma apply_pending_agree:
  assumes "\<And>st s s'. exec1 st s = Some s' \<Longrightarrow> exec2 st s = Some s'"
  shows "apply_pending exec1 ms db = (Inr vs, db') \<Longrightarrow> apply_pending exec2 ms db = (Inr vs, db')"
proof (induction ms arbitrary: db vs)
  case (Cons m ms)
  obtain ok db1 where o: "apply_one exec1 m db = (ok, db1)" by fastforce
  with Cons.prems have ok by (cases ok) auto
  then have one: "apply_one exec1 m db = (True, db1)" using o by simp
  then have "apply_one exec2 m db = (True, db1)"
    unfolding apply_one_True using exec_all_agree [of exec1 exec2] assms by blast
  then show ?case using Cons one by (auto split: prod.splits sum.splits)
qed simp

lemma sorted_pending: "sorted (map mg_version (select_pending applied ms))"
  by (simp add: select_pending_def)

lemma set_pending: "set (select_pending applied ms) = {m \<in> set ms. mg_version m \<notin> applied}"
  by (auto simp: select_pending_def)

lemma distinct_pending:
  "distinct (map mg_version ms) \<Longrightarrow> distinct (map mg_version (select_pending applied ms))"
proof -
  assume "distinct (map mg_version ms)"
  then have "distinct (map mg_version (filter (\<lambda>m. mg_version m \<notin> applied) ms))"
    by (rule distinct_map_filter)
  moreover have "mset (map mg_version (select_pending applied ms))
      = mset (map mg_version (filter (\<lambda>m. mg_version m \<notin> applied) ms))"
    by (simp add: select_pending_def)
  ultimately show ?thesis using mset_eq_imp_distinct_iff by blast
qed

text \<open>After the first ones of the pending files have been recorded, the others are pending.\<close>

lemma pending_after:
  assumes "distinct (map mg_version ms)" "p = select_pending applied ms"
  shows "select_pending (applied \<union> mg_version ` set (take k p)) ms = drop k p"
proof -
  have d: "distinct (map mg_version p)" using assms distinct_pending by blast
  have "select_pending (applied \<union> mg_version ` set (take k p)) ms
      = filter (\<lambda>m. mg_version m \<notin> mg_version ` set (take k p)) p"
    by (simp add: select_pending_def assms(2) filter_sort [symmetric] conj_commute)
  also have "\<dots> = filter (\<lambda>m. mg_version m \<notin> mg_version ` set (take k p)) (take k p @ drop k p)" by simp
  also have "\<dots> = drop k p"
  proof -
    have "distinct (map mg_version (take k p) @ map mg_version (drop k p))"
      using d by (metis append_take_drop_id map_append)
    then have disj: "mg_version ` set (take k p) \<inter> mg_version ` set (drop k p) = {}" by auto
    have "filter (\<lambda>m. mg_version m \<notin> mg_version ` set (take k p)) (take k p) = []"
      by (auto simp: filter_empty_conv)
    moreover have "filter (\<lambda>m. mg_version m \<notin> mg_version ` set (take k p)) (drop k p) = drop k p"
      using disj by (auto simp: filter_id_conv)
    ultimately show ?thesis by (simp only: filter_append) simp
  qed
  finally show ?thesis .
qed

lemma apply_migrations_Inr:
  assumes "apply_migrations sha exec files db = (Inr vs, db')"
  obtains ms where "discover_migrations sha files = Inr ms"
    "verify_applied (load_applied db) ms = None"
    "apply_pending exec (select_pending (fst ` set (mb_ledger db)) ms) db = (Inr vs, db')"
  using assms by (auto simp: apply_migrations_def split: sum.splits option.splits)

lemma set_load_applied [simp]: "set (load_applied db) = set (mb_ledger db)"
  by (simp add: load_applied_def)

text \<open>
  C14. Every migration is applied once, in order, and recorded as it was applied. After a run that
  succeeds the ledger is the old one followed by exactly the files it did not hold, in ascending order of
  version, each with its name and checksum - a version that was reserved and filled in later included -,
  the database is the result of exactly their statements, in that order, and every file is recorded.
\<close>

theorem migrations_applied_once:
  assumes "apply_migrations sha exec files db = (Inr vs, db')"
  shows "case discover_migrations sha files of Inl _ \<Rightarrow> False | Inr ms \<Rightarrow>
    (let pending = filter (\<lambda>m. mg_version m \<notin> fst ` set (mb_ledger db)) ms
     in vs = map mg_version pending \<and> sorted vs \<and> distinct vs
        \<and> mb_ledger db' = mb_ledger db @ map ledger_row pending
        \<and> exec_all exec (statements_of pending) (mb_state db) = (mb_state db', True)
        \<and> mg_version ` set ms \<subseteq> fst ` set (mb_ledger db'))"
proof -
  obtain ms where ms: "discover_migrations sha files = Inr ms"
      "apply_pending exec (select_pending (fst ` set (mb_ledger db)) ms) db = (Inr vs, db')"
    using apply_migrations_Inr [OF assms] by metis
  note d = discovered [OF ms(1)]
  let ?f = "filter (\<lambda>m. mg_version m \<notin> fst ` set (mb_ledger db)) ms"
  have p: "select_pending (fst ` set (mb_ledger db)) ms = ?f"
    using d by (simp add: select_pending_def sorted_filter sorted_sort_id sort_key_id_if_sorted)
  note a = apply_pending_Inr [OF ms(2) [unfolded p]]
  have "sorted vs" using a sorted_pending [of "fst ` set (mb_ledger db)" ms] by (simp add: p)
  moreover have "distinct vs" using a distinct_pending [of ms "fst ` set (mb_ledger db)"] d by (simp add: p)
  moreover have "fst ` set (mb_ledger db') = fst ` set (mb_ledger db) \<union> mg_version ` set ?f"
    using a by (simp add: image_Un image_image ledger_row_def)
  then have "mg_version ` set ms \<subseteq> fst ` set (mb_ledger db')" by auto
  ultimately show ?thesis using ms(1) a by (simp add: Let_def)
qed

text \<open>
  Starting again changes nothing. After a run that succeeded, a run on the same files applies no
  version, executes no statement and leaves database and ledger as they are.
\<close>

theorem migrations_idempotent:
  assumes "apply_migrations sha exec files db = (Inr vs, db')"
  shows "apply_migrations sha exec' files db' = (Inr [], db')"
proof -
  obtain ms where ms: "discover_migrations sha files = Inr ms" "verify_applied (load_applied db) ms = None"
      "apply_pending exec (select_pending (fst ` set (mb_ledger db)) ms) db = (Inr vs, db')"
    using apply_migrations_Inr [OF assms] by metis
  have d: "distinct (map mg_version ms)" using discovered [OF ms(1)] by simp
  let ?p = "select_pending (fst ` set (mb_ledger db)) ms"
  have l: "mb_ledger db' = mb_ledger db @ map ledger_row ?p" using apply_pending_Inr [OF ms(3)] by simp
  have old: "\<forall>r \<in> set (mb_ledger db). \<exists>m \<in> set ms. mg_version m = fst r \<and> mg_checksum m = snd (snd r)"
    using ms(2) verify_applied_None [OF d, of "load_applied db"] by simp
  have "\<forall>r \<in> set (map ledger_row ?p). \<exists>m \<in> set ms. mg_version m = fst r \<and> mg_checksum m = snd (snd r)"
    by (auto simp: set_pending ledger_row_def)
  then have "verify_applied (load_applied db') ms = None"
    using old verify_applied_None [OF d, of "load_applied db'"] by (auto simp: l)
  moreover have "select_pending (fst ` set (mb_ledger db')) ms = []"
    using set_pending [of "fst ` set (mb_ledger db')" ms]
    by (auto simp: l set_pending ledger_row_def image_image image_Un simp flip: set_empty)
  ultimately show ?thesis using ms(1) by (simp add: apply_migrations_def)
qed

text \<open>
  A released file is never changed silently. When a recorded version has no file, or one whose bytes
  up to line ends give another checksum, the run ends in an error before any statement is executed.
\<close>

theorem tampered_file_refused:
  assumes "discover_migrations sha files = Inr ms"
    and "\<exists>r \<in> set (mb_ledger db). \<forall>m \<in> set ms. \<not> (mg_version m = fst r \<and> mg_checksum m = snd (snd r))"
  shows "\<exists>e. apply_migrations sha exec files db = (Inl e, db)"
proof -
  have "verify_applied (load_applied db) ms \<noteq> None"
    using verify_applied_None [of ms "load_applied db"] discovered [OF assms(1)] assms(2) by auto
  then show ?thesis by (auto simp: apply_migrations_def assms(1))
qed

text \<open>
  C16. A failed run is resumed. When all files run in transactions and a statement fails once but not on a
  later start, the later start applies exactly what was missing: it ends with the database, ledger and
  versions of a run that had never failed.
\<close>

theorem migrations_resume:
  assumes "discover_migrations sha files = Inr ms" and "list_all (\<lambda>m. \<not> mg_no_transaction m) ms"
    and "\<And>st s s'. exec1 st s = Some s' \<Longrightarrow> exec2 st s = Some s'"
    and "apply_migrations sha exec1 files db = (Inl (ApplyFailed f), db1)"
    and "apply_migrations sha exec2 files db = (Inr vs, db2)"
  shows "\<exists>k < length vs. apply_migrations sha exec2 files db1 = (Inr (drop k vs), db2)
    \<and> map fst (mb_ledger db1) = map fst (mb_ledger db) @ take k vs"
proof -
  have d: "distinct (map mg_version ms)" using discovered [OF assms(1)] by simp
  let ?p = "select_pending (fst ` set (mb_ledger db)) ms"
  have v: "verify_applied (load_applied db) ms = None" and full: "apply_pending exec2 ?p db = (Inr vs, db2)"
    using apply_migrations_Inr [OF assms(5)] assms(1) by auto
  have fail: "apply_pending exec1 ?p db = (Inl (ApplyFailed f), db1)"
    using assms(4) by (simp add: apply_migrations_def assms(1) v)
  have "list_all (\<lambda>m. \<not> mg_no_transaction m) ?p" using assms(2) by (auto simp: list_all_iff set_pending)
  from apply_pending_Inl [OF fail this] obtain k where k: "k < length ?p"
      "apply_pending exec1 (take k ?p) db = (Inr (map mg_version (take k ?p)), db1)" by blast
  then have head: "apply_pending exec2 (take k ?p) db = (Inr (map mg_version (take k ?p)), db1)"
    using apply_pending_agree [of exec1 exec2] assms(3) by blast
  note l = apply_pending_Inr [OF head]
  have vs: "vs = map mg_version ?p" using apply_pending_Inr [OF full] by simp
  have "apply_pending exec2 (take k ?p @ drop k ?p) db = (Inr vs, db2)" using full by simp
  then obtain ws where ws: "apply_pending exec2 (drop k ?p) db1 = (Inr ws, db2)"
      "vs = map mg_version (take k ?p) @ ws"
    unfolding apply_pending_append head by (auto split: sum.splits prod.splits)
  then have "ws = drop k vs" using vs by (metis append_take_drop_id map_append same_append_eq drop_map)
  moreover have "verify_applied (load_applied db1) ms = None"
  proof -
    have "\<forall>r \<in> set (mb_ledger db). \<exists>m \<in> set ms. mg_version m = fst r \<and> mg_checksum m = snd (snd r)"
      using v verify_applied_None [OF d, of "load_applied db"] by simp
    moreover have "\<forall>r \<in> set (map ledger_row (take k ?p)). \<exists>m \<in> set ms. mg_version m = fst r \<and> mg_checksum m = snd (snd r)"
      by (auto simp: ledger_row_def set_pending dest!: in_set_takeD)
    ultimately show ?thesis using verify_applied_None [OF d, of "load_applied db1"] l by auto
  qed
  moreover have "select_pending (fst ` set (mb_ledger db1)) ms = drop k ?p"
    using pending_after [OF d refl, of "fst ` set (mb_ledger db)" k] l
    by (simp add: image_Un image_image ledger_row_def)
  ultimately have "apply_migrations sha exec2 files db1 = (Inr (drop k vs), db2)"
    using ws(1) by (simp add: apply_migrations_def assms(1))
  moreover have "map fst (mb_ledger db1) = map fst (mb_ledger db) @ take k vs"
    using l vs by (simp add: ledger_row_def comp_def take_map)
  ultimately show ?thesis using k(1) vs by (intro exI [of _ k]) simp
qed

section \<open>A concrete directory\<close>

definition demo_exec :: "string list \<Rightarrow> string \<Rightarrow> string list \<Rightarrow> string list option" where
  "demo_exec bad st done = (if st \<in> set bad then None else Some (done @ [st]))"

definition demo_migration :: "nat \<Rightarrow> string \<Rightarrow> string \<Rightarrow> bool \<Rightarrow> migration" where
  "demo_migration v name script no_tx =
     \<lparr>mg_version = v, mg_filename = name, mg_checksum = script, mg_sql = script, mg_no_transaction = no_tx\<rparr>"

definition demo_files :: "(string \<times> string) list" where
  "demo_files = [(''1_a.sql'', ''A;''), (''2_b.sql'', ''B;'')]"

lemma demo_read:
  "read_migration id (''1_a.sql'', ''A;'') = Inr (demo_migration 1 ''1_a.sql'' ''A;'' False)"
  "read_migration id (''2_b.sql'', ''B;'') = Inr (demo_migration 2 ''2_b.sql'' ''B;'' False)"
  by code_simp+

lemma demo_discovered:
  "discover_migrations id demo_files =
     Inr [demo_migration 1 ''1_a.sql'' ''A;'' False, demo_migration 2 ''2_b.sql'' ''B;'' False]"
proof -
  have "sort_key fst demo_files = demo_files" by (simp add: demo_files_def)
  then show ?thesis
    by (simp add: discover_migrations_def demo_files_def demo_read) (simp add: demo_migration_def)
qed

lemma demo_splits: "split_statements ''A;'' = [''A'']" "split_statements ''B;'' = [''B'']"
    "split_statements ''A; B;'' = [''A'', ''B'']"
  by (simp_all add: split_statements_def split_from.simps dollar_tag_def emit_def strip_def lstrip_by_def
      rstrip_by_def is_space_def)

definition empty_mdb :: "string list mdb" where
  "empty_mdb = \<lparr>mb_state = [], mb_ledger = []\<rparr>"

lemmas demo_run = apply_migrations_def demo_discovered load_applied_def select_pending_def apply_one_def
  record_version_def demo_exec_def demo_migration_def demo_splits empty_mdb_def

lemma demo_good:
  "apply_migrations id (demo_exec []) demo_files empty_mdb =
     (Inr [1, 2], \<lparr>mb_state = [''A'', ''B''], mb_ledger = [(1, ''1_a.sql'', ''A;''), (2, ''2_b.sql'', ''B;'')]\<rparr>)"
  by (simp add: demo_run)

lemma demo_bad:
  "apply_migrations id (demo_exec [''B'']) demo_files empty_mdb =
     (Inl (ApplyFailed ''2_b.sql''), \<lparr>mb_state = [''A''], mb_ledger = [(1, ''1_a.sql'', ''A;'')]\<rparr>)"
  by (simp add: demo_run)

theorem migrations_applied_once_witness:
  "mb_ledger (snd (apply_migrations id (demo_exec []) demo_files empty_mdb))
     = map ledger_row [demo_migration 1 ''1_a.sql'' ''A;'' False, demo_migration 2 ''2_b.sql'' ''B;'' False]"
proof -
  note once = migrations_applied_once [OF demo_good, unfolded demo_discovered sum.case Let_def]
  have "mb_ledger empty_mdb = []" by (simp add: empty_mdb_def)
  then show ?thesis unfolding demo_good snd_conv using once by simp
qed

theorem migrations_idempotent_witness:
  "apply_migrations id (demo_exec [''A'', ''B'']) demo_files
      \<lparr>mb_state = [''A'', ''B''], mb_ledger = [(1, ''1_a.sql'', ''A;''), (2, ''2_b.sql'', ''B;'')]\<rparr>
   = (Inr [], \<lparr>mb_state = [''A'', ''B''], mb_ledger = [(1, ''1_a.sql'', ''A;''), (2, ''2_b.sql'', ''B;'')]\<rparr>)"
  by (rule migrations_idempotent [OF demo_good])

theorem tampered_file_refused_witness:
  "\<exists>e. apply_migrations id (demo_exec []) demo_files \<lparr>mb_state = [], mb_ledger = [(1, ''1_a.sql'', ''old'')]\<rparr>
     = (Inl e, \<lparr>mb_state = [], mb_ledger = [(1, ''1_a.sql'', ''old'')]\<rparr>)"
  by (rule tampered_file_refused [OF demo_discovered]) (simp add: demo_migration_def)

theorem migrations_resume_witness:
  "\<exists>k. apply_migrations id (demo_exec []) demo_files \<lparr>mb_state = [''A''], mb_ledger = [(1, ''1_a.sql'', ''A;'')]\<rparr>
     = (Inr (drop k [1, 2]),
        \<lparr>mb_state = [''A'', ''B''], mb_ledger = [(1, ''1_a.sql'', ''A;''), (2, ''2_b.sql'', ''B;'')]\<rparr>)"
proof -
  have "list_all (\<lambda>m. \<not> mg_no_transaction m)
      [demo_migration 1 ''1_a.sql'' ''A;'' False, demo_migration 2 ''2_b.sql'' ''B;'' False]"
    by (simp add: demo_migration_def)
  moreover have "demo_exec [''B''] st s = Some s' \<Longrightarrow> demo_exec [] st s = Some s'" for st s s'
    by (simp add: demo_exec_def split: if_splits)
  ultimately show ?thesis
    using migrations_resume [OF demo_discovered _ _ demo_bad demo_good] by blast
qed

section \<open>A run that fails outside a transaction\<close>

text \<open>A file that must not run in a transaction is not applied once: after a failure its first
  statements are executed again.\<close>

lemma no_transaction_repeats:
  "apply_pending (demo_exec [''B'']) [demo_migration 1 ''f'' ''A; B;'' True] empty_mdb
     = (Inl (ApplyFailed ''f''), \<lparr>mb_state = [''A''], mb_ledger = []\<rparr>)
   \<and> apply_pending (demo_exec []) [demo_migration 1 ''f'' ''A; B;'' True] \<lparr>mb_state = [''A''], mb_ledger = []\<rparr>
     = (Inr [1], \<lparr>mb_state = [''A'', ''A'', ''B''], mb_ledger = [(1, ''f'', ''A; B;'')]\<rparr>)"
  by (simp add: demo_run)

section \<open>What the scanner keeps together\<close>

text \<open>
  The tokens of a statement: an ordinary character, a dash and what follows it, a literal (the text
  between its quotes, with inner quotes doubled when written), and a dollar-quoted body.
\<close>

datatype token = Ch char | Dash char | Lit string | Body string string

definition ordinary :: "char \<Rightarrow> bool" where
  "ordinary c \<longleftrightarrow> c \<noteq> CHR ''-'' \<and> c \<noteq> CHR 0x27 \<and> c \<noteq> CHR ''$'' \<and> c \<noteq> CHR '';''"

fun doubled :: "string \<Rightarrow> string" where
  "doubled [] = []"
| "doubled (c # cs) = (if c = CHR 0x27 then c # c # doubled cs else c # doubled cs)"

definition delim :: "string \<Rightarrow> string" where
  "delim tag = CHR ''$'' # tag @ [CHR ''$'']"

fun written :: "token \<Rightarrow> string" where
  "written (Ch c) = [c]"
| "written (Dash c) = [CHR ''-'', c]"
| "written (Lit t) = CHR 0x27 # doubled t @ [CHR 0x27]"
| "written (Body tag t) = delim tag @ t @ delim tag"

fun closes_first :: "string \<Rightarrow> string \<Rightarrow> bool" where
  "closes_first d [] = True"
| "closes_first d (c # cs) = (take (length d) (c # cs @ d) \<noteq> d \<and> closes_first d cs)"

fun token_ok :: "token \<Rightarrow> bool" where
  "token_ok (Ch c) = ordinary c"
| "token_ok (Dash c) = ordinary c"
| "token_ok (Lit t) = True"
| "token_ok (Body tag t) = (list_all tag_char tag \<and> closes_first (delim tag) t)"

fun is_lit :: "token \<Rightarrow> bool" where
  "is_lit (Lit t) = True"
| "is_lit _ = False"

text \<open>Two literals side by side would read as one.\<close>

fun tokens_ok :: "token list \<Rightarrow> bool" where
  "tokens_ok [] = True"
| "tokens_ok [t] = token_ok t"
| "tokens_ok (t # u # ts) = (token_ok t \<and> \<not> (is_lit t \<and> is_lit u) \<and> tokens_ok (u # ts))"

definition statement :: "token list \<Rightarrow> string" where
  "statement ts = concat (map written ts)"

lemma dollar_tag_ordinary: "c \<noteq> CHR ''$'' \<Longrightarrow> dollar_tag (c # cs) = None"
  by (simp add: dollar_tag_def)

lemma split_ordinary: "ordinary c \<Longrightarrow> split_from Plain buf (c # cs) = split_from Plain (c # buf) cs"
  by (simp add: split_from.simps ordinary_def dollar_tag_ordinary)

lemma split_dash:
  assumes "ordinary c"
  shows "split_from Plain buf (CHR ''-'' # c # cs) = split_from Plain (c # CHR ''-'' # buf) cs"
proof -
  have "split_from Plain buf (CHR ''-'' # c # cs) = split_from Plain (CHR ''-'' # buf) (c # cs)"
    using assms by (subst split_from.simps) (simp add: ordinary_def dollar_tag_ordinary)
  then show ?thesis using split_ordinary [OF assms] by simp
qed

lemma split_quoted:
  assumes "rest = [] \<or> hd rest \<noteq> CHR 0x27"
  shows "split_from Quoted buf (doubled t @ CHR 0x27 # rest) = split_from Plain (CHR 0x27 # rev (doubled t) @ buf) rest"
proof (induction t arbitrary: buf)
  case Nil
  show ?case using assms by (cases rest) (simp_all add: split_from.simps)
next
  case (Cons c t)
  show ?case using Cons.IH by (simp add: split_from.simps)
qed

lemma split_dollar:
  assumes "closes_first d t" "d \<noteq> []"
  shows "split_from (Dollar d) buf (t @ d @ rest) = split_from Plain (rev d @ rev t @ buf) rest"
  using assms(1)
proof (induction t arbitrary: buf)
  case Nil
  obtain c cs where "d = c # cs" using assms(2) by (cases d) auto
  then show ?case by (simp add: split_from.simps)
next
  case (Cons c t)
  have "take (length d) (c # t @ d @ rest) = take (length d) (c # t @ d)"
    by (cases "length d") simp_all
  then have "take (length d) (c # t @ d @ rest) \<noteq> d" using Cons.prems by simp
  then show ?case using Cons by (simp add: split_from.simps)
qed

lemma dollar_tag_delim:
  "list_all tag_char tag \<Longrightarrow> dollar_tag (delim tag @ rest) = Some (delim tag, rest)"
proof -
  assume a: "list_all tag_char tag"
  have "\<not> tag_char (CHR ''$'')" by (simp add: tag_char_def is_alpha_def is_upper_def is_lower_def is_digit_def)
  then have "dropWhile tag_char (tag @ CHR ''$'' # rest) = CHR ''$'' # rest"
    "takeWhile tag_char (tag @ CHR ''$'' # rest) = tag"
    using a by (induction tag) auto
  then show ?thesis by (simp add: dollar_tag_def delim_def)
qed

lemma split_token:
  assumes "token_ok tok" "is_lit tok \<longrightarrow> rest = [] \<or> hd rest \<noteq> CHR 0x27"
  shows "split_from Plain buf (written tok @ rest) = split_from Plain (rev (written tok) @ buf) rest"
proof (cases tok)
  case (Ch c)
  then show ?thesis using assms split_ordinary by simp
next
  case (Dash c)
  then show ?thesis using assms split_dash by simp
next
  case (Lit t)
  have "split_from Plain buf (CHR 0x27 # doubled t @ CHR 0x27 # rest)
      = split_from Quoted (CHR 0x27 # buf) (doubled t @ CHR 0x27 # rest)"
    by (subst split_from.simps) simp
  then show ?thesis using assms Lit split_quoted by simp
next
  case (Body tag t)
  then have b: "list_all tag_char tag" "closes_first (delim tag) t" using assms(1) by simp_all
  have "split_from Plain buf (delim tag @ t @ delim tag @ rest)
      = split_from (Dollar (delim tag)) (rev (delim tag) @ buf) (t @ delim tag @ rest)"
    using dollar_tag_delim [OF b(1), of "t @ delim tag @ rest"]
    by (simp add: delim_def) (subst split_from.simps, simp)
  then show ?thesis using split_dollar [OF b(2)] Body by (simp add: delim_def)
qed

lemma written_hd: "token_ok tok \<Longrightarrow> \<not> is_lit tok \<Longrightarrow> written tok \<noteq> [] \<and> hd (written tok) \<noteq> CHR 0x27"
  by (cases tok) (auto simp: ordinary_def delim_def)

lemma split_tokens:
  "tokens_ok ts \<Longrightarrow> rest \<noteq> [] \<Longrightarrow> hd rest \<noteq> CHR 0x27 \<Longrightarrow>
     split_from Plain buf (statement ts @ rest) = split_from Plain (rev (statement ts) @ buf) rest"
proof (induction ts arbitrary: buf rule: tokens_ok.induct)
  case (3 t u ts)
  have u: "token_ok u" using 3(2) by (cases ts) simp_all
  have "is_lit t \<longrightarrow> hd (statement (u # ts) @ rest) \<noteq> CHR 0x27"
    using 3(2) written_hd [OF u] by (auto simp: statement_def)
  then show ?case
    using split_token [of t "statement (u # ts) @ rest" buf] 3
    by (simp add: statement_def)
qed (simp_all add: statement_def split_token)

text \<open>A script: for each statement a comment line, the statement, a semicolon and a line feed.\<close>

definition script_of :: "(string \<times> token list) list \<Rightarrow> string" where
  "script_of ss = concat (map (\<lambda>(c, ts). ''--'' @ c @ [CHR 0x0A] @ statement ts @ [CHR '';'', CHR 0x0A]) ss)"

definition statement_ok :: "token list \<Rightarrow> bool" where
  "statement_ok ts \<longleftrightarrow> tokens_ok ts \<and> statement ts \<noteq> [] \<and> strip (statement ts) = statement ts"

text \<open>
  C24. Splitting a script gives back its statements. A script that is written from statements - with a
  comment line before and a semicolon behind each - is split into exactly those statements, whatever the
  comments, string literals and dollar-quoted bodies contain, semicolons, quotes and dashes included.
\<close>

theorem split_round_trip:
  assumes "list_all (\<lambda>(c, ts). CHR 0x0A \<notin> set c \<and> statement_ok ts) ss"
  shows "split_statements (script_of ss) = map (\<lambda>(c, ts). statement ts) ss"
proof -
  have nl: "ordinary (CHR 0x0A)" by (simp add: ordinary_def)
  have "split_from Plain buf (script_of ss) = map (\<lambda>(c, ts). statement ts) ss" if "list_all is_space buf" for buf
    using assms that
  proof (induction ss arbitrary: buf)
    case Nil
    then have "dropWhile is_space (rev buf) = []" by (simp add: dropWhile_eq_Nil_conv list_all_iff)
    then have "strip (rev buf) = []"
      by (simp only: strip_def lstrip_by_def rstrip_by_def rev.simps dropWhile.simps)
    then show ?case by (simp add: script_of_def split_from.simps emit_def)
  next
    case (Cons x ss)
    obtain c ts where x: "x = (c, ts)" by fastforce
    let ?rest = "CHR 0x0A # script_of ss"
    have ok: "CHR 0x0A \<notin> set c" "tokens_ok ts" "statement ts \<noteq> []" "strip (statement ts) = statement ts"
      using Cons.prems(1) by (simp_all add: x statement_ok_def)
    have "dropWhile (\<lambda>x. x \<noteq> CHR 0x0A) (CHR ''-'' # c @ CHR 0x0A # statement ts @ CHR '';'' # ?rest)
        = CHR 0x0A # statement ts @ CHR '';'' # ?rest"
      using ok(1) by (auto simp: dropWhile_append3)
    then have "split_from Plain buf (script_of (x # ss))
        = split_from Plain buf (CHR 0x0A # statement ts @ CHR '';'' # ?rest)"
      by (simp add: script_of_def x) (subst split_from.simps, simp)
    also have "\<dots> = split_from Plain (CHR 0x0A # buf) (statement ts @ CHR '';'' # ?rest)"
      by (rule split_ordinary [OF nl])
    also have "\<dots> = split_from Plain (rev (statement ts) @ CHR 0x0A # buf) (CHR '';'' # ?rest)"
      by (rule split_tokens) (use ok in simp_all)
    also have "\<dots> = emit (rev (statement ts) @ CHR 0x0A # buf) @ split_from Plain [] ?rest"
      by (subst split_from.simps) (simp add: dollar_tag_ordinary)
    also have "split_from Plain [] ?rest = split_from Plain [CHR 0x0A] (script_of ss)"
      by (rule split_ordinary [OF nl])
    also have "\<dots> = map (\<lambda>(c, ts). statement ts) ss"
      using Cons.IH [of "[CHR 0x0A]"] Cons.prems(1) by (simp add: is_space_def)
    also have "emit (rev (statement ts) @ CHR 0x0A # buf) = [statement ts]"
    proof -
      have "dropWhile is_space (rev buf @ CHR 0x0A # statement ts) = dropWhile is_space (statement ts)"
        using Cons.prems(2) by (simp add: dropWhile_append list_all_iff is_space_def)
      then have "strip (rev buf @ CHR 0x0A # statement ts) = strip (statement ts)"
        by (simp add: strip_def lstrip_by_def)
      then show ?thesis using ok(3,4) by (simp add: emit_def)
    qed
    finally show ?case by (simp add: x)
  qed
  from this [of "[]"] show ?thesis by (simp add: split_statements_def)
qed

theorem split_round_trip_witness:
  "split_statements (script_of [('' a; b'', [Ch CHR ''x'', Lit '';'', Dash CHR ''1'', Body ''q'' '';'']), ([], [Ch CHR ''y''])])
     = [statement [Ch CHR ''x'', Lit '';'', Dash CHR ''1'', Body ''q'' '';''], ''y'']"
proof -
  have "list_all (\<lambda>(c, ts). CHR 0x0A \<notin> set c \<and> statement_ok ts)
      [('' a; b'', [Ch CHR ''x'', Lit '';'', Dash CHR ''1'', Body ''q'' '';'']), ([], [Ch CHR ''y''])]"
    by (simp add: statement_ok_def statement_def ordinary_def delim_def tag_char_def is_alpha_def is_lower_def
        is_upper_def strip_def lstrip_by_def rstrip_by_def is_space_def)
  from split_round_trip [OF this] show ?thesis by (simp add: statement_def)
qed

section \<open>Line ends\<close>

text \<open>\<open>autocrlf\<close> writes every line end as CR LF.\<close>

fun to_crlf :: "string \<Rightarrow> string" where
  "to_crlf [] = []"
| "to_crlf (c # cs) = (if c = CHR 0x0A then CHR 0x0D # c # to_crlf cs else c # to_crlf cs)"

lemma normalize_Cons: "c \<noteq> CHR 0x0D \<Longrightarrow> normalize_bytes (c # cs) = c # normalize_bytes cs"
  by (cases cs) simp_all

text \<open>
  A checkout with other line ends has the same checksum. For a file without carriage returns the
  checksum is that of the file itself and does not change when every line end becomes CR LF.
\<close>

theorem checksum_line_ends:
  assumes "CHR 0x0D \<notin> set data"
  shows "compute_checksum sha (to_crlf data) = sha data \<and> compute_checksum sha data = sha data"
proof -
  have "normalize_bytes (to_crlf data) = data" using assms
    by (induction data) (auto simp: normalize_Cons)
  moreover have "normalize_bytes data = data" using assms
    by (induction data) (auto simp: normalize_Cons)
  ultimately show ?thesis by (simp add: compute_checksum_def)
qed

theorem checksum_line_ends_witness:
  "compute_checksum rev (to_crlf [CHR ''a'', CHR 0x0A]) = [CHR 0x0A, CHR ''a'']"
  using checksum_line_ends [where data = "[CHR ''a'', CHR 0x0A]" and sha = rev] by simp

end
