(* ===== verification/Urls.thy ===== *)
theory Urls
  imports Regex
begin

text \<open>
  Connection strings before they reach a log: \<open>remove_credentials_from_url\<close> and \<open>build_amqp_url\<close> of
  \<open>amqp/client.py\<close> and \<open>redact_dsn\<close> of \<open>db/startup.py\<close>. Of \<open>urlparse\<close> only the network location is
  used; a location in brackets (an IPv6 address), which \<open>urlparse\<close> checks further, is left out.

  What is proved: of a URL with a user name and a password free of the separators nothing is left of
  either; and the two cases where it is not removed, a password that contains an \<open>@\<close> and an empty
  user name.
\<close>

section \<open>Classes of characters, repeated\<close>

definition over :: "string \<Rightarrow> cursor \<Rightarrow> cursor \<Rightarrow> bool" where
  "over w s t \<longleftrightarrow> after s = w @ after t \<and> before t = rev w @ before s \<and> caps t = caps s"

lemma cursor_eqI: "before s = before t \<Longrightarrow> after s = after t \<Longrightarrow> caps s = caps t \<Longrightarrow> s = t"
  by (cases s; cases t) simp

lemma matches_Chr: "matches (Chr p) s t \<longleftrightarrow> (\<exists>c. p c \<and> over [c] s t)"
  by (cases t) (auto simp: over_def)

lemma over_trans: "over v s t \<Longrightarrow> over w t u \<Longrightarrow> over (v @ w) s u"
  by (auto simp: over_def)

lemma over_Nil [simp]: "over [] s t \<longleftrightarrow> t = s"
  by (auto simp: over_def intro: cursor_eqI)

lemma over_advances: "over (c # w) s t \<Longrightarrow> advances s t"
  by (auto simp: over_def advances_def)

lemma matches_star_class:
  "matches (star (Chr p)) s t \<longleftrightarrow> (\<exists>w. list_all p w \<and> over w s t)"
proof
  assume "matches (star (Chr p)) s t"
  then have "(\<lambda>s t. matches (Chr p) s t \<and> advances s t)\<^sup>*\<^sup>* s t" by (simp add: star_def)
  then show "\<exists>w. list_all p w \<and> over w s t"
  proof (induction rule: rtranclp_induct)
    case base
    have "list_all p [] \<and> over [] s s" by simp
    then show ?case by blast
  next
    case (step t u)
    then obtain w c where "list_all p w" "over w s t" "p c" "over [c] t u"
      unfolding matches_Chr by blast
    then have "list_all p (w @ [c]) \<and> over (w @ [c]) s u" using over_trans by simp
    then show ?case by blast
  qed
next
  assume "\<exists>w. list_all p w \<and> over w s t"
  then obtain w where "list_all p w" "over w s t" by blast
  then have "(\<lambda>s t. matches (Chr p) s t \<and> advances s t)\<^sup>*\<^sup>* s t"
  proof (induction w arbitrary: s)
    case Nil
    then show ?case by simp
  next
    case (Cons c w)
    let ?u = "(c # before s, w @ after t, caps s)"
    have o: "over [c] s ?u" "over w ?u t" using Cons.prems by (auto simp: over_def)
    then have "matches (Chr p) s ?u \<and> advances s ?u"
      using Cons.prems over_advances unfolding matches_Chr by auto
    moreover have "(\<lambda>s t. matches (Chr p) s t \<and> advances s t)\<^sup>*\<^sup>* ?u t"
      using Cons o(2) by simp
    ultimately show ?case by (rule converse_rtranclp_into_rtranclp)
  qed
  then show "matches (star (Chr p)) s t" by (simp add: star_def)
qed

lemma matches_plus1_class:
  "matches (plus1 (Chr p)) s t \<longleftrightarrow> (\<exists>w. w \<noteq> [] \<and> list_all p w \<and> over w s t)"
proof
  assume "matches (plus1 (Chr p)) s t"
  then obtain u where "matches (Chr p) s u" "matches (star (Chr p)) u t"
    by (auto simp: plus1_def star_def)
  then obtain c w where "p c" "over [c] s u" "list_all p w" "over w u t"
    unfolding matches_Chr matches_star_class by blast
  then have "c # w \<noteq> [] \<and> list_all p (c # w) \<and> over (c # w) s t"
    using over_trans [of "[c]" s u w t] by simp
  then show "\<exists>w. w \<noteq> [] \<and> list_all p w \<and> over w s t" by blast
next
  assume "\<exists>w. w \<noteq> [] \<and> list_all p w \<and> over w s t"
  then obtain c w where w: "list_all p (c # w)" "over (c # w) s t" by (metis list.exhaust)
  let ?u = "(c # before s, w @ after t, caps s)"
  have "over [c] s ?u" "over w ?u t" using w by (auto simp: over_def)
  with w have "matches (Chr p) s ?u" "matches (star (Chr p)) ?u t"
    unfolding matches_Chr matches_star_class by auto
  then show "matches (plus1 (Chr p)) s t" unfolding plus1_def star_def matches.simps by blast
qed

section \<open>The network location of a URL\<close>

definition url_clean :: "string \<Rightarrow> string" where
  "url_clean url =
     filter (\<lambda>c. c \<notin> {CHR 0x09, CHR 0x0D, CHR 0x0A}) (dropWhile (\<lambda>c. (of_char c :: nat) \<le> 32) url)"

definition scheme_char :: "char \<Rightarrow> bool" where
  "scheme_char c \<longleftrightarrow> is_alpha c \<or> is_digit c \<or> c \<in> set ''+-.''"

definition after_scheme :: "string \<Rightarrow> string" where
  "after_scheme url =
     (let pre = takeWhile (\<lambda>c. c \<noteq> CHR '':'') url
      in if length pre < length url \<and> pre \<noteq> [] \<and> is_alpha (hd pre) \<and> list_all scheme_char pre
         then drop (length pre + 1) url else url)"

definition netloc :: "string \<Rightarrow> string" where
  "netloc url =
     (let u = after_scheme (url_clean url)
      in if take 2 u = ''//'' then takeWhile (\<lambda>c. c \<notin> set ''/?#'') (drop 2 u) else [])"

text \<open>\<open>^[^:]+:[^@]*@\<close>.\<close>

definition USERINFO_RE :: regex where
  "USERINFO_RE = seqs [Bol, plus1 (noneof '':''), lit '':'', star (noneof ''@''), lit ''@'']"

definition strip_userinfo :: "string \<Rightarrow> string" where
  "strip_userinfo n = re_sub USERINFO_RE [] n"

definition remove_credentials_from_url :: "string \<Rightarrow> string" where
  "remove_credentials_from_url url =
     (let new_netloc = strip_userinfo (netloc url)
      in if netloc url = new_netloc then url else py_replace (netloc url) new_netloc url)"

definition build_amqp_url :: "string \<Rightarrow> string \<Rightarrow> string \<Rightarrow> string" where
  "build_amqp_url amqp_url virtual_host heartbeat =
     rstrip_by (\<lambda>c. c = CHR 0x5C \<or> c = CHR ''/'') amqp_url @ ''/'' @ virtual_host
       @ ''?heartbeat='' @ heartbeat"

text \<open>\<open>(?i)(password\s*=\s*)('[^']*'|"[^"]*"|\S+)\<close>.\<close>

definition PW_KV_RE :: regex where
  "PW_KV_RE = Seq (Grp 1 (seqs [lit_ci ''password'', star sp, lit ''='', star sp]))
     (Grp 2 (alts [seqs [Chr (\<lambda>c. c = CHR 0x27), star (Chr (\<lambda>c. c \<noteq> CHR 0x27)), Chr (\<lambda>c. c = CHR 0x27)],
                   seqs [Chr (\<lambda>c. c = CHR 0x22), star (Chr (\<lambda>c. c \<noteq> CHR 0x22)), Chr (\<lambda>c. c = CHR 0x22)],
                   plus1 nsp]))"

definition redact_dsn :: "string \<Rightarrow> string" where
  "redact_dsn dsn =
     (let n = netloc dsn;
          dsn = (if n \<noteq> [] \<and> strip_userinfo n \<noteq> n then py_replace n (strip_userinfo n) dsn else dsn)
      in re_sub_with PW_KV_RE (\<lambda>m. grp 1 m @ ''***'') dsn)"

section \<open>What is removed\<close>

lemma list_all_noneof: "list_all (\<lambda>c. \<not> cls [d] c) w \<longleftrightarrow> d \<notin> set w"
  by (induction w) (auto simp: cls_def)

lemma matches_seqs_Nil: "matches (seqs []) s t \<longleftrightarrow> t = s"
  by (simp add: seqs_def)

lemma matches_seqs_Cons:
  "matches (seqs (r # rs)) s t \<longleftrightarrow> (\<exists>u. matches r s u \<and> matches (seqs rs) u t)"
  by (simp add: seqs_def relcompp_apply del: split_paired_Ex)

lemma matches_lit1: "matches (lit [c]) s t \<longleftrightarrow> over [c] s t"
  unfolding lit_def foldr.simps comp_def id_apply matches.simps relcompp_apply
  by (auto simp: over_def intro!: cursor_eqI simp del: split_paired_Ex)

lemma over_append: "over (v @ w) s t \<longleftrightarrow> (\<exists>u. over v s u \<and> over w u t)"
proof
  assume "over (v @ w) s t"
  then have "over v s (rev v @ before s, w @ after t, caps s)"
    "over w (rev v @ before s, w @ after t, caps s) t"
    by (auto simp: over_def)
  then show "\<exists>u. over v s u \<and> over w u t" by blast
qed (blast intro: over_trans)

lemma matches_userinfo:
  "matches USERINFO_RE s t \<longleftrightarrow>
     before s = [] \<and> (\<exists>u p. u \<noteq> [] \<and> CHR '':'' \<notin> set u \<and> CHR ''@'' \<notin> set p
        \<and> over (u @ '':'' @ p @ ''@'') s t)"
  unfolding USERINFO_RE_def matches_seqs_Cons matches_seqs_Nil matches_lit1 noneof_def
    matches_plus1_class matches_star_class list_all_noneof matches.simps over_append
  by blast

lemma first_break:
  assumes "u @ d # v = u' @ d # v'" and "d \<notin> set u" and "d \<notin> set u'"
  shows "u = u' \<and> v = v'"
proof -
  have "takeWhile (\<lambda>c. c \<noteq> d) (u @ d # v) = u" "takeWhile (\<lambda>c. c \<noteq> d) (u' @ d # v') = u'"
    using assms(2,3) by (auto simp: takeWhile_append)
  with assms(1) show ?thesis by simp
qed

text \<open>There is at most one place where the expression ends.\<close>

lemma userinfo_at_start:
  assumes "u \<noteq> []" and "CHR '':'' \<notin> set u" and "CHR ''@'' \<notin> set p"
  shows "matches USERINFO_RE (at_pos [] (u @ '':'' @ p @ ''@'' @ h)) t \<longleftrightarrow>
           over (u @ '':'' @ p @ ''@'') (at_pos [] (u @ '':'' @ p @ ''@'' @ h)) t"
proof
  assume "matches USERINFO_RE (at_pos [] (u @ '':'' @ p @ ''@'' @ h)) t"
  then obtain u' p' where *: "CHR '':'' \<notin> set u'" "CHR ''@'' \<notin> set p'"
    and o: "over (u' @ '':'' @ p' @ ''@'') (at_pos [] (u @ '':'' @ p @ ''@'' @ h)) t"
    unfolding matches_userinfo by blast
  then have "u @ CHR '':'' # (p @ ''@'' @ h) = u' @ CHR '':'' # (p' @ ''@'' @ after t)"
    by (simp add: over_def at_pos_def)
  from first_break [OF this assms(2) *(1)]
  have "u = u'" and e: "p @ CHR ''@'' # h = p' @ CHR ''@'' # after t" by simp_all
  moreover from first_break [OF e assms(3) *(2)] have "p = p'" by simp
  ultimately show "over (u @ '':'' @ p @ ''@'') (at_pos [] (u @ '':'' @ p @ ''@'' @ h)) t"
    using o by simp
next
  assume "over (u @ '':'' @ p @ ''@'') (at_pos [] (u @ '':'' @ p @ ''@'' @ h)) t"
  then show "matches USERINFO_RE (at_pos [] (u @ '':'' @ p @ ''@'' @ h)) t"
    unfolding matches_userinfo using assms by (auto simp: at_pos_def)
qed

lemma results_unique:
  assumes "\<And>t'. matches r s t' \<longleftrightarrow> t' = t"
  shows "\<exists>ts. results r s = t # ts"
proof -
  have set: "set (results r s) = {t}" using set_results [of r s] assms by simp
  then show ?thesis by (cases "results r s") auto
qed

lemma scan_no_more:
  assumes "\<And>pre suf. pre \<noteq> [] \<Longrightarrow> results r (at_pos pre suf) = []"
  shows "pre \<noteq> [] \<Longrightarrow> k \<le> length s \<Longrightarrow> scan r k pre s = map Keep (drop k s)"
proof (induction s arbitrary: k pre)
  case Nil
  then show ?case using assms by simp
next
  case (Cons c cs)
  then show ?case using assms by (cases k) (simp_all add: Let_def)
qed

lemma userinfo_only_start: "pre \<noteq> [] \<Longrightarrow> results USERINFO_RE (at_pos pre suf) = []"
  unfolding results_Nil_iff matches_userinfo by (simp add: at_pos_def)

lemma concat_Keep: "concat (map (piece_text f \<circ> Keep) s) = s"
  by (induction s) simp_all

theorem strip_userinfo_removes:
  assumes "u \<noteq> []" and "CHR '':'' \<notin> set u" and "CHR ''@'' \<notin> set p"
  shows "strip_userinfo (u @ '':'' @ p @ ''@'' @ h) = h"
proof -
  let ?w = "u @ '':'' @ p @ ''@''" and ?n = "u @ '':'' @ p @ ''@'' @ h"
  let ?s = "at_pos [] ?n" and ?t = "(rev ?w, h, Map.empty :: groups)"
  have "over ?w ?s t \<longleftrightarrow> t = ?t" for t
    by (auto simp: over_def at_pos_def intro: cursor_eqI)
  then obtain ts where ts: "results USERINFO_RE ?s = ?t # ts"
    using results_unique [of USERINFO_RE ?s ?t] userinfo_at_start [OF assms] by auto
  obtain c cs where n: "?n = c # cs" using assms(1) by (cases u) auto
  have adv: "advances ?s ?t" by (simp add: advances_def at_pos_def)
  have con: "length (consumed ?s ?t) - 1 = length ?w - 1"
    by (simp add: consumed_def at_pos_def)
  have cs: "length ?w - 1 \<le> length cs" "drop (length ?w - 1) cs = h"
  proof -
    have "drop (length ?w) (c # cs) = h" unfolding n [symmetric] by simp
    then show "drop (length ?w - 1) cs = h" by (simp add: drop_Cons')
    show "length ?w - 1 \<le> length cs" using arg_cong [OF n, where f = length] by simp
  qed
  have "scan USERINFO_RE (length ?w - 1) [c] cs = map Keep h"
    using scan_no_more [of USERINFO_RE "[c]" "length ?w - 1" cs] userinfo_only_start cs by simp
  then have "pieces USERINFO_RE ?n = Hit (rmatch_of ?s ?t) # map Keep h"
    using ts adv con unfolding pieces_def n by (simp add: Let_def)
  then show ?thesis by (simp add: strip_userinfo_def re_sub_def re_sub_with_def concat_Keep)
qed

section \<open>Replacing the location\<close>

lemma replace_from_skip:
  "k \<le> length s \<Longrightarrow> replace_from old new k s = replace_from old new 0 (drop k s)"
proof (induction s arbitrary: k)
  case (Cons c s)
  then show ?case by (cases k) simp_all
qed simp

lemma replace_from_hit:
  assumes "old \<noteq> []"
  shows "replace_from old new 0 (old @ s) = new @ replace_from old new 0 s"
proof -
  obtain c cs where o: "old = c # cs" using assms by (cases old) auto
  have "replace_from old new 0 (c # cs @ s) = new @ replace_from old new (length cs) (cs @ s)"
    unfolding o replace_from.simps by (simp add: starts_with_def del: replace_from.simps)
  also have "replace_from old new (length cs) (cs @ s) = replace_from old new 0 s"
    using replace_from_skip [of "length cs" "cs @ s" old new] by simp
  finally show ?thesis by (simp add: o)
qed

lemma starts_within:
  assumes "starts_with old (v @ d # w)" and "d \<notin> set old" and "a \<in> set old" and "a \<notin> set v"
  shows False
proof (cases "length old \<le> length v")
  case True
  then have "old = take (length old) v" using assms(1) by (simp add: starts_with_def)
  then have "set old \<subseteq> set v" by (metis set_take_subset)
  with assms show False by blast
next
  case False
  then obtain m where "length old = length v + Suc m"
    using less_imp_Suc_add by (metis add_Suc_right not_le)
  then have "d \<in> set (take (length old) (v @ d # w))" by simp
  with assms(1,2) show False by (simp add: starts_with_def)
qed

lemma replace_from_before:
  assumes "d \<notin> set old" and "a \<in> set old" and "a \<notin> set v"
  shows "replace_from old new 0 (v @ d # w) = v @ d # replace_from old new 0 w"
  using assms(3)
proof (induction v)
  case Nil
  then show ?case using starts_within [of old "[]" d w a] assms by auto
next
  case (Cons c v)
  then show ?case using starts_within [of old "c # v" d w a] assms by auto
qed

definition plain_url :: "string \<Rightarrow> bool" where
  "plain_url url \<longleftrightarrow> list_all (\<lambda>c. c \<notin> {CHR 0x09, CHR 0x0D, CHR 0x0A}) url"

lemma alpha_code: "is_alpha c \<Longrightarrow> 32 < (of_char c :: nat)"
  by (auto simp: is_alpha_def is_lower_def is_upper_def)

lemma netloc_of_url:
  assumes "scheme \<noteq> []" and "is_alpha (hd scheme)" and "list_all scheme_char scheme"
    and "list_all (\<lambda>c. c \<notin> set ''/?#'') n" and "rest = [] \<or> hd rest \<in> set ''/?#''"
    and "plain_url (scheme @ ''://'' @ n @ rest)"
  shows "netloc (scheme @ ''://'' @ n @ rest) = n"
proof -
  let ?url = "scheme @ ''://'' @ n @ rest"
  obtain a sc where s: "scheme = a # sc" "is_alpha a" using assms(1,2) by (cases scheme) auto
  have "dropWhile (\<lambda>c. (of_char c :: nat) \<le> 32) ?url = ?url"
    using alpha_code [OF s(2)] by (simp add: s(1))
  moreover have "filter (\<lambda>c. c \<notin> {CHR 0x09, CHR 0x0D, CHR 0x0A}) ?url = ?url"
    using assms(6) unfolding plain_url_def list_all_iff by (rule filter_True)
  ultimately have clean: "url_clean ?url = ?url" unfolding url_clean_def by simp
  have "CHR '':'' \<notin> set scheme"
    using assms(3) by (auto simp: list_all_iff scheme_char_def is_alpha_def is_lower_def is_upper_def
        is_digit_def)
  then have "takeWhile (\<lambda>c. c \<noteq> CHR '':'') ?url = scheme"
    by (auto simp: takeWhile_append)
  then have "after_scheme ?url = ''//'' @ n @ rest"
    using assms(1-3) by (simp add: after_scheme_def Let_def)
  moreover have "takeWhile (\<lambda>c. c \<notin> set ''/?#'') (n @ rest) = n"
    using assms(4,5) by (cases rest) (auto simp: takeWhile_append list_all_iff)
  ultimately show ?thesis unfolding netloc_def clean by (simp add: Let_def)
qed

section \<open>Properties\<close>

lemma replace_location:
  assumes "list_all scheme_char scheme" and "list_all (\<lambda>c. c \<notin> set ''/?#'') (u @ p @ h)"
  shows "py_replace (u @ '':'' @ p @ ''@'' @ h) h (scheme @ ''://'' @ u @ '':'' @ p @ ''@'' @ h @ rest) =
    scheme @ ''://'' @ h @ py_replace (u @ '':'' @ p @ ''@'' @ h) h rest"
proof -
  let ?n = "u @ '':'' @ p @ ''@'' @ h"
  have at: "CHR ''@'' \<notin> set (scheme @ '':/'')"
    using assms(1) by (auto simp: list_all_iff scheme_char_def is_alpha_def is_lower_def
        is_upper_def is_digit_def)
  have slash: "CHR ''/'' \<notin> set ?n" using assms(2) by (auto simp: list_all_iff)
  have "replace_from ?n h 0 ((scheme @ '':/'') @ CHR ''/'' # ?n @ rest) =
      (scheme @ '':/'') @ CHR ''/'' # replace_from ?n h 0 (?n @ rest)"
    using slash at by (intro replace_from_before [where a = "CHR ''@''"]) simp_all
  also have "replace_from ?n h 0 (?n @ rest) = h @ replace_from ?n h 0 rest"
    by (rule replace_from_hit) simp
  finally show ?thesis by (simp add: py_replace_def)
qed

lemma replace_from_absent:
  "a \<in> set old \<Longrightarrow> a \<notin> set s \<Longrightarrow> replace_from old new 0 s = s"
proof (induction s)
  case (Cons c s)
  have "\<not> starts_with old (c # s)"
  proof
    assume "starts_with old (c # s)"
    then have "set old \<subseteq> set (c # s)" unfolding starts_with_def by (metis set_take_subset)
    with Cons.prems show False by blast
  qed
  with Cons show ?case by simp
qed simp

text \<open>
  Of a URL with a user name (not empty, no colon) and a password (no at sign) neither is left when
  it is written to a log: the location shrinks to the host, and where the old location occurs again
  in the rest of the URL it shrinks there too.
\<close>

theorem credentials_removed:
  assumes "scheme \<noteq> []" and "is_alpha (hd scheme)" and "list_all scheme_char scheme"
    and "u \<noteq> []" and "CHR '':'' \<notin> set u" and "CHR ''@'' \<notin> set p"
    and "list_all (\<lambda>c. c \<notin> set ''/?#'') (u @ p @ h)" and "rest = [] \<or> hd rest \<in> set ''/?#''"
    and "plain_url (scheme @ ''://'' @ u @ '':'' @ p @ ''@'' @ h @ rest)"
  shows "remove_credentials_from_url (scheme @ ''://'' @ u @ '':'' @ p @ ''@'' @ h @ rest) =
    scheme @ ''://'' @ h @ py_replace (u @ '':'' @ p @ ''@'' @ h) h rest"
proof -
  let ?n = "u @ '':'' @ p @ ''@'' @ h"
  have n: "netloc (scheme @ ''://'' @ ?n @ rest) = ?n"
    using assms by (intro netloc_of_url) simp_all
  have s: "strip_userinfo ?n = h" by (rule strip_userinfo_removes [OF assms(4-6)])
  have "py_replace ?n h (scheme @ ''://'' @ ?n @ rest) = scheme @ ''://'' @ h @ py_replace ?n h rest"
    using replace_location [OF assms(3,7), of rest] by simp
  moreover have "?n \<noteq> h" by simp
  ultimately show ?thesis using n s unfolding remove_credentials_from_url_def by simp
qed

theorem credentials_removed_witness:
  "remove_credentials_from_url ''amqp://rabbit:secret@mq:5672/an'' = ''amqp://mq:5672/an''"
  using credentials_removed [of "''amqp''" "''rabbit''" "''secret''" "''mq:5672''" "''/an''"]
  by (simp add: is_alpha_def is_lower_def is_upper_def scheme_char_def plain_url_def py_replace_def
      starts_with_def)

text \<open>
  Two forms are not covered. The expression stops at the first at sign, so of a password with one
  the part behind it stays; and it asks for a user name, so with an empty one the whole password does.
\<close>

lemma password_with_at_leaks:
  assumes "u \<noteq> []" and "CHR '':'' \<notin> set u" and "CHR ''@'' \<notin> set p"
  shows "strip_userinfo (u @ '':'' @ (p @ ''@'' @ q) @ ''@'' @ h) = q @ ''@'' @ h"
  using strip_userinfo_removes [OF assms, of "q @ ''@'' @ h"] by simp

lemma empty_user_leaks: "strip_userinfo (CHR '':'' # n) = CHR '':'' # n"
proof -
  have "results USERINFO_RE (at_pos [] (CHR '':'' # n)) = []"
    unfolding results_Nil_iff matches_userinfo by (auto simp: over_def at_pos_def Cons_eq_append_conv)
  then have "pieces USERINFO_RE (CHR '':'' # n) = map Keep (CHR '':'' # n)"
    using scan_no_more [of USERINFO_RE "[CHR '':'']" 0 n] userinfo_only_start
    by (simp add: pieces_def Let_def)
  then show ?thesis by (simp add: strip_userinfo_def re_sub_def re_sub_with_def concat_Keep)
qed

end
