(* ===== verification/Bootstrap.thy ===== *)
theory Bootstrap
  imports Migrate Urls
begin

text \<open>
  The bootstrap of the database before the consumers start (\<open>db/startup.py\<close>): connecting with
  retries, creating a missing database, the checks of the server and of pgvector, schema and
  extensions, the migrations, and the exit codes.

  What PostgreSQL answers is an argument: whether the \<open>n\<close>-th connection attempt is accepted, what
  libpq's text says, how \<open>CREATE DATABASE\<close> ends, whether another starter has created the database by
  then (\<open>boot_env\<close>). A connection attempt is one tick of the clock \<open>bt_calls\<close>. The advisory locks make
  what they protect one step.
\<close>

section \<open>Versions\<close>

definition MIN_SERVER_VERSION_NUM :: int where "MIN_SERVER_VERSION_NUM = 160000"
definition MIN_PGVECTOR_VERSION :: "nat list" where "MIN_PGVECTOR_VERSION = [0, 8, 0]"
definition EXIT_FATAL :: nat where "EXIT_FATAL = 3"
definition EXIT_CONNECT :: nat where "EXIT_CONNECT = 4"

fun version_parts :: "string list \<Rightarrow> nat list" where
  "version_parts [] = []"
| "version_parts (tok # toks) =
     (let digits = filter is_digit tok
      in if digits = [] then [] else decimal digits # version_parts toks)"

definition parse_version :: "string \<Rightarrow> nat list" where
  "parse_version version = version_parts (split_on (CHR ''.'') version)"

section \<open>The environment and the state\<close>

datatype create_outcome = CreateOk | CreateDuplicate | CreateNoPrivilege | CreateOtherError

record boot_env =
  be_target_up :: "nat \<Rightarrow> bool"
  be_maint_up :: "nat \<Rightarrow> bool"
  be_says_missing :: "nat \<Rightarrow> bool"
  be_created_by_others :: "nat \<Rightarrow> bool"
  be_create :: "nat \<Rightarrow> create_outcome"

record boot_state =
  bt_calls :: nat
  bt_exists :: bool
  bt_slept :: real

text \<open>A \<open>BootstrapError\<close> carries an exit code; any other exception of psycopg is \<open>Uncaught\<close>.\<close>

datatype boot_error = BootstrapError nat | Uncaught

definition tick :: "boot_env \<Rightarrow> boot_state \<Rightarrow> boot_state" where
  "tick env s = s\<lparr>bt_calls := bt_calls s + 1,
                  bt_exists := bt_exists s \<or> be_created_by_others env (bt_calls s)\<rparr>"

definition connect_target :: "boot_env \<Rightarrow> boot_state \<Rightarrow> bool \<times> boot_state" where
  "connect_target env s =
     (let s' = tick env s in (be_target_up env (bt_calls s) \<and> bt_exists s', s'))"

definition connect_maintenance :: "boot_env \<Rightarrow> boot_state \<Rightarrow> bool \<times> boot_state" where
  "connect_maintenance env s = (be_maint_up env (bt_calls s), tick env s)"

definition sleep_unless_last :: "real \<Rightarrow> nat \<Rightarrow> boot_state \<Rightarrow> boot_state" where
  "sleep_unless_last delay left s = (if left > 0 then s\<lparr>bt_slept := bt_slept s + delay\<rparr> else s)"

section \<open>Connecting\<close>

fun connect_with_retries :: "boot_env \<Rightarrow> real \<Rightarrow> nat \<Rightarrow> boot_state \<Rightarrow> bool \<times> boot_state" where
  "connect_with_retries env delay 0 s = (False, s)"
| "connect_with_retries env delay (Suc left) s =
     (case connect_maintenance env s of
        (True, s') \<Rightarrow> (True, s')
      | (False, s') \<Rightarrow> connect_with_retries env delay left (sleep_unless_last delay left s'))"

text \<open>\<open>Some True\<close>: absent; \<open>Some False\<close>: present; \<open>None\<close>: undecided.\<close>

definition target_database_absent ::
    "boot_env \<Rightarrow> bool \<Rightarrow> boot_state \<Rightarrow> bool option \<times> boot_state" where
  "target_database_absent env says_missing s =
     (case connect_maintenance env s of
        (False, s') \<Rightarrow> (if says_missing then Some True else None, s')
      | (True, s') \<Rightarrow> (Some (\<not> bt_exists s'), s'))"

definition create_database ::
    "boot_env \<Rightarrow> real \<Rightarrow> nat \<Rightarrow> boot_state \<Rightarrow> boot_error option \<times> boot_state" where
  "create_database env delay attempts s =
     (case connect_with_retries env delay attempts s of
        (False, s') \<Rightarrow> (Some (BootstrapError EXIT_CONNECT), s')
      | (True, s') \<Rightarrow>
          (if bt_exists s' then (None, s')
           else (case be_create env (bt_calls s') of
                   CreateOk \<Rightarrow> (None, s'\<lparr>bt_exists := True\<rparr>)
                 | CreateDuplicate \<Rightarrow> (None, s'\<lparr>bt_exists := True\<rparr>)
                 | CreateNoPrivilege \<Rightarrow> (Some (BootstrapError EXIT_FATAL), s')
                 | CreateOtherError \<Rightarrow> (Some Uncaught, s'))))"

fun ensure_from ::
    "boot_env \<Rightarrow> bool \<Rightarrow> nat \<Rightarrow> real \<Rightarrow> nat \<Rightarrow> boot_state \<Rightarrow> (boot_error + unit) \<times> boot_state" where
  "ensure_from env create_db attempts delay 0 s = (Inl (BootstrapError EXIT_CONNECT), s)"
| "ensure_from env create_db attempts delay (Suc left) s =
     (case connect_target env s of
        (True, s1) \<Rightarrow> (Inr (), s1)
      | (False, s1) \<Rightarrow>
          (case target_database_absent env (be_says_missing env (bt_calls s)) s1 of
             (absent, s2) \<Rightarrow>
               if absent = Some True then
                 (if \<not> create_db then (Inl (BootstrapError EXIT_FATAL), s2)
                  else (case create_database env delay attempts s2 of
                          (Some e, s3) \<Rightarrow> (Inl e, s3)
                        | (None, s3) \<Rightarrow> ensure_from env create_db attempts delay left s3))
               else ensure_from env create_db attempts delay left
                      (sleep_unless_last delay left s2)))"

definition ensure_database ::
    "boot_env \<Rightarrow> bool \<Rightarrow> nat \<Rightarrow> real \<Rightarrow> boot_state \<Rightarrow> (boot_error + unit) \<times> boot_state" where
  "ensure_database env create_db attempts delay s =
     ensure_from env create_db attempts delay attempts s"

section \<open>The checks, the schema and the migrations\<close>

text \<open>What the server says of itself: its version number and, when pgvector is available, the default
  and the installed version. \<open>installed or default\<close> may be \<open>NULL\<close> too, which no version parser takes.\<close>

record server_info =
  si_version_num :: int
  si_pgvector :: "(string option \<times> string option) option"

definition version_str :: "string option \<times> string option \<Rightarrow> string option" where
  "version_str = (\<lambda>(default, installed).
     case installed of Some v \<Rightarrow> (if v = [] then default else Some v) | None \<Rightarrow> default)"

definition check_server_and_extensions :: "server_info \<Rightarrow> boot_error option" where
  "check_server_and_extensions srv =
     (if si_version_num srv < MIN_SERVER_VERSION_NUM then Some (BootstrapError EXIT_FATAL)
      else (case si_pgvector srv of
              None \<Rightarrow> Some (BootstrapError EXIT_FATAL)
            | Some row \<Rightarrow>
                (case version_str row of
                   None \<Rightarrow> Some Uncaught
                 | Some v \<Rightarrow>
                     if parse_version v < MIN_PGVECTOR_VERSION
                     then Some (BootstrapError EXIT_FATAL) else None)))"

record 's pg =
  pg_schemas :: "string set"
  pg_extensions :: "string set"
  pg_mdb :: "'s mdb"

text \<open>One transaction; \<open>allowed\<close> says which of its statements the server lets through.\<close>

definition ensure_schema_and_extensions ::
    "(string \<Rightarrow> bool) \<Rightarrow> string \<Rightarrow> 's pg \<Rightarrow> boot_error option \<times> 's pg" where
  "ensure_schema_and_extensions allowed schema db =
     (if allowed schema \<and> allowed ''vector'' \<and> allowed ''pg_trgm''
      then (None, db\<lparr>pg_schemas := insert schema (pg_schemas db),
                     pg_extensions := pg_extensions db \<union> {''vector'', ''pg_trgm''}\<rparr>)
      else (Some Uncaught, db))"

definition connect_and_check ::
    "boot_env \<Rightarrow> server_info \<Rightarrow> bool \<Rightarrow> nat \<Rightarrow> real \<Rightarrow> boot_state \<Rightarrow> boot_error option \<times> boot_state" where
  "connect_and_check env srv create_db attempts delay s =
     (case ensure_database env create_db attempts delay s of
        (Inl e, s') \<Rightarrow> (Some e, s')
      | (Inr _, s') \<Rightarrow> (check_server_and_extensions srv, s'))"

datatype startup_error = Boot boot_error | Migration migration_error

definition bootstrap ::
    "boot_env \<Rightarrow> server_info \<Rightarrow> (string \<Rightarrow> bool) \<Rightarrow> string \<Rightarrow> bool \<Rightarrow> nat \<Rightarrow> real
       \<Rightarrow> boot_state \<times> 's pg \<Rightarrow> boot_error option \<times> boot_state \<times> 's pg" where
  "bootstrap env srv allowed schema create_db attempts delay = (\<lambda>(s, db).
     case connect_and_check env srv create_db attempts delay s of
       (Some e, s') \<Rightarrow> (Some e, s', db)
     | (None, s') \<Rightarrow>
         (case ensure_schema_and_extensions allowed schema db of (r, db') \<Rightarrow> (r, s', db')))"

definition bootstrap_and_migrate ::
    "boot_env \<Rightarrow> server_info \<Rightarrow> (string \<Rightarrow> bool) \<Rightarrow> (string \<Rightarrow> string) \<Rightarrow> (string \<Rightarrow> 's \<Rightarrow> 's option)
       \<Rightarrow> (string \<times> string) list \<Rightarrow> string \<Rightarrow> bool \<Rightarrow> nat \<Rightarrow> real
       \<Rightarrow> boot_state \<times> 's pg \<Rightarrow> (startup_error + nat list) \<times> boot_state \<times> 's pg" where
  "bootstrap_and_migrate env srv allowed sha exec files schema create_db attempts delay = (\<lambda>(s, db).
     case connect_and_check env srv create_db attempts delay s of
       (Some e, s') \<Rightarrow> (Inl (Boot e), s', db)
     | (None, s') \<Rightarrow>
         (case ensure_schema_and_extensions allowed schema db of
            (Some e, db') \<Rightarrow> (Inl (Boot e), s', db')
          | (None, db') \<Rightarrow>
              (case apply_migrations sha exec files (pg_mdb db') of
                 (Inl e, m) \<Rightarrow> (Inl (Migration e), s', db'\<lparr>pg_mdb := m\<rparr>)
               | (Inr vs, m) \<Rightarrow> (Inr vs, s', db'\<lparr>pg_mdb := m\<rparr>))))"

text \<open>\<open>bootstrap_and_migrate_or_exit\<close>: the versions applied, a \<open>SystemExit\<close>, or an exception that is
  neither of the two the function maps.\<close>

datatype startup_result = Started "nat list" | Exit nat | Crashed

definition exit_code :: "startup_error \<Rightarrow> startup_result" where
  "exit_code e = (case e of Boot (BootstrapError c) \<Rightarrow> Exit c | Boot Uncaught \<Rightarrow> Crashed
                  | Migration _ \<Rightarrow> Exit 5)"

definition bootstrap_and_migrate_or_exit where
  "bootstrap_and_migrate_or_exit env srv allowed sha exec files schema create_db attempts delay sdb =
     (case bootstrap_and_migrate env srv allowed sha exec files schema create_db attempts delay sdb of
        (Inl e, sdb') \<Rightarrow> (exit_code e, sdb')
      | (Inr vs, sdb') \<Rightarrow> (Started vs, sdb'))"

section \<open>Connecting: what the loop guarantees\<close>

lemma connect_simps [simp]:
  "fst (connect_target env s) \<longleftrightarrow> be_target_up env (bt_calls s) \<and> bt_exists (tick env s)"
  "snd (connect_target env s) = tick env s"
  "snd (connect_maintenance env s) = tick env s"
  "fst (connect_maintenance env s) = be_maint_up env (bt_calls s)"
  by (simp_all add: connect_target_def connect_maintenance_def Let_def)

lemma tick_simps [simp]:
  "bt_calls (tick env s) = bt_calls s + 1" "bt_slept (tick env s) = bt_slept s"
  "bt_exists s \<Longrightarrow> bt_exists (tick env s)"
  by (simp_all add: tick_def)

lemma sleep_simps [simp]:
  "bt_calls (sleep_unless_last d k s) = bt_calls s"
  "bt_exists (sleep_unless_last d k s) = bt_exists s"
  by (simp_all add: sleep_unless_last_def)

lemma sleep_bound: "0 \<le> d \<Longrightarrow> bt_slept (sleep_unless_last d k s) \<le> bt_slept s + d"
  by (simp add: sleep_unless_last_def)

lemma sleep_last [simp]: "sleep_unless_last d 0 s = s"
  by (simp add: sleep_unless_last_def)

definition grows :: "nat \<Rightarrow> real \<Rightarrow> boot_state \<Rightarrow> boot_state \<Rightarrow> bool" where
  "grows n t s s' \<longleftrightarrow> bt_calls s \<le> bt_calls s' \<and> bt_calls s' \<le> bt_calls s + n
     \<and> bt_slept s \<le> bt_slept s' \<and> bt_slept s' \<le> bt_slept s + t \<and> (bt_exists s \<longrightarrow> bt_exists s')"

lemma grows_refl: "0 \<le> t \<Longrightarrow> grows n t s s"
  by (simp add: grows_def)

lemma grows_trans: "grows n t s s' \<Longrightarrow> grows m u s' s'' \<Longrightarrow> grows (n + m) (t + u) s s''"
  by (auto simp: grows_def)

lemma grows_mono: "grows n t s s' \<Longrightarrow> n \<le> m \<Longrightarrow> t \<le> u \<Longrightarrow> grows m u s s'"
  by (auto simp: grows_def)

lemma grows_tick: "grows 1 0 s (tick env s)"
  by (simp add: grows_def)

lemma grows_sleep: "0 \<le> d \<Longrightarrow> grows 0 d s (sleep_unless_last d k s)"
  by (simp add: grows_def sleep_unless_last_def)

lemma retries_grow:
  assumes "0 \<le> d"
  shows "grows k (real (k - 1) * d) s (snd (connect_with_retries env d k s))"
proof (induction k arbitrary: s)
  case 0
  show ?case by (simp add: grows_refl)
next
  case (Suc k)
  show ?case
  proof (cases "be_maint_up env (bt_calls s)")
    case True
    then have "snd (connect_with_retries env d (Suc k) s) = tick env s"
      by (simp add: connect_maintenance_def)
    moreover have "grows (Suc k) (real (Suc k - 1) * d) s (tick env s)"
      using grows_tick by (rule grows_mono) (use assms in simp_all)
    ultimately show ?thesis by simp
  next
    case False
    then have e: "snd (connect_with_retries env d (Suc k) s) =
        snd (connect_with_retries env d k (sleep_unless_last d k (tick env s)))"
      by (simp add: connect_maintenance_def)
    show ?thesis
    proof (cases k)
      case 0
      then show ?thesis using grows_tick unfolding e by (auto intro: grows_mono)
    next
      case (Suc j)
      have "grows (1 + 0 + k) (0 + d + real (k - 1) * d) s
          (snd (connect_with_retries env d k (sleep_unless_last d k (tick env s))))"
        by (intro grows_trans [OF grows_trans [OF grows_tick grows_sleep [OF assms]] Suc.IH])
      then show ?thesis unfolding e using Suc by (simp add: algebra_simps)
    qed
  qed
qed

lemma retries_fail:
  "fst (connect_with_retries env d k s) \<longleftrightarrow> (\<exists>i<k. be_maint_up env (bt_calls s + i))"
proof (induction k arbitrary: s)
  case (Suc k)
  show ?case
  proof (cases "be_maint_up env (bt_calls s)")
    case True
    then show ?thesis by (auto simp: connect_maintenance_def intro: exI [of _ 0])
  next
    case False
    then have "fst (connect_with_retries env d (Suc k) s) \<longleftrightarrow>
        (\<exists>i<k. be_maint_up env (bt_calls s + Suc i))"
      by (simp add: connect_maintenance_def Suc.IH)
    also have "\<dots> \<longleftrightarrow> (\<exists>i<Suc k. be_maint_up env (bt_calls s + i))"
      using False by (auto simp: less_Suc_eq_0_disj)
    finally show ?thesis .
  qed
qed simp

lemma create_grow:
  assumes "0 \<le> d"
  shows "grows k (real (k - 1) * d) s (snd (create_database env d k s))"
  using retries_grow [OF assms, of k s env]
  by (auto simp: create_database_def grows_def split: prod.splits bool.splits create_outcome.splits)

lemma create_None_exists: "create_database env d k s = (None, s') \<Longrightarrow> bt_exists s'"
  by (auto simp: create_database_def split: prod.splits bool.splits create_outcome.splits if_splits)

definition boot_errors :: "boot_error set" where
  "boot_errors = {BootstrapError EXIT_FATAL, BootstrapError EXIT_CONNECT, Uncaught}"

lemma boot_errors_simps [simp]:
  "BootstrapError EXIT_FATAL \<in> boot_errors" "BootstrapError EXIT_CONNECT \<in> boot_errors"
  "Uncaught \<in> boot_errors"
  by (simp_all add: boot_errors_def)

lemma create_errors: "create_database env d k s = (Some e, s') \<Longrightarrow> e \<in> boot_errors"
  by (auto simp: create_database_def split: prod.splits bool.splits create_outcome.splits if_splits)

lemma absent_state [simp]: "snd (target_database_absent env b s) = tick env s"
  by (auto simp: target_database_absent_def connect_maintenance_def split: bool.splits)

text \<open>One round of the loop.\<close>

lemma ensure_round:
  "ensure_from env cd n d (Suc left) s =
     (let s1 = tick env s; s2 = tick env s1;
          absent = fst (target_database_absent env (be_says_missing env (bt_calls s)) s1)
      in if be_target_up env (bt_calls s) \<and> bt_exists s1 then (Inr (), s1)
         else if absent \<noteq> Some True then ensure_from env cd n d left (sleep_unless_last d left s2)
         else if \<not> cd then (Inl (BootstrapError EXIT_FATAL), s2)
         else (case create_database env d n s2 of
                 (Some e, s3) \<Rightarrow> (Inl e, s3)
               | (None, s3) \<Rightarrow> ensure_from env cd n d left s3))"
proof -
  define c where "c = (be_target_up env (bt_calls s) \<and> bt_exists (tick env s))"
  have 1: "connect_target env s = (c, tick env s)"
    by (simp add: connect_target_def Let_def c_def)
  obtain a where a: "target_database_absent env (be_says_missing env (bt_calls s)) (tick env s) =
      (a, tick env (tick env s))"
    using absent_state by (metis prod.collapse)
  show ?thesis
    unfolding ensure_from.simps 1 Let_def
    unfolding c_def [symmetric]
    by (cases c) (simp_all add: a)
qed

declare ensure_from.simps(2) [simp del]

lemma ensure_grow:
  assumes "0 \<le> d" and "0 < n"
  shows "grows (k * (n + 2)) (real (k * n) * d) s (snd (ensure_from env cd n d k s))"
proof (induction k arbitrary: s)
  case 0
  show ?case by (simp add: grows_refl)
next
  case (Suc k)
  have two: "grows (1 + 1) (0 + 0) s (tick env (tick env s))"
    by (intro grows_trans [OF grows_tick grows_tick])
  have b: "0 \<le> real (k * n) * d" "0 \<le> real n * d" "real (n - 1) * d \<le> real n * d" "d \<le> real n * d"
    using assms by (auto intro: mult_right_mono simp: mult_le_cancel_right1)
  let ?e = "ensure_from env cd n d"
  consider (joined) "snd (?e (Suc k) s) = tick env s" | (fatal) "snd (?e (Suc k) s) = tick env (tick env s)"
    | (failed) "snd (?e (Suc k) s) = snd (create_database env d n (tick env (tick env s)))"
    | (created) "snd (?e (Suc k) s) = snd (?e k (snd (create_database env d n (tick env (tick env s)))))"
    | (wait) "snd (?e (Suc k) s) = snd (?e k (sleep_unless_last d k (tick env (tick env s))))"
    unfolding ensure_round Let_def by (fastforce split: prod.splits option.splits if_splits)
  then show ?case
  proof cases
    case joined
    then show ?thesis using grows_tick [of s env] b by (auto intro: grows_mono simp: algebra_simps)
  next
    case fatal
    then show ?thesis using two b by (auto intro: grows_mono simp: algebra_simps)
  next
    case failed
    have "grows (1 + 1 + n) (0 + 0 + real (n - 1) * d) s
        (snd (create_database env d n (tick env (tick env s))))"
      by (intro grows_trans [OF two create_grow [OF assms(1)]])
    then show ?thesis unfolding failed using b by (auto intro: grows_mono simp: algebra_simps)
  next
    case created
    have "grows (1 + 1 + n + k * (n + 2)) (0 + 0 + real (n - 1) * d + real (k * n) * d) s
        (snd (?e k (snd (create_database env d n (tick env (tick env s))))))"
      by (intro grows_trans [OF grows_trans [OF two create_grow [OF assms(1)]] Suc.IH])
    then show ?thesis unfolding created using b by (auto intro: grows_mono simp: algebra_simps)
  next
    case wait
    have "grows (1 + 1 + 0 + k * (n + 2)) (0 + 0 + d + real (k * n) * d) s
        (snd (?e k (sleep_unless_last d k (tick env (tick env s)))))"
      by (intro grows_trans [OF grows_trans [OF two grows_sleep [OF assms(1)]] Suc.IH])
    then show ?thesis unfolding wait using b by (auto intro: grows_mono simp: algebra_simps)
  qed
qed

lemma ensure_Inr_exists: "ensure_from env cd n d k s = (Inr u, s') \<Longrightarrow> bt_exists s'"
proof (induction k arbitrary: s)
  case (Suc k)
  then show ?case
    by (auto simp: ensure_round Let_def split: if_splits prod.splits option.splits)
qed simp

lemma ensure_errors: "ensure_from env cd n d k s = (Inl e, s') \<Longrightarrow> e \<in> boot_errors"
proof (induction k arbitrary: s)
  case (Suc k)
  then show ?case
    by (auto simp: ensure_round Let_def dest: create_errors split: if_splits prod.splits option.splits)
qed auto

text \<open>Without permission to create, the database exists afterwards only if somebody else made it.\<close>

lemma ensure_no_create:
  assumes "\<not> bt_exists s" and "\<And>n. \<not> be_created_by_others env n"
  shows "\<not> bt_exists (snd (ensure_from env False n d k s))"
  using assms(1)
proof (induction k arbitrary: s)
  case (Suc k)
  have t: "\<not> bt_exists (tick env (tick env s))" "\<not> bt_exists (tick env s)"
    using Suc.prems assms(2) by (simp_all add: tick_def)
  then show ?case using Suc.IH [of "sleep_unless_last d k (tick env (tick env s))"]
    by (auto simp: ensure_round Let_def)
qed simp

section \<open>The checks\<close>

lemma check_None:
  assumes "check_server_and_extensions srv = None"
  shows "si_version_num srv \<ge> 160000 \<and> (\<exists>row v. si_pgvector srv = Some row
           \<and> version_str row = Some v \<and> parse_version v \<ge> [0, 8, 0])"
  using assms by (auto simp: check_server_and_extensions_def MIN_SERVER_VERSION_NUM_def
      MIN_PGVECTOR_VERSION_def not_less split: if_splits option.splits)

text \<open>A version is compared as a list, so one that leaves the last part out is older than with a zero.\<close>

lemma short_version_too_old:
  "parse_version ''0.8'' < MIN_PGVECTOR_VERSION" "parse_version ''0.8.0'' = MIN_PGVECTOR_VERSION"
  "MIN_PGVECTOR_VERSION < parse_version ''0.10.1''"
  by (simp_all add: parse_version_def MIN_PGVECTOR_VERSION_def is_digit_def decimal_def Let_def)

lemma check_errors: "check_server_and_extensions srv = Some e \<Longrightarrow> e \<in> boot_errors"
  by (auto simp: check_server_and_extensions_def split: option.splits if_splits)

section \<open>Starting\<close>

lemma pending_recorded:
  assumes "apply_migrations sha exec files m = (Inr vs, m')"
  shows "\<exists>ms. discover_migrations sha files = Inr ms \<and> mg_version ` set ms \<subseteq> fst ` set (mb_ledger m')"
proof -
  obtain ms where ms: "discover_migrations sha files = Inr ms"
      "apply_pending exec (select_pending (fst ` set (mb_ledger m)) ms) m = (Inr vs, m')"
    using apply_migrations_Inr [OF assms] by metis
  have "mb_ledger m' = mb_ledger m @ map ledger_row (select_pending (fst ` set (mb_ledger m)) ms)"
    using apply_pending_Inr [OF ms(2)] by simp
  then have "fst ` set (mb_ledger m') = fst ` set (mb_ledger m)
      \<union> mg_version ` {m' \<in> set ms. mg_version m' \<notin> fst ` set (mb_ledger m)}"
    by (simp add: image_Un image_image ledger_row_def set_pending)
  then show ?thesis using ms(1) by auto
qed

definition extension_set :: "string set" where
  "extension_set = {''vector'', ''pg_trgm''}"

lemma schema_ready:
  "ensure_schema_and_extensions allowed schema db = (None, db') \<Longrightarrow>
     schema \<in> pg_schemas db' \<and> extension_set \<subseteq> pg_extensions db' \<and> pg_mdb db' = pg_mdb db"
  by (auto simp: ensure_schema_and_extensions_def extension_set_def split: if_splits)

lemma schema_failed:
  "ensure_schema_and_extensions allowed schema db = (Some e, db') \<Longrightarrow> e = Uncaught \<and> db' = db"
  by (auto simp: ensure_schema_and_extensions_def split: if_splits)

lemma connect_and_check_errors: "connect_and_check env srv cd n d s = (Some e, s') \<Longrightarrow> e \<in> boot_errors"
  by (auto simp: connect_and_check_def ensure_database_def dest: ensure_errors check_errors
      split: prod.splits sum.splits)

lemma connected:
  assumes "connect_and_check env srv cd n d s = (None, s')"
  shows "bt_exists s' \<and> check_server_and_extensions srv = None"
  using assms ensure_Inr_exists [of env cd n d n s]
  by (auto simp: connect_and_check_def ensure_database_def split: prod.splits sum.splits)

section \<open>Properties\<close>


text \<open>
  A first installation. With the server up, no target database and the permission to create one,
  the first refused connection leads to its creation without a wait, and the second attempt connects
  to it; unless there is no second attempt - then the database has been made and the service still
  gives up with exit code 4.
\<close>

theorem fresh_install:
  assumes "\<And>i. be_target_up env i" and "\<And>i. be_maint_up env i"
    and "\<And>i. \<not> be_created_by_others env i" and "\<And>i. be_create env i = CreateOk"
    and "\<not> bt_exists s" and "0 < n"
  shows "case ensure_database env True n d s of (r, s') \<Rightarrow>
      r = (if n = 1 then Inl (BootstrapError EXIT_CONNECT) else Inr ())
    \<and> bt_exists s' \<and> bt_slept s' = bt_slept s \<and> bt_calls s' \<le> bt_calls s + 4"
proof -
  let ?s2 = "tick env (tick env s)"
  have t: "\<not> bt_exists (tick env s)" "\<not> bt_exists ?s2" "\<not> bt_exists (tick env ?s2)"
    using assms(3,5) by (simp_all add: tick_def)
  obtain k where n: "n = Suc k" using assms(6) by (cases n) auto
  have absent: "fst (target_database_absent env b (tick env s)) = Some True" for b
    using assms(2) t by (simp add: target_database_absent_def connect_maintenance_def)
  let ?s3 = "(tick env ?s2)\<lparr>bt_exists := True\<rparr>"
  have create: "create_database env d n ?s2 = (None, ?s3)"
    using assms(2,4) t by (simp add: create_database_def n connect_maintenance_def)
  have round: "ensure_from env True n d (Suc k) s = ensure_from env True n d k ?s3"
    unfolding ensure_round Let_def using t absent create by simp
  show ?thesis
  proof (cases k)
    case 0
    then show ?thesis using round by (simp add: ensure_database_def n)
  next
    case (Suc j)
    have "ensure_from env True n d k ?s3 = (Inr (), tick env ?s3)"
      unfolding Suc ensure_round Let_def using assms(1) by simp
    then show ?thesis using round Suc by (simp add: ensure_database_def n)
  qed
qed

definition demo_boot_env :: boot_env where
  "demo_boot_env = \<lparr>be_target_up = \<lambda>_. True, be_maint_up = \<lambda>_. True, be_says_missing = \<lambda>_. False,
     be_created_by_others = \<lambda>_. False, be_create = \<lambda>_. CreateOk\<rparr>"

definition demo_boot_state :: boot_state where
  "demo_boot_state = \<lparr>bt_calls = 0, bt_exists = False, bt_slept = 0\<rparr>"

theorem fresh_install_witness:
  "fst (ensure_database demo_boot_env True 30 2 demo_boot_state) = Inr ()
   \<and> fst (ensure_database demo_boot_env True 1 2 demo_boot_state) = Inl (BootstrapError EXIT_CONNECT)
   \<and> bt_exists (snd (ensure_database demo_boot_env True 1 2 demo_boot_state))"
  using fresh_install [of demo_boot_env demo_boot_state 30 2]
    fresh_install [of demo_boot_env demo_boot_state 1 2]
  by (auto simp: demo_boot_env_def demo_boot_state_def)

text \<open>
  The bootstrap never hangs: of \<open>n\<close> attempts each opens at most \<open>n + 2\<close> connections, and the waits
  add up to at most \<open>n * n\<close> delays; what exists stays.
\<close>

theorem bootstrap_bounded:
  assumes "0 \<le> d" and "0 < n"
  shows "case ensure_database env cd n d s of (r, s') \<Rightarrow>
      bt_calls s' \<le> bt_calls s + n * (n + 2) \<and> bt_slept s' \<le> bt_slept s + real (n * n) * d
    \<and> (bt_exists s' \<or> \<not> bt_exists s)"
  using ensure_grow [OF assms, of n s env cd]
  by (auto simp: ensure_database_def grows_def split: prod.splits)

theorem bootstrap_bounded_witness:
  "bt_slept (snd (ensure_database demo_boot_env True 30 2 demo_boot_state)) \<le> 1800"
  using bootstrap_bounded [where d = 2 and n = 30 and env = demo_boot_env and cd = True
      and s = demo_boot_state]
  by (auto simp: demo_boot_state_def split: prod.splits)

end
