(* ===== verification/Dispatcher.thy ===== *)
theory Dispatcher
  imports Prelude
begin

text \<open>
  The routing table, the processing of one message with its retry and dead-letter policy, the
  watchdog, and the worker pool with its priority queue (\<open>amqp/dispatcher.py\<close>,
  \<open>core/cancellation.py\<close>). What is not in these files - pydantic's adapters, the handlers, the
  clock, the stop event - is the record \<open>dispatch_env\<close>: every call may raise and moves an opaque
  world \<open>'w\<close> on. What the pool does to the outside is the list of \<open>effect\<close>s, in order.
\<close>

section \<open>The routing table\<close>

datatype exn =
    UnknownRoutingKey string
  | ValidationError
  | TaskTimeout
  | OtherError string

datatype adapter =
    AdaptLaunches
  | AdaptModel string
  | AdaptInt
  | Identity

datatype serializer =
    serialize_model_list
  | serialize_model
  | serialize_scalar_str
  | serialize_json

record route_spec =
  rs_adapt :: adapter
  rs_handler :: string
  rs_serializer :: "serializer option"

definition RouteSpec :: "adapter \<Rightarrow> string \<Rightarrow> serializer option \<Rightarrow> route_spec" where
  "RouteSpec a h s = \<lparr>rs_adapt = a, rs_handler = h, rs_serializer = s\<rparr>"

definition route_table :: "(string \<times> route_spec) list" where
  "route_table =
    [(''index'', RouteSpec AdaptLaunches ''index'' (Some serialize_model)),
     (''analyze'', RouteSpec AdaptLaunches ''analyze'' (Some serialize_model_list)),
     (''analyze_item_early'',
        RouteSpec AdaptLaunches ''analyze_item_early'' (Some serialize_model_list)),
     (''suggest'', RouteSpec (AdaptModel ''TestItemInfo'') ''suggest'' (Some serialize_model_list)),
     (''cluster'',
        RouteSpec (AdaptModel ''LaunchInfoForClustering'') ''cluster'' (Some serialize_model)),
     (''search'', RouteSpec (AdaptModel ''SearchLogs'') ''search'' (Some serialize_model_list)),
     (''delete'', RouteSpec AdaptInt ''delete'' (Some serialize_scalar_str)),
     (''clean'', RouteSpec (AdaptModel ''DeleteLogsRequest'') ''clean'' (Some serialize_scalar_str)),
     (''item_remove'',
        RouteSpec (AdaptModel ''DeleteTestItemsRequest'') ''item_remove'' (Some serialize_scalar_str)),
     (''launch_remove'',
        RouteSpec (AdaptModel ''DeleteLaunchesRequest'') ''launch_remove'' (Some serialize_scalar_str)),
     (''remove_by_launch_start_time'',
        RouteSpec (AdaptModel ''RemoveByDatesRequest'') ''remove_by_launch_start_time''
          (Some serialize_scalar_str)),
     (''remove_by_log_time'',
        RouteSpec (AdaptModel ''RemoveByDatesRequest'') ''remove_by_log_time''
          (Some serialize_scalar_str)),
     (''defect_update'', RouteSpec (AdaptModel ''DefectUpdate'') ''defect_update'' (Some serialize_json)),
     (''train_models'', RouteSpec (AdaptModel ''TrainInfo'') ''train_models'' None),
     (''suggest_patterns'', RouteSpec AdaptInt ''suggest_patterns'' (Some serialize_model)),
     (''namespace_finder'', RouteSpec AdaptLaunches ''namespace_finder'' None),
     (''index_suggest_info'', RouteSpec Identity ''index_suggest_info'' (Some serialize_json)),
     (''remove_suggest_info'', RouteSpec AdaptInt ''remove_suggest_info'' (Some serialize_scalar_str)),
     (''update_suggest_info'', RouteSpec Identity ''update_suggest_info'' (Some serialize_json)),
     (''remove_models'', RouteSpec Identity ''remove_models'' None),
     (''get_model_info'', RouteSpec Identity ''get_model_info'' None),
     (''noop_sleep'', RouteSpec Identity ''noop_sleep'' None),
     (''noop_echo'', RouteSpec Identity ''noop_echo'' (Some serialize_scalar_str)),
     (''noop_fail'', RouteSpec Identity ''noop_fail'' None)]"

definition build_routes :: "string \<rightharpoonup> route_spec" where
  "build_routes = map_of route_table"

section \<open>The environment and the message\<close>

record ('b, 'q, 'r, 'w) dispatch_env =
  de_adapt :: "adapter \<Rightarrow> 'b \<Rightarrow> exn + 'q"
  de_handler :: "string \<Rightarrow> 'q \<Rightarrow> 'w \<Rightarrow> (exn + 'r option) \<times> 'w"
  de_serialize :: "serializer \<Rightarrow> 'r \<Rightarrow> exn + string"
  de_monotonic :: "'w \<Rightarrow> seconds"
  de_stop_wait :: "seconds \<Rightarrow> 'w \<Rightarrow> bool \<times> 'w"

record pool_cfg =
  pc_max_retries :: nat
  pc_task_timeout :: seconds
  pc_retry_delays :: "seconds list"
  pc_result_exchange :: string
  pc_result_routing_key :: string
  pc_instance_name :: string

definition default_pool_cfg :: pool_cfg where
  "default_pool_cfg =
     \<lparr>pc_max_retries = 3, pc_task_timeout = 600, pc_retry_delays = [1, 2, 4],
      pc_result_exchange = [], pc_result_routing_key = ''analysis.matches'',
      pc_instance_name = ''analyzer-ng''\<rparr>"

record 'b processing_item =
  pi_priority :: int
  pi_number :: int
  pi_routing_key :: string
  pi_reply_to :: "string option"
  pi_correlation_id :: string
  pi_body :: 'b
  pi_retries :: nat

text \<open>
  What the pool does to the outside: each attempt, each back-off wait, the metric of the outcome,
  the RPC reply, the published result, the dead letter with its \<open>x-retries\<close> and error.
\<close>

datatype effect =
    Attempt nat
  | Slept seconds
  | Metric string string
  | Reply string string string
  | PublishResult string string string string
  | DeadLetter string nat exn

section \<open>One message\<close>

text \<open>\<open>Dispatcher.process\<close>.\<close>

definition dispatch_process ::
  "('b, 'q, 'r, 'w) dispatch_env \<Rightarrow> (string \<rightharpoonup> route_spec) \<Rightarrow> string \<Rightarrow> 'b \<Rightarrow> 'w
     \<Rightarrow> (exn + string option) \<times> 'w" where
  "dispatch_process env routes routing_key body w =
     (case routes routing_key of
        None \<Rightarrow> (Inl (UnknownRoutingKey routing_key), w)
      | Some spec \<Rightarrow>
          (case de_adapt env (rs_adapt spec) body of
             Inl e \<Rightarrow> (Inl e, w)
           | Inr request \<Rightarrow>
               (case de_handler env (rs_handler spec) request w of
                  (Inl e, w') \<Rightarrow> (Inl e, w')
                | (Inr None, w') \<Rightarrow> (Inr None, w')
                | (Inr (Some response), w') \<Rightarrow>
                    (case rs_serializer spec of
                       None \<Rightarrow> (Inr None, w')
                     | Some s \<Rightarrow>
                         (case de_serialize env s response of
                            Inl e \<Rightarrow> (Inl e, w')
                          | Inr body' \<Rightarrow> (Inr (Some body'), w'))))))"

text \<open>
  \<open>task_watchdog\<close>: the timer sets the event once the budget has passed; a budget of zero or less
  disables it. The check after the handler turns an overrun that ended normally into a timeout.
\<close>

definition watchdog_fired :: "seconds \<Rightarrow> seconds \<Rightarrow> seconds \<Rightarrow> bool" where
  "watchdog_fired timeout started now \<longleftrightarrow> timeout > 0 \<and> now - started \<ge> timeout"

text \<open>
  The rest of \<open>core/cancellation.py\<close>: the remaining budget of the armed deadline, and the statement
  timeout derived from it, truncated to milliseconds and at least 1 because 0 means no limit.
\<close>

definition remaining_budget :: "seconds option \<Rightarrow> seconds \<Rightarrow> seconds option" where
  "remaining_budget deadline now = map_option (\<lambda>d. d - now) deadline"

definition truncate_int :: "real \<Rightarrow> int" where
  "truncate_int x = (if x \<ge> 0 then \<lfloor>x\<rfloor> else \<lceil>x\<rceil>)"

definition statement_timeout_ms :: "seconds option \<Rightarrow> seconds \<Rightarrow> int option" where
  "statement_timeout_ms deadline now =
     map_option (\<lambda>r. max 1 (truncate_int (r * 1000))) (remaining_budget deadline now)"

lemma statement_timeout_positive: "statement_timeout_ms deadline now = Some t \<Longrightarrow> 1 \<le> t"
  by (auto simp: statement_timeout_ms_def)

definition attempt_once ::
  "('b, 'q, 'r, 'w) dispatch_env \<Rightarrow> pool_cfg \<Rightarrow> 'b processing_item \<Rightarrow> 'w
     \<Rightarrow> (exn + string option) \<times> 'w" where
  "attempt_once env cfg item w =
     (case dispatch_process env build_routes (pi_routing_key item) (pi_body item) w of
        (Inl e, w') \<Rightarrow> (Inl e, w')
      | (Inr reply, w') \<Rightarrow>
          if watchdog_fired (pc_task_timeout cfg) (de_monotonic env w) (de_monotonic env w')
          then (Inl TaskTimeout, w') else (Inr reply, w'))"

definition RESULT_QUEUE_ROUTES :: "string list" where
  "RESULT_QUEUE_ROUTES = [''analyze'', ''analyze_item_early'']"

definition publish_reply :: "pool_cfg \<Rightarrow> 'b processing_item \<Rightarrow> string option \<Rightarrow> effect list" where
  "publish_reply cfg item reply =
     (case reply of
        None \<Rightarrow> []
      | Some body \<Rightarrow>
          (case pi_reply_to item of
             Some to_queue \<Rightarrow>
               if to_queue \<noteq> [] then [Reply to_queue (pi_correlation_id item) body]
               else if pi_routing_key item \<in> set RESULT_QUEUE_ROUTES \<and> pc_result_exchange cfg \<noteq> []
                       \<and> body \<notin> {''[]'', ''''}
               then [PublishResult (pc_result_exchange cfg) (pc_result_routing_key cfg) body
                       (pc_instance_name cfg)]
               else []
           | None \<Rightarrow>
               if pi_routing_key item \<in> set RESULT_QUEUE_ROUTES \<and> pc_result_exchange cfg \<noteq> []
                  \<and> body \<notin> {''[]'', ''''}
               then [PublishResult (pc_result_exchange cfg) (pc_result_routing_key cfg) body
                       (pc_instance_name cfg)]
               else []))"

definition fail :: "'b processing_item \<Rightarrow> exn \<Rightarrow> effect list" where
  "fail item e =
     [Metric (pi_routing_key item) ''failed'', DeadLetter (pi_routing_key item) (pi_retries item) e]"

definition non_retryable :: "exn \<Rightarrow> bool" where
  "non_retryable e \<longleftrightarrow> (case e of OtherError _ \<Rightarrow> False | _ \<Rightarrow> True)"

datatype pool_status = Completed | ShuttingDown | Crashed

text \<open>
  \<open>_process_bound\<close> from attempt \<open>n\<close> on. An empty list of delays makes the index raise, and that
  error leaves the loop.
\<close>

function process_from ::
  "('b, 'q, 'r, 'w) dispatch_env \<Rightarrow> pool_cfg \<Rightarrow> 'b processing_item \<Rightarrow> nat \<Rightarrow> 'w
     \<Rightarrow> effect list \<times> pool_status \<times> 'w" where
  "process_from env cfg item n w =
     (case attempt_once env cfg item w of
        (Inr reply, w') \<Rightarrow>
          (Attempt n # publish_reply cfg item reply @ [Metric (pi_routing_key item) ''success''],
           Completed, w')
      | (Inl e, w') \<Rightarrow>
          (case e of
             UnknownRoutingKey k \<Rightarrow>
               ([Attempt n, Metric (pi_routing_key item) ''unknown''], Completed, w')
           | _ \<Rightarrow>
               if non_retryable e \<or> n \<ge> pc_max_retries cfg
               then (Attempt n # fail item e, Completed, w')
               else if pc_retry_delays cfg = [] then ([Attempt n], Crashed, w')
               else (let delay = pc_retry_delays cfg ! min n (length (pc_retry_delays cfg) - 1)
                     in case de_stop_wait env delay w' of
                          (True, w'') \<Rightarrow> ([Attempt n, Slept delay], ShuttingDown, w'')
                        | (False, w'') \<Rightarrow>
                            (case process_from env cfg (item\<lparr>pi_retries := n + 1\<rparr>) (n + 1) w'' of
                               (effs, st, w3) \<Rightarrow> (Attempt n # Slept delay # effs, st, w3)))))"
  by pat_completeness auto

termination
  by (relation "measure (\<lambda>(env, cfg, item, n, w). pc_max_retries cfg - n)") auto

definition process_bound ::
  "('b, 'q, 'r, 'w) dispatch_env \<Rightarrow> pool_cfg \<Rightarrow> 'b processing_item \<Rightarrow> 'w
     \<Rightarrow> effect list \<times> pool_status \<times> 'w" where
  "process_bound env cfg item w = process_from env cfg item 0 w"

declare process_from.simps [simp del]

section \<open>The trace of one message\<close>

definition delay_of :: "pool_cfg \<Rightarrow> nat \<Rightarrow> seconds" where
  "delay_of cfg n = pc_retry_delays cfg ! min n (length (pc_retry_delays cfg) - 1)"

definition backoff_trace :: "pool_cfg \<Rightarrow> nat \<Rightarrow> nat \<Rightarrow> effect list" where
  "backoff_trace cfg n m = concat (map (\<lambda>i. [Attempt i, Slept (delay_of cfg i)]) [n..<m])"

lemma backoff_trace_Cons:
  "n < m \<Longrightarrow> backoff_trace cfg n m = Attempt n # Slept (delay_of cfg n) # backoff_trace cfg (n + 1) m"
  by (simp add: backoff_trace_def upt_conv_Cons)

lemma backoff_trace_same [simp]: "backoff_trace cfg n n = []"
  by (simp add: backoff_trace_def)

text \<open>How a message can end after its last attempt \<open>m\<close>.\<close>

definition ending ::
  "('b, 'q, 'r, 'w) dispatch_env \<Rightarrow> pool_cfg \<Rightarrow> 'b processing_item \<Rightarrow> nat \<Rightarrow> effect list \<Rightarrow> pool_status \<Rightarrow> bool" where
  "ending env cfg item m tail st \<longleftrightarrow>
     (st = Completed \<and> (\<exists>reply v v'. attempt_once env cfg item v = (Inr reply, v') \<and> tail = publish_reply cfg item reply @ [Metric (pi_routing_key item) ''success'']))
   \<or> (st = Completed \<and> tail = [Metric (pi_routing_key item) ''unknown''])
   \<or> (st = Completed \<and> (\<exists>e. tail = fail item e \<and> (non_retryable e \<or> m = pc_max_retries cfg)
        \<and> (\<forall>k. e \<noteq> UnknownRoutingKey k)))
   \<or> (st = Crashed \<and> tail = [] \<and> pc_retry_delays cfg = [] \<and> m < pc_max_retries cfg)
   \<or> (st = ShuttingDown \<and> tail = [Slept (delay_of cfg m)] \<and> m < pc_max_retries cfg)"

lemma process_from_trace:
  assumes "process_from env cfg item n w = (effs, st, w')" and "n \<le> pc_max_retries cfg"
    and "pi_retries item = n"
  shows "\<exists>m tail. n \<le> m \<and> m \<le> pc_max_retries cfg \<and> effs = backoff_trace cfg n m @ Attempt m # tail
    \<and> ending env cfg (item\<lparr>pi_retries := m\<rparr>) m tail st"
  using assms
proof (induction "pc_max_retries cfg - n" arbitrary: n item w effs st w' rule: less_induct)
  case less
  note prems = less.prems
  have same: "item\<lparr>pi_retries := n\<rparr> = item" using prems(3) by (cases item) simp
  have one: ?case if "effs = Attempt n # tail" "ending env cfg item n tail st" for tail
    using that prems(2) same by (intro exI [of _ n] exI [of _ tail]) simp
  obtain res w1 where a: "attempt_once env cfg item w = (res, w1)"
    by (cases "attempt_once env cfg item w")
  note e = prems(1) [unfolded process_from.simps [of env cfg item n w] a prod.case]
  show ?case
  proof (cases res)
    case (Inr reply)
    then show ?thesis using e a by (intro one) (auto simp: ending_def)
  next
    case (Inl x)
    show ?thesis
    proof (cases "\<exists>k. x = UnknownRoutingKey k")
      case True
      then show ?thesis using e Inl by (intro one) (auto simp: ending_def)
    next
      case known: False
      show ?thesis
      proof (cases "non_retryable x \<or> n \<ge> pc_max_retries cfg")
        case True
        then have "effs = Attempt n # fail item x" "st = Completed"
          using e Inl known by (auto split: exn.splits)
        then show ?thesis using True prems(2) known by (intro one) (auto simp: ending_def)
      next
        case retry: False
        show ?thesis
        proof (cases "pc_retry_delays cfg = []")
          case True
          then have "effs = [Attempt n]" "st = Crashed"
            using e Inl known retry by (auto split: exn.splits)
          then show ?thesis using True retry by (intro one) (auto simp: ending_def)
        next
          case False
          obtain b w2 where s: "de_stop_wait env (delay_of cfg n) w1 = (b, w2)"
            by (cases "de_stop_wait env (delay_of cfg n) w1")
          show ?thesis
          proof (cases b)
            case True
            then have "effs = [Attempt n, Slept (delay_of cfg n)]" "st = ShuttingDown"
              using e Inl known retry False s by (auto simp: delay_of_def Let_def split: exn.splits)
            then show ?thesis using retry by (intro one) (auto simp: ending_def)
          next
            case go: False
            obtain effs' st' w3 where
              r: "process_from env cfg (item\<lparr>pi_retries := n + 1\<rparr>) (n + 1) w2 = (effs', st', w3)"
              by (metis prod_cases3)
            have eq: "effs = Attempt n # Slept (delay_of cfg n) # effs'" "st = st'"
              using e Inl known retry False s go r by (auto simp: delay_of_def Let_def split: exn.splits)
            have "\<exists>m tail. n + 1 \<le> m \<and> m \<le> pc_max_retries cfg
                \<and> effs' = backoff_trace cfg (n + 1) m @ Attempt m # tail
                \<and> ending env cfg ((item\<lparr>pi_retries := n + 1\<rparr>)\<lparr>pi_retries := m\<rparr>) m tail st'"
              by (rule less.hyps [OF _ r]) (use retry in auto)
            then obtain m tail where m: "n + 1 \<le> m" "m \<le> pc_max_retries cfg"
              "effs' = backoff_trace cfg (n + 1) m @ Attempt m # tail"
              "ending env cfg (item\<lparr>pi_retries := m\<rparr>) m tail st'" by auto
            then have "effs = backoff_trace cfg n m @ Attempt m # tail"
              using eq backoff_trace_Cons [of n m cfg] by simp
            then show ?thesis using m eq by (intro exI [of _ m] exI [of _ tail]) simp
          qed
        qed
      qed
    qed
  qed
qed

fun is_metric :: "effect \<Rightarrow> bool" where
  "is_metric (Metric k oc) = True" | "is_metric _ = False"

fun is_attempt :: "effect \<Rightarrow> bool" where
  "is_attempt (Attempt n) = True" | "is_attempt _ = False"

fun is_dead_letter :: "effect \<Rightarrow> bool" where
  "is_dead_letter (DeadLetter k n e) = True" | "is_dead_letter _ = False"

fun is_answer :: "effect \<Rightarrow> bool" where
  "is_answer (Reply q c b) = True" | "is_answer (PublishResult x k b a) = True" | "is_answer _ = False"

definition how_many :: "(effect \<Rightarrow> bool) \<Rightarrow> effect list \<Rightarrow> nat" where
  "how_many p effs = length (filter p effs)"

lemma how_many_simps [simp]:
  "how_many p [] = 0" "how_many p (e # es) = (if p e then 1 else 0) + how_many p es"
  "how_many p (es @ es') = how_many p es + how_many p es'"
  by (simp_all add: how_many_def)

lemma backoff_trace_snoc:
  "n \<le> m \<Longrightarrow> backoff_trace cfg n (Suc m) = backoff_trace cfg n m @ [Attempt m, Slept (delay_of cfg m)]"
  by (simp add: backoff_trace_def)

lemma backoff_trace_counts:
  "how_many is_attempt (backoff_trace cfg 0 m) = m" "how_many is_metric (backoff_trace cfg 0 m) = 0"
  "how_many is_dead_letter (backoff_trace cfg 0 m) = 0" "how_many is_answer (backoff_trace cfg 0 m) = 0"
  by (induction m) (simp_all add: backoff_trace_snoc)

lemma publish_reply_cases:
  "publish_reply cfg item reply = []
   \<or> (\<exists>q b. publish_reply cfg item reply = [Reply q (pi_correlation_id item) b] \<and> reply = Some b
        \<and> pi_reply_to item = Some q \<and> q \<noteq> [])
   \<or> (\<exists>b. publish_reply cfg item reply = [PublishResult (pc_result_exchange cfg)
          (pc_result_routing_key cfg) b (pc_instance_name cfg)] \<and> reply = Some b)"
  by (auto simp: publish_reply_def split: option.split)


definition demo_item :: "string \<Rightarrow> unit processing_item" where
  "demo_item key = \<lparr>pi_priority = 5, pi_number = 1, pi_routing_key = key, pi_reply_to = Some ''q'',
     pi_correlation_id = ''c'', pi_body = (), pi_retries = 0\<rparr>"

text \<open>An environment whose handlers always raise.\<close>

definition broken_env :: "(unit, unit, unit, unit) dispatch_env" where
  "broken_env = \<lparr>de_adapt = (\<lambda>_ _. Inr ()), de_handler = (\<lambda>_ _ w. (Inl (OtherError ''db''), w)),
     de_serialize = (\<lambda>_ _. Inr ''x''), de_monotonic = (\<lambda>_. 0), de_stop_wait = (\<lambda>_ w. (False, w))\<rparr>"


text \<open>
  C38. Exhausted retries end in the dead-letter queue. If every attempt raises a retryable error, the
  delays are configured and the pool is not shut down, the message is tried exactly
  \<open>max_retries + 1\<close> times with every configured delay in between, and then dead-lettered once, with
  \<open>x-retries\<close> equal to the retries made; nothing is ever answered.
\<close>

theorem retries_exhausted_dead_letter:
  assumes "\<forall>v. \<exists>s v'. dispatch_process env build_routes (pi_routing_key item) (pi_body item) v
             = (Inl (OtherError s), v')"
    and "\<forall>d v. \<not> fst (de_stop_wait env d v)" and "pc_retry_delays cfg \<noteq> []" and "pi_retries item = 0"
  shows "\<exists>s w'. process_bound env cfg item w =
    (backoff_trace cfg 0 (pc_max_retries cfg)
       @ [Attempt (pc_max_retries cfg), Metric (pi_routing_key item) ''failed'',
          DeadLetter (pi_routing_key item) (pc_max_retries cfg) (OtherError s)], Completed, w')"
proof -
  have "\<exists>s w'. process_from env cfg (item\<lparr>pi_retries := n\<rparr>) n w =
    (backoff_trace cfg n (pc_max_retries cfg)
       @ [Attempt (pc_max_retries cfg), Metric (pi_routing_key item) ''failed'',
          DeadLetter (pi_routing_key item) (pc_max_retries cfg) (OtherError s)], Completed, w')"
    if "n \<le> pc_max_retries cfg" for n
    using that
  proof (induction "pc_max_retries cfg - n" arbitrary: n w rule: less_induct)
    case less
    obtain s v where a: "attempt_once env cfg (item\<lparr>pi_retries := n\<rparr>) w = (Inl (OtherError s), v)"
      using assms(1) [rule_format, of w] by (auto simp: attempt_once_def)
    note e = process_from.simps [of env cfg "item\<lparr>pi_retries := n\<rparr>" n w, unfolded a prod.case sum.case exn.case]
    show ?case
    proof (cases "n = pc_max_retries cfg")
      case True
      then show ?thesis using e by (simp add: fail_def non_retryable_def)
    next
      case False
      then have lt: "n < pc_max_retries cfg" using less.prems by simp
      obtain v' where st: "de_stop_wait env (delay_of cfg n) v = (False, v')"
        using assms(2) by (metis prod.collapse)
      obtain s' w' where "process_from env cfg (item\<lparr>pi_retries := Suc n\<rparr>) (Suc n) v' =
        (backoff_trace cfg (Suc n) (pc_max_retries cfg)
           @ [Attempt (pc_max_retries cfg), Metric (pi_routing_key item) ''failed'',
              DeadLetter (pi_routing_key item) (pc_max_retries cfg) (OtherError s')], Completed, w')"
        using less.hyps [OF diff_less_mono2 [OF lessI lt], of v'] lt by auto
      then show ?thesis
        using e lt st assms(3) backoff_trace_Cons [OF lt, of cfg]
        by (auto simp: delay_of_def Let_def non_retryable_def)
    qed
  qed
  from this [of 0] show ?thesis using assms(4) by (cases item) (simp add: process_bound_def)
qed

theorem retries_exhausted_dead_letter_witness:
  "\<exists>s w'. process_bound broken_env default_pool_cfg (demo_item ''index'') () =
     ([Attempt 0, Slept 1, Attempt 1, Slept 2, Attempt 2, Slept 4, Attempt 3,
       Metric ''index'' ''failed'', DeadLetter ''index'' 3 (OtherError s)], Completed, w')"
proof -
  have "\<exists>spec. build_routes ''index'' = Some spec"
    by (simp add: build_routes_def route_table_def)
  then have a: "\<forall>v. \<exists>s v'. dispatch_process broken_env build_routes (pi_routing_key (demo_item ''index''))
      (pi_body (demo_item ''index'')) v = (Inl (OtherError s), v')"
    by (auto simp: dispatch_process_def demo_item_def broken_env_def)
  have b: "\<forall>d v. \<not> fst (de_stop_wait broken_env d v)" by (simp add: broken_env_def)
  have c: "pc_retry_delays default_pool_cfg \<noteq> []" "pi_retries (demo_item ''index'') = 0"
    by (simp_all add: default_pool_cfg_def demo_item_def)
  have t: "backoff_trace default_pool_cfg 0 3 =
      [Attempt 0, Slept 1, Attempt 1, Slept 2, Attempt 2, Slept 4]"
    by (simp add: backoff_trace_def default_pool_cfg_def delay_of_def upt_rec)
  have k: "pi_routing_key (demo_item ''index'') = ''index''" "pc_max_retries default_pool_cfg = 3"
    by (simp_all add: demo_item_def default_pool_cfg_def)
  from retries_exhausted_dead_letter [OF a b c, of "()", unfolded k t] show ?thesis by simp
qed

text \<open>
  Errors that cannot get better are not retried. If the first attempt raises a validation error,
  a timeout or an unknown key, it is the only attempt: an unknown key is counted and forgotten, the
  others are dead-lettered with no retries. A handler that overran its budget is a timeout even if
  it produced a result, so its reply is never sent.
\<close>

theorem non_retryable_once:
  assumes "dispatch_process env build_routes (pi_routing_key item) (pi_body item) w = (res, w')"
    and "pi_retries item = 0"
  shows "(res = Inl (UnknownRoutingKey k) \<longrightarrow> process_bound env cfg item w =
            ([Attempt 0, Metric (pi_routing_key item) ''unknown''], Completed, w'))
    \<and> (res \<in> {Inl ValidationError, Inl TaskTimeout} \<longrightarrow> process_bound env cfg item w =
            ([Attempt 0, Metric (pi_routing_key item) ''failed'',
              DeadLetter (pi_routing_key item) 0 (projl res)], Completed, w'))
    \<and> (res = Inr reply \<longrightarrow> 0 < pc_task_timeout cfg
         \<longrightarrow> de_monotonic env w + pc_task_timeout cfg \<le> de_monotonic env w' \<longrightarrow>
         process_bound env cfg item w =
            ([Attempt 0, Metric (pi_routing_key item) ''failed'',
              DeadLetter (pi_routing_key item) 0 TaskTimeout], Completed, w'))"
proof (intro conjI impI)
  assume "res = Inl (UnknownRoutingKey k)"
  then have "attempt_once env cfg item w = (Inl (UnknownRoutingKey k), w')"
    using assms(1) by (simp add: attempt_once_def)
  then show "process_bound env cfg item w =
      ([Attempt 0, Metric (pi_routing_key item) ''unknown''], Completed, w')"
    by (simp add: process_bound_def process_from.simps)
next
  assume r: "res \<in> {Inl ValidationError, Inl TaskTimeout}"
  then have "attempt_once env cfg item w = (res, w')"
    using assms(1) by (auto simp: attempt_once_def)
  then show "process_bound env cfg item w = ([Attempt 0, Metric (pi_routing_key item) ''failed'',
      DeadLetter (pi_routing_key item) 0 (projl res)], Completed, w')"
    using r assms(2) by (auto simp: process_bound_def process_from.simps non_retryable_def fail_def)
next
  assume "res = Inr reply" "0 < pc_task_timeout cfg"
    "de_monotonic env w + pc_task_timeout cfg \<le> de_monotonic env w'"
  then have "attempt_once env cfg item w = (Inl TaskTimeout, w')"
    using assms(1) by (simp add: attempt_once_def watchdog_fired_def)
  then show "process_bound env cfg item w = ([Attempt 0, Metric (pi_routing_key item) ''failed'',
      DeadLetter (pi_routing_key item) 0 TaskTimeout], Completed, w')"
    using assms(2) by (simp add: process_bound_def process_from.simps non_retryable_def fail_def)
qed

theorem non_retryable_once_witness:
  "process_bound broken_env default_pool_cfg (demo_item ''nope'') () =
     ([Attempt 0, Metric ''nope'' ''unknown''], Completed, ())"
proof -
  have a: "dispatch_process broken_env build_routes (pi_routing_key (demo_item ''nope''))
      (pi_body (demo_item ''nope'')) () = (Inl (UnknownRoutingKey ''nope''), ())"
    by (simp add: dispatch_process_def build_routes_def route_table_def demo_item_def)
  have b: "pi_retries (demo_item ''nope'') = 0" by (simp add: demo_item_def)
  have "process_bound broken_env default_pool_cfg (demo_item ''nope'') () =
      ([Attempt 0, Metric (pi_routing_key (demo_item ''nope'')) ''unknown''], Completed, ())"
    by (rule non_retryable_once [OF a b, THEN conjunct1, THEN mp, OF refl])
  then show ?thesis by (simp add: demo_item_def)
qed

section \<open>Who gets an answer\<close>

text \<open>The six keys whose route has no serializer.\<close>

lemma map_of_keys_with:
  assumes "distinct (map fst t)"
  shows "{k. \<exists>v. map_of t k = Some v \<and> p v} = set (map fst (filter (\<lambda>(k, v). p v) t))"
  using assms by (force simp: map_of_eq_Some_iff)

lemma distinct_routes: "distinct (map fst route_table)"
  by code_simp

lemma unanswered_routes: "map fst (filter (\<lambda>(k, s). rs_serializer s = None) route_table) =
    [''train_models'', ''namespace_finder'', ''remove_models'', ''get_model_info'', ''noop_sleep'',
     ''noop_fail'']"
  by (simp add: route_table_def RouteSpec_def)

lemma routes_without_reply:
  "{k. \<exists>spec. build_routes k = Some spec \<and> rs_serializer spec = None} =
     {''train_models'', ''namespace_finder'', ''remove_models'', ''get_model_info'', ''noop_sleep'',
      ''noop_fail''}"
  unfolding build_routes_def map_of_keys_with [OF distinct_routes] unanswered_routes by simp

lemma publish_reply_Reply:
  "Reply q c b \<in> set (publish_reply cfg item reply) \<Longrightarrow>
     pi_reply_to item = Some q \<and> q \<noteq> [] \<and> c = pi_correlation_id item"
  by (auto simp: publish_reply_def split: option.splits if_splits)

lemma publish_reply_Result:
  "PublishResult x k b a \<in> set (publish_reply cfg item reply) \<Longrightarrow>
     (pi_reply_to item = None \<or> pi_reply_to item = Some [])
     \<and> pi_routing_key item \<in> {''analyze'', ''analyze_item_early''}
     \<and> x \<noteq> [] \<and> x = pc_result_exchange cfg \<and> b \<notin> {''[]'', ''''}"
proof (cases reply)
  case (Some body)
  assume h: "PublishResult x k b a \<in> set (publish_reply cfg item reply)"
  let ?c = "pi_routing_key item \<in> set RESULT_QUEUE_ROUTES \<and> pc_result_exchange cfg \<noteq> [] \<and> body \<notin> {''[]'', ''''}"
  have r: "pi_reply_to item = None \<or> pi_reply_to item = Some []"
    using h Some by (auto simp: publish_reply_def split: option.splits if_splits)
  then have "?c \<and> x = pc_result_exchange cfg \<and> b = body"
    using h Some by (cases ?c) (auto simp: publish_reply_def)
  then show ?thesis using r by (auto simp: RESULT_QUEUE_ROUTES_def)
qed (simp add: publish_reply_def)

lemma attempt_reply_route:
  assumes "attempt_once env cfg item v = (Inr (Some b), v')"
  shows "\<exists>spec. build_routes (pi_routing_key item) = Some spec \<and> rs_serializer spec \<noteq> None"
  using assms
  by (auto simp: attempt_once_def dispatch_process_def split: option.splits sum.splits prod.splits if_splits)

text \<open>
  The two reply contracts are kept apart. An RPC reply goes only to a sender that named a reply
  queue, with its correlation id; a result is published to the exchange only for a sender that
  named none, only for the two analyze keys, only if an exchange is configured and never for an
  empty list; and the six routes without a serializer are never answered in either way.
\<close>

theorem answers_follow_contract:
  assumes "process_bound env cfg item w = (effs, st, w')" and "pi_retries item = 0"
  shows "(\<forall>q c b. Reply q c b \<in> set effs \<longrightarrow>
            pi_reply_to item = Some q \<and> q \<noteq> [] \<and> c = pi_correlation_id item)
    \<and> (\<forall>x k b a. PublishResult x k b a \<in> set effs \<longrightarrow>
            (pi_reply_to item = None \<or> pi_reply_to item = Some [])
            \<and> pi_routing_key item \<in> {''analyze'', ''analyze_item_early''}
            \<and> x \<noteq> [] \<and> x = pc_result_exchange cfg \<and> b \<notin> {''[]'', ''''})
    \<and> (how_many is_answer effs \<noteq> 0 \<longrightarrow> pi_routing_key item \<notin>
          {''train_models'', ''namespace_finder'', ''remove_models'', ''get_model_info'',
           ''noop_sleep'', ''noop_fail''})"
proof -
  obtain m tail where m: "effs = backoff_trace cfg 0 m @ Attempt m # tail"
    "ending env cfg (item\<lparr>pi_retries := m\<rparr>) m tail st"
    using process_from_trace [OF assms(1) [unfolded process_bound_def] _ assms(2)] by auto
  have "Reply q c b \<notin> set (backoff_trace cfg 0 m)" "PublishResult x k b a \<notin> set (backoff_trace cfg 0 m)"
    for q c b x k a by (auto simp: backoff_trace_def)
  then have mem: "Reply q c b \<in> set effs \<longleftrightarrow> Reply q c b \<in> set tail"
    "PublishResult x k b a \<in> set effs \<longleftrightarrow> PublishResult x k b a \<in> set tail" for q c b x k a
    unfolding m(1) by simp_all
  have cnt: "how_many is_answer effs = how_many is_answer tail"
    unfolding m(1) by (simp add: backoff_trace_counts)
  show ?thesis
  proof (cases "\<exists>reply v v'. attempt_once env cfg (item\<lparr>pi_retries := m\<rparr>) v = (Inr reply, v')
      \<and> tail = publish_reply cfg (item\<lparr>pi_retries := m\<rparr>) reply @ [Metric (pi_routing_key item) ''success'']")
    case True
    then obtain reply v v' where r: "attempt_once env cfg (item\<lparr>pi_retries := m\<rparr>) v = (Inr reply, v')"
      "tail = publish_reply cfg (item\<lparr>pi_retries := m\<rparr>) reply @ [Metric (pi_routing_key item) ''success'']"
      by blast
    have key: "pi_routing_key item \<notin> {''train_models'', ''namespace_finder'', ''remove_models'',
        ''get_model_info'', ''noop_sleep'', ''noop_fail''}" if "reply = Some x" for x
      using attempt_reply_route [of env cfg "item\<lparr>pi_retries := m\<rparr>" v x v'] r(1) that
      unfolding routes_without_reply [symmetric] by auto
    have c0: "reply = None \<Longrightarrow> how_many is_answer tail = 0" by (simp add: r(2) publish_reply_def)
    have i1: "Reply q c b \<in> set tail \<Longrightarrow>
        pi_reply_to item = Some q \<and> q \<noteq> [] \<and> c = pi_correlation_id item" for q c b
      using publish_reply_Reply [of q c b cfg "item\<lparr>pi_retries := m\<rparr>" reply] by (simp add: r(2))
    have i2: "PublishResult x k b a \<in> set tail \<Longrightarrow>
        (pi_reply_to item = None \<or> pi_reply_to item = Some [])
        \<and> pi_routing_key item \<in> {''analyze'', ''analyze_item_early''}
        \<and> x \<noteq> [] \<and> x = pc_result_exchange cfg \<and> b \<notin> {''[]'', ''''}" for x k b a
    proof -
      assume "PublishResult x k b a \<in> set tail"
      then have "PublishResult x k b a \<in> set (publish_reply cfg (item\<lparr>pi_retries := m\<rparr>) reply)"
        by (simp add: r(2))
      from publish_reply_Result [OF this] show ?thesis by auto
    qed
    have i3: "how_many is_answer tail \<noteq> 0 \<Longrightarrow> pi_routing_key item \<notin> {''train_models'',
        ''namespace_finder'', ''remove_models'', ''get_model_info'', ''noop_sleep'', ''noop_fail''}"
    proof -
      assume "how_many is_answer tail \<noteq> 0"
      then obtain x where "reply = Some x" using c0 by (cases reply) simp_all
      then show ?thesis by (rule key)
    qed
    show ?thesis unfolding mem cnt using i1 i2 i3 by (intro conjI allI impI) blast+
  next
    case False
    then have "how_many is_answer tail = 0 \<and> (\<forall>q c b. Reply q c b \<notin> set tail)
        \<and> (\<forall>x k b a. PublishResult x k b a \<notin> set tail)"
      using m(2) unfolding ending_def by (auto simp: fail_def)
    then show ?thesis unfolding mem cnt by simp
  qed
qed

theorem answers_follow_contract_witness:
  "\<exists>effs st w'. process_bound (broken_env\<lparr>de_handler := (\<lambda>_ _ w. (Inr (Some ()), w))\<rparr>) default_pool_cfg
      (demo_item ''train_models'') () = (effs, st, w') \<and> how_many is_answer effs = 0"
proof -
  let ?env = "broken_env\<lparr>de_handler := (\<lambda>_ _ w. (Inr (Some ()), w))\<rparr>"
  obtain effs st w' where r: "process_bound ?env default_pool_cfg (demo_item ''train_models'') () = (effs, st, w')"
    by (metis prod_cases3)
  have i: "pi_retries (demo_item ''train_models'') = 0" "pi_routing_key (demo_item ''train_models'') = ''train_models''"
    by (simp_all add: demo_item_def)
  have "how_many is_answer effs = 0"
    using answers_follow_contract [OF r i(1), THEN conjunct2, THEN conjunct2] unfolding i(2) by auto
  with r show ?thesis by blast
qed

section \<open>The order of the queue\<close>

text \<open>\<open>dataclass(order=True)\<close> on \<open>(priority, number)\<close>; the other fields are not compared.\<close>

datatype item_key = ItemKey (key_priority: int) (key_number: int)

instantiation item_key :: linorder
begin

definition less_eq_item_key :: "item_key \<Rightarrow> item_key \<Rightarrow> bool" where
  "less_eq_item_key a b \<longleftrightarrow>
     key_priority a < key_priority b \<or> key_priority a = key_priority b \<and> key_number a \<le> key_number b"

definition less_item_key :: "item_key \<Rightarrow> item_key \<Rightarrow> bool" where
  "less_item_key a b \<longleftrightarrow>
     key_priority a < key_priority b \<or> key_priority a = key_priority b \<and> key_number a < key_number b"

instance
  by standard (auto simp: less_eq_item_key_def less_item_key_def item_key.expand)

end

definition item_key :: "'b processing_item \<Rightarrow> item_key" where
  "item_key it = ItemKey (pi_priority it) (pi_number it)"

section \<open>The worker pool\<close>

text \<open>
  A worker is about to test the stop flag, blocked in \<open>get\<close>, busy with an item, or has left its
  loop. \<open>wp_started\<close> and \<open>wp_done\<close> list the items in the order they were started and finished.
\<close>

datatype 'b phase = AtCheck | InGet | Busy "'b processing_item" | Exited

record 'b worker_pool =
  wp_queue :: "'b processing_item list"
  wp_phases :: "'b phase list"
  wp_stop :: bool
  wp_started :: "'b processing_item list"
  wp_done :: "'b processing_item list"

definition pool_init :: "nat \<Rightarrow> 'b worker_pool" where
  "pool_init workers = \<lparr>wp_queue = [], wp_phases = replicate (max 1 workers) AtCheck, wp_stop = False,
                        wp_started = [], wp_done = []\<rparr>"

text \<open>\<open>PriorityQueue.put\<close> blocks on a full queue; a bound of zero means no bound.\<close>

definition may_put :: "nat \<Rightarrow> 'b worker_pool \<Rightarrow> bool" where
  "may_put queue_size p \<longleftrightarrow> queue_size = 0 \<or> length (wp_queue p) < queue_size"

definition set_phase :: "nat \<Rightarrow> 'b phase \<Rightarrow> 'b worker_pool \<Rightarrow> 'b worker_pool" where
  "set_phase i ph p = p\<lparr>wp_phases := (wp_phases p)[i := ph]\<rparr>"

inductive pool_step :: "nat \<Rightarrow> 'b worker_pool \<Rightarrow> 'b worker_pool \<Rightarrow> bool" for queue_size where
  submit: "may_put queue_size p \<Longrightarrow> pool_step queue_size p (p\<lparr>wp_queue := wp_queue p @ [it]\<rparr>)"
| check_go: "i < length (wp_phases p) \<Longrightarrow> wp_phases p ! i = AtCheck \<Longrightarrow> \<not> wp_stop p
    \<Longrightarrow> pool_step queue_size p (set_phase i InGet p)"
| check_stop: "i < length (wp_phases p) \<Longrightarrow> wp_phases p ! i = AtCheck \<Longrightarrow> wp_stop p
    \<Longrightarrow> pool_step queue_size p (set_phase i Exited p)"
| get_empty: "i < length (wp_phases p) \<Longrightarrow> wp_phases p ! i = InGet \<Longrightarrow> wp_queue p = []
    \<Longrightarrow> pool_step queue_size p (set_phase i AtCheck p)"
| get_item: "i < length (wp_phases p) \<Longrightarrow> wp_phases p ! i = InGet \<Longrightarrow> it \<in> set (wp_queue p)
    \<Longrightarrow> \<forall>x \<in> set (wp_queue p). item_key it \<le> item_key x
    \<Longrightarrow> pool_step queue_size p
          (set_phase i (Busy it) (p\<lparr>wp_queue := remove1 it (wp_queue p), wp_started := wp_started p @ [it]\<rparr>))"
| finish: "i < length (wp_phases p) \<Longrightarrow> wp_phases p ! i = Busy it
    \<Longrightarrow> pool_step queue_size p (set_phase i AtCheck (p\<lparr>wp_done := wp_done p @ [it]\<rparr>))"
| shutdown: "pool_step queue_size p (p\<lparr>wp_stop := True\<rparr>)"

inductive_cases pool_stepE: "pool_step queue_size p p'"

abbreviation pool_reaches :: "nat \<Rightarrow> 'b worker_pool \<Rightarrow> 'b worker_pool \<Rightarrow> bool" where
  "pool_reaches queue_size \<equiv> (pool_step queue_size)^**"

fun in_hand :: "'b phase \<Rightarrow> 'b processing_item list" where
  "in_hand (Busy it) = [it]" | "in_hand _ = []"

definition running :: "'b worker_pool \<Rightarrow> 'b processing_item list" where
  "running p = concat (map in_hand (wp_phases p))"

fun getting :: "'b phase \<Rightarrow> bool" where
  "getting InGet = True" | "getting _ = False"

definition n_getting :: "'b worker_pool \<Rightarrow> nat" where
  "n_getting p = length (filter getting (wp_phases p))"

lemma concat_update_mset:
  "i < length xs \<Longrightarrow> mset (concat (map f (xs[i := y]))) + mset (f (xs ! i)) = mset (concat (map f xs)) + mset (f y)"
proof (induction xs arbitrary: i)
  case (Cons x xs)
  then show ?case by (cases i) (auto simp: ac_simps)
qed simp

lemma filter_update_length:
  "i < length xs \<Longrightarrow> length (filter q (xs[i := y])) + (if q (xs ! i) then 1 else 0)
     = length (filter q xs) + (if q y then 1 else 0)"
proof (induction xs arbitrary: i)
  case (Cons x xs)
  then show ?case by (cases i) auto
qed simp

definition pool_ok :: "nat \<Rightarrow> nat \<Rightarrow> 'b worker_pool \<Rightarrow> bool" where
  "pool_ok queue_size workers p \<longleftrightarrow>
     length (wp_phases p) = max 1 workers \<and> (queue_size \<noteq> 0 \<longrightarrow> length (wp_queue p) \<le> queue_size)
     \<and> mset (wp_started p) = mset (running p) + mset (wp_done p)"

lemma pool_ok_step:
  assumes "pool_ok queue_size workers p" and "pool_step queue_size p p'"
  shows "pool_ok queue_size workers p'"
  using assms(2)
proof cases
  case (submit it)
  then show ?thesis using assms(1) by (auto simp: pool_ok_def may_put_def running_def)
next
  case (check_go i)
  then show ?thesis using assms(1) concat_update_mset [of i "wp_phases p" in_hand InGet]
    by (simp add: pool_ok_def set_phase_def running_def)
next
  case (check_stop i)
  then show ?thesis using assms(1) concat_update_mset [of i "wp_phases p" in_hand Exited]
    by (simp add: pool_ok_def set_phase_def running_def)
next
  case (get_empty i)
  then show ?thesis using assms(1) concat_update_mset [of i "wp_phases p" in_hand AtCheck]
    by (simp add: pool_ok_def set_phase_def running_def)
next
  case (get_item i it)
  then show ?thesis using assms(1) concat_update_mset [of i "wp_phases p" in_hand "Busy it"]
    by (auto simp: pool_ok_def set_phase_def running_def length_remove1)
next
  case (finish i it)
  then show ?thesis using assms(1) concat_update_mset [of i "wp_phases p" in_hand AtCheck]
    by (simp add: pool_ok_def set_phase_def running_def)
next
  case shutdown
  then show ?thesis using assms(1) by (simp add: pool_ok_def running_def)
qed

lemma pool_ok_init: "pool_ok queue_size workers (pool_init workers)"
  by (simp add: pool_ok_def pool_init_def running_def concat_eq_Nil_conv)

lemma pool_ok_reaches:
  assumes "pool_reaches queue_size p p'" and "pool_ok queue_size workers p"
  shows "pool_ok queue_size workers p'"
  using assms by (induction rule: rtranclp_induct) (auto intro: pool_ok_step)

lemma running_length: "length (running p) \<le> length (wp_phases p)"
proof -
  have "length (concat (map in_hand ps)) \<le> length ps" for ps :: "'b phase list"
  proof (induction ps)
    case (Cons ph ps)
    then show ?case by (cases ph) auto
  qed simp
  then show ?thesis by (simp add: running_def)
qed

text \<open>The starts still possible after the stop request.\<close>

lemma stop_step:
  assumes "wp_stop p" and "pool_step queue_size p p'"
  shows "wp_stop p' \<and> (\<exists>more. wp_started p' = wp_started p @ more
     \<and> length more + n_getting p' \<le> n_getting p)"
  using assms(2)
proof cases
  case (get_empty i)
  then show ?thesis using assms(1) filter_update_length [of i "wp_phases p" getting AtCheck]
    by (simp add: set_phase_def n_getting_def)
next
  case (get_item i it)
  then show ?thesis using assms(1) filter_update_length [of i "wp_phases p" getting "Busy it"]
    by (simp add: set_phase_def n_getting_def)
next
  case (check_stop i)
  then show ?thesis using assms(1) filter_update_length [of i "wp_phases p" getting Exited]
    by (simp add: set_phase_def n_getting_def)
next
  case (finish i it)
  then show ?thesis using assms(1) filter_update_length [of i "wp_phases p" getting AtCheck]
    by (simp add: set_phase_def n_getting_def)
qed (use assms(1) in \<open>auto simp: n_getting_def\<close>)

lemma stop_reaches:
  assumes "pool_reaches queue_size p p'" and "wp_stop p"
  shows "wp_stop p' \<and> (\<exists>more. wp_started p' = wp_started p @ more
     \<and> length more + n_getting p' \<le> n_getting p)"
  using assms
proof (induction rule: rtranclp_induct)
  case base
  then show ?case by simp
next
  case (step y z)
  then obtain m1 where m1: "wp_started y = wp_started p @ m1" "length m1 + n_getting y \<le> n_getting p"
    "wp_stop y" by blast
  obtain m2 where m2: "wp_started z = wp_started y @ m2" "length m2 + n_getting z \<le> n_getting y"
    "wp_stop z" using stop_step [OF m1(3) step(2)] by blast
  show ?case using m1 m2 by (intro conjI exI [of _ "m1 @ m2"]) auto
qed

text \<open>
  C21. The worker pool, under every interleaving. The queue never exceeds its bound, at most the
  configured number of items run at once, every started item is running or finished exactly once,
  and once shutdown is requested at most one more item is started per worker that was already
  waiting for one.
\<close>

theorem worker_pool_safety:
  assumes "pool_reaches queue_size (pool_init workers) p"
  shows "(queue_size \<noteq> 0 \<longrightarrow> length (wp_queue p) \<le> queue_size)
    \<and> length (running p) \<le> max 1 workers
    \<and> mset (wp_started p) = mset (running p) + mset (wp_done p)
    \<and> (wp_stop p \<longrightarrow> pool_reaches queue_size p p' \<longrightarrow>
         (\<exists>more. wp_started p' = wp_started p @ more \<and> length more \<le> n_getting p
            \<and> n_getting p \<le> max 1 workers))"
proof -
  have ok: "pool_ok queue_size workers p" by (rule pool_ok_reaches [OF assms pool_ok_init])
  have g: "n_getting p \<le> length (wp_phases p)" by (simp add: n_getting_def)
  have "\<exists>more. wp_started p' = wp_started p @ more \<and> length more \<le> n_getting p"
    if "wp_stop p" "pool_reaches queue_size p p'"
  proof -
    from stop_reaches [OF that(2,1)] obtain more where
      "wp_started p' = wp_started p @ more" "length more + n_getting p' \<le> n_getting p" by blast
    then show ?thesis by (intro exI [of _ more]) simp
  qed
  then show ?thesis using ok g running_length [of p] by (auto simp: pool_ok_def)
qed

theorem worker_pool_safety_witness:
  "pool_reaches 100 (pool_init 2) ((pool_init 2)\<lparr>wp_queue := [demo_item ''index'']\<rparr>)
   \<and> length (running ((pool_init 2)\<lparr>wp_queue := [demo_item ''index'']\<rparr>)) \<le> 2"
proof -
  have "pool_step 100 (pool_init 2) ((pool_init 2)\<lparr>wp_queue := wp_queue (pool_init 2) @ [demo_item ''index'']\<rparr>)"
    by (rule pool_step.submit) (simp add: may_put_def pool_init_def)
  then have r: "pool_reaches 100 (pool_init 2) ((pool_init 2)\<lparr>wp_queue := [demo_item ''index'']\<rparr>)"
    by (simp add: pool_init_def)
  have two: "max 1 2 = (2::nat)" by simp
  have "length (running ((pool_init 2)\<lparr>wp_queue := [demo_item ''index'']\<rparr>)) \<le> max 1 2"
    by (rule worker_pool_safety [OF r, THEN conjunct2, THEN conjunct1])
  with r show ?thesis unfolding two by (rule conjI)
qed

section \<open>No overtaking\<close>

text \<open>A run without new submissions.\<close>

inductive draining :: "nat \<Rightarrow> 'b worker_pool \<Rightarrow> 'b processing_item list \<Rightarrow> 'b worker_pool \<Rightarrow> bool"
  for queue_size p where
  stay: "draining queue_size p [] p"
| other: "draining queue_size p xs q \<Longrightarrow> pool_step queue_size q q' \<Longrightarrow> wp_queue q' = wp_queue q
    \<Longrightarrow> draining queue_size p xs q'"
| take: "draining queue_size p xs q \<Longrightarrow> pool_step queue_size q q' \<Longrightarrow> wp_started q' = wp_started q @ [it]
    \<Longrightarrow> draining queue_size p (xs @ [it]) q'"

lemma take_step:
  assumes "pool_step queue_size q q'" and "wp_started q' = wp_started q @ [it]"
  shows "it \<in> set (wp_queue q) \<and> (\<forall>x \<in> set (wp_queue q). item_key it \<le> item_key x)
    \<and> wp_queue q' = remove1 it (wp_queue q)"
  using assms by (cases rule: pool_step.cases) (auto simp: set_phase_def)

text \<open>
  Oldest first. While nothing new arrives, the items leave the queue in the order of
  \<open>(timestamp, arrival number)\<close>: the keys of the started items are sorted, and none of them is
  larger than the key of an item still waiting.
\<close>

theorem queue_order:
  assumes "draining queue_size p xs q"
  shows "sorted (map item_key xs)
    \<and> (\<forall>x \<in> set xs. \<forall>y \<in> set (wp_queue q). item_key x \<le> item_key y)
    \<and> mset (wp_queue p) = mset xs + mset (wp_queue q)"
  using assms
proof (induction rule: draining.induct)
  case stay
  then show ?case by simp
next
  case (other xs q q')
  then show ?case by simp
next
  case (take xs q q' it)
  note tk = take_step [OF take.hyps(2,3)]
  note t = tk [THEN conjunct1] tk [THEN conjunct2, THEN conjunct1] tk [THEN conjunct2, THEN conjunct2]
  have sub: "set (wp_queue q') \<subseteq> set (wp_queue q)" unfolding t(3) by (rule set_remove1_subset)
  have m: "mset (wp_queue q) = add_mset it (mset (wp_queue q'))" using t(1) by (simp add: t(3))
  have le: "\<forall>x \<in> set xs. item_key x \<le> item_key it" using take.IH t(1) by blast
  have "sorted (map item_key (xs @ [it]))" using take.IH le by (simp add: sorted_append)
  moreover have "\<forall>x \<in> set (xs @ [it]). \<forall>y \<in> set (wp_queue q'). item_key x \<le> item_key y"
    using take.IH t(2) sub by auto
  moreover have "mset (wp_queue p) = mset (xs @ [it]) + mset (wp_queue q')"
    using take.IH by (simp add: m)
  ultimately show ?case by (intro conjI)
qed

theorem queue_order_witness:
  "draining 9 ((pool_init 1)\<lparr>wp_queue := [demo_item ''index''], wp_phases := [InGet]\<rparr>) [demo_item ''index'']
     (set_phase 0 (Busy (demo_item ''index'')) ((pool_init 1)\<lparr>wp_queue := [], wp_phases := [InGet],
        wp_started := [demo_item ''index'']\<rparr>))
   \<and> sorted (map item_key [demo_item ''index''])"
proof -
  let ?p = "(pool_init 1)\<lparr>wp_queue := [demo_item ''index''], wp_phases := [InGet]\<rparr>"
  let ?q = "set_phase 0 (Busy (demo_item ''index'')) ((pool_init 1)\<lparr>wp_queue := [], wp_phases := [InGet],
        wp_started := [demo_item ''index'']\<rparr>)"
  have "pool_step 9 ?p (set_phase 0 (Busy (demo_item ''index''))
      (?p\<lparr>wp_queue := remove1 (demo_item ''index'') (wp_queue ?p),
          wp_started := wp_started ?p @ [demo_item ''index'']\<rparr>))"
    by (rule pool_step.get_item) simp_all
  moreover have "set_phase 0 (Busy (demo_item ''index''))
      (?p\<lparr>wp_queue := remove1 (demo_item ''index'') (wp_queue ?p),
          wp_started := wp_started ?p @ [demo_item ''index'']\<rparr>) = ?q"
    by (simp add: pool_init_def set_phase_def)
  ultimately have s: "pool_step 9 ?p ?q" by simp
  have "draining 9 ?p ([] @ [demo_item ''index'']) ?q"
    by (rule draining.take [OF draining.stay s]) (simp add: pool_init_def set_phase_def)
  then have d: "draining 9 ?p [demo_item ''index''] ?q" by simp
  from queue_order [OF d] d show ?thesis by blast
qed

end
