(* ===== verification/Transport.thy ===== *)
theory Transport
  imports Dispatcher LlmApply "HOL-Library.Sublist"
begin

text \<open>
  The edges of the service on RabbitMQ: the reply publisher, the connection with its backoff and the
  declaration of the exchange (\<open>amqp/client.py\<close>), and the two consumers (\<open>amqp/consumer.py\<close>).

  The broker is an argument: how each call of pika ends (\<open>op_result\<close>), and how long a connection attempt
  takes. An attempt to publish is the sequence of calls the code makes; the outbound queue and its
  thread are a step relation; a consumer turns a delivery into the calls it makes, in order.
\<close>

section \<open>Publishing one message\<close>

text \<open>\<open>ConnLost\<close> is pika's \<open>AMQPConnectionError\<close>, \<open>ChannelClosed\<close> its \<open>ChannelClosedByBroker\<close>: these two
  are caught. \<open>OtherFailure\<close> is everything else, the \<open>AmqpConnectionError\<close> of an exhausted retry budget
  included.\<close>

datatype op_result = OpOk | ConnLost | ChannelClosed | OtherFailure

datatype outbound =
    ReplyOut string string string
  | ResultOut string string string "(string \<times> string) list"
  | DeadOut string "(string \<times> string) list"

text \<open>One attempt: connecting, opening a channel, declaring, publishing; whether the broker has got the
  message although publishing raised; whether the channel is open afterwards, and closing it.\<close>

record attempt =
  at_connect :: op_result
  at_channel :: op_result
  at_declare :: op_result
  at_publish :: op_result
  at_reached :: bool
  at_open :: bool
  at_close :: op_result

definition declares_first :: "outbound \<Rightarrow> bool" where
  "declares_first m = (case m of ReplyOut _ _ _ \<Rightarrow> False | ResultOut _ _ _ _ \<Rightarrow> True | DeadOut _ _ \<Rightarrow> True)"

definition send_on_channel :: "outbound \<Rightarrow> attempt \<Rightarrow> op_result \<times> nat" where
  "send_on_channel m a =
     (if declares_first m \<and> at_declare a \<noteq> OpOk then (at_declare a, 0)
      else (at_publish a, if at_publish a = OpOk \<or> at_reached a then 1 else 0))"

text \<open>How the attempt ends, and the copies the broker has got. What closing the channel raises replaces
  what was raised before.\<close>

definition publish_attempt :: "outbound \<Rightarrow> attempt \<Rightarrow> op_result \<times> nat" where
  "publish_attempt m a =
     (if at_connect a \<noteq> OpOk then (at_connect a, 0)
      else if at_channel a \<noteq> OpOk then (at_channel a, 0)
      else (case send_on_channel m a of
              (r, n) \<Rightarrow> (if at_open a \<and> at_close a \<noteq> OpOk then at_close a else r, n)))"

definition caught :: "op_result \<Rightarrow> bool" where
  "caught r \<longleftrightarrow> r = ConnLost \<or> r = ChannelClosed"

definition publish :: "outbound \<Rightarrow> attempt \<Rightarrow> attempt \<Rightarrow> op_result \<times> nat" where
  "publish m a1 a2 =
     (case publish_attempt m a1 of
        (r1, n1) \<Rightarrow>
          if r1 = OpOk then (OpOk, n1)
          else if \<not> caught r1 then (r1, n1)
          else (case publish_attempt m a2 of (r2, n2) \<Rightarrow> (r2, n1 + n2)))"

lemma attempt_copies: "snd (publish_attempt m a) \<le> 1"
  by (auto simp: publish_attempt_def send_on_channel_def)

lemma attempt_ok: "publish_attempt m a = (OpOk, n) \<Longrightarrow> n = 1"
  by (auto simp: publish_attempt_def send_on_channel_def split: if_splits)

text \<open>
  A message the publisher reports as sent reached the broker, once or twice: twice only when the
  first attempt raised after the broker already had it. One whose sending failed for good may have
  reached it all the same.
\<close>

theorem publish_at_least_once:
  assumes "publish m a1 a2 = (r, n)"
  shows "n \<le> 2 \<and> (r = OpOk \<longrightarrow> 1 \<le> n)
    \<and> (n = 2 \<longrightarrow> publish_attempt m a1 \<in> {(ConnLost, 1), (ChannelClosed, 1)})
    \<and> (fst (publish_attempt m a1) = OpOk \<longrightarrow> (r, n) = (OpOk, 1))"
  using assms attempt_copies [of m a1] attempt_copies [of m a2] attempt_ok [of m a1] attempt_ok [of m a2]
  by (auto simp: publish_def caught_def split: prod.splits if_splits)

definition good_attempt :: attempt where
  "good_attempt = \<lparr>at_connect = OpOk, at_channel = OpOk, at_declare = OpOk, at_publish = OpOk,
     at_reached = True, at_open = True, at_close = OpOk\<rparr>"

text \<open>The channel of the first attempt breaks while it is closed, after the reply has gone out.\<close>

theorem publish_at_least_once_witness:
  "snd (publish (ReplyOut ''q'' ''c'' ''[]'') (good_attempt\<lparr>at_close := ConnLost\<rparr>) good_attempt) = 2
   \<and> snd (publish (ReplyOut ''q'' ''c'' ''[]'') (good_attempt\<lparr>at_close := ConnLost\<rparr>) good_attempt) \<le> 2"
proof -
  have p: "publish (ReplyOut ''q'' ''c'' ''[]'') (good_attempt\<lparr>at_close := ConnLost\<rparr>) good_attempt = (OpOk, 2)"
    by (simp add: publish_def publish_attempt_def send_on_channel_def declares_first_def caught_def
        good_attempt_def)
  show ?thesis using publish_at_least_once [OF p] p by simp
qed

section \<open>The outbound queue\<close>

text \<open>\<open>None\<close> is the sentinel \<open>shutdown\<close> puts. \<open>pb_put\<close> and \<open>pb_sent\<close> are what was ever put and what was
  handed to \<open>publish\<close>, oldest first.\<close>

record publisher =
  pb_outbox :: "outbound option list"
  pb_stop :: bool
  pb_exited :: bool
  pb_put :: "outbound list"
  pb_sent :: "outbound list"

definition publisher_init :: publisher where
  "publisher_init = \<lparr>pb_outbox = [], pb_stop = False, pb_exited = False, pb_put = [], pb_sent = []\<rparr>"

inductive publisher_step :: "publisher \<Rightarrow> publisher \<Rightarrow> bool" where
  put: "publisher_step p (p\<lparr>pb_outbox := pb_outbox p @ [Some m], pb_put := pb_put p @ [m]\<rparr>)"
| stopping: "publisher_step p (p\<lparr>pb_stop := True\<rparr>)"
| sentinel: "pb_stop p \<Longrightarrow> publisher_step p (p\<lparr>pb_outbox := pb_outbox p @ [None]\<rparr>)"
| empty_exit: "\<not> pb_exited p \<Longrightarrow> pb_outbox p = [] \<Longrightarrow> pb_stop p
    \<Longrightarrow> publisher_step p (p\<lparr>pb_exited := True\<rparr>)"
| sentinel_exit: "\<not> pb_exited p \<Longrightarrow> pb_outbox p = [None] \<Longrightarrow> pb_stop p
    \<Longrightarrow> publisher_step p (p\<lparr>pb_outbox := [], pb_exited := True\<rparr>)"
| sentinel_skip: "\<not> pb_exited p \<Longrightarrow> pb_outbox p = None # q \<Longrightarrow> q \<noteq> [] \<or> \<not> pb_stop p
    \<Longrightarrow> publisher_step p (p\<lparr>pb_outbox := q\<rparr>)"
| send: "\<not> pb_exited p \<Longrightarrow> pb_outbox p = Some m # q
    \<Longrightarrow> publisher_step p (p\<lparr>pb_outbox := q, pb_sent := pb_sent p @ [m]\<rparr>)"

inductive_cases publisher_stepE: "publisher_step p p'"

definition waiting :: "publisher \<Rightarrow> outbound list" where
  "waiting p = List.map_filter id (pb_outbox p)"

definition publisher_ok :: "publisher \<Rightarrow> bool" where
  "publisher_ok p \<longleftrightarrow> pb_sent p @ waiting p = pb_put p \<and> (pb_exited p \<longrightarrow> pb_stop p)"

lemma map_filter_id_simps [simp]:
  "List.map_filter id [] = []" "List.map_filter id (Some m # q) = m # List.map_filter id q"
  "List.map_filter id (None # q) = List.map_filter id q"
  "List.map_filter id (q @ r) = List.map_filter id q @ List.map_filter id r"
  by (simp_all add: List.map_filter_def)

lemma publisher_ok_init: "publisher_ok publisher_init"
  by (simp add: publisher_ok_def publisher_init_def waiting_def)

lemma publisher_ok_step: "publisher_step p p' \<Longrightarrow> publisher_ok p \<Longrightarrow> publisher_ok p'"
  by (induction rule: publisher_step.induct) (auto simp: publisher_ok_def waiting_def)

lemma publisher_ok_steps: "publisher_step\<^sup>*\<^sup>* p p' \<Longrightarrow> publisher_ok p \<Longrightarrow> publisher_ok p'"
  by (induction rule: rtranclp_induct) (auto dest: publisher_ok_step)

text \<open>The step that ends the thread finds nothing left to send.\<close>

lemma exit_step_empty:
  assumes "publisher_step p p'" and "\<not> pb_exited p" and "pb_exited p'"
  shows "waiting p' = []"
  using assms by (induction rule: publisher_step.induct) (auto simp: waiting_def)

lemma exited_only_put:
  assumes "publisher_step\<^sup>*\<^sup>* p p'" and "pb_exited p"
  shows "pb_exited p' \<and> pb_sent p' = pb_sent p"
  using assms
proof (induction rule: rtranclp_induct)
  case (step q r)
  then have "pb_exited q" "pb_sent q = pb_sent p" by simp_all
  with step.hyps(2) show ?case by (induction rule: publisher_step.induct) auto
qed simp

text \<open>
  Replies and dead letters leave in the order they were put, none twice and none overtaken; when the
  publisher's thread ends, after a shutdown only, everything put until then has been sent - also what was
  put behind the sentinel, while the queue was still being emptied.
\<close>

theorem publisher_fifo_drains:
  assumes "publisher_step\<^sup>*\<^sup>* publisher_init p" and "publisher_step p p'"
  shows "prefix (pb_sent p') (pb_put p')
    \<and> (pb_exited p' \<and> \<not> pb_exited p \<longrightarrow> pb_stop p' \<and> pb_sent p' = pb_put p')"
proof -
  have ok: "publisher_ok p'"
    using assms publisher_ok_steps publisher_ok_init publisher_ok_step by blast
  then have e: "pb_put p' = pb_sent p' @ waiting p'" by (simp add: publisher_ok_def)
  then have "prefix (pb_sent p') (pb_put p')" by (rule prefixI)
  then show ?thesis
    using ok e exit_step_empty [OF assms(2)] by (auto simp: publisher_ok_def)
qed

definition demo_reply :: outbound where
  "demo_reply = ReplyOut ''q'' ''c'' ''[]''"

definition stopped_with :: "outbound option list \<Rightarrow> outbound list \<Rightarrow> publisher" where
  "stopped_with q sent = \<lparr>pb_outbox = q, pb_stop = True, pb_exited = False, pb_put = [demo_reply],
     pb_sent = sent\<rparr>"

theorem publisher_fifo_drains_witness:
  "pb_exited ((stopped_with [] [demo_reply])\<lparr>pb_exited := True\<rparr>)
   \<and> prefix (pb_sent ((stopped_with [] [demo_reply])\<lparr>pb_exited := True\<rparr>))
       (pb_put ((stopped_with [] [demo_reply])\<lparr>pb_exited := True\<rparr>))"
proof -
  let ?p0 = "publisher_init\<lparr>pb_stop := True\<rparr>"
  have 1: "publisher_step publisher_init ?p0" by (rule stopping)
  have 2: "publisher_step ?p0 (?p0\<lparr>pb_outbox := [None]\<rparr>)"
    using sentinel [of ?p0] by (simp add: publisher_init_def)
  have 3: "publisher_step (?p0\<lparr>pb_outbox := [None]\<rparr>) (stopped_with [None, Some demo_reply] [])"
    using put [of "?p0\<lparr>pb_outbox := [None]\<rparr>" demo_reply]
    by (simp add: publisher_init_def stopped_with_def)
  have 4: "publisher_step (stopped_with [None, Some demo_reply] []) (stopped_with [Some demo_reply] [])"
    using sentinel_skip [of "stopped_with [None, Some demo_reply] []" "[Some demo_reply]"]
    by (simp add: stopped_with_def)
  have 5: "publisher_step (stopped_with [Some demo_reply] []) (stopped_with [] [demo_reply])"
    using send [of "stopped_with [Some demo_reply] []" demo_reply "[]"] by (simp add: stopped_with_def)
  have 6: "publisher_step (stopped_with [] [demo_reply]) ((stopped_with [] [demo_reply])\<lparr>pb_exited := True\<rparr>)"
    using empty_exit [of "stopped_with [] [demo_reply]"] by (simp add: stopped_with_def)
  have "publisher_step\<^sup>*\<^sup>* publisher_init (stopped_with [] [demo_reply])"
    using 1 2 3 4 5 by (meson converse_rtranclp_into_rtranclp rtranclp.rtrancl_refl)
  from publisher_fifo_drains [OF this 6] show ?thesis by (simp add: stopped_with_def)
qed

section \<open>Connecting with backoff\<close>

record retry_cfg =
  rc_initial :: real
  rc_factor :: real
  rc_max_time :: real

definition MAX_BACKOFF :: real where "MAX_BACKOFF = 60"

text \<open>\<open>outcome k\<close> says whether the \<open>k\<close>-th attempt connects and how long it takes. The result is whether
  there is a connection, the number of the last attempt and the time passed; \<open>None\<close> would be a loop that
  never ends.\<close>

partial_function (option) connect_with_retry ::
    "retry_cfg \<Rightarrow> (nat \<Rightarrow> bool \<times> real) \<Rightarrow> nat \<Rightarrow> real \<Rightarrow> real \<Rightarrow> (bool \<times> nat \<times> real) option" where
  "connect_with_retry cfg outcome k start interval =
     (let (ok, took) = outcome k; elapsed = start + took in
      if ok then Some (True, k, elapsed)
      else if elapsed \<ge> rc_max_time cfg then Some (False, k, elapsed)
      else connect_with_retry cfg outcome (k + 1) (elapsed + interval)
             (min (interval * rc_factor cfg) MAX_BACKOFF))"

definition least_pause :: "retry_cfg \<Rightarrow> real" where
  "least_pause cfg = min (rc_initial cfg) MAX_BACKOFF"

lemma connect_step:
  "connect_with_retry cfg outcome k start interval =
     (if fst (outcome k) then Some (True, k, start + snd (outcome k))
      else if start + snd (outcome k) \<ge> rc_max_time cfg then Some (False, k, start + snd (outcome k))
      else connect_with_retry cfg outcome (k + 1) (start + snd (outcome k) + interval)
             (min (interval * rc_factor cfg) MAX_BACKOFF))"
  by (subst connect_with_retry.simps) (simp add: case_prod_unfold Let_def)

lemma connect_stops:
  assumes "fst (outcome k) \<or> start + snd (outcome k) \<ge> rc_max_time cfg"
  shows "connect_with_retry cfg outcome k start interval =
    Some (fst (outcome k), k, start + snd (outcome k))"
  using assms by (subst connect_step) auto

lemma connect_terminates_from:
  assumes "1 \<le> rc_factor cfg" and "\<And>i. 0 \<le> snd (outcome i)" and "0 < m" and "m \<le> MAX_BACKOFF"
    and "m \<le> interval" and "rc_max_time cfg - start \<le> real n * m"
  shows "\<exists>ok j t. connect_with_retry cfg outcome k start interval = Some (ok, j, t)
    \<and> k \<le> j \<and> j \<le> k + n \<and> ok = fst (outcome j) \<and> (\<not> ok \<longrightarrow> rc_max_time cfg \<le> t)
    \<and> (\<forall>i. k \<le> i \<and> i < j \<longrightarrow> \<not> fst (outcome i))"
  using assms(5,6)
proof (induction n arbitrary: k start interval)
  case 0
  then have late: "rc_max_time cfg \<le> start + snd (outcome k)" using assms(2) [of k] by simp
  then have "connect_with_retry cfg outcome k start interval =
      Some (fst (outcome k), k, start + snd (outcome k))" by (intro connect_stops) simp
  with late show ?case by auto
next
  case (Suc n)
  let ?took = "snd (outcome k)"
  have took: "0 \<le> ?took" by (rule assms(2))
  show ?case
  proof (cases "fst (outcome k) \<or> start + ?took \<ge> rc_max_time cfg")
    case True
    then show ?thesis using connect_stops [where outcome = outcome and k = k, OF True, of interval] by auto
  next
    case False
    let ?i = "min (interval * rc_factor cfg) MAX_BACKOFF"
    have "interval \<le> interval * rc_factor cfg"
      using assms(1,3) Suc.prems(1) by (simp add: mult_le_cancel_left1)
    then have i: "m \<le> ?i" using Suc.prems(1) assms(4) by simp
    have "rc_max_time cfg - (start + ?took + interval) \<le> real n * m"
      using Suc.prems took by (simp add: algebra_simps)
    from Suc.IH [OF i this, of "k + 1"]
    obtain ok' j t where r: "connect_with_retry cfg outcome (k + 1) (start + ?took + interval) ?i = Some (ok', j, t)"
      and j: "k + 1 \<le> j" "j \<le> k + 1 + n" "ok' = fst (outcome j)" "\<not> ok' \<longrightarrow> rc_max_time cfg \<le> t"
      and before: "\<forall>i. k + 1 \<le> i \<and> i < j \<longrightarrow> \<not> fst (outcome i)"
      by blast
    have "connect_with_retry cfg outcome k start interval = Some (ok', j, t)"
      using False r by (subst connect_step) simp
    moreover have "\<not> fst (outcome i)" if "k \<le> i" "i < j" for i
      using before that False by (cases "i = k") auto
    ultimately show ?thesis using j by auto
  qed
qed



section \<open>Declaring the exchange\<close>

text \<open>The answer of the broker to a declaration: accepted, closed for another type (406 with the text the
  code looks for), or failed otherwise. \<open>0\<close> as the time of the last declaration means never.\<close>

datatype declare_result = Declared | TypeMismatch | DeclareFailed

datatype topology_call = DeclareExchange | DeleteExchange

definition ensure_exchange ::
    "real \<Rightarrow> real \<Rightarrow> real \<Rightarrow> declare_result \<Rightarrow> bool \<Rightarrow> declare_result \<Rightarrow> real
       \<Rightarrow> bool \<times> real \<times> topology_call list" where
  "ensure_exchange update_interval now after first deleted again declared_at =
     (if declared_at \<noteq> 0 \<and> now - declared_at < update_interval then (True, declared_at, [])
      else (case first of
              Declared \<Rightarrow> (True, after, [DeclareExchange])
            | DeclareFailed \<Rightarrow> (False, declared_at, [DeclareExchange])
            | TypeMismatch \<Rightarrow>
                (if \<not> deleted then (False, declared_at, [DeclareExchange, DeleteExchange])
                 else if again = Declared
                 then (True, after, [DeclareExchange, DeleteExchange, DeclareExchange])
                 else (False, declared_at, [DeclareExchange, DeleteExchange, DeclareExchange]))))"

text \<open>The exchange is deleted only after the broker has said that it has another type, and the time moves
  on only when a declaration was accepted.\<close>

lemma ensure_exchange_cases:
  assumes "ensure_exchange iv now after first deleted again t = (ok, t', calls)"
  shows "DeleteExchange \<in> set calls \<longrightarrow> first = TypeMismatch"
    and "t' \<noteq> t \<longrightarrow> ok \<and> t' = after \<and> calls \<noteq> [] \<and> last calls = DeclareExchange"
  using assms by (auto simp: ensure_exchange_def split: if_splits declare_result.splits)

section \<open>The consumers\<close>

text \<open>A delivery: the routing key, the header \<open>timestamp_in_ms\<close>, the two reply properties, the body.\<close>

record delivery =
  dl_routing_key :: "string option"
  dl_timestamp :: "string option"
  dl_reply_to :: "string option"
  dl_correlation_id :: "string option"
  dl_body :: string

datatype 'b consumer_call =
    CallDeadLetter string string nat
  | CallNack
  | CallAck
  | CallSubmit "'b processing_item"

definition get_priority :: "int \<Rightarrow> string option \<Rightarrow> int" where
  "get_priority now header =
     (case header of
        None \<Rightarrow> now
      | Some raw \<Rightarrow>
          (let raw = (if raw \<noteq> [] \<and> last raw = CHR ''L'' then butlast raw else raw)
           in case py_int raw of None \<Rightarrow> now | Some n \<Rightarrow> n))"

definition keep_all :: "string \<Rightarrow> bool" where
  "keep_all rk \<longleftrightarrow> rk \<noteq> ''train_models''"

definition keep_train :: "string \<Rightarrow> bool" where
  "keep_train rk \<longleftrightarrow> rk = ''train_models''"

text \<open>\<open>parse\<close> is \<open>json.loads\<close>. The counter is shared by the consumers and moves only for a message that is
  submitted.\<close>

definition on_message ::
    "(string \<Rightarrow> 'b option) \<Rightarrow> (string \<Rightarrow> bool) \<Rightarrow> int \<Rightarrow> delivery \<Rightarrow> int \<Rightarrow> 'b consumer_call list \<times> int" where
  "on_message parse route_filter now d seq =
     (let routing_key = (case dl_routing_key d of None \<Rightarrow> [] | Some rk \<Rightarrow> rk) in
      case parse (dl_body d) of
        None \<Rightarrow> ([CallDeadLetter (dl_body d) routing_key 0, CallNack], seq)
      | Some message \<Rightarrow>
          if \<not> route_filter routing_key then ([CallAck], seq)
          else ([CallAck, CallSubmit
                   \<lparr>pi_priority = get_priority now (dl_timestamp d), pi_number = seq,
                    pi_routing_key = routing_key, pi_reply_to = dl_reply_to d,
                    pi_correlation_id = (case dl_correlation_id d of None \<Rightarrow> [] | Some c \<Rightarrow> c),
                    pi_body = message, pi_retries = 0\<rparr>], seq + 1))"

text \<open>A consumer works through deliveries; the other one takes numbers in between, \<open>skip\<close> many before each.\<close>

fun consume ::
    "(string \<Rightarrow> 'b option) \<Rightarrow> (string \<Rightarrow> bool) \<Rightarrow> (int \<times> nat \<times> delivery) list \<Rightarrow> int
       \<Rightarrow> 'b consumer_call list \<times> int" where
  "consume parse route_filter [] seq = ([], seq)"
| "consume parse route_filter ((now, skip, d) # ds) seq =
     (case on_message parse route_filter now d (seq + int skip) of
        (calls, seq') \<Rightarrow>
          (case consume parse route_filter ds seq' of (calls', seq'') \<Rightarrow> (calls @ calls', seq'')))"

definition submitted :: "'b consumer_call list \<Rightarrow> 'b processing_item list" where
  "submitted calls = List.map_filter (\<lambda>c. case c of CallSubmit it \<Rightarrow> Some it | _ \<Rightarrow> None) calls"

definition settlements :: "'b consumer_call list \<Rightarrow> nat" where
  "settlements calls = length (filter (\<lambda>c. c = CallAck \<or> c = CallNack) calls)"

lemma submitted_simps [simp]:
  "submitted [] = []" "submitted (CallSubmit it # cs) = it # submitted cs"
  "submitted (CallAck # cs) = submitted cs" "submitted (CallNack # cs) = submitted cs"
  "submitted (CallDeadLetter b k n # cs) = submitted cs"
  "submitted (cs @ cs') = submitted cs @ submitted cs'"
  by (simp_all add: submitted_def List.map_filter_def)

lemma settlements_append: "settlements (cs @ cs') = settlements cs + settlements cs'"
  by (simp add: settlements_def)

lemma on_message_cases:
  assumes "on_message parse f now d seq = (calls, seq')"
  shows "settlements calls = 1 \<and> seq \<le> seq' \<and>
    (case parse (dl_body d) of
       None \<Rightarrow> submitted calls = [] \<and> (\<exists>k. hd calls = CallDeadLetter (dl_body d) k 0)
     | Some b \<Rightarrow> hd calls = CallAck
         \<and> (\<exists>it. submitted calls = (if f (case dl_routing_key d of None \<Rightarrow> [] | Some rk \<Rightarrow> rk) then [it] else [])
              \<and> pi_body it = b \<and> pi_retries it = 0 \<and> pi_number it = seq))
    \<and> (\<forall>it \<in> set (submitted calls). pi_number it = seq \<and> seq' = seq + 1)"
  using assms
  by (auto simp: on_message_def Let_def settlements_def split: option.splits if_splits
      intro: exI [of _ "\<lparr>pi_priority = 0, pi_number = seq, pi_routing_key = [], pi_reply_to = None,
        pi_correlation_id = [], pi_body = b, pi_retries = 0\<rparr>" for b])

lemma consume_ok:
  assumes "consume parse f ds seq = (calls, seq')"
  shows "settlements calls = length ds \<and> seq \<le> seq'
    \<and> sorted_wrt (<) (map pi_number (submitted calls))
    \<and> (\<forall>it \<in> set (submitted calls). seq \<le> pi_number it \<and> pi_number it < seq')"
  using assms
proof (induction ds arbitrary: seq seq' calls)
  case Nil
  then show ?case by (simp add: settlements_def)
next
  case (Cons x ds)
  obtain now skip d where x: "x = (now, skip, d)" by (cases x) auto
  obtain c1 s1 where 1: "on_message parse f now d (seq + int skip) = (c1, s1)" by fastforce
  obtain c2 s2 where 2: "consume parse f ds s1 = (c2, s2)" by fastforce
  have calls: "calls = c1 @ c2" "seq' = s2" using Cons.prems 1 2 x by simp_all
  note m = on_message_cases [OF 1] and ih = Cons.IH [OF 2]
  have one: "length (submitted c1) \<le> 1"
    using 1 by (auto simp: on_message_def Let_def split: option.splits if_splits)
  have "sorted_wrt (<) (map pi_number (submitted c1 @ submitted c2))"
    using m ih one by (cases "submitted c1") (auto simp: sorted_wrt_append)
  then show ?case using m ih calls by (fastforce simp: settlements_append)
qed

definition dead_letters :: "'b consumer_call list \<Rightarrow> string list" where
  "dead_letters calls = List.map_filter (\<lambda>c. case c of CallDeadLetter b _ _ \<Rightarrow> Some b | _ \<Rightarrow> None) calls"

lemma on_message_dead_letters:
  "dead_letters (fst (on_message parse f now d seq)) =
     (case parse (dl_body d) of None \<Rightarrow> [dl_body d] | Some _ \<Rightarrow> [])"
  by (simp add: on_message_def Let_def dead_letters_def List.map_filter_def split: option.splits)

lemma dead_letters_append: "dead_letters (cs @ cs') = dead_letters cs @ dead_letters cs'"
  by (simp add: dead_letters_def List.map_filter_def)

lemma consume_dead_letters:
  "dead_letters (fst (consume parse f ds seq)) =
     filter (\<lambda>b. parse b = None) (map (\<lambda>(_, _, d). dl_body d) ds)"
proof (induction ds arbitrary: seq)
  case Nil
  then show ?case by (simp add: dead_letters_def List.map_filter_def)
next
  case (Cons x ds)
  obtain now skip d where x: "x = (now, skip, d)" by (cases x) auto
  obtain c1 s1 where 1: "on_message parse f now d (seq + int skip) = (c1, s1)" by fastforce
  obtain c2 s2 where 2: "consume parse f ds s1 = (c2, s2)" by fastforce
  have "dead_letters c1 = (case parse (dl_body d) of None \<Rightarrow> [dl_body d] | Some _ \<Rightarrow> [])"
    using on_message_dead_letters [of parse f now d "seq + int skip"] 1 by simp
  moreover have "dead_letters c2 = filter (\<lambda>b. parse b = None) (map (\<lambda>(_, _, d). dl_body d) ds)"
    using Cons.IH [of s1] 2 by simp
  ultimately show ?case using 1 2 by (simp add: x dead_letters_append split: option.splits)
qed

text \<open>
  A consumer settles every delivery exactly once, with an ack or a nack; it hands exactly the bodies
  that are not JSON to the dead-letter queue, in order; and what it submits to the pool carries strictly
  increasing numbers, whatever the other consumer takes in between, so that equal priorities are served
  in the order of arrival.
\<close>

theorem deliveries_settled:
  "case consume parse f ds seq of (calls, seq') \<Rightarrow>
     settlements calls = length ds \<and> seq \<le> seq'
     \<and> dead_letters calls = filter (\<lambda>b. parse b = None) (map (\<lambda>(_, _, d). dl_body d) ds)
     \<and> sorted_wrt (<) (map pi_number (submitted calls))"
  using consume_ok [of parse f ds seq] consume_dead_letters [of parse f ds seq]
  by (auto split: prod.splits)

text \<open>
  The exchange gives every message to both queues, and between them the two consumers take it once: a
  message that parses is submitted by exactly one of them, by the training consumer exactly when its key is
  \<open>train_models\<close>. One that does not parse is put into the dead-letter queue by both.
\<close>

theorem fanout_processed_once:
  "let c1 = fst (on_message parse keep_all now1 d seq1);
       c2 = fst (on_message parse keep_train now2 d seq2)
   in (case parse (dl_body d) of
         Some b \<Rightarrow> (\<exists>it. submitted c1 @ submitted c2 = [it] \<and> pi_body it = b)
            \<and> (submitted c2 \<noteq> []) = (dl_routing_key d = Some ''train_models'')
            \<and> dead_letters (c1 @ c2) = []
       | None \<Rightarrow> submitted (c1 @ c2) = [] \<and> dead_letters (c1 @ c2) = [dl_body d, dl_body d])"
proof (cases "parse (dl_body d)")
  case None
  then show ?thesis
    by (simp add: Let_def dead_letters_append on_message_dead_letters)
      (simp add: on_message_def)
next
  case (Some b)
  then show ?thesis
    by (cases "dl_routing_key d")
      (simp_all add: dead_letters_append on_message_dead_letters, simp_all add: on_message_def
        keep_all_def keep_train_def Let_def)
qed

end
