(* ===== verification/SeedCatalog.thy ===== *)
theory SeedCatalog
  imports Kb
begin

text \<open>
  The catalogue of seed failure modes: building and validating it, the first-match classifier
  (\<open>seeds/catalog.py\<close>), and the copies a project gets on its first match (\<open>seeds/loader.py\<close>).

  The YAML file arrives parsed: an entry is a record of what it may hold, a missing key is \<open>None\<close>; values
  of another type, on which the loader raises, are left out. Compiling an expression and searching with
  it are Python's \<open>re\<close> and an argument (\<open>catalog_env\<close>): patterns are data of the catalogue here.
\<close>

section \<open>Building a catalogue\<close>

definition VALID_LABELS :: "string set" where
  "VALID_LABELS = {''pb'', ''ab'', ''si'', ''nd''}"

definition EXPECTED_MODE_COUNT :: nat where "EXPECTED_MODE_COUNT = 50"

record 'pat catalog_env =
  ce_compile :: "bool \<Rightarrow> string \<Rightarrow> 'pat option"
  ce_search :: "'pat \<Rightarrow> string \<Rightarrow> bool"

record raw_rules =
  rr_exc_re :: "string list"
  rr_msg_re :: "string list"
  rr_kw :: "string list"

record raw_mode =
  rw_mode_key :: "string option"
  rw_title :: "string option"
  rw_prior :: "(string option \<times> real option) option"
  rw_rationale :: "string option"
  rw_rules :: "raw_rules option"

record 'pat seed_mode =
  sm_mode_key :: string
  sm_title :: string
  sm_prior_label :: string
  sm_prior_confidence :: real
  sm_rationale :: string
  sm_exc_re :: "'pat list"
  sm_msg_re :: "'pat list"
  sm_kw :: "string list"

datatype catalog_error =
    NotAMapping
  | MalformedEntry
  | BadLabel string
  | BadConfidence string
  | BadPattern string string
  | NoRules string
  | DuplicateKeys "string list"
  | WrongCount nat

definition text_or_empty :: "string option \<Rightarrow> string" where
  "text_or_empty t = (case t of None \<Rightarrow> [] | Some s \<Rightarrow> s)"

fun compile_all :: "(string \<Rightarrow> 'pat option) \<Rightarrow> string \<Rightarrow> string list \<Rightarrow> catalog_error + 'pat list" where
  "compile_all compile key [] = Inr []"
| "compile_all compile key (p # ps) =
     (case compile p of
        None \<Rightarrow> Inl (BadPattern key p)
      | Some r \<Rightarrow> (case compile_all compile key ps of Inl e \<Rightarrow> Inl e | Inr rs \<Rightarrow> Inr (r # rs)))"

definition build_mode :: "'pat catalog_env \<Rightarrow> raw_mode \<Rightarrow> catalog_error + 'pat seed_mode" where
  "build_mode env raw =
     (case (rw_mode_key raw, rw_prior raw) of
        (Some key, Some (label, confidence)) \<Rightarrow>
          (if (case label of None \<Rightarrow> True | Some l \<Rightarrow> l \<notin> VALID_LABELS) then Inl (BadLabel key)
           else
             (let c = (case confidence of None \<Rightarrow> 0 | Some c \<Rightarrow> c) in
              if \<not> (0 < c \<and> c \<le> 1) then Inl (BadConfidence key)
              else
                (let rules = (case rw_rules raw of
                       None \<Rightarrow> \<lparr>rr_exc_re = [], rr_msg_re = [], rr_kw = []\<rparr> | Some r \<Rightarrow> r) in
                 case compile_all (ce_compile env False) key (rr_exc_re rules) of
                   Inl e \<Rightarrow> Inl e
                 | Inr exc_re \<Rightarrow>
                     (case compile_all (ce_compile env True) key (rr_msg_re rules) of
                        Inl e \<Rightarrow> Inl e
                      | Inr msg_re \<Rightarrow>
                          (let kw = map lower_str (rr_kw rules) in
                           if exc_re = [] \<and> msg_re = [] \<and> kw = [] then Inl (NoRules key)
                           else Inr \<lparr>sm_mode_key = key, sm_title = text_or_empty (rw_title raw),
                                     sm_prior_label = the label, sm_prior_confidence = c,
                                     sm_rationale = text_or_empty (rw_rationale raw),
                                     sm_exc_re = exc_re, sm_msg_re = msg_re, sm_kw = kw\<rparr>)))))
      | _ \<Rightarrow> Inl MalformedEntry)"

fun build_all :: "'pat catalog_env \<Rightarrow> raw_mode list \<Rightarrow> catalog_error + 'pat seed_mode list" where
  "build_all env [] = Inr []"
| "build_all env (r # rs) =
     (case build_mode env r of
        Inl e \<Rightarrow> Inl e
      | Inr m \<Rightarrow> (case build_all env rs of Inl e \<Rightarrow> Inl e | Inr ms \<Rightarrow> Inr (m # ms)))"

text \<open>The keys that occur more than once, sorted.\<close>

definition duplicates :: "string list \<Rightarrow> string list" where
  "duplicates keys = sort (remdups (filter (\<lambda>k. count_list keys k > 1) keys))"

definition load_catalog ::
    "'pat catalog_env \<Rightarrow> raw_mode list option \<Rightarrow> catalog_error + 'pat seed_mode list" where
  "load_catalog env data =
     (case data of
        None \<Rightarrow> Inl NotAMapping
      | Some raws \<Rightarrow>
          (case build_all env raws of
             Inl e \<Rightarrow> Inl e
           | Inr modes \<Rightarrow>
               (let dups = duplicates (map sm_mode_key modes)
                in if dups \<noteq> [] then Inl (DuplicateKeys dups) else Inr modes)))"

definition default_catalog ::
    "'pat catalog_env \<Rightarrow> raw_mode list option \<Rightarrow> catalog_error + 'pat seed_mode list" where
  "default_catalog env data =
     (case load_catalog env data of
        Inl e \<Rightarrow> Inl e
      | Inr modes \<Rightarrow>
          if length modes \<noteq> EXPECTED_MODE_COUNT then Inl (WrongCount (length modes)) else Inr modes)"

section \<open>Classifying\<close>

definition mode_matches ::
    "'pat catalog_env \<Rightarrow> 'pat seed_mode \<Rightarrow> string list \<Rightarrow> string \<Rightarrow> string \<Rightarrow> bool" where
  "mode_matches env m exc_classes msg_haystack kw_haystack \<longleftrightarrow>
     list_ex (\<lambda>p. list_ex (ce_search env p) exc_classes) (sm_exc_re m)
     \<or> list_ex (\<lambda>p. ce_search env p msg_haystack) (sm_msg_re m)
     \<or> list_ex (\<lambda>k. contains k kw_haystack) (sm_kw m)"

definition newline :: string where "newline = [CHR 0x0A]"

definition present :: "string list \<Rightarrow> string list" where
  "present ps = filter (\<lambda>p. p \<noteq> []) ps"

definition rules_fire ::
    "'pat catalog_env \<Rightarrow> string list \<Rightarrow> string \<Rightarrow> string list \<Rightarrow> 'pat seed_mode \<Rightarrow> bool" where
  "rules_fire env exc_classes msg_text template_texts m =
     (let exc = present exc_classes;
          parts = msg_text # template_texts;
          msg_haystack = join_with newline (present parts);
          kw_haystack = lower_str (join_with newline (present (parts @ exc)))
      in mode_matches env m exc msg_haystack kw_haystack)"

definition catalog_match ::
    "'pat catalog_env \<Rightarrow> 'pat seed_mode list \<Rightarrow> string list \<Rightarrow> string \<Rightarrow> string list
       \<Rightarrow> 'pat seed_mode option" where
  "catalog_match env modes exc_classes msg_text template_texts =
     find (rules_fire env exc_classes msg_text template_texts) modes"

section \<open>The copies of a project\<close>

record seed_hit =
  sh_mode_key :: string
  sh_mode_id :: int
  sh_label :: string
  sh_confidence :: real

record 'pat seed_kb =
  kb_catalog :: "'pat seed_mode list"
  kb_has_store :: bool

text \<open>\<open>RuntimeError\<close> when there is no store.\<close>

definition project_copy :: "'pat seed_kb \<Rightarrow> int \<Rightarrow> 'pat seed_mode \<Rightarrow> db \<Rightarrow> (db \<times> int) option" where
  "project_copy kb p m db =
     (if kb_has_store kb
      then Some (ensure_seed_mode p (sm_mode_key m) (seed_mode_in (sm_prior_label m) (sm_title m)) db)
      else None)"

definition match_and_seed ::
    "'pat catalog_env \<Rightarrow> 'pat seed_kb \<Rightarrow> int \<Rightarrow> string list \<Rightarrow> string \<Rightarrow> string list \<Rightarrow> db
       \<Rightarrow> (db \<times> seed_hit option) option" where
  "match_and_seed env kb p exc_classes msg_text template_texts db =
     (case catalog_match env (kb_catalog kb) exc_classes msg_text template_texts of
        None \<Rightarrow> Some (db, None)
      | Some m \<Rightarrow>
          map_option (\<lambda>(db', i). (db', Some \<lparr>sh_mode_key = sm_mode_key m, sh_mode_id = i,
                                             sh_label = sm_prior_label m,
                                             sh_confidence = sm_prior_confidence m\<rparr>))
            (project_copy kb p m db))"

section \<open>What a loaded catalogue is\<close>

definition mode_ok :: "'pat seed_mode \<Rightarrow> bool" where
  "mode_ok m \<longleftrightarrow> sm_prior_label m \<in> VALID_LABELS \<and> 0 < sm_prior_confidence m
     \<and> sm_prior_confidence m \<le> 1 \<and> \<not> (sm_exc_re m = [] \<and> sm_msg_re m = [] \<and> sm_kw m = [])"

lemma compile_all_Inr:
  "compile_all compile key ps = Inr rs \<Longrightarrow> map compile ps = map Some rs"
  by (induction ps arbitrary: rs) (auto split: option.splits sum.splits)

lemma build_mode_Inr:
  assumes "build_mode env raw = Inr m"
  shows "mode_ok m \<and> rw_mode_key raw = Some (sm_mode_key m)"
  using assms unfolding build_mode_def mode_ok_def Let_def
  by (auto split: option.splits if_splits sum.splits prod.splits)

lemma build_all_Inr:
  assumes "build_all env raws = Inr ms"
  shows "list_all mode_ok ms \<and> map rw_mode_key raws = map (\<lambda>m. Some (sm_mode_key m)) ms"
  using assms
proof (induction raws arbitrary: ms)
  case (Cons r raws)
  then obtain m ms' where m: "build_mode env r = Inr m" "build_all env raws = Inr ms'" "ms = m # ms'"
    by (auto split: sum.splits)
  then show ?case using Cons.IH [OF m(2)] build_mode_Inr [OF m(1)] by simp
qed simp

lemma duplicates_Nil: "duplicates ks = [] \<longleftrightarrow> distinct ks"
proof -
  have "set (duplicates ks) = {k \<in> set ks. count_list ks k > 1}"
    by (simp add: duplicates_def)
  then have "duplicates ks = [] \<longleftrightarrow> {k \<in> set ks. count_list ks k > 1} = {}"
    by (metis set_empty)
  also have "\<dots> \<longleftrightarrow> (\<forall>k \<in> set ks. count_list ks k \<le> 1)" by (auto simp: not_less)
  also have "\<dots> \<longleftrightarrow> (\<forall>k. count_list ks k = (if k \<in> set ks then 1 else 0))"
  proof -
    have "count_list ks k \<le> 1 \<longleftrightarrow> count_list ks k = 1" if "k \<in> set ks" for k
      using that count_list_0_iff [of ks k] by linarith
    moreover have "count_list ks k = 0" if "k \<notin> set ks" for k
      using that count_list_0_iff [of ks k] by blast
    ultimately show ?thesis by auto
  qed
  also have "\<dots> \<longleftrightarrow> distinct ks" by (simp add: distinct_count_atmost_1 count_mset)
  finally show ?thesis .
qed

text \<open>
  A catalogue that loads can be used as it is: one mode for every entry of the file, in its order, with
  pairwise different keys; every mode has one of the four labels, a confidence above 0 and up to 1 and at
  least one rule. A catalogue with a repeated key, or whose size is not the expected one, never loads.
\<close>

theorem catalog_load_sound:
  assumes "default_catalog env data = Inr modes"
  shows "length modes = 50 \<and> distinct (map sm_mode_key modes) \<and> list_all mode_ok modes
    \<and> map_option (map rw_mode_key) data = Some (map (\<lambda>m. Some (sm_mode_key m)) modes)"
proof -
  have l: "load_catalog env data = Inr modes" "length modes = 50"
    using assms by (auto simp: default_catalog_def EXPECTED_MODE_COUNT_def split: sum.splits if_splits)
  then obtain raws where r: "data = Some raws" "build_all env raws = Inr modes"
      "duplicates (map sm_mode_key modes) = []"
    by (auto simp: load_catalog_def Let_def split: option.splits sum.splits if_splits)
  then show ?thesis using l build_all_Inr [OF r(2)] by (simp add: duplicates_Nil)
qed

definition demo_catalog_env :: "string catalog_env" where
  "demo_catalog_env = \<lparr>ce_compile = (\<lambda>_ p. Some p), ce_search = contains\<rparr>"

definition demo_raw :: "nat \<Rightarrow> raw_mode" where
  "demo_raw n = \<lparr>rw_mode_key = Some (replicate n CHR ''k''), rw_title = None,
     rw_prior = Some (Some ''pb'', Some (1 / 2)), rw_rationale = None,
     rw_rules = Some \<lparr>rr_exc_re = [], rr_msg_re = [], rr_kw = [''Timeout'']\<rparr>\<rparr>"

definition demo_mode :: "nat \<Rightarrow> string seed_mode" where
  "demo_mode n = \<lparr>sm_mode_key = replicate n CHR ''k'', sm_title = [], sm_prior_label = ''pb'',
     sm_prior_confidence = 1 / 2, sm_rationale = [], sm_exc_re = [], sm_msg_re = [],
     sm_kw = [lower_str ''Timeout'']\<rparr>"

lemma demo_builds: "build_all demo_catalog_env (map demo_raw ns) = Inr (map demo_mode ns)"
  by (induction ns)
    (simp_all add: build_mode_def demo_raw_def demo_mode_def VALID_LABELS_def text_or_empty_def)

lemma demo_loads:
  "default_catalog demo_catalog_env (Some (map demo_raw [0..<50])) = Inr (map demo_mode [0..<50])"
proof -
  have "inj_on (\<lambda>n. replicate n CHR ''k'') {0..<50}" by (rule inj_onI) simp
  then have "distinct (map sm_mode_key (map demo_mode [0..<50]))"
    by (simp add: comp_def demo_mode_def distinct_map)
  then have "duplicates (map sm_mode_key (map demo_mode [0..<50])) = []"
    unfolding duplicates_Nil .
  then show ?thesis unfolding default_catalog_def load_catalog_def option.case demo_builds
    by (simp only: sum.case Let_def length_map length_upt EXPECTED_MODE_COUNT_def) simp
qed

theorem catalog_load_sound_witness:
  "list_all mode_ok (map demo_mode [0..<50]) \<and> distinct (map sm_mode_key (map demo_mode [0..<50]))"
  using catalog_load_sound [OF demo_loads] by blast

section \<open>The first mode in the order of the list\<close>

lemma find_first:
  "find P xs = Some x \<longleftrightarrow> (\<exists>us vs. xs = us @ x # vs \<and> P x \<and> list_all (\<lambda>u. \<not> P u) us)"
proof (induction xs)
  case (Cons y xs)
  show ?case
  proof (cases "P y")
    case True
    have "(\<exists>us vs. y # xs = us @ x # vs \<and> P x \<and> list_all (\<lambda>u. \<not> P u) us) \<longleftrightarrow> y = x"
    proof
      assume "\<exists>us vs. y # xs = us @ x # vs \<and> P x \<and> list_all (\<lambda>u. \<not> P u) us"
      then show "y = x" using True by (auto simp: Cons_eq_append_conv)
    next
      assume "y = x"
      then have "y # xs = [] @ x # xs \<and> P x \<and> list_all (\<lambda>u. \<not> P u) []" using True by simp
      then show "\<exists>us vs. y # xs = us @ x # vs \<and> P x \<and> list_all (\<lambda>u. \<not> P u) us" by blast
    qed
    with True show ?thesis by simp
  next
    case False
    have "(\<exists>us vs. y # xs = us @ x # vs \<and> P x \<and> list_all (\<lambda>u. \<not> P u) us) \<longleftrightarrow>
        (\<exists>us vs. xs = us @ x # vs \<and> P x \<and> list_all (\<lambda>u. \<not> P u) us)"
    proof
      assume "\<exists>us vs. y # xs = us @ x # vs \<and> P x \<and> list_all (\<lambda>u. \<not> P u) us"
      then obtain us vs where *: "y # xs = us @ x # vs" "P x" "list_all (\<lambda>u. \<not> P u) us" by blast
      then obtain us' where "us = y # us'" using False by (cases us) auto
      with * have "xs = us' @ x # vs \<and> P x \<and> list_all (\<lambda>u. \<not> P u) us'" by simp
      then show "\<exists>us vs. xs = us @ x # vs \<and> P x \<and> list_all (\<lambda>u. \<not> P u) us" by blast
    next
      assume "\<exists>us vs. xs = us @ x # vs \<and> P x \<and> list_all (\<lambda>u. \<not> P u) us"
      then obtain us vs where "xs = us @ x # vs" "P x" "list_all (\<lambda>u. \<not> P u) us" by blast
      then have "y # xs = (y # us) @ x # vs \<and> P x \<and> list_all (\<lambda>u. \<not> P u) (y # us)" using False by simp
      then show "\<exists>us vs. y # xs = us @ x # vs \<and> P x \<and> list_all (\<lambda>u. \<not> P u) us" by blast
    qed
    with False Cons show ?thesis by simp
  qed
qed simp

text \<open>
  The classifier picks the first mode in the order of the catalogue whose rules fire, and none exactly
  when no rule of any mode fires; adding modes at the end never changes what was matched before.
\<close>

theorem seed_first_match:
  "(catalog_match env modes exc msg tmpl = Some m \<longleftrightarrow>
      (\<exists>us vs. modes = us @ m # vs \<and> rules_fire env exc msg tmpl m
         \<and> list_all (\<lambda>u. \<not> rules_fire env exc msg tmpl u) us))
   \<and> (catalog_match env modes exc msg tmpl = None \<longleftrightarrow>
        list_all (\<lambda>u. \<not> rules_fire env exc msg tmpl u) modes)
   \<and> catalog_match env (modes @ later) exc msg tmpl =
       (case catalog_match env modes exc msg tmpl of
          None \<Rightarrow> catalog_match env later exc msg tmpl | Some m' \<Rightarrow> Some m')"
proof -
  have "find P (xs @ ys) = (case find P xs of None \<Rightarrow> find P ys | Some x \<Rightarrow> Some x)"
    for P and xs ys :: "'a seed_mode list"
    by (induction xs) auto
  then show ?thesis
    unfolding catalog_match_def by (auto simp: find_first find_None_iff list_all_iff)
qed

section \<open>Copies\<close>

definition seed_copies :: "int \<Rightarrow> string \<Rightarrow> db \<Rightarrow> mode_row list" where
  "seed_copies p key db = filter (\<lambda>r. fm_project_id r = p \<and> fm_seed_key r = Some key) (db_modes db)"

lemma seed_copies_ensure:
  "seed_copies q k (fst (ensure_seed_mode p key m db)) =
     (if q = p \<and> k = key \<and> seed_copies p key db = []
      then [new_mode p (db_next_mode db) (Some key) m] else seed_copies q k db)"
  by (auto simp: ensure_seed_mode_def seed_copies_def insert_mode_def new_mode_def mode_in.defs Let_def
      find_None_iff filter_empty_conv split: option.splits dest!: find_Some_iff [THEN iffD1])

lemma ensure_seed_again:
  assumes "ensure_seed_mode p key m db = (db', i)"
  shows "ensure_seed_mode p key m' db' = (db'\<lparr>db_next_mode := db_next_mode db' + 1,
            db_projects := insert p (db_projects db')\<rparr>, i)"
proof (cases "find (\<lambda>r. fm_project_id r = p \<and> fm_seed_key r = Some key) (db_modes db)")
  case None
  let ?n = "new_mode p (db_next_mode db) (Some key) m"
  have n: "fm_project_id ?n = p" "fm_seed_key ?n = Some key" "fm_mode_id ?n = db_next_mode db"
    by (simp_all add: new_mode_def mode_in.defs)
  have app: "find P xs = None \<Longrightarrow> find P (xs @ [x]) = (if P x then Some x else None)"
    for P and xs and x :: mode_row
    by (induction xs) (auto split: if_splits)
  from None assms have "db_modes db' = db_modes db @ [?n]" "i = db_next_mode db"
    by (auto simp: ensure_seed_mode_def insert_mode_def Let_def)
  with None n app [OF None, of ?n] show ?thesis by (simp add: ensure_seed_mode_def)
next
  case (Some r)
  with assms show ?thesis by (auto simp: ensure_seed_mode_def)
qed

text \<open>
  A project has at most one copy of a seed mode, and the copies of other projects and of other modes are
  not touched: matching again gives the same hit with the same mode and adds no row, and whatever the
  project had before under that key is kept as it was.
\<close>

theorem seed_copy_idempotent:
  assumes "match_and_seed env kb p exc msg tmpl db = Some (db', Some hit)"
  shows "\<exists>db''. match_and_seed env kb p exc msg tmpl db' = Some (db'', Some hit)
    \<and> db_modes db'' = db_modes db'
    \<and> (\<forall>q k. (q, k) \<noteq> (p, sh_mode_key hit) \<longrightarrow> seed_copies q k db' = seed_copies q k db)
    \<and> (if seed_copies p (sh_mode_key hit) db = [] then length (seed_copies p (sh_mode_key hit) db') = 1
       else seed_copies p (sh_mode_key hit) db' = seed_copies p (sh_mode_key hit) db)"
proof -
  obtain m where m: "catalog_match env (kb_catalog kb) exc msg tmpl = Some m"
    and s: "kb_has_store kb" and h: "sh_mode_key hit = sm_mode_key m"
      "hit = \<lparr>sh_mode_key = sm_mode_key m, sh_mode_id = sh_mode_id hit, sh_label = sm_prior_label m,
              sh_confidence = sm_prior_confidence m\<rparr>"
    and e: "ensure_seed_mode p (sm_mode_key m) (seed_mode_in (sm_prior_label m) (sm_title m)) db
      = (db', sh_mode_id hit)"
    using assms by (auto simp: match_and_seed_def project_copy_def split: option.splits if_splits)
  note again = ensure_seed_again [OF e, of "seed_mode_in (sm_prior_label m) (sm_title m)"]
  have copies: "seed_copies q k db' = (if q = p \<and> k = sm_mode_key m \<and> seed_copies p (sm_mode_key m) db = []
      then [new_mode p (db_next_mode db) (Some (sm_mode_key m)) (seed_mode_in (sm_prior_label m) (sm_title m))]
      else seed_copies q k db)" for q k
    using seed_copies_ensure [of q k p "sm_mode_key m" _ db] e by (metis fst_conv)
  have "match_and_seed env kb p exc msg tmpl db' =
      Some (db'\<lparr>db_next_mode := db_next_mode db' + 1, db_projects := insert p (db_projects db')\<rparr>, Some hit)"
    using m s again h by (simp add: match_and_seed_def project_copy_def)
  then show ?thesis using copies h(1) by auto
qed

theorem seed_copy_idempotent_witness:
  "length (seed_copies 7 [] (fst (the (match_and_seed demo_catalog_env
     \<lparr>kb_catalog = [demo_mode 0], kb_has_store = True\<rparr> 7 [] ''read Timeout'' [] empty_db)))) = 1"
proof -
  let ?kb = "\<lparr>kb_catalog = [demo_mode 0], kb_has_store = True\<rparr>"
  have "catalog_match demo_catalog_env (kb_catalog ?kb) [] ''read Timeout'' [] = Some (demo_mode 0)"
    by (simp add: catalog_match_def rules_fire_def mode_matches_def present_def demo_mode_def
        demo_catalog_env_def lower_str_def lower_char_def is_upper_def newline_def starts_with_def)
  moreover obtain db' i where "ensure_seed_mode 7 (sm_mode_key (demo_mode 0))
      (seed_mode_in (sm_prior_label (demo_mode 0)) (sm_title (demo_mode 0))) empty_db = (db', i)"
    by fastforce
  ultimately obtain hit where h: "match_and_seed demo_catalog_env ?kb 7 [] ''read Timeout'' [] empty_db
      = Some (db', Some hit)" "sh_mode_key hit = sm_mode_key (demo_mode 0)"
    by (simp add: match_and_seed_def project_copy_def)
  have "seed_copies 7 [] empty_db = []" by (simp add: seed_copies_def empty_db_def)
  then have "length (seed_copies 7 [] db') = 1"
    using seed_copy_idempotent [OF h(1)] h(2) by (auto simp: demo_mode_def)
  then show ?thesis unfolding h(1) by simp
qed

end
