(* ===== verification/ModelStore.thy ===== *)
theory ModelStore
  imports Features
begin

text \<open>
  The stored models and their serving: the artifact table (\<open>ml/artifacts.py\<close>), the isotonic
  calibrator (\<open>ml/calibration.py\<close>), the prediction of one booster (\<open>GbmModel\<close> in \<open>ml/trainer.py\<close>)
  and the hot-swapping predictor (\<open>ml/serving.py\<close>). LightGBM is the argument \<open>booster\<close>, the fitting
  of scikit-learn's isotonic regression is not modelled, only what a fitted calibrator predicts.
  Every store method is one transaction; the reads of one check may see different stores.
\<close>

section \<open>The calibrator\<close>

type_synonym knots = "(real \<times> real) list"

text \<open>\<open>numpy.interp\<close> over ascending knots.\<close>

fun interp :: "knots \<Rightarrow> real \<Rightarrow> real" where
  "interp [] r = r"
| "interp [(x, y)] r = y"
| "interp ((x0, y0) # (x1, y1) # ps) r =
     (if r \<le> x0 then y0
      else if r < x1 then y0 + (y1 - y0) / (x1 - x0) * (r - x0)
      else interp ((x1, y1) # ps) r)"

definition calib_predict :: "knots \<Rightarrow> real \<Rightarrow> real" where
  "calib_predict ks raw = (if ks = [] then raw else max 0 (min 1 (interp ks raw)))"

definition knots_ok :: "knots \<Rightarrow> bool" where
  "knots_ok ks \<longleftrightarrow> sorted_wrt (\<lambda>p q. fst p < fst q \<and> snd p \<le> snd q) ks"

lemma interp_lower: "knots_ok ((x, y) # ps) \<Longrightarrow> y \<le> interp ((x, y) # ps) r"
proof (induction ps arbitrary: x y)
  case Nil
  then show ?case by simp
next
  case (Cons p ps)
  obtain x1 y1 where p: "p = (x1, y1)" by (cases p)
  have k: "x < x1" "y \<le> y1" "knots_ok ((x1, y1) # ps)" using Cons.prems by (simp_all add: p knots_ok_def)
  have "0 \<le> (y1 - y) / (x1 - x) * (r - x)" if "\<not> r \<le> x" using that k by simp
  then show ?case using Cons.IH [OF k(3)] k(2) by (auto simp: p)
qed

lemma interp_mono:
  assumes "knots_ok ks" and "r \<le> r'" and "ks \<noteq> []"
  shows "interp ks r \<le> interp ks r'"
  using assms
proof (induction ks r arbitrary: r' rule: interp.induct)
  case (3 x0 y0 x1 y1 ps r)
  have k: "x0 < x1" "y0 \<le> y1" "knots_ok ((x1, y1) # ps)" using "3.prems"(1) by (simp_all add: knots_ok_def)
  let ?s = "(y1 - y0) / (x1 - x0)"
  have s: "0 \<le> ?s" using k by simp
  have seg: "y0 + ?s * (t - x0) \<le> y1" if "t < x1" for t
  proof -
    have "?s * (t - x0) \<le> ?s * (x1 - x0)" using s that by (intro mult_left_mono) auto
    also have "\<dots> = y1 - y0" using k by simp
    finally show ?thesis by simp
  qed
  have up: "y1 \<le> interp ((x1, y1) # ps) t" for t by (rule interp_lower [OF k(3)])
  show ?case
  proof (cases "r \<le> x0")
    case True
    then show ?thesis using interp_lower [OF "3.prems"(1), of r'] by simp
  next
    case r: False
    show ?thesis
    proof (cases "r < x1")
      case lt: True
      show ?thesis
      proof (cases "r' < x1")
        case True
        have "?s * (r - x0) \<le> ?s * (r' - x0)" using s "3.prems"(2) by (intro mult_left_mono) auto
        then show ?thesis using r lt True "3.prems"(2) by simp
      next
        case False
        then show ?thesis using r lt "3.prems"(2) seg [OF lt] up [of r'] by auto
      qed
    next
      case False
      then show ?thesis using r "3.prems"(2) "3.IH" [OF r False k(3)] by auto
    qed
  qed
qed auto

text \<open>
  A calibrator never reverses the order of two predictions and never leaves [0, 1]: with
  ascending knots and non-decreasing values, a higher raw probability gets at least as high a
  calibrated one, whatever lies outside the knot range; without knots it is the identity.
\<close>

theorem calibrator_monotone:
  assumes "knots_ok ks"
  shows "(r \<le> r' \<longrightarrow> calib_predict ks r \<le> calib_predict ks r')
    \<and> (ks \<noteq> [] \<longrightarrow> 0 \<le> calib_predict ks r \<and> calib_predict ks r \<le> 1)
    \<and> calib_predict [] r = r"
  using interp_mono [OF assms, of r r']
  by (auto simp: calib_predict_def min_def max_def)

theorem calibrator_monotone_witness:
  "calib_predict [(1 / 4, 1 / 10), (3 / 4, 9 / 10)] (1 / 3) \<le> calib_predict [(1 / 4, 1 / 10), (3 / 4, 9 / 10)] (1 / 2)"
proof -
  have "knots_ok [(1 / 4, 1 / 10), (3 / 4, 9 / 10)]" by (simp add: knots_ok_def)
  moreover have "(1 / 3 :: real) \<le> 1 / 2" by simp
  ultimately show ?thesis using calibrator_monotone by blast
qed

section \<open>One prediction of a booster\<close>

record 'm gbm_model =
  gm_booster :: 'm
  gm_classes :: "string list"
  gm_feature_schema_ver :: int
  gm_feature_names :: "string list"

fun put_probs :: "(string \<Rightarrow> real) \<Rightarrow> (string \<times> real) list \<Rightarrow> string \<Rightarrow> real" where
  "put_probs d [] = d"
| "put_probs d ((c, p) # ps) = put_probs (d(c := p)) ps"

definition predict_label ::
  "('m \<Rightarrow> real list \<Rightarrow> real list) \<Rightarrow> 'm gbm_model \<Rightarrow> real list \<Rightarrow> (string \<times> real \<times> (string \<Rightarrow> real)) option" where
  "predict_label booster m vector =
     (let row = booster (gm_booster m) vector;
          probs = put_probs (\<lambda>_. 0) (zip (gm_classes m) row)
      in map_option (\<lambda>label. (label, probs label, probs)) (py_max probs BASE_LABELS))"

lemma put_probs_other: "c \<notin> fst ` set ps \<Longrightarrow> put_probs d ps c = d c"
  by (induction d ps rule: put_probs.induct) auto

lemma put_probs_in: "distinct (map fst ps) \<Longrightarrow> (c, p) \<in> set ps \<Longrightarrow> put_probs d ps c = p"
  by (induction d ps rule: put_probs.induct) (auto simp: put_probs_other rev_image_eqI)

text \<open>
  The booster's answer is always one of the four base groups, the first in the fixed order with
  the largest probability, a group the booster does not know has probability 0, and every class of
  the booster keeps the probability of its own column.
\<close>

theorem predict_label_argmax:
  assumes "distinct (gm_classes m)" and "length (booster (gm_booster m) v) = length (gm_classes m)"
  shows "\<exists>label raw probs. predict_label booster m v = Some (label, raw, probs)
    \<and> label \<in> set BASE_LABELS \<and> raw = probs label
    \<and> (\<forall>b \<in> set BASE_LABELS. probs b \<le> raw)
    \<and> (\<forall>i < length (gm_classes m). probs (gm_classes m ! i) = booster (gm_booster m) v ! i)
    \<and> (\<forall>b. b \<notin> set (gm_classes m) \<longrightarrow> probs b = 0)"
proof -
  let ?row = "booster (gm_booster m) v" and ?z = "zip (gm_classes m) (booster (gm_booster m) v)"
  let ?p = "put_probs (\<lambda>_. 0) ?z"
  have ne: "BASE_LABELS \<noteq> []" by (simp add: BASE_LABELS_def)
  obtain l where l: "py_max ?p BASE_LABELS = Some l"
    using py_max_None_iff [of ?p BASE_LABELS] ne by (cases "py_max ?p BASE_LABELS") auto
  have d: "distinct (map fst ?z)" using assms by simp
  have z: "(gm_classes m ! i, ?row ! i) \<in> set ?z" if "i < length (gm_classes m)" for i
    using that assms(2) by (auto simp: set_zip)
  have "?p b = 0" if "b \<notin> set (gm_classes m)" for b
    using that by (intro put_probs_other) (auto dest: set_zip_leftD)
  then show ?thesis
    using l py_max_in [OF l] py_max_ge [OF l] put_probs_in [OF d z]
    by (intro exI [of _ l] exI [of _ "?p l"] exI [of _ ?p]) (auto simp: predict_label_def Let_def)
qed

definition demo_model :: "unit gbm_model" where
  "demo_model = \<lparr>gm_booster = (), gm_classes = [''ab'', ''pb''], gm_feature_schema_ver = FEATURE_SCHEMA_VER,
     gm_feature_names = []\<rparr>"

theorem predict_label_argmax_witness:
  "\<exists>label raw probs. predict_label (\<lambda>_ _. [1 / 4, 3 / 4]) demo_model [] = Some (label, raw, probs)
     \<and> label \<in> set BASE_LABELS \<and> probs ''pb'' = 3 / 4 \<and> probs ''nd'' = 0"
proof -
  have c: "gm_classes demo_model = [''ab'', ''pb'']" by (simp add: demo_model_def)
  have a: "distinct (gm_classes demo_model)"
    "length ((\<lambda>_ _. [1 / 4, 3 / 4]) (gm_booster demo_model) []) = length (gm_classes demo_model)"
    by (simp_all add: c)
  obtain l r p where r: "predict_label (\<lambda>_ _. [1 / 4, 3 / 4]) demo_model [] = Some (l, r, p)"
    "l \<in> set BASE_LABELS" "\<forall>i < length (gm_classes demo_model). p (gm_classes demo_model ! i) = [1 / 4, 3 / 4] ! i"
    "\<forall>b. b \<notin> set (gm_classes demo_model) \<longrightarrow> p b = 0"
    using predict_label_argmax [of demo_model "\<lambda>_ _. [1 / 4, 3 / 4]" "[]", OF a] by blast
  have "p ''pb'' = 3 / 4" using r(3) [rule_format, of 1] by (simp add: c)
  moreover have "p ''nd'' = 0" using r(4) by (simp add: c)
  ultimately show ?thesis using r(1,2) by blast
qed

section \<open>The artifact table\<close>

definition KIND_GBM :: string where "KIND_GBM = ''gbm''"
definition KIND_CALIB :: string where "KIND_CALIB = ''calib''"

datatype 'm blob = GbmBlob "'m gbm_model" | CalibBlob knots

text \<open>A specification to persist; of its metrics only the \<open>rejected\<close> mark is read back.\<close>

record 'm artifact_spec =
  as_kind :: string
  as_project_id :: "int option"
  as_version :: string
  as_feature_schema_ver :: int
  as_blob :: "'m blob"
  as_n_events :: int
  as_rejected :: bool

record 'm artifact =
  ar_model_id :: int
  ar_spec :: "'m artifact_spec"
  ar_is_active :: bool
  ar_trained_at :: seconds

record 'm model_store =
  ms_rows :: "'m artifact list"
  ms_next_id :: int

definition model_store_init :: "'m model_store" where
  "model_store_init = \<lparr>ms_rows = [], ms_next_id = 1\<rparr>"

definition active_key :: "'m artifact \<Rightarrow> string \<times> int option" where
  "active_key r = (as_kind (ar_spec r), as_project_id (ar_spec r))"

text \<open>
  \<open>_insert\<close>. The partial unique index allows one active row per kind and project; a violation is an
  error, and the transaction around it rolls back.
\<close>

definition insert_row ::
  "seconds \<Rightarrow> 'm artifact_spec \<Rightarrow> bool \<Rightarrow> 'm model_store \<Rightarrow> (int \<times> 'm model_store) option" where
  "insert_row now spec is_active s =
     (let r = \<lparr>ar_model_id = ms_next_id s, ar_spec = spec, ar_is_active = is_active, ar_trained_at = now\<rparr> in
      if is_active \<and> (\<exists>q \<in> set (ms_rows s). ar_is_active q \<and> active_key q = active_key r) then None
      else Some (ms_next_id s, s\<lparr>ms_rows := ms_rows s @ [r], ms_next_id := ms_next_id s + 1\<rparr>))"

definition deactivate :: "('m artifact \<Rightarrow> bool) \<Rightarrow> 'm model_store \<Rightarrow> 'm model_store" where
  "deactivate p s = s\<lparr>ms_rows := map (\<lambda>r. if p r then r\<lparr>ar_is_active := False\<rparr> else r) (ms_rows s)\<rparr>"

fun insert_all :: "seconds \<Rightarrow> 'm artifact_spec list \<Rightarrow> 'm model_store \<Rightarrow> 'm model_store option" where
  "insert_all now [] s = Some s"
| "insert_all now (spec # specs) s =
     (case insert_row now spec True s of None \<Rightarrow> None | Some (i, s') \<Rightarrow> insert_all now specs s')"

definition ship ::
  "seconds \<Rightarrow> 'm artifact_spec \<Rightarrow> 'm artifact_spec list \<Rightarrow> 'm model_store \<Rightarrow> (int \<times> 'm model_store) option" where
  "ship now gbm calibrators s =
     (let s0 = deactivate (\<lambda>r. ar_is_active r \<and> as_kind (ar_spec r) \<in> {KIND_GBM, KIND_CALIB}) s in
      case insert_row now gbm True s0 of
        None \<Rightarrow> None
      | Some (i, s1) \<Rightarrow> map_option (Pair i) (insert_all now calibrators s1))"

definition save_artifact ::
  "seconds \<Rightarrow> 'm artifact_spec \<Rightarrow> bool \<Rightarrow> 'm model_store \<Rightarrow> (int \<times> 'm model_store) option" where
  "save_artifact now spec activate s =
     (let s0 = (if activate
                then deactivate (\<lambda>r. ar_is_active r \<and> active_key r = (as_kind spec, as_project_id spec)) s
                else s)
      in insert_row now spec activate s0)"

definition is_active_gbm :: "'m artifact \<Rightarrow> bool" where
  "is_active_gbm r \<longleftrightarrow> as_kind (ar_spec r) = KIND_GBM \<and> as_project_id (ar_spec r) = None \<and> ar_is_active r"

definition load_active_gbm :: "'m model_store \<Rightarrow> 'm artifact option" where
  "load_active_gbm s = List.find is_active_gbm (ms_rows s)"

definition active_gbm_version :: "'m model_store \<Rightarrow> (int \<times> string) option" where
  "active_gbm_version s = map_option (\<lambda>r. (ar_model_id r, as_version (ar_spec r))) (load_active_gbm s)"

definition load_active_calibrators :: "'m model_store \<Rightarrow> 'm artifact list" where
  "load_active_calibrators s =
     filter (\<lambda>r. as_kind (ar_spec r) = KIND_CALIB \<and> ar_is_active r) (ms_rows s)"

definition last_trained_at :: "string \<Rightarrow> 'm model_store \<Rightarrow> seconds option" where
  "last_trained_at kind s =
     py_max (\<lambda>t. t) (map ar_trained_at (filter (\<lambda>r. as_kind (ar_spec r) = kind) (ms_rows s)))"

definition last_shipped_at :: "string \<Rightarrow> 'm model_store \<Rightarrow> seconds option" where
  "last_shipped_at kind s =
     py_max (\<lambda>t. t) (map ar_trained_at
       (filter (\<lambda>r. as_kind (ar_spec r) = kind \<and> \<not> as_rejected (ar_spec r)) (ms_rows s)))"

section \<open>Invariant of the store\<close>

definition model_store_ok :: "'m model_store \<Rightarrow> bool" where
  "model_store_ok s \<longleftrightarrow>
     (\<forall>r \<in> set (ms_rows s). ar_model_id r < ms_next_id s)
     \<and> distinct (map ar_model_id (ms_rows s))
     \<and> distinct (map active_key (filter ar_is_active (ms_rows s)))"

lemma insert_row_ok:
  assumes "model_store_ok s" and "insert_row now spec a s = Some (i, s')"
  shows "model_store_ok s' \<and> i = ms_next_id s \<and> ms_next_id s' = ms_next_id s + 1
    \<and> ms_rows s' = ms_rows s @ [\<lparr>ar_model_id = ms_next_id s, ar_spec = spec, ar_is_active = a, ar_trained_at = now\<rparr>]"
  using assms
  by (fastforce simp: model_store_ok_def insert_row_def Let_def split: if_splits)

lemma deactivate_ids: "map ar_model_id (ms_rows (deactivate p s)) = map ar_model_id (ms_rows s)"
  by (simp add: deactivate_def comp_def if_distrib cong: if_cong)

lemma deactivate_actives:
  "filter ar_is_active (ms_rows (deactivate p s)) = filter (\<lambda>r. ar_is_active r \<and> \<not> p r) (ms_rows s)"
proof -
  have "filter ar_is_active (map (\<lambda>r. if p r then r\<lparr>ar_is_active := False\<rparr> else r) rs)
      = filter (\<lambda>r. ar_is_active r \<and> \<not> p r) rs" for rs :: "'a artifact list"
    by (induction rs) auto
  then show ?thesis by (simp add: deactivate_def)
qed

lemma deactivate_ok: "model_store_ok s \<Longrightarrow> model_store_ok (deactivate p s)"
proof -
  assume ok: "model_store_ok s"
  have "distinct (map active_key (filter (\<lambda>r. ar_is_active r \<and> \<not> p r) (ms_rows s)))"
    using ok distinct_map_filter [of active_key "filter ar_is_active (ms_rows s)" "\<lambda>r. \<not> p r"]
    by (simp add: model_store_ok_def)
  moreover have "\<forall>r \<in> set (ms_rows (deactivate p s)). ar_model_id r < ms_next_id s"
    using ok by (auto simp: deactivate_def model_store_ok_def)
  moreover have "ms_next_id (deactivate p s) = ms_next_id s" by (simp add: deactivate_def)
  ultimately show ?thesis
    using ok unfolding model_store_ok_def deactivate_ids deactivate_actives by simp
qed

definition new_rows :: "seconds \<Rightarrow> int \<Rightarrow> 'm artifact_spec list \<Rightarrow> 'm artifact list" where
  "new_rows now i specs =
     map (\<lambda>(k, spec). \<lparr>ar_model_id = i + int k, ar_spec = spec, ar_is_active = True, ar_trained_at = now\<rparr>)
       (enumerate 0 specs)"

lemma new_rows_Cons:
  "new_rows now i (spec # specs) = \<lparr>ar_model_id = i, ar_spec = spec, ar_is_active = True, ar_trained_at = now\<rparr>
     # new_rows now (i + 1) specs"
proof -
  have "enumerate 1 specs = map (\<lambda>(k, x). (k + 1, x)) (enumerate 0 specs)"
    by (simp add: enumerate_eq_zip zip_map1 [symmetric] map_Suc_upt)
  then show ?thesis by (simp add: new_rows_def case_prod_unfold comp_def)
qed

lemma insert_all_ok:
  assumes "model_store_ok s" and "insert_all now specs s = Some s'"
  shows "model_store_ok s' \<and> ms_rows s' = ms_rows s @ new_rows now (ms_next_id s) specs
    \<and> ms_next_id s' = ms_next_id s + int (length specs)"
  using assms
proof (induction now specs s rule: insert_all.induct)
  case (1 now s)
  then show ?case by (simp add: new_rows_def)
next
  case (2 now spec specs s)
  then obtain i s1 where i: "insert_row now spec True s = Some (i, s1)" "insert_all now specs s1 = Some s'"
    by (auto split: option.splits)
  note r = insert_row_ok [OF "2.prems"(1) i(1)]
  have "model_store_ok s' \<and> ms_rows s' = ms_rows s1 @ new_rows now (ms_next_id s1) specs
    \<and> ms_next_id s' = ms_next_id s1 + int (length specs)"
    using "2.IH" [OF i(1) refl _ i(2)] r by blast
  then show ?case using r by (simp add: new_rows_Cons)
qed

lemma insert_all_total:
  assumes "model_store_ok s"
    and "\<forall>q \<in> set (ms_rows s). ar_is_active q \<longrightarrow> active_key q \<notin> (\<lambda>c. (as_kind c, as_project_id c)) ` set specs"
    and "distinct (map (\<lambda>c. (as_kind c, as_project_id c)) specs)"
  shows "\<exists>s'. insert_all now specs s = Some s'"
  using assms
proof (induction specs arbitrary: s)
  case Nil
  then show ?case by simp
next
  case (Cons spec specs)
  let ?r = "\<lparr>ar_model_id = ms_next_id s, ar_spec = spec, ar_is_active = True, ar_trained_at = now\<rparr>"
  have "\<not> (\<exists>q \<in> set (ms_rows s). ar_is_active q \<and> active_key q = active_key ?r)"
    using Cons.prems(2) by (auto simp: active_key_def)
  then obtain i s1 where i: "insert_row now spec True s = Some (i, s1)"
    by (simp add: insert_row_def Let_def)
  note r = insert_row_ok [OF Cons.prems(1) i]
  have "\<exists>s'. insert_all now specs s1 = Some s'"
  proof (rule Cons.IH)
    show "model_store_ok s1" using r by simp
    show "\<forall>q \<in> set (ms_rows s1). ar_is_active q \<longrightarrow> active_key q \<notin> (\<lambda>c. (as_kind c, as_project_id c)) ` set specs"
      using r Cons.prems(2,3) by (auto simp: active_key_def)
    show "distinct (map (\<lambda>c. (as_kind c, as_project_id c)) specs)" using Cons.prems(3) by simp
  qed
  then show ?case using i by simp
qed

definition calib_specs_ok :: "'m artifact_spec list \<Rightarrow> bool" where
  "calib_specs_ok cs \<longleftrightarrow> (\<forall>c \<in> set cs. as_kind c = KIND_CALIB) \<and> distinct (map as_project_id cs)"

lemma kinds_differ: "KIND_GBM \<noteq> KIND_CALIB"
  by (simp add: KIND_GBM_def KIND_CALIB_def)

lemma new_rows_props:
  "map ar_spec (new_rows now i specs) = specs" "\<forall>r \<in> set (new_rows now i specs). ar_is_active r"
  by (induction specs arbitrary: i) (simp_all add: new_rows_Cons, simp_all add: new_rows_def)

lemma find_append: "List.find p (xs @ ys) = (case List.find p xs of None \<Rightarrow> List.find p ys | Some z \<Rightarrow> Some z)"
  by (induction xs) auto

lemma filter_find_append:
  "\<forall>r \<in> set xs. \<not> p r \<Longrightarrow> p y \<Longrightarrow> List.find p (xs @ y # zs) = Some y"
  by (induction xs) auto

lemma ship_effect:
  assumes "model_store_ok s" and "as_kind gbm = KIND_GBM" "as_project_id gbm = None"
    and "calib_specs_ok cs"
  shows "\<exists>i s'. ship now gbm cs s = Some (i, s') \<and> model_store_ok s'
    \<and> map_option (\<lambda>r. (ar_model_id r, ar_spec r)) (load_active_gbm s') = Some (i, gbm)
    \<and> map ar_spec (load_active_calibrators s') = cs
    \<and> i \<notin> ar_model_id ` set (ms_rows s)
    \<and> (\<forall>r \<in> set (ms_rows s). \<exists>r' \<in> set (ms_rows s'). ar_model_id r' = ar_model_id r \<and> ar_spec r' = ar_spec r)"
proof -
  define p where "p r \<longleftrightarrow> ar_is_active r \<and> as_kind (ar_spec r) \<in> {KIND_GBM, KIND_CALIB}" for r :: "'a artifact"
  let ?s0 = "deactivate p s"
  let ?g = "\<lparr>ar_model_id = ms_next_id s, ar_spec = gbm, ar_is_active = True, ar_trained_at = now\<rparr>"
  have ok0: "model_store_ok ?s0" by (rule deactivate_ok [OF assms(1)])
  have next0: "ms_next_id ?s0 = ms_next_id s" by (simp add: deactivate_def)
  have off: "\<forall>r \<in> set (ms_rows ?s0). ar_is_active r \<longrightarrow> as_kind (ar_spec r) \<notin> {KIND_GBM, KIND_CALIB}"
    by (auto simp: deactivate_def p_def)
  have "\<not> (\<exists>q \<in> set (ms_rows ?s0). ar_is_active q \<and> active_key q = active_key ?g)"
    using off assms(2) by (auto simp: active_key_def)
  then obtain s1 where g: "insert_row now gbm True ?s0 = Some (ms_next_id s, s1)"
    by (auto simp: insert_row_def Let_def next0)
  note r1 = insert_row_ok [OF ok0 g, unfolded next0]
  have free: "\<forall>q \<in> set (ms_rows s1). ar_is_active q
      \<longrightarrow> active_key q \<notin> (\<lambda>c. (as_kind c, as_project_id c)) ` set cs"
    using r1 off assms(2,4) kinds_differ by (auto simp: active_key_def calib_specs_ok_def)
  have "map (\<lambda>c. (as_kind c, as_project_id c)) cs = map (Pair KIND_CALIB) (map as_project_id cs)"
    using assms(4) by (simp add: calib_specs_ok_def)
  then have dist: "distinct (map (\<lambda>c. (as_kind c, as_project_id c)) cs)"
    using assms(4) by (simp add: calib_specs_ok_def distinct_map comp_inj_on inj_on_def)
  from r1 have ok1: "model_store_ok s1" by blast
  obtain s2 where c: "insert_all now cs s1 = Some s2"
    using insert_all_total [OF ok1 free dist] by blast
  note r2 = insert_all_ok [OF ok1 c]
  have rows: "ms_rows s2 = ms_rows ?s0 @ ?g # new_rows now (ms_next_id s1) cs" using r1 r2 by simp
  have sh: "ship now gbm cs s = Some (ms_next_id s, s2)"
    using g c unfolding ship_def p_def [abs_def, symmetric] by (simp add: Let_def p_def [abs_def])
  have a: "load_active_gbm s2 = Some ?g"
    unfolding load_active_gbm_def rows
    by (rule filter_find_append) (use off assms(2,3) in \<open>auto simp: is_active_gbm_def\<close>)
  have old: "filter (\<lambda>r. as_kind (ar_spec r) = KIND_CALIB \<and> ar_is_active r) (ms_rows ?s0) = []"
    using off by (auto simp: filter_empty_conv)
  have ncs: "as_kind (ar_spec r) = KIND_CALIB" if "r \<in> set (new_rows now k cs)" for r k
  proof -
    have "ar_spec r \<in> set (map ar_spec (new_rows now k cs))" using that by simp
    then show ?thesis using assms(4) unfolding new_rows_props(1) by (simp add: calib_specs_ok_def)
  qed
  have act: "ar_is_active r" if "r \<in> set (new_rows now k cs)" for r k
    using that new_rows_props(2) by blast
  have "load_active_calibrators s2 = new_rows now (ms_next_id s1) cs"
    unfolding load_active_calibrators_def rows filter_append old
    using ncs act assms(2) kinds_differ by (auto simp: filter_id_conv)
  then have b: "map ar_spec (load_active_calibrators s2) = cs" by (simp add: new_rows_props(1))
  have fresh: "ms_next_id s \<notin> ar_model_id ` set (ms_rows s)" using assms(1) by (force simp: model_store_ok_def)
  have hist: "\<exists>r' \<in> set (ms_rows s2). ar_model_id r' = ar_model_id r \<and> ar_spec r' = ar_spec r"
    if "r \<in> set (ms_rows s)" for r
    using that by (intro bexI [of _ "if p r then r\<lparr>ar_is_active := False\<rparr> else r"])
      (auto simp: rows deactivate_def)
  show ?thesis using sh r2 a b fresh hist
    by (intro exI [of _ "ms_next_id s"] exI [of _ s2]) auto
qed

text \<open>
  C12. Shipping swaps the whole live set at once. In a well-formed store, shipping a model with
  calibrators for distinct projects always succeeds; afterwards exactly the new model and exactly
  the new calibrators are live, under a fresh id, no two live rows share a key, and no row of the
  history is lost. If it fails there is no new store.
\<close>

theorem ship_replaces_live_set:
  assumes "model_store_ok s" and "as_kind gbm = KIND_GBM" "as_project_id gbm = None"
    and "calib_specs_ok cs"
  shows "\<exists>i s'. ship now gbm cs s = Some (i, s') \<and> model_store_ok s'
    \<and> map_option (\<lambda>r. (ar_model_id r, ar_spec r)) (load_active_gbm s') = Some (i, gbm)
    \<and> map ar_spec (load_active_calibrators s') = cs
    \<and> i \<notin> ar_model_id ` set (ms_rows s)
    \<and> (\<forall>r \<in> set (ms_rows s). \<exists>r' \<in> set (ms_rows s'). ar_model_id r' = ar_model_id r \<and> ar_spec r' = ar_spec r)"
  by (rule ship_effect [OF assms])

definition demo_spec :: "int \<Rightarrow> unit artifact_spec" where
  "demo_spec n = \<lparr>as_kind = KIND_GBM, as_project_id = None, as_version = ''v'',
     as_feature_schema_ver = FEATURE_SCHEMA_VER, as_blob = GbmBlob demo_model, as_n_events = n, as_rejected = False\<rparr>"

definition demo_calib :: "int option \<Rightarrow> unit artifact_spec" where
  "demo_calib p = \<lparr>as_kind = KIND_CALIB, as_project_id = p, as_version = ''v'',
     as_feature_schema_ver = FEATURE_SCHEMA_VER, as_blob = CalibBlob [(0, 0), (1, 1)], as_n_events = 9,
     as_rejected = False\<rparr>"

lemma demo_specs_ok:
  "as_kind (demo_spec n) = KIND_GBM" "as_project_id (demo_spec n) = None"
  "calib_specs_ok [demo_calib None, demo_calib (Some 7)]"
  by (simp_all add: demo_spec_def demo_calib_def calib_specs_ok_def)

lemma model_store_init_ok: "model_store_ok model_store_init"
  by (simp add: model_store_ok_def model_store_init_def)

theorem ship_replaces_live_set_witness:
  "\<exists>i s'. ship 10 (demo_spec 60) [demo_calib None, demo_calib (Some 7)] model_store_init = Some (i, s')
     \<and> map ar_spec (load_active_calibrators s') = [demo_calib None, demo_calib (Some 7)]"
  using ship_replaces_live_set [OF model_store_init_ok demo_specs_ok, of 10 60] by (elim exE conjE) (intro exI conjI)

section \<open>Serving\<close>

record 'm serving_state =
  sv_model :: "'m gbm_model option"
  sv_version :: "string option"
  sv_model_id :: "int option"
  sv_calibrators :: "int option \<rightharpoonup> knots"

definition empty_serving :: "'m serving_state" where
  "empty_serving = \<lparr>sv_model = None, sv_version = None, sv_model_id = None, sv_calibrators = Map.empty\<rparr>"

record 'm predictor =
  pr_state :: "'m serving_state"
  pr_last_check :: seconds
  pr_checked :: bool

definition predictor_init :: "'m predictor" where
  "predictor_init = \<lparr>pr_state = empty_serving, pr_last_check = 0, pr_checked = False\<rparr>"

text \<open>
  The dictionary of calibrators, filled in the order of the rows; a row of another schema is
  skipped, and a blob of the wrong kind raises (\<open>None\<close>).
\<close>

fun calib_map :: "'m artifact list \<Rightarrow> (int option \<rightharpoonup> knots) \<Rightarrow> (int option \<rightharpoonup> knots) option" where
  "calib_map [] d = Some d"
| "calib_map (r # rs) d =
     (if as_feature_schema_ver (ar_spec r) \<noteq> FEATURE_SCHEMA_VER then calib_map rs d
      else (case as_blob (ar_spec r) of
              CalibBlob ks \<Rightarrow> calib_map rs (d(as_project_id (ar_spec r) \<mapsto> ks))
            | GbmBlob _ \<Rightarrow> None))"

text \<open>
  \<open>_build_state\<close>: two statements, so the store may change between them. \<open>s\<close> is the store the model
  is read from, \<open>s'\<close> the one the calibrators are read from.
\<close>

definition build_state :: "'m model_store \<Rightarrow> 'm model_store \<Rightarrow> 'm serving_state option" where
  "build_state s s' =
     (case load_active_gbm s of
        None \<Rightarrow> Some empty_serving
      | Some rec \<Rightarrow>
          if as_feature_schema_ver (ar_spec rec) \<noteq> FEATURE_SCHEMA_VER then Some empty_serving
          else (case as_blob (ar_spec rec) of
                  CalibBlob _ \<Rightarrow> None
                | GbmBlob m \<Rightarrow>
                    map_option (\<lambda>cs. \<lparr>sv_model = Some m, sv_version = Some (as_version (ar_spec rec)),
                                     sv_model_id = Some (ar_model_id rec), sv_calibrators = cs\<rparr>)
                      (calib_map (load_active_calibrators s') Map.empty)))"

text \<open>
  \<open>_ensure_current\<close> once it is due; \<open>s0\<close> is the store the cheap version query sees. An error while
  loading leaves the predictor serving what it had.
\<close>

definition ensure_current ::
  "seconds \<Rightarrow> seconds \<Rightarrow> 'm model_store \<Rightarrow> 'm model_store \<Rightarrow> 'm model_store \<Rightarrow> 'm predictor \<Rightarrow> 'm predictor" where
  "ensure_current now interval s0 s s' p =
     (if pr_checked p \<and> now - pr_last_check p < interval then p
      else (let p' = p\<lparr>pr_last_check := now, pr_checked := True\<rparr> in
            case active_gbm_version s0 of
              None \<Rightarrow> (if sv_model (pr_state p) \<noteq> None then p'\<lparr>pr_state := empty_serving\<rparr> else p')
            | Some (model_id, _) \<Rightarrow>
                if sv_model_id (pr_state p) = Some model_id then p'
                else (case build_state s s' of
                        None \<Rightarrow> p'
                      | Some st \<Rightarrow> p'\<lparr>pr_state := st\<rparr>)))"

definition refresh ::
  "seconds \<Rightarrow> seconds \<Rightarrow> 'm model_store \<Rightarrow> 'm model_store \<Rightarrow> 'm model_store \<Rightarrow> 'm predictor \<Rightarrow> 'm predictor" where
  "refresh now interval s0 s s' p =
     ensure_current now interval s0 s s' (p\<lparr>pr_last_check := 0, pr_checked := False\<rparr>)"

record gbm_prediction =
  gp_label :: string
  gp_max_prob :: real
  gp_raw_max_prob :: real
  gp_probs :: "string \<Rightarrow> real"
  gp_model_version :: string
  gp_calibrated :: bool

definition predict ::
  "('m \<Rightarrow> real list \<Rightarrow> real list) \<Rightarrow> 'm predictor \<Rightarrow> feats \<Rightarrow> int \<Rightarrow> gbm_prediction option" where
  "predict booster p features project_id =
     (let st = pr_state p in
      case sv_model st of
        None \<Rightarrow> None
      | Some m \<Rightarrow>
          (case predict_label booster m (to_vector_for features (gm_feature_names m)) of
             None \<Rightarrow> None
           | Some (label, raw, probs) \<Rightarrow>
               (let cal = (case sv_calibrators st (Some project_id) of
                             Some ks \<Rightarrow> Some ks | None \<Rightarrow> sv_calibrators st None)
                in Some \<lparr>gp_label = label,
                         gp_max_prob = (case cal of Some ks \<Rightarrow> calib_predict ks raw | None \<Rightarrow> raw),
                         gp_raw_max_prob = raw, gp_probs = probs,
                         gp_model_version = (case sv_version st of None \<Rightarrow> [] | Some v \<Rightarrow> v),
                         gp_calibrated = (cal \<noteq> None)\<rparr>)))"

section \<open>Hot swap\<close>

text \<open>What other processes do to the store: ship a model, or keep an inactive audit row.\<close>

inductive store_step :: "'m model_store \<Rightarrow> 'm model_store \<Rightarrow> bool" where
  ships: "as_kind gbm = KIND_GBM \<Longrightarrow> as_project_id gbm = None \<Longrightarrow> calib_specs_ok cs
    \<Longrightarrow> ship now gbm cs s = Some (i, s') \<Longrightarrow> store_step s s'"
| audits: "save_artifact now spec False s = Some (i, s') \<Longrightarrow> store_step s s'"

abbreviation store_grows :: "'m model_store \<Rightarrow> 'm model_store \<Rightarrow> bool" where
  "store_grows \<equiv> store_step^**"

definition live :: "'m model_store \<Rightarrow> 'm artifact option \<times> 'm artifact list" where
  "live s = (load_active_gbm s, load_active_calibrators s)"

definition later :: "'m model_store \<Rightarrow> 'm model_store \<Rightarrow> bool" where
  "later s t \<longleftrightarrow> model_store_ok t \<and> ms_next_id s \<le> ms_next_id t
     \<and> (live t = live s \<or> (\<exists>r. load_active_gbm t = Some r \<and> ms_next_id s \<le> ar_model_id r))"

lemma active_gbm_id_less: "model_store_ok s \<Longrightarrow> load_active_gbm s = Some r \<Longrightarrow> ar_model_id r < ms_next_id s"
  by (auto simp: load_active_gbm_def find_Some_iff model_store_ok_def)

lemma ship_next_id:
  assumes "model_store_ok s" "ship now gbm cs s = Some (i, s')"
  shows "ms_next_id s \<le> ms_next_id s' \<and> i = ms_next_id s"
proof -
  let ?s0 = "deactivate (\<lambda>r. ar_is_active r \<and> as_kind (ar_spec r) \<in> {KIND_GBM, KIND_CALIB}) s"
  have ok0: "model_store_ok ?s0" by (rule deactivate_ok [OF assms(1)])
  have n0: "ms_next_id ?s0 = ms_next_id s" by (simp add: deactivate_def)
  from assms(2) obtain s1 where g: "insert_row now gbm True ?s0 = Some (i, s1)" "insert_all now cs s1 = Some s'"
    unfolding ship_def Let_def by (auto split: option.splits)
  note r1 = insert_row_ok [OF ok0 g(1), unfolded n0]
  then show ?thesis using insert_all_ok [OF _ g(2)] by auto
qed

lemma audit_row_keeps_live:
  assumes "model_store_ok s" and "save_artifact now spec False s = Some (i, t)"
  shows "model_store_ok t" "live t = live s" "ms_next_id s \<le> ms_next_id t"
    "as_rejected spec \<Longrightarrow> last_shipped_at kind t = last_shipped_at kind s"
proof -
  have "insert_row now spec False s = Some (i, t)" using assms(2) by (simp add: save_artifact_def)
  note r = insert_row_ok [OF assms(1) this]
  have "load_active_gbm t = load_active_gbm s"
    using r by (simp add: load_active_gbm_def find_append is_active_gbm_def split: option.split)
  moreover have "load_active_calibrators t = load_active_calibrators s"
    using r by (simp add: load_active_calibrators_def)
  ultimately show "live t = live s" by (simp add: live_def)
  show "model_store_ok t" "ms_next_id s \<le> ms_next_id t" using r by simp_all
  show "last_shipped_at kind t = last_shipped_at kind s" if "as_rejected spec"
    using r that by (simp add: last_shipped_at_def)
qed

lemma store_step_later:
  assumes "model_store_ok s" and "store_step s t"
  shows "later s t"
  using assms(2)
proof cases
  case (ships gbm cs now i)
  obtain i2 t2 where sh: "ship now gbm cs s = Some (i2, t2)" "model_store_ok t2"
    "map_option (\<lambda>r. (ar_model_id r, ar_spec r)) (load_active_gbm t2) = Some (i2, gbm)"
    using ship_effect [OF assms(1) ships(1-3), of now] by (elim exE conjE)
  then have "t2 = t" "i2 = i" using ships(4) by simp_all
  with sh have ok: "model_store_ok t"
    "map_option (\<lambda>r. (ar_model_id r, ar_spec r)) (load_active_gbm t) = Some (i, gbm)" by simp_all
  then obtain r where r: "load_active_gbm t = Some r" "ar_model_id r = i" by auto
  show ?thesis using ok(1) r ship_next_id [OF assms(1) ships(4)] by (auto simp: later_def)
next
  case (audits now spec i)
  then show ?thesis using audit_row_keeps_live [OF assms(1)] by (simp add: later_def)
qed

lemma later_trans: "later s t \<Longrightarrow> later t u \<Longrightarrow> later s u"
  by (auto simp: later_def live_def)

lemma store_grows_later:
  assumes "store_grows s t" and "model_store_ok s"
  shows "later s t"
  using assms
proof (induction rule: rtranclp_induct)
  case base
  then show ?case by (simp add: later_def)
next
  case (step t u)
  then have "model_store_ok t" by (simp add: later_def)
  from later_trans [OF step.IH [OF step.prems] store_step_later [OF this step.hyps(2)]]
  show ?case .
qed

lemma store_grows_ok: "store_grows s t \<Longrightarrow> model_store_ok s \<Longrightarrow> model_store_ok t"
  using store_grows_later by (auto simp: later_def)

text \<open>Between two moments at which the same model is live, nothing was shipped.\<close>

lemma same_model_same_live:
  assumes "model_store_ok s" and "store_grows s t" and "store_grows t u"
    and "load_active_gbm s = Some r" and "load_active_gbm u = Some r'" and "ar_model_id r' = ar_model_id r"
  shows "live t = live s \<and> live u = live s"
proof -
  have st: "later s t" by (rule store_grows_later [OF assms(2,1)])
  then have tu: "later t u" using store_grows_later [OF assms(3)] by (simp add: later_def)
  have lt: "ar_model_id r' < ms_next_id s" using active_gbm_id_less [OF assms(1,4)] assms(6) by simp
  have "live u = live t" using tu st lt assms(5) by (auto simp: later_def)
  moreover have "live t = live s"
  proof (rule ccontr)
    assume "live t \<noteq> live s"
    then obtain q where "load_active_gbm t = Some q" "ms_next_id s \<le> ar_model_id q"
      using st by (auto simp: later_def)
    then show False using \<open>live u = live t\<close> assms(5) lt by (auto simp: live_def)
  qed
  ultimately show ?thesis by simp
qed

text \<open>
  A predictor and the store it watches. A check reads the store three times, and the store may grow
  before, between and after the reads.
\<close>

inductive serving_run :: "seconds \<Rightarrow> 'm predictor \<Rightarrow> 'm model_store \<Rightarrow> bool" for interval where
  begins: "model_store_ok s \<Longrightarrow> serving_run interval predictor_init s"
| grows: "serving_run interval p s \<Longrightarrow> store_grows s s' \<Longrightarrow> serving_run interval p s'"
| checks: "serving_run interval p s \<Longrightarrow> store_grows s s1 \<Longrightarrow> store_grows s1 s2
    \<Longrightarrow> serving_run interval (ensure_current now interval s s1 s2 p) s2"
| forced: "serving_run interval p s \<Longrightarrow> store_grows s s1 \<Longrightarrow> store_grows s1 s2
    \<Longrightarrow> serving_run interval (refresh now interval s s1 s2 p) s2"

definition built_from :: "'m serving_state \<Rightarrow> 'm model_store \<Rightarrow> bool" where
  "built_from st s \<longleftrightarrow> st = empty_serving
     \<or> (\<exists>a b. model_store_ok a \<and> store_grows a b \<and> store_grows b s \<and> build_state a b = Some st)"

lemma built_from_grows: "built_from st s \<Longrightarrow> store_grows s s' \<Longrightarrow> built_from st s'"
  unfolding built_from_def by (meson rtranclp_trans)

lemma ensure_current_built:
  assumes "built_from (pr_state p) s" "model_store_ok s" "store_grows s s1" "store_grows s1 s2"
  shows "built_from (pr_state (ensure_current now interval s s1 s2 p)) s2"
proof -
  have old: "built_from (pr_state p) s2"
    using built_from_grows [OF built_from_grows [OF assms(1,3)] assms(4)] .
  have ok1: "model_store_ok s1" using store_grows_later [OF assms(3,2)] by (simp add: later_def)
  have new: "built_from st s2" if "build_state s1 s2 = Some st" for st
    using that ok1 assms(4) unfolding built_from_def by blast
  have e: "built_from empty_serving s2" by (simp add: built_from_def)
  show ?thesis
    using old new e by (auto simp: ensure_current_def Let_def split: option.splits)
qed

lemma serving_run_ok:
  assumes "serving_run interval p s"
  shows "model_store_ok s \<and> built_from (pr_state p) s"
  using assms
proof (induction rule: serving_run.induct)
  case (begins s)
  then show ?case by (simp add: predictor_init_def built_from_def)
next
  case (grows p s s')
  then show ?case using built_from_grows store_grows_ok by blast
next
  case (checks p s s1 s2 now)
  then show ?case using ensure_current_built [of p s s1 s2 now interval] store_grows_ok by blast
next
  case (forced p s s1 s2 now)
  then show ?case
    using ensure_current_built [of "p\<lparr>pr_last_check := 0, pr_checked := False\<rparr>" s s1 s2 now interval]
      store_grows_ok [of s s1] store_grows_ok [of s1 s2] by (simp add: refresh_def)
qed

lemma build_state_facts:
  assumes "build_state a b = Some st" and "sv_model_id st = Some i"
  shows "\<exists>r. load_active_gbm a = Some r \<and> ar_model_id r = i"
  using assms by (auto simp: build_state_def empty_serving_def split: option.splits if_splits blob.splits)

lemma build_state_live:
  "live a = live b \<Longrightarrow> build_state a c = build_state b c"
  "live a = live b \<Longrightarrow> build_state c a = build_state c b"
  unfolding build_state_def live_def prod.inject by (elim conjE, simp only:)+

text \<open>
  Serving catches up. However ships, audits and earlier checks interleaved, a forced refresh
  that meets a store at rest serves exactly its live set: the active model with its own calibrators
  under its own version, or the rules when no usable model is active. So a state that mixed two
  ships does not survive the next reload.
\<close>

theorem serving_catches_up:
  assumes "serving_run interval p s" and "build_state s s = Some st"
    and "load_active_gbm s \<noteq> None"
  shows "pr_state (refresh now interval s s s p) = st"
proof -
  obtain r where r: "load_active_gbm s = Some r" using assms(3) by auto
  have v: "active_gbm_version s = Some (ar_model_id r, as_version (ar_spec r))"
    by (simp add: active_gbm_version_def r)
  show ?thesis
  proof (cases "sv_model_id (pr_state p) = Some (ar_model_id r)")
    case False
    then show ?thesis using assms(2) by (simp add: refresh_def ensure_current_def v)
  next
    case True
    then have ne: "pr_state p \<noteq> empty_serving" by (auto simp: empty_serving_def)
    then obtain a b where ab: "model_store_ok a" "store_grows a b" "store_grows b s"
      "build_state a b = Some (pr_state p)"
      using serving_run_ok [OF assms(1)] by (auto simp: built_from_def)
    obtain q where q: "load_active_gbm a = Some q" "ar_model_id q = ar_model_id r"
      using build_state_facts [OF ab(4) True] by auto
    have l: "live b = live a" "live s = live a"
      using same_model_same_live [OF ab(1-3) q(1) r] q(2) by simp_all
    have "build_state a b = build_state s s"
      using build_state_live(1) [OF l(2), of s] build_state_live(2) [of b s a] l by simp
    then have "pr_state p = st" using ab(4) assms(2) by simp
    then show ?thesis using True by (simp add: refresh_def ensure_current_def v)
  qed
qed

text \<open>A store with one shipped model, and the store after a second ship.\<close>

definition demo_store :: "unit model_store" where
  "demo_store = snd (the (ship 10 (demo_spec 60) [demo_calib None] model_store_init))"

definition demo_store2 :: "unit model_store" where
  "demo_store2 = snd (the (ship 20 (demo_spec 90) [demo_calib (Some 7)] demo_store))"

lemma demo_ship:
  "ship 10 (demo_spec 60) [demo_calib None] model_store_init = Some (1, demo_store)"
  "ship 20 (demo_spec 90) [demo_calib (Some 7)] demo_store = Some (3, demo_store2)"
  by (simp_all add: demo_store_def demo_store2_def ship_def insert_row_def deactivate_def Let_def
      model_store_init_def demo_spec_def demo_calib_def active_key_def KIND_GBM_def KIND_CALIB_def)

lemma demo_calibs_ok: "calib_specs_ok [demo_calib p]"
  by (simp add: calib_specs_ok_def demo_calib_def)

lemma demo_store_run: "serving_run 30 predictor_init demo_store"
  by (rule serving_run.grows [OF serving_run.begins [OF model_store_init_ok]])
    (rule r_into_rtranclp, rule store_step.ships [OF demo_specs_ok(1,2) demo_calibs_ok demo_ship(1)])

lemma demo_store_live:
  "\<exists>r. load_active_gbm demo_store = Some r \<and> ar_spec r = demo_spec 60 \<and> ar_model_id r = 1"
  "map ar_spec (load_active_calibrators demo_store) = [demo_calib None]"
  "map ar_spec (load_active_calibrators demo_store2) = [demo_calib (Some 7)]"
  by (simp_all add: demo_store_def demo_store2_def ship_def insert_row_def deactivate_def Let_def
      model_store_init_def demo_spec_def demo_calib_def active_key_def KIND_GBM_def KIND_CALIB_def
      load_active_gbm_def is_active_gbm_def load_active_calibrators_def)

lemma demo_build:
  "build_state demo_store demo_store = Some \<lparr>sv_model = Some demo_model, sv_version = Some ''v'',
     sv_model_id = Some 1, sv_calibrators = [None \<mapsto> [(0, 0), (1, 1)]]\<rparr>"
  "build_state demo_store demo_store2 = Some \<lparr>sv_model = Some demo_model, sv_version = Some ''v'',
     sv_model_id = Some 1, sv_calibrators = [Some 7 \<mapsto> [(0, 0), (1, 1)]]\<rparr>"
proof -
  obtain r where r: "load_active_gbm demo_store = Some r" "ar_spec r = demo_spec 60" "ar_model_id r = 1"
    using demo_store_live(1) by blast
  obtain c where c: "load_active_calibrators demo_store = [c]" "ar_spec c = demo_calib None"
    using demo_store_live(2) by (auto simp: map_eq_Cons_conv)
  obtain d where d: "load_active_calibrators demo_store2 = [d]" "ar_spec d = demo_calib (Some 7)"
    using demo_store_live(3) by (auto simp: map_eq_Cons_conv)
  have s: "as_feature_schema_ver (demo_spec n) = FEATURE_SCHEMA_VER" "as_blob (demo_spec n) = GbmBlob demo_model"
    "as_version (demo_spec n) = ''v''" for n by (simp_all add: demo_spec_def)
  have k: "as_feature_schema_ver (demo_calib p) = FEATURE_SCHEMA_VER"
    "as_blob (demo_calib p) = CalibBlob [(0, 0), (1, 1)]" "as_project_id (demo_calib p) = p" for p
    by (simp_all add: demo_calib_def)
  show "build_state demo_store demo_store = Some \<lparr>sv_model = Some demo_model, sv_version = Some ''v'',
     sv_model_id = Some 1, sv_calibrators = [None \<mapsto> [(0, 0), (1, 1)]]\<rparr>"
    by (simp add: build_state_def r c s k)
  show "build_state demo_store demo_store2 = Some \<lparr>sv_model = Some demo_model, sv_version = Some ''v'',
     sv_model_id = Some 1, sv_calibrators = [Some 7 \<mapsto> [(0, 0), (1, 1)]]\<rparr>"
    by (simp add: build_state_def r d s k)
qed

theorem serving_catches_up_witness:
  "sv_model_id (pr_state (refresh 40 30 demo_store demo_store demo_store predictor_init)) = Some 1"
proof -
  have "load_active_gbm demo_store \<noteq> None" using demo_store_live(1) by auto
  from serving_catches_up [OF demo_store_run demo_build(1) this, of 40] show ?thesis by simp
qed

text \<open>
  But one check can pair two ships. The model and the calibrators are read by two statements, so
  when a ship commits between them the predictor serves the old model with the calibrators of the
  new one until the next due check: for every ship there is such a check.
\<close>

theorem serving_can_mix:
  assumes "build_state s s' = Some st" and "load_active_gbm s = Some rec"
    and "as_feature_schema_ver (ar_spec rec) = FEATURE_SCHEMA_VER"
    and "ship now gbm cs s = Some (i, s')" and "model_store_ok s"
    and "as_kind gbm = KIND_GBM" "as_project_id gbm = None" "calib_specs_ok cs"
  shows "pr_state (refresh t interval s s s' predictor_init) = st
    \<and> sv_model_id st = Some (ar_model_id rec) \<and> ar_model_id rec \<noteq> i
    \<and> (\<exists>rows. map ar_spec rows = cs \<and> calib_map rows Map.empty = Some (sv_calibrators st))"
proof -
  have v: "active_gbm_version s = Some (ar_model_id rec, as_version (ar_spec rec))"
    by (simp add: active_gbm_version_def assms(2))
  have p: "pr_state (refresh t interval s s s' predictor_init) = st"
    using assms(1) by (simp add: refresh_def ensure_current_def v predictor_init_def empty_serving_def)
  have st: "sv_model_id st = Some (ar_model_id rec)"
    "calib_map (load_active_calibrators s') Map.empty = Some (sv_calibrators st)"
    using assms(1-3) by (auto simp: build_state_def split: blob.splits)
  obtain i2 t2 where sh: "ship now gbm cs s = Some (i2, t2)"
    "map ar_spec (load_active_calibrators t2) = cs"
    using ship_effect [OF assms(5-8), of now] by (elim exE conjE)
  have "ar_model_id rec < i"
    using active_gbm_id_less [OF assms(5,2)] ship_next_id [OF assms(5,4)] by simp
  then show ?thesis using p st sh assms(4) by (intro conjI exI [of _ "load_active_calibrators s'"]) auto
qed

theorem serving_can_mix_witness:
  "sv_model_id (pr_state (refresh 40 30 demo_store demo_store demo_store2 predictor_init)) = Some 1
   \<and> sv_calibrators (pr_state (refresh 40 30 demo_store demo_store demo_store2 predictor_init)) (Some 7) \<noteq> None"
proof -
  obtain r where r: "load_active_gbm demo_store = Some r" "ar_spec r = demo_spec 60"
    using demo_store_live(1) by blast
  have v: "as_feature_schema_ver (ar_spec r) = FEATURE_SCHEMA_VER" by (simp add: r(2) demo_spec_def)
  have ok: "model_store_ok demo_store" using serving_run_ok [OF demo_store_run] by simp
  from serving_can_mix [OF demo_build(2) r(1) v demo_ship(2) ok demo_specs_ok(1,2) demo_calibs_ok, of 40 30]
  show ?thesis by simp
qed

end
