(* ===== verification/Evaluation.thy ===== *)
theory Evaluation
  imports ModelStore Decision
begin

text \<open>
  The offline evaluation (\<open>ml/eval.py\<close>) and the ship gate (\<open>ml/gate.py\<close>). A label event is the
  record \<open>event_row\<close>; a missing or empty feature snapshot is the empty list. The LightGBM booster,
  the training function and the isotonic fit are arguments. Floats are reals.
\<close>

section \<open>Events and the chronological split\<close>

record event_row =
  er_project_id :: int
  er_item_id :: int
  er_new_label :: "string option"
  er_ts :: "seconds option"
  er_features :: "(string \<times> real) list"

definition ts_key :: "event_row \<Rightarrow> seconds" where
  "ts_key r = (case er_ts r of None \<Rightarrow> 0 | Some t \<Rightarrow> t)"

definition event_key :: "event_row \<Rightarrow> int \<times> int" where
  "event_key r = (er_project_id r, er_item_id r)"

definition is_usable :: "event_row \<Rightarrow> bool" where
  "is_usable r \<longleftrightarrow> er_features r \<noteq> [] \<and> base_group (er_new_label r) \<noteq> None"

definition keep_latest ::
  "event_row \<Rightarrow> ((int \<times> int) \<times> event_row) list \<Rightarrow> ((int \<times> int) \<times> event_row) list" where
  "keep_latest r d =
     (case map_of d (event_key r) of
        None \<Rightarrow> AList.update (event_key r) r d
      | Some cur \<Rightarrow> if ts_key r \<ge> ts_key cur then AList.update (event_key r) r d else d)"

definition latest_events :: "event_row list \<Rightarrow> ((int \<times> int) \<times> event_row) list" where
  "latest_events rows = foldl (\<lambda>d r. if is_usable r then keep_latest r d else d) [] rows"

definition usable_events :: "event_row list \<Rightarrow> event_row list" where
  "usable_events rows =
     sort_key (\<lambda>r. (ts_key r, er_item_id r)) (map snd (latest_events rows))"

definition chronological_split ::
  "event_row list \<Rightarrow> real \<Rightarrow> event_row list \<times> event_row list" where
  "chronological_split events train_frac =
     (let n = nat \<lfloor>real (length events) * train_frac\<rfloor> in (take n events, drop n events))"

section \<open>Scoring and metrics\<close>

definition ECE_BINS :: nat where "ECE_BINS = 10"

record prediction =
  pd_true :: string
  pd_pred :: string
  pd_p_star :: real

definition correct :: "prediction \<Rightarrow> bool" where
  "correct p \<longleftrightarrow> pd_true p = pd_pred p"

record label_prf =
  lp_precision :: real
  lp_recall :: real
  lp_f1 :: real
  lp_support :: nat

record eval_report =
  rp_n_eval :: nat
  rp_per_label :: "(string \<times> label_prf) list"
  rp_macro_f1 :: real
  rp_abstain_rate :: real
  rp_acceptance_rate :: real
  rp_auto_band_precision :: "real option"
  rp_auto_band_support :: nat
  rp_ece :: real

text \<open>The booster always answers a label (theorem \<open>predict_label_argmax\<close>); without one, no row.\<close>

definition score_events ::
  "('m \<Rightarrow> real list \<Rightarrow> real list) \<Rightarrow> 'm gbm_model \<Rightarrow> event_row list \<Rightarrow> knots option \<Rightarrow> prediction list" where
  "score_events booster m events calibrator =
     concat (map (\<lambda>e.
       case predict_label booster m (to_vector (map_of (er_features e))) of
         None \<Rightarrow> []
       | Some (label, raw, probs) \<Rightarrow>
           [\<lparr>pd_true = (case base_group (er_new_label e) of None \<Rightarrow> [] | Some b \<Rightarrow> b), pd_pred = label,
             pd_p_star = (case calibrator of Some ks \<Rightarrow> calib_predict ks raw | None \<Rightarrow> raw)\<rparr>]) events)"

definition count_of :: "('a \<Rightarrow> bool) \<Rightarrow> 'a list \<Rightarrow> nat" where
  "count_of p xs = length (filter p xs)"

text \<open>\<open>a / b if b else 0.0\<close>.\<close>

definition ratio :: "real \<Rightarrow> real \<Rightarrow> real" where
  "ratio a b = (if b \<noteq> 0 then a / b else 0)"

definition prf_of :: "prediction list \<Rightarrow> string \<Rightarrow> label_prf" where
  "prf_of preds label =
     (let tp = count_of (\<lambda>p. pd_pred p = label \<and> pd_true p = label) preds;
          fp = count_of (\<lambda>p. pd_pred p = label \<and> pd_true p \<noteq> label) preds;
          fn = count_of (\<lambda>p. pd_pred p \<noteq> label \<and> pd_true p = label) preds;
          prec = ratio (real tp) (real (tp + fp));
          rec = ratio (real tp) (real (tp + fn))
      in \<lparr>lp_precision = prec, lp_recall = rec, lp_f1 = ratio (2 * prec * rec) (prec + rec),
          lp_support = tp + fn\<rparr>)"

definition in_bin :: "nat \<Rightarrow> nat \<Rightarrow> prediction \<Rightarrow> bool" where
  "in_bin bins b p \<longleftrightarrow>
     (let lo = real b / real bins; hi = real (b + 1) / real bins in
      (lo \<le> pd_p_star p \<and> pd_p_star p < hi) \<or> (b = bins - 1 \<and> pd_p_star p = hi))"

definition bin_gap :: "prediction list \<Rightarrow> nat \<Rightarrow> nat \<Rightarrow> real" where
  "bin_gap preds bins b =
     (let xs = filter (in_bin bins b) preds in
      if xs = [] then 0
      else (let conf = sum_list (map pd_p_star xs) / real (length xs);
                acc = real (count_of correct xs) / real (length xs)
            in real (length xs) / real (length preds) * \<bar>acc - conf\<bar>))"

definition ece :: "prediction list \<Rightarrow> nat \<Rightarrow> real" where
  "ece preds bins = (if preds = [] then 0 else sum_list (map (bin_gap preds bins) [0..<bins]))"

definition report_from_predictions :: "prediction list \<Rightarrow> eval_report" where
  "report_from_predictions preds =
     (let n = length preds;
          per_label = map (\<lambda>lbl. (lbl, prf_of preds lbl)) BASE_LABELS;
          abstained = filter (\<lambda>p. pd_p_star p < TAU_SUGGEST) preds;
          non_abstained = filter (\<lambda>p. pd_p_star p \<ge> TAU_SUGGEST) preds;
          auto_band = filter (\<lambda>p. pd_p_star p \<ge> TAU_AUTO) preds
      in \<lparr>rp_n_eval = n, rp_per_label = per_label,
          rp_macro_f1 = (if n \<noteq> 0 then sum_list (map (lp_f1 \<circ> snd) per_label) / real (length per_label) else 0),
          rp_abstain_rate = (if n \<noteq> 0 then real (length abstained) / real n else 0),
          rp_acceptance_rate =
            (if non_abstained \<noteq> [] then real (count_of correct non_abstained) / real (length non_abstained) else 0),
          rp_auto_band_precision =
            (if auto_band \<noteq> [] then Some (real (count_of correct auto_band) / real (length auto_band)) else None),
          rp_auto_band_support = length auto_band,
          rp_ece = ece preds ECE_BINS\<rparr>)"

definition evaluate ::
  "('m \<Rightarrow> real list \<Rightarrow> real list) \<Rightarrow> 'm gbm_model \<Rightarrow> event_row list \<Rightarrow> knots option \<Rightarrow> eval_report" where
  "evaluate booster m events calibrator = report_from_predictions (score_events booster m events calibrator)"

section \<open>The gate\<close>

definition GATE_MACRO_F1_SLACK :: real where "GATE_MACRO_F1_SLACK = 5 / 1000"
definition AUTO_BAND_TARGET :: real where "AUTO_BAND_TARGET = 95 / 100"
definition AUTO_BAND_FLOOR :: real where "AUTO_BAND_FLOOR = 9 / 10 * AUTO_BAND_TARGET"
definition GATE_ABSTAIN_SLACK :: real where "GATE_ABSTAIN_SLACK = 5 / 100"
definition GATE_CALIB_MIN :: nat where "GATE_CALIB_MIN = 50"
definition GATE_ECE_DEGENERATE :: real where "GATE_ECE_DEGENERATE = 15 / 100"
definition GATE_ECE_IMPROVEMENT :: real where "GATE_ECE_IMPROVEMENT = 5 / 100"
definition GATE_MACRO_F1_SLACK_DEGRADED_ACTIVE :: real where
  "GATE_MACRO_F1_SLACK_DEGRADED_ACTIVE = 5 / 100"
definition GBM_MIN_EVENTS :: nat where "GBM_MIN_EVENTS = 50"

lemmas gate_consts =
  GATE_MACRO_F1_SLACK_def AUTO_BAND_TARGET_def AUTO_BAND_FLOOR_def GATE_ABSTAIN_SLACK_def
  GATE_ECE_DEGENERATE_def GATE_ECE_IMPROVEMENT_def GATE_MACRO_F1_SLACK_DEGRADED_ACTIVE_def

datatype gate_reason = MacroF1 | AutoBandPrecision | AbstainRate | NoEvalData | CandidateCold

record gate_result =
  gr_ship :: bool
  gr_reasons :: "gate_reason list"
  gr_candidate :: "eval_report option"
  gr_active :: "eval_report option"
  gr_active_calibration_degraded :: "bool option"

definition active_calibration_degraded :: "eval_report \<Rightarrow> eval_report \<Rightarrow> bool" where
  "active_calibration_degraded candidate active \<longleftrightarrow>
     rp_ece active > GATE_ECE_DEGENERATE
     \<and> rp_ece candidate \<le> rp_ece active - GATE_ECE_IMPROVEMENT"

definition passes_gate :: "eval_report \<Rightarrow> eval_report option \<Rightarrow> gate_result" where
  "passes_gate candidate active0 =
     (case active0 of
        None \<Rightarrow> \<lparr>gr_ship = True, gr_reasons = [], gr_candidate = Some candidate, gr_active = None,
                gr_active_calibration_degraded = None\<rparr>
      | Some active \<Rightarrow>
          (let degraded = active_calibration_degraded candidate active;
               f1_slack = (if degraded then GATE_MACRO_F1_SLACK_DEGRADED_ACTIVE else GATE_MACRO_F1_SLACK);
               target = (case rp_auto_band_precision active of
                           None \<Rightarrow> AUTO_BAND_FLOOR | Some ap \<Rightarrow> max ap AUTO_BAND_FLOOR);
               reasons =
                 (if rp_macro_f1 candidate < rp_macro_f1 active - f1_slack then [MacroF1] else [])
                 @ (case rp_auto_band_precision candidate of
                      None \<Rightarrow> []
                    | Some cp \<Rightarrow> if cp < target then [AutoBandPrecision] else [])
                 @ (if rp_abstain_rate candidate > rp_abstain_rate active + GATE_ABSTAIN_SLACK
                    then [AbstainRate] else [])
           in \<lparr>gr_ship = (reasons = []), gr_reasons = reasons, gr_candidate = Some candidate,
               gr_active = Some active, gr_active_calibration_degraded = Some degraded\<rparr>))"

text \<open>
  \<open>IsotonicCalibrator.fit\<close> of scikit-learn is the argument \<open>iso_fit\<close>, \<open>train_fn\<close> the training of a
  candidate, \<open>None\<close> its \<open>TrainingError\<close>.
\<close>

definition fit_scoring_calibrator ::
  "('m \<Rightarrow> real list \<Rightarrow> real list) \<Rightarrow> (real list \<Rightarrow> int list \<Rightarrow> knots) \<Rightarrow> 'm gbm_model \<Rightarrow> event_row list
     \<Rightarrow> knots option" where
  "fit_scoring_calibrator booster iso_fit m train_events =
     (if length train_events < GATE_CALIB_MIN then None
      else (let preds = score_events booster m train_events None;
                raw = map pd_p_star preds;
                corrects = map (\<lambda>p. if correct p then 1 else 0) preds
            in if length (remdups corrects) < 2 then None else Some (iso_fit raw corrects)))"

datatype active_calibrator = RefitActive | AsShipped "knots option"

definition verdict :: "bool \<Rightarrow> gate_reason \<Rightarrow> gate_result" where
  "verdict cold reason =
     \<lparr>gr_ship = cold, gr_reasons = (if cold then [] else [reason]), gr_candidate = None,
      gr_active = None, gr_active_calibration_degraded = None\<rparr>"

definition run_gate ::
  "('m \<Rightarrow> real list \<Rightarrow> real list) \<Rightarrow> (real list \<Rightarrow> int list \<Rightarrow> knots) \<Rightarrow> event_row list \<Rightarrow> 'm gbm_model option
     \<Rightarrow> real \<Rightarrow> (event_row list \<Rightarrow> 'm gbm_model option) \<Rightarrow> active_calibrator \<Rightarrow> gate_result" where
  "run_gate booster iso_fit rows active train_frac train_fn active_cal =
     (let events = usable_events rows in
      case chronological_split events train_frac of
        (train_events, eval_events) \<Rightarrow>
          if eval_events = [] \<or> length train_events < GBM_MIN_EVENTS
          then verdict (active = None) NoEvalData
          else (case train_fn train_events of
                  None \<Rightarrow> verdict (active = None) CandidateCold
                | Some candidate \<Rightarrow>
                    (let cand_cal = fit_scoring_calibrator booster iso_fit candidate train_events;
                         cand_report = evaluate booster candidate eval_events cand_cal
                     in case active of
                          None \<Rightarrow> \<lparr>gr_ship = True, gr_reasons = [], gr_candidate = Some cand_report,
                                  gr_active = None, gr_active_calibration_degraded = None\<rparr>
                        | Some act \<Rightarrow>
                            (let act_cal = (case active_cal of
                                              RefitActive \<Rightarrow> fit_scoring_calibrator booster iso_fit act train_events
                                            | AsShipped c \<Rightarrow> c)
                             in passes_gate cand_report (Some (evaluate booster act eval_events act_cal))))))"

text \<open>A blob of the wrong kind raises in \<open>from_bytes\<close>; the outer \<open>None\<close> is that error.\<close>

definition load_active_model :: "'m model_store \<Rightarrow> 'm gbm_model option option" where
  "load_active_model s =
     (case load_active_gbm s of
        None \<Rightarrow> Some None
      | Some rec \<Rightarrow>
          if as_feature_schema_ver (ar_spec rec) \<noteq> FEATURE_SCHEMA_VER then Some None
          else (case as_blob (ar_spec rec) of GbmBlob m \<Rightarrow> Some (Some m) | CalibBlob _ \<Rightarrow> None))"

definition load_active_install_calibrator :: "'m model_store \<Rightarrow> knots option option" where
  "load_active_install_calibrator s =
     (case List.find (\<lambda>r. as_project_id (ar_spec r) = None
              \<and> as_feature_schema_ver (ar_spec r) = FEATURE_SCHEMA_VER) (load_active_calibrators s) of
        None \<Rightarrow> Some None
      | Some r \<Rightarrow> (case as_blob (ar_spec r) of CalibBlob ks \<Rightarrow> Some (Some ks) | GbmBlob _ \<Rightarrow> None))"

definition rejected_spec :: "string \<Rightarrow> 'm gbm_model \<Rightarrow> 'm artifact_spec" where
  "rejected_spec version candidate =
     \<lparr>as_kind = KIND_GBM, as_project_id = None, as_version = ''gbm-rejected-'' @ version,
      as_feature_schema_ver = FEATURE_SCHEMA_VER, as_blob = GbmBlob candidate, as_n_events = 0,
      as_rejected = True\<rparr>"

text \<open>\<open>_persist_rejected\<close>: an error while saving is swallowed.\<close>

definition persist_rejected ::
  "seconds \<Rightarrow> string \<Rightarrow> 'm gbm_model \<Rightarrow> 'm model_store \<Rightarrow> 'm model_store" where
  "persist_rejected now version candidate s =
     (case save_artifact now (rejected_spec version candidate) False s of
        None \<Rightarrow> s | Some (i, s') \<Rightarrow> s')"

text \<open>\<open>make_ship_gate(store)(candidate, rows)\<close>; \<open>None\<close> is an error that leaves the gate.\<close>

definition ship_gate ::
  "('m \<Rightarrow> real list \<Rightarrow> real list) \<Rightarrow> (real list \<Rightarrow> int list \<Rightarrow> knots) \<Rightarrow> real
     \<Rightarrow> (event_row list \<Rightarrow> 'm gbm_model option) \<Rightarrow> seconds \<Rightarrow> string \<Rightarrow> 'm gbm_model \<Rightarrow> event_row list
     \<Rightarrow> 'm model_store \<Rightarrow> (bool \<times> 'm model_store) option" where
  "ship_gate booster iso_fit train_frac train_fn now version candidate rows s =
     (case (load_active_model s, load_active_install_calibrator s) of
        (Some active, shipped) \<Rightarrow>
          (case (if active \<noteq> None then shipped else Some None) of
             None \<Rightarrow> None
           | Some cal \<Rightarrow>
               (let active_cal = (case cal of None \<Rightarrow> RefitActive | Some ks \<Rightarrow> AsShipped (Some ks));
                    result = run_gate booster iso_fit rows active train_frac train_fn active_cal
                in if gr_ship result then Some (True, s)
                   else Some (False, persist_rejected now version candidate s)))
      | (None, _) \<Rightarrow> None)"

section \<open>The usable events\<close>

definition latest_ok :: "event_row list \<Rightarrow> ((int \<times> int) \<times> event_row) list \<Rightarrow> bool" where
  "latest_ok rows d \<longleftrightarrow>
     distinct (map fst d)
     \<and> (\<forall>(k, e) \<in> set d. k = event_key e \<and> e \<in> set rows \<and> is_usable e)
     \<and> (\<forall>r \<in> set rows. is_usable r \<longrightarrow> (\<exists>e. map_of d (event_key r) = Some e \<and> ts_key r \<le> ts_key e))"

lemma keep_latest_map_of:
  "map_of (keep_latest r d) k =
     (if k = event_key r \<and> (\<forall>cur. map_of d k = Some cur \<longrightarrow> ts_key cur \<le> ts_key r) then Some r else map_of d k)"
  by (auto simp: keep_latest_def update_conv' split: option.split)

lemma keep_latest_distinct: "distinct (map fst d) \<Longrightarrow> distinct (map fst (keep_latest r d))"
  by (auto simp: keep_latest_def distinct_update split: option.split)

lemma latest_ok_step:
  assumes "latest_ok rows d"
  shows "latest_ok (rows @ [r]) (if is_usable r then keep_latest r d else d)"
proof (cases "is_usable r")
  case False
  then show ?thesis using assms by (auto simp: latest_ok_def)
next
  case True
  have dist: "distinct (map fst d)" using assms by (simp add: latest_ok_def)
  have dist': "distinct (map fst (keep_latest r d))" by (rule keep_latest_distinct [OF dist])
  have "k = event_key e \<and> e \<in> set (rows @ [r]) \<and> is_usable e" if "(k, e) \<in> set (keep_latest r d)" for k e
  proof -
    have "map_of (keep_latest r d) k = Some e" using that dist' by simp
    then have "(k = event_key r \<and> e = r) \<or> map_of d k = Some e"
      unfolding keep_latest_map_of by (auto split: if_splits)
    then show ?thesis using True assms dist by (force simp: latest_ok_def)
  qed
  moreover have "\<exists>e. map_of (keep_latest r d) (event_key q) = Some e \<and> ts_key q \<le> ts_key e"
    if q: "q \<in> set (rows @ [r])" "is_usable q" for q
  proof (cases "q \<in> set rows")
    case True
    then obtain e where e: "map_of d (event_key q) = Some e" "ts_key q \<le> ts_key e"
      using assms q(2) by (auto simp: latest_ok_def)
    then show ?thesis by (auto simp: keep_latest_map_of)
  next
    case False
    then have "q = r" using q(1) by simp
    then show ?thesis by (cases "map_of d (event_key r)") (auto simp: keep_latest_map_of)
  qed
  ultimately show ?thesis using dist' True by (auto simp: latest_ok_def)
qed

lemma latest_events_ok: "latest_ok rows (latest_events rows)"
proof (induction rows rule: rev_induct)
  case Nil
  show ?case by (simp add: latest_ok_def latest_events_def)
next
  case (snoc r rows)
  then show ?case using latest_ok_step by (simp add: latest_events_def)
qed

text \<open>
  The evaluation cannot see the future. The usable events keep for each item exactly one event
  with a snapshot and a GBM label, the newest such one; they are in time order, so no event of the
  evaluation slice is older than any event of the training slice, no item is in both, and together
  the slices are all of them.
\<close>

theorem usable_events_chronological:
  "(\<forall>e \<in> set (usable_events rows). e \<in> set rows \<and> is_usable e
      \<and> (\<forall>r \<in> set rows. is_usable r \<and> event_key r = event_key e \<longrightarrow> ts_key r \<le> ts_key e))
   \<and> event_key ` set (usable_events rows) = event_key ` {r \<in> set rows. is_usable r}
   \<and> distinct (map event_key (usable_events rows))
   \<and> (\<forall>a \<in> set (fst (chronological_split (usable_events rows) fr)).
        \<forall>b \<in> set (snd (chronological_split (usable_events rows) fr)).
          ts_key a \<le> ts_key b \<and> event_key a \<noteq> event_key b)
   \<and> fst (chronological_split (usable_events rows) fr)
       @ snd (chronological_split (usable_events rows) fr) = usable_events rows"
proof -
  let ?d = "latest_events rows" and ?u = "usable_events rows"
  note ok = latest_events_ok [of rows, unfolded latest_ok_def]
  have su: "set ?u = snd ` set ?d" by (simp add: usable_events_def)
  have key: "fst q = event_key (snd q)" if "q \<in> set ?d" for q using ok that by force
  have eq: "map event_key (map snd ?d) = map fst ?d" using key by simp
  have "distinct (map event_key (map snd ?d))" unfolding eq using ok by (rule conjunct1)
  moreover have "mset (map event_key ?u) = mset (map event_key (map snd ?d))"
    unfolding usable_events_def by (simp only: mset_map mset_sort)
  ultimately have dist: "distinct (map event_key ?u)" using mset_eq_imp_distinct_iff by blast
  have e1: "e \<in> set rows \<and> is_usable e
      \<and> (\<forall>r \<in> set rows. is_usable r \<and> event_key r = event_key e \<longrightarrow> ts_key r \<le> ts_key e)"
    if "e \<in> set ?u" for e
  proof -
    from that su obtain k where k: "(k, e) \<in> set ?d" by force
    then have ke: "k = event_key e" "e \<in> set rows" "is_usable e" using ok by auto
    have "map_of ?d (event_key e) = Some e" using k ke ok by simp
    then have "ts_key r \<le> ts_key e" if "r \<in> set rows" "is_usable r" "event_key r = event_key e" for r
      using that ok by (metis option.inject)
    then show ?thesis using ke by blast
  qed
  have e2: "event_key ` set ?u = event_key ` {r \<in> set rows. is_usable r}"
  proof (intro equalityI subsetI)
    fix k assume "k \<in> event_key ` {r \<in> set rows. is_usable r}"
    then obtain r where r: "r \<in> set rows" "is_usable r" "k = event_key r" by auto
    then obtain e where "map_of ?d k = Some e" using ok by blast
    then have ke: "(k, e) \<in> set ?d" by (rule map_of_SomeD)
    have "k = event_key e" using key [OF ke] by simp
    moreover have "e \<in> set ?u" unfolding su using ke by force
    ultimately show "k \<in> event_key ` set ?u" by blast
  qed (use e1 in auto)
  have "sorted (map (\<lambda>r. (ts_key r, er_item_id r)) ?u)" by (simp add: usable_events_def)
  then have srt: "sorted_wrt (\<lambda>a b. ts_key a \<le> ts_key b) ?u"
    unfolding sorted_map by (rule sorted_wrt_mono_rel [rotated]) (auto simp: less_eq_prod_def)
  define n where "n = nat \<lfloor>real (length ?u) * fr\<rfloor>"
  have sp: "chronological_split ?u fr = (take n ?u, drop n ?u)"
    unfolding chronological_split_def n_def Let_def by (rule refl)
  have "sorted_wrt (\<lambda>a b. ts_key a \<le> ts_key b) (take n ?u @ drop n ?u)" using srt by simp
  then have t: "\<forall>a \<in> set (take n ?u). \<forall>b \<in> set (drop n ?u). ts_key a \<le> ts_key b"
    unfolding sorted_wrt_append by (elim conjE)
  have "distinct (map event_key (take n ?u @ drop n ?u))" using dist by simp
  then have "\<forall>a \<in> set (take n ?u). \<forall>b \<in> set (drop n ?u). event_key a \<noteq> event_key b"
    unfolding map_append distinct_append set_map by (metis IntI empty_iff imageI)
  then show ?thesis using e1 e2 dist t by (simp add: sp)
qed

definition demo_event :: "int \<Rightarrow> string \<Rightarrow> seconds \<Rightarrow> event_row" where
  "demo_event item label t = \<lparr>er_project_id = 1, er_item_id = item, er_new_label = Some label, er_ts = Some t,
     er_features = [(''top1_cosine'', 1)]\<rparr>"

lemma demo_event_usable: "is_usable (demo_event i ''pb001'' t)" "\<not> is_usable (demo_event i ''ti001'' t)"
proof -
  have "base_group (Some ''pb001'') = Some ''pb''" "base_group (Some ''ti001'') = None" by code_simp+
  then show "is_usable (demo_event i ''pb001'' t)" "\<not> is_usable (demo_event i ''ti001'' t)"
    by (simp_all add: is_usable_def demo_event_def)
qed

theorem usable_events_chronological_witness:
  "event_key ` set (usable_events [demo_event 1 ''pb001'' 5, demo_event 2 ''ti001'' 6]) = {(1, 1)}"
proof -
  let ?rows = "[demo_event 1 ''pb001'' 5, demo_event 2 ''ti001'' 6]"
  have s: "{r \<in> set ?rows. is_usable r} = {demo_event 1 ''pb001'' 5}"
    using demo_event_usable by auto
  have "event_key ` set (usable_events ?rows) = event_key ` {r \<in> set ?rows. is_usable r}"
    using usable_events_chronological [of ?rows 0] by blast
  then show ?thesis unfolding s by (simp add: event_key_def demo_event_def)
qed

section \<open>The report\<close>

lemma ratio_unit: "0 \<le> a \<Longrightarrow> a \<le> b \<Longrightarrow> 0 \<le> ratio a b \<and> ratio a b \<le> 1"
  by (auto simp: ratio_def divide_le_eq_1)

lemma count_of_le: "count_of p xs \<le> length xs"
  by (simp add: count_of_def)

lemma f1_unit: "0 \<le> p \<Longrightarrow> p \<le> 1 \<Longrightarrow> 0 \<le> r \<Longrightarrow> r \<le> 1 \<Longrightarrow> 0 \<le> ratio (2 * p * r) (p + r) \<and> ratio (2 * p * r) (p + r) \<le> (1::real)"
proof -
  assume a: "0 \<le> p" "p \<le> 1" "0 \<le> r" "r \<le> 1"
  then have "p * r \<le> p" "p * r \<le> r" by (auto intro: mult_left_le mult_left_le_one_le)
  then show ?thesis using a by (intro ratio_unit) auto
qed

lemma prf_of_unit:
  "0 \<le> lp_precision (prf_of ps l) \<and> lp_precision (prf_of ps l) \<le> 1
   \<and> 0 \<le> lp_recall (prf_of ps l) \<and> lp_recall (prf_of ps l) \<le> 1
   \<and> 0 \<le> lp_f1 (prf_of ps l) \<and> lp_f1 (prf_of ps l) \<le> 1"
proof -
  have r: "0 \<le> ratio (real a) (real (a + b)) \<and> ratio (real a) (real (a + b)) \<le> 1" for a b
    by (rule ratio_unit) simp_all
  show ?thesis
    unfolding prf_of_def Let_def label_prf.simps
    using f1_unit r by (intro conjI) (auto simp only:)
qed

lemma quot_unit: "0 \<le> real (count_of p xs) / real (length xs) \<and> real (count_of p xs) / real (length xs) \<le> 1"
  using count_of_le [of p xs] by (cases "xs = []") (auto simp: divide_le_eq_1)

lemma sum_list_unit_bounds:
  "\<forall>x \<in> set xs. 0 \<le> f x \<and> f x \<le> (1::real) \<Longrightarrow> 0 \<le> sum_list (map f xs) \<and> sum_list (map f xs) \<le> real (length xs)"
  by (induction xs) auto

lemma mean_unit:
  assumes "\<forall>x \<in> set xs. 0 \<le> f x \<and> f x \<le> (1::real)"
  shows "0 \<le> sum_list (map f xs) / real (length xs) \<and> sum_list (map f xs) / real (length xs) \<le> 1"
  using sum_list_unit_bounds [OF assms] by (cases "xs = []") (auto simp: divide_le_eq_1)

lemma in_binD:
  assumes "in_bin bins b p"
  shows "real b / real bins \<le> pd_p_star p" "pd_p_star p \<le> real (b + 1) / real bins"
    "b \<noteq> bins - 1 \<Longrightarrow> pd_p_star p < real (b + 1) / real bins"
proof -
  define lo hi where "lo = real b / real bins" and "hi = real (b + 1) / real bins"
  have "lo \<le> hi" unfolding lo_def hi_def by (intro divide_right_mono) auto
  moreover have "(lo \<le> pd_p_star p \<and> pd_p_star p < hi) \<or> (b = bins - 1 \<and> pd_p_star p = hi)"
    using assms unfolding in_bin_def Let_def lo_def hi_def .
  ultimately have "lo \<le> pd_p_star p \<and> pd_p_star p \<le> hi \<and> (b \<noteq> bins - 1 \<longrightarrow> pd_p_star p < hi)" by auto
  then show "real b / real bins \<le> pd_p_star p" "pd_p_star p \<le> real (b + 1) / real bins"
    "b \<noteq> bins - 1 \<Longrightarrow> pd_p_star p < real (b + 1) / real bins"
    unfolding lo_def hi_def by blast+
qed

lemma in_bin_unit: "b < bins \<Longrightarrow> in_bin bins b p \<Longrightarrow> 0 \<le> pd_p_star p \<and> pd_p_star p \<le> 1"
proof -
  assume b: "b < bins" and i: "in_bin bins b p"
  have "real (b + 1) / real bins \<le> 1" using b by (simp add: divide_le_eq_1)
  then have "pd_p_star p \<le> 1" using in_binD(2) [OF i] by (rule order_trans [rotated])
  moreover have "0 \<le> pd_p_star p" using in_binD(1) [OF i] by (rule order_trans [rotated]) simp
  ultimately show ?thesis by blast
qed

lemma in_bin_disjoint:
  assumes "b < c" "c < bins" "in_bin bins b p" "in_bin bins c p"
  shows False
proof -
  have "real (b + 1) / real bins \<le> real c / real bins" using assms(1) by (intro divide_right_mono) auto
  moreover have "b \<noteq> bins - 1" using assms(1,2) by simp
  ultimately have "pd_p_star p < real c / real bins" using in_binD(3) [OF assms(3)] by (meson less_le_trans)
  then show False using in_binD(1) [OF assms(4)] by linarith
qed

lemma bins_le_length: "k \<le> bins \<Longrightarrow> sum_list (map (\<lambda>b. count_of (in_bin bins b) ps) [0..<k]) \<le> length ps"
proof (induction ps)
  case Nil
  then show ?case by (simp add: count_of_def sum_list_triv)
next
  case (Cons p ps)
  have one: "count_of (\<lambda>b. in_bin bins b p) [0..<k] \<le> 1"
    using Cons.prems
  proof (induction k)
    case (Suc k)
    have "filter (\<lambda>b. in_bin bins b p) [0..<k] = []" if "in_bin bins k p"
      using in_bin_disjoint [of _ k bins p] that Suc.prems by (intro filter_False) auto
    moreover have "[0..<Suc k] = [0..<k] @ [k]" by simp
    ultimately show ?case
      using Suc.IH Suc.prems unfolding count_of_def by (cases "in_bin bins k p") (simp_all del: upt_Suc)
  qed (simp add: count_of_def)
  have sp: "sum_list (map (\<lambda>b. count_of (in_bin bins b) (p # ps)) bs)
      = count_of (\<lambda>b. in_bin bins b p) bs + sum_list (map (\<lambda>b. count_of (in_bin bins b) ps) bs)" for bs
    by (induction bs) (auto simp: count_of_def)
  show ?case using Cons.IH [OF Cons.prems] one unfolding sp by simp
qed

lemma bin_gap_bounds:
  assumes "b < bins" "ps \<noteq> []"
  shows "0 \<le> bin_gap ps bins b \<and> bin_gap ps bins b \<le> real (count_of (in_bin bins b) ps) / real (length ps)"
proof (cases "filter (in_bin bins b) ps = []")
  case False
  let ?xs = "filter (in_bin bins b) ps"
  let ?c = "sum_list (map pd_p_star ?xs) / real (length ?xs)" and ?a = "real (count_of correct ?xs) / real (length ?xs)"
  have "0 \<le> ?c \<and> ?c \<le> 1" using in_bin_unit [OF assms(1)] by (intro mean_unit) auto
  moreover have "0 \<le> ?a \<and> ?a \<le> 1" by (rule quot_unit)
  ultimately have "\<bar>?a - ?c\<bar> \<le> 1" by linarith
  then have "real (length ?xs) / real (length ps) * \<bar>?a - ?c\<bar> \<le> real (length ?xs) / real (length ps)"
    by (intro mult_left_le) auto
  then show ?thesis using False by (simp add: bin_gap_def Let_def count_of_def)
qed (simp add: bin_gap_def Let_def)

lemma sum_list_quot: "sum_list (map (\<lambda>b. real (f b) / c) bs) = real (sum_list (map f bs)) / c"
  by (induction bs) (simp_all add: add_divide_distrib)

lemma ece_unit: "0 \<le> ece ps bins \<and> ece ps bins \<le> 1"
proof (cases "ps = []")
  case False
  have lo: "0 \<le> sum_list (map (bin_gap ps bins) [0..<bins])"
    using bin_gap_bounds [OF _ False] by (intro sum_list_nonneg) auto
  have "sum_list (map (bin_gap ps bins) [0..<bins])
      \<le> sum_list (map (\<lambda>b. real (count_of (in_bin bins b) ps) / real (length ps)) [0..<bins])"
    using bin_gap_bounds [OF _ False] by (intro sum_list_mono) auto
  also have "\<dots> = real (sum_list (map (\<lambda>b. count_of (in_bin bins b) ps) [0..<bins])) / real (length ps)"
    by (rule sum_list_quot)
  also have "\<dots> \<le> 1" using bins_le_length [of bins bins ps] False by (simp add: divide_le_eq_1)
  finally show ?thesis using lo False by (simp add: ece_def)
qed (simp add: ece_def)

text \<open>
  Every metric of a report is a proper rate: macro-F1, abstain rate, acceptance rate, calibration
  error and the precision of the auto band lie in [0, 1], whatever the scores are. The auto-band
  precision is absent exactly when no prediction reaches the auto threshold, never a vacuous 1, and
  otherwise it is the share of correct ones among exactly those predictions.
\<close>

theorem report_metrics_bounds:
  "let r = report_from_predictions ps in
     0 \<le> rp_macro_f1 r \<and> rp_macro_f1 r \<le> 1
     \<and> 0 \<le> rp_abstain_rate r \<and> rp_abstain_rate r \<le> 1
     \<and> 0 \<le> rp_acceptance_rate r \<and> rp_acceptance_rate r \<le> 1
     \<and> 0 \<le> rp_ece r \<and> rp_ece r \<le> 1
     \<and> (rp_auto_band_precision r = None \<longleftrightarrow> (\<forall>p. p \<in> set ps \<longrightarrow> pd_p_star p < TAU_AUTO))
     \<and> (\<forall>x. rp_auto_band_precision r = Some x \<longrightarrow> 0 \<le> x \<and> x \<le> 1
           \<and> x * real (rp_auto_band_support r) = real (count_of (\<lambda>p. TAU_AUTO \<le> pd_p_star p \<and> correct p) ps))"
proof -
  let ?r = "report_from_predictions ps" and ?auto = "filter (\<lambda>p. pd_p_star p \<ge> TAU_AUTO) ps"
  have "0 \<le> rp_macro_f1 ?r \<and> rp_macro_f1 ?r \<le> 1"
  proof (cases "ps = []")
    case False
    let ?l = "map (\<lambda>lbl. (lbl, prf_of ps lbl)) BASE_LABELS"
    have "\<forall>x \<in> set ?l. 0 \<le> (lp_f1 \<circ> snd) x \<and> (lp_f1 \<circ> snd) x \<le> 1" using prf_of_unit [of ps] by auto
    from mean_unit [OF this] False show ?thesis by (simp add: report_from_predictions_def Let_def comp_def)
  qed (simp add: report_from_predictions_def Let_def)
  moreover have "0 \<le> rp_abstain_rate ?r \<and> rp_abstain_rate ?r \<le> 1"
    using quot_unit [of "\<lambda>p. pd_p_star p < TAU_SUGGEST" ps]
    by (simp add: report_from_predictions_def Let_def count_of_def)
  moreover have "0 \<le> rp_acceptance_rate ?r \<and> rp_acceptance_rate ?r \<le> 1"
    using quot_unit [of correct "filter (\<lambda>p. pd_p_star p \<ge> TAU_SUGGEST) ps"]
    by (simp add: report_from_predictions_def Let_def)
  moreover have "0 \<le> rp_ece ?r \<and> rp_ece ?r \<le> 1"
    using ece_unit [of ps ECE_BINS] by (simp add: report_from_predictions_def Let_def)
  moreover have "rp_auto_band_precision ?r = None \<longleftrightarrow> (\<forall>p. p \<in> set ps \<longrightarrow> pd_p_star p < TAU_AUTO)"
    by (auto simp: report_from_predictions_def Let_def filter_empty_conv not_le)
  moreover have "0 \<le> x \<and> x \<le> 1
      \<and> x * real (rp_auto_band_support ?r) = real (count_of (\<lambda>p. TAU_AUTO \<le> pd_p_star p \<and> correct p) ps)"
    if "rp_auto_band_precision ?r = Some x" for x
  proof -
    have ne: "?auto \<noteq> []" and x: "x = real (count_of correct ?auto) / real (length ?auto)"
      using that by (auto simp: report_from_predictions_def Let_def simp del: filter_empty_conv split: if_splits)
    have "x * real (length ?auto) = real (count_of correct ?auto)" using ne by (simp add: x del: filter_empty_conv)
    moreover have "count_of correct ?auto = count_of (\<lambda>p. TAU_AUTO \<le> pd_p_star p \<and> correct p) ps"
      by (simp add: count_of_def conj_commute)
    ultimately show ?thesis
      using quot_unit [of correct ?auto] x by (simp add: report_from_predictions_def Let_def)
  qed
  ultimately show ?thesis unfolding Let_def by blast
qed

theorem report_metrics_bounds_witness:
  "rp_auto_band_precision (report_from_predictions [\<lparr>pd_true = ''pb'', pd_pred = ''pb'', pd_p_star = 99 / 100\<rparr>]) \<noteq> None"
proof -
  let ?p = "\<lparr>pd_true = ''pb'', pd_pred = ''pb'', pd_p_star = 99 / 100\<rparr>"
  have "\<exists>p. p \<in> set [?p] \<and> \<not> pd_p_star p < TAU_AUTO" by (simp add: TAU_AUTO_def)
  then show ?thesis using report_metrics_bounds [of "[?p]"] unfolding Let_def by blast
qed

section \<open>The gate's decision\<close>

definition acceptable :: "eval_report \<Rightarrow> eval_report \<Rightarrow> bool" where
  "acceptable c a \<longleftrightarrow>
     rp_macro_f1 a - (if rp_ece a > 15 / 100 \<and> rp_ece c \<le> rp_ece a - 5 / 100 then 5 / 100 else 5 / 1000)
       \<le> rp_macro_f1 c
     \<and> (\<forall>cp. rp_auto_band_precision c = Some cp \<longrightarrow>
          855 / 1000 \<le> cp \<and> (\<forall>ap. rp_auto_band_precision a = Some ap \<longrightarrow> ap \<le> cp))
     \<and> rp_abstain_rate c \<le> rp_abstain_rate a + 5 / 100"

lemma passes_gate_iff: "gr_ship (passes_gate c (Some a)) \<longleftrightarrow> acceptable c a"
proof -
  have auto: "(case rp_auto_band_precision c of None \<Rightarrow> []
      | Some cp \<Rightarrow> if cp < (case rp_auto_band_precision a of None \<Rightarrow> AUTO_BAND_FLOOR | Some ap \<Rightarrow> max ap AUTO_BAND_FLOOR)
                   then [AutoBandPrecision] else []) = []
    \<longleftrightarrow> (\<forall>cp. rp_auto_band_precision c = Some cp \<longrightarrow>
          855 / 1000 \<le> cp \<and> (\<forall>ap. rp_auto_band_precision a = Some ap \<longrightarrow> ap \<le> cp))"
    by (auto simp: gate_consts split: option.split if_splits)
  show ?thesis
    unfolding passes_gate_def Let_def option.case gate_result.simps append_is_Nil_conv auto acceptable_def
    by (auto simp: gate_consts active_calibration_degraded_def)
qed

text \<open>
  The gate ships a candidate over an active model exactly when its macro-F1 is at most 0.005
  below the active one's (0.05 when the active model's calibration error is above 0.15 and the
  candidate's is better by 0.05), its auto-band precision, if it has an auto band, is at least
  0.855 and at least the active model's, and its abstain rate is at most 0.05 above. A refusal
  names every failed condition; with no active model the candidate always ships.
\<close>

theorem gate_decision:
  "(gr_ship (passes_gate c (Some a)) \<longleftrightarrow> acceptable c a)
   \<and> (gr_reasons (passes_gate c (Some a)) = [] \<longleftrightarrow> acceptable c a)
   \<and> (MacroF1 \<in> set (gr_reasons (passes_gate c (Some a))) \<longleftrightarrow>
        rp_macro_f1 c < rp_macro_f1 a
          - (if rp_ece a > 15 / 100 \<and> rp_ece c \<le> rp_ece a - 5 / 100 then 5 / 100 else 5 / 1000))
   \<and> (AutoBandPrecision \<in> set (gr_reasons (passes_gate c (Some a))) \<longleftrightarrow>
        (\<exists>cp. rp_auto_band_precision c = Some cp
           \<and> (cp < 855 / 1000 \<or> (\<exists>ap. rp_auto_band_precision a = Some ap \<and> cp < ap))))
   \<and> (AbstainRate \<in> set (gr_reasons (passes_gate c (Some a))) \<longleftrightarrow>
        rp_abstain_rate a + 5 / 100 < rp_abstain_rate c)
   \<and> gr_ship (passes_gate c None)"
proof -
  have "gr_ship (passes_gate c (Some a)) \<longleftrightarrow> gr_reasons (passes_gate c (Some a)) = []"
    by (simp add: passes_gate_def Let_def)
  moreover have "AutoBandPrecision \<in> set (gr_reasons (passes_gate c (Some a))) \<longleftrightarrow>
      (\<exists>cp. rp_auto_band_precision c = Some cp
         \<and> (cp < 855 / 1000 \<or> (\<exists>ap. rp_auto_band_precision a = Some ap \<and> cp < ap)))"
    by (cases "rp_auto_band_precision c")
      (auto simp: passes_gate_def Let_def gate_consts max_def split: option.splits if_splits)
  moreover have "MacroF1 \<in> set (gr_reasons (passes_gate c (Some a))) \<longleftrightarrow>
      rp_macro_f1 c < rp_macro_f1 a
        - (if rp_ece a > 15 / 100 \<and> rp_ece c \<le> rp_ece a - 5 / 100 then 5 / 100 else 5 / 1000)"
    by (auto simp: passes_gate_def Let_def gate_consts active_calibration_degraded_def split: option.splits if_splits)
  moreover have "AbstainRate \<in> set (gr_reasons (passes_gate c (Some a))) \<longleftrightarrow>
      rp_abstain_rate a + 5 / 100 < rp_abstain_rate c"
    by (auto simp: passes_gate_def Let_def gate_consts split: option.splits if_splits)
  moreover have "gr_ship (passes_gate c None)" by (simp add: passes_gate_def)
  ultimately show ?thesis using passes_gate_iff by blast
qed

text \<open>
  C4. The gate is safe for the live set. If the gate answers at all, the served model, its
  calibrators and the time of the last shipped model are what they were before (a rejected candidate
  is at most stored as an inactive row) and the store stays well formed. If it accepts over an active
  model, then a proxy trained only on the earlier part of the usable events, at least 50 of them, was
  scored on a non-empty later part the training never saw, and its report was acceptable against
  the active model's.
\<close>

theorem ship_gate_safe:
  assumes "model_store_ok s"
    and "ship_gate booster iso_fit fr train_fn now version candidate rows s = Some (ok, s')"
  shows "live s' = live s \<and> last_shipped_at KIND_GBM s' = last_shipped_at KIND_GBM s \<and> model_store_ok s'
    \<and> (ok \<longrightarrow> s' = s)
    \<and> (\<forall>act tr ev. ok \<and> load_active_model s = Some (Some act)
          \<and> chronological_split (usable_events rows) fr = (tr, ev) \<longrightarrow>
        ev \<noteq> [] \<and> 50 \<le> length tr
        \<and> (\<exists>proxy cal. train_fn tr = Some proxy
             \<and> acceptable (evaluate booster proxy ev (fit_scoring_calibrator booster iso_fit proxy tr))
                          (evaluate booster act ev cal)))"
proof -
  obtain active active_cal where la: "load_active_model s = Some active" and
    r: "(if gr_ship (run_gate booster iso_fit rows active fr train_fn active_cal) then Some (True, s)
       else Some (False, persist_rejected now version candidate s)) = Some (ok, s')"
    using assms(2) unfolding ship_gate_def Let_def by (auto split: option.splits)
  have p: "live (persist_rejected now version candidate s) = live s
      \<and> last_shipped_at KIND_GBM (persist_rejected now version candidate s) = last_shipped_at KIND_GBM s
      \<and> model_store_ok (persist_rejected now version candidate s)"
  proof (cases "save_artifact now (rejected_spec version candidate) False s")
    case (Some q)
    then obtain i t where "save_artifact now (rejected_spec version candidate) False s = Some (i, t)" by (cases q) auto
    moreover have "as_rejected (rejected_spec version candidate)" by (simp add: rejected_spec_def)
    ultimately show ?thesis using audit_row_keeps_live [OF assms(1)] by (simp add: persist_rejected_def)
  qed (use assms(1) in \<open>simp add: persist_rejected_def\<close>)
  have "ev \<noteq> [] \<and> 50 \<le> length tr \<and> (\<exists>proxy cal. train_fn tr = Some proxy
             \<and> acceptable (evaluate booster proxy ev (fit_scoring_calibrator booster iso_fit proxy tr))
                          (evaluate booster act ev cal))"
    if "ok" "load_active_model s = Some (Some act)" "chronological_split (usable_events rows) fr = (tr, ev)" for act tr ev
  proof -
    have "gr_ship (run_gate booster iso_fit rows (Some act) fr train_fn active_cal)"
      using r la that(1,2) by (auto split: if_splits)
    then show ?thesis
      unfolding run_gate_def Let_def that(3) prod.case
      by (auto simp: verdict_def passes_gate_iff GBM_MIN_EVENTS_def split: if_splits option.splits)
  qed
  then show ?thesis using r p assms(1) by (auto split: if_splits)
qed

lemma demo_store_ok: "model_store_ok demo_store"
  using ship_effect [OF model_store_init_ok demo_specs_ok(1,2) demo_calibs_ok, of 10 60 None] demo_ship(1) by auto

lemma demo_load_active: "load_active_model demo_store = Some (Some demo_model)"
  using demo_store_live(1) by (auto simp: load_active_model_def demo_spec_def)

lemma demo_load_calibrator: "load_active_install_calibrator demo_store = Some (Some [(0, 0), (1, 1)])"
proof -
  obtain c where c: "load_active_calibrators demo_store = [c]" "ar_spec c = demo_calib None"
    using demo_store_live(2) by (auto simp: map_eq_Cons_conv)
  have s: "as_project_id (demo_calib None) = None" "as_feature_schema_ver (demo_calib None) = FEATURE_SCHEMA_VER"
    "as_blob (demo_calib None) = CalibBlob [(0, 0), (1, 1)]"
    by (simp_all add: demo_calib_def)
  show ?thesis by (simp add: load_active_install_calibrator_def c s)
qed

lemma demo_gate_refuses:
  "ship_gate booster iso_fit fr train_fn now version demo_model [] demo_store
     = Some (False, persist_rejected now version demo_model demo_store)"
proof -
  have "usable_events [] = []" by (simp add: usable_events_def latest_events_def)
  then show ?thesis
    by (simp add: ship_gate_def demo_load_active demo_load_calibrator run_gate_def chronological_split_def
        verdict_def Let_def)
qed

theorem ship_gate_safe_witness:
  "let s' = persist_rejected 30 ''x'' demo_model demo_store in
     live s' = live demo_store \<and> last_shipped_at KIND_GBM s' = last_shipped_at KIND_GBM demo_store"
  using ship_gate_safe [OF demo_store_ok
      demo_gate_refuses [of "\<lambda>_ _. []" "\<lambda>_ _. []" "8 / 10" "\<lambda>_. None" 30 "''x''"]]
  unfolding Let_def by blast

end
