(* ===== verification/Retraining.thy ===== *)
theory Retraining
  imports Evaluation
begin

text \<open>
  Training and its triggers (\<open>ml/trainer.py\<close>, \<open>ml/retrain.py\<close>). LightGBM (\<open>re_fit\<close>, \<open>re_booster\<close>),
  the isotonic fit, the label store, the version stamp and the gate are fields of \<open>retrain_env\<close>; a
  call reads one environment, because it runs under one lock. A raised error is a value, and what
  was already stored stays stored.
\<close>

section \<open>The training frame\<close>

definition dedup_latest :: "event_row list \<Rightarrow> event_row list" where
  "dedup_latest rows = dedup_from event_key {} rows"

definition xy_row :: "event_row \<Rightarrow> (real list \<times> string \<times> int) list" where
  "xy_row r =
     (if er_features r = [] then []
      else (case base_group (er_new_label r) of
              None \<Rightarrow> []
            | Some label \<Rightarrow> [(to_vector (map_of (er_features r)), label, er_project_id r)]))"

definition build_xy :: "event_row list \<Rightarrow> real list list \<times> string list \<times> int list" where
  "build_xy rows =
     (let xy = concat (map xy_row (dedup_latest rows))
      in (map fst xy, map (fst \<circ> snd) xy, map (snd \<circ> snd) xy))"

type_synonym 'm fitter = "real list list \<Rightarrow> string list \<Rightarrow> 'm \<times> string list"

definition fit_booster :: "'m fitter \<Rightarrow> real list list \<Rightarrow> string list \<Rightarrow> 'm gbm_model" where
  "fit_booster fit x y =
     (case fit x y of
        (booster, classes) \<Rightarrow>
          \<lparr>gm_booster = booster, gm_classes = classes, gm_feature_schema_ver = FEATURE_SCHEMA_VER,
           gm_feature_names = feature_names\<rparr>)"

text \<open>\<open>None\<close> is the \<open>TrainingError\<close>.\<close>

definition train_gbm :: "'m fitter \<Rightarrow> event_row list \<Rightarrow> 'm gbm_model option" where
  "train_gbm fit rows =
     (case build_xy rows of
        (x, y, projects) \<Rightarrow>
          if length y < GBM_MIN_EVENTS then None
          else if length (remdups y) < 2 then None
          else Some (fit_booster fit x y))"

section \<open>Cross-fitted calibration\<close>

definition CALIB_FOLDS :: nat where "CALIB_FOLDS = 5"
definition CALIB_MIN_EVENTS :: nat where "CALIB_MIN_EVENTS = 300"

record oof_score =
  of_raw :: real
  of_correct :: int
  of_project :: int

definition n_folds :: "nat \<Rightarrow> nat \<Rightarrow> nat" where
  "n_folds k n = max 2 (min k n)"

definition train_idx :: "nat \<Rightarrow> nat \<Rightarrow> nat \<Rightarrow> nat list" where
  "train_idx n k f = filter (\<lambda>i. i mod k \<noteq> f) [0..<n]"

definition test_idx :: "nat \<Rightarrow> nat \<Rightarrow> nat \<Rightarrow> nat list" where
  "test_idx n k f = filter (\<lambda>i. i mod k = f) [0..<n]"

definition fold_scores ::
  "('m \<Rightarrow> real list \<Rightarrow> real list) \<Rightarrow> 'm fitter \<Rightarrow> nat \<Rightarrow> real list list \<times> string list \<times> int list
     \<Rightarrow> nat \<Rightarrow> oof_score list" where
  "fold_scores booster fit k xyp f =
     (case xyp of
        (x, y, projects) \<Rightarrow>
          (let n = length y; tr = train_idx n k f; te = test_idx n k f;
               y_train = map ((!) y) tr
           in if te = [] \<or> length (remdups y_train) < 2 then []
              else (let m = fit_booster fit (map ((!) x) tr) y_train
                    in concat (map (\<lambda>i.
                         case predict_label booster m (x ! i) of
                           None \<Rightarrow> []
                         | Some (label, raw, probs) \<Rightarrow>
                             [\<lparr>of_raw = raw, of_correct = (if label = y ! i then 1 else 0),
                               of_project = projects ! i\<rparr>]) te))))"

definition oof_scores ::
  "('m \<Rightarrow> real list \<Rightarrow> real list) \<Rightarrow> 'm fitter \<Rightarrow> nat \<Rightarrow> event_row list \<Rightarrow> oof_score list" where
  "oof_scores booster fit k0 rows =
     (let xyp = build_xy rows; n = length (fst (snd xyp)) in
      if n = 0 then []
      else (let k = n_folds k0 n in concat (map (fold_scores booster fit k xyp) [0..<k])))"

text \<open>The dictionary of calibrators as the list of its items, in insertion order.\<close>

definition fit_calibrators ::
  "('m \<Rightarrow> real list \<Rightarrow> real list) \<Rightarrow> 'm fitter \<Rightarrow> (real list \<Rightarrow> int list \<Rightarrow> knots) \<Rightarrow> event_row list
     \<Rightarrow> (int option \<times> knots) list" where
  "fit_calibrators booster fit iso_fit rows =
     (let scores = oof_scores booster fit CALIB_FOLDS rows;
          fitted = (\<lambda>ss. iso_fit (map of_raw ss) (map of_correct ss));
          bucket = (\<lambda>p. filter (\<lambda>s. of_project s = p) scores)
      in if scores = [] then []
         else (if length scores \<ge> CALIB_MIN_EVENTS then [(None, fitted scores)] else [])
              @ concat (map (\<lambda>p. if length (bucket p) \<ge> CALIB_MIN_EVENTS then [(Some p, fitted (bucket p))]
                                 else [])
                         (dedup_from (\<lambda>p. p) {} (map of_project scores))))"

section \<open>The retrainer\<close>

definition RETRAIN_EVENT_THRESHOLD :: nat where "RETRAIN_EVENT_THRESHOLD = 100"
definition MIN_RETRAIN_INTERVAL :: seconds where "MIN_RETRAIN_INTERVAL = 3600"
definition FAILED_ATTEMPT_COOLDOWN :: seconds where "FAILED_ATTEMPT_COOLDOWN = 300"
definition NIGHTLY_HOUR_UTC :: nat where "NIGHTLY_HOUR_UTC = 2"

definition REASON_EVENTS :: string where "REASON_EVENTS = ''events''"
definition REASON_NIGHTLY :: string where "REASON_NIGHTLY = ''nightly''"
definition REASON_ROUTE :: string where "REASON_ROUTE = ''route''"

datatype retrain_status = Shipped | Skipped

record retrain_outcome =
  ro_status :: retrain_status
  ro_reason :: string
  ro_version :: "string option"
  ro_n_events :: nat
  ro_class_counts :: "(string \<times> nat) list"

definition skipped :: "string \<Rightarrow> nat \<Rightarrow> retrain_outcome" where
  "skipped reason n =
     \<lparr>ro_status = Skipped, ro_reason = reason, ro_version = None, ro_n_events = n, ro_class_counts = []\<rparr>"

record 'm retrain_env =
  re_threshold :: nat
  re_min_interval :: seconds
  re_failed_cooldown :: seconds
  re_count_since :: "seconds option \<Rightarrow> nat"
  re_frame :: "event_row list"
  re_db_now :: seconds
  re_version :: "seconds \<Rightarrow> string"
  re_gate :: "('m gbm_model \<Rightarrow> event_row list \<Rightarrow> 'm model_store \<Rightarrow> (bool \<times> 'm model_store) option) option"
  re_booster :: "'m \<Rightarrow> real list \<Rightarrow> real list"
  re_fit :: "'m fitter"
  re_iso_fit :: "real list \<Rightarrow> int list \<Rightarrow> knots"
  re_monotonic :: seconds
  re_refresh_interval :: seconds

record 'm retrainer =
  rt_store :: "'m model_store"
  rt_predictor :: "'m predictor option"
  rt_last_failed_at :: "seconds option"
  rt_last_failed_was_cold :: bool

datatype retrain_error = ErrTraining | ErrRaised

definition gbm_spec_of :: "string \<Rightarrow> nat \<Rightarrow> 'm gbm_model \<Rightarrow> 'm artifact_spec" where
  "gbm_spec_of version n m =
     \<lparr>as_kind = KIND_GBM, as_project_id = None, as_version = version,
      as_feature_schema_ver = FEATURE_SCHEMA_VER, as_blob = GbmBlob m, as_n_events = int n,
      as_rejected = False\<rparr>"

definition calib_spec_of :: "string \<Rightarrow> nat \<Rightarrow> int option \<times> knots \<Rightarrow> 'm artifact_spec" where
  "calib_spec_of version n c =
     \<lparr>as_kind = KIND_CALIB, as_project_id = fst c, as_version = version,
      as_feature_schema_ver = FEATURE_SCHEMA_VER, as_blob = CalibBlob (snd c), as_n_events = int n,
      as_rejected = False\<rparr>"

definition class_counts :: "string list \<Rightarrow> (string \<times> nat) list" where
  "class_counts y = map (\<lambda>l. (l, count_of ((=) l) y)) (dedup_from (\<lambda>l. l) {} y)"

text \<open>\<open>_retrain\<close>. With no gate every candidate ships.\<close>

definition retrain_body ::
  "'m retrain_env \<Rightarrow> string \<Rightarrow> seconds \<Rightarrow> 'm retrainer
     \<Rightarrow> (retrain_error + retrain_outcome) \<times> 'm retrainer" where
  "retrain_body env reason now r =
     (case train_gbm (re_fit env) (re_frame env) of
        None \<Rightarrow> (Inl ErrTraining, r)
      | Some model \<Rightarrow>
          (let y = fst (snd (build_xy (re_frame env))); n = length y in
           case (case re_gate env of
                   None \<Rightarrow> Some (True, rt_store r)
                 | Some gate \<Rightarrow> gate model (re_frame env) (rt_store r)) of
             None \<Rightarrow> (Inl ErrRaised, r)
           | Some (False, s) \<Rightarrow> (Inr (skipped ''gate_rejected'' n), r\<lparr>rt_store := s\<rparr>)
           | Some (True, s) \<Rightarrow>
               (let version = re_version env now;
                    calibrators = fit_calibrators (re_booster env) (re_fit env) (re_iso_fit env) (re_frame env)
                in case ship (re_db_now env) (gbm_spec_of version n model)
                          (map (calib_spec_of version n) calibrators) s of
                     None \<Rightarrow> (Inl ErrRaised, r\<lparr>rt_store := s\<rparr>)
                   | Some (i, s') \<Rightarrow>
                       (Inr \<lparr>ro_status = Shipped, ro_reason = reason, ro_version = Some version,
                             ro_n_events = n, ro_class_counts = class_counts y\<rparr>,
                        r\<lparr>rt_store := s',
                          rt_predictor :=
                            map_option (refresh (re_monotonic env) (re_refresh_interval env) s' s' s')
                              (rt_predictor r)\<rparr>))))"

text \<open>\<open>maybe_retrain\<close>; the outcome \<open>None\<close> is an error other than \<open>TrainingError\<close> that leaves the call.\<close>

definition debounced :: "'m retrain_env \<Rightarrow> seconds \<Rightarrow> 'm retrainer \<Rightarrow> bool" where
  "debounced env now r \<longleftrightarrow>
     (case last_shipped_at KIND_GBM (rt_store r) of
        None \<Rightarrow> False | Some t \<Rightarrow> now - t < re_min_interval env)"

definition in_cooldown :: "'m retrain_env \<Rightarrow> seconds \<Rightarrow> 'm retrainer \<Rightarrow> bool" where
  "in_cooldown env now r \<longleftrightarrow>
     (case rt_last_failed_at r of None \<Rightarrow> False | Some t \<Rightarrow> now - t < re_failed_cooldown env)"

definition maybe_retrain ::
  "'m retrain_env \<Rightarrow> string \<Rightarrow> seconds \<Rightarrow> 'm retrainer \<Rightarrow> retrain_outcome option \<times> 'm retrainer" where
  "maybe_retrain env reason now r =
     (let shipped_at = last_shipped_at KIND_GBM (rt_store r) in
      if debounced env now r then (Some (skipped ''debounced'' 0), r)
      else if in_cooldown env now r \<and> \<not> (rt_last_failed_was_cold r \<and> reason \<noteq> REASON_EVENTS)
      then (Some (skipped ''debounced'' 0), r)
      else if reason = REASON_EVENTS \<and> shipped_at \<noteq> None \<and> re_count_since env shipped_at < re_threshold env
      then (Some (skipped ''below_threshold'' 0), r)
      else (case retrain_body env reason now r of
              (Inl ErrTraining, r') \<Rightarrow>
                (Some (skipped ''cold'' 0), r'\<lparr>rt_last_failed_at := Some now, rt_last_failed_was_cold := True\<rparr>)
            | (Inl ErrRaised, r') \<Rightarrow> (None, r')
            | (Inr out, r') \<Rightarrow>
                (Some out,
                 if ro_status out = Shipped then r'\<lparr>rt_last_failed_at := None\<rparr>
                 else r'\<lparr>rt_last_failed_at := Some now, rt_last_failed_was_cold := False\<rparr>)))"

text \<open>\<open>retrain\<close>: neither the window nor the cool-down applies.\<close>

definition force_retrain ::
  "'m retrain_env \<Rightarrow> string \<Rightarrow> seconds \<Rightarrow> 'm retrainer \<Rightarrow> retrain_outcome option \<times> 'm retrainer" where
  "force_retrain env reason now r =
     (case retrain_body env reason now r of
        (Inl ErrTraining, r') \<Rightarrow> (Some (skipped ''cold'' 0), r')
      | (Inl ErrRaised, r') \<Rightarrow> (None, r')
      | (Inr out, r') \<Rightarrow> (Some out, r'))"

section \<open>The background scheduler and the nightly timer\<close>

definition reason_rank :: "string \<Rightarrow> nat" where
  "reason_rank reason =
     (case map_of [(REASON_EVENTS, 0), (REASON_NIGHTLY, 1), (REASON_ROUTE, 2)] reason of
        None \<Rightarrow> 0 | Some n \<Rightarrow> n)"

record scheduler =
  sc_pending :: "string option"
  sc_running :: bool
  sc_stopping :: bool
  sc_started :: bool
  sc_outcomes :: "retrain_outcome list"

definition scheduler_init :: scheduler where
  "scheduler_init = \<lparr>sc_pending = None, sc_running = False, sc_stopping = False, sc_started = False,
                     sc_outcomes = []\<rparr>"

definition sched_start :: "scheduler \<Rightarrow> scheduler" where
  "sched_start s = (if sc_started s then s else s\<lparr>sc_started := True\<rparr>)"

definition request :: "string \<Rightarrow> scheduler \<Rightarrow> scheduler" where
  "request reason s =
     (case sc_pending s of
        None \<Rightarrow> s\<lparr>sc_pending := Some reason\<rparr>
      | Some p \<Rightarrow> if reason_rank reason > reason_rank p then s\<lparr>sc_pending := Some reason\<rparr> else s)"

text \<open>The first half of a turn of \<open>_loop\<close>, up to releasing the lock: \<open>None\<close> is waiting or over.\<close>

definition sched_take :: "scheduler \<Rightarrow> (string \<times> scheduler) option" where
  "sched_take s =
     (if \<not> sc_started s \<or> sc_stopping s then None
      else map_option (\<lambda>reason. (reason, s\<lparr>sc_pending := None, sc_running := True\<rparr>)) (sc_pending s))"

text \<open>The second half: the outcome is kept (at most 100), an error is only logged.\<close>

definition keep_outcome :: "retrain_outcome \<Rightarrow> retrain_outcome list \<Rightarrow> retrain_outcome list" where
  "keep_outcome out outs = (let ys = outs @ [out] in drop (length ys - 100) ys)"

definition sched_finish :: "retrain_outcome option \<Rightarrow> scheduler \<Rightarrow> scheduler" where
  "sched_finish res s =
     (case res of
        None \<Rightarrow> s\<lparr>sc_running := False\<rparr>
      | Some out \<Rightarrow> s\<lparr>sc_outcomes := keep_outcome out (sc_outcomes s), sc_running := False\<rparr>)"

definition sched_idle :: "scheduler \<Rightarrow> bool" where
  "sched_idle s \<longleftrightarrow> sc_pending s = None \<and> \<not> sc_running s"

definition sched_stop :: "scheduler \<Rightarrow> scheduler" where
  "sched_stop s = s\<lparr>sc_stopping := True\<rparr>"

text \<open>Seconds since the epoch, UTC; a day has 86400.\<close>

definition seconds_until_next_run :: "nat \<Rightarrow> seconds \<Rightarrow> seconds" where
  "seconds_until_next_run hour now =
     (let target = of_int \<lfloor>now / 86400\<rfloor> * 86400 + of_nat hour * 3600;
          target = (if target \<le> now then target + 86400 else target)
      in target - now)"

section \<open>Ships are spaced\<close>

lemma insert_row_keeps: "insert_row now spec a s = Some (i, s') \<Longrightarrow> set (ms_rows s) \<subseteq> set (ms_rows s')"
  by (auto simp: insert_row_def Let_def split: if_splits)

lemma insert_all_keeps: "insert_all now specs s = Some s' \<Longrightarrow> set (ms_rows s) \<subseteq> set (ms_rows s')"
proof (induction now specs s rule: insert_all.induct)
  case (2 now spec specs s)
  then obtain i s1 where i: "insert_row now spec True s = Some (i, s1)" "insert_all now specs s1 = Some s'"
    by (auto split: option.splits)
  from 2(1) [OF i(1) refl i(2)] insert_row_keeps [OF i(1)] show ?case by blast
qed simp

definition dates_kept :: "'m model_store \<Rightarrow> 'm model_store \<Rightarrow> bool" where
  "dates_kept s t \<longleftrightarrow> (\<forall>r \<in> set (ms_rows s). \<exists>q \<in> set (ms_rows t).
     ar_spec q = ar_spec r \<and> ar_trained_at q = ar_trained_at r)"

lemma dates_kept_subset: "set (ms_rows s) \<subseteq> set (ms_rows t) \<Longrightarrow> dates_kept s t"
  by (auto simp: dates_kept_def)

lemma dates_kept_trans: "dates_kept s t \<Longrightarrow> dates_kept t u \<Longrightarrow> dates_kept s u"
  unfolding dates_kept_def by metis

lemma dates_kept_deactivate: "dates_kept s (deactivate p s)"
  unfolding dates_kept_def
proof
  fix r assume "r \<in> set (ms_rows s)"
  then have "(if p r then r\<lparr>ar_is_active := False\<rparr> else r) \<in> set (ms_rows (deactivate p s))"
    by (simp add: deactivate_def)
  then show "\<exists>q \<in> set (ms_rows (deactivate p s)). ar_spec q = ar_spec r \<and> ar_trained_at q = ar_trained_at r"
    by (rule rev_bexI) simp
qed

lemma ship_dates:
  assumes "ship now gbm cs s = Some (i, t)"
  shows "dates_kept s t" "\<exists>q \<in> set (ms_rows t). ar_spec q = gbm \<and> ar_trained_at q = now"
proof -
  let ?s0 = "deactivate (\<lambda>r. ar_is_active r \<and> as_kind (ar_spec r) \<in> {KIND_GBM, KIND_CALIB}) s"
  from assms obtain s1 where g: "insert_row now gbm True ?s0 = Some (i, s1)" "insert_all now cs s1 = Some t"
    unfolding ship_def Let_def by (auto split: option.splits)
  note k = insert_row_keeps [OF g(1)] insert_all_keeps [OF g(2)]
  show "dates_kept s t"
    using dates_kept_trans [OF dates_kept_deactivate dates_kept_subset [OF order_trans [OF k]]] .
  have "\<exists>q \<in> set (ms_rows s1). ar_spec q = gbm \<and> ar_trained_at q = now"
    using g(1) by (auto simp: insert_row_def Let_def split: if_splits)
  then show "\<exists>q \<in> set (ms_rows t). ar_spec q = gbm \<and> ar_trained_at q = now" using k(2) by blast
qed

lemma store_grows_dates: "store_grows s t \<Longrightarrow> dates_kept s t"
proof (induction rule: rtranclp_induct)
  case base
  show ?case by (simp add: dates_kept_subset)
next
  case (step t u)
  have "dates_kept t u" using step(2)
  proof cases
    case (ships gbm cs now i)
    show ?thesis by (rule ship_dates(1) [OF ships(4)])
  next
    case (audits now spec i)
    then show ?thesis by (intro dates_kept_subset) (simp add: save_artifact_def insert_row_keeps)
  qed
  with step(3) show ?case by (rule dates_kept_trans)
qed

lemma last_shipped_at_ge:
  assumes "q \<in> set (ms_rows s)" "as_kind (ar_spec q) = k" "\<not> as_rejected (ar_spec q)"
  shows "\<exists>t. last_shipped_at k s = Some t \<and> ar_trained_at q \<le> t"
proof -
  let ?ts = "map ar_trained_at (filter (\<lambda>r. as_kind (ar_spec r) = k \<and> \<not> as_rejected (ar_spec r)) (ms_rows s))"
  have m: "ar_trained_at q \<in> set ?ts" using assms by auto
  then have "?ts \<noteq> []" by (metis empty_iff list.set(1))
  then obtain t where t: "py_max (\<lambda>t. t) ?ts = Some t"
    using py_max_None_iff [of "\<lambda>t. t" ?ts] by blast
  then show ?thesis using py_max_ge [OF t m] by (simp add: last_shipped_at_def)
qed

lemma retrain_body_ships:
  assumes "retrain_body env reason now r = (Inr out, r')" "ro_status out = Shipped"
  obtains n m cs s i where
    "ship (re_db_now env) (gbm_spec_of (re_version env now) n m) cs s = Some (i, rt_store r')"
    "ro_reason out = reason" "ro_version out = Some (re_version env now)"
  using assms unfolding retrain_body_def Let_def
  by (auto simp: skipped_def split: option.splits bool.splits)

lemma maybe_retrain_ships:
  assumes "maybe_retrain env reason now r = (Some out, r')" "ro_status out = Shipped"
  shows "\<not> debounced env now r" "\<exists>r1. retrain_body env reason now r = (Inr out, r1) \<and> rt_store r' = rt_store r1"
  using assms unfolding maybe_retrain_def Let_def
  by (auto simp: skipped_def split: if_splits sum.splits retrain_error.splits prod.splits)

lemma force_retrain_ships:
  assumes "force_retrain env reason now r = (Some out, r')" "ro_status out = Shipped"
  shows "retrain_body env reason now r = (Inr out, r')"
  using assms unfolding force_retrain_def
  by (auto simp: skipped_def split: sum.splits retrain_error.splits prod.splits)

text \<open>
  At most one model per window. Once a call has shipped a model, by a trigger or by force, then
  however other processes ship or store audit rows in between, no trigger whatever its reason ships
  again before the window has passed since the time the database gave that model.
\<close>

theorem ships_spaced:
  assumes "(Some out, r1) \<in> {maybe_retrain env reason now r, force_retrain env reason now r}"
    and "ro_status out = Shipped"
    and "store_grows (rt_store r1) (rt_store r2)"
    and "maybe_retrain env2 reason2 now2 r2 = (Some out2, r3)" and "ro_status out2 = Shipped"
  shows "re_db_now env + re_min_interval env2 \<le> now2"
proof -
  obtain r0 where b: "retrain_body env reason now r = (Inr out, r0)" "rt_store r1 = rt_store r0"
    using assms(1,2) maybe_retrain_ships(2) force_retrain_ships by (metis empty_iff insert_iff)
  obtain n m cs s i where
    sh: "ship (re_db_now env) (gbm_spec_of (re_version env now) n m) cs s = Some (i, rt_store r1)"
    using retrain_body_ships [OF b(1) assms(2)] b(2) by metis
  obtain q where q: "q \<in> set (ms_rows (rt_store r2))" "ar_spec q = gbm_spec_of (re_version env now) n m"
    "ar_trained_at q = re_db_now env"
    using ship_dates(2) [OF sh] store_grows_dates [OF assms(3)] unfolding dates_kept_def by metis
  then obtain t where t: "last_shipped_at KIND_GBM (rt_store r2) = Some t" "re_db_now env \<le> t"
    using last_shipped_at_ge [OF q(1), of KIND_GBM] by (auto simp: gbm_spec_of_def)
  show ?thesis using maybe_retrain_ships(1) [OF assms(4,5)] t by (simp add: debounced_def)
qed

section \<open>Cross-fit\<close>

definition fold_model ::
  "'m fitter \<Rightarrow> nat \<Rightarrow> real list list \<Rightarrow> string list \<Rightarrow> nat \<Rightarrow> 'm gbm_model" where
  "fold_model fit k x y f =
     fit_booster fit (map ((!) x) (train_idx (length y) k f)) (map ((!) y) (train_idx (length y) k f))"

lemma map_update_train_idx:
  "map ((!) (zs[i := w])) (train_idx n k (i mod k)) = map ((!) zs) (train_idx n k (i mod k))"
  by (rule map_cong [OF refl]) (auto simp: train_idx_def intro!: nth_list_update_neq)

lemma fold_scores_model:
  "fold_scores booster fit k (x, y, projects) f =
     (if test_idx (length y) k f = [] \<or> length (remdups (map ((!) y) (train_idx (length y) k f))) < 2 then []
      else concat (map (\<lambda>i.
             case predict_label booster (fold_model fit k x y f) (x ! i) of
               None \<Rightarrow> []
             | Some (label, raw, probs) \<Rightarrow>
                 [\<lparr>of_raw = raw, of_correct = (if label = y ! i then 1 else 0), of_project = projects ! i\<rparr>])
             (test_idx (length y) k f)))"
  by (simp add: fold_scores_def fold_model_def Let_def)

lemma length_concat_le_one:
  assumes "\<And>x. length (f x) \<le> 1"
  shows "length (concat (map f xs)) \<le> length xs"
proof (induction xs)
  case (Cons a xs)
  then show ?case using assms [of a] by simp
qed simp

lemma fold_scores_length: "length (fold_scores booster fit k (x, y, projects) f) \<le> length (test_idx (length y) k f)"
  unfolding fold_scores_model by (auto intro!: length_concat_le_one split: option.split)

lemma test_idx_total: "0 < k \<Longrightarrow> sum_list (map (\<lambda>f. length (test_idx n k f)) [0..<k]) = n"
proof (induction n)
  case 0
  then show ?case by (simp add: test_idx_def sum_list_triv)
next
  case (Suc n)
  have "length (test_idx (Suc n) k f) = length (test_idx n k f) + (if n mod k = f then 1 else 0)" for f
    by (simp add: test_idx_def)
  moreover have "sum_list (map (\<lambda>f. if n mod k = f then 1 else (0::nat)) [0..<k]) = 1"
  proof -
    have "sum_list (map (\<lambda>f. if n mod k = f then 1 else (0::nat)) [0..<k]) = (\<Sum>f\<in>{0..<k}. if n mod k = f then 1 else 0)"
      by (simp add: interv_sum_list_conv_sum_set_nat)
    also have "\<dots> = 1" using Suc.prems by simp
    finally show ?thesis .
  qed
  ultimately show ?case using Suc.IH [OF Suc.prems] by (simp add: sum_list_addf)
qed

lemma oof_scores_length: "length (oof_scores booster fit k0 rows) \<le> length (fst (snd (build_xy rows)))"
proof -
  obtain x y p where xy: "build_xy rows = (x, y, p)" by (cases "build_xy rows")
  let ?k = "n_folds k0 (length y)"
  have "length (concat (map (fold_scores booster fit ?k (x, y, p)) [0..<?k]))
      \<le> sum_list (map (\<lambda>f. length (test_idx (length y) ?k f)) [0..<?k])"
    unfolding length_concat map_map comp_def by (rule sum_list_mono) (rule fold_scores_length)
  also have "\<dots> = length y" by (rule test_idx_total) (simp add: n_folds_def)
  finally show ?thesis by (simp add: oof_scores_def xy Let_def)
qed

definition scores_of :: "int option \<Rightarrow> oof_score list \<Rightarrow> oof_score list" where
  "scores_of key ss = (case key of None \<Rightarrow> ss | Some p \<Rightarrow> filter (\<lambda>s. of_project s = p) ss)"

lemma fit_calibrators_keys:
  fixes booster fit iso_fit rows
  defines "ss \<equiv> oof_scores booster fit CALIB_FOLDS rows"
  shows "distinct (map fst (fit_calibrators booster fit iso_fit rows))"
    "(key, c) \<in> set (fit_calibrators booster fit iso_fit rows) \<longleftrightarrow>
       300 \<le> length (scores_of key ss)
       \<and> c = iso_fit (map of_raw (scores_of key ss)) (map of_correct (scores_of key ss))"
proof -
  let ?ps = "dedup_from (\<lambda>p. p) {} (map of_project ss)"
  let ?g = "\<lambda>p. if 300 \<le> length (scores_of (Some p) ss)
    then [(Some p, iso_fit (map of_raw (scores_of (Some p) ss)) (map of_correct (scores_of (Some p) ss)))] else []"
  let ?l = "(if 300 \<le> length ss then [(None, iso_fit (map of_raw ss) (map of_correct ss))] else []) @ concat (map ?g ?ps)"
  have nil: "?l = []" if "ss = []" using that by simp
  have eq: "fit_calibrators booster fit iso_fit rows = ?l"
  proof (cases "ss = []")
    case True
    then show ?thesis using nil by (simp add: fit_calibrators_def Let_def ss_def)
  next
    case False
    have s: "scores_of (Some p) xs = filter (\<lambda>s. of_project s = p) xs" for p xs
      by (simp add: scores_of_def)
    show ?thesis
      using False unfolding fit_calibrators_def Let_def CALIB_MIN_EVENTS_def s ss_def by simp
  qed
  have dp: "distinct ?ps" using dedup_from_distinct [of "\<lambda>p. p"] by simp
  have sub: "map fst (concat (map ?g qs)) = map Some (filter (\<lambda>p. 300 \<le> length (scores_of (Some p) ss)) qs)" for qs
    by (induction qs) auto
  show "distinct (map fst (fit_calibrators booster fit iso_fit rows))"
    unfolding eq map_append sub using dp by (auto simp: distinct_map)
  have ps: "set ?ps = of_project ` set ss" using dedup_from_keys [of "\<lambda>p. p" "{}" "map of_project ss"] by simp
  have big: "p \<in> set ?ps" if "300 \<le> length (scores_of (Some p) ss)" for p
  proof -
    have "scores_of (Some p) ss \<noteq> []" using that by auto
    then show ?thesis unfolding ps by (auto simp: scores_of_def filter_empty_conv)
  qed
  show "(key, c) \<in> set (fit_calibrators booster fit iso_fit rows) \<longleftrightarrow>
       300 \<le> length (scores_of key ss)
       \<and> c = iso_fit (map of_raw (scores_of key ss)) (map of_correct (scores_of key ss))"
  proof (cases key)
    case None
    then show ?thesis unfolding eq by (auto simp: scores_of_def)
  next
    case (Some p)
    then show ?thesis unfolding eq using big [of p] by (auto split: if_splits)
  qed
qed

text \<open>
  Calibration is out of sample. No row is scored more than once, the booster that scores row \<open>i\<close>
  does not change when the features and the label of row \<open>i\<close> do, every project has at most one
  calibrator, and a calibrator, for a project or for the install, is fitted exactly when it has at
  least 300 scores of its own and from those scores only.
\<close>

theorem calibration_out_of_sample:
  assumes "i < length y" and "length x = length y"
  shows "fold_model fit k (x[i := v]) (y[i := l]) (i mod k) = fold_model fit k x y (i mod k)
    \<and> length (oof_scores booster fit CALIB_FOLDS rows) \<le> length (fst (snd (build_xy rows)))
    \<and> distinct (map fst (fit_calibrators booster fit iso_fit rows))
    \<and> ((key, c) \<in> set (fit_calibrators booster fit iso_fit rows) \<longleftrightarrow>
       (let mine = scores_of key (oof_scores booster fit CALIB_FOLDS rows) in
         300 \<le> length mine \<and> c = iso_fit (map of_raw mine) (map of_correct mine)))"
proof -
  have "fold_model fit k (x[i := v]) (y[i := l]) (i mod k) = fold_model fit k x y (i mod k)"
    unfolding fold_model_def length_list_update map_update_train_idx ..
  then show ?thesis
    using oof_scores_length fit_calibrators_keys unfolding Let_def by blast
qed

section \<open>One retrain against the store\<close>

definition safe_gate ::
  "('m gbm_model \<Rightarrow> event_row list \<Rightarrow> 'm model_store \<Rightarrow> (bool \<times> 'm model_store) option) option \<Rightarrow> bool" where
  "safe_gate g \<longleftrightarrow> g = None
     \<or> (\<exists>booster iso_fit fr train_fn now ver.
          g = Some (\<lambda>c rows s. ship_gate booster iso_fit fr train_fn now ver c rows s))"

definition store_kept :: "'m model_store \<Rightarrow> 'm model_store \<Rightarrow> bool" where
  "store_kept s t \<longleftrightarrow> model_store_ok t \<and> live t = live s \<and> last_shipped_at KIND_GBM t = last_shipped_at KIND_GBM s"

lemma ship_gate_keeps:
  assumes "model_store_ok s"
    and "ship_gate booster iso_fit fr train_fn now version candidate rows s = Some (ok, s')"
  shows "store_kept s s'"
proof -
  have "s' = s \<or> s' = persist_rejected now version candidate s"
    using assms(2) unfolding ship_gate_def Let_def by (auto split: option.splits if_splits)
  moreover have "store_kept s (persist_rejected now version candidate s)"
  proof (cases "save_artifact now (rejected_spec version candidate) False s")
    case (Some q)
    then obtain i t where "save_artifact now (rejected_spec version candidate) False s = Some (i, t)" by (cases q) auto
    moreover have "as_rejected (rejected_spec version candidate)" by (simp add: rejected_spec_def)
    ultimately show ?thesis
      using audit_row_keeps_live [OF assms(1)] by (simp add: persist_rejected_def store_kept_def)
  qed (use assms(1) in \<open>simp add: persist_rejected_def store_kept_def\<close>)
  ultimately show ?thesis using assms(1) by (auto simp: store_kept_def)
qed

definition swapped_in :: "'m retrain_env \<Rightarrow> 'm model_store \<Rightarrow> bool" where
  "swapped_in env t \<longleftrightarrow>
     (\<exists>m. train_gbm (re_fit env) (re_frame env) = Some m
        \<and> map_option (as_blob \<circ> ar_spec) (load_active_gbm t) = Some (GbmBlob m)
        \<and> map (\<lambda>r. (as_project_id (ar_spec r), as_blob (ar_spec r))) (load_active_calibrators t)
            = map (\<lambda>(p, ks). (p, CalibBlob ks))
                (fit_calibrators (re_booster env) (re_fit env) (re_iso_fit env) (re_frame env)))"

lemma retrain_body_store:
  assumes "model_store_ok (rt_store r)" and "safe_gate (re_gate env)"
    and "retrain_body env reason now r = (res, r')"
  shows "model_store_ok (rt_store r')
    \<and> (if \<exists>out. res = Inr out \<and> ro_status out = Shipped then swapped_in env (rt_store r')
       else store_kept (rt_store r) (rt_store r'))"
proof (cases "train_gbm (re_fit env) (re_frame env)")
  case None
  then show ?thesis using assms(1,3) by (auto simp: retrain_body_def store_kept_def)
next
  case (Some m)
  let ?n = "length (fst (snd (build_xy (re_frame env))))" and ?v = "re_version env now"
  let ?cal = "fit_calibrators (re_booster env) (re_fit env) (re_iso_fit env) (re_frame env)"
  let ?cs = "map (calib_spec_of ?v ?n) ?cal" and ?g = "gbm_spec_of ?v ?n m :: 'a artifact_spec"
  define verdict where "verdict =
    (case re_gate env of None \<Rightarrow> Some (True, rt_store r) | Some gate \<Rightarrow> gate m (re_frame env) (rt_store r))"
  have vk: "store_kept (rt_store r) s" if "verdict = Some (ok, s)" for ok s
    using assms(1,2) that ship_gate_keeps [OF assms(1)]
    by (auto simp: verdict_def safe_gate_def store_kept_def split: option.splits)
  note body = assms(3) [unfolded retrain_body_def Some option.case Let_def, folded verdict_def]
  show ?thesis
  proof (cases verdict)
    case None
    then show ?thesis using body assms(1) by (auto simp: store_kept_def)
  next
    case (Some q)
    obtain ok s where q: "verdict = Some (ok, s)" using Some by (cases q) auto
    note k = vk [OF q]
    show ?thesis
    proof (cases ok)
      case False
      then show ?thesis using body q k by (auto simp: skipped_def store_kept_def)
    next
      case True
      have "as_kind ?g = KIND_GBM" "as_project_id ?g = None" by (simp_all add: gbm_spec_of_def)
      moreover have "calib_specs_ok ?cs"
        using fit_calibrators_keys(1) [of "re_booster env" "re_fit env" "re_iso_fit env" "re_frame env"]
        by (auto simp: calib_specs_ok_def calib_spec_of_def comp_def)
      ultimately obtain i t where sh: "ship (re_db_now env) ?g ?cs s = Some (i, t)" "model_store_ok t"
        "map_option (\<lambda>r. (ar_model_id r, ar_spec r)) (load_active_gbm t) = Some (i, ?g)"
        "map ar_spec (load_active_calibrators t) = ?cs"
        using ship_effect [of s ?g ?cs "re_db_now env"] k unfolding store_kept_def by (elim exE conjE) blast
      have r': "rt_store r' = t" "\<exists>out. res = Inr out \<and> ro_status out = Shipped"
        using body q True sh(1) by auto
      have "map (\<lambda>r. (as_project_id (ar_spec r), as_blob (ar_spec r))) (load_active_calibrators t)
          = map (\<lambda>c. (as_project_id c, as_blob c)) ?cs"
        unfolding sh(4) [symmetric] by simp
      then have "swapped_in env t"
        using Some \<open>train_gbm (re_fit env) (re_frame env) = Some m\<close> sh(3)
        by (auto simp: swapped_in_def gbm_spec_of_def calib_spec_of_def case_prod_unfold)
      then show ?thesis using r' sh(2) by simp
    qed
  qed
qed


section \<open>Failed attempts\<close>

lemma attempt_reason:
  assumes "retrain_body env reason now r = (Inr out, r')" "ro_status out = Skipped"
  shows "ro_reason out = ''gate_rejected''"
  using assms unfolding retrain_body_def Let_def
  by (auto simp: skipped_def split: option.splits bool.splits)

lemma failed_attempt_marks:
  assumes "maybe_retrain env reason now r = (Some out, r1)" and "ro_status out = Skipped"
    and "ro_reason out \<in> {''cold'', ''gate_rejected''}"
  shows "rt_last_failed_at r1 = Some now" "rt_last_failed_was_cold r1 \<longleftrightarrow> ro_reason out = ''cold''"
  using assms attempt_reason [of env reason now r]
  unfolding maybe_retrain_def Let_def
  by (auto simp: skipped_def split: if_splits sum.splits retrain_error.splits prod.splits)

text \<open>
  What a failed attempt blocks. Within the cool-down after an attempt that did not ship, and
  with no model shipped inside the window, a rejected candidate blocks every trigger, while a cold
  attempt blocks only the event counter: a nightly or explicit request gets exactly the answer a
  forced retrain would. An attempt that ends by any other error arms no cool-down at all.
\<close>

theorem failed_attempts:
  assumes "maybe_retrain env reason now r = (Some out, r1)" and "ro_status out = Skipped"
    and "ro_reason out \<in> {''cold'', ''gate_rejected''}"
    and "rt_last_failed_at r2 = rt_last_failed_at r1"
    and "rt_last_failed_was_cold r2 = rt_last_failed_was_cold r1"
    and "now2 - now < re_failed_cooldown env2" and "\<not> debounced env2 now2 r2"
  shows "(if ro_reason out = ''cold'' \<and> reason2 \<noteq> REASON_EVENTS
          then fst (maybe_retrain env2 reason2 now2 r2) = fst (force_retrain env2 reason2 now2 r2)
          else maybe_retrain env2 reason2 now2 r2 = (Some (skipped ''debounced'' 0), r2))
    \<and> (\<forall>env3 reason3 now3 r3 r4. maybe_retrain env3 reason3 now3 r3 = (None, r4) \<longrightarrow>
         rt_last_failed_at r4 = rt_last_failed_at (r3 :: 'a retrainer))"
proof -
  have cool: "in_cooldown env2 now2 r2" "rt_last_failed_was_cold r2 \<longleftrightarrow> ro_reason out = ''cold''"
    using failed_attempt_marks [OF assms(1-3)] assms(4-6) by (simp_all add: in_cooldown_def)
  have keep: "rt_last_failed_at (snd (retrain_body env3 reason3 now3 r3)) = rt_last_failed_at r3"
    for env3 reason3 now3 and r3 :: "'a retrainer"
    unfolding retrain_body_def Let_def by (auto split: option.split bool.split)
  have "rt_last_failed_at r4 = rt_last_failed_at r3" if "maybe_retrain env3 reason3 now3 r3 = (None, r4)"
    for env3 reason3 now3 and r3 r4 :: "'a retrainer"
    using that keep [of env3 reason3 now3 r3] unfolding maybe_retrain_def Let_def
    by (auto split: if_splits sum.splits retrain_error.splits prod.splits)
  moreover have "if ro_reason out = ''cold'' \<and> reason2 \<noteq> REASON_EVENTS
      then fst (maybe_retrain env2 reason2 now2 r2) = fst (force_retrain env2 reason2 now2 r2)
      else maybe_retrain env2 reason2 now2 r2 = (Some (skipped ''debounced'' 0), r2)"
    using cool assms(7)
    by (auto simp: maybe_retrain_def force_retrain_def Let_def
        split: sum.split retrain_error.split prod.split)
  ultimately show ?thesis by blast
qed

section \<open>Single flight\<close>

datatype sched_event = Requested string | Began string | Finished "retrain_outcome option" | StopAsked

text \<open>The interleavings of callers and the worker, newest event first.\<close>

inductive sched_run :: "sched_event list \<Rightarrow> scheduler \<Rightarrow> bool" where
  fresh: "sched_run [] (sched_start scheduler_init)"
| asked: "sched_run tr s \<Longrightarrow> sched_run (Requested reason # tr) (request reason s)"
| began: "sched_run tr s \<Longrightarrow> \<not> sc_running s \<Longrightarrow> sched_take s = Some (reason, s')
    \<Longrightarrow> sched_run (Began reason # tr) s'"
| ended: "sched_run tr s \<Longrightarrow> sc_running s \<Longrightarrow> sched_run (Finished res # tr) (sched_finish res s)"
| stops: "sched_run tr s \<Longrightarrow> sched_run (StopAsked # tr) (sched_stop s)"

text \<open>The requests no run has taken up yet, and whether a run is in progress.\<close>

fun open_requests :: "sched_event list \<Rightarrow> string list" where
  "open_requests [] = []"
| "open_requests (Requested reason # tr) = reason # open_requests tr"
| "open_requests (Began reason # tr) = []"
| "open_requests (e # tr) = open_requests tr"

fun in_flight :: "sched_event list \<Rightarrow> bool" where
  "in_flight [] = False"
| "in_flight (Began reason # tr) = True"
| "in_flight (Finished res # tr) = False"
| "in_flight (e # tr) = in_flight tr"

definition strongest :: "string list \<Rightarrow> string \<Rightarrow> bool" where
  "strongest rs p \<longleftrightarrow> p \<in> set rs \<and> (\<forall>q \<in> set rs. reason_rank q \<le> reason_rank p)"

fun single_flight :: "sched_event list \<Rightarrow> bool" where
  "single_flight [] = True"
| "single_flight (Began reason # tr) =
     (strongest (open_requests tr) reason \<and> \<not> in_flight tr \<and> StopAsked \<notin> set tr \<and> single_flight tr)"
| "single_flight (e # tr) = single_flight tr"

definition sched_agrees :: "sched_event list \<Rightarrow> scheduler \<Rightarrow> bool" where
  "sched_agrees tr s \<longleftrightarrow>
     (case sc_pending s of None \<Rightarrow> open_requests tr = [] | Some p \<Rightarrow> strongest (open_requests tr) p)
     \<and> sc_running s = in_flight tr \<and> sc_stopping s = (StopAsked \<in> set tr) \<and> sc_started s
     \<and> length (sc_outcomes s) \<le> 100 \<and> single_flight tr"

lemma sched_run_agrees: "sched_run tr s \<Longrightarrow> sched_agrees tr s"
proof (induction rule: sched_run.induct)
  case fresh
  show ?case by (simp add: sched_agrees_def scheduler_init_def sched_start_def)
next
  case (asked tr s reason)
  then show ?case
    by (cases "sc_pending s") (auto simp: sched_agrees_def request_def strongest_def)
next
  case (began tr s reason s')
  then have s': "sc_pending s = Some reason" "\<not> sc_stopping s"
    "s' = s\<lparr>sc_pending := None, sc_running := True\<rparr>"
    by (auto simp: sched_take_def split: if_splits)
  then show ?case using began by (auto simp: sched_agrees_def)
next
  case (ended tr s res)
  then show ?case
    by (cases res) (auto simp: sched_agrees_def sched_finish_def keep_outcome_def Let_def split: option.splits)
next
  case (stops tr s)
  then show ?case by (auto simp: sched_agrees_def sched_stop_def split: option.splits)
qed

text \<open>
  The scheduler is single-flight and forgets no request. Under every interleaving of callers,
  worker and stop, at most one retrain runs at a time, each run carries the strongest reason asked
  for since the previous run began, none begins after a stop, at most 100 outcomes are kept; and
  while some request is open and the scheduler neither runs nor stops, the worker's next turn takes
  a strongest one up and leaves none open.
\<close>

theorem scheduler_coalesces:
  assumes "sched_run tr s"
  shows "single_flight tr \<and> sc_running s = in_flight tr \<and> length (sc_outcomes s) \<le> 100
    \<and> (open_requests tr \<noteq> [] \<and> \<not> in_flight tr \<and> StopAsked \<notin> set tr \<longrightarrow>
        (\<exists>reason s'. sched_take s = Some (reason, s') \<and> strongest (open_requests tr) reason
           \<and> sched_run (Began reason # tr) s' \<and> sc_pending s' = None))
    \<and> (sched_idle s \<longleftrightarrow> open_requests tr = [] \<and> \<not> in_flight tr)"
proof -
  note ag = sched_run_agrees [OF assms]
  have "\<exists>reason s'. sched_take s = Some (reason, s') \<and> strongest (open_requests tr) reason
           \<and> sched_run (Began reason # tr) s' \<and> sc_pending s' = None"
    if "open_requests tr \<noteq> []" "\<not> in_flight tr" "StopAsked \<notin> set tr"
  proof -
    from ag that obtain p where p: "sc_pending s = Some p" "strongest (open_requests tr) p"
      by (auto simp: sched_agrees_def split: option.splits)
    have t: "sched_take s = Some (p, s\<lparr>sc_pending := None, sc_running := True\<rparr>)"
      using ag that p(1) by (simp add: sched_take_def sched_agrees_def)
    have "\<not> sc_running s" using ag that by (simp add: sched_agrees_def)
    from sched_run.began [OF assms this t] p t show ?thesis by auto
  qed
  moreover have "sched_idle s \<longleftrightarrow> open_requests tr = [] \<and> \<not> in_flight tr"
    using ag by (auto simp: sched_agrees_def sched_idle_def strongest_def split: option.splits)
  ultimately show ?thesis using ag by (auto simp: sched_agrees_def)
qed

theorem scheduler_coalesces_witness:
  "single_flight [Began REASON_ROUTE, Requested REASON_EVENTS, Requested REASON_ROUTE, Requested REASON_EVENTS]"
proof -
  let ?s = "request REASON_EVENTS (request REASON_ROUTE (request REASON_EVENTS (sched_start scheduler_init)))"
  have run: "sched_run [Requested REASON_EVENTS, Requested REASON_ROUTE, Requested REASON_EVENTS] ?s"
    by (intro sched_run.asked sched_run.fresh)
  have "sched_take ?s = Some (REASON_ROUTE, ?s\<lparr>sc_pending := None, sc_running := True\<rparr>)"
    and "\<not> sc_running ?s"
    by (simp_all add: request_def scheduler_init_def sched_start_def sched_take_def reason_rank_def
        REASON_EVENTS_def REASON_ROUTE_def REASON_NIGHTLY_def)
  from sched_run.began [OF run this(2,1)] show ?thesis
    using scheduler_coalesces by blast
qed

section \<open>The nightly timer\<close>

text \<open>
  The nightly timer always waits for the next 02:00: the wait is positive and at most a day, it
  ends on a \<open>hour:00:00\<close> boundary, and no such boundary lies between now and then.
\<close>

theorem nightly_next_boundary:
  assumes "hour < 24"
  shows "let w = seconds_until_next_run hour now in
    0 < w \<and> w \<le> 86400
    \<and> (\<exists>day :: int. now + w = of_int day * 86400 + of_nat hour * 3600)
    \<and> (\<forall>day :: int. now < of_int day * 86400 + of_nat hour * 3600 \<longrightarrow>
          now + w \<le> of_int day * 86400 + of_nat hour * 3600)"
proof -
  define d where "d = \<lfloor>now / 86400\<rfloor>"
  have "of_int d \<le> now / 86400" "now / 86400 < of_int d + 1" unfolding d_def by linarith+
  then have d: "of_int d * 86400 \<le> now" "now < of_int d * 86400 + 86400" by (simp_all add: field_simps)
  have h: "0 \<le> real hour * 3600" "real hour * 3600 < 86400" using assms by auto
  define day where "day = (if of_int d * 86400 + real hour * 3600 \<le> now then d + 1 else d)"
  have w: "seconds_until_next_run hour now = of_int day * 86400 + real hour * 3600 - now"
    by (simp add: seconds_until_next_run_def Let_def d_def [symmetric] day_def algebra_simps)
  have pos: "now < of_int day * 86400 + real hour * 3600" "of_int day * 86400 + real hour * 3600 \<le> now + 86400"
    using d h by (auto simp: day_def algebra_simps)
  have least: "of_int day * 86400 + real hour * 3600 \<le> of_int e * 86400 + real hour * 3600"
    if "now < of_int e * 86400 + real hour * 3600" for e :: int
  proof -
    have "of_int day * 86400 < (of_int e + 1) * (86400 :: real)" using that pos(2) by (simp add: algebra_simps)
    then have "of_int day < (of_int (e + 1) :: real)" by simp
    then have "day \<le> e" by linarith
    then show ?thesis by simp
  qed
  show ?thesis unfolding Let_def w using pos least by auto
qed

theorem nightly_next_boundary_witness:
  "0 < seconds_until_next_run NIGHTLY_HOUR_UTC 100 \<and> seconds_until_next_run NIGHTLY_HOUR_UTC 100 \<le> 86400"
  using nightly_next_boundary [of NIGHTLY_HOUR_UTC 100] by (simp add: NIGHTLY_HOUR_UTC_def Let_def)

section \<open>Two readings of a withdrawn label\<close>

lemma dedup_from_skip: "dedup_from f (insert k seen) xs = dedup_from f seen (filter (\<lambda>x. f x \<noteq> k) xs)"
  by (induction xs arbitrary: seen) (auto simp: insert_commute)

lemma xy_row_usable: "xy_row r = [] \<longleftrightarrow> \<not> is_usable r"
  by (auto simp: xy_row_def is_usable_def split: option.split)

text \<open>
  A label withdrawn to "to investigate" is read in two ways. When the newest event of an item has
  no usable label but an older one has, training leaves the item out, as if it had no events at
  all, while the evaluation keeps the item with its outdated label.
\<close>

theorem withdrawn_label_split:
  assumes "\<not> is_usable new" and "old \<in> set rest" "is_usable old" "event_key old = event_key new"
  shows "build_xy (new # rest) = build_xy (filter (\<lambda>r. event_key r \<noteq> event_key new) rest)
    \<and> (\<exists>e \<in> set (usable_events (new # rest)). event_key e = event_key new \<and> e \<noteq> new)"
proof
  have "dedup_latest (new # rest) = new # dedup_latest (filter (\<lambda>r. event_key r \<noteq> event_key new) rest)"
    by (simp add: dedup_latest_def dedup_from_skip)
  moreover have "xy_row new = []" using assms(1) by (simp add: xy_row_usable)
  ultimately show "build_xy (new # rest) = build_xy (filter (\<lambda>r. event_key r \<noteq> event_key new) rest)"
    by (simp add: build_xy_def)
  have ok: "latest_ok (new # rest) (latest_events (new # rest))" by (rule latest_events_ok)
  then obtain e where e: "map_of (latest_events (new # rest)) (event_key old) = Some e"
    using assms(2,3) unfolding latest_ok_def by (meson list.set_intros(2))
  then have m: "(event_key old, e) \<in> set (latest_events (new # rest))" by (rule map_of_SomeD)
  then have "event_key e = event_key old" "is_usable e" using ok unfolding latest_ok_def by auto
  moreover have "e \<in> set (usable_events (new # rest))" using m by (force simp: usable_events_def)
  ultimately show "\<exists>e \<in> set (usable_events (new # rest)). event_key e = event_key new \<and> e \<noteq> new"
    using assms(1,4) by (intro bexI [of _ e]) auto
qed

theorem withdrawn_label_split_witness:
  "build_xy [demo_event 1 ''ti001'' 6, demo_event 1 ''pb001'' 5] = ([], [], [])
   \<and> (\<exists>e \<in> set (usable_events [demo_event 1 ''ti001'' 6, demo_event 1 ''pb001'' 5]). event_key e = (1, 1))"
proof -
  have k: "event_key (demo_event 1 l t) = (1, 1)" for l t by (simp add: event_key_def demo_event_def)
  have "build_xy (filter (\<lambda>r. event_key r \<noteq> event_key (demo_event 1 ''ti001'' 6)) [demo_event 1 ''pb001'' 5])
      = ([], [], [])"
    by (simp add: k build_xy_def dedup_latest_def)
  then show ?thesis
    using withdrawn_label_split [of "demo_event 1 ''ti001'' 6" "demo_event 1 ''pb001'' 5" "[demo_event 1 ''pb001'' 5]"]
      demo_event_usable k by auto
qed

section \<open>A worked example\<close>

lemma dedup_from_all: "distinct (map f xs) \<Longrightarrow> seen \<inter> f ` set xs = {} \<Longrightarrow> dedup_from f seen xs = xs"
  by (induction xs arbitrary: seen) auto

definition demo_label :: "nat \<Rightarrow> string" where
  "demo_label i = (if i < 25 then ''pb'' else ''ab'')"

definition demo_frame :: "event_row list" where
  "demo_frame = map (\<lambda>i. demo_event (int i) (demo_label i @ ''001'') (real i)) [0..<60]"

lemma demo_frame_labels: "fst (snd (build_xy demo_frame)) = map demo_label [0..<60]"
proof -
  have "event_key \<circ> (\<lambda>i. demo_event (int i) (demo_label i @ ''001'') (real i)) = (\<lambda>i. (1, int i))"
    by (simp add: fun_eq_iff event_key_def demo_event_def)
  then have "distinct (map event_key demo_frame)"
    by (simp add: demo_frame_def distinct_map inj_on_def)
  then have "dedup_latest demo_frame = demo_frame" by (simp add: dedup_latest_def dedup_from_all)
  moreover have "base_group (Some ''pb001'') = Some ''pb''" "base_group (Some ''ab001'') = Some ''ab''"
    by code_simp+
  then have "map (fst \<circ> snd) (xy_row (demo_event (int i) (demo_label i @ ''001'') (real i))) = [demo_label i]" for i
    by (simp add: xy_row_def demo_event_def demo_label_def)
  ultimately show ?thesis
    by (simp add: build_xy_def Let_def map_concat demo_frame_def comp_def)
qed

definition demo_retrain_env :: "seconds \<Rightarrow> unit retrain_env" where
  "demo_retrain_env t =
     \<lparr>re_threshold = RETRAIN_EVENT_THRESHOLD, re_min_interval = MIN_RETRAIN_INTERVAL,
      re_failed_cooldown = FAILED_ATTEMPT_COOLDOWN, re_count_since = (\<lambda>_. 100), re_frame = demo_frame,
      re_db_now = t, re_version = (\<lambda>_. ''gbm-1''), re_gate = None, re_booster = (\<lambda>_ _. [1 / 4, 3 / 4]),
      re_fit = (\<lambda>x y. ((), [''ab'', ''pb''])), re_iso_fit = (\<lambda>_ _. []), re_monotonic = t,
      re_refresh_interval = 30\<rparr>"

definition demo_retrainer :: "unit retrainer" where
  "demo_retrainer = \<lparr>rt_store = model_store_init, rt_predictor = None, rt_last_failed_at = None,
                     rt_last_failed_was_cold = False\<rparr>"

lemma ungated_ships:
  assumes "model_store_ok (rt_store r)" and "re_gate env = None"
    and "train_gbm (re_fit env) (re_frame env) = Some m"
  shows "\<exists>out r'. retrain_body env reason now r = (Inr out, r') \<and> ro_status out = Shipped"
proof -
  let ?n = "length (fst (snd (build_xy (re_frame env))))" and ?v = "re_version env now"
  let ?cal = "fit_calibrators (re_booster env) (re_fit env) (re_iso_fit env) (re_frame env)"
  have "calib_specs_ok (map (calib_spec_of ?v ?n) ?cal :: 'a artifact_spec list)"
    using fit_calibrators_keys(1) [of "re_booster env" "re_fit env" "re_iso_fit env" "re_frame env"]
    by (auto simp: calib_specs_ok_def calib_spec_of_def comp_def)
  moreover have "as_kind (gbm_spec_of ?v ?n m) = KIND_GBM" "as_project_id (gbm_spec_of ?v ?n m) = None"
    by (simp_all add: gbm_spec_of_def)
  ultimately show ?thesis
    using ship_effect [OF assms(1), of "gbm_spec_of ?v ?n m" _ "re_db_now env"]
    unfolding retrain_body_def assms(2,3) Let_def option.case by fastforce
qed

lemma demo_trains: "\<exists>m. train_gbm (re_fit (demo_retrain_env t)) (re_frame (demo_retrain_env t)) = Some m"
proof -
  obtain x y p where xy: "build_xy demo_frame = (x, y, p)" by (cases "build_xy demo_frame")
  then have y: "y = map demo_label [0..<60]" using demo_frame_labels by simp
  have "demo_label 0 \<in> set y" "demo_label 30 \<in> set y" unfolding y by (simp_all only: set_map) (auto intro!: imageI)
  then have "{demo_label 0, demo_label 30} \<subseteq> set y" by simp
  then have "card {demo_label 0, demo_label 30} \<le> card (set y)" by (rule card_mono [rotated]) simp
  moreover have "card {demo_label 0, demo_label 30} = 2" by (simp add: demo_label_def)
  ultimately have "2 \<le> length (remdups y)" by (simp add: length_remdups_card_conv)
  moreover have "length y = 60" by (simp add: y)
  ultimately show ?thesis
    by (simp add: demo_retrain_env_def train_gbm_def xy GBM_MIN_EVENTS_def)
qed

lemma demo_no_calibrators:
  "fit_calibrators (re_booster (demo_retrain_env t)) (re_fit (demo_retrain_env t)) isof demo_frame = []"
proof (rule ccontr)
  let ?b = "re_booster (demo_retrain_env t)" and ?f = "re_fit (demo_retrain_env t)"
  assume "fit_calibrators ?b ?f isof demo_frame \<noteq> []"
  then obtain key c where "(key, c) \<in> set (fit_calibrators ?b ?f isof demo_frame)"
    by (metis list.set_sel(1) surj_pair)
  then have "300 \<le> length (scores_of key (oof_scores ?b ?f CALIB_FOLDS demo_frame))"
    using fit_calibrators_keys(2) by blast
  also have "\<dots> \<le> length (oof_scores ?b ?f CALIB_FOLDS demo_frame)"
    by (simp add: scores_of_def split: option.split)
  also have "\<dots> \<le> 60" using oof_scores_length [of ?b ?f CALIB_FOLDS demo_frame] by (simp add: demo_frame_labels)
  finally show False by simp
qed

lemma demo_first_ship:
  "\<exists>out r'. maybe_retrain (demo_retrain_env 10) REASON_ROUTE 10 demo_retrainer = (Some out, r')
     \<and> ro_status out = Shipped \<and> last_shipped_at KIND_GBM (rt_store r') = Some 10
     \<and> rt_last_failed_at r' = None \<and> model_store_ok (rt_store r')"
proof -
  let ?e = "demo_retrain_env 10"
  obtain m where m: "train_gbm (re_fit ?e) (re_frame ?e) = Some m" using demo_trains by blast
  have g: "re_gate ?e = None" by (simp add: demo_retrain_env_def)
  have f: "re_frame ?e = demo_frame" by (simp add: demo_retrain_env_def)
  have st: "rt_store demo_retrainer = model_store_init" by (simp add: demo_retrainer_def)
  obtain out r' where b: "retrain_body ?e REASON_ROUTE 10 demo_retrainer = (Inr out, r')" "ro_status out = Shipped"
    using ungated_ships [OF _ g m] model_store_init_ok st by metis
  have "last_shipped_at KIND_GBM (rt_store r') = Some 10 \<and> rt_last_failed_at r' = None"
    using b(1) unfolding retrain_body_def f m [unfolded f] g Let_def option.case prod.case bool.case
      demo_no_calibrators st
    by (auto simp: ship_def insert_row_def deactivate_def model_store_init_def gbm_spec_of_def last_shipped_at_def
        demo_retrain_env_def demo_retrainer_def)
  moreover have "model_store_ok (rt_store r')"
    using retrain_body_store [OF _ _ b(1), THEN conjunct1] model_store_init_ok g
    by (simp add: st safe_gate_def)
  moreover have "last_shipped_at KIND_GBM (model_store_init :: unit model_store) = None"
    by (simp add: last_shipped_at_def model_store_init_def)
  ultimately show ?thesis
    using b by (auto simp: maybe_retrain_def debounced_def in_cooldown_def st REASON_ROUTE_def REASON_EVENTS_def
        Let_def demo_retrainer_def)
qed


theorem ships_spaced_witness:
  "\<exists>out r1 out2 r2. maybe_retrain (demo_retrain_env 10) REASON_ROUTE 10 demo_retrainer = (Some out, r1)
     \<and> maybe_retrain (demo_retrain_env 5000) REASON_ROUTE 5000 r1 = (Some out2, r2)
     \<and> ro_status out2 = Shipped \<and> re_db_now (demo_retrain_env 10) + MIN_RETRAIN_INTERVAL \<le> 5000"
proof -
  obtain out r1 where r1: "maybe_retrain (demo_retrain_env 10) REASON_ROUTE 10 demo_retrainer = (Some out, r1)"
    "ro_status out = Shipped" "last_shipped_at KIND_GBM (rt_store r1) = Some 10"
    "rt_last_failed_at r1 = None" "model_store_ok (rt_store r1)" using demo_first_ship by blast
  let ?e = "demo_retrain_env 5000"
  obtain m where m: "train_gbm (re_fit ?e) (re_frame ?e) = Some m" using demo_trains by blast
  have g: "re_gate ?e = None" and i: "re_min_interval (demo_retrain_env t) = MIN_RETRAIN_INTERVAL" for t
    by (simp_all add: demo_retrain_env_def)
  obtain out2 r' where b: "retrain_body ?e REASON_ROUTE 5000 r1 = (Inr out2, r')" "ro_status out2 = Shipped"
    using ungated_ships [OF r1(5) g m] by blast
  have rn: "REASON_ROUTE \<noteq> REASON_EVENTS" by (simp add: REASON_ROUTE_def REASON_EVENTS_def)
  have "\<not> debounced ?e 5000 r1" by (simp add: debounced_def r1(3) i MIN_RETRAIN_INTERVAL_def)
  then have r2: "maybe_retrain ?e REASON_ROUTE 5000 r1 = (Some out2, r'\<lparr>rt_last_failed_at := None\<rparr>)"
    using b rn by (simp add: maybe_retrain_def Let_def in_cooldown_def r1(4))
  have mem: "(Some out, r1) \<in> {maybe_retrain (demo_retrain_env 10) REASON_ROUTE 10 demo_retrainer,
      force_retrain (demo_retrain_env 10) REASON_ROUTE 10 demo_retrainer}"
    using r1(1) by simp
  have "re_db_now (demo_retrain_env 10) + re_min_interval ?e \<le> 5000"
    by (rule ships_spaced [OF mem r1(2) rtranclp.rtrancl_refl r2 b(2)])
  then show ?thesis using r1(1) r2 b(2) i by auto
qed

theorem failed_attempts_witness:
  "\<exists>r1. maybe_retrain ((demo_retrain_env 10)\<lparr>re_frame := []\<rparr>) REASON_EVENTS 10 demo_retrainer
          = (Some (skipped ''cold'' 0), r1)
     \<and> maybe_retrain (demo_retrain_env 20) REASON_EVENTS 20 r1 = (Some (skipped ''debounced'' 0), r1)
     \<and> fst (maybe_retrain (demo_retrain_env 20) REASON_ROUTE 20 r1)
         = fst (force_retrain (demo_retrain_env 20) REASON_ROUTE 20 r1)"
proof -
  let ?e = "(demo_retrain_env 10)\<lparr>re_frame := []\<rparr>" and ?e2 = "demo_retrain_env 20"
  let ?r1 = "demo_retrainer\<lparr>rt_last_failed_at := Some 10, rt_last_failed_was_cold := True\<rparr>"
  have n: "last_shipped_at KIND_GBM (model_store_init :: unit model_store) = None"
    by (simp add: last_shipped_at_def model_store_init_def)
  have "train_gbm f [] = None" for f :: "unit fitter"
    by (simp add: train_gbm_def build_xy_def dedup_latest_def GBM_MIN_EVENTS_def)
  then have "retrain_body ?e REASON_EVENTS 10 demo_retrainer = (Inl ErrTraining, demo_retrainer)"
    by (simp add: retrain_body_def)
  then have r1: "maybe_retrain ?e REASON_EVENTS 10 demo_retrainer = (Some (skipped ''cold'' 0), ?r1)"
    by (simp add: maybe_retrain_def debounced_def in_cooldown_def demo_retrainer_def n Let_def)
  have hyps: "ro_status (skipped ''cold'' 0) = Skipped" "ro_reason (skipped ''cold'' 0) \<in> {''cold'', ''gate_rejected''}"
    "rt_last_failed_at ?r1 = rt_last_failed_at ?r1" "rt_last_failed_was_cold ?r1 = rt_last_failed_was_cold ?r1"
    "20 - 10 < re_failed_cooldown ?e2" "\<not> debounced ?e2 20 ?r1"
    by (simp_all add: skipped_def demo_retrain_env_def FAILED_ATTEMPT_COOLDOWN_def debounced_def demo_retrainer_def n)
  have c: "ro_reason (skipped ''cold'' 0) = ''cold''" by (simp add: skipped_def)
  note fa = failed_attempts [OF r1 hyps, THEN conjunct1, unfolded c]
  show ?thesis using r1 fa [of REASON_EVENTS] fa [of REASON_ROUTE]
    by (auto simp: REASON_EVENTS_def REASON_ROUTE_def)
qed

theorem calibration_out_of_sample_witness:
  "fold_model (\<lambda>x y. (x, [''ab''])) 2 ([[0], [1]][1 := [9]]) ([''ab'', ''pb''][1 := ''si'']) 1
     = fold_model (\<lambda>x y. (x, [''ab''])) 2 [[0], [1]] [''ab'', ''pb''] 1"
  using calibration_out_of_sample [of 1 "[''ab'', ''pb'']" "[[0], [1]]" "\<lambda>x y. (x, [''ab''])" 2 "[9]" "''si''"]
  by simp

end
