(* ===== verification/Reporting.thy ===== *)
theory Reporting
  imports Store Decision Analysis
begin

text \<open>
  The nightly report (\<open>ml/reporting.py\<close>), the table \<open>metrics_daily\<close> with its three statements
  (\<open>db/repositories/stats.py\<close>), and the replay of stored snapshots as groups of one
  (\<open>ml/early_replay.py\<close>). A day is its number since the epoch; the database session runs on UTC, so
  the day of a time is the floor of its seconds over 86400.

  What is proved: a rollup row holds exactly the counts of the suggestions of its project and day;
  the job writes absolute values, so running it again changes nothing and other days are untouched;
  the constants the replay forces are the values the extractor computes for a group of one.
\<close>

section \<open>Dictionaries with a default\<close>

text \<open>\<open>d.setdefault(k, v)\<close> or a \<open>defaultdict\<close>, followed by an update of the entry in place.\<close>

fun update_default :: "'k \<Rightarrow> 'v \<Rightarrow> ('v \<Rightarrow> 'v) \<Rightarrow> ('k \<times> 'v) list \<Rightarrow> ('k \<times> 'v) list" where
  "update_default k d f [] = [(k, f d)]"
| "update_default k d f ((k', v) # kvs) =
     (if k' = k then (k, f v) # kvs else (k', v) # update_default k d f kvs)"

abbreviation entry :: "('k \<times> 'v) list \<Rightarrow> 'k \<Rightarrow> 'v \<Rightarrow> 'v" where
  "entry kvs k d \<equiv> (case map_of kvs k of None \<Rightarrow> d | Some v \<Rightarrow> v)"

lemma map_of_update_default:
  "map_of (update_default k d f kvs) k' = (if k' = k then Some (f (entry kvs k d)) else map_of kvs k')"
  by (induction kvs) auto

lemma keys_update_default:
  "map fst (update_default k d f kvs) =
     (if k \<in> fst ` set kvs then map fst kvs else map fst kvs @ [k])"
  by (induction kvs) force+

lemma keyset_update_default:
  "fst ` set (update_default k d f kvs) = insert k (fst ` set kvs)"
proof -
  have "set (map fst (update_default k d f kvs)) = insert k (set (map fst kvs))"
    unfolding keys_update_default by auto
  then show ?thesis by simp
qed

lemma distinct_update_default:
  "distinct (map fst kvs) \<Longrightarrow> distinct (map fst (update_default k d f kvs))"
  unfolding keys_update_default by auto

text \<open>A loop that files every element under its key.\<close>

definition group_fold :: "('a \<Rightarrow> 'k) \<Rightarrow> 'v \<Rightarrow> ('a \<Rightarrow> 'v \<Rightarrow> 'v) \<Rightarrow> 'a list \<Rightarrow> ('k \<times> 'v) list" where
  "group_fold key d g xs = fold (\<lambda>x. update_default (key x) d (g x)) xs []"

lemma fold_update_default_entry:
  "entry (fold (\<lambda>x. update_default (key x) d (g x)) xs kvs) k d =
     fold g (filter (\<lambda>x. key x = k) xs) (entry kvs k d)"
  by (induction xs arbitrary: kvs) (auto simp: map_of_update_default)

lemma fold_update_default_keys:
  "fst ` set (fold (\<lambda>x. update_default (key x) d (g x)) xs kvs) = fst ` set kvs \<union> key ` set xs"
  by (induction xs arbitrary: kvs) (auto simp: keyset_update_default)

lemma fold_update_default_distinct:
  "distinct (map fst kvs) \<Longrightarrow>
     distinct (map fst (fold (\<lambda>x. update_default (key x) d (g x)) xs kvs))"
  by (induction xs arbitrary: kvs) (auto intro: distinct_update_default)

lemma group_fold_keys: "fst ` set (group_fold key d g xs) = key ` set xs"
  by (simp add: group_fold_def fold_update_default_keys)

lemma group_fold_distinct: "distinct (map fst (group_fold key d g xs))"
  by (simp add: group_fold_def fold_update_default_distinct)

lemma group_fold_entry:
  assumes "(k, v) \<in> set (group_fold key d g xs)"
  shows "v = fold g (filter (\<lambda>x. key x = k) xs) d"
proof -
  have "map_of (group_fold key d g xs) k = Some v"
    using assms group_fold_distinct by (rule map_of_is_SomeI [rotated])
  then have "v = entry (group_fold key d g xs) k d" by simp
  also have "\<dots> = fold g (filter (\<lambda>x. key x = k) xs) d"
    by (simp add: group_fold_def fold_update_default_entry)
  finally show ?thesis .
qed

lemma entry_group_fold:
  "entry (group_fold key d g xs) k d = fold g (filter (\<lambda>x. key x = k) xs) d"
  by (simp add: group_fold_def fold_update_default_entry)

section \<open>The rollup of a day\<close>

definition report_base :: "string \<Rightarrow> string option" where
  "report_base locator =
     (if locator = [] then None
      else (let prefix = lower_str (filter is_alpha (take 2 locator))
            in if prefix \<in> set BASE_LABELS then Some prefix else None))"

lemma report_base_eq: "report_base t = base_group (Some t)"
  by (simp add: report_base_def base_group_def)

record label_bucket =
  lb_suggested :: nat
  lb_accepted :: nat
  lb_corrected :: nat

record day_acc =
  da_suggestions :: nat
  da_accepted :: nat
  da_corrected :: nat
  da_ignored :: nat
  da_abstained :: nat
  da_auto_labeled :: nat
  da_auto_corrected :: nat
  da_per_label :: "(string \<times> label_bucket) list"
  da_model_ver :: "string option"

record daily_metrics = day_acc +
  dm_project_id :: int
  dm_day :: int
  dm_emb_model_ver :: "string option"

definition new_acc :: day_acc where
  "new_acc = \<lparr>da_suggestions = 0, da_accepted = 0, da_corrected = 0, da_ignored = 0,
     da_abstained = 0, da_auto_labeled = 0, da_auto_corrected = 0, da_per_label = [],
     da_model_ver = None\<rparr>"

definition new_bucket :: label_bucket where
  "new_bucket = \<lparr>lb_suggested = 0, lb_accepted = 0, lb_corrected = 0\<rparr>"

definition day_of :: "seconds \<Rightarrow> int" where
  "day_of t = \<lfloor>t / 86400\<rfloor>"

definition count_bucket :: "string \<Rightarrow> label_bucket \<Rightarrow> label_bucket" where
  "count_bucket outcome b =
     (let b = b\<lparr>lb_suggested := lb_suggested b + 1\<rparr>
      in if outcome = ''accepted'' then b\<lparr>lb_accepted := lb_accepted b + 1\<rparr>
         else if outcome = ''corrected'' then b\<lparr>lb_corrected := lb_corrected b + 1\<rparr>
         else b)"

definition count_outcome :: "string \<Rightarrow> day_acc \<Rightarrow> day_acc" where
  "count_outcome outcome acc =
     (if outcome = ''accepted'' then acc\<lparr>da_accepted := da_accepted acc + 1\<rparr>
      else if outcome = ''corrected'' then acc\<lparr>da_corrected := da_corrected acc + 1\<rparr>
      else if outcome = ''ignored'' then acc\<lparr>da_ignored := da_ignored acc + 1\<rparr>
      else acc)"

definition is_auto :: "real \<Rightarrow> suggestion_row \<Rightarrow> bool" where
  "is_auto tau_auto s \<longleftrightarrow>
     report_base (su_predicted_label s) \<noteq> None \<and> su_confidence s \<ge> tau_auto"

definition count_auto :: "real \<Rightarrow> suggestion_row \<Rightarrow> day_acc \<Rightarrow> day_acc" where
  "count_auto tau_auto s acc =
     (if is_auto tau_auto s then
        (let acc = acc\<lparr>da_auto_labeled := da_auto_labeled acc + 1\<rparr>
         in if su_outcome s = ''corrected''
            then acc\<lparr>da_auto_corrected := da_auto_corrected acc + 1\<rparr> else acc)
      else acc)"

definition add_suggestion :: "real \<Rightarrow> suggestion_row \<Rightarrow> day_acc \<Rightarrow> day_acc" where
  "add_suggestion tau_auto s acc =
     (let acc = acc\<lparr>da_suggestions := da_suggestions acc + 1\<rparr>;
          acc = acc\<lparr>da_model_ver :=
                  (if su_model_ver s = [] then da_model_ver acc else Some (su_model_ver s))\<rparr>;
          base = report_base (su_predicted_label s);
          acc = (if base = None then acc\<lparr>da_abstained := da_abstained acc + 1\<rparr> else acc);
          acc = count_outcome (su_outcome s) acc;
          acc = count_auto tau_auto s acc
      in case base of
           None \<Rightarrow> acc
         | Some b \<Rightarrow> acc\<lparr>da_per_label :=
             update_default b new_bucket (count_bucket (su_outcome s)) (da_per_label acc)\<rparr>)"

definition rollup_key :: "suggestion_row \<Rightarrow> int \<times> int" where
  "rollup_key s = (su_project_id s, day_of (su_created_at s))"

definition metrics_of :: "string option \<Rightarrow> (int \<times> int) \<times> day_acc \<Rightarrow> daily_metrics" where
  "metrics_of emb = (\<lambda>((p, day), a).
     \<lparr>da_suggestions = da_suggestions a, da_accepted = da_accepted a,
      da_corrected = da_corrected a, da_ignored = da_ignored a, da_abstained = da_abstained a,
      da_auto_labeled = da_auto_labeled a, da_auto_corrected = da_auto_corrected a,
      da_per_label = da_per_label a, da_model_ver = da_model_ver a,
      dm_project_id = p, dm_day = day, dm_emb_model_ver = emb\<rparr>)"

definition metrics_key :: "daily_metrics \<Rightarrow> int \<times> int" where
  "metrics_key dm = (dm_project_id dm, dm_day dm)"

definition aggregate_daily ::
    "real \<Rightarrow> string option \<Rightarrow> suggestion_row list \<Rightarrow> daily_metrics list" where
  "aggregate_daily tau_auto emb suggestions =
     sort_key metrics_key
       (map (metrics_of emb) (group_fold rollup_key new_acc (add_suggestion tau_auto) suggestions))"

text \<open>What the counters hold after a loop over some rows.\<close>

definition tally :: "('a \<Rightarrow> bool) \<Rightarrow> 'a list \<Rightarrow> nat" where
  "tally P xs = length (filter P xs)"

lemma tally_Nil [simp]: "tally P [] = 0"
  by (simp add: tally_def)

lemma tally_Cons [simp]: "tally P (x # xs) = (if P x then Suc (tally P xs) else tally P xs)"
  by (simp add: tally_def)

lemma tally_mono: "(\<And>x. x \<in> set xs \<Longrightarrow> P x \<Longrightarrow> Q x) \<Longrightarrow> tally P xs \<le> tally Q xs"
  by (induction xs) (auto simp: le_SucI)

lemma tally_disjoint:
  "(\<And>x. x \<in> set xs \<Longrightarrow> \<not> (P x \<and> Q x)) \<Longrightarrow> tally P xs + tally Q xs = tally (\<lambda>x. P x \<or> Q x) xs"
  by (induction xs) auto

lemma tally_le_length: "tally P xs \<le> length xs"
  by (simp add: tally_def)

lemmas add_defs = add_suggestion_def count_outcome_def count_auto_def Let_def

lemma add_step:
  "da_suggestions (add_suggestion tau s a) = da_suggestions a + 1"
  "da_accepted (add_suggestion tau s a) =
     da_accepted a + (if su_outcome s = ''accepted'' then 1 else 0)"
  "da_corrected (add_suggestion tau s a) =
     da_corrected a + (if su_outcome s = ''corrected'' then 1 else 0)"
  "da_ignored (add_suggestion tau s a) =
     da_ignored a + (if su_outcome s = ''ignored'' then 1 else 0)"
  "da_abstained (add_suggestion tau s a) =
     da_abstained a + (if report_base (su_predicted_label s) = None then 1 else 0)"
  "da_auto_labeled (add_suggestion tau s a) =
     da_auto_labeled a + (if is_auto tau s then 1 else 0)"
  "da_auto_corrected (add_suggestion tau s a) =
     da_auto_corrected a + (if is_auto tau s \<and> su_outcome s = ''corrected'' then 1 else 0)"
  by (simp_all add: add_defs split: option.splits)

lemma add_per_label:
  "da_per_label (add_suggestion tau s a) =
     (case report_base (su_predicted_label s) of
        None \<Rightarrow> da_per_label a
      | Some b \<Rightarrow> update_default b new_bucket (count_bucket (su_outcome s)) (da_per_label a))"
  by (simp add: add_defs split: option.splits)

lemma fold_counts:
  "da_suggestions (fold (add_suggestion tau) rs a) = da_suggestions a + length rs"
  "da_accepted (fold (add_suggestion tau) rs a) =
     da_accepted a + tally (\<lambda>s. su_outcome s = ''accepted'') rs"
  "da_corrected (fold (add_suggestion tau) rs a) =
     da_corrected a + tally (\<lambda>s. su_outcome s = ''corrected'') rs"
  "da_ignored (fold (add_suggestion tau) rs a) =
     da_ignored a + tally (\<lambda>s. su_outcome s = ''ignored'') rs"
  "da_abstained (fold (add_suggestion tau) rs a) =
     da_abstained a + tally (\<lambda>s. report_base (su_predicted_label s) = None) rs"
  "da_auto_labeled (fold (add_suggestion tau) rs a) =
     da_auto_labeled a + tally (is_auto tau) rs"
  "da_auto_corrected (fold (add_suggestion tau) rs a) =
     da_auto_corrected a + tally (\<lambda>s. is_auto tau s \<and> su_outcome s = ''corrected'') rs"
  by (induction rs arbitrary: a) (simp_all add: add_step)

section \<open>A row holds the counts of its day\<close>

definition day_rows :: "suggestion_row list \<Rightarrow> int \<times> int \<Rightarrow> suggestion_row list" where
  "day_rows rows k = filter (\<lambda>s. rollup_key s = k) rows"

definition label_rows :: "suggestion_row list \<Rightarrow> string \<Rightarrow> suggestion_row list" where
  "label_rows rows b = filter (\<lambda>s. report_base (su_predicted_label s) = Some b) rows"

definition bucket_of :: "suggestion_row list \<Rightarrow> label_bucket" where
  "bucket_of rs = \<lparr>lb_suggested = length rs,
     lb_accepted = tally (\<lambda>s. su_outcome s = ''accepted'') rs,
     lb_corrected = tally (\<lambda>s. su_outcome s = ''corrected'') rs\<rparr>"

lemma fold_count_bucket:
  "fold (\<lambda>s. count_bucket (su_outcome s)) rs b =
     \<lparr>lb_suggested = lb_suggested b + length rs,
      lb_accepted = lb_accepted b + tally (\<lambda>s. su_outcome s = ''accepted'') rs,
      lb_corrected = lb_corrected b + tally (\<lambda>s. su_outcome s = ''corrected'') rs\<rparr>"
  by (induction rs arbitrary: b) (simp_all add: count_bucket_def Let_def)

lemma fold_per_label_entry:
  "entry (da_per_label (fold (add_suggestion tau) rs a)) b new_bucket =
     fold (\<lambda>s. count_bucket (su_outcome s)) (label_rows rs b) (entry (da_per_label a) b new_bucket)"
  by (induction rs arbitrary: a)
    (simp_all add: label_rows_def add_per_label map_of_update_default split: option.splits)

lemma fold_per_label_keys:
  "b \<in> fst ` set (da_per_label (fold (add_suggestion tau) rs a)) \<longleftrightarrow>
     b \<in> fst ` set (da_per_label a) \<or> label_rows rs b \<noteq> []"
  by (induction rs arbitrary: a)
    (auto simp: label_rows_def add_per_label keyset_update_default split: option.splits)

lemma add_per_label_distinct:
  "distinct (map fst (da_per_label a)) \<Longrightarrow>
     distinct (map fst (da_per_label (add_suggestion tau s a)))"
  by (auto simp: add_per_label intro: distinct_update_default split: option.splits)

lemma fold_per_label_distinct:
  "distinct (map fst (da_per_label a)) \<Longrightarrow>
     distinct (map fst (da_per_label (fold (add_suggestion tau) rs a)))"
  by (induction rs arbitrary: a) (auto intro: add_per_label_distinct)

lemma fold_new_per_label:
  "map_of (da_per_label (fold (add_suggestion tau) rs new_acc)) b =
     (if label_rows rs b = [] then None else Some (bucket_of (label_rows rs b)))"
proof (cases "label_rows rs b = []")
  case True
  then have "b \<notin> fst ` set (da_per_label (fold (add_suggestion tau) rs new_acc))"
    unfolding fold_per_label_keys by (simp add: new_acc_def)
  then show ?thesis using True by (simp add: map_of_eq_None_iff)
next
  case False
  then have "b \<in> fst ` set (da_per_label (fold (add_suggestion tau) rs new_acc))"
    unfolding fold_per_label_keys by simp
  then obtain v where v: "map_of (da_per_label (fold (add_suggestion tau) rs new_acc)) b = Some v"
    by (metis map_of_eq_None_iff not_None_eq)
  have "v = fold (\<lambda>s. count_bucket (su_outcome s)) (label_rows rs b) new_bucket"
    using fold_per_label_entry [of tau rs new_acc b] v by (simp add: new_acc_def)
  then show ?thesis
    using False v by (simp add: fold_count_bucket bucket_of_def new_bucket_def)
qed

lemma in_aggregate_daily:
  assumes "dm \<in> set (aggregate_daily tau emb rows)"
  shows "dm = metrics_of emb (metrics_key dm,
           fold (add_suggestion tau) (day_rows rows (metrics_key dm)) new_acc)"
proof -
  obtain p d a where m: "((p, d), a) \<in> set (group_fold rollup_key new_acc (add_suggestion tau) rows)"
    and dm: "dm = metrics_of emb ((p, d), a)"
    using assms unfolding aggregate_daily_def by auto
  have "a = fold (add_suggestion tau) (day_rows rows (p, d)) new_acc"
    using group_fold_entry [OF m] by (simp add: day_rows_def)
  moreover have "metrics_key dm = (p, d)" by (simp add: dm metrics_of_def metrics_key_def)
  ultimately show ?thesis using dm by simp
qed

lemma metrics_key_metrics_of: "metrics_key (metrics_of emb ka) = fst ka"
  by (cases ka) (auto simp: metrics_key_def metrics_of_def)

lemma aggregate_daily_keys: "metrics_key ` set (aggregate_daily tau emb rows) = rollup_key ` set rows"
  unfolding aggregate_daily_def
  by (simp add: image_image metrics_key_metrics_of group_fold_keys)

lemma mset_map_sort_key: "mset (map f (sort_key g xs)) = mset (map f xs)"
  by simp

lemma aggregate_daily_distinct: "distinct (map metrics_key (aggregate_daily tau emb rows))"
proof -
  let ?xs = "map (metrics_of emb) (group_fold rollup_key new_acc (add_suggestion tau) rows)"
  have "mset (map metrics_key (sort_key metrics_key ?xs)) = mset (map metrics_key ?xs)"
    by (rule mset_map_sort_key)
  then have "distinct (map metrics_key (sort_key metrics_key ?xs)) \<longleftrightarrow> distinct (map metrics_key ?xs)"
    by (rule mset_eq_imp_distinct_iff)
  moreover have "map metrics_key ?xs =
      map fst (group_fold rollup_key new_acc (add_suggestion tau) rows)"
    by (simp add: metrics_key_metrics_of)
  ultimately show ?thesis unfolding aggregate_daily_def using group_fold_distinct by metis
qed

lemma aggregate_daily_sorted: "sorted (map metrics_key (aggregate_daily tau emb rows))"
  unfolding aggregate_daily_def by simp

lemma metrics_of_counts:
  "da_suggestions (metrics_of emb (k, a)) = da_suggestions a"
  "da_accepted (metrics_of emb (k, a)) = da_accepted a"
  "da_corrected (metrics_of emb (k, a)) = da_corrected a"
  "da_ignored (metrics_of emb (k, a)) = da_ignored a"
  "da_abstained (metrics_of emb (k, a)) = da_abstained a"
  "da_auto_labeled (metrics_of emb (k, a)) = da_auto_labeled a"
  "da_auto_corrected (metrics_of emb (k, a)) = da_auto_corrected a"
  "da_per_label (metrics_of emb (k, a)) = da_per_label a"
  "dm_emb_model_ver (metrics_of emb (k, a)) = emb"
  by (cases k; simp add: metrics_of_def)+

text \<open>Every counter of a row, as a count of the rows of its project and day.\<close>

lemma aggregate_counts:
  assumes "dm \<in> set (aggregate_daily tau emb rows)"
  shows "da_suggestions dm = length (day_rows rows (metrics_key dm))"
    and "da_accepted dm = tally (\<lambda>s. su_outcome s = ''accepted'') (day_rows rows (metrics_key dm))"
    and "da_corrected dm = tally (\<lambda>s. su_outcome s = ''corrected'') (day_rows rows (metrics_key dm))"
    and "da_ignored dm = tally (\<lambda>s. su_outcome s = ''ignored'') (day_rows rows (metrics_key dm))"
    and "da_abstained dm =
      tally (\<lambda>s. report_base (su_predicted_label s) = None) (day_rows rows (metrics_key dm))"
    and "da_auto_labeled dm = tally (is_auto tau) (day_rows rows (metrics_key dm))"
    and "da_auto_corrected dm =
      tally (\<lambda>s. is_auto tau s \<and> su_outcome s = ''corrected'') (day_rows rows (metrics_key dm))"
    and "map_of (da_per_label dm) b =
      (let rs = label_rows (day_rows rows (metrics_key dm)) b
       in if rs = [] then None else Some (bucket_of rs))"
    and "dm_emb_model_ver dm = emb"
proof -
  let ?rs = "day_rows rows (metrics_key dm)"
  have dm: "dm = metrics_of emb (metrics_key dm, fold (add_suggestion tau) ?rs new_acc)"
    using assms by (rule in_aggregate_daily)
  note c = arg_cong [OF dm, where f = da_suggestions] arg_cong [OF dm, where f = da_accepted]
    arg_cong [OF dm, where f = da_corrected] arg_cong [OF dm, where f = da_ignored]
    arg_cong [OF dm, where f = da_abstained] arg_cong [OF dm, where f = da_auto_labeled]
    arg_cong [OF dm, where f = da_auto_corrected]
  have z: "da_suggestions new_acc = 0" "da_accepted new_acc = 0" "da_corrected new_acc = 0"
    "da_ignored new_acc = 0" "da_abstained new_acc = 0" "da_auto_labeled new_acc = 0"
    "da_auto_corrected new_acc = 0"
    by (simp_all add: new_acc_def)
  show "da_suggestions dm = length ?rs" "da_accepted dm = tally (\<lambda>s. su_outcome s = ''accepted'') ?rs"
    "da_corrected dm = tally (\<lambda>s. su_outcome s = ''corrected'') ?rs"
    "da_ignored dm = tally (\<lambda>s. su_outcome s = ''ignored'') ?rs"
    "da_abstained dm = tally (\<lambda>s. report_base (su_predicted_label s) = None) ?rs"
    "da_auto_labeled dm = tally (is_auto tau) ?rs"
    "da_auto_corrected dm = tally (\<lambda>s. is_auto tau s \<and> su_outcome s = ''corrected'') ?rs"
    using c unfolding metrics_of_counts fold_counts z by simp_all
  show "map_of (da_per_label dm) b =
      (let rs = label_rows ?rs b in if rs = [] then None else Some (bucket_of rs))"
    using arg_cong [OF dm, where f = da_per_label]
    unfolding metrics_of_counts by (simp add: fold_new_per_label Let_def)
  show "dm_emb_model_ver dm = emb"
    using arg_cong [OF dm, where f = dm_emb_model_ver] unfolding metrics_of_counts .
qed

lemma tally_filter: "tally P (filter Q xs) = tally (\<lambda>x. Q x \<and> P x) xs"
  by (induction xs) auto

lemma sum_tally_keys:
  fixes K :: "'k set"
  assumes "finite K" and "key ` set xs \<subseteq> K"
  shows "(\<Sum>k\<in>K. length (filter (\<lambda>x. key x = k) xs)) = length xs"
  using assms(2)
proof (induction xs)
  case Nil
  then show ?case by simp
next
  case (Cons x xs)
  have "length (filter (\<lambda>y. key y = k) (x # xs)) =
      (if k = key x then 1 else 0) + length (filter (\<lambda>y. key y = k) xs)" for k
    by simp
  then show ?case
    using Cons assms(1) by (simp add: sum.distrib)
qed

lemma aggregate_daily_total:
  "sum_list (map da_suggestions (aggregate_daily tau emb rows)) = length rows"
proof -
  let ?D = "aggregate_daily tau emb rows"
  have dist: "distinct ?D" using aggregate_daily_distinct by (simp add: distinct_map)
  have inj: "inj_on metrics_key (set ?D)" using aggregate_daily_distinct by (simp add: distinct_map)
  have "sum_list (map da_suggestions ?D) = (\<Sum>dm\<in>set ?D. da_suggestions dm)"
    using dist by (rule sum_list_distinct_conv_sum_set)
  also have "\<dots> = (\<Sum>dm\<in>set ?D. length (day_rows rows (metrics_key dm)))"
  proof (rule sum.cong [OF refl])
    fix dm assume "dm \<in> set ?D"
    then show "da_suggestions dm = length (day_rows rows (metrics_key dm))"
      by (simp add: aggregate_counts)
  qed
  also have "\<dots> = (\<Sum>k\<in>metrics_key ` set ?D. length (day_rows rows k))"
    by (simp add: sum.reindex [OF inj])
  also have "\<dots> = length rows"
    unfolding day_rows_def by (rule sum_tally_keys) (simp_all add: aggregate_daily_keys)
  finally show ?thesis .
qed

section \<open>The nightly job\<close>

text \<open>\<open>fetch_suggestions_for_day\<close>, \<open>upsert_daily_metrics\<close> (absolute values) and the job.\<close>

definition fetch_suggestions_for_day :: "int \<Rightarrow> db \<Rightarrow> suggestion_row list" where
  "fetch_suggestions_for_day day db =
     filter (\<lambda>s. of_int day * 86400 \<le> su_created_at s
               \<and> su_created_at s < (of_int day + 1) * 86400) (db_suggestions db)"

definition upsert_daily_metrics :: "daily_metrics \<Rightarrow> daily_metrics list \<Rightarrow> daily_metrics list" where
  "upsert_daily_metrics dm table = upsert metrics_key (\<lambda>old new. new) dm table"

definition metrics_daily_job ::
    "string option \<Rightarrow> int \<Rightarrow> db \<Rightarrow> daily_metrics list \<Rightarrow> daily_metrics list \<times> daily_metrics list" where
  "metrics_daily_job emb day db table =
     (let metrics = aggregate_daily TAU_AUTO emb (fetch_suggestions_for_day day db)
      in (metrics, fold upsert_daily_metrics metrics table))"

definition get_metrics :: "int \<Rightarrow> int \<Rightarrow> int \<Rightarrow> daily_metrics list \<Rightarrow> daily_metrics list" where
  "get_metrics p frm to table =
     sort_key dm_day (filter (\<lambda>dm. dm_project_id dm = p \<and> frm \<le> dm_day dm \<and> dm_day dm \<le> to) table)"

record metrics_summary =
  ms_suggestions :: nat
  ms_accepted :: nat
  ms_corrected :: nat
  ms_ignored :: nat
  ms_abstained :: nat
  ms_auto_labeled :: nat
  ms_auto_corrected :: nat
  ms_since :: int
  ms_last_day :: "int option"

definition summary_of_table :: "int \<Rightarrow> daily_metrics list \<Rightarrow> metrics_summary" where
  "summary_of_table since table =
     (let rows = filter (\<lambda>dm. dm_day dm \<ge> since) table
      in \<lparr>ms_suggestions = sum_list (map da_suggestions rows),
          ms_accepted = sum_list (map da_accepted rows),
          ms_corrected = sum_list (map da_corrected rows),
          ms_ignored = sum_list (map da_ignored rows),
          ms_abstained = sum_list (map da_abstained rows),
          ms_auto_labeled = sum_list (map da_auto_labeled rows),
          ms_auto_corrected = sum_list (map da_auto_corrected rows),
          ms_since = since,
          ms_last_day = (if rows = [] then None else Some (Max (set (map dm_day rows))))\<rparr>)"

interpretation metrics: keyed_table metrics_key "\<lambda>old new. new"
  by unfold_locales simp

lemma upsert_daily_metrics_eq: "upsert_daily_metrics = upsert metrics_key (\<lambda>old new. new)"
  by (simp add: fun_eq_iff upsert_daily_metrics_def)

lemma fetched_day:
  assumes "s \<in> set (fetch_suggestions_for_day day db)"
  shows "day_of (su_created_at s) = day"
proof -
  have "of_int day * 86400 \<le> su_created_at s" "su_created_at s < (of_int day + 1) * 86400"
    using assms by (auto simp: fetch_suggestions_for_day_def)
  then have "of_int day \<le> su_created_at s / 86400" "su_created_at s / 86400 < of_int day + 1"
    by simp_all
  then show ?thesis unfolding day_of_def by (rule floor_unique)
qed

lemma fetched_iff:
  "s \<in> set (fetch_suggestions_for_day day db) \<longleftrightarrow>
     s \<in> set (db_suggestions db) \<and> day_of (su_created_at s) = day"
proof
  assume "s \<in> set (fetch_suggestions_for_day day db)"
  then show "s \<in> set (db_suggestions db) \<and> day_of (su_created_at s) = day"
    using fetched_day by (auto simp: fetch_suggestions_for_day_def)
next
  assume "s \<in> set (db_suggestions db) \<and> day_of (su_created_at s) = day"
  then have "s \<in> set (db_suggestions db)"
    "of_int day \<le> su_created_at s / 86400" "su_created_at s / 86400 < of_int day + 1"
    unfolding day_of_def by linarith+
  then show "s \<in> set (fetch_suggestions_for_day day db)"
    by (simp add: fetch_suggestions_for_day_def)
qed

lemma lookup_row_in: "lookup_row key k rows = Some r \<Longrightarrow> r \<in> set rows \<and> key r = k"
  using lookup_row_SomeD by metis

lemma job_lookup:
  "lookup_row metrics_key k (snd (metrics_daily_job emb day db table)) =
     (case lookup_row metrics_key k
             (aggregate_daily TAU_AUTO emb (fetch_suggestions_for_day day db)) of
        None \<Rightarrow> lookup_row metrics_key k table
      | Some dm \<Rightarrow> Some dm)"
  unfolding metrics_daily_job_def Let_def upsert_daily_metrics_eq snd_conv
    metrics.lookup_fold_upsert [OF aggregate_daily_distinct]
  by (auto split: option.splits)

lemma job_keys_of_day:
  assumes "dm \<in> set (fst (metrics_daily_job emb day db table))"
  shows "dm_day dm = day"
proof -
  have "metrics_key dm \<in> rollup_key ` set (fetch_suggestions_for_day day db)"
    using imageI [OF assms, of metrics_key]
    by (simp add: metrics_daily_job_def Let_def aggregate_daily_keys)
  then show ?thesis using fetched_day by (auto simp: metrics_key_def rollup_key_def)
qed

lemma upsert_same:
  assumes "unique_by key rows" and "lookup_row key (key new) rows = Some new"
  shows "upsert key (\<lambda>old new. new) new rows = rows"
proof -
  have i: "new \<in> set rows" using lookup_row_in [OF assms(2)] by simp
  have "(if key r = key new then new else r) = r" if "r \<in> set rows" for r
    using unique_byD [OF assms(1) that i] by auto
  then have "map (\<lambda>r. if key r = key new then new else r) rows = rows" by (rule map_idI)
  moreover have "key new \<in> key ` set rows" using i by simp
  ultimately show ?thesis by (simp add: upsert_def)
qed

lemma fold_upsert_same:
  assumes "unique_by key rows" and "\<And>n. n \<in> set news \<Longrightarrow> lookup_row key (key n) rows = Some n"
  shows "fold (upsert key (\<lambda>old new. new)) news rows = rows"
  using assms(2) by (induction news) (simp_all add: upsert_same [OF assms(1)])

lemma job_again:
  assumes "unique_by metrics_key table"
  shows "snd (metrics_daily_job emb day db (snd (metrics_daily_job emb day db table))) =
    snd (metrics_daily_job emb day db table)"
proof -
  let ?ms = "aggregate_daily TAU_AUTO emb (fetch_suggestions_for_day day db)"
  let ?t = "snd (metrics_daily_job emb day db table)"
  have t: "?t = fold (upsert metrics_key (\<lambda>old new. new)) ?ms table"
    by (simp add: metrics_daily_job_def Let_def upsert_daily_metrics_eq)
  have u: "unique_by metrics_key ?t"
    unfolding t using assms by (rule metrics.fold_upsert_unique)
  have "lookup_row metrics_key (metrics_key n) ?t = Some n" if "n \<in> set ?ms" for n
  proof -
    have "unique_by metrics_key ?ms" using aggregate_daily_distinct by (simp add: unique_by_def)
    then have "lookup_row metrics_key (metrics_key n) ?ms = Some n"
      using that by (rule lookup_row_unique)
    then show ?thesis by (simp add: job_lookup)
  qed
  then have "fold (upsert metrics_key (\<lambda>old new. new)) ?ms ?t = ?t"
    using u by (intro fold_upsert_same)
  then show ?thesis by (simp add: metrics_daily_job_def Let_def upsert_daily_metrics_eq)
qed

section \<open>Replaying snapshots as groups of one\<close>

definition SINGLETON_OVERRIDES :: "(string \<times> real) list" where
  "SINGLETON_OVERRIDES =
     [(''group_dominance'', 1), (''co_failure_group_size'', log1p 1 / log1p 200),
      (''launch_fail_fraction'', 0), (''si_prior'', 0)]"

definition singletonize :: "feats \<Rightarrow> feats" where
  "singletonize features = features ++ map_of SINGLETON_OVERRIDES"

definition band :: "real \<Rightarrow> string" where
  "band confidence =
     (if confidence \<ge> TAU_AUTO then ''auto''
      else if confidence \<ge> TAU_SUGGEST then ''suggest'' else ''abstain'')"

record replay_record =
  rp_item_id :: int
  rp_finish_label :: string
  rp_finish_conf :: real
  rp_early_label :: string
  rp_early_conf :: real

definition label_flipped :: "replay_record \<Rightarrow> bool" where
  "label_flipped r \<longleftrightarrow> rp_finish_label r \<noteq> rp_early_label r"

definition band_changed :: "replay_record \<Rightarrow> bool" where
  "band_changed r \<longleftrightarrow> band (rp_finish_conf r) \<noteq> band (rp_early_conf r)"

definition replay_row ::
    "(feats \<Rightarrow> int \<Rightarrow> gbm_decision option) \<Rightarrow> int \<Rightarrow> int \<Rightarrow> feats \<Rightarrow> replay_record option" where
  "replay_row predict project_id item_id features =
     (case (predict features project_id, predict (singletonize features) project_id) of
        (Some finish, Some early) \<Rightarrow>
          Some \<lparr>rp_item_id = item_id,
                rp_finish_label = gd_label finish, rp_finish_conf = gd_max_prob finish,
                rp_early_label = gd_label early, rp_early_conf = gd_max_prob early\<rparr>
      | _ \<Rightarrow> None)"

text \<open>\<open>Counter\<close>, in the order of first occurrence, and \<open>most_common\<close>.\<close>

definition counter :: "'a list \<Rightarrow> ('a \<times> nat) list" where
  "counter xs = map (\<lambda>x. (x, count_list xs x)) (dedup_from id {} xs)"

definition most_common :: "('a \<times> nat) list \<Rightarrow> ('a \<times> nat) list" where
  "most_common c = order_desc snd c"

record replay_report =
  rr_label_flip_rate :: real
  rr_label_flips_by_pair :: "(string \<times> nat) list"
  rr_band_change_rate :: real
  rr_band_changes_by_pair :: "(string \<times> nat) list"
  rr_mean_abs_conf_delta :: real
  rr_max_abs_conf_delta :: real

definition conf_delta :: "replay_record \<Rightarrow> real" where
  "conf_delta r = \<bar>rp_finish_conf r - rp_early_conf r\<bar>"

text \<open>The report is the number of records and, unless there are none, the rates.\<close>

definition aggregate_replay :: "replay_record list \<Rightarrow> nat \<times> replay_report option" where
  "aggregate_replay records =
     (let n = length records in
      if n = 0 then (0, None)
      else
        (let flips = filter label_flipped records;
             band_moves = filter band_changed records;
             flip_pairs = counter (map (\<lambda>r. rp_finish_label r @ ''->'' @ rp_early_label r) flips);
             band_pairs = counter (map (\<lambda>r. band (rp_finish_conf r) @ ''->'' @ band (rp_early_conf r))
                                    band_moves)
         in (n, Some
           \<lparr>rr_label_flip_rate = py_round 4 (real (length flips) / real n),
            rr_label_flips_by_pair = most_common flip_pairs,
            rr_band_change_rate = py_round 4 (real (length band_moves) / real n),
            rr_band_changes_by_pair = most_common band_pairs,
            rr_mean_abs_conf_delta = py_round 4 (sum_list (map conf_delta records) / real n),
            rr_max_abs_conf_delta = py_round 4 (Max (set (map conf_delta records)))\<rparr>)))"

lemma sum_map_count:
  assumes "finite K" and "set xs \<subseteq> K"
  shows "(\<Sum>k\<in>K. count_list xs k) = length xs"
proof -
  have "count_list xs k = length (filter (\<lambda>x. id x = k) xs)" for k
    by (induction xs) auto
  then show ?thesis using sum_tally_keys [of K id xs] assms by simp
qed

lemma counter_total: "sum_list (map snd (counter xs)) = length xs"
proof -
  let ?d = "dedup_from id {} xs"
  have "distinct ?d" "set ?d = set xs"
    using dedup_from_distinct [of id "{}" xs] dedup_from_keys [of id "{}" xs] by simp_all
  then have "sum_list (map (count_list xs) ?d) = (\<Sum>k\<in>set xs. count_list xs k)"
    by (simp add: sum_list_distinct_conv_sum_set)
  then show ?thesis by (simp add: counter_def comp_def sum_map_count)
qed

lemma sum_list_map_mset: "mset xs = mset ys \<Longrightarrow> sum_list (map f xs) = sum_list (map f ys)"
  for f :: "'a \<Rightarrow> nat"
  by (metis mset_map sum_mset_sum_list)

lemma most_common_total: "sum_list (map snd (most_common c)) = sum_list (map snd c)"
  unfolding most_common_def by (rule sum_list_map_mset) simp

subsection \<open>The forced values are the extractor's for a group of one\<close>

abbreviation alone :: "feature_context \<Rightarrow> feature_context" where
  "alone ctx \<equiv> ctx\<lparr>fc_group_size := 1, fc_launch_failures := 1, fc_launch_items := 0,
                    fc_si_prior := 0\<rparr>"

definition LAUNCH_KEYS :: "string list" where
  "LAUNCH_KEYS = [''group_dominance'', ''co_failure_group_size'', ''launch_fail_fraction'', ''si_prior'']"

lemma before_launch_alone:
  "candidate_feats (alone ctx) v = candidate_feats ctx v"
  "kb_feats (alone ctx) v = kb_feats ctx v"
  "seed_feats (alone ctx) v = seed_feats ctx v"
  "history_feats (alone ctx) v = history_feats ctx v"
  by (simp_all add: candidate_feats_def cand_mass_feats_def cand_top1_feats_def top1_age_def
      cand_label_feats_def cand_retrieval_feats_def kb_feats_def seed_feats_def history_feats_def
      Let_def cong: list.case_cong option.case_cong)

lemma after_launch_alone:
  "item_feats (alone ctx) v = item_feats ctx v"
  "llm_feats (alone ctx) v = llm_feats ctx v"
  "discriminant_feats (alone ctx) v = discriminant_feats ctx v"
  by (simp_all add: item_feats_def llm_feats_def discriminant_feats_def identifier_feats_def
      status_code_feats_def neighbour_tokens_def Let_def)

text \<open>Every later group of features decides an entry from the entry it finds there alone.\<close>

lemma item_feats_pointwise: "v k = w k \<Longrightarrow> item_feats ctx v k = item_feats ctx w k"
  by (simp add: item_feats_def Let_def split: option.splits)

lemma foldl_upd_pointwise:
  fixes f :: "'l \<Rightarrow> 'k" and g :: "'l \<Rightarrow> 'v"
  assumes "v k = w k"
  shows "foldl (\<lambda>m l. m(f l \<mapsto> g l)) v ls k = foldl (\<lambda>m l. m(f l \<mapsto> g l)) w ls k"
  using assms
proof (induction ls arbitrary: v w)
  case Nil
  then show ?case by simp
next
  case (Cons l ls)
  show ?case unfolding foldl.simps by (rule Cons.IH) (simp add: Cons.prems)
qed

lemma set_onehot_pointwise:
  "v k = w k \<Longrightarrow> set_onehot v prefix levels x k = set_onehot w prefix levels x k"
  unfolding set_onehot_def Let_def by (rule foldl_upd_pointwise)

lemma llm_feats_pointwise: "v k = w k \<Longrightarrow> llm_feats ctx v k = llm_feats ctx w k"
  unfolding llm_feats_def by (intro set_onehot_pointwise)

lemma discriminant_feats_pointwise:
  "v k = w k \<Longrightarrow> discriminant_feats ctx v k = discriminant_feats ctx w k"
  by (auto simp: discriminant_feats_def identifier_feats_def status_code_feats_def Let_def
      split: option.splits)

lemma discriminant_feats_keep: "k \<in> set LAUNCH_KEYS \<Longrightarrow> discriminant_feats ctx v k = v k"
  by (auto simp: LAUNCH_KEYS_def discriminant_feats_def identifier_feats_def status_code_feats_def
      Let_def split: option.splits)

lemma item_feats_keep: "k \<in> set LAUNCH_KEYS \<Longrightarrow> item_feats ctx v k = v k"
  by (auto simp: LAUNCH_KEYS_def item_feats_def Let_def split: option.splits)

lemma foldl_upd_other:
  "k \<notin> f ` set ls \<Longrightarrow> foldl (\<lambda>m lvl. m(f lvl \<mapsto> g lvl)) v ls k = v k"
  by (induction ls arbitrary: v) auto

lemma launch_key_no_prefix: "''llm_'' @ rest \<notin> set LAUNCH_KEYS"
  by (simp add: LAUNCH_KEYS_def)

lemma set_onehot_keep:
  "k \<in> set LAUNCH_KEYS \<Longrightarrow> set_onehot v (''llm_'' @ p) levels x k = v k"
  unfolding set_onehot_def Let_def
proof (rule foldl_upd_other)
  assume k: "k \<in> set LAUNCH_KEYS"
  show "k \<notin> onehot_col (''llm_'' @ p) ` set levels"
  proof
    assume "k \<in> onehot_col (''llm_'' @ p) ` set levels"
    then obtain l where "k = ''llm_'' @ (p @ ''_'' @ l)" by (auto simp: onehot_col_def)
    with k show False using launch_key_no_prefix by metis
  qed
qed

lemma llm_feats_keep: "k \<in> set LAUNCH_KEYS \<Longrightarrow> llm_feats ctx v k = v k"
  using set_onehot_keep [of k _ "''failing_layer''"] set_onehot_keep [of k _ "''error_class''"]
  by (simp add: llm_feats_def)

lemmas later_feats_keep_launch = discriminant_feats_keep item_feats_keep llm_feats_keep

lemma earlier_feats_keep_fraction:
  "history_feats ctx v ''launch_fail_fraction'' = v ''launch_fail_fraction''"
  "seed_feats ctx v ''launch_fail_fraction'' = v ''launch_fail_fraction''"
  "kb_feats ctx v ''launch_fail_fraction'' = v ''launch_fail_fraction''"
  "candidate_feats ctx v ''launch_fail_fraction'' = v ''launch_fail_fraction''"
  by (auto simp: history_feats_def seed_feats_def seed_col_def kb_feats_def candidate_feats_def
      cand_mass_feats_def cand_top1_feats_def cand_label_feats_def cand_retrieval_feats_def
      hist_col_def BASE_LABELS_def Let_def split: option.splits list.splits prod.splits)

lemma launch_feats_other: "k \<notin> set LAUNCH_KEYS \<Longrightarrow> launch_feats ctx v k = v k"
  by (simp add: launch_feats_def LAUNCH_KEYS_def Let_def)

lemma launch_feats_alone:
  assumes "k \<in> set LAUNCH_KEYS" and "v ''launch_fail_fraction'' = Some 0"
  shows "launch_feats (alone ctx) v k = map_of SINGLETON_OVERRIDES k"
proof -
  have "log1p 1 / log1p 200 \<le> 1" "0 \<le> log1p 1 / log1p 200"
    by (simp_all add: log1p_def)
  then show ?thesis
    using assms by (auto simp: launch_feats_def LAUNCH_KEYS_def SINGLETON_OVERRIDES_def Let_def
        clamp01_def SI_PRIOR_MAX_def)
qed

lemma overrides_dom: "k \<in> set LAUNCH_KEYS \<longleftrightarrow> map_of SINGLETON_OVERRIDES k \<noteq> None"
  by (simp add: LAUNCH_KEYS_def SINGLETON_OVERRIDES_def)

lemma singletonize_alone: "singletonize (extract_features ctx) = extract_features (alone ctx)"
proof
  fix k
  let ?v = "history_feats ctx (seed_feats ctx (kb_feats ctx (candidate_feats ctx values0)))"
  have e: "extract_features (alone ctx) = discriminant_feats ctx (llm_feats ctx (item_feats ctx
      (launch_feats (alone ctx) ?v)))"
    by (simp add: extract_features_def before_launch_alone after_launch_alone)
  show "singletonize (extract_features ctx) k = extract_features (alone ctx) k"
  proof (cases "k \<in> set LAUNCH_KEYS")
    case True
    have "?v ''launch_fail_fraction'' = Some 0"
      by (simp add: earlier_feats_keep_fraction values0_def FEATURE_DEFAULTS_def FEATURES_def)
    with True have "extract_features (alone ctx) k = map_of SINGLETON_OVERRIDES k"
      unfolding e by (simp add: later_feats_keep_launch launch_feats_alone)
    then show ?thesis using True overrides_dom [of k]
      by (auto simp: singletonize_def map_add_def split: option.splits)
  next
    case False
    then have "launch_feats ctx ?v k = launch_feats (alone ctx) ?v k"
      by (simp add: launch_feats_other)
    then have "extract_features ctx k = extract_features (alone ctx) k"
      unfolding e unfolding extract_features_def
      by (intro discriminant_feats_pointwise llm_feats_pointwise item_feats_pointwise)
    then show ?thesis using False overrides_dom [of k] by (simp add: singletonize_def map_add_def)
  qed
qed

section \<open>Properties\<close>


definition demo_suggestion :: "int \<Rightarrow> string \<Rightarrow> real \<Rightarrow> string \<Rightarrow> seconds \<Rightarrow> suggestion_row" where
  "demo_suggestion p label conf outcome created =
     \<lparr>su_project_id = p, su_item_id = 1, su_launch_id = 1, su_group_id = None,
      su_predicted_label = label, su_confidence = conf, su_matched_mode_id = None,
      su_matched_item_id = None, su_features = Map.empty, su_model_ver = ''m1'',
      su_llm_used = False, su_method = None, su_abstain_reason = None, su_explanation = None,
      su_source = None, su_suggestion_id = 1, su_judge = None, su_coldstart = None,
      su_outcome = outcome, su_outcome_ts = None, su_created_at = created\<rparr>"

definition demo_day :: "suggestion_row list" where
  "demo_day = [demo_suggestion 7 ''pb001'' (9 / 10) ''corrected'' 10,
               demo_suggestion 7 ''ti001'' (1 / 10) ''pending'' 20]"

lemma demo_day_keys: "rollup_key ` set demo_day = {(7, 0)}"
proof -
  have "\<lfloor>10 / 86400 :: real\<rfloor> = 0" "\<lfloor>20 / 86400 :: real\<rfloor> = 0" by (rule floor_unique; simp)+
  then show ?thesis by (simp add: demo_day_def demo_suggestion_def rollup_key_def day_of_def)
qed


text \<open>
  The nightly rollup may be run again: a second run leaves the table as it is. One row per project
  and day stays one row; the rows of other days are not touched; the row of a project that showed
  suggestions that day is the fresh account of them, of any other project what it was.
\<close>

theorem nightly_rollup_idempotent:
  assumes "unique_by metrics_key table"
  shows "let (ms, table') = metrics_daily_job emb day db table in
      metrics_daily_job emb day db table' = (ms, table')
    \<and> unique_by metrics_key table'
    \<and> (d \<noteq> day \<or> p \<notin> su_project_id ` set (fetch_suggestions_for_day day db) \<longrightarrow>
         lookup_row metrics_key (p, d) table' = lookup_row metrics_key (p, d) table)
    \<and> sum_list (map da_suggestions ms) = length (fetch_suggestions_for_day day db)"
proof -
  let ?ms = "aggregate_daily TAU_AUTO emb (fetch_suggestions_for_day day db)"
  let ?t = "snd (metrics_daily_job emb day db table)"
  have u: "unique_by metrics_key ?t"
    using metrics.fold_upsert_unique [OF assms]
    by (simp add: metrics_daily_job_def Let_def upsert_daily_metrics_eq)
  have "lookup_row metrics_key (p, d) ?t = lookup_row metrics_key (p, d) table"
    if "d \<noteq> day \<or> p \<notin> su_project_id ` set (fetch_suggestions_for_day day db)"
  proof -
    have "(p, d) \<notin> rollup_key ` set (fetch_suggestions_for_day day db)"
      using that fetched_day by (auto simp: rollup_key_def)
    then have "lookup_row metrics_key (p, d) ?ms = None"
      by (simp add: lookup_row_None_iff aggregate_daily_keys)
    then show ?thesis by (simp add: job_lookup)
  qed
  then show ?thesis
    using u job_again [OF assms, of emb day db]
    by (simp add: metrics_daily_job_def Let_def aggregate_daily_total)
qed

theorem nightly_rollup_idempotent_witness:
  "let db = empty_db\<lparr>db_suggestions := demo_day\<rparr>;
       (ms, table') = metrics_daily_job None 0 db []
   in metrics_daily_job None 0 db table' = (ms, table') \<and> unique_by metrics_key table'"
  using nightly_rollup_idempotent [of "[]" None 0 "empty_db\<lparr>db_suggestions := demo_day\<rparr>" 1 7]
  by (auto simp: Let_def)

text \<open>
  The replay scores the item as if it had failed alone: forcing the four launch-context features
  of a stored snapshot gives exactly the features the extractor computes for the same item in a
  group of one, in a launch of one failure whose size is unknown, with no burst prior.
\<close>

theorem replay_is_group_of_one:
  "replay_row predict p i (extract_features ctx) =
     (case (predict (extract_features ctx) p, predict (extract_features (alone ctx)) p) of
        (Some finish, Some early) \<Rightarrow>
          Some \<lparr>rp_item_id = i,
                rp_finish_label = gd_label finish, rp_finish_conf = gd_max_prob finish,
                rp_early_label = gd_label early, rp_early_conf = gd_max_prob early\<rparr>
      | _ \<Rightarrow> None)"
  by (simp add: replay_row_def singletonize_alone)

text \<open>
  Every flip of the replay report is filed under exactly one pair of labels, and every change of band
  under one pair of bands.
\<close>

lemma replay_pairs_partition:
  assumes "records \<noteq> []"
  obtains rep where "aggregate_replay records = (length records, Some rep)"
    and "sum_list (map snd (rr_label_flips_by_pair rep)) = length (filter label_flipped records)"
    and "sum_list (map snd (rr_band_changes_by_pair rep)) = length (filter band_changed records)"
proof (rule that)
  show "aggregate_replay records = (length records, Some (the (snd (aggregate_replay records))))"
    using assms by (simp add: aggregate_replay_def Let_def)
qed (use assms in \<open>simp_all add: aggregate_replay_def Let_def most_common_total counter_total\<close>)

end
