(* ===== verification/Service.thy ===== *)
theory Service
  imports Dispatcher Retraining LlmEval Reporting Urls
begin

text \<open>
  The shell around the transport: what of the configuration is computed (\<open>config.py\<close>), the health
  endpoints (\<open>api/http.py\<close>), the logging context, the version and the signals (\<open>core/observability.py\<close>,
  \<open>main.py\<close>), the nightly trigger and the order of the shutdown (\<open>service.py\<close>).

  The shutdown is a step relation over the worker pool of \<open>Dispatcher\<close> and the components its tasks hand
  work to; joining a thread either ends or times out, which is remembered.
\<close>

section \<open>Configuration\<close>

datatype env_value = EnvBool bool | EnvStr string | EnvOther

definition BOOL_TRUE :: "string set" where
  "BOOL_TRUE = {''TRUE'', ''True'', ''true'', ''1'', ''Y'', ''y''}"

definition BOOL_FALSE :: "string set" where
  "BOOL_FALSE = {''FALSE'', ''False'', ''false'', ''0'', ''N'', ''n''}"

definition parse_bool :: "env_value \<Rightarrow> bool option" where
  "parse_bool v =
     (case v of
        EnvBool b \<Rightarrow> Some b
      | EnvStr s \<Rightarrow>
          (let tok = strip s in
           if tok \<in> BOOL_TRUE then Some True else if tok \<in> BOOL_FALSE then Some False else None)
      | EnvOther \<Rightarrow> None)"

definition LEGACY_IGNORED_PREFIXES :: "string list" where
  "LEGACY_IGNORED_PREFIXES = [''ES_'', ''DATASTORE_'', ''MINIO_'']"

definition ignored_legacy_env :: "string list \<Rightarrow> string list" where
  "ignored_legacy_env names =
     filter (\<lambda>n. list_ex (\<lambda>p. starts_with p n) LEGACY_IGNORED_PREFIXES) (sort names)"

text \<open>The fields that are validated or computed with; \<open>ac_other_ok\<close> is what pydantic says of the types and
  ranges of the others.\<close>

record app_config =
  ac_amqp_url :: string
  ac_llm_api :: string
  ac_pg_dsn :: string
  ac_pg_user :: "string option"
  ac_pg_password :: "string option"
  ac_pg_host :: string
  ac_pg_port :: string
  ac_pg_db :: string
  ac_other_ok :: bool

definition truthy :: "string option \<Rightarrow> bool" where
  "truthy t \<longleftrightarrow> (case t of None \<Rightarrow> False | Some s \<Rightarrow> s \<noteq> [])"

definition valid_llm_api :: "string \<Rightarrow> string option" where
  "valid_llm_api value =
     (let tok = lower_str (strip value) in if tok \<in> {''ollama'', ''openai''} then Some tok else None)"

definition dsn_derivable :: "app_config \<Rightarrow> bool" where
  "dsn_derivable c \<longleftrightarrow> strip (ac_pg_dsn c) \<noteq> [] \<or> (truthy (ac_pg_user c) \<and> truthy (ac_pg_password c))"

definition validate_config :: "app_config \<Rightarrow> app_config option" where
  "validate_config c =
     (case valid_llm_api (ac_llm_api c) of
        None \<Rightarrow> None
      | Some api \<Rightarrow>
          if dsn_derivable c \<and> ac_other_ok c
          then Some (c\<lparr>ac_llm_api := api, ac_amqp_url := rstrip_by (\<lambda>x. x = CHR ''/'') (ac_amqp_url c)\<rparr>)
          else None)"

text \<open>\<open>load_config\<close>: the configuration, or the exit with code 2.\<close>

definition load_config :: "bool \<Rightarrow> app_config \<Rightarrow> nat + app_config" where
  "load_config model_path_exists c =
     (case validate_config c of
        None \<Rightarrow> Inl 2
      | Some c' \<Rightarrow> if \<not> model_path_exists then Inl 2 else Inr c')"

text \<open>\<open>urllib.parse.quote\<close> with \<open>safe=""\<close>, on bytes of UTF-8.\<close>

definition hex_digit :: "nat \<Rightarrow> char" where
  "hex_digit n = (if n < 10 then char_of (48 + n) else char_of (55 + n))"

definition pct :: "nat \<Rightarrow> string" where
  "pct n = [CHR ''%'', hex_digit (n div 16), hex_digit (n mod 16)]"

definition unreserved :: "char \<Rightarrow> bool" where
  "unreserved c \<longleftrightarrow> is_alpha c \<or> is_digit c \<or> c \<in> set ''_.-~''"

definition quote_all_char :: "char \<Rightarrow> string" where
  "quote_all_char c =
     (let n = (of_char c :: nat)
      in if unreserved c then [c]
         else if n < 128 then pct n
         else pct (192 + n div 64) @ pct (128 + n mod 64))"

definition quote_all :: "string \<Rightarrow> string" where
  "quote_all s = concat (map quote_all_char s)"

definition pg_dsn_effective :: "app_config \<Rightarrow> string" where
  "pg_dsn_effective c =
     (if strip (ac_pg_dsn c) \<noteq> [] then ac_pg_dsn c
      else ''postgresql://'' @ quote_all (case ac_pg_user c of None \<Rightarrow> [] | Some u \<Rightarrow> u) @ '':''
             @ quote_all (case ac_pg_password c of None \<Rightarrow> [] | Some p \<Rightarrow> p)
             @ ''@'' @ ac_pg_host c @ '':'' @ ac_pg_port c @ ''/'' @ ac_pg_db c)"

definition reserved_chars :: "char set" where
  "reserved_chars = set ''/?#:@'' \<union> {CHR 0x09, CHR 0x0A, CHR 0x0D}"

lemma hex_digit_unreserved: "n < 16 \<Longrightarrow> hex_digit n \<notin> reserved_chars"
proof -
  have "\<forall>m \<in> set [0..<16]. hex_digit m \<notin> reserved_chars" by code_simp
  then show "n < 16 \<Longrightarrow> hex_digit n \<notin> reserved_chars" by simp
qed

lemma unreserved_not_reserved: "unreserved c \<Longrightarrow> c \<notin> reserved_chars"
  by (auto simp: unreserved_def reserved_chars_def is_alpha_def is_lower_def is_upper_def is_digit_def)

lemma pct_safe: "n < 256 \<Longrightarrow> set (pct n) \<inter> reserved_chars = {}"
  using hex_digit_unreserved [of "n div 16"] hex_digit_unreserved [of "n mod 16"]
  by (auto simp: pct_def) (simp_all add: reserved_chars_def)

lemma quote_all_char_safe: "set (quote_all_char c) \<inter> reserved_chars = {} \<and> quote_all_char c \<noteq> []"
proof -
  have n: "(of_char c :: nat) < 256" by simp
  have "(of_char c :: nat) div 64 < 64" using n by (simp only: div_less_iff_less_mult)
  then have "192 + (of_char c :: nat) div 64 < 256" "128 + (of_char c :: nat) mod 64 < 256" by simp_all
  note high = pct_safe [OF this(1)] pct_safe [OF this(2)]
  have ne: "pct m \<noteq> []" for m by (simp add: pct_def)
  show ?thesis
  proof (cases "unreserved c")
    case True
    then show ?thesis using unreserved_not_reserved by (simp add: quote_all_char_def Let_def)
  next
    case False
    then show ?thesis using high pct_safe [OF n] ne
      by (simp add: quote_all_char_def Let_def Int_Un_distrib2)
  qed
qed

lemma quote_all_safe: "set (quote_all s) \<inter> reserved_chars = {}"
  using quote_all_char_safe by (auto simp: quote_all_def)

lemma quote_all_nonempty: "s \<noteq> [] \<Longrightarrow> quote_all s \<noteq> []"
  using quote_all_char_safe by (cases s) (auto simp: quote_all_def)

text \<open>
  C. The credentials of a derived connection string never show: quoting keeps the separators out of user
  and password, so the redacted form of the string is the same whoever connects.
\<close>

definition log_safe_host :: "app_config \<Rightarrow> bool" where
  "log_safe_host c \<longleftrightarrow> list_all (\<lambda>x. x \<notin> reserved_chars) (ac_pg_host c @ ac_pg_port c)
     \<and> CHR ''@'' \<notin> set (ac_pg_db c) \<and> plain_url (ac_pg_db c)"

lemma redact_of_url:
  assumes "u \<noteq> []" and "set u \<inter> reserved_chars = {}" and "set p \<inter> reserved_chars = {}"
    and "list_all (\<lambda>c. c \<notin> set ''/?#'') h" and "plain_url h"
    and "CHR ''@'' \<notin> set db" and "plain_url db"
  shows "redact_dsn (''postgresql://'' @ u @ '':'' @ p @ ''@'' @ h @ ''/'' @ db) =
    re_sub_with PW_KV_RE (\<lambda>m. grp 1 m @ ''***'') (''postgresql://'' @ h @ ''/'' @ db)"
proof -
  let ?sc = "''postgresql''" and ?rest = "CHR ''/'' # db" and ?n = "u @ '':'' @ p @ ''@'' @ h"
  have up: "CHR '':'' \<notin> set u" "CHR ''@'' \<notin> set p" "list_all (\<lambda>c. c \<notin> set ''/?#'') (u @ p @ h)"
    "plain_url u" "plain_url p"
    using assms(2-4) by (auto simp: reserved_chars_def list_all_iff plain_url_def)
  have sc: "list_all scheme_char ?sc" "is_alpha (hd ?sc)"
    by (simp_all add: scheme_char_def is_alpha_def is_lower_def)
  have "plain_url (?sc @ ''://'' @ ?n @ ?rest)"
    using up assms(5,7) by (auto simp: plain_url_def)
  moreover have "list_all (\<lambda>c. c \<notin> set ''/?#'') ?n" using up by (simp add: list_all_iff)
  ultimately have n: "netloc (?sc @ ''://'' @ ?n @ ?rest) = ?n"
    using sc by (intro netloc_of_url) simp_all
  have s: "strip_userinfo ?n = h" by (rule strip_userinfo_removes [OF assms(1) up(1,2)])
  have "py_replace ?n h ?rest = ?rest"
    using assms(6) replace_from_absent [of "CHR ''@''" ?n ?rest h] by (simp add: py_replace_def)
  then have "py_replace ?n h (?sc @ ''://'' @ ?n @ ?rest) = ?sc @ ''://'' @ h @ ?rest"
    using replace_location [OF sc(1) up(3), of ?rest] by simp
  moreover have "?n \<noteq> [] \<and> h \<noteq> ?n" by simp
  ultimately have "(if ?n \<noteq> [] \<and> strip_userinfo ?n \<noteq> ?n
      then py_replace ?n (strip_userinfo ?n) (?sc @ ''://'' @ ?n @ ?rest)
      else ?sc @ ''://'' @ ?n @ ?rest) = ?sc @ ''://'' @ h @ ?rest"
    unfolding s by simp
  then have "redact_dsn (?sc @ ''://'' @ ?n @ ?rest) =
      re_sub_with PW_KV_RE (\<lambda>m. grp 1 m @ ''***'') (?sc @ ''://'' @ h @ ?rest)"
    unfolding redact_dsn_def Let_def n by (rule arg_cong)
  then show ?thesis by simp
qed

theorem derived_dsn_hides_credentials:
  assumes "strip (ac_pg_dsn c) = []" and "dsn_derivable c" and "log_safe_host c"
    and "dsn_derivable (c\<lparr>ac_pg_user := u, ac_pg_password := p\<rparr>)"
  shows "redact_dsn (pg_dsn_effective (c\<lparr>ac_pg_user := u, ac_pg_password := p\<rparr>)) =
    redact_dsn (pg_dsn_effective c)"
proof -
  have host: "list_all (\<lambda>x. x \<notin> set ''/?#'') (ac_pg_host c @ '':'' @ ac_pg_port c)"
    "plain_url (ac_pg_host c @ '':'' @ ac_pg_port c)"
    using assms(3) by (auto simp: log_safe_host_def reserved_chars_def list_all_iff plain_url_def)
  have one: "redact_dsn (pg_dsn_effective d) = re_sub_with PW_KV_RE (\<lambda>m. grp 1 m @ ''***'')
      (''postgresql://'' @ (ac_pg_host c @ '':'' @ ac_pg_port c) @ ''/'' @ ac_pg_db c)"
    if "strip (ac_pg_dsn d) = []" "dsn_derivable d" "ac_pg_host d = ac_pg_host c"
      "ac_pg_port d = ac_pg_port c" "ac_pg_db d = ac_pg_db c" for d
  proof -
    note d = that
    obtain v w where vw: "ac_pg_user d = Some v" "v \<noteq> []" "ac_pg_password d = Some w"
      using d(1,2) by (auto simp: dsn_derivable_def truthy_def split: option.splits)
    have "pg_dsn_effective d = ''postgresql://'' @ quote_all v @ '':'' @ quote_all w @ ''@''
        @ (ac_pg_host c @ '':'' @ ac_pg_port c) @ ''/'' @ ac_pg_db c"
      using d vw by (simp add: pg_dsn_effective_def)
    then show ?thesis
      using redact_of_url [OF quote_all_nonempty [OF vw(2)] quote_all_safe quote_all_safe host]
        assms(3) by (simp add: log_safe_host_def)
  qed
  show ?thesis using one [of c] one [of "c\<lparr>ac_pg_user := u, ac_pg_password := p\<rparr>"] assms by simp
qed

definition demo_config :: app_config where
  "demo_config = \<lparr>ac_amqp_url = ''amqp://mq'', ac_llm_api = ''ollama'', ac_pg_dsn = [],
     ac_pg_user = Some ''rp'', ac_pg_password = Some ''p@ss'', ac_pg_host = ''db'', ac_pg_port = ''5432'',
     ac_pg_db = ''analyzer'', ac_other_ok = True\<rparr>"

theorem derived_dsn_hides_credentials_witness:
  "redact_dsn (pg_dsn_effective (demo_config\<lparr>ac_pg_user := Some ''x'', ac_pg_password := Some ''y''\<rparr>))
   = redact_dsn (pg_dsn_effective demo_config)"
  by (rule derived_dsn_hides_credentials)
    (simp_all add: demo_config_def dsn_derivable_def truthy_def strip_def lstrip_by_def rstrip_by_def
      log_safe_host_def reserved_chars_def plain_url_def)

section \<open>Logging context, version and signals\<close>

text \<open>The context variables of \<open>core/observability.py\<close> in one worker's thread, and the fields a record of the
  log carries. A task gets a context and returns the one it leaves.\<close>

datatype log_value = LText string | LInt int

record log_ctx =
  lc_correlation :: "string option"
  lc_routing :: "string option"
  lc_project :: "int option"

definition bind_request ::
  "string \<Rightarrow> string option \<Rightarrow> string option \<Rightarrow> (log_ctx \<Rightarrow> 'a \<times> log_ctx) \<Rightarrow> log_ctx \<Rightarrow> 'a \<times> log_ctx" where
  "bind_request new_uuid correlation_id routing_key task ctx =
     (let effective = (if truthy correlation_id then correlation_id else Some new_uuid);
          (res, left) = task \<lparr>lc_correlation = effective, lc_routing = routing_key, lc_project = None\<rparr>
      in (res, left\<lparr>lc_correlation := lc_correlation ctx, lc_routing := lc_routing ctx,
                lc_project := lc_project ctx\<rparr>))"

definition set_project :: "int option \<Rightarrow> log_ctx \<Rightarrow> log_ctx" where
  "set_project project ctx = ctx\<lparr>lc_project := project\<rparr>"

definition text_field :: "string \<Rightarrow> string option \<Rightarrow> (string \<times> log_value) list" where
  "text_field name v = (case v of None \<Rightarrow> [] | Some t \<Rightarrow> if t = [] then [] else [(name, LText t)])"

definition current_log_fields :: "log_ctx \<Rightarrow> (string \<times> log_value) list" where
  "current_log_fields ctx =
     text_field ''correlation_id'' (lc_correlation ctx) @ text_field ''routing_key'' (lc_routing ctx)
     @ (case lc_project ctx of None \<Rightarrow> [] | Some p \<Rightarrow> [(''project'', LInt p)])"

definition format_record ::
  "string \<Rightarrow> string \<Rightarrow> string \<Rightarrow> string \<Rightarrow> string \<Rightarrow> log_ctx \<Rightarrow> int option \<Rightarrow> string option
     \<Rightarrow> (string \<times> log_value) list" where
  "format_record ts level logger msg app_version ctx duration_ms exc =
     [(''ts'', LText ts), (''level'', LText level), (''logger'', LText logger), (''msg'', LText msg),
      (''app_version'', LText app_version)]
     @ current_log_fields ctx
     @ (case duration_ms of None \<Rightarrow> [] | Some d \<Rightarrow> [(''duration_ms'', LInt d)])
     @ (case exc of None \<Rightarrow> [] | Some e \<Rightarrow> [(''exc'', LText e)])"

lemma format_record_keys_distinct:
  "distinct (map fst (format_record ts level logger msg app_version ctx duration_ms exc))"
  by (auto simp: format_record_def current_log_fields_def text_field_def split: option.splits)

text \<open>However a task ends up setting the project, the next one on the same thread starts without it.\<close>

lemma project_does_not_leak:
  "bind_request u2 c2 r2 task2 (snd (bind_request u1 c1 r1 task1 ctx)) = bind_request u2 c2 r2 task2 ctx"
  by (simp add: bind_request_def split: prod.splits)

text \<open>\<open>None\<close> is a candidate that cannot be read.\<close>

fun read_app_version :: "string option list \<Rightarrow> string" where
  "read_app_version [] = ''0.0.0''"
| "read_app_version (None # candidates) = read_app_version candidates"
| "read_app_version (Some t # candidates) =
     (if strip t \<noteq> [] then strip t else read_app_version candidates)"

lemma app_version_nonempty: "read_app_version candidates \<noteq> []"
  by (induction candidates rule: read_app_version.induct) auto

datatype signal_result = ShutDown | ExitWith nat

text \<open>The counter of the signal handler, and what the signal does.\<close>

definition on_signal :: "nat \<Rightarrow> nat \<times> signal_result" where
  "on_signal n = (n + 1, if n + 1 \<ge> 2 then ExitWith 130 else ShutDown)"

section \<open>Health\<close>

record health_view =
  hv_ready :: bool
  hv_pg :: bool
  hv_amqp :: bool

definition root_status :: "bool \<Rightarrow> nat \<times> string" where
  "root_status pg_ok = (if \<not> pg_ok then (503, ''PostgreSQL is not healthy'') else (200, ''healthy''))"

definition amqp_ok :: "bool list \<Rightarrow> bool" where
  "amqp_ok consumers_alive = list_all (\<lambda>a. a) consumers_alive"

definition health_response :: "bool \<Rightarrow> bool \<Rightarrow> bool list \<Rightarrow> nat \<times> health_view" where
  "health_response ready pg_ok consumers_alive =
     (if ready then 200 else 503,
      \<lparr>hv_ready = ready, hv_pg = pg_ok, hv_amqp = amqp_ok consumers_alive\<rparr>)"

definition thread_statuses :: "(string \<times> bool) list \<Rightarrow> nat \<Rightarrow> (string \<times> string \<times> nat) list" where
  "thread_statuses consumers n_running =
     map (\<lambda>(name, alive). (name, if alive then ''alive'' else ''dead'', 0)) consumers
     @ [(''workers'', ''alive'', n_running)]"

section \<open>The nightly trigger\<close>

definition COLD_LABEL_EVENTS :: int where "COLD_LABEL_EVENTS = 50"

text \<open>\<open>is_cold\<close>: without a label store, or with the answer of the store; \<open>None\<close> inside is a raised error.\<close>

definition is_cold :: "int option option \<Rightarrow> bool" where
  "is_cold n_events =
     (case n_events of
        None \<Rightarrow> True
      | Some None \<Rightarrow> False
      | Some (Some n) \<Rightarrow> n < COLD_LABEL_EVENTS)"

record nightly_state =
  ns_scheduler :: scheduler
  ns_db :: db
  ns_metrics :: "daily_metrics list"
  ns_roles :: role_states

text \<open>How far each of the three guarded jobs gets before it raises: the rows the rollup has written, the
  reaper (one transaction), and what the evaluation leaves; \<open>None\<close> is a job that runs to its end.\<close>

record nightly_env =
  ne_now :: seconds
  ne_today :: int
  ne_emb :: "string option"
  ne_grace_days :: int
  ne_llm_on :: bool
  ne_rollup_stops :: "nat option"
  ne_reap_fails :: bool
  ne_eval_leaves :: "role_states option"

definition guarded_rollup :: "nightly_env \<Rightarrow> db \<Rightarrow> daily_metrics list \<Rightarrow> daily_metrics list" where
  "guarded_rollup env db table =
     (case ne_rollup_stops env of
        None \<Rightarrow> snd (metrics_daily_job (ne_emb env) (ne_today env - 1) db table)
      | Some k \<Rightarrow> fold upsert_daily_metrics
                   (take k (fst (metrics_daily_job (ne_emb env) (ne_today env - 1) db table))) table)"

definition guarded_reap :: "nightly_env \<Rightarrow> db \<Rightarrow> db" where
  "guarded_reap env db =
     (if ne_reap_fails env then db
      else fst (reap_orphan_label_events (ne_now env) (ne_grace_days env) db))"

definition guarded_eval :: "nightly_env \<Rightarrow> db \<Rightarrow> role_states \<Rightarrow> role_states" where
  "guarded_eval env db st =
     (if \<not> ne_llm_on env then st
      else (case ne_eval_leaves env of
              None \<Rightarrow> fst (snd (nightly_eval (ne_now env) db st))
            | Some st' \<Rightarrow> st'))"

definition nightly_trigger :: "nightly_env \<Rightarrow> nightly_state \<Rightarrow> nightly_state" where
  "nightly_trigger env s =
     (let s = s\<lparr>ns_scheduler := request REASON_NIGHTLY (ns_scheduler s)\<rparr>;
          s = s\<lparr>ns_metrics := guarded_rollup env (ns_db s) (ns_metrics s)\<rparr>;
          s = s\<lparr>ns_db := guarded_reap env (ns_db s)\<rparr>
      in s\<lparr>ns_roles := guarded_eval env (ns_db s) (ns_roles s)\<rparr>)"

text \<open>A rollup that stops half way only touches the day and leaves one row for each project; the next run
  that completes makes up for it.\<close>

lemma rollup_partial_then_full:
  assumes "unique_by metrics_key table"
  shows "unique_by metrics_key (fold upsert_daily_metrics (take k (fst (metrics_daily_job emb day db table))) table)
    \<and> lookup_row metrics_key key (snd (metrics_daily_job emb day db
        (fold upsert_daily_metrics (take k (fst (metrics_daily_job emb day db table))) table)))
      = lookup_row metrics_key key (snd (metrics_daily_job emb day db table))"
proof -
  let ?ms = "aggregate_daily TAU_AUTO emb (fetch_suggestions_for_day day db)"
  let ?t = "fold upsert_daily_metrics (take k ?ms) table"
  have ms: "fst (metrics_daily_job emb day db table) = ?ms"
    by (simp add: metrics_daily_job_def Let_def)
  have u: "unique_by metrics_key ?t"
    unfolding upsert_daily_metrics_eq using assms by (rule metrics.fold_upsert_unique)
  have "lookup_row metrics_key key ?t = lookup_row metrics_key key table"
    if "lookup_row metrics_key key ?ms = None"
  proof -
    have "key \<notin> metrics_key ` set (take k ?ms)"
      using that set_take_subset [of k ?ms] unfolding lookup_row_None_iff by blast
    then show ?thesis unfolding upsert_daily_metrics_eq by (rule metrics.lookup_upsert_fold_other)
  qed
  then have "lookup_row metrics_key key (snd (metrics_daily_job emb day db ?t)) =
      lookup_row metrics_key key (snd (metrics_daily_job emb day db table))"
    by (simp add: job_lookup split: option.splits)
  then show ?thesis using u unfolding ms by simp
qed

text \<open>
  The nightly jobs do not depend on each other's success: a retrain is pending afterwards, at least as
  urgent as the nightly one; the orphans are reaped from the database as it was, whatever the rollup did;
  the switches are set from the reaped database; and neither the label log nor anything else but the
  reaped rows changes.
\<close>

theorem nightly_jobs_independent:
  "\<exists>r. sc_pending (ns_scheduler (nightly_trigger env s)) = Some r
      \<and> reason_rank r \<ge> reason_rank REASON_NIGHTLY
      \<and> ns_db (nightly_trigger env s) = guarded_reap env (ns_db s)
      \<and> ns_metrics (nightly_trigger env s) = guarded_rollup env (ns_db s) (ns_metrics s)
      \<and> ns_roles (nightly_trigger env s) =
          guarded_eval env (guarded_reap env (ns_db s)) (ns_roles s)"
  by (auto simp: nightly_trigger_def request_def Let_def not_less split: option.splits)

section \<open>Shutting down\<close>

text \<open>What a running task, the timer or a consumer hands to another component.\<close>

datatype handoff = ToScheduler | ToSidecar | ToPublisher

record 'b service =
  sv_pool :: "'b worker_pool"
  sv_ready :: bool
  sv_consuming :: bool
  sv_timer :: bool
  sv_scheduler :: bool
  sv_sidecar :: bool
  sv_publisher :: bool
  sv_stage :: nat
  sv_timed_out :: bool
  sv_lost :: "handoff list"

definition service_up :: "nat \<Rightarrow> 'b service" where
  "service_up workers = \<lparr>sv_pool = pool_init workers, sv_ready = True, sv_consuming = True,
     sv_timer = True, sv_scheduler = True, sv_sidecar = True, sv_publisher = True, sv_stage = 0,
     sv_timed_out = False, sv_lost = []\<rparr>"

definition listening :: "'b service \<Rightarrow> handoff \<Rightarrow> bool" where
  "listening s h =
     (case h of ToScheduler \<Rightarrow> sv_scheduler s | ToSidecar \<Rightarrow> sv_sidecar s | ToPublisher \<Rightarrow> sv_publisher s)"

definition hand :: "handoff \<Rightarrow> 'b service \<Rightarrow> 'b service" where
  "hand h s = (if listening s h then s else s\<lparr>sv_lost := h # sv_lost s\<rparr>)"

definition busy :: "'b worker_pool \<Rightarrow> bool" where
  "busy p \<longleftrightarrow> list_ex (\<lambda>ph. case ph of Busy _ \<Rightarrow> True | _ \<Rightarrow> False) (wp_phases p)"

definition all_exited :: "'b worker_pool \<Rightarrow> bool" where
  "all_exited p \<longleftrightarrow> list_all (\<lambda>ph. ph = Exited) (wp_phases p)"

text \<open>The main thread goes through the stages in order; a join ends when the thread has ended, or times
  out. Meanwhile consumers submit, workers work and hand work on, and the timer may fire.\<close>

inductive service_run :: "nat \<Rightarrow> 'b service \<Rightarrow> 'b service \<Rightarrow> bool" for queue_size where
  deliver: "sv_consuming s \<Longrightarrow> may_put queue_size (sv_pool s)
    \<Longrightarrow> service_run queue_size s (s\<lparr>sv_pool := (sv_pool s)\<lparr>wp_queue := wp_queue (sv_pool s) @ [it]\<rparr>\<rparr>)"
| malformed: "sv_consuming s \<Longrightarrow> service_run queue_size s (hand ToPublisher s)"
| work: "pool_step queue_size (sv_pool s) p' \<Longrightarrow> wp_stop p' = wp_stop (sv_pool s)
    \<Longrightarrow> length (wp_queue p') \<le> length (wp_queue (sv_pool s))
    \<Longrightarrow> service_run queue_size s (s\<lparr>sv_pool := p'\<rparr>)"
| task_hands: "busy (sv_pool s) \<Longrightarrow> service_run queue_size s (hand h s)"
| timer_fires: "sv_timer s \<Longrightarrow> service_run queue_size s (hand ToScheduler s)"
| going_down: "sv_stage s = 0 \<Longrightarrow> service_run queue_size s (s\<lparr>sv_ready := False, sv_stage := 1\<rparr>)"
| consumers_joined: "sv_stage s = 1 \<Longrightarrow> service_run queue_size s (s\<lparr>sv_consuming := False, sv_stage := 2\<rparr>)"
| consumers_late: "sv_stage s = 1 \<Longrightarrow> service_run queue_size s (s\<lparr>sv_timed_out := True, sv_stage := 2\<rparr>)"
| pool_stop: "sv_stage s = 2
    \<Longrightarrow> service_run queue_size s (s\<lparr>sv_pool := (sv_pool s)\<lparr>wp_stop := True\<rparr>, sv_stage := 3\<rparr>)"
| pool_joined: "sv_stage s = 3 \<Longrightarrow> all_exited (sv_pool s)
    \<Longrightarrow> service_run queue_size s (s\<lparr>sv_stage := 4\<rparr>)"
| pool_late: "sv_stage s = 3 \<Longrightarrow> service_run queue_size s (s\<lparr>sv_timed_out := True, sv_stage := 4\<rparr>)"
| timer_joined: "sv_stage s = 4 \<Longrightarrow> service_run queue_size s (s\<lparr>sv_timer := False, sv_stage := 5\<rparr>)"
| timer_late: "sv_stage s = 4 \<Longrightarrow> service_run queue_size s (s\<lparr>sv_timed_out := True, sv_stage := 5\<rparr>)"
| scheduler_stop: "sv_stage s = 5 \<Longrightarrow> service_run queue_size s (s\<lparr>sv_scheduler := False, sv_stage := 6\<rparr>)"
| sidecar_stop: "sv_stage s = 6 \<Longrightarrow> service_run queue_size s (s\<lparr>sv_sidecar := False, sv_stage := 7\<rparr>)"
| publisher_stop: "sv_stage s = 7 \<Longrightarrow> service_run queue_size s (s\<lparr>sv_publisher := False, sv_stage := 8\<rparr>)"

definition shutdown_inv :: "'b service \<Rightarrow> bool" where
  "shutdown_inv s \<longleftrightarrow> sv_timed_out s \<or>
     (sv_lost s = [] \<and> (sv_ready s \<longrightarrow> sv_stage s = 0)
      \<and> (2 \<le> sv_stage s \<longrightarrow> \<not> sv_consuming s)
      \<and> (4 \<le> sv_stage s \<longrightarrow> all_exited (sv_pool s))
      \<and> (5 \<le> sv_stage s \<longrightarrow> \<not> sv_timer s)
      \<and> (sv_stage s < 6 \<longrightarrow> sv_scheduler s) \<and> (sv_stage s < 7 \<longrightarrow> sv_sidecar s)
      \<and> (sv_stage s < 8 \<longrightarrow> sv_publisher s))"

lemma exited_not_busy: "all_exited p \<Longrightarrow> \<not> busy p"
  by (auto simp: all_exited_def busy_def list_all_iff list_ex_iff)

lemma exited_stays:
  assumes "pool_step queue_size p p'" and "all_exited p"
  shows "all_exited p'"
proof -
  have "wp_phases p ! i = Exited" if "i < length (wp_phases p)" for i
    using assms(2) that by (simp add: all_exited_def list_all_iff)
  with assms show ?thesis
    by (auto simp: all_exited_def elim!: pool_stepE)
qed

lemma hand_same [simp]:
  "sv_pool (hand h s) = sv_pool s" "sv_ready (hand h s) = sv_ready s"
  "sv_consuming (hand h s) = sv_consuming s" "sv_timer (hand h s) = sv_timer s"
  "sv_scheduler (hand h s) = sv_scheduler s" "sv_sidecar (hand h s) = sv_sidecar s"
  "sv_publisher (hand h s) = sv_publisher s" "sv_stage (hand h s) = sv_stage s"
  "sv_timed_out (hand h s) = sv_timed_out s"
  by (simp_all add: hand_def)

lemma hand_inv: "shutdown_inv s \<Longrightarrow> listening s h \<or> sv_timed_out s \<Longrightarrow> shutdown_inv (hand h s)"
  by (auto simp: shutdown_inv_def hand_def)

lemma shutdown_inv_step:
  assumes "service_run queue_size s s'" and "shutdown_inv s"
  shows "shutdown_inv s'"
  using assms
proof (induction rule: service_run.induct)
  case (malformed s)
  then have "listening s ToPublisher \<or> sv_timed_out s"
    by (auto simp: shutdown_inv_def listening_def not_le)
  with malformed show ?case by (simp add: hand_inv)
next
  case (work s p')
  then show ?case using exited_stays [of queue_size "sv_pool s" p'] by (auto simp: shutdown_inv_def)
next
  case (task_hands s h)
  then have "sv_stage s < 4 \<or> sv_timed_out s"
    using exited_not_busy [of "sv_pool s"] by (auto simp: shutdown_inv_def not_le)
  then have "listening s h \<or> sv_timed_out s"
    using task_hands.prems by (cases h) (auto simp: shutdown_inv_def listening_def)
  with task_hands show ?case by (simp add: hand_inv)
next
  case (timer_fires s)
  then have "sv_stage s < 5 \<or> sv_timed_out s" by (auto simp: shutdown_inv_def not_le)
  then have "listening s ToScheduler \<or> sv_timed_out s"
    using timer_fires.prems by (auto simp: shutdown_inv_def listening_def)
  with timer_fires show ?case by (simp add: hand_inv)
qed (auto simp: shutdown_inv_def all_exited_def)

lemma service_run_inv: "(service_run queue_size)^** s s' \<Longrightarrow> shutdown_inv s \<Longrightarrow> shutdown_inv s'"
  by (induction rule: rtranclp_induct) (auto intro: shutdown_inv_step)

lemma shutdown_inv_up: "shutdown_inv (service_up workers)"
  by (simp add: shutdown_inv_def service_up_def)


text \<open>The messages are acknowledged when they are queued, so what the drain leaves in the queue is gone: with
  one worker at its check, a message delivered just before the stop is never taken.\<close>

definition demo_left :: "'b processing_item \<Rightarrow> 'b service" where
  "demo_left it = (service_up 1)\<lparr>sv_pool := (pool_init 1)\<lparr>wp_queue := [it], wp_stop := True, wp_phases := [Exited]\<rparr>,
     sv_ready := False, sv_consuming := False, sv_stage := 4\<rparr>"

lemma demo_left_reached: "(service_run 10)^** (service_up 1) (demo_left it)"
proof -
  let ?u = "service_up 1 :: 'a service"
  let ?p = "(pool_init 1 :: 'a worker_pool)\<lparr>wp_queue := [it]\<rparr>"
  have p: "sv_pool ?u = pool_init 1" by (simp add: service_up_def)
  let ?a = "?u\<lparr>sv_pool := ?p\<rparr>"
  let ?b = "?a\<lparr>sv_ready := False, sv_stage := 1\<rparr>"
  let ?c = "?b\<lparr>sv_consuming := False, sv_stage := 2\<rparr>"
  let ?d = "?c\<lparr>sv_pool := ?p\<lparr>wp_stop := True\<rparr>, sv_stage := 3\<rparr>"
  let ?e = "?d\<lparr>sv_pool := ?p\<lparr>wp_stop := True, wp_phases := [Exited]\<rparr>\<rparr>"
  have a: "service_run 10 ?u ?a"
    using service_run.deliver [of ?u 10 it] by (simp add: service_up_def may_put_def pool_init_def)
  have b: "service_run 10 ?a ?b" by (rule service_run.going_down) (simp add: service_up_def)
  have c: "service_run 10 ?b ?c" using service_run.consumers_joined [of ?b 10] by simp
  have d: "service_run 10 ?c ?d" using service_run.pool_stop [of ?c 10] by simp
  have e': "pool_step 10 (?p\<lparr>wp_stop := True\<rparr>) (?p\<lparr>wp_stop := True, wp_phases := [Exited]\<rparr>)"
    using pool_step.check_stop [of 0 "?p\<lparr>wp_stop := True\<rparr>" 10]
    by (simp add: pool_init_def set_phase_def)
  have e: "service_run 10 ?d ?e" using service_run.work [of 10 ?d, OF _ _ _] e' by simp
  have f: "service_run 10 ?e (demo_left it)"
    using service_run.pool_joined [of ?e 10] by (simp add: demo_left_def all_exited_def service_up_def)
  show ?thesis
    using a b c d e f by (meson converse_rtranclp_into_rtranclp rtranclp.rtrancl_refl)
qed


lemma acked_message_dropped:
  "(service_run 10)^** (service_up 1) (demo_left it) \<and> \<not> sv_timed_out (demo_left it)
   \<and> all_exited (sv_pool (demo_left it)) \<and> it \<in> set (wp_queue (sv_pool (demo_left it)))"
  using demo_left_reached [of it] by (simp add: demo_left_def service_up_def all_exited_def)

end
