(* ===== verification/Inspector.thy ===== *)
theory Inspector
  imports LlmRoles LlmEval LlmEngine Reporting Retraining
begin

text \<open>
  The journey view of the inspector (\<open>inspector/backend/payloads.py\<close>, \<open>features_meta.py\<close>), a separate
  read-only program on the tables of \<open>Store\<close>: how a stored suggestion is explained, when the explanation
  of an older decision is carried over to a newer one, and when an old guess is shown next to an
  abstention. Blocks that only rename columns are left out, as are the templates, the links into the
  user interface and the live run of the hybrid query.

  The columns \<open>method\<close>, \<open>abstain_reason\<close> and \<open>source\<close> are read only if the table has them; which it has
  is the argument \<open>cols\<close>.
\<close>

section \<open>Labels\<close>

definition LABEL_GROUPS :: "string list" where
  "LABEL_GROUPS = [''pb'', ''ab'', ''si'', ''nd'', ''ti'']"

definition TAU_SUGGEST_VIEW :: real where "TAU_SUGGEST_VIEW = 45 / 100"
definition TAU_AUTO_VIEW :: real where "TAU_AUTO_VIEW = 75 / 100"

definition grp :: "string option \<Rightarrow> string" where
  "grp label =
     (case label of
        None \<Rightarrow> ''none''
      | Some l \<Rightarrow>
          if l = [] then ''none''
          else (case List.find (\<lambda>g. starts_with g l) LABEL_GROUPS of Some g \<Rightarrow> g | None \<Rightarrow> ''other''))"

definition band_of :: "real \<Rightarrow> string" where
  "band_of c = (if c \<ge> TAU_AUTO_VIEW then ''auto'' else if c \<ge> TAU_SUGGEST_VIEW then ''suggest'' else ''abstain'')"

section \<open>The snapshot of the features\<close>

text \<open>The table of the described features; the prose of its entries is left out.\<close>

datatype feature_meta =
  FeatureMeta (fx_index: int) (fx_key: string) (fx_range: string) (fx_default: real) (fx_group: string)

definition FEATURE_DEFS :: "feature_meta list" where
  "FEATURE_DEFS =
     [FeatureMeta 0 ''top1_cosine'' ''[0,1]'' 0 ''retrieval'',
      FeatureMeta 1 ''top1_rrf'' ''[0,~0.05]'' 0 ''retrieval'',
      FeatureMeta 2 ''top1_jaccard'' ''[0,1]'' 0 ''retrieval'',
      FeatureMeta 3 ''margin_cos'' ''[0,1]'' 0 ''retrieval'',
      FeatureMeta 4 ''mean_top5_cosine'' ''[0,1]'' 0 ''retrieval'',
      FeatureMeta 5 ''n_candidates'' ''[0,1]'' 0 ''retrieval'',
      FeatureMeta 6 ''label_hist_entropy'' ''[0,1]'' 1 ''retrieval'',
      FeatureMeta 7 ''top1_label_frac'' ''[0,1]'' 0 ''retrieval'',
      FeatureMeta 8 ''same_test_case_top1'' ''{0,1}'' 0 ''retrieval'',
      FeatureMeta 9 ''same_error_hash_top1'' ''{0,1}'' 0 ''retrieval'',
      FeatureMeta 10 ''same_exception_fp_top1'' ''{0,1}'' 0 ''retrieval'',
      FeatureMeta 11 ''recency_top1'' ''(0,1]'' 0 ''retrieval'',
      FeatureMeta 12 ''src_weight_top1'' ''[0.3,1]'' 0 ''retrieval'',
      FeatureMeta 13 ''hist_pb'' ''[0,1]'' 0 ''history'',
      FeatureMeta 14 ''hist_ab'' ''[0,1]'' 0 ''history'',
      FeatureMeta 15 ''hist_si'' ''[0,1]'' 0 ''history'',
      FeatureMeta 16 ''hist_nd'' ''[0,1]'' 0 ''history'',
      FeatureMeta 17 ''kb_top1_score'' ''[0,1]'' 0 ''kb'',
      FeatureMeta 18 ''kb_purity'' ''[0,1]'' 0 ''kb'',
      FeatureMeta 19 ''kb_support'' ''[0,1]'' 0 ''kb'',
      FeatureMeta 20 ''kb_same_fp'' ''{0,1}'' 0 ''kb'',
      FeatureMeta 21 ''kb_prior_conf'' ''[0,1]'' 0 ''kb'',
      FeatureMeta 22 ''seed_pb'' ''{0,1}'' 0 ''kb'',
      FeatureMeta 23 ''seed_ab'' ''{0,1}'' 0 ''kb'',
      FeatureMeta 24 ''seed_si'' ''{0,1}'' 0 ''kb'',
      FeatureMeta 25 ''seed_nd'' ''{0,1}'' 0 ''kb'',
      FeatureMeta 26 ''flakiness_score'' ''[0,1]'' (1 / 2) ''history'',
      FeatureMeta 27 ''test_fail_rate_30d'' ''[0,1]'' (1 / 2) ''history'',
      FeatureMeta 28 ''flips_30d'' ''[0,1]'' 0 ''history'',
      FeatureMeta 29 ''co_failure_group_size'' ''[0,1]'' 0 ''grouping'',
      FeatureMeta 30 ''group_dominance'' ''(0,1]'' 0 ''grouping'',
      FeatureMeta 31 ''launch_fail_fraction'' ''[0,1]'' 0 ''grouping'',
      FeatureMeta 32 ''si_prior'' ''[0,0.9]'' 0 ''grouping'',
      FeatureMeta 33 ''test_age_days'' ''[0,1]'' 0 ''history'',
      FeatureMeta 34 ''item_log_count'' ''[0,1]'' 0 ''signal'',
      FeatureMeta 35 ''has_stacktrace'' ''{0,1}'' 0 ''signal'',
      FeatureMeta 36 ''is_assertion'' ''{0,1}'' 0 ''signal'',
      FeatureMeta 37 ''is_merged_small_logs'' ''{0,1}'' 0 ''signal'',
      FeatureMeta 38 ''exception_count'' ''[0,1]'' 0 ''signal'',
      FeatureMeta 39 ''llm_failing_layer'' ''{0,1,2,3,4}'' 0 ''llm'',
      FeatureMeta 40 ''llm_error_class'' ''{0..13}'' 0 ''llm'',
      FeatureMeta 41 ''status_codes_present'' ''{0,1}'' 0 ''discriminant'',
      FeatureMeta 42 ''status_codes_match_top1'' ''{0,1}'' 0 ''discriminant'',
      FeatureMeta 43 ''identifier_jaccard_top1'' ''[0,1]'' 0 ''discriminant'',
      FeatureMeta 44 ''hash_gate_blocked'' ''{0,1}'' 0 ''discriminant'',
      FeatureMeta 45 ''identifiers_present'' ''{0,1}'' 0 ''discriminant'',
      FeatureMeta 46 ''ident_jaccard_source'' ''{0,0.5,1}'' 0 ''discriminant'']"

definition FEATURE_INDEX :: "string \<Rightarrow> int option" where
  "FEATURE_INDEX key = map_of (map (\<lambda>f. (fx_key f, fx_index f)) FEATURE_DEFS) key"

definition describe :: "string \<Rightarrow> feature_meta" where
  "describe key =
     (case List.find (\<lambda>f. fx_key f = key) FEATURE_DEFS of
        Some f \<Rightarrow> f
      | None \<Rightarrow> FeatureMeta (- 1) key ''?'' 0 ''other'')"

text \<open>The keys of a \<open>jsonb\<close> object come back shorter ones first, then in byte order.\<close>

definition snapshot_items :: "feats \<Rightarrow> (string \<times> real) list" where
  "snapshot_items feats =
     concat (map (\<lambda>k. case feats k of None \<Rightarrow> [] | Some v \<Rightarrow> [(k, v)])
       (sort_key (\<lambda>k. (length k, k)) feature_names))"

definition feature_rows ::
  "(string \<times> real) list \<Rightarrow> (feature_meta \<times> real) list \<times> (string \<times> real) list" where
  "feature_rows items =
     (order_desc (\<lambda>r. \<bar>snd r\<bar>)
        (map (\<lambda>(k, v). (describe k, v)) (filter (\<lambda>(k, v). FEATURE_INDEX k \<noteq> None) items)),
      filter (\<lambda>(k, v). FEATURE_INDEX k = None) items)"

section \<open>The same decision\<close>

definition IGNORED_FEATURES :: "string set" where
  "IGNORED_FEATURES =
     {''judge'', ''test_age_days'', ''recency_top1'', ''hist_pb'', ''hist_ab'', ''hist_si'', ''hist_nd''}"

definition opt_col :: "string set \<Rightarrow> string \<Rightarrow> 'a option \<Rightarrow> 'a option" where
  "opt_col cols c v = (if c \<in> cols then v else None)"

record decision_key =
  dk_label :: string
  dk_abstain_reason :: "string option"
  dk_matched_item :: "int option"
  dk_model_ver :: string
  dk_confidence :: real
  dk_features :: feats
  dk_coldstart :: "string option"

definition decision_key_of :: "string set \<Rightarrow> suggestion_row \<Rightarrow> decision_key" where
  "decision_key_of cols r =
     \<lparr>dk_label = su_predicted_label r,
      dk_abstain_reason = opt_col cols ''abstain_reason'' (su_abstain_reason r),
      dk_matched_item = su_matched_item_id r, dk_model_ver = su_model_ver r,
      dk_confidence = su_confidence r,
      dk_features = (\<lambda>k. if k \<in> IGNORED_FEATURES then None else su_features r k),
      dk_coldstart = su_coldstart r\<rparr>"

definition text_of :: "string option \<Rightarrow> string" where
  "text_of t = strip (case t of None \<Rightarrow> [] | Some s \<Rightarrow> s)"

record carried =
  ca_explanation :: string
  ca_llm_used :: bool
  ca_from_id :: int
  ca_from :: seconds

definition carried_explanation ::
  "string set \<Rightarrow> suggestion_row option \<Rightarrow> suggestion_row option \<Rightarrow> carried option" where
  "carried_explanation cols latest explained =
     (case (latest, explained) of
        (Some l, Some e) \<Rightarrow>
          if text_of (su_explanation e) = [] then None
          else if decision_key_of cols l \<noteq> decision_key_of cols e then None
          else Some \<lparr>ca_explanation = text_of (su_explanation e), ca_llm_used = su_llm_used e,
                     ca_from_id = su_suggestion_id e, ca_from = su_created_at e\<rparr>
      | _ \<Rightarrow> None)"

definition is_below_band_abstain :: "suggestion_row option \<Rightarrow> bool" where
  "is_below_band_abstain row =
     (case row of
        None \<Rightarrow> False
      | Some r \<Rightarrow> \<not> starts_with ''rubric+'' (su_model_ver r) \<and> su_confidence r < TAU_SUGGEST_VIEW)"

section \<open>How the item was matched\<close>

datatype stage = NoStage | StageA | StageAB | StageAbstain | StageC

definition stage_of :: "suggestion_row \<Rightarrow> stage" where
  "stage_of r =
     (let abstained = (su_predicted_label r = ''ti'' \<or> su_confidence r < 45 / 100) in
      if su_matched_item_id r \<noteq> None then StageA
      else if su_matched_mode_id r \<noteq> None then StageAB
      else if abstained then StageAbstain
      else StageC)"

record mode_block =
  mb_mode_id :: int
  mb_status :: string
  mb_label :: "string option"
  mb_label_group :: string
  mb_title :: "string option"
  mb_purity :: real
  mb_support :: int
  mb_seed_key :: "string option"

record matching_block =
  mt_suggestion :: "int option"
  mt_stage :: stage
  mt_matched_item :: "int option"
  mt_matched_mode_id :: "int option"
  mt_matched_mode :: "mode_block option"

definition mode_block_of :: "mode_row \<Rightarrow> mode_block" where
  "mode_block_of m =
     \<lparr>mb_mode_id = fm_mode_id m, mb_status = fm_status m, mb_label = fm_label m,
      mb_label_group = grp (fm_label m), mb_title = fm_title m, mb_purity = fm_purity m,
      mb_support = fm_support m, mb_seed_key = fm_seed_key m\<rparr>"

definition fallback_method :: "suggestion_row \<Rightarrow> string" where
  "fallback_method r =
     (if stage_of r = StageA then ''hash''
      else if stage_of r = StageAB then ''kb''
      else if starts_with ''rubric+'' (su_model_ver r) then ''coldstart''
      else if takeWhile (\<lambda>c. c \<noteq> CHR '';'') (su_model_ver r) = ''rule_cold'' then ''rule_cold''
      else ''gbm'')"

definition derived_method :: "string set \<Rightarrow> suggestion_row \<Rightarrow> string" where
  "derived_method cols r =
     (case opt_col cols ''method'' (su_method r) of
        None \<Rightarrow> fallback_method r
      | Some m \<Rightarrow> if m = [] then fallback_method r else m)"

record rubric_hypothesis =
  rh_suggestion_id :: int
  rh_predicted_label :: string
  rh_predicted_group :: string
  rh_confidence :: real
  rh_model_ver :: string
  rh_explanation :: "string option"
  rh_coldstart :: "string option"
  rh_role_enabled :: bool
  rh_role_reason :: "string option"

record classical_block =
  cb_predicted_label :: string
  cb_predicted_group :: string
  cb_confidence :: real
  cb_band :: string
  cb_model_ver :: string
  cb_features :: "(feature_meta \<times> real) list"
  cb_extra :: "(string \<times> real) list"
  cb_explanation :: "string option"
  cb_llm_used :: bool

text \<open>In \<open>de_classical\<close> the outer option says whether the key is there.\<close>

record decision_block =
  de_predicted_label :: string
  de_predicted_group :: string
  de_confidence :: real
  de_band :: string
  de_model_ver :: string
  de_coldstart :: "string option"
  de_judge :: "int option option"
  de_method :: string
  de_abstain_reason :: "string option"
  de_source :: "string option"
  de_llm_used :: bool
  de_explanation :: "string option"
  de_outcome :: string
  de_features :: "(feature_meta \<times> real) list"
  de_extra :: "(string \<times> real) list"
  de_feature_total :: nat
  de_carried_from :: "(int \<times> seconds) option"
  de_rubric :: "rubric_hypothesis option"
  de_provisional :: bool
  de_classical :: "classical_block option option"

definition matching_decision ::
  "string set \<Rightarrow> db \<Rightarrow> int \<Rightarrow> suggestion_row option \<Rightarrow> matching_block \<times> decision_block option" where
  "matching_decision cols db p sug =
     (case sug of
        None \<Rightarrow> (\<lparr>mt_suggestion = None, mt_stage = NoStage, mt_matched_item = None,
                 mt_matched_mode_id = None, mt_matched_mode = None\<rparr>, None)
      | Some r \<Rightarrow>
          (\<lparr>mt_suggestion = Some (su_suggestion_id r), mt_stage = stage_of r,
            mt_matched_item = su_matched_item_id r, mt_matched_mode_id = su_matched_mode_id r,
            mt_matched_mode = Option.bind (su_matched_mode_id r)
              (\<lambda>m. map_option mode_block_of (lookup_row mode_key (p, m) (db_modes db)))\<rparr>,
           Some \<lparr>de_predicted_label = su_predicted_label r,
                 de_predicted_group = grp (Some (su_predicted_label r)),
                 de_confidence = su_confidence r, de_band = band_of (su_confidence r),
                 de_model_ver = su_model_ver r, de_coldstart = su_coldstart r,
                 de_judge = su_judge r, de_method = derived_method cols r,
                 de_abstain_reason = opt_col cols ''abstain_reason'' (su_abstain_reason r),
                 de_source = opt_col cols ''source'' (su_source r),
                 de_llm_used = su_llm_used r, de_explanation = su_explanation r,
                 de_outcome = su_outcome r,
                 de_features = fst (feature_rows (snapshot_items (su_features r))),
                 de_extra = snd (feature_rows (snapshot_items (su_features r))),
                 de_feature_total = length FEATURE_DEFS,
                 de_carried_from = None, de_rubric = None, de_provisional = False,
                 de_classical = None\<rparr>))"

section \<open>The decision of the journey\<close>

definition explained_row :: "db \<Rightarrow> int \<Rightarrow> int \<Rightarrow> suggestion_row option" where
  "explained_row db p i =
     newest (\<lambda>r. suggestion_of r = (p, i) \<and> (\<exists>e. su_explanation r = Some e \<and> e \<noteq> [])) db"

definition carry_over ::
  "string set \<Rightarrow> db \<Rightarrow> int \<Rightarrow> int \<Rightarrow> suggestion_row \<Rightarrow> decision_block \<Rightarrow> decision_block" where
  "carry_over cols db p i sug d =
     (if text_of (su_explanation sug) \<noteq> [] then d
      else (case carried_explanation cols (Some sug) (explained_row db p i) of
              None \<Rightarrow> d
            | Some c \<Rightarrow> d\<lparr>de_explanation := Some (ca_explanation c), de_llm_used := ca_llm_used c,
                         de_carried_from := Some (ca_from_id c, ca_from c)\<rparr>))"

definition resurface ::
  "role_states \<Rightarrow> db \<Rightarrow> int \<Rightarrow> int \<Rightarrow> suggestion_row \<Rightarrow> decision_block \<Rightarrow> decision_block" where
  "resurface roles db p i sug d =
     (if \<not> is_below_band_abstain (Some sug) then d
      else (case newest (\<lambda>r. suggestion_of r = (p, i) \<and> Store.is_rubric_ver (su_model_ver r)) db of
              None \<Rightarrow> d
            | Some r \<Rightarrow>
                d\<lparr>de_rubric := Some
                    \<lparr>rh_suggestion_id = su_suggestion_id r, rh_predicted_label = su_predicted_label r,
                     rh_predicted_group = grp (Some (su_predicted_label r)),
                     rh_confidence = su_confidence r, rh_model_ver = su_model_ver r,
                     rh_explanation = su_explanation r, rh_coldstart = su_coldstart r,
                     rh_role_enabled = role_is_enabled roles p ''coldstart'',
                     rh_role_reason = Option.bind (roles (p, ''coldstart'')) rs_reason\<rparr>\<rparr>))"

definition classical_block_of :: "suggestion_row \<Rightarrow> classical_block" where
  "classical_block_of r =
     \<lparr>cb_predicted_label = su_predicted_label r,
      cb_predicted_group = grp (Some (su_predicted_label r)),
      cb_confidence = su_confidence r, cb_band = band_of (su_confidence r),
      cb_model_ver = su_model_ver r,
      cb_features = fst (feature_rows (snapshot_items (su_features r))),
      cb_extra = snd (feature_rows (snapshot_items (su_features r))),
      cb_explanation = su_explanation r, cb_llm_used = su_llm_used r\<rparr>"

definition both_stories :: "db \<Rightarrow> int \<Rightarrow> int \<Rightarrow> suggestion_row \<Rightarrow> decision_block \<Rightarrow> decision_block" where
  "both_stories db p i sug d =
     (if \<not> starts_with ''rubric+'' (su_model_ver sug) then d
      else d\<lparr>de_provisional := True,
             de_classical := Some (map_option classical_block_of
               (newest (\<lambda>r. suggestion_of r = (p, i) \<and> \<not> Store.is_rubric_ver (su_model_ver r)) db))\<rparr>)"

definition journey_decision ::
  "string set \<Rightarrow> role_states \<Rightarrow> db \<Rightarrow> int \<Rightarrow> int \<Rightarrow> matching_block \<times> decision_block option" where
  "journey_decision cols roles db p i =
     (let sug = newest (\<lambda>r. suggestion_of r = (p, i)) db;
          (m, d) = matching_decision cols db p sug
      in case (sug, d) of
           (Some s, Some d0) \<Rightarrow>
             (m, Some (both_stories db p i s (resurface roles db p i s (carry_over cols db p i s d0))))
         | _ \<Rightarrow> (m, d))"

section \<open>The described features\<close>

lemma feature_index_Some: "FEATURE_INDEX k \<noteq> None \<longleftrightarrow> k \<in> fx_key ` set FEATURE_DEFS"
proof -
  have "FEATURE_INDEX k = None \<longleftrightarrow> k \<notin> fst ` set (map (\<lambda>f. (fx_key f, fx_index f)) FEATURE_DEFS)"
    unfolding FEATURE_INDEX_def by (rule map_of_eq_None_iff)
  then show ?thesis by (auto simp: image_image)
qed

lemma describe_known:
  assumes "FEATURE_INDEX k \<noteq> None"
  shows "describe k \<in> set FEATURE_DEFS" and "fx_key (describe k) = k"
proof -
  obtain f where f: "List.find (\<lambda>f. fx_key f = k) FEATURE_DEFS = Some f"
    using assms unfolding feature_index_Some
    by (cases "List.find (\<lambda>f. fx_key f = k) FEATURE_DEFS") (auto simp: find_None_iff)
  then have "f \<in> set FEATURE_DEFS" "fx_key f = k" by (auto simp: find_Some_iff)
  then show "describe k \<in> set FEATURE_DEFS" and "fx_key (describe k) = k"
    by (simp_all add: describe_def f)
qed

text \<open>
  The feature rows of a decision are its snapshot: every stored feature appears exactly once, among
  the described rows if the table knows it and else among the extras, with its stored value; the
  described rows are ordered by magnitude, and there are never more of them than the table has entries.
\<close>

theorem feature_rows_split:
  assumes "distinct (map fst items)"
  shows "mset (map (\<lambda>(f, v). (fx_key f, v)) (fst (feature_rows items))) + mset (snd (feature_rows items))
       = mset items
    \<and> sorted_wrt (\<lambda>r s. \<bar>snd s\<bar> \<le> \<bar>snd r\<bar>) (fst (feature_rows items))
    \<and> length (fst (feature_rows items)) \<le> length FEATURE_DEFS
    \<and> set (map fst (fst (feature_rows items))) \<subseteq> set FEATURE_DEFS"
proof -
  let ?known = "filter (\<lambda>(k, v). FEATURE_INDEX k \<noteq> None) items"
  let ?name = "\<lambda>(f, v). (fx_key f, v)"
  have again: "map (?name \<circ> (\<lambda>(k, v). (describe k, v))) ?known = ?known"
    by (rule map_idI) (auto simp: describe_known(2))
  have "mset (map ?name (fst (feature_rows items))) = mset (map (?name \<circ> (\<lambda>(k, v). (describe k, v))) ?known)"
    by (simp add: feature_rows_def multiset.map_comp comp_def)
  also have "\<dots> = mset ?known" by (simp only: again)
  finally have m: "mset (map ?name (fst (feature_rows items))) + mset (snd (feature_rows items)) = mset items"
    by (simp add: feature_rows_def case_prod_unfold flip: multiset_partition)
  have "length ?known = card (set (map fst ?known))"
    using distinct_card [OF distinct_map_filter [OF assms]] by simp
  also have "\<dots> \<le> card (fx_key ` set FEATURE_DEFS)"
    using feature_index_Some by (intro card_mono) auto
  also have "\<dots> \<le> length FEATURE_DEFS"
    using card_image_le [OF finite_set, of fx_key FEATURE_DEFS] card_length [of FEATURE_DEFS] by linarith
  finally have "length ?known \<le> length FEATURE_DEFS" .
  moreover have "set (map fst (fst (feature_rows items))) \<subseteq> set FEATURE_DEFS"
    using describe_known(1) by (auto simp: feature_rows_def)
  moreover have "sorted_wrt (\<lambda>r s. \<bar>snd s\<bar> \<le> \<bar>snd r\<bar>) (fst (feature_rows items))"
    unfolding feature_rows_def fst_conv by (rule sorted_order_desc)
  ultimately show ?thesis using m by (simp add: feature_rows_def)
qed

theorem feature_rows_split_witness:
  "snd (feature_rows [(''top1_rrf'', 1), (''llm_error_class_other'', 1)]) = [(''llm_error_class_other'', 1)]
   \<and> length (fst (feature_rows [(''top1_rrf'', 1), (''llm_error_class_other'', 1)])) \<le> length FEATURE_DEFS"
  using feature_rows_split [of "[(''top1_rrf'', 1), (''llm_error_class_other'', 1)]"]
  by (simp add: feature_rows_def FEATURE_INDEX_def FEATURE_DEFS_def)

text \<open>The table is behind the registry: it lists two columns the registry no longer has, and none of the
  one-hot columns that replaced them, which therefore show up as extras.\<close>

lemma defs_not_in_registry:
  "filter (\<lambda>k. k \<notin> set feature_names) (map fx_key FEATURE_DEFS) = [''llm_failing_layer'', ''llm_error_class'']"
  by code_simp

lemma registry_not_in_defs:
  "filter (\<lambda>k. FEATURE_INDEX k = None) feature_names =
     map (onehot_col ''llm_failing_layer'') FAILING_LAYER_LEVELS
     @ map (onehot_col ''llm_error_class'') ERROR_CLASS_LEVELS"
  by code_simp

lemma defs_defaults_agree:
  "map (\<lambda>f. (fx_key f, fx_default f))
     (filter (\<lambda>f. fx_key f \<notin> {''llm_failing_layer'', ''llm_error_class''}) FEATURE_DEFS)
   = map (\<lambda>f. (fd_name f, fd_default f)) (take 45 FEATURES)"
  by (simp add: FEATURE_DEFS_def FEATURES_def)

section \<open>Explanations carried over\<close>

lemma both_stories_keeps [simp]:
  "de_carried_from (both_stories db p i s d) = de_carried_from d"
  "de_explanation (both_stories db p i s d) = de_explanation d"
  "de_rubric (both_stories db p i s d) = de_rubric d"
  by (simp_all add: both_stories_def)

lemma resurface_keeps [simp]:
  "de_carried_from (resurface roles db p i s d) = de_carried_from d"
  "de_explanation (resurface roles db p i s d) = de_explanation d"
  by (simp_all add: resurface_def split: option.splits)

lemma carry_over_keeps [simp]: "de_rubric (carry_over cols db p i s d) = de_rubric d"
  by (simp add: carry_over_def split: option.splits)

lemma newest_row:
  assumes "newest P db = Some r"
  shows "r \<in> set (db_suggestions db)" and "P r"
    and "s \<in> set (db_suggestions db) \<Longrightarrow> P s \<Longrightarrow>
      (su_created_at s, su_suggestion_id s) \<le> (su_created_at r, su_suggestion_id r)"
  using py_max_in [OF assms [unfolded newest_def]] py_max_ge [OF assms [unfolded newest_def], of s]
  by auto

lemma journey_decision_Some:
  assumes "snd (journey_decision cols roles db p i) = Some d"
  obtains s d0 where "newest (\<lambda>r. suggestion_of r = (p, i)) db = Some s"
    and "snd (matching_decision cols db p (Some s)) = Some d0"
    and "d = both_stories db p i s (resurface roles db p i s (carry_over cols db p i s d0))"
proof (cases "newest (\<lambda>r. suggestion_of r = (p, i)) db")
  case None
  with assms show ?thesis by (simp add: journey_decision_def matching_decision_def)
next
  case (Some s)
  with assms show ?thesis by (intro that) (auto simp: journey_decision_def matching_decision_def)
qed

text \<open>
  C31. An explanation is only carried over between equal decisions. When the journey shows the text of an
  older row, the newest row of the item has none of its own, the older row belongs to the same item and
  holds that text, both rows are classical or both rubric, and the two decisions agree in label, reason
  of abstention, matched item, model, exact confidence and every feature outside the seven the clock or
  the judge moves.
\<close>

theorem carried_explanation_sound:
  assumes "snd (journey_decision cols roles db p i) = Some d" and "de_carried_from d = Some (sid, t)"
  shows "\<exists>s e tx. newest (\<lambda>r. suggestion_of r = (p, i)) db = Some s \<and> text_of (su_explanation s) = []
    \<and> e \<in> set (db_suggestions db) \<and> suggestion_of e = (p, i)
    \<and> su_suggestion_id e = sid \<and> su_created_at e = t
    \<and> su_explanation e = Some tx \<and> de_explanation d = Some (strip tx) \<and> strip tx \<noteq> []
    \<and> su_predicted_label e = su_predicted_label s \<and> su_confidence e = su_confidence s
    \<and> su_matched_item_id e = su_matched_item_id s \<and> su_model_ver e = su_model_ver s
    \<and> (''abstain_reason'' \<in> cols \<longrightarrow> su_abstain_reason e = su_abstain_reason s)
    \<and> (Store.is_rubric_ver (su_model_ver e) \<longleftrightarrow> Store.is_rubric_ver (su_model_ver s))
    \<and> (\<forall>k. k \<notin> IGNORED_FEATURES \<longrightarrow> su_features e k = su_features s k)"
proof -
  obtain s d0 where s: "newest (\<lambda>r. suggestion_of r = (p, i)) db = Some s"
      "snd (matching_decision cols db p (Some s)) = Some d0"
      "d = both_stories db p i s (resurface roles db p i s (carry_over cols db p i s d0))"
    by (rule journey_decision_Some [OF assms(1)])
  have "de_carried_from d0 = None" using s(2) by (auto simp: matching_decision_def)
  with assms(2) s(3) obtain c where c: "text_of (su_explanation s) = []"
      "carried_explanation cols (Some s) (explained_row db p i) = Some c"
      "ca_from_id c = sid" "ca_from c = t" "de_explanation d = Some (ca_explanation c)"
    by (auto simp: carry_over_def split: if_splits option.splits)
  then obtain e where e: "explained_row db p i = Some e" "text_of (su_explanation e) \<noteq> []"
      "decision_key_of cols s = decision_key_of cols e" "su_suggestion_id e = sid" "su_created_at e = t"
      "ca_explanation c = text_of (su_explanation e)"
    by (auto simp: carried_explanation_def split: option.splits if_splits)
  note in_db = newest_row(1,2) [OF e(1) [unfolded explained_row_def]]
  obtain tx where tx: "su_explanation e = Some tx" using in_db(2) by blast
  have feats: "su_features e k = su_features s k" if "k \<notin> IGNORED_FEATURES" for k
    using fun_cong [OF arg_cong [OF e(3), of dk_features], of k] that
    by (simp add: decision_key_of_def)
  have keys: "su_predicted_label e = su_predicted_label s" "su_confidence e = su_confidence s"
      "su_matched_item_id e = su_matched_item_id s" "su_model_ver e = su_model_ver s"
      "''abstain_reason'' \<in> cols \<longrightarrow> su_abstain_reason e = su_abstain_reason s"
    using e(3) by (auto simp: decision_key_of_def opt_col_def)
  have "strip tx = text_of (su_explanation e)" by (simp add: text_of_def tx)
  then show ?thesis using s(1) c(1,5) e(2,4,5,6) in_db tx feats keys
    by (intro exI [of _ s] exI [of _ e] exI [of _ tx]) simp
qed

text \<open>
  An old guess is only shown beside an abstention. The block with the cold-start hypothesis is there
  exactly when the newest row is a classical decision under the suggest line and a rubric row of the same
  item exists; it is then the newest of them, and it never replaces the label or the confidence.
\<close>

theorem rubric_only_beside_abstention:
  assumes "snd (journey_decision cols roles db p i) = Some d"
  shows "(de_rubric d \<noteq> None) =
      (\<not> Store.is_rubric_ver (de_model_ver d) \<and> de_confidence d < TAU_SUGGEST_VIEW
        \<and> newest (\<lambda>r. suggestion_of r = (p, i) \<and> Store.is_rubric_ver (su_model_ver r)) db \<noteq> None)
    \<and> (\<forall>h. de_rubric d = Some h \<longrightarrow> Store.is_rubric_ver (rh_model_ver h) \<and> \<not> de_provisional d
        \<and> rh_role_enabled h = role_is_enabled roles p ''coldstart'')"
proof -
  obtain s d0 where s: "newest (\<lambda>r. suggestion_of r = (p, i)) db = Some s"
      "snd (matching_decision cols db p (Some s)) = Some d0"
      "d = both_stories db p i s (resurface roles db p i s (carry_over cols db p i s d0))"
    by (rule journey_decision_Some [OF assms])
  have d0: "de_rubric d0 = None" "de_model_ver d0 = su_model_ver s" "de_confidence d0 = su_confidence s"
      "\<not> de_provisional d0"
    using s(2) by (auto simp: matching_decision_def)
  let ?c = "carry_over cols db p i s d0"
  have c: "de_rubric ?c = None" "de_model_ver ?c = su_model_ver s" "de_confidence ?c = su_confidence s"
      "\<not> de_provisional ?c"
    using d0 by (simp_all add: carry_over_def split: option.splits)
  show ?thesis
  proof (cases "newest (\<lambda>r. suggestion_of r = (p, i) \<and> Store.is_rubric_ver (su_model_ver r)) db")
    case None
    then show ?thesis using c s(3) by (simp add: both_stories_def resurface_def)
  next
    case (Some r)
    then have "Store.is_rubric_ver (su_model_ver r)" by (blast dest: newest_row(2))
    with Some show ?thesis using c s(3)
      by (simp add: both_stories_def resurface_def is_below_band_abstain_def Store.is_rubric_ver_def)
  qed
qed

text \<open>Two rows of one item: the older one explained, the newer one, decided the same, not yet.\<close>

definition demo_explained :: suggestion_row where
  "demo_explained = (demo_suggestion 7 ''pb001'' (6 / 10) ''pending'' 10)\<lparr>su_explanation := Some ''Same trace.''\<rparr>"

definition demo_reopened :: suggestion_row where
  "demo_reopened = (demo_suggestion 7 ''pb001'' (6 / 10) ''pending'' 20)\<lparr>su_suggestion_id := 2,
     su_features := [''test_age_days'' \<mapsto> 1 / 2]\<rparr>"

definition demo_journey_db :: db where
  "demo_journey_db = empty_db\<lparr>db_suggestions := [demo_explained, demo_reopened]\<rparr>"

lemmas demo_journey_defs = demo_journey_db_def demo_explained_def demo_reopened_def demo_suggestion_def
  newest_def suggestion_of_def empty_db_def py_max_def

theorem carried_explanation_sound_witness:
  "\<exists>d e. snd (journey_decision {''method''} Map.empty demo_journey_db 7 1) = Some d
     \<and> de_carried_from d = Some (1, 10) \<and> e \<in> set (db_suggestions demo_journey_db)
     \<and> su_suggestion_id e = 1"
proof -
  have n: "newest (\<lambda>r. suggestion_of r = (7, 1)) demo_journey_db = Some demo_reopened"
    by (simp add: demo_journey_defs)
  have x: "explained_row demo_journey_db 7 1 = Some demo_explained"
    by (simp add: explained_row_def demo_journey_defs)
  have t: "text_of (su_explanation demo_reopened) = []" "text_of (su_explanation demo_explained) = ''Same trace.''"
    by (simp_all add: text_of_def demo_explained_def demo_reopened_def demo_suggestion_def strip_def
        lstrip_by_def rstrip_by_def is_space_def)
  have k: "decision_key_of {''method''} demo_reopened = decision_key_of {''method''} demo_explained"
    by (simp add: decision_key_of_def demo_explained_def demo_reopened_def demo_suggestion_def fun_eq_iff
        IGNORED_FEATURES_def opt_col_def)
  have "\<exists>d. snd (journey_decision {''method''} Map.empty demo_journey_db 7 1) = Some d
      \<and> de_carried_from d = Some (1, 10)"
    by (simp add: journey_decision_def n matching_decision_def carry_over_def x t k carried_explanation_def)
      (simp add: demo_explained_def demo_suggestion_def)
  then obtain d where d: "snd (journey_decision {''method''} Map.empty demo_journey_db 7 1) = Some d"
      "de_carried_from d = Some (1, 10)" by blast
  from carried_explanation_sound [OF d] d show ?thesis by blast
qed

theorem rubric_only_beside_abstention_witness:
  "\<exists>d. snd (journey_decision {} Map.empty demo_journey_db 7 1) = Some d \<and> de_rubric d = None"
proof -
  have n: "newest (\<lambda>r. suggestion_of r = (7, 1)) demo_journey_db = Some demo_reopened"
    by (simp add: demo_journey_defs)
  obtain d where d: "snd (journey_decision {} Map.empty demo_journey_db 7 1) = Some d"
    by (cases "snd (journey_decision {} Map.empty demo_journey_db 7 1)")
      (auto simp: journey_decision_def n matching_decision_def)
  have "newest (\<lambda>r. suggestion_of r = (7, 1) \<and> Store.is_rubric_ver (su_model_ver r)) demo_journey_db = None"
    by (simp add: demo_journey_defs Store.is_rubric_ver_def starts_with_def)
  with rubric_only_beside_abstention [OF d] d show ?thesis by auto
qed

section \<open>The stage and the bands\<close>

text \<open>The thresholds and floors declared again here are those of the analyzer.\<close>

lemma view_thresholds:
  "TAU_SUGGEST_VIEW = TAU_SUGGEST" "TAU_AUTO_VIEW = TAU_AUTO"
  by (simp_all add: TAU_SUGGEST_VIEW_def TAU_AUTO_VIEW_def TAU_SUGGEST_def TAU_AUTO_def)

lemma band_of_decision:
  "band_action c False TAU_AUTO =
     (if band_of c = ''auto'' then ACTION_AUTO
      else if band_of c = ''suggest'' then ACTION_SUGGEST else ACTION_ABSTAIN)"
  by (simp add: band_action_def band_of_def view_thresholds)

text \<open>Every row that names a relevant item is shown as an exact-hash inheritance, also one the model
  decided: the analyzer stores the relevant item of any method in that column.\<close>

lemma relevant_item_shown_as_hash:
  assumes "su_matched_item_id r = dr_relevant_item_id dec" and "dr_relevant_item_id dec \<noteq> None"
  shows "stage_of r = StageA"
  using assms by (simp add: stage_of_def)

section \<open>The freshness of a cached answer\<close>

definition shown_negative :: "cache_row \<Rightarrow> bool" where
  "shown_negative r \<longleftrightarrow>
     (case jget (lc_output r) NEGATIVE_MARKER of
        Some (JBool b) \<Rightarrow> b
      | Some (JStr t) \<Rightarrow> t = ustr ''true''
      | _ \<Rightarrow> False)"

definition shown_fresh :: "seconds \<Rightarrow> string \<Rightarrow> cache_row \<Rightarrow> bool" where
  "shown_fresh now role r =
     is_fresh now (if shown_negative r then 7 else if role = ''judge'' then 14 else 90) r"

lemma run_miss_no_hit:
  "\<not> rr_cache_hit (fst (run_miss env role pid item inp ph key s))"
proof -
  obtain r s' where e: "run_miss env role pid item inp ph key s = (r, s')"
    by (cases "run_miss env role pid item inp ph key s")
  then have "\<not> rr_cache_hit r" by (cases rule: run_miss_paths) simp_all
  with e show ?thesis by simp
qed

lemma is_fresh_mono: "is_fresh now t r \<Longrightarrow> t \<le> t' \<Longrightarrow> is_fresh now t' r"
proof -
  assume a: "is_fresh now t r" "t \<le> t'"
  then have "real_of_int t * SECONDS_PER_DAY \<le> real_of_int t' * SECONDS_PER_DAY"
    by (simp add: SECONDS_PER_DAY_def)
  with a(1) show ?thesis by (simp add: is_fresh_def)
qed

text \<open>
  The cache view and the engine agree on which answers are still good. For a role with the windows the
  roles have, a stored row is shown as fresh exactly when a run of the role whose key it holds is answered
  from the cache, without asking the model: also for a remembered failure, which lives a week.
\<close>

theorem cache_view_agrees:
  assumes "en_get_fresh env = get_fresh"
    and "map_of (es_cache s) (pid, cache_key_of env role (en_sha256 env (ro_content_key role inp))) = Some r"
    and "ro_ttl_days role = (if ro_name role = ''judge'' then 14 else 90)"
    and "shown_negative r \<Longrightarrow> is_negative (Some (lc_output r)) \<and> ro_negative_ttl_days role = Some 7"
  shows "rr_cache_hit (fst (run env role pid item inp s))
    \<longleftrightarrow> shown_fresh (en_db_now env (es_world s)) (ro_name role) r"
proof -
  let ?now = "en_db_now env (es_world s)" and ?ph = "en_sha256 env (ro_content_key role inp)"
  let ?key = "cache_key_of env role ?ph" and ?ttl = "ro_ttl_days role"
  have neg: "is_negative (Some (lc_output r)) \<longleftrightarrow> shown_negative r"
    using assms(4) by (auto simp: is_negative_def shown_negative_def)
  have first: "get_fresh ?now pid ?key ?ttl (es_cache s) =
      (if is_fresh ?now ?ttl r
       then (Some (lc_output r), AList.update (pid, ?key) (bump ?now r) (es_cache s)) else (None, es_cache s))"
    using assms(2) by (simp add: get_fresh_def)
  have shown: "shown_fresh ?now (ro_name role) r = is_fresh ?now (if shown_negative r then 7 else ?ttl) r"
    by (simp add: shown_fresh_def assms(3))
  show ?thesis
  proof (cases "is_fresh ?now ?ttl r")
    case False
    moreover have "\<not> is_fresh ?now 7 r"
      using False is_fresh_mono [of ?now 7 r ?ttl] assms(3) by (auto split: if_splits)
    ultimately show ?thesis
      by (simp add: run_def Let_def assms(1) first is_negative_def run_miss_no_hit shown)
  next
    case True
    show ?thesis
    proof (cases "shown_negative r")
      case False
      then have n: "\<not> is_negative (Some (lc_output r))" using neg by blast
      have g: "en_get_fresh env ?now pid ?key ?ttl (es_cache s) =
          (Some (lc_output r), AList.update (pid, ?key) (bump ?now r) (es_cache s))"
        using first True by (simp only: assms(1) if_True)
      have "rr_cache_hit (fst (run env role pid item inp s))"
        unfolding run_hit_eq [OF g n] by (simp add: finish_def)
      with False True show ?thesis by (simp only: shown if_False)
    next
      case neg_row: True
      let ?c = "AList.update (pid, ?key) (bump ?now r) (es_cache s)"
      have second: "fst (get_fresh ?now pid ?key 7 ?c) = (if is_fresh ?now 7 r then Some (lc_output r) else None)"
        by (simp add: get_fresh_def map_of_alist_update bump_def is_fresh_def)
      define c2 where "c2 = snd (get_fresh ?now pid ?key 7 ?c)"
      have c2: "get_fresh ?now pid ?key 7 ?c =
          (if is_fresh ?now 7 r then Some (lc_output r) else None, c2)"
        unfolding prod_eq_iff second by (simp add: c2_def)
      have n: "is_negative (Some (lc_output r))" "ro_negative_ttl_days role = Some 7"
        using assms(4) neg_row by blast+
      show ?thesis
      proof (cases "is_fresh ?now 7 r")
        case True
        with n c2 \<open>is_fresh ?now ?ttl r\<close> neg_row show ?thesis
          by (simp add: run_def Let_def assms(1) first shown fresh_negative_outcome_def finish_def)
      next
        case False
        with n c2 \<open>is_fresh ?now ?ttl r\<close> neg_row show ?thesis
          by (simp add: run_def Let_def assms(1) first shown fresh_negative_outcome_def run_miss_no_hit)
      qed
    qed
  qed
qed

text \<open>All roles of the sidecar have these windows; only the extractor remembers failures.\<close>

lemma role_windows:
  "ro_ttl_days (extractor_role e) = 90" "ro_ttl_days (judge_role e) = 14"
  "ro_ttl_days (explainer_role e) = 90" "ro_ttl_days (coldstart_role e) = 90"
  "ro_negative_ttl_days (extractor_role e) = Some 7" "ro_name (extractor_role e) = ''extractor''"
  "ro_name (judge_role e) = ''judge''" "ro_name (explainer_role e) = ''explainer''"
  "ro_name (coldstart_role e) = ''coldstart''"
  by (simp_all add: extractor_role_def judge_role_def explainer_role_def coldstart_role_def)

theorem cache_view_agrees_witness:
  "let row = \<lparr>lc_role = ''extractor'', lc_template_hash = None, lc_output = negative_payload ValidationFail,
              lc_model = ''m'', lc_created_at = 1000, lc_last_hit_at = 1000, lc_hits = 0\<rparr>;
       s = demo_state\<lparr>es_cache := [((1, cache_key_of (demo_env []) (demo_role True) []), row)]\<rparr>
   in rr_cache_hit (fst (run (demo_env []) (demo_role True) 1 2 [] s))"
proof -
  define row where "row = \<lparr>lc_role = ''extractor'', lc_template_hash = None,
    lc_output = negative_payload ValidationFail, lc_model = ''m'', lc_created_at = 1000,
    lc_last_hit_at = 1000, lc_hits = 0\<rparr>"
  define s where "s = demo_state\<lparr>es_cache := [((1, cache_key_of (demo_env []) (demo_role True) []), row)]\<rparr>"
  have k: "en_sha256 (demo_env []) (ro_content_key (demo_role True) []) = []"
    by (simp add: demo_env_def demo_role_def)
  have "rr_cache_hit (fst (run (demo_env []) (demo_role True) 1 2 [] s))
      \<longleftrightarrow> shown_fresh (en_db_now (demo_env []) (es_world s)) (ro_name (demo_role True)) row"
    by (rule cache_view_agrees)
      (simp_all add: k s_def row_def is_negative_payload, simp_all add: demo_env_def demo_role_def)
  moreover have "shown_fresh (en_db_now (demo_env []) (es_world s)) (ro_name (demo_role True)) row"
    by (simp add: shown_fresh_def is_fresh_def s_def row_def demo_env_def demo_state_def demo_role_def
        SECONDS_PER_DAY_def)
  ultimately show ?thesis unfolding row_def s_def by (simp add: Let_def)
qed

end
