(* ===== verification/InspectorViews.thy ===== *)
theory InspectorViews
  imports Inspector
begin

text \<open>
  The other views of the inspector (\<open>inspector/backend/payloads.py\<close>): the pickers, the grouping and the
  feedback of the journey, the launch groups, the learning-loop timeline with the maturity of a project,
  the counters, the signature explorer and the observability of the sidecar. Every one of them reads
  only rows of the project it is asked for.

  \<open>ILIKE\<close> is PostgreSQL's, so a search is the predicate on texts it stands for. Timestamps, links into
  the user interface and the names of ReportPortal are left out, and so are the templates, which are no
  table of \<open>Store\<close>.
\<close>

section \<open>Rows of a project\<close>

definition rows_of :: "int \<Rightarrow> ('r \<Rightarrow> int) \<Rightarrow> 'r list \<Rightarrow> 'r list" where
  "rows_of p f rows = filter (\<lambda>r. f r = p) rows"

definition n_where :: "('r \<Rightarrow> bool) \<Rightarrow> 'r list \<Rightarrow> nat" where
  "n_where P rows = length (filter P rows)"

definition n_distinct :: "'a list \<Rightarrow> nat" where
  "n_distinct xs = length (remdups xs)"

abbreviation items_of :: "db \<Rightarrow> int \<Rightarrow> item_row list" where
  "items_of db p \<equiv> rows_of p ti_project_id (db_items db)"

abbreviation sigs_of :: "db \<Rightarrow> int \<Rightarrow> sig_row list" where
  "sigs_of db p \<equiv> rows_of p fs_project_id (db_sigs db)"

abbreviation suggestions_of :: "db \<Rightarrow> int \<Rightarrow> suggestion_row list" where
  "suggestions_of db p \<equiv> rows_of p su_project_id (db_suggestions db)"

abbreviation events_of :: "db \<Rightarrow> int \<Rightarrow> label_event list" where
  "events_of db p \<equiv> rows_of p le_project_id (db_events db)"

abbreviation groups_of :: "db \<Rightarrow> int \<Rightarrow> group_row list" where
  "groups_of db p \<equiv> rows_of p lg_project_id (db_groups db)"

abbreviation modes_of :: "db \<Rightarrow> int \<Rightarrow> mode_row list" where
  "modes_of db p \<equiv> rows_of p fm_project_id (db_modes db)"

definition the_max :: "'a::linorder list \<Rightarrow> 'a option" where
  "the_max xs = py_max id xs"

section \<open>The pickers\<close>

record project_entry =
  pe_project_id :: int
  pe_item_count :: nat
  pe_launch_count :: nat

definition project_entry_of :: "db \<Rightarrow> int \<Rightarrow> project_entry" where
  "project_entry_of db p =
     \<lparr>pe_project_id = p, pe_item_count = length (items_of db p),
      pe_launch_count = n_distinct (map ti_launch_id (items_of db p))\<rparr>"

definition list_projects :: "db \<Rightarrow> nat \<Rightarrow> project_entry list" where
  "list_projects db limit = map (project_entry_of db) (take limit (sorted_list_of_set (db_projects db)))"

record launch_entry =
  la_launch_id :: int
  la_launch_name :: "string option"
  la_launch_number :: "int option"
  la_item_count :: nat
  la_labeled_count :: nat
  la_last_start :: "seconds option"

definition launch_entry_of :: "item_row list \<Rightarrow> int \<Rightarrow> launch_entry" where
  "launch_entry_of items l =
     (let rows = filter (\<lambda>r. ti_launch_id r = l) items in
      \<lparr>la_launch_id = l, la_launch_name = the_max (map ti_launch_name rows),
       la_launch_number = the_max (List.map_filter ti_launch_number rows),
       la_item_count = length rows, la_labeled_count = n_where labelled rows,
       la_last_start = the_max (List.map_filter ti_start_time rows)\<rparr>)"

text \<open>\<open>NULLS LAST\<close> under \<open>DESC\<close>: \<open>None\<close> is the least option.\<close>

definition list_launches :: "db \<Rightarrow> int \<Rightarrow> nat \<Rightarrow> launch_entry list" where
  "list_launches db p limit =
     take limit (order_desc (\<lambda>e. (la_last_start e, la_launch_id e))
       (map (launch_entry_of (items_of db p)) (remdups (map ti_launch_id (items_of db p)))))"

record item_entry =
  ie_item_id :: int
  ie_item_name :: string
  ie_issue_type :: "string option"
  ie_label_group :: string
  ie_is_auto_analyzed :: bool
  ie_log_count :: int
  ie_exc_text :: "string option"
  ie_has_emb :: bool

definition sig_in :: "db \<Rightarrow> int \<Rightarrow> int \<Rightarrow> sig_row option" where
  "sig_in db p i = List.find (\<lambda>r. fs_item_id r = i) (sigs_of db p)"

definition item_entry_of :: "db \<Rightarrow> int \<Rightarrow> item_row \<Rightarrow> item_entry" where
  "item_entry_of db p r =
     \<lparr>ie_item_id = ti_item_id r, ie_item_name = ti_item_name r, ie_issue_type = ti_issue_type r,
      ie_label_group = grp (ti_issue_type r), ie_is_auto_analyzed = ti_is_auto_analyzed r,
      ie_log_count = ti_log_count r, ie_exc_text = map_option fs_exc_text (sig_in db p (ti_item_id r)),
      ie_has_emb = (case sig_in db p (ti_item_id r) of None \<Rightarrow> False | Some s \<Rightarrow> fs_emb s \<noteq> None)\<rparr>"

definition list_items :: "db \<Rightarrow> int \<Rightarrow> int \<Rightarrow> nat \<Rightarrow> item_entry list" where
  "list_items db p l limit =
     map (item_entry_of db p)
       (take limit (sort_key ti_item_id (filter (\<lambda>r. ti_launch_id r = l) (items_of db p))))"

section \<open>The journey of an item\<close>

definition GROUP_MEMBER_CAP :: nat where "GROUP_MEMBER_CAP = 60"

record member_entry =
  me_item_id :: int
  me_item_name :: string
  me_issue_type :: "string option"
  me_label_group :: string
  me_is_auto_analyzed :: bool
  me_is_self :: bool

record grouping_block =
  gb_group_id :: int
  gb_fingerprint :: int
  gb_member_count :: int
  gb_dominant :: bool
  gb_si_prior :: real
  gb_launch_failed_count :: nat
  gb_members :: "member_entry list"

definition journey_group :: "db \<Rightarrow> int \<Rightarrow> int \<Rightarrow> int option \<Rightarrow> group_row option" where
  "journey_group db p l eh =
     (let rows = filter (\<lambda>g. lg_launch_id g = l) (groups_of db p) in
      case eh of
        Some h \<Rightarrow> py_max (\<lambda>g. (lg_fingerprint g = h, lg_member_count g)) rows
      | None \<Rightarrow> py_max lg_member_count rows)"

definition in_group :: "db \<Rightarrow> int \<Rightarrow> int \<Rightarrow> group_row \<Rightarrow> item_row \<Rightarrow> bool" where
  "in_group db p l g r \<longleftrightarrow>
     list_ex (\<lambda>s. su_item_id s = ti_item_id r \<and> su_launch_id s = l \<and> su_group_id s = Some (lg_group_id g))
       (suggestions_of db p)
     \<or> (ti_launch_id r = l
        \<and> list_ex (\<lambda>s. fs_item_id s = ti_item_id r \<and> fs_error_hash s = lg_fingerprint g) (sigs_of db p))"

definition group_members :: "db \<Rightarrow> int \<Rightarrow> int \<Rightarrow> int \<Rightarrow> group_row \<Rightarrow> member_entry list" where
  "group_members db p l self g =
     map (\<lambda>r. \<lparr>me_item_id = ti_item_id r, me_item_name = ti_item_name r, me_issue_type = ti_issue_type r,
               me_label_group = grp (ti_issue_type r), me_is_auto_analyzed = ti_is_auto_analyzed r,
               me_is_self = (ti_item_id r = self)\<rparr>)
       (take GROUP_MEMBER_CAP
          (sort_key (\<lambda>r. (ti_item_id r \<noteq> self, ti_item_id r)) (filter (in_group db p l g) (items_of db p))))"

definition grouping_of :: "db \<Rightarrow> int \<Rightarrow> int \<Rightarrow> int \<Rightarrow> int option \<Rightarrow> grouping_block option" where
  "grouping_of db p l self eh =
     map_option (\<lambda>g. \<lparr>gb_group_id = lg_group_id g, gb_fingerprint = lg_fingerprint g,
         gb_member_count = lg_member_count g, gb_dominant = lg_dominant g, gb_si_prior = lg_group_si_prior g,
         gb_launch_failed_count = n_where (\<lambda>r. ti_launch_id r = l) (items_of db p),
         gb_members = group_members db p l self g\<rparr>)
       (journey_group db p l eh)"

record feedback_entry =
  fe_event_id :: int
  fe_old_label :: "string option"
  fe_new_label :: string
  fe_old_group :: string
  fe_new_group :: string
  fe_source :: string
  fe_suggestion_id :: "int option"

definition feedback_entry_of :: "label_event \<Rightarrow> feedback_entry" where
  "feedback_entry_of e =
     \<lparr>fe_event_id = le_event_id e, fe_old_label = le_old_label e, fe_new_label = le_new_label e,
      fe_old_group = grp (le_old_label e), fe_new_group = grp (Some (le_new_label e)),
      fe_source = le_source e, fe_suggestion_id = le_suggestion_id e\<rparr>"

definition feedback_of :: "db \<Rightarrow> int \<Rightarrow> int \<Rightarrow> feedback_entry list" where
  "feedback_of db p i =
     map feedback_entry_of (take 50 (order_desc le_ts (filter (\<lambda>e. le_item_id e = i) (events_of db p))))"

record journey =
  jn_item :: item_row
  jn_signature :: "sig_row option"
  jn_grouping :: "grouping_block option"
  jn_matching :: matching_block
  jn_decision :: "decision_block option"
  jn_feedback :: "feedback_entry list"

definition item_journey :: "string set \<Rightarrow> role_states \<Rightarrow> db \<Rightarrow> int \<Rightarrow> int \<Rightarrow> journey option" where
  "item_journey cols roles db p i =
     map_option (\<lambda>r.
        \<lparr>jn_item = r, jn_signature = sig_in db p i,
         jn_grouping = grouping_of db p (ti_launch_id r) i (map_option fs_error_hash (sig_in db p i)),
         jn_matching = fst (journey_decision cols roles db p i),
         jn_decision = snd (journey_decision cols roles db p i),
         jn_feedback = feedback_of db p i\<rparr>)
       (List.find (\<lambda>r. ti_item_id r = i) (items_of db p))"

section \<open>Launch groups\<close>

record group_node =
  gn_item_id :: int
  gn_name :: string
  gn_launch_id :: int
  gn_issue_type :: "string option"
  gn_label_group :: string
  gn_group_id :: "int option"
  gn_error_hash :: "int option"

definition in_launch :: "int option \<Rightarrow> int \<Rightarrow> bool" where
  "in_launch launch l \<longleftrightarrow> launch = None \<or> launch = Some l"

definition group_rows :: "db \<Rightarrow> int \<Rightarrow> int option \<Rightarrow> nat \<Rightarrow> group_row list" where
  "group_rows db p launch limit =
     take limit (order_desc (\<lambda>g. (lg_launch_id g, lg_member_count g))
       (filter (\<lambda>g. in_launch launch (lg_launch_id g)) (groups_of db p)))"

text \<open>The dictionary from launch and fingerprint to the group keeps the last of equal keys.\<close>

definition node_of :: "db \<Rightarrow> int \<Rightarrow> group_row list \<Rightarrow> item_row \<Rightarrow> group_node" where
  "node_of db p groups r =
     (let eh = map_option fs_error_hash (sig_in db p (ti_item_id r)) in
      \<lparr>gn_item_id = ti_item_id r, gn_name = ti_item_name r, gn_launch_id = ti_launch_id r,
       gn_issue_type = ti_issue_type r, gn_label_group = grp (ti_issue_type r),
       gn_group_id = Option.bind eh (\<lambda>h. map_option lg_group_id
         (List.find (\<lambda>g. lg_launch_id g = ti_launch_id r \<and> lg_fingerprint g = h) (rev groups))),
       gn_error_hash = eh\<rparr>)"

definition groups_view :: "db \<Rightarrow> int \<Rightarrow> int option \<Rightarrow> nat \<Rightarrow> group_row list \<times> group_node list" where
  "groups_view db p launch limit =
     (let groups = group_rows db p launch limit in
      (groups,
       map (node_of db p groups)
         (take limit (sort_key ti_item_id
            (filter (\<lambda>r. in_launch launch (ti_launch_id r)) (items_of db p))))))"

section \<open>The learning loop\<close>

definition VIEW_GBM_MIN_EVENTS :: nat where "VIEW_GBM_MIN_EVENTS = 50"
definition VIEW_CALIB_MIN_EVENTS :: nat where "VIEW_CALIB_MIN_EVENTS = 300"

definition HUMAN_SOURCES :: "string list" where
  "HUMAN_SOURCES = [''rp'', ''human'', ''rp_defect_update'', ''human_ui'', ''analyzer_suggestion_accepted'']"

record maturity =
  mu_stage :: string
  mu_labeled_items :: nat
  mu_label_events :: nat
  mu_human_events :: nat
  mu_modes_confirmed :: nat
  mu_modes_candidate :: nat
  mu_modes_seed :: nat
  mu_modes_total :: nat
  mu_signatures :: nat
  mu_embedded :: nat
  mu_embedded_pct :: "real option"
  mu_install_gbm :: "(string \<times> int) option"
  mu_project_calibrator :: "(string \<times> int) option"

definition maturity_stage :: "nat \<Rightarrow> string" where
  "maturity_stage labeled =
     (if labeled \<ge> VIEW_CALIB_MIN_EVENTS then ''hot''
      else if labeled \<ge> VIEW_GBM_MIN_EVENTS then ''warm'' else ''cold'')"

definition labeled_items :: "label_event list \<Rightarrow> nat" where
  "labeled_items evs = n_distinct (map le_item_id (filter (\<lambda>e. le_new_label e \<noteq> ''ti'') evs))"

text \<open>\<open>LIMIT 1\<close> without an order; the index allows one active row per kind and project.\<close>

definition active_artifact :: "'m model_store \<Rightarrow> int option \<Rightarrow> string \<Rightarrow> (string \<times> int) option" where
  "active_artifact ms project kind =
     map_option (\<lambda>r. (as_version (ar_spec r), as_n_events (ar_spec r)))
       (List.find (\<lambda>r. as_project_id (ar_spec r) = project \<and> as_kind (ar_spec r) = kind \<and> ar_is_active r)
          (ms_rows ms))"

definition maturity_of :: "db \<Rightarrow> 'm model_store \<Rightarrow> int \<Rightarrow> maturity" where
  "maturity_of db ms p =
     (let evs = events_of db p; modes = modes_of db p; sigs = sigs_of db p;
          labeled = labeled_items evs; embedded = n_where (\<lambda>r. fs_emb r \<noteq> None) sigs
      in \<lparr>mu_stage = maturity_stage labeled, mu_labeled_items = labeled,
          mu_label_events = length evs, mu_human_events = n_where (\<lambda>e. le_source e \<in> set HUMAN_SOURCES) evs,
          mu_modes_confirmed = n_where (\<lambda>m. fm_status m = ''confirmed'') modes,
          mu_modes_candidate = n_where (\<lambda>m. fm_status m = ''candidate'') modes,
          mu_modes_seed = n_where (\<lambda>m. fm_status m = ''seed'') modes,
          mu_modes_total = length modes, mu_signatures = length sigs, mu_embedded = embedded,
          mu_embedded_pct = (if sigs = [] then None else Some (real embedded / real (length sigs))),
          mu_install_gbm = active_artifact ms None ''gbm'',
          mu_project_calibrator = active_artifact ms (Some p) ''calib''\<rparr>)"

record artifact_entry =
  ax_model_id :: int
  ax_kind :: string
  ax_project_id :: "int option"
  ax_version :: string
  ax_n_events :: int
  ax_is_active :: bool

definition artifact_entry_of :: "'m artifact \<Rightarrow> artifact_entry" where
  "artifact_entry_of a =
     \<lparr>ax_model_id = ar_model_id a, ax_kind = as_kind (ar_spec a), ax_project_id = as_project_id (ar_spec a),
      ax_version = as_version (ar_spec a), ax_n_events = as_n_events (ar_spec a),
      ax_is_active = ar_is_active a\<rparr>"

record timeline =
  tl_events :: "(int \<times> feedback_entry) list"
  tl_artifacts :: "artifact_entry list"
  tl_metrics :: "daily_metrics list"
  tl_maturity :: maturity

definition timeline_of ::
  "db \<Rightarrow> 'm model_store \<Rightarrow> daily_metrics list \<Rightarrow> int \<Rightarrow> nat \<Rightarrow> timeline" where
  "timeline_of db ms daily p limit =
     \<lparr>tl_events = map (\<lambda>e. (le_item_id e, feedback_entry_of e))
        (take limit (sort_key le_ts (events_of db p))),
      tl_artifacts = map artifact_entry_of (take limit (sort_key ar_trained_at
        (filter (\<lambda>a. as_project_id (ar_spec a) \<in> {None, Some p}) (ms_rows ms)))),
      tl_metrics = take limit (sort_key dm_day (rows_of p dm_project_id daily)),
      tl_maturity = maturity_of db ms p\<rparr>"

section \<open>Counters\<close>

record summary_view =
  sv_suggestions :: nat
  sv_accepted :: nat
  sv_corrected :: nat
  sv_ignored :: nat
  sv_abstains :: nat
  sv_pending :: nat
  sv_llm_used :: nat
  sv_items :: nat
  sv_signatures :: nat
  sv_embedded :: nat
  sv_groups :: nat
  sv_modes :: nat
  sv_label_events :: nat

definition summary_of :: "db \<Rightarrow> int \<Rightarrow> summary_view" where
  "summary_of db p =
     (let rs = suggestions_of db p in
      \<lparr>sv_suggestions = length rs, sv_accepted = n_where (\<lambda>r. su_outcome r = ''accepted'') rs,
       sv_corrected = n_where (\<lambda>r. su_outcome r = ''corrected'') rs,
       sv_ignored = n_where (\<lambda>r. su_outcome r = ''ignored'') rs,
       sv_abstains = n_where (\<lambda>r. su_predicted_label r = ''ti'') rs,
       sv_pending = n_where (\<lambda>r. su_outcome r = ''pending'') rs,
       sv_llm_used = n_where su_llm_used rs,
       sv_items = length (items_of db p), sv_signatures = length (sigs_of db p),
       sv_embedded = n_where (\<lambda>r. fs_emb r \<noteq> None) (sigs_of db p),
       sv_groups = length (groups_of db p), sv_modes = length (modes_of db p),
       sv_label_events = length (events_of db p)\<rparr>)"

section \<open>The signature explorer\<close>

definition SIG_MEMBER_CAP :: nat where "SIG_MEMBER_CAP = 50"

text \<open>\<open>JOIN ... USING (project_id, item_id)\<close>.\<close>

definition signed_items :: "db \<Rightarrow> int \<Rightarrow> (sig_row \<times> item_row) list" where
  "signed_items db p =
     concat (map (\<lambda>s. map (\<lambda>r. (s, r)) (filter (\<lambda>r. ti_item_id r = fs_item_id s) (items_of db p)))
       (sigs_of db p))"

definition members_of_hash :: "db \<Rightarrow> int \<Rightarrow> int \<Rightarrow> (sig_row \<times> item_row) list" where
  "members_of_hash db p h = filter (\<lambda>(s, r). fs_error_hash s = h) (signed_items db p)"

record label_count =
  lb_locator :: "string option"
  lb_group :: string
  lb_count :: nat

definition label_order :: "string option \<times> nat \<Rightarrow> int \<times> bool \<times> string" where
  "label_order kv =
     (- int (snd kv), fst kv = None \<or> fst kv = Some [], case fst kv of None \<Rightarrow> [] | Some l \<Rightarrow> l)"

definition label_breakdown :: "string option list \<Rightarrow> label_count list" where
  "label_breakdown labels =
     map (\<lambda>(l, n). \<lparr>lb_locator = l, lb_group = grp l, lb_count = n\<rparr>) (sort_key label_order (counter labels))"

text \<open>The groups that count for a conflict: not null and not \<open>ti\<close>.\<close>

definition distinct_nonti :: "item_row list \<Rightarrow> nat" where
  "distinct_nonti rows = n_distinct (map (\<lambda>r. label_group (ti_issue_type r)) (filter labelled rows))"

record hash_entry =
  hx_error_hash :: int
  hx_member_count :: nat
  hx_distinct_fp :: nat
  hx_embedded_count :: nat
  hx_first_seen :: "seconds option"
  hx_last_seen :: "seconds option"
  hx_exc_classes :: "string list"
  hx_status_codes :: "string list"
  hx_labels :: "label_count list"
  hx_distinct_nonti :: nat
  hx_is_conflict :: bool

definition hash_entry_of :: "(sig_row \<times> item_row) list \<Rightarrow> int \<Rightarrow> hash_entry" where
  "hash_entry_of base h =
     (let ms = filter (\<lambda>(s, r). fs_error_hash s = h) base; sigs = map fst ms; items = map snd ms in
      \<lparr>hx_error_hash = h, hx_member_count = length ms, hx_distinct_fp = n_distinct (map fs_exception_fp sigs),
       hx_embedded_count = n_where (\<lambda>s. fs_emb s \<noteq> None) sigs,
       hx_first_seen = map_option (\<lambda>t. - t) (the_max (map (\<lambda>r. - ti_indexed_at r) items)),
       hx_last_seen = the_max (map ti_indexed_at items),
       hx_exc_classes = sort (remdups (filter (\<lambda>t. t \<noteq> [])
         (map (\<lambda>s. takeWhile (\<lambda>c. c \<noteq> CHR '' '') (fs_exc_text s)) sigs))),
       hx_status_codes = sort (remdups (concat (map fs_status_codes sigs))),
       hx_labels = label_breakdown (map ti_issue_type items),
       hx_distinct_nonti = distinct_nonti items, hx_is_conflict = (distinct_nonti items > 1)\<rparr>)"

definition found_by :: "(string \<Rightarrow> bool) option \<Rightarrow> sig_row \<Rightarrow> bool" where
  "found_by query s =
     (case query of None \<Rightarrow> True | Some like \<Rightarrow> like (fs_exc_text s) \<or> like (fs_msg_text s) \<or> like (fs_frames_text s))"

definition signatures_view ::
  "db \<Rightarrow> int \<Rightarrow> (string \<Rightarrow> bool) option \<Rightarrow> bool \<Rightarrow> nat \<Rightarrow> nat \<Rightarrow> hash_entry list" where
  "signatures_view db p query conflicts_only limit offset =
     (let base = filter (\<lambda>(s, r). found_by query s) (signed_items db p);
          entries = map (hash_entry_of base) (remdups (map (fs_error_hash \<circ> fst) base));
          kept = (if conflicts_only then filter hx_is_conflict entries else entries)
      in take limit (drop offset (sort_key (\<lambda>e. (- int (hx_member_count e), hx_error_hash e)) kept)))"

record hash_detail =
  hd_error_hash :: int
  hd_exception_fp :: int
  hd_representative :: int
  hd_distinct_nonti :: nat
  hd_is_conflict :: bool
  hd_labels :: "label_count list"
  hd_members :: "item_entry list"
  hd_member_total :: nat

definition label_rows :: "item_row list \<Rightarrow> label_count list" where
  "label_rows items =
     map (\<lambda>(l, n). \<lparr>lb_locator = l, lb_group = grp l, lb_count = n\<rparr>)
       (sort_key (\<lambda>(l, n). (- int n, l = None, case l of None \<Rightarrow> [] | Some t \<Rightarrow> t))
          (counter (map ti_issue_type items)))"

definition shown_groups :: "label_count list \<Rightarrow> string list" where
  "shown_groups labels = remdups (filter (\<lambda>g. g \<noteq> ''ti'' \<and> g \<noteq> ''none'') (map lb_group labels))"

definition member_order :: "item_row \<Rightarrow> bool \<times> bool \<times> string \<times> int" where
  "member_order r =
     (\<not> labelled r, label_group (ti_issue_type r) = None,
      case label_group (ti_issue_type r) of None \<Rightarrow> [] | Some g \<Rightarrow> g, ti_item_id r)"

definition signature_hash :: "db \<Rightarrow> int \<Rightarrow> int \<Rightarrow> hash_detail option" where
  "signature_hash db p h =
     (let ms = members_of_hash db p h in
      map_option (\<lambda>(s, r).
        (let labels = label_rows (map snd ms) in
         \<lparr>hd_error_hash = fs_error_hash s, hd_exception_fp = fs_exception_fp s,
          hd_representative = fs_item_id s,
          hd_distinct_nonti = length (shown_groups labels),
          hd_is_conflict = (length (shown_groups labels) > 1), hd_labels = labels,
          hd_members = map (item_entry_of db p) (take SIG_MEMBER_CAP (sort_key member_order (map snd ms))),
          hd_member_total = n_where (\<lambda>s. fs_error_hash s = h) (sigs_of db p)\<rparr>))
        (case sort_key (\<lambda>(s, r). (\<not> labelled r, fs_item_id s)) ms of [] \<Rightarrow> None | m # _ \<Rightarrow> Some m))"

section \<open>The sidecar\<close>

definition LLM_ROLES :: "string list" where
  "LLM_ROLES = [''coldstart'', ''explainer'', ''judge'', ''extractor'']"

record llm_event_row =
  ll_event_id :: int
  ll_project_id :: int
  ll_item_id :: int
  ll_role :: string
  ll_model :: string
  ll_cache_hit :: bool
  ll_outcome :: string
  ll_latency_ms :: "int option"
  ll_created_at :: seconds

abbreviation llm_of :: "llm_event_row list \<Rightarrow> int \<Rightarrow> llm_event_row list" where
  "llm_of evs p \<equiv> rows_of p ll_project_id evs"

definition newest_first :: "llm_event_row list \<Rightarrow> llm_event_row list" where
  "newest_first evs = order_desc (\<lambda>e. (ll_created_at e, ll_event_id e)) evs"

definition item_llm :: "llm_event_row list \<Rightarrow> int \<Rightarrow> int \<Rightarrow> llm_event_row list" where
  "item_llm evs p i = take 20 (newest_first (filter (\<lambda>e. ll_item_id e = i) (llm_of evs p)))"

text \<open>\<open>percentile_cont\<close>: linear interpolation between the two rows around the position.\<close>

definition percentile_cont :: "real \<Rightarrow> int list \<Rightarrow> real option" where
  "percentile_cont q xs =
     (if xs = [] then None
      else (let ys = sort xs; pos = q * real (length xs - 1);
                lo = nat \<lfloor>pos\<rfloor>; hi = nat \<lceil>pos\<rceil>
            in Some (of_int (ys ! lo) + (pos - real lo) * (of_int (ys ! hi) - of_int (ys ! lo)))))"

record role_summary =
  ry_role :: string
  ry_outcomes :: "(string \<times> nat) list"
  ry_event_count :: nat
  ry_ok :: nat
  ry_from_cache :: nat
  ry_last_event :: "seconds option"
  ry_latency :: "(real \<times> real \<times> int \<times> nat) option"
  ry_state :: "role_state_row option"

definition latencies :: "llm_event_row list \<Rightarrow> int list" where
  "latencies evs =
     List.map_filter ll_latency_ms (filter (\<lambda>e. \<not> ll_cache_hit e \<and> ll_outcome e = ''ok'') evs)"

definition role_summary_of :: "llm_event_row list \<Rightarrow> role_states \<Rightarrow> int \<Rightarrow> string \<Rightarrow> role_summary" where
  "role_summary_of evs roles p role =
     (let mine = filter (\<lambda>e. ll_role e = role) (llm_of evs p); outcomes = counter (map ll_outcome mine);
          lat = latencies mine
      in \<lparr>ry_role = role, ry_outcomes = outcomes, ry_event_count = sum_list (map snd outcomes),
          ry_ok = (case map_of outcomes ''ok'' of None \<Rightarrow> 0 | Some n \<Rightarrow> n),
          ry_from_cache = n_where ll_cache_hit mine, ry_last_event = the_max (map ll_created_at mine),
          ry_latency = (case (percentile_cont (1 / 2) lat, percentile_cont (9 / 10) lat, the_max lat) of
             (Some p50, Some p90, Some mx) \<Rightarrow> Some (p50, p90, mx, length lat) | _ \<Rightarrow> None),
          ry_state = roles (p, role)\<rparr>)"

record llm_summary_view =
  lv_roles :: "role_summary list"
  lv_event_total :: nat
  lv_model :: "string option"

definition llm_summary :: "llm_event_row list \<Rightarrow> role_states \<Rightarrow> int \<Rightarrow> llm_summary_view" where
  "llm_summary evs roles p =
     (let rs = map (role_summary_of evs roles p) LLM_ROLES in
      \<lparr>lv_roles = rs, lv_event_total = sum_list (map ry_event_count rs),
       lv_model = (case newest_first (llm_of evs p) of [] \<Rightarrow> None | e # _ \<Rightarrow> Some (ll_model e))\<rparr>)"

definition outcome_filter :: "string option \<Rightarrow> string \<Rightarrow> bool" where
  "outcome_filter outcome oc =
     (case outcome of
        None \<Rightarrow> True
      | Some f \<Rightarrow>
          if f = ''ok'' then oc = ''ok''
          else if f = ''guardrail'' then oc \<in> {''schema_fail'', ''validation_fail''}
          else if f = ''unavailable'' then oc \<in> {''timeout'', ''breaker_open'', ''dropped''}
          else True)"

definition role_filter :: "string option \<Rightarrow> string \<Rightarrow> bool" where
  "role_filter role r = (case role of None \<Rightarrow> True | Some f \<Rightarrow> f = [] \<or> f = ''all'' \<or> r = f)"

definition llm_events :: "llm_event_row list \<Rightarrow> int \<Rightarrow> string option \<Rightarrow> string option \<Rightarrow> nat \<Rightarrow> llm_event_row list" where
  "llm_events evs p role outcome limit =
     take limit (newest_first (filter (\<lambda>e. role_filter role (ll_role e) \<and> outcome_filter outcome (ll_outcome e))
       (llm_of evs p)))"

record cache_entry =
  ce_row :: cache_row
  ce_cache_key :: string
  ce_fresh :: bool
  ce_negative :: bool

definition cache_rows_of :: "llm_cache \<Rightarrow> int \<Rightarrow> string \<Rightarrow> ((int \<times> string) \<times> cache_row) list" where
  "cache_rows_of c p role = filter (\<lambda>(k, r). fst k = p \<and> lc_role r = role) c"

definition llm_cache_view :: "seconds \<Rightarrow> llm_cache \<Rightarrow> int \<Rightarrow> string \<Rightarrow> nat \<Rightarrow> nat \<times> int \<times> cache_entry list" where
  "llm_cache_view now c p role limit =
     (let rows = cache_rows_of c p role in
      (length rows, sum_list (map (lc_hits \<circ> snd) rows),
       map (\<lambda>(k, r). \<lparr>ce_row = r, ce_cache_key = snd k, ce_fresh = shown_fresh now role r,
                      ce_negative = shown_negative r\<rparr>)
         (take limit (order_desc (\<lambda>(k, r). (lc_hits r, lc_last_hit_at r)) rows))))"

section \<open>Tenancy\<close>

definition project_rows :: "int \<Rightarrow> db \<Rightarrow> db" where
  "project_rows p db =
     db\<lparr>db_items := items_of db p, db_sigs := sigs_of db p, db_suggestions := suggestions_of db p,
        db_events := events_of db p, db_groups := groups_of db p, db_modes := modes_of db p\<rparr>"

definition project_artifacts :: "int \<Rightarrow> 'm model_store \<Rightarrow> 'm model_store" where
  "project_artifacts p ms =
     ms\<lparr>ms_rows := filter (\<lambda>a. as_project_id (ar_spec a) \<in> {None, Some p}) (ms_rows ms)\<rparr>"

definition project_roles :: "int \<Rightarrow> role_states \<Rightarrow> role_states" where
  "project_roles p roles = (\<lambda>k. if fst k = p then roles k else None)"

definition project_cache :: "int \<Rightarrow> llm_cache \<Rightarrow> llm_cache" where
  "project_cache p c = filter (\<lambda>(k, r). fst k = p) c"

lemma rows_of_idem [simp]: "rows_of p f (rows_of p f rows) = rows_of p f rows"
  by (simp add: rows_of_def)

lemma project_rows_sel [simp]:
  "db_items (project_rows p db) = items_of db p" "db_sigs (project_rows p db) = sigs_of db p"
  "db_suggestions (project_rows p db) = suggestions_of db p"
  "db_events (project_rows p db) = events_of db p" "db_groups (project_rows p db) = groups_of db p"
  "db_modes (project_rows p db) = modes_of db p"
  by (simp_all add: project_rows_def)

lemma newest_of_project:
  "newest (\<lambda>r. suggestion_of r = (p, i) \<and> P r) (project_rows p db)
   = newest (\<lambda>r. suggestion_of r = (p, i) \<and> P r) db"
proof -
  have "(su_project_id r = p \<and> suggestion_of r = (p, i) \<and> P r) = (suggestion_of r = (p, i) \<and> P r)" for r
    by (auto simp: suggestion_of_def)
  then show ?thesis by (simp add: newest_def rows_of_def conj_commute)
qed

lemma newest_item_of_project:
  "newest (\<lambda>r. suggestion_of r = (p, i)) (project_rows p db) = newest (\<lambda>r. suggestion_of r = (p, i)) db"
  using newest_of_project [of p i "\<lambda>_. True" db] by simp

lemma mode_of_project:
  "lookup_row mode_key (p, m) (modes_of db p) = lookup_row mode_key (p, m) (db_modes db)"
proof -
  have "lookup_row mode_key (p, m) (rows_of p fm_project_id rows) = lookup_row mode_key (p, m) rows" for rows
    by (induction rows) (auto simp: rows_of_def mode_key_def)
  then show ?thesis .
qed

lemma journey_decision_of_project:
  "journey_decision cols (project_roles p roles) (project_rows p db) p i = journey_decision cols roles db p i"
proof -
  have m: "matching_decision cols (project_rows p db) p = matching_decision cols db p"
    by (simp add: fun_eq_iff matching_decision_def mode_of_project split: option.splits)
  have c: "carry_over cols (project_rows p db) p i = carry_over cols db p i"
    by (simp add: fun_eq_iff carry_over_def explained_row_def newest_of_project)
  have r: "resurface (project_roles p roles) (project_rows p db) p i = resurface roles db p i"
    by (simp add: fun_eq_iff resurface_def newest_of_project project_roles_def LlmEval.role_is_enabled_def
        split: option.split)
  have b: "both_stories (project_rows p db) p i = both_stories db p i"
    by (simp add: fun_eq_iff both_stories_def newest_of_project)
  show ?thesis by (simp only: journey_decision_def newest_item_of_project m c r b)
qed

lemma sig_in_of_project [simp]: "sig_in (project_rows p db) p = sig_in db p"
  by (simp add: fun_eq_iff sig_in_def)

lemma signed_items_of_project [simp]: "signed_items (project_rows p db) p = signed_items db p"
  by (simp add: signed_items_def)

lemma item_entry_of_project [simp]: "item_entry_of (project_rows p db) p = item_entry_of db p"
  by (simp add: fun_eq_iff item_entry_of_def)

lemma in_group_of_project [simp]: "in_group (project_rows p db) p = in_group db p"
  by (simp add: fun_eq_iff in_group_def)

lemma grouping_of_project: "grouping_of (project_rows p db) p = grouping_of db p"
  by (simp add: fun_eq_iff grouping_of_def journey_group_def group_members_def cong: option.case_cong)

lemma node_of_project [simp]: "node_of (project_rows p db) p = node_of db p"
  by (simp add: fun_eq_iff node_of_def)

lemma find_project_artifact:
  assumes "project \<in> {None, Some p}"
  shows "active_artifact (project_artifacts p ms) project kind = active_artifact ms project kind"
proof -
  have "List.find (\<lambda>r. as_project_id (ar_spec r) = project \<and> as_kind (ar_spec r) = kind \<and> ar_is_active r)
      (filter (\<lambda>a. as_project_id (ar_spec a) \<in> {None, Some p}) rows) =
    List.find (\<lambda>r. as_project_id (ar_spec r) = project \<and> as_kind (ar_spec r) = kind \<and> ar_is_active r) rows"
    for rows :: "'a artifact list"
    using assms by (induction rows) auto
  then show ?thesis by (simp add: active_artifact_def project_artifacts_def)
qed

lemma maturity_of_project:
  "maturity_of (project_rows p db) (project_artifacts p ms) p = maturity_of db ms p"
  by (simp add: maturity_of_def find_project_artifact)

lemma timeline_of_project:
  "timeline_of (project_rows p db) (project_artifacts p ms) (rows_of p dm_project_id daily) p limit
   = timeline_of db ms daily p limit"
proof -
  have "filter (\<lambda>a. as_project_id (ar_spec a) \<in> {None, Some p}) (ms_rows (project_artifacts p ms))
      = filter (\<lambda>a. as_project_id (ar_spec a) \<in> {None, Some p}) (ms_rows ms)"
    by (simp add: project_artifacts_def)
  then show ?thesis by (simp only: timeline_of_def maturity_of_project project_rows_sel rows_of_idem)
qed

lemma role_summary_of_project:
  "role_summary_of (rows_of p ll_project_id evs) (project_roles p roles) p = role_summary_of evs roles p"
  by (simp add: fun_eq_iff role_summary_of_def project_roles_def)


section \<open>Label conflicts\<close>

text \<open>A locator whose letters are one of the groups the inspector knows, or a missing one.\<close>

definition known_locator :: "string option \<Rightarrow> bool" where
  "known_locator l \<longleftrightarrow> (case label_group l of None \<Rightarrow> l = None \<or> l = Some [] | Some g \<Rightarrow> g \<in> set LABEL_GROUPS)"

lemma grp_known:
  assumes "known_locator l"
  shows "grp l = (case label_group l of None \<Rightarrow> ''none'' | Some g \<Rightarrow> g)"
proof (cases "label_group l")
  case None
  with assms show ?thesis by (auto simp: known_locator_def grp_def)
next
  case (Some g)
  then obtain t where t: "l = Some t" "g = takeWhile is_lower t" "g \<noteq> []"
    by (auto simp: label_group_def Let_def split: option.splits if_splits)
  have g: "g \<in> set LABEL_GROUPS" using assms Some by (simp add: known_locator_def)
  then have len: "length g = 2" by (auto simp: LABEL_GROUPS_def)
  have pre: "take 2 t = g" using t(2) len by (metis takeWhile_eq_take)
  have "starts_with h t \<longleftrightarrow> h = g" if "h \<in> set LABEL_GROUPS" for h
  proof -
    have "length h = 2" using that by (auto simp: LABEL_GROUPS_def)
    then show ?thesis using pre by (auto simp: starts_with_def)
  qed
  then have "List.find (\<lambda>h. starts_with h t) LABEL_GROUPS = List.find (\<lambda>h. h = g) LABEL_GROUPS"
    by (rule find_cong [OF refl])
  also have "\<dots> = Some g" using g by (auto simp: LABEL_GROUPS_def)
  finally show ?thesis using t Some by (auto simp: grp_def)
qed

lemma counter_keys: "fst ` set (counter xs) = set xs"
  using dedup_from_keys [of id "{}" xs] by (auto simp: counter_def image_image)

text \<open>
  The list and the detail of the signature explorer agree on a label conflict. The list counts the
  distinct groups of the database column, the detail the distinct groups of the inspector's own table;
  for rows whose locators carry a known group, or none, both counts and so both marks are equal.
\<close>

theorem conflict_views_agree:
  assumes "\<forall>m \<in> set (members_of_hash db p h). known_locator (ti_issue_type (snd m))"
    and "signature_hash db p h = Some d"
  shows "hx_distinct_nonti (hash_entry_of (signed_items db p) h) = hd_distinct_nonti d
    \<and> hx_is_conflict (hash_entry_of (signed_items db p) h) = hd_is_conflict d"
proof -
  let ?rows = "map snd (members_of_hash db p h)"
  have known: "grp (ti_issue_type r) = (case label_group (ti_issue_type r) of None \<Rightarrow> ''none'' | Some g \<Rightarrow> g)"
    if "r \<in> set ?rows" for r
    using that assms(1) by (auto intro!: grp_known)
  have "set (map lb_group (label_rows ?rows)) = (\<lambda>l. grp l) ` fst ` set (counter (map ti_issue_type ?rows))"
    unfolding label_rows_def set_map set_sort image_image by (simp add: case_prod_unfold)
  also have "\<dots> = (\<lambda>r. grp (ti_issue_type r)) ` set ?rows"
    unfolding counter_keys by (simp add: image_image)
  finally have groups: "set (shown_groups (label_rows ?rows)) =
      {g. g \<in> (\<lambda>r. grp (ti_issue_type r)) ` set ?rows \<and> g \<noteq> ''ti'' \<and> g \<noteq> ''none''}"
    by (auto simp: shown_groups_def)
  let ?A = "(\<lambda>r. label_group (ti_issue_type r)) ` set (filter labelled ?rows)"
  have none: "label_group (ti_issue_type r) \<noteq> Some ''none''" if "r \<in> set ?rows" for r
    using that assms(1) by (auto simp: known_locator_def LABEL_GROUPS_def split: option.splits)
  have "?A = Some ` set (shown_groups (label_rows ?rows))"
  proof (intro set_eqI iffI)
    fix x
    assume "x \<in> ?A"
    then obtain r where m0: "x = label_group (ti_issue_type r)" "r \<in> set (filter labelled ?rows)"
      by (rule imageE)
    then have m: "r \<in> set ?rows" "labelled r" by simp_all
    then obtain g where "label_group (ti_issue_type r) = Some g" "g \<noteq> ''ti''"
      by (auto simp: labelled_def split: option.splits)
    with m m0 have r: "r \<in> set ?rows" "label_group (ti_issue_type r) = Some g" "g \<noteq> ''ti''" "x = Some g"
      by simp_all
    have "grp (ti_issue_type r) = g" "g \<noteq> ''none''" using known [OF r(1)] none [OF r(1)] r(2) by simp_all
    with r show "x \<in> Some ` set (shown_groups (label_rows ?rows))" unfolding groups by blast
  next
    fix x
    assume "x \<in> Some ` set (shown_groups (label_rows ?rows))"
    then obtain r where r: "r \<in> set ?rows" "x = Some (grp (ti_issue_type r))"
        "grp (ti_issue_type r) \<noteq> ''ti''" "grp (ti_issue_type r) \<noteq> ''none''"
      unfolding groups by blast
    then have g: "label_group (ti_issue_type r) = Some (grp (ti_issue_type r))"
      using known [OF r(1)] by (auto split: option.splits)
    with r have "labelled r" by (simp add: labelled_def)
    with r(1) have "r \<in> set (filter labelled ?rows)" by simp
    then show "x \<in> ?A" unfolding r(2) g [symmetric] by (rule imageI)
  qed
  then have "card ?A = card (set (shown_groups (label_rows ?rows)))" by (simp add: card_image)
  moreover have "distinct_nonti ?rows = card ?A"
    by (simp add: distinct_nonti_def n_distinct_def length_remdups_card_conv)
  moreover have "length (shown_groups (label_rows ?rows)) = card (set (shown_groups (label_rows ?rows)))"
    by (rule distinct_card [symmetric]) (simp add: shown_groups_def)
  ultimately have n: "distinct_nonti ?rows = length (shown_groups (label_rows ?rows))" by simp
  have "hx_distinct_nonti (hash_entry_of (signed_items db p) h) = distinct_nonti ?rows"
    "hx_is_conflict (hash_entry_of (signed_items db p) h) = (distinct_nonti ?rows > 1)"
    by (simp_all add: hash_entry_of_def members_of_hash_def Let_def)
  moreover have "hd_distinct_nonti d = length (shown_groups (label_rows ?rows))"
    "hd_is_conflict d = (length (shown_groups (label_rows ?rows)) > 1)"
    using assms(2) by (auto simp: signature_hash_def Let_def)
  ultimately show ?thesis by (simp add: n)
qed

definition demo_item_row :: "int \<Rightarrow> string \<Rightarrow> item_row" where
  "demo_item_row i t =
     \<lparr>ti_project_id = 7, ti_item_id = i, ti_launch_id = 1, ti_launch_name = ''nightly'', ti_launch_number = None,
      ti_test_case_hash = None, ti_unique_id = None, ti_item_name = ''login'', ti_start_time = None,
      ti_is_auto_analyzed = False, ti_issue_type = Some t, ti_log_count = 1, ti_log_time_max = None,
      ti_indexed_at = 0\<rparr>"

definition demo_sig_row :: "int \<Rightarrow> sig_row" where
  "demo_sig_row i =
     \<lparr>fs_project_id = 7, fs_item_id = i, fs_exception_fp = 3, fs_error_hash = 5, fs_top_frames = [],
      fs_template_ids = [], fs_exc_text = ''Timeout'', fs_msg_text = [], fs_frames_text = [], fs_tmpl_text = [],
      fs_only_numbers = [], fs_status_codes = [], fs_urls = [], fs_paths = [], fs_emb = None,
      fs_emb_model_ver = 0, fs_error_log_id = None\<rparr>"

definition demo_conflict_db :: db where
  "demo_conflict_db = empty_db\<lparr>db_items := [demo_item_row 1 ''pb001'', demo_item_row 2 ''ab001''],
     db_sigs := [demo_sig_row 1, demo_sig_row 2]\<rparr>"

lemma hash_found:
  assumes "members_of_hash db p h \<noteq> []"
  shows "\<exists>d. signature_hash db p h = Some d"
proof (cases "sort_key (\<lambda>(s, r). (\<not> labelled r, fs_item_id s)) (members_of_hash db p h)")
  case Nil
  then have "length (members_of_hash db p h) = 0" by (metis length_sort list.size(3))
  with assms show ?thesis by simp
next
  case (Cons m ms)
  then show ?thesis by (cases m) (simp add: signature_hash_def Let_def)
qed

theorem conflict_views_agree_witness:
  "\<exists>d. signature_hash demo_conflict_db 7 5 = Some d \<and> hd_is_conflict d
     \<and> hx_is_conflict (hash_entry_of (signed_items demo_conflict_db 7) 5)"
proof -
  have ms: "signed_items demo_conflict_db 7 =
      [(demo_sig_row 1, demo_item_row 1 ''pb001''), (demo_sig_row 2, demo_item_row 2 ''ab001'')]"
    by (simp add: signed_items_def rows_of_def demo_conflict_db_def demo_item_row_def demo_sig_row_def)
  have g: "label_group (Some ''pb001'') = Some ''pb''" "label_group (Some ''ab001'') = Some ''ab''"
    by (simp_all add: label_group_def is_lower_def)
  have k: "\<forall>m \<in> set (members_of_hash demo_conflict_db 7 5). known_locator (ti_issue_type (snd m))"
    by (simp add: members_of_hash_def ms demo_sig_row_def demo_item_row_def known_locator_def g LABEL_GROUPS_def)
  obtain d where d: "signature_hash demo_conflict_db 7 5 = Some d"
    using hash_found [of demo_conflict_db 7 5] by (auto simp: members_of_hash_def ms demo_sig_row_def)
  have "hx_is_conflict (hash_entry_of (signed_items demo_conflict_db 7) 5)"
    by (simp add: hash_entry_of_def ms distinct_nonti_def n_distinct_def demo_sig_row_def demo_item_row_def
        labelled_def g Let_def)
  with conflict_views_agree [OF k d] d show ?thesis by blast
qed

text \<open>A locator outside the known groups: the column tells two made-up groups apart, the detail does not.\<close>

lemma unknown_groups_disagree:
  "distinct_nonti [demo_item_row 1 ''xx001'', demo_item_row 2 ''yy001''] = 2
   \<and> length (shown_groups (label_rows [demo_item_row 1 ''xx001'', demo_item_row 2 ''yy001''])) = 1"
proof -
  have g: "label_group (Some ''xx001'') = Some ''xx''" "label_group (Some ''yy001'') = Some ''yy''"
    by (simp_all add: label_group_def is_lower_def)
  have "grp (Some ''xx001'') = ''other''" "grp (Some ''yy001'') = ''other''"
    by (simp_all add: grp_def LABEL_GROUPS_def starts_with_def)
  moreover have "set (map lb_group (label_rows [demo_item_row 1 ''xx001'', demo_item_row 2 ''yy001'']))
      = {grp (Some ''xx001''), grp (Some ''yy001'')}"
    unfolding label_rows_def set_map set_sort image_image
    by (auto simp: case_prod_unfold counter_def demo_item_row_def)
  ultimately have "set (shown_groups (label_rows [demo_item_row 1 ''xx001'', demo_item_row 2 ''yy001''])) = {''other''}"
    by (auto simp: shown_groups_def)
  moreover have "distinct (shown_groups (label_rows [demo_item_row 1 ''xx001'', demo_item_row 2 ''yy001'']))"
    by (simp add: shown_groups_def)
  ultimately have "length (shown_groups (label_rows [demo_item_row 1 ''xx001'', demo_item_row 2 ''yy001''])) = 1"
    by (metis One_nat_def card.empty card_insert_disjoint distinct_card empty_iff finite.emptyI)
  then show ?thesis
    by (simp add: distinct_nonti_def n_distinct_def demo_item_row_def labelled_def g)
qed

section \<open>Counts and bounds\<close>

lemma counts_disjoint:
  assumes "\<And>r. \<not> (P r \<and> Q r)"
  shows "n_where P xs + n_where Q xs \<le> length xs"
  using assms by (induction xs) (auto simp: n_where_def)

lemma breakdown_total: "sum_list (map lb_count (label_breakdown labels)) = length labels"
proof -
  have "mset (map lb_count (label_breakdown labels)) = mset (map snd (counter labels))"
    by (simp add: label_breakdown_def case_prod_unfold multiset.map_comp comp_def)
  then have "sum_list (map lb_count (label_breakdown labels)) = sum_list (map snd (counter labels))"
    by (metis sum_mset_sum_list)
  then show ?thesis by (simp add: counter_total)
qed

lemma view_event_floors:
  "VIEW_GBM_MIN_EVENTS = GBM_MIN_EVENTS" "VIEW_CALIB_MIN_EVENTS = CALIB_MIN_EVENTS"
  by (simp_all add: VIEW_GBM_MIN_EVENTS_def VIEW_CALIB_MIN_EVENTS_def GBM_MIN_EVENTS_def CALIB_MIN_EVENTS_def)

lemma sort_key_head:
  assumes "x \<in> set xs" and "\<And>y. y \<in> set xs \<Longrightarrow> f y \<le> f x \<Longrightarrow> y = x"
  shows "\<exists>ys. sort_key f xs = x # ys"
proof (cases "sort_key f xs")
  case Nil
  with assms(1) show ?thesis by (metis empty_iff empty_set set_sort)
next
  case (Cons y ys)
  then have "y \<in> set xs" by (metis list.set_intros(1) set_sort)
  moreover have "f y \<le> f x"
  proof (cases "x = y")
    case False
    then have "x \<in> set ys" using assms(1) Cons by (metis set_ConsD set_sort)
    then show ?thesis using sorted_sort_key [of f xs] Cons by auto
  qed simp
  ultimately show ?thesis using assms(2) Cons by blast
qed

text \<open>
  The member strip of a group is bounded and honest: at most sixty items, all of the project, each in
  the group by a stored row or by its hash, marked as the item itself exactly when they are; and the item
  asked for comes first whenever it is one of them, so the cap never drops it.
\<close>

theorem group_members_bounded:
  assumes "unique_by item_key (db_items db)"
  shows "length (group_members db p l self g) \<le> GROUP_MEMBER_CAP
    \<and> (\<forall>m \<in> set (group_members db p l self g).
         (\<exists>r \<in> set (db_items db). item_key r = (p, me_item_id m) \<and> in_group db p l g r)
         \<and> (me_is_self m \<longleftrightarrow> me_item_id m = self))
    \<and> (\<forall>r \<in> set (db_items db). item_key r = (p, self) \<and> in_group db p l g r
         \<longrightarrow> (\<exists>m ms. group_members db p l self g = m # ms \<and> me_is_self m))"
proof (intro conjI ballI impI)
  let ?rows = "filter (in_group db p l g) (items_of db p)"
  let ?key = "\<lambda>r. (ti_item_id r \<noteq> self, ti_item_id r)"
  show "length (group_members db p l self g) \<le> GROUP_MEMBER_CAP" by (simp add: group_members_def)
  fix m
  assume "m \<in> set (group_members db p l self g)"
  then obtain r where r: "r \<in> set ?rows" "me_item_id m = ti_item_id r" "me_is_self m = (ti_item_id r = self)"
    by (auto simp: group_members_def dest: in_set_takeD)
  then show "\<exists>r \<in> set (db_items db). item_key r = (p, me_item_id m) \<and> in_group db p l g r"
    by (auto simp: rows_of_def item_key_def)
  show "me_is_self m \<longleftrightarrow> me_item_id m = self" using r by simp
next
  let ?rows = "filter (in_group db p l g) (items_of db p)"
  let ?key = "\<lambda>r. (ti_item_id r \<noteq> self, ti_item_id r)"
  fix r
  assume r: "r \<in> set (db_items db)" "item_key r = (p, self) \<and> in_group db p l g r"
  then have mem: "r \<in> set ?rows" by (simp add: rows_of_def item_key_def)
  have "y = r" if "y \<in> set ?rows" "?key y \<le> ?key r" for y
  proof -
    have "ti_item_id y = self" using that(2) r(2) by (auto simp: item_key_def less_eq_prod_def)
    then have "item_key y = item_key r" using that(1) r(2) by (simp add: rows_of_def item_key_def)
    then show ?thesis using unique_byD [OF assms _ r(1)] that(1) by (simp add: rows_of_def)
  qed
  from sort_key_head [where f = ?key, OF mem this] obtain ys where "sort_key ?key ?rows = r # ys" by blast
  then show "\<exists>m ms. group_members db p l self g = m # ms \<and> me_is_self m"
    using r(2) by (simp add: group_members_def GROUP_MEMBER_CAP_def item_key_def)
qed

theorem group_members_bounded_witness:
  "let g = \<lparr>lg_project_id = 7, lg_group_id = 1, lg_launch_id = 1, lg_fingerprint = 5, lg_member_count = 2,
            lg_group_si_prior = 0, lg_dominant = True\<rparr>
   in \<exists>m ms. group_members demo_conflict_db 7 1 2 g = m # ms \<and> me_is_self m"
proof -
  define g where "g = \<lparr>lg_project_id = 7, lg_group_id = 1, lg_launch_id = 1, lg_fingerprint = 5,
    lg_member_count = 2, lg_group_si_prior = 0, lg_dominant = True\<rparr>"
  have u: "unique_by item_key (db_items demo_conflict_db)"
    by (simp add: unique_by_def demo_conflict_db_def item_key_def demo_item_row_def)
  have "demo_item_row 2 ''ab001'' \<in> set (db_items demo_conflict_db)"
    "item_key (demo_item_row 2 ''ab001'') = (7, 2)" "in_group demo_conflict_db 7 1 g (demo_item_row 2 ''ab001'')"
    by (simp_all add: demo_conflict_db_def item_key_def demo_item_row_def in_group_def rows_of_def demo_sig_row_def
        g_def empty_db_def)
  with group_members_bounded [OF u, of 7 1 2 g] show ?thesis unfolding g_def Let_def by blast
qed

end
