(* ===== verification/Excerpt.thy ===== *)
theory Excerpt
  imports Signature
begin

text \<open>
  \<open>llm/excerpt.py\<close>: middle-out truncation of a log excerpt to a token slice. Whether a line reads as
  an exception header (a regular expression) is an argument. The shrinking loop is a recursion on
  the three window sizes; its theorems are termination, what the result keeps and what it can weigh.
\<close>

definition HEAD_LINES :: nat where "HEAD_LINES = 15"
definition TAIL_LINES :: nat where "TAIL_LINES = 10"
definition ROOT_MAX_LINES :: nat where "ROOT_MAX_LINES = 40"

text \<open>\<open>ceil(len * 11 / 40)\<close>.\<close>

definition estimate_tokens :: "string \<Rightarrow> nat" where
  "estimate_tokens s = (length s * 11 + 39) div 40"

text \<open>\<open>^\s*Caused by:\<close>, ignoring case.\<close>

definition is_caused_by :: "string \<Rightarrow> bool" where
  "is_caused_by l = starts_with ''caused by:'' (lower_str (lstrip_by is_space l))"

text \<open>The start and the length of the root exception block, or \<open>None\<close>.\<close>

definition root_anchor :: "(string \<Rightarrow> bool) \<Rightarrow> string list \<Rightarrow> nat option" where
  "root_anchor is_exc lines =
     (case rev (filter (\<lambda>i. is_caused_by (lines ! i)) [0..<length lines]) of
        i # _ \<Rightarrow> Some i
      | [] \<Rightarrow> List.find (\<lambda>i. is_exc (lines ! i)) [0..<length lines])"

definition root_block_bounds :: "(string \<Rightarrow> bool) \<Rightarrow> string list \<Rightarrow> (nat \<times> nat) option" where
  "root_block_bounds is_exc lines =
     map_option (\<lambda>a. (a, a + 1 + length (takeWhile has_text
         (take (min (a + ROOT_MAX_LINES) (length lines) - (a + 1)) (drop (a + 1) lines)))))
       (root_anchor is_exc lines)"

definition elision :: "nat \<Rightarrow> string" where
  "elision n = ''... ['' @ show_nat n @ '' lines elided by analyzer] ...''"

fun render_lines :: "(nat \<Rightarrow> bool) \<Rightarrow> nat option \<Rightarrow> nat \<Rightarrow> string list \<Rightarrow> string list" where
  "render_lines keep prev i [] = []"
| "render_lines keep prev i (l # ls) =
     (if \<not> keep i then render_lines keep prev (Suc i) ls
      else (case prev of Some p \<Rightarrow> if i > p + 1 then [elision (i - p - 1)] else [] | None \<Rightarrow> [])
           @ l # render_lines keep (Some i) (Suc i) ls)"

definition kept :: "nat \<Rightarrow> nat option \<Rightarrow> nat \<Rightarrow> nat \<Rightarrow> nat \<Rightarrow> nat \<Rightarrow> bool" where
  "kept n rs head tail root_len i \<longleftrightarrow>
     i < min head n \<or> (tail > 0 \<and> n - tail \<le> i \<and> i < n)
     \<or> (case rs of None \<Rightarrow> False | Some s \<Rightarrow> s \<le> i \<and> i < s + root_len)"

definition rendered :: "string list \<Rightarrow> nat option \<Rightarrow> nat \<Rightarrow> nat \<Rightarrow> nat \<Rightarrow> string" where
  "rendered lines rs head tail root_len =
     join_with [newline] (render_lines (kept (length lines) rs head tail root_len) None 0 lines)"

function shrink :: "string list \<Rightarrow> nat option \<Rightarrow> nat \<Rightarrow> nat \<Rightarrow> nat \<Rightarrow> nat \<Rightarrow> string" where
  "shrink lines rs max_tokens head tail root_len =
     (let r = rendered lines rs head tail root_len
      in if estimate_tokens r \<le> max_tokens then r
         else if tail > 0 then shrink lines rs max_tokens head (tail - 1) root_len
         else if head > 0 then shrink lines rs max_tokens (head - 1) tail root_len
         else if root_len > 1 then shrink lines rs max_tokens head tail (root_len - 1)
         else r)"
  by pat_completeness auto
termination
  by (relation "measure (\<lambda>(lines, rs, m, head, tail, root_len). head + tail + root_len)") auto

declare shrink.simps [simp del]

definition middle_out :: "(string \<Rightarrow> bool) \<Rightarrow> string \<Rightarrow> nat \<Rightarrow> string" where
  "middle_out is_exc t max_tokens =
     (if estimate_tokens t \<le> max_tokens then t
      else (let lines = split_on newline t
            in case root_block_bounds is_exc lines of
                 None \<Rightarrow> shrink lines None max_tokens HEAD_LINES TAIL_LINES 0
               | Some (s, e) \<Rightarrow> shrink lines (Some s) max_tokens HEAD_LINES TAIL_LINES (e - s)))"

section \<open>What the loop ends with\<close>

lemma shrink_cases:
  "estimate_tokens (shrink lines rs m head tail root_len) \<le> m
   \<or> (\<exists>k \<le> 1. shrink lines rs m head tail root_len = rendered lines rs 0 0 k \<and> k \<le> root_len)"
proof (induction lines rs m head tail root_len rule: shrink.induct)
  case (1 lines rs m head tail root_len)
  show ?case
  proof (cases "estimate_tokens (rendered lines rs head tail root_len) \<le> m")
    case True
    then show ?thesis by (simp add: shrink.simps [of lines rs m head tail root_len] Let_def)
  next
    case big: False
    note eq = shrink.simps [of lines rs m head tail root_len, unfolded Let_def if_not_P [OF big]]
    consider (tail) "tail > 0" | (head) "tail = 0" "head > 0"
      | (root) "tail = 0" "head = 0" "root_len > 1" | (stop) "tail = 0" "head = 0" "root_len \<le> 1"
      by linarith
    then show ?thesis
    proof cases
      case tail
      then show ?thesis using "1.IH"(1) [OF refl big tail] unfolding eq by simp
    next
      case head
      then show ?thesis using "1.IH"(2) [OF refl big _ head(2)] unfolding eq by simp
    next
      case root
      then have "estimate_tokens (shrink lines rs m head tail (root_len - 1)) \<le> m
          \<or> (\<exists>k \<le> 1. shrink lines rs m head tail (root_len - 1) = rendered lines rs 0 0 k
               \<and> k \<le> root_len - 1)"
        using "1.IH"(3) [OF refl big] by simp
      then show ?thesis using root unfolding eq by auto
    next
      case stop
      then show ?thesis unfolding eq by auto
    qed
  qed
qed

lemma render_none: "\<forall>i. \<not> keep i \<Longrightarrow> render_lines keep prev j ls = []"
  by (induction ls arbitrary: j) auto

lemma render_one:
  assumes "\<forall>i. keep i \<longleftrightarrow> i = a" and "j \<le> a" and "a < j + length ls"
  shows "render_lines keep None j ls = [ls ! (a - j)]"
  using assms(2,3)
proof (induction ls arbitrary: j)
  case Nil
  then show ?case by simp
next
  case (Cons l ls)
  show ?case
  proof (cases "j = a")
    case True
    have "render_lines keep (Some a) (Suc k) ls = []" if "a \<le> k" for k
      using that assms(1) by (induction ls arbitrary: k) auto
    from this [of a] have "render_lines keep (Some a) (Suc a) ls = []" by simp
    moreover have "keep a" using assms(1) by blast
    ultimately show ?thesis using True by simp
  next
    case False
    then have "render_lines keep None (Suc j) ls = [ls ! (a - Suc j)]" using Cons by simp
    moreover have "\<not> keep j" using assms(1) False by blast
    ultimately show ?thesis using False Cons.prems by (simp add: nth_Cons')
  qed
qed

lemma rendered_minimal:
  assumes "k \<le> 1"
  shows "rendered lines rs 0 0 k = [] \<or> (\<exists>a. rs = Some a \<and> a < length lines \<and> k = 1
      \<and> rendered lines rs 0 0 k = lines ! a) \<or> (\<exists>a. rs = Some a \<and> length lines \<le> a)"
proof (cases rs)
  case None
  then show ?thesis by (simp add: rendered_def kept_def render_none)
next
  case (Some a)
  show ?thesis
  proof (cases "k = 0")
    case True
    then show ?thesis using Some by (simp add: rendered_def kept_def render_none)
  next
    case False
    then have k: "k = 1" using assms by simp
    have "kept (length lines) rs 0 0 k = (\<lambda>i. i = a)"
      by (rule ext) (auto simp: kept_def Some k)
    then show ?thesis using render_one [of "\<lambda>i. i = a" a 0 lines] Some k
      by (cases "a < length lines") (simp_all add: rendered_def)
  qed
qed

lemma root_anchor_length: "root_anchor is_exc lines = Some a \<Longrightarrow> a < length lines"
proof -
  assume r: "root_anchor is_exc lines = Some a"
  show ?thesis
  proof (cases "rev (filter (\<lambda>i. is_caused_by (lines ! i)) [0..<length lines])")
    case Nil
    then show ?thesis using r by (auto simp: root_anchor_def find_Some_iff)
  next
    case (Cons x xs)
    then have "x \<in> set (rev (filter (\<lambda>i. is_caused_by (lines ! i)) [0..<length lines]))" by simp
    then have "x < length lines" by auto
    then show ?thesis using r Cons by (simp add: root_anchor_def)
  qed
qed

text \<open>
  Middle-out ends and says what it may weigh. For every text and slice the loop terminates (it is
  a total function); its result fits the slice, or it is the single first line of the root exception
  block, whole.
\<close>

theorem middle_out_fits_or_root_line:
  "estimate_tokens (middle_out is_exc t m) \<le> m
   \<or> (\<exists>a. root_anchor is_exc (split_on newline t) = Some a
        \<and> middle_out is_exc t m = split_on newline t ! a)"
proof (cases "estimate_tokens t \<le> m")
  case True
  then show ?thesis by (simp add: middle_out_def)
next
  case big: False
  let ?ls = "split_on newline t"
  have nil: "estimate_tokens [] \<le> m" by (simp add: estimate_tokens_def)
  show ?thesis
  proof (cases "root_anchor is_exc ?ls")
    case None
    then have mo: "middle_out is_exc t m = shrink ?ls None m HEAD_LINES TAIL_LINES 0"
      using big by (simp add: middle_out_def root_block_bounds_def Let_def)
    have "rendered ?ls None 0 0 k = []" for k by (simp add: rendered_def kept_def render_none)
    then show ?thesis using shrink_cases [of ?ls None m HEAD_LINES TAIL_LINES 0] nil
      unfolding mo by auto
  next
    case (Some a)
    obtain e where e: "root_block_bounds is_exc ?ls = Some (a, e)"
      using Some by (simp add: root_block_bounds_def)
    then have mo: "middle_out is_exc t m = shrink ?ls (Some a) m HEAD_LINES TAIL_LINES (e - a)"
      using big by (simp add: middle_out_def Let_def)
    have "a < length ?ls" by (rule root_anchor_length [OF Some])
    then have "rendered ?ls (Some a) 0 0 k = [] \<or> rendered ?ls (Some a) 0 0 k = ?ls ! a" if "k \<le> 1" for k
      using rendered_minimal [OF that, of ?ls "Some a"] by auto
    then show ?thesis using shrink_cases [of ?ls "Some a" m HEAD_LINES TAIL_LINES "e - a"] nil Some
      unfolding mo by metis
  qed
qed

lemma rendered_single:
  "rendered [l] None head tail 0 = (if head = 0 \<and> tail = 0 then [] else l)"
  by (simp add: rendered_def kept_def)

lemma shrink_single:
  assumes "\<not> estimate_tokens l \<le> m"
  shows "shrink [l] None m head tail 0 = []"
proof (induction "head + tail" arbitrary: head tail)
  case 0
  then show ?case by (simp add: shrink.simps [of "[l]"] rendered_single Let_def)
next
  case (Suc n)
  have r: "rendered [l] None head tail 0 = l" using Suc.hyps(2) by (auto simp: rendered_single)
  note eq = shrink.simps [of "[l]" None m head tail 0, unfolded Let_def r if_not_P [OF assms]]
  show ?case
  proof (cases "tail > 0")
    case True
    then show ?thesis unfolding eq using Suc.hyps(1) [of head "tail - 1"] Suc.hyps(2) by simp
  next
    case False
    then show ?thesis unfolding eq using Suc.hyps(1) [of "head - 1" tail] Suc.hyps(2) by simp
  qed
qed

text \<open>
  A long single line is lost or not cut at all. When the text is one line over the slice, the
  excerpt is empty if the line is no exception header, and the whole over-long line if it is one:
  no window is ever cut inside a line.
\<close>

theorem middle_out_single_line:
  assumes "newline \<notin> set l" and "\<not> estimate_tokens l \<le> m"
  shows "middle_out is_exc l m = (if is_exc l \<or> is_caused_by l then l else [])"
proof -
  have ls: "split_on newline l = [l]" using assms(1) by (induction l) auto
  show ?thesis
  proof (cases "is_exc l \<or> is_caused_by l")
    case False
    then have "root_anchor is_exc [l] = None" by (simp add: root_anchor_def)
    then show ?thesis using False assms(2) ls shrink_single [OF assms(2)]
      by (simp add: middle_out_def root_block_bounds_def Let_def)
  next
    case True
    have anchor: "root_anchor is_exc [l] = Some 0" using True by (auto simp: root_anchor_def)
    have mo: "middle_out is_exc l m = shrink [l] (Some 0) m HEAD_LINES TAIL_LINES 1"
      using anchor assms(2) ls by (simp add: middle_out_def root_block_bounds_def Let_def)
    have r: "rendered [l] (Some 0) head tail 1 = l" for head tail
      by (simp add: rendered_def kept_def)
    have "shrink [l] (Some 0) m head tail 1 = l" for head tail
    proof (induction "head + tail" arbitrary: head tail)
      case 0
      then show ?case unfolding shrink.simps [of "[l]" "Some 0" m head tail 1] Let_def r by simp
    next
      case (Suc n)
      note eq = shrink.simps [of "[l]" "Some 0" m head tail 1, unfolded Let_def r if_not_P [OF assms(2)]]
      show ?case
      proof (cases "tail > 0")
        case True
        then show ?thesis unfolding eq using Suc.hyps(1) [of head "tail - 1"] Suc.hyps(2) by simp
      next
        case False
        then show ?thesis unfolding eq using Suc.hyps(1) [of "head - 1" tail] Suc.hyps(2) by simp
      qed
    qed
    then show ?thesis using True by (simp add: mo)
  qed
qed

theorem middle_out_single_line_witness:
  "middle_out (\<lambda>_. False) (replicate 9000 (CHR ''x'')) 2200 = []"
proof -
  have "newline \<noteq> CHR ''x''" by code_simp
  then have "newline \<notin> set (replicate 9000 (CHR ''x''))" by simp
  moreover have "\<not> estimate_tokens (replicate 9000 (CHR ''x'')) \<le> 2200" by (simp add: estimate_tokens_def)
  moreover have "\<not> is_caused_by (replicate 9000 (CHR ''x''))"
  proof -
    have "replicate 9000 (CHR ''x'') = CHR ''x'' # replicate 8999 (CHR ''x'')" by (simp add: replicate_Suc [symmetric])
    then show ?thesis
      by (simp only:) (simp add: is_caused_by_def lstrip_by_def is_space_def lower_str_def lower_char_def
        is_upper_def starts_with_def)
  qed
  ultimately show ?thesis using middle_out_single_line [of "replicate 9000 (CHR ''x'')" 2200 "\<lambda>_. False"]
    by simp
qed

end
