(* ===== verification/TextLines.thy ===== *)
theory TextLines
  imports Signature Regex "HOL-Library.Sublist"
begin

text \<open>
  \<open>preprocessing/text_processing.py\<close>, first half: words and stop words, exception names, HTTP status
  codes, the decision whether a line belongs to a stack trace and the split of a log into its
  description and its trace, the near-duplicate filter, and the similarity of texts. The regular
  expressions are terms of \<open>Regex\<close>; the TF-IDF matrix and its cosine similarities are arguments.
\<close>

section \<open>Characters\<close>

definition dq :: char where "dq = CHR 0x22"
definition sq :: char where "sq = CHR 0x27"
definition bsl :: char where "bsl = CHR 0x5C"
definition bq :: char where "bq = CHR 0x60"

definition dq_re :: regex where "dq_re = Chr (\<lambda>c. c = CHR 0x22)"
definition sq_re :: regex where "sq_re = Chr (\<lambda>c. c = CHR 0x27)"
definition nl_re :: regex where "nl_re = Chr (\<lambda>c. c = CHR 0x0A)"
definition upper_re :: regex where "upper_re = Chr is_upper"
definition lower_re :: regex where "lower_re = Chr is_lower"
definition nwrd :: regex where "nwrd = Chr (\<lambda>c. \<not> is_word c)"
definition ndig :: regex where "ndig = Chr (\<lambda>c. \<not> is_digit c)"

text \<open>\<open>[a-zA-Z0-9_-]\<close>, \<open>[0-9a-f]\<close> and \<open>[0-9a-fA-F]\<close>.\<close>

definition ident_re :: regex where "ident_re = Chr (\<lambda>c. is_word c \<or> c = CHR ''-'')"
definition hexl_re :: regex where "hexl_re = Chr (\<lambda>c. is_digit c \<or> between CHR ''a'' CHR ''f'' c)"
definition hex_re :: regex where
  "hex_re = Chr (\<lambda>c. is_digit c \<or> between CHR ''a'' CHR ''f'' c \<or> between CHR ''A'' CHR ''F'' c)"

text \<open>A list of substitutions, applied in order.\<close>

type_synonym subst = "regex \<times> (rmatch \<Rightarrow> string)"

definition replace_patterns :: "string \<Rightarrow> subst list \<Rightarrow> string" where
  "replace_patterns text ps = foldl (\<lambda>t p. re_sub_with (fst p) (snd p) t) text ps"

definition remove_patterns :: "string \<Rightarrow> regex list \<Rightarrow> string" where
  "remove_patterns text ps = replace_patterns text (map (\<lambda>p. (p, \<lambda>_. [])) ps)"

section \<open>Words\<close>

definition STOPWORDS :: "string list" where
  "STOPWORDS = [''a'', ''about'', ''above'', ''after'', ''again'', ''against'', ''ain'', ''all'', ''am'',
     ''an'', ''and'', ''any'', ''are'', ''aren'', ''aren't'', ''as'', ''at'', ''be'',
     ''because'', ''been'', ''before'', ''being'', ''below'', ''between'', ''both'', ''but'',
     ''by'', ''can'', ''couldn'', ''couldn't'', ''d'', ''did'', ''didn'', ''didn't'', ''do'',
     ''does'', ''doesn'', ''doesn't'', ''doing'', ''don'', ''don't'', ''down'', ''during'',
     ''each'', ''few'', ''for'', ''from'', ''further'', ''had'', ''hadn'', ''hadn't'', ''has'',
     ''hasn'', ''hasn't'', ''have'', ''haven'', ''haven't'', ''having'', ''he'', ''he'd'',
     ''he'll'', ''her'', ''here'', ''hers'', ''herself'', ''he's'', ''him'', ''himself'',
     ''his'', ''how'', ''i'', ''i'd'', ''if'', ''i'll'', ''i'm'', ''in'', ''into'', ''is'',
     ''isn'', ''isn't'', ''it'', ''it'd'', ''it'll'', ''it's'', ''its'', ''itself'', ''i've'',
     ''just'', ''ll'', ''m'', ''ma'', ''me'', ''mightn'', ''mightn't'', ''more'', ''most'',
     ''mustn'', ''mustn't'', ''my'', ''myself'', ''needn'', ''needn't'', ''no'', ''nor'',
     ''not'', ''now'', ''o'', ''of'', ''off'', ''on'', ''once'', ''only'', ''or'', ''other'',
     ''our'', ''ours'', ''ourselves'', ''out'', ''over'', ''own'', ''re'', ''s'', ''same'',
     ''shan'', ''shan't'', ''she'', ''she'd'', ''she'll'', ''she's'', ''should'', ''shouldn'',
     ''shouldn't'', ''should've'', ''so'', ''some'', ''such'', ''t'', ''than'', ''that'',
     ''that'll'', ''the'', ''their'', ''theirs'', ''them'', ''themselves'', ''then'',
     ''there'', ''these'', ''they'', ''they'd'', ''they'll'', ''they're'', ''they've'',
     ''this'', ''those'', ''through'', ''to'', ''too'', ''under'', ''until'', ''up'', ''ve'',
     ''very'', ''was'', ''wasn'', ''wasn't'', ''we'', ''we'd'', ''we'll'', ''we're'', ''were'',
     ''weren'', ''weren't'', ''we've'', ''what'', ''when'', ''where'', ''which'', ''while'',
     ''who'', ''whom'', ''why'', ''will'', ''with'', ''won'', ''won't'', ''wouldn'',
     ''wouldn't'', ''y'', ''you'', ''you'd'', ''you'll'', ''your'', ''you're'', ''yours'',
     ''yourself'', ''yourselves'', ''you've'']"

definition FILE_EXTENSIONS :: "string list" where
  "FILE_EXTENSIONS = [''java'', ''php'', ''cpp'', ''cs'', ''c'', ''h'', ''js'', ''swift'', ''rb'',
     ''py'', ''scala'']"

text \<open>The characters of \<open>string.punctuation\<close>: the printable ones that are neither letters, digits nor
  blank.\<close>

definition is_punct :: "char \<Rightarrow> bool" where
  "is_punct c \<longleftrightarrow> between (CHR 0x21) (CHR 0x2F) c \<or> between (CHR 0x3A) (CHR 0x40) c
     \<or> between (CHR 0x5B) (CHR 0x60) c \<or> between (CHR 0x7B) (CHR 0x7E) c"

definition punctuation_map :: "bool \<Rightarrow> char \<Rightarrow> char" where
  "punctuation_map split_urls c =
     (if is_punct c \<and> c \<noteq> CHR ''.'' \<and> (split_urls \<or> c \<noteq> CHR ''/'' \<and> c \<noteq> bsl) then CHR '' '' else c)"

definition strip_dots :: "string \<Rightarrow> string" where
  "strip_dots s = rstrip_by (\<lambda>c. c = CHR ''.'') (lstrip_by (\<lambda>c. c = CHR ''.'') s)"

definition split_text_on_words :: "string \<Rightarrow> nat \<Rightarrow> bool \<Rightarrow> string list" where
  "split_text_on_words text min_len only_unique =
     (let ws = filter (\<lambda>w. w \<noteq> [] \<and> min_len \<le> length w \<and> w \<notin> set STOPWORDS)
                 (map (\<lambda>w. strip_dots (strip w)) (split_ws text))
      in if only_unique then dedup_from id {} ws else ws)"

definition split_words :: "string \<Rightarrow> nat \<Rightarrow> bool \<Rightarrow> bool \<Rightarrow> bool \<Rightarrow> string list" where
  "split_words text min_len only_unique split_urls to_lower =
     (if text = [] then []
      else let r = strip (strip_dots (strip (map (punctuation_map split_urls) text)))
           in split_text_on_words (if to_lower then lower_str r else r) min_len only_unique)"

text \<open>The exception, error and failure names of a text, in order of appearance.\<close>

definition exception_re :: "string \<Rightarrow> regex" where
  "exception_re kw = seqs [atleast 3 nsp, lit kw, Grp 1 (alts [sp, Eol])]"

definition names_exception :: "string \<Rightarrow> bool" where
  "names_exception w \<longleftrightarrow>
     list_ex (\<lambda>kw. re_search (exception_re kw) (lower_str w) \<noteq> None) [''error'', ''exception'', ''failure'']"

definition get_found_exceptions :: "string \<Rightarrow> bool \<Rightarrow> string list" where
  "get_found_exceptions text to_lower =
     (if text = [] then []
      else dedup_from id {} (filter names_exception (split_words text 0 True True to_lower)))"

definition find_only_numbers :: "string \<Rightarrow> string" where
  "find_only_numbers s =
     join_with '' '' (split_words
       (re_sub (Chr (\<lambda>c. \<not> (is_digit c \<or> c \<in> {CHR '' '', CHR ''.'', CHR ''_''}))) [] s) 0 False True True)"

section \<open>Lines\<close>

definition filter_empty_lines :: "string list \<Rightarrow> string list" where
  "filter_empty_lines ls = filter has_text ls"

definition delete_empty_lines :: "string \<Rightarrow> string" where
  "delete_empty_lines text = join_with [newline] (filter_empty_lines (split_on newline text))"

definition calculate_line_number :: "string \<Rightarrow> nat" where
  "calculate_line_number text = length (filter has_text (split_on newline text))"

definition get_unique_strings :: "string list \<Rightarrow> string list" where
  "get_unique_strings ss = dedup_from id {} ss"

definition documentation_line :: "string \<Rightarrow> bool" where
  "documentation_line l \<longleftrightarrow> contains ''documentation'' (lower_str l) \<and> contains ''error'' (lower_str l)
     \<and> contains ''visit'' (lower_str l)"

definition leave_only_unique_lines :: "string \<Rightarrow> string" where
  "leave_only_unique_lines message =
     join_with [newline]
       (dedup_from strip {} (filter (\<lambda>l. \<not> documentation_line l) (split_on newline message)))"

section \<open>Stack traces\<close>

definition extension_re :: regex where
  "extension_re = seqs [lit ''.'', Grp 1 (alts (map lit FILE_EXTENSIONS)), Look False (lit ''.''), Bnd]"

definition is_python_log :: "string \<Rightarrow> bool" where
  "is_python_log text \<longleftrightarrow> set (map (grp 1) (re_findall extension_re text)) = {''py''}"

text \<open>The alternatives of the pattern are the file extensions themselves: only the first one is
  preceded by the class and method, only the last one followed by the line number.\<close>

definition starting_message_alternatives :: "regex list" where
  "starting_message_alternatives =
     [seqs [star wrd, star sp, lit ''('', star sp, star dot, lit ''.'', lit (hd FILE_EXTENSIONS)]]
     @ map lit (butlast (tl FILE_EXTENSIONS))
     @ [seqs [lit (last FILE_EXTENSIONS), lit '':'', plus1 dig, star sp, lit '')'']]"

definition is_starting_message_pattern :: "string \<Rightarrow> bool" where
  "is_starting_message_pattern text =
     (case re_search (alts starting_message_alternatives) text of
        Some m \<Rightarrow> starts_with (rm_text m) text
      | None \<Rightarrow> False)"

definition ip_port_re :: regex where
  "ip_port_re = seqs [Grp 1 (seqs [rng 1 3 dig, lit ''.'', rng 1 3 dig, lit ''.'', rng 1 3 dig, lit ''.'',
     rng 1 3 dig]), lit '':'', Grp 2 (plus1 dig)]"

definition line_marker_re :: regex where
  "line_marker_re = seqs [Behind True [\<lambda>c. \<not> is_space c \<and> \<not> is_digit c, \<lambda>c. c = CHR '':''], plus1 dig,
     Look True (seqs [opt (lit '')''), opt (lit '']''), alts [nl_re, Eol]])]"

definition csharp_line_re :: regex where
  "csharp_line_re = seqs [lit_ci ''line'', star sp, plus1 dig, star sp,
     alts [Look True (lit_ci '', in''), Look True (lit_ci '',in''), Look True nl_re, Look True Eol]]"

definition file_extension_re :: regex where
  "file_extension_re = alts (map (\<lambda>e. seqs [lit ''.'', lit_ci e, Look False (lit ''.''), Bnd]) FILE_EXTENSIONS)"

definition java_at_re :: regex where
  "java_at_re = seqs [Bol, star sp, lit ''at'', sp, star (noneof ''(''), lit ''('', star (noneof '')''),
     lit '')'', star sp, Eol]"

definition dotted_call_re :: regex where
  "dotted_call_re = seqs [Bol, star sp, plus1 wrd, plus1 (Grp 1 (seqs [oneof ''./'', star sp, plus1 wrd])),
     star sp, lit ''('', starl dot, lit '')'', star sp, Eol]"

definition matches_all :: "regex \<Rightarrow> string \<Rightarrow> bool" where
  "matches_all r s = (case re_search r s of Some m \<Rightarrow> rm_text m = s | None \<Rightarrow> False)"

definition is_line_from_stacktrace :: "string \<Rightarrow> bool" where
  "is_line_from_stacktrace text =
     (if is_starting_message_pattern text then False
      else let r1 = re_sub line_marker_re '' '' (re_sub ip_port_re [] text)
           in if r1 \<noteq> text then True
      else let r2 = re_sub csharp_line_re ''line '' r1
           in if r2 \<noteq> text then True
      else let r3 = re_sub file_extension_re '' '' r2
           in if r3 \<noteq> text then True
      else matches_all java_at_re r3 \<or> matches_all dotted_call_re r3)"

text \<open>The Python branch: everything from a line that announces a traceback belongs to it, up to the
  next line that names an exception.\<close>

definition traceback_words :: "string list" where
  "traceback_words = [''stacktrace'', ''stack trace'', ''stack-trace'', ''traceback'', ''trace back'']"

definition announces_traceback :: "string \<Rightarrow> bool" where
  "announces_traceback l \<longleftrightarrow> list_ex (\<lambda>k. contains k (lower_str l)) traceback_words"

fun python_parts :: "bool \<Rightarrow> bool \<Rightarrow> string list \<Rightarrow> string list \<times> string list" where
  "python_parts in_trace in_message [] = ([], [])"
| "python_parts in_trace in_message (l # ls) =
     (let announced = announces_traceback l;
          named = \<not> announced \<and> get_found_exceptions l False \<noteq> [];
          t = (if announced then True else if named then False else in_trace);
          m = (if announced then False else if named then True else in_message);
          (ds, st) = python_parts t m ls
      in if t then (ds, l # st) else if m then (l # ds, st) else (ds, st))"

definition detect_log_parts_python :: "string \<Rightarrow> nat \<Rightarrow> string \<times> string" where
  "detect_log_parts_python message n =
     (let (ds, st) = python_parts False True (split_on newline message);
          (ds', st') = (if ds = [] then (last_n (int n) st, if n = 0 then [] else take (length st - n) st)
                        else (ds, st))
      in (join_with [newline] ds', join_with [newline] st'))"

definition frame_parts :: "string list \<Rightarrow> string list \<times> string list" where
  "frame_parts ls =
     (let st = filter is_line_from_stacktrace ls; ds = filter (\<lambda>l. \<not> is_line_from_stacktrace l) ls
      in if ds = [] then (take 1 st, drop 1 st) else (ds, st))"

definition detect_log_description_and_stacktrace :: "string \<Rightarrow> string \<times> string" where
  "detect_log_description_and_stacktrace message =
     (if calculate_line_number message > 2
      then if is_python_log message then detect_log_parts_python message 1
           else (let (ds, st) = frame_parts (split_on newline message)
                 in (join_with [newline] ds, join_with [newline] st))
      else (message, []))"

section \<open>Status codes\<close>

definition HTTP_CODE :: regex where
  "HTTP_CODE = seqs [Chr (between CHR ''1'' CHR ''5''), dig, dig]"

definition ncode :: regex where "ncode = Chr (\<lambda>c. \<not> is_word c \<and> c \<noteq> CHR ''.'')"

text \<open>\<open><head>[^\w.]+(CODE)\D*(CODE)?|<head>[^\w.]+(CODE)?$\<close>.\<close>

definition code_pair_re :: "regex \<Rightarrow> regex" where
  "code_pair_re h =
     alts [seqs [h, plus1 ncode, Grp 1 HTTP_CODE, star ndig, opt (Grp 2 HTTP_CODE)],
           seqs [h, plus1 ncode, opt (Grp 3 HTTP_CODE), Eol]]"

definition code_expected_re :: regex where
  "code_expected_re =
     (let h = seqs [Bnd, lit_ci ''code'', plus1 nwrd, lit_ci ''expected'',
                plus1 (Chr (\<lambda>c. c \<in> set '':.-'' \<or> is_space c)), opt (oneof [dq, sq, bq])]
      in alts [seqs [h, Grp 1 HTTP_CODE, star ndig, opt (Grp 2 HTTP_CODE)],
               seqs [h, Grp 3 HTTP_CODE, opt (oneof [dq, sq, bq]), Eol]])"

definition code_key_re :: regex where
  "code_key_re = seqs [dq_re, alts (map lit_ci [''statusCode'', ''status_code'', ''httpCode'',
     ''http_code'', ''responseCode'', ''response_code'']), dq_re, lit '':'', star sp, opt dq_re,
     Grp 1 HTTP_CODE, Bnd]"

definition code_value_re :: "string \<Rightarrow> regex" where
  "code_value_re w = seqs [Bnd, lit_ci w, Bnd, star (Chr (\<lambda>c. c \<in> set '':='' \<or> is_space c)),
     opt (oneof [dq, sq, bq]), Grp 1 HTTP_CODE, Bnd]"

definition http_line_re :: regex where
  "http_line_re = seqs [Bnd, lit_ci ''http/'', dig, opt (seqs [lit ''.'', dig]), plus1 sp,
     Grp 1 HTTP_CODE, Bnd]"

definition arrow_re :: regex where
  "arrow_re = seqs [lit ''->'', star sp, Grp 1 HTTP_CODE, Bnd]"

definition STATUS_CODES_PATTERNS :: "regex list" where
  "STATUS_CODES_PATTERNS =
     [code_pair_re (seqs [Bnd, lit_ci ''code'']), code_pair_re (seqs [plus1 wrd, lit_ci ''_code'']),
      code_pair_re (seqs [Bnd, lit_ci ''status'']), code_pair_re (seqs [plus1 wrd, lit_ci ''_status'']),
      code_expected_re, code_key_re, code_value_re ''actual'', code_value_re ''expected'',
      code_value_re ''statuscode'', http_line_re, arrow_re]"

definition codes_of_match :: "rmatch \<Rightarrow> string list" where
  "codes_of_match m = filter (\<lambda>c. c \<noteq> []) (map strip (List.map_filter (rm_groups m) [1, 2, 3]))"

definition get_potential_status_codes :: "string \<Rightarrow> string list" where
  "get_potential_status_codes text =
     concat (map (\<lambda>l. concat (map (\<lambda>p. case re_search p l of None \<Rightarrow> [] | Some m \<Rightarrow> codes_of_match m)
       STATUS_CODES_PATTERNS)) (split_on newline text))"

definition get_unique_potential_status_codes :: "string \<Rightarrow> string list" where
  "get_unique_potential_status_codes text = get_unique_strings (get_potential_status_codes text)"

section \<open>Numbers\<close>

definition NUMBER_TAG :: string where "NUMBER_TAG = ''SPECIALNUMBER''"

definition remove_numbers :: "string \<Rightarrow> string" where
  "remove_numbers text = re_sub (plus1 dig) [] (re_sub (seqs [Bnd, plus1 dig, Bnd]) NUMBER_TAG text)"

section \<open>Test names\<close>

text \<open>A dotted word of more than two parts, whose last part is longer than three characters, is followed
  by its last two parts and its last part. The word is spliced into the pattern as it is, so its dots
  match any character.\<close>

definition val_re :: "string \<Rightarrow> regex" where
  "val_re val = seqs ([Bnd, Behind False [\<lambda>c. c = CHR ''.'']] @
     map (\<lambda>c. if c = CHR ''.'' then dot else Chr (\<lambda>x. x = c)) val @ [Look False (lit ''.''), Bnd])"

definition full_path :: "string \<Rightarrow> string" where
  "full_path val = (let ws = split_on (CHR ''.'') val
     in val @ '' '' @ join_with ''.'' (last_n 2 ws) @ '' '' @ join_with ''.'' (last_n 1 ws) @ '' '')"

definition dotted_values :: "string \<Rightarrow> string list" where
  "dotted_values line = filter (\<lambda>w. length (split_on (CHR ''.'') w) > 2 \<and>
     length (last (split_on (CHR ''.'') w)) > 3) (split_words line 0 True True False)"

definition enrich_line :: "string \<Rightarrow> string" where
  "enrich_line line =
     foldl (\<lambda>l val. re_sub (val_re val) (full_path val) l) line
       (sort_key (\<lambda>w. length (split_on (CHR ''.'') w)) (dotted_values line))"

definition enrich_text_with_method_and_classes :: "string \<Rightarrow> string" where
  "enrich_text_with_method_and_classes text =
     join_with [newline] (map enrich_line (split_on newline text))"

definition SPLIT_WORDS_PATTERN :: regex where
  "SPLIT_WORDS_PATTERN = Grp 1 (seqs [upper_re, plus1 (Chr (\<lambda>c. \<not> is_upper c))])"

definition nonblank_parts :: "string list \<Rightarrow> string list" where
  "nonblank_parts ps = map strip (filter has_text ps)"

definition item_name_words :: "string \<Rightarrow> string list" where
  "item_name_words w =
     (if CHR ''.'' \<notin> set w then nonblank_parts (re_split SPLIT_WORDS_PATTERN w)
      else nonblank_parts (split_on (CHR '' '') (enrich_text_with_method_and_classes w))
        @ nonblank_parts (re_split SPLIT_WORDS_PATTERN (last (split_on (CHR ''.'') w))))"

definition preprocess_test_item_name :: "string \<Rightarrow> string" where
  "preprocess_test_item_name text =
     join_with '' '' (concat (map item_name_words
       (split_words (map (\<lambda>c. if c = CHR ''-'' \<or> c = CHR ''_'' then CHR '' '' else c) text) 0 False True False)))"

definition method_char :: regex where
  "method_char = Chr (\<lambda>c. \<not> is_space c \<and> c \<notin> {CHR ''('', CHR '')'', CHR ''/'', CHR '':'', CHR 0x5C})"

definition TEST_METHOD :: regex where
  "TEST_METHOD = seqs [Bnd, plus1 method_char, Alt (lit ''Test'') (lit ''Step''), opt (lit ''s''), lit ''.'']"

definition METHOD_TAIL :: regex where "METHOD_TAIL = Seq Bol (plus1 method_char)"

definition SPEC_FILE :: regex where
  "SPEC_FILE = Grp 1 (seqs [Bnd, plus1 method_char, lit ''.'', Alt (lit ''spec'') (lit ''cy''), lit ''.'',
     oneof ''jt'', lit ''s'', Bnd])"

lemma re_min_lit [simp]: "re_min (lit w) = length w"
  by (induction w) (simp_all add: lit_def)

lemma TEST_METHOD_re_min: "re_min TEST_METHOD > 0"
  by (simp add: TEST_METHOD_def seqs_def plus1_def opt_def)

text \<open>The loop goes on behind the match, or behind its tail.\<close>

function test_method_hits :: "string \<Rightarrow> string list" where
  "test_method_hits residual =
     (case re_search TEST_METHOD residual of
        None \<Rightarrow> []
      | Some m \<Rightarrow> (case re_search METHOD_TAIL (rm_after m) of
            None \<Rightarrow> rm_text m # test_method_hits (rm_after m)
          | Some t \<Rightarrow> (rm_text m @ rm_text t) # test_method_hits (rm_after t)))"
  by pat_completeness auto
termination
proof (relation "measure length")
  show "(rm_after m, s) \<in> measure length" if "re_search TEST_METHOD s = Some m" for s m
    using re_search_after [OF that] TEST_METHOD_re_min by simp
  show "(rm_after t, s) \<in> measure length"
    if "re_search TEST_METHOD s = Some m" "re_search METHOD_TAIL (rm_after m) = Some t" for s m t
    using re_search_after [OF that(1)] re_search_after [OF that(2)] TEST_METHOD_re_min by simp
qed simp

declare test_method_hits.simps [simp del]

text \<open>\<open>re.findall\<close> with one group yields strings, so the two indices pick characters.\<close>

definition spec_hits :: "rmatch \<Rightarrow> string list" where
  "spec_hits m = filter (\<lambda>w. w \<noteq> []) [strip [grp 1 m ! 0], strip [grp 1 m ! 1]]"

definition find_test_methods_in_text :: "string \<Rightarrow> string set" where
  "find_test_methods_in_text text =
     {w \<in> set (test_method_hits text) \<union> set (concat (map spec_hits (re_findall SPEC_FILE text))).
        get_found_exceptions w False = []}"

section \<open>Near-duplicate texts\<close>

text \<open>\<open>matrix texts\<close> is the matrix of pairwise cosine similarities, \<open>None\<close> when the vectorizer finds no
  word. Of every text the last similar one is kept.\<close>

type_synonym similarity = "string list \<Rightarrow> (nat \<Rightarrow> nat \<Rightarrow> real) option"

definition use_index :: "real \<Rightarrow> (nat \<Rightarrow> nat \<Rightarrow> real) \<Rightarrow> nat \<Rightarrow> nat \<Rightarrow> nat" where
  "use_index threshold m n i = last (i # filter (\<lambda>j. threshold \<le> m i j) [Suc i..<n])"

definition keep_step :: "real \<Rightarrow> (nat \<Rightarrow> nat \<Rightarrow> real) \<Rightarrow> nat \<Rightarrow> nat set \<Rightarrow> nat \<Rightarrow> nat set" where
  "keep_step threshold m n kept i =
     (if i \<in> kept then kept else insert (use_index threshold m n i) kept)"

definition find_last_unique_texts :: "similarity \<Rightarrow> real \<Rightarrow> string list \<Rightarrow> nat list option" where
  "find_last_unique_texts matrix threshold texts =
     (if texts = [] then None
      else (case matrix texts of
              None \<Rightarrow> None
            | Some m \<Rightarrow> (let n = length texts in Some (sorted_list_of_set
                (insert (n - 1) (foldl (keep_step threshold m n) {} [0..<n - 1]))))))"

section \<open>Similarity of texts\<close>

record similarity_result =
  similarity :: real
  both_empty :: bool

definition special_re :: regex where
  "special_re = Chr (\<lambda>c. is_punct c)"

definition preprocess_text_for_similarity :: "string \<Rightarrow> string list" where
  "preprocess_text_for_similarity text =
     (if text = [] then []
      else let r1 = re_sub special_re '' '' text;
               r2 = re_sub_with (Seq (Grp 1 lower_re) (Grp 2 upper_re)) (\<lambda>m. grp 1 m @ '' '' @ grp 2 m) r1;
               r3 = re_sub_with (Seq (Grp 1 upper_re) (Grp 2 (Seq upper_re lower_re)))
                      (\<lambda>m. grp 1 m @ '' '' @ grp 2 m) r2;
               r4 = strip (re_sub (plus1 sp) '' '' (lower_str r3))
           in filter (\<lambda>w. w \<notin> set STOPWORDS) (split_ws r4))"

text \<open>\<open>cosine base others\<close> is the row of similarities of the first text with the others. The texts that
  need no vectors are decided first, the others wait for the row.\<close>

datatype verdict = Decided similarity_result | Waiting string

definition similarity_verdict :: "string \<Rightarrow> string \<Rightarrow> string \<Rightarrow> verdict" where
  "similarity_verdict base_text base other_text =
     (let other = join_with '' '' (preprocess_text_for_similarity other_text);
          valid = strip base \<noteq> []
      in if \<not> valid \<and> strip other = []
         then (let both = strip base_text = [] \<and> strip other_text = []
               in Decided \<lparr>similarity = (if both then 0 else if base_text = other_text then 1 else 0),
                           both_empty = both\<rparr>)
         else if \<not> valid \<or> strip other = [] then Decided \<lparr>similarity = 0, both_empty = False\<rparr>
         else if base = other then Decided \<lparr>similarity = 1, both_empty = False\<rparr>
         else Waiting other)"

definition waiting :: "verdict list \<Rightarrow> string list" where
  "waiting vs = List.map_filter (\<lambda>v. case v of Waiting w \<Rightarrow> Some w | Decided _ \<Rightarrow> None) vs"

fun fill_scores :: "verdict list \<Rightarrow> real list \<Rightarrow> similarity_result list" where
  "fill_scores [] row = []"
| "fill_scores (Decided r # vs) row = r # fill_scores vs row"
| "fill_scores (Waiting w # vs) [] = \<lparr>similarity = 0, both_empty = False\<rparr> # fill_scores vs []"
| "fill_scores (Waiting w # vs) (x # row) = \<lparr>similarity = x, both_empty = False\<rparr> # fill_scores vs row"

definition calculate_text_similarity ::
  "(string \<Rightarrow> string list \<Rightarrow> real list) \<Rightarrow> string option \<Rightarrow> string list \<Rightarrow> similarity_result list" where
  "calculate_text_similarity cosine base_text others =
     (case base_text of
        None \<Rightarrow> []
      | Some b \<Rightarrow>
          let base = join_with '' '' (preprocess_text_for_similarity b);
              vs = map (similarity_verdict b base) others
          in fill_scores vs (if waiting vs = [] then [] else cosine base (waiting vs)))"

section \<open>Properties\<close>

text \<open>Every group of the status code patterns is one code.\<close>

definition is_http_code :: "string \<Rightarrow> bool" where
  "is_http_code c \<longleftrightarrow> length c = 3 \<and> hd c \<in> set ''12345'' \<and> list_all is_digit c"

lemma lit_grps_ok [simp]: "grps_ok P (lit w)"
  by (induction w) (simp_all add: lit_def)

lemma lit_ci_grps_ok [simp]: "grps_ok P (lit_ci w)"
  by (induction w) (simp_all add: lit_ci_def)

lemma seqs_grps_ok [simp]: "grps_ok P (seqs rs) = (\<forall>r \<in> set rs. grps_ok P r)"
  by (induction rs) (simp_all add: seqs_def)

lemma alts_grps_ok [simp]: "grps_ok P (alts rs) = (\<forall>r \<in> set rs. grps_ok P r)"
  by (induction rs rule: alts.induct) simp_all

lemma between_digits: "between CHR ''1'' CHR ''5'' c \<Longrightarrow> c \<in> set ''12345'' \<and> is_digit c"
proof -
  assume "between CHR ''1'' CHR ''5'' c"
  then have "(of_char c :: nat) \<in> {49, 50, 51, 52, 53}" by (auto simp: between_def)
  moreover have "c = char_of (of_char c :: nat)" by simp
  ultimately have "c \<in> char_of ` {49, 50, 51, 52, 53 :: nat}" by (metis image_eqI)
  then show ?thesis by (auto simp: is_digit_def char_of_def bit_iff_odd)
qed

lemma http_code_consumed: "matches HTTP_CODE s t \<Longrightarrow> is_http_code (consumed s t)"
  using between_digits
  by (fastforce simp: HTTP_CODE_def seqs_def dig_def is_http_code_def consumed_def)

lemma http_code_grps_ok [simp]: "grps_ok is_http_code (Grp i HTTP_CODE)"
  using http_code_consumed by (simp add: HTTP_CODE_def dig_def)

lemmas code_pattern_defs = code_pair_re_def code_expected_re_def code_key_re_def code_value_re_def
  http_line_re_def arrow_re_def plus1_def star_def opt_def ncode_def nwrd_def ndig_def wrd_def sp_def
  dig_def oneof_def dq_re_def Let_def

lemma status_patterns_ok: "p \<in> set STATUS_CODES_PATTERNS \<Longrightarrow> grps_ok is_http_code p"
  by (auto simp: STATUS_CODES_PATTERNS_def code_pattern_defs simp del: grps_ok.simps(6))

lemma digit_not_space: "is_digit c \<Longrightarrow> \<not> is_space c"
  by (auto simp: is_digit_def is_space_def Let_def)

lemma dropWhile_none: "list_all (\<lambda>c. \<not> p c) s \<Longrightarrow> dropWhile p s = s"
  by (cases s) simp_all

lemma strip_no_space: "list_all (\<lambda>c. \<not> is_space c) s \<Longrightarrow> strip s = s"
  by (simp add: strip_def rstrip_by_def lstrip_by_def dropWhile_none list_all_iff)

lemma strip_http_code: "is_http_code c \<Longrightarrow> strip c = c"
  by (rule strip_no_space) (auto simp: is_http_code_def list_all_iff digit_not_space)

lemma codes_of_match_ok:
  assumes "re_search p l = Some m" and "p \<in> set STATUS_CODES_PATTERNS"
  shows "list_all is_http_code (codes_of_match m)"
proof -
  have "is_http_code v" if "rm_groups m i = Some v" for i v
    using re_search_caps [OF assms(1) status_patterns_ok [OF assms(2)] that] .
  then show ?thesis
    by (auto simp: codes_of_match_def list_all_iff map_filter_def strip_http_code split: if_splits)
qed

lemma pattern_codes_ok:
  "p \<in> set STATUS_CODES_PATTERNS \<Longrightarrow>
     list_all is_http_code (case re_search p l of None \<Rightarrow> [] | Some m \<Rightarrow> codes_of_match m)"
  by (cases "re_search p l") (simp_all add: codes_of_match_ok)

lemma potential_codes_ok: "list_all is_http_code (get_potential_status_codes text)"
  using pattern_codes_ok by (fastforce simp: get_potential_status_codes_def list_all_iff)

lemma unique_strings_ok: "distinct (get_unique_strings ss)" "set (get_unique_strings ss) = set ss"
  using dedup_from_distinct [of id "{}" ss] dedup_from_keys [of id "{}" ss]
  by (simp_all add: get_unique_strings_def)

text \<open>
  A status code is a status code. Whatever the text, every code the eleven patterns extract is a
  string of exactly three digits whose first is 1 to 5, and the unique list is the extracted one
  without repetitions: no port, line number, count or identifier of another shape gets in.
\<close>

theorem status_codes_well_formed:
  "list_all is_http_code (get_potential_status_codes text)
   \<and> distinct (get_unique_potential_status_codes text)
   \<and> set (get_unique_potential_status_codes text) = set (get_potential_status_codes text)"
  using potential_codes_ok [of "text"] unique_strings_ok [of "get_potential_status_codes text"]
  by (simp add: get_unique_potential_status_codes_def)

lemma remove_numbers_digit_free: "list_all (\<lambda>c. \<not> is_digit c) (remove_numbers text)"
  by (simp add: remove_numbers_def dig_def re_sub_delete_class list_all_iff)

section \<open>Lines, joined and split again\<close>

lemma split_on_append: "d \<notin> set w \<Longrightarrow> split_on d (w @ d # s) = w # split_on d s"
  by (induction w) (auto split: list.splits)

lemma split_on_single: "d \<notin> set w \<Longrightarrow> split_on d w = [w]"
  by (induction w) auto

lemma split_on_join:
  "ws \<noteq> [] \<Longrightarrow> \<forall>w \<in> set ws. d \<notin> set w \<Longrightarrow> split_on d (join_with [d] ws) = ws"
  by (induction "[d]" ws rule: join_with.induct) (simp_all add: split_on_append split_on_single)

lemma split_on_free: "w \<in> set (split_on d s) \<Longrightarrow> d \<notin> set w"
  by (induction s arbitrary: w) (auto split: if_splits list.splits)

lemma dedup_from_idem: "dedup_from f seen (dedup_from f seen xs) = dedup_from f seen xs"
  by (induction f seen xs rule: dedup_from.induct) simp_all

lemma filter_dedup_id: "(\<And>x. x \<in> set xs \<Longrightarrow> p x) \<Longrightarrow> filter p (dedup_from f seen xs) = dedup_from f seen xs"
  using dedup_from_subset [of f seen xs] by (auto simp: filter_id_conv)

text \<open>
  Identical lines are dropped once and for all: the lines of the result are pairwise different even
  after stripping, none of them is a documentation hint, and running the pass again changes nothing.
\<close>

theorem unique_lines_idempotent:
  "leave_only_unique_lines (leave_only_unique_lines message) = leave_only_unique_lines message
   \<and> distinct (map strip (split_on newline (leave_only_unique_lines message)))
   \<and> list_all (\<lambda>l. \<not> documentation_line l) (split_on newline (leave_only_unique_lines message))"
proof -
  define ls where "ls = filter (\<lambda>l. \<not> documentation_line l) (split_on newline message)"
  have eq: "leave_only_unique_lines message = join_with [newline] (dedup_from strip {} ls)"
    by (simp add: leave_only_unique_lines_def ls_def)
  have free: "\<forall>w \<in> set (dedup_from strip {} ls). newline \<notin> set w"
    using dedup_from_subset [of strip "{}" ls] split_on_free by (auto simp: ls_def)
  have doc: "\<forall>w \<in> set (dedup_from strip {} ls). \<not> documentation_line w"
    using dedup_from_subset [of strip "{}" ls] by (auto simp: ls_def)
  show ?thesis
  proof (cases "dedup_from strip {} ls = []")
    case True
    then have "leave_only_unique_lines message = []" by (simp add: eq)
    moreover have "\<not> documentation_line []" by (simp add: documentation_line_def lower_str_def)
    moreover have "leave_only_unique_lines [] = []"
      by (simp add: leave_only_unique_lines_def documentation_line_def lower_str_def)
    ultimately show ?thesis by simp
  next
    case False
    have split: "split_on newline (leave_only_unique_lines message) = dedup_from strip {} ls"
      unfolding eq by (rule split_on_join [OF False free])
    have "leave_only_unique_lines (leave_only_unique_lines message)
        = join_with [newline] (dedup_from strip {} (dedup_from strip {} ls))"
      unfolding leave_only_unique_lines_def [of "leave_only_unique_lines message"] split
      using doc by (simp add: filter_id_conv)
    then have "leave_only_unique_lines (leave_only_unique_lines message) = leave_only_unique_lines message"
      by (simp add: dedup_from_idem eq)
    then show ?thesis
      unfolding split using doc by (simp add: dedup_from_distinct list_all_iff)
  qed
qed

section \<open>Description and trace\<close>

definition parts_of :: "string list \<Rightarrow> string list \<times> string list \<Rightarrow> bool" where
  "parts_of ls p \<longleftrightarrow> mset (fst p) + mset (snd p) = mset ls \<and> subseq (fst p) ls \<and> subseq (snd p) ls"

lemma parts_of_filter: "parts_of ls (filter P ls, filter (\<lambda>l. \<not> P l) ls)"
  by (simp add: parts_of_def)

lemma parts_of_swap: "parts_of ls (a, b) \<Longrightarrow> parts_of ls (b, a)"
  by (simp add: parts_of_def add.commute)

lemma parts_of_cut:
  assumes "parts_of ls ([], st)"
  shows "parts_of ls (take n st, drop n st)" "parts_of ls (drop n st, take n st)"
proof -
  have "mset (take n st) + mset (drop n st) = mset st" by (simp flip: mset_append)
  moreover have "subseq (take n st) st" "subseq (drop n st) st"
    by (metis append_take_drop_id list_emb_append2 list_emb_prefix subseq_order.order_refl)+
  ultimately show "parts_of ls (take n st, drop n st)" "parts_of ls (drop n st, take n st)"
    using assms by (auto simp: parts_of_def add.commute intro: subseq_order.order_trans)
qed

lemma python_parts_of: "t \<or> m \<Longrightarrow> parts_of ls (python_parts t m ls)"
proof (induction t m ls rule: python_parts.induct)
  case (1 t m)
  then show ?case by (simp add: parts_of_def)
next
  case (2 t m l ls)
  define t' where "t' = (if announces_traceback l then True
     else if \<not> announces_traceback l \<and> get_found_exceptions l False \<noteq> [] then False else t)"
  define m' where "m' = (if announces_traceback l then False
     else if \<not> announces_traceback l \<and> get_found_exceptions l False \<noteq> [] then True else m)"
  obtain ds st where p: "python_parts t' m' ls = (ds, st)" by fastforce
  have tm: "t' \<or> m'" using 2(2) by (auto simp: t'_def m'_def)
  have eq: "python_parts t m (l # ls) = (if t' then (ds, l # st) else if m' then (l # ds, st) else (ds, st))"
    using p by (simp add: t'_def m'_def Let_def)
  have "parts_of ls (ds, st)"
    using 2(1) [OF refl refl refl refl] tm p by (simp add: t'_def m'_def)
  then show ?case using tm unfolding eq by (auto simp: parts_of_def)
qed

definition splits_log :: "string \<Rightarrow> string \<times> string \<Rightarrow> bool" where
  "splits_log message p \<longleftrightarrow> (\<exists>ds st. p = (join_with [newline] ds, join_with [newline] st) \<and> ds \<noteq> []
     \<and> parts_of (split_on newline message) (ds, st))"

lemma splits_logI:
  "p = (join_with [newline] ds, join_with [newline] st) \<Longrightarrow> ds \<noteq> [] \<Longrightarrow>
     parts_of (split_on newline message) (ds, st) \<Longrightarrow> splits_log message p"
  by (auto simp: splits_log_def)

lemma python_splits: "splits_log message (detect_log_parts_python message 1)"
proof -
  let ?ls = "split_on newline message"
  obtain ds st where p: "python_parts False True ?ls = (ds, st)" by fastforce
  have ok: "parts_of ?ls (ds, st)" using python_parts_of [of False True ?ls] p by simp
  show ?thesis
  proof (cases "ds = []")
    case True
    let ?k = "length st - 1"
    have ne: "st \<noteq> []" using ok True by (auto simp: parts_of_def)
    show ?thesis
    proof (rule splits_logI)
      show "detect_log_parts_python message 1 = (join_with [newline] (drop ?k st), join_with [newline] (take ?k st))"
        using p True by (simp add: detect_log_parts_python_def last_n_def)
      show "drop ?k st \<noteq> []" using ne by (cases st) simp_all
      show "parts_of ?ls (drop ?k st, take ?k st)" using parts_of_cut(2) ok True by simp
    qed
  next
    case False
    with p ok show ?thesis
      by (intro splits_logI [where ds = ds and st = st]) (simp_all add: detect_log_parts_python_def)
  qed
qed

lemma frames_split:
  "frame_parts ls = (ds, st) \<Longrightarrow> ls \<noteq> [] \<Longrightarrow> ds \<noteq> [] \<and> parts_of ls (ds, st)"
proof -
  define fs where "fs = filter is_line_from_stacktrace ls"
  define os where "os = filter (\<lambda>l. \<not> is_line_from_stacktrace l) ls"
  assume p: "frame_parts ls = (ds, st)" and ls: "ls \<noteq> []"
  have ok: "parts_of ls (os, fs)"
    using parts_of_swap [OF parts_of_filter [of ls is_line_from_stacktrace]] by (simp add: os_def fs_def)
  show ?thesis
  proof (cases "os = []")
    case True
    have "fs \<noteq> []" using ok True ls by (auto simp: parts_of_def)
    moreover have "(ds, st) = (take 1 fs, drop 1 fs)"
      using p True by (simp add: frame_parts_def os_def fs_def Let_def)
    ultimately show ?thesis using parts_of_cut(1) [of ls fs 1] ok True by simp
  next
    case False
    with p have "(ds, st) = (os, fs)" by (simp add: frame_parts_def os_def fs_def Let_def)
    with ok False show ?thesis by simp
  qed
qed

lemma detect_splits: "splits_log message (detect_log_description_and_stacktrace message)"
proof (cases "calculate_line_number message > 2")
  case False
  let ?ls = "split_on newline message"
  from False have "detect_log_description_and_stacktrace message
      = (join_with [newline] ?ls, join_with [newline] [])"
    by (simp add: detect_log_description_and_stacktrace_def join_split_on)
  then show ?thesis by (rule splits_logI) (simp_all add: parts_of_def)
next
  case True
  obtain ds st where p: "frame_parts (split_on newline message) = (ds, st)" by fastforce
  have "splits_log message (join_with [newline] ds, join_with [newline] st)"
    using frames_split [OF p] by (intro splits_logI [OF refl]) simp_all
  with True p show ?thesis
    using python_splits by (simp add: detect_log_description_and_stacktrace_def)
qed


text \<open>
  A frame line that starts with a file extension is taken for prose. The pattern that recognises the
  first line of a frame message lists the extensions as bare alternatives, so every line that begins
  with one of \<open>php\<close>, \<open>cpp\<close>, \<open>cs\<close>, \<open>c\<close>, \<open>h\<close>, \<open>js\<close>, \<open>swift\<close>, \<open>rb\<close> or \<open>py\<close> is never a stack frame line,
  whatever follows: \<open>com.foo.Bar.baz(Bar.java:10)\<close> is kept in the description, the same line below
  another package is a frame.
\<close>

theorem extension_prefix_never_frame:
  assumes "e \<in> set (butlast (tl FILE_EXTENSIONS))" and "starts_with e line"
  shows "\<not> is_line_from_stacktrace line"
proof -
  let ?r = "alts starting_message_alternatives"
  have split: "line = e @ drop (length e) line"
    using assms(2) by (metis append_take_drop_id starts_with_def)
  have lit: "matches (lit w) (pre, w @ rest, g) (rev w @ pre, rest, g)" for w pre rest g
    by (induction w arbitrary: pre) (auto simp: lit_def relcompp_apply)
  have alt: "matches (alts rs) s t" if "r \<in> set rs" "matches r s t" for r rs s t
    using that by (induction rs rule: alts.induct) auto
  have "lit e \<in> set starting_message_alternatives"
    using assms(1) by (auto simp: starting_message_alternatives_def)
  from alt [OF this lit [of e "[]" "drop (length e) line" Map.empty]]
  have "matches ?r (at_pos [] line) (rev e, drop (length e) line, Map.empty)"
    using split by (simp add: at_pos_def)
  then obtain t ts where ts: "results ?r (at_pos [] line) = t # ts"
    using results_Nil_iff [of ?r "at_pos [] line"] by (cases "results ?r (at_pos [] line)") blast+
  then have "re_search ?r line = Some (rmatch_of (at_pos [] line) t)"
    by (simp add: re_search_def search_from.simps)
  moreover have "starts_with (rm_text (rmatch_of (at_pos [] line) t)) line"
    by (simp add: rmatch_of_def consumed_def starts_with_def)
  ultimately have "is_starting_message_pattern line" by (simp add: is_starting_message_pattern_def)
  then show ?thesis by (simp add: is_line_from_stacktrace_def)
qed

theorem extension_prefix_never_frame_witness:
  "\<not> is_line_from_stacktrace ''com.foo.Bar.baz(Bar.java:10)''
   \<and> is_line_from_stacktrace ''org.foo.Bar.baz(Bar.java:10)''"
proof
  show "\<not> is_line_from_stacktrace ''com.foo.Bar.baz(Bar.java:10)''"
    by (rule extension_prefix_never_frame [where e = "''c''"]) (simp_all add: FILE_EXTENSIONS_def starts_with_def)
  show "is_line_from_stacktrace ''org.foo.Bar.baz(Bar.java:10)''" by code_simp
qed

text \<open>An address with a port makes a line a frame line: the substitution meant to hide the port from the
  line-number pattern is itself the change that is looked for.\<close>

lemma address_line_is_frame: "is_line_from_stacktrace ''refused: 10.0.0.5:8080''"
  by code_simp

section \<open>Near-duplicates and similarities\<close>

lemma use_index_cases:
  assumes "i < n"
  shows "use_index thr m n i = i \<or> (i < use_index thr m n i \<and> use_index thr m n i < n
     \<and> thr \<le> m i (use_index thr m n i))"
proof -
  let ?js = "filter (\<lambda>j. thr \<le> m i j) [Suc i..<n]"
  show ?thesis
  proof (cases "?js = []")
    case False
    then have "use_index thr m n i = last ?js" by (simp add: use_index_def)
    then have "use_index thr m n i \<in> set ?js" using last_in_set [OF False] by metis
    then show ?thesis by auto
  qed (simp add: use_index_def)
qed

text \<open>What the loop has established for the texts below \<open>k\<close>.\<close>

definition covered :: "real \<Rightarrow> (nat \<Rightarrow> nat \<Rightarrow> real) \<Rightarrow> nat \<Rightarrow> nat \<Rightarrow> nat set \<Rightarrow> bool" where
  "covered thr m n k kept \<longleftrightarrow> kept \<subseteq> {..<n}
     \<and> (\<forall>i < k. i \<in> kept \<or> (\<exists>j \<in> kept. i < j \<and> thr \<le> m i j))"

lemma keep_step_covered:
  assumes "covered thr m n k kept" and "k < n"
  shows "covered thr m n (Suc k) (keep_step thr m n kept k)"
  using assms use_index_cases [OF assms(2), of thr m]
  unfolding covered_def keep_step_def by (auto simp: less_Suc_eq)

lemma keep_loop_covered:
  "k \<le> n \<Longrightarrow> covered thr m n k (foldl (keep_step thr m n) {} [0..<k])"
proof (induction k)
  case 0
  show ?case by (simp add: covered_def)
next
  case (Suc k)
  then show ?case by (simp add: keep_step_covered)
qed

text \<open>
  Dropping near-duplicates loses no cluster. The kept positions are increasing and in range, the last
  text is always kept, and every dropped text has a later kept one that is similar to it.
\<close>

theorem last_unique_texts_cover:
  assumes "find_last_unique_texts matrix threshold texts = Some ks" and "matrix texts = Some m"
  shows "sorted ks \<and> distinct ks \<and> set ks \<subseteq> {..<length texts} \<and> length texts - 1 \<in> set ks
    \<and> (\<forall>i < length texts. i \<in> set ks \<or> (\<exists>j \<in> set ks. i < j \<and> threshold \<le> m i j))"
proof -
  define n where "n = length texts"
  define kept where "kept = foldl (keep_step threshold m n) {} [0..<n - 1]"
  have ne: "n > 0" and ks: "ks = sorted_list_of_set (insert (n - 1) kept)"
    using assms by (auto simp: find_last_unique_texts_def n_def kept_def Let_def split: if_splits)
  have cov: "covered threshold m n (n - 1) kept"
    unfolding kept_def by (rule keep_loop_covered) simp
  then have "finite kept" by (meson covered_def finite_lessThan finite_subset)
  then have "finite (insert (n - 1) kept)" by simp
  then have set_ks: "set ks = insert (n - 1) kept" unfolding ks by (rule set_sorted_list_of_set)
  have sd: "sorted ks" "distinct ks"
    unfolding ks by (rule sorted_sorted_list_of_set, rule distinct_sorted_list_of_set)
  have "i \<in> set ks \<or> (\<exists>j \<in> set ks. i < j \<and> threshold \<le> m i j)" if "i < n" for i
    using cov that unfolding set_ks covered_def by (metis Suc_pred' insertCI less_Suc_eq ne)
  moreover have "set ks \<subseteq> {..<n}" using cov ne unfolding set_ks covered_def by auto
  ultimately show ?thesis unfolding n_def [symmetric] using set_ks sd by simp
qed

definition demo_matrix :: similarity where
  "demo_matrix ts = Some (\<lambda>i j. if i + 1 = j \<or> j + 1 = i \<or> i = j then 1 else 0)"

lemma demo_unique: "find_last_unique_texts demo_matrix (19 / 20) [''a b'', ''b c'', ''c d''] = Some [1, 2]"
  by (simp add: find_last_unique_texts_def demo_matrix_def keep_step_def use_index_def)

theorem last_unique_texts_cover_witness:
  "\<exists>j \<in> set [1, 2 :: nat]. 0 < j \<and> (19 / 20 :: real) \<le> the (demo_matrix []) 0 j"
  using last_unique_texts_cover [OF demo_unique, of "the (demo_matrix [])"]
  by (auto simp: demo_matrix_def)

text \<open>Similarity is not transitive, and neither is the collapse: of three texts of which the neighbours
  are similar, the second and the third are both kept although they are similar.\<close>

lemma similar_pair_both_kept:
  "find_last_unique_texts demo_matrix (19 / 20) [''a b'', ''b c'', ''c d''] = Some [1, 2]
   \<and> the (demo_matrix [''a b'', ''b c'', ''c d'']) 1 2 \<ge> 19 / 20"
  using demo_unique by (simp add: demo_matrix_def)

text \<open>The score of one text, with the cosine of two texts given.\<close>

definition pair_score :: "(string \<Rightarrow> string \<Rightarrow> real) \<Rightarrow> string \<Rightarrow> string \<Rightarrow> similarity_result" where
  "pair_score cosine b other =
     (let base = join_with '' '' (preprocess_text_for_similarity b)
      in case similarity_verdict b base other of
           Decided r \<Rightarrow> r
         | Waiting w \<Rightarrow> \<lparr>similarity = cosine base w, both_empty = False\<rparr>)"

lemma waiting_Cons [simp]:
  "waiting [] = []" "waiting (Decided r # vs) = waiting vs" "waiting (Waiting w # vs) = w # waiting vs"
  by (simp_all add: waiting_def map_filter_simps)

lemma fill_scores_map:
  "fill_scores vs (map f (waiting vs))
     = map (\<lambda>v. case v of Decided r \<Rightarrow> r | Waiting w \<Rightarrow> \<lparr>similarity = f w, both_empty = False\<rparr>) vs"
proof (induction vs)
  case (Cons v vs)
  then show ?case by (cases v) simp_all
qed simp

text \<open>
  Batching the vectors changes no score. The scores, in which the texts that need no vectors are
  decided first and the others get the entries of one row of cosines, are pointwise the scores of every
  text on its own.
\<close>

theorem similarity_batch_is_pointwise:
  "calculate_text_similarity (\<lambda>b ws. map (cosine b) ws) (Some b) others = map (pair_score cosine b) others"
proof -
  have "(if waiting vs = [] then [] else map f (waiting vs)) = map f (waiting vs)" for vs and f :: "string \<Rightarrow> real"
    by simp
  then show ?thesis
    by (simp only: calculate_text_similarity_def option.case Let_def fill_scores_map)
      (simp add: pair_score_def Let_def)
qed

text \<open>A spec file contributes the first two characters of its name, not its name.\<close>

lemma spec_file_characters: "find_test_methods_in_text ''login.spec.ts'' = {''l'', ''o''}"
proof -
  have "test_method_hits ''login.spec.ts'' = []"
    by (subst test_method_hits.simps) code_simp
  moreover have "concat (map spec_hits (re_findall SPEC_FILE ''login.spec.ts'')) = [''l'', ''o'']" by code_simp
  moreover have "get_found_exceptions ''l'' False = []" "get_found_exceptions ''o'' False = []" by code_simp+
  ultimately show ?thesis by (auto simp: find_test_methods_in_text_def)
qed

end
