(* ===== verification/TextCleaning.thy ===== *)
theory TextCleaning
  imports TextLines
begin

text \<open>
  \<open>preprocessing/text_processing.py\<close>, second half, with \<open>log_preparation.py\<close>, \<open>prepared_log.py\<close>,
  \<open>pipeline.clean_log\<close>, Drain's masking rules and the expressions of \<open>ml/signature.py\<close>: what is cut off
  the head of a message, what is replaced by a tag or dropped, in which order, and which URLs and paths
  are extracted. At the end the text functions the signature pipeline takes as an argument are these
  definitions; what remains an argument is UTF-8 decoding, the TF-IDF matrix, XXH3 and the miner.
\<close>

section \<open>The head of a message\<close>

definition EU_DATE :: regex where
  "EU_DATE = seqs [plus1 dig, lit ''-'', plus1 dig, lit ''-'', plus1 dig]"

definition EU_TIME :: regex where
  "EU_TIME = seqs [plus1 dig, lit '':'', plus1 dig, lit '':'', plus1 dig, opt (seqs [oneof ''.,'', plus1 dig])]"

definition US_DATE :: regex where
  "US_DATE = seqs [plus1 dig, lit ''/'', plus1 dig, lit ''/'', plus1 dig]"

definition EU_DATETIME :: regex where "EU_DATETIME = seqs [EU_DATE, plus1 sp, EU_TIME]"
definition US_DATETIME :: regex where "US_DATETIME = seqs [US_DATE, plus1 sp, EU_TIME]"

definition DELIM :: regex where
  "DELIM = alts [seqs [star sp, lit ''-'', star sp], seqs [star sp, lit ''|'', star sp]]"

definition DATETIME_PATTERNS :: "regex list" where
  "DATETIME_PATTERNS =
     [seqs [Bol, EU_DATETIME, opt DELIM, star sp], seqs [Bol, US_DATETIME, opt DELIM, star sp],
      seqs [Bol, EU_TIME, opt DELIM, star sp],
      seqs [Bol, lit ''['', EU_TIME, lit '']'', opt DELIM, star sp],
      seqs [Bol, lit ''['', EU_DATETIME, lit '']'', opt DELIM, star sp]]"

definition remove_starting_datetime :: "string \<Rightarrow> string" where
  "remove_starting_datetime text = remove_patterns text DATETIME_PATTERNS"

definition LOG_LEVEL :: regex where
  "LOG_LEVEL = seqs [alts (map lit [''TRACE'', ''DEBUG'', ''INFO'', ''WARN'', ''ERROR'', ''FATAL'']), opt sp]"

definition LOG_LEVEL_PATTERNS :: "regex list" where
  "LOG_LEVEL_PATTERNS =
     [seqs [Bol, LOG_LEVEL, opt DELIM, plus1 sp],
      seqs [Bol, lit ''['', LOG_LEVEL, lit '']'', opt DELIM, plus1 sp],
      seqs [Bol, lit ''('', LOG_LEVEL, lit '')'', opt DELIM, plus1 sp]]"

definition remove_starting_log_level :: "string \<Rightarrow> string" where
  "remove_starting_log_level text = remove_patterns text LOG_LEVEL_PATTERNS"

definition THREAD_ID_PATTERNS :: "regex list" where
  "THREAD_ID_PATTERNS =
     [seqs [Bol, plus1 dig, plus1 sp, plus1 (lit ''-''), star sp, opt DELIM, plus1 sp]]"

definition remove_starting_thread_id :: "string \<Rightarrow> string" where
  "remove_starting_thread_id text = remove_patterns text THREAD_ID_PATTERNS"

definition THREAD_NAME_PATTERNS :: "regex list" where
  "THREAD_NAME_PATTERNS = [seqs [Bol, lit ''['', star (noneof '']''), lit '']'', opt DELIM, plus1 sp]]"

definition remove_starting_thread_name :: "string \<Rightarrow> string" where
  "remove_starting_thread_name text = remove_patterns text THREAD_NAME_PATTERNS"

section \<open>Brackets, characters, tags\<close>

definition BRCKTS_TXT :: regex where
  "BRCKTS_TXT = alts [seqs [lit ''['', star (noneof '']''), lit '']''],
     seqs [lit ''('', star (noneof '')''), lit '')''], seqs [lit ''{'', star (noneof ''}''), lit ''}'']]"

definition clean_from_brackets :: "string \<Rightarrow> string" where
  "clean_from_brackets text = re_sub BRCKTS_TXT [] text"

definition clean_special_chars :: "string \<Rightarrow> string" where
  "clean_special_chars text =
     re_sub (Chr (\<lambda>c. c \<in> set ''/?&=#@:.*!$%^+~|,;<>[]{}()_'' \<union> {bsl, bq, dq, sq})) '' '' text"

text \<open>\<open>[0-9a-fA-F]{n}\<close>.\<close>

definition hexn :: "nat \<Rightarrow> regex" where "hexn n = times_re n hex_re"

definition UUID_RE :: regex where
  "UUID_RE = seqs [hexn 8, opt (lit ''-''), hexn 4, opt (lit ''-''), hexn 4, opt (lit ''-''), hexn 4,
     opt (lit ''-''), hexn 12]"

definition NAMED_UUID :: regex where
  "NAMED_UUID = seqs [hexn 8, lit ''-'', hexn 4, lit ''-'', hexn 4, lit ''-'', hexn 4, lit ''-'',
     Grp 1 (plus1 wrd)]"

definition UUID_TAG :: string where "UUID_TAG = ''SPECIALUUID''"

text \<open>The word boundaries around the truncated form belong to its first and its last alternative.\<close>

definition GUID_UUID_PATTERNS :: "subst list" where
  "GUID_UUID_PATTERNS =
     [(seqs [Bnd, UUID_RE, Bnd], \<lambda>_. UUID_TAG),
      (Alt (seqs [Bnd, rng 16 48 hex_re]) (seqs [rng 10 48 hex_re, lit ''...'', Bnd]), \<lambda>_. UUID_TAG),
      (seqs [Bnd, NAMED_UUID, Bnd], \<lambda>m. UUID_TAG @ '' '' @ grp 1 m)]"

definition remove_guid_uuids_from_text :: "string \<Rightarrow> string" where
  "remove_guid_uuids_from_text text = replace_patterns text GUID_UUID_PATTERNS"

definition HEX_TAG :: string where "HEX_TAG = ''SPECIALHEX''"

definition remove_hex_from_text :: "string \<Rightarrow> string" where
  "remove_hex_from_text text =
     replace_patterns text [(seqs [Bnd, lit ''0x'', hexn 12, Bnd], \<lambda>_. HEX_TAG)]"

definition replace_tabs_for_newlines :: "string \<Rightarrow> string" where
  "replace_tabs_for_newlines message = map (\<lambda>c. if c = CHR 0x09 then newline else c) message"

text \<open>The horizontal blanks; those above the one-byte range never occur in a \<open>string\<close>.\<close>

definition hws :: regex where "hws = Chr (\<lambda>c. c = CHR 0x20 \<or> c = CHR 0x09 \<or> c = CHR 0xA0)"

definition unify_line_endings :: "string \<Rightarrow> string" where
  "unify_line_endings message = re_sub (seqs [star hws, opt (Chr (\<lambda>c. c = CHR 0x0D)), nl_re]) [newline] message"

definition unify_spaces :: "string \<Rightarrow> string" where
  "unify_spaces message = replace_patterns message
     [(plus1 hws, \<lambda>_. '' ''), (seqs [star hws, nl_re, star hws], \<lambda>_. [newline])]"

section \<open>URL decoding and encoding (urllib.parse)\<close>

text \<open>\<open>unquote\<close> of an ASCII text: the escapes become bytes, which are decoded as UTF-8 by \<open>utf8\<close>.\<close>

definition is_hex :: "char \<Rightarrow> bool" where
  "is_hex c \<longleftrightarrow> is_digit c \<or> between CHR ''a'' CHR ''f'' c \<or> between CHR ''A'' CHR ''F'' c"

fun unquote_item :: "string \<Rightarrow> string" where
  "unquote_item (a # b # cs) =
     (if is_hex a \<and> is_hex b then char_of (parse_hex (lower_str [a, b])) # cs else CHR ''%'' # a # b # cs)"
| "unquote_item cs = CHR ''%'' # cs"

definition unquote_bytes :: "string \<Rightarrow> string" where
  "unquote_bytes s = (case split_on (CHR ''%'') s of [] \<Rightarrow> [] | b # bs \<Rightarrow> b @ concat (map unquote_item bs))"

definition unquote :: "(string \<Rightarrow> string) \<Rightarrow> string \<Rightarrow> string" where
  "unquote utf8 s = (if CHR ''%'' \<in> set s then utf8 (unquote_bytes s) else s)"

definition quote_byte :: "nat \<Rightarrow> string" where
  "quote_byte n = CHR ''%'' # upper_str (hex_digits 2 n)"

definition quote_char :: "char \<Rightarrow> string" where
  "quote_char c =
     (let n = (of_char c :: nat)
      in if is_alpha c \<or> is_digit c \<or> c \<in> set ''_.-~/'' then [c]
         else if n < 128 then quote_byte n
         else quote_byte (192 + n div 64) @ quote_byte (128 + n mod 64))"

definition quote :: "string \<Rightarrow> string" where
  "quote s = concat (map quote_char s)"

definition fix_big_encoded_urls :: "(string \<Rightarrow> string) \<Rightarrow> string \<Rightarrow> string" where
  "fix_big_encoded_urls utf8 message =
     (let new = unquote utf8 message
      in if new \<noteq> message then re_sub (oneof ''(){}#%'') '' '' new else message)"

section \<open>Generated parts\<close>

definition dot_path :: regex where "dot_path = plus1 (seqs [plus1 ident_re, lit ''.''])"

definition GENERATED_LINE_PATTERN :: regex where
  "GENERATED_LINE_PATTERN = seqs [star sp, opt (seqs [lit ''at'', star sp]), dot_path,
     plus1 (seqs [plus1 ident_re, lit ''$$'']), plus1 hexl_re, lit ''.'',
     star (alts [seqs [plus1 ident_re, lit ''$''], lit ''.'']), plus1 ident_re, lit ''(<generated>)'', star dot]"

definition INNER_CLASS_EXTERNAL_PATTERN :: regex where
  "INNER_CLASS_EXTERNAL_PATTERN = seqs [Bnd,
     Grp 1 (plus1 (alts [seqs [plus1 ident_re, lit ''/''], Chr (\<lambda>c. c = bsl)])),
     Grp 2 (plus1 ident_re), lit ''$'', Grp 3 (seqs [plus1 ident_re, lit ''.class'']), Bnd]"

definition INNER_CLASS_INTERNAL_PATTERN :: regex where
  "INNER_CLASS_INTERNAL_PATTERN = seqs [Behind True [cls ''.$''], Grp 1 (plus1 ident_re), lit ''$'',
     Look True (seqs [plus1 ident_re, oneof ''.$(@''])]"

definition CLASS_NAME_WITH_MEMORY_REFERENCE_PATTERN :: regex where
  "CLASS_NAME_WITH_MEMORY_REFERENCE_PATTERN = seqs [Bnd, Grp 1 dot_path, Grp 2 (plus1 ident_re), lit ''@'',
     plus1 hexl_re, Bnd]"

definition TRUNCATED_STACKTRACE_PATTERN :: regex where
  "TRUNCATED_STACKTRACE_PATTERN = seqs [star sp, lit ''... '', plus1 dig, lit '' more'', star dot]"

definition STACKTRACE_PATTERNS :: "subst list" where
  "STACKTRACE_PATTERNS =
     [(GENERATED_LINE_PATTERN, \<lambda>_. []),
      (INNER_CLASS_EXTERNAL_PATTERN, \<lambda>m. grp 1 m @ grp 2 m @ ''.'' @ grp 3 m),
      (INNER_CLASS_INTERNAL_PATTERN, \<lambda>m. grp 1 m @ ''.''),
      (CLASS_NAME_WITH_MEMORY_REFERENCE_PATTERN, \<lambda>m. grp 1 m @ grp 2 m),
      (TRUNCATED_STACKTRACE_PATTERN, \<lambda>_. [])]"

definition remove_generated_parts :: "string \<Rightarrow> string" where
  "remove_generated_parts message = replace_patterns message STACKTRACE_PATTERNS"

section \<open>HTML\<close>

text \<open>\<open><style ...>\<close> and \<open><script ...>\<close> with their bodies, then every other tag and entity.\<close>

definition attrs_re :: regex where
  "attrs_re = star (seqs [plus1 sp, plus1 nsp, star sp, lit ''='', star sp, dq_re, star (Chr (\<lambda>c. c \<noteq> dq)), dq_re])"

definition block_tag_re :: "string \<Rightarrow> regex" where
  "block_tag_re tag = seqs [lit (''<'' @ tag), attrs_re, star sp, lit ''>'', star (noneof ''<''),
     lit (''</'' @ tag @ ''>'')]"

definition REGEX_HTML_TAGS :: regex where
  "REGEX_HTML_TAGS = Alt
     (seqs [lit ''<'', opt (lit ''/''), plus1 wrd,
        star (alts [seqs [plus1 sp, plus1 (Chr (\<lambda>c. c \<noteq> CHR ''>'' \<and> \<not> is_space c)), star sp, lit ''='', star sp,
                          dq_re, star (Chr (\<lambda>c. c \<noteq> dq)), dq_re, opt sp],
                    seqs [plus1 sp, plus1 (Chr (\<lambda>c. c \<noteq> CHR ''>'' \<and> \<not> is_space c)), star sp]]),
        lit ''>''])
     (seqs [lit ''&'',
        Grp 1 (alts [plus1 (Chr (\<lambda>c. is_alpha c \<or> is_digit c)), seqs [lit ''#'', rng 1 6 dig],
                     seqs [lit ''#x'', rng 1 6 hex_re]]),
        lit '';''])"

definition clean_text_from_html_tags :: "string \<Rightarrow> string" where
  "clean_text_from_html_tags message =
     re_sub REGEX_HTML_TAGS '' '' (re_sub (block_tag_re ''script'') '' '' (re_sub (block_tag_re ''style'') '' '' message))"

definition html_open_re :: regex where
  "html_open_re = seqs [lit ''<html'', attrs_re, star sp, lit ''>'']"

text \<open>The lines outside an \<open>html\<close> element are kept, those inside are collected and cleaned together.\<close>

fun html_lines :: "bool \<Rightarrow> string list \<Rightarrow> string list \<Rightarrow> string list" where
  "html_lines started part [] = part"
| "html_lines started part (l # ls) =
     (let started' = (started \<or> re_search html_open_re l \<noteq> None);
          part' = (if started' then part @ [l] else part);
          kept = (if started' then [] else [l])
      in if contains ''</html>'' l
         then kept @ clean_text_from_html_tags (join_with [newline] part') # html_lines False [] ls
         else kept @ html_lines started' part' ls)"

definition clean_html :: "string \<Rightarrow> string" where
  "clean_html message =
     delete_empty_lines (join_with [newline] (html_lines False [] (split_on newline message)))"

section \<open>URLs and paths\<close>

definition URL_PATTERN :: regex where
  "URL_PATTERN = seqs [Bnd, plus1 (Chr (\<lambda>c. is_word c \<or> c = CHR ''+'')), lit '':/'', plus1 nsp, Bnd]"

definition extract_urls :: "string \<Rightarrow> string list" where
  "extract_urls text = map (\<lambda>m. strip (rm_text m)) (re_findall URL_PATTERN text)"

definition path_start :: regex where
  "path_start = Alt Bol (Chr (\<lambda>c. is_space c \<or> c \<in> {dq, sq, bq}))"

definition WINDOWS_PATHS :: regex where
  "WINDOWS_PATHS = seqs [path_start, Chr is_alpha, lit '':'', Chr (\<lambda>c. c = bsl),
     star (seqs [plus1 (Chr (\<lambda>c. c \<notin> {CHR '':'', bsl, CHR 0x0D, CHR 0x0A})), Chr (\<lambda>c. c = bsl)]),
     plus1 (Chr (\<lambda>c. \<not> is_space c \<and> c \<notin> {bsl, CHR '':'', CHR 0x0D, CHR 0x0A}))]"

definition path_char :: regex where
  "path_char = Alt (seqs [Chr (\<lambda>c. c = bsl), dot])
     (Chr (\<lambda>c. c \<noteq> CHR ''/'' \<and> \<not> is_space c \<and> c \<notin> {CHR 0x0D, CHR 0x0A}))"

definition POSIX_PATHS :: regex where
  "POSIX_PATHS = seqs [path_start, lit ''/'', star (seqs [plus1 path_char, lit ''/'']), plus1 path_char]"

definition extract_paths :: "string \<Rightarrow> string list" where
  "extract_paths text = dedup_from id {} (filter (\<lambda>p. p \<noteq> [])
     (map (\<lambda>m. strip (rm_text m)) (re_findall (Alt WINDOWS_PATHS POSIX_PATHS) text)))"

definition URL_TAG :: string where "URL_TAG = ''SPECIALURL''"

definition remove_url :: "string \<Rightarrow> string \<Rightarrow> string" where
  "remove_url url text =
     (let r = py_replace url URL_TAG text
      in if quote url \<noteq> url then py_replace (quote url) URL_TAG r else r)"

definition by_length_desc :: "string list \<Rightarrow> string list" where
  "by_length_desc = sort_key (\<lambda>u. - int (length u))"

definition remove_urls :: "string \<Rightarrow> string list \<Rightarrow> string" where
  "remove_urls message urls =
     (if message = [] \<or> urls = [] then message else fold remove_url (by_length_desc urls) message)"

definition replace_text_pieces :: "string \<Rightarrow> string list \<Rightarrow> string" where
  "replace_text_pieces text ps = fold (\<lambda>w. py_replace w '' '') (by_length_desc ps) text"

definition clean_colon_stacking :: "string \<Rightarrow> string" where
  "clean_colon_stacking text = py_replace '':'' '' : '' text"

text \<open>The quoted parameters of a message.\<close>

definition quoted_re :: regex where
  "quoted_re = seqs [Grp 1 (Alt Bol nwrd),
     Grp 2 (Alt (seqs [sq_re, star dot, sq_re]) (seqs [dq_re, star dot, dq_re])), Grp 3 (Alt nwrd Eol)]"

definition message_param :: "rmatch \<Rightarrow> string option" where
  "message_param m =
     map_option (\<lambda>f. strip (rm_text f))
       (re_search (plus1 (Chr (\<lambda>c. c \<noteq> sq \<and> c \<noteq> dq))) (strip (grp 2 m)))"

definition extract_message_params :: "string \<Rightarrow> string list" where
  "extract_message_params text = dedup_from id {} (List.map_filter message_param (re_findall quoted_re text))"

section \<open>Tokens, separators, web driver noise\<close>

definition ACCESS_OR_REFRESH_TOKEN_PATTERN :: regex where
  "ACCESS_OR_REFRESH_TOKEN_PATTERN = seqs [alts (map lit_ci [''access'', ''refresh'', ''biometric'', ''jwt'']),
     opt (lit ''_''), lit_ci ''token'']"

definition JSON_ACCESS_TOKEN :: regex where
  "JSON_ACCESS_TOKEN = seqs [Grp 1 (seqs [dq_re, ACCESS_OR_REFRESH_TOKEN_PATTERN, dq_re, star sp, lit '':'', star sp,
     dq_re]), plus1 (Chr (\<lambda>c. c \<noteq> dq))]"

definition HTTP_ACCESS_TOKEN :: regex where
  "HTTP_ACCESS_TOKEN = seqs [Grp 1 (seqs [lit_ci ''Authorization'', star sp, lit '':'', star sp,
     alts (map lit_ci [''Bearer'', ''Basic'', ''Digest'', ''HOBA'', ''Mutual'', ''Negotiate'', ''NTLM'', ''VAPID'',
       ''SCRAM'', ''AWS4-HMAC-SHA256''])]), lit '' '', star dot]"

definition TOKEN_TAG :: string where "TOKEN_TAG = ''SPECIALTOKEN''"

definition ACCESS_TOKEN_PATTERNS :: "subst list" where
  "ACCESS_TOKEN_PATTERNS =
     [(JSON_ACCESS_TOKEN, \<lambda>m. grp 1 m @ TOKEN_TAG), (HTTP_ACCESS_TOKEN, \<lambda>m. grp 1 m @ TOKEN_TAG)]"

definition remove_access_tokens :: "string \<Rightarrow> string" where
  "remove_access_tokens text = replace_patterns text ACCESS_TOKEN_PATTERNS"

definition remove_markdown_mode :: "string \<Rightarrow> string" where
  "remove_markdown_mode text = replace_patterns text [(seqs [lit ''!!!MARKDOWN_MODE!!!'', star sp], \<lambda>_. [])]"

definition TEXT_SEPARATORS_PATTERN :: regex where
  "TEXT_SEPARATORS_PATTERN = alts
     [seqs [atleast 3 (lit ''-''), plus1 (lit ''='')], seqs [atleast 3 (lit ''=''), plus1 (lit ''-'')],
      times_re 3 (Chr (\<lambda>c. c = bq)), atleast 3 (lit ''-''), atleast 3 (lit ''=''), atleast 3 (lit ''_'')]"

definition CODE_SEPARATOR_REPLACEMENT :: string where
  "CODE_SEPARATOR_REPLACEMENT = ''TEXTDELIMITER''"

definition CODE_SEPARATOR_PATTERNS :: "subst list" where
  "CODE_SEPARATOR_PATTERNS =
     (let s = TEXT_SEPARATORS_PATTERN; d = CODE_SEPARATOR_REPLACEMENT
      in [(seqs [nl_re, s, nl_re], \<lambda>_. '' '' @ d @ [newline]), (seqs [Bol, s, nl_re], \<lambda>_. '' '' @ d @ [newline]),
          (seqs [star sp, s, nl_re], \<lambda>_. '' '' @ d @ [newline]), (seqs [nl_re, s, plus1 sp], \<lambda>_. newline # d @ '' ''),
          (seqs [plus1 sp, s, plus1 sp], \<lambda>_. '' '' @ d @ '' ''), (seqs [Bol, s, star sp], \<lambda>_. d @ '' ''),
          (seqs [plus1 sp, s, Eol], \<lambda>_. '' '' @ d), (seqs [s, Eol], \<lambda>_. '' '' @ d)])"

definition replace_code_separators :: "string \<Rightarrow> string" where
  "replace_code_separators text = replace_patterns text CODE_SEPARATOR_PATTERNS"

definition file_reference_re :: "string \<Rightarrow> regex" where
  "file_reference_re label = seqs [star sp, lit label, lit '': file:/'',
     star (seqs [plus1 (Chr (\<lambda>c. c \<notin> {CHR ''/'', CHR 0x00, CHR 0x0A})), lit ''/'']),
     plus1 (Chr (\<lambda>c. c \<notin> {CHR ''/'', CHR 0x00, CHR 0x0A}))]"

text \<open>\<open>label 'value'\<close>, with a non-empty value.\<close>

definition quoted_value :: regex where
  "quoted_value = seqs [sq_re, plus1 (Chr (\<lambda>c. c \<noteq> sq)), sq_re]"

definition dotted_key :: regex where
  "dotted_key = seqs [plus1 (Chr (\<lambda>c. is_word c \<or> c = CHR ''.'')), lit '': '', quoted_value]"

definition WEBDRIVER_AUXILIARY_PATTERNS :: "regex list" where
  "WEBDRIVER_AUXILIARY_PATTERNS =
     [seqs [opt (seqs [star sp, star (lit ''-''), lit ''>'', star sp]), lit ''Webdriver screenshot captured: '',
        plus1 (Chr (\<lambda>c. c \<notin> {CHR ''/'', CHR 0x00, CHR 0x0A, CHR ''.''})), lit ''.'', plus1 wrd],
      file_reference_re ''Screenshot'', file_reference_re ''Page source'',
      seqs [star sp, lit ''Build info: version: '', quoted_value, lit '', revision: '', quoted_value],
      seqs [star sp, lit ''Driver info: '', plus1 (Chr (\<lambda>c. is_word c \<or> c = CHR ''.''))],
      seqs [star sp, lit ''System info: '', plus1 (seqs [dotted_key, lit '', '']), dotted_key],
      seqs [star sp, lit ''Capabilities {'', plus1 wrd, lit '': '', plus1 dot]]"

definition remove_webdriver_auxiliary_info :: "string \<Rightarrow> string" where
  "remove_webdriver_auxiliary_info text = remove_patterns text WEBDRIVER_AUXILIARY_PATTERNS"

section \<open>The cleaning stages (log_preparation.py, pipeline.clean_log)\<close>

definition basic_prepare :: "string \<Rightarrow> string" where
  "basic_prepare message =
     (let m0 = strip message;
          m1 = remove_starting_log_level m0;
          m2 = remove_starting_datetime m1;
          m3 = remove_starting_log_level m2;
          m4 = remove_starting_thread_id m3;
          m5 = remove_starting_thread_name m4;
          m6 = remove_starting_log_level m5;
          m7 = unify_line_endings m6;
          m8 = remove_markdown_mode m7
      in delete_empty_lines m8)"

definition clean_message :: "(string \<Rightarrow> string) \<Rightarrow> string \<Rightarrow> string" where
  "clean_message utf8 basic =
     (let m1 = replace_code_separators basic;
          m2 = remove_webdriver_auxiliary_info m1;
          m3 = replace_tabs_for_newlines m2;
          m4 = fix_big_encoded_urls utf8 m3;
          m5 = remove_generated_parts m4;
          m6 = remove_guid_uuids_from_text m5;
          m7 = remove_access_tokens m6;
          m8 = remove_hex_from_text m7;
          m9 = clean_html m8
      in delete_empty_lines m9)"

definition unify_message :: "(string \<Rightarrow> string) \<Rightarrow> string \<Rightarrow> string" where
  "unify_message utf8 basic = leave_only_unique_lines (clean_message utf8 basic)"

definition prepare_exception_message_and_stacktrace :: "string \<Rightarrow> string \<times> string" where
  "prepare_exception_message_and_stacktrace message =
     (let (d, s) = detect_log_description_and_stacktrace message
      in (d, remove_numbers (clean_from_brackets s)))"

definition clean_log :: "(string \<Rightarrow> string) \<Rightarrow> string \<Rightarrow> cleaned_log" where
  "clean_log utf8 raw =
     (let basic = basic_prepare raw;
          unified = unify_message utf8 basic;
          (msg, stack_raw) = detect_log_description_and_stacktrace unified;
          stack = remove_numbers (clean_from_brackets stack_raw);
          urls = extract_urls msg
      in \<lparr>cl_unified = unified, cl_msg = msg, cl_stack_raw = stack_raw, cl_stack = stack,
          cl_exceptions = get_found_exceptions unified False,
          cl_status_codes = get_unique_potential_status_codes msg, cl_urls = urls,
          cl_paths = extract_paths (remove_urls msg urls), cl_has_stacktrace = has_text stack_raw\<rparr>)"

text \<open>The lazily computed views of one log (prepared_log.py).\<close>

record prepared_views =
  pv_basic_message :: string
  pv_clean_message :: string
  pv_exception_message :: string
  pv_stacktrace :: string
  pv_urls :: "string list"
  pv_no_urls :: string
  pv_paths :: string
  pv_status_codes :: string
  pv_exception_found :: string

definition prepared_views_of :: "(string \<Rightarrow> string) \<Rightarrow> string \<Rightarrow> prepared_views" where
  "prepared_views_of utf8 message =
     (let basic = basic_prepare message;
          clean = unify_message utf8 basic;
          (exc, stack) = prepare_exception_message_and_stacktrace clean;
          urls = extract_urls exc;
          no_urls = remove_urls exc (get_unique_strings urls)
      in \<lparr>pv_basic_message = basic, pv_clean_message = clean, pv_exception_message = exc,
          pv_stacktrace = stack, pv_urls = urls, pv_no_urls = no_urls,
          pv_paths = join_with '' '' (extract_paths no_urls),
          pv_status_codes = join_with '' '' (get_potential_status_codes exc),
          pv_exception_found = join_with '' '' (get_found_exceptions (remove_numbers exc) False)\<rparr>)"

section \<open>Masking (ml/drain.py)\<close>

definition MASKING_RULES :: "(string \<times> regex) list" where
  "MASKING_RULES =
     [(''URL'', seqs [lit ''http'', opt (lit ''s''), lit ''://'',
         plus1 (Chr (\<lambda>c. \<not> is_space c \<and> c \<notin> {dq, sq, CHR ''<'', CHR ''>''}))]),
      (''IP'', seqs [Bnd, times_re 3 (seqs [rng 1 3 dig, lit ''.'']), rng 1 3 dig,
         opt (seqs [lit '':'', rng 1 5 dig]), Bnd]),
      (''UUID'', seqs [Bnd, hexn 8, lit ''-'', hexn 4, lit ''-'', hexn 4, lit ''-'', hexn 4, lit ''-'', hexn 12, Bnd]),
      (''HEX'', Alt (seqs [Bnd, lit ''0'', oneof ''xX'', plus1 hex_re, Bnd]) (seqs [Bnd, atleast 16 hex_re, Bnd])),
      (''PATH'', seqs [opt (seqs [Chr is_alpha, lit '':'']),
         atleast 2 (seqs [Chr (\<lambda>c. c = bsl \<or> c = CHR ''/''),
           plus1 (Chr (\<lambda>c. is_word c \<or> c = CHR ''.'' \<or> c = CHR ''-''))])]),
      (''NUM'', seqs [Behind False [\<lambda>c. is_word c \<or> c = CHR ''.''], opt (oneof ''-+''), plus1 dig,
         opt (seqs [lit ''.'', plus1 dig]), Look False (Chr (\<lambda>c. is_word c \<or> c = CHR ''.''))])]"

definition mask_text :: "string \<Rightarrow> string" where
  "mask_text text =
     replace_patterns text (map (\<lambda>p. (snd p, \<lambda>_. ''<'' @ fst p @ ''>'')) MASKING_RULES)"

section \<open>The expressions of ml/signature.py\<close>

definition CLASS_SUFFIX_PATTERNS :: "regex list" where
  "CLASS_SUFFIX_PATTERNS =
     [seqs [lit ''$$Lambda'', star dot], seqs [lit ''$$EnhancerBy'', plus1 wrd, star dot],
      seqs [lit ''$Proxy'', plus1 dig], seqs [lit ''..EnhancerBySpring'', star dot],
      seqs [lit ''$'', plus1 dig]]"

definition normalize_class :: "string \<Rightarrow> string" where
  "normalize_class name = remove_patterns name CLASS_SUFFIX_PATTERNS"

definition CHAIN_MARKER :: regex where
  "CHAIN_MARKER = alts (map lit_ci [''caused by:'', ''during handling of the above exception'',
     ''the above exception was the direct cause''])"

definition ASSERTION_RE :: regex where
  "ASSERTION_RE = seqs [lit_ci ''expected'', star dot, alts (map lit_ci [''but was'', ''received'', ''actual''])]"

definition ASSERTION_VALUE_RE :: regex where
  "ASSERTION_VALUE_RE = seqs [Bnd, Grp 1 (alts (map lit_ci [''expected'', ''but was'', ''actual'', ''received''])),
     Bnd, star sp, opt (oneof '':=''), star sp, plus1 (Chr (\<lambda>c. c \<noteq> CHR '','' \<and> c \<noteq> CHR 0x0A))]"

definition frame_char :: regex where
  "frame_char = Chr (\<lambda>c. is_word c \<or> c = CHR ''$'' \<or> c = CHR ''.'')"

definition JAVA_AT_FRAME :: regex where
  "JAVA_AT_FRAME = seqs [Bnd, lit ''at'', plus1 sp, Grp 1 (plus1 frame_char), star sp, lit ''('']"

definition JAVA_BARE_FRAME :: regex where
  "JAVA_BARE_FRAME = seqs [Bol, star sp, Grp 1 (plus1 frame_char), lit ''('', star (noneof '')''), lit '')'',
     star sp, Eol]"

definition PY_FRAME :: regex where
  "PY_FRAME = seqs [lit ''File'', plus1 sp, dq_re, Grp 1 (plus1 (Chr (\<lambda>c. c \<noteq> dq))), dq_re, lit '','', star sp,
     lit ''line'', plus1 sp, plus1 dig, lit '','', star sp, lit ''in'', plus1 sp, Grp 2 (plus1 nsp)]"

definition py_frame_name :: "rmatch \<Rightarrow> string" where
  "py_frame_name m =
     (let base = last (split_on (CHR ''/'') (map (\<lambda>c. if c = bsl then CHR ''/'' else c) (grp 1 m)))
      in re_sub (seqs [lit ''.'', plus1 wrd, Eol]) [] base @ ''.'' @ grp 2 m)"

definition parse_frame :: "string \<Rightarrow> string option" where
  "parse_frame line =
     (case re_search JAVA_AT_FRAME line of
        Some m \<Rightarrow> Some (grp 1 m)
      | None \<Rightarrow> (case re_match JAVA_BARE_FRAME line of
                  Some m \<Rightarrow> Some (grp 1 m)
                | None \<Rightarrow> map_option py_frame_name (re_search PY_FRAME line)))"

text \<open>The text functions of the signature pipeline, of which the miner, XXH3, the matrix of
  similarities and UTF-8 decoding are the libraries'.\<close>

definition text_env_of ::
  "(string \<Rightarrow> string) \<Rightarrow> similarity \<Rightarrow> (string \<Rightarrow> 64 word) \<Rightarrow> ('m \<Rightarrow> string \<Rightarrow> 'm \<times> string) \<Rightarrow> 'm text_env" where
  "text_env_of utf8 matrix xxh mine =
     \<lparr>te_unique = find_last_unique_texts matrix, te_clean = clean_log utf8,
      te_is_frame_line = is_line_from_stacktrace, te_parse_frame = parse_frame,
      te_normalize_class = normalize_class, te_has_chain_marker = (\<lambda>s. re_search CHAIN_MARKER s \<noteq> None),
      te_is_assertion = (\<lambda>s. re_search ASSERTION_RE s \<noteq> None),
      te_mask_assertion = re_sub_with ASSERTION_VALUE_RE (\<lambda>m. grp 1 m @ '' <VAL>''),
      te_mask = mask_text, te_item_name = preprocess_test_item_name,
      te_status_codes = get_potential_status_codes, te_xxh = xxh, te_mine = mine\<rparr>"

section \<open>Properties\<close>

lemma lines_of_join:
  "set ws \<subseteq> set (split_on newline s) \<Longrightarrow> ws \<noteq> [] \<Longrightarrow> split_on newline (join_with [newline] ws) = ws"
  by (rule split_on_join) (use split_on_free in blast)+

text \<open>A text of which every line says something; the empty text has one line, which is blank.\<close>

definition no_blank_line :: "string \<Rightarrow> bool" where
  "no_blank_line s \<longleftrightarrow> s = [] \<or> list_all has_text (split_on newline s)"

lemma no_blank_line_join:
  assumes "set ws \<subseteq> set (split_on newline s)" and "\<forall>w \<in> set ws. has_text w"
  shows "no_blank_line (join_with [newline] ws)"
proof (cases "ws = []")
  case False
  then show ?thesis using assms lines_of_join [OF assms(1)] by (simp add: no_blank_line_def list_all_iff)
qed (simp add: no_blank_line_def)

lemma delete_empty_lines_ok: "no_blank_line (delete_empty_lines s)"
  unfolding delete_empty_lines_def filter_empty_lines_def by (rule no_blank_line_join) auto

lemma dedup_mem: "x \<in> set (dedup_from f seen xs) \<Longrightarrow> x \<in> set xs"
  using dedup_from_subset by fast

lemma unique_lines_keep_text:
  assumes "no_blank_line s"
  shows "no_blank_line (leave_only_unique_lines s)"
proof (cases "s = []")
  case True
  then show ?thesis
    by (simp add: leave_only_unique_lines_def documentation_line_def lower_str_def no_blank_line_def)
next
  case False
  with assms have "\<forall>l \<in> set (split_on newline s). has_text l"
    by (simp add: no_blank_line_def list_all_iff)
  then show ?thesis
    unfolding leave_only_unique_lines_def by (intro no_blank_line_join) (auto dest: dedup_mem)
qed

lemma unique_lines_distinct: "distinct (map strip (split_on newline (leave_only_unique_lines s)))"
proof -
  let ?ws = "dedup_from strip {} (filter (\<lambda>l. \<not> documentation_line l) (split_on newline s))"
  show ?thesis
  proof (cases "?ws = []")
    case False
    have "set ?ws \<subseteq> set (split_on newline s)" by (auto dest: dedup_mem)
    then show ?thesis
      using lines_of_join [OF _ False] dedup_from_distinct
      by (simp add: leave_only_unique_lines_def)
  qed (simp add: leave_only_unique_lines_def)
qed

text \<open>
  The prepared text has no blank line and no repeated line. Whatever the log, the text given to
  template mining and to the split has only lines that say something (or is empty), no two of which are
  equal up to blanks at their ends.
\<close>

theorem unified_text_lines:
  "no_blank_line (cl_unified (clean_log utf8 raw))
   \<and> distinct (map strip (split_on newline (cl_unified (clean_log utf8 raw))))"
proof -
  let ?b = "basic_prepare raw"
  have u: "cl_unified (clean_log utf8 raw) = leave_only_unique_lines (clean_message utf8 ?b)"
    by (simp add: clean_log_def Let_def unify_message_def split: prod.splits)
  have "no_blank_line (clean_message utf8 ?b)"
    unfolding clean_message_def Let_def by (rule delete_empty_lines_ok)
  from unique_lines_keep_text [OF this] unique_lines_distinct show ?thesis unfolding u by blast
qed

text \<open>
  The features of a cleaned log are what their names say. The description and the raw trace are
  exactly the lines of the unified text, the stored trace has no digit left, the status codes are
  pairwise different three-digit codes, and the trace flag says whether the raw trace has any text.
\<close>

theorem cleaned_log_features:
  "(\<exists>ds st. cl_msg (clean_log utf8 raw) = join_with [newline] ds
       \<and> cl_stack_raw (clean_log utf8 raw) = join_with [newline] st \<and> ds \<noteq> []
       \<and> mset ds + mset st = mset (split_on newline (cl_unified (clean_log utf8 raw))))
   \<and> list_all (\<lambda>c. \<not> is_digit c) (cl_stack (clean_log utf8 raw))
   \<and> list_all is_http_code (cl_status_codes (clean_log utf8 raw))
   \<and> distinct (cl_status_codes (clean_log utf8 raw))
   \<and> cl_has_stacktrace (clean_log utf8 raw) = has_text (cl_stack_raw (clean_log utf8 raw))"
proof -
  define u where "u = unify_message utf8 (basic_prepare raw)"
  obtain d s where p: "detect_log_description_and_stacktrace u = (d, s)" by fastforce
  have c: "cl_unified (clean_log utf8 raw) = u" "cl_msg (clean_log utf8 raw) = d"
      "cl_stack_raw (clean_log utf8 raw) = s"
      "cl_stack (clean_log utf8 raw) = remove_numbers (clean_from_brackets s)"
      "cl_status_codes (clean_log utf8 raw) = get_unique_potential_status_codes d"
      "cl_has_stacktrace (clean_log utf8 raw) = has_text s"
    using p by (simp_all add: clean_log_def Let_def u_def)
  have codes: "list_all is_http_code (get_unique_potential_status_codes d)"
      "distinct (get_unique_potential_status_codes d)"
    using potential_codes_ok [of d] unique_strings_ok [of "get_potential_status_codes d"]
    by (simp_all add: get_unique_potential_status_codes_def list_all_iff)
  show ?thesis
    unfolding c using detect_splits [of u] p codes
    by (auto simp: splits_log_def parts_of_def remove_numbers_digit_free)
qed

text \<open>
  Only HTTP codes become codes of a signature. With the program's own text functions, whatever the
  logs, the miner, the similarities and the hash, the status codes of an item's signature are
  three-digit codes from 100 to 599.
\<close>

theorem signature_codes_are_http_codes:
  "list_all is_http_code
     (sr_status_codes (snd (build_item_signature (text_env_of utf8 matrix xxh mine) max_lines name logs miner)))"
proof -
  let ?env = "text_env_of utf8 matrix xxh mine"
  have "list_all is_http_code (sr_status_codes (signature_of_logs ?env name ps pre ctx))" for ps pre ctx
    by (simp add: signature_of_logs_def empty_signature_def Let_def text_env_of_def potential_codes_ok
      split: option.splits)
  then show ?thesis
    by (simp add: build_item_signature_def Let_def empty_signature_def split: prod.splits)
qed

text \<open>Masking twice is not masking once: a hexadecimal run glued to a drive letter is masked only when
  the path behind it has already gone.\<close>

lemma masking_not_idempotent:
  "mask_text ''deadbeefdeadbeefZ:/a/b'' = ''deadbeefdeadbeef<PATH>''
   \<and> mask_text ''deadbeefdeadbeef<PATH>'' = ''<HEX><PATH>''"
  by code_simp

text \<open>A hexadecimal run cut off by dots is a truncated identifier only when a word goes on directly
  behind the dots.\<close>

lemma truncated_identifier_kept:
  "remove_guid_uuids_from_text ''deadbeefde... x'' = ''deadbeefde... x''
   \<and> remove_guid_uuids_from_text ''deadbeefde...x'' = ''SPECIALUUIDx''"
  by code_simp

end
