(* ===== verification/Spec2Isabelle.thy ===== *)
theory Spec2Isabelle
  imports LlmWiring Rubric Bootstrap Transport SeedCatalog Service InspectorViews Dispatcher Retraining Handlers Sanitizer Excerpt TextCleaning
begin

text \<open>
  The analyzer of a test-reporting service: a Python program that receives AMQP messages about failed
  test items, proposes or applies a defect type for each of them, and learns from what people answer.
  File names below are relative to \<open>src/src/analyzer_ng\<close>.

  How the parts interact. A message reaches a handler through the dispatcher and its worker pool
  (\<open>amqp/dispatcher.py\<close>). The \<open>index\<close> handler turns the logs of an item into a failure signature and
  stores it. The \<open>analyze\<close> and \<open>suggest\<close> handlers group the items of a launch, retrieve similar items
  and failure modes, extract a feature vector and decide; they write a suggestion row for every item,
  label the items they are sure of, and leave jobs for the LLM sidecar. \<open>defect_update\<close> is what people
  answered: it relabels items, appends to the label log and asks for a retrain. The retrainer builds a
  model from the label log, a gate compares it with the live one, and serving swaps it in. The sidecar
  works through its queue behind a circuit breaker and a cache, and may annotate what is stored.

  The theories, in the order they build on each other:

  \<^item> \<open>Prelude\<close> - Python's list and string functions the code uses, \<open>max\<close> with a key among them.
  \<^item> \<open>Features\<close> (\<open>core/features.py\<close>) - the registry of 64 features and every group of
    \<open>extract_features\<close>; ranges, one-hot blocks, history shares.
  \<^item> \<open>Decision\<close> (\<open>core/decision.py\<close>) - Stage A, the knowledge-base stage, the model's bands and floors,
    the cold fallback, \<open>decide\<close>; what an automatic label rests on.
  \<^item> \<open>Grouping\<close>, \<open>Scope\<close> (\<open>core/grouping.py\<close>, \<open>core/scope.py\<close>) - the three passes of \<open>group_launch\<close>; the
    scope filter and its boosts.
  \<^item> \<open>Tables\<close>, \<open>Store\<close>, \<open>Kb\<close> (\<open>db/repositories/\<close>) - a table is a list of rows with its key; \<open>db\<close> is the
    record of all tables; one definition per SQL statement. \<open>StoreSpec\<close> has the invariants over any
    sequence of statements (\<open>store_step\<close>) and what deletes, the reaper and the training frame promise.
  \<^item> \<open>Signature\<close> (\<open>ml/hashing.py\<close>, \<open>ml/drain.py\<close>, \<open>preprocessing/pipeline.py\<close>, \<open>ml/signature.py\<close>) - from
    logs to the signature document and its two hashes, for any text functions (\<open>text_env\<close>).
  \<^item> \<open>Regex\<close> - Python's \<open>re\<close> as a backtracking matcher, with the declarative meaning of an expression and
    the proof that the matcher lists exactly the matches. \<open>TextLines\<close>, \<open>TextCleaning\<close>
    (\<open>preprocessing/text_processing.py\<close>, \<open>log_preparation.py\<close>, \<open>prepared_log.py\<close>, the expressions of
    \<open>ml/drain.py\<close> and \<open>ml/signature.py\<close>) - every expression and function on text; \<open>text_env_of\<close> is the
    \<open>text_env\<close> of the program.
  \<^item> \<open>Ingest\<close> (\<open>core/ingest.py\<close>, \<open>amqp/models.py\<close>, \<open>db/repositories/drain3_state.py\<close>) - wire messages, the
    read-path analyses and the \<open>index\<close> route with its compare-and-swap loop.
  \<^item> \<open>Matching\<close>, \<open>Analysis\<close>, \<open>Suggest\<close> (\<open>core/analysis.py\<close>) - identity, the three retrieval stages and the
    decision of one item; \<open>analyze\<close>, the early pass, \<open>cluster\<close> and \<open>search\<close>; the rows of \<open>suggest\<close>.
    \<open>AnalysisSpec\<close> and \<open>SuggestSpec\<close> have the properties that span them.
  \<^item> \<open>Handlers\<close> (\<open>core/handlers.py\<close>) - the other routes, and the whole service as a step relation
    \<open>service_step\<close>; it refines into \<open>store_step\<close> and has the invariants of every reachable state.
  \<^item> \<open>Breaker\<close>, \<open>LlmQueue\<close>, \<open>Json\<close>, \<open>LlmCache\<close>, \<open>LlmEngine\<close> (\<open>llm/\<close>, \<open>db/repositories/llm_cache.py\<close>) - the
    sidecar: the breaker's state machine, the priority queue, schema validation, the cache and one run
    of a role. \<open>LlmClient\<close> (\<open>llm/client.py\<close>) - what a request contains and how an answer is read.
    \<open>LlmRoles\<close>, \<open>Rubric\<close> (\<open>llm/roles/\<close>) - prompts, schemas and readers of the four roles, the clean-up of
    the cold-start answer; \<open>Sanitizer\<close> and \<open>Excerpt\<close> what a prompt may contain. \<open>LlmApply\<close> is what a
    validated answer may write; \<open>LlmWiring\<close> (\<open>llm/manager.py\<close>, \<open>llm/wiring.py\<close>) the manager, the loaders
    of facts and the worker's job; \<open>LlmEval\<close> (\<open>llm/eval.py\<close>) the nightly comparison and its switches.
  \<^item> \<open>ModelStore\<close>, \<open>Evaluation\<close>, \<open>Retraining\<close> (\<open>ml/\<close>) - artifacts and hot-swapped serving, the offline
    evaluation and the ship gate, the retrainer with its scheduler and nightly timer.
  \<^item> \<open>Dispatcher\<close> (\<open>amqp/dispatcher.py\<close>, \<open>core/cancellation.py\<close>) - routes, one message with its retries and
    dead letter, the worker pool as a step relation. \<open>Transport\<close> (\<open>amqp/client.py\<close>, \<open>amqp/consumer.py\<close>) -
    connecting with retries, the outbound queue and its publishing, what a consumer does with a delivery.
  \<^item> \<open>SeedCatalog\<close> (\<open>seeds/\<close>) - loading and checking the packaged catalogue, its rules, the copies.
    \<open>Reporting\<close> (\<open>ml/reporting.py\<close>, \<open>ml/early_replay.py\<close>, \<open>db/repositories/stats.py\<close>) - the rollup of a
    day and the replay of snapshots as groups of one.
  \<^item> \<open>Migrate\<close>, \<open>Urls\<close>, \<open>Bootstrap\<close> (\<open>db/migrate.py\<close>, \<open>db/startup.py\<close>) - the migration runner and its
    statement splitter, credentials in connection strings, and the start of the database with its
    version checks, retries and exit codes. \<open>Service\<close> (\<open>config.py\<close>, \<open>main.py\<close>, \<open>service.py\<close>, \<open>api/http.py\<close>)
    - the computed configuration, health, the logging context, the nightly jobs and the shutdown.
  \<^item> \<open>Inspector\<close>, \<open>InspectorViews\<close> (\<open>inspector/backend/payloads.py\<close>, \<open>features_meta.py\<close>, beside the service)
    - the read-only views on the same tables: how a stored decision is explained, which explanations and
    guesses are carried to a newer row, the explorers, and that each view stays in its project.

  State and effects. Each operation takes the state it reads and returns it updated; an exception is
  \<open>None\<close> or the left of a sum. Time is a real number of seconds and an argument. Locks make an
  operation one step; where the code releases them (the worker pool, the scheduler, the miner's load and
  save, the two loads of serving) other threads act in between, as a step relation or as an argument
  that says what they did. Floats are reals; hashes are 64-bit words.

  Bounds. No definition needs fuel that could run out: retries recurse on the attempts left, the miner's
  loop on \<open>pi_cas_retries\<close>, the excerpt and signature truncations on the length they still may cut.
  Connecting to the broker is a partial function, as it waits for a clock; it is proved to end for every
  clock that does not run backwards and every positive pause. The other step relations (the service, the
  worker pool, the publisher, the shutdown) are unbounded.

  Not modelled, and therefore an argument: SQL's hybrid ranking queries and the vector distance,
  LightGBM, isotonic fitting, Drain3, XXH3, the embedding model, JSON and YAML parsing, SHA-256, the HTTP
  answers of the chat server, what PostgreSQL and the broker answer, UTF-8 decoding and the TF-IDF
  matrix. Texts are ASCII: the classes of word characters, digits and blanks, and case folding, are read
  on that range. Left out: pika, uvicorn and psycopg themselves and the connection pool, the fields of
  the configuration that are only stored, Prometheus metrics, the generator of the partition DDL, and the
  separate programs beside the service (the shell of the inspector, demo data, migration tool).
\<close>

end
